(* ===== verification/Prelude.thy ===== *)
theory Prelude
  imports Complex_Main "HOL-Library.Multiset"
begin

text \<open>
  The vocabulary the component theories share.

  Numbers. A TypeScript \<open>number\<close> that the code only counts with is an \<open>int\<close>; one that carries a
  price, a weight or a virtual time is an exact \<open>rat\<close> (the rounding of binary floating point is
  not modelled). \<open>Number.POSITIVE_INFINITY\<close> is the constructor \<open>Unbounded\<close> of \<open>bound\<close>.

  Objects keyed by strings (\<open>Map<string, V>\<close>, \<open>Record<string, V>\<close>) are partial maps
  \<open>string \<rightharpoonup> 'v\<close> where the code only looks keys up, and association lists in insertion order where
  it iterates over them.

  Errors. A call that throws returns \<open>Inl err\<close>; \<open>app_error\<close> has one constructor for each error
  class of packages/contracts that the modelled code throws, with its code and message.
\<close>

named_theorems counters \<open>how counter maps and tallies behave under an update\<close>
named_theorems invariants \<open>operations that keep a component's invariant\<close>

subsection \<open>Error values\<close>

datatype app_error =
    PaymentRequired string string
  | NotFound string string
  | Conflict string string
  | BadRequest string string
  | RateLimit string string
  | Forbidden string string
  | Internal string string

type_synonym 'a res = "app_error + 'a"

abbreviation throws :: "'a res \<Rightarrow> bool" where
  "throws r \<equiv> (\<exists>e. r = Inl e)"

text \<open>A call whose error is passed on.\<close>

definition bind_res :: "'a res \<Rightarrow> ('a \<Rightarrow> 'b res) \<Rightarrow> 'b res" where
  "bind_res r f = (case r of Inl e \<Rightarrow> Inl e | Inr x \<Rightarrow> f x)"

lemma bind_res_simps [simp]:
  "bind_res (Inl e) f = Inl e" "bind_res (Inr x) f = f x"
  by (simp_all add: bind_res_def)

lemma bind_res_Inr [simp]: "bind_res r f = Inr y \<longleftrightarrow> (\<exists>x. r = Inr x \<and> f x = Inr y)"
  by (cases r) (simp_all add: bind_res_def)

subsection \<open>Text\<close>

text \<open>\<open>String(n)\<close>\<close>

fun decimal_rev :: "nat \<Rightarrow> string" where
  "decimal_rev n = char_of (48 + n mod 10) # (if n < 10 then [] else decimal_rev (n div 10))"

declare decimal_rev.simps [simp del]

definition decimal :: "nat \<Rightarrow> string" where
  "decimal n = rev (decimal_rev n)"

text \<open>White space and the case mapping, on the characters of one byte: \<open>trim\<close>, \<open>toLowerCase\<close>.\<close>

definition js_space :: "char \<Rightarrow> bool" where
  "js_space c \<longleftrightarrow> (let n = of_char c :: nat in 9 \<le> n \<and> n \<le> 13 \<or> n = 32 \<or> n = 160)"

definition js_trim :: "string \<Rightarrow> string" where
  "js_trim s = rev (dropWhile js_space (rev (dropWhile js_space s)))"

definition js_lower :: "char \<Rightarrow> char" where
  "js_lower c =
     (let n = of_char c :: nat in
      if 65 \<le> n \<and> n \<le> 90 \<or> 192 \<le> n \<and> n \<le> 222 \<and> n \<noteq> 215 then char_of (n + 32) else c)"

text \<open>\<open>s.includes(t)\<close>\<close>

fun text_includes :: "string \<Rightarrow> string \<Rightarrow> bool" where
  "text_includes [] t \<longleftrightarrow> t = []"
| "text_includes (c # s) t \<longleftrightarrow> take (length t) (c # s) = t \<or> text_includes s t"

text \<open>\<open>s.split(c)\<close> for a single character, and \<open>xs.join(c)\<close>.\<close>

fun split_on :: "char \<Rightarrow> string \<Rightarrow> string list" where
  "split_on c [] = [[]]"
| "split_on c (x # s) =
     (if x = c then [] # split_on c s
      else (case split_on c s of [] \<Rightarrow> [[x]] | p # ps \<Rightarrow> (x # p) # ps))"

fun join_with :: "char \<Rightarrow> string list \<Rightarrow> string" where
  "join_with c [] = []"
| "join_with c [x] = x"
| "join_with c (x # y # ys) = x @ c # join_with c (y # ys)"

lemma split_on_first: "c \<notin> set a \<Longrightarrow> split_on c (a @ c # s) = a # split_on c s"
  by (induction a) auto

lemma split_on_nonempty [simp]: "split_on c s \<noteq> []"
  by (induction s) (auto split: list.split)

lemma join_split_on: "join_with c (split_on c s) = s"
proof (induction s)
  case (Cons x s)
  obtain p ps where "split_on c s = p # ps" using split_on_nonempty by (meson list.exhaust)
  then show ?case using Cons by (cases ps) auto
qed simp

subsection \<open>Bounds that may be infinite\<close>

datatype bound = Finite int | Unbounded

fun le_bound :: "int \<Rightarrow> bound \<Rightarrow> bool" where
  "le_bound n (Finite m) \<longleftrightarrow> n \<le> m"
| "le_bound n Unbounded \<longleftrightarrow> True"

text \<open>\<open>n >= b\<close> of the code, false for an infinite bound.\<close>

fun ge_bound :: "int \<Rightarrow> bound \<Rightarrow> bool" where
  "ge_bound n (Finite m) \<longleftrightarrow> m \<le> n"
| "ge_bound n Unbounded \<longleftrightarrow> False"

definition bound_of :: "int option \<Rightarrow> bound" where
  "bound_of x = (case x of None \<Rightarrow> Unbounded | Some n \<Rightarrow> Finite n)"

fun bound_minus :: "bound \<Rightarrow> int \<Rightarrow> bound" where
  "bound_minus (Finite m) n = Finite (m - n)"
| "bound_minus Unbounded n = Unbounded"

fun is_finite_bound :: "bound \<Rightarrow> bool" where
  "is_finite_bound (Finite n) \<longleftrightarrow> True"
| "is_finite_bound Unbounded \<longleftrightarrow> False"

lemma ge_bound_iff [simp]: "ge_bound n b \<longleftrightarrow> \<not> le_bound (n + 1) b"
  by (cases b) auto

lemma le_bound_minus [simp]: "le_bound n (bound_minus b m) \<longleftrightarrow> le_bound (n + m) b"
  by (cases b) auto

lemma le_bound_mono: "le_bound n b \<Longrightarrow> m \<le> n \<Longrightarrow> le_bound m b"
  by (cases b) auto

subsection \<open>Reading a map with a default\<close>

text \<open>\<open>map.get(key) ?? d\<close>\<close>

definition get_or :: "'v \<Rightarrow> ('k \<rightharpoonup> 'v) \<Rightarrow> 'k \<Rightarrow> 'v" where
  "get_or d m k = (case m k of None \<Rightarrow> d | Some v \<Rightarrow> v)"

lemma get_or_upd [simp]: "get_or d (m(k \<mapsto> v)) k' = (if k' = k then v else get_or d m k')"
  by (simp add: get_or_def)

lemma get_or_del [simp]: "get_or d (m(k := None)) k' = (if k' = k then d else get_or d m k')"
  by (simp add: get_or_def)

lemma get_or_empty [simp]: "get_or d Map.empty k = d"
  by (simp add: get_or_def)

subsection \<open>Lists\<close>

text \<open>\<open>xs.findIndex(p)\<close>, \<open>None\<close> for -1.\<close>

fun find_index :: "('a \<Rightarrow> bool) \<Rightarrow> 'a list \<Rightarrow> nat option" where
  "find_index p [] = None"
| "find_index p (x # xs) = (if p x then Some 0 else map_option Suc (find_index p xs))"

lemma find_index_None [simp]: "find_index p xs = None \<longleftrightarrow> (\<forall>x \<in> set xs. \<not> p x)"
  by (induction xs) auto

lemma find_index_Some:
  "find_index p xs = Some i \<Longrightarrow> i < length xs \<and> p (xs ! i) \<and> (\<forall>j < i. \<not> p (xs ! j))"
proof (induction xs arbitrary: i)
  case Nil
  then show ?case by simp
next
  case (Cons x xs)
  show ?case
  proof (cases "p x")
    case True
    with Cons.prems show ?thesis by simp
  next
    case False
    with Cons.prems obtain k where k: "find_index p xs = Some k" "i = Suc k"
      by auto
    with Cons.IH [OF k(1)] False show ?thesis
      by (auto simp: less_Suc_eq_0_disj)
  qed
qed

text \<open>\<open>xs.splice(i, 1)\<close> as an update of the list.\<close>

definition drop_nth :: "nat \<Rightarrow> 'a list \<Rightarrow> 'a list" where
  "drop_nth i xs = take i xs @ drop (Suc i) xs"

lemma drop_nth_0 [simp]: "drop_nth 0 (x # xs) = xs"
  by (simp add: drop_nth_def)

lemma drop_nth_Suc [simp]: "drop_nth (Suc i) (x # xs) = x # drop_nth i xs"
  by (simp add: drop_nth_def)

lemma mset_drop_nth: "i < length xs \<Longrightarrow> mset (drop_nth i xs) = mset xs - {# xs ! i #}"
  by (metis add_mset_remove_trivial drop_nth_def id_take_nth_drop mset.simps(2) mset_append
      union_mset_add_mset_right)

lemma set_drop_nth_subset: "set (drop_nth i xs) \<subseteq> set xs"
  by (auto simp: drop_nth_def dest: in_set_takeD in_set_dropD)

lemma sorted_wrt_drop_nth: "sorted_wrt P xs \<Longrightarrow> sorted_wrt P (drop_nth i xs)"
proof (induction xs arbitrary: i)
  case Nil
  then show ?case by (simp add: drop_nth_def)
next
  case (Cons x xs)
  show ?case
  proof (cases i)
    case 0
    with Cons.prems show ?thesis by simp
  next
    case (Suc k)
    have "sorted_wrt P (drop_nth k xs)" and "\<forall>y \<in> set (drop_nth k xs). P x y"
      using Cons set_drop_nth_subset [of k xs] by auto
    with Suc show ?thesis by simp
  qed
qed

lemma distinct_drop_nth: "distinct xs \<Longrightarrow> distinct (drop_nth i xs)"
  by (auto simp: drop_nth_def set_take_disj_set_drop_if_distinct)

lemma map_drop_nth: "map f (drop_nth i xs) = drop_nth i (map f xs)"
  by (simp add: drop_nth_def take_map drop_map)

lemma length_drop_nth: "i < length xs \<Longrightarrow> length (drop_nth i xs) = length xs - 1"
  by (simp add: drop_nth_def)

lemma set_drop_nth_distinct:
  "distinct xs \<Longrightarrow> i < length xs \<Longrightarrow> set (drop_nth i xs) = set xs - {xs ! i}"
proof (induction xs arbitrary: i)
  case Nil
  then show ?case by simp
next
  case (Cons x xs)
  then show ?case by (cases i) auto
qed

subsection \<open>Maps and sets that are iterated\<close>

text \<open>\<open>m.set(k, f(m.get(k)))\<close> on a \<open>Map\<close>: a key keeps its place, a new one goes last.\<close>

fun set_key :: "'k \<Rightarrow> ('v option \<Rightarrow> 'v) \<Rightarrow> ('k \<times> 'v) list \<Rightarrow> ('k \<times> 'v) list" where
  "set_key k f [] = [(k, f None)]"
| "set_key k f ((k', v) # m) = (if k' = k then (k', f (Some v)) # m else (k', v) # set_key k f m)"

lemma map_of_set_key [simp]: "map_of (set_key k f m) = (map_of m)(k \<mapsto> f (map_of m k))"
  by (induction k f m rule: set_key.induct) auto

lemma keys_set_key [simp]: "fst ` set (set_key k f m) = insert k (fst ` set m)"
  by (induction k f m rule: set_key.induct) auto

lemma distinct_set_key [simp]: "distinct (map fst (set_key k f m)) \<longleftrightarrow> distinct (map fst m)"
proof (induction k f m rule: set_key.induct)
  case (2 k f k' v m)
  have "k' \<in> fst ` set (set_key k f m) \<longleftrightarrow> k' = k \<or> k' \<in> fst ` set m" by auto
  then show ?case using 2 by simp
qed simp

text \<open>\<open>[...new Set(xs)]\<close>: the first occurrences.\<close>

definition firsts :: "'a list \<Rightarrow> 'a list" where
  "firsts xs = rev (remdups (rev xs))"

lemma set_firsts [simp]: "set (firsts xs) = set xs"
  by (simp add: firsts_def)

lemma distinct_firsts [simp]: "distinct (firsts xs)"
  by (simp add: firsts_def)

lemma firsts_Nil_iff [simp]: "firsts xs = [] \<longleftrightarrow> xs = []"
  by (simp add: firsts_def)

end
