(* ===== verification/FairQueue.thy ===== *)
theory FairQueue
  imports Prelude
begin

text \<open>
  The weighted fair queue of packages/domain/src/placement/fair-queue.ts: each item gets a virtual
  finish time on \<open>enqueue\<close>, and the nodes are kept in ascending order of it.
\<close>

record 'a fair_node =
  item :: 'a
  tenant :: string
  vf :: rat
  seq :: int

text \<open>Items are compared by reference in the code (\<open>n.item === item\<close>); here by equality, so a
  client enqueues handles of its objects.\<close>

record 'a fq_options =
  tenantOf :: "'a \<Rightarrow> string"
  weightFor :: "(string \<Rightarrow> rat) option"

record 'a fair_queue =
  nodes :: "'a fair_node list"
  lastVf :: "string \<rightharpoonup> rat"
  vclock :: rat
  next_seq :: int

definition new_fair_queue :: "'a fair_queue" where
  "new_fair_queue = \<lparr>nodes = [], lastVf = Map.empty, vclock = 0, next_seq = 0\<rparr>"

definition fq_size :: "'a fair_queue \<Rightarrow> nat" where
  "fq_size q = length (nodes q)"

definition weight_of :: "'a fq_options \<Rightarrow> string \<Rightarrow> rat" where
  "weight_of opts t = max (1 / 1000000000) (case weightFor opts of None \<Rightarrow> 1 | Some w \<Rightarrow> w t)"

text \<open>The finish time that \<open>enqueue\<close> would give an item of tenant \<open>t\<close>.\<close>

definition finish_time :: "'a fq_options \<Rightarrow> 'a fair_queue \<Rightarrow> string \<Rightarrow> rat" where
  "finish_time opts q t = max (vclock q) (get_or 0 (lastVf q) t) + 1 / weight_of opts t"

text \<open>The binary search of \<open>enqueue\<close>: \<open>nodes[mid]\<close> is in range whenever it is read.\<close>

function upper_bound :: "'a fair_node list \<Rightarrow> rat \<Rightarrow> nat \<Rightarrow> nat \<Rightarrow> nat" where
  "upper_bound ns v lo hi =
     (if lo < hi then
        let mid = (lo + hi) div 2
        in if mid < length ns \<and> vf (ns ! mid) \<le> v then upper_bound ns v (mid + 1) hi
           else upper_bound ns v lo mid
      else lo)"
  by pat_completeness auto
termination
  by (relation "measure (\<lambda>(ns, v, lo, hi). hi - lo)") (auto simp: Let_def)

declare upper_bound.simps [simp del]

definition fq_enqueue :: "'a fq_options \<Rightarrow> 'a \<Rightarrow> 'a fair_queue \<Rightarrow> 'a fair_queue" where
  "fq_enqueue opts x q =
     (let t = tenantOf opts x;
          v = finish_time opts q t;
          node = \<lparr>item = x, tenant = t, vf = v, seq = next_seq q\<rparr>;
          lo = upper_bound (nodes q) v 0 (length (nodes q))
      in q\<lparr>nodes := take lo (nodes q) @ node # drop lo (nodes q),
           lastVf := (lastVf q)(t \<mapsto> v),
           next_seq := next_seq q + 1\<rparr>)"

definition fq_ordered :: "'a fair_queue \<Rightarrow> 'a list" where
  "fq_ordered q = map item (nodes q)"

definition fq_promote :: "'a \<Rightarrow> 'a fair_queue \<Rightarrow> bool \<times> 'a fair_queue" where
  "fq_promote x q =
     (case find_index (\<lambda>n. item n = x) (nodes q) of
        None \<Rightarrow> (False, q)
      | Some idx \<Rightarrow>
          if idx = 0 then (True, q)
          else let node = nodes q ! idx;
                   rest = drop_nth idx (nodes q);
                   node' = (case rest of
                              [] \<Rightarrow> node
                            | h # _ \<Rightarrow> node\<lparr>vf := vf h, seq := seq h - 1\<rparr>)
               in (True, q\<lparr>nodes := node' # rest\<rparr>))"

definition fq_remove :: "'a \<Rightarrow> 'a fair_queue \<Rightarrow> bool \<times> 'a fair_queue" where
  "fq_remove x q =
     (case find_index (\<lambda>n. item n = x) (nodes q) of
        None \<Rightarrow> (False, q)
      | Some idx \<Rightarrow>
          (True, q\<lparr>nodes := drop_nth idx (nodes q),
                    vclock := max (vclock q) (vf (nodes q ! idx))\<rparr>))"

fun tally :: "('k \<rightharpoonup> nat) \<Rightarrow> 'k list \<Rightarrow> ('k \<rightharpoonup> nat)" where
  "tally m [] = m"
| "tally m (k # ks) = tally (m(k \<mapsto> get_or 0 m k + 1)) ks"

definition fq_queuedByTenant :: "'a fair_queue \<Rightarrow> (string \<rightharpoonup> nat)" where
  "fq_queuedByTenant q = tally Map.empty (map tenant (nodes q))"


subsection \<open>The insertion point\<close>

abbreviation before :: "'a fair_node \<Rightarrow> 'a fair_node \<Rightarrow> bool" where
  "before a b \<equiv> vf a < vf b \<or> vf a = vf b \<and> seq a < seq b"

lemma upper_bound_correct:
  assumes "sorted_wrt (\<lambda>a b. vf a \<le> vf b) ns" "lo \<le> hi" "hi \<le> length ns"
    and "\<forall>i < lo. vf (ns ! i) \<le> v" and "\<forall>i. hi \<le> i \<and> i < length ns \<longrightarrow> v < vf (ns ! i)"
  shows "upper_bound ns v lo hi \<le> length ns
    \<and> (\<forall>i < upper_bound ns v lo hi. vf (ns ! i) \<le> v)
    \<and> (\<forall>i. upper_bound ns v lo hi \<le> i \<and> i < length ns \<longrightarrow> v < vf (ns ! i))"
  using assms
proof (induction ns v lo hi rule: upper_bound.induct)
  case (1 ns v lo hi)
  let ?mid = "(lo + hi) div 2"
  have mono: "vf (ns ! i) \<le> vf (ns ! j)" if "i \<le> j" "j < length ns" for i j
    using "1.prems"(1) that by (cases "i = j") (auto simp: sorted_wrt_iff_nth_less)
  show ?case
  proof (cases "lo < hi")
    case False
    then have "upper_bound ns v lo hi = lo" by (simp add: upper_bound.simps)
    with False "1.prems" show ?thesis by auto
  next
    case True
    then have mid: "lo \<le> ?mid" "?mid < hi" by auto
    show ?thesis
    proof (cases "vf (ns ! ?mid) \<le> v")
      case le: True
      have len: "?mid < length ns" using mid "1.prems"(3) by linarith
      then have "\<forall>i < ?mid + 1. vf (ns ! i) \<le> v"
        using mono [of _ ?mid] le by (auto simp: less_Suc_eq_le intro: order_trans)
      moreover have "upper_bound ns v lo hi = upper_bound ns v (?mid + 1) hi"
        using True len le by (simp add: upper_bound.simps [of ns v lo hi] Let_def)
      moreover have "?mid + 1 \<le> hi" using mid by linarith
      ultimately show ?thesis
        using "1.IH"(1) [OF True refl] len le "1.prems"(1,3,5) by presburger
    next
      case gt: False
      have "\<forall>i. ?mid \<le> i \<and> i < length ns \<longrightarrow> v < vf (ns ! i)"
        using mono [of ?mid] gt by (meson linorder_not_le order_trans)
      moreover have "upper_bound ns v lo hi = upper_bound ns v lo ?mid"
        using True gt by (simp add: upper_bound.simps [of ns v lo hi] Let_def)
      moreover have "?mid \<le> length ns" using mid "1.prems"(3) by linarith
      ultimately show ?thesis
        using "1.IH"(2) [OF True refl] gt mid(1) "1.prems"(1,4) by presburger
    qed
  qed
qed

lemma takeWhile_cut:
  assumes "n \<le> length xs" "\<forall>i < n. P (xs ! i)" "\<forall>i. n \<le> i \<and> i < length xs \<longrightarrow> \<not> P (xs ! i)"
  shows "takeWhile P xs = take n xs \<and> dropWhile P xs = drop n xs"
proof -
  have "takeWhile P xs = take n xs"
    using assms by (intro takeWhile_eq_take_P_nth) auto
  moreover from this have "take n xs @ dropWhile P xs = take n xs @ drop n xs"
    using takeWhile_dropWhile_id [of P xs] by (simp only: append_take_drop_id)
  ultimately show ?thesis by (simp only: same_append_eq simp_thms)
qed

lemma upper_bound_takeWhile:
  assumes "sorted_wrt (\<lambda>a b. vf a \<le> vf b) ns"
  shows "takeWhile (\<lambda>n. vf n \<le> v) ns = take (upper_bound ns v 0 (length ns)) ns
    \<and> dropWhile (\<lambda>n. vf n \<le> v) ns = drop (upper_bound ns v 0 (length ns)) ns"
proof -
  have "upper_bound ns v 0 (length ns) \<le> length ns
    \<and> (\<forall>i < upper_bound ns v 0 (length ns). vf (ns ! i) \<le> v)
    \<and> (\<forall>i. upper_bound ns v 0 (length ns) \<le> i \<and> i < length ns \<longrightarrow> v < vf (ns ! i))"
    by (rule upper_bound_correct [OF assms]) simp_all
  then show ?thesis by (intro takeWhile_cut) (simp_all add: not_le)
qed

subsection \<open>The invariant\<close>

definition fq_inv :: "'a fq_options \<Rightarrow> 'a fair_queue \<Rightarrow> bool" where
  "fq_inv opts q \<longleftrightarrow>
     sorted_wrt before (nodes q)
     \<and> (\<forall>n \<in> set (nodes q). seq n < next_seq q \<and> tenant n = tenantOf opts (item n)
           \<and> vf n \<le> get_or 0 (lastVf q) (tenant n))"

lemma fq_inv_vf_sorted: "fq_inv opts q \<Longrightarrow> sorted_wrt (\<lambda>a b. vf a \<le> vf b) (nodes q)"
  unfolding fq_inv_def by (auto elim: sorted_wrt_mono_rel [rotated])

lemma weight_of_pos [simp]: "0 < weight_of opts t"
  by (simp add: weight_of_def less_max_iff_disj)

lemma finish_time_gt:
  "vclock q < finish_time opts q t" "get_or 0 (lastVf q) t < finish_time opts q t"
proof -
  have "0 < 1 / weight_of opts t" by simp
  then show "vclock q < finish_time opts q t" "get_or 0 (lastVf q) t < finish_time opts q t"
    unfolding finish_time_def by linarith+
qed

text \<open>What \<open>enqueue\<close> does to the nodes, without the binary search.\<close>

definition stamp :: "'a fq_options \<Rightarrow> 'a \<Rightarrow> 'a fair_queue \<Rightarrow> 'a fair_node" where
  "stamp opts x q = \<lparr>item = x, tenant = tenantOf opts x,
     vf = finish_time opts q (tenantOf opts x), seq = next_seq q\<rparr>"

lemma stamp_simps [simp]:
  "item (stamp opts x q) = x" "tenant (stamp opts x q) = tenantOf opts x"
  "vf (stamp opts x q) = finish_time opts q (tenantOf opts x)" "seq (stamp opts x q) = next_seq q"
  by (simp_all add: stamp_def)

lemma fq_enqueue_simps [simp]:
  "lastVf (fq_enqueue opts x q) = (lastVf q)(tenantOf opts x \<mapsto> vf (stamp opts x q))"
  "vclock (fq_enqueue opts x q) = vclock q"
  "next_seq (fq_enqueue opts x q) = next_seq q + 1"
  by (simp_all add: fq_enqueue_def Let_def)

lemma mset_nodes_enqueue:
  "mset (nodes (fq_enqueue opts x q)) = add_mset (stamp opts x q) (mset (nodes q))"
  by (simp add: fq_enqueue_def Let_def stamp_def) (metis append_take_drop_id mset_append)

lemma set_nodes_enqueue [simp]:
  "set (nodes (fq_enqueue opts x q)) = insert (stamp opts x q) (set (nodes q))"
  by (metis mset_nodes_enqueue set_mset_add_mset_insert set_mset_mset)

lemma sorted_insert_before:
  assumes "sorted_wrt before ns" "\<forall>n \<in> set ns. seq n < seq x"
  shows "sorted_wrt before (takeWhile (\<lambda>n. vf n \<le> vf x) ns @ x # dropWhile (\<lambda>n. vf n \<le> vf x) ns)"
  using assms
proof (induction ns)
  case Nil
  then show ?case by simp
next
  case (Cons n ns)
  show ?case
  proof (cases "vf n \<le> vf x")
    case True
    with Cons have "sorted_wrt before
        (takeWhile (\<lambda>n. vf n \<le> vf x) ns @ x # dropWhile (\<lambda>n. vf n \<le> vf x) ns)" by simp
    moreover have "before n x" using True Cons.prems(2) by auto
    moreover have "\<forall>m \<in> set (takeWhile (\<lambda>n. vf n \<le> vf x) ns) \<union> set (dropWhile (\<lambda>n. vf n \<le> vf x) ns).
        before n m"
      using Cons.prems(1) by (auto dest: set_takeWhileD set_dropWhileD)
    ultimately show ?thesis using True by simp
  next
    case False
    with Cons.prems show ?thesis by auto
  qed
qed

text \<open>C-independent form of the insertion: the first node with a strictly greater finish time.\<close>

lemma nodes_enqueue:
  assumes "fq_inv opts q"
  shows "nodes (fq_enqueue opts x q) =
     takeWhile (\<lambda>n. vf n \<le> vf (stamp opts x q)) (nodes q) @ stamp opts x q
       # dropWhile (\<lambda>n. vf n \<le> vf (stamp opts x q)) (nodes q)"
  using upper_bound_takeWhile [OF fq_inv_vf_sorted [OF assms]]
  by (simp add: fq_enqueue_def Let_def stamp_def)

lemma fq_inv_new [invariants]: "fq_inv opts new_fair_queue"
  by (simp add: fq_inv_def new_fair_queue_def)

lemma fq_inv_enqueue [invariants]:
  assumes inv: "fq_inv opts q"
  shows "fq_inv opts (fq_enqueue opts x q)"
proof -
  have "sorted_wrt before (nodes (fq_enqueue opts x q))"
    unfolding nodes_enqueue [OF inv]
    by (rule sorted_insert_before) (use inv in \<open>auto simp: fq_inv_def\<close>)
  moreover have "\<forall>n \<in> set (nodes (fq_enqueue opts x q)). seq n < next_seq (fq_enqueue opts x q)
      \<and> tenant n = tenantOf opts (item n)
      \<and> vf n \<le> get_or 0 (lastVf (fq_enqueue opts x q)) (tenant n)"
    using inv finish_time_gt(2) [of q "tenantOf opts x" opts]
    by (auto simp: fq_inv_def intro: less_imp_le dest: le_less_trans)
  ultimately show ?thesis unfolding fq_inv_def by blast
qed

lemma fq_remove_cases:
  obtains (absent) "x \<notin> set (fq_ordered q)" "fq_remove x q = (False, q)"
  | (present) idx where "idx < length (nodes q)" "item (nodes q ! idx) = x"
      "\<forall>j < idx. item (nodes q ! j) \<noteq> x"
      "fq_remove x q = (True, q\<lparr>nodes := drop_nth idx (nodes q),
                                vclock := max (vclock q) (vf (nodes q ! idx))\<rparr>)"
proof (cases "find_index (\<lambda>n. item n = x) (nodes q)")
  case None
  then have "fq_remove x q = (False, q)" by (simp only: fq_remove_def option.case)
  with None show ?thesis by (intro absent) (auto simp: fq_ordered_def)
next
  case (Some idx)
  from find_index_Some [OF this] Some show ?thesis
    by (intro present [of idx]) (auto simp: fq_remove_def)
qed

lemma fq_inv_remove [invariants]: "fq_inv opts q \<Longrightarrow> fq_inv opts (snd (fq_remove x q))"
  by (cases rule: fq_remove_cases [of x q])
    (auto simp: fq_inv_def sorted_wrt_drop_nth dest: subsetD [OF set_drop_nth_subset])

lemma fq_promote_cases:
  obtains (absent) "x \<notin> set (fq_ordered q)" "fq_promote x q = (False, q)"
  | (head) n ns where "nodes q = n # ns" "item n = x" "fq_promote x q = (True, q)"
  | (inner) idx h rest where "0 < idx" "idx < length (nodes q)" "item (nodes q ! idx) = x"
      "\<forall>j < idx. item (nodes q ! j) \<noteq> x" "drop_nth idx (nodes q) = h # rest" "h = nodes q ! 0"
      "fq_promote x q =
         (True, q\<lparr>nodes := (nodes q ! idx)\<lparr>vf := vf h, seq := seq h - 1\<rparr> # h # rest\<rparr>)"
proof (cases "find_index (\<lambda>n. item n = x) (nodes q)")
  case None
  then have "fq_promote x q = (False, q)" by (simp only: fq_promote_def option.case)
  with None show ?thesis by (intro absent) (auto simp: fq_ordered_def)
next
  case (Some idx)
  note idx = find_index_Some [OF this]
  show ?thesis
  proof (cases idx)
    case 0
    with Some idx show ?thesis
      by (cases "nodes q") (auto intro: head simp: fq_promote_def)
  next
    case (Suc k)
    with idx obtain h ns where "nodes q = h # ns" by (cases "nodes q") auto
    with Suc have "drop_nth idx (nodes q) = h # drop_nth k ns" "h = nodes q ! 0" by auto
    with Some Suc idx show ?thesis
      by (intro inner [of idx h "drop_nth k ns"]) (auto simp: fq_promote_def Let_def)
  qed
qed

lemma fq_inv_promote [invariants]:
  assumes inv: "fq_inv opts q"
  shows "fq_inv opts (snd (fq_promote x q))"
proof (cases rule: fq_promote_cases [of x q])
  case (inner idx h rest)
  have le: "vf h \<le> vf (nodes q ! idx)"
    using fq_inv_vf_sorted [OF inv] inner(1,2,6) by (simp add: sorted_wrt_iff_nth_less)
  have sub: "set (h # rest) \<subseteq> set (nodes q)"
    using set_drop_nth_subset [of idx "nodes q"] inner(5) by simp
  have "sorted_wrt before (h # rest)"
    using inv sorted_wrt_drop_nth [of before "nodes q" idx] inner(5) by (simp add: fq_inv_def)
  moreover have "nodes q ! idx \<in> set (nodes q)" using inner(2) by simp
  ultimately show ?thesis
    using inner(7) inv sub le by (fastforce simp: fq_inv_def)
qed (use inv in simp_all)


subsection \<open>Contents of the queue\<close>

lemma remove1_at_index:
  "i < length xs \<Longrightarrow> xs ! i = x \<Longrightarrow> \<forall>j < i. xs ! j \<noteq> x \<Longrightarrow> drop_nth i xs = remove1 x xs"
proof (induction xs arbitrary: i)
  case Nil
  then show ?case by simp
next
  case (Cons y ys)
  show ?case
  proof (cases i)
    case 0
    with Cons.prems show ?thesis by simp
  next
    case (Suc k)
    with Cons.prems have "y \<noteq> x" by force
    with Suc Cons show ?thesis by force
  qed
qed

lemma fq_ordered_new [simp]: "fq_ordered new_fair_queue = []"
  by (simp add: fq_ordered_def new_fair_queue_def)

lemma mset_ordered_enqueue [simp]:
  "mset (fq_ordered (fq_enqueue opts x q)) = add_mset x (mset (fq_ordered q))"
  by (simp add: fq_ordered_def mset_nodes_enqueue)

lemma fq_remove_result: "fst (fq_remove x q) \<longleftrightarrow> x \<in> set (fq_ordered q)"
  by (cases rule: fq_remove_cases [of x q]) (auto simp: fq_ordered_def)

lemma ordered_remove: "fq_ordered (snd (fq_remove x q)) = remove1 x (fq_ordered q)"
proof (cases rule: fq_remove_cases [of x q])
  case absent
  then show ?thesis by (simp add: remove1_idem)
next
  case (present idx)
  then have "drop_nth idx (fq_ordered q) = remove1 x (fq_ordered q)"
    by (intro remove1_at_index) (auto simp: fq_ordered_def)
  with present show ?thesis by (simp add: fq_ordered_def map_drop_nth)
qed

lemma ordered_promote:
  "fq_ordered (snd (fq_promote x q)) =
     (if x \<in> set (fq_ordered q) then x # remove1 x (fq_ordered q) else fq_ordered q)"
  "fst (fq_promote x q) \<longleftrightarrow> x \<in> set (fq_ordered q)"
proof -
  have "fq_ordered (snd (fq_promote x q)) =
      (if x \<in> set (fq_ordered q) then x # remove1 x (fq_ordered q) else fq_ordered q)
    \<and> fst (fq_promote x q) = (x \<in> set (fq_ordered q))"
  proof (cases rule: fq_promote_cases [of x q])
    case (inner idx h rest)
    then have "drop_nth idx (fq_ordered q) = remove1 x (fq_ordered q)"
      by (intro remove1_at_index) (auto simp: fq_ordered_def)
    moreover have "drop_nth idx (fq_ordered q) = map item (h # rest)"
      using inner(5) by (simp add: fq_ordered_def flip: map_drop_nth)
    moreover have "x \<in> set (fq_ordered q)"
      using inner(2,3) by (auto simp: fq_ordered_def)
    ultimately show ?thesis using inner(3,7) by (simp add: fq_ordered_def)
  qed (auto simp: fq_ordered_def)
  then show "fq_ordered (snd (fq_promote x q)) =
     (if x \<in> set (fq_ordered q) then x # remove1 x (fq_ordered q) else fq_ordered q)"
    "fst (fq_promote x q) \<longleftrightarrow> x \<in> set (fq_ordered q)" by blast+
qed

lemma mset_ordered_promote [simp]: "mset (fq_ordered (snd (fq_promote x q))) = mset (fq_ordered q)"
  by (simp add: ordered_promote)

lemma fq_promote_frame [simp]:
  "lastVf (snd (fq_promote x q)) = lastVf q" "vclock (snd (fq_promote x q)) = vclock q"
  "next_seq (snd (fq_promote x q)) = next_seq q"
  by (cases rule: fq_promote_cases [of x q]; simp)+

lemma fq_remove_frame [simp]:
  "lastVf (snd (fq_remove x q)) = lastVf q" "vclock q \<le> vclock (snd (fq_remove x q))"
  "next_seq (snd (fq_remove x q)) = next_seq q"
  by (cases rule: fq_remove_cases [of x q]; simp)+

lemma set_nodes_remove: "set (nodes (snd (fq_remove x q))) \<subseteq> set (nodes q)"
  by (cases rule: fq_remove_cases [of x q]) (simp_all add: set_drop_nth_subset)

lemma get_or_tally [counters]: "get_or 0 (tally m ks) k = get_or 0 m k + count_list ks k"
  by (induction ks arbitrary: m) auto

lemma dom_tally [counters]: "dom (tally m ks) = dom m \<union> set ks"
  by (induction ks arbitrary: m) auto

lemma fq_tenants:
  "fq_inv opts q \<Longrightarrow> map tenant (nodes q) = map (tenantOf opts) (fq_ordered q)"
  by (simp add: fq_inv_def fq_ordered_def)


subsection \<open>The interface a scheduler uses\<close>

text \<open>What a client of the queue relies on: which items it holds, and in what order.\<close>

locale wait_queue =
  fixes enq :: "'a \<Rightarrow> 'q \<Rightarrow> 'q"
    and rem :: "'a \<Rightarrow> 'q \<Rightarrow> bool \<times> 'q"
    and prom :: "'a \<Rightarrow> 'q \<Rightarrow> bool \<times> 'q"
    and listing :: "'q \<Rightarrow> 'a list"
    and qinv :: "'q \<Rightarrow> bool"
  assumes enq_mset: "mset (listing (enq x q)) = add_mset x (mset (listing q))"
    and rem_listing: "listing (snd (rem x q)) = remove1 x (listing q)"
    and rem_result: "fst (rem x q) \<longleftrightarrow> x \<in> set (listing q)"
    and prom_listing: "x \<in> set (listing q) \<Longrightarrow> listing (snd (prom x q)) = x # remove1 x (listing q)"
    and prom_absent: "x \<notin> set (listing q) \<Longrightarrow> listing (snd (prom x q)) = listing q"
    and qinv_enq: "qinv q \<Longrightarrow> qinv (enq x q)"
    and qinv_rem: "qinv q \<Longrightarrow> qinv (snd (rem x q))"
    and qinv_prom: "qinv q \<Longrightarrow> qinv (snd (prom x q))"
begin

lemma set_enq: "set (listing (enq x q)) = insert x (set (listing q))"
  by (metis enq_mset set_mset_add_mset_insert set_mset_mset)

lemma distinct_enq: "x \<notin> set (listing q) \<Longrightarrow> distinct (listing (enq x q)) \<longleftrightarrow> distinct (listing q)"
  using mset_eq_imp_distinct_iff [of "listing (enq x q)" "x # listing q"] by (simp add: enq_mset)

lemma length_enq: "length (listing (enq x q)) = Suc (length (listing q))"
  by (metis enq_mset size_add_mset size_mset)

lemma set_rem: "distinct (listing q) \<Longrightarrow> set (listing (snd (rem x q))) = set (listing q) - {x}"
  by (simp add: rem_listing)

lemma distinct_rem: "distinct (listing q) \<Longrightarrow> distinct (listing (snd (rem x q)))"
  by (simp add: rem_listing)

lemma set_prom: "set (listing (snd (prom x q))) = set (listing q)"
  by (cases "x \<in> set (listing q)")
    (simp_all add: prom_absent prom_listing insert_absorb flip: set_mset_mset)

lemma mset_prom: "mset (listing (snd (prom x q))) = mset (listing q)"
  by (cases "x \<in> set (listing q)") (simp_all add: prom_absent prom_listing)

lemma distinct_prom: "distinct (listing (snd (prom x q))) \<longleftrightarrow> distinct (listing q)"
  by (rule mset_eq_imp_distinct_iff) (rule mset_prom)

text \<open>Removing a batch of items, one after the other, leaves the others in their order.\<close>

lemma rem_all:
  assumes "distinct (listing q)"
  shows "listing (fold (\<lambda>x q. snd (rem x q)) xs q) = filter (\<lambda>y. y \<notin> set xs) (listing q)"
  using assms
proof (induction xs arbitrary: q)
  case Nil
  then show ?case by simp
next
  case (Cons x xs)
  then show ?case
    by (simp add: rem_listing distinct_remove1_removeAll removeAll_filter_not_eq conj_commute)
      (metis (mono_tags, lifting))
qed

lemma qinv_rem_all: "qinv q \<Longrightarrow> qinv (fold (\<lambda>x q. snd (rem x q)) xs q)"
  by (induction xs arbitrary: q) (auto intro: qinv_rem)

end

interpretation fq: wait_queue "fq_enqueue opts" fq_remove fq_promote fq_ordered "fq_inv opts"
  for opts :: "'a fq_options"
  by unfold_locales (auto simp: ordered_remove fq_remove_result ordered_promote intro: invariants)

subsection \<open>Runs of the queue\<close>

datatype 'a fq_op = Enqueue 'a | Remove 'a | Promote 'a

fun fq_apply :: "'a fq_options \<Rightarrow> 'a fq_op \<Rightarrow> 'a fair_queue \<Rightarrow> 'a fair_queue" where
  "fq_apply opts (Enqueue x) q = fq_enqueue opts x q"
| "fq_apply opts (Remove x) q = snd (fq_remove x q)"
| "fq_apply opts (Promote x) q = snd (fq_promote x q)"

fun fq_run :: "'a fq_options \<Rightarrow> 'a fq_op list \<Rightarrow> 'a fair_queue \<Rightarrow> 'a fair_queue" where
  "fq_run opts [] q = q"
| "fq_run opts (op # ops) q = fq_run opts ops (fq_apply opts op q)"

text \<open>The nodes a run creates, in the order of their \<open>enqueue\<close> calls.\<close>

fun fq_stamps :: "'a fq_options \<Rightarrow> 'a fq_op list \<Rightarrow> 'a fair_queue \<Rightarrow> 'a fair_node list" where
  "fq_stamps opts [] q = []"
| "fq_stamps opts (op # ops) q =
     (case op of Enqueue x \<Rightarrow> [stamp opts x q] | _ \<Rightarrow> []) @ fq_stamps opts ops (fq_apply opts op q)"

lemma fq_inv_apply [invariants]: "fq_inv opts q \<Longrightarrow> fq_inv opts (fq_apply opts op q)"
  by (cases op) (auto intro: invariants)

lemma fq_inv_run [invariants]: "fq_inv opts q \<Longrightarrow> fq_inv opts (fq_run opts ops q)"
  by (induction ops arbitrary: q) (auto intro: invariants)

text \<open>How many of the nodes a run stamps for tenant \<open>t\<close> finish by \<open>v\<close>.\<close>

definition stamps_by :: "string \<Rightarrow> rat \<Rightarrow> 'a fair_node list \<Rightarrow> 'a fair_node list" where
  "stamps_by t v ns = filter (\<lambda>n. tenant n = t \<and> vf n \<le> v) ns"

lemma stamps_by_simps [simp]:
  "stamps_by t v [] = []"
  "stamps_by t v (n # ns) = (if tenant n = t \<and> vf n \<le> v then n # stamps_by t v ns else stamps_by t v ns)"
  "stamps_by t v (ns @ ms) = stamps_by t v ns @ stamps_by t v ms"
  by (simp_all add: stamps_by_def)

lemma stamps_bounded:
  fixes opts :: "'a fq_options"
  defines "base \<equiv> \<lambda>q :: 'a fair_queue. \<lambda>t. max (vclock q) (get_or 0 (lastVf q) t)"
  shows "of_nat (length (stamps_by t v (fq_stamps opts ops q))) / weight_of opts t \<le> max 0 (v - base q t)"
proof (induction ops arbitrary: q)
  case Nil
  then show ?case by simp
next
  case (Cons op ops)
  let ?q = "fq_apply opts op q"
  let ?k = "length (stamps_by t v (fq_stamps opts ops ?q))"
  note IH = Cons.IH [of ?q]
  show ?case
  proof (cases "\<exists>x. op = Enqueue x \<and> tenantOf opts x = t")
    case False
    then have "get_or 0 (lastVf q) t \<le> get_or 0 (lastVf ?q) t" by (cases op) auto
    moreover have "vclock q \<le> vclock ?q" by (cases op) auto
    ultimately have "base q t \<le> base ?q t" unfolding base_def by (rule max.mono [rotated])
    moreover have "stamps_by t v (fq_stamps opts (op # ops) q) = stamps_by t v (fq_stamps opts ops ?q)"
      using False by (cases op) auto
    ultimately show ?thesis using IH by auto
  next
    case True
    then obtain x where op: "op = Enqueue x" "tenantOf opts x = t" by blast
    let ?f = "finish_time opts q t"
    have base: "base ?q t = ?f"
      using op finish_time_gt(1) [of q opts t] by (simp add: base_def max_def)
    have f: "?f = base q t + 1 / weight_of opts t"
      by (simp add: finish_time_def base_def)
    show ?thesis
    proof (cases "?f \<le> v")
      case True
      have "of_nat ?k / weight_of opts t \<le> v - ?f" using IH base True by simp
      then show ?thesis using op True f by (simp add: add_divide_distrib)
    next
      case False
      then have "of_nat ?k / weight_of opts t \<le> 0" using IH base by simp
      then show ?thesis using op False by simp
    qed
  qed
qed


subsection \<open>Overtaking\<close>

fun promotions :: "'a fq_op list \<Rightarrow> nat" where
  "promotions [] = 0"
| "promotions (op # ops) = (case op of Promote x \<Rightarrow> 1 | _ \<Rightarrow> 0) + promotions ops"

lemma mset_nodes_remove: "mset (nodes (snd (fq_remove x q))) \<subseteq># mset (nodes q)"
  by (cases rule: fq_remove_cases [of x q]) (simp_all add: mset_drop_nth)

text \<open>A promotion renumbers one node and leaves the others.\<close>

lemma mset_nodes_promote: "\<exists>P. size P \<le> 1 \<and> mset (nodes (snd (fq_promote x q))) \<subseteq># mset (nodes q) + P"
proof (cases rule: fq_promote_cases [of x q])
  case (inner idx h rest)
  have "mset (h # rest) \<subseteq># mset (nodes q)" unfolding inner(5) [symmetric] using inner(2) by (simp add: mset_drop_nth)
  then have "mset (nodes (snd (fq_promote x q))) \<subseteq># mset (nodes q) + {#(nodes q ! idx)\<lparr>vf := vf h, seq := seq h - 1\<rparr>#}"
    by (simp add: inner(7))
  then show ?thesis by (intro exI [of _ "{#(nodes q ! idx)\<lparr>vf := vf h, seq := seq h - 1\<rparr>#}"]) simp
qed (auto intro: exI [of _ "{#}"])

text \<open>What a run leaves in the queue was there before, was stamped by the run, or was renumbered by one of its promotions.\<close>

lemma nodes_of_run:
  "\<exists>P. size P \<le> promotions ops \<and> mset (nodes (fq_run opts ops q)) \<subseteq># mset (nodes q) + mset (fq_stamps opts ops q) + P"
proof (induction ops arbitrary: q)
  case Nil
  show ?case by (intro exI [of _ "{#}"]) simp
next
  case (Cons op ops)
  let ?q = "fq_apply opts op q"
  let ?new = "case op of Enqueue x \<Rightarrow> [stamp opts x q] | _ \<Rightarrow> []"
  obtain P where P: "size P \<le> promotions ops"
    "mset (nodes (fq_run opts ops ?q)) \<subseteq># mset (nodes ?q) + mset (fq_stamps opts ops ?q) + P" using Cons by blast
  obtain P' where P': "size P' \<le> (case op of Promote x \<Rightarrow> 1 | _ \<Rightarrow> 0)" "mset (nodes ?q) \<subseteq># mset (nodes q) + mset ?new + P'"
  proof (cases op)
    case (Enqueue x)
    then show ?thesis by (intro that [of "{#}"]) (simp_all add: mset_nodes_enqueue)
  next
    case (Remove x)
    then show ?thesis by (intro that [of "{#}"]) (simp_all add: mset_nodes_remove)
  next
    case (Promote x)
    then show ?thesis using mset_nodes_promote [of x q] that by auto
  qed
  have "mset (nodes (fq_run opts ops ?q)) \<subseteq># mset (nodes q) + mset ?new + P' + mset (fq_stamps opts ops ?q) + P"
    using subset_mset.order_trans [OF P(2)] P'(2) by (simp add: subset_mset.add_mono)
  then show ?case using P(1) P'(1) by (intro exI [of _ "P + P'"]) (simp add: ac_simps)
qed

lemma ahead_vf_le:
  assumes "fq_inv opts q" "n \<in> set (nodes q)" "m \<in> set (takeWhile (\<lambda>m. m \<noteq> n) (nodes q))"
  shows "vf m \<le> vf n"
proof -
  let ?pre = "takeWhile (\<lambda>m. m \<noteq> n) (nodes q)" and ?post = "dropWhile (\<lambda>m. m \<noteq> n) (nodes q)"
  have "n \<in> set ?post"
    using assms(2) by (metis (mono_tags, lifting) Un_iff set_append set_takeWhileD takeWhile_dropWhile_id)
  moreover have "sorted_wrt (\<lambda>a b. vf a \<le> vf b) (?pre @ ?post)"
    using fq_inv_vf_sorted [OF assms(1)] by simp
  ultimately show ?thesis using assms(3) unfolding sorted_wrt_append by blast
qed

lemma overtakers_le_stamps:
  assumes inv: "fq_inv opts q" and n: "n \<in> set (nodes (fq_run opts ops q))"
  shows "length (filter (\<lambda>m. tenant m = t \<and> m \<notin> set (nodes q)) (takeWhile (\<lambda>m. m \<noteq> n) (nodes (fq_run opts ops q))))
          \<le> length (stamps_by t (vf n) (fq_stamps opts ops q)) + promotions ops"
proof -
  let ?q = "fq_run opts ops q"
  let ?P = "\<lambda>m. tenant m = t \<and> vf m \<le> vf n \<and> m \<notin> set (nodes q)"
  let ?ahead = "takeWhile (\<lambda>m. m \<noteq> n) (nodes ?q)"
  obtain R where R: "size R \<le> promotions ops" "mset (nodes ?q) \<subseteq># mset (nodes q) + mset (fq_stamps opts ops q) + R"
    using nodes_of_run by blast
  have "filter (\<lambda>m. tenant m = t \<and> m \<notin> set (nodes q)) ?ahead = filter ?P ?ahead"
    by (rule filter_cong) (use ahead_vf_le [OF fq_inv_run [OF inv] n] in auto)
  then have "mset (filter (\<lambda>m. tenant m = t \<and> m \<notin> set (nodes q)) ?ahead) = filter_mset ?P (mset ?ahead)"
    by (simp only: mset_filter)
  also have "\<dots> \<subseteq># filter_mset ?P (mset (nodes ?q))"
    by (rule multiset_filter_mono) (metis mset_append mset_subset_eq_add_left takeWhile_dropWhile_id)
  also have "\<dots> \<subseteq># filter_mset ?P (mset (nodes q) + mset (fq_stamps opts ops q) + R)"
    by (rule multiset_filter_mono [OF R(2)])
  also have "\<dots> = filter_mset ?P (mset (fq_stamps opts ops q)) + filter_mset ?P R"
    by (auto simp: filter_mset_eq_mempty_iff)
  finally have "size (mset (filter (\<lambda>m. tenant m = t \<and> m \<notin> set (nodes q)) ?ahead))
      \<le> size (filter_mset ?P (mset (fq_stamps opts ops q))) + size (filter_mset ?P R)"
    using size_mset_mono by fastforce
  moreover have "size (filter_mset ?P (mset (fq_stamps opts ops q))) \<le> length (stamps_by t (vf n) (fq_stamps opts ops q))"
    unfolding stamps_by_def size_mset [symmetric] mset_filter by (intro size_mset_mono filter_mset_mono_strong) auto
  moreover have "size (filter_mset ?P R) \<le> promotions ops" using R(1) size_mset_mono [OF multiset_filter_subset] le_trans by blast
  ultimately show ?thesis by (simp only: size_mset)
qed

subsection \<open>Properties\<close>

text \<open>\<open>enqueue\<close> keeps the fair order: whatever sequence of \<open>enqueue\<close>, \<open>remove\<close> and
  \<open>promote\<close> calls built the queue, its nodes are strictly sorted by (finish time, sequence number),
  the sequence numbers it handed out are below the next one, no node's finish time exceeds the last
  one recorded for its tenant, and \<open>ordered()\<close> therefore needs no sort.\<close>

theorem fq_always_sorted: "fq_inv opts (fq_run opts ops new_fair_queue)"
  by (intro invariants)

text \<open>The binary search of \<open>enqueue\<close> finds the first node with a strictly greater finish time,
  so the new node goes behind every node that finishes no later than it and before all others.\<close>

theorem fq_enqueue_position:
  assumes "fq_inv opts q"
  shows "fq_ordered (fq_enqueue opts x q) =
     map item (takeWhile (\<lambda>n. vf n \<le> finish_time opts q (tenantOf opts x)) (nodes q)) @ x
       # map item (dropWhile (\<lambda>n. vf n \<le> finish_time opts q (tenantOf opts x)) (nodes q))"
  by (simp add: fq_ordered_def nodes_enqueue [OF assms])

definition demo_fq :: "string fq_options" where
  "demo_fq = \<lparr>tenantOf = take 1, weightFor = Some (\<lambda>t. if t = ''b'' then 2 else 1)\<rparr>"

lemma fq_enqueue_position_witness:
  "fq_ordered (fq_enqueue demo_fq ''b1'' (fq_run demo_fq [Enqueue ''a1'', Enqueue ''a2''] new_fair_queue))
     = [''b1'', ''a1'', ''a2'']"
proof -
  let ?q = "fq_run demo_fq [Enqueue ''a1'', Enqueue ''a2''] new_fair_queue"
  have "fq_inv demo_fq ?q" by (intro invariants)
  note fq_enqueue_position [OF this, of "''b1''"]
  moreover have "map item (takeWhile (\<lambda>n. vf n \<le> finish_time demo_fq ?q (tenantOf demo_fq ''b1'')) (nodes ?q)) = []
    \<and> map item (dropWhile (\<lambda>n. vf n \<le> finish_time demo_fq ?q (tenantOf demo_fq ''b1'')) (nodes ?q)) = [''a1'', ''a2'']"
    by code_simp
  ultimately show ?thesis by simp
qed

text \<open>C23. Bounded overtaking (no tenant starves another): while a node \<open>n\<close> waits, another tenant \<open>t\<close> of weight \<open>w\<close> that keeps
  enqueueing, with any removals and promotions in between, gets at most \<open>w * (vf n - vclock)\<close> nodes that were not in the queue
  before ahead of \<open>n\<close>, and one more for each promotion an operator makes in the meantime.\<close>

theorem fq_bounded_overtaking:
  assumes "fq_inv opts q" "n \<in> set (nodes (fq_run opts ops q))"
  shows "of_nat (length (filter (\<lambda>m. tenant m = t \<and> m \<notin> set (nodes q)) (takeWhile (\<lambda>m. m \<noteq> n) (nodes (fq_run opts ops q)))))
          \<le> weight_of opts t * max 0 (vf n - vclock q) + of_nat (promotions ops)"
proof -
  let ?overtakers = "length (filter (\<lambda>m. tenant m = t \<and> m \<notin> set (nodes q)) (takeWhile (\<lambda>m. m \<noteq> n) (nodes (fq_run opts ops q))))"
  let ?stamps = "length (stamps_by t (vf n) (fq_stamps opts ops q))"
  have "of_nat ?stamps / weight_of opts t \<le> max 0 (vf n - max (vclock q) (get_or 0 (lastVf q) t))"
    by (rule stamps_bounded)
  also have "\<dots> \<le> max 0 (vf n - vclock q)" by (auto simp: max_def)
  finally have "of_nat ?stamps \<le> weight_of opts t * max 0 (vf n - vclock q)"
    by (simp add: divide_le_eq mult.commute)
  moreover have "(of_nat ?overtakers :: rat) \<le> of_nat (?stamps + promotions ops)"
    unfolding of_nat_le_iff by (rule overtakers_le_stamps [OF assms])
  ultimately show ?thesis unfolding of_nat_add by linarith
qed

lemma fq_bounded_overtaking_witness:
  "\<exists>n. n \<in> set (nodes (fq_run demo_fq [Enqueue ''b1'', Enqueue ''b2'', Promote ''b2'', Enqueue ''b3'']
                         (fq_run demo_fq [Enqueue ''a1''] new_fair_queue)))
     \<and> item n = ''a1''
     \<and> length (filter (\<lambda>m. tenant m = ''b'' \<and> m \<notin> set (nodes (fq_run demo_fq [Enqueue ''a1''] new_fair_queue)))
          (takeWhile (\<lambda>m. m \<noteq> n) (nodes (fq_run demo_fq [Enqueue ''b1'', Enqueue ''b2'', Promote ''b2'', Enqueue ''b3'']
                         (fq_run demo_fq [Enqueue ''a1''] new_fair_queue))))) \<le> 3"
proof -
  let ?q = "fq_run demo_fq [Enqueue ''a1''] new_fair_queue"
  let ?ops = "[Enqueue ''b1'', Enqueue ''b2'', Promote ''b2'', Enqueue ''b3'']"
  let ?n = "\<lparr>item = ''a1'', tenant = ''a'', vf = 1, seq = 0\<rparr>"
  have inv: "fq_inv demo_fq ?q" by (intro invariants)
  have mem: "?n \<in> set (nodes (fq_run demo_fq ?ops ?q))" by code_simp
  have side: "weight_of demo_fq ''b'' * max 0 (vf ?n - vclock ?q) + of_nat (promotions ?ops) = 3" by code_simp
  from fq_bounded_overtaking [OF inv mem, of "''b''"]
  have "of_nat (length (filter (\<lambda>m. tenant m = ''b'' \<and> m \<notin> set (nodes ?q))
          (takeWhile (\<lambda>m. m \<noteq> ?n) (nodes (fq_run demo_fq ?ops ?q))))) \<le> (of_nat 3 :: rat)"
    unfolding side by simp
  then have "length (filter (\<lambda>m. tenant m = ''b'' \<and> m \<notin> set (nodes ?q))
          (takeWhile (\<lambda>m. m \<noteq> ?n) (nodes (fq_run demo_fq ?ops ?q)))) \<le> 3"
    unfolding of_nat_le_iff .
  with mem show ?thesis by (intro exI [of _ ?n]) simp
qed

end
