(* ===== verification/Ordering.thy ===== *)
theory Ordering
  imports Prelude "HOL-Library.List_Lexorder" "HOL-Library.Char_ord"
begin

text \<open>
  \<open>Array.prototype.sort\<close> with a comparison function, as the code uses it: a stable sort. For a
  consistent comparison the result is determined, and insertion computes it; the laws of a consistent
  comparison are the locale \<open>comparison\<close>.
\<close>

type_synonym 'a compare = "'a \<Rightarrow> 'a \<Rightarrow> int"

fun insert_by :: "'a compare \<Rightarrow> 'a \<Rightarrow> 'a list \<Rightarrow> 'a list" where
  "insert_by cmp x [] = [x]"
| "insert_by cmp x (y # ys) = (if cmp x y \<le> 0 then x # y # ys else y # insert_by cmp x ys)"

definition sort_by :: "'a compare \<Rightarrow> 'a list \<Rightarrow> 'a list" where
  "sort_by cmp xs = foldr (insert_by cmp) xs []"

lemma sort_by_simps [simp]:
  "sort_by cmp [] = []"
  "sort_by cmp (x # xs) = insert_by cmp x (sort_by cmp xs)"
  by (simp_all add: sort_by_def)

lemma mset_insert_by [simp]: "mset (insert_by cmp x xs) = add_mset x (mset xs)"
  by (induction xs) auto

lemma mset_sort_by [simp]: "mset (sort_by cmp xs) = mset xs"
  by (induction xs) auto

lemma set_sort_by [simp]: "set (sort_by cmp xs) = set xs"
  by (metis mset_sort_by set_mset_mset)

lemma length_sort_by [simp]: "length (sort_by cmp xs) = length xs"
  by (metis mset_sort_by size_mset)

lemma sort_by_eq_Nil [simp]: "sort_by cmp xs = [] \<longleftrightarrow> xs = []"
  by (metis length_0_conv length_sort_by)

lemma set_insert_by [simp]: "set (insert_by cmp x xs) = insert x (set xs)"
  by (metis mset_insert_by set_mset_add_mset_insert set_mset_mset)

locale comparison =
  fixes cmp :: "'a compare" and good :: "'a \<Rightarrow> bool"
  assumes cmp_refl: "good x \<Longrightarrow> cmp x x = 0"
    and cmp_flip: "good x \<Longrightarrow> good y \<Longrightarrow> cmp x y \<le> 0 \<longleftrightarrow> 0 \<le> cmp y x"
    and cmp_trans: "good x \<Longrightarrow> good y \<Longrightarrow> good z \<Longrightarrow> cmp x y \<le> 0 \<Longrightarrow> cmp y z \<le> 0 \<Longrightarrow> cmp x z \<le> 0"
begin

lemma cmp_total: "good x \<Longrightarrow> good y \<Longrightarrow> \<not> cmp x y \<le> 0 \<Longrightarrow> cmp y x \<le> 0"
  using cmp_flip [of y x] by linarith

lemma sorted_insert_by:
  assumes "sorted_wrt (\<lambda>a b. cmp a b \<le> 0) xs" "good x" "\<forall>y \<in> set xs. good y"
  shows "sorted_wrt (\<lambda>a b. cmp a b \<le> 0) (insert_by cmp x xs)"
  using assms
proof (induction xs)
  case Nil
  then show ?case by simp
next
  case (Cons y ys)
  show ?case
  proof (cases "cmp x y \<le> 0")
    case True
    with Cons.prems show ?thesis by (auto intro: cmp_trans)
  next
    case False
    with Cons show ?thesis by (auto intro: cmp_total)
  qed
qed

lemma sorted_sort_by:
  "\<forall>y \<in> set xs. good y \<Longrightarrow> sorted_wrt (\<lambda>a b. cmp a b \<le> 0) (sort_by cmp xs)"
  by (induction xs) (auto intro: sorted_insert_by)

text \<open>The head is a least element, the last a greatest one.\<close>

lemma hd_sort_by_least:
  assumes "\<forall>y \<in> set xs. good y" "x \<in> set xs"
  shows "cmp (hd (sort_by cmp xs)) x \<le> 0"
proof -
  obtain h t where ht: "sort_by cmp xs = h # t"
    using assms(2) by (metis empty_iff list.exhaust list.set(1) sort_by_eq_Nil)
  then have "x \<in> insert h (set t)" "good h"
    using assms set_sort_by [of cmp xs] by auto
  moreover have "\<forall>y \<in> set t. cmp h y \<le> 0"
    using sorted_sort_by [OF assms(1)] ht by simp
  ultimately show ?thesis using ht cmp_refl by fastforce
qed

lemma last_sort_by_greatest:
  assumes "\<forall>y \<in> set xs. good y" "x \<in> set xs"
  shows "cmp x (last (sort_by cmp xs)) \<le> 0"
proof -
  have ne: "sort_by cmp xs \<noteq> []" using assms(2) by auto
  let ?b = "butlast (sort_by cmp xs)" and ?l = "last (sort_by cmp xs)"
  have "sorted_wrt (\<lambda>a b. cmp a b \<le> 0) (?b @ [?l])"
    using sorted_sort_by [OF assms(1)] ne by simp
  then have "\<forall>y \<in> set ?b. cmp y ?l \<le> 0" by (simp add: sorted_wrt_append)
  moreover have "x \<in> set (?b @ [?l])" using assms(2) ne by simp
  moreover have "?l \<in> set xs" using ne by (metis last_in_set set_sort_by)
  ultimately show ?thesis using assms(1) cmp_refl by fastforce
qed

lemma insert_by_least: "\<forall>y \<in> set xs. cmp x y \<le> 0 \<Longrightarrow> insert_by cmp x xs = x # xs"
  by (cases xs) auto

lemma sort_by_sorted: "sorted_wrt (\<lambda>a b. cmp a b \<le> 0) xs \<Longrightarrow> sort_by cmp xs = xs"
  by (induction xs) (auto simp: insert_by_least)

text \<open>Stability: elements that compare equal keep their order.\<close>

lemma filter_insert_by:
  assumes "good x" "good z" "\<forall>y \<in> set xs. good y"
  shows "filter (\<lambda>y. cmp y z = 0) (insert_by cmp x xs) = filter (\<lambda>y. cmp y z = 0) (x # xs)"
  using assms
proof (induction xs)
  case Nil
  then show ?case by simp
next
  case (Cons y ys)
  show ?case
  proof (cases "cmp x y \<le> 0")
    case True
    then show ?thesis by simp
  next
    case False
    have "\<not> (cmp x z = 0 \<and> cmp y z = 0)"
      using False Cons.prems cmp_trans [of x z y] cmp_flip [of z y] cmp_flip [of y z] by auto
    then show ?thesis using False Cons by auto
  qed
qed

lemma sort_by_stable:
  "good z \<Longrightarrow> \<forall>y \<in> set xs. good y \<Longrightarrow>
     filter (\<lambda>y. cmp y z = 0) (sort_by cmp xs) = filter (\<lambda>y. cmp y z = 0) xs"
  by (induction xs) (auto simp: filter_insert_by)

end

subsection \<open>The order of code units\<close>

text \<open>\<open>a < b ? -1 : a > b ? 1 : 0\<close> on strings: the code's own comparator where it canonicalizes a
  document, and the instance every comparator over names is checked on. Both sides compare code units
  from the left.\<close>

definition code_unit_cmp :: "string compare" where
  "code_unit_cmp a b = (if a < b then -1 else if b < a then 1 else 0)"

lemma code_unit_cmp_le [simp]: "code_unit_cmp a b \<le> 0 \<longleftrightarrow> a \<le> b"
  by (auto simp: code_unit_cmp_def not_less)

lemma code_unit_cmp_ge [simp]: "0 \<le> code_unit_cmp a b \<longleftrightarrow> b \<le> a"
  by (auto simp: code_unit_cmp_def not_less)

lemma code_unit_cmp_eq [simp]: "code_unit_cmp a b = 0 \<longleftrightarrow> a = b"
  by (auto simp: code_unit_cmp_def)

interpretation code_units: comparison code_unit_cmp "\<lambda>_. True"
  by unfold_locales auto

end
