(* ===== verification/Breaker.thy ===== *)
theory Breaker
  imports Prelude
begin

text \<open>
  The per-runtime circuit breaker of packages/domain/src/placement/circuit-breaker.ts. The clock is
  an argument: \<open>failure\<close> reads it up to twice (in \<open>isOpen\<close>, then for \<open>openedAt\<close>), so it takes both
  readings. The \<open>onOpen\<close> hook is the log of the keys it was called with.
\<close>

record breaker_opts =
  threshold_opt :: "int option"
  cooldownMs_opt :: "int option"

record circuit =
  consecutive :: int
  openedAt :: "int option"

record breaker =
  threshold :: int
  cooldownMs :: int
  circuits :: "string \<rightharpoonup> circuit"
  onOpen_log :: "string list"

definition new_breaker :: "breaker_opts \<Rightarrow> breaker" where
  "new_breaker opts =
     \<lparr>threshold = (case threshold_opt opts of None \<Rightarrow> 3 | Some n \<Rightarrow> n),
      cooldownMs = (case cooldownMs_opt opts of None \<Rightarrow> 30000 | Some n \<Rightarrow> n),
      circuits = Map.empty, onOpen_log = []\<rparr>"

definition isOpen :: "breaker \<Rightarrow> int \<Rightarrow> string \<Rightarrow> bool" where
  "isOpen b now key =
     (case circuits b key of
        None \<Rightarrow> False
      | Some st \<Rightarrow> (case openedAt st of None \<Rightarrow> False | Some t \<Rightarrow> now - t < cooldownMs b))"

definition cb_failure :: "breaker \<Rightarrow> int \<Rightarrow> int \<Rightarrow> string \<Rightarrow> breaker" where
  "cb_failure b now1 now2 key =
     (let st = get_or \<lparr>consecutive = 0, openedAt = None\<rparr> (circuits b) key;
          st1 = st\<lparr>consecutive := consecutive st + 1\<rparr>
      in if threshold b \<le> consecutive st1 then
           b\<lparr>circuits := (circuits b)(key \<mapsto> st1\<lparr>openedAt := Some now2\<rparr>),
             onOpen_log := onOpen_log b @ (if isOpen b now1 key then [] else [key])\<rparr>
         else b\<lparr>circuits := (circuits b)(key \<mapsto> st1)\<rparr>)"

definition cb_success :: "breaker \<Rightarrow> string \<Rightarrow> breaker" where
  "cb_success b key = b\<lparr>circuits := (circuits b)(key := None)\<rparr>"

definition cb_stats :: "breaker \<Rightarrow> int \<Rightarrow> (string \<rightharpoonup> int \<times> bool)" where
  "cb_stats b now key = map_option (\<lambda>st. (consecutive st, isOpen b now key)) (circuits b key)"

subsection \<open>Runs, and the failure streak they leave\<close>

datatype cb_event = Failure int int string | Success string

fun cb_step :: "cb_event \<Rightarrow> breaker \<Rightarrow> breaker" where
  "cb_step (Failure t1 t2 k) b = cb_failure b t1 t2 k"
| "cb_step (Success k) b = cb_success b k"

definition cb_run :: "cb_event list \<Rightarrow> breaker \<Rightarrow> breaker" where
  "cb_run evs b = fold cb_step evs b"

text \<open>The times of the failures of \<open>k\<close> since its last success, latest first.\<close>

fun streak :: "string \<Rightarrow> cb_event list \<Rightarrow> int list \<Rightarrow> int list" where
  "streak k [] acc = acc"
| "streak k (Failure t1 t2 k' # evs) acc = streak k evs (if k' = k then t2 # acc else acc)"
| "streak k (Success k' # evs) acc = streak k evs (if k' = k then [] else acc)"

text \<open>The specification: a key's streak determines its circuit.\<close>

definition circuit_of :: "int \<Rightarrow> int list \<Rightarrow> circuit option" where
  "circuit_of thr ts =
     (if ts = [] then None
      else Some \<lparr>consecutive = int (length ts),
                 openedAt = (if thr \<le> int (length ts) then Some (hd ts) else None)\<rparr>)"

lemma cb_step_frame [simp]:
  "threshold (cb_step e b) = threshold b" "cooldownMs (cb_step e b) = cooldownMs b"
  by (cases e; simp add: cb_failure_def cb_success_def Let_def)+

lemma cb_run_simps [simp]: "cb_run [] b = b" "cb_run (e # evs) b = cb_run evs (cb_step e b)"
  by (simp_all add: cb_run_def)

lemma cb_run_frame [simp]:
  "threshold (cb_run evs b) = threshold b" "cooldownMs (cb_run evs b) = cooldownMs b"
  by (induction evs arbitrary: b) auto

lemma circuit_of_failure:
  "circuits b k = circuit_of (threshold b) ts \<Longrightarrow>
     circuits (cb_failure b t1 t2 k) k = circuit_of (threshold b) (t2 # ts)"
  by (auto simp: cb_failure_def Let_def circuit_of_def get_or_def)

lemma cb_failure_other: "k' \<noteq> k \<Longrightarrow> circuits (cb_failure b t1 t2 k') k = circuits b k"
  by (simp add: cb_failure_def Let_def)

lemma cb_run_circuits:
  "circuits b k = circuit_of (threshold b) ts \<Longrightarrow>
     circuits (cb_run evs b) k = circuit_of (threshold b) (streak k evs ts)"
proof (induction evs arbitrary: b ts)
  case Nil
  then show ?case by simp
next
  case (Cons e evs)
  show ?case
  proof (cases e)
    case (Failure t1 t2 k')
    show ?thesis
    proof (cases "k' = k")
      case True
      then show ?thesis
        using Cons.IH [of "cb_step e b" "t2 # ts"] circuit_of_failure [OF Cons.prems] Failure
          cb_step_frame(1) [of e b] by simp
    next
      case False
      then show ?thesis
        using Cons.IH [of "cb_step e b" ts] Cons.prems cb_failure_other [OF False] Failure
          cb_step_frame(1) [of e b] by simp
    qed
  next
    case (Success k')
    have "circuits (cb_step e b) k = circuit_of (threshold b) (if k' = k then [] else ts)"
      using Cons.prems Success by (simp add: cb_success_def circuit_of_def)
    then show ?thesis
      using Cons.IH [of "cb_step e b" "if k' = k then [] else ts"] Success
        cb_step_frame(1) [of e b] by simp
  qed
qed

lemma new_breaker_circuits [simp]: "circuits (new_breaker opts) k = circuit_of thr []"
  by (simp add: new_breaker_def circuit_of_def)

subsection \<open>Properties\<close>

text \<open>The breaker implements its specification: after any sequence of reported failures and
  successes a key is open exactly when it has failed since its last success, that streak of failures
  has reached the threshold, and the latest of them is less than the cooldown ago. In particular the
  circuit is half-open (accepting) once the cooldown has passed, a success closes it, and failures of
  other keys never open it.\<close>

theorem breaker_open_iff_streak:
  "isOpen (cb_run evs (new_breaker opts)) now k \<longleftrightarrow>
     (case streak k evs [] of
        [] \<Rightarrow> False
      | t # ts \<Rightarrow> threshold (new_breaker opts) \<le> int (length (t # ts))
                 \<and> now - t < cooldownMs (new_breaker opts))"
proof -
  have "circuits (cb_run evs (new_breaker opts)) k
      = circuit_of (threshold (new_breaker opts)) (streak k evs [])"
    by (rule cb_run_circuits) simp
  then show ?thesis
    by (simp add: isOpen_def circuit_of_def split: list.split)
qed

text \<open>C5. \<open>onOpen\<close> fires on transitions only: a failure appends its key to the notifications exactly
  when the circuit was not open before it and is armed by it.\<close>

theorem breaker_notifies_transitions:
  assumes "0 < cooldownMs b"
  shows "onOpen_log (cb_failure b now1 now2 k) \<noteq> onOpen_log b \<longleftrightarrow>
     \<not> isOpen b now1 k \<and> isOpen (cb_failure b now1 now2 k) now2 k
       \<and> threshold b \<le> get_or 0 (map_option consecutive \<circ> circuits b) k + 1"
  using assms
  by (auto simp: cb_failure_def Let_def isOpen_def get_or_def split: option.splits)

lemma breaker_notifies_transitions_witness:
  "onOpen_log (cb_failure (cb_run [Failure 1 1 ''k'', Failure 2 2 ''k'']
       (new_breaker \<lparr>threshold_opt = None, cooldownMs_opt = None\<rparr>)) 3 3 ''k'')
     \<noteq> onOpen_log (cb_run [Failure 1 1 ''k'', Failure 2 2 ''k'']
       (new_breaker \<lparr>threshold_opt = None, cooldownMs_opt = None\<rparr>))"
proof -
  let ?b = "cb_run [Failure 1 1 ''k'', Failure 2 2 ''k''] (new_breaker \<lparr>threshold_opt = None, cooldownMs_opt = None\<rparr>)"
  have cool: "0 < cooldownMs ?b" by code_simp
  have "\<not> isOpen ?b 3 ''k''" "isOpen (cb_failure ?b 3 3 ''k'') 3 ''k''"
    "threshold ?b \<le> get_or 0 (map_option consecutive \<circ> circuits ?b) ''k'' + 1" by code_simp+
  with breaker_notifies_transitions [OF cool, of 3 3 "''k''"] show ?thesis by blast
qed

end
