(* ===== verification/Autoscaler.thy ===== *)
theory Autoscaler
  imports Prelude
begin

text \<open>
  The queue-depth autoscaler of packages/domain/src/placement/autoscaler.ts. The scaling targets are
  the code's \<open>MutableSlots\<close> (an id and a slot count); a tick over them has no interleaving, because
  their \<open>current\<close> and \<open>scaleTo\<close> are synchronous.
\<close>

record load =
  queued :: int
  inFlight :: int

record autoscale_policy =
  pmin :: int
  pmax :: int
  targetSlots :: "(load \<Rightarrow> int \<Rightarrow> rat) option"
  scaleDownAfterTicks :: "int option"

record slots_target =
  target_id :: string
  target_slots :: int

definition desiredCapacity :: "load \<Rightarrow> int \<Rightarrow> autoscale_policy \<Rightarrow> int" where
  "desiredCapacity ld cur p =
     (let demand = (case targetSlots p of Some f \<Rightarrow> f ld cur | None \<Rightarrow> of_int (inFlight ld + queued ld))
      in max (pmin p) (min (pmax p) \<lceil>demand\<rceil>))"

definition mutable_current :: "slots_target \<Rightarrow> int" where
  "mutable_current t = target_slots t"

definition mutable_scaleTo :: "int \<Rightarrow> slots_target \<Rightarrow> slots_target" where
  "mutable_scaleTo n t = t\<lparr>target_slots := n\<rparr>"

record autoscaler =
  targets :: "slots_target list"
  downTicks :: "string \<rightharpoonup> int"
  onScale_log :: "(string \<times> int \<times> int) list"
  onChanged_count :: nat

definition down_threshold :: "autoscale_policy \<Rightarrow> int" where
  "down_threshold p = (case scaleDownAfterTicks p of None \<Rightarrow> 3 | Some n \<Rightarrow> n)"

text \<open>One iteration of the loop of \<open>tick\<close>: the target, the down-tick map, the scale event if any.\<close>

definition tick_target ::
  "autoscale_policy \<Rightarrow> load \<Rightarrow> (string \<rightharpoonup> int) \<Rightarrow> slots_target
     \<Rightarrow> slots_target \<times> (string \<rightharpoonup> int) \<times> (string \<times> int \<times> int) list" where
  "tick_target p ld ticks t =
     (let cur = mutable_current t; desired = desiredCapacity ld cur p; k = target_id t
      in if cur < desired then
           (mutable_scaleTo desired t, ticks(k \<mapsto> 0), [(k, cur, desired)])
         else if desired < cur then
           let d = get_or 0 ticks k + 1
           in if down_threshold p \<le> d then
                (mutable_scaleTo desired t, ticks(k \<mapsto> 0), [(k, cur, desired)])
              else (t, ticks(k \<mapsto> d), [])
         else (t, ticks(k \<mapsto> 0), []))"

fun tick_targets ::
  "autoscale_policy \<Rightarrow> load \<Rightarrow> (string \<rightharpoonup> int) \<Rightarrow> slots_target list
     \<Rightarrow> slots_target list \<times> (string \<rightharpoonup> int) \<times> (string \<times> int \<times> int) list" where
  "tick_targets p ld ticks [] = ([], ticks, [])"
| "tick_targets p ld ticks (t # ts) =
     (let (t', ticks', ev) = tick_target p ld ticks t;
          (ts', ticks'', evs) = tick_targets p ld ticks' ts
      in (t' # ts', ticks'', ev @ evs))"

definition as_tick :: "autoscale_policy \<Rightarrow> load \<Rightarrow> autoscaler \<Rightarrow> autoscaler" where
  "as_tick p ld a =
     (let (ts, ticks, evs) = tick_targets p ld (downTicks a) (targets a)
      in a\<lparr>targets := ts, downTicks := ticks, onScale_log := onScale_log a @ evs,
           onChanged_count := (if evs \<noteq> [] then Suc (onChanged_count a) else onChanged_count a)\<rparr>)"

definition aggregateLoad :: "int \<Rightarrow> (string \<times> int) list \<Rightarrow> load" where
  "aggregateLoad q perBackend = \<lparr>queued = q, inFlight = fold (\<lambda>(k, n) acc. acc + n) perBackend 0\<rparr>"

subsection \<open>One tick\<close>

lemma desiredCapacity_bounds:
  assumes "pmin p \<le> pmax p"
  shows "pmin p \<le> desiredCapacity ld cur p" "desiredCapacity ld cur p \<le> pmax p"
  using assms by (auto simp: desiredCapacity_def Let_def)

lemma default_desired:
  "targetSlots p = None \<Longrightarrow>
     desiredCapacity ld cur p = max (pmin p) (min (pmax p) (inFlight ld + queued ld))"
  by (simp add: desiredCapacity_def flip: of_int_add)

lemma tick_target_id [simp]: "target_id (fst (tick_target p ld ticks t)) = target_id t"
  by (simp add: tick_target_def Let_def mutable_scaleTo_def)

lemma tick_target_other:
  "k \<noteq> target_id t \<Longrightarrow> fst (snd (tick_target p ld ticks t)) k = ticks k"
  by (simp add: tick_target_def Let_def)

lemma tick_targets_ids [simp]:
  "map target_id (fst (tick_targets p ld ticks ts)) = map target_id ts"
  by (induction ts arbitrary: ticks) (auto simp: case_prod_unfold Let_def)

lemma tick_targets_other:
  "k \<notin> target_id ` set ts \<Longrightarrow> fst (snd (tick_targets p ld ticks ts)) k = ticks k"
  by (induction ts arbitrary: ticks) (auto simp: case_prod_unfold Let_def tick_target_other)

text \<open>With distinct ids each target only sees its own entry of \<open>downTicks\<close>.\<close>

lemma tick_target_local:
  assumes "ticks (target_id t) = ticks' (target_id t)"
  shows "fst (tick_target p ld ticks t) = fst (tick_target p ld ticks' t)
    \<and> fst (snd (tick_target p ld ticks t)) (target_id t) = fst (snd (tick_target p ld ticks' t)) (target_id t)"
  using assms by (simp add: tick_target_def Let_def get_or_def)

lemma tick_targets_nth:
  assumes "distinct (map target_id ts)" "i < length ts"
  shows "fst (tick_targets p ld ticks ts) ! i = fst (tick_target p ld ticks (ts ! i))
    \<and> fst (snd (tick_targets p ld ticks ts)) (target_id (ts ! i))
      = fst (snd (tick_target p ld ticks (ts ! i))) (target_id (ts ! i))"
  using assms
proof (induction ts arbitrary: ticks i)
  case Nil
  then show ?case by simp
next
  case (Cons t ts)
  let ?ticks = "fst (snd (tick_target p ld ticks t))"
  show ?case
  proof (cases i)
    case 0
    have "target_id t \<notin> target_id ` set ts" using Cons.prems(1) by auto
    with 0 show ?thesis by (simp add: case_prod_unfold Let_def tick_targets_other)
  next
    case (Suc k)
    have "target_id (ts ! k) \<noteq> target_id t"
      using Cons.prems Suc by (metis distinct.simps(2) length_Cons list.simps(9) Suc_less_eq
        length_map nth_map nth_mem)
    then have "?ticks (target_id (ts ! k)) = ticks (target_id (ts ! k))"
      by (rule tick_target_other)
    then have "fst (tick_target p ld ?ticks (ts ! k)) = fst (tick_target p ld ticks (ts ! k))
      \<and> fst (snd (tick_target p ld ?ticks (ts ! k))) (target_id (ts ! k))
        = fst (snd (tick_target p ld ticks (ts ! k))) (target_id (ts ! k))"
      by (rule tick_target_local)
    with Cons.IH [of k ?ticks] Cons.prems Suc show ?thesis
      by (simp add: case_prod_unfold Let_def)
  qed
qed

subsection \<open>A target's own view of a run of ticks\<close>

type_synonym target_state = "int \<times> int"

text \<open>(slots, consecutive down ticks) of one target.\<close>

definition local_tick :: "autoscale_policy \<Rightarrow> load \<Rightarrow> target_state \<Rightarrow> target_state" where
  "local_tick p ld s =
     (let cur = fst s; desired = desiredCapacity ld cur p
      in if cur < desired then (desired, 0)
         else if desired < cur then
           (if down_threshold p \<le> snd s + 1 then (desired, 0) else (cur, snd s + 1))
         else (cur, 0))"

definition as_run :: "autoscale_policy \<Rightarrow> load list \<Rightarrow> autoscaler \<Rightarrow> autoscaler" where
  "as_run p lds a = fold (as_tick p) lds a"

definition local_run :: "autoscale_policy \<Rightarrow> load list \<Rightarrow> target_state \<Rightarrow> target_state" where
  "local_run p lds s = fold (local_tick p) lds s"

definition view :: "autoscaler \<Rightarrow> nat \<Rightarrow> target_state" where
  "view a i = (target_slots (targets a ! i), get_or 0 (downTicks a) (target_id (targets a ! i)))"

lemma as_tick_ids [simp]: "map target_id (targets (as_tick p ld a)) = map target_id (targets a)"
  by (simp add: as_tick_def case_prod_unfold Let_def)

lemma as_tick_length [simp]: "length (targets (as_tick p ld a)) = length (targets a)"
  by (metis as_tick_ids length_map)

lemma tick_target_view:
  "(target_slots (fst (tick_target p ld ticks t)),
    get_or 0 (fst (snd (tick_target p ld ticks t))) (target_id t))
   = local_tick p ld (target_slots t, get_or 0 ticks (target_id t))"
  by (simp add: tick_target_def local_tick_def mutable_current_def mutable_scaleTo_def Let_def)

lemma view_tick:
  assumes "distinct (map target_id (targets a))" "i < length (targets a)"
  shows "view (as_tick p ld a) i = local_tick p ld (view a i)"
proof -
  note nth = tick_targets_nth [OF assms, of p ld "downTicks a"]
  have "target_id (targets (as_tick p ld a) ! i) = target_id (targets a ! i)"
    by (metis as_tick_ids as_tick_length assms(2) nth_map)
  then show ?thesis
    using nth tick_target_view [of p ld "downTicks a" "targets a ! i"]
    by (simp add: view_def as_tick_def case_prod_unfold Let_def get_or_def)
qed

lemma view_run:
  "distinct (map target_id (targets a)) \<Longrightarrow> i < length (targets a) \<Longrightarrow>
     view (as_run p lds a) i = local_run p lds (view a i)"
  by (induction lds arbitrary: a) (simp_all add: as_run_def local_run_def view_tick)

lemma local_run_no_shrink:
  "snd s + int (length lds) < down_threshold p \<Longrightarrow> 0 \<le> snd s \<Longrightarrow> fst s \<le> fst (local_run p lds s)"
proof (induction lds arbitrary: s)
  case Nil
  then show ?case by (simp add: local_run_def)
next
  case (Cons ld lds)
  let ?s = "local_tick p ld s"
  have step: "fst s \<le> fst ?s" "snd ?s \<le> snd s + 1" "0 \<le> snd ?s"
    using Cons.prems by (auto simp: local_tick_def Let_def)
  from Cons.IH [of ?s] step Cons.prems have "fst ?s \<le> fst (local_run p lds ?s)" by simp
  with step(1) show ?case by (simp add: local_run_def)
qed

lemma local_run_settles:
  assumes "targetSlots p = None" "0 \<le> snd s" "down_threshold p \<le> snd s + int n" "0 < n"
  shows "fst (local_run p (replicate n ld) s) = desiredCapacity ld 0 p"
  using assms(2-)
proof (induction n arbitrary: s)
  case 0
  then show ?case by simp
next
  case (Suc n)
  let ?d = "desiredCapacity ld 0 p" and ?s = "local_tick p ld s"
  have tick: "local_tick p ld s' =
      (if fst s' < ?d then (?d, 0)
       else if ?d < fst s' then (if down_threshold p \<le> snd s' + 1 then (?d, 0) else (fst s', snd s' + 1))
       else (fst s', 0))" for s'
    unfolding local_tick_def default_desired [OF assms(1)] Let_def by (rule refl)
  have fixed: "fst (local_run p (replicate m ld) s') = ?d" if "fst s' = ?d" for m s'
    using that by (induction m arbitrary: s') (simp_all add: local_run_def tick)
  show ?case
  proof (cases "fst ?s = ?d")
    case True
    from fixed [OF this, of n] show ?thesis by (simp add: local_run_def)
  next
    case False
    then have down: "?s = (fst s, snd s + 1)" "snd s + 1 < down_threshold p"
      by (auto simp: tick split: if_splits)
    then have "0 < n" using Suc.prems by (cases n) auto
    with Suc.IH [of ?s] down Suc.prems show ?thesis by (simp add: local_run_def)
  qed
qed

subsection \<open>Properties\<close>

text \<open>C6. Hysteresis: starting from an autoscaler that has counted no down tick for target \<open>i\<close>, no run
  of fewer ticks than the scale-down threshold ever shrinks it, whatever the loads.\<close>

theorem autoscaler_no_flapping:
  assumes "distinct (map target_id (targets a))" "i < length (targets a)"
    and "get_or 0 (downTicks a) (target_id (targets a ! i)) = 0"
    and "int (length lds) < down_threshold p"
  shows "target_slots (targets a ! i) \<le> target_slots (targets (as_run p lds a) ! i)"
proof -
  have "fst (view a i) \<le> fst (local_run p lds (view a i))"
    using assms(3,4) by (intro local_run_no_shrink) (simp_all add: view_def)
  also have "local_run p lds (view a i) = view (as_run p lds a) i"
    by (rule view_run [OF assms(1,2), symmetric])
  finally show ?thesis by (simp add: view_def)
qed

definition demo_scaler :: autoscaler where
  "demo_scaler = \<lparr>targets = [\<lparr>target_id = ''a'', target_slots = 6\<rparr>, \<lparr>target_id = ''b'', target_slots = 1\<rparr>],
     downTicks = Map.empty, onScale_log = [], onChanged_count = 0\<rparr>"

definition demo_scale_policy :: autoscale_policy where
  "demo_scale_policy = \<lparr>pmin = 1, pmax = 4, targetSlots = None, scaleDownAfterTicks = None\<rparr>"

lemma autoscaler_no_flapping_witness:
  "6 \<le> target_slots (targets (as_run demo_scale_policy [\<lparr>queued = 0, inFlight = 0\<rparr>, \<lparr>queued = 0, inFlight = 2\<rparr>] demo_scaler) ! 0)"
proof -
  have "distinct (map target_id (targets demo_scaler))" "0 < length (targets demo_scaler)"
    "get_or 0 (downTicks demo_scaler) (target_id (targets demo_scaler ! 0)) = 0" by code_simp+
  from autoscaler_no_flapping [OF this, of "[\<lparr>queued = 0, inFlight = 0\<rparr>, \<lparr>queued = 0, inFlight = 2\<rparr>]" demo_scale_policy]
  show ?thesis by (simp add: demo_scaler_def down_threshold_def demo_scale_policy_def)
qed

text \<open>Convergence: under a constant load and the default demand, after as many ticks as the
  scale-down threshold (at least one) every target has exactly the demanded capacity, clamped to the
  policy's bounds.\<close>

theorem autoscaler_converges:
  assumes "distinct (map target_id (targets a))" "i < length (targets a)"
    and "targetSlots p = None" "0 \<le> get_or 0 (downTicks a) (target_id (targets a ! i))"
    and "down_threshold p \<le> int n" "0 < n"
  shows "target_slots (targets (as_run p (replicate n ld) a) ! i)
     = max (pmin p) (min (pmax p) (inFlight ld + queued ld))"
proof -
  have "fst (local_run p (replicate n ld) (view a i)) = desiredCapacity ld 0 p"
    using assms(3-) by (intro local_run_settles) (simp_all add: view_def)
  also have "local_run p (replicate n ld) (view a i) = view (as_run p (replicate n ld) a) i"
    by (rule view_run [OF assms(1,2), symmetric])
  finally show ?thesis by (simp add: view_def default_desired [OF assms(3)])
qed

lemma autoscaler_converges_witness:
  "target_slots (targets (as_run demo_scale_policy (replicate 3 \<lparr>queued = 1, inFlight = 2\<rparr>) demo_scaler) ! 0) = 3"
proof -
  have "distinct (map target_id (targets demo_scaler))" "0 < length (targets demo_scaler)"
    "targetSlots demo_scale_policy = None"
    "0 \<le> get_or 0 (downTicks demo_scaler) (target_id (targets demo_scaler ! 0))" by code_simp+
  from autoscaler_converges [OF this, of 3 "\<lparr>queued = 1, inFlight = 2\<rparr>"]
  show ?thesis by (simp add: down_threshold_def demo_scale_policy_def)
qed

end
