(* ===== verification/Budget.thy ===== *)
theory Budget
  imports Prelude
begin

text \<open>
  The enforcement budget of packages/domain/src/billing/budget.ts: \<open>admit\<close> reserves a run or throws a
  402, \<open>release\<close> gives a reservation back, \<open>settle\<close> commits cost.
\<close>

record budget_limit =
  lim_usd :: "rat option"
  lim_tokens :: "int option"
  lim_runs :: "int option"

record budget_usage =
  usd :: rat
  tokens :: int
  runs :: int

definition no_usage :: budget_usage where
  "no_usage = \<lparr>usd = 0, tokens = 0, runs = 0\<rparr>"

type_synonym budget = "string \<rightharpoonup> budget_usage"

definition over :: "('a::linorder) option \<Rightarrow> 'a \<Rightarrow> bool" where
  "over cap used = (case cap of None \<Rightarrow> False | Some l \<Rightarrow> l \<le> used)"

definition assertWithinBudget :: "budget_usage \<Rightarrow> budget_limit option \<Rightarrow> unit res" where
  "assertWithinBudget u limit =
     (case limit of
        None \<Rightarrow> Inr ()
      | Some l \<Rightarrow>
          if over (lim_usd l) (usd u) then Inl (PaymentRequired ''BUDGET_EXCEEDED'' ''cost budget exceeded'')
          else if over (lim_tokens l) (tokens u)
          then Inl (PaymentRequired ''BUDGET_EXCEEDED'' ''token budget exceeded'')
          else if over (lim_runs l) (runs u)
          then Inl (PaymentRequired ''BUDGET_EXCEEDED'' ''run-count budget exceeded'')
          else Inr ())"

text \<open>\<open>get\<close> of the code inserts a zero entry for a tenant it has not seen.\<close>

definition budget_get :: "budget \<Rightarrow> string \<Rightarrow> budget_usage \<times> budget" where
  "budget_get b t = (case b t of Some u \<Rightarrow> (u, b) | None \<Rightarrow> (no_usage, b(t \<mapsto> no_usage)))"

definition budget_admit :: "(string \<Rightarrow> budget_limit option) \<Rightarrow> string \<Rightarrow> budget \<Rightarrow> unit res \<times> budget" where
  "budget_admit limitFor t b =
     (let (u, b1) = budget_get b t
      in case assertWithinBudget u (limitFor t) of
           Inl e \<Rightarrow> (Inl e, b1)
         | Inr _ \<Rightarrow> (Inr (), b1(t \<mapsto> u\<lparr>runs := runs u + 1\<rparr>)))"

definition budget_release :: "string \<Rightarrow> budget \<Rightarrow> budget" where
  "budget_release t b =
     (let (u, b1) = budget_get b t in b1(t \<mapsto> u\<lparr>runs := max 0 (runs u - 1)\<rparr>))"

definition budget_settle :: "string \<Rightarrow> rat \<Rightarrow> int \<Rightarrow> budget \<Rightarrow> budget" where
  "budget_settle t cost_usd cost_tokens b =
     (let (u, b1) = budget_get b t
      in b1(t \<mapsto> u\<lparr>usd := usd u + cost_usd, tokens := tokens u + cost_tokens\<rparr>))"

definition budget_usage_of :: "string \<Rightarrow> budget \<Rightarrow> budget_usage" where
  "budget_usage_of t b = fst (budget_get b t)"

subsection \<open>What each operation does to the usage\<close>

lemma usage_of: "budget_usage_of t b = get_or no_usage b t"
  by (simp add: budget_usage_of_def budget_get_def get_or_def split: option.split)

lemma budget_get_usage [simp]: "get_or no_usage (snd (budget_get b t)) t' = get_or no_usage b t'"
  by (simp add: budget_get_def get_or_def split: option.split)

lemma budget_get_fst [simp]: "fst (budget_get b t) = get_or no_usage b t"
  by (simp add: budget_get_def get_or_def split: option.split)

lemma usage_admit [counters]:
  "budget_usage_of t' (snd (budget_admit lf t b)) =
     (if t' = t \<and> \<not> throws (fst (budget_admit lf t b))
      then (budget_usage_of t b)\<lparr>runs := runs (budget_usage_of t b) + 1\<rparr> else budget_usage_of t' b)"
  by (simp add: budget_admit_def usage_of case_prod_unfold Let_def split: sum.split)

lemma usage_release [counters]:
  "budget_usage_of t' (budget_release t b) =
     (if t' = t then (budget_usage_of t b)\<lparr>runs := max 0 (runs (budget_usage_of t b) - 1)\<rparr>
      else budget_usage_of t' b)"
  by (simp add: budget_release_def usage_of case_prod_unfold Let_def)

lemma usage_settle [counters]:
  "budget_usage_of t' (budget_settle t c k b) =
     (if t' = t then (budget_usage_of t b)\<lparr>usd := usd (budget_usage_of t b) + c,
                                           tokens := tokens (budget_usage_of t b) + k\<rparr>
      else budget_usage_of t' b)"
  by (simp add: budget_settle_def usage_of case_prod_unfold Let_def)

lemma assertWithinBudget_ok_iff:
  "\<not> throws (assertWithinBudget u limit) \<longleftrightarrow>
     (case limit of None \<Rightarrow> True
      | Some l \<Rightarrow> \<not> over (lim_usd l) (usd u) \<and> \<not> over (lim_tokens l) (tokens u) \<and> \<not> over (lim_runs l) (runs u))"
  by (simp add: assertWithinBudget_def split: option.split)

lemma admit_ok_iff:
  "\<not> throws (fst (budget_admit lf t b)) \<longleftrightarrow>
     \<not> throws (assertWithinBudget (budget_usage_of t b) (lf t))"
  by (simp add: budget_admit_def usage_of case_prod_unfold Let_def split: sum.split)

lemma runs_empty [simp]: "runs (budget_usage_of t Map.empty) = 0"
  by (simp add: usage_of no_usage_def)

subsection \<open>The tracker interface\<close>

text \<open>\<open>BudgetTracker\<close>, as its clients use it: a count of reserved runs that \<open>admit\<close> raises by one for
  its tenant, \<open>release\<close> lowers by one and never below zero, and \<open>settle\<close> leaves alone.\<close>

locale budget_tracker =
  fixes admit :: "string \<Rightarrow> 'b \<Rightarrow> unit res \<times> 'b"
    and release :: "string \<Rightarrow> 'b \<Rightarrow> 'b"
    and settle :: "string \<Rightarrow> rat \<Rightarrow> int \<Rightarrow> 'b \<Rightarrow> 'b"
    and reserved :: "'b \<Rightarrow> string \<Rightarrow> int"
  assumes admit_reserves: "\<not> throws (fst (admit t b)) \<Longrightarrow>
      reserved (snd (admit t b)) t' = (if t' = t then reserved b t + 1 else reserved b t')"
    and admit_refuses: "throws (fst (admit t b)) \<Longrightarrow> reserved (snd (admit t b)) t' = reserved b t'"
    and release_returns: "0 < reserved b t \<Longrightarrow>
      reserved (release t b) t' = (if t' = t then reserved b t - 1 else reserved b t')"
    and release_floor: "reserved b t = 0 \<Longrightarrow> reserved (release t b) t' = reserved b t'"
    and settle_keeps: "reserved (settle t c k b) t' = reserved b t'"
begin

lemma admit_release:
  assumes "\<not> throws (fst (admit t b))" "0 \<le> reserved b t"
  shows "reserved (release t (snd (admit t b))) t' = reserved b t'"
  using assms by (auto simp: admit_reserves release_returns)

lemma release_nonneg:
  assumes "0 \<le> reserved b t" "0 \<le> reserved b t'"
  shows "0 \<le> reserved (release t b) t'"
  using assms release_returns [of b t t'] release_floor [of b t t'] by (cases "reserved b t = 0") auto

text \<open>Releasing a batch gives back one reservation for each of its members.\<close>

lemma release_all:
  "(\<And>t. int (count_list ts t) \<le> reserved b t) \<Longrightarrow>
     reserved (fold release ts b) t = reserved b t - int (count_list ts t)"
proof (induction ts arbitrary: b)
  case Nil
  then show ?case by simp
next
  case (Cons x ts)
  have pos: "0 < reserved b x" using Cons.prems [of x] by simp
  have "int (count_list ts u) \<le> reserved (release x b) u" for u
    using Cons.prems [of u] release_returns [OF pos, of u] by (auto split: if_splits)
  from Cons.IH [OF this] show ?case using release_returns [OF pos, of t] by simp
qed

end

interpretation in_memory: budget_tracker
  "budget_admit limitFor" budget_release budget_settle "\<lambda>b t. runs (budget_usage_of t b)"
  for limitFor
  by unfold_locales (auto simp: counters)

end
