(* ===== verification/Admission.thy ===== *)
theory Admission
  imports Ordering
begin

text \<open>
  The admission arithmetic of packages/backends/src/scheduling/scheduler.ts: what a backend has left
  (\<open>backendSlotOf\<close>), whether a unit fits (\<open>slotAdmits\<close>), and the in-flight counters of the class
  \<open>Admission\<close>. A reading that a probe could not take (the string "unknown") is \<open>Unknown\<close>.
\<close>

datatype reading = Observed int | Unknown

record capacity =
  cap_total :: int
  cap_used :: reading
  usedMemoryMb :: "reading option"
  usedCpu :: "reading option"
  memoryBudgetMb :: "int option"
  cpuBudget :: "int option"

record slot =
  slot_name :: string
  free :: int
  slot_total :: int
  memFreeMb :: bound
  cpuFree :: bound

record usage =
  use_slots :: int
  use_memoryMb :: int
  use_cpu :: int

definition effectiveResource :: "int \<Rightarrow> reading option \<Rightarrow> int \<Rightarrow> int" where
  "effectiveResource budget observed ours =
     (case observed of
        None \<Rightarrow> ours
      | Some Unknown \<Rightarrow> budget
      | Some (Observed n) \<Rightarrow> max n ours)"

datatype use_rule = Max | Sum

definition effectiveUsed :: "capacity \<Rightarrow> int \<Rightarrow> use_rule \<Rightarrow> int" where
  "effectiveUsed cap held rule =
     (case cap_used cap of
        Unknown \<Rightarrow> cap_total cap
      | Observed n \<Rightarrow> (case rule of Max \<Rightarrow> max n held | Sum \<Rightarrow> n + held))"

definition backendSlotOf :: "string \<Rightarrow> capacity \<Rightarrow> usage \<Rightarrow> slot" where
  "backendSlotOf name cap u =
     \<lparr>slot_name = name,
      free = max 0 (cap_total cap - use_slots u),
      slot_total = cap_total cap,
      memFreeMb = (case memoryBudgetMb cap of
          None \<Rightarrow> Unbounded
        | Some budget \<Rightarrow>
            Finite (max 0 (budget - effectiveResource budget (usedMemoryMb cap) (use_memoryMb u)))),
      cpuFree = (case cpuBudget cap of
          None \<Rightarrow> Unbounded
        | Some budget \<Rightarrow> Finite (max 0 (budget - effectiveResource budget (usedCpu cap) (use_cpu u))))\<rparr>"

text \<open>\<open>need.memoryMb\<close> and \<open>need.cpu\<close> arrive with their default 0 applied.\<close>

definition slotAdmits :: "slot \<Rightarrow> int \<Rightarrow> int \<Rightarrow> bool" where
  "slotAdmits s memNeed cpuNeed \<longleftrightarrow>
     0 < free s \<and> le_bound memNeed (memFreeMb s) \<and> le_bound cpuNeed (cpuFree s)"

subsection \<open>Counters\<close>

definition bump :: "(string \<rightharpoonup> int) \<Rightarrow> string \<Rightarrow> int \<Rightarrow> (string \<rightharpoonup> int)" where
  "bump m key delta =
     (let nxt = max 0 (get_or 0 m key + delta)
      in if nxt = 0 then m(key := None) else m(key \<mapsto> nxt))"

record admission =
  backendCounts :: "string \<rightharpoonup> int"
  backendMemMb :: "string \<rightharpoonup> int"
  backendCpu :: "string \<rightharpoonup> int"
  tenantCounts :: "string \<rightharpoonup> int"
  harnessCounts :: "string \<rightharpoonup> int"

definition new_admission :: admission where
  "new_admission = \<lparr>backendCounts = Map.empty, backendMemMb = Map.empty, backendCpu = Map.empty,
     tenantCounts = Map.empty, harnessCounts = Map.empty\<rparr>"

definition harness_slot :: "string \<Rightarrow> string \<Rightarrow> string" where
  "harness_slot backend harness = backend @ ''|'' @ harness"

record reservation =
  r_backend :: string
  r_tenant :: string
  r_mem :: int
  r_cpu :: int
  r_harness :: string

definition adm_reserve :: "reservation \<Rightarrow> admission \<Rightarrow> admission" where
  "adm_reserve r a =
     a\<lparr>backendCounts := bump (backendCounts a) (r_backend r) 1,
       backendMemMb := (if 0 < r_mem r then bump (backendMemMb a) (r_backend r) (r_mem r) else backendMemMb a),
       backendCpu := (if 0 < r_cpu r then bump (backendCpu a) (r_backend r) (r_cpu r) else backendCpu a),
       tenantCounts := bump (tenantCounts a) (r_tenant r) 1,
       harnessCounts := bump (harnessCounts a) (harness_slot (r_backend r) (r_harness r)) 1\<rparr>"

definition adm_release :: "reservation \<Rightarrow> admission \<Rightarrow> admission" where
  "adm_release r a =
     a\<lparr>backendCounts := bump (backendCounts a) (r_backend r) (- 1),
       backendMemMb := (if 0 < r_mem r then bump (backendMemMb a) (r_backend r) (- r_mem r) else backendMemMb a),
       backendCpu := (if 0 < r_cpu r then bump (backendCpu a) (r_backend r) (- r_cpu r) else backendCpu a),
       tenantCounts := bump (tenantCounts a) (r_tenant r) (- 1),
       harnessCounts := bump (harnessCounts a) (harness_slot (r_backend r) (r_harness r)) (- 1)\<rparr>"

definition countFor :: "admission \<Rightarrow> string \<Rightarrow> int" where
  "countFor a b = get_or 0 (backendCounts a) b"

definition harnessCountFor :: "admission \<Rightarrow> string \<Rightarrow> string \<Rightarrow> int" where
  "harnessCountFor a b h = get_or 0 (harnessCounts a) (harness_slot b h)"

definition memMbFor :: "admission \<Rightarrow> string \<Rightarrow> int" where
  "memMbFor a b = get_or 0 (backendMemMb a) b"

definition cpuFor :: "admission \<Rightarrow> string \<Rightarrow> int" where
  "cpuFor a b = get_or 0 (backendCpu a) b"

definition tenantCountFor :: "admission \<Rightarrow> string \<Rightarrow> int" where
  "tenantCountFor a t = get_or 0 (tenantCounts a) t"

record fleet =
  atProbe :: "string \<rightharpoonup> int"
  localAtProbe :: "string \<rightharpoonup> int"

definition fleet_countFor :: "fleet \<Rightarrow> string \<Rightarrow> int \<Rightarrow> int" where
  "fleet_countFor f t localNow =
     (let placedSinceProbe = max 0 (localNow - get_or 0 (localAtProbe f) t)
      in max localNow (get_or 0 (atProbe f) t + placedSinceProbe))"

text \<open>\<open>localeCompare\<close> is the parameter \<open>name_cmp\<close>.\<close>

definition slot_cmp :: "string compare \<Rightarrow> slot compare" where
  "slot_cmp name_cmp a b =
     (if free b - free a \<noteq> 0 then free b - free a else name_cmp (slot_name a) (slot_name b))"

definition leastLoaded :: "string compare \<Rightarrow> slot list \<Rightarrow> string option" where
  "leastLoaded name_cmp candidates =
     (case sort_by (slot_cmp name_cmp) candidates of [] \<Rightarrow> None | s # _ \<Rightarrow> Some (slot_name s))"

subsection \<open>A counter map tallies a multiset\<close>

lemma get_bump [counters]:
  "get_or 0 (bump m k d) k' = (if k' = k then max 0 (get_or 0 m k + d) else get_or 0 m k')"
  by (simp add: bump_def Let_def)

lemma bump_no_zero: "\<forall>k. m k \<noteq> Some 0 \<Longrightarrow> bump m k' d k \<noteq> Some 0"
  by (auto simp: bump_def Let_def)

lemma bump_0:
  assumes "\<forall>k. 0 \<le> get_or 0 m k \<and> m k \<noteq> Some 0"
  shows "bump m k 0 = m"
proof (cases "m k")
  case None
  then show ?thesis by (simp add: bump_def get_or_def fun_upd_idem)
next
  case (Some v)
  then have "0 \<le> v" "v \<noteq> 0" using assms by (auto simp: get_or_def dest: spec [of _ k])
  with Some show ?thesis by (simp add: bump_def get_or_def fun_upd_idem)
qed

locale tally_map =
  fixes kf :: "'r \<Rightarrow> string" and df :: "'r \<Rightarrow> int"
  assumes df_nonneg: "0 \<le> df r"
begin

definition total :: "'r multiset \<Rightarrow> string \<Rightarrow> int" where
  "total M k = (\<Sum>r \<in># filter_mset (\<lambda>r. kf r = k) M. df r)"

definition tallies :: "(string \<rightharpoonup> int) \<Rightarrow> 'r multiset \<Rightarrow> bool" where
  "tallies m M \<longleftrightarrow> (\<forall>k. get_or 0 m k = total M k \<and> m k \<noteq> Some 0)"

lemma total_nonneg: "0 \<le> total M k"
  by (induction M) (auto simp: total_def df_nonneg)

lemma total_add [simp]: "total (add_mset r M) k = total M k + (if kf r = k then df r else 0)"
  by (simp add: total_def)

lemma total_remove: "r \<in># M \<Longrightarrow> total (M - {#r#}) k = total M k - (if kf r = k then df r else 0)"
  using total_add [of r "M - {#r#}" k] by simp

lemma tallies_empty: "tallies Map.empty {#}"
  by (simp add: tallies_def total_def)

lemma tallies_add: "tallies m M \<Longrightarrow> tallies (bump m (kf r) (df r)) (add_mset r M)"
  using df_nonneg [of r] total_nonneg [of M]
  by (auto simp: tallies_def counters bump_no_zero)

lemma tallies_remove:
  assumes "tallies m M" "r \<in># M"
  shows "tallies (bump m (kf r) (- df r)) (M - {#r#})"
proof -
  have "0 \<le> total M (kf r) - df r"
    using total_nonneg [of "M - {#r#}" "kf r"] total_remove [OF assms(2), of "kf r"] by simp
  then show ?thesis
    using assms by (auto simp: tallies_def counters bump_no_zero total_remove)
qed

text \<open>A unit that weighs nothing on this axis leaves the map alone, as the code's guards do.\<close>

lemma tallies_skip: "tallies m M \<Longrightarrow> bump m k 0 = m"
  using total_nonneg [of M] by (intro bump_0) (simp add: tallies_def)

end

interpretation slots_axis: tally_map r_backend "\<lambda>_. 1"
  by unfold_locales simp

interpretation mem_axis: tally_map r_backend "\<lambda>r. max 0 (r_mem r)"
  by unfold_locales simp

interpretation cpu_axis: tally_map r_backend "\<lambda>r. max 0 (r_cpu r)"
  by unfold_locales simp

interpretation tenant_axis: tally_map r_tenant "\<lambda>_. 1"
  by unfold_locales simp

interpretation harness_axis: tally_map "\<lambda>r. harness_slot (r_backend r) (r_harness r)" "\<lambda>_. 1"
  by unfold_locales simp

text \<open>The abstract state of an \<open>Admission\<close>: the multiset of reservations it holds.\<close>

definition holds :: "admission \<Rightarrow> reservation multiset \<Rightarrow> bool" where
  "holds a M \<longleftrightarrow> slots_axis.tallies (backendCounts a) M \<and> mem_axis.tallies (backendMemMb a) M
     \<and> cpu_axis.tallies (backendCpu a) M \<and> tenant_axis.tallies (tenantCounts a) M
     \<and> harness_axis.tallies (harnessCounts a) M"

lemma holds_new [invariants]: "holds new_admission {#}"
  by (simp add: holds_def new_admission_def slots_axis.tallies_empty mem_axis.tallies_empty
      cpu_axis.tallies_empty tenant_axis.tallies_empty harness_axis.tallies_empty)

lemma holds_reserve [invariants]:
  assumes "holds a M"
  shows "holds (adm_reserve r a) (add_mset r M)"
proof -
  have "mem_axis.tallies (if 0 < r_mem r then bump (backendMemMb a) (r_backend r) (r_mem r)
      else backendMemMb a) (add_mset r M)"
    using mem_axis.tallies_add [of "backendMemMb a" M r] mem_axis.tallies_skip [of "backendMemMb a" M] assms
    by (auto simp: holds_def max_def split: if_splits)
  moreover have "cpu_axis.tallies (if 0 < r_cpu r then bump (backendCpu a) (r_backend r) (r_cpu r)
      else backendCpu a) (add_mset r M)"
    using cpu_axis.tallies_add [of "backendCpu a" M r] cpu_axis.tallies_skip [of "backendCpu a" M] assms
    by (auto simp: holds_def max_def split: if_splits)
  ultimately show ?thesis
    using assms slots_axis.tallies_add [of "backendCounts a" M r]
      tenant_axis.tallies_add [of "tenantCounts a" M r]
      harness_axis.tallies_add [of "harnessCounts a" M r]
    by (simp add: holds_def adm_reserve_def)
qed

lemma holds_release [invariants]:
  assumes "holds a M" "r \<in># M"
  shows "holds (adm_release r a) (M - {#r#})"
proof -
  have "mem_axis.tallies (if 0 < r_mem r then bump (backendMemMb a) (r_backend r) (- r_mem r)
      else backendMemMb a) (M - {#r#})"
    using mem_axis.tallies_remove [of "backendMemMb a" M r] mem_axis.tallies_skip [of "backendMemMb a" M] assms
    by (auto simp: holds_def max_def split: if_splits)
  moreover have "cpu_axis.tallies (if 0 < r_cpu r then bump (backendCpu a) (r_backend r) (- r_cpu r)
      else backendCpu a) (M - {#r#})"
    using cpu_axis.tallies_remove [of "backendCpu a" M r] cpu_axis.tallies_skip [of "backendCpu a" M] assms
    by (auto simp: holds_def max_def split: if_splits)
  ultimately show ?thesis
    using assms slots_axis.tallies_remove [of "backendCounts a" M r]
      tenant_axis.tallies_remove [of "tenantCounts a" M r]
      harness_axis.tallies_remove [of "harnessCounts a" M r]
    by (simp add: holds_def adm_release_def)
qed

lemma sum_mset_ones: "(\<Sum>r \<in># M. (1 :: int)) = int (size M)"
  by (induction M) auto

lemma holds_counts:
  assumes "holds a M"
  shows "countFor a b = int (size (filter_mset (\<lambda>r. r_backend r = b) M))"
    and "tenantCountFor a t = int (size (filter_mset (\<lambda>r. r_tenant r = t) M))"
    and "memMbFor a b = (\<Sum>r \<in># filter_mset (\<lambda>r. r_backend r = b) M. max 0 (r_mem r))"
    and "cpuFor a b = (\<Sum>r \<in># filter_mset (\<lambda>r. r_backend r = b) M. max 0 (r_cpu r))"
    and "harnessCountFor a b h
      = int (size (filter_mset (\<lambda>r. harness_slot (r_backend r) (r_harness r) = harness_slot b h) M))"
  using assms unfolding holds_def countFor_def tenantCountFor_def memMbFor_def cpuFor_def harnessCountFor_def
  by (simp_all only: slots_axis.tallies_def slots_axis.total_def tenant_axis.tallies_def
      tenant_axis.total_def mem_axis.tallies_def mem_axis.total_def cpu_axis.tallies_def
      cpu_axis.total_def harness_axis.tallies_def harness_axis.total_def sum_mset_ones)

subsection \<open>Placement policy\<close>

locale name_order = names: comparison name_cmp "\<lambda>_. True" for name_cmp :: "string compare"

sublocale name_order \<subseteq> by_load: comparison "slot_cmp name_cmp" "\<lambda>_. True"
proof unfold_locales
  fix a b c :: slot
  show "slot_cmp name_cmp a a = 0" by (simp add: slot_cmp_def names.cmp_refl)
  show "slot_cmp name_cmp a b \<le> 0 \<longleftrightarrow> 0 \<le> slot_cmp name_cmp b a"
    using names.cmp_flip [of "slot_name a" "slot_name b"] by (auto simp: slot_cmp_def)
  show "slot_cmp name_cmp a b \<le> 0 \<Longrightarrow> slot_cmp name_cmp b c \<le> 0 \<Longrightarrow> slot_cmp name_cmp a c \<le> 0"
    using names.cmp_trans [of "slot_name a" "slot_name b" "slot_name c"]
    by (auto simp: slot_cmp_def split: if_splits)
qed

text \<open>With any consistent order of names the policy answers a candidate with the most room, and the least
  name among those.\<close>

context name_order begin

lemma leastLoaded_roomiest:
  assumes "leastLoaded name_cmp cs = Some n"
  shows "\<exists>s \<in> set cs. slot_name s = n \<and> (\<forall>c \<in> set cs. slot_cmp name_cmp s c \<le> 0)"
proof -
  have ne: "cs \<noteq> []" using assms by (auto simp: leastLoaded_def)
  then have "sort_by (slot_cmp name_cmp) cs \<noteq> []" by simp
  then have "hd (sort_by (slot_cmp name_cmp) cs) \<in> set cs"
    by (metis hd_in_set set_sort_by)
  moreover have "slot_name (hd (sort_by (slot_cmp name_cmp) cs)) = n"
    using assms by (auto simp: leastLoaded_def split: list.splits)
  ultimately show ?thesis using by_load.hd_sort_by_least [of cs] by blast
qed

end

interpretation unit_names: name_order code_unit_cmp
  by (rule name_order.intro) (rule code_units.comparison_axioms)

lemma leastLoaded_candidate:
  "leastLoaded name_cmp cs = Some n \<Longrightarrow> \<exists>s \<in> set cs. slot_name s = n"
  by (auto simp: leastLoaded_def split: list.splits)
    (metis list.set_intros(1) set_sort_by)

lemma leastLoaded_None [simp]: "leastLoaded name_cmp cs = None \<longleftrightarrow> cs = []"
  by (auto simp: leastLoaded_def split: list.splits)

text \<open>The default policy spreads: it answers exactly when there is a candidate, and then names one with
  the most room, the first of those under the order of names, whatever consistent order that is.\<close>

theorem leastLoaded_spreads:
  assumes "comparison name_cmp (\<lambda>_. True)"
  shows "(case leastLoaded name_cmp cs of
      None \<Rightarrow> cs = []
    | Some n \<Rightarrow> \<exists>s \<in> set cs. slot_name s = n
        \<and> list_all (\<lambda>c. free c < free s \<or> free c = free s \<and> name_cmp n (slot_name c) \<le> 0) cs)"
proof (cases "leastLoaded name_cmp cs")
  case None
  show ?thesis unfolding None using None by simp
next
  case (Some n)
  have "name_order name_cmp" using assms by (rule name_order.intro)
  from name_order.leastLoaded_roomiest [OF this Some]
  obtain s where s: "s \<in> set cs" "slot_name s = n" "\<forall>c \<in> set cs. slot_cmp name_cmp s c \<le> 0" by blast
  then have "list_all (\<lambda>c. free c < free s \<or> free c = free s \<and> name_cmp n (slot_name c) \<le> 0) cs"
    by (fastforce simp: list_all_iff slot_cmp_def split: if_splits)
  with s Some show ?thesis by auto
qed

definition free_slot :: "string \<Rightarrow> int \<Rightarrow> slot" where
  "free_slot n k = \<lparr>slot_name = n, free = k, slot_total = k, memFreeMb = Unbounded, cpuFree = Unbounded\<rparr>"

lemma leastLoaded_spreads_witness:
  "leastLoaded code_unit_cmp [free_slot ''b'' 2, free_slot ''a'' 2, free_slot ''c'' 1]
     = Some ''a''"
proof -
  let ?cs = "[free_slot ''b'' 2, free_slot ''a'' 2, free_slot ''c'' 1]"
  have less: "(''a'' :: string) < ''b''" "(''a'' :: string) < ''c''" "(''b'' :: string) < ''c''" by code_simp+
  note s = leastLoaded_spreads [OF code_units.comparison_axioms, of ?cs]
  then obtain n where "leastLoaded code_unit_cmp ?cs = Some n" by (cases "leastLoaded code_unit_cmp ?cs") auto
  with s less show ?thesis by (auto simp: free_slot_def)
qed

end
