(* ===== verification/Scheduler.thy ===== *)
theory Scheduler
  imports FairQueue Budget Admission
begin

text \<open>
  The \<open>Scheduler\<close> class of packages/backends/src/scheduling/scheduler.ts as a state machine.

  Queue entries are mutable objects shared between the fair queue, the pump and their abort
  listeners, so they live in a store (\<open>entries\<close>) under the number of their handle \<open>q<n>\<close>, and the
  queue holds handles. A promise is its settlement, the first one winning. The pump is cut at every
  \<open>await\<close> (and between loop iterations): \<open>pump_pc\<close> says where it stands, and each \<open>sched_event\<close> is one
  uninterrupted piece of execution, of the pump or of a caller, so a list of events is an
  interleaving. What an awaited call answers (capacity probes, the ledger, a harness pool, a backend's
  result) is an argument of its event.

  The scheduler is the one that places alone: \<open>SchedulerOptions.admission\<close>, the counters a composition shares with the lane that
  places verifiers, is not an option here, so \<open>new_sched\<close> starts with counters of its own and every statement about them is about
  the jobs of this scheduler. The registry is constant: the drain places only on names it lists, and the lookup that a removal
  between the scan and the placement would make throw is not a step.
\<close>

subsection \<open>Data\<close>

record job =
  job_tenant :: "string option"
  harness_id :: string
  harness_version :: string
  case_id :: string
  placement_target :: "string option"
  job_priority :: "string option"
  res_memoryMb :: "nat option"
  res_cpu :: "nat option"
  job_runId :: "string option"
  job_batchId :: "string option"
  job_tags :: "string list option"

text \<open>The per-dispatch options: opaque handles of the signal and the callbacks, absent or present.\<close>

record hooks =
  h_signal :: "nat option"
  h_onStarted :: "nat option"
  h_onWaiting :: "nat option"
  h_onAttempt :: "nat option"
  h_authority :: "nat option"
  h_acknowledgeResult :: "nat option"

type_synonym permit = "nat \<times> string"

record entry =
  permitId :: "permit option"
  job :: job
  enqueuedAt :: int
  promoted :: bool
  entry_hooks :: hooks

datatype outcome = Resolved rat int | Rejected app_error

datatype phase = Running | Completed | Finalized

record placement =
  p_res :: reservation
  p_opts :: "hooks option"
  p_phase :: phase

record drain =
  d_caps :: "string \<rightharpoonup> capacity"
  d_fleet :: fleet
  d_memo :: "string \<rightharpoonup> capacity option"
  d_slots :: "string \<rightharpoonup> slot"
  d_todo :: "nat list"
  d_placedAny :: bool

datatype pump_pc =
    Idle
  | Probing
  | ProbingFleet "string \<rightharpoonup> capacity"
  | Round drain
  | Scanning drain
  | Asking drain nat "slot list" "slot list"
  | Claiming drain nat string

record sched_opts =
  policy :: "slot list \<Rightarrow> job \<Rightarrow> string option"
  maxQueueDepth :: "int option"
  eligible :: "(job \<Rightarrow> string list \<Rightarrow> string list) option"
  weights :: "(string \<Rightarrow> rat) option"
  tenantQuota :: "(string \<Rightarrow> bound) option"
  tenantMaxQueueDepth :: "(string \<Rightarrow> bound) option"
  agingMs :: "int option"
  limitFor :: "(string \<Rightarrow> budget_limit option) option"
  has_ledger :: bool
  ledger_tryAdmit :: bool
  registry_names :: "string list"
  caseCapacityAware :: "string \<Rightarrow> bool"

record sched =
  queue :: "nat fair_queue"
  entries :: "nat \<rightharpoonup> entry"
  entrySeq :: nat
  adm :: admission
  budget :: budget
  livePermits :: "permit set"
  ledger_releases :: "permit list"
  promises :: "nat \<rightharpoonup> outcome"
  listening :: "nat set"
  placed :: "nat \<rightharpoonup> placement"
  pc :: pump_pc

definition new_sched :: sched where
  "new_sched = \<lparr>queue = new_fair_queue, entries = Map.empty, entrySeq = 0, adm = new_admission,
     budget = Map.empty, livePermits = {}, ledger_releases = [], promises = Map.empty,
     listening = {}, placed = Map.empty, pc = Idle\<rparr>"

subsection \<open>Reading a job and an entry\<close>

definition tenant_of_job :: "job \<Rightarrow> string" where
  "tenant_of_job j = (case job_tenant j of None \<Rightarrow> ''default'' | Some t \<Rightarrow> t)"

definition harnessKeyOf :: "job \<Rightarrow> string" where
  "harnessKeyOf j = harness_id j @ ''@'' @ harness_version j"

definition jobMemoryMb :: "job \<Rightarrow> int" where
  "jobMemoryMb j = (case res_memoryMb j of None \<Rightarrow> 0 | Some n \<Rightarrow> int n)"

definition jobCpu :: "job \<Rightarrow> int" where
  "jobCpu j = (case res_cpu j of None \<Rightarrow> 0 | Some n \<Rightarrow> int n)"

definition job_at :: "sched \<Rightarrow> nat \<Rightarrow> job" where
  "job_at s i = job (the (entries s i))"

definition tenant_at :: "sched \<Rightarrow> nat \<Rightarrow> string" where
  "tenant_at s i = tenant_of_job (job_at s i)"

text \<open>The options the constructor gives its fair queue.\<close>

definition queue_opts :: "sched_opts \<Rightarrow> sched \<Rightarrow> nat fq_options" where
  "queue_opts opts s = \<lparr>tenantOf = tenant_at s, weightFor = weights opts\<rparr>"

definition quota_of :: "sched_opts \<Rightarrow> string \<Rightarrow> bound" where
  "quota_of opts t = (case tenantQuota opts of None \<Rightarrow> Unbounded | Some f \<Rightarrow> f t)"

definition reservation_for :: "string \<Rightarrow> job \<Rightarrow> reservation" where
  "reservation_for backend j =
     \<lparr>r_backend = backend, r_tenant = tenant_of_job j, r_mem = jobMemoryMb j, r_cpu = jobCpu j,
      r_harness = harnessKeyOf j\<rparr>"

subsection \<open>Small steps every handler is made of\<close>

definition settle_promise :: "nat \<Rightarrow> outcome \<Rightarrow> sched \<Rightarrow> sched" where
  "settle_promise i res s =
     (case promises s i of None \<Rightarrow> s\<lparr>promises := (promises s)(i \<mapsto> res)\<rparr> | Some _ \<Rightarrow> s)"

definition dequeue :: "nat \<Rightarrow> sched \<Rightarrow> sched" where
  "dequeue i s = s\<lparr>queue := snd (fq_remove i (queue s))\<rparr>"

definition in_queue :: "sched \<Rightarrow> nat \<Rightarrow> bool" where
  "in_queue s i \<longleftrightarrow> fst (fq_remove i (queue s))"

definition releaseBudget :: "sched_opts \<Rightarrow> job \<Rightarrow> sched \<Rightarrow> sched" where
  "releaseBudget opts j s =
     (case limitFor opts of
        None \<Rightarrow> s
      | Some _ \<Rightarrow> s\<lparr>budget := budget_release (tenant_of_job j) (budget s)\<rparr>)"

definition drop_permit :: "permit \<Rightarrow> sched \<Rightarrow> sched" where
  "drop_permit p s = s\<lparr>livePermits := livePermits s - {p}\<rparr>"

definition releasePermit :: "sched_opts \<Rightarrow> nat \<Rightarrow> sched \<Rightarrow> sched" where
  "releasePermit opts i s =
     (case permitId (the (entries s i)) of
        None \<Rightarrow> s
      | Some p \<Rightarrow>
          let s1 = drop_permit p s
          in if has_ledger opts then s1\<lparr>ledger_releases := ledger_releases s1 @ [p]\<rparr> else s1)"

definition holdPermit :: "permit \<Rightarrow> sched \<Rightarrow> sched" where
  "holdPermit p s = s\<lparr>livePermits := insert p (livePermits s)\<rparr>"

text \<open>The synchronous head of \<open>pump\<close>: the reentrancy guard and the empty-queue return.\<close>

definition pump_start :: "sched \<Rightarrow> sched" where
  "pump_start s =
     (if pc s \<noteq> Idle then s
      else if fq_size (queue s) = 0 then s
      else s\<lparr>pc := Probing\<rparr>)"

lemma pump_start_code [code]:
  "pump_start s = (case pc s of
       Idle \<Rightarrow> if fq_size (queue s) = 0 then s else s\<lparr>pc := Probing\<rparr>
     | _ \<Rightarrow> s)"
  by (simp add: pump_start_def split: pump_pc.split)

subsection \<open>Calls from outside\<close>

definition dispatch_job ::
  "sched_opts \<Rightarrow> job \<Rightarrow> hooks \<Rightarrow> bool \<Rightarrow> int \<Rightarrow> sched \<Rightarrow> nat res \<times> sched" where
  "dispatch_job opts j hs aborted now s =
     (if aborted then (Inl (Internal ''CANCELLED'' ''dispatch aborted.''), s)
      else
        let t = tenant_of_job j in
        if ge_bound (int (fq_size (queue s))) (bound_of (maxQueueDepth opts))
        then (Inl (RateLimit ''RATE_LIMITED'' ''the scheduler queue is full.''), s)
        else
          let tenantMax = (case tenantMaxQueueDepth opts of None \<Rightarrow> Unbounded | Some f \<Rightarrow> f t) in
          if ge_bound (int (get_or 0 (fq_queuedByTenant (queue s)) t)) tenantMax
          then (Inl (RateLimit ''RATE_LIMITED'' ''this workspace's scheduler queue is full.''), s)
          else
            let (admitted, b) = (case limitFor opts of
                                   None \<Rightarrow> (Inr (), budget s)
                                 | Some lf \<Rightarrow> budget_admit lf t (budget s))
            in case admitted of
                 Inl e \<Rightarrow> (Inl e, s\<lparr>budget := b\<rparr>)
               | Inr _ \<Rightarrow>
                   let i = entrySeq s + 1;
                       e = \<lparr>permitId = None, job = j, enqueuedAt = now, promoted = False,
                            entry_hooks = hs\<rparr>;
                       s1 = s\<lparr>budget := b, entrySeq := i, entries := (entries s)(i \<mapsto> e),
                              listening := (if h_signal hs \<noteq> None then insert i (listening s)
                                            else listening s)\<rparr>;
                       s2 = s1\<lparr>queue := fq_enqueue (queue_opts opts s1) i (queue s1)\<rparr>
                   in (Inr i, pump_start s2))"

text \<open>The abort listener a dispatch with a signal registers; it fires once.\<close>

definition on_abort :: "sched_opts \<Rightarrow> nat \<Rightarrow> sched \<Rightarrow> sched" where
  "on_abort opts i s =
     (if i \<notin> listening s then s
      else
        let s1 = s\<lparr>listening := listening s - {i}\<rparr> in
        if in_queue s1 i then
          settle_promise i (Rejected (Internal ''CANCELLED'' ''dispatch aborted.''))
            (releasePermit opts i (releaseBudget opts (job_at s1 i) (dequeue i s1)))
        else s1)"

definition cancel_one :: "sched_opts \<Rightarrow> string \<Rightarrow> nat \<Rightarrow> sched \<Rightarrow> sched" where
  "cancel_one opts msg i s =
     settle_promise i (Rejected (Internal ''CANCELLED'' msg))
       (releasePermit opts i (releaseBudget opts (job_at s i) (dequeue i s)))"

definition cancelQueued :: "sched_opts \<Rightarrow> (job \<Rightarrow> bool) \<Rightarrow> sched \<Rightarrow> nat \<times> sched" where
  "cancelQueued opts pred s =
     (let hit = filter (\<lambda>i. pred (job_at s i)) (fq_ordered (queue s))
      in (length hit, fold (cancel_one opts ''cancelled while queued.'') hit s))"

definition cancelEntry :: "sched_opts \<Rightarrow> nat \<Rightarrow> sched \<Rightarrow> bool \<times> sched" where
  "cancelEntry opts i s =
     (if i \<notin> set (fq_ordered (queue s)) then (False, s)
      else (True, cancel_one opts ''cancelled from the queue.'' i
                    (s\<lparr>listening := listening s - {i}\<rparr>)))"

definition promoteEntry :: "nat \<Rightarrow> sched \<Rightarrow> bool \<times> sched" where
  "promoteEntry i s =
     (if i \<notin> set (fq_ordered (queue s)) then (False, s)
      else let s1 = s\<lparr>entries := (entries s)(i := map_option (\<lambda>e. e\<lparr>promoted := True\<rparr>) (entries s i))\<rparr>;
               s2 = s1\<lparr>queue := snd (fq_promote i (queue s1))\<rparr>
           in (True, pump_start s2))"

subsection \<open>What the pump reads\<close>

definition eligibleNames :: "sched_opts \<Rightarrow> job \<Rightarrow> string list res" where
  "eligibleNames opts j =
     (case placement_target j of
        Some target \<Rightarrow>
          if target = [] then Inr (case eligible opts of None \<Rightarrow> registry_names opts
                                   | Some f \<Rightarrow> f j (registry_names opts))
          else if target \<notin> set (registry_names opts)
          then Inl (NotFound ''NOT_FOUND'' (''backend '' @ target @ '' is not registered.''))
          else Inr [target]
      | None \<Rightarrow> Inr (case eligible opts of None \<Rightarrow> registry_names opts
                      | Some f \<Rightarrow> f j (registry_names opts)))"

definition freeSlotsFrom :: "(string \<rightharpoonup> capacity) \<Rightarrow> admission \<Rightarrow> (string \<rightharpoonup> slot)" where
  "freeSlotsFrom caps a name =
     map_option (\<lambda>cap. backendSlotOf name cap
       \<lparr>use_slots = effectiveUsed cap (countFor a name) Max,
        use_memoryMb = memMbFor a name, use_cpu = cpuFor a name\<rparr>) (caps name)"

definition is_urgent :: "sched_opts \<Rightarrow> int \<Rightarrow> entry \<Rightarrow> bool" where
  "is_urgent opts now e \<longleftrightarrow>
     job_priority (job e) = Some ''interactive'' \<or> promoted e
     \<or> (case agingMs opts of None \<Rightarrow> 60000 | Some n \<Rightarrow> n) \<le> now - enqueuedAt e"

definition scanOrder :: "sched_opts \<Rightarrow> int \<Rightarrow> sched \<Rightarrow> (nat \<times> bool) list" where
  "scanOrder opts now s =
     (let urgent = (\<lambda>i. is_urgent opts now (the (entries s i))); ordered = fq_ordered (queue s)
      in map (\<lambda>i. (i, True)) (filter urgent ordered)
         @ map (\<lambda>i. (i, False)) (filter (\<lambda>i. \<not> urgent i) ordered))"

definition harnessRoom ::
  "sched_opts \<Rightarrow> string \<Rightarrow> job \<Rightarrow> admission \<Rightarrow> capacity option \<Rightarrow> (string \<rightharpoonup> capacity option)
     \<Rightarrow> bool \<times> (string \<rightharpoonup> capacity option)" where
  "harnessRoom opts name j a answer memo =
     (if \<not> caseCapacityAware opts name then (True, memo)
      else
        let harness = harnessKeyOf j;
            key = harness_slot name harness;
            memo1 = (case memo key of None \<Rightarrow> memo(key \<mapsto> answer) | Some _ \<Rightarrow> memo)
        in case the (memo1 key) of
             None \<Rightarrow> (True, memo1)
           | Some cap \<Rightarrow>
               (0 < cap_total cap - effectiveUsed cap (harnessCountFor a name harness) Max, memo1))"

text \<open>\<open>queueEntries\<close>: the queue page's rows, in the order the pump scans.\<close>

record queue_row =
  row_id :: nat
  row_tenant :: string
  row_caseId :: string
  row_runId :: "string option"
  row_batchId :: "string option"
  row_harness :: "string \<times> string"
  row_target :: "string option"
  row_priority :: "string option"
  row_tags :: "string list option"
  row_enqueuedAt :: int
  row_urgent :: bool
  row_promoted :: bool

definition queueEntries :: "sched_opts \<Rightarrow> int \<Rightarrow> sched \<Rightarrow> queue_row list" where
  "queueEntries opts now s =
     map (\<lambda>(i, urgent).
       let e = the (entries s i)
       in \<lparr>row_id = i, row_tenant = tenant_of_job (job e), row_caseId = case_id (job e),
           row_runId = job_runId (job e), row_batchId = job_batchId (job e),
           row_harness = (harness_id (job e), harness_version (job e)),
           row_target = placement_target (job e), row_priority = job_priority (job e),
           row_tags = (case job_tags (job e) of Some (t # ts) \<Rightarrow> Some (t # ts) | _ \<Rightarrow> None),
           row_enqueuedAt = enqueuedAt e, row_urgent = urgent, row_promoted = promoted e\<rparr>)
       (scanOrder opts now s)"

subsection \<open>The pump\<close>

text \<open>The options \<open>runOne\<close> hands the backend: nothing when the caller gave none, else each one given.\<close>

definition dispatch_opts :: "hooks \<Rightarrow> hooks option" where
  "dispatch_opts hs =
     (if h_signal hs \<noteq> None \<or> h_onStarted hs \<noteq> None \<or> h_onWaiting hs \<noteq> None \<or> h_onAttempt hs \<noteq> None
         \<or> h_authority hs \<noteq> None \<or> h_acknowledgeResult hs \<noteq> None
      then Some \<lparr>h_signal = (case h_signal hs of None \<Rightarrow> None | Some x \<Rightarrow> Some x),
                 h_onStarted = (case h_onStarted hs of None \<Rightarrow> None | Some x \<Rightarrow> Some x),
                 h_onWaiting = (case h_onWaiting hs of None \<Rightarrow> None | Some x \<Rightarrow> Some x),
                 h_onAttempt = (case h_onAttempt hs of None \<Rightarrow> None | Some x \<Rightarrow> Some x),
                 h_authority = (case h_authority hs of None \<Rightarrow> None | Some x \<Rightarrow> Some x),
                 h_acknowledgeResult = (case h_acknowledgeResult hs of None \<Rightarrow> None | Some x \<Rightarrow> Some x)\<rparr>
      else None)"

definition run_one :: "nat \<Rightarrow> string \<Rightarrow> sched \<Rightarrow> sched" where
  "run_one i backend s =
     s\<lparr>placed := (placed s)(i \<mapsto>
         \<lparr>p_res = reservation_for backend (job_at s i),
          p_opts = dispatch_opts (entry_hooks (the (entries s i))), p_phase = Running\<rparr>)\<rparr>"

definition take_from_slot :: "string \<Rightarrow> int \<Rightarrow> int \<Rightarrow> (string \<rightharpoonup> slot) \<Rightarrow> (string \<rightharpoonup> slot)" where
  "take_from_slot b memNeed cpuNeed slots =
     (case slots b of
        None \<Rightarrow> slots
      | Some sl \<Rightarrow> slots(b \<mapsto> sl\<lparr>free := free sl - 1, memFreeMb := bound_minus (memFreeMb sl) memNeed,
                                 cpuFree := bound_minus (cpuFree sl) cpuNeed\<rparr>))"

text \<open>The commit point: everything after the last await of one placement.\<close>

definition commit :: "sched_opts \<Rightarrow> drain \<Rightarrow> nat \<Rightarrow> string \<Rightarrow> sched \<Rightarrow> sched" where
  "commit opts d i chosen s =
     (if \<not> in_queue s i then (releasePermit opts i s)\<lparr>pc := Scanning d\<rparr>
      else
        let j = job_at s i;
            s1 = dequeue i s;
            s2 = s1\<lparr>listening := listening s1 - {i},
                    adm := adm_reserve (reservation_for chosen j) (adm s1)\<rparr>;
            d1 = d\<lparr>d_slots := take_from_slot chosen (jobMemoryMb j) (jobCpu j) (d_slots d),
                   d_placedAny := True\<rparr>
        in (run_one i chosen s2)\<lparr>pc := Scanning d1\<rparr>)"

definition probed_capacities :: "sched_opts \<Rightarrow> (string \<rightharpoonup> capacity) \<Rightarrow> sched \<Rightarrow> sched" where
  "probed_capacities opts caps s =
     (case pc s of
        Probing \<Rightarrow> s\<lparr>pc := ProbingFleet (caps |` set (registry_names opts))\<rparr>
      | _ \<Rightarrow> s)"

definition probed_fleet :: "sched_opts \<Rightarrow> (string \<rightharpoonup> int) \<Rightarrow> sched \<Rightarrow> sched" where
  "probed_fleet opts reading s =
     (case pc s of
        ProbingFleet caps \<Rightarrow>
          s\<lparr>pc := Round \<lparr>d_caps = caps,
                         d_fleet = \<lparr>atProbe = (if has_ledger opts then reading else Map.empty),
                                    localAtProbe = tenantCounts (adm s)\<rparr>,
                         d_memo = Map.empty, d_slots = Map.empty, d_todo = [],
                         d_placedAny = True\<rparr>\<rparr>
      | _ \<Rightarrow> s)"

definition next_round :: "sched_opts \<Rightarrow> int \<Rightarrow> sched \<Rightarrow> sched" where
  "next_round opts now s =
     (case pc s of
        Round d \<Rightarrow>
          if d_placedAny d \<and> 0 < fq_size (queue s)
          then s\<lparr>pc := Scanning (d\<lparr>d_placedAny := False, d_slots := freeSlotsFrom (d_caps d) (adm s),
                                    d_todo := map fst (scanOrder opts now s)\<rparr>)\<rparr>
          else s\<lparr>pc := Idle\<rparr>
      | _ \<Rightarrow> s)"

definition candidates_for :: "drain \<Rightarrow> job \<Rightarrow> string list \<Rightarrow> slot list" where
  "candidates_for d j names =
     filter (\<lambda>sl. slotAdmits sl (jobMemoryMb j) (jobCpu j)) (List.map_filter (d_slots d) names)"

definition next_entry :: "sched_opts \<Rightarrow> sched \<Rightarrow> sched" where
  "next_entry opts s =
     (case pc s of
        Scanning d \<Rightarrow>
          (case d_todo d of
             [] \<Rightarrow> s\<lparr>pc := Round d\<rparr>
           | i # rest \<Rightarrow>
               let d1 = d\<lparr>d_todo := rest\<rparr>; j = job_at s i; t = tenant_of_job j in
               if ge_bound (fleet_countFor (d_fleet d) t (tenantCountFor (adm s) t)) (quota_of opts t)
               then s\<lparr>pc := Scanning d1\<rparr>
               else
                 (case eligibleNames opts j of
                    Inl err \<Rightarrow>
                      (settle_promise i (Rejected err) (releaseBudget opts j (dequeue i s)))
                        \<lparr>pc := Scanning (d1\<lparr>d_placedAny := True\<rparr>)\<rparr>
                  | Inr names \<Rightarrow>
                      (case candidates_for d1 j names of
                         [] \<Rightarrow> s\<lparr>pc := Scanning d1\<rparr>
                       | c # cs \<Rightarrow> s\<lparr>pc := Asking d1 i (c # cs) []\<rparr>)))
      | _ \<Rightarrow> s)"

definition harness_answer :: "sched_opts \<Rightarrow> capacity option \<Rightarrow> sched \<Rightarrow> sched" where
  "harness_answer opts answer s =
     (case pc s of
        Asking d i (sl # sls) acc \<Rightarrow>
          let (room, memo) = harnessRoom opts (slot_name sl) (job_at s i) (adm s) answer (d_memo d)
          in s\<lparr>pc := Asking (d\<lparr>d_memo := memo\<rparr>) i sls (if room then acc @ [sl] else acc)\<rparr>
      | _ \<Rightarrow> s)"

definition choose_backend :: "sched_opts \<Rightarrow> string \<Rightarrow> sched \<Rightarrow> sched" where
  "choose_backend opts uuid s =
     (case pc s of
        Asking d i [] acc \<Rightarrow>
          if acc = [] then s\<lparr>pc := Scanning d\<rparr>
          else
            (case policy opts acc (job_at s i) of
               None \<Rightarrow> s\<lparr>pc := Scanning d\<rparr>
             | Some chosen \<Rightarrow>
                 if is_finite_bound (quota_of opts (tenant_at s i)) \<and> ledger_tryAdmit opts
                 then
                   let e = the (entries s i);
                       e1 = (case permitId e of None \<Rightarrow> e\<lparr>permitId := Some (i, uuid)\<rparr> | Some _ \<Rightarrow> e)
                   in s\<lparr>entries := (entries s)(i \<mapsto> e1), pc := Claiming d i chosen\<rparr>
                 else commit opts d i chosen s)
      | _ \<Rightarrow> s)"

definition permit_answer :: "sched_opts \<Rightarrow> bool \<Rightarrow> sched \<Rightarrow> sched" where
  "permit_answer opts admitted s =
     (case pc s of
        Claiming d i chosen \<Rightarrow>
          if \<not> admitted then s\<lparr>pc := Scanning d\<rparr>
          else commit opts d i chosen (holdPermit (the (permitId (the (entries s i)))) s)
      | _ \<Rightarrow> s)"

text \<open>The settlement of a dispatched job: \<open>then\<close>, and the \<open>finally\<close> that follows it.\<close>

definition complete_job :: "sched_opts \<Rightarrow> nat \<Rightarrow> (rat \<times> int) res \<Rightarrow> sched \<Rightarrow> sched" where
  "complete_job opts i result s =
     (case placed s i of
        Some p \<Rightarrow>
          if p_phase p \<noteq> Running then s
          else
            let s1 = s\<lparr>placed := (placed s)(i \<mapsto> p\<lparr>p_phase := Completed\<rparr>)\<rparr>
            in (case result of
                  Inr (cost_usd, cost_tokens) \<Rightarrow>
                    settle_promise i (Resolved cost_usd cost_tokens)
                      (case limitFor opts of
                         None \<Rightarrow> s1
                       | Some _ \<Rightarrow> s1\<lparr>budget :=
                           budget_settle (r_tenant (p_res p)) cost_usd cost_tokens (budget s1)\<rparr>)
                | Inl e \<Rightarrow> settle_promise i (Rejected e) s1)
      | None \<Rightarrow> s)"

definition finalize_job :: "sched_opts \<Rightarrow> nat \<Rightarrow> sched \<Rightarrow> sched" where
  "finalize_job opts i s =
     (case placed s i of
        Some p \<Rightarrow>
          if p_phase p \<noteq> Completed then s
          else
            let s1 = s\<lparr>placed := (placed s)(i \<mapsto> p\<lparr>p_phase := Finalized\<rparr>),
                       adm := adm_release (p_res p) (adm s)\<rparr>
            in pump_start (releasePermit opts i s1)
      | None \<Rightarrow> s)"

subsection \<open>Events and runs\<close>

datatype sched_event =
    Dispatch job hooks bool int
  | Abort nat
  | CancelQueued "job \<Rightarrow> bool"
  | CancelEntry nat
  | PromoteEntry nat
  | Poke
  | ProbedCapacities "string \<rightharpoonup> capacity"
  | ProbedFleet "string \<rightharpoonup> int"
  | NextRound int
  | NextEntry
  | HarnessAnswer "capacity option"
  | ChooseBackend string
  | PermitAnswer bool
  | CompleteJob nat "(rat \<times> int) res"
  | FinalizeJob nat

fun sched_step :: "sched_opts \<Rightarrow> sched_event \<Rightarrow> sched \<Rightarrow> sched" where
  "sched_step opts (Dispatch j hs aborted now) s = snd (dispatch_job opts j hs aborted now s)"
| "sched_step opts (Abort i) s = on_abort opts i s"
| "sched_step opts (CancelQueued p) s = snd (cancelQueued opts p s)"
| "sched_step opts (CancelEntry i) s = snd (cancelEntry opts i s)"
| "sched_step opts (PromoteEntry i) s = snd (promoteEntry i s)"
| "sched_step opts Poke s = pump_start s"
| "sched_step opts (ProbedCapacities caps) s = probed_capacities opts caps s"
| "sched_step opts (ProbedFleet f) s = probed_fleet opts f s"
| "sched_step opts (NextRound now) s = next_round opts now s"
| "sched_step opts NextEntry s = next_entry opts s"
| "sched_step opts (HarnessAnswer c) s = harness_answer opts c s"
| "sched_step opts (ChooseBackend uuid) s = choose_backend opts uuid s"
| "sched_step opts (PermitAnswer b) s = permit_answer opts b s"
| "sched_step opts (CompleteJob i r) s = complete_job opts i r s"
| "sched_step opts (FinalizeJob i) s = finalize_job opts i s"

definition sched_run :: "sched_opts \<Rightarrow> sched_event list \<Rightarrow> sched \<Rightarrow> sched" where
  "sched_run opts evs s = fold (sched_step opts) evs s"

end
