(* ===== verification/SchedulerInv.thy ===== *)
theory SchedulerInv
  imports Scheduler
begin

text \<open>
  The invariant of the scheduler: the life of every dispatched job, the exactness of the in-flight
  counters and of the held permits, and what the pump knows at each of its stopping points. Every
  event keeps it, so it holds after any interleaving.
\<close>

abbreviation waiting :: "sched \<Rightarrow> nat list" where
  "waiting s \<equiv> fq_ordered (queue s)"

subsection \<open>What the small steps change\<close>

lemma settle_promise_frame [simp]:
  "queue (settle_promise i r s) = queue s" "entries (settle_promise i r s) = entries s"
  "entrySeq (settle_promise i r s) = entrySeq s" "adm (settle_promise i r s) = adm s"
  "budget (settle_promise i r s) = budget s" "livePermits (settle_promise i r s) = livePermits s"
  "listening (settle_promise i r s) = listening s" "placed (settle_promise i r s) = placed s"
  "pc (settle_promise i r s) = pc s" "ledger_releases (settle_promise i r s) = ledger_releases s"
  by (simp_all add: settle_promise_def split: option.split)

lemma promises_settle [simp]:
  "promises (settle_promise i r s) = (if promises s i = None then (promises s)(i \<mapsto> r) else promises s)"
  by (simp add: settle_promise_def split: option.split)

lemma dequeue_frame [simp]:
  "queue (dequeue i s) = snd (fq_remove i (queue s))" "entries (dequeue i s) = entries s"
  "entrySeq (dequeue i s) = entrySeq s" "adm (dequeue i s) = adm s" "budget (dequeue i s) = budget s"
  "livePermits (dequeue i s) = livePermits s" "listening (dequeue i s) = listening s"
  "placed (dequeue i s) = placed s" "pc (dequeue i s) = pc s" "promises (dequeue i s) = promises s"
  "ledger_releases (dequeue i s) = ledger_releases s"
  by (simp_all add: dequeue_def)

lemma releaseBudget_frame [simp]:
  "queue (releaseBudget opts j s) = queue s" "entries (releaseBudget opts j s) = entries s"
  "entrySeq (releaseBudget opts j s) = entrySeq s" "adm (releaseBudget opts j s) = adm s"
  "livePermits (releaseBudget opts j s) = livePermits s" "listening (releaseBudget opts j s) = listening s"
  "placed (releaseBudget opts j s) = placed s" "pc (releaseBudget opts j s) = pc s"
  "promises (releaseBudget opts j s) = promises s"
  "ledger_releases (releaseBudget opts j s) = ledger_releases s"
  by (simp_all add: releaseBudget_def split: option.split)

lemma releasePermit_frame [simp]:
  "queue (releasePermit opts i s) = queue s" "entries (releasePermit opts i s) = entries s"
  "entrySeq (releasePermit opts i s) = entrySeq s" "adm (releasePermit opts i s) = adm s"
  "budget (releasePermit opts i s) = budget s" "listening (releasePermit opts i s) = listening s"
  "placed (releasePermit opts i s) = placed s" "pc (releasePermit opts i s) = pc s"
  "promises (releasePermit opts i s) = promises s"
  by (simp_all add: releasePermit_def drop_permit_def Let_def split: option.split)

lemma livePermits_release [simp]:
  "livePermits (releasePermit opts i s) = livePermits s - set_option (permitId (the (entries s i)))"
  by (auto simp: releasePermit_def drop_permit_def Let_def split: option.split)

lemma holdPermit_frame [simp]:
  "queue (holdPermit p s) = queue s" "entries (holdPermit p s) = entries s"
  "entrySeq (holdPermit p s) = entrySeq s" "adm (holdPermit p s) = adm s"
  "budget (holdPermit p s) = budget s" "listening (holdPermit p s) = listening s"
  "placed (holdPermit p s) = placed s" "pc (holdPermit p s) = pc s"
  "promises (holdPermit p s) = promises s" "livePermits (holdPermit p s) = insert p (livePermits s)"
  by (simp_all add: holdPermit_def)

lemma pump_start_frame [simp]:
  "queue (pump_start s) = queue s" "entries (pump_start s) = entries s"
  "entrySeq (pump_start s) = entrySeq s" "adm (pump_start s) = adm s"
  "budget (pump_start s) = budget s" "listening (pump_start s) = listening s"
  "placed (pump_start s) = placed s" "promises (pump_start s) = promises s"
  "livePermits (pump_start s) = livePermits s" "ledger_releases (pump_start s) = ledger_releases s"
  by (simp_all add: pump_start_def)

lemma run_one_frame [simp]:
  "queue (run_one i b s) = queue s" "entries (run_one i b s) = entries s"
  "entrySeq (run_one i b s) = entrySeq s" "adm (run_one i b s) = adm s"
  "budget (run_one i b s) = budget s" "listening (run_one i b s) = listening s"
  "promises (run_one i b s) = promises s" "livePermits (run_one i b s) = livePermits s"
  "pc (run_one i b s) = pc s"
  "placed (run_one i b s) = (placed s)(i \<mapsto> \<lparr>p_res = reservation_for b (job_at s i),
      p_opts = dispatch_opts (entry_hooks (the (entries s i))), p_phase = Running\<rparr>)"
  by (simp_all add: run_one_def)

lemma in_queue_iff [simp]: "in_queue s i \<longleftrightarrow> i \<in> set (waiting s)"
  by (simp add: in_queue_def fq_remove_result)

lemma job_at_cong: "entries s i = entries t i \<Longrightarrow> job_at s i = job_at t i"
  by (simp add: job_at_def)

lemma tenant_at_cong: "entries s i = entries t i \<Longrightarrow> tenant_at s i = tenant_at t i"
  by (simp add: tenant_at_def job_at_def)

lemma queue_opts_eq: "entries t = entries s \<Longrightarrow> queue_opts opts t = queue_opts opts s"
  by (simp add: queue_opts_def tenant_at_def job_at_def fun_eq_iff)

lemma fq_inv_cong:
  "(\<And>i. i \<in> set (fq_ordered q) \<Longrightarrow> tenantOf o1 i = tenantOf o2 i) \<Longrightarrow> fq_inv o1 q \<longleftrightarrow> fq_inv o2 q"
  by (auto simp: fq_inv_def fq_ordered_def)

subsection \<open>The life of a job\<close>

definition known :: "sched \<Rightarrow> nat set" where
  "known s = dom (entries s)"

definition inv_life :: "sched_opts \<Rightarrow> sched \<Rightarrow> bool" where
  "inv_life opts s \<longleftrightarrow>
     distinct (waiting s)
     \<and> fq_inv (queue_opts opts s) (queue s)
     \<and> known s = {1..entrySeq s}
     \<and> (\<forall>i \<in> set (waiting s). i \<in> known s \<and> promises s i = None \<and> placed s i = None)
     \<and> (\<forall>i p. placed s i = Some p \<longrightarrow> i \<in> known s \<and> (p_phase p = Running \<longleftrightarrow> promises s i = None)
           \<and> p_res p = reservation_for (r_backend (p_res p)) (job_at s i))
     \<and> (\<forall>i. promises s i \<noteq> None \<longrightarrow> i \<in> known s)
     \<and> (\<forall>i \<in> known s. i \<in> set (waiting s) \<or> placed s i \<noteq> None \<or> promises s i \<noteq> None)"

lemma inv_life_placedD: "inv_life opts s \<Longrightarrow> placed s i = Some p \<Longrightarrow> i \<in> known s"
  unfolding inv_life_def by blast

lemma inv_life_unknown:
  assumes "inv_life opts s" "i \<notin> known s"
  shows "promises s i = None" "placed s i = None" "i \<notin> set (waiting s)"
  using assms unfolding inv_life_def by (blast, metis not_None_eq, blast)

text \<open>A job that leaves the queue with a rejection, or is rejected again after it left.\<close>

lemma inv_life_reject:
  assumes inv: "inv_life opts s" and i: "i \<in> known s" "placed s i = None"
    and t: "queue t = snd (fq_remove i (queue s))" "entries t = entries s" "entrySeq t = entrySeq s"
      "placed t = placed s"
      "promises t = (if promises s i = None then (promises s)(i \<mapsto> r) else promises s)"
  shows "inv_life opts t"
proof -
  have same: "queue_opts opts t = queue_opts opts s" "known t = known s" "\<And>k. job_at t k = job_at s k"
    using t(2) by (auto simp: queue_opts_def known_def tenant_at_def job_at_def)
  have w: "waiting t = remove1 i (waiting s)" by (simp add: t(1) ordered_remove)
  have "fq_inv (queue_opts opts t) (queue t)"
    using inv by (auto simp: inv_life_def same t(1) intro: invariants)
  then show ?thesis
    using inv i unfolding inv_life_def same t(3,4,5) w by (auto simp: set_remove1_eq)
qed

lemma inv_life_same:
  assumes "inv_life opts s" "queue t = queue s" "entrySeq t = entrySeq s" "placed t = placed s"
    "promises t = promises s" "dom (entries t) = dom (entries s)"
    "\<And>k. k \<in> known s \<Longrightarrow> job_at t k = job_at s k"
  shows "inv_life opts t"
proof -
  have "fq_inv (queue_opts opts t) (queue t) \<longleftrightarrow> fq_inv (queue_opts opts s) (queue s)"
    unfolding assms(2)
    by (rule fq_inv_cong) (use assms in \<open>auto simp: queue_opts_def tenant_at_def inv_life_def\<close>)
  then show ?thesis
    using assms unfolding inv_life_def known_def by auto
qed

lemma inv_life_new: "inv_life opts new_sched"
  by (simp add: inv_life_def new_sched_def known_def fq_inv_new)

lemma inv_life_commit:
  assumes inv: "inv_life opts s" and i: "i \<in> set (waiting s)"
    and t: "queue t = snd (fq_remove i (queue s))" "entries t = entries s" "entrySeq t = entrySeq s"
      "promises t = promises s"
      "placed t = (placed s)(i \<mapsto> \<lparr>p_res = reservation_for b (job_at s i), p_opts = x, p_phase = Running\<rparr>)"
  shows "inv_life opts t"
proof -
  have same: "queue_opts opts t = queue_opts opts s" "known t = known s" "\<And>k. job_at t k = job_at s k"
    using t(2) by (auto simp: queue_opts_def known_def tenant_at_def job_at_def)
  have w: "waiting t = remove1 i (waiting s)" by (simp add: t(1) ordered_remove)
  have "fq_inv (queue_opts opts t) (queue t)"
    using inv by (auto simp: inv_life_def same t(1) intro: invariants)
  then show ?thesis
    using inv i unfolding inv_life_def same t(3,4,5) w
    by (auto simp: set_remove1_eq reservation_for_def)
qed

lemma waiting_promote: "waiting (s\<lparr>queue := snd (fq_promote i q)\<rparr>) =
    (if i \<in> set (fq_ordered q) then i # remove1 i (fq_ordered q) else fq_ordered q)"
  by (simp add: ordered_promote)

lemma inv_life_promote:
  assumes inv: "inv_life opts s"
  shows "inv_life opts (s\<lparr>queue := snd (fq_promote i (queue s))\<rparr>)"
proof -
  let ?t = "s\<lparr>queue := snd (fq_promote i (queue s))\<rparr>"
  have same: "queue_opts opts ?t = queue_opts opts s" "known ?t = known s" "\<And>k. job_at ?t k = job_at s k"
    by (auto simp: queue_opts_def known_def tenant_at_def job_at_def fun_eq_iff)
  have "fq_inv (queue_opts opts ?t) (queue ?t)"
    using inv by (auto simp: inv_life_def same intro: invariants)
  moreover have "distinct (waiting ?t) = distinct (waiting s)" "set (waiting ?t) = set (waiting s)"
    using fq.distinct_prom [of i "queue s"] fq.set_prom [of i "queue s"] by auto
  ultimately show ?thesis using inv unfolding inv_life_def same by auto
qed

lemma inv_life_enqueue:
  assumes inv: "inv_life opts s" and i: "i = Suc (entrySeq s)"
    and t: "entries t = (entries s)(i \<mapsto> e)" "entrySeq t = i" "placed t = placed s"
      "promises t = promises s" "queue t = fq_enqueue (queue_opts opts t) i (queue s)"
  shows "inv_life opts t"
proof -
  have fresh: "i \<notin> known s" using inv i by (auto simp: inv_life_def)
  have known: "known t = insert i (known s)" using t(1) by (auto simp: known_def)
  have jobs: "job_at t k = job_at s k" if "k \<in> known s" for k
    using that fresh t(1) by (auto simp: job_at_def)
  have "fq_inv (queue_opts opts t) (queue s) \<longleftrightarrow> fq_inv (queue_opts opts s) (queue s)"
    by (rule fq_inv_cong) (use inv jobs in \<open>auto simp: queue_opts_def tenant_at_def inv_life_def\<close>)
  then have "fq_inv (queue_opts opts t) (queue t)"
    using inv by (auto simp: inv_life_def t(5) intro: invariants)
  moreover have w: "i \<notin> set (waiting s)" by (rule inv_life_unknown [OF inv fresh])
  have "distinct (waiting t)"
    using fq.distinct_enq [OF w, of "queue_opts opts t"] inv by (simp add: t(5) inv_life_def)
  moreover have "set (waiting t) = insert i (set (waiting s))" by (simp add: t(5) fq.set_enq)
  moreover note inv_life_unknown [OF inv fresh]
  moreover have "insert i {1..entrySeq s} = {1..i}" using i by auto
  ultimately show ?thesis
    using inv jobs unfolding inv_life_def t(2,3,4) known by auto
qed

lemma inv_life_phase:
  assumes inv: "inv_life opts s" and p: "placed s i = Some p"
    and t: "queue t = queue s" "entries t = entries s" "entrySeq t = entrySeq s"
      "placed t = (placed s)(i \<mapsto> p\<lparr>p_phase := ph\<rparr>)"
      "promises t = (if promises s i = None then (promises s)(i \<mapsto> r) else promises s)"
    and ph: "ph \<noteq> Running"
  shows "inv_life opts t"
proof -
  have same: "queue_opts opts t = queue_opts opts s" "known t = known s" "\<And>k. job_at t k = job_at s k"
    using t(2) by (auto simp: queue_opts_def known_def tenant_at_def job_at_def)
  then show ?thesis
    using inv p ph unfolding inv_life_def same t(1,3,4,5) by (auto split: if_splits)
qed


lemma job_at_update [simp]:
  "job_at (s\<lparr>pc := x\<rparr>) i = job_at s i" "tenant_at (s\<lparr>pc := x\<rparr>) i = tenant_at s i"
  by (simp_all add: job_at_def tenant_at_def)

lemma reject_chain_frame:
  fixes s opts i r j
  defines "t \<equiv> settle_promise i r (releasePermit opts i (releaseBudget opts j (dequeue i s)))"
  shows "queue t = snd (fq_remove i (queue s))" "entries t = entries s" "entrySeq t = entrySeq s"
    "placed t = placed s"
    "promises t = (if promises s i = None then (promises s)(i \<mapsto> r) else promises s)"
    "adm t = adm s" "pc t = pc s" "listening t = listening s"
    "livePermits t = livePermits s - set_option (permitId (the (entries s i)))"
  by (simp_all add: t_def)

lemma cancel_one_frame [simp]:
  "queue (cancel_one opts m i s) = snd (fq_remove i (queue s))"
  "entries (cancel_one opts m i s) = entries s"
  "entrySeq (cancel_one opts m i s) = entrySeq s" "placed (cancel_one opts m i s) = placed s"
  "promises (cancel_one opts m i s) =
     (if promises s i = None then (promises s)(i \<mapsto> Rejected (Internal ''CANCELLED'' m)) else promises s)"
  "adm (cancel_one opts m i s) = adm s" "pc (cancel_one opts m i s) = pc s"
  "livePermits (cancel_one opts m i s) = livePermits s - set_option (permitId (the (entries s i)))"
  unfolding cancel_one_def by (simp_all add: reject_chain_frame)

lemma inv_life_cancel_one:
  assumes "inv_life opts s" "i \<in> known s" "placed s i = None"
  shows "inv_life opts (cancel_one opts m i s)"
  by (rule inv_life_reject [OF assms]) simp_all

lemma cancel_fold_frame [simp]:
  "entries (fold (cancel_one opts m) xs s) = entries s"
  "entrySeq (fold (cancel_one opts m) xs s) = entrySeq s"
  "placed (fold (cancel_one opts m) xs s) = placed s"
  "adm (fold (cancel_one opts m) xs s) = adm s"
  "pc (fold (cancel_one opts m) xs s) = pc s"
  by (induction xs arbitrary: s) auto

lemma inv_life_cancel_fold:
  "inv_life opts s \<Longrightarrow> set xs \<subseteq> known s \<Longrightarrow> \<forall>i \<in> set xs. placed s i = None \<Longrightarrow>
     inv_life opts (fold (cancel_one opts m) xs s)"
proof (induction xs arbitrary: s)
  case Nil
  then show ?case by simp
next
  case (Cons x xs)
  then show ?case
    by (simp, intro Cons.IH inv_life_cancel_one) (auto simp: known_def)
qed

text \<open>What the pump knows: the handles it still has to look at are known and not placed.\<close>

definition scan_ok :: "sched \<Rightarrow> drain \<Rightarrow> bool" where
  "scan_ok s d \<longleftrightarrow> distinct (d_todo d) \<and> (\<forall>i \<in> set (d_todo d). i \<in> known s \<and> placed s i = None)"

definition current_ok :: "sched \<Rightarrow> drain \<Rightarrow> nat \<Rightarrow> bool" where
  "current_ok s d i \<longleftrightarrow> i \<in> known s \<and> placed s i = None \<and> i \<notin> set (d_todo d)"

definition inv_pc :: "sched \<Rightarrow> bool" where
  "inv_pc s = (case pc s of
       Scanning d \<Rightarrow> scan_ok s d
     | Asking d i sls acc \<Rightarrow> scan_ok s d \<and> current_ok s d i
     | Claiming d i chosen \<Rightarrow> scan_ok s d \<and> current_ok s d i
     | _ \<Rightarrow> True)"

lemma inv_pc_same:
  "inv_pc s \<Longrightarrow> pc t = pc s \<Longrightarrow> known s \<subseteq> known t \<Longrightarrow> placed t = placed s \<Longrightarrow> inv_pc t"
  by (auto simp: inv_pc_def scan_ok_def current_ok_def split: pump_pc.splits)

lemma inv_pc_placed_other:
  "inv_pc s \<Longrightarrow> pc t = pc s \<Longrightarrow> known t = known s \<Longrightarrow>
     (\<And>i. placed s i = None \<Longrightarrow> placed t i = None) \<Longrightarrow> inv_pc t"
  by (auto simp: inv_pc_def scan_ok_def current_ok_def split: pump_pc.splits)

lemma inv_pc_pump_start [simp]: "inv_pc (pump_start s) \<longleftrightarrow> inv_pc s"
  by (auto simp: pump_start_def inv_pc_def scan_ok_def current_ok_def split: pump_pc.splits)

lemma known_pump_start [simp]: "known (pump_start s) = known s"
  by (simp add: known_def)

lemma inv_life_pump_start [simp]: "inv_life opts (pump_start s) \<longleftrightarrow> inv_life opts s"
  using inv_life_same [of opts s "pump_start s"] inv_life_same [of opts "pump_start s" s]
  by (auto simp: job_at_def)

lemma known_simps [simp]:
  "known (s\<lparr>pc := x\<rparr>) = known s" "known (s\<lparr>listening := l\<rparr>) = known s"
  "known (s\<lparr>budget := b\<rparr>) = known s" "known (s\<lparr>queue := q\<rparr>) = known s"
  "known (s\<lparr>adm := a\<rparr>) = known s" "known (s\<lparr>placed := pl\<rparr>) = known s"
  by (simp_all add: known_def)

lemma inv_life_simps [simp]:
  "inv_life opts (s\<lparr>pc := x\<rparr>) \<longleftrightarrow> inv_life opts s"
  "inv_life opts (s\<lparr>listening := l\<rparr>) \<longleftrightarrow> inv_life opts s"
  "inv_life opts (s\<lparr>budget := b\<rparr>) \<longleftrightarrow> inv_life opts s"
  by (rule iffI; erule inv_life_same; simp add: job_at_def)+

lemma waiting_known: "inv_life opts s \<Longrightarrow> i \<in> set (waiting s) \<Longrightarrow> i \<in> known s \<and> placed s i = None"
  by (auto simp: inv_life_def)

lemma scanOrder_handles:
  "mset (map fst (scanOrder opts now s)) = mset (waiting s)"
  by (simp add: scanOrder_def Let_def comp_def)

lemma set_scanOrder: "set (map fst (scanOrder opts now s)) = set (waiting s)"
  by (metis scanOrder_handles set_mset_mset)

lemma distinct_scanOrder: "distinct (map fst (scanOrder opts now s)) = distinct (waiting s)"
  by (rule mset_eq_imp_distinct_iff) (rule scanOrder_handles)

subsection \<open>Every event keeps the life invariant\<close>

definition inv_base :: "sched_opts \<Rightarrow> sched \<Rightarrow> bool" where
  "inv_base opts s \<longleftrightarrow> inv_life opts s \<and> inv_pc s"

lemma base_enqueue:
  assumes inv: "inv_base opts s" and i: "i = Suc (entrySeq s)"
    and t: "entries t = (entries s)(i \<mapsto> e)" "entrySeq t = i" "placed t = placed s"
      "promises t = promises s" "queue t = fq_enqueue (queue_opts opts t) i (queue s)" "pc t = pc s"
  shows "inv_base opts (pump_start t)"
proof -
  have "inv_life opts t"
    by (rule inv_life_enqueue [OF _ i t(1-5)]) (use inv in \<open>simp add: inv_base_def\<close>)
  moreover have "inv_pc t"
    by (rule inv_pc_same [of s t]) (use inv t in \<open>auto simp: inv_base_def known_def\<close>)
  ultimately show ?thesis by (simp add: inv_base_def)
qed

lemma base_budget: "inv_base opts s \<Longrightarrow> inv_base opts (s\<lparr>budget := b\<rparr>)"
  using inv_pc_same [of s "s\<lparr>budget := b\<rparr>"] by (simp add: inv_base_def)

text \<open>The two shapes of a dispatch: refused (only the budget may have been read) or enqueued.\<close>

lemma dispatch_cases:
  obtains (refused) e b where "dispatch_job opts j hs ab now s = (Inl e, s\<lparr>budget := b\<rparr>)"
      "\<And>t. budget_usage_of t b = budget_usage_of t (budget s)"
  | (queued) i b e t where "dispatch_job opts j hs ab now s = (Inr i, pump_start t)"
      "i = Suc (entrySeq s)" "e = \<lparr>permitId = None, job = j, enqueuedAt = now, promoted = False,
                                   entry_hooks = hs\<rparr>"
      "entries t = (entries s)(i \<mapsto> e)" "entrySeq t = i" "placed t = placed s"
      "promises t = promises s" "queue t = fq_enqueue (queue_opts opts t) i (queue s)" "pc t = pc s"
      "adm t = adm s" "livePermits t = livePermits s" "budget t = b"
      "listening t = (if h_signal hs \<noteq> None then insert i (listening s) else listening s)"
      "case limitFor opts of None \<Rightarrow> b = budget s
       | Some lf \<Rightarrow> (Inr (), b) = budget_admit lf (tenant_of_job j) (budget s)"
proof -
  let ?t = "tenant_of_job j"
  define adm_b where "adm_b = (case limitFor opts of None \<Rightarrow> (Inr (), budget s)
                                 | Some lf \<Rightarrow> budget_admit lf ?t (budget s))"
  have "(\<exists>err. dispatch_job opts j hs ab now s = (Inl err, s)) \<or> dispatch_job opts j hs ab now s =
        (case fst adm_b of
           Inl e \<Rightarrow> (Inl e, s\<lparr>budget := snd adm_b\<rparr>)
         | Inr _ \<Rightarrow>
             let i = entrySeq s + 1;
                 e = \<lparr>permitId = None, job = j, enqueuedAt = now, promoted = False, entry_hooks = hs\<rparr>;
                 s1 = s\<lparr>budget := snd adm_b, entrySeq := i, entries := (entries s)(i \<mapsto> e),
                        listening := (if h_signal hs \<noteq> None then insert i (listening s)
                                      else listening s)\<rparr>
             in (Inr i, pump_start (s1\<lparr>queue := fq_enqueue (queue_opts opts s1) i (queue s1)\<rparr>)))"
    (is "(\<exists>err. ?D = (Inl err, s)) \<or> ?D = ?later")
  proof -
    have "?D = (if ab then (Inl (Internal ''CANCELLED'' ''dispatch aborted.''), s)
      else if ge_bound (int (fq_size (queue s))) (bound_of (maxQueueDepth opts))
      then (Inl (RateLimit ''RATE_LIMITED'' ''the scheduler queue is full.''), s)
      else if ge_bound (int (get_or 0 (fq_queuedByTenant (queue s)) ?t))
          (case tenantMaxQueueDepth opts of None \<Rightarrow> Unbounded | Some f \<Rightarrow> f ?t)
      then (Inl (RateLimit ''RATE_LIMITED'' ''this workspace's scheduler queue is full.''), s)
      else ?later)"
      unfolding dispatch_job_def Let_def adm_b_def case_prod_unfold by (rule refl)
    then show ?thesis by metis
  qed
  then consider (early) err where "dispatch_job opts j hs ab now s = (Inl err, s)"
    | (later) "dispatch_job opts j hs ab now s =
        (case fst adm_b of
           Inl e \<Rightarrow> (Inl e, s\<lparr>budget := snd adm_b\<rparr>)
         | Inr _ \<Rightarrow>
             let i = entrySeq s + 1;
                 e = \<lparr>permitId = None, job = j, enqueuedAt = now, promoted = False, entry_hooks = hs\<rparr>;
                 s1 = s\<lparr>budget := snd adm_b, entrySeq := i, entries := (entries s)(i \<mapsto> e),
                        listening := (if h_signal hs \<noteq> None then insert i (listening s)
                                      else listening s)\<rparr>
             in (Inr i, pump_start (s1\<lparr>queue := fq_enqueue (queue_opts opts s1) i (queue s1)\<rparr>)))"
    by blast
  then show ?thesis
  proof cases
    case early
    then show ?thesis by (intro refused [of err "budget s"]) simp_all
  next
    case later
    show ?thesis
    proof (cases "fst adm_b")
      case (Inl e)
      then have "budget_usage_of t (snd adm_b) = budget_usage_of t (budget s)" for t
        by (auto simp: adm_b_def counters split: option.splits)
      with later Inl show ?thesis by (intro refused [of e "snd adm_b"]) simp_all
    next
      case (Inr u)
      let ?e = "\<lparr>permitId = None, job = j, enqueuedAt = now, promoted = False, entry_hooks = hs\<rparr>"
      let ?i = "Suc (entrySeq s)"
      let ?s1 = "s\<lparr>budget := snd adm_b, entrySeq := ?i, entries := (entries s)(?i \<mapsto> ?e),
          listening := (if h_signal hs \<noteq> None then insert ?i (listening s) else listening s)\<rparr>"
      let ?t = "?s1\<lparr>queue := fq_enqueue (queue_opts opts ?s1) ?i (queue s)\<rparr>"
      have "queue_opts opts ?t = queue_opts opts ?s1" by (rule queue_opts_eq) simp
      moreover have "dispatch_job opts j hs ab now s = (Inr ?i, pump_start ?t)"
        using later Inr by (simp add: Let_def)
      moreover have "case limitFor opts of None \<Rightarrow> snd adm_b = budget s
          | Some lf \<Rightarrow> (Inr (), snd adm_b) = budget_admit lf (tenant_of_job j) (budget s)"
        using Inr by (auto simp: adm_b_def prod_eq_iff split: option.splits)
      ultimately show ?thesis by (intro queued [of ?i ?t ?e "snd adm_b"]) simp_all
    qed
  qed
qed

lemma base_dispatch:
  assumes "inv_base opts s"
  shows "inv_base opts (snd (dispatch_job opts j hs ab now s))"
proof (cases rule: dispatch_cases [of opts j hs ab now s])
  case (refused e b)
  then show ?thesis using base_budget [OF assms] by simp
next
  case (queued i b e t)
  have "inv_base opts (pump_start t)"
    by (rule base_enqueue [OF assms queued(2,4-9)])
  with queued(1) show ?thesis by simp
qed

lemma base_reject:
  assumes "inv_base opts s" "i \<in> known s" "placed s i = None" "pc t = pc s"
    and "queue t = snd (fq_remove i (queue s))" "entries t = entries s" "entrySeq t = entrySeq s"
      "placed t = placed s"
      "promises t = (if promises s i = None then (promises s)(i \<mapsto> r) else promises s)"
  shows "inv_base opts t"
  using assms inv_life_reject [of opts s i t r] inv_pc_same [of s t]
  by (simp add: inv_base_def known_def)

lemma base_abort:
  assumes inv: "inv_base opts s"
  shows "inv_base opts (on_abort opts i s)"
proof (cases "i \<in> listening s \<and> i \<in> set (waiting s)")
  case True
  let ?s1 = "s\<lparr>listening := listening s - {i}\<rparr>"
  let ?r = "Rejected (Internal ''CANCELLED'' ''dispatch aborted.'')"
  have "on_abort opts i s = settle_promise i ?r
      (releasePermit opts i (releaseBudget opts (job_at ?s1 i) (dequeue i ?s1)))"
    using True by (simp add: on_abort_def Let_def)
  moreover have "i \<in> known s" "placed s i = None"
    using waiting_known [of opts s i] inv True by (auto simp: inv_base_def)
  ultimately show ?thesis
    using base_reject [OF inv, of i _ ?r] by (simp add: reject_chain_frame)
next
  case False
  then show ?thesis
    using inv inv_pc_same [of s "s\<lparr>listening := listening s - {i}\<rparr>"]
    by (auto simp: on_abort_def Let_def inv_base_def)
qed

lemma base_cancelQueued:
  assumes inv: "inv_base opts s"
  shows "inv_base opts (snd (cancelQueued opts p s))"
proof -
  let ?hit = "filter (\<lambda>i. p (job_at s i)) (waiting s)"
  have "set ?hit \<subseteq> known s" "\<forall>i \<in> set ?hit. placed s i = None"
    using waiting_known [of opts s] inv by (auto simp: inv_base_def)
  then have "inv_life opts (fold (cancel_one opts ''cancelled while queued.'') ?hit s)"
    using inv by (intro inv_life_cancel_fold) (simp_all only: inv_base_def)
  then have "inv_life opts (snd (cancelQueued opts p s))" by (simp add: cancelQueued_def Let_def)
  moreover have "inv_pc (snd (cancelQueued opts p s))"
    by (rule inv_pc_same [of s]) (use inv in \<open>simp_all add: cancelQueued_def Let_def known_def inv_base_def\<close>)
  ultimately show ?thesis by (simp add: inv_base_def)
qed

lemma base_cancelEntry:
  assumes inv: "inv_base opts s"
  shows "inv_base opts (snd (cancelEntry opts i s))"
proof (cases "i \<in> set (waiting s)")
  case True
  have "i \<in> known s" "placed s i = None"
    using waiting_known [of opts s i] inv True by (auto simp: inv_base_def)
  then show ?thesis
    using base_reject [OF inv, of i "cancel_one opts ''cancelled from the queue.'' i
        (s\<lparr>listening := listening s - {i}\<rparr>)"
        "Rejected (Internal ''CANCELLED'' ''cancelled from the queue.'')"] True
    by (simp add: cancelEntry_def)
next
  case False
  with inv show ?thesis by (simp add: cancelEntry_def)
qed

lemma base_promote:
  assumes inv: "inv_base opts s"
  shows "inv_base opts (snd (promoteEntry i s))"
proof (cases "i \<in> set (waiting s)")
  case True
  let ?s1 = "s\<lparr>entries := (entries s)(i := map_option (\<lambda>e. e\<lparr>promoted := True\<rparr>) (entries s i))\<rparr>"
  have known: "known ?s1 = known s" by (auto simp: known_def dom_def)
  have "job_at ?s1 k = job_at s k" if "k \<in> known s" for k
    using that by (auto simp: job_at_def known_def)
  then have "inv_life opts ?s1"
    by (intro inv_life_same [of opts s ?s1]) (use inv known in \<open>simp_all add: inv_base_def known_def\<close>)
  from inv_life_promote [OF this, of i] have "inv_life opts (?s1\<lparr>queue := snd (fq_promote i (queue s))\<rparr>)"
    by simp
  moreover have "inv_pc (?s1\<lparr>queue := snd (fq_promote i (queue s))\<rparr>)"
    by (rule inv_pc_same [of s]) (use inv known in \<open>simp_all add: inv_base_def\<close>)
  ultimately show ?thesis using True by (simp add: promoteEntry_def Let_def inv_base_def)
qed (use inv in \<open>simp add: promoteEntry_def\<close>)


text \<open>The pump's own steps.\<close>

lemma base_pc: "inv_base opts s \<Longrightarrow> inv_pc (s\<lparr>pc := x\<rparr>) \<Longrightarrow> inv_base opts (s\<lparr>pc := x\<rparr>)"
  by (simp add: inv_base_def)

lemma inv_pc_at [simp]:
  "inv_pc (s\<lparr>pc := Idle\<rparr>)" "inv_pc (s\<lparr>pc := Probing\<rparr>)" "inv_pc (s\<lparr>pc := ProbingFleet c\<rparr>)"
  "inv_pc (s\<lparr>pc := Round d\<rparr>)"
  "inv_pc (s\<lparr>pc := Scanning d\<rparr>) \<longleftrightarrow> scan_ok s d"
  "inv_pc (s\<lparr>pc := Asking d i sls acc\<rparr>) \<longleftrightarrow> scan_ok s d \<and> current_ok s d i"
  "inv_pc (s\<lparr>pc := Claiming d i b\<rparr>) \<longleftrightarrow> scan_ok s d \<and> current_ok s d i"
  by (simp_all add: inv_pc_def scan_ok_def current_ok_def)

lemma scan_ok_cong:
  "d_todo d = d_todo d' \<Longrightarrow> known s = known t \<Longrightarrow> placed s = placed t \<Longrightarrow> scan_ok s d = scan_ok t d'"
  by (simp add: scan_ok_def)

lemma scan_ok_simps [simp]:
  "scan_ok s (d\<lparr>d_memo := m\<rparr>) \<longleftrightarrow> scan_ok s d" "scan_ok s (d\<lparr>d_slots := sl\<rparr>) \<longleftrightarrow> scan_ok s d"
  "scan_ok s (d\<lparr>d_placedAny := b\<rparr>) \<longleftrightarrow> scan_ok s d"
  "current_ok s (d\<lparr>d_memo := m\<rparr>) i \<longleftrightarrow> current_ok s d i"
  by (simp_all add: scan_ok_def current_ok_def)

lemma base_commit:
  assumes life: "inv_life opts s" and scan: "scan_ok s d" and cur: "current_ok s d i"
  shows "inv_base opts (commit opts d i chosen s)"
proof (cases "i \<in> set (waiting s)")
  case False
  let ?t = "releasePermit opts i s"
  have "inv_life opts ?t" by (rule inv_life_same [OF life]) (simp_all add: job_at_def)
  moreover have "scan_ok ?t d" using scan by (simp add: scan_ok_def known_def)
  ultimately show ?thesis using False by (simp add: commit_def inv_base_def)
next
  case True
  let ?j = "job_at s i"
  let ?s2 = "(dequeue i s)\<lparr>listening := listening (dequeue i s) - {i},
      adm := adm_reserve (reservation_for chosen ?j) (adm (dequeue i s))\<rparr>"
  let ?t = "run_one i chosen ?s2"
  have "inv_life opts ?t"
    by (rule inv_life_commit [OF life True]) (simp_all add: job_at_def)
  moreover have "scan_ok ?t (d\<lparr>d_slots := x, d_placedAny := True\<rparr>)" for x
    using scan cur by (auto simp: scan_ok_def current_ok_def known_def)
  ultimately show ?thesis using True by (simp add: commit_def inv_base_def Let_def)
qed

lemma base_next_entry:
  assumes inv: "inv_base opts s"
  shows "inv_base opts (next_entry opts s)"
proof (cases "pc s")
  case (Scanning d)
  then have scan: "scan_ok s d" using inv by (simp add: inv_base_def inv_pc_def)
  show ?thesis
  proof (cases "d_todo d")
    case Nil
    with inv Scanning show ?thesis by (simp add: next_entry_def base_pc)
  next
    case (Cons i rest)
    let ?d1 = "d\<lparr>d_todo := rest\<rparr>" and ?j = "job_at s i"
    have scan1: "scan_ok s ?d1" and cur: "current_ok s ?d1 i"
      using scan Cons by (auto simp: scan_ok_def current_ok_def)
    show ?thesis
    proof (cases "ge_bound (fleet_countFor (d_fleet d) (tenant_of_job ?j)
        (tenantCountFor (adm s) (tenant_of_job ?j))) (quota_of opts (tenant_of_job ?j))")
      case True
      with inv Scanning Cons scan1 show ?thesis by (simp add: next_entry_def Let_def base_pc)
    next
      case quota: False
      show ?thesis
      proof (cases "eligibleNames opts ?j")
        case (Inl err)
        let ?t = "settle_promise i (Rejected err) (releaseBudget opts ?j (dequeue i s))"
        have "inv_life opts ?t"
          by (rule inv_life_reject [of opts s i _ "Rejected err"])
            (use inv cur in \<open>simp_all add: inv_base_def current_ok_def\<close>)
        moreover have "scan_ok ?t (?d1\<lparr>d_placedAny := True\<rparr>)"
          using scan1 by (simp add: scan_ok_def known_def)
        ultimately show ?thesis
          using Scanning Cons quota Inl by (simp add: next_entry_def Let_def inv_base_def)
      next
        case (Inr names)
        with inv Scanning Cons quota scan1 cur show ?thesis
          by (simp add: next_entry_def Let_def base_pc split: list.split)
      qed
    qed
  qed
qed (use inv in \<open>simp_all add: next_entry_def\<close>)

lemma base_next_round:
  assumes inv: "inv_base opts s"
  shows "inv_base opts (next_round opts now s)"
proof -
  have "distinct (waiting s)" "\<forall>i \<in> set (waiting s). i \<in> known s \<and> placed s i = None"
    using inv unfolding inv_base_def inv_life_def by blast+
  then have order: "scan_ok s d" if "d_todo d = map fst (scanOrder opts now s)" for d
    unfolding scan_ok_def that distinct_scanOrder set_scanOrder by blast
  have "scan_ok s (d\<lparr>d_placedAny := b, d_slots := sl, d_todo := map fst (scanOrder opts now s)\<rparr>)"
    for d b sl by (rule order) simp
  then show ?thesis
    using base_pc [OF inv] by (simp add: next_round_def inv split: pump_pc.split)
qed

lemma base_harness_answer:
  assumes inv: "inv_base opts s"
  shows "inv_base opts (harness_answer opts ans s)"
proof (cases "pc s")
  case (Asking d i sls acc)
  with inv have "scan_ok s d" "current_ok s d i" by (auto simp: inv_base_def inv_pc_def)
  with inv Asking show ?thesis
    by (auto simp: harness_answer_def base_pc case_prod_unfold Let_def split: list.split)
qed (use inv in \<open>simp_all add: harness_answer_def\<close>)

lemma base_choose:
  assumes inv: "inv_base opts s"
  shows "inv_base opts (choose_backend opts uuid s)"
proof (cases "pc s")
  case (Asking d i sls acc)
  with inv have ok: "scan_ok s d" "current_ok s d i" "inv_life opts s"
    by (auto simp: inv_base_def inv_pc_def)
  show ?thesis
  proof (cases sls)
    case Nil
    let ?e = "\<lambda>e. case permitId e of None \<Rightarrow> e\<lparr>permitId := Some (i, uuid)\<rparr> | Some _ \<Rightarrow> e"
    let ?s1 = "s\<lparr>entries := (entries s)(i \<mapsto> ?e (the (entries s i)))\<rparr>"
    have known: "known ?s1 = known s" using ok(2) by (auto simp: known_def current_ok_def)
    have "inv_life opts ?s1"
      by (rule inv_life_same [OF ok(3)])
        (use known in \<open>auto simp: job_at_def known_def split: option.split\<close>)
    then have "inv_base opts (?s1\<lparr>pc := Claiming d i chosen\<rparr>)" for chosen
      using ok known by (auto simp: inv_base_def scan_ok_def current_ok_def)
    with inv Asking Nil ok base_commit [OF ok(3,1,2)] show ?thesis
      by (auto simp: choose_backend_def Let_def base_pc split: option.split)
  next
    case (Cons a list)
    with inv Asking show ?thesis by (simp add: choose_backend_def)
  qed
qed (use inv in \<open>simp_all add: choose_backend_def\<close>)

lemma base_permit_answer:
  assumes inv: "inv_base opts s"
  shows "inv_base opts (permit_answer opts b s)"
proof (cases "pc s")
  case (Claiming d i chosen)
  with inv have ok: "scan_ok s d" "current_ok s d i" "inv_life opts s"
    by (auto simp: inv_base_def inv_pc_def)
  have "inv_base opts (commit opts d i chosen (holdPermit p s))" for p
  proof (rule base_commit)
    show "inv_life opts (holdPermit p s)" by (rule inv_life_same [OF ok(3)]) (simp_all add: job_at_def)
    show "scan_ok (holdPermit p s) d" "current_ok (holdPermit p s) d i"
      using ok by (simp_all add: scan_ok_def current_ok_def known_def)
  qed
  with inv Claiming ok show ?thesis by (auto simp: permit_answer_def base_pc)
qed (use inv in \<open>simp_all add: permit_answer_def\<close>)

lemma base_phase:
  assumes inv: "inv_base opts s" and p: "placed s i = Some p" and ph: "ph \<noteq> Running"
    and t: "queue t = queue s" "entries t = entries s" "entrySeq t = entrySeq s"
      "placed t = (placed s)(i \<mapsto> p\<lparr>p_phase := ph\<rparr>)"
      "promises t = (if promises s i = None then (promises s)(i \<mapsto> r) else promises s)" "pc t = pc s"
  shows "inv_base opts t"
proof -
  have "inv_life opts t"
    by (rule inv_life_phase [OF _ p t(1-5) ph]) (use inv in \<open>simp add: inv_base_def\<close>)
  moreover have "inv_pc t"
    by (rule inv_pc_placed_other [of s]) (use inv t p in \<open>auto simp: inv_base_def known_def\<close>)
  ultimately show ?thesis by (simp add: inv_base_def)
qed

lemma base_complete:
  assumes inv: "inv_base opts s"
  shows "inv_base opts (complete_job opts i r s)"
proof (cases "placed s i")
  case (Some p)
  show ?thesis
  proof (cases "p_phase p = Running")
    case True
    show ?thesis
    proof (cases r)
      case (Inl e)
      then show ?thesis
        using Some True base_phase [OF inv Some, of Completed _ "Rejected e"]
        by (simp add: complete_job_def)
    next
      case (Inr c)
      then show ?thesis
        using Some True base_phase [OF inv Some, of Completed _ "Resolved (fst c) (snd c)"]
        by (simp add: complete_job_def case_prod_unfold Let_def split: option.split)
    qed
  qed (use inv Some in \<open>simp add: complete_job_def\<close>)
qed (use inv in \<open>simp add: complete_job_def\<close>)

lemma base_finalize:
  assumes inv: "inv_base opts s"
  shows "inv_base opts (finalize_job opts i s)"
proof (cases "placed s i")
  case (Some p)
  show ?thesis
  proof (cases "p_phase p = Completed")
    case True
    then have "promises s i \<noteq> None"
      using inv Some unfolding inv_base_def inv_life_def by (metis phase.distinct(1))
    then have "inv_base opts (releasePermit opts i
        (s\<lparr>placed := (placed s)(i \<mapsto> p\<lparr>p_phase := Finalized\<rparr>), adm := adm_release (p_res p) (adm s)\<rparr>))"
      by (intro base_phase [OF inv Some, of Finalized _ "Resolved 0 0"]) auto
    with Some True show ?thesis by (simp add: finalize_job_def Let_def inv_base_def)
  qed (use inv Some in \<open>simp add: finalize_job_def\<close>)
qed (use inv in \<open>simp add: finalize_job_def\<close>)

lemma base_new: "inv_base opts new_sched"
  by (simp add: inv_base_def inv_life_new) (simp add: inv_pc_def new_sched_def)

lemma base_step: "inv_base opts s \<Longrightarrow> inv_base opts (sched_step opts e s)"
proof (cases e)
  case (ProbedCapacities caps)
  assume "inv_base opts s"
  then show ?thesis
    using ProbedCapacities by (auto simp: probed_capacities_def base_pc split: pump_pc.split)
next
  case (ProbedFleet f)
  assume "inv_base opts s"
  then show ?thesis
    using ProbedFleet by (auto simp: probed_fleet_def base_pc split: pump_pc.split)
qed (simp_all add: base_dispatch base_abort base_cancelQueued base_cancelEntry base_promote
    base_next_round base_next_entry base_harness_answer base_choose base_permit_answer base_complete
    base_finalize inv_base_def [of opts "pump_start s"] inv_base_def [of opts s])

lemma base_run: "inv_base opts s \<Longrightarrow> inv_base opts (sched_run opts evs s)"
  by (induction evs arbitrary: s) (simp_all add: sched_run_def base_step)

end
