(* ===== verification/SchedulerRoom.thy ===== *)
theory SchedulerRoom
  imports SchedulerInv
begin

text \<open>
  What the scheduler holds: the in-flight counters count exactly the jobs in flight, a placement
  never exceeds what its drain observed, the tenant quota included, and permits are held exactly
  while the job they admitted is in flight.
\<close>

subsection \<open>The effect of a step on what is in flight\<close>

inductive effect :: "sched \<Rightarrow> sched \<Rightarrow> bool" where
  quiet: "adm t = adm s \<Longrightarrow> placed t = placed s \<Longrightarrow> effect s t"
| placing: "i \<in> set (waiting s) \<Longrightarrow> r = reservation_for b (job_at s i) \<Longrightarrow>
     adm t = adm_reserve r (adm s) \<Longrightarrow>
     placed t = (placed s)(i \<mapsto> \<lparr>p_res = r, p_opts = dispatch_opts (entry_hooks (the (entries s i))),
                                  p_phase = Running\<rparr>) \<Longrightarrow> effect s t"
| completing: "placed s i = Some p \<Longrightarrow> p_phase p = Running \<Longrightarrow> adm t = adm s \<Longrightarrow>
     placed t = (placed s)(i \<mapsto> p\<lparr>p_phase := Completed\<rparr>) \<Longrightarrow> effect s t"
| finishing: "placed s i = Some p \<Longrightarrow> p_phase p = Completed \<Longrightarrow> adm t = adm_release (p_res p) (adm s) \<Longrightarrow>
     placed t = (placed s)(i \<mapsto> p\<lparr>p_phase := Finalized\<rparr>) \<Longrightarrow> effect s t"

lemma effect_commit: "effect s (commit opts d i chosen s)"
proof (cases "i \<in> set (waiting s)")
  case True
  show ?thesis
    by (rule placing [OF True refl, of _ chosen]) (use True in \<open>simp_all add: commit_def Let_def job_at_def\<close>)
next
  case False
  then show ?thesis by (intro quiet) (simp_all add: commit_def)
qed

lemma effect_hold: "effect (holdPermit p s) t \<Longrightarrow> effect s t"
  by (erule effect.cases) (auto intro: effect.intros simp: job_at_def)

lemma effect_step: "effect s (sched_step opts e s)"
proof (cases e)
  case (Dispatch j hs ab now)
  then show ?thesis
    by (cases rule: dispatch_cases [of opts j hs ab now s]) (auto intro!: quiet)
next
  case (Abort i)
  then show ?thesis by (intro quiet) (simp_all add: on_abort_def Let_def)
next
  case (CancelQueued p)
  then show ?thesis by (intro quiet) (simp_all add: cancelQueued_def Let_def)
next
  case (CancelEntry i)
  then show ?thesis by (intro quiet) (simp_all add: cancelEntry_def)
next
  case (PromoteEntry i)
  then show ?thesis by (intro quiet) (simp_all add: promoteEntry_def Let_def)
next
  case NextEntry
  then show ?thesis
    by (intro quiet) (simp_all add: next_entry_def Let_def split: pump_pc.split list.split sum.split)
next
  case (HarnessAnswer c)
  then show ?thesis
    by (intro quiet) (simp_all add: harness_answer_def case_prod_unfold Let_def split: pump_pc.split list.split)
next
  case (ChooseBackend uuid)
  then show ?thesis
    by (auto simp: choose_backend_def Let_def intro: effect_commit quiet
        split: pump_pc.split list.split option.split)
next
  case (PermitAnswer b)
  then show ?thesis
    by (auto simp: permit_answer_def intro: effect_hold [OF effect_commit] quiet split: pump_pc.split)
next
  case (CompleteJob i r)
  show ?thesis
  proof (cases "\<exists>p. placed s i = Some p \<and> p_phase p = Running")
    case True
    then obtain p where "placed s i = Some p" "p_phase p = Running" by blast
    with CompleteJob show ?thesis
      by (intro completing [of s i p])
        (auto simp: complete_job_def Let_def split: sum.split option.split)
  next
    case False
    with CompleteJob show ?thesis by (intro quiet) (auto simp: complete_job_def split: option.split)
  qed
next
  case (FinalizeJob i)
  show ?thesis
  proof (cases "\<exists>p. placed s i = Some p \<and> p_phase p = Completed")
    case True
    then obtain p where "placed s i = Some p" "p_phase p = Completed" by blast
    with FinalizeJob show ?thesis
      by (intro finishing [of s i p]) (simp_all add: finalize_job_def Let_def)
  next
    case False
    with FinalizeJob show ?thesis by (intro quiet) (auto simp: finalize_job_def split: option.split)
  qed
qed (auto intro!: quiet simp: probed_capacities_def probed_fleet_def next_round_def split: pump_pc.split)

subsection \<open>The counters\<close>

definition inflight :: "sched \<Rightarrow> nat set" where
  "inflight s = {i. \<exists>p. placed s i = Some p \<and> p_phase p \<noteq> Finalized}"

definition held :: "sched \<Rightarrow> reservation multiset" where
  "held s = image_mset (\<lambda>i. p_res (the (placed s i))) (mset_set (inflight s))"

lemma finite_known: "inv_life opts s \<Longrightarrow> finite (known s)"
  by (simp add: inv_life_def)

lemma finite_inflight: "inv_life opts s \<Longrightarrow> finite (inflight s)"
  by (rule finite_subset [OF _ finite_known]) (auto simp: inflight_def dest: inv_life_placedD)

lemma held_cong:
  "inflight t = inflight s \<Longrightarrow>
     (\<And>i. i \<in> inflight s \<Longrightarrow> p_res (the (placed t i)) = p_res (the (placed s i))) \<Longrightarrow> held t = held s"
proof -
  assume a: "inflight t = inflight s"
    "\<And>i. i \<in> inflight s \<Longrightarrow> p_res (the (placed t i)) = p_res (the (placed s i))"
  show ?thesis
    unfolding held_def a(1)
    by (rule image_mset_cong) (metis a(2) elem_mset_set finite_set_mset_mset_set
        count_eq_zero_iff mset_set.infinite set_mset_empty empty_iff)
qed

lemma held_effect:
  assumes "effect s t" "inv_life opts s"
  shows "held t = held s \<and> adm t = adm s
    \<or> (\<exists>r. held t = add_mset r (held s) \<and> adm t = adm_reserve r (adm s))
    \<or> (\<exists>r. r \<in># held s \<and> held t = held s - {#r#} \<and> adm t = adm_release r (adm s))"
  using assms(1)
proof cases
  case quiet
  then have "held t = held s" by (simp add: held_def inflight_def)
  with quiet show ?thesis by simp
next
  case (placing i r b)
  have i: "placed s i = None" using waiting_known [OF assms(2) placing(1)] by simp
  then have fl: "inflight t = insert i (inflight s)" "i \<notin> inflight s"
    by (auto simp: inflight_def placing(4))
  have "held t = add_mset r (image_mset (\<lambda>i. p_res (the (placed t i))) (mset_set (inflight s)))"
    using finite_inflight [OF assms(2)] fl by (simp add: held_def placing(4))
  also have "image_mset (\<lambda>i. p_res (the (placed t i))) (mset_set (inflight s)) = held s"
    unfolding held_def using fl(2) finite_inflight [OF assms(2)]
    by (intro image_mset_cong) (auto simp: placing(4))
  finally show ?thesis using placing(3) by blast
next
  case (completing i p)
  have "inflight t = inflight s"
    using completing(1,2) by (auto simp: inflight_def completing(4))
  then have "held t = held s"
    by (rule held_cong) (use completing(1) in \<open>auto simp: completing(4)\<close>)
  with completing(3) show ?thesis by simp
next
  case (finishing i p)
  have fl: "inflight s = insert i (inflight t)" "i \<notin> inflight t"
    using finishing(1,2) by (auto simp: inflight_def finishing(4))
  then have fin: "finite (inflight t)" using finite_inflight [OF assms(2)] by simp
  have "held s = add_mset (p_res p) (image_mset (\<lambda>i. p_res (the (placed s i))) (mset_set (inflight t)))"
    using fin fl finishing(1) by (simp add: held_def)
  also have "image_mset (\<lambda>i. p_res (the (placed s i))) (mset_set (inflight t)) = held t"
    unfolding held_def using fl(2) fin by (intro image_mset_cong) (auto simp: finishing(4))
  finally show ?thesis using finishing(3) by auto
qed

definition inv_adm :: "sched \<Rightarrow> bool" where
  "inv_adm s \<longleftrightarrow> holds (adm s) (held s)"

lemma adm_step: "inv_life opts s \<Longrightarrow> inv_adm s \<Longrightarrow> inv_adm (sched_step opts e s)"
  using held_effect [OF effect_step [of s opts e]]
  unfolding inv_adm_def by (metis holds_release holds_reserve)

lemma inv_adm_new: "inv_adm new_sched"
  by (simp add: inv_adm_def held_def inflight_def new_sched_def holds_new)

definition inv_core :: "sched_opts \<Rightarrow> sched \<Rightarrow> bool" where
  "inv_core opts s \<longleftrightarrow> inv_base opts s \<and> inv_adm s"

lemma core_step [invariants]: "inv_core opts s \<Longrightarrow> inv_core opts (sched_step opts e s)"
  using base_step [of opts s e] adm_step [of opts s e] by (auto simp: inv_core_def inv_base_def)

lemma core_run [invariants]: "inv_core opts s \<Longrightarrow> inv_core opts (sched_run opts evs s)"
  by (induction evs arbitrary: s) (simp_all add: sched_run_def core_step)

lemma core_reachable [invariants]: "inv_core opts (sched_run opts evs new_sched)"
  by (rule core_run) (simp add: inv_core_def base_new inv_adm_new)


subsection \<open>Room: a placement stays within what its drain observed\<close>

definition adm_le :: "admission \<Rightarrow> admission \<Rightarrow> bool" where
  "adm_le a' a \<longleftrightarrow> (\<forall>k. countFor a' k \<le> countFor a k \<and> memMbFor a' k \<le> memMbFor a k
     \<and> cpuFor a' k \<le> cpuFor a k \<and> tenantCountFor a' k \<le> tenantCountFor a k)"

lemma adm_le_refl [simp]: "adm_le a a"
  by (simp add: adm_le_def)

lemma sum_mset_max_nonneg: "0 \<le> (\<Sum>x \<in># M. max (0 :: int) (f x))"
  by (induction M) simp_all

lemma tallies_nonneg:
  assumes "holds a M"
  shows "0 \<le> countFor a k" "0 \<le> memMbFor a k" "0 \<le> cpuFor a k" "0 \<le> tenantCountFor a k"
  by (simp_all only: holds_counts [OF assms] sum_mset_max_nonneg of_nat_0_le_iff)

lemma adm_le_release: "holds a M \<Longrightarrow> adm_le (adm_release r a) a"
  using tallies_nonneg [of a M]
  by (auto simp: adm_le_def adm_release_def countFor_def memMbFor_def cpuFor_def tenantCountFor_def counters)

definition axis_fits :: "int option \<Rightarrow> int \<Rightarrow> bound \<Rightarrow> bool" where
  "axis_fits cap used room \<longleftrightarrow>
     (\<forall>B. cap = Some B \<longrightarrow> (\<exists>m. room = Finite m \<and> m \<le> max 0 (B - used)))"

definition slot_fits :: "admission \<Rightarrow> string \<Rightarrow> capacity \<Rightarrow> slot \<Rightarrow> bool" where
  "slot_fits a b cap sl \<longleftrightarrow>
     free sl \<le> max 0 (cap_total cap - countFor a b)
     \<and> axis_fits (memoryBudgetMb cap) (memMbFor a b) (memFreeMb sl)
     \<and> axis_fits (cpuBudget cap) (cpuFor a b) (cpuFree sl)"

lemma axis_fits_mono: "axis_fits B u r \<Longrightarrow> u' \<le> u \<Longrightarrow> axis_fits B u' r"
  by (fastforce simp: axis_fits_def)

lemma slot_fits_mono: "slot_fits a b cap sl \<Longrightarrow> adm_le a' a \<Longrightarrow> slot_fits a' b cap sl"
  unfolding slot_fits_def adm_le_def by (auto intro: axis_fits_mono) (metis diff_left_mono max.mono order_refl order_trans)

text \<open>The slot snapshot of a drain never promises more than is left.\<close>

lemma snapshot_axis:
  "axis_fits cap u (case cap of None \<Rightarrow> Unbounded
     | Some n \<Rightarrow> Finite (max 0 (n - effectiveResource n obs u)))"
  by (auto simp: axis_fits_def effectiveResource_def split: option.split reading.split)

lemma snapshot_free: "max 0 (cap_total cap - effectiveUsed cap u Max) \<le> max 0 (cap_total cap - u)"
  by (auto simp: effectiveUsed_def max_def split: reading.split)

lemma slot_fits_snapshot:
  "freeSlotsFrom caps a b = Some sl \<Longrightarrow> slot_name sl = b \<and> (\<exists>cap. caps b = Some cap \<and> slot_fits a b cap sl)"
  using snapshot_axis [where u = "memMbFor a b"] snapshot_axis [where u = "cpuFor a b"] snapshot_free
  by (auto simp: freeSlotsFrom_def backendSlotOf_def slot_fits_def cong: option.case_cong)

definition room_ok :: "sched \<Rightarrow> drain \<Rightarrow> bool" where
  "room_ok s d \<longleftrightarrow> (\<forall>b sl. d_slots d b = Some sl \<longrightarrow>
     slot_name sl = b \<and> (\<exists>cap. d_caps d b = Some cap \<and> slot_fits (adm s) b cap sl))"

definition admits_at :: "sched \<Rightarrow> drain \<Rightarrow> nat \<Rightarrow> string \<Rightarrow> bool" where
  "admits_at s d i b \<longleftrightarrow>
     (\<exists>sl. d_slots d b = Some sl \<and> slotAdmits sl (jobMemoryMb (job_at s i)) (jobCpu (job_at s i)))"

definition quota_ok :: "sched_opts \<Rightarrow> sched \<Rightarrow> nat \<Rightarrow> bool" where
  "quota_ok opts s i \<longleftrightarrow> le_bound (tenantCountFor (adm s) (tenant_at s i) + 1) (quota_of opts (tenant_at s i))"

definition inv_room :: "sched_opts \<Rightarrow> sched \<Rightarrow> bool" where
  "inv_room opts s = (case pc s of
       Scanning d \<Rightarrow> room_ok s d
     | Asking d i sls acc \<Rightarrow> room_ok s d \<and> quota_ok opts s i
         \<and> (\<forall>sl \<in> set sls \<union> set acc. admits_at s d i (slot_name sl))
     | Claiming d i b \<Rightarrow> room_ok s d \<and> quota_ok opts s i \<and> admits_at s d i b
     | _ \<Rightarrow> True)"

text \<open>A placement policy picks one of its candidates.\<close>

definition picks_candidate :: "(slot list \<Rightarrow> job \<Rightarrow> string option) \<Rightarrow> bool" where
  "picks_candidate pick \<longleftrightarrow> (\<forall>cs j n. pick cs j = Some n \<longrightarrow> n \<in> slot_name ` set cs)"

lemma picks_leastLoaded: "picks_candidate (\<lambda>cs j. leastLoaded name_cmp cs)"
  by (auto simp: picks_candidate_def dest: leastLoaded_candidate)

lemma room_ok_mono: "room_ok s d \<Longrightarrow> adm_le (adm t) (adm s) \<Longrightarrow> room_ok t d"
  unfolding room_ok_def by (meson slot_fits_mono)

lemma room_same:
  assumes "inv_room opts s" "inv_pc s" "adm_le (adm t) (adm s)"
    and "\<And>k. k \<in> known s \<Longrightarrow> job_at t k = job_at s k" and "pc t = pc s"
  shows "inv_room opts t"
proof -
  have le: "le_bound (tenantCountFor (adm t) tt + 1) b" if "le_bound (tenantCountFor (adm s) tt + 1) b" for tt b
    using that assms(3) by (auto simp: adm_le_def intro: le_bound_mono)
  show ?thesis
    using assms le room_ok_mono [of s _ t]
    by (auto simp: inv_room_def inv_pc_def current_ok_def quota_ok_def admits_at_def tenant_at_def
        split: pump_pc.splits)
qed

lemma room_pump_start: "inv_room opts t \<Longrightarrow> inv_room opts (pump_start t)"
  by (auto simp: pump_start_def inv_room_def)

lemma room_at [simp]:
  "inv_room opts (s\<lparr>pc := Idle\<rparr>)" "inv_room opts (s\<lparr>pc := Probing\<rparr>)"
  "inv_room opts (s\<lparr>pc := ProbingFleet c\<rparr>)" "inv_room opts (s\<lparr>pc := Round d\<rparr>)"
  "inv_room opts (s\<lparr>pc := Scanning d\<rparr>) \<longleftrightarrow> room_ok s d"
  by (simp_all add: inv_room_def room_ok_def)

lemma room_ok_todo [simp]: "room_ok s (d\<lparr>d_todo := x\<rparr>) = room_ok s d"
  "room_ok s (d\<lparr>d_placedAny := y\<rparr>) = room_ok s d" "room_ok s (d\<lparr>d_memo := m\<rparr>) = room_ok s d"
  by (simp_all add: room_ok_def)

text \<open>Reserving on a backend takes what its slot loses.\<close>

lemma bump_add: "0 \<le> get_or 0 m k \<Longrightarrow> 0 \<le> d \<Longrightarrow> get_or 0 (bump m k d) k' = get_or 0 m k' + (if k' = k then d else 0)"
  by (simp add: counters)

lemma reserve_counts:
  assumes "holds a M" "0 \<le> r_mem r" "0 \<le> r_cpu r"
  shows "countFor (adm_reserve r a) b = countFor a b + (if b = r_backend r then 1 else 0)"
    and "memMbFor (adm_reserve r a) b = memMbFor a b + (if b = r_backend r then r_mem r else 0)"
    and "cpuFor (adm_reserve r a) b = cpuFor a b + (if b = r_backend r then r_cpu r else 0)"
    and "tenantCountFor (adm_reserve r a) t = tenantCountFor a t + (if t = r_tenant r then 1 else 0)"
  using tallies_nonneg [OF assms(1)] assms(2,3)
  by (auto simp: adm_reserve_def countFor_def memMbFor_def cpuFor_def tenantCountFor_def bump_add)

lemma job_needs_nonneg [simp]: "0 \<le> jobMemoryMb j" "0 \<le> jobCpu j"
  by (simp_all add: jobMemoryMb_def jobCpu_def split: option.split)

lemma axis_fits_take:
  "axis_fits B u room \<Longrightarrow> le_bound need room \<Longrightarrow> 0 \<le> need \<Longrightarrow> axis_fits B (u + need) (bound_minus room need)"
  by (fastforce simp: axis_fits_def)

lemma room_ok_take:
  assumes room: "room_ok s d" and adm: "holds (adm s) M" and at: "admits_at s d i b"
    and t: "adm t = adm_reserve (reservation_for b (job_at s i)) (adm s)"
  shows "room_ok t (d\<lparr>d_slots := take_from_slot b (jobMemoryMb (job_at s i)) (jobCpu (job_at s i)) (d_slots d),
                      d_placedAny := True\<rparr>)"
proof -
  let ?j = "job_at s i"
  obtain sl where sl: "d_slots d b = Some sl" "slotAdmits sl (jobMemoryMb ?j) (jobCpu ?j)"
    using at by (auto simp: admits_at_def)
  obtain cap where cap: "d_caps d b = Some cap" "slot_fits (adm s) b cap sl" "slot_name sl = b"
    using room sl(1) by (auto simp: room_ok_def)
  note counts = reserve_counts [OF adm, of "reservation_for b ?j", folded t]
  let ?sl = "sl\<lparr>free := free sl - 1, memFreeMb := bound_minus (memFreeMb sl) (jobMemoryMb ?j),
                cpuFree := bound_minus (cpuFree sl) (jobCpu ?j)\<rparr>"
  have "slot_fits (adm t) b cap ?sl"
    using cap(2) sl(2) axis_fits_take
    by (auto simp: slot_fits_def slotAdmits_def counts reservation_for_def)
  moreover have "slot_fits (adm t) b' cap' sl'"
    if "b' \<noteq> b" "slot_fits (adm s) b' cap' sl'" for b' cap' sl'
    using that by (simp add: slot_fits_def counts reservation_for_def)
  ultimately show ?thesis
    using room cap sl(1) unfolding room_ok_def take_from_slot_def
    by (simp add: cap(3) sl(1)) blast
qed

lemma room_commit:
  assumes "room_ok s d" "admits_at s d i b" "inv_adm s"
  shows "inv_room opts (commit opts d i b s)"
proof (cases "i \<in> set (waiting s)")
  case True
  let ?d = "d\<lparr>d_slots := take_from_slot b (jobMemoryMb (job_at s i)) (jobCpu (job_at s i)) (d_slots d),
              d_placedAny := True\<rparr>"
  have "room_ok (commit opts d i b s) ?d"
    by (rule room_ok_take [OF assms(1) _ assms(2)])
      (use assms(3) True in \<open>auto simp: commit_def Let_def inv_adm_def\<close>)
  then show ?thesis using True by (simp add: commit_def Let_def inv_room_def)
next
  case False
  have "room_ok (releasePermit opts i s) d" by (rule room_ok_mono [OF assms(1)]) simp
  with False show ?thesis by (simp add: commit_def)
qed

subsection \<open>Every event keeps it\<close>

text \<open>The events that are a continuation of the pump; every other one is a caller or a backend.\<close>

fun pump_event :: "sched_event \<Rightarrow> bool" where
  "pump_event (ProbedCapacities c) = True"
| "pump_event (ProbedFleet f) = True"
| "pump_event (NextRound n) = True"
| "pump_event NextEntry = True"
| "pump_event (HarnessAnswer c) = True"
| "pump_event (ChooseBackend u) = True"
| "pump_event (PermitAnswer b) = True"
| "pump_event e = False"

lemma job_at_commit [simp]: "job_at (commit opts d i b s) k = job_at s k"
  by (simp add: commit_def Let_def job_at_def)

lemma entries_commit [simp]: "entries (commit opts d i b s) = entries s"
  by (simp add: commit_def Let_def)

lemma job_at_step:
  assumes "inv_life opts s" "k \<in> known s"
  shows "job_at (sched_step opts e s) k = job_at s k"
proof (cases e)
  case (Dispatch j hs ab now)
  have "k \<noteq> Suc (entrySeq s)" using assms by (auto simp: inv_life_def)
  then show ?thesis
    using Dispatch by (cases rule: dispatch_cases [of opts j hs ab now s]) (simp_all add: job_at_def)
next
  case (ChooseBackend u)
  then show ?thesis
    using assms(2)
    by (auto simp: choose_backend_def Let_def job_at_def known_def split: pump_pc.split list.split option.split)
next
  case (PermitAnswer b)
  then show ?thesis by (simp add: permit_answer_def job_at_def split: pump_pc.split)
next
  case (Abort i)
  then show ?thesis by (simp add: on_abort_def Let_def job_at_def)
next
  case (CancelQueued p)
  then show ?thesis by (simp add: cancelQueued_def Let_def job_at_def)
next
  case (CancelEntry i)
  then show ?thesis by (simp add: cancelEntry_def job_at_def)
next
  case (PromoteEntry i)
  then show ?thesis
    using assms(2) by (auto simp: promoteEntry_def Let_def job_at_def known_def)
next
  case NextEntry
  then show ?thesis
    by (simp add: next_entry_def Let_def job_at_def split: pump_pc.split list.split sum.split)
next
  case (HarnessAnswer c)
  then show ?thesis
    by (simp add: harness_answer_def case_prod_unfold Let_def job_at_def split: pump_pc.split list.split)
next
  case (CompleteJob i r)
  then show ?thesis
    by (simp add: complete_job_def Let_def job_at_def split: sum.split option.split)
next
  case (FinalizeJob i)
  then show ?thesis by (simp add: finalize_job_def Let_def job_at_def split: option.split)
qed (simp_all add: probed_capacities_def probed_fleet_def next_round_def job_at_def split: pump_pc.split)

lemma pc_outside:
  assumes "\<not> pump_event e"
  shows "pc (sched_step opts e s) = pc s \<or> pc (sched_step opts e s) = Probing"
proof (cases e)
  case (Dispatch j hs ab now)
  then show ?thesis
    by (cases rule: dispatch_cases [of opts j hs ab now s]) (auto simp: pump_start_def)
next
  case (Abort i)
  then show ?thesis by (simp add: on_abort_def Let_def)
next
  case (CancelQueued p)
  then show ?thesis by (simp add: cancelQueued_def Let_def)
next
  case (CancelEntry i)
  then show ?thesis by (simp add: cancelEntry_def)
next
  case (PromoteEntry i)
  then show ?thesis by (simp add: promoteEntry_def Let_def pump_start_def)
next
  case (CompleteJob i r)
  then show ?thesis by (simp add: complete_job_def Let_def split: sum.split option.split)
next
  case (FinalizeJob i)
  then show ?thesis by (simp add: finalize_job_def Let_def pump_start_def split: option.split)
qed (use assms in \<open>simp_all add: pump_start_def\<close>)

lemma placed_outside:
  assumes "\<not> pump_event e" "placed s i = None"
  shows "placed (sched_step opts e s) i = None"
proof (cases e)
  case (Dispatch j hs ab now)
  then show ?thesis
    using assms by (cases rule: dispatch_cases [of opts j hs ab now s]) auto
next
  case (Abort i)
  then show ?thesis using assms by (simp add: on_abort_def Let_def)
next
  case (CancelQueued p)
  then show ?thesis using assms by (simp add: cancelQueued_def Let_def)
next
  case (CancelEntry i)
  then show ?thesis using assms by (simp add: cancelEntry_def)
next
  case (PromoteEntry i)
  then show ?thesis using assms by (simp add: promoteEntry_def Let_def)
next
  case (CompleteJob i r)
  then show ?thesis using assms by (auto simp: complete_job_def Let_def split: sum.split option.split)
next
  case (FinalizeJob i)
  then show ?thesis using assms by (auto simp: finalize_job_def Let_def split: option.split)
qed (use assms in simp_all)

lemma adm_outside:
  assumes "\<not> pump_event e" "inv_core opts s"
  shows "adm_le (adm (sched_step opts e s)) (adm s)"
  using effect_step [of s opts e]
proof cases
  case (placing i r b)
  have "placed s i = None" 
    using waiting_known [of opts s i] assms(2) placing(1) by (simp add: inv_core_def inv_base_def)
  then show ?thesis using placed_outside [OF assms(1)] placing(4) by (metis fun_upd_same option.distinct(1))
next
  case (finishing i p)
  then show ?thesis using assms(2) adm_le_release by (auto simp: inv_core_def inv_adm_def)
qed simp_all

lemma room_outside:
  assumes "\<not> pump_event e" "inv_core opts s" "inv_room opts s"
  shows "inv_room opts (sched_step opts e s)"
proof -
  have "inv_life opts s" "inv_pc s" using assms(2) by (simp_all add: inv_core_def inv_base_def)
  then show ?thesis
    using pc_outside [OF assms(1), of opts s] room_same [OF assms(3) _ adm_outside [OF assms(1,2)]]
      job_at_step by (auto simp: inv_room_def)
qed

lemma quota_ok_simps [simp]: "quota_ok opts (s\<lparr>pc := x\<rparr>) i = quota_ok opts s i"
  by (simp add: quota_ok_def tenant_at_def job_at_def)

lemma room_ok_simps [simp]: "room_ok (s\<lparr>pc := x\<rparr>) d = room_ok s d"
  by (simp add: room_ok_def)

lemma admits_at_simps [simp]:
  "admits_at (s\<lparr>pc := x\<rparr>) d i b = admits_at s d i b"
  "admits_at s (d\<lparr>d_memo := m\<rparr>) i b = admits_at s d i b"
  "admits_at s (d\<lparr>d_todo := td\<rparr>) i b = admits_at s d i b"
  by (simp_all add: admits_at_def job_at_def)

lemma room_asking [simp]:
  "inv_room opts (s\<lparr>pc := Asking d i sls acc\<rparr>) \<longleftrightarrow> room_ok s d \<and> quota_ok opts s i
     \<and> (\<forall>sl \<in> set sls \<union> set acc. admits_at s d i (slot_name sl))"
  by (simp add: inv_room_def)

lemma room_next_entry:
  assumes "inv_room opts s"
  shows "inv_room opts (next_entry opts s)"
proof (cases "pc s")
  case (Scanning d)
  then have room: "room_ok s d" using assms by (simp add: inv_room_def)
  show ?thesis
  proof (cases "d_todo d")
    case (Cons i rest)
    let ?j = "job_at s i" and ?t = "tenant_at s i"
    let ?d1 = "d\<lparr>d_todo := rest\<rparr>"
    have cand: "\<forall>sl \<in> set (candidates_for ?d1 ?j names). admits_at s ?d1 i (slot_name sl)" for names
      using room by (fastforce simp: candidates_for_def admits_at_def room_ok_def List.map_filter_def)
    have "tenantCountFor (adm s) ?t \<le> fleet_countFor (d_fleet d) ?t (tenantCountFor (adm s) ?t)"
      by (simp add: fleet_countFor_def Let_def)
    then have quota: "quota_ok opts s i"
      if "\<not> ge_bound (fleet_countFor (d_fleet d) ?t (tenantCountFor (adm s) ?t)) (quota_of opts ?t)"
      using that by (auto simp: quota_ok_def intro: le_bound_mono)
    have rej: "room_ok (settle_promise i r (releaseBudget opts ?j (dequeue i s))) d" for r
      by (rule room_ok_mono [OF room]) simp
    show ?thesis
      using Scanning Cons room cand quota rej
      by (auto simp: next_entry_def Let_def tenant_at_def split: list.split sum.split; metis list.set_intros)
  qed (use Scanning in \<open>simp add: next_entry_def\<close>)
qed (use assms in \<open>simp_all add: next_entry_def\<close>)

lemma room_next_round: "inv_room opts s \<Longrightarrow> inv_room opts (next_round opts now s)"
  using slot_fits_snapshot
  by (auto simp: next_round_def room_ok_def split: pump_pc.split)

lemma room_harness_answer: "inv_room opts s \<Longrightarrow> inv_room opts (harness_answer opts c s)"
  by (auto simp: harness_answer_def case_prod_unfold Let_def inv_room_def split: pump_pc.split list.split if_splits)

lemma room_choose:
  assumes "inv_room opts s" "picks_candidate (policy opts)" "inv_core opts s"
  shows "inv_room opts (choose_backend opts uuid s)"
proof (cases "\<exists>d i acc chosen. pc s = Asking d i [] acc \<and> acc \<noteq> [] \<and> policy opts acc (job_at s i) = Some chosen")
  case True
  then obtain d i acc chosen where pc: "pc s = Asking d i [] acc" "acc \<noteq> []"
    and chosen: "policy opts acc (job_at s i) = Some chosen" by blast
  have at: "room_ok s d" "quota_ok opts s i" "admits_at s d i chosen"
    using assms(1,2) chosen by (auto simp: inv_room_def pc picks_candidate_def)
  have i: "i \<in> known s" using assms(3) by (auto simp: inv_core_def inv_base_def inv_pc_def pc current_ok_def)
  have "inv_room opts (commit opts d i chosen s)"
    by (rule room_commit [OF at(1,3)]) (use assms(3) in \<open>simp add: inv_core_def\<close>)
  moreover have "inv_room opts (s\<lparr>entries := (entries s)(i \<mapsto> e1), pc := Claiming d i chosen\<rparr>)"
    if "job e1 = job_at s i" for e1
    using at that by (auto simp: inv_room_def room_ok_def quota_ok_def admits_at_def tenant_at_def job_at_def)
  ultimately show ?thesis
    using pc chosen by (auto simp: choose_backend_def Let_def job_at_def [symmetric] split: option.split)
next
  case False
  then show ?thesis
    using assms(1) by (auto simp: choose_backend_def inv_room_def room_ok_def split: pump_pc.split list.split option.split)
qed

lemma room_permit_answer:
  assumes "inv_room opts s" "inv_core opts s"
  shows "inv_room opts (permit_answer opts b s)"
proof (cases "pc s")
  case (Claiming d i chosen)
  let ?s = "holdPermit (the (permitId (the (entries s i)))) s"
  have at: "room_ok s d" "admits_at s d i chosen" using assms(1) by (simp_all add: inv_room_def Claiming)
  have "inv_room opts (commit opts d i chosen ?s)"
    by (rule room_commit)
      (use at assms(2) in \<open>simp_all add: room_ok_def admits_at_def job_at_def inv_core_def inv_adm_def held_def inflight_def\<close>)
  with at Claiming show ?thesis by (simp add: permit_answer_def)
qed (use assms(1) in \<open>simp_all add: permit_answer_def\<close>)

lemma room_step [invariants]:
  assumes "inv_room opts s" "inv_core opts s" "picks_candidate (policy opts)"
  shows "inv_room opts (sched_step opts e s)"
proof (cases "pump_event e")
  case True
  then show ?thesis
    using assms
    by (cases e) (auto intro: room_next_entry room_next_round room_harness_answer room_choose
        room_permit_answer simp: probed_capacities_def probed_fleet_def split: pump_pc.split)
qed (rule room_outside [OF _ assms(2,1)])

lemma room_reachable:
  assumes "picks_candidate (policy opts)"
  shows "inv_room opts (sched_run opts evs new_sched)"
proof (induction evs rule: rev_induct)
  case Nil
  show ?case by (simp add: sched_run_def inv_room_def new_sched_def)
next
  case (snoc e evs)
  then show ?case
    using room_step [OF snoc core_reachable assms] by (simp add: sched_run_def)
qed

subsection \<open>What a new placement is worth\<close>

fun drain_of :: "sched \<Rightarrow> drain option" where
  "drain_of s = (case pc s of
       Round d \<Rightarrow> Some d | Scanning d \<Rightarrow> Some d | Asking d _ _ _ \<Rightarrow> Some d | Claiming d _ _ \<Rightarrow> Some d
     | _ \<Rightarrow> None)"

text \<open>A job gets placed by the commit of the entry the pump is on, and by nothing else.\<close>

lemma placed_by_commit:
  assumes inv: "inv_core opts s" "inv_room opts s" "picks_candidate (policy opts)"
    and new: "placed s i = None" "placed (sched_step opts e s) i = Some p"
  obtains d b u where "drain_of s = Some d" "room_ok s d" "quota_ok opts s i" "admits_at s d i b"
    "i \<in> set (waiting s)" "entries u = entries s" "adm u = adm s" "placed u = placed s" "queue u = queue s"
    "sched_step opts e s = commit opts d i b u"
proof -
  have pump: "pump_event e" using placed_outside [of e s i] new by force
  consider (choose) uuid d k acc b where "e = ChooseBackend uuid" "pc s = Asking d k [] acc"
      "policy opts acc (job_at s k) = Some b" "sched_step opts e s = commit opts d k b s"
    | (permit) d k b pm where "e = PermitAnswer True" "pc s = Claiming d k b"
      "sched_step opts e s = commit opts d k b (holdPermit pm s)"
    using pump new
    by (cases e) (auto simp: probed_capacities_def probed_fleet_def next_round_def next_entry_def Let_def
        harness_answer_def case_prod_unfold choose_backend_def permit_answer_def
        split: pump_pc.splits list.splits sum.splits option.splits if_splits)
  then show thesis
  proof cases
    case choose
    then have "k = i" using new by (auto simp: commit_def Let_def split: if_splits)
    moreover from choose this have "i \<in> set (waiting s)" using new by (auto simp: commit_def split: if_splits)
    ultimately show ?thesis
      using choose inv(2,3) by (intro that [of d b s]) (auto simp: inv_room_def picks_candidate_def)
  next
    case permit
    then have "k = i" using new by (auto simp: commit_def Let_def split: if_splits)
    moreover from permit this have "i \<in> set (waiting s)" using new by (auto simp: commit_def split: if_splits)
    ultimately show ?thesis
      using permit inv(2) by (intro that [of d b "holdPermit pm s"]) (auto simp: inv_room_def)
  qed
qed

lemma within_room:
  assumes "room_ok s d" "quota_ok opts s i" "admits_at s d i b" "holds (adm s) M"
    and "a = adm_reserve (reservation_for b (job_at s i)) (adm s)"
  shows "\<exists>cap. d_caps d b = Some cap \<and> countFor a b \<le> cap_total cap
      \<and> (\<forall>B. memoryBudgetMb cap = Some B \<and> 0 < jobMemoryMb (job_at s i) \<longrightarrow> memMbFor a b \<le> B)
      \<and> (\<forall>B. cpuBudget cap = Some B \<and> 0 < jobCpu (job_at s i) \<longrightarrow> cpuFor a b \<le> B)
      \<and> le_bound (tenantCountFor a (tenant_at s i)) (quota_of opts (tenant_at s i))"
proof -
  obtain sl where sl: "d_slots d b = Some sl" "slotAdmits sl (jobMemoryMb (job_at s i)) (jobCpu (job_at s i))"
    using assms(3) by (auto simp: admits_at_def)
  obtain cap where cap: "d_caps d b = Some cap" "slot_fits (adm s) b cap sl"
    using assms(1) sl(1) by (auto simp: room_ok_def)
  have axis: "used + need \<le> B" if "axis_fits (Some B) used r" "le_bound need r" "0 < need" for B used need r
    using that by (auto simp: axis_fits_def)
  show ?thesis
    using cap sl(2) assms(2) axis
    by (intro exI [of _ cap])
      (auto simp: slot_fits_def slotAdmits_def quota_ok_def tenant_at_def reservation_for_def
        reserve_counts [OF assms(4), of "reservation_for b (job_at s i)", folded assms(5)])
qed

end
