(* ===== verification/SchedulerLedger.thy ===== *)
theory SchedulerLedger
  imports SchedulerRoom
begin

text \<open>
  What the scheduler owes outside itself: a fleet-wide permit is held exactly while the job it
  admitted is in flight, and a reserved run of the budget stands exactly while its job is queued or
  placed.
\<close>

subsection \<open>Permits\<close>

definition permit_at :: "sched \<Rightarrow> nat \<Rightarrow> permit option" where
  "permit_at s i = permitId (the (entries s i))"

definition claims :: "sched_opts \<Rightarrow> sched \<Rightarrow> nat \<Rightarrow> bool" where
  "claims opts s i \<longleftrightarrow> is_finite_bound (quota_of opts (tenant_at s i)) \<and> ledger_tryAdmit opts"

definition inv_permits :: "sched_opts \<Rightarrow> sched \<Rightarrow> bool" where
  "inv_permits opts s \<longleftrightarrow>
     (\<forall>p. p \<in> livePermits s \<longleftrightarrow> (\<exists>i \<in> inflight s. permit_at s i = Some p))
     \<and> (\<forall>i \<in> known s. \<forall>p. permit_at s i = Some p \<longrightarrow> fst p = i \<and> claims opts s i)
     \<and> (\<forall>i \<in> known s. placed s i \<noteq> None \<and> claims opts s i \<longrightarrow> permit_at s i \<noteq> None)
     \<and> (\<forall>d i b. pc s = Claiming d i b \<longrightarrow> permit_at s i \<noteq> None)"

lemma inv_permitsI:
  assumes "\<And>p. p \<in> livePermits s \<longleftrightarrow> (\<exists>i \<in> inflight s. permit_at s i = Some p)"
    and "\<And>i p. i \<in> known s \<Longrightarrow> permit_at s i = Some p \<Longrightarrow> fst p = i \<and> claims opts s i"
    and "\<And>i. i \<in> known s \<Longrightarrow> placed s i \<noteq> None \<Longrightarrow> claims opts s i \<Longrightarrow> permit_at s i \<noteq> None"
    and "\<And>d i b. pc s = Claiming d i b \<Longrightarrow> permit_at s i \<noteq> None"
  shows "inv_permits opts s"
  using assms unfolding inv_permits_def by blast

lemma inv_permitsD:
  assumes "inv_permits opts s"
  shows permits_live: "p \<in> livePermits s \<longleftrightarrow> (\<exists>i \<in> inflight s. permit_at s i = Some p)"
    and permits_own: "i \<in> known s \<Longrightarrow> permit_at s i = Some p \<Longrightarrow> fst p = i \<and> claims opts s i"
    and permits_placed: "i \<in> known s \<Longrightarrow> placed s i \<noteq> None \<Longrightarrow> claims opts s i \<Longrightarrow> permit_at s i \<noteq> None"
    and permits_claiming: "pc s = Claiming d i b \<Longrightarrow> permit_at s i \<noteq> None"
  using assms unfolding inv_permits_def by blast+

lemma inflight_known: "inv_life opts s \<Longrightarrow> i \<in> inflight s \<Longrightarrow> i \<in> known s \<and> placed s i \<noteq> None"
  by (auto simp: inflight_def dest: inv_life_placedD)

lemma permits_release_idle:
  assumes "inv_permits opts s" "inv_life opts s" "i \<in> known s" "i \<notin> inflight s"
  shows "livePermits s - set_option (permit_at s i) = livePermits s"
proof -
  have "p \<notin> livePermits s" if "permit_at s i = Some p" for p
    using assms that inflight_known [OF assms(2)] unfolding inv_permits_def by (metis fst_conv)
  then show ?thesis by (auto simp: elem_set)
qed

lemma permits_frame:
  assumes inv: "inv_permits opts s" "inv_life opts s"
    and same: "\<And>k. k \<in> known s \<Longrightarrow> permit_at t k = permit_at s k \<and> job_at t k = job_at s k"
    and fresh: "\<And>k. k \<in> known t \<Longrightarrow> k \<notin> known s \<Longrightarrow> permit_at t k = None \<and> placed t k = None"
    and placed: "\<And>k. placed t k = None \<longleftrightarrow> placed s k = None" "inflight t = inflight s"
    and live: "livePermits t = livePermits s"
    and pc: "\<And>d i b. pc t = Claiming d i b \<Longrightarrow> pc s = Claiming d i b \<and> i \<in> known s"
  shows "inv_permits opts t"
proof -
  have cl: "claims opts t k = claims opts s k" if "k \<in> known s" for k
    using same [OF that] by (simp add: claims_def tenant_at_def)
  have fl: "k \<in> known s" if "k \<in> inflight s" for k using inflight_known [OF inv(2) that] by simp
  show ?thesis
  proof (rule inv_permitsI)
    show "p \<in> livePermits t \<longleftrightarrow> (\<exists>i \<in> inflight t. permit_at t i = Some p)" for p
      using permits_live [OF inv(1), of p] same fl unfolding live placed(2) by (metis (no_types))
    show "fst p = k \<and> claims opts t k" if "k \<in> known t" "permit_at t k = Some p" for k p
      using permits_own [OF inv(1), of k p] same [of k] cl [of k] fresh [OF that(1)] that(2)
      by (cases "k \<in> known s") simp_all
    show "permit_at t k \<noteq> None" if "k \<in> known t" "placed t k \<noteq> None" "claims opts t k" for k
      using permits_placed [OF inv(1), of k] same [of k] cl [of k] fresh [OF that(1)] placed(1) [of k] that(2,3)
      by (cases "k \<in> known s") simp_all
    show "permit_at t k \<noteq> None" if "pc t = Claiming d k b" for d k b
      using permits_claiming [OF inv(1)] pc [OF that] same [of k] by auto
  qed
qed

lemma inflight_at [simp]: "inflight (s\<lparr>pc := x\<rparr>) = inflight s"
  "inflight (releasePermit opts i s) = inflight s" "inflight (settle_promise i r s) = inflight s"
  by (simp_all add: inflight_def)

lemma permit_at_at [simp]: "permit_at (s\<lparr>pc := x\<rparr>) k = permit_at s k"
  by (simp add: permit_at_def)

lemma live_release [simp]: "livePermits (releasePermit opts i s) = livePermits s - set_option (permit_at s i)"
  by (simp add: permit_at_def)

lemma permits_commit:
  assumes inv: "inv_permits opts s" "inv_life opts s" and i: "i \<in> known s" "placed s i = None"
    and hold: "(claims opts s i \<longrightarrow> permit_at s i \<noteq> None)" "u = s \<or> (\<exists>p. permit_at s i = Some p \<and> u = holdPermit p s)"
      "permit_at s i \<noteq> None \<longrightarrow> u \<noteq> s"
  shows "inv_permits opts (commit opts d i b u)"
proof -
  have eq: "entries u = entries s" "queue u = queue s" "placed u = placed s" "job_at u k = job_at s k"
    "livePermits u = livePermits s \<union> set_option (permit_at s i)" for k
    using hold by (auto simp: job_at_def)
  have idle: "i \<notin> inflight s" using i(2) by (simp add: inflight_def)
  show ?thesis
  proof (cases "i \<in> set (waiting s)")
    case False
    let ?t = "(releasePermit opts i u)\<lparr>pc := Scanning d\<rparr>"
    have "livePermits ?t = livePermits s - set_option (permit_at s i)"
      by (simp add: eq(1,5) permit_at_def Un_Diff)
    then have "livePermits ?t = livePermits s"
      by (simp only: permits_release_idle [OF inv i(1) idle])
    then have "inv_permits opts ?t"
      by (intro permits_frame [OF inv])
        (auto simp: permit_at_def job_at_def eq inflight_def known_def)
    with False show ?thesis by (simp add: commit_def eq)
  next
    case True
    define t where "t = commit opts d i b u"
    have t: "entries t = entries s" "livePermits t = livePermits s \<union> set_option (permit_at s i)"
      using True by (simp_all add: t_def commit_def Let_def eq)
    obtain d' where pc: "pc t = Scanning d'"
      using True by (auto simp: t_def commit_def Let_def eq)
    obtain p where p: "placed t = (placed s)(i \<mapsto> p)" "p_phase p = Running"
      using True by (auto simp: t_def commit_def Let_def eq)
    have k: "known t = known s" "\<And>k. permit_at t k = permit_at s k" "\<And>k. claims opts t k = claims opts s k"
      using t(1) by (auto simp: known_def permit_at_def claims_def tenant_at_def job_at_def)
    have fl: "inflight t = insert i (inflight s)" using p by (auto simp: inflight_def)
    have "inv_permits opts t"
    proof (rule inv_permitsI)
      show "q \<in> livePermits t \<longleftrightarrow> (\<exists>k \<in> inflight t. permit_at t k = Some q)" for q
        using permits_live [OF inv(1), of q] by (auto simp: t(2) fl k elem_set)
      show "fst q = k \<and> claims opts t k" if "k \<in> known t" "permit_at t k = Some q" for k q
        using permits_own [OF inv(1), of k q] that by (simp add: k)
      show "permit_at t k \<noteq> None" if "k \<in> known t" "placed t k \<noteq> None" "claims opts t k" for k
        using permits_placed [OF inv(1), of k] that hold(1) unfolding k p by (cases "k = i") simp_all
      show "permit_at t k \<noteq> None" if "pc t = Claiming d'' k b'" for d'' k b' using that pc by simp
    qed
    then show ?thesis by (simp only: t_def)
  qed
qed


lemma job_at_cancel [simp]:
  "job_at (cancel_one opts m i s) k = job_at s k" "permit_at (cancel_one opts m i s) k = permit_at s k"
  "inflight (cancel_one opts m i s) = inflight s" "known (cancel_one opts m i s) = known s"
  by (simp_all add: job_at_def permit_at_def inflight_def known_def)

lemma permits_quiet:
  assumes inv: "inv_permits opts s" "inv_life opts s"
    and t: "entries t = entries s" "placed t = placed s" "livePermits t = livePermits s" 
      "\<And>d i b. pc t \<noteq> Claiming d i b \<or> pc s = pc t" "inv_pc s"
  shows "inv_permits opts t"
proof (rule permits_frame [OF inv])
  show "pc s = Claiming d i b \<and> i \<in> known s" if "pc t = Claiming d i b" for d i b
    using t(4) [of d i b] t(5) that by (simp add: inv_pc_def current_ok_def)
qed (use t in \<open>simp_all add: permit_at_def job_at_def inflight_def known_def\<close>)

lemma permits_cancel_one:
  assumes inv: "inv_permits opts s" "inv_base opts s" and i: "i \<in> known s" "placed s i = None"
  shows "inv_permits opts (cancel_one opts m i s)"
proof (rule permits_quiet)
  have life: "inv_life opts s" using inv(2) by (simp add: inv_base_def)
  then show "inv_life opts s" .
  show "livePermits (cancel_one opts m i s) = livePermits s"
    using permits_release_idle [OF inv(1) life i(1)] i(2) by (simp add: inflight_def permit_at_def)
qed (use inv in \<open>simp_all add: inv_base_def\<close>)

lemma base_cancel_one:
  assumes "inv_base opts s" "i \<in> known s" "placed s i = None"
  shows "inv_base opts (cancel_one opts m i s)"
  using assms inv_life_cancel_one [of opts s i m] inv_pc_same [of s "cancel_one opts m i s"]
  by (simp add: inv_base_def)

lemma permits_cancel_fold:
  assumes "inv_permits opts s" "inv_base opts s" "\<forall>i \<in> set xs. i \<in> known s \<and> placed s i = None"
  shows "inv_permits opts (fold (cancel_one opts m) xs s)"
  using assms
  by (induction xs arbitrary: s) (simp_all add: permits_cancel_one base_cancel_one)

lemma pc_pump_start: "pc (pump_start s) = (if pc s = Idle \<and> fq_size (queue s) \<noteq> 0 then Probing else pc s)"
  by (simp add: pump_start_def)

lemma permits_finalize:
  assumes inv: "inv_permits opts s" "inv_base opts s"
  shows "inv_permits opts (finalize_job opts i s)"
proof (cases "\<exists>p. placed s i = Some p \<and> p_phase p = Completed")
  case False
  then have "finalize_job opts i s = s" by (auto simp: finalize_job_def split: option.split)
  with inv show ?thesis by simp
next
  case True
  then obtain p where p: "placed s i = Some p" "p_phase p = Completed" by blast
  have life: "inv_life opts s" using inv(2) by (simp add: inv_base_def)
  have i: "i \<in> known s" by (rule inv_life_placedD [OF life p(1)])
  define t where "t = finalize_job opts i s"
  have t: "entries t = entries s" "placed t = (placed s)(i \<mapsto> p\<lparr>p_phase := Finalized\<rparr>)"
    "livePermits t = livePermits s - set_option (permit_at s i)" "\<And>d k b. pc t = Claiming d k b \<Longrightarrow> pc s = pc t"
    using p by (auto simp: t_def finalize_job_def Let_def permit_at_def pc_pump_start split: if_splits)
  have k: "known t = known s" "\<And>k. permit_at t k = permit_at s k" "\<And>k. claims opts t k = claims opts s k"
    using t(1) by (auto simp: known_def permit_at_def claims_def tenant_at_def job_at_def)
  have fl: "inflight t = inflight s - {i}" using p by (auto simp: inflight_def t(2))
  have "inv_permits opts t"
  proof (rule inv_permitsI)
    show "q \<in> livePermits t \<longleftrightarrow> (\<exists>k \<in> inflight t. permit_at t k = Some q)" for q
    proof -
      have "permit_at s k = Some q \<Longrightarrow> permit_at s i = Some q \<Longrightarrow> k \<in> inflight s \<Longrightarrow> k = i" for k
        using permits_own [OF inv(1)] inflight_known [OF life, of k] i by metis
      then show ?thesis
        using permits_live [OF inv(1), of q] unfolding t(3) fl k by (auto simp: elem_set)
    qed
    show "fst q = k \<and> claims opts t k" if "k \<in> known t" "permit_at t k = Some q" for k q
      using permits_own [OF inv(1), of k q] that by (simp add: k)
    show "permit_at t k \<noteq> None" if "k \<in> known t" "placed t k \<noteq> None" "claims opts t k" for k
      using permits_placed [OF inv(1), of k] that p(1) unfolding k t(2) by (cases "k = i") simp_all
    show "permit_at t k \<noteq> None" if "pc t = Claiming d k b" for d k b
      using permits_claiming [OF inv(1)] t(4) [OF that] that by (simp add: k)
  qed
  then show ?thesis by (simp only: t_def)
qed

lemma permits_choose:
  assumes inv: "inv_permits opts s" "inv_base opts s"
  shows "inv_permits opts (choose_backend opts uuid s)"
proof (cases "\<exists>d i acc chosen. pc s = Asking d i [] acc \<and> acc \<noteq> [] \<and> policy opts acc (job_at s i) = Some chosen")
  case False
  have "inv_permits opts (s\<lparr>pc := Scanning d\<rparr>)" for d
    by (rule permits_quiet [OF inv(1)]) (use inv(2) in \<open>simp_all add: inv_base_def\<close>)
  with False inv(1) show ?thesis
    by (auto simp: choose_backend_def split: pump_pc.split list.split option.split)
next
  case True
  then obtain d i acc chosen where pc: "pc s = Asking d i [] acc" "acc \<noteq> []"
    and chosen: "policy opts acc (job_at s i) = Some chosen" by blast
  have life: "inv_life opts s" and i: "i \<in> known s" "placed s i = None"
    using inv(2) by (simp_all add: inv_base_def inv_pc_def pc current_ok_def)
  show ?thesis
  proof (cases "claims opts s i")
    case False
    then have "permit_at s i = None" using permits_own [OF inv(1) i(1)] by (cases "permit_at s i") auto
    then have "inv_permits opts (commit opts d i chosen s)"
      using False by (intro permits_commit [OF inv(1) life i]) simp_all
    with False chosen pc show ?thesis by (auto simp: choose_backend_def claims_def)
  next
    case True
    define e1 where "e1 = (case permitId (the (entries s i)) of
        None \<Rightarrow> (the (entries s i))\<lparr>permitId := Some (i, uuid)\<rparr> | Some _ \<Rightarrow> the (entries s i))"
    define t where "t = s\<lparr>entries := (entries s)(i \<mapsto> e1), pc := Claiming d i chosen\<rparr>"
    have e1: "job e1 = job_at s i" "permitId e1 \<noteq> None" "\<And>p. permitId e1 = Some p \<Longrightarrow> fst p = i"
      using permits_own [OF inv(1) i(1)]
      by (auto simp: e1_def job_at_def permit_at_def split: option.splits)
    have k: "known t = known s" "\<And>k. permit_at t k = (if k = i then permitId e1 else permit_at s k)"
      "\<And>k. claims opts t k = claims opts s k" "inflight t = inflight s" "placed t = placed s"
      "livePermits t = livePermits s" "pc t = Claiming d i chosen"
      using i(1) e1(1) by (auto simp: t_def known_def permit_at_def claims_def tenant_at_def job_at_def inflight_def)
    have "inv_permits opts t"
    proof (rule inv_permitsI)
      show "q \<in> livePermits t \<longleftrightarrow> (\<exists>k \<in> inflight t. permit_at t k = Some q)" for q
      proof -
        have "k \<noteq> i" if "k \<in> inflight s" for k using inflight_known [OF life that] i(2) by auto
        then show ?thesis unfolding k permits_live [OF inv(1)] by (intro bex_cong) simp_all
      qed
      show "fst q = k \<and> claims opts t k" if "k \<in> known t" "permit_at t k = Some q" for k q
        using permits_own [OF inv(1), of k q] that True e1(3) by (auto simp: k split: if_splits)
      show "permit_at t k \<noteq> None" if "k \<in> known t" "placed t k \<noteq> None" "claims opts t k" for k
        using permits_placed [OF inv(1), of k] that e1(2) by (simp add: k)
      show "permit_at t k \<noteq> None" if "pc t = Claiming d' k b" for d' k b
        using that e1(2) k by simp
    qed
    then have "inv_permits opts t" .
    moreover have "choose_backend opts uuid s = t"
      using True chosen pc by (simp add: choose_backend_def claims_def Let_def t_def e1_def)
    ultimately show ?thesis by simp
  qed
qed

lemma permits_permit_answer:
  assumes inv: "inv_permits opts s" "inv_base opts s"
  shows "inv_permits opts (permit_answer opts b s)"
proof (cases "pc s")
  case (Claiming d i chosen)
  have life: "inv_life opts s" and i: "i \<in> known s" "placed s i = None"
    using inv(2) by (simp_all add: inv_base_def inv_pc_def Claiming current_ok_def)
  obtain p where p: "permit_at s i = Some p" using permits_claiming [OF inv(1) Claiming] by blast
  have "inv_permits opts (commit opts d i chosen (holdPermit p s))"
  proof (cases "p \<in> livePermits s")
    case True
    then have "i \<in> inflight s"
      using permits_live [OF inv(1), of p] permits_own [OF inv(1)] p inflight_known [OF life] i(1) by metis
    with i(2) show ?thesis by (simp add: inflight_def)
  next
    case False
    then have "holdPermit p s \<noteq> s" by (metis holdPermit_frame(10) insertI1)
    with p show ?thesis by (intro permits_commit [OF inv(1) life i]) auto
  qed
  moreover have "inv_permits opts (s\<lparr>pc := Scanning d\<rparr>)"
    by (rule permits_quiet [OF inv(1)]) (use inv(2) in \<open>simp_all add: inv_base_def\<close>)
  ultimately show ?thesis using Claiming p by (simp add: permit_answer_def permit_at_def)
qed (use inv(1) in \<open>simp_all add: permit_answer_def\<close>)

lemma permits_dispatch:
  assumes inv: "inv_permits opts s" "inv_base opts s"
  shows "inv_permits opts (snd (dispatch_job opts j hs ab now s))"
proof (cases rule: dispatch_cases [of opts j hs ab now s])
  case (refused e b)
  then show ?thesis by (simp, intro permits_quiet [OF inv(1)]) (use inv(2) in \<open>simp_all add: inv_base_def\<close>)
next
  case (queued i b e t)
  have life: "inv_life opts s" using inv(2) by (simp add: inv_base_def)
  have new: "i \<notin> known s" using life queued(2) by (auto simp: inv_life_def)
  have "inv_permits opts (pump_start t)"
  proof (rule permits_frame [OF inv(1) life])
    show "permit_at (pump_start t) k = permit_at s k \<and> job_at (pump_start t) k = job_at s k"
      if "k \<in> known s" for k using that new by (auto simp: permit_at_def job_at_def queued(4))
    show "permit_at (pump_start t) k = None \<and> placed (pump_start t) k = None"
      if "k \<in> known (pump_start t)" "k \<notin> known s" for k
      using that inv_life_unknown(2) [OF life that(2)]
      by (auto simp: permit_at_def known_def queued(3,4,6) split: if_splits)
    show "pc s = Claiming d k c \<and> k \<in> known s" if "pc (pump_start t) = Claiming d k c" for d k c
    proof -
      have "pc s = Claiming d k c"
        using that queued(9) by (auto simp: pump_start_def split: if_splits)
      with inv(2) show ?thesis by (simp add: inv_base_def inv_pc_def current_ok_def)
    qed
  qed (simp_all add: inflight_def queued(6,11))
  with queued(1) show ?thesis by simp
qed

lemma permits_step [invariants]:
  assumes inv: "inv_permits opts s" "inv_base opts s"
  shows "inv_permits opts (sched_step opts e s)"
proof -
  have life: "inv_life opts s" and pc: "inv_pc s" using inv(2) by (simp_all add: inv_base_def)
  note quiet = permits_quiet [OF inv(1) life _ _ _ _ pc]
  have waiting: "i \<in> known s \<and> placed s i = None" if "i \<in> set (waiting s)" for i
    using waiting_known [OF life that] .
  show ?thesis
  proof (cases e)
    case (Dispatch j hs ab now)
    then show ?thesis using permits_dispatch [OF inv] by simp
  next
    case (Abort i)
    have "livePermits s - set_option (permit_at s i) = livePermits s" if "i \<in> set (waiting s)"
      using permits_release_idle [OF inv(1) life] waiting [OF that] by (simp add: inflight_def)
    then show ?thesis
      unfolding Abort by (intro quiet) (auto simp: on_abort_def Let_def permit_at_def)
  next
    case (CancelQueued p)
    then show ?thesis
      using permits_cancel_fold [OF inv] waiting by (simp add: cancelQueued_def Let_def)
  next
    case (CancelEntry i)
    let ?u = "s\<lparr>listening := listening s - {i}\<rparr>"
    have "inv_permits opts ?u" by (rule quiet) simp_all
    moreover have "inv_base opts ?u"
      using life inv_pc_same [OF pc, of ?u] by (simp add: inv_base_def)
    ultimately show ?thesis
      using permits_cancel_one [of opts ?u i] waiting [of i] inv(1) CancelEntry by (simp add: cancelEntry_def)
  next
    case (PromoteEntry i)
    define t where "t = sched_step opts e s"
    have t: "placed t = placed s" "livePermits t = livePermits s"
      "\<And>k. k \<in> known s \<Longrightarrow> permit_at t k = permit_at s k \<and> job_at t k = job_at s k"
      "known t = known s" "\<And>d k b. pc t = Claiming d k b \<Longrightarrow> pc s = pc t"
      by (auto simp: t_def PromoteEntry promoteEntry_def Let_def permit_at_def job_at_def known_def
          pump_start_def split: if_splits)
    have "inv_permits opts t"
    proof (rule permits_frame [OF inv(1) life])
      show "pc s = Claiming d k b \<and> k \<in> known s" if "pc t = Claiming d k b" for d k b
        using t(5) [OF that] that pc by (simp add: inv_pc_def current_ok_def)
    qed (use t in \<open>simp_all add: inflight_def\<close>)
    then show ?thesis by (simp add: t_def)
  next
    case (ChooseBackend uuid)
    then show ?thesis using permits_choose [OF inv] by simp
  next
    case (PermitAnswer b)
    then show ?thesis using permits_permit_answer [OF inv] by simp
  next
    case (FinalizeJob i)
    then show ?thesis using permits_finalize [OF inv] by simp
  next
    case (CompleteJob i r)
    define t where "t = sched_step opts e s"
    have t: "entries t = entries s" "livePermits t = livePermits s" "pc t = pc s"
      "\<And>k. placed t k = None \<longleftrightarrow> placed s k = None" "inflight t = inflight s"
      by (auto simp: t_def CompleteJob complete_job_def Let_def inflight_def split: option.splits sum.splits if_splits)
    have "inv_permits opts t"
    proof (rule permits_frame [OF inv(1) life])
      show "pc s = Claiming d k b \<and> k \<in> known s" if "pc t = Claiming d k b" for d k b
        using that pc t(3) by (simp add: inv_pc_def current_ok_def)
    qed (use t in \<open>simp_all add: permit_at_def job_at_def known_def\<close>)
    then show ?thesis by (simp add: t_def)
  next
    case Poke
    show ?thesis unfolding Poke by (rule quiet) (auto simp: pump_start_def)
  next
    case (ProbedCapacities c)
    show ?thesis unfolding ProbedCapacities
      by (rule quiet) (auto simp: probed_capacities_def split: pump_pc.split)
  next
    case (ProbedFleet f)
    show ?thesis unfolding ProbedFleet
      by (rule quiet) (auto simp: probed_fleet_def split: pump_pc.split)
  next
    case (NextRound now)
    show ?thesis unfolding NextRound
      by (rule quiet) (auto simp: next_round_def split: pump_pc.split)
  next
    case NextEntry
    show ?thesis unfolding NextEntry
      by (rule quiet) (auto simp: next_entry_def Let_def split: pump_pc.split list.split sum.split)
  next
    case (HarnessAnswer c)
    show ?thesis unfolding HarnessAnswer
      by (rule quiet) (auto simp: harness_answer_def case_prod_unfold Let_def split: pump_pc.split list.split)
  qed
qed

lemma permits_reachable [invariants]: "inv_permits opts (sched_run opts evs new_sched)"
proof (induction evs rule: rev_induct)
  case Nil
  show ?case
    by (rule inv_permitsI) (simp_all add: sched_run_def new_sched_def inflight_def known_def)
next
  case (snoc e evs)
  then show ?case
    using permits_step [OF snoc] core_reachable [of opts evs] by (simp add: sched_run_def inv_core_def)
qed

subsection \<open>The reserved runs\<close>

definition runs_of :: "sched \<Rightarrow> string \<Rightarrow> int" where
  "runs_of s t = runs (budget_usage_of t (budget s))"

definition alive :: "sched \<Rightarrow> nat set" where
  "alive s = set (waiting s) \<union> dom (placed s)"

definition standing :: "sched \<Rightarrow> string \<Rightarrow> nat set" where
  "standing s t = {i \<in> alive s. tenant_at s i = t}"

definition pins_ok :: "sched_opts \<Rightarrow> sched \<Rightarrow> bool" where
  "pins_ok opts s \<longleftrightarrow> (\<forall>i \<in> known s. \<not> throws (eligibleNames opts (job_at s i)))"

text \<open>The count never exceeds the standing jobs; with \<open>x\<close>, it is exact.\<close>

definition inv_budget :: "bool \<Rightarrow> sched_opts \<Rightarrow> sched \<Rightarrow> bool" where
  "inv_budget x opts s \<longleftrightarrow> (limitFor opts \<noteq> None \<longrightarrow>
     (\<forall>t. 0 \<le> runs_of s t \<and> runs_of s t \<le> int (card (standing s t))
        \<and> (x \<longrightarrow> runs_of s t = int (card (standing s t)))))"

lemma alive_known: "inv_life opts s \<Longrightarrow> i \<in> alive s \<Longrightarrow> i \<in> known s"
  by (auto simp: alive_def dest: waiting_known inv_life_placedD)

lemma finite_standing: "inv_life opts s \<Longrightarrow> finite (standing s t)"
  by (rule finite_subset [OF _ finite_known]) (auto simp: standing_def alive_known)

lemma runs_release [simp]:
  "limitFor opts = Some lf \<Longrightarrow> runs_of (releaseBudget opts j s) t =
     (if t = tenant_of_job j then max 0 (runs_of s t - 1) else runs_of s t)"
  by (simp add: releaseBudget_def runs_of_def counters)

lemma runs_frame: "budget s' = budget s \<Longrightarrow> runs_of s' t = runs_of s t"
  by (simp add: runs_of_def)

lemma standing_frame:
  assumes "inv_life opts s" "\<And>k. k \<in> known s \<Longrightarrow> job_at s' k = job_at s k" "alive s' = alive s"
  shows "standing s' t = standing s t"
  using assms(2) alive_known [OF assms(1)] by (auto simp: standing_def tenant_at_def assms(3))

lemma budget_frame:
  assumes "inv_budget x opts s" "\<And>t. runs_of s' t = runs_of s t" "\<And>t. standing s' t = standing s t"
  shows "inv_budget x opts s'"
  using assms by (simp add: inv_budget_def)

lemma budget_quiet:
  assumes "inv_budget x opts s" "budget s' = budget s" "entries s' = entries s" "alive s' = alive s"
  shows "inv_budget x opts s'"
  by (rule budget_frame [OF assms(1) runs_frame [OF assms(2)]])
    (simp add: standing_def assms(3,4) tenant_at_def job_at_def)

text \<open>A job that leaves the queue without being placed gives its run back.\<close>

lemma alive_leave:
  assumes "inv_life opts s" "i \<in> set (waiting s)" "placed t = placed s" "waiting t = remove1 i (waiting s)"
  shows "alive t = alive s - {i}"
proof -
  have "distinct (waiting s)" using assms(1) by (simp add: inv_life_def)
  then show ?thesis
    using waiting_known [OF assms(1,2)] by (auto simp: alive_def assms(3,4) set_remove1_eq)
qed

lemma budget_leave:
  assumes inv: "inv_budget x opts s" and life: "inv_life opts s" and i: "i \<in> set (waiting s)"
    and t: "entries t = entries s" "placed t = placed s" "waiting t = remove1 i (waiting s)"
      "budget t = budget (releaseBudget opts (job_at s i) s)"
  shows "inv_budget x opts t"
proof (cases "limitFor opts")
  case (Some lf)
  have "runs_of t u = runs_of (releaseBudget opts (job_at s i) s) u" for u by (rule runs_frame [OF t(4)])
  then have runs: "runs_of t u = (if u = tenant_at s i then max 0 (runs_of s u - 1) else runs_of s u)" for u
    by (simp add: runs_release [OF Some] tenant_at_def)
  have stand: "standing t u = standing s u - {i}" for u
    unfolding standing_def alive_leave [OF life i t(2,3)] by (auto simp: tenant_at_def job_at_def t(1))
  have mem: "i \<in> standing s u \<longleftrightarrow> u = tenant_at s i" for u using i by (auto simp: standing_def alive_def)
  have ok: "0 \<le> runs_of s u \<and> runs_of s u \<le> int (card (standing s u))
      \<and> (x \<longrightarrow> runs_of s u = int (card (standing s u)))" for u
    using inv Some by (simp add: inv_budget_def)
  have "0 \<le> runs_of t u \<and> runs_of t u \<le> int (card (standing t u))
      \<and> (x \<longrightarrow> runs_of t u = int (card (standing t u)))" for u
  proof (cases "u = tenant_at s i")
    case True
    then have "card (standing s u) = Suc (card (standing t u))"
      using card_Suc_Diff1 [OF finite_standing [OF life, of u], of i] mem by (simp add: stand)
    with ok [of u] True show ?thesis by (auto simp: runs)
  next
    case False
    then have "standing t u = standing s u" using mem by (simp add: stand)
    with ok [of u] False show ?thesis by (simp add: runs)
  qed
  then show ?thesis by (simp add: inv_budget_def)
qed (simp add: inv_budget_def)

lemma budget_cancel_one:
  assumes "inv_budget x opts s" "inv_life opts s" "i \<in> set (waiting s)"
  shows "inv_budget x opts (cancel_one opts m i s)"
  by (rule budget_leave [OF assms])
    (simp_all add: ordered_remove cancel_one_def releaseBudget_def split: option.split)

lemma budget_cancel_fold:
  assumes "inv_budget x opts s" "inv_life opts s" "distinct xs" "set xs \<subseteq> set (waiting s)"
  shows "inv_budget x opts (fold (cancel_one opts m) xs s)"
  using assms
proof (induction xs arbitrary: s)
  case (Cons i xs)
  have i: "i \<in> set (waiting s)" using Cons.prems(4) by simp
  have "set xs \<subseteq> set (waiting (cancel_one opts m i s))"
    using Cons.prems by (auto simp: ordered_remove set_remove1_eq inv_life_def)
  then show ?case
    using Cons.IH [OF budget_cancel_one [OF Cons.prems(1,2) i]] Cons.prems(3)
      inv_life_cancel_one [OF Cons.prems(2)] waiting_known [OF Cons.prems(2) i] by simp
qed simp

lemma budget_commit:
  assumes inv: "inv_budget x opts s" and life: "inv_life opts s"
  shows "inv_budget x opts (commit opts d i b s)"
proof (cases "i \<in> set (waiting s)")
  case True
  let ?t = "commit opts d i b s"
  have d: "distinct (waiting s)" using life by (simp add: inv_life_def)
  have "set (waiting ?t) = set (waiting s) - {i}"
    using True d by (simp add: commit_def Let_def ordered_remove set_remove1_eq)
  moreover have "dom (placed ?t) = insert i (dom (placed s))"
    using True by (simp add: commit_def Let_def)
  ultimately have "alive ?t = alive s" using True by (auto simp: alive_def)
  moreover have "budget ?t = budget s" using True by (simp add: commit_def Let_def)
  ultimately show ?thesis by (intro budget_quiet [OF inv]) simp_all
next
  case False
  then show ?thesis by (intro budget_quiet [OF inv]) (simp_all add: commit_def alive_def)
qed

lemma budget_dispatch:
  assumes inv: "inv_budget x opts s" "inv_life opts s"
  shows "inv_budget x opts (snd (dispatch_job opts j hs ab now s))"
proof (cases rule: dispatch_cases [of opts j hs ab now s])
  case (refused e b)
  then show ?thesis
    by (intro budget_frame [OF inv(1)]) (simp_all add: runs_of_def standing_def alive_def tenant_at_def job_at_def)
next
  case (queued i b e t)
  let ?u = "tenant_of_job j"
  have new: "i \<notin> known s" using inv(2) queued(2) by (auto simp: inv_life_def)
  have u: "u \<noteq> i" if "u \<in> alive s" for u using new alive_known [OF inv(2) that] by auto
  have al: "alive t = insert i (alive s)"
    by (auto simp: alive_def queued(6,8) set_mset_mset [symmetric] simp del: set_mset_mset)
  have "int (card (standing t u)) = int (card (standing s u)) + (if u = ?u then 1 else 0)" for u
  proof -
    have "standing t u = (if u = ?u then insert i (standing s u) else standing s u)"
      using u queued(3) by (auto simp: standing_def al tenant_at_def job_at_def queued(4))
    moreover have "i \<notin> standing s u" using u by (auto simp: standing_def)
    ultimately show ?thesis using finite_standing [OF inv(2), of u] by (cases "u = ?u") simp_all
  qed
  moreover have "runs_of t u = runs_of s u + (if u = ?u then 1 else 0)" if "limitFor opts = Some lf" for u lf
  proof -
    have ok: "budget_admit lf ?u (budget s) = (Inr (), b)" using queued(14) that by simp
    then show ?thesis
      using usage_admit [of u lf ?u "budget s"] by (simp add: runs_of_def queued(12))
  qed
  ultimately have "inv_budget x opts t" using inv(1) by (fastforce simp: inv_budget_def)
  then show ?thesis unfolding queued(1) by (simp, elim budget_quiet) (simp_all add: alive_def)
qed


text \<open>The pump rejects a job whose pin names no registered backend; only if the job has already left
  the queue does that release more than it should.\<close>

lemma budget_next_entry:
  assumes inv: "inv_budget x opts s" "inv_base opts s" and pins: "x \<longrightarrow> pins_ok opts s"
  shows "inv_budget x opts (next_entry opts s)"
proof (cases "\<exists>d i rest err. pc s = Scanning d \<and> d_todo d = i # rest \<and> eligibleNames opts (job_at s i) = Inl err
    \<and> (budget (next_entry opts s) \<noteq> budget s \<or> queue (next_entry opts s) \<noteq> queue s)")
  case False
  then have "budget (next_entry opts s) = budget s \<and> alive (next_entry opts s) = alive s"
    by (auto simp: next_entry_def Let_def alive_def split: pump_pc.split list.split sum.split)
  moreover have "entries (next_entry opts s) = entries s"
    by (simp add: next_entry_def Let_def split: pump_pc.split list.split sum.split)
  ultimately show ?thesis by (intro budget_quiet [OF inv(1)]) simp_all
next
  case True
  then obtain d i rest err where at: "pc s = Scanning d" "d_todo d = i # rest"
    "eligibleNames opts (job_at s i) = Inl err"
    "budget (next_entry opts s) \<noteq> budget s \<or> queue (next_entry opts s) \<noteq> queue s" by blast
  have life: "inv_life opts s" and i: "i \<in> known s"
    using inv(2) by (simp_all add: inv_base_def inv_pc_def at scan_ok_def)
  have nx: "\<not> x" using pins i at(3) by (auto simp: pins_ok_def)
  define t where "t = next_entry opts s"
  have t: "entries t = entries s" "placed t = placed s" "waiting t = remove1 i (waiting s)"
    "budget t = budget (releaseBudget opts (job_at s i) s)"
    using at by (auto simp: t_def next_entry_def Let_def ordered_remove releaseBudget_def split: option.split if_splits)
  have "inv_budget x opts t"
  proof (cases "i \<in> set (waiting s)")
    case True
    then show ?thesis by (rule budget_leave [OF inv(1) life _ t])
  next
    case False
    have stand: "standing t u = standing s u" for u
      using False by (simp add: standing_def alive_def t remove1_idem tenant_at_def job_at_def)
    have "runs_of t u = runs_of (releaseBudget opts (job_at s i) s) u" for u by (rule runs_frame [OF t(4)])
    then have "0 \<le> runs_of s u \<Longrightarrow> 0 \<le> runs_of t u \<and> runs_of t u \<le> runs_of s u" if "limitFor opts \<noteq> None" for u
      using that by auto
    then show ?thesis
      using inv(1) nx unfolding inv_budget_def stand by (blast intro: order_trans)
  qed
  then show ?thesis by (simp add: t_def)
qed

lemma budget_step:
  assumes inv: "inv_budget x opts s" "inv_base opts s" and pins: "x \<longrightarrow> pins_ok opts s"
  shows "inv_budget x opts (sched_step opts e s)"
proof -
  have life: "inv_life opts s" and pc: "inv_pc s" using inv(2) by (simp_all add: inv_base_def)
  note quiet = budget_quiet [OF inv(1)]
  show ?thesis
  proof (cases e)
    case (Dispatch j hs ab now)
    then show ?thesis using budget_dispatch [OF inv(1) life] by simp
  next
    case (Abort i)
    show ?thesis
    proof (cases "i \<in> listening s \<and> i \<in> set (waiting s)")
      case True
      then show ?thesis
        unfolding Abort
        by (intro budget_leave [OF inv(1) life, of i])
          (simp_all add: on_abort_def Let_def ordered_remove releaseBudget_def job_at_def split: option.split)
    next
      case False
      then show ?thesis unfolding Abort by (intro quiet) (auto simp: on_abort_def Let_def alive_def)
    qed
  next
    case (CancelQueued p)
    have "distinct (waiting s)" using life by (simp add: inv_life_def)
    then show ?thesis
      using budget_cancel_fold [OF inv(1) life] CancelQueued by (simp add: cancelQueued_def Let_def)
  next
    case (CancelEntry i)
    let ?u = "s\<lparr>listening := listening s - {i}\<rparr>"
    have "inv_budget x opts ?u" by (rule quiet) (simp_all add: alive_def)
    then show ?thesis
      using budget_cancel_one [of x opts ?u i] life quiet CancelEntry by (simp add: cancelEntry_def)
  next
    case (PromoteEntry i)
    define t where "t = sched_step opts e s"
    have t: "budget t = budget s" "alive t = alive s" "\<And>k. k \<in> known s \<Longrightarrow> job_at t k = job_at s k"
      using job_at_step [OF life, of _ e]
      by (auto simp: t_def PromoteEntry promoteEntry_def Let_def alive_def waiting_promote set_mset_mset [symmetric]
          simp del: set_mset_mset)
    have "inv_budget x opts t"
      by (rule budget_frame [OF inv(1) runs_frame standing_frame [OF life]]) (simp_all add: t)
    then show ?thesis by (simp add: t_def)
  next
    case NextEntry
    then show ?thesis using budget_next_entry [OF inv pins] by simp
  next
    case (ChooseBackend uuid)
    define f where "f d i b = commit opts d i b s" for d i b
    have com: "inv_budget x opts (f d i b)" for d i b using budget_commit [OF inv(1) life] by (simp add: f_def)
    have "inv_budget x opts (s\<lparr>pc := p\<rparr>)" for p by (rule quiet) (simp_all add: alive_def)
    moreover have "inv_budget x opts (s\<lparr>entries := (entries s)(i \<mapsto> e1), pc := p\<rparr>)"
      if "job e1 = job_at s i" for i e1 p
      by (rule budget_frame [OF inv(1) runs_frame standing_frame [OF life]])
        (simp_all add: alive_def job_at_def that)
    ultimately show ?thesis
      unfolding ChooseBackend using com inv(1)
      by (auto simp: choose_backend_def Let_def f_def job_at_def split: pump_pc.split list.split option.split)
  next
    case (PermitAnswer b)
    have com: "inv_budget x opts (commit opts d i c (holdPermit p s))" for d i c p
      by (rule budget_commit) (rule quiet, simp_all add: alive_def inv_life_same [OF life] job_at_def)
    moreover have "inv_budget x opts (s\<lparr>pc := p\<rparr>)" for p by (rule quiet) (simp_all add: alive_def)
    ultimately show ?thesis
      unfolding PermitAnswer using inv(1) by (auto simp: permit_answer_def split: pump_pc.split)
  next
    case (FinalizeJob i)
    show ?thesis unfolding FinalizeJob
      by (rule quiet) (auto simp: finalize_job_def Let_def alive_def split: option.split)
  next
    case (CompleteJob i r)
    define t where "t = sched_step opts e s"
    have t: "entries t = entries s" "alive t = alive s"
      by (auto simp: t_def CompleteJob complete_job_def Let_def alive_def split: option.splits sum.splits if_splits)
    have "runs_of t u = runs_of s u" for u
      by (auto simp: t_def CompleteJob complete_job_def Let_def runs_of_def counters
          split: option.split sum.split)
    then have "inv_budget x opts t"
      by (intro budget_frame [OF inv(1) _ standing_frame [OF life]]) (simp_all add: t job_at_def)
    then show ?thesis by (simp add: t_def)
  next
    case Poke
    show ?thesis unfolding Poke by (rule quiet) (simp_all add: alive_def)
  next
    case (ProbedCapacities c)
    show ?thesis unfolding ProbedCapacities
      by (rule quiet) (simp_all add: probed_capacities_def alive_def split: pump_pc.split)
  next
    case (ProbedFleet f)
    show ?thesis unfolding ProbedFleet
      by (rule quiet) (simp_all add: probed_fleet_def alive_def split: pump_pc.split)
  next
    case (NextRound now)
    show ?thesis unfolding NextRound
      by (rule quiet) (simp_all add: next_round_def alive_def split: pump_pc.split)
  next
    case (HarnessAnswer c)
    show ?thesis unfolding HarnessAnswer
      by (rule quiet)
        (simp_all add: harness_answer_def case_prod_unfold Let_def alive_def split: pump_pc.split list.split)
  qed
qed

text \<open>The pins of the jobs handed in decide those of the jobs known.\<close>

fun pin_registered :: "sched_opts \<Rightarrow> sched_event \<Rightarrow> bool" where
  "pin_registered opts (Dispatch j hs ab now) =
     (case eligibleNames opts j of Inl _ \<Rightarrow> False | Inr _ \<Rightarrow> True)"
| "pin_registered opts e = True"

lemma pins_step:
  assumes "inv_base opts s" "pins_ok opts s" "pin_registered opts e"
  shows "pins_ok opts (sched_step opts e s)"
proof (cases "\<exists>j hs ab now. e = Dispatch j hs ab now")
  case True
  then obtain j hs ab now where e: "e = Dispatch j hs ab now" by blast
  show ?thesis
    using assms unfolding e
    by (cases rule: dispatch_cases [of opts j hs ab now s]) (auto simp: pins_ok_def known_def job_at_def split: sum.splits)
next
  case False
  have "i \<in> known s" if "pc s = Asking d i sls acc" for d i sls acc
    using assms(1) that by (simp add: inv_base_def inv_pc_def current_ok_def)
  with False have "known (sched_step opts e s) = known s"
    by (cases e) (auto simp: known_def on_abort_def cancelQueued_def cancelEntry_def promoteEntry_def Let_def
        probed_capacities_def probed_fleet_def next_round_def next_entry_def harness_answer_def
        choose_backend_def permit_answer_def complete_job_def finalize_job_def case_prod_unfold
        split: pump_pc.split list.split sum.split option.split)
  then show ?thesis using assms(2) job_at_step [of opts s] assms(1) by (simp add: pins_ok_def inv_base_def)
qed

lemma budget_reachable:
  "inv_budget False opts (sched_run opts evs new_sched)"
  "list_all (pin_registered opts) evs \<Longrightarrow>
     inv_budget True opts (sched_run opts evs new_sched) \<and> pins_ok opts (sched_run opts evs new_sched)"
proof (induction evs rule: rev_induct)
  case Nil
  show "inv_budget False opts (sched_run opts [] new_sched)"
    by (simp add: inv_budget_def sched_run_def new_sched_def runs_of_def standing_def alive_def)
  show "inv_budget True opts (sched_run opts [] new_sched) \<and> pins_ok opts (sched_run opts [] new_sched)"
    by (simp add: inv_budget_def sched_run_def new_sched_def runs_of_def standing_def alive_def pins_ok_def known_def)
next
  case (snoc e evs)
  let ?s = "sched_run opts evs new_sched"
  have base: "inv_base opts ?s" "inv_life opts ?s"
    using core_reachable [of opts evs] by (simp_all add: inv_core_def inv_base_def)
  have run: "sched_run opts (evs @ [e]) new_sched = sched_step opts e ?s" by (simp add: sched_run_def)
  show "inv_budget False opts (sched_run opts (evs @ [e]) new_sched)"
    unfolding run by (rule budget_step [OF snoc(1) base(1)]) simp
  show "inv_budget True opts (sched_run opts (evs @ [e]) new_sched)
      \<and> pins_ok opts (sched_run opts (evs @ [e]) new_sched)"
    if "list_all (pin_registered opts) (evs @ [e])"
    using that snoc(2) budget_step [of True opts ?s e] base pins_step [of opts ?s e] unfolding run by simp
qed

end
