(* ===== verification/SchedulerProbe.thy ===== *)
theory SchedulerProbe
  imports SchedulerLedger
begin

text \<open>
  What a placement owes the probe. A drain probes its backends once and starts a placement round by folding that probe with
  the reservations this process holds; from there the slots only shrink. The bounds below keep the probed usage and the
  placements of the round apart, and so survive any call, settlement or cancellation in between.
\<close>

subsection \<open>The state in which the round began\<close>

definition round_begins :: "sched_event \<Rightarrow> sched \<Rightarrow> bool" where
  "round_begins e s \<longleftrightarrow>
     (case e of NextRound now \<Rightarrow> (case pc s of Round d \<Rightarrow> True | _ \<Rightarrow> False) | _ \<Rightarrow> False)"

definition with_round :: "sched_opts \<Rightarrow> sched_event \<Rightarrow> sched \<times> sched \<Rightarrow> sched \<times> sched" where
  "with_round opts e st = (sched_step opts e (fst st), if round_begins e (fst st) then fst st else snd st)"

definition round_start :: "sched_opts \<Rightarrow> sched_event list \<Rightarrow> sched" where
  "round_start opts evs = snd (fold (with_round opts) evs (new_sched, new_sched))"

lemma with_round_run: "fst (fold (with_round opts) evs (s, s0)) = sched_run opts evs s"
  by (induction evs arbitrary: s s0) (simp_all add: sched_run_def with_round_def)

lemma round_start_simps [simp]:
  "round_start opts [] = new_sched"
  "round_start opts (evs @ [e]) =
     (if round_begins e (sched_run opts evs new_sched) then sched_run opts evs new_sched else round_start opts evs)"
  using with_round_run [of opts evs new_sched new_sched] by (simp_all add: round_start_def with_round_def)

subsection \<open>What the round placed\<close>

definition placed_since :: "sched \<Rightarrow> sched \<Rightarrow> string \<Rightarrow> nat set" where
  "placed_since s0 s b = {i. placed s0 i = None \<and> (\<exists>p. placed s i = Some p \<and> r_backend (p_res p) = b)}"

definition weight_since :: "(job \<Rightarrow> int) \<Rightarrow> sched \<Rightarrow> sched \<Rightarrow> string \<Rightarrow> int" where
  "weight_since f s0 s b = (\<Sum>i \<in> placed_since s0 s b. f (job_at s i))"

lemma finite_placed_since: "inv_life opts s \<Longrightarrow> finite (placed_since s0 s b)"
  by (rule finite_subset [OF _ finite_known]) (auto simp: placed_since_def dest: inv_life_placedD)

text \<open>Room under a reading: what is left and what the round took stay under what the probe left.\<close>

definition axis_seen :: "int option \<Rightarrow> reading option \<Rightarrow> int \<Rightarrow> bound \<Rightarrow> bool" where
  "axis_seen env observed taken room \<longleftrightarrow>
     (\<forall>B. env = Some B \<longrightarrow> (\<exists>m. room = Finite m
        \<and> (observed = Some Unknown \<longrightarrow> m + taken \<le> 0)
        \<and> (\<forall>n. observed = Some (Observed n) \<longrightarrow> m + taken \<le> max 0 (B - n))))"

definition slot_seen :: "sched \<Rightarrow> sched \<Rightarrow> string \<Rightarrow> capacity \<Rightarrow> slot \<Rightarrow> bool" where
  "slot_seen s0 s b cap sl \<longleftrightarrow>
     (cap_used cap = Unknown \<longrightarrow> free sl + int (card (placed_since s0 s b)) \<le> 0)
     \<and> (\<forall>n. cap_used cap = Observed n \<longrightarrow> free sl + int (card (placed_since s0 s b)) \<le> max 0 (cap_total cap - n))
     \<and> axis_seen (memoryBudgetMb cap) (usedMemoryMb cap) (weight_since jobMemoryMb s0 s b) (memFreeMb sl)
     \<and> axis_seen (cpuBudget cap) (usedCpu cap) (weight_since jobCpu s0 s b) (cpuFree sl)"

definition scan_of :: "sched \<Rightarrow> drain option" where
  "scan_of s = (case pc s of Scanning d \<Rightarrow> Some d | Asking d i sls acc \<Rightarrow> Some d | Claiming d i b \<Rightarrow> Some d | _ \<Rightarrow> None)"

definition inv_seen :: "sched \<Rightarrow> sched \<Rightarrow> bool" where
  "inv_seen s0 s \<longleftrightarrow>
     (\<forall>i. placed s i = None \<longrightarrow> placed s0 i = None)
     \<and> (\<forall>d b sl. scan_of s = Some d \<and> d_slots d b = Some sl \<longrightarrow>
          (\<exists>cap. d_caps d b = Some cap \<and> slot_seen s0 s b cap sl))"

lemma inv_seenD:
  assumes "inv_seen s0 s" "scan_of s = Some d" "d_slots d b = Some sl"
  obtains cap where "d_caps d b = Some cap" "slot_seen s0 s b cap sl"
  using assms unfolding inv_seen_def by blast

text \<open>A round starts with nothing placed and at most what the probe left.\<close>

lemma axis_seen_snapshot:
  "axis_seen env obs 0 (case env of None \<Rightarrow> Unbounded | Some B \<Rightarrow> Finite (max 0 (B - effectiveResource B obs u)))"
  by (auto simp: axis_seen_def effectiveResource_def)

lemma slot_seen_snapshot:
  assumes "freeSlotsFrom caps a b = Some sl" "placed s = placed s0"
  shows "\<exists>cap. caps b = Some cap \<and> slot_seen s0 s b cap sl"
proof -
  have none: "placed_since s0 s b = {}" using assms(2) by (auto simp: placed_since_def)
  obtain cap where "caps b = Some cap" "sl = backendSlotOf b cap \<lparr>use_slots = effectiveUsed cap (countFor a b) Max,
      use_memoryMb = memMbFor a b, use_cpu = cpuFor a b\<rparr>"
    using assms(1) by (auto simp: freeSlotsFrom_def)
  moreover have "cap_used cap = Unknown \<longrightarrow> max 0 (cap_total cap - effectiveUsed cap (countFor a b) Max) \<le> 0"
    "cap_used cap = Observed n \<longrightarrow> max 0 (cap_total cap - effectiveUsed cap (countFor a b) Max) \<le> max 0 (cap_total cap - n)" for cap n
    by (auto simp: effectiveUsed_def)
  ultimately show ?thesis
    by (auto simp: slot_seen_def none weight_since_def backendSlotOf_def axis_seen_snapshot)
qed

subsection \<open>A step of the pump on the slots\<close>

lemma scan_of_simps [simp]:
  "scan_of (s\<lparr>pc := Scanning d\<rparr>) = Some d" "scan_of (s\<lparr>pc := Asking d i sls acc\<rparr>) = Some d"
  "scan_of (s\<lparr>pc := Claiming d i b\<rparr>) = Some d" "scan_of (s\<lparr>pc := Idle\<rparr>) = None" "scan_of (s\<lparr>pc := Probing\<rparr>) = None"
  "scan_of (s\<lparr>pc := ProbingFleet c\<rparr>) = None" "scan_of (s\<lparr>pc := Round d\<rparr>) = None"
  by (simp_all add: scan_of_def)

text \<open>A step that begins no round leaves the slots alone, or it is the commit of a placement.\<close>

definition keeps_slots :: "drain option \<Rightarrow> drain \<Rightarrow> bool" where
  "keeps_slots old d \<longleftrightarrow> (\<exists>d0. old = Some d0 \<and> d_slots d = d_slots d0 \<and> d_caps d = d_caps d0)"

lemma keeps_slots_simps [simp]: "keeps_slots (Some d0) d \<longleftrightarrow> d_slots d = d_slots d0 \<and> d_caps d = d_caps d0"
  by (simp add: keeps_slots_def)

inductive slot_step :: "sched_opts \<Rightarrow> sched \<Rightarrow> sched \<Rightarrow> bool" for opts s where
  still: "(\<forall>d. scan_of t = Some d \<longrightarrow> keeps_slots (scan_of s) d) \<Longrightarrow> (\<forall>i. placed s i = None \<longrightarrow> placed t i = None) \<Longrightarrow>
     slot_step opts s t"
| take: "scan_of s = Some d \<Longrightarrow> admits_at s d i b \<Longrightarrow> i \<in> set (waiting s) \<Longrightarrow> entries u = entries s \<Longrightarrow>
     placed u = placed s \<Longrightarrow> queue u = queue s \<Longrightarrow> slot_step opts s (commit opts d i b u)"

lemma commit_slot_step:
  assumes "scan_of s = Some d" "admits_at s d i b" "entries u = entries s" "placed u = placed s" "queue u = queue s"
  shows "slot_step opts s (commit opts d i b u)"
proof (cases "i \<in> set (waiting s)")
  case True
  show ?thesis by (rule take [OF assms(1,2) True assms(3-5)])
next
  case False
  then have "commit opts d i b u = (releasePermit opts i u)\<lparr>pc := Scanning d\<rparr>" using assms(5) by (simp add: commit_def)
  then show ?thesis using assms(1,4) by (intro still) simp_all
qed

lemma slot_step_outside:
  assumes "\<not> pump_event e"
  shows "slot_step opts s (sched_step opts e s)"
  using pc_outside [OF assms, of opts s] placed_outside [OF assms, of s _ opts]
  by (intro still) (auto simp: scan_of_def split: pump_pc.splits)

lemma still_choose:
  assumes "pc s \<noteq> Asking d i [] acc \<or> acc = [] \<or> policy opts acc (job_at s i) = None" "pc s = Asking d i sls acc"
  shows "slot_step opts s (choose_backend opts u s)"
  using assms by (intro still) (auto simp: choose_backend_def scan_of_def split: list.split)

lemma slot_step_choose:
  assumes "inv_room opts s" "picks_candidate (policy opts)"
  shows "slot_step opts s (choose_backend opts u s)"
proof (cases "pc s")
  case (Asking d i sls acc)
  show ?thesis
  proof (cases "sls = [] \<and> acc \<noteq> [] \<and> policy opts acc (job_at s i) \<noteq> None")
    case True
    then obtain b where pc: "pc s = Asking d i [] acc" "acc \<noteq> []" "policy opts acc (job_at s i) = Some b"
      using Asking by auto
    then have at: "admits_at s d i b" using assms by (auto simp: inv_room_def picks_candidate_def)
    show ?thesis
    proof (cases "is_finite_bound (quota_of opts (tenant_at s i)) \<and> ledger_tryAdmit opts")
      case True
      then show ?thesis using pc by (intro still) (simp_all add: choose_backend_def Let_def scan_of_def)
    next
      case False
      then have "choose_backend opts u s = commit opts d i b s" using pc by (auto simp: choose_backend_def)
      then show ?thesis using at by (simp add: commit_slot_step scan_of_def pc(1))
    qed
  next
    case False
    then show ?thesis using Asking by (intro still_choose [OF _ Asking]) auto
  qed
qed (intro still; simp add: choose_backend_def keeps_slots_def)+

lemma slot_step_pump:
  assumes "pump_event e" "\<not> round_begins e s" "inv_room opts s" "picks_candidate (policy opts)"
  shows "slot_step opts s (sched_step opts e s)"
proof (cases e)
  case (ProbedCapacities c)
  then show ?thesis by (intro still) (auto simp: probed_capacities_def scan_of_def split: pump_pc.splits)
next
  case (ProbedFleet f)
  then show ?thesis by (intro still) (auto simp: probed_fleet_def scan_of_def split: pump_pc.splits)
next
  case (NextRound now)
  then have "sched_step opts e s = s"
    using assms(2) by (auto simp: next_round_def round_begins_def split: pump_pc.splits)
  then show ?thesis by (intro still) (auto simp: keeps_slots_def)
next
  case NextEntry
  then show ?thesis
    by (intro still)
      (auto simp: next_entry_def Let_def scan_of_def split: pump_pc.splits list.splits sum.splits if_splits)
next
  case (HarnessAnswer c)
  then show ?thesis
    by (intro still)
      (auto simp: harness_answer_def case_prod_unfold Let_def scan_of_def split: pump_pc.splits list.splits if_splits)
next
  case (ChooseBackend u)
  then show ?thesis using slot_step_choose [OF assms(3,4)] by simp
next
  case (PermitAnswer a)
  show ?thesis
  proof (cases "pc s")
    case (Claiming d k b)
    then have at: "admits_at s d k b" using assms(3) by (auto simp: inv_room_def)
    show ?thesis
    proof (cases a)
      case True
      then have "sched_step opts e s = commit opts d k b (holdPermit (the (permitId (the (entries s k)))) s)"
        using PermitAnswer Claiming by (simp add: permit_answer_def)
      then show ?thesis using at by (simp add: commit_slot_step scan_of_def Claiming)
    next
      case False
      then show ?thesis
        using PermitAnswer Claiming by (intro still) (simp_all add: permit_answer_def scan_of_def)
    qed
  qed (use PermitAnswer in \<open>(intro still; simp add: permit_answer_def keeps_slots_def)+\<close>)
qed (use assms(1) in simp_all)

lemma slot_step_step:
  assumes "\<not> round_begins e s" "inv_room opts s" "picks_candidate (policy opts)"
  shows "slot_step opts s (sched_step opts e s)"
  using slot_step_pump [OF _ assms] slot_step_outside by blast

subsection \<open>Every step keeps the bounds\<close>

lemma placed_step:
  assumes inv: "inv_life opts s" and p: "placed s i = Some p"
  shows "\<exists>q. placed (sched_step opts e s) i = Some q \<and> p_res q = p_res p \<and> p_opts q = p_opts p"
  using effect_step [of s opts e]
proof cases
  case (placing k r b)
  then have "k \<noteq> i" using waiting_known [OF inv placing(1)] p by auto
  then show ?thesis using p by (simp add: placing(4))
next
  case (completing k q)
  then show ?thesis using p by (cases "k = i") auto
next
  case (finishing k q)
  then show ?thesis using p by (cases "k = i") auto
qed (use p in simp)

lemma since_known: "inv_life opts s \<Longrightarrow> i \<in> placed_since s0 s b \<Longrightarrow> i \<in> known s"
  by (auto simp: placed_since_def dest: inv_life_placedD)

lemma since_still:
  assumes life: "inv_life opts s" and none: "\<forall>i. placed s i = None \<longrightarrow> placed (sched_step opts e s) i = None"
  shows "placed_since s0 (sched_step opts e s) b = placed_since s0 s b"
    "weight_since f s0 (sched_step opts e s) b = weight_since f s0 s b"
proof -
  have "(\<exists>p. placed (sched_step opts e s) i = Some p \<and> r_backend (p_res p) = b) \<longleftrightarrow> (\<exists>p. placed s i = Some p \<and> r_backend (p_res p) = b)" for i
    using none placed_step [OF life, of i _ e] by (cases "placed s i") fastforce+
  then show "placed_since s0 (sched_step opts e s) b = placed_since s0 s b" by (simp add: placed_since_def)
  then show "weight_since f s0 (sched_step opts e s) b = weight_since f s0 s b"
    using job_at_step [OF life since_known [OF life]] by (simp add: weight_since_def cong: sum.cong)
qed

lemma seen_still:
  assumes "inv_seen s0 s" "inv_life opts s"
    and slots: "\<forall>d. scan_of (sched_step opts e s) = Some d \<longrightarrow> keeps_slots (scan_of s) d"
    and none: "\<forall>i. placed s i = None \<longrightarrow> placed (sched_step opts e s) i = None"
  shows "inv_seen s0 (sched_step opts e s)"
proof -
  have none': "placed s0 i = None" if "placed (sched_step opts e s) i = None" for i
    using that assms(1) placed_step [OF assms(2), of i _ e] by (cases "placed s i") (auto simp: inv_seen_def)
  have "\<exists>cap. d_caps d b = Some cap \<and> slot_seen s0 (sched_step opts e s) b cap sl"
    if "scan_of (sched_step opts e s) = Some d" "d_slots d b = Some sl" for d b sl
    using that slots assms(1) unfolding slot_seen_def since_still [OF assms(2) none]
    by (auto simp: inv_seen_def keeps_slots_def slot_seen_def)
  with none' show ?thesis by (auto simp: inv_seen_def)
qed

lemma axis_seen_take:
  "axis_seen lm obs taken room \<Longrightarrow> axis_seen lm obs (taken + need) (bound_minus room need)"
  by (fastforce simp: axis_seen_def)

lemma since_take:
  fixes opts d b
  assumes life: "inv_life opts s" and i: "i \<in> set (waiting s)" and before: "placed s0 i = None"
    and u: "entries u = entries s" "placed u = placed s" "queue u = queue s"
  defines "t \<equiv> commit opts d i b u"
  shows "placed_since s0 t k = (if k = b then insert i (placed_since s0 s k) else placed_since s0 s k)"
    "i \<notin> placed_since s0 s k"
    "weight_since f s0 t k = weight_since f s0 s k + (if k = b then f (job_at s i) else 0)"
proof -
  have none: "placed s i = None" using waiting_known [OF life i] by simp
  have t: "placed t = (placed s)(i \<mapsto> \<lparr>p_res = reservation_for b (job_at s i), p_opts = dispatch_opts (entry_hooks (the (entries s i))), p_phase = Running\<rparr>)"
    using i by (simp add: t_def commit_def Let_def u job_at_def)
  have job: "job_at t j = job_at s j" for j by (simp add: t_def job_at_def u)
  show since: "placed_since s0 t k = (if k = b then insert i (placed_since s0 s k) else placed_since s0 s k)"
    using before none by (auto simp: placed_since_def t reservation_for_def)
  show out: "i \<notin> placed_since s0 s k" using none by (simp add: placed_since_def)
  have "(\<Sum>j \<in> insert i (placed_since s0 s k). f (job_at s j)) = weight_since f s0 s k + f (job_at s i)"
    using finite_placed_since [OF life] out by (simp add: weight_since_def)
  then show "weight_since f s0 t k = weight_since f s0 s k + (if k = b then f (job_at s i) else 0)"
    unfolding weight_since_def [of f s0 t k] since job
    by (cases "k = b") (simp_all only: if_True if_False weight_since_def add_0_right simp_thms)
qed

lemma seen_take:
  assumes seen: "inv_seen s0 s" and life: "inv_life opts s" and scan: "scan_of s = Some d"
    and i: "i \<in> set (waiting s)"
    and u: "entries u = entries s" "placed u = placed s" "queue u = queue s"
  shows "inv_seen s0 (commit opts d i b u)"
proof -
  let ?t = "commit opts d i b u"
  let ?d = "d\<lparr>d_slots := take_from_slot b (jobMemoryMb (job_at s i)) (jobCpu (job_at s i)) (d_slots d), d_placedAny := True\<rparr>"
  have before: "placed s0 i = None" using seen waiting_known [OF life i] by (simp add: inv_seen_def)
  note since = since_take(1,3) [OF life i before u, where d = d and b = b]
    and fresh = since_take(2) [OF life i before u]
  have scan': "scan_of ?t = Some ?d" using i by (simp add: commit_def Let_def u job_at_def)
  have none: "placed s0 k = None" if "placed ?t k = None" for k
    using that i seen by (auto simp: commit_def Let_def u inv_seen_def split: if_splits)
  have "\<exists>cap. d_caps ?d k = Some cap \<and> slot_seen s0 ?t k cap sl" if sl: "d_slots ?d k = Some sl" for k sl
  proof (cases "k = b \<and> d_slots d b \<noteq> None")
    case True
    then obtain sl0 where sl0: "d_slots d b = Some sl0" by blast
    then obtain cap where "d_caps d b = Some cap" "slot_seen s0 s b cap sl0" by (rule inv_seenD [OF seen scan])
    moreover have "card (insert i (placed_since s0 s b)) = Suc (card (placed_since s0 s b))"
      using finite_placed_since [OF life] fresh by simp
    ultimately show ?thesis
      using sl sl0 True axis_seen_take by (auto simp: take_from_slot_def slot_seen_def since)
  next
    case False
    then have "d_slots d k = Some sl" "k \<noteq> b" using sl by (auto simp: take_from_slot_def split: option.splits if_splits)
    then show ?thesis using inv_seenD [OF seen scan, of k sl] by (force simp: slot_seen_def since)
  qed
  with scan' none show ?thesis by (auto simp: inv_seen_def)
qed

lemma seen_step:
  assumes core: "inv_core opts s" and room: "inv_room opts s" and picks: "picks_candidate (policy opts)" and seen: "inv_seen s0 s"
  shows "inv_seen (if round_begins e s then s else s0) (sched_step opts e s)"
proof (cases "round_begins e s")
  case True
  then obtain now d where e: "e = NextRound now" "pc s = Round d"
    by (cases e; cases "pc s") (simp_all add: round_begins_def)
  have same: "placed (sched_step opts e s) = placed s" by (simp add: e next_round_def)
  have "\<exists>cap. d_caps d' b = Some cap \<and> slot_seen s (sched_step opts e s) b cap sl"
    if at: "scan_of (sched_step opts e s) = Some d'" "d_slots d' b = Some sl" for d' b sl
  proof -
    have "d_caps d' = d_caps d \<and> d_slots d' = freeSlotsFrom (d_caps d) (adm s)"
      using at(1) by (cases "d_placedAny d \<and> 0 < fq_size (queue s)") (auto simp: e next_round_def)
    then have "d_caps d' = d_caps d" "freeSlotsFrom (d_caps d') (adm s) b = Some sl" using at(2) by simp_all
    then show ?thesis by (intro slot_seen_snapshot [OF _ same])
  qed
  then have "inv_seen s (sched_step opts e s)"
    unfolding inv_seen_def same by (intro conjI allI impI) (assumption, elim conjE)
  with True show ?thesis by simp
next
  case False
  have life: "inv_life opts s" using core by (simp add: inv_core_def inv_base_def)
  have "inv_seen s0 (sched_step opts e s)"
    using slot_step_step [OF False room picks]
  proof cases
    case still
    then show ?thesis by (rule seen_still [OF seen life])
  next
    case (take d i b u)
    show ?thesis unfolding take(1) by (rule seen_take [OF seen life take(2,4-7)])
  qed
  with False show ?thesis by simp
qed

lemma seen_reachable:
  assumes "picks_candidate (policy opts)"
  shows "inv_seen (round_start opts evs) (sched_run opts evs new_sched)"
proof (induction evs rule: rev_induct)
  case Nil
  show ?case by (simp add: inv_seen_def scan_of_def sched_run_def new_sched_def)
next
  case (snoc e evs)
  have "sched_run opts (evs @ [e]) new_sched = sched_step opts e (sched_run opts evs new_sched)" by (simp add: sched_run_def)
  then show ?case using seen_step [OF core_reachable room_reachable [OF assms] assms snoc, of e] by simp
qed

subsection \<open>What a commit leaves of the probe\<close>

text \<open>The probed usage of a backend and what the round has placed on it, under its total and under its budgets.\<close>

definition within_probe :: "sched \<Rightarrow> sched \<Rightarrow> string \<Rightarrow> capacity \<Rightarrow> job \<Rightarrow> bool" where
  "within_probe s0 t b cap j \<longleftrightarrow>
     (\<exists>n. cap_used cap = Observed n \<and> n + int (card (placed_since s0 t b)) \<le> cap_total cap)
     \<and> (\<forall>B. memoryBudgetMb cap = Some B \<and> 0 < jobMemoryMb j \<longrightarrow> usedMemoryMb cap \<noteq> Some Unknown
          \<and> (\<forall>n. usedMemoryMb cap = Some (Observed n) \<longrightarrow> n + weight_since jobMemoryMb s0 t b \<le> B))
     \<and> (\<forall>B. cpuBudget cap = Some B \<and> 0 < jobCpu j \<longrightarrow> usedCpu cap \<noteq> Some Unknown
          \<and> (\<forall>n. usedCpu cap = Some (Observed n) \<longrightarrow> n + weight_since jobCpu s0 t b \<le> B))"

lemma weight_since_nonneg: "(\<And>j. 0 \<le> f j) \<Longrightarrow> 0 \<le> weight_since f s0 s b"
  by (simp add: weight_since_def sum_nonneg)

lemma axis_within:
  assumes "axis_seen (Some B) obs taken room" "le_bound need room" "0 < need" "0 \<le> taken"
  shows "obs \<noteq> Some Unknown \<and> (\<forall>n. obs = Some (Observed n) \<longrightarrow> n + (taken + need) \<le> B)"
  using assms by (fastforce simp: axis_seen_def)

lemma commit_within_probe:
  assumes seen: "inv_seen s0 s" and life: "inv_life opts s" and scan: "scan_of s = Some d" and at: "admits_at s d i b"
    and i: "i \<in> set (waiting s)" and u: "entries u = entries s" "placed u = placed s" "queue u = queue s"
    and cap: "d_caps d b = Some cap"
  shows "within_probe s0 (commit opts d i b u) b cap (job_at s i)"
proof -
  obtain sl where sl: "d_slots d b = Some sl" "slotAdmits sl (jobMemoryMb (job_at s i)) (jobCpu (job_at s i))"
    using at by (auto simp: admits_at_def)
  then have seen_sl: "slot_seen s0 s b cap sl" using inv_seenD [OF seen scan] cap by fastforce
  have before: "placed s0 i = None" using seen waiting_known [OF life i] by (simp add: inv_seen_def)
  note since = since_take(1,3) [OF life i before u, where d = d and b = b]
    and fresh = since_take(2) [OF life i before u]
  have card: "card (insert i (placed_since s0 s b)) = Suc (card (placed_since s0 s b))"
    using finite_placed_since [OF life] fresh by simp
  have free: "0 < free sl" "le_bound (jobMemoryMb (job_at s i)) (memFreeMb sl)" "le_bound (jobCpu (job_at s i)) (cpuFree sl)"
    using sl(2) by (simp_all add: slotAdmits_def)
  have axes: "axis_seen (memoryBudgetMb cap) (usedMemoryMb cap) (weight_since jobMemoryMb s0 s b) (memFreeMb sl)"
    "axis_seen (cpuBudget cap) (usedCpu cap) (weight_since jobCpu s0 s b) (cpuFree sl)"
    using seen_sl by (simp_all add: slot_seen_def)
  have "\<exists>n. cap_used cap = Observed n \<and> n + int (card (insert i (placed_since s0 s b))) \<le> cap_total cap"
    using seen_sl free(1) by (cases "cap_used cap") (auto simp: slot_seen_def card)
  moreover have "usedMemoryMb cap \<noteq> Some Unknown \<and> (\<forall>n. usedMemoryMb cap = Some (Observed n) \<longrightarrow>
      n + (weight_since jobMemoryMb s0 s b + jobMemoryMb (job_at s i)) \<le> B)"
    if "memoryBudgetMb cap = Some B" "0 < jobMemoryMb (job_at s i)" for B
    using axis_within [OF axes(1) [unfolded that(1)] free(2) that(2)] weight_since_nonneg [of jobMemoryMb s0 s b] by simp
  moreover have "usedCpu cap \<noteq> Some Unknown \<and> (\<forall>n. usedCpu cap = Some (Observed n) \<longrightarrow>
      n + (weight_since jobCpu s0 s b + jobCpu (job_at s i)) \<le> B)"
    if "cpuBudget cap = Some B" "0 < jobCpu (job_at s i)" for B
    using axis_within [OF axes(2) [unfolded that(1)] free(3) that(2)] weight_since_nonneg [of jobCpu s0 s b] by simp
  ultimately show ?thesis unfolding within_probe_def since by simp
qed

lemma placing_scans:
  assumes "inv_core opts s" "inv_room opts s" "picks_candidate (policy opts)" "placed s i = None" "placed (sched_step opts e s) i = Some p"
  shows "scan_of s \<noteq> None"
proof -
  have "\<not> round_begins e s"
    using assms(4,5) by (cases e; cases "pc s") (auto simp: round_begins_def next_round_def split: if_splits)
  from slot_step_step [OF this assms(2,3)] show ?thesis
  proof cases
    case still
    then show ?thesis using assms(4,5) by auto
  next
    case (take d k b u)
    then show ?thesis by simp
  qed
qed

end
