(* ===== verification/SchedulerTheorems.thy ===== *)
theory SchedulerTheorems
  imports SchedulerProbe
begin

text \<open>
  What the scheduler guarantees after any interleaving of calls, pump steps and backend answers:
  the theorems over the invariants of the other scheduler theories, a concrete run that instantiates
  their hypotheses, and the one place where the budget accounting can be driven off.
\<close>

subsection \<open>A concrete configuration\<close>

definition demo_job :: "string option \<Rightarrow> job" where
  "demo_job pin = \<lparr>job_tenant = Some ''acme'', harness_id = ''h'', harness_version = ''1'', case_id = ''c'',
     placement_target = pin, job_priority = None, res_memoryMb = Some 100, res_cpu = None,
     job_runId = None, job_batchId = None, job_tags = None\<rparr>"

definition demo_hooks :: hooks where
  "demo_hooks = \<lparr>h_signal = None, h_onStarted = None, h_onWaiting = None, h_onAttempt = None,
     h_authority = None, h_acknowledgeResult = None\<rparr>"

definition demo_opts :: sched_opts where
  "demo_opts = \<lparr>policy = (\<lambda>cs j. leastLoaded (\<lambda>a b. 0) cs), maxQueueDepth = Some 10, eligible = None,
     weights = None, tenantQuota = Some (\<lambda>t. Finite 2), tenantMaxQueueDepth = None, agingMs = None,
     limitFor = Some (\<lambda>t. Some \<lparr>lim_usd = None, lim_tokens = None, lim_runs = Some 3\<rparr>),
     has_ledger = True, ledger_tryAdmit = True, registry_names = [''a''],
     caseCapacityAware = (\<lambda>b. False)\<rparr>"

definition demo_caps :: "string \<rightharpoonup> capacity" where
  "demo_caps = [''a'' \<mapsto> \<lparr>cap_total = 4, cap_used = Observed 0, usedMemoryMb = None, usedCpu = None,
     memoryBudgetMb = Some 1000, cpuBudget = None\<rparr>]"

definition demo_placing :: "sched_event list" where
  "demo_placing = [Dispatch (demo_job None) demo_hooks False 0, ProbedCapacities demo_caps,
     ProbedFleet Map.empty, NextRound 5, NextEntry, HarnessAnswer None, ChooseBackend ''u1'', PermitAnswer True]"

lemma demo_policy: "picks_candidate (policy demo_opts)"
  unfolding demo_opts_def by (simp add: picks_leastLoaded)

subsection \<open>The life of a job\<close>

definition running :: "sched \<Rightarrow> nat set" where
  "running s = {i. \<exists>p. placed s i = Some p \<and> p_phase p = Running}"

lemma inv_lifeD:
  assumes "inv_life opts s"
  shows "known s = {1..entrySeq s}" "distinct (waiting s)"
    "\<forall>i \<in> set (waiting s). i \<in> known s \<and> promises s i = None \<and> placed s i = None"
    "\<forall>i q. placed s i = Some q \<longrightarrow> i \<in> known s \<and> (p_phase q = Running \<longleftrightarrow> promises s i = None)
       \<and> p_res q = reservation_for (r_backend (p_res q)) (job_at s i)"
    "\<forall>i. promises s i \<noteq> None \<longrightarrow> i \<in> known s"
    "\<forall>i \<in> known s. i \<in> set (waiting s) \<or> placed s i \<noteq> None \<or> promises s i \<noteq> None"
  using assms unfolding inv_life_def by - (elim conjE, assumption)+

text \<open>C1. No dispatched job is ever lost or in two places: after any interleaving, the handles given
  out are exactly those of the jobs waiting in the queue, running on a backend, or settled, and these
  three sets are disjoint; the queue holds no job twice.\<close>

theorem no_job_lost:
  "let s = sched_run opts evs new_sched
   in {1..entrySeq s} = set (waiting s) \<union> running s \<union> dom (promises s)
    \<and> set (waiting s) \<inter> running s = {} \<and> set (waiting s) \<inter> dom (promises s) = {}
    \<and> running s \<inter> dom (promises s) = {} \<and> distinct (waiting s)"
proof -
  let ?s = "sched_run opts evs new_sched"
  have inv: "inv_life opts ?s"
    using core_reachable [of opts evs] by (simp add: inv_core_def inv_base_def)
  note known = inv_lifeD(1) [OF inv] and dist = inv_lifeD(2) [OF inv] and w = inv_lifeD(3) [OF inv]
    and p = inv_lifeD(4) [OF inv] and q = inv_lifeD(5) [OF inv] and all = inv_lifeD(6) [OF inv]
  have 1: "i \<in> known ?s \<and> i \<notin> running ?s \<and> i \<notin> dom (promises ?s)" if "i \<in> set (waiting ?s)" for i
    using bspec [OF w that] by (simp add: running_def domIff)
  have 2: "i \<in> known ?s \<and> i \<notin> dom (promises ?s)" if "i \<in> running ?s" for i
    using that p by (auto simp: running_def domIff)
  have 3: "i \<in> known ?s" if "i \<in> dom (promises ?s)" for i using that q by blast
  have 4: "i \<in> set (waiting ?s) \<or> i \<in> running ?s \<or> i \<in> dom (promises ?s)" if "i \<in> known ?s" for i
    using bspec [OF all that] p [rule_format, of i] by (auto simp: running_def domIff)
  show ?thesis
    unfolding Let_def known [symmetric] using 1 2 3 4 dist by (simp add: set_eq_iff) blast
qed

text \<open>A promise settles once, and a job is handed to a backend once.\<close>

lemma promises_cancel: "promises s i = Some r \<Longrightarrow> promises (cancel_one opts m k s) i = Some r"
  by (cases "k = i") auto

lemma promises_step:
  assumes "promises s i = Some r"
  shows "promises (sched_step opts e s) i = Some r"
proof -
  have fold: "promises (fold (cancel_one opts m) xs s) i = Some r" for m xs
    using assms by (induction xs arbitrary: s) (simp_all del: cancel_one_frame add: promises_cancel)
  show ?thesis
  proof (cases e)
    case (Dispatch j hs ab now)
    then show ?thesis using assms by (cases rule: dispatch_cases [of opts j hs ab now s]) simp_all
  next
    case (CancelQueued p)
    then show ?thesis using fold by (simp add: cancelQueued_def Let_def)
  next
    case (ChooseBackend uuid)
    then show ?thesis
      using assms by (simp add: choose_backend_def commit_def Let_def split: pump_pc.split list.split option.split)
  qed (use assms in \<open>auto simp: on_abort_def cancelEntry_def promoteEntry_def probed_capacities_def
      probed_fleet_def next_round_def next_entry_def harness_answer_def permit_answer_def commit_def
      complete_job_def finalize_job_def case_prod_unfold Let_def
      split: pump_pc.split list.split sum.split option.split\<close>)
qed

text \<open>What happened to a job stays: in every continuation of a run, a settled promise keeps its
  first outcome, and a job once handed to a backend is never handed to another, nor a second time.\<close>

theorem settled_and_placed_once:
  assumes "promises (sched_run opts evs new_sched) i = r" "r \<noteq> None"
    and "map_option p_res (placed (sched_run opts evs new_sched) k) = b" "b \<noteq> None"
  shows "promises (sched_run opts (evs @ later) new_sched) i = r
    \<and> map_option p_res (placed (sched_run opts (evs @ later) new_sched) k) = b"
proof (induction later rule: rev_induct)
  case Nil
  show ?case using assms by simp
next
  case (snoc e later)
  let ?s = "sched_run opts (evs @ later) new_sched"
  have run: "sched_run opts (evs @ later @ [e]) new_sched = sched_step opts e ?s" by (simp add: sched_run_def)
  have life: "inv_life opts ?s"
    using core_reachable [of opts "evs @ later"] by (simp add: inv_core_def inv_base_def)
  obtain r' where r': "r = Some r'" using assms(2) by blast
  obtain p where p: "placed ?s k = Some p" "b = Some (p_res p)" using snoc assms(4) by auto
  show ?case
    unfolding run using promises_step [of ?s i r' opts e] placed_step [OF life p(1), of e] snoc r' p(2) by auto
qed

lemma settled_and_placed_once_witness:
  "map_option p_res (placed (sched_run demo_opts ((demo_placing @ [CompleteJob 1 (Inr (2, 7))]) @
      [FinalizeJob 1, Poke]) new_sched) 1) = Some (reservation_for ''a'' (demo_job None))
   \<and> promises (sched_run demo_opts ((demo_placing @ [CompleteJob 1 (Inr (2, 7))]) @
      [FinalizeJob 1, Poke]) new_sched) 1 = Some (Resolved 2 7)"
proof -
  let ?evs = "demo_placing @ [CompleteJob 1 (Inr (2, 7))]"
  have "promises (sched_run demo_opts ?evs new_sched) 1 = Some (Resolved 2 7)" by code_simp
  moreover have "map_option p_res (placed (sched_run demo_opts ?evs new_sched) 1)
      = Some (reservation_for ''a'' (demo_job None))" by code_simp
  ultimately show ?thesis
    using settled_and_placed_once [of demo_opts ?evs 1 "Some (Resolved 2 7)" 1
        "Some (reservation_for ''a'' (demo_job None))" "[FinalizeJob 1, Poke]"] by blast
qed

subsection \<open>What is in flight\<close>

lemma size_held_filter:
  "size (filter_mset P (held s)) = card {i \<in> inflight s. P (p_res (the (placed s i)))}"
  if "finite (inflight s)"
  using that by (simp add: held_def filter_mset_image_mset filter_mset_mset_set)

lemma core_reachableD:
  fixes opts evs
  defines "s \<equiv> sched_run opts evs new_sched"
  shows "inv_life opts s" "inv_pc s" "holds (adm s) (held s)" "finite (inflight s)" "inv_core opts s"
  using core_reachable [of opts evs] finite_inflight [of opts s]
  by (simp_all add: inv_core_def inv_base_def inv_adm_def s_def)

lemma sum_held_filter:
  "(\<Sum>r \<in># filter_mset P (held s). f r) = (\<Sum>i \<in> {i \<in> inflight s. P (p_res (the (placed s i)))}. f (p_res (the (placed s i))))"
  if "finite (inflight s)"
  using that by (simp add: held_def filter_mset_image_mset filter_mset_mset_set sum_unfold_sum_mset image_mset.compositionality comp_def)

definition backend_at :: "sched \<Rightarrow> nat \<Rightarrow> string" where
  "backend_at s i = r_backend (p_res (the (placed s i)))"

lemma reservation_at:
  assumes "inv_life opts s" "i \<in> inflight s"
  shows "p_res (the (placed s i)) = reservation_for (backend_at s i) (job_at s i)"
proof -
  obtain q where q: "placed s i = Some q" using assms(2) by (auto simp: inflight_def)
  then show ?thesis using inv_lifeD(4) [OF assms(1)] by (simp add: backend_at_def)
qed

text \<open>C19. The in-flight counters of the admission gate are exact after any interleaving: for a backend the count is the number
  of jobs placed on it and not yet finalized, and its memory and cpu are the sums of what those jobs ask for; for a tenant the
  count is the number of its jobs in flight, and for a harness key the number of jobs in flight under that key; none leaks or
  drifts.\<close>

theorem inflight_counters_exact:
  "let s = sched_run opts evs new_sched; on_b = {i \<in> inflight s. backend_at s i = b}
   in countFor (adm s) b = int (card on_b)
    \<and> memMbFor (adm s) b = (\<Sum>i \<in> on_b. jobMemoryMb (job_at s i))
    \<and> cpuFor (adm s) b = (\<Sum>i \<in> on_b. jobCpu (job_at s i))
    \<and> tenantCountFor (adm s) t = int (card {i \<in> inflight s. tenant_at s i = t})
    \<and> harnessCountFor (adm s) b h
        = int (card {i \<in> inflight s. harness_slot (backend_at s i) (harnessKeyOf (job_at s i)) = harness_slot b h})"
proof -
  let ?s = "sched_run opts evs new_sched"
  note res = reservation_at [OF core_reachableD(1), of _ opts evs]
  note fin = core_reachableD(4) [of opts evs]
  have fields: "r_backend (p_res (the (placed ?s i))) = backend_at ?s i" "r_tenant (p_res (the (placed ?s i))) = tenant_at ?s i"
      "max 0 (r_mem (p_res (the (placed ?s i)))) = jobMemoryMb (job_at ?s i)"
      "max 0 (r_cpu (p_res (the (placed ?s i)))) = jobCpu (job_at ?s i)"
      "r_harness (p_res (the (placed ?s i))) = harnessKeyOf (job_at ?s i)" if "i \<in> inflight ?s" for i
    unfolding res [OF that] by (simp_all add: reservation_for_def tenant_at_def)
  then have sets: "{i \<in> inflight ?s. r_backend (p_res (the (placed ?s i))) = b} = {i \<in> inflight ?s. backend_at ?s i = b}"
      "{i \<in> inflight ?s. r_tenant (p_res (the (placed ?s i))) = t} = {i \<in> inflight ?s. tenant_at ?s i = t}"
      "{i \<in> inflight ?s. harness_slot (r_backend (p_res (the (placed ?s i)))) (r_harness (p_res (the (placed ?s i)))) = harness_slot b h}
        = {i \<in> inflight ?s. harness_slot (backend_at ?s i) (harnessKeyOf (job_at ?s i)) = harness_slot b h}"
    by auto
  show ?thesis
    unfolding Let_def holds_counts [OF core_reachableD(3)] size_held_filter [OF fin] sum_held_filter [OF fin] sets
    using fields by (intro conjI refl sum.cong) auto
qed

text \<open>C3. A placement stays within what the drain observed and what this process holds. At the step that hands a job to a backend,
  that backend was probed in this drain and the probe could count it; the slots the probe found in use and the placements of
  the current round on it, the new job included, stay within its total, and so do all the jobs this process has in flight
  there. When the job asks for memory or cpu and the backend has a budget for it, an unreadable probe refuses it, and the probed
  usage with the round's placements, as well as everything this process holds there, stays within the budget. The tenant stays within its
  quota. All this whatever was cancelled, finished or dispatched during the drain.\<close>

theorem placement_within_capacity:
  assumes "picks_candidate (policy opts)"
    and "placed (sched_run opts evs new_sched) i = None"
    and "placed (sched_run opts (evs @ [e]) new_sched) i = Some p"
  shows "let s = sched_run opts evs new_sched; t = sched_run opts (evs @ [e]) new_sched; a = adm t;
             b = r_backend (p_res p); j = job_at s i
         in \<exists>d cap. drain_of s = Some d \<and> d_caps d b = Some cap
           \<and> within_probe (round_start opts evs) t b cap j
           \<and> countFor a b \<le> cap_total cap
           \<and> (\<forall>B. memoryBudgetMb cap = Some B \<and> 0 < jobMemoryMb j \<longrightarrow> memMbFor a b \<le> B)
           \<and> (\<forall>B. cpuBudget cap = Some B \<and> 0 < jobCpu j \<longrightarrow> cpuFor a b \<le> B)
           \<and> le_bound (tenantCountFor a (tenant_at s i)) (quota_of opts (tenant_at s i))"
proof -
  let ?s = "sched_run opts evs new_sched"
  have run: "sched_run opts (evs @ [e]) new_sched = sched_step opts e ?s" by (simp add: sched_run_def)
  note new = assms(2) assms(3) [unfolded run] and life = core_reachableD(1) [of opts evs]
  obtain d b u where at: "drain_of ?s = Some d" "room_ok ?s d" "quota_ok opts ?s i" "admits_at ?s d i b"
      "i \<in> set (waiting ?s)" "entries u = entries ?s" "adm u = adm ?s" "placed u = placed ?s" "queue u = queue ?s"
      "sched_step opts e ?s = commit opts d i b u"
    by (rule placed_by_commit [OF core_reachableD(5) room_reachable [OF assms(1)] assms(1) new])
  have j: "job_at u i = job_at ?s i" by (simp add: job_at_def at(6))
  have a: "adm (sched_step opts e ?s) = adm_reserve (reservation_for b (job_at ?s i)) (adm ?s)"
    using at(5) by (simp add: at(10) commit_def Let_def at(7,9) j)
  have b: "r_backend (p_res p) = b"
    using new(2) at(5) by (auto simp: at(10) commit_def Let_def at(8,9) reservation_for_def)
  obtain cap where cap: "d_caps d b = Some cap"
    "countFor (adm (sched_step opts e ?s)) b \<le> cap_total cap
      \<and> (\<forall>B. memoryBudgetMb cap = Some B \<and> 0 < jobMemoryMb (job_at ?s i) \<longrightarrow> memMbFor (adm (sched_step opts e ?s)) b \<le> B)
      \<and> (\<forall>B. cpuBudget cap = Some B \<and> 0 < jobCpu (job_at ?s i) \<longrightarrow> cpuFor (adm (sched_step opts e ?s)) b \<le> B)
      \<and> le_bound (tenantCountFor (adm (sched_step opts e ?s)) (tenant_at ?s i)) (quota_of opts (tenant_at ?s i))"
    using within_room [OF at(2,3,4) core_reachableD(3) a] by (elim exE conjE) simp
  have "scan_of ?s = Some d"
    using placing_scans [OF core_reachableD(5) room_reachable [OF assms(1)] assms(1) new] at(1) by (auto simp: scan_of_def split: pump_pc.splits)
  from commit_within_probe [OF seen_reachable [OF assms(1)] life this at(4,5,6,8,9) cap(1)]
  have "within_probe (round_start opts evs) (sched_step opts e ?s) b cap (job_at ?s i)" unfolding at(10) .
  with at(1) cap show ?thesis unfolding Let_def run b by blast
qed

lemma placement_within_capacity_witness:
  "let s = sched_run demo_opts (butlast demo_placing) new_sched;
       t = sched_run demo_opts (butlast demo_placing @ [PermitAnswer True]) new_sched; a = adm t;
       b = r_backend (reservation_for ''a'' (demo_job None)); j = job_at s 1
   in \<exists>d cap. drain_of s = Some d \<and> d_caps d b = Some cap
     \<and> within_probe (round_start demo_opts (butlast demo_placing)) t b cap j
     \<and> countFor a b \<le> cap_total cap
     \<and> (\<forall>B. memoryBudgetMb cap = Some B \<and> 0 < jobMemoryMb j \<longrightarrow> memMbFor a b \<le> B)
     \<and> (\<forall>B. cpuBudget cap = Some B \<and> 0 < jobCpu j \<longrightarrow> cpuFor a b \<le> B)
     \<and> le_bound (tenantCountFor a (tenant_at s 1)) (quota_of demo_opts (tenant_at s 1))"
proof -
  have before: "placed (sched_run demo_opts (butlast demo_placing) new_sched) 1 = None" by code_simp
  have after: "placed (sched_run demo_opts (butlast demo_placing @ [PermitAnswer True]) new_sched) 1
      = Some \<lparr>p_res = reservation_for ''a'' (demo_job None), p_opts = None, p_phase = Running\<rparr>"
    by code_simp
  from placement_within_capacity [OF demo_policy before after] show ?thesis
    by (simp only: placement.select_convs)
qed

text \<open>The bound holds within a round and not over a whole drain: the second round folds the same probe with what the first one
  placed by taking the larger of the two. Two slots in use by someone else and two placed by the first round read as two
  in use, and the second round places two more on a backend with four slots.\<close>

definition shared_caps :: "string \<rightharpoonup> capacity" where
  "shared_caps = [''a'' \<mapsto> \<lparr>cap_total = 4, cap_used = Observed 2, usedMemoryMb = None, usedCpu = None,
     memoryBudgetMb = None, cpuBudget = None\<rparr>]"

definition open_opts :: sched_opts where
  "open_opts = demo_opts\<lparr>tenantQuota := None, limitFor := None, has_ledger := False, ledger_tryAdmit := False\<rparr>"

definition two_rounds :: "sched_event list" where
  "two_rounds = replicate 4 (Dispatch (demo_job None) demo_hooks False 0)
     @ [ProbedCapacities shared_caps, ProbedFleet Map.empty, NextRound 5]
     @ concat (replicate 2 [NextEntry, HarnessAnswer None, ChooseBackend ''u''])
     @ [NextEntry, NextEntry, NextEntry, NextRound 6]
     @ concat (replicate 2 [NextEntry, HarnessAnswer None, ChooseBackend ''u''])"

theorem rounds_overcommit_a_shared_backend:
  "let s = sched_run open_opts two_rounds new_sched
   in countFor (adm s) ''a'' = 4 \<and> map_option cap_used (shared_caps ''a'') = Some (Observed 2)
    \<and> map_option cap_total (shared_caps ''a'') = Some 4"
  by code_simp

text \<open>C35. Fleet-wide permits: after any interleaving the permits held are exactly one for each job in
  flight whose tenant has a finite quota (when the ledger can admit), under the job's own handle; no
  permit outlives its job and no such job runs without one.\<close>

theorem permits_follow_jobs:
  "let s = sched_run opts evs new_sched
   in fst ` livePermits s = {i \<in> inflight s. is_finite_bound (quota_of opts (tenant_at s i)) \<and> ledger_tryAdmit opts}
    \<and> inj_on fst (livePermits s)"
proof -
  let ?s = "sched_run opts evs new_sched"
  have inv: "inv_permits opts ?s" by (rule permits_reachable)
  have own: "fst p = i \<and> claims opts ?s i" if "i \<in> inflight ?s" "permit_at ?s i = Some p" for i p
    using permits_own [OF inv, of i p] inflight_known [OF core_reachableD(1) that(1)] that(2) by simp
  have "i \<in> fst ` livePermits ?s \<longleftrightarrow> i \<in> inflight ?s \<and> claims opts ?s i" for i
  proof
    assume "i \<in> fst ` livePermits ?s"
    then obtain p k where "i = fst p" "k \<in> inflight ?s" "permit_at ?s k = Some p"
      using permits_live [OF inv] by auto
    with own show "i \<in> inflight ?s \<and> claims opts ?s i" by auto
  next
    assume i: "i \<in> inflight ?s \<and> claims opts ?s i"
    then have k: "i \<in> known ?s" "placed ?s i \<noteq> None"
      using inflight_known [OF core_reachableD(1), of i opts evs] by simp_all
    obtain p where p: "permit_at ?s i = Some p" using permits_placed [OF inv k] i by blast
    have "p \<in> livePermits ?s" using permits_live [OF inv, of p] i p by blast
    moreover have "fst p = i" using own [of i p] i p by simp
    ultimately show "i \<in> fst ` livePermits ?s" by (metis image_eqI)
  qed
  moreover have "inj_on fst (livePermits ?s)"
  proof (rule inj_onI)
    fix p q assume pq: "p \<in> livePermits ?s" "q \<in> livePermits ?s" "fst p = fst q"
    obtain i where i: "i \<in> inflight ?s" "permit_at ?s i = Some p" using pq(1) permits_live [OF inv] by blast
    obtain k where k: "k \<in> inflight ?s" "permit_at ?s k = Some q" using pq(2) permits_live [OF inv] by blast
    show "p = q" using own [OF i] own [OF k] pq(3) i(2) k(2) by simp
  qed
  ultimately show ?thesis by (auto simp: Let_def claims_def)
qed

text \<open>C24. Budget: with a limiter, and every pin naming a registered backend, the reserved runs of a
  tenant are exactly its queued and placed jobs, so that no refusal, cancellation, abort or placement
  leaks or double-counts a run.\<close>

theorem reserved_runs_exact:
  assumes "limitFor opts \<noteq> None" "list_all (pin_registered opts) evs"
  shows "runs (budget_usage_of t (budget (sched_run opts evs new_sched)))
    = int (card (standing (sched_run opts evs new_sched) t))"
  using budget_reachable(2) [OF assms(2)] assms(1) by (auto simp: inv_budget_def runs_of_def)

lemma reserved_runs_exact_witness:
  "int (card (standing (sched_run demo_opts demo_placing new_sched) ''acme'')) = 1"
proof -
  have "limitFor demo_opts \<noteq> None" "list_all (pin_registered demo_opts) demo_placing" by code_simp+
  from reserved_runs_exact [OF this, of "''acme''"]
  have "int (card (standing (sched_run demo_opts demo_placing new_sched) ''acme''))
    = runs (budget_usage_of ''acme'' (budget (sched_run demo_opts demo_placing new_sched)))" by simp
  also have "\<dots> = 1" by code_simp
  finally show ?thesis .
qed

subsection \<open>Where the accounting fails\<close>

text \<open>The unregistered-pin branch of \<open>pump\<close> ignores whether \<open>queue.remove\<close> found the entry. A job that
  is cancelled while the pump awaits another entry of the same drain is refunded by the cancellation
  and again by this branch.\<close>

definition refund_opts :: sched_opts where
  "refund_opts = demo_opts\<lparr>has_ledger := False, ledger_tryAdmit := False\<rparr>"

definition refund_race :: "sched_event list" where
  "refund_race = [Dispatch (demo_job None) demo_hooks False 0,
     Dispatch (demo_job (Some ''gone'')) demo_hooks False 0, Dispatch (demo_job None) demo_hooks False 0,
     ProbedCapacities demo_caps, ProbedFleet Map.empty, NextRound 5, NextEntry, CancelEntry 2,
     HarnessAnswer None, ChooseBackend ''u1'', NextEntry]"

text \<open>The double refund is real: in this run one job is placed and one still waits, but the budget
  counts one reserved run, and the tenant (capped at 3 runs) gets a fourth job admitted.\<close>

theorem unregistered_pin_refunds_twice:
  "let s = sched_run refund_opts refund_race new_sched
   in waiting s = [3] \<and> placed s 1 \<noteq> None
    \<and> runs (budget_usage_of ''acme'' (budget s)) = 1
    \<and> waiting (sched_run refund_opts (refund_race @ [Dispatch (demo_job None) demo_hooks False 9,
        Dispatch (demo_job None) demo_hooks False 9]) new_sched) = [3, 4, 5]"
  by code_simp

subsection \<open>Cancelling\<close>

lemma cancel_fold_effect:
  assumes "distinct xs" "set xs \<subseteq> set (waiting s)" "inv_life opts s"
  shows "promises (fold (cancel_one opts m) xs s) k =
      (if k \<in> set xs then Some (Rejected (Internal ''CANCELLED'' m)) else promises s k)"
    and "waiting (fold (cancel_one opts m) xs s) = filter (\<lambda>k. k \<notin> set xs) (waiting s)"
  using assms
proof (induction xs arbitrary: s)
  case Nil
  {
    case 1
    show ?case by simp
  next
    case 2
    show ?case by simp
  }
next
  case (Cons x xs)
  have step: "inv_life opts (cancel_one opts m x s)" "set xs \<subseteq> set (waiting (cancel_one opts m x s))"
      "distinct xs" "x \<notin> set xs" "promises s x = None" "distinct (waiting s)"
    if c: "distinct (x # xs)" "set (x # xs) \<subseteq> set (waiting s)" "inv_life opts s" for s
  proof -
    have x: "x \<in> set (waiting s)" using c(2) by simp
    show "inv_life opts (cancel_one opts m x s)"
      using waiting_known [OF c(3) x] by (intro inv_life_cancel_one [OF c(3)]) simp_all
    show "set xs \<subseteq> set (waiting (cancel_one opts m x s))"
      using c inv_lifeD(2) [OF c(3)] by (auto simp: ordered_remove set_remove1_eq)
    show "promises s x = None" using inv_lifeD(3) [OF c(3)] x by simp
  qed (use c inv_lifeD(2) [OF c(3)] in simp_all)
  {
    case 1
    note st = step [OF 1]
    show ?case using Cons.IH(1) [OF st(3,2,1)] st(4,5) by simp
  next
    case 2
    note st = step [OF 2]
    show ?case
      using Cons.IH(2) [OF st(3,2,1)] st(6)
      by (auto simp: ordered_remove distinct_remove1_removeAll removeAll_filter_not_eq intro!: filter_cong)
  }
qed

text \<open>\<open>cancelQueued\<close> takes exactly the matching jobs out: it answers their number, leaves the others
  queued in their order, rejects each taken one with CANCELLED, and touches no running job and no
  other promise.\<close>

theorem cancelQueued_exact:
  "let s = sched_run opts evs new_sched; (n, s') = cancelQueued opts pred s
   in n = length (filter (\<lambda>i. pred (job_at s i)) (waiting s))
    \<and> waiting s' = filter (\<lambda>i. \<not> pred (job_at s i)) (waiting s)
    \<and> promises s' = (\<lambda>i. if i \<in> set (waiting s) \<and> pred (job_at s i)
                          then Some (Rejected (Internal ''CANCELLED'' ''cancelled while queued.''))
                          else promises s i)
    \<and> placed s' = placed s \<and> adm s' = adm s"
proof -
  let ?s = "sched_run opts evs new_sched"
  note life = core_reachableD(1) [of opts evs]
  have "distinct (filter (\<lambda>i. pred (job_at ?s i)) (waiting ?s))" using inv_lifeD(2) [OF life] by simp
  from cancel_fold_effect [OF this _ life, of "''cancelled while queued.''"] show ?thesis
    by (auto simp: cancelQueued_def Let_def fun_eq_iff intro!: filter_cong)
qed


subsection \<open>The pump comes to rest\<close>

text \<open>How many more rounds the drain can start: one for each queued job, and one more when the current
  round has made progress or is going to count one for a job that already left the queue.\<close>

definition owed :: "sched \<Rightarrow> drain \<Rightarrow> nat list \<Rightarrow> nat" where
  "owed s d is = (if d_placedAny d \<or> \<not> set is \<subseteq> set (waiting s) then 1 else 0)"

definition rounds_left :: "sched \<Rightarrow> nat" where
  "rounds_left s = (case pc s of
       Idle \<Rightarrow> 0
     | Probing \<Rightarrow> length (waiting s) + 1
     | ProbingFleet c \<Rightarrow> length (waiting s) + 1
     | Round d \<Rightarrow> length (waiting s) + owed s d []
     | Scanning d \<Rightarrow> length (waiting s) + owed s d (d_todo d)
     | Asking d i sls acc \<Rightarrow> length (waiting s) + owed s d (i # d_todo d)
     | Claiming d i b \<Rightarrow> length (waiting s) + owed s d (i # d_todo d))"

definition stage :: "sched \<Rightarrow> nat" where
  "stage s = (case pc s of
       Idle \<Rightarrow> 0 | Round d \<Rightarrow> 1 | ProbingFleet c \<Rightarrow> 2 | Probing \<Rightarrow> 3
     | Scanning d \<Rightarrow> 2 * length (d_todo d) + 2
     | Asking d i sls acc \<Rightarrow> 2 * length (d_todo d) + 3
     | Claiming d i b \<Rightarrow> 2 * length (d_todo d) + 3)"

definition asks_left :: "sched \<Rightarrow> nat" where
  "asks_left s = (case pc s of Asking d i sls acc \<Rightarrow> Suc (length sls) | _ \<Rightarrow> 0)"

definition pump_less :: "(sched \<times> sched) set" where
  "pump_less = measures [rounds_left, stage, asks_left]"

lemma pump_lessI:
  "rounds_left t < rounds_left s \<or> rounds_left t \<le> rounds_left s \<and> (stage t < stage s
     \<or> stage t \<le> stage s \<and> asks_left t < asks_left s) \<Longrightarrow> (t, s) \<in> pump_less"
  by (auto simp: pump_less_def)

lemma Suc_length_remove1: "i \<in> set xs \<Longrightarrow> Suc (length (remove1 i xs)) = length xs"
  by (induction xs) auto

lemma owed_le: "owed s d is \<le> 1"
  by (simp add: owed_def)

lemma owed_missing: "i \<in> set is \<Longrightarrow> i \<notin> set (waiting s) \<Longrightarrow> owed s d is = 1"
  unfolding owed_def by (rule if_P) blast

lemma rounds_commit:
  assumes "pc s = Asking d i sls acc \<or> pc s = Claiming d i c" "queue u = queue s"
  shows "rounds_left (commit opts d i b u) \<le> rounds_left s"
proof -
  have s: "rounds_left s = length (waiting s) + owed s d (i # d_todo d)"
    using assms(1) by (auto simp: rounds_left_def)
  let ?t = "commit opts d i b u"
  show ?thesis
  proof (cases "i \<in> set (waiting s)")
    case True
    have "\<exists>d'. pc ?t = Scanning d'" by (simp add: commit_def Let_def)
    then have "rounds_left ?t \<le> length (waiting ?t) + 1"
      using owed_le [of ?t] by (auto simp: rounds_left_def)
    also have "length (waiting ?t) + 1 = length (waiting s)"
      using True by (simp add: commit_def Let_def assms(2) ordered_remove Suc_length_remove1)
    finally show ?thesis by (simp add: s)
  next
    case False
    then have "owed s d (i # d_todo d) = 1" by (intro owed_missing) simp_all
    moreover have "pc ?t = Scanning d" "waiting ?t = waiting s"
      using False by (simp_all add: commit_def assms(2))
    moreover from this have "rounds_left ?t = length (waiting s) + owed ?t d (d_todo d)"
      by (simp add: rounds_left_def)
    ultimately show ?thesis
      using owed_le [of ?t d "d_todo d"] by (simp add: s)
  qed
qed

lemma stage_commit: "stage (commit opts d i b u) = 2 * length (d_todo d) + 2"
  by (simp add: stage_def commit_def Let_def)

lemma pump_commit_less:
  assumes "pc s = Asking d i sls acc \<or> pc s = Claiming d i c" "queue u = queue s"
  shows "(commit opts d i b u, s) \<in> pump_less"
proof (rule pump_lessI)
  have "stage s = 2 * length (d_todo d) + 3" using assms(1) by (auto simp: stage_def)
  then show "rounds_left (commit opts d i b u) < rounds_left s \<or>
      rounds_left (commit opts d i b u) \<le> rounds_left s \<and> (stage (commit opts d i b u) < stage s
      \<or> stage (commit opts d i b u) \<le> stage s \<and> asks_left (commit opts d i b u) < asks_left s)"
    using rounds_commit [OF assms, of opts b] by (simp add: stage_commit)
qed

lemma pump_next_entry_less:
  assumes "pc s = Scanning d"
  shows "(next_entry opts s, s) \<in> pump_less"
proof (cases "d_todo d")
  case Nil
  then show ?thesis
    using assms by (intro pump_lessI) (simp add: next_entry_def rounds_left_def stage_def owed_def)
next
  case (Cons i rest)
  let ?d1 = "d\<lparr>d_todo := rest\<rparr>" and ?t = "next_entry opts s"
  consider (skip) "?t = s\<lparr>pc := Scanning ?d1\<rparr>" | (ask) sls where "?t = s\<lparr>pc := Asking ?d1 i sls []\<rparr>"
    | (reject) "pc ?t = Scanning (?d1\<lparr>d_placedAny := True\<rparr>)" "waiting ?t = remove1 i (waiting s)"
  proof (cases "ge_bound (fleet_countFor (d_fleet d) (tenant_of_job (job_at s i))
      (tenantCountFor (adm s) (tenant_of_job (job_at s i)))) (quota_of opts (tenant_of_job (job_at s i)))")
    case True
    then show thesis by (intro that(1)) (simp add: next_entry_def Let_def assms Cons)
  next
    case room: False
    show thesis
    proof (cases "eligibleNames opts (job_at s i)")
      case (Inl err)
      then show thesis
        using room by (intro that(3)) (simp_all add: next_entry_def Let_def assms Cons ordered_remove)
    next
      case (Inr names)
      with room that(1,2) show thesis
        by (cases "candidates_for ?d1 (job_at s i) names")
          (simp_all add: next_entry_def Let_def assms Cons)
    qed
  qed
  then show ?thesis
  proof cases
    case skip
    then show ?thesis
      using assms Cons by (intro pump_lessI) (auto simp: rounds_left_def stage_def owed_def)
  next
    case ask
    then show ?thesis
      using assms Cons by (intro pump_lessI) (auto simp: rounds_left_def stage_def owed_def)
  next
    case reject
    have "length (waiting ?t) + 1 \<le> length (waiting s) + owed s d (d_todo d)"
      using owed_missing [of i "d_todo d" s d] Cons
      by (cases "i \<in> set (waiting s)") (simp_all add: reject Suc_length_remove1 remove1_idem)
    then show ?thesis
      using assms Cons by (intro pump_lessI) (auto simp: rounds_left_def stage_def reject(1) owed_def)
  qed
qed

lemma pump_choose_less:
  assumes "choose_backend opts uuid s \<noteq> s"
  shows "(choose_backend opts uuid s, s) \<in> pump_less"
proof -
  obtain d i acc where at: "pc s = Asking d i [] acc"
    using assms by (auto simp: choose_backend_def split: pump_pc.splits list.splits)
  have "(s\<lparr>pc := Scanning d\<rparr>, s) \<in> pump_less"
    by (rule pump_lessI) (auto simp: rounds_left_def stage_def owed_def at)
  moreover have "(s\<lparr>entries := en, pc := Claiming d i b\<rparr>, s) \<in> pump_less" for en b
    by (rule pump_lessI) (auto simp: rounds_left_def stage_def asks_left_def owed_def at)
  moreover have "(commit opts d i b s, s) \<in> pump_less" for b
    using at by (intro pump_commit_less) auto
  ultimately show ?thesis by (simp add: choose_backend_def at Let_def split: option.split)
qed

lemma pump_permit_less:
  assumes "permit_answer opts b s \<noteq> s"
  shows "(permit_answer opts b s, s) \<in> pump_less"
proof -
  obtain d i c where at: "pc s = Claiming d i c"
    using assms by (auto simp: permit_answer_def split: pump_pc.splits)
  have "(s\<lparr>pc := Scanning d\<rparr>, s) \<in> pump_less"
    by (rule pump_lessI) (auto simp: rounds_left_def stage_def owed_def at)
  moreover have "(commit opts d i c (holdPermit p s), s) \<in> pump_less" for p
    using at by (intro pump_commit_less) auto
  ultimately show ?thesis by (simp add: permit_answer_def at)
qed

lemma pump_probe_less:
  "probed_capacities opts c s \<noteq> s \<Longrightarrow> (probed_capacities opts c s, s) \<in> pump_less"
  "probed_fleet opts f s \<noteq> s \<Longrightarrow> (probed_fleet opts f s, s) \<in> pump_less"
  "harness_answer opts h s \<noteq> s \<Longrightarrow> (harness_answer opts h s, s) \<in> pump_less"
  by (rule pump_lessI; auto simp: probed_capacities_def probed_fleet_def harness_answer_def case_prod_unfold Let_def
        rounds_left_def stage_def asks_left_def owed_def split: pump_pc.splits list.splits)+

lemma pump_round_less:
  assumes "next_round opts now s \<noteq> s"
  shows "(next_round opts now s, s) \<in> pump_less"
proof -
  have "set (map fst (scanOrder opts now s)) \<subseteq> set (waiting s)" by (simp only: set_scanOrder)
  with assms show ?thesis
    by (intro pump_lessI) (auto simp: next_round_def rounds_left_def stage_def owed_def split: pump_pc.splits if_splits)
qed

lemma pump_step_less:
  assumes "pump_event e" "sched_step opts e s \<noteq> s"
  shows "(sched_step opts e s, s) \<in> pump_less"
proof (cases e)
  case NextEntry
  with assms(2) obtain d where "pc s = Scanning d" by (auto simp: next_entry_def split: pump_pc.splits)
  with NextEntry show ?thesis using pump_next_entry_less by simp
qed (use assms pump_probe_less pump_round_less pump_choose_less pump_permit_less in simp_all)

text \<open>C38. A drain ends: the steps of the pump alone cannot go on for ever, whatever the probes, the
  harness pools, the policy and the ledger answer; every step that does something goes down in a
  well-founded order.\<close>

theorem pump_terminates:
  "wf {(t, s). pc s \<noteq> Idle \<and> (\<exists>e. pump_event e \<and> t = sched_step opts e s \<and> t \<noteq> s)}"
  by (rule wf_subset [of pump_less]) (auto simp: pump_less_def dest: pump_step_less [unfolded pump_less_def])

subsection \<open>The run cap\<close>

lemma standing_capped_step:
  assumes lf: "limitFor opts = Some lf" "lf t = Some l" "lim_runs l = Some r"
    and s: "runs_of s t \<le> max 0 r"
  shows "runs_of (sched_step opts e s) t \<le> max 0 r"
proof -
  have rel: "runs_of (releaseBudget opts j u) t \<le> max 0 r" if "runs_of u t \<le> max 0 r" for j u
    using that by (cases "t = tenant_of_job j") (auto simp: runs_release [OF lf(1)])
  have can: "runs_of (cancel_one opts m i u) t \<le> max 0 r" if "runs_of u t \<le> max 0 r" for m i u
    using rel [of "dequeue i u"] that by (simp add: cancel_one_def runs_of_def)
  have fld: "runs_of (fold (cancel_one opts m) xs u) t \<le> max 0 r" if "runs_of u t \<le> max 0 r" for m xs u
    using that by (induction xs arbitrary: u) (simp_all add: can)
  show ?thesis
  proof (cases e)
    case (Dispatch j hs ab now)
    show ?thesis
    proof (cases rule: dispatch_cases [of opts j hs ab now s])
      case (refused e b)
      with Dispatch s show ?thesis by (simp add: runs_of_def)
    next
      case (queued i b e u)
      have ok: "budget_admit lf (tenant_of_job j) (budget s) = (Inr (), b)" using queued(14) lf(1) by simp
      have "runs_of s t < r" if "tenant_of_job j = t"
        using admit_ok_iff [of lf t "budget s"] assertWithinBudget_ok_iff [of "budget_usage_of t (budget s)" "lf t"]
          ok that lf(2,3)
        by (simp add: over_def runs_of_def)
      moreover have "runs_of u t = runs_of s t + (if t = tenant_of_job j then 1 else 0)"
        using usage_admit [of t lf "tenant_of_job j" "budget s"] ok by (simp add: runs_of_def queued(12))
      ultimately show ?thesis using s Dispatch queued(1) by (auto simp: runs_of_def)
    qed
  next
    case (Abort i)
    then show ?thesis
      using s rel [of "dequeue i (s\<lparr>listening := listening s - {i}\<rparr>)"]
      by (simp add: on_abort_def Let_def runs_of_def)
  next
    case (CancelQueued p)
    then show ?thesis using fld [OF s] by (simp add: cancelQueued_def Let_def)
  next
    case (CancelEntry i)
    then show ?thesis
      using s can [of "s\<lparr>listening := listening s - {i}\<rparr>"] by (simp add: cancelEntry_def runs_of_def)
  next
    case NextEntry
    then show ?thesis
      using s rel [of "dequeue i s" for i]
      by (auto simp: next_entry_def Let_def runs_of_def split: pump_pc.split list.split sum.split)
  next
    case (CompleteJob i res)
    then show ?thesis
      using s by (auto simp: complete_job_def Let_def runs_of_def counters split: option.split sum.split)
  qed (use s in \<open>simp_all add: runs_of_def promoteEntry_def Let_def probed_capacities_def probed_fleet_def
      next_round_def harness_answer_def case_prod_unfold choose_backend_def permit_answer_def commit_def
      finalize_job_def split: pump_pc.split list.split option.split\<close>)
qed

lemma runs_capped:
  assumes "limitFor opts = Some lf" "lf t = Some l" "lim_runs l = Some r"
  shows "runs_of (sched_run opts evs new_sched) t \<le> max 0 r"
proof (induction evs rule: rev_induct)
  case Nil
  show ?case by (simp add: sched_run_def new_sched_def runs_of_def)
next
  case (snoc e evs)
  then show ?case using standing_capped_step [OF assms snoc] by (simp add: sched_run_def)
qed

text \<open>C26. The run cap holds: with every pin naming a registered backend, a tenant capped at \<open>r\<close> runs
  never has more than \<open>r\<close> jobs queued or placed, in any interleaving.\<close>

theorem run_cap_holds:
  assumes "limitFor opts = Some lf" "lf t = Some l" "lim_runs l = Some r" "0 \<le> r"
    and "list_all (pin_registered opts) evs"
  shows "int (card (standing (sched_run opts evs new_sched) t)) \<le> r"
  using runs_capped [OF assms(1-3), of evs] budget_reachable(2) [OF assms(5)] assms(1,4)
  by (auto simp: inv_budget_def)

lemma run_cap_holds_witness:
  "int (card (standing (sched_run demo_opts demo_placing new_sched) ''acme'')) \<le> 3"
proof -
  let ?l = "\<lparr>lim_usd = None, lim_tokens = None, lim_runs = Some 3\<rparr>"
  have "limitFor demo_opts = Some (\<lambda>t. Some ?l)" by (simp add: demo_opts_def)
  moreover have "lim_runs ?l = Some 3" by simp
  moreover have "list_all (pin_registered demo_opts) demo_placing" by code_simp
  ultimately show ?thesis
    using run_cap_holds [of demo_opts "\<lambda>t. Some ?l" "''acme''" ?l 3 demo_placing] by simp
qed

subsection \<open>Handing a job in\<close>

lemma budget_admit_usage_kept:
  "throws (fst (budget_admit lf t b)) \<Longrightarrow> budget_usage_of u (snd (budget_admit lf t b)) = budget_usage_of u b"
  by (simp add: usage_admit)

text \<open>C20. \<open>dispatch\<close> accepts a job exactly when it was not aborted before, the queue and the tenant's
  share of it have room, and the budget admits a run; a refused job leaves the scheduler as it was, the
  usage of every tenant included.\<close>

theorem dispatch_accepts_iff:
  "let (r, s') = dispatch_job opts j hs aborted now s; t = tenant_of_job j
   in (\<not> throws r \<longleftrightarrow>
        \<not> aborted \<and> \<not> ge_bound (int (fq_size (queue s))) (bound_of (maxQueueDepth opts))
        \<and> \<not> ge_bound (int (get_or 0 (fq_queuedByTenant (queue s)) t))
             (case tenantMaxQueueDepth opts of None \<Rightarrow> Unbounded | Some f \<Rightarrow> f t)
        \<and> (case limitFor opts of None \<Rightarrow> True
            | Some lf \<Rightarrow> \<not> throws (assertWithinBudget (budget_usage_of t (budget s)) (lf t))))
      \<and> (if throws r then \<exists>b. s' = s\<lparr>budget := b\<rparr> \<and> (\<forall>u. budget_usage_of u b = budget_usage_of u (budget s))
          else r = Inr (entrySeq s') \<and> entrySeq s' = entrySeq s + 1)"
proof -
  let ?t = "tenant_of_job j"
  define full where "full \<longleftrightarrow> ge_bound (int (fq_size (queue s))) (bound_of (maxQueueDepth opts))"
  define tfull where "tfull \<longleftrightarrow> ge_bound (int (get_or 0 (fq_queuedByTenant (queue s)) ?t))
      (case tenantMaxQueueDepth opts of None \<Rightarrow> Unbounded | Some f \<Rightarrow> f ?t)"
  have same: "\<exists>b. s = s\<lparr>budget := b\<rparr> \<and> (\<forall>u. budget_usage_of u b = budget_usage_of u (budget s))"
    by (rule exI [of _ "budget s"]) simp
  note defs = dispatch_job_def Let_def full_def [symmetric] tfull_def [symmetric]
  consider "aborted \<or> full \<or> tfull" | (none) "\<not> aborted" "\<not> full" "\<not> tfull" "limitFor opts = None"
    | (some) lf where "\<not> aborted" "\<not> full" "\<not> tfull" "limitFor opts = Some lf" by blast
  then show ?thesis
  proof cases
    case 1
    then show ?thesis using same unfolding defs by auto
  next
    case none
    then show ?thesis unfolding defs by simp
  next
    case some
    obtain r b where ad: "budget_admit lf ?t (budget s) = (r, b)" by (cases "budget_admit lf ?t (budget s)") 
    have iff: "throws r \<longleftrightarrow> throws (assertWithinBudget (budget_usage_of ?t (budget s)) (lf ?t))"
      using admit_ok_iff [of lf ?t "budget s"] ad by auto
    have kept: "budget_usage_of u b = budget_usage_of u (budget s)" if "throws r" for u
      using budget_admit_usage_kept [of lf ?t "budget s" u] ad that by simp
    show ?thesis
    proof (cases r)
      case (Inl e)
      then have "throws r" by simp
      then show ?thesis
        using some ad iff kept Inl unfolding defs by (auto intro!: exI [of _ b])
    next
      case (Inr x)
      then have "\<not> throws r" by simp
      then show ?thesis using some ad iff Inr unfolding defs by simp
    qed
  qed
qed

end
