(* ===== verification/Scores.thy ===== *)
theory Scores
  imports Prelude "HOL-Library.Sublist"
begin

text \<open>
  Scores and who may produce them: packages/contracts/src/execution/grader.ts (the measurement algebra
  and \<open>sanitizeScore\<close>), verdict-policy.ts (the metric names that carry authority, \<open>forgedMetricReason\<close>,
  \<open>judgeMetricShapeOf\<close>) and eval-case.ts (\<open>sanitizeSubmittedResult\<close>, the check every submitted result
  crosses when the control plane settles it).

  A number a grader returns is finite or not (NaN, an infinity). The trace events and the free-form
  detail a row carries are opaque handles; the details this code writes are \<open>Forged\<close> and \<open>Broken\<close>, the
  parts of the sentences it renders.
\<close>

subsection \<open>Scores\<close>

datatype number = Num rat | NonFinite

datatype producer_kind = GraderKind | JudgeKind

record measurement_identity =
  m_kind :: producer_kind
  m_producer :: string
  m_metric :: string
  m_criterion :: "string option"

datatype unmeasured_reason = Grader_error | Missing_evidence | Missing_secret | Unsupported
  | Policy_skip | Contract_violation | Grader_timeout

datatype detail = Written nat | Forged string | Broken "number option" string string

datatype score_body =
    Measured number "bool option" "string option"
  | Unmeasured unmeasured_reason bool "nat option"
  | Invalid

record score =
  graderId :: string
  metric :: string
  measurement :: "measurement_identity option"
  detail :: "detail option"
  traceEvents :: "nat list"
  body :: score_body

fun is_measured_body :: "score_body \<Rightarrow> bool" where
  "is_measured_body (Measured v p l) = True"
| "is_measured_body b = False"

definition isMeasured :: "score \<Rightarrow> bool" where
  "isMeasured s = is_measured_body (body s)"

definition measuredScores :: "score list \<Rightarrow> score list" where
  "measuredScores = filter isMeasured"

fun body_value :: "score_body \<Rightarrow> number option" where
  "body_value (Measured v p l) = Some v"
| "body_value b = None"

fun body_pass :: "score_body \<Rightarrow> bool option" where
  "body_pass (Measured v p l) = p"
| "body_pass b = None"

subsection \<open>The names that carry authority\<close>

definition RESERVED_AUTHORITY_METRICS :: "string list" where
  "RESERVED_AUTHORITY_METRICS =
     [''state'', ''tests_pass'', ''answer_match'', ''url_matches'', ''dom_contains'']"

definition BUILTIN_GRADER_OWNED_METRICS :: "(string \<times> string list) list" where
  "BUILTIN_GRADER_OWNED_METRICS =
     [(''tests-pass'', [''tests_pass'']), (''reward-file'', [''tests_pass'']), (''state-check'', [''state'']),
      (''dom-contains'', [''dom_contains'']), (''url-matches'', [''url_matches'']),
      (''answer-match'', [''answer_match''])]"

definition BUILTIN_JUDGE_GRADER_IDS :: "string list" where
  "BUILTIN_JUDGE_GRADER_IDS = [''judge'']"

definition builtInOwnedMetrics :: "string \<Rightarrow> string list" where
  "builtInOwnedMetrics gid =
     (case map_of BUILTIN_GRADER_OWNED_METRICS gid of None \<Rightarrow> [] | Some ms \<Rightarrow> ms)"

definition JUDGE_METRIC_ROOT :: string where
  "JUDGE_METRIC_ROOT = ''judge''"

definition startsWith :: "string \<Rightarrow> string \<Rightarrow> bool" where
  "startsWith s p \<longleftrightarrow> take (length p) s = p"

definition isJudgeFamilyMetric :: "string \<Rightarrow> bool" where
  "isJudgeFamilyMetric m \<longleftrightarrow> m = JUDGE_METRIC_ROOT \<or> startsWith m (JUDGE_METRIC_ROOT @ '':'')"

text \<open>\<open>isJudgeMetricOf\<close> on a bare metric name, and on a score row.\<close>

definition isJudgeMetricName :: "string \<Rightarrow> string \<Rightarrow> bool" where
  "isJudgeMetricName m judgeId \<longleftrightarrow>
     m = JUDGE_METRIC_ROOT @ '':'' @ judgeId \<or> startsWith m (JUDGE_METRIC_ROOT @ '':'' @ judgeId @ '':'')"

definition isJudgeMetricOf :: "score \<Rightarrow> string \<Rightarrow> bool" where
  "isJudgeMetricOf s judgeId =
     (case measurement s of
        Some m \<Rightarrow> m_kind m = JudgeKind \<and> m_producer m = judgeId
      | None \<Rightarrow> isJudgeMetricName (metric s) judgeId)"

definition isConstitutionalMetric :: "string \<Rightarrow> bool" where
  "isConstitutionalMetric m \<longleftrightarrow> m \<in> set RESERVED_AUTHORITY_METRICS \<or> isJudgeFamilyMetric m"

subsection \<open>Producers\<close>

record score_producer =
  pr_kind :: producer_kind
  pr_id :: string
  ownsMetrics :: "string list"
  ownsJudgeVerdict :: bool
  namespacesJudgeCriteria :: bool

record metric_shape =
  overall :: string
  criterionPrefix :: string

definition judgeMetricShapeOf :: "score_producer \<Rightarrow> metric_shape" where
  "judgeMetricShapeOf p =
     (if pr_kind p = JudgeKind
      then \<lparr>overall = JUDGE_METRIC_ROOT @ '':'' @ pr_id p,
            criterionPrefix = JUDGE_METRIC_ROOT @ '':'' @ pr_id p @ '':''\<rparr>
      else \<lparr>overall = JUDGE_METRIC_ROOT,
            criterionPrefix = (if namespacesJudgeCriteria p then JUDGE_METRIC_ROOT @ '':'' @ pr_id p @ '':''
                               else JUDGE_METRIC_ROOT @ '':'')\<rparr>)"

text \<open>The reasons are told apart by which rule was broken and the name it was broken with.\<close>

definition forgedMetricReason :: "string \<Rightarrow> score_producer \<Rightarrow> string option" where
  "forgedMetricReason m p =
     (let inJudgeFamily = isJudgeFamilyMetric m in
      if pr_kind p = JudgeKind then
        (let own = JUDGE_METRIC_ROOT @ '':'' @ pr_id p in
         if m = own \<or> startsWith m (own @ '':'') then None
         else Some (''a judge may only produce its own metric family: '' @ m))
      else if inJudgeFamily then
        (if \<not> ownsJudgeVerdict p then Some (m @ '' belongs to the judge family'') else None)
      else if m \<in> set RESERVED_AUTHORITY_METRICS \<and> m \<notin> set (ownsMetrics p)
      then Some (m @ '' carries built-in verdict authority'')
      else None)"

definition measurementIdentityOf :: "string \<Rightarrow> score_producer \<Rightarrow> measurement_identity" where
  "measurementIdentityOf m p =
     (let verbatim = \<lparr>m_kind = pr_kind p, m_producer = pr_id p, m_metric = m, m_criterion = None\<rparr>;
          emitsJudgeFamily = (pr_kind p = JudgeKind \<or> ownsJudgeVerdict p) in
      if \<not> emitsJudgeFamily \<or> \<not> isJudgeFamilyMetric m then verbatim
      else
        let shape = judgeMetricShapeOf p in
        if m = overall shape then verbatim\<lparr>m_metric := JUDGE_METRIC_ROOT\<rparr>
        else
          let criterion = (if startsWith m (criterionPrefix shape) then drop (length (criterionPrefix shape)) m
                           else drop (length (JUDGE_METRIC_ROOT @ '':'')) m) in
          if criterion \<noteq> [] then verbatim\<lparr>m_metric := JUDGE_METRIC_ROOT, m_criterion := Some criterion\<rparr>
          else verbatim)"

subsection \<open>The producer boundary\<close>

definition sanitizeScore :: "score \<Rightarrow> score_producer option \<Rightarrow> score" where
  "sanitizeScore s producer =
     (let idsBroken = (metric s = [] \<or> graderId s = []) in
      if body s = Invalid \<and> \<not> idsBroken then s
      else
        let valueBroken = (isMeasured s \<and> body_value (body s) = Some NonFinite);
            forged = (case producer of None \<Rightarrow> None | Some p \<Rightarrow> forgedMetricReason (metric s) p) in
        if \<not> idsBroken \<and> \<not> valueBroken \<and> forged = None then
          (case producer of
             None \<Rightarrow> s
           | Some p \<Rightarrow>
               let m = measurementIdentityOf (metric s) p in
               if measurement s = Some m then s else s\<lparr>measurement := Some m\<rparr>)
        else
          \<lparr>graderId = (if graderId s = [] then ''unknown'' else graderId s),
           metric = (if metric s = [] then (if graderId s = [] then ''unknown'' else graderId s) else metric s),
           measurement = None,
           detail = Some (case forged of Some r \<Rightarrow> Forged r
                          | None \<Rightarrow> Broken (body_value (body s)) (metric s) (graderId s)),
           traceEvents = traceEvents s,
           body = Invalid\<rparr>)"

subsection \<open>The settle boundary\<close>

datatype metric_authority = Ground_truth | Objective | Judge_rung | Observational

datatype direction = Higher_is_better | Lower_is_better | Neutral

record declared_metric =
  dm_id :: string
  dm_authority :: "metric_authority option"
  dm_direction :: "direction option"

record grader_spec =
  gs_id :: string
  gs_config_id :: "string option"
  gs_authority :: "metric_authority option"
  gs_direction :: "direction option"
  gs_metrics :: "declared_metric list option"

definition declaredOwnedMetrics :: "grader_spec \<Rightarrow> string list" where
  "declaredOwnedMetrics g =
     filter (\<lambda>i. \<not> isConstitutionalMetric i)
       (map dm_id (case gs_metrics g of None \<Rightarrow> [] | Some ms \<Rightarrow> ms))"

definition declaredJudgeAuthority :: "grader_spec \<Rightarrow> bool" where
  "declaredJudgeAuthority g \<longleftrightarrow> gs_authority g = Some Judge_rung"

definition specNamespacesJudgeCriteria :: "grader_spec \<Rightarrow> bool" where
  "specNamespacesJudgeCriteria g \<longleftrightarrow> gs_id g \<in> set BUILTIN_JUDGE_GRADER_IDS"

record settle_declaration =
  sd_graders :: "grader_spec list"
  sd_judges :: "string list"

definition specProducing :: "grader_spec list \<Rightarrow> string \<Rightarrow> grader_spec option" where
  "specProducing graders gid = find (\<lambda>g. gs_id g = gid \<or> gs_config_id g = Some gid) graders"

datatype stage = Dispatching | Install | Running_harness | Collect | Grade

record case_failure =
  f_stage :: stage
  f_code :: string

text \<open>The parts of a result that its settlement, its verdict and the comparison of scorecards read; \<open>r_rest\<close> is everything else.\<close>

record case_result =
  r_caseId :: string
  r_scores :: "score list"
  r_failure :: "case_failure option"
  r_trial :: "nat option"
  r_rest :: nat

definition producer_for :: "settle_declaration \<Rightarrow> score \<Rightarrow> score_producer" where
  "producer_for d s =
     (let spec = specProducing (sd_graders d) (graderId s);
          registered = find (\<lambda>j. j = graderId s \<and> isJudgeMetricName (metric s) j) (sd_judges d)
      in case (registered, spec) of
           (Some j, None) \<Rightarrow> \<lparr>pr_kind = JudgeKind, pr_id = j, ownsMetrics = [], ownsJudgeVerdict = False,
                              namespacesJudgeCriteria = False\<rparr>
         | _ \<Rightarrow>
             \<lparr>pr_kind = GraderKind, pr_id = graderId s,
              ownsMetrics = (case spec of None \<Rightarrow> [] | Some g \<Rightarrow> builtInOwnedMetrics (gs_id g) @ declaredOwnedMetrics g),
              ownsJudgeVerdict = (case spec of None \<Rightarrow> False
                 | Some g \<Rightarrow> gs_id g \<in> set BUILTIN_JUDGE_GRADER_IDS \<or> declaredJudgeAuthority g),
              namespacesJudgeCriteria = (case spec of None \<Rightarrow> False | Some g \<Rightarrow> specNamespacesJudgeCriteria g)\<rparr>)"

definition sanitizeSubmittedResult :: "case_result \<Rightarrow> settle_declaration \<Rightarrow> case_result" where
  "sanitizeSubmittedResult r d =
     (if r_scores r = [] then r
      else r\<lparr>r_scores := map (\<lambda>s. sanitizeScore s (Some (producer_for d s))) (r_scores r)\<rparr>)"

subsection \<open>What the boundary guarantees\<close>

lemma find_SomeD: "find P xs = Some x \<Longrightarrow> x \<in> set xs \<and> P x"
  by (metis find_Some_iff nth_mem)

lemma sanitize_graderId: "graderId s \<noteq> [] \<Longrightarrow> graderId (sanitizeScore s p) = graderId s"
  by (simp add: sanitizeScore_def Let_def split: option.split)

lemma sanitize_metric: "metric s \<noteq> [] \<Longrightarrow> metric (sanitizeScore s p) = metric s"
  by (simp add: sanitizeScore_def Let_def split: option.split)

text \<open>A row that leaves the boundary as a measurement went in as one, under its own names, with a finite
  value, and its producer was entitled to the metric; its identity is the one the collector derives.\<close>

lemma sanitize_measured:
  assumes "isMeasured (sanitizeScore s (Some p))"
  shows "metric s \<noteq> []" "graderId s \<noteq> []" "body_value (body s) \<noteq> Some NonFinite"
    "forgedMetricReason (metric s) p = None"
    "sanitizeScore s (Some p) = s\<lparr>measurement := Some (measurementIdentityOf (metric s) p)\<rparr>"
  using assms by (auto simp: sanitizeScore_def Let_def isMeasured_def split: if_splits)

lemma sanitize_honest:
  assumes "metric s \<noteq> []" "graderId s \<noteq> []" "body_value (body s) \<noteq> Some NonFinite"
    "forgedMetricReason (metric s) p = None" "body s \<noteq> Invalid"
  shows "sanitizeScore s (Some p) = s\<lparr>measurement := Some (measurementIdentityOf (metric s) p)\<rparr>"
  using assms by (auto simp: sanitizeScore_def Let_def)

lemma sanitize_refused:
  "sanitizeScore s p = s \<or> (body (sanitizeScore s p) = Invalid \<and> metric (sanitizeScore s p) \<noteq> []
     \<and> graderId (sanitizeScore s p) \<noteq> [])
   \<or> (\<exists>q. p = Some q \<and> metric s \<noteq> [] \<and> graderId s \<noteq> [] \<and> body s \<noteq> Invalid
        \<and> \<not> (isMeasured s \<and> body_value (body s) = Some NonFinite)
        \<and> forgedMetricReason (metric s) q = None
        \<and> sanitizeScore s p = s\<lparr>measurement := Some (measurementIdentityOf (metric s) q)\<rparr>)"
  by (auto simp: sanitizeScore_def Let_def split: option.split)

lemma sanitizeScore_idem: "sanitizeScore (sanitizeScore s p) p = sanitizeScore s p"
  using sanitize_refused [of s p]
  by (elim disjE exE conjE) (simp_all add: sanitizeScore_def [of "sanitizeScore s p"] Let_def
      sanitizeScore_def [of "s\<lparr>measurement := m\<rparr>" for m] isMeasured_def)

lemma producer_for_stable:
  "metric s' = metric s \<Longrightarrow> graderId s' = graderId s \<Longrightarrow> producer_for d s' = producer_for d s"
  by (simp add: producer_for_def Let_def cong: option.case_cong)

lemma forged_reserved:
  assumes "forgedMetricReason m p = None" "m \<in> set RESERVED_AUTHORITY_METRICS"
  shows "pr_kind p = GraderKind \<and> m \<in> set (ownsMetrics p)"
proof -
  have nj: "\<not> isJudgeFamilyMetric m" "\<And>q. m \<noteq> JUDGE_METRIC_ROOT @ '':'' @ q"
    "\<And>q. \<not> startsWith m (JUDGE_METRIC_ROOT @ '':'' @ q)"
    using assms(2)
    by (auto simp: RESERVED_AUTHORITY_METRICS_def isJudgeFamilyMetric_def startsWith_def JUDGE_METRIC_ROOT_def)
  show ?thesis
    using assms nj by (cases "pr_kind p") (auto simp: forgedMetricReason_def Let_def split: if_splits)
qed

lemma forged_judge:
  assumes "forgedMetricReason m p = None" "isJudgeFamilyMetric m"
  shows "pr_kind p = JudgeKind \<and> isJudgeMetricName m (pr_id p) \<or> pr_kind p = GraderKind \<and> ownsJudgeVerdict p"
  using assms by (cases "pr_kind p") (auto simp: forgedMetricReason_def Let_def isJudgeMetricName_def split: if_splits)

lemma declaredOwned_plain: "m \<in> set (declaredOwnedMetrics g) \<Longrightarrow> \<not> isConstitutionalMetric m"
  by (auto simp: declaredOwnedMetrics_def)

lemma specProducing_Some: "specProducing gs i = Some g \<Longrightarrow> g \<in> set gs \<and> (gs_id g = i \<or> gs_config_id g = Some i)"
  by (auto simp: specProducing_def dest: find_SomeD)

lemma sanitized_row:
  assumes "s \<in> set (r_scores (sanitizeSubmittedResult r d))" "isMeasured s"
  obtains s0 where "forgedMetricReason (metric s) (producer_for d s0) = None" "graderId s0 = graderId s" "metric s0 = metric s"
proof -
  obtain s0 where s0: "s = sanitizeScore s0 (Some (producer_for d s0))"
    using assms(1) by (auto simp: sanitizeSubmittedResult_def split: if_splits)
  show thesis
    using that sanitize_measured(4,5) [of s0 "producer_for d s0"] assms(2) by (simp add: s0)
qed

lemma sanitized_reserved:
  assumes "s \<in> set (r_scores (sanitizeSubmittedResult r d))" "isMeasured s" "metric s \<in> set RESERVED_AUTHORITY_METRICS"
  shows "\<exists>g \<in> set (sd_graders d). (gs_id g = graderId s \<or> gs_config_id g = Some (graderId s))
    \<and> metric s \<in> set (builtInOwnedMetrics (gs_id g))"
proof -
  obtain s0 where ok: "forgedMetricReason (metric s) (producer_for d s0) = None" and eq: "graderId s0 = graderId s"
    by (rule sanitized_row [OF assms(1,2)])
  obtain g where "specProducing (sd_graders d) (graderId s) = Some g" "metric s \<in> set (builtInOwnedMetrics (gs_id g))"
    using forged_reserved [OF ok assms(3)] assms(3) declaredOwned_plain
    by (cases "specProducing (sd_graders d) (graderId s)")
      (auto simp: producer_for_def Let_def isConstitutionalMetric_def eq split: option.splits)
  then show ?thesis using specProducing_Some by blast
qed

lemma sanitized_judge:
  assumes "s \<in> set (r_scores (sanitizeSubmittedResult r d))" "isMeasured s" "isJudgeFamilyMetric (metric s)"
  shows "(graderId s \<in> set (sd_judges d) \<and> isJudgeMetricName (metric s) (graderId s))
    \<or> (\<exists>g \<in> set (sd_graders d). (gs_id g = graderId s \<or> gs_config_id g = Some (graderId s))
         \<and> (gs_id g \<in> set BUILTIN_JUDGE_GRADER_IDS \<or> declaredJudgeAuthority g))"
proof -
  obtain s0 where ok: "forgedMetricReason (metric s) (producer_for d s0) = None" and eq: "graderId s0 = graderId s"
      "metric s0 = metric s"
    by (rule sanitized_row [OF assms(1,2)])
  have "graderId s \<in> set (sd_judges d) \<and> isJudgeMetricName (metric s) (graderId s)
      \<or> (\<exists>g. specProducing (sd_graders d) (graderId s) = Some g
            \<and> (gs_id g \<in> set BUILTIN_JUDGE_GRADER_IDS \<or> declaredJudgeAuthority g))"
    using forged_judge [OF ok assms(3)]
    by (auto simp: producer_for_def Let_def eq dest: find_SomeD split: option.splits)
  then show ?thesis using specProducing_Some by blast
qed

text \<open>C2. No producer names its way to authority: after settlement, a measured row whose metric is a
  reserved ground-truth or objective name comes from a grader the case declared whose implementation owns
  that name by construction, and a measured judge-family row comes from a judge the platform applied, in
  that judge's own family, or from a declared grader with judge authority. Everything else became invalid.\<close>

theorem no_forged_authority:
  assumes "s \<in> set (r_scores (sanitizeSubmittedResult r d))" "isMeasured s"
  shows "(metric s \<in> set RESERVED_AUTHORITY_METRICS \<longrightarrow>
            (\<exists>g \<in> set (sd_graders d). (gs_id g = graderId s \<or> gs_config_id g = Some (graderId s))
               \<and> metric s \<in> set (builtInOwnedMetrics (gs_id g))))
    \<and> (isJudgeFamilyMetric (metric s) \<longrightarrow>
            (graderId s \<in> set (sd_judges d) \<and> isJudgeMetricName (metric s) (graderId s))
          \<or> (\<exists>g \<in> set (sd_graders d). (gs_id g = graderId s \<or> gs_config_id g = Some (graderId s))
               \<and> (gs_id g \<in> set BUILTIN_JUDGE_GRADER_IDS \<or> declaredJudgeAuthority g)))"
  using sanitized_reserved [OF assms] sanitized_judge [OF assms] by blast

definition demo_row :: "string \<Rightarrow> string \<Rightarrow> score" where
  "demo_row g m = \<lparr>graderId = g, metric = m, measurement = None, detail = None, traceEvents = [],
     body = Measured (Num 1) (Some True) None\<rparr>"

definition demo_spec :: "string \<Rightarrow> grader_spec" where
  "demo_spec g = \<lparr>gs_id = g, gs_config_id = None, gs_authority = None, gs_direction = None, gs_metrics = None\<rparr>"

definition demo_result :: case_result where
  "demo_result = \<lparr>r_caseId = ''c'', r_scores = [demo_row ''tests-pass'' ''tests_pass'', demo_row ''x'' ''state''],
     r_failure = None, r_trial = None, r_rest = 0\<rparr>"

definition demo_declaration :: settle_declaration where
  "demo_declaration = \<lparr>sd_graders = [demo_spec ''tests-pass''], sd_judges = []\<rparr>"

lemma no_forged_authority_witness:
  "(\<exists>g \<in> set (sd_graders demo_declaration). (gs_id g = ''tests-pass'' \<or> gs_config_id g = Some ''tests-pass'')
      \<and> ''tests_pass'' \<in> set (builtInOwnedMetrics (gs_id g)))
   \<and> map isMeasured (r_scores (sanitizeSubmittedResult demo_result demo_declaration)) = [True, False]"
proof -
  let ?s = "hd (r_scores (sanitizeSubmittedResult demo_result demo_declaration))"
  have "?s \<in> set (r_scores (sanitizeSubmittedResult demo_result demo_declaration))"
    by (simp add: sanitizeSubmittedResult_def demo_result_def)
  moreover have "isMeasured ?s" "metric ?s = ''tests_pass''" "graderId ?s = ''tests-pass''" by code_simp+
  moreover have "''tests_pass'' \<in> set RESERVED_AUTHORITY_METRICS" by code_simp
  moreover have "map isMeasured (r_scores (sanitizeSubmittedResult demo_result demo_declaration)) = [True, False]"
    by code_simp
  ultimately show ?thesis using no_forged_authority [of ?s demo_result demo_declaration] by auto
qed

lemma startsWith_iff: "startsWith s p \<longleftrightarrow> (\<exists>r. s = p @ r)"
  by (metis startsWith_def append_eq_conv_conj)

lemma judge_name_family: "isJudgeMetricName m j \<Longrightarrow> isJudgeFamilyMetric m"
  by (auto simp: isJudgeMetricName_def isJudgeFamilyMetric_def startsWith_iff)

text \<open>Settling twice is settling once: the control plane re-asks what the batch committer already
  asked, and gets the same document, so the digest the receipt sealed stays valid.\<close>

theorem settle_idempotent:
  "sanitizeSubmittedResult (sanitizeSubmittedResult r d) d = sanitizeSubmittedResult r d"
proof -
  have "sanitizeScore u (Some (producer_for d u)) = u" if u: "u = sanitizeScore s (Some (producer_for d s))" for s u
  proof (cases "body u = Invalid \<and> metric u \<noteq> [] \<and> graderId u \<noteq> []")
    case True
    then show ?thesis by (simp add: sanitizeScore_def)
  next
    case False
    then have "metric u = metric s \<and> graderId u = graderId s"
      using sanitize_refused [of s "Some (producer_for d s)"] unfolding u [symmetric]
      by (elim disjE exE conjE) simp_all
    then have "producer_for d u = producer_for d s" by (intro producer_for_stable) simp_all
    with u show ?thesis by (simp only: sanitizeScore_idem)
  qed
  then show ?thesis by (simp add: sanitizeSubmittedResult_def)
qed

text \<open>Settlement costs an honest grader nothing: a row with its ids, a finite value and a metric that
  carries no built-in authority keeps its value, its pass and its names, and gains the identity of the
  grader that wrote it.\<close>

theorem honest_rows_survive:
  assumes "s \<in> set (r_scores r)" "metric s \<noteq> []" "graderId s \<noteq> []" "isMeasured s"
    and "body_value (body s) \<noteq> Some NonFinite" "\<not> isConstitutionalMetric (metric s)"
  shows "s\<lparr>measurement := Some \<lparr>m_kind = GraderKind, m_producer = graderId s, m_metric = metric s, m_criterion = None\<rparr>\<rparr>
    \<in> set (r_scores (sanitizeSubmittedResult r d))"
proof -
  let ?p = "producer_for d s"
  have nj: "\<not> isJudgeFamilyMetric (metric s)" "metric s \<notin> set RESERVED_AUTHORITY_METRICS"
    using assms(6) by (auto simp: isConstitutionalMetric_def)
  have "find (\<lambda>j. j = graderId s \<and> isJudgeMetricName (metric s) j) (sd_judges d) = None"
    using nj(1) judge_name_family by (auto simp: find_None_iff)
  then have kind: "pr_kind ?p = GraderKind" "pr_id ?p = graderId s"
    by (simp_all add: producer_for_def Let_def split: option.split)
  have "forgedMetricReason (metric s) ?p = None" using nj kind by (simp add: forgedMetricReason_def)
  moreover have "body s \<noteq> Invalid" using assms(4) by (auto simp: isMeasured_def)
  ultimately have "sanitizeScore s (Some ?p) = s\<lparr>measurement := Some (measurementIdentityOf (metric s) ?p)\<rparr>"
    using assms by (intro sanitize_honest) auto
  moreover have "measurementIdentityOf (metric s) ?p
      = \<lparr>m_kind = GraderKind, m_producer = graderId s, m_metric = metric s, m_criterion = None\<rparr>"
    using nj(1) kind by (simp add: measurementIdentityOf_def Let_def)
  ultimately show ?thesis using assms(1) by (force simp: sanitizeSubmittedResult_def)
qed

lemma honest_rows_survive_witness:
  "(demo_row ''latency'' ''latency_ms'')\<lparr>measurement := Some \<lparr>m_kind = GraderKind, m_producer = ''latency'',
       m_metric = ''latency_ms'', m_criterion = None\<rparr>\<rparr>
    \<in> set (r_scores (sanitizeSubmittedResult (demo_result\<lparr>r_scores := [demo_row ''latency'' ''latency_ms'']\<rparr>) demo_declaration))"
proof -
  have "isMeasured (demo_row ''latency'' ''latency_ms'')" "\<not> isConstitutionalMetric ''latency_ms''"
    "body_value (body (demo_row ''latency'' ''latency_ms'')) \<noteq> Some NonFinite" by code_simp+
  then show ?thesis
    using honest_rows_survive [of "demo_row ''latency'' ''latency_ms''"
        "demo_result\<lparr>r_scores := [demo_row ''latency'' ''latency_ms'']\<rparr>" demo_declaration]
    by (simp add: demo_row_def)
qed

text \<open>Two criteria of one judge never share a measurement identity: whatever a producer that emits
  the judge family calls its criteria, the collector reads back exactly the criterion it wrote.\<close>

theorem criterion_roundtrip:
  assumes "pr_kind p = JudgeKind \<or> ownsJudgeVerdict p" "c \<noteq> []"
  shows "measurementIdentityOf (criterionPrefix (judgeMetricShapeOf p) @ c) p
    = \<lparr>m_kind = pr_kind p, m_producer = pr_id p, m_metric = JUDGE_METRIC_ROOT, m_criterion = Some c\<rparr>"
proof -
  let ?m = "criterionPrefix (judgeMetricShapeOf p) @ c"
  have "isJudgeFamilyMetric ?m"
    by (auto simp: judgeMetricShapeOf_def isJudgeFamilyMetric_def startsWith_def JUDGE_METRIC_ROOT_def)
  moreover have "?m \<noteq> overall (judgeMetricShapeOf p)"
    by (auto simp: judgeMetricShapeOf_def JUDGE_METRIC_ROOT_def dest: arg_cong [of _ _ length])
  moreover have "startsWith ?m (criterionPrefix (judgeMetricShapeOf p))" by (simp add: startsWith_def)
  ultimately show ?thesis using assms by (auto simp: measurementIdentityOf_def Let_def)
qed

lemma criterion_roundtrip_witness:
  "m_criterion (measurementIdentityOf ''judge:judge:x'' \<lparr>pr_kind = GraderKind, pr_id = ''judge'', ownsMetrics = [],
      ownsJudgeVerdict = True, namespacesJudgeCriteria = True\<rparr>) = Some ''x''"
  using criterion_roundtrip [of "\<lparr>pr_kind = GraderKind, pr_id = ''judge'', ownsMetrics = [],
      ownsJudgeVerdict = True, namespacesJudgeCriteria = True\<rparr>" "''x''"]
  by (simp add: judgeMetricShapeOf_def JUDGE_METRIC_ROOT_def)

end
