(* ===== verification/Verdict.thy ===== *)
theory Verdict
  imports Scores
begin

text \<open>
  The verdict of a case: packages/domain/src/scorecard/verdict-policy.ts (the authority ladder as data,
  its composition and its evaluation) and case-outcome.ts (the denominators of a scorecard), over the
  policy vocabulary of packages/contracts/src/execution/verdict-policy.ts.

  Content digests are arguments: \<open>pdig\<close> of a policy, \<open>sdig\<close> of a score (sha-256 of canonical JSON). The map
  key \<open>dedupeByMetric\<close> builds, the metric name or the rendered coordinates of a structured identity, is
  \<open>dkey\<close>.
\<close>

subsection \<open>Policies\<close>

datatype aggregation = Priority | All_of | Any_of | Majority

datatype matcher = ExactMetric string | MetricPrefix string "nat option"

datatype criterion_match = Overall_only | Any_criterion | Criterion string

datatype verdict_role = Required | Supporting | Diagnostic | Excluded

datatype missing_policy = Invalidate_case | Exclude_metric

record metric_definition =
  d_match :: matcher
  d_producer :: "(producer_kind \<times> string option) option"
  d_criterion :: "criterion_match option"
  d_authority :: metric_authority
  d_direction :: "direction option"
  d_role :: "verdict_role option"
  d_missing :: "missing_policy option"

datatype case_matcher = ExactCase string | CasePrefix string

record verdict_policy =
  vp_structured :: bool
  vp_order :: "metric_authority list option"
  vp_id :: string
  vp_version :: string
  vp_metrics :: "metric_definition list"
  vp_ground_truth :: aggregation
  vp_objective :: aggregation
  vp_judge :: aggregation
  vp_fallback :: "aggregation option"
  vp_critical :: "case_matcher list"

definition segments :: "string \<Rightarrow> nat" where
  "segments m = Suc (count_list m (CHR '':''))"

fun metricMatches :: "matcher \<Rightarrow> string \<Rightarrow> bool" where
  "metricMatches (ExactMetric m) name = (m = name)"
| "metricMatches (MetricPrefix p segs) name =
     (if \<not> startsWith name p then False
      else (case segs of None \<Rightarrow> True | Some n \<Rightarrow> segments name = n))"

fun caseMatches :: "case_matcher \<Rightarrow> string \<Rightarrow> bool" where
  "caseMatches (ExactCase c) caseId = (c = caseId)"
| "caseMatches (CasePrefix p) caseId = startsWith caseId p"

definition rule :: "matcher \<Rightarrow> metric_authority \<Rightarrow> metric_definition" where
  "rule m a = \<lparr>d_match = m, d_producer = None, d_criterion = None, d_authority = a, d_direction = None,
     d_role = None, d_missing = None\<rparr>"

definition observed :: "string \<Rightarrow> metric_definition" where
  "observed m = (rule (ExactMetric m) Observational)\<lparr>d_direction := Some Lower_is_better\<rparr>"

definition DEFAULT_VERDICT_POLICY_V1 :: verdict_policy where
  "DEFAULT_VERDICT_POLICY_V1 = \<lparr>vp_structured = False, vp_order = None, vp_id = ''authority-ladder'',
     vp_version = ''1.0.0'',
     vp_metrics = [rule (ExactMetric ''state'') Ground_truth, rule (ExactMetric ''tests_pass'') Ground_truth,
       rule (ExactMetric ''answer_match'') Objective, rule (ExactMetric ''url_matches'') Objective,
       rule (ExactMetric ''dom_contains'') Objective, rule (ExactMetric ''judge'') Judge_rung,
       rule (MetricPrefix ''judge:'' (Some 2)) Judge_rung,
       observed ''cost_usd'', observed ''latency_ms'', observed ''tool_calls''],
     vp_ground_truth = Priority, vp_objective = All_of, vp_judge = All_of, vp_fallback = Some All_of,
     vp_critical = []\<rparr>"

definition DEFAULT_VERDICT_POLICY_V11 :: verdict_policy where
  "DEFAULT_VERDICT_POLICY_V11 = \<lparr>vp_structured = False, vp_order = None, vp_id = ''authority-ladder'',
     vp_version = ''1.1.0'',
     vp_metrics = [rule (ExactMetric ''state'') Ground_truth, rule (ExactMetric ''tests_pass'') Ground_truth,
       rule (ExactMetric ''answer_match'') Objective, rule (ExactMetric ''url_matches'') Objective,
       rule (ExactMetric ''dom_contains'') Objective, rule (ExactMetric ''judge'') Judge_rung,
       rule (MetricPrefix ''judge:'' (Some 2)) Judge_rung,
       (rule (MetricPrefix ''judge:'' None) Judge_rung)\<lparr>d_role := Some Diagnostic\<rparr>,
       observed ''cost_usd'', observed ''latency_ms'', observed ''tool_calls''],
     vp_ground_truth = Priority, vp_objective = All_of, vp_judge = All_of, vp_fallback = Some All_of,
     vp_critical = []\<rparr>"

definition DEFAULT_VERDICT_POLICY :: verdict_policy where
  "DEFAULT_VERDICT_POLICY = DEFAULT_VERDICT_POLICY_V11\<lparr>vp_version := ''2.0.0'', vp_structured := True,
     vp_metrics := [(rule (ExactMetric ''judge'') Judge_rung)\<lparr>d_criterion := Some Overall_only\<rparr>,
        (rule (ExactMetric ''judge'') Judge_rung)\<lparr>d_criterion := Some Any_criterion, d_role := Some Diagnostic\<rparr>]
        @ vp_metrics DEFAULT_VERDICT_POLICY_V11\<rparr>"

definition KNOWN_VERDICT_POLICIES :: "verdict_policy list" where
  "KNOWN_VERDICT_POLICIES = [DEFAULT_VERDICT_POLICY, DEFAULT_VERDICT_POLICY_V11, DEFAULT_VERDICT_POLICY_V1]"

subsection \<open>Resolving the policy a scorecard was stamped with\<close>

record policy_ref =
  ref_id :: string
  ref_version :: string
  ref_digest :: "string option"

datatype resolution = Resolved_policy verdict_policy | Legacy_default verdict_policy | Unresolvable policy_ref

definition digest_ok :: "(string \<Rightarrow> verdict_policy \<Rightarrow> bool) \<Rightarrow> policy_ref \<Rightarrow> verdict_policy \<Rightarrow> bool" where
  "digest_ok digestsMatch ref p = (case ref_digest ref of None \<Rightarrow> True | Some d \<Rightarrow> digestsMatch d p)"

definition resolvePolicyResolution ::
  "(string \<Rightarrow> verdict_policy \<Rightarrow> bool) \<Rightarrow> policy_ref option \<Rightarrow> verdict_policy option \<Rightarrow> resolution" where
  "resolvePolicyResolution digestsMatch ref embedded =
     (case ref of
        None \<Rightarrow> Legacy_default DEFAULT_VERDICT_POLICY_V1
      | Some r \<Rightarrow>
          (case (case embedded of None \<Rightarrow> None | Some e \<Rightarrow> if digest_ok digestsMatch r e then Some e else None) of
             Some e \<Rightarrow> Resolved_policy e
           | None \<Rightarrow>
               (case find (\<lambda>p. vp_id p = ref_id r \<and> vp_version p = ref_version r) KNOWN_VERDICT_POLICIES of
                  Some p \<Rightarrow> if digest_ok digestsMatch r p then Resolved_policy p else Unresolvable r
                | None \<Rightarrow> Unresolvable r)))"

subsection \<open>Composing a policy from declarations\<close>

definition declared_rule :: "bool \<Rightarrow> string \<Rightarrow> string \<Rightarrow> metric_authority \<Rightarrow> direction option \<Rightarrow> metric_definition" where
  "declared_rule structured spec_id m a dir =
     \<lparr>d_match = ExactMetric m, d_producer = (if structured then Some (GraderKind, Some spec_id) else None),
      d_criterion = None, d_authority = a, d_direction = dir, d_role = None, d_missing = None\<rparr>"

definition spec_additions :: "bool \<Rightarrow> grader_spec \<Rightarrow> metric_definition list" where
  "spec_additions structured g =
     (case gs_metrics g of
        Some (m # ms) \<Rightarrow>
          List.map_filter (\<lambda>m. case dm_authority m of
              None \<Rightarrow> None
            | Some a \<Rightarrow> if isConstitutionalMetric (dm_id m) then None
                        else Some (declared_rule structured (gs_id g) (dm_id m) a (dm_direction m))) (m # ms)
      | _ \<Rightarrow>
          (case gs_authority g of
             None \<Rightarrow> []
           | Some a \<Rightarrow> [declared_rule structured (gs_id g) (gs_id g) a (gs_direction g)]))"

definition composeVerdictPolicy ::
  "(verdict_policy \<Rightarrow> string) \<Rightarrow> grader_spec list \<Rightarrow> verdict_policy \<Rightarrow> case_matcher list \<Rightarrow> verdict_policy" where
  "composeVerdictPolicy hex specs base critical =
     (let additions = concat (map (spec_additions (vp_structured base)) specs) in
      if additions = [] \<and> critical = [] then base
      else
        let doc = base\<lparr>vp_id := ''composed'', vp_version := ''0'', vp_metrics := vp_metrics base @ additions,
                       vp_critical := (if critical \<noteq> [] then critical else vp_critical base)\<rparr>
        in doc\<lparr>vp_version := take 12 (hex doc)\<rparr>)"

subsection \<open>Evaluating a case\<close>

datatype dkey = ByIdentity measurement_identity | ByMetric string

record decider =
  c_metric :: string
  c_graderId :: string
  c_pass :: bool
  c_measurement :: "measurement_identity option"
  c_refs :: "(nat \<times> string) list"

datatype basis_authority = Rung metric_authority | Fallback

record verdict_basis =
  b_authority :: basis_authority
  b_aggregation :: aggregation
  b_deciders :: "decider list"
  b_policyDigest :: "string option"

datatype evaluation = No_verdict | Verdict bool verdict_basis | Invalidated string

definition combine :: "aggregation \<Rightarrow> decider list \<Rightarrow> bool" where
  "combine agg ds =
     (case agg of
        Priority \<Rightarrow> (case ds of [] \<Rightarrow> False | d # _ \<Rightarrow> c_pass d)
      | All_of \<Rightarrow> list_all c_pass ds
      | Any_of \<Rightarrow> list_ex c_pass ds
      | Majority \<Rightarrow> length ds < 2 * length (filter c_pass ds))"

definition key_of :: "bool \<Rightarrow> score \<Rightarrow> dkey" where
  "key_of structured s =
     (case (if structured then measurement s else None) of
        Some m \<Rightarrow> ByIdentity m
      | None \<Rightarrow> ByMetric (metric s))"

text \<open>One score joins the groups made so far: a new group at the end, or the group with its key.\<close>

definition join_group ::
  "(score \<Rightarrow> string) \<Rightarrow> bool \<Rightarrow> nat \<Rightarrow> score \<Rightarrow> bool \<Rightarrow> (dkey \<times> decider) list \<Rightarrow> (dkey \<times> decider) list" where
  "join_group sdig structured index s pass groups =
     (let m = (if structured then measurement s else None);
          refs = (case m of None \<Rightarrow> [] | Some _ \<Rightarrow> [(index, sdig s)]);
          key = key_of structured s
      in if key \<in> fst ` set groups then
           map (\<lambda>(k, c). if k = key
                          then (k, (if \<not> pass \<and> c_pass c then c\<lparr>c_pass := False, c_graderId := graderId s\<rparr> else c)
                                     \<lparr>c_refs := c_refs c @ refs\<rparr>)
                          else (k, c)) groups
         else groups @ [(key, \<lparr>c_metric = metric s, c_graderId = graderId s, c_pass = pass,
                               c_measurement = m, c_refs = refs\<rparr>)])"

fun group_scores ::
  "(score \<Rightarrow> string) \<Rightarrow> bool \<Rightarrow> (nat \<times> score) list \<Rightarrow> (dkey \<times> decider) list \<Rightarrow> (dkey \<times> decider) list" where
  "group_scores sdig structured [] groups = groups"
| "group_scores sdig structured ((index, s) # rest) groups =
     (case (if isMeasured s then body_pass (body s) else None) of
        None \<Rightarrow> group_scores sdig structured rest groups
      | Some pass \<Rightarrow> group_scores sdig structured rest (join_group sdig structured index s pass groups))"

definition dedupeByMetric :: "(score \<Rightarrow> string) \<Rightarrow> score list \<Rightarrow> bool \<Rightarrow> decider list" where
  "dedupeByMetric sdig scores structured =
     map snd (group_scores sdig structured (enumerate 0 scores) [])"

definition definitionMatches ::
  "metric_definition \<Rightarrow> string \<Rightarrow> measurement_identity option \<Rightarrow> bool \<Rightarrow> bool" where
  "definitionMatches def metricName m structured =
     (case (if structured then m else None) of
        None \<Rightarrow> d_producer def = None \<and> d_criterion def = None \<and> metricMatches (d_match def) metricName
      | Some i \<Rightarrow>
          if (case d_producer def of
                None \<Rightarrow> False
              | Some (k, pid) \<Rightarrow> k \<noteq> m_kind i \<or> (pid \<noteq> None \<and> pid \<noteq> Some (m_producer i))) then False
          else if d_criterion def = Some Overall_only \<and> m_criterion i \<noteq> None then False
          else if d_criterion def = Some Any_criterion \<and> m_criterion i = None then False
          else if (case d_criterion def of Some (Criterion c) \<Rightarrow> Some c \<noteq> m_criterion i | _ \<Rightarrow> False) then False
          else metricMatches (d_match def) (m_metric i))"

text \<open>The index of the first definition that matches.\<close>

fun first_index :: "('a \<Rightarrow> bool) \<Rightarrow> 'a list \<Rightarrow> nat option" where
  "first_index P [] = None"
| "first_index P (x # xs) = (if P x then Some 0 else map_option Suc (first_index P xs))"

definition def_index :: "verdict_policy \<Rightarrow> decider \<Rightarrow> nat option" where
  "def_index p c = first_index (\<lambda>d. definitionMatches d (c_metric c) (c_measurement c) (vp_structured p)) (vp_metrics p)"

definition rung_of :: "verdict_policy \<Rightarrow> metric_authority \<Rightarrow> aggregation" where
  "rung_of p a = (case a of Ground_truth \<Rightarrow> vp_ground_truth p | Objective \<Rightarrow> vp_objective p | _ \<Rightarrow> vp_judge p)"

definition authority_order :: "verdict_policy \<Rightarrow> metric_authority list" where
  "authority_order p = (case vp_order p of None \<Rightarrow> [Ground_truth, Objective, Judge_rung] | Some o' \<Rightarrow> o')"

fun missing_required :: "verdict_policy \<Rightarrow> score list \<Rightarrow> metric_definition list \<Rightarrow> string option" where
  "missing_required p measured [] = None"
| "missing_required p measured (d # ds) =
     (if d_role d \<noteq> Some Required then missing_required p measured ds
      else if (case d_missing d of None \<Rightarrow> Invalidate_case | Some x \<Rightarrow> x) \<noteq> Invalidate_case
      then missing_required p measured ds
      else if \<not> list_ex (\<lambda>s. definitionMatches d (metric s) (measurement s) (vp_structured p)) measured
      then Some (case d_match d of ExactMetric m \<Rightarrow> m | MetricPrefix q _ \<Rightarrow> q @ ''*'')
      else missing_required p measured ds)"

definition may_decide :: "verdict_policy \<Rightarrow> decider \<Rightarrow> bool" where
  "may_decide p c =
     (case def_index p c of
        None \<Rightarrow> True
      | Some i \<Rightarrow> d_role (vp_metrics p ! i) \<noteq> Some Diagnostic \<and> d_role (vp_metrics p ! i) \<noteq> Some Excluded)"

definition on_rung :: "verdict_policy \<Rightarrow> metric_authority \<Rightarrow> decider \<Rightarrow> bool" where
  "on_rung p a c = (case def_index p c of None \<Rightarrow> False | Some i \<Rightarrow> d_authority (vp_metrics p ! i) = a)"

definition rung_deciders :: "verdict_policy \<Rightarrow> metric_authority \<Rightarrow> decider list \<Rightarrow> decider list" where
  "rung_deciders p a cs = sort_key (\<lambda>c. (case def_index p c of None \<Rightarrow> 0 | Some i \<Rightarrow> i)) (filter (on_rung p a) cs)"

fun consult ::
  "(verdict_policy \<Rightarrow> string) \<Rightarrow> verdict_policy \<Rightarrow> decider list \<Rightarrow> metric_authority list \<Rightarrow> evaluation option" where
  "consult pdig p cs [] = None"
| "consult pdig p cs (a # rest) =
     (let deciders = rung_deciders p a cs; agg = rung_of p a in
      case deciders of
        [] \<Rightarrow> consult pdig p cs rest
      | first # _ \<Rightarrow>
          if vp_structured p \<and> agg = Priority then
            (let selected = filter (\<lambda>c. def_index p c = def_index p first) deciders
             in Some (Verdict (list_all c_pass selected)
                  \<lparr>b_authority = Rung a, b_aggregation = agg, b_deciders = selected,
                   b_policyDigest = Some (pdig p)\<rparr>))
          else
            Some (Verdict (combine agg deciders)
              \<lparr>b_authority = Rung a, b_aggregation = agg, b_deciders = deciders,
               b_policyDigest = (if vp_structured p then Some (pdig p) else None)\<rparr>))"

definition PRE_OUTCOME_STAGES :: "stage list" where
  "PRE_OUTCOME_STAGES = [Dispatching, Install, Running_harness]"

definition evaluateVerdict ::
  "(verdict_policy \<Rightarrow> string) \<Rightarrow> (score \<Rightarrow> string) \<Rightarrow> score list \<Rightarrow> case_failure option \<Rightarrow> verdict_policy \<Rightarrow> evaluation" where
  "evaluateVerdict pdig sdig scores failure p =
     (if (case failure of None \<Rightarrow> False
          | Some f \<Rightarrow> f_code f = ''CANCELLED'' \<or> f_stage f \<in> set PRE_OUTCOME_STAGES) then No_verdict
      else
        case missing_required p (measuredScores scores) (vp_metrics p) of
          Some m \<Rightarrow> Invalidated m
        | None \<Rightarrow>
            let candidates = filter (may_decide p) (dedupeByMetric sdig scores (vp_structured p)) in
            case consult pdig p candidates (authority_order p) of
              Some e \<Rightarrow> e
            | None \<Rightarrow>
                (case vp_fallback p of
                   None \<Rightarrow> No_verdict
                 | Some agg \<Rightarrow>
                     let rest = filter (\<lambda>c. def_index p c = None) candidates in
                     if rest = [] then No_verdict
                     else Verdict (combine agg rest)
                            \<lparr>b_authority = Fallback, b_aggregation = agg, b_deciders = rest,
                             b_policyDigest = (if vp_structured p then Some (pdig p) else None)\<rparr>))"

fun verdict_of :: "evaluation \<Rightarrow> bool option" where
  "verdict_of (Verdict v b) = Some v"
| "verdict_of e = None"

end
