(* ===== verification/VerdictLaws.thy ===== *)
theory VerdictLaws
  imports Verdict
begin

text \<open>
  What a verdict depends on. A case is read as the list of its deciding pairs (key, pass); grouping by key
  is a fold over that list, and the verdict is a function of the groups.
\<close>

subsection \<open>Deciding pairs and their groups\<close>

definition dkey_of :: "decider \<Rightarrow> dkey" where
  "dkey_of c = (case c_measurement c of Some m \<Rightarrow> ByIdentity m | None \<Rightarrow> ByMetric (c_metric c))"

definition kp :: "decider \<Rightarrow> dkey \<times> bool" where
  "kp c = (dkey_of c, c_pass c)"

definition pass_pair :: "bool \<Rightarrow> score \<Rightarrow> (dkey \<times> bool) option" where
  "pass_pair st s = (if isMeasured s then map_option (Pair (key_of st s)) (body_pass (body s)) else None)"

definition pass_pairs :: "bool \<Rightarrow> score list \<Rightarrow> (dkey \<times> bool) list" where
  "pass_pairs st scores = List.map_filter (pass_pair st) scores"

definition merge_in :: "dkey \<times> bool \<Rightarrow> (dkey \<times> bool) list \<Rightarrow> (dkey \<times> bool) list" where
  "merge_in x acc =
     (if fst x \<in> fst ` set acc
      then map (\<lambda>y. if fst y = fst x then (fst y, snd y \<and> snd x) else y) acc
      else acc @ [x])"

definition groups_of :: "(dkey \<times> bool) list \<Rightarrow> (dkey \<times> bool) list" where
  "groups_of v = fold merge_in v []"

lemma join_group_kp:
  assumes "\<forall>(k, c) \<in> set gs. dkey_of c = k"
  shows "(\<forall>(k, c) \<in> set (join_group sd st i s b gs). dkey_of c = k)
    \<and> map (kp \<circ> snd) (join_group sd st i s b gs) = merge_in (key_of st s, b) (map (kp \<circ> snd) gs)"
proof -
  have keys: "fst ` set gs = fst ` set (map (kp \<circ> snd) gs)"
    using assms by (force simp: kp_def image_iff)
  have new: "dkey_of \<lparr>c_metric = metric s, c_graderId = g, c_pass = b,
      c_measurement = (if st then measurement s else None), c_refs = r\<rparr> = key_of st s" for g r
    by (simp add: dkey_of_def key_of_def split: option.split)
  have upd: "dkey_of (c\<lparr>c_pass := x, c_graderId := g\<rparr>) = dkey_of c" "dkey_of (c\<lparr>c_refs := r\<rparr>) = dkey_of c" for c x g r
    by (simp_all add: dkey_of_def split: option.split)
  show ?thesis
  proof (cases "key_of st s \<in> fst ` set gs")
    case True
    then show ?thesis
      using assms keys
      by (auto simp: join_group_def merge_in_def Let_def kp_def upd split: if_splits)
  next
    case False
    then show ?thesis
      using assms keys by (auto simp: join_group_def merge_in_def Let_def kp_def new)
  qed
qed

lemma group_scores_kp:
  assumes "\<forall>(k, c) \<in> set gs. dkey_of c = k"
  shows "map (kp \<circ> snd) (group_scores sd st xs gs) = fold merge_in (pass_pairs st (map snd xs)) (map (kp \<circ> snd) gs)"
  using assms
proof (induction sd st xs gs rule: group_scores.induct)
  case (2 sd st i s rest gs)
  show ?case
  proof (cases "pass_pair st s")
    case None
    then show ?thesis
      using 2 by (auto simp: pass_pair_def pass_pairs_def List.map_filter_simps split: if_splits)
  next
    case (Some x)
    then obtain b where "isMeasured s" "body_pass (body s) = Some b" "x = (key_of st s, b)"
      by (auto simp: pass_pair_def split: if_splits)
    then show ?thesis
      using 2 join_group_kp [OF 2(3), of sd st i s b] Some
      by (simp add: pass_pairs_def List.map_filter_simps comp_def)
  qed
qed (simp add: pass_pairs_def List.map_filter_simps)

lemma dedupe_kp: "map kp (dedupeByMetric sd scores st) = groups_of (pass_pairs st scores)"
  using group_scores_kp [of "[]" sd st "enumerate 0 scores"]
  by (simp add: dedupeByMetric_def groups_of_def comp_def)

lemma merge_filter:
  "filter (\<lambda>y. P (fst y)) (merge_in x acc) =
     (if P (fst x) then merge_in x (filter (\<lambda>y. P (fst y)) acc) else filter (\<lambda>y. P (fst y)) acc)"
proof -
  have "fst x \<in> fst ` set (filter (\<lambda>y. P (fst y)) acc) \<longleftrightarrow> fst x \<in> fst ` set acc" if "P (fst x)"
    using that by force
  moreover have "filter (\<lambda>y. P (fst y)) (map (\<lambda>y. if fst y = fst x then (fst y, snd y \<and> snd x) else y) acc)
      = map (\<lambda>y. if fst y = fst x then (fst y, snd y \<and> snd x) else y) (filter (\<lambda>y. P (fst y)) acc)"
    by (induction acc) auto
  moreover have "map (\<lambda>y. if fst y = fst x then (fst y, snd y \<and> snd x) else y) (filter (\<lambda>y. P (fst y)) acc)
      = filter (\<lambda>y. P (fst y)) acc" if "\<not> P (fst x)"
    using that by (intro map_idI) auto
  ultimately show ?thesis by (simp add: merge_in_def)
qed

lemma groups_filter:
  "filter (\<lambda>y. P (fst y)) (groups_of v) = groups_of (filter (\<lambda>y. P (fst y)) v)"
proof -
  have "filter (\<lambda>y. P (fst y)) (fold merge_in v acc) = fold merge_in (filter (\<lambda>y. P (fst y)) v) (filter (\<lambda>y. P (fst y)) acc)"
    for acc by (induction v arbitrary: acc) (simp_all add: merge_filter)
  then show ?thesis by (simp add: groups_of_def)
qed

lemma merge_keys:
  "map fst (merge_in x acc) = (if fst x \<in> set (map fst acc) then map fst acc else map fst acc @ [fst x])"
  by (simp add: merge_in_def comp_def if_distrib cong: if_cong)

lemma upd_image:
  "(k, b) \<in> (\<lambda>y. if fst y = kx then (fst y, snd y \<and> bx) else y) ` S \<longleftrightarrow>
     (if k = kx then \<exists>c. (kx, c) \<in> S \<and> b = (c \<and> bx) else (k, b) \<in> S)"
proof (cases "k = kx")
  case True
  have "(kx, b) \<in> (\<lambda>y. if fst y = kx then (fst y, snd y \<and> bx) else y) ` S \<longleftrightarrow> (\<exists>y \<in> S. fst y = kx \<and> b = (snd y \<and> bx))"
    unfolding image_iff by (rule bex_cong) (auto simp: prod_eq_iff)
  also have "\<dots> \<longleftrightarrow> (\<exists>c. (kx, c) \<in> S \<and> b = (c \<and> bx))" by force
  finally show ?thesis using True by simp
next
  case False
  have "(k, b) \<in> (\<lambda>y. if fst y = kx then (fst y, snd y \<and> bx) else y) ` S \<longleftrightarrow> (\<exists>y \<in> S. y = (k, b))"
    unfolding image_iff using False by (intro bex_cong) (auto simp: prod_eq_iff)
  with False show ?thesis by simp
qed

lemma groups_inv:
  "distinct (map fst (groups_of v)) \<and>
   set (groups_of v) = {(k, b). k \<in> fst ` set v \<and> (b \<longleftrightarrow> (\<forall>b'. (k, b') \<in> set v \<longrightarrow> b'))}"
proof (induction v rule: rev_induct)
  case Nil
  show ?case by (simp add: groups_of_def)
next
  case (snoc x v)
  have step: "groups_of (v @ [x]) = merge_in x (groups_of v)" by (simp add: groups_of_def)
  have keys: "fst ` {(k, b). k \<in> A \<and> (b \<longleftrightarrow> Q k)} = A" for A :: "dkey set" and Q
    by (auto simp: image_iff)
  have keys: "fst ` set (groups_of v) = fst ` set v"
    unfolding conjunct2 [OF snoc] by (rule keys)
  have dist: "distinct (map fst (merge_in x (groups_of v)))"
    using conjunct1 [OF snoc] by (simp add: merge_keys)
  obtain kx bx where x: "x = (kx, bx)" by (cases x)
  have mem: "(k, b) \<in> set (groups_of v) \<longleftrightarrow> k \<in> fst ` set v \<and> (b \<longleftrightarrow> (\<forall>b'. (k, b') \<in> set v \<longrightarrow> b'))" for k b
    unfolding conjunct2 [OF snoc] by simp
  have "(k, b) \<in> set (merge_in x (groups_of v)) \<longleftrightarrow>
      k \<in> fst ` set (v @ [x]) \<and> (b \<longleftrightarrow> (\<forall>b'. (k, b') \<in> set (v @ [x]) \<longrightarrow> b'))" for k b
  proof (cases "kx \<in> fst ` set v")
    case False
    then have "\<And>b'. (kx, b') \<notin> set v" by force
    with False show ?thesis by (auto simp: merge_in_def keys x mem)
  next
    case True
    have "(k, b) \<in> set (merge_in x (groups_of v)) \<longleftrightarrow>
        (if k = kx then (\<exists>c. (kx, c) \<in> set (groups_of v) \<and> b = (c \<and> bx)) else (k, b) \<in> set (groups_of v))"
      using True by (simp only: merge_in_def keys x fst_conv snd_conv if_True set_map upd_image)
    then show ?thesis using True by (auto simp: mem x)
  qed
  then have "set (merge_in x (groups_of v))
      = {(k, b). k \<in> fst ` set (v @ [x]) \<and> (b \<longleftrightarrow> (\<forall>b'. (k, b') \<in> set (v @ [x]) \<longrightarrow> b'))}"
    by auto
  with dist step show ?case by simp
qed

lemma groups_perm:
  assumes "set v = set v'"
  shows "mset (groups_of v) = mset (groups_of v')"
proof -
  have "set (groups_of v) = set (groups_of v')" using groups_inv [of v] groups_inv [of v'] assms by simp
  moreover have "distinct (groups_of w)" for w using groups_inv [of w] distinct_map by blast
  ultimately show ?thesis by (simp add: set_eq_iff_mset_eq_distinct)
qed

subsection \<open>The verdict as a function of the groups\<close>

definition kdef :: "verdict_policy \<Rightarrow> dkey \<Rightarrow> nat option" where
  "kdef p k = first_index (\<lambda>d. case k of ByIdentity i \<Rightarrow> definitionMatches d [] (Some i) (vp_structured p)
                              | ByMetric m \<Rightarrow> definitionMatches d m None (vp_structured p)) (vp_metrics p)"

definition krank :: "verdict_policy \<Rightarrow> dkey \<Rightarrow> nat" where
  "krank p k = (case kdef p k of None \<Rightarrow> 0 | Some i \<Rightarrow> i)"

definition kmay :: "verdict_policy \<Rightarrow> dkey \<Rightarrow> bool" where
  "kmay p k = (case kdef p k of None \<Rightarrow> True
     | Some i \<Rightarrow> d_role (vp_metrics p ! i) \<noteq> Some Diagnostic \<and> d_role (vp_metrics p ! i) \<noteq> Some Excluded)"

definition krung :: "verdict_policy \<Rightarrow> metric_authority \<Rightarrow> dkey \<Rightarrow> bool" where
  "krung p a k = (case kdef p k of None \<Rightarrow> False | Some i \<Rightarrow> d_authority (vp_metrics p ! i) = a)"

definition vote :: "aggregation \<Rightarrow> bool list \<Rightarrow> bool" where
  "vote agg bs = (case agg of
      Priority \<Rightarrow> (case bs of [] \<Rightarrow> False | b # _ \<Rightarrow> b)
    | All_of \<Rightarrow> list_all (\<lambda>b. b) bs
    | Any_of \<Rightarrow> list_ex (\<lambda>b. b) bs
    | Majority \<Rightarrow> length bs < 2 * length (filter (\<lambda>b. b) bs))"

fun spec_consult :: "verdict_policy \<Rightarrow> (dkey \<times> bool) list \<Rightarrow> metric_authority list \<Rightarrow> bool option" where
  "spec_consult p v [] = None"
| "spec_consult p v (a # rest) =
     (case sort_key (\<lambda>y. krank p (fst y)) (filter (\<lambda>y. krung p a (fst y)) v) of
        [] \<Rightarrow> spec_consult p v rest
      | first # ys \<Rightarrow>
          Some (if vp_structured p \<and> rung_of p a = Priority
                then list_all snd (filter (\<lambda>y. kdef p (fst y) = kdef p (fst first)) (first # ys))
                else vote (rung_of p a) (map snd (first # ys))))"

definition spec_verdict :: "verdict_policy \<Rightarrow> (dkey \<times> bool) list \<Rightarrow> bool option" where
  "spec_verdict p v =
     (case spec_consult p v (authority_order p) of
        Some b \<Rightarrow> Some b
      | None \<Rightarrow>
          (case vp_fallback p of
             None \<Rightarrow> None
           | Some agg \<Rightarrow>
               let rest = filter (\<lambda>y. kdef p (fst y) = None) v
               in if rest = [] then None else Some (vote agg (map snd rest))))"

definition coherent :: "verdict_policy \<Rightarrow> decider \<Rightarrow> bool" where
  "coherent p c \<longleftrightarrow> vp_structured p \<or> c_measurement c = None"

lemma def_index_kdef: "coherent p c \<Longrightarrow> def_index p c = kdef p (dkey_of c)"
  by (cases "c_measurement c")
    (auto simp: coherent_def def_index_def kdef_def dkey_of_def definitionMatches_def)

lemma groups_keys: "fst ` set (groups_of v) = fst ` set v"
proof -
  have "fst ` {(k, b). k \<in> A \<and> (b \<longleftrightarrow> Q k)} = A" for A :: "dkey set" and Q
    by (auto simp: image_iff)
  then show ?thesis unfolding conjunct2 [OF groups_inv] .
qed

lemma dedupe_coherent:
  assumes "c \<in> set (dedupeByMetric sd scores (vp_structured p))"
  shows "coherent p c"
proof (cases "vp_structured p")
  case False
  have "dkey_of c \<in> fst ` set (groups_of (pass_pairs False scores))"
  proof -
    have "kp c \<in> set (map kp (dedupeByMetric sd scores False))" using assms False by simp
    then have "fst (kp c) \<in> fst ` set (groups_of (pass_pairs False scores))" unfolding dedupe_kp by (rule imageI)
    then show ?thesis by (simp add: kp_def)
  qed
  also have "\<dots> = fst ` set (pass_pairs False scores)" by (rule groups_keys)
  finally have "\<exists>s. dkey_of c = key_of False s"
    by (auto simp: pass_pairs_def List.map_filter_def pass_pair_def split: if_splits)
  then have "c_measurement c = None" by (auto simp: dkey_of_def key_of_def split: option.splits)
  then show ?thesis by (simp add: coherent_def)
qed (simp add: coherent_def)

lemma map_sort_key: "map f (sort_key (\<lambda>x. g (f x)) xs) = sort_key g (map f xs)"
proof -
  have "map f (insort_key (\<lambda>x. g (f x)) y ys) = insort_key g (f y) (map f ys)" for y ys
    by (induction ys) auto
  then show ?thesis by (induction xs) auto
qed

lemma sort_key_cong_set: "(\<And>x. x \<in> set xs \<Longrightarrow> f x = g x) \<Longrightarrow> sort_key f xs = sort_key g xs"
proof (induction xs)
  case (Cons x xs)
  have "insort_key f x ys = insort_key g x ys" if "\<And>z. z \<in> insert x (set ys) \<Longrightarrow> f z = g z" for ys
    using that by (induction ys) auto
  then have "insort_key f x (sort_key g xs) = insort_key g x (sort_key g xs)"
    by - (drule meta_spec [of _ "sort_key g xs"], use Cons.prems in auto)
  then show ?case using Cons by simp
qed simp

lemma rung_deciders_kp:
  assumes "\<forall>c \<in> set cs. coherent p c"
  shows "map kp (rung_deciders p a cs) = sort_key (\<lambda>y. krank p (fst y)) (filter (\<lambda>y. krung p a (fst y)) (map kp cs))"
proof -
  have rank: "(case def_index p c of None \<Rightarrow> 0 | Some i \<Rightarrow> i) = krank p (fst (kp c))" if "c \<in> set cs" for c
    using assms that by (simp add: krank_def def_index_kdef kp_def)
  have "filter (on_rung p a) cs = filter (\<lambda>c. krung p a (fst (kp c))) cs"
    using assms by (intro filter_cong) (simp_all add: on_rung_def krung_def def_index_kdef kp_def)
  then have "rung_deciders p a cs = sort_key (\<lambda>c. krank p (fst (kp c))) (filter (\<lambda>c. krung p a (fst (kp c))) cs)"
    using rank unfolding rung_deciders_def by (simp, intro sort_key_cong_set) auto
  then show ?thesis
    by (simp add: map_sort_key [of kp "\<lambda>y. krank p (fst y)"] filter_map comp_def)
qed

lemma rung_deciders_sub: "set (rung_deciders p a cs) \<subseteq> set cs"
  by (auto simp: rung_deciders_def)

lemma combine_vote: "combine agg ds = vote agg (map c_pass ds)"
  by (auto simp: combine_def vote_def list_all_iff list_ex_iff filter_map comp_def split: aggregation.split list.split)

lemma consult_spec:
  assumes "\<forall>c \<in> set cs. coherent p c"
  shows "map_option (\<lambda>e. the (verdict_of e)) (consult pdig p cs as) = spec_consult p (map kp cs) as
    \<and> (\<forall>e. consult pdig p cs as = Some e \<longrightarrow> verdict_of e \<noteq> None)"
proof (induction as)
  case (Cons a as)
  note view = rung_deciders_kp [OF assms, of a]
  show ?case
  proof (cases "rung_deciders p a cs")
    case Nil
    then show ?thesis using Cons view by simp
  next
    case (Cons c ds)
    have coh: "coherent p x" if "x \<in> set (c # ds)" for x
      using that assms rung_deciders_sub [of p a cs] Cons by auto
    have sp: "sort_key (\<lambda>y. krank p (fst y)) (filter (\<lambda>y. krung p a (fst y)) (map kp cs)) = kp c # map kp ds"
      using view Cons by simp
    have "filter (\<lambda>y. kdef p (fst y) = kdef p (fst (kp c))) (map kp (c # ds))
        = map kp (filter (\<lambda>x. def_index p x = def_index p c) (c # ds))"
      unfolding filter_map comp_def
      using coh by (intro arg_cong [of _ _ "map kp"] filter_cong refl) (simp add: def_index_kdef kp_def)
    moreover have "list_all snd (map kp xs) = list_all c_pass xs" for xs
      by (simp add: list_all_iff kp_def)
    moreover have "snd (kp c) = c_pass c" by (simp add: kp_def)
    ultimately have sel: "list_all snd (filter (\<lambda>y. kdef p (fst y) = kdef p (fst (kp c))) (kp c # map kp ds))
        = list_all c_pass (filter (\<lambda>x. def_index p x = def_index p c) (c # ds))" by simp
    have vt: "vote agg (map snd (kp c # map kp ds)) = combine agg (c # ds)" for agg
      by (simp add: combine_vote kp_def comp_def)
    have "spec_consult p (map kp cs) (a # as) = Some (if vp_structured p \<and> rung_of p a = Priority
        then list_all snd (filter (\<lambda>y. kdef p (fst y) = kdef p (fst (kp c))) (kp c # map kp ds))
        else vote (rung_of p a) (map snd (kp c # map kp ds)))"
      by (simp only: spec_consult.simps sp list.case)
    then show ?thesis
      unfolding sel vt by (simp add: Cons Let_def del: filter.simps)
  qed
qed simp

text \<open>The evaluation refines the specification: its verdict is that of the groups.\<close>

lemma evaluate_spec:
  assumes "\<not> (case failure of None \<Rightarrow> False
          | Some f \<Rightarrow> f_code f = ''CANCELLED'' \<or> f_stage f \<in> set PRE_OUTCOME_STAGES)"
    and "missing_required p (measuredScores scores) (vp_metrics p) = None"
  shows "verdict_of (evaluateVerdict pdig sd scores failure p) =
    spec_verdict p (filter (\<lambda>y. kmay p (fst y)) (groups_of (pass_pairs (vp_structured p) scores)))"
proof -
  let ?cs = "filter (may_decide p) (dedupeByMetric sd scores (vp_structured p))"
  have coh: "\<forall>c \<in> set (dedupeByMetric sd scores (vp_structured p)). coherent p c"
    using dedupe_coherent by blast
  have "?cs = filter (\<lambda>c. kmay p (fst (kp c))) (dedupeByMetric sd scores (vp_structured p))"
    using coh by (intro filter_cong refl) (simp add: may_decide_def kmay_def def_index_kdef kp_def)
  then have view: "map kp ?cs = filter (\<lambda>y. kmay p (fst y)) (groups_of (pass_pairs (vp_structured p) scores))"
    unfolding dedupe_kp [of sd, symmetric] by (simp add: filter_map comp_def)
  have coh': "\<forall>c \<in> set ?cs. coherent p c" using coh by auto
  have rest: "filter (\<lambda>y. kdef p (fst y) = None) (map kp ?cs) = map kp (filter (\<lambda>c. def_index p c = None) ?cs)"
    unfolding filter_map comp_def
    using coh' by (intro arg_cong [of _ _ "map kp"] filter_cong refl) (simp add: def_index_kdef kp_def)
  have "map snd (map kp xs) = map c_pass xs" for xs by (simp add: kp_def)
  then have snds: "map snd (filter (\<lambda>y. kdef p (fst y) = None) (map kp ?cs)) = map c_pass (filter (\<lambda>c. def_index p c = None) ?cs)"
    unfolding rest .
  have empty: "filter (\<lambda>y. kdef p (fst y) = None) (map kp ?cs) = [] \<longleftrightarrow> filter (\<lambda>c. def_index p c = None) ?cs = []"
    unfolding rest by (rule map_is_Nil_conv)
  note spec = consult_spec [OF coh', of pdig "authority_order p"]
  show ?thesis
  proof (cases "consult pdig p ?cs (authority_order p)")
    case None
    then have "spec_consult p (map kp ?cs) (authority_order p) = None" using spec by simp
    then show ?thesis
      unfolding view [symmetric] spec_verdict_def evaluateVerdict_def Let_def assms(2) None if_not_P [OF assms(1)]
        option.case snds empty
      by (simp add: combine_vote split: option.split)
  next
    case (Some e)
    then have "spec_consult p (map kp ?cs) (authority_order p) = verdict_of e" using spec by auto
    moreover obtain b where "verdict_of e = Some b" using spec Some by auto
    ultimately show ?thesis
      unfolding view [symmetric] spec_verdict_def evaluateVerdict_def Let_def assms(2) Some if_not_P [OF assms(1)]
        option.case
      by simp
  qed
qed

subsection \<open>Order, holes and the ladder\<close>

text \<open>Policies under which no decider wins by standing first: the fallback does not let it, and a rung that does is structured, or
  its definitions name one metric each, so that each of them has at most one decider.\<close>

definition names_one_metric :: "metric_definition \<Rightarrow> bool" where
  "names_one_metric d \<longleftrightarrow> (case d_match d of ExactMetric m \<Rightarrow> True | MetricPrefix q n \<Rightarrow> False)"

definition order_free :: "verdict_policy \<Rightarrow> bool" where
  "order_free p \<longleftrightarrow> vp_fallback p \<noteq> Some Priority
     \<and> (vp_structured p \<or> list_all (\<lambda>d. rung_of p (d_authority d) = Priority \<longrightarrow> names_one_metric d) (vp_metrics p))"

text \<open>The groups a policy votes on: keyed once each, and by the name of the metric alone when it is not structured.\<close>

definition plain_keys :: "verdict_policy \<Rightarrow> (dkey \<times> bool) list \<Rightarrow> bool" where
  "plain_keys p v \<longleftrightarrow> distinct (map fst v) \<and> (vp_structured p \<or> (\<forall>k \<in> fst ` set v. \<exists>m. k = ByMetric m))"

lemma first_index_holds: "first_index P xs = Some i \<Longrightarrow> i < length xs \<and> P (xs ! i)"
  by (induction xs arbitrary: i) (auto split: if_splits option.splits)

lemma same_definition_same_key:
  assumes "order_free p" "\<not> vp_structured p" "rung_of p a = Priority" "plain_keys p v"
    and "y \<in> set v" "y' \<in> set v" "krung p a (fst y)" "krung p a (fst y')" "kdef p (fst y) = kdef p (fst y')"
  shows "y = y'"
proof -
  have "\<exists>m. fst z = ByMetric m" if "z \<in> set v" for z
    using assms(2,4) that by (simp add: plain_keys_def)
  then obtain m m' where keys: "fst y = ByMetric m" "fst y' = ByMetric m'" using assms(5,6) by meson
  obtain i where i: "kdef p (fst y) = Some i" "d_authority (vp_metrics p ! i) = a"
    using assms(7) by (auto simp: krung_def split: option.splits)
  have i': "kdef p (fst y') = Some i" using i(1) assms(9) by simp
  have at: "i < length (vp_metrics p)" "metricMatches (d_match (vp_metrics p ! i)) m" "metricMatches (d_match (vp_metrics p ! i)) m'"
    using first_index_holds [OF i(1) [unfolded kdef_def]] first_index_holds [OF i' [unfolded kdef_def]] unfolding keys
    by (simp_all add: definitionMatches_def)
  have "names_one_metric (vp_metrics p ! i)"
    using assms(1,2,3) i(2) at(1) by (auto simp: order_free_def list_all_length)
  then have "m = m'" using at(2,3) by (auto simp: names_one_metric_def split: matcher.splits)
  then show ?thesis
    using assms(4,5,6) keys by (metis (no_types, lifting) distinct_map inj_onD plain_keys_def)
qed

lemma vote_perm: "agg \<noteq> Priority \<Longrightarrow> mset bs = mset bs' \<Longrightarrow> vote agg bs = vote agg bs'"
proof -
  assume a: "agg \<noteq> Priority" "mset bs = mset bs'"
  have "set bs = set bs'" "length bs = length bs'" using a(2) by (metis mset_eq_setD, metis size_mset)
  moreover have "length (filter (\<lambda>b. b) bs) = length (filter (\<lambda>b. b) bs')"
    using arg_cong [OF a(2), of "\<lambda>M. size (filter_mset (\<lambda>b. b) M)"] by (simp flip: mset_filter)
  ultimately show ?thesis using a(1) by (cases agg) (simp_all add: vote_def list_all_iff list_ex_iff)
qed

lemma first_is_least:
  assumes "sort_key f xs = y # ys"
  shows "y \<in> set xs \<and> (\<forall>x \<in> set xs. f y \<le> f x)"
proof -
  have "set (y # ys) = set xs" by (metis assms set_sort)
  moreover have "sorted (map f (y # ys))" by (metis assms sorted_sort_key)
  ultimately show ?thesis by auto
qed

lemma krung_any: "krung p a k \<Longrightarrow> krung p a' k' \<Longrightarrow> kdef p k = kdef p k' \<longleftrightarrow> krank p k = krank p k'"
  by (auto simp: krung_def krank_def split: option.splits)

lemma rung_of_cases: "rung_of p a \<in> {rung_of p Ground_truth, rung_of p Objective, rung_of p Judge_rung}"
  by (cases a) (simp_all add: rung_of_def)

lemma spec_consult_perm:
  assumes "mset v = mset v'" "order_free p" "plain_keys p v"
  shows "spec_consult p v as = spec_consult p v' as"
proof (induction as)
  case (Cons a as)
  let ?f = "\<lambda>y. krank p (fst y)"
  let ?w = "filter (\<lambda>y. krung p a (fst y)) v" and ?w' = "filter (\<lambda>y. krung p a (fst y)) v'"
  have perm: "mset ?w = mset ?w'" using assms(1) by (simp add: mset_filter)
  then have same: "set ?w = set ?w'" by (rule mset_eq_setD)
  show ?case
  proof (cases "sort_key ?f ?w")
    case Nil
    then have "?w = []" by (metis set_sort set_empty)
    then have "sort_key ?f ?w' = []" using same by (metis set_sort set_empty)
    with Nil Cons show ?thesis by simp
  next
    case w: (Cons y ys)
    then obtain y' ys' where w': "sort_key ?f ?w' = y' # ys'"
      using same by (metis set_sort set_empty neq_Nil_conv list.distinct(1))
    note least = first_is_least [OF w] first_is_least [OF w']
    have "?f y = ?f y'" using least same by (metis order_antisym)
    then have key: "kdef p (fst y) = kdef p (fst y')"
      using least krung_any [of p a "fst y" a "fst y'"] by auto
    have ms: "mset (y # ys) = mset (y' # ys')" using perm by (metis w w' mset_sort)
    then have st: "set (y # ys) = set (y' # ys')" by (rule mset_eq_setD)
    have sel: "list_all snd (filter (\<lambda>z. kdef p (fst z) = kdef p (fst y)) (y # ys))
        = list_all snd (filter (\<lambda>z. kdef p (fst z) = kdef p (fst y')) (y' # ys'))"
      unfolding list_all_iff set_filter key st ..
    have vt: "vote agg (map snd (y # ys)) = vote agg (map snd (y' # ys'))" if "agg \<noteq> Priority" for agg
      by (rule vote_perm [OF that]) (simp only: mset_map ms)
    have "y = y'" if "\<not> vp_structured p" "rung_of p a = Priority"
    proof (rule same_definition_same_key [OF assms(2) that assms(3)])
      show "y \<in> set v" "y' \<in> set v" "krung p a (fst y)" "krung p a (fst y')" "kdef p (fst y) = kdef p (fst y')"
        using least key mset_eq_setD [OF assms(1)] by auto
    qed
    then have pr: "\<not> vp_structured p \<Longrightarrow> rung_of p a = Priority
        \<Longrightarrow> vote (rung_of p a) (map snd (y # ys)) = vote (rung_of p a) (map snd (y' # ys'))"
      by (simp add: vote_def)
    show ?thesis
      unfolding spec_consult.simps w w' list.case sel
      using vt pr by (cases "rung_of p a = Priority"; cases "vp_structured p") (simp_all del: list.map)
  qed
qed simp

lemma spec_verdict_perm:
  assumes "mset v = mset v'" "order_free p" "plain_keys p v"
  shows "spec_verdict p v = spec_verdict p v'"
proof -
  let ?r = "\<lambda>v. filter (\<lambda>y. kdef p (fst y) = None) v"
  have ms: "mset (?r v) = mset (?r v')" using assms(1) by (simp add: mset_filter)
  then have "?r v = [] \<longleftrightarrow> ?r v' = []" by (metis mset_zero_iff)
  moreover have "vote agg (map snd (?r v)) = vote agg (map snd (?r v'))" if "vp_fallback p = Some agg" for agg
    using that assms(2) ms by (intro vote_perm) (auto simp: order_free_def)
  ultimately show ?thesis
    using spec_consult_perm [OF assms] by (simp add: spec_verdict_def Let_def split: option.split)
qed

lemma plain_groups: "plain_keys p (filter (\<lambda>y. P (fst y)) (groups_of (pass_pairs (vp_structured p) scores)))"
proof -
  have "\<exists>m. k = ByMetric m" if "\<not> vp_structured p" "k \<in> fst ` set (groups_of (pass_pairs (vp_structured p) scores))" for k
    using that by (auto simp: groups_keys pass_pairs_def List.map_filter_def pass_pair_def key_of_def split: if_splits)
  moreover have "distinct (map fst (filter (\<lambda>y. P (fst y)) (groups_of (pass_pairs (vp_structured p) scores))))"
    using groups_inv [of "pass_pairs (vp_structured p) scores"] by (simp add: distinct_map_filter)
  moreover have "fst ` set (filter (\<lambda>y. P (fst y)) v) \<subseteq> fst ` set v" for v :: "(dkey \<times> bool) list"
    by (rule image_mono) simp
  ultimately show ?thesis unfolding plain_keys_def by (meson subsetD)
qed

lemma missing_required_set:
  "set xs = set ys \<Longrightarrow> missing_required p xs ds = missing_required p ys ds"
  by (induction ds) (simp_all add: list_ex_iff)

lemma evaluate_early:
  assumes "(case failure of None \<Rightarrow> False
          | Some f \<Rightarrow> f_code f = ''CANCELLED'' \<or> f_stage f \<in> set PRE_OUTCOME_STAGES)
      \<or> missing_required p (measuredScores scores) (vp_metrics p) \<noteq> None"
  shows "verdict_of (evaluateVerdict pdig sd scores failure p) = None"
  using assms by (auto simp: evaluateVerdict_def)

text \<open>Cases with the same measured pairs, and the same required metrics measured, have the same verdict.\<close>

lemma evaluate_cong:
  assumes "missing_required p (measuredScores xs) (vp_metrics p) = missing_required p (measuredScores ys) (vp_metrics p)"
    and "spec_verdict p (filter (\<lambda>y. kmay p (fst y)) (groups_of (pass_pairs (vp_structured p) xs)))
       = spec_verdict p (filter (\<lambda>y. kmay p (fst y)) (groups_of (pass_pairs (vp_structured p) ys)))"
  shows "verdict_of (evaluateVerdict pdig sd xs failure p) = verdict_of (evaluateVerdict pdig sd ys failure p)"
proof (cases "(case failure of None \<Rightarrow> False
      | Some f \<Rightarrow> f_code f = ''CANCELLED'' \<or> f_stage f \<in> set PRE_OUTCOME_STAGES)
    \<or> missing_required p (measuredScores xs) (vp_metrics p) \<noteq> None")
  case True
  then show ?thesis
    using evaluate_early [of failure p xs pdig sd] evaluate_early [of failure p ys pdig sd] assms(1) by simp
next
  case False
  then show ?thesis
    using evaluate_spec [of failure p xs pdig sd] evaluate_spec [of failure p ys pdig sd] assms by simp
qed

text \<open>C10. A verdict does not depend on the order in which graders report, duplicates included, under a policy in which no decider
  wins by standing first: the fallback rule is not \<open>Priority\<close>, and the policy is structured or each definition on a rung under
  \<open>Priority\<close> names one metric. The default policy and the two legacy ladders are such policies.\<close>

theorem verdict_order_free:
  assumes "order_free p" "mset xs = mset ys"
  shows "verdict_of (evaluateVerdict pdig sd xs failure p) = verdict_of (evaluateVerdict pdig sd ys failure p)"
proof (rule evaluate_cong)
  have "set xs = set ys" by (rule mset_eq_setD [OF assms(2)])
  then have ms: "set (measuredScores xs) = set (measuredScores ys)"
    and pp: "set (pass_pairs st xs) = set (pass_pairs st ys)" for st
    by (simp_all add: measuredScores_def pass_pairs_def List.map_filter_def)
  show "missing_required p (measuredScores xs) (vp_metrics p) = missing_required p (measuredScores ys) (vp_metrics p)"
    by (rule missing_required_set [OF ms])
  show "spec_verdict p (filter (\<lambda>y. kmay p (fst y)) (groups_of (pass_pairs (vp_structured p) xs)))
       = spec_verdict p (filter (\<lambda>y. kmay p (fst y)) (groups_of (pass_pairs (vp_structured p) ys)))"
    by (rule spec_verdict_perm [OF _ assms(1) plain_groups]) (simp only: mset_filter groups_perm [OF pp])
qed

text \<open>What was not measured decides nothing: the verdict of a case is the verdict of its measured
  rows, whatever failed, skipped or refused rows stand beside them.\<close>

theorem only_measurements_decide:
  "verdict_of (evaluateVerdict pdig sd scores failure p)
    = verdict_of (evaluateVerdict pdig sd (measuredScores scores) failure p)"
proof (rule evaluate_cong)
  have "pass_pairs st (measuredScores scores) = pass_pairs st scores" for st
    by (induction scores) (simp_all add: pass_pairs_def measuredScores_def List.map_filter_simps pass_pair_def split: option.split)
  then show "spec_verdict p (filter (\<lambda>y. kmay p (fst y)) (groups_of (pass_pairs (vp_structured p) scores)))
      = spec_verdict p (filter (\<lambda>y. kmay p (fst y)) (groups_of (pass_pairs (vp_structured p) (measuredScores scores))))"
    by simp
qed (simp add: measuredScores_def)

lemma known_policies_order_free: "list_all order_free KNOWN_VERDICT_POLICIES"
  by code_simp

lemma default_order_free: "order_free DEFAULT_VERDICT_POLICY"
  using known_policies_order_free by (simp add: KNOWN_VERDICT_POLICIES_def)

text \<open>The condition is needed: under a fallback by priority, of two rows the policy does not know the first decides.\<close>

definition first_row_policy :: verdict_policy where
  "first_row_policy = DEFAULT_VERDICT_POLICY\<lparr>vp_fallback := Some Priority\<rparr>"

lemma first_row_decides:
  "verdict_of (evaluateVerdict (\<lambda>p. ''d'') (\<lambda>s. ''s'') [demo_row ''a'' ''x'',
     (demo_row ''b'' ''y'')\<lparr>body := Measured (Num 0) (Some False) None\<rparr>] None first_row_policy) = Some True"
  "verdict_of (evaluateVerdict (\<lambda>p. ''d'') (\<lambda>s. ''s'') [(demo_row ''b'' ''y'')\<lparr>body := Measured (Num 0) (Some False) None\<rparr>,
     demo_row ''a'' ''x''] None first_row_policy) = Some False"
  by code_simp+

lemma verdict_order_free_witness:
  "verdict_of (evaluateVerdict (\<lambda>p. ''d'') (\<lambda>s. ''s'')
     [demo_row ''a'' ''quality'', demo_row ''b'' ''tests_pass''] None DEFAULT_VERDICT_POLICY)
   = verdict_of (evaluateVerdict (\<lambda>p. ''d'') (\<lambda>s. ''s'')
     [demo_row ''b'' ''tests_pass'', demo_row ''a'' ''quality''] None DEFAULT_VERDICT_POLICY)"
  by (rule verdict_order_free [OF default_order_free]) simp

lemma missing_required_mono:
  assumes "missing_required p xs ds = None" "set xs \<subseteq> set ys"
  shows "missing_required p ys ds = None"
  using assms by (induction ds) (auto simp: list_ex_iff split: if_splits)

text \<open>Nothing overturns ground truth: once a measured row decides on the ground-truth rung, any number
  of further rows that are not on it, passes and fails of objective checks and judges alike, leave the
  verdict of the case as it was.\<close>

theorem ground_truth_stands:
  assumes "vp_order p = None"
    and "s \<in> set xs" "isMeasured s" "body_pass (body s) \<noteq> None"
    and "krung p Ground_truth (key_of (vp_structured p) s)" "kmay p (key_of (vp_structured p) s)"
    and "\<forall>e \<in> set later. \<not> krung p Ground_truth (key_of (vp_structured p) e)"
    and "missing_required p (measuredScores xs) (vp_metrics p) = None"
  shows "verdict_of (evaluateVerdict pdig sd (xs @ later) failure p) = verdict_of (evaluateVerdict pdig sd xs failure p)"
proof (rule evaluate_cong)
  let ?st = "vp_structured p"
  let ?P = "\<lambda>k. kmay p k \<and> krung p Ground_truth k"
  have "set (measuredScores xs) \<subseteq> set (measuredScores (xs @ later))" by (auto simp: measuredScores_def)
  from missing_required_mono [OF assms(8) this] assms(8)
  show "missing_required p (measuredScores (xs @ later)) (vp_metrics p)
      = missing_required p (measuredScores xs) (vp_metrics p)" by simp
  define g where "g v = filter (\<lambda>y. krung p Ground_truth (fst y)) (filter (\<lambda>y. kmay p (fst y)) (groups_of v))" for v
  have g: "g v = groups_of (filter (\<lambda>y. ?P (fst y)) v)" for v
    using groups_filter [of ?P v] by (simp add: g_def)
  have "filter (\<lambda>y. ?P (fst y)) (pass_pairs ?st later) = []"
    using assms(7)
    by (auto simp: filter_empty_conv pass_pairs_def List.map_filter_def pass_pair_def split: if_splits)
  moreover have "pass_pairs ?st (xs @ later) = pass_pairs ?st xs @ pass_pairs ?st later"
    by (simp add: pass_pairs_def List.map_filter_def)
  ultimately have same: "g (pass_pairs ?st (xs @ later)) = g (pass_pairs ?st xs)" by (simp add: g)
  obtain b where "(key_of ?st s, b) \<in> set (pass_pairs ?st xs)"
    using assms(2-4) by (force simp: pass_pairs_def List.map_filter_def pass_pair_def)
  then have "key_of ?st s \<in> fst ` set (groups_of (pass_pairs ?st xs))" unfolding groups_keys by force
  then obtain c where "(key_of ?st s, c) \<in> set (groups_of (pass_pairs ?st xs))" by auto
  then have "(key_of ?st s, c) \<in> set (g (pass_pairs ?st xs))" using assms(5,6) by (simp add: g_def)
  then have "g (pass_pairs ?st xs) \<noteq> []" by auto
  then obtain y ys where gt: "sort_key (\<lambda>y. krank p (fst y)) (g (pass_pairs ?st xs)) = y # ys"
    by (metis neq_Nil_conv set_empty set_sort)
  have ord: "authority_order p = Ground_truth # [Objective, Judge_rung]" by (simp add: authority_order_def assms(1))
  show "spec_verdict p (filter (\<lambda>y. kmay p (fst y)) (groups_of (pass_pairs ?st (xs @ later))))
      = spec_verdict p (filter (\<lambda>y. kmay p (fst y)) (groups_of (pass_pairs ?st xs)))"
    using gt unfolding spec_verdict_def ord spec_consult.simps g_def [symmetric] same by simp
qed

lemma ground_truth_stands_witness:
  "verdict_of (evaluateVerdict (\<lambda>p. ''d'') (\<lambda>s. ''s'') ([demo_row ''b'' ''tests_pass''] @
      [(demo_row ''j'' ''judge:j'')\<lparr>body := Measured (Num 0) (Some False) None\<rparr>]) None DEFAULT_VERDICT_POLICY) = Some True"
proof -
  have "missing_required DEFAULT_VERDICT_POLICY (measuredScores [demo_row ''b'' ''tests_pass'']) (vp_metrics DEFAULT_VERDICT_POLICY) = None"
    "krung DEFAULT_VERDICT_POLICY Ground_truth (key_of (vp_structured DEFAULT_VERDICT_POLICY) (demo_row ''b'' ''tests_pass''))"
    "kmay DEFAULT_VERDICT_POLICY (key_of (vp_structured DEFAULT_VERDICT_POLICY) (demo_row ''b'' ''tests_pass''))"
    "\<not> krung DEFAULT_VERDICT_POLICY Ground_truth (key_of (vp_structured DEFAULT_VERDICT_POLICY)
        ((demo_row ''j'' ''judge:j'')\<lparr>body := Measured (Num 0) (Some False) None\<rparr>))"
    "vp_order DEFAULT_VERDICT_POLICY = None" "isMeasured (demo_row ''b'' ''tests_pass'')"
    "body_pass (body (demo_row ''b'' ''tests_pass'')) \<noteq> None"
    by code_simp+
  moreover have "verdict_of (evaluateVerdict (\<lambda>p. ''d'') (\<lambda>s. ''s'') [demo_row ''b'' ''tests_pass''] None DEFAULT_VERDICT_POLICY) = Some True"
    by code_simp
  ultimately show ?thesis
    using ground_truth_stands [of DEFAULT_VERDICT_POLICY "demo_row ''b'' ''tests_pass''" "[demo_row ''b'' ''tests_pass'']"
        "[(demo_row ''j'' ''judge:j'')\<lparr>body := Measured (Num 0) (Some False) None\<rparr>]" "\<lambda>p. ''d''" "\<lambda>s. ''s''" None]
    by simp
qed

end
