(* ===== verification/CaseOutcome.thy ===== *)
theory CaseOutcome
  imports VerdictLaws
begin

text \<open>
  The fate of a case and the denominators of a scorecard: packages/domain/src/scorecard/case-outcome.ts
  and \<open>caseVerdict\<close> of scorecard.ts.
\<close>

definition caseVerdict ::
  "(verdict_policy \<Rightarrow> string) \<Rightarrow> (score \<Rightarrow> string) \<Rightarrow> verdict_policy \<Rightarrow> case_result \<Rightarrow> bool option" where
  "caseVerdict pdig sdig p r = verdict_of (evaluateVerdict pdig sdig (r_scores r) (r_failure r) p)"

datatype case_outcome = Completed_case bool | Unmeasured_case | Infra_failed case_failure | Cancelled_case case_failure

definition caseOutcome ::
  "(verdict_policy \<Rightarrow> string) \<Rightarrow> (score \<Rightarrow> string) \<Rightarrow> verdict_policy \<Rightarrow> case_result \<Rightarrow> case_outcome" where
  "caseOutcome pdig sdig p r =
     (case r_failure r of
        Some f \<Rightarrow>
          if f_code f = ''CANCELLED'' then Cancelled_case f
          else if f_stage f \<in> set PRE_OUTCOME_STAGES then Infra_failed f
          else (case caseVerdict pdig sdig p r of None \<Rightarrow> Unmeasured_case | Some v \<Rightarrow> Completed_case v)
      | None \<Rightarrow> (case caseVerdict pdig sdig p r of None \<Rightarrow> Unmeasured_case | Some v \<Rightarrow> Completed_case v))"

record outcomes =
  o_executed :: nat
  o_gradeable :: nat
  o_verdicted :: nat
  o_passed :: nat
  o_failed :: nat
  o_infraFailed :: nat
  o_cancelled :: nat
  o_unmeasured :: nat
  o_requested :: "nat option"

definition judgeGradeable :: "case_result \<Rightarrow> bool" where
  "judgeGradeable r \<longleftrightarrow> r_failure r = None"

definition count_outcome :: "case_outcome \<Rightarrow> outcomes \<Rightarrow> outcomes" where
  "count_outcome oc out =
     (case oc of
        Cancelled_case f \<Rightarrow> out\<lparr>o_cancelled := o_cancelled out + 1\<rparr>
      | Infra_failed f \<Rightarrow> out\<lparr>o_infraFailed := o_infraFailed out + 1\<rparr>
      | Unmeasured_case \<Rightarrow> out\<lparr>o_gradeable := o_gradeable out + 1, o_unmeasured := o_unmeasured out + 1\<rparr>
      | Completed_case v \<Rightarrow>
          let g = out\<lparr>o_gradeable := o_gradeable out + 1, o_verdicted := o_verdicted out + 1\<rparr>
          in if v then g\<lparr>o_passed := o_passed g + 1\<rparr> else g\<lparr>o_failed := o_failed g + 1\<rparr>)"

definition scorecardOutcomes ::
  "(verdict_policy \<Rightarrow> string) \<Rightarrow> (score \<Rightarrow> string) \<Rightarrow> case_result list \<Rightarrow> nat option \<Rightarrow> verdict_policy \<Rightarrow> outcomes" where
  "scorecardOutcomes pdig sdig results requested p =
     fold (\<lambda>r out. count_outcome (caseOutcome pdig sdig p r) out) results
       \<lparr>o_executed = length results, o_gradeable = 0, o_verdicted = 0, o_passed = 0, o_failed = 0,
        o_infraFailed = 0, o_cancelled = 0, o_unmeasured = 0, o_requested = requested\<rparr>"

lemma count_outcome_simps:
  "count_outcome (Cancelled_case x) out = out\<lparr>o_cancelled := o_cancelled out + 1\<rparr>"
  "count_outcome (Infra_failed x) out = out\<lparr>o_infraFailed := o_infraFailed out + 1\<rparr>"
  "count_outcome Unmeasured_case out = out\<lparr>o_gradeable := o_gradeable out + 1, o_unmeasured := o_unmeasured out + 1\<rparr>"
  "count_outcome (Completed_case True) out =
     out\<lparr>o_gradeable := o_gradeable out + 1, o_verdicted := o_verdicted out + 1, o_passed := o_passed out + 1\<rparr>"
  "count_outcome (Completed_case False) out =
     out\<lparr>o_gradeable := o_gradeable out + 1, o_verdicted := o_verdicted out + 1, o_failed := o_failed out + 1\<rparr>"
  by (simp_all add: count_outcome_def)

lemma fold_count:
  "let out = fold (\<lambda>r out. count_outcome (f r) out) rs o0
   in o_executed out = o_executed o0 \<and> o_requested out = o_requested o0
    \<and> o_passed out = o_passed o0 + length (filter (\<lambda>r. f r = Completed_case True) rs)
    \<and> o_failed out = o_failed o0 + length (filter (\<lambda>r. f r = Completed_case False) rs)
    \<and> o_unmeasured out = o_unmeasured o0 + length (filter (\<lambda>r. f r = Unmeasured_case) rs)
    \<and> o_infraFailed out = o_infraFailed o0 + length (filter (\<lambda>r. case f r of Infra_failed x \<Rightarrow> True | _ \<Rightarrow> False) rs)
    \<and> o_cancelled out = o_cancelled o0 + length (filter (\<lambda>r. case f r of Cancelled_case x \<Rightarrow> True | _ \<Rightarrow> False) rs)
    \<and> o_verdicted out + (o_passed o0 + o_failed o0) = o_verdicted o0 + o_passed out + o_failed out
    \<and> o_gradeable out + (o_verdicted o0 + o_unmeasured o0) = o_gradeable o0 + o_verdicted out + o_unmeasured out
    \<and> o_gradeable out + o_infraFailed out + o_cancelled out
      = length rs + o_gradeable o0 + o_infraFailed o0 + o_cancelled o0"
proof (induction rs arbitrary: o0)
  case (Cons r rs)
  note IH = Cons [of "count_outcome (f r) o0", unfolded Let_def]
  show ?case
  proof (cases "f r")
    case (Completed_case v)
    with IH show ?thesis by (cases v) (auto simp: Let_def count_outcome_simps)
  qed (use IH in \<open>auto simp: Let_def count_outcome_simps\<close>)
qed simp

text \<open>A scorecard's denominators partition its results: executed splits into gradeable, infrastructure
  failures and cancellations; gradeable into verdicted and unmeasured; verdicted into passed and failed;
  and passed counts exactly the cases whose outcome is a passing verdict.\<close>

theorem outcomes_partition:
  "let out = scorecardOutcomes pdig sdig results requested p
   in o_executed out = length results
    \<and> o_executed out = o_gradeable out + o_infraFailed out + o_cancelled out
    \<and> o_gradeable out = o_verdicted out + o_unmeasured out
    \<and> o_verdicted out = o_passed out + o_failed out
    \<and> o_passed out = length (filter (\<lambda>r. caseOutcome pdig sdig p r = Completed_case True) results)
    \<and> o_failed out = length (filter (\<lambda>r. caseOutcome pdig sdig p r = Completed_case False) results)
    \<and> o_requested out = requested"
  using fold_count [of "caseOutcome pdig sdig p" results
      "\<lparr>o_executed = length results, o_gradeable = 0, o_verdicted = 0, o_passed = 0, o_failed = 0,
        o_infraFailed = 0, o_cancelled = 0, o_unmeasured = 0, o_requested = requested\<rparr>"]
  by (simp add: scorecardOutcomes_def Let_def)

text \<open>A case the platform failed, or a user stopped, is never counted against the product: it has no
  verdict under any policy, whatever scores came with it.\<close>

theorem no_verdict_without_outcome:
  assumes "r_failure r = Some f" "f_code f = ''CANCELLED'' \<or> f_stage f \<in> {Dispatching, Install, Running_harness}"
  shows "caseVerdict pdig sdig p r = None
    \<and> (caseOutcome pdig sdig p r = Cancelled_case f \<or> caseOutcome pdig sdig p r = Infra_failed f)"
  using assms by (auto simp: caseVerdict_def evaluateVerdict_def caseOutcome_def PRE_OUTCOME_STAGES_def)

lemma no_verdict_without_outcome_witness:
  "caseVerdict (\<lambda>p. ''d'') (\<lambda>s. ''s'') DEFAULT_VERDICT_POLICY
     (demo_result\<lparr>r_failure := Some \<lparr>f_stage = Install, f_code = ''OOM_KILLED''\<rparr>\<rparr>) = None"
  using no_verdict_without_outcome [of "demo_result\<lparr>r_failure := Some \<lparr>f_stage = Install, f_code = ''OOM_KILLED''\<rparr>\<rparr>"
      "\<lparr>f_stage = Install, f_code = ''OOM_KILLED''\<rparr>"] by simp

end
