(* ===== verification/Run.thy ===== *)
theory Run
  imports Scores
begin

text \<open>
  The life of a run: packages/domain/src/run/run.ts (the \<open>Run\<close> aggregate, its factories and guards),
  agent-run.ts, command-run.ts, session-run.ts and scorecard-child.ts, over the record of
  packages/contracts/src/records/run.ts.

  An optional string spread under a truthiness test is absent when empty (\<open>truthy\<close>). Instants are
  milliseconds (the ISO strings of the code, which \<open>new Date\<close> reads and \<open>toISOString\<close> writes). A
  transition computes a patch, whose absent fields the store leaves alone, and the facts to publish.
\<close>

subsection \<open>The record\<close>

datatype run_status = RQueued | RRunning | RSuspended | RSucceeded | RFailed

datatype run_kind = KEval | KAgent | KCommand | KSandbox | KAnalysis

datatype run_class = Interactive | Background | Batch

datatype visibility = Workspace_visible | Member_visible

datatype lifetime = Task | Session_life

datatype cause = CMember | CSchedule | CEvent | CRun | CCi | CApi

record origin =
  og_cause :: cause
  og_actor :: "string option"
  og_executor :: "string option"
  og_eventId :: "string option"
  og_eventKind :: "string option"
  og_causedByRunId :: "string option"

record envelope =
  en_id :: string
  en_capUsd :: "rat option"

datatype place = Inline | Driver | Runtime

record run_placement =
  pl_where :: place
  pl_target :: "string option"
  pl_isolation :: "string option"

datatype channel = Logs | Exec | Terminal | Screen | Cdp | Tasks

datatype role = Case_role | Turn_role | Child_role

record group_ref =
  gr_id :: string
  gr_role :: role

datatype closed_reason = Closed | Expired | Orphaned

record snapshot =
  sn_version :: string
  sn_image :: string
  sn_at :: int

record run_session =
  ses_image :: string
  ses_ttlSec :: int
  ses_expiresAt :: int
  ses_computeId :: "string option"
  ses_closedReason :: "closed_reason option"
  ses_world :: "string option"
  ses_hibernate :: "bool option"
  ses_snapshots :: "snapshot list option"
  ses_repo :: "(string \<times> string option \<times> string) option"
  ses_agent :: "(string \<times> string option) option"
  ses_conversation :: "bool option"

record eval_case =
  ec_id :: string
  ec_env_kind :: string
  ec_task :: string
  ec_graders :: "grader_spec list"
  ec_timeoutSec :: int
  ec_tags :: "string list"

record outputs =
  out_exitCode :: int
  out_files :: "string list option"

record run_record =
  run_id :: string
  run_tenant :: string
  run_harness :: "string \<times> string"
  run_caseId :: string
  run_status :: run_status
  run_result :: "case_result option"
  run_caseSpec :: "eval_case option"
  run_error :: "(string \<times> string) option"
  run_parent :: "string option"
  run_trigger :: "string option"
  run_webhookUrl :: "string option"
  run_createdBy :: "string option"
  run_runtime :: "string option"
  run_kind :: "run_kind option"
  run_class :: "run_class option"
  run_visibility :: "visibility option"
  run_lifetime :: "lifetime option"
  run_origin :: "origin option"
  run_envelope :: "envelope option"
  run_placement :: "run_placement option"
  run_attach :: "channel list option"
  run_group :: "group_ref option"
  run_outputs :: "outputs option"
  run_session :: "run_session option"
  run_executionId :: "string option"
  run_createdAt :: int
  run_updatedAt :: int

definition truthy :: "string option \<Rightarrow> string option" where
  "truthy s = (case s of None \<Rightarrow> None | Some t \<Rightarrow> if t = [] then None else Some t)"

definition by_member :: "string \<Rightarrow> origin" where
  "by_member who = \<lparr>og_cause = CMember, og_actor = Some who, og_executor = None, og_eventId = None,
     og_eventKind = None, og_causedByRunId = None\<rparr>"

text \<open>The fields every factory starts from; the optional ones are absent until the factory sets them.\<close>

definition blank_run :: "string \<Rightarrow> string \<Rightarrow> string \<times> string \<Rightarrow> string \<Rightarrow> run_status \<Rightarrow> int \<Rightarrow> run_record" where
  "blank_run i tenant harness case_id st now =
     \<lparr>run_id = i, run_tenant = tenant, run_harness = harness, run_caseId = case_id, run_status = st,
      run_result = None, run_caseSpec = None, run_error = None, run_parent = None, run_trigger = None,
      run_webhookUrl = None, run_createdBy = None, run_runtime = None, run_kind = None, run_class = None,
      run_visibility = None, run_lifetime = None, run_origin = None, run_envelope = None,
      run_placement = None, run_attach = None, run_group = None, run_outputs = None, run_session = None,
      run_executionId = None, run_createdAt = now, run_updatedAt = now\<rparr>"

subsection \<open>Rules read off a record\<close>

definition starts_self :: "string option \<Rightarrow> bool" where
  "starts_self target = (case target of None \<Rightarrow> False | Some t \<Rightarrow> startsWith t ''self:'')"

definition attachChannelsFor :: "run_kind option \<Rightarrow> string option \<Rightarrow> channel list" where
  "attachChannelsFor kind target =
     (let k = (case kind of None \<Rightarrow> KEval | Some x \<Rightarrow> x) in
      if k \<noteq> KEval \<and> k \<noteq> KCommand then []
      else if starts_self target then [Logs] else [Logs, Terminal])"

datatype audience = Workspace_scope | Member_scope string

definition PERSONAL_RUN_KINDS :: "run_kind list" where
  "PERSONAL_RUN_KINDS = [KAgent, KSandbox]"

definition runAudience :: "run_record \<Rightarrow> audience" where
  "runAudience r =
     (if run_visibility r = Some Workspace_visible then Workspace_scope
      else if (case run_kind r of None \<Rightarrow> KEval | Some k \<Rightarrow> k) \<notin> set PERSONAL_RUN_KINDS then Workspace_scope
      else if run_visibility r = None \<and> run_kind r = Some KAgent \<and> run_class r = Some Background
      then Workspace_scope
      else
        (case (case run_origin r of None \<Rightarrow> None | Some g \<Rightarrow> og_actor g) of
           Some owner \<Rightarrow> Member_scope owner
         | None \<Rightarrow> (case run_createdBy r of None \<Rightarrow> Workspace_scope | Some owner \<Rightarrow> Member_scope owner)))"

definition canReadRun :: "run_record \<Rightarrow> string \<Rightarrow> bool" where
  "canReadRun r viewer = (case runAudience r of Workspace_scope \<Rightarrow> True | Member_scope who \<Rightarrow> who = viewer)"

definition runEvidenceIdentity :: "run_record \<Rightarrow> run_kind \<times> string option" where
  "runEvidenceIdentity r =
     (let kind = (case run_kind r of None \<Rightarrow> KEval | Some k \<Rightarrow> k);
          label = (if kind = KEval \<and> run_caseId r \<noteq> [] then run_caseId r else fst (run_harness r))
      in (kind, truthy (Some label)))"

definition TERMINAL_RUN_STATUSES :: "run_status list" where
  "TERMINAL_RUN_STATUSES = [RSucceeded, RFailed, RSuspended]"

definition isRunTerminal :: "run_record \<Rightarrow> bool" where
  "isRunTerminal r \<longleftrightarrow> run_status r \<in> set TERMINAL_RUN_STATUSES"

definition assertRunNotTerminal :: "run_record \<Rightarrow> string \<Rightarrow> unit res" where
  "assertRunNotTerminal r transition =
     (if isRunTerminal r then Inl (Conflict ''CONFLICT'' (''run is already terminal, rejected: '' @ transition))
      else Inr ())"

definition assertRunSession :: "run_record \<Rightarrow> string \<Rightarrow> run_session res" where
  "assertRunSession r transition =
     (case run_session r of
        None \<Rightarrow> Inl (Conflict ''CONFLICT'' (''run is not a session, rejected: '' @ transition))
      | Some s \<Rightarrow> Inr s)"

subsection \<open>Facts and transitions\<close>

datatype payload =
    RunPayload run_status "string \<times> string" string
  | SnapshotPayload string string string

record fact =
  fact_kind :: string
  fact_run :: string
  fact_actor :: "string option"
  fact_payload :: payload

record run_patch =
  p_status :: "run_status option"
  p_result :: "case_result option"
  p_error :: "(string \<times> string) option"
  p_outputs :: "outputs option"
  p_session :: "run_session option"
  p_updatedAt :: int

type_synonym transition = "(run_patch \<times> fact list) res"

definition touch_patch :: "int \<Rightarrow> run_patch" where
  "touch_patch now = \<lparr>p_status = None, p_result = None, p_error = None, p_outputs = None, p_session = None,
     p_updatedAt = now\<rparr>"

text \<open>What the store does with a patch: a present field replaces the record's, an absent one keeps it.\<close>

definition keep_or :: "'a option \<Rightarrow> 'a option \<Rightarrow> 'a option" where
  "keep_or new old = (case new of None \<Rightarrow> old | Some x \<Rightarrow> Some x)"

definition apply_patch :: "run_patch \<Rightarrow> run_record \<Rightarrow> run_record" where
  "apply_patch p r = r\<lparr>run_status := (case p_status p of None \<Rightarrow> run_status r | Some s \<Rightarrow> s),
     run_result := keep_or (p_result p) (run_result r), run_error := keep_or (p_error p) (run_error r),
     run_outputs := keep_or (p_outputs p) (run_outputs r), run_session := keep_or (p_session p) (run_session r),
     run_updatedAt := p_updatedAt p\<rparr>"

definition terminalRunFacts :: "run_record \<Rightarrow> run_status \<Rightarrow> fact list" where
  "terminalRunFacts r st =
     (if truthy (run_parent r) \<noteq> None then []
      else [\<lparr>fact_kind = (if st = RSucceeded then ''run.completed'' else ''run.failed''), fact_run = run_id r,
             fact_actor = run_createdBy r, fact_payload = RunPayload st (run_harness r) (run_caseId r)\<rparr>])"

definition creationFacts :: "run_record \<Rightarrow> fact list" where
  "creationFacts r =
     (if truthy (run_parent r) \<noteq> None then []
      else [\<lparr>fact_kind = ''run.submitted'', fact_run = run_id r, fact_actor = run_createdBy r,
             fact_payload = RunPayload (run_status r) (run_harness r) (run_caseId r)\<rparr>])"

subsection \<open>Transitions of every run\<close>

definition canAdopt :: "run_record \<Rightarrow> bool" where
  "canAdopt r \<longleftrightarrow> \<not> isRunTerminal r"

definition canRedispatch :: "run_record \<Rightarrow> bool" where
  "canRedispatch r \<longleftrightarrow> \<not> isRunTerminal r \<and> run_caseSpec r \<noteq> None
     \<and> map_option pl_where (run_placement r) \<noteq> Some Driver
     \<and> map_option gr_role (run_group r) \<noteq> Some Turn_role"

definition start_run :: "run_record \<Rightarrow> int \<Rightarrow> transition" where
  "start_run r now = bind_res (assertRunNotTerminal r ''start'') (\<lambda>_.
     Inr ((touch_patch now)\<lparr>p_status := Some RRunning\<rparr>, []))"

text \<open>The one seam every result crosses, and which declaration it is checked against.\<close>

definition settled :: "run_record \<Rightarrow> case_result \<Rightarrow> settle_declaration option \<Rightarrow> case_result res" where
  "settled r result declared =
     (let own = (case run_caseSpec r of None \<Rightarrow> None | Some c \<Rightarrow> Some \<lparr>sd_graders = ec_graders c, sd_judges = []\<rparr>)
      in case (own, declared) of
           (Some _, Some _) \<Rightarrow> Inl (Internal ''UPSTREAM_ERROR''
              ''a run that persists its case is settled against that declaration alone'')
         | _ \<Rightarrow> Inr (sanitizeSubmittedResult result
              (case own of Some d \<Rightarrow> d
               | None \<Rightarrow> (case declared of Some d \<Rightarrow> d | None \<Rightarrow> \<lparr>sd_graders = [], sd_judges = []\<rparr>))))"

definition succeed_run :: "run_record \<Rightarrow> case_result \<Rightarrow> int \<Rightarrow> settle_declaration option \<Rightarrow> transition" where
  "succeed_run r result now declared =
     bind_res (assertRunNotTerminal r ''succeed'') (\<lambda>_.
       bind_res (settled r result declared) (\<lambda>res.
         Inr ((touch_patch now)\<lparr>p_status := Some RSucceeded, p_result := Some res\<rparr>, terminalRunFacts r RSucceeded)))"

definition fail_run ::
  "run_record \<Rightarrow> string \<times> string \<Rightarrow> int \<Rightarrow> case_result option \<Rightarrow> settle_declaration option \<Rightarrow> transition" where
  "fail_run r err now result declared =
     bind_res (assertRunNotTerminal r ''fail'') (\<lambda>_.
       bind_res (case result of None \<Rightarrow> Inr None
                 | Some res \<Rightarrow> bind_res (settled r res declared) (\<lambda>x. Inr (Some x))) (\<lambda>res.
         Inr ((touch_patch now)\<lparr>p_status := Some RFailed, p_error := Some err, p_result := res\<rparr>,
              terminalRunFacts r RFailed)))"

definition adopt_run :: "run_record \<Rightarrow> case_result \<Rightarrow> int \<Rightarrow> settle_declaration option \<Rightarrow> transition" where
  "adopt_run r result now declared =
     (if \<not> canAdopt r then Inl (Conflict ''CONFLICT'' ''run is already terminal, adopt rejected'')
      else bind_res (settled r result declared) (\<lambda>res.
         Inr ((touch_patch now)\<lparr>p_status := Some RSucceeded, p_result := Some res\<rparr>, terminalRunFacts r RSucceeded)))"

definition redispatch_run :: "run_record \<Rightarrow> int \<Rightarrow> transition" where
  "redispatch_run r now =
     (if \<not> canRedispatch r
      then Inl (Conflict ''CONFLICT'' ''run cannot be re-dispatched (terminal, or no persisted caseSpec)'')
      else Inr ((touch_patch now)\<lparr>p_status := Some RRunning\<rparr>, []))"

subsection \<open>Agent, command and session runs\<close>

datatype agent_outcome = Agent_completed | Agent_failed | Agent_cancelled | Agent_suspended

definition settleAgentTransition :: "run_record \<Rightarrow> agent_outcome \<Rightarrow> string \<Rightarrow> int \<Rightarrow> transition" where
  "settleAgentTransition r outcome message now =
     bind_res (assertRunNotTerminal r ''settleAgent'') (\<lambda>_.
       if outcome = Agent_completed then Inr ((touch_patch now)\<lparr>p_status := Some RSucceeded\<rparr>, [])
       else if outcome = Agent_suspended then Inr ((touch_patch now)\<lparr>p_status := Some RSuspended\<rparr>, [])
       else Inr ((touch_patch now)\<lparr>p_status := Some RFailed,
              p_error := Some (if outcome = Agent_cancelled then ''CANCELLED'' else ''AGENT_RUN_FAILED'', message)\<rparr>, []))"

definition settleCommandTransition :: "run_record \<Rightarrow> int \<Rightarrow> string list option \<Rightarrow> int \<Rightarrow> transition" where
  "settleCommandTransition r exitCode files now =
     bind_res (assertRunNotTerminal r ''settleCommand'') (\<lambda>_.
       Inr ((touch_patch now)\<lparr>p_status := Some RSucceeded,
              p_outputs := Some \<lparr>out_exitCode = exitCode,
                out_files = (case files of Some (f # fs) \<Rightarrow> Some (f # fs) | _ \<Rightarrow> None)\<rparr>\<rparr>,
            terminalRunFacts r RSucceeded))"

definition closeSessionTransition :: "run_record \<Rightarrow> closed_reason \<Rightarrow> int \<Rightarrow> transition" where
  "closeSessionTransition r reason now =
     bind_res (assertRunNotTerminal r ''closeSession'') (\<lambda>_.
       Inr ((touch_patch now)\<lparr>p_status := Some RSucceeded,
              p_session := (case run_session r of None \<Rightarrow> None
                            | Some s \<Rightarrow> Some (s\<lparr>ses_closedReason := Some reason\<rparr>))\<rparr>,
            terminalRunFacts r RSucceeded))"

definition recordSnapshotTransition :: "run_record \<Rightarrow> string \<Rightarrow> string \<Rightarrow> string \<Rightarrow> int \<Rightarrow> transition" where
  "recordSnapshotTransition r world version img now =
     bind_res (assertRunNotTerminal r ''recordSnapshot'') (\<lambda>_.
       bind_res (assertRunSession r ''recordSnapshot'') (\<lambda>s.
         Inr ((touch_patch now)\<lparr>p_session := Some (s\<lparr>ses_snapshots :=
                Some ((case ses_snapshots s of None \<Rightarrow> [] | Some xs \<Rightarrow> xs)
                      @ [\<lparr>sn_version = version, sn_image = img, sn_at = now\<rparr>])\<rparr>)\<rparr>,
              [\<lparr>fact_kind = ''run.snapshotted'', fact_run = run_id r, fact_actor = run_createdBy r,
                fact_payload = SnapshotPayload world version img\<rparr>])))"

definition extendSessionTransition :: "run_record \<Rightarrow> int \<Rightarrow> int \<Rightarrow> transition" where
  "extendSessionTransition r ttlSec now =
     bind_res (assertRunNotTerminal r ''extendSession'') (\<lambda>_.
       bind_res (assertRunSession r ''extendSession'') (\<lambda>s.
         let proposed = now + ttlSec * 1000;
             held = ses_expiresAt s;
             granted = (if held < proposed then ttlSec else ses_ttlSec s)
         in Inr ((touch_patch now)\<lparr>p_session := Some (s\<lparr>ses_ttlSec := granted, ses_expiresAt := max held proposed\<rparr>)\<rparr>, [])))"

subsection \<open>Factories\<close>

definition place_on :: "string option \<Rightarrow> run_placement" where
  "place_on runtime =
     \<lparr>pl_where = (if runtime \<noteq> None then Runtime else Driver), pl_target = runtime, pl_isolation = Some ''container''\<rparr>"

definition newQueued ::
  "string \<Rightarrow> string \<Rightarrow> string \<times> string \<Rightarrow> eval_case \<Rightarrow> string option \<Rightarrow> string option \<Rightarrow> string option \<Rightarrow> string option
     \<Rightarrow> origin option \<Rightarrow> run_class option \<Rightarrow> envelope option \<Rightarrow> int \<Rightarrow> run_record" where
  "newQueued i tenant harness evalCase runtime trigger webhookUrl submittedBy og cls env now =
     (let on = truthy runtime in
      (blank_run i tenant harness (ec_id evalCase) RQueued now)
        \<lparr>run_trigger := truthy trigger, run_webhookUrl := truthy webhookUrl, run_createdBy := truthy submittedBy,
         run_runtime := on, run_caseSpec := Some evalCase, run_kind := Some KEval,
         run_class := Some (case cls of None \<Rightarrow> Interactive | Some c \<Rightarrow> c), run_lifetime := Some Task,
         run_origin := og, run_envelope := env,
         run_placement := (case on of None \<Rightarrow> None
            | Some t \<Rightarrow> Some \<lparr>pl_where = Runtime, pl_target = Some t, pl_isolation = None\<rparr>),
         run_attach := Some (attachChannelsFor (Some KEval) on)\<rparr>)"

definition newAgentRun ::
  "string \<Rightarrow> string \<Rightarrow> string \<Rightarrow> string option \<Rightarrow> string \<Rightarrow> string \<Rightarrow> string option \<Rightarrow> string option \<Rightarrow> rat option
     \<Rightarrow> int \<Rightarrow> run_record" where
  "newAgentRun i tenant agentId agentVersion sessionId eventKind eventId createdBy budgetUsd now =
     (blank_run i tenant (agentId, case agentVersion of None \<Rightarrow> ''latest'' | Some v \<Rightarrow> v)
        (case eventId of None \<Rightarrow> eventKind | Some e \<Rightarrow> e) RRunning now)
       \<lparr>run_trigger := Some ''agent'', run_createdBy := truthy createdBy, run_kind := Some KAgent,
        run_class := Some Background, run_visibility := Some Workspace_visible, run_lifetime := Some Task,
        run_origin := Some \<lparr>og_cause = CEvent, og_actor = createdBy, og_executor = Some (''agent:'' @ agentId),
           og_eventId = eventId, og_eventKind = Some eventKind, og_causedByRunId = None\<rparr>,
        run_group := Some \<lparr>gr_id = sessionId, gr_role = Turn_role\<rparr>,
        run_envelope := (case budgetUsd of None \<Rightarrow> None | Some b \<Rightarrow> Some \<lparr>en_id = i, en_capUsd = Some b\<rparr>)\<rparr>"

definition newChatTurn ::
  "string \<Rightarrow> string \<Rightarrow> string \<Rightarrow> string option \<Rightarrow> string \<Rightarrow> string \<Rightarrow> int \<Rightarrow> run_record" where
  "newChatTurn i tenant agentId agentVersion sessionId actor now =
     (blank_run i tenant (agentId, case agentVersion of None \<Rightarrow> ''latest'' | Some v \<Rightarrow> v) ''chat'' RRunning now)
       \<lparr>run_trigger := Some ''agent'', run_createdBy := Some actor, run_kind := Some KAgent,
        run_class := Some Interactive, run_visibility := Some Member_visible, run_lifetime := Some Task,
        run_origin := Some ((by_member actor)\<lparr>og_executor := Some (''agent:'' @ agentId)\<rparr>),
        run_group := Some \<lparr>gr_id = sessionId, gr_role = Turn_role\<rparr>\<rparr>"

definition newFileCommand ::
  "string \<Rightarrow> string \<Rightarrow> string \<Rightarrow> string \<Rightarrow> string \<Rightarrow> string option \<Rightarrow> string option \<Rightarrow> envelope option \<Rightarrow> int
     \<Rightarrow> run_record" where
  "newFileCommand i tenant path img createdBy runtime causedByRunId env now =
     (blank_run i tenant (img, ''adhoc'') path RRunning now)
       \<lparr>run_trigger := Some ''file'', run_createdBy := Some createdBy, run_kind := Some KCommand,
        run_class := Some Interactive, run_lifetime := Some Task,
        run_origin := Some ((by_member createdBy)\<lparr>og_causedByRunId := causedByRunId\<rparr>),
        run_envelope := env, run_runtime := runtime, run_placement := Some (place_on runtime)\<rparr>"

definition new_session :: "string \<Rightarrow> int \<Rightarrow> int \<Rightarrow> run_session" where
  "new_session img ttlSec now =
     \<lparr>ses_image = img, ses_ttlSec = ttlSec, ses_expiresAt = now + ttlSec * 1000, ses_computeId = None,
      ses_closedReason = None, ses_world = None, ses_hibernate = None, ses_snapshots = None, ses_repo = None,
      ses_agent = None, ses_conversation = None\<rparr>"

definition newBrowserSession ::
  "string \<Rightarrow> string \<Rightarrow> string \<Rightarrow> int \<Rightarrow> string \<Rightarrow> string option \<Rightarrow> string option \<Rightarrow> int \<Rightarrow> run_record" where
  "newBrowserSession i tenant img ttlSec createdBy runtime country now =
     (blank_run i tenant (''browser'', ''1'') (case country of None \<Rightarrow> ''direct'' | Some c \<Rightarrow> c) RRunning now)
       \<lparr>run_trigger := Some ''browser'', run_createdBy := Some createdBy, run_kind := Some KSandbox,
        run_class := Some Interactive, run_visibility := Some Member_visible, run_lifetime := Some Session_life,
        run_origin := Some (by_member createdBy), run_runtime := runtime,
        run_placement := Some (place_on runtime), run_attach := Some [Exec],
        run_session := Some (new_session img ttlSec now)\<rparr>"

record sandbox_options =
  sb_computeId :: "string option"
  sb_world :: "string option"
  sb_hibernate :: "bool option"
  sb_repo :: "(string \<times> string option \<times> string) option"
  sb_agent :: "(string \<times> string option) option"
  sb_runtime :: "string option"
  sb_origin :: "origin option"
  sb_envelope :: "envelope option"
  sb_attach :: "channel list option"
  sb_trigger :: "string option"
  sb_conversation :: "bool option"

definition newSandboxSession ::
  "string \<Rightarrow> string \<Rightarrow> string \<times> string \<Rightarrow> string \<Rightarrow> int \<Rightarrow> string \<Rightarrow> sandbox_options \<Rightarrow> int \<Rightarrow> run_record" where
  "newSandboxSession i tenant harness img ttlSec createdBy o' now =
     (blank_run i tenant harness img RRunning now)
       \<lparr>run_trigger := Some (case sb_trigger o' of None \<Rightarrow> ''sandbox'' | Some t \<Rightarrow> t),
        run_createdBy := Some createdBy, run_kind := Some KSandbox, run_class := Some Interactive,
        run_visibility := Some Member_visible, run_lifetime := Some Session_life,
        run_origin := Some (case sb_origin o' of None \<Rightarrow> by_member createdBy | Some g \<Rightarrow> g),
        run_runtime := sb_runtime o', run_placement := Some (place_on (sb_runtime o')),
        run_attach := Some (case sb_attach o' of None \<Rightarrow> [Exec] | Some a \<Rightarrow> a),
        run_envelope := sb_envelope o',
        run_session := Some ((new_session img ttlSec now)
          \<lparr>ses_computeId := sb_computeId o', ses_world := sb_world o', ses_hibernate := sb_hibernate o',
           ses_repo := sb_repo o', ses_agent := sb_agent o',
           ses_conversation := (if sb_conversation o' = Some True then Some True else None)\<rparr>)\<rparr>"

definition newSessionCase ::
  "string \<Rightarrow> string \<Rightarrow> string \<times> string \<Rightarrow> string \<Rightarrow> string \<Rightarrow> string \<Rightarrow> int \<Rightarrow> string \<Rightarrow> role option
     \<Rightarrow> run_placement option \<Rightarrow> int \<Rightarrow> run_record" where
  "newSessionCase i tenant harness sessionRunId case_id task timeoutSec createdBy rl placement now =
     (blank_run i tenant harness case_id RRunning now)
       \<lparr>run_trigger := Some ''playground'', run_createdBy := Some createdBy,
        run_caseSpec := Some \<lparr>ec_id = case_id, ec_env_kind = ''prompt'', ec_task = task, ec_graders = [],
           ec_timeoutSec = timeoutSec, ec_tags = []\<rparr>,
        run_kind := Some KEval, run_class := Some Interactive, run_lifetime := Some Task,
        run_origin := Some (by_member createdBy),
        run_group := Some \<lparr>gr_id = sessionRunId, gr_role = (case rl of None \<Rightarrow> Case_role | Some x \<Rightarrow> x)\<rparr>,
        run_placement := Some (case placement of
            None \<Rightarrow> \<lparr>pl_where = Driver, pl_target = None, pl_isolation = Some ''container''\<rparr> | Some p \<Rightarrow> p)\<rparr>"

definition childRunShape ::
  "string \<Rightarrow> string option \<Rightarrow> origin option \<Rightarrow> envelope option \<Rightarrow> run_record \<Rightarrow> run_record" where
  "childRunShape parent runtime og env r =
     r\<lparr>run_kind := Some KEval, run_class := Some Batch, run_lifetime := Some Task,
       run_group := Some \<lparr>gr_id = parent, gr_role = Case_role\<rparr>, run_origin := og, run_envelope := env,
       run_placement := (case truthy runtime of None \<Rightarrow> None
          | Some t \<Rightarrow> Some \<lparr>pl_where = Runtime, pl_target = Some t, pl_isolation = None\<rparr>)\<rparr>"

definition newScorecardChildRun ::
  "string \<Rightarrow> string \<Rightarrow> string \<times> string \<Rightarrow> string \<Rightarrow> string \<Rightarrow> string option \<Rightarrow> string option \<Rightarrow> origin option
     \<Rightarrow> envelope option \<Rightarrow> int \<Rightarrow> run_record" where
  "newScorecardChildRun i tenant harness case_id parent executionId runtime og env now =
     childRunShape parent runtime og env
       ((blank_run i tenant harness case_id RQueued now)
          \<lparr>run_parent := Some parent, run_trigger := Some ''scorecard'', run_executionId := truthy executionId,
           run_runtime := truthy runtime\<rparr>)"

definition newSeededScorecardChildRun ::
  "string \<Rightarrow> string \<Rightarrow> string \<times> string \<Rightarrow> case_result \<Rightarrow> string \<Rightarrow> string option \<Rightarrow> origin option
     \<Rightarrow> envelope option \<Rightarrow> int \<Rightarrow> run_record" where
  "newSeededScorecardChildRun i tenant harness result parent runtime og env now =
     childRunShape parent runtime og env
       ((blank_run i tenant harness (r_caseId result) RSucceeded now)
          \<lparr>run_result := Some result, run_parent := Some parent, run_trigger := Some ''scorecard'',
           run_runtime := truthy runtime\<rparr>)"

end
