(* ===== verification/RunLife.thy ===== *)
theory RunLife
  imports Run
begin

text \<open>
  A run under any sequence of commands: \<open>run_exec\<close> is what a caller does with a transition (write the
  patch, publish the facts, or nothing when the transition throws). The invariant is proved over the step
  relation of accepted commands.
\<close>

datatype run_command =
    Start int
  | Succeed case_result int "settle_declaration option"
  | Fail "string \<times> string" int "case_result option" "settle_declaration option"
  | Adopt case_result int "settle_declaration option"
  | Redispatch int
  | SettleAgent agent_outcome string int
  | SettleCommand int "string list option" int
  | CloseSession closed_reason int
  | RecordSnapshot string string string int
  | ExtendSession int int

fun transition_of :: "run_record \<Rightarrow> run_command \<Rightarrow> transition" where
  "transition_of r (Start now) = start_run r now"
| "transition_of r (Succeed res now d) = succeed_run r res now d"
| "transition_of r (Fail err now res d) = fail_run r err now res d"
| "transition_of r (Adopt res now d) = adopt_run r res now d"
| "transition_of r (Redispatch now) = redispatch_run r now"
| "transition_of r (SettleAgent oc msg now) = settleAgentTransition r oc msg now"
| "transition_of r (SettleCommand code files now) = settleCommandTransition r code files now"
| "transition_of r (CloseSession reason now) = closeSessionTransition r reason now"
| "transition_of r (RecordSnapshot w v img now) = recordSnapshotTransition r w v img now"
| "transition_of r (ExtendSession ttl now) = extendSessionTransition r ttl now"

type_synonym ledger = "run_record \<times> fact list"

definition run_exec :: "run_command \<Rightarrow> ledger \<Rightarrow> ledger" where
  "run_exec c l = (case transition_of (fst l) c of
      Inl e \<Rightarrow> l
    | Inr (p, fs) \<Rightarrow> (apply_patch p (fst l), snd l @ fs))"

definition run_history :: "run_command list \<Rightarrow> ledger \<Rightarrow> ledger" where
  "run_history cs l = fold run_exec cs l"

inductive run_step :: "ledger \<Rightarrow> ledger \<Rightarrow> bool" where
  accepted: "transition_of r c = Inr (p, fs) \<Longrightarrow> run_step (r, published) (apply_patch p r, published @ fs)"

inductive_cases run_step_from: "run_step (r, published) l"

subsection \<open>Ledgers whose settled entries refuse every command\<close>

locale settling_ledger =
  fixes exec :: "'c \<Rightarrow> 's \<Rightarrow> 's"
    and final :: "'s \<Rightarrow> bool"
  assumes final_refuses: "final s \<Longrightarrow> exec c s = s"
begin

lemma final_stays: "final s \<Longrightarrow> fold exec cs s = s"
  by (induction cs) (simp_all add: final_refuses)

text \<open>Once a prefix of the history settles the entry, the rest of it changes nothing.\<close>

lemma first_settlement_wins:
  "final (fold exec cs s) \<Longrightarrow> fold exec (cs @ later) s = fold exec cs s"
  by (simp add: final_stays)

lemma once_final: "final (fold exec cs s) \<Longrightarrow> final (fold exec (cs @ later) s)"
  by (simp add: final_stays)

end

lemma not_terminal_Inr [simp]: "assertRunNotTerminal r t = Inr u \<longleftrightarrow> \<not> isRunTerminal r"
  by (simp add: assertRunNotTerminal_def)

lemma session_Inr [simp]: "assertRunSession r t = Inr s \<longleftrightarrow> run_session r = Some s"
  by (auto simp: assertRunSession_def split: option.splits)

lemmas transition_defs = start_run_def succeed_run_def fail_run_def adopt_run_def redispatch_run_def
  settleAgentTransition_def settleCommandTransition_def closeSessionTransition_def
  recordSnapshotTransition_def extendSessionTransition_def canAdopt_def canRedispatch_def

lemma terminal_throws: "isRunTerminal r \<Longrightarrow> throws (transition_of r c)"
  by (cases "transition_of r c"; cases c) (auto simp: transition_defs split: if_splits)

lemma throws_conflict: "isRunTerminal r \<Longrightarrow> \<exists>m. transition_of r c = Inl (Conflict ''CONFLICT'' m)"
  by (cases c) (auto simp: transition_defs bind_res_def assertRunNotTerminal_def)

interpretation run_ledger: settling_ledger run_exec "\<lambda>l. isRunTerminal (fst l)"
proof unfold_locales
  fix l :: ledger and c
  assume "isRunTerminal (fst l)"
  then obtain e where "transition_of (fst l) c = Inl e" using terminal_throws by blast
  then show "run_exec c l = l" by (simp add: run_exec_def)
qed

text \<open>C11. The first terminal write wins: once a history has settled a run, every further command is
  refused with a conflict and neither the record nor the published facts change again.\<close>

theorem first_terminal_write_wins:
  assumes "isRunTerminal (fst (run_history cs l))"
  shows "run_history (cs @ later) l = run_history cs l
    \<and> (\<exists>m. transition_of (fst (run_history (cs @ later) l)) c = Inl (Conflict ''CONFLICT'' m))"
  using assms run_ledger.first_settlement_wins [of cs l later] throws_conflict
  by (simp add: run_history_def)

definition demo_run :: run_record where
  "demo_run = newQueued ''r1'' ''acme'' (''h'', ''1'') \<lparr>ec_id = ''c1'', ec_env_kind = ''repo'', ec_task = ''t'',
     ec_graders = [demo_spec ''tests-pass''], ec_timeoutSec = 60, ec_tags = []\<rparr> None None None (Some ''kim'')
     None None None 0"

lemma first_terminal_write_wins_witness:
  "run_history ([Start 1, Succeed demo_result 2 None] @ [Fail (''X'', ''late'') 3 None None]) (demo_run, [])
    = run_history [Start 1, Succeed demo_result 2 None] (demo_run, [])"
proof -
  have "isRunTerminal (fst (run_history [Start 1, Succeed demo_result 2 None] (demo_run, [])))" by code_simp
  from first_terminal_write_wins [OF this, of "[Fail (''X'', ''late'') 3 None None]"] show ?thesis by blast
qed

subsection \<open>The invariant of a run\<close>

definition terminal_facts :: "fact list \<Rightarrow> fact list" where
  "terminal_facts fs = filter (\<lambda>f. fact_kind f = ''run.completed'' \<or> fact_kind f = ''run.failed'') fs"

text \<open>What holds of a run that was created open, against the record \<open>r0\<close> it was created as.\<close>

definition run_inv :: "run_record \<Rightarrow> ledger \<Rightarrow> bool" where
  "run_inv r0 l \<longleftrightarrow>
     (\<exists>r fs. l = (r, fs)
      \<and> (run_error r \<noteq> None \<longleftrightarrow> run_status r = RFailed)
      \<and> length (terminal_facts fs) \<le> 1
      \<and> (terminal_facts fs \<noteq> [] \<longrightarrow> isRunTerminal r)
      \<and> (\<forall>f \<in> set (terminal_facts fs). fact_payload f = RunPayload (run_status r) (run_harness r0) (run_caseId r0)
            \<and> fact_run f = run_id r0 \<and> fact_actor f = run_createdBy r0)
      \<and> r = r0\<lparr>run_status := run_status r, run_result := run_result r, run_error := run_error r,
             run_outputs := run_outputs r, run_session := run_session r, run_updatedAt := run_updatedAt r\<rparr>)"

lemma terminal_facts_append [simp]: "terminal_facts (xs @ ys) = terminal_facts xs @ terminal_facts ys"
  by (simp add: terminal_facts_def)

lemma terminal_facts_simps [simp]:
  "terminal_facts [] = []"
  "terminal_facts (f # fs) = (if fact_kind f = ''run.completed'' \<or> fact_kind f = ''run.failed''
     then f # terminal_facts fs else terminal_facts fs)"
  by (simp_all add: terminal_facts_def)

lemma terminal_facts_run [simp]: "terminal_facts (terminalRunFacts r st) = terminalRunFacts r st"
  by (simp add: terminal_facts_def terminalRunFacts_def)

lemma run_status_terminal: "isRunTerminal r \<longleftrightarrow> run_status r = RSucceeded \<or> run_status r = RFailed \<or> run_status r = RSuspended"
  by (auto simp: isRunTerminal_def TERMINAL_RUN_STATUSES_def)

text \<open>What an accepted command does, whichever it is: it came to an open run, and either leaves it open
  without an error and without a terminal fact, or settles it.\<close>

lemma accepted_shape:
  assumes "transition_of r c = Inr (p, fs)"
  shows "\<not> isRunTerminal r
    \<and> (p_status p \<in> {None, Some RRunning} \<and> p_error p = None \<and> terminal_facts fs = []
       \<or> (\<exists>st. p_status p = Some st \<and> st \<in> {RSucceeded, RFailed, RSuspended} \<and> (p_error p \<noteq> None \<longleftrightarrow> st = RFailed)
            \<and> (fs = [] \<or> fs = terminalRunFacts r st \<and> st \<noteq> RSuspended)))"
  using assms
  by (cases c) (auto simp: transition_defs touch_patch_def terminal_facts_def Let_def split: if_splits option.splits)

lemma run_inv_step:
  assumes "run_step l l'" "run_inv r0 l"
  shows "run_inv r0 l'"
  using assms
proof (induction rule: run_step.induct)
  case (accepted r c p fs published)
  note shape = accepted_shape [OF accepted(1)]
  have inv: "run_error r \<noteq> None \<longleftrightarrow> run_status r = RFailed" "terminal_facts published \<noteq> [] \<longrightarrow> isRunTerminal r"
    using accepted(2) by (simp_all add: run_inv_def)
  then have open_facts: "terminal_facts published = []" and no_err: "run_error r = None"
    using shape by (blast, metis run_status_terminal)
  have frame: "apply_patch p r = r0\<lparr>run_status := run_status (apply_patch p r), run_result := run_result (apply_patch p r),
      run_error := run_error (apply_patch p r), run_outputs := run_outputs (apply_patch p r),
      run_session := run_session (apply_patch p r), run_updatedAt := run_updatedAt (apply_patch p r)\<rparr>"
    using accepted(2) by (cases r, cases r0) (simp add: run_inv_def apply_patch_def)
  have ids: "run_id r = run_id r0" "run_harness r = run_harness r0" "run_caseId r = run_caseId r0"
    "run_createdBy r = run_createdBy r0"
    using accepted(2) by (cases r, cases r0, simp add: run_inv_def)+
  from shape show ?case
    unfolding run_inv_def
    by (intro exI [of _ "apply_patch p r"] exI [of _ "published @ fs"] conjI frame refl;
        use open_facts no_err in \<open>auto simp: apply_patch_def keep_or_def run_status_terminal terminalRunFacts_def ids
          split: option.splits if_splits\<close>)
qed


lemma run_exec_steps: "run_exec c l = l \<or> run_step l (run_exec c l)"
  by (cases l) (auto simp: run_exec_def intro: run_step.intros split: sum.split)

lemma run_inv_history: "run_inv r0 l \<Longrightarrow> run_inv r0 (run_history cs l)"
  unfolding run_history_def
  by (induction cs arbitrary: l) (simp, metis fold_simps(2) run_exec_steps run_inv_step)

lemma run_inv_start: "run_error r = None \<Longrightarrow> \<not> isRunTerminal r \<Longrightarrow> run_inv r (r, [])"
  by (simp add: run_inv_def run_status_terminal)

text \<open>C29. A run announces its end once and truthfully: whatever commands reach a run created open, at most
  one \<open>run.completed\<close> or \<open>run.failed\<close> fact is ever published, only for a settled run, it carries the
  status the record settled with, and an error is on record exactly when the run failed.\<close>

theorem terminal_fact_once:
  assumes "run_error r0 = None" "\<not> isRunTerminal r0" "run_history cs (r0, []) = (r, fs)"
  shows "length (terminal_facts fs) \<le> 1
    \<and> (\<forall>f \<in> set (terminal_facts fs). isRunTerminal r \<and> fact_run f = run_id r0
          \<and> fact_payload f = RunPayload (run_status r) (run_harness r0) (run_caseId r0))
    \<and> (run_error r \<noteq> None \<longleftrightarrow> run_status r = RFailed)"
proof -
  have "run_inv r0 (r, fs)" using run_inv_history [OF run_inv_start [OF assms(1,2)], of cs] assms(3) by simp
  then show ?thesis by (auto simp: run_inv_def)
qed

lemma terminal_fact_once_witness:
  "length (terminal_facts (snd (run_history [Start 1, Succeed demo_result 2 None, Fail (''X'', ''late'') 3 None None] (demo_run, [])))) = 1"
proof -
  let ?cs = "[Start 1, Succeed demo_result 2 None, Fail (''X'', ''late'') 3 None None]"
  have "run_error demo_run = None" "\<not> isRunTerminal demo_run" by code_simp+
  from terminal_fact_once [OF this, of ?cs "fst (run_history ?cs (demo_run, []))" "snd (run_history ?cs (demo_run, []))"]
  have "length (terminal_facts (snd (run_history ?cs (demo_run, [])))) \<le> 1" by simp
  moreover have "terminal_facts (snd (run_history ?cs (demo_run, []))) \<noteq> []" by code_simp
  ultimately show ?thesis by (cases "terminal_facts (snd (run_history ?cs (demo_run, [])))") simp_all
qed

end
