(* ===== verification/RunLaws.thy ===== *)
theory RunLaws
  imports RunLife
begin

text \<open>
  What the run's life cycle guarantees to its readers: every stored result crossed the settle boundary,
  the audience of a run is fixed at its creation, a session's deadline only moves out and its snapshots
  only grow.
\<close>

subsection \<open>Results, audiences and deadlines\<close>

definition declaration_of :: "run_record \<Rightarrow> settle_declaration option" where
  "declaration_of r = map_option (\<lambda>c. \<lparr>sd_graders = ec_graders c, sd_judges = []\<rparr>) (run_caseSpec r)"

lemma settled_own:
  "settled r res d = Inr out \<Longrightarrow> declaration_of r = Some own \<Longrightarrow> \<exists>raw. out = sanitizeSubmittedResult raw own"
  by (auto simp: settled_def declaration_of_def Let_def split: option.splits)

lemma stored_result:
  assumes "transition_of r c = Inr (p, fs)" "p_result p = Some out" "declaration_of r = Some own"
  shows "\<exists>raw. out = sanitizeSubmittedResult raw own"
  using assms
  by (cases c) (auto intro: settled_own simp: transition_defs touch_patch_def Let_def split: if_splits option.splits)

lemma declaration_kept: "run_inv r0 (r, fs) \<Longrightarrow> declaration_of r = declaration_of r0"
  by (cases r, cases r0) (simp add: run_inv_def declaration_of_def)

text \<open>C39. Every result a standalone run ever stores crossed the settle boundary under that run's own case:
  a measured row with a reserved name in it comes from a grader the case declared that owns the name,
  whichever of \<open>succeed\<close>, \<open>fail\<close> and \<open>adopt\<close> wrote it and whatever the producer submitted.\<close>

theorem stored_results_settled:
  assumes "run_error r0 = None" "\<not> isRunTerminal r0" "run_result r0 = None" "run_caseSpec r0 = Some c"
    and "run_result (fst (run_history cs (r0, []))) = Some out"
    and "s \<in> set (r_scores out)" "isMeasured s" "metric s \<in> set RESERVED_AUTHORITY_METRICS"
  shows "\<exists>g \<in> set (ec_graders c). (gs_id g = graderId s \<or> gs_config_id g = Some (graderId s))
    \<and> metric s \<in> set (builtInOwnedMetrics (gs_id g))"
proof -
  let ?own = "\<lparr>sd_graders = ec_graders c, sd_judges = []\<rparr>"
  have stored: "\<exists>raw. out = sanitizeSubmittedResult raw ?own"
    if "run_result (fst (run_history cs (r0, []))) = Some out" for cs out
    using that
  proof (induction cs arbitrary: out rule: rev_induct)
    case Nil
    then show ?case using assms(3) by (simp add: run_history_def)
  next
    case (snoc d cs)
    obtain r fs where l: "run_history cs (r0, []) = (r, fs)" by fastforce
    have inv: "run_inv r0 (r, fs)" using run_inv_history [OF run_inv_start [OF assms(1,2)], of cs] l by simp
    have own: "declaration_of r = Some ?own"
      using declaration_kept [OF inv] assms(4) by (simp add: declaration_of_def)
    have now: "run_result (fst (run_exec d (r, fs))) = Some out" using snoc(2) l by (simp add: run_history_def)
    have before: "run_result r = Some out \<Longrightarrow> ?case" using snoc(1) [of out] l by simp
    show ?case
    proof (cases "transition_of r d")
      case (Inl e)
      then show ?thesis using now before by (simp add: run_exec_def)
    next
      case (Inr pf)
      obtain p f where pf: "pf = (p, f)" by (cases pf)
      show ?thesis
      proof (cases "p_result p")
        case None
        then show ?thesis using now before Inr by (simp add: run_exec_def pf apply_patch_def keep_or_def)
      next
        case (Some x)
        then have "x = out" using now Inr by (simp add: run_exec_def pf apply_patch_def keep_or_def)
        then show ?thesis using stored_result [OF Inr [unfolded pf] Some own] by simp
      qed
    qed
  qed
  then obtain raw where "out = sanitizeSubmittedResult raw ?own" using assms(5) by blast
  with assms(6-8) sanitized_reserved [of s raw ?own] show ?thesis by simp
qed


lemma stored_results_settled_witness:
  "\<exists>g \<in> set [demo_spec ''tests-pass'']. (gs_id g = ''tests-pass'' \<or> gs_config_id g = Some ''tests-pass'')
    \<and> ''tests_pass'' \<in> set (builtInOwnedMetrics (gs_id g))"
proof -
  let ?c = "the (run_caseSpec demo_run)"
  let ?cs = "[Start 1, Succeed demo_result 2 None]"
  let ?out = "settleCaseResult ?c demo_result"
  have spec: "run_caseSpec demo_run = Some ?c" by (simp add: demo_run_def newQueued_def Let_def)
  have fresh: "run_error demo_run = None" "\<not> isRunTerminal demo_run" "run_result demo_run = None" by code_simp+
  have stored: "run_result (fst (run_history ?cs (demo_run, []))) \<noteq> None" by code_simp
  then obtain out where out: "run_result (fst (run_history ?cs (demo_run, []))) = Some out" by auto
  then have scores: "r_scores out = r_scores (the (run_result (fst (run_history ?cs (demo_run, [])))))" by simp
  obtain s ss where s: "r_scores out = s # ss" "isMeasured s" "metric s = ''tests_pass''" "graderId s = ''tests-pass''"
  proof -
    have "r_scores out \<noteq> [] \<and> isMeasured (hd (r_scores out)) \<and> metric (hd (r_scores out)) = ''tests_pass''
        \<and> graderId (hd (r_scores out)) = ''tests-pass''" unfolding scores by code_simp
    with that show thesis by (cases "r_scores out") auto
  qed
  have "\<exists>g \<in> set (ec_graders ?c). (gs_id g = graderId s \<or> gs_config_id g = Some (graderId s))
    \<and> metric s \<in> set (builtInOwnedMetrics (gs_id g))"
  proof (rule stored_results_settled [OF fresh spec out])
    show "s \<in> set (r_scores out)" by (simp add: s)
    show "isMeasured s" by (fact s)
    show "metric s \<in> set RESERVED_AUTHORITY_METRICS" unfolding s by code_simp
  qed
  then show ?thesis by (simp add: s demo_run_def newQueued_def Let_def)
qed

lemma audience_patch: "runAudience (apply_patch p r) = runAudience r"
  by (cases r) (simp add: apply_patch_def runAudience_def by_member_def cong: if_cong option.case_cong)

lemma audience_kept: "runAudience (fst (run_exec c l)) = runAudience (fst l)"
  by (cases "transition_of (fst l) c") (simp_all add: run_exec_def case_prod_unfold audience_patch)

lemma audience_history: "runAudience (fst (run_history cs l)) = runAudience (fst l)"
  unfolding run_history_def by (induction cs arbitrary: l) (simp_all add: audience_kept)

lemma audience_personal:
  "runAudience (newChatTurn i t ag av sid actor now) = Member_scope actor"
  "runAudience (newBrowserSession i t img ttl actor rt country now) = Member_scope actor"
  by (simp_all add: runAudience_def PERSONAL_RUN_KINDS_def newChatTurn_def newBrowserSession_def by_member_def)

lemma audience_sandbox:
  "runAudience (newSandboxSession i t h img ttl actor sb now) = Member_scope
     (case sb_origin sb of None \<Rightarrow> actor | Some g \<Rightarrow> (case og_actor g of None \<Rightarrow> actor | Some a \<Rightarrow> a))"
  by (simp add: runAudience_def PERSONAL_RUN_KINDS_def newSandboxSession_def by_member_def split: option.split)

lemma audience_workspace:
  "runAudience (newQueued i t h ec rt tr wh sub og cls env now) = Workspace_scope"
  "runAudience (newFileCommand i t path img actor rt cb env now) = Workspace_scope"
  "runAudience (newAgentRun i t ag av sid ek ei cre bud now) = Workspace_scope"
  "runAudience (newScorecardChildRun i t h cid par ex rt og env now) = Workspace_scope"
  by (simp_all add: runAudience_def PERSONAL_RUN_KINDS_def newQueued_def newFileCommand_def newAgentRun_def
      newScorecardChildRun_def childRunShape_def blank_run_def Let_def)

text \<open>Who may read a run is fixed when it is created, and no transition changes it: a chat turn, a
  browser and a shell stay readable by their one member alone, while eval runs, file commands, agent
  activations and scorecard children stay readable by the whole workspace.\<close>

theorem audience_fixed_at_creation:
  "(canReadRun (fst (run_history cs (newChatTurn i t ag av sid actor now, fs))) v \<longleftrightarrow> v = actor)
   \<and> (canReadRun (fst (run_history cs (newBrowserSession i t img ttl actor rt country now, fs))) v \<longleftrightarrow> v = actor)
   \<and> (canReadRun (fst (run_history cs (newSandboxSession i t h img ttl actor sb now, fs))) v \<longleftrightarrow>
        v = (case sb_origin sb of None \<Rightarrow> actor | Some g \<Rightarrow> (case og_actor g of None \<Rightarrow> actor | Some a \<Rightarrow> a)))
   \<and> canReadRun (fst (run_history cs (newQueued i t h ec rt tr wh sub og cls env now, fs))) v
   \<and> canReadRun (fst (run_history cs (newFileCommand i t path img actor rt cb env now, fs))) v
   \<and> canReadRun (fst (run_history cs (newAgentRun i t ag av sid ek ei cre bud now, fs))) v
   \<and> canReadRun (fst (run_history cs (newScorecardChildRun i t h cid par ex rt og env now, fs))) v"
  by (simp add: canReadRun_def audience_history audience_personal audience_sandbox audience_workspace eq_commute)

definition session_le :: "run_session \<Rightarrow> run_session \<Rightarrow> bool" where
  "session_le s s' \<longleftrightarrow> ses_image s' = ses_image s \<and> ses_expiresAt s \<le> ses_expiresAt s'
     \<and> (\<exists>new. (case ses_snapshots s' of None \<Rightarrow> [] | Some xs \<Rightarrow> xs)
               = (case ses_snapshots s of None \<Rightarrow> [] | Some xs \<Rightarrow> xs) @ new)"

lemma session_le_refl [simp]: "session_le s s"
  by (simp add: session_le_def)

lemma session_le_changes [simp]:
  "session_le s (s\<lparr>ses_closedReason := x\<rparr>)"
  "session_le s (s\<lparr>ses_snapshots := Some ((case ses_snapshots s of None \<Rightarrow> [] | Some xs \<Rightarrow> xs) @ [n])\<rparr>)"
  "session_le s (s\<lparr>ses_ttlSec := y, ses_expiresAt := max (ses_expiresAt s) z\<rparr>)"
  "ses_expiresAt s \<le> z \<Longrightarrow> session_le s (s\<lparr>ses_ttlSec := y, ses_expiresAt := z\<rparr>)"
  by (simp_all add: session_le_def)

lemma session_le_trans: "session_le a b \<Longrightarrow> session_le b c \<Longrightarrow> session_le a c"
  by (auto simp: session_le_def)

lemma session_exec:
  assumes "run_session (fst l) = Some s"
  shows "\<exists>s'. run_session (fst (run_exec c l)) = Some s' \<and> session_le s s'"
proof (cases "transition_of (fst l) c")
  case (Inl e)
  then show ?thesis using assms by (simp add: run_exec_def)
next
  case (Inr pf)
  obtain p f where pf: "pf = (p, f)" by (cases pf)
  have "p_session p = None \<or> (\<exists>s'. p_session p = Some s' \<and> session_le s s')"
    using Inr assms unfolding pf
    by (cases c) (auto simp: transition_defs touch_patch_def Let_def split: if_splits)
  then show ?thesis using assms Inr by (auto simp: run_exec_def pf apply_patch_def keep_or_def)
qed

text \<open>A session's deadline is never pulled in and its snapshots are never lost: through any history of
  touches, snapshots and closes the deadline only moves out, published snapshots stay a prefix of the
  later ones, and the image stays the one it booted from.\<close>

theorem session_deadline_monotone:
  assumes "run_session r = Some s"
  shows "\<exists>s'. run_session (fst (run_history cs (r, fs))) = Some s' \<and> ses_expiresAt s \<le> ses_expiresAt s'
    \<and> ses_image s' = ses_image s
    \<and> (\<exists>new. (case ses_snapshots s' of None \<Rightarrow> [] | Some xs \<Rightarrow> xs)
              = (case ses_snapshots s of None \<Rightarrow> [] | Some xs \<Rightarrow> xs) @ new)"
proof -
  have "\<exists>s'. run_session (fst (run_history cs (r, fs))) = Some s' \<and> session_le s s'"
  proof (induction cs rule: rev_induct)
    case Nil
    show ?case using assms by (simp add: run_history_def)
  next
    case (snoc c cs)
    then obtain s1 where "run_session (fst (run_history cs (r, fs))) = Some s1" "session_le s s1" by blast
    then show ?case
      using session_exec [of "run_history cs (r, fs)" s1 c] session_le_trans by (auto simp: run_history_def)
  qed
  then show ?thesis unfolding session_le_def by blast
qed

definition demo_session :: run_record where
  "demo_session = newBrowserSession ''b1'' ''acme'' ''img'' 3600 ''kim'' None None 0"

lemma session_deadline_monotone_witness:
  "\<exists>s'. run_session (fst (run_history [ExtendSession 60 1000, RecordSnapshot ''w'' ''1'' ''i'' 2000] (demo_session, []))) = Some s'
    \<and> 3600000 \<le> ses_expiresAt s'"
proof -
  have "run_session demo_session = Some (new_session ''img'' 3600 0)" by (simp add: demo_session_def newBrowserSession_def)
  from session_deadline_monotone [OF this, of "[ExtendSession 60 1000, RecordSnapshot ''w'' ''1'' ''i'' 2000]" "[]"]
  show ?thesis by (auto simp: new_session_def)
qed

text \<open>C45. The granted window and the deadline are one fact: after a touch the record's \<open>ttlSec\<close> changes only
  when the deadline it implies is the one on record.\<close>

theorem touch_grants_what_it_moves:
  assumes "extendSessionTransition r ttl now = Inr (p, fs)" "run_session r = Some s" "p_session p = Some s'"
  shows "fs = [] \<and> ses_expiresAt s' = max (ses_expiresAt s) (now + ttl * 1000)
    \<and> (ses_ttlSec s' \<noteq> ses_ttlSec s \<longrightarrow> ses_ttlSec s' = ttl \<and> ses_expiresAt s' = now + ttl * 1000)
    \<and> (ses_expiresAt s' = ses_expiresAt s \<longrightarrow> ses_ttlSec s' = ses_ttlSec s)"
proof -
  have live: "assertRunNotTerminal r ''extendSession'' = Inr ()"
    using assms(1) by (simp add: extendSessionTransition_def assertRunNotTerminal_def split: if_splits)
  have out: "extendSessionTransition r ttl now = Inr ((touch_patch now)\<lparr>p_session := Some (s\<lparr>
      ses_ttlSec := (if ses_expiresAt s < now + ttl * 1000 then ttl else ses_ttlSec s),
      ses_expiresAt := max (ses_expiresAt s) (now + ttl * 1000)\<rparr>)\<rparr>, [])"
    unfolding extendSessionTransition_def live assertRunSession_def assms(2) by (simp add: Let_def)
  then have "s' = s\<lparr>ses_ttlSec := (if ses_expiresAt s < now + ttl * 1000 then ttl else ses_ttlSec s),
      ses_expiresAt := max (ses_expiresAt s) (now + ttl * 1000)\<rparr>" "fs = []"
    using assms by auto
  then show ?thesis by simp
qed

lemma touch_grants_what_it_moves_witness:
  "ses_ttlSec ((new_session ''img'' 3600 0)\<lparr>ses_ttlSec := 3600, ses_expiresAt := 3600000\<rparr>) = 3600
   \<and> max (ses_expiresAt (new_session ''img'' 3600 0)) (1000 + 60 * 1000) = 3600000"
proof -
  let ?s = "new_session ''img'' 3600 0"
  have r: "run_session demo_session = Some ?s" by (simp add: demo_session_def newBrowserSession_def)
  have "\<not> isRunTerminal demo_session" by code_simp
  then have t: "extendSessionTransition demo_session 60 1000 =
      Inr ((touch_patch 1000)\<lparr>p_session := Some (?s\<lparr>ses_ttlSec := 3600, ses_expiresAt := 3600000\<rparr>)\<rparr>, [])"
    by (simp add: extendSessionTransition_def r bind_res_def assertRunNotTerminal_def assertRunSession_def new_session_def)
  from touch_grants_what_it_moves [OF t r, of "?s\<lparr>ses_ttlSec := 3600, ses_expiresAt := 3600000\<rparr>"]
  show ?thesis by (simp add: new_session_def)
qed

end
