(* ===== verification/Digest.thy ===== *)
theory Digest
  imports Ordering "HOL-Library.Word"
begin

text \<open>
  The identity of a document: packages/domain/src/provenance/content-digest.ts and the stable
  stringification of packages/domain/src/registry/version-algebra.ts.

  A document is a JSON value. A number is represented by the text \<open>JSON.stringify\<close> writes for it, an object
  by its entries in insertion order, and a string by its code units (those below 256). SHA-256 is
  \<open>createHash\<close> of node:crypto, a parameter from a text to its hexadecimal digest. The legacy FNV-1a hash is
  the code's own, on 64-bit words.
\<close>

subsection \<open>Documents and their text\<close>

datatype json =
    JUndefined
  | JNull
  | JBool bool
  | JNum string
  | JStr string
  | JArr "json list"
  | JObj "(string \<times> json) list"

definition hex_digit :: "nat \<Rightarrow> char" where
  "hex_digit n = (if n < 10 then char_of (48 + n) else char_of (87 + n))"

text \<open>One character inside \<open>JSON.stringify\<close> of a string.\<close>

definition quote_char :: "char \<Rightarrow> string" where
  "quote_char c =
     (let n = of_char c :: nat in
      if n = 34 then [CHR 0x5C, CHR 0x22]
      else if n = 92 then [CHR 0x5C, CHR 0x5C]
      else if n = 8 then [CHR 0x5C, CHR ''b'']
      else if n = 9 then [CHR 0x5C, CHR ''t'']
      else if n = 10 then [CHR 0x5C, CHR ''n'']
      else if n = 12 then [CHR 0x5C, CHR ''f'']
      else if n = 13 then [CHR 0x5C, CHR ''r'']
      else if n < 32 then [CHR 0x5C, CHR ''u'', CHR ''0'', CHR ''0'', hex_digit (n div 16), hex_digit (n mod 16)]
      else [c])"

definition quote_text :: "string \<Rightarrow> string" where
  "quote_text s = CHR 0x22 # concat (map quote_char s) @ [CHR 0x22]"

fun join_text :: "string list \<Rightarrow> string" where
  "join_text [] = []"
| "join_text [x] = x"
| "join_text (x # y # ys) = x @ CHR '','' # join_text (y # ys)"

definition key_cmp :: "(string \<times> json) compare" where
  "key_cmp a b = code_unit_cmp (fst a) (fst b)"

definition defined_entry :: "string \<times> json \<Rightarrow> bool" where
  "defined_entry kv \<longleftrightarrow> snd kv \<noteq> JUndefined"

lemma entry_smaller: "kv \<in> set kvs \<Longrightarrow> size (snd kv) < Suc (size_list (\<lambda>x. Suc (size (snd x))) kvs)"
  by (induction kvs) auto

function canonicalize :: "json \<Rightarrow> string" where
  "canonicalize JUndefined = []"
| "canonicalize JNull = ''null''"
| "canonicalize (JBool b) = (if b then ''true'' else ''false'')"
| "canonicalize (JNum n) = n"
| "canonicalize (JStr s) = quote_text s"
| "canonicalize (JArr vs) = ''['' @ join_text (map canonicalize vs) @ '']''"
| "canonicalize (JObj kvs) =
     ''{'' @ join_text (map (\<lambda>kv. quote_text (fst kv) @ '':'' @ canonicalize (snd kv))
               (sort_by key_cmp (filter defined_entry kvs))) @ ''}''"
  by pat_completeness auto
termination
  by (relation "measure size") (auto dest: entry_smaller simp: less_Suc_eq_le size_list_estimation')

text \<open>\<open>stableStringify\<close> of the version algebra: an undefined value is written \<open>null\<close>, not dropped.\<close>

function stableStringify :: "json \<Rightarrow> string" where
  "stableStringify JUndefined = ''null''"
| "stableStringify JNull = ''null''"
| "stableStringify (JBool b) = (if b then ''true'' else ''false'')"
| "stableStringify (JNum n) = n"
| "stableStringify (JStr s) = quote_text s"
| "stableStringify (JArr vs) = ''['' @ join_text (map stableStringify vs) @ '']''"
| "stableStringify (JObj kvs) =
     ''{'' @ join_text (map (\<lambda>kv. quote_text (fst kv) @ '':'' @ stableStringify (snd kv)) (sort_by key_cmp kvs)) @ ''}''"
  by pat_completeness auto
termination
  by (relation "measure size") (auto dest: entry_smaller simp: less_Suc_eq_le size_list_estimation')

definition specsEqual :: "json \<Rightarrow> json \<Rightarrow> bool" where
  "specsEqual a b \<longleftrightarrow> stableStringify a = stableStringify b"

definition canonicalText :: "json \<Rightarrow> string res" where
  "canonicalText v =
     (if v = JUndefined
      then Inl (BadRequest ''BAD_REQUEST'' ''contentDigest expects a JSON-serializable document, got undefined.'')
      else Inr (canonicalize v))"

subsection \<open>The two digests\<close>

definition SHA256_PREFIX :: string where
  "SHA256_PREFIX = ''sha256:''"

definition contentDigest :: "(string \<Rightarrow> string) \<Rightarrow> json \<Rightarrow> string res" where
  "contentDigest sha256 v = map_sum id (\<lambda>text. SHA256_PREFIX @ sha256 text) (canonicalText v)"

definition fnv_step :: "char \<Rightarrow> 64 word \<Rightarrow> 64 word" where
  "fnv_step c hash = (xor hash (word_of_nat (of_char c))) * 0x100000001b3"

definition fnv :: "string \<Rightarrow> 64 word" where
  "fnv text = fold fnv_step text 0xcbf29ce484222325"

text \<open>\<open>toString(16).padStart(16, "0")\<close> of a 64-bit value: its sixteen hexadecimal digits.\<close>

definition hex16 :: "64 word \<Rightarrow> string" where
  "hex16 w = map (\<lambda>i. hex_digit (unat w div 16 ^ (15 - i) mod 16)) [0..<16]"

definition legacyFnvDigest :: "json \<Rightarrow> string res" where
  "legacyFnvDigest v = map_sum id (\<lambda>text. hex16 (fnv text)) (canonicalText v)"

definition is_hex :: "char \<Rightarrow> bool" where
  "is_hex c \<longleftrightarrow> (let n = of_char c :: nat in 48 \<le> n \<and> n \<le> 57 \<or> 97 \<le> n \<and> n \<le> 102)"

text \<open>\<open>LEGACY_FNV_PATTERN\<close>: exactly sixteen lower-case hexadecimal digits.\<close>

definition is_legacy_stamp :: "string \<Rightarrow> bool" where
  "is_legacy_stamp s \<longleftrightarrow> length s = 16 \<and> list_all is_hex s"

definition digestUnder :: "(string \<Rightarrow> string) \<Rightarrow> string \<Rightarrow> json \<Rightarrow> string res" where
  "digestUnder sha256 stamped v = (if is_legacy_stamp stamped then legacyFnvDigest v else contentDigest sha256 v)"

definition digestsMatch :: "(string \<Rightarrow> string) \<Rightarrow> string \<Rightarrow> json \<Rightarrow> bool res" where
  "digestsMatch sha256 stamped v = map_sum id (\<lambda>d. d = stamped) (digestUnder sha256 stamped v)"

definition digestHex :: "string \<Rightarrow> string" where
  "digestHex d = (if take (length SHA256_PREFIX) d = SHA256_PREFIX then drop (length SHA256_PREFIX) d else d)"

subsection \<open>The text determines the document\<close>

interpretation keyed: comparison key_cmp "\<lambda>_. True"
  by unfold_locales (auto simp: key_cmp_def)

lemma sorted_keys: "sorted_wrt (\<lambda>a b. key_cmp a b \<le> 0) kvs \<longleftrightarrow> sorted (map fst kvs)"
  by (simp add: key_cmp_def sorted_map)

lemma sort_by_key_perm:
  assumes "mset kvs = mset kvs'" "distinct (map fst kvs)"
  shows "sort_by key_cmp kvs = sort_by key_cmp kvs'"
proof -
  have s: "sorted (map fst (sort_by key_cmp xs))" for xs
    using keyed.sorted_sort_by [of xs] sorted_keys by simp
  have inj: "inj_on fst (set kvs)" using assms(2) by (simp add: distinct_map)
  have "sort_key fst kvs = sort_by key_cmp xs" if "mset kvs = mset xs" for xs
    using sort_key_inj_key_eq [OF _ inj s] that by simp
  from this [of kvs] this [of kvs'] show ?thesis using assms(1) by simp
qed

text \<open>What \<open>JSON.stringify\<close> writes for one character can be read back from the front of any text.\<close>

definition unhex :: "char \<Rightarrow> nat" where
  "unhex c = (let n = of_char c :: nat in if n < 58 then n - 48 else n - 87)"

definition unquote_char :: "string \<Rightarrow> (char \<times> string) option" where
  "unquote_char s =
     (case s of
        [] \<Rightarrow> None
      | c # x \<Rightarrow>
          if c \<noteq> CHR 0x5C then Some (c, x)
          else case x of
                 [] \<Rightarrow> None
               | d # y \<Rightarrow>
                   if d = CHR ''u'' then Some (char_of (16 * unhex (y ! 2) + unhex (y ! 3)), drop 4 y)
                   else if d = CHR ''b'' then Some (char_of (8 :: nat), y)
                   else if d = CHR ''t'' then Some (char_of (9 :: nat), y)
                   else if d = CHR ''n'' then Some (char_of (10 :: nat), y)
                   else if d = CHR ''f'' then Some (char_of (12 :: nat), y)
                   else if d = CHR ''r'' then Some (char_of (13 :: nat), y)
                   else Some (d, y))"

lemma char_of_code: "of_char c = n \<Longrightarrow> c = char_of (n :: nat)"
  using char_of_char by metis

lemma char_of_escapes: "char_of (34 :: nat) = CHR 0x22" "char_of (92 :: nat) = CHR 0x5C"
  by code_simp+

lemma unhex_hex_digit: "n < 16 \<Longrightarrow> unhex (hex_digit n) = n"
  by (simp add: unhex_def hex_digit_def Let_def)

lemma unquote_quote_char: "unquote_char (quote_char c @ x) = Some (c, x)"
proof -
  let ?n = "of_char c :: nat"
  have c: "c = char_of ?n" by simp
  consider "?n = 34" | "?n = 92" | "?n = 8" | "?n = 9" | "?n = 10" | "?n = 12" | "?n = 13"
    | (ctl) "?n < 32" "?n \<notin> {34, 92, 8, 9, 10, 12, 13}" | (plain) "32 \<le> ?n" "?n \<noteq> 34" "?n \<noteq> 92" by fastforce
  then show ?thesis
  proof cases
    case ctl
    have "16 * (?n div 16) + ?n mod 16 = ?n" by (simp add: mult.commute)
    moreover have "?n div 16 < 16" using ctl by linarith
    ultimately show ?thesis
      using ctl by (simp add: quote_char_def unquote_char_def Let_def unhex_hex_digit)
  next
    case plain
    then have "c \<noteq> CHR 0x5C" by auto
    with plain show ?thesis by (simp add: quote_char_def unquote_char_def Let_def)
  qed (auto simp: quote_char_def unquote_char_def Let_def char_of_escapes dest!: char_of_code)
qed

lemma quote_char_hd: "quote_char c \<noteq> [] \<and> hd (quote_char c) \<noteq> CHR 0x22"
proof (cases "of_char c = (34 :: nat)")
  case False
  then have "c \<noteq> CHR 0x22" by auto
  then show ?thesis by (simp add: quote_char_def Let_def)
qed (simp add: quote_char_def Let_def)

lemma quoted_chars_inj:
  "concat (map quote_char s) @ CHR 0x22 # r = concat (map quote_char t) @ CHR 0x22 # u \<Longrightarrow> s = t \<and> r = u"
proof (induction s arbitrary: t)
  case Nil
  show ?case
  proof (cases t)
    case (Cons c t')
    then show ?thesis using Nil quote_char_hd [of c] by (cases "quote_char c") auto
  qed (use Nil in simp)
next
  case (Cons c s)
  show ?case
  proof (cases t)
    case Nil
    then show ?thesis using Cons.prems quote_char_hd [of c] by (cases "quote_char c") auto
  next
    case (Cons d t')
    have "quote_char c @ concat (map quote_char s) @ CHR 0x22 # r
        = quote_char d @ concat (map quote_char t') @ CHR 0x22 # u"
      using Cons.prems Cons by simp
    then have "Some (c, concat (map quote_char s) @ CHR 0x22 # r)
        = Some (d, concat (map quote_char t') @ CHR 0x22 # u)"
      by (metis unquote_quote_char)
    then show ?thesis using Cons.IH [of t'] Cons by simp
  qed
qed

lemma quote_text_inj: "quote_text s @ r = quote_text t @ u \<Longrightarrow> s = t \<and> r = u"
  using quoted_chars_inj [of s r t u] by (simp add: quote_text_def)


subsection \<open>Normal forms\<close>

function normal_form :: "json \<Rightarrow> json" where
  "normal_form JUndefined = JUndefined"
| "normal_form JNull = JNull"
| "normal_form (JBool b) = JBool b"
| "normal_form (JNum n) = JNum n"
| "normal_form (JStr s) = JStr s"
| "normal_form (JArr vs) = JArr (map normal_form vs)"
| "normal_form (JObj kvs) = JObj (map (\<lambda>kv. (fst kv, normal_form (snd kv))) (sort_by key_cmp (filter defined_entry kvs)))"
  by pat_completeness auto
termination
  by (relation "measure size") (auto dest: entry_smaller simp: less_Suc_eq_le size_list_estimation')

definition number_text :: "string \<Rightarrow> bool" where
  "number_text n \<longleftrightarrow> n \<noteq> [] \<and> list_all (\<lambda>c. c \<in> set ''0123456789+-.e'') n"

text \<open>A value \<open>JSON.parse\<close> can return, possibly with undefined members: numbers are number texts, arrays
  hold no undefined and the keys of an object are distinct.\<close>

function json_ok :: "json \<Rightarrow> bool" where
  "json_ok JUndefined \<longleftrightarrow> True"
| "json_ok JNull \<longleftrightarrow> True"
| "json_ok (JBool b) \<longleftrightarrow> True"
| "json_ok (JNum n) \<longleftrightarrow> number_text n"
| "json_ok (JStr s) \<longleftrightarrow> True"
| "json_ok (JArr vs) \<longleftrightarrow> list_all (\<lambda>v. v \<noteq> JUndefined \<and> json_ok v) vs"
| "json_ok (JObj kvs) \<longleftrightarrow> distinct (map fst kvs) \<and> list_all (\<lambda>kv. json_ok (snd kv)) kvs"
  by pat_completeness auto
termination
  by (relation "measure size") (auto dest: entry_smaller simp: less_Suc_eq_le size_list_estimation')

lemma norm_undefined [simp]: "normal_form v = JUndefined \<longleftrightarrow> v = JUndefined"
  by (cases v) simp_all

lemma canonicalize_norm: "canonicalize (normal_form v) = canonicalize v"
proof (induction v rule: normal_form.induct)
  case (7 kvs)
  let ?s = "sort_by key_cmp (filter defined_entry kvs)"
  let ?m = "map (\<lambda>kv. (fst kv, normal_form (snd kv))) ?s"
  have "filter defined_entry ?m = ?m"
    by (rule filter_True) (auto simp: defined_entry_def)
  moreover have "sorted (map fst ?s)"
    using keyed.sorted_sort_by [of "filter defined_entry kvs"] sorted_keys by simp
  then have "sorted (map fst ?m)" by (simp add: comp_def)
  then have "sort_by key_cmp ?m = ?m" using keyed.sort_by_sorted sorted_keys by blast
  moreover have "map (\<lambda>kv. quote_text (fst kv) @ '':'' @ canonicalize (snd kv)) ?m
      = map (\<lambda>kv. quote_text (fst kv) @ '':'' @ canonicalize (snd kv)) ?s"
    using 7 by simp
  ultimately show ?case by (simp only: normal_form.simps canonicalize.simps)
qed (simp_all add: comp_def cong: map_cong)

text \<open>In normal form the printed text has no choice left: the entries are sorted and all defined.\<close>

fun printed :: "json \<Rightarrow> bool" where
  "printed JUndefined \<longleftrightarrow> False"
| "printed (JNum n) \<longleftrightarrow> number_text n"
| "printed (JArr vs) \<longleftrightarrow> list_all printed vs"
| "printed (JObj kvs) \<longleftrightarrow> sort_by key_cmp kvs = kvs \<and> list_all (\<lambda>kv. printed (snd kv)) kvs"
| "printed v \<longleftrightarrow> True"

lemma printed_norm: "json_ok v \<Longrightarrow> v \<noteq> JUndefined \<Longrightarrow> printed (normal_form v)"
proof (induction v rule: normal_form.induct)
  case (7 kvs)
  let ?s = "sort_by key_cmp (filter defined_entry kvs)"
  let ?m = "map (\<lambda>kv. (fst kv, normal_form (snd kv))) ?s"
  have "sorted (map fst ?s)"
    using keyed.sorted_sort_by [of "filter defined_entry kvs"] sorted_keys by simp
  then have "sorted (map fst ?m)" by (simp add: comp_def)
  then have "sort_by key_cmp ?m = ?m" using keyed.sort_by_sorted sorted_keys by blast
  moreover have "list_all (\<lambda>kv. printed (snd kv)) ?m"
    using 7 by (auto simp: list_all_iff defined_entry_def)
  ultimately show ?case by simp
qed (auto simp: list_all_iff)

lemma printed_object:
  "printed (JObj kvs) \<Longrightarrow> canonicalize (JObj kvs) =
     ''{'' @ join_text (map (\<lambda>kv. quote_text (fst kv) @ '':'' @ canonicalize (snd kv)) kvs) @ ''}''"
proof -
  assume p: "printed (JObj kvs)"
  then have "filter defined_entry kvs = kvs" by (intro filter_True) (auto simp: defined_entry_def list_all_iff)
  with p show ?thesis by simp
qed


subsection \<open>Printing is injective on normal forms\<close>

definition delim :: "string \<Rightarrow> bool" where
  "delim r \<longleftrightarrow> r = [] \<or> hd r \<in> {CHR '','', CHR '']'', CHR ''}''}"

lemma join_text_Cons: "join_text (x # xs) = x @ concat (map ((#) (CHR '','')) xs)"
  by (induction xs arbitrary: x) simp_all

lemma number_prefix:
  assumes "number_text n" "delim r"
  shows "takeWhile (\<lambda>c. c \<in> set ''0123456789+-.e'') (n @ r) = n"
proof -
  have "takeWhile (\<lambda>c. c \<in> set ''0123456789+-.e'') r = []"
    using assms(2) by (cases r) (auto simp: delim_def)
  then show ?thesis using assms(1) by (simp add: number_text_def list_all_iff takeWhile_append2)
qed

lemma number_inj:
  assumes "number_text n" "number_text m" "delim r" "delim s" "n @ r = m @ s"
  shows "n = m \<and> r = s"
  using number_prefix [OF assms(1,3)] number_prefix [OF assms(2,4)] assms(5) by simp

lemma tail_inj:
  assumes "\<And>x y r s. x \<in> set xs \<Longrightarrow> y \<in> set ys \<Longrightarrow> delim r \<Longrightarrow> delim s \<Longrightarrow> f x @ r = f y @ s \<Longrightarrow> x = y \<and> r = s"
    and "close \<in> {CHR '']'', CHR ''}''}"
    and "concat (map (\<lambda>x. CHR '','' # f x) xs) @ close # r = concat (map (\<lambda>x. CHR '','' # f x) ys) @ close # s"
  shows "xs = ys \<and> r = s"
  using assms(1,3)
proof (induction xs arbitrary: ys)
  case Nil
  then show ?case using assms(2) by (cases ys) auto
next
  case (Cons x xs)
  note inj = Cons.prems(1)
  show ?case
  proof (cases ys)
    case Nil
    then show ?thesis using Cons.prems(2) assms(2) by auto
  next
    case ys: (Cons y ys')
    let ?r = "concat (map (\<lambda>x. CHR '','' # f x) xs) @ close # r"
    let ?s = "concat (map (\<lambda>x. CHR '','' # f x) ys') @ close # s"
    have "delim ?r" "delim ?s" using assms(2) by (cases xs; cases ys'; auto simp: delim_def)+
    moreover have "f x @ ?r = f y @ ?s" using Cons.prems(2) ys by simp
    ultimately have "x = y" "?r = ?s" using inj [of x y ?r ?s] ys by auto
    moreover from this(2) have "xs = ys' \<and> r = s" by (intro Cons.IH inj) (auto simp: ys)
    ultimately show ?thesis using ys by simp
  qed
qed

lemma join_inj:
  assumes "\<And>x y r s. x \<in> set xs \<Longrightarrow> y \<in> set ys \<Longrightarrow> delim r \<Longrightarrow> delim s \<Longrightarrow> f x @ r = f y @ s \<Longrightarrow> x = y \<and> r = s"
    and "\<And>x. x \<in> set xs \<union> set ys \<Longrightarrow> f x \<noteq> [] \<and> hd (f x) \<notin> {CHR '']'', CHR ''}''}"
    and "close \<in> {CHR '']'', CHR ''}''}"
    and "join_text (map f xs) @ close # r = join_text (map f ys) @ close # s"
  shows "xs = ys \<and> r = s"
proof (cases xs)
  case Nil
  show ?thesis
  proof (cases ys)
    case (Cons y ys')
    then show ?thesis using Nil assms(2) [of y] assms(3,4) by (cases "f y") (auto simp: join_text_Cons)
  qed (use Nil assms(4) in simp)
next
  case xs: (Cons x xs')
  show ?thesis
  proof (cases ys)
    case Nil
    then show ?thesis using xs assms(2) [of x] assms(3,4) by (cases "f x") (auto simp: join_text_Cons)
  next
    case ys: (Cons y ys')
    have "concat (map (\<lambda>x. CHR '','' # f x) xs) @ close # r = concat (map (\<lambda>x. CHR '','' # f x) ys) @ close # s"
      using assms(4) by (simp add: xs ys join_text_Cons comp_def)
    from tail_inj [OF assms(1,3) this] show ?thesis by blast
  qed
qed

lemma canonicalize_hd:
  assumes "printed v"
  shows "canonicalize v \<noteq> [] \<and> hd (canonicalize v) \<notin> {CHR '']'', CHR ''}''}"
proof (cases v)
  case (JNum n)
  then show ?thesis using assms by (cases n) (auto simp: number_text_def)
qed (use assms in \<open>auto simp: quote_text_def\<close>)

text \<open>The first character tells the constructor.\<close>

fun kind :: "json \<Rightarrow> nat" where
  "kind JUndefined = 0" | "kind JNull = 1" | "kind (JBool b) = 2" | "kind (JNum n) = 3"
| "kind (JStr s) = 4" | "kind (JArr vs) = 5" | "kind (JObj kvs) = 6"

definition kind_of_char :: "char \<Rightarrow> nat" where
  "kind_of_char c = (if c = CHR ''n'' then 1 else if c \<in> {CHR ''t'', CHR ''f''} then 2
     else if c = CHR 0x22 then 4 else if c = CHR ''['' then 5 else if c = CHR ''{'' then 6 else 3)"

lemma kind_of_hd: "printed v \<Longrightarrow> kind_of_char (hd (canonicalize v @ r)) = kind v"
proof (cases v)
  case (JNum n)
  assume "printed v"
  then obtain c n' where n: "n = c # n'" "c \<in> set ''0123456789+-.e''"
    using JNum by (cases n) (simp_all add: number_text_def)
  then have "kind_of_char c = 3" by (auto simp: kind_of_char_def)
  with n JNum show ?thesis by simp
qed (simp_all add: kind_of_char_def quote_text_def)

lemma same_kind:
  "printed v \<Longrightarrow> printed w \<Longrightarrow> canonicalize v @ r = canonicalize w @ s \<Longrightarrow> kind v = kind w"
  by (metis kind_of_hd)

lemma canonicalize_inj:
  assumes "printed v" "printed w" "delim r" "delim s" "canonicalize v @ r = canonicalize w @ s"
  shows "v = w \<and> r = s"
  using assms
proof (induction v arbitrary: w r s)
  case (JNum n)
  then obtain m where "w = JNum m" using same_kind [of "JNum n" w r s] by (cases w) simp_all
  then show ?case using JNum.prems number_inj [of n m r s] by simp
next
  case (JStr x)
  then obtain y where "w = JStr y" using same_kind [of "JStr x" w r s] by (cases w) simp_all
  then show ?case using JStr.prems quote_text_inj [of x r y s] by simp
next
  case (JBool b)
  then obtain c where "w = JBool c" using same_kind [of "JBool b" w r s] by (cases w) simp_all
  then show ?case using JBool.prems by (cases b; cases c) simp_all
next
  case JNull
  then have "w = JNull" using same_kind [of JNull w r s] by (cases w) simp_all
  then show ?case using JNull.prems by simp
next
  case (JArr vs)
  then obtain ws where w: "w = JArr ws" using same_kind [of "JArr vs" w r s] by (cases w) simp_all
  have "vs = ws \<and> r = s"
  proof (rule join_inj [where f = canonicalize and close = "CHR '']''"])
    show "join_text (map canonicalize vs) @ CHR '']'' # r = join_text (map canonicalize ws) @ CHR '']'' # s"
      using JArr.prems(5) w by simp
  next
    fix x y r s
    assume "x \<in> set vs" "y \<in> set ws" "delim r" "delim s" "canonicalize x @ r = canonicalize y @ s"
    then show "x = y \<and> r = s" using JArr.IH [of x y r s] JArr.prems(1,2) w by (simp add: list_all_iff)
  next
    fix x assume "x \<in> set vs \<union> set ws"
    then show "canonicalize x \<noteq> [] \<and> hd (canonicalize x) \<notin> {CHR '']'', CHR ''}''}"
      using canonicalize_hd [of x] JArr.prems(1,2) w by (auto simp: list_all_iff)
  qed simp
  then show ?case using w by simp
next
  case (JObj kvs)
  let ?f = "\<lambda>kv. quote_text (fst kv) @ '':'' @ canonicalize (snd kv)"
  obtain lws where w: "w = JObj lws" using JObj.prems same_kind [of "JObj kvs" w r s] by (cases w) simp_all
  have "kvs = lws \<and> r = s"
  proof (rule join_inj [where f = ?f and close = "CHR ''}''"])
    show "join_text (map ?f kvs) @ CHR ''}'' # r = join_text (map ?f lws) @ CHR ''}'' # s"
      using JObj.prems(5) unfolding w printed_object [OF JObj.prems(1)] printed_object [OF JObj.prems(2) [unfolded w]]
      by simp
  next
    fix x y r s
    assume xy: "x \<in> set kvs" "y \<in> set lws" "delim r" "delim s" "?f x @ r = ?f y @ s"
    then have "quote_text (fst x) @ (CHR '':'' # canonicalize (snd x) @ r)
        = quote_text (fst y) @ (CHR '':'' # canonicalize (snd y) @ s)" by simp
    from quote_text_inj [OF this] have "fst x = fst y" "canonicalize (snd x) @ r = canonicalize (snd y) @ s"
      by simp_all
    moreover have "printed (snd x)" "printed (snd y)"
      using JObj.prems(1,2) w xy(1,2) by (auto simp: list_all_iff)
    ultimately show "x = y \<and> r = s"
      using JObj.IH [of x "snd x" "snd y" r s] xy by (auto simp: snds.simps prod_eq_iff)
  next
    fix x :: "string \<times> json"
    show "?f x \<noteq> [] \<and> hd (?f x) \<notin> {CHR '']'', CHR ''}''}" by (simp add: quote_text_def)
  qed simp
  then show ?case using w by simp
qed simp


lemma canonicalize_eq_iff:
  assumes "json_ok v" "json_ok w" "v \<noteq> JUndefined" "w \<noteq> JUndefined"
  shows "canonicalize v = canonicalize w \<longleftrightarrow> normal_form v = normal_form w"
proof
  assume "canonicalize v = canonicalize w"
  then have "canonicalize (normal_form v) @ [] = canonicalize (normal_form w) @ []"
    by (simp add: canonicalize_norm)
  then show "normal_form v = normal_form w"
    using canonicalize_inj [of "normal_form v" "normal_form w" "[]" "[]"] printed_norm assms by (simp add: delim_def)
next
  assume "normal_form v = normal_form w"
  then show "canonicalize v = canonicalize w" by (metis canonicalize_norm)
qed

subsection \<open>Stable stringification\<close>

text \<open>No undefined value anywhere: a document that went through \<open>JSON.parse\<close> or jsonb.\<close>

function all_defined :: "json \<Rightarrow> bool" where
  "all_defined JUndefined \<longleftrightarrow> False"
| "all_defined JNull \<longleftrightarrow> True"
| "all_defined (JBool b) \<longleftrightarrow> True"
| "all_defined (JNum n) \<longleftrightarrow> True"
| "all_defined (JStr s) \<longleftrightarrow> True"
| "all_defined (JArr vs) \<longleftrightarrow> list_all all_defined vs"
| "all_defined (JObj kvs) \<longleftrightarrow> list_all (\<lambda>kv. all_defined (snd kv)) kvs"
  by pat_completeness auto
termination
  by (relation "measure size") (auto dest: entry_smaller simp: less_Suc_eq_le size_list_estimation')

lemma stable_is_canonical: "all_defined v \<Longrightarrow> stableStringify v = canonicalize v"
proof (induction v rule: stableStringify.induct)
  case (6 vs)
  then show ?case by (simp add: list_all_iff cong: map_cong)
next
  case (7 kvs)
  have f: "filter defined_entry kvs = kvs"
    using 7 by (intro filter_True) (auto simp: list_all_iff defined_entry_def)
  have "map (\<lambda>kv. quote_text (fst kv) @ '':'' @ stableStringify (snd kv)) (sort_by key_cmp kvs)
      = map (\<lambda>kv. quote_text (fst kv) @ '':'' @ canonicalize (snd kv)) (sort_by key_cmp kvs)"
    using 7 by (auto simp: list_all_iff)
  then show ?case by (simp only: stableStringify.simps canonicalize.simps f)
qed simp_all

definition json_doc :: "json \<Rightarrow> bool" where
  "json_doc v \<longleftrightarrow> json_ok v \<and> all_defined v"

lemma json_doc_defined: "json_doc v \<Longrightarrow> v \<noteq> JUndefined"
  by (auto simp: json_doc_def)

lemma specsEqual_iff: "json_doc v \<Longrightarrow> json_doc w \<Longrightarrow> specsEqual v w \<longleftrightarrow> normal_form v = normal_form w"
  using canonicalize_eq_iff [of v w] json_doc_defined
  by (auto simp: specsEqual_def stable_is_canonical json_doc_def)

subsection \<open>Stamps\<close>

lemma hex_digit_is_hex: "n < 16 \<Longrightarrow> is_hex (hex_digit n)"
  by (simp add: is_hex_def hex_digit_def Let_def)

lemma legacy_stamp: "is_legacy_stamp (hex16 w)"
  by (simp add: is_legacy_stamp_def hex16_def list_all_iff hex_digit_is_hex)

lemma not_legacy_stamp: "\<not> is_legacy_stamp (SHA256_PREFIX @ x)"
  by (simp add: is_legacy_stamp_def SHA256_PREFIX_def is_hex_def)

subsection \<open>Properties\<close>

text \<open>Every stamp verifies against its own document, under whichever algorithm it was made: a legacy stamp
  is recognised by its form and checked with FNV, a new one is never taken for a legacy one, and only an
  undefined document has no stamp.\<close>

theorem own_stamp_verifies:
  "(case contentDigest sha256 v of
      Inl e \<Rightarrow> v = JUndefined
    | Inr s \<Rightarrow> v \<noteq> JUndefined \<and> \<not> is_legacy_stamp s \<and> digestsMatch sha256 s v = Inr True
              \<and> digestHex s = sha256 (canonicalize v))
   \<and> (case legacyFnvDigest v of
        Inl e \<Rightarrow> v = JUndefined
      | Inr s \<Rightarrow> v \<noteq> JUndefined \<and> is_legacy_stamp s \<and> digestsMatch sha256 s v = Inr True)"
proof (cases "v = JUndefined")
  case False
  then show ?thesis
    by (simp add: contentDigest_def legacyFnvDigest_def canonicalText_def digestsMatch_def digestUnder_def
        legacy_stamp not_legacy_stamp)
      (simp add: digestHex_def)
qed (simp add: contentDigest_def legacyFnvDigest_def canonicalText_def)

text \<open>C39. A new stamp is evidence about one document: as far as SHA-256 has no collision between the two
  texts, the stamp of \<open>v\<close> matches \<open>w\<close> exactly when both are the same document up to the order of keys and
  the presence of undefined members.\<close>

theorem stamp_binds_document:
  assumes "json_ok v" "json_ok w" "v \<noteq> JUndefined" "w \<noteq> JUndefined"
    and "sha256 (canonicalize w) = sha256 (canonicalize v) \<Longrightarrow> canonicalize w = canonicalize v"
    and "contentDigest sha256 v = Inr s"
  shows "digestsMatch sha256 s w = Inr (normal_form w = normal_form v)"
proof -
  have s: "s = SHA256_PREFIX @ sha256 (canonicalize v)"
    using assms(3,6) by (simp add: contentDigest_def canonicalText_def)
  have "sha256 (canonicalize w) = sha256 (canonicalize v) \<longleftrightarrow> normal_form w = normal_form v"
    using assms(5) canonicalize_eq_iff [OF assms(2,1,4,3)] by metis
  then show ?thesis
    using assms(4) by (simp add: s digestsMatch_def digestUnder_def not_legacy_stamp contentDigest_def canonicalText_def)
qed

lemma stamp_binds_document_witness:
  "digestsMatch (\<lambda>t. t) (SHA256_PREFIX @ canonicalize (JObj [(''b'', JNum ''1''), (''a'', JNull)]))
     (JObj [(''a'', JNull), (''c'', JUndefined), (''b'', JNum ''1'')]) = Inr True"
proof -
  let ?v = "JObj [(''b'', JNum ''1''), (''a'', JNull)]"
  let ?w = "JObj [(''a'', JNull), (''c'', JUndefined), (''b'', JNum ''1'')]"
  have ok: "json_ok ?v" "json_ok ?w" "?v \<noteq> JUndefined" "?w \<noteq> JUndefined" by (simp_all add: number_text_def)
  have "contentDigest (\<lambda>t. t) ?v = Inr (SHA256_PREFIX @ canonicalize ?v)"
    by (simp add: contentDigest_def canonicalText_def)
  from stamp_binds_document [OF ok _ this]
  have "digestsMatch (\<lambda>t. t) (SHA256_PREFIX @ canonicalize ?v) ?w = Inr (normal_form ?w = normal_form ?v)" by blast
  moreover have "normal_form ?w = normal_form ?v" by code_simp
  ultimately show ?thesis by simp
qed

text \<open>Key order never matters: two objects with the same members in any order have the same canonical
  text, hence the same digests, and are the same spec.\<close>

theorem key_order_free:
  assumes "mset kvs = mset kvs'" "distinct (map fst kvs)"
  shows "canonicalize (JObj kvs) = canonicalize (JObj kvs') \<and> specsEqual (JObj kvs) (JObj kvs')
    \<and> contentDigest sha256 (JObj kvs) = contentDigest sha256 (JObj kvs')
    \<and> legacyFnvDigest (JObj kvs) = legacyFnvDigest (JObj kvs')"
proof -
  have "mset (filter defined_entry kvs) = mset (filter defined_entry kvs')" using assms(1) by simp
  moreover have "distinct (map fst (filter defined_entry kvs))" using assms(2) by (simp add: distinct_map_filter)
  ultimately have "sort_by key_cmp (filter defined_entry kvs) = sort_by key_cmp (filter defined_entry kvs')"
    by (rule sort_by_key_perm)
  then have "canonicalize (JObj kvs) = canonicalize (JObj kvs')" by simp
  then show ?thesis
    by (simp add: specsEqual_def sort_by_key_perm [OF assms] contentDigest_def legacyFnvDigest_def canonicalText_def)
qed

lemma key_order_free_witness:
  "specsEqual (JObj [(''b'', JNum ''1''), (''a'', JNull)]) (JObj [(''a'', JNull), (''b'', JNum ''1'')])"
  using key_order_free [of "[(''b'', JNum ''1''), (''a'', JNull)]" "[(''a'', JNull), (''b'', JNum ''1'')]" id]
  by simp

end
