(* ===== verification/Registry.thy ===== *)
theory Registry
  imports Digest "HOL-Library.AList"
begin

text \<open>
  Versioned registries: the version algebra of packages/domain/src/registry/version-algebra.ts and the
  in-memory \<open>VersionedStore\<close> of packages/registry/src/versioned-store.ts.

  A \<open>Map\<close> the store iterates over is an association list in insertion order: \<open>AList.update\<close> replaces the
  value of a key in place and appends a new key, as \<open>Map.set\<close> does. The registered item carries its id,
  its version and its whole document. Origins are opaque handles; instants are arguments.
\<close>

subsection \<open>Versions\<close>

definition LATEST :: string where "LATEST = ''latest''"

definition SHARED_TENANT :: string where "SHARED_TENANT = ''_shared''"

definition is_digit :: "char \<Rightarrow> bool" where
  "is_digit c \<longleftrightarrow> (let n = of_char c :: nat in 48 \<le> n \<and> n \<le> 57)"

definition digits_value :: "string \<Rightarrow> nat" where
  "digits_value ds = foldl (\<lambda>n c. 10 * n + (of_char c - 48)) 0 ds"

text \<open>One \<open>(\d+)\<close> at the front, and what follows it.\<close>

definition take_number :: "string \<Rightarrow> (nat \<times> string) option" where
  "take_number s =
     (let ds = takeWhile is_digit s in if ds = [] then None else Some (digits_value ds, dropWhile is_digit s))"

definition take_dot :: "string \<Rightarrow> string option" where
  "take_dot s = (case s of [] \<Rightarrow> None | c # r \<Rightarrow> if c = CHR ''.'' then Some r else None)"

definition parseSemver :: "string \<Rightarrow> (nat \<times> nat \<times> nat) option" where
  "parseSemver v =
     (case take_number v of None \<Rightarrow> None | Some (a, r) \<Rightarrow>
       (case take_dot r of None \<Rightarrow> None | Some r1 \<Rightarrow>
         (case take_number r1 of None \<Rightarrow> None | Some (b, r2) \<Rightarrow>
           (case take_dot r2 of None \<Rightarrow> None | Some r3 \<Rightarrow>
             (case take_number r3 of None \<Rightarrow> None | Some (c, _) \<Rightarrow> Some (a, b, c))))))"

definition compareVersions :: "string compare" where
  "compareVersions a b =
     (case (parseSemver a, parseSemver b) of
        (Some (a1, a2, a3), Some (b1, b2, b3)) \<Rightarrow>
          (if int a1 - int b1 \<noteq> 0 then int a1 - int b1
           else if int a2 - int b2 \<noteq> 0 then int a2 - int b2
           else if int a3 - int b3 \<noteq> 0 then int a3 - int b3
           else 0)
      | _ \<Rightarrow> 0)"

definition sortVersions :: "string list \<Rightarrow> string list" where
  "sortVersions vs = sort_by compareVersions vs"

definition versionsBeyondKeep :: "string list \<Rightarrow> int \<Rightarrow> string list" where
  "versionsBeyondKeep vs keep =
     (if keep < 1 then []
      else let ordered = sortVersions vs in take (nat (max 0 (int (length ordered) - keep))) ordered)"

datatype version_bump = Major | Minor | Patch

definition bumpVersion :: "string \<Rightarrow> version_bump \<Rightarrow> string" where
  "bumpVersion base bump =
     (case parseSemver base of
        None \<Rightarrow> ''1.0.0''
      | Some (major, minor, patch) \<Rightarrow>
          (case bump of
             Major \<Rightarrow> decimal (major + 1) @ ''.0.0''
           | Minor \<Rightarrow> decimal major @ ''.'' @ decimal (minor + 1) @ ''.0''
           | Patch \<Rightarrow> decimal major @ ''.'' @ decimal minor @ ''.'' @ decimal (patch + 1)))"

definition resolveRef :: "string \<Rightarrow> string \<Rightarrow> string list \<Rightarrow> string res" where
  "resolveRef i ref sorted_versions =
     (if sorted_versions = [] then Inl (NotFound ''NOT_FOUND'' (''Harness not found: '' @ i))
      else if ref = LATEST then Inr (last sorted_versions)
      else if ref \<notin> set sorted_versions then Inl (NotFound ''NOT_FOUND'' (''Harness version not found: '' @ i @ ''@'' @ ref))
      else Inr ref)"

subsection \<open>The store\<close>

record item =
  it_id :: string
  it_version :: string
  it_doc :: json

record stored =
  s_item :: item
  s_seq :: int
  s_createdAt :: string
  s_createdBy :: "string option"
  s_deletedAt :: "int option"
  s_tags :: "string list option"
  s_origin :: "nat option"

type_synonym 'v smap = "(string \<times> 'v) list"

record vstore =
  byOwner :: "stored smap smap smap"
  next_seq_no :: int

definition new_vstore :: vstore where
  "new_vstore = \<lparr>byOwner = [], next_seq_no = 0\<rparr>"

definition submap :: "'v smap smap \<Rightarrow> string \<Rightarrow> 'v smap" where
  "submap m k = (case map_of m k of None \<Rightarrow> [] | Some x \<Rightarrow> x)"

definition entries_of :: "vstore \<Rightarrow> string \<Rightarrow> string \<Rightarrow> stored smap" where
  "entries_of s owner i = submap (submap (byOwner s) owner) i"

definition entry_of :: "vstore \<Rightarrow> string \<Rightarrow> string \<Rightarrow> string \<Rightarrow> stored option" where
  "entry_of s owner i version = map_of (entries_of s owner i) version"

definition put_entry :: "string \<Rightarrow> string \<Rightarrow> string \<Rightarrow> stored \<Rightarrow> vstore \<Rightarrow> vstore" where
  "put_entry owner i version e s =
     s\<lparr>byOwner := AList.update owner
         (AList.update i (AList.update version e (entries_of s owner i)) (submap (byOwner s) owner)) (byOwner s)\<rparr>"

definition entry_cmp :: "stored compare" where
  "entry_cmp a b =
     (let c = compareVersions (it_version (s_item a)) (it_version (s_item b))
      in if c \<noteq> 0 then c else s_seq a - s_seq b)"

definition live :: "stored \<Rightarrow> bool" where
  "live e \<longleftrightarrow> s_deletedAt e = None"

definition ownerVersions :: "vstore \<Rightarrow> string \<Rightarrow> string \<Rightarrow> string list" where
  "ownerVersions s owner i =
     map (\<lambda>e. it_version (s_item e)) (sort_by entry_cmp (filter live (map snd (entries_of s owner i))))"

definition ownerOf :: "vstore \<Rightarrow> string \<Rightarrow> string \<Rightarrow> string option" where
  "ownerOf s t i =
     (if ownerVersions s t i \<noteq> [] then Some t
      else if ownerVersions s SHARED_TENANT i \<noteq> [] then Some SHARED_TENANT
      else None)"

text \<open>\<open>version.trim().length === 0\<close>: nothing but white space and line ends.\<close>

definition js_blank :: "string \<Rightarrow> bool" where
  "js_blank s \<longleftrightarrow> list_all (\<lambda>c. let n = of_char c :: nat in 9 \<le> n \<and> n \<le> 13 \<or> n = 32 \<or> n = 160) s"

definition register ::
  "string \<Rightarrow> item \<Rightarrow> string option \<Rightarrow> nat option \<Rightarrow> string \<Rightarrow> vstore \<Rightarrow> unit res \<times> vstore" where
  "register t it createdBy origin now s =
     (if js_blank (it_version it)
      then (Inl (BadRequest ''BAD_REQUEST'' ''version must be a non-empty string.''), s)
      else
        (case entry_of s t (it_id it) (it_version it) of
           Some existing \<Rightarrow>
             if \<not> specsEqual (it_doc (s_item existing)) (it_doc it)
             then (Inl (Conflict ''CONFLICT'' ''already registered with a different spec (versions are immutable).''), s)
             else
               (Inr (), put_entry t (it_id it) (it_version it)
                  (existing\<lparr>s_deletedAt := None,
                            s_origin := (if s_origin existing = None \<and> origin \<noteq> None then origin
                                         else s_origin existing)\<rparr>) s)
         | None \<Rightarrow>
             (Inr (), (put_entry t (it_id it) (it_version it)
                \<lparr>s_item = it, s_seq = next_seq_no s, s_createdAt = now, s_createdBy = createdBy,
                 s_deletedAt = None, s_tags = None, s_origin = origin\<rparr> s)
                \<lparr>next_seq_no := next_seq_no s + 1\<rparr>)))"

definition has :: "vstore \<Rightarrow> string \<Rightarrow> string \<Rightarrow> string \<Rightarrow> bool" where
  "has s t i version =
     (case ownerOf s t i of None \<Rightarrow> False | Some owner \<Rightarrow> version \<in> set (ownerVersions s owner i))"

definition ownLiveEntry :: "vstore \<Rightarrow> string \<Rightarrow> string \<Rightarrow> string \<Rightarrow> stored res" where
  "ownLiveEntry s t i version =
     (case entry_of s t i version of
        None \<Rightarrow> Inl (NotFound ''NOT_FOUND'' (i @ ''@'' @ version @ '' not found.''))
      | Some e \<Rightarrow> if s_deletedAt e \<noteq> None then Inl (NotFound ''NOT_FOUND'' (i @ ''@'' @ version @ '' not found.''))
                  else Inr e)"

definition creatorOfVersion :: "vstore \<Rightarrow> string \<Rightarrow> string \<Rightarrow> string \<Rightarrow> string option res" where
  "creatorOfVersion s t i version = map_sum (\<lambda>e. e) s_createdBy (ownLiveEntry s t i version)"

definition setVersionTags :: "string \<Rightarrow> string \<Rightarrow> string \<Rightarrow> string list \<Rightarrow> vstore \<Rightarrow> unit res \<times> vstore" where
  "setVersionTags t i version tags s =
     (case ownLiveEntry s t i version of
        Inl e \<Rightarrow> (Inl e, s)
      | Inr e \<Rightarrow> (Inr (), put_entry t i version (e\<lparr>s_tags := (if tags \<noteq> [] then Some tags else None)\<rparr>) s))"

definition softDelete :: "string \<Rightarrow> string \<Rightarrow> string \<Rightarrow> int \<Rightarrow> vstore \<Rightarrow> unit res \<times> vstore" where
  "softDelete t i version now s =
     (case ownLiveEntry s t i version of
        Inl e \<Rightarrow> (Inl e, s)
      | Inr e \<Rightarrow> (Inr (), put_entry t i version (e\<lparr>s_deletedAt := Some now\<rparr>) s))"

text \<open>The three listings fold the live entries of the owner into an object keyed by version.\<close>

definition live_fields :: "(stored \<Rightarrow> 'a option) \<Rightarrow> vstore \<Rightarrow> string \<Rightarrow> string \<Rightarrow> (string \<rightharpoonup> 'a)" where
  "live_fields f s t i =
     (case ownerOf s t i of
        None \<Rightarrow> Map.empty
      | Some owner \<Rightarrow>
          fold (\<lambda>e out. case f e of
                          Some x \<Rightarrow> if live e then out(it_version (s_item e) \<mapsto> x) else out
                        | None \<Rightarrow> out)
            (map snd (entries_of s owner i)) Map.empty)"

definition versionTags :: "vstore \<Rightarrow> string \<Rightarrow> string \<Rightarrow> (string \<rightharpoonup> string list)" where
  "versionTags = live_fields (\<lambda>e. case s_tags e of Some (x # xs) \<Rightarrow> Some (x # xs) | _ \<Rightarrow> None)"

definition versionDates :: "vstore \<Rightarrow> string \<Rightarrow> string \<Rightarrow> (string \<rightharpoonup> string)" where
  "versionDates = live_fields (\<lambda>e. Some (s_createdAt e))"

definition versionOrigins :: "vstore \<Rightarrow> string \<Rightarrow> string \<Rightarrow> (string \<rightharpoonup> nat)" where
  "versionOrigins = live_fields s_origin"

definition versions_of :: "vstore \<Rightarrow> string \<Rightarrow> string \<Rightarrow> string list" where
  "versions_of s t i = (case ownerOf s t i of None \<Rightarrow> [] | Some owner \<Rightarrow> ownerVersions s owner i)"

definition ownVersions :: "vstore \<Rightarrow> string \<Rightarrow> string \<Rightarrow> string list" where
  "ownVersions s t i = ownerVersions s t i"

definition get_item :: "vstore \<Rightarrow> string \<Rightarrow> string \<Rightarrow> string \<Rightarrow> item res" where
  "get_item s t i ref =
     (case ownerOf s t i of
        None \<Rightarrow> Inl (NotFound ''NOT_FOUND'' (i @ '' not found.''))
      | Some owner \<Rightarrow>
          (case resolveRef i ref (ownerVersions s owner i) of
             Inl e \<Rightarrow> Inl e
           | Inr version \<Rightarrow> Inr (s_item (the (entry_of s owner i version)))))"

definition listIds :: "string compare \<Rightarrow> vstore \<Rightarrow> string \<Rightarrow> (string \<times> string \<times> string list) list" where
  "listIds name_cmp s t =
     (let shared = fold (\<lambda>(i, _). AList.update i SHARED_TENANT) (submap (byOwner s) SHARED_TENANT) [];
          ids = fold (\<lambda>(i, _). AList.update i t) (submap (byOwner s) t) shared
      in map (\<lambda>(i, owner). (i, owner, ownerVersions s owner i)) (sort_by (\<lambda>a b. name_cmp (fst a) (fst b)) ids))"

record version_meta =
  vm_id :: string
  vm_owner :: string
  vm_versions :: "string list"
  vm_latest :: string
  vm_count :: nat
  vm_createdBy :: "string option"
  vm_latestCreatedBy :: "string option"
  vm_createdAt :: "string option"
  vm_updatedAt :: "string option"
  vm_tags :: "(string \<rightharpoonup> string list) option"
  vm_origins :: "(string \<rightharpoonup> nat) option"

definition meta_of :: "vstore \<Rightarrow> string \<times> string \<times> string list \<Rightarrow> version_meta option" where
  "meta_of s row =
     (let (i, owner, _) = row; versions = ownerVersions s owner i in
      if versions = [] then None
      else
        let latestVersion = last versions;
            entries = sort_by (\<lambda>a b. s_seq a - s_seq b) (map snd (entries_of s owner i));
            earliest = (case entries of [] \<Rightarrow> None | e # _ \<Rightarrow> Some e);
            latest = (case entries of [] \<Rightarrow> None | _ \<Rightarrow> Some (last entries));
            latestEntry = entry_of s owner i latestVersion;
            tags = versionTags s owner i; origins = versionOrigins s owner i
        in Some \<lparr>vm_id = i, vm_owner = owner, vm_versions = versions, vm_latest = latestVersion,
                 vm_count = length versions,
                 vm_createdBy = Option.bind earliest s_createdBy,
                 vm_latestCreatedBy = Option.bind latestEntry s_createdBy,
                 vm_createdAt = map_option s_createdAt earliest,
                 vm_updatedAt = map_option s_createdAt latest,
                 vm_tags = (if list_ex (\<lambda>v. tags v \<noteq> None) versions then Some tags else None),
                 vm_origins = (if list_ex (\<lambda>v. origins v \<noteq> None) versions then Some origins else None)\<rparr>)"

definition listMeta :: "string compare \<Rightarrow> vstore \<Rightarrow> string \<Rightarrow> version_meta list" where
  "listMeta name_cmp s t = List.map_filter (meta_of s) (listIds name_cmp s t)"

end
