(* ===== verification/RegistryLaws.thy ===== *)
theory RegistryLaws
  imports Registry
begin

text \<open>
  What the registry guarantees: versions are immutable, resolution falls back to the shared tenant only, the
  latest version is the greatest one as long as every version is a semantic version, a bump moves forward,
  and retention drops the oldest.
\<close>

subsection \<open>Entries under updates\<close>

lemma submap_update [simp]:
  "submap (AList.update k v m) k' = (if k' = k then v else submap m k')"
  by (simp add: submap_def update_conv')

lemma entries_of_put:
  "entries_of (put_entry t i v e s) t' i' =
     (if t' = t \<and> i' = i then AList.update v e (entries_of s t i) else entries_of s t' i')"
  by (simp add: entries_of_def put_entry_def)

lemma entry_of_put:
  "entry_of (put_entry t i v e s) t' i' v' = (if (t', i', v') = (t, i, v) then Some e else entry_of s t' i' v')"
  by (auto simp: entry_of_def entries_of_put update_conv')

lemma entries_of_seq [simp]: "entries_of (s\<lparr>next_seq_no := n\<rparr>) t i = entries_of s t i"
  by (simp add: entries_of_def)

lemma entry_of_seq [simp]: "entry_of (s\<lparr>next_seq_no := n\<rparr>) t i v = entry_of s t i v"
  by (simp add: entry_of_def)

lemma put_entry_seq [simp]: "next_seq_no (put_entry t i v e s) = next_seq_no s"
  by (simp add: put_entry_def)

subsection \<open>Histories\<close>

datatype store_op =
    Register string item "string option" "nat option" string
  | SetTags string string string "string list"
  | SoftDelete string string string int

fun store_exec :: "store_op \<Rightarrow> vstore \<Rightarrow> vstore" where
  "store_exec (Register t it au orig now) s = snd (register t it au orig now s)"
| "store_exec (SetTags t i v tags) s = snd (setVersionTags t i v tags s)"
| "store_exec (SoftDelete t i v now) s = snd (softDelete t i v now s)"

definition store_run :: "store_op list \<Rightarrow> vstore \<Rightarrow> vstore" where
  "store_run ops s = fold store_exec ops s"

text \<open>A store in which what is written under a key only changes upwards in an order on values.\<close>

locale growing_store =
  fixes look :: "'s \<Rightarrow> 'k \<Rightarrow> 'v option" and exec :: "'op \<Rightarrow> 's \<Rightarrow> 's" and le :: "'v \<Rightarrow> 'v \<Rightarrow> bool"
  assumes le_refl: "le v v"
    and le_trans: "le u v \<Longrightarrow> le v w \<Longrightarrow> le u w"
    and exec_grows: "look s k = Some v \<Longrightarrow> \<exists>v'. look (exec op s) k = Some v' \<and> le v v'"
begin

lemma run_grows: "look s k = Some v \<Longrightarrow> \<exists>v'. look (fold exec ops s) k = Some v' \<and> le v v'"
proof (induction ops arbitrary: s v)
  case Nil
  then show ?case by (simp add: le_refl)
next
  case (Cons op ops)
  from exec_grows [OF Cons.prems] obtain u where "look (exec op s) k = Some u" "le v u" by blast
  with Cons.IH [of "exec op s" u] show ?case by (auto intro: le_trans)
qed

end

definition same_birth :: "stored \<Rightarrow> stored \<Rightarrow> bool" where
  "same_birth e e' \<longleftrightarrow> s_item e' = s_item e \<and> s_seq e' = s_seq e \<and> s_createdAt e' = s_createdAt e
     \<and> s_createdBy e' = s_createdBy e \<and> (s_origin e = None \<or> s_origin e' = s_origin e)"

lemma exec_same_birth:
  assumes "entry_of s t i v = Some e"
  shows "\<exists>e'. entry_of (store_exec op s) t i v = Some e' \<and> same_birth e e'"
proof (cases op)
  case (Register t' it au orig now)
  show ?thesis
    using assms unfolding Register
    by (cases "entry_of s t' (it_id it) (it_version it)")
      (auto simp: register_def entry_of_put same_birth_def)
next
  case (SetTags t' i' v' tags)
  show ?thesis using assms unfolding SetTags
    by (auto simp: setVersionTags_def ownLiveEntry_def entry_of_put same_birth_def split: option.split)
next
  case (SoftDelete t' i' v' now)
  show ?thesis using assms unfolding SoftDelete
    by (auto simp: softDelete_def ownLiveEntry_def entry_of_put same_birth_def split: option.split)
qed

interpretation registry_entries: growing_store "\<lambda>s (t, i, v). entry_of s t i v" store_exec same_birth
proof unfold_locales
  fix s :: vstore and k and e and op
  assume "(case k of (t, i, v) \<Rightarrow> entry_of s t i v) = Some e"
  then show "\<exists>e'. (case k of (t, i, v) \<Rightarrow> entry_of (store_exec op s) t i v) = Some e' \<and> same_birth e e'"
    using exec_same_birth by (cases k) auto
qed (auto simp: same_birth_def)

subsection \<open>Well-formed stores\<close>

definition store_inv :: "vstore \<Rightarrow> bool" where
  "store_inv s \<longleftrightarrow>
     (\<forall>t i. distinct (map fst (entries_of s t i)))
     \<and> (\<forall>t i v e. entry_of s t i v = Some e \<longrightarrow>
          it_version (s_item e) = v \<and> it_id (s_item e) = i \<and> s_seq e < next_seq_no s)
     \<and> (\<forall>t i v e v' e'. entry_of s t i v = Some e \<longrightarrow> entry_of s t i v' = Some e' \<longrightarrow> s_seq e = s_seq e' \<longrightarrow> v = v')"

lemma store_inv_new: "store_inv new_vstore"
  by (simp add: store_inv_def new_vstore_def entries_of_def entry_of_def submap_def)

lemma store_inv_replace:
  assumes inv: "store_inv s" and e: "entry_of s t i v = Some e"
    and e': "s_item e' = s_item e" "s_seq e' = s_seq e"
  shows "store_inv (put_entry t i v e' s)"
  unfolding store_inv_def
proof (intro conjI allI impI)
  fix t' i'
  show "distinct (map fst (entries_of (put_entry t i v e' s) t' i'))"
    using inv by (simp add: entries_of_put store_inv_def distinct_update)
next
  fix t' i' v' d
  assume "entry_of (put_entry t i v e' s) t' i' v' = Some d"
  then show "it_version (s_item d) = v'" "it_id (s_item d) = i'" "s_seq d < next_seq_no (put_entry t i v e' s)"
    using inv e e' unfolding store_inv_def entry_of_put by (auto split: if_splits)
next
  fix t' i' v' d v'' d'
  assume a: "entry_of (put_entry t i v e' s) t' i' v' = Some d" "entry_of (put_entry t i v e' s) t' i' v'' = Some d'"
    "s_seq d = s_seq d'"
  have earlier: "\<exists>c. entry_of s t' i' w = Some c \<and> s_seq c = s_seq b" if "entry_of (put_entry t i v e' s) t' i' w = Some b" for w b
    using that e e' by (auto simp: entry_of_put split: if_splits)
  from earlier [OF a(1)] earlier [OF a(2)] a(3) inv show "v' = v''" unfolding store_inv_def by metis
qed

lemma store_inv_append:
  assumes inv: "store_inv s" and "s_seq e = next_seq_no s" "it_version (s_item e) = v" "it_id (s_item e) = i"
    and fresh: "entry_of s t i v = None"
  shows "store_inv ((put_entry t i v e s)\<lparr>next_seq_no := next_seq_no s + 1\<rparr>)"
  unfolding store_inv_def
proof (intro conjI allI impI)
  fix t' i'
  show "distinct (map fst (entries_of ((put_entry t i v e s)\<lparr>next_seq_no := next_seq_no s + 1\<rparr>) t' i'))"
    using inv by (simp add: entries_of_put store_inv_def distinct_update)
next
  fix t' i' v' d
  assume "entry_of ((put_entry t i v e s)\<lparr>next_seq_no := next_seq_no s + 1\<rparr>) t' i' v' = Some d"
  then have d: "(t', i', v') = (t, i, v) \<and> d = e \<or> entry_of s t' i' v' = Some d"
    by (simp add: entry_of_put split: if_splits)
  then show "it_version (s_item d) = v'" "it_id (s_item d) = i'"
    using inv assms(2-4) unfolding store_inv_def by auto
  show "s_seq d < next_seq_no ((put_entry t i v e s)\<lparr>next_seq_no := next_seq_no s + 1\<rparr>)"
    using d inv assms(2) unfolding store_inv_def by fastforce
next
  fix t' i' v' d v'' d'
  assume a: "entry_of ((put_entry t i v e s)\<lparr>next_seq_no := next_seq_no s + 1\<rparr>) t' i' v' = Some d"
    "entry_of ((put_entry t i v e s)\<lparr>next_seq_no := next_seq_no s + 1\<rparr>) t' i' v'' = Some d'"
    "s_seq d = s_seq d'"
  have lt: "s_seq b < next_seq_no s" if "entry_of s t' i' w = Some b" for w b
    using inv that unfolding store_inv_def by blast
  have old: "(t', i', w) = (t, i, v) \<and> b = e \<or> entry_of s t' i' w = Some b"
    if "entry_of ((put_entry t i v e s)\<lparr>next_seq_no := next_seq_no s + 1\<rparr>) t' i' w = Some b" for w b
    using that by (simp add: entry_of_put split: if_splits)
  have unique: "entry_of s t' i' v' = Some d \<Longrightarrow> entry_of s t' i' v'' = Some d' \<Longrightarrow> v' = v''"
    using inv a(3) unfolding store_inv_def by blast
  from old [OF a(1)] show "v' = v''"
  proof
    assume "(t', i', v') = (t, i, v) \<and> d = e"
    then show ?thesis using old [OF a(2)] lt [of v'' d'] a(3) assms(2) by auto
  next
    assume o: "entry_of s t' i' v' = Some d"
    from old [OF a(2)] show ?thesis
    proof
      assume "(t', i', v'') = (t, i, v) \<and> d' = e"
      then show ?thesis using lt [OF o] a(3) assms(2) by simp
    qed (rule unique [OF o])
  qed
qed

lemma store_inv_exec [invariants]:
  assumes "store_inv s"
  shows "store_inv (store_exec op s)"
proof (cases op)
  case (Register t it au orig now)
  show ?thesis
  proof (cases "entry_of s t (it_id it) (it_version it)")
    case None
    then show ?thesis using assms unfolding Register
      by (auto simp: register_def intro!: store_inv_append)
  next
    case (Some e)
    then show ?thesis using assms unfolding Register
      by (auto simp: register_def intro!: store_inv_replace)
  qed
next
  case (SetTags t i v tags)
  then show ?thesis using assms
    by (auto simp: setVersionTags_def ownLiveEntry_def split: option.split intro!: store_inv_replace)
next
  case (SoftDelete t i v now)
  then show ?thesis using assms
    by (auto simp: softDelete_def ownLiveEntry_def split: option.split intro!: store_inv_replace)
qed

lemma store_inv_run [invariants]: "store_inv s \<Longrightarrow> store_inv (store_run ops s)"
  unfolding store_run_def by (induction ops arbitrary: s) (simp_all add: invariants)

subsection \<open>The order of versions\<close>

definition is_semver :: "string \<Rightarrow> bool" where
  "is_semver v \<longleftrightarrow> parseSemver v \<noteq> None"

definition semver_le :: "nat \<times> nat \<times> nat \<Rightarrow> nat \<times> nat \<times> nat \<Rightarrow> bool" where
  "semver_le a b \<longleftrightarrow> (case (a, b) of ((a1, a2, a3), (b1, b2, b3)) \<Rightarrow>
     a1 < b1 \<or> a1 = b1 \<and> (a2 < b2 \<or> a2 = b2 \<and> a3 \<le> b3))"

lemma compareVersions_le:
  "parseSemver a = Some x \<Longrightarrow> parseSemver b = Some y \<Longrightarrow> compareVersions a b \<le> 0 \<longleftrightarrow> semver_le x y"
  "parseSemver a = Some x \<Longrightarrow> parseSemver b = Some y \<Longrightarrow> 0 \<le> compareVersions a b \<longleftrightarrow> semver_le y x"
  by (cases x; cases y; force simp: compareVersions_def semver_le_def)+

lemma compareVersions_eq:
  "parseSemver a = Some x \<Longrightarrow> parseSemver b = Some y \<Longrightarrow> compareVersions a b = 0 \<longleftrightarrow> x = y"
  by (cases x; cases y; force simp: compareVersions_def)

lemma semver_le_trans: "semver_le a b \<Longrightarrow> semver_le b c \<Longrightarrow> semver_le a c"
  by (cases a; cases b; cases c) (auto simp: semver_le_def)

lemma semver_le_refl: "semver_le a a"
  by (cases a) (simp add: semver_le_def)

lemma semver_le_antisym: "semver_le a b \<Longrightarrow> semver_le b a \<Longrightarrow> a = b"
  by (cases a; cases b) (auto simp: semver_le_def)

lemma semver_le_total: "semver_le a b \<or> semver_le b a"
  by (cases a; cases b) (auto simp: semver_le_def)

interpretation semvers: comparison compareVersions is_semver
proof unfold_locales
  fix x y z
  assume "is_semver x"
  then obtain a where a: "parseSemver x = Some a" by (auto simp: is_semver_def)
  show "compareVersions x x = 0" using compareVersions_eq [OF a a] by simp
  assume "is_semver y"
  then obtain b where b: "parseSemver y = Some b" by (auto simp: is_semver_def)
  show "compareVersions x y \<le> 0 \<longleftrightarrow> 0 \<le> compareVersions y x"
    by (simp add: compareVersions_le [OF a b] compareVersions_le [OF b a])
  assume "is_semver z"
  then obtain c where c: "parseSemver z = Some c" by (auto simp: is_semver_def)
  show "compareVersions x y \<le> 0 \<Longrightarrow> compareVersions y z \<le> 0 \<Longrightarrow> compareVersions x z \<le> 0"
    using semver_le_trans by (simp add: compareVersions_le [OF a b] compareVersions_le [OF b c] compareVersions_le [OF a c])
qed

definition semver_entry :: "stored \<Rightarrow> bool" where
  "semver_entry e \<longleftrightarrow> is_semver (it_version (s_item e))"

lemma entry_cmp_le:
  assumes "parseSemver (it_version (s_item a)) = Some x" "parseSemver (it_version (s_item b)) = Some y"
  shows "entry_cmp a b \<le> 0 \<longleftrightarrow> semver_le x y \<and> (x = y \<longrightarrow> s_seq a \<le> s_seq b)"
    and "0 \<le> entry_cmp a b \<longleftrightarrow> semver_le y x \<and> (x = y \<longrightarrow> s_seq b \<le> s_seq a)"
  using compareVersions_le [OF assms] compareVersions_eq [OF assms] semver_le_refl
  by (auto simp: entry_cmp_def Let_def)

interpretation entries: comparison entry_cmp semver_entry
proof unfold_locales
  fix x y z
  assume "semver_entry x"
  then obtain a where a: "parseSemver (it_version (s_item x)) = Some a" by (auto simp: semver_entry_def is_semver_def)
  show "entry_cmp x x = 0" using compareVersions_eq [OF a a] by (simp add: entry_cmp_def)
  assume "semver_entry y"
  then obtain b where b: "parseSemver (it_version (s_item y)) = Some b" by (auto simp: semver_entry_def is_semver_def)
  show "entry_cmp x y \<le> 0 \<longleftrightarrow> 0 \<le> entry_cmp y x"
    by (auto simp: entry_cmp_le [OF a b] entry_cmp_le [OF b a])
  assume "semver_entry z"
  then obtain c where c: "parseSemver (it_version (s_item z)) = Some c" by (auto simp: semver_entry_def is_semver_def)
  show "entry_cmp x y \<le> 0 \<Longrightarrow> entry_cmp y z \<le> 0 \<Longrightarrow> entry_cmp x z \<le> 0"
    using semver_le_trans [of a b c] semver_le_antisym [of b c] semver_le_antisym [of a b]
    by (auto simp: entry_cmp_le [OF a b] entry_cmp_le [OF b c] entry_cmp_le [OF a c])
qed

subsection \<open>Resolution\<close>

definition live_entries :: "vstore \<Rightarrow> string \<Rightarrow> string \<Rightarrow> stored list" where
  "live_entries s t i = filter live (map snd (entries_of s t i))"

definition owner_for :: "vstore \<Rightarrow> string \<Rightarrow> string \<Rightarrow> string" where
  "owner_for s t i = (if live_entries s t i = [] then SHARED_TENANT else t)"

lemma live_entries_iff:
  assumes "store_inv s"
  shows "e \<in> set (live_entries s t i) \<longleftrightarrow> live e \<and> entry_of s t i (it_version (s_item e)) = Some e"
proof
  assume "e \<in> set (live_entries s t i)"
  then obtain v where "(v, e) \<in> set (entries_of s t i)" and l: "live e" by (auto simp: live_entries_def)
  then have "entry_of s t i v = Some e" using assms by (simp add: entry_of_def store_inv_def)
  moreover from this have "it_version (s_item e) = v" using assms unfolding store_inv_def by blast
  ultimately show "live e \<and> entry_of s t i (it_version (s_item e)) = Some e" using l by simp
next
  assume a: "live e \<and> entry_of s t i (it_version (s_item e)) = Some e"
  then have "(it_version (s_item e), e) \<in> set (entries_of s t i)" by (auto simp: entry_of_def dest: map_of_SomeD)
  then show "e \<in> set (live_entries s t i)" using a by (force simp: live_entries_def)
qed

lemma ownerVersions_map:
  "ownerVersions s t i = map (\<lambda>e. it_version (s_item e)) (sort_by entry_cmp (live_entries s t i))"
  by (simp add: ownerVersions_def live_entries_def)

lemma ownerVersions_Nil [simp]: "ownerVersions s t i = [] \<longleftrightarrow> live_entries s t i = []"
  by (simp add: ownerVersions_map)

lemma ownerVersions_set:
  assumes "store_inv s"
  shows "v \<in> set (ownerVersions s t i) \<longleftrightarrow> (\<exists>e. entry_of s t i v = Some e \<and> live e)"
proof -
  have "v \<in> set (ownerVersions s t i) \<longleftrightarrow> (\<exists>e. live e \<and> entry_of s t i (it_version (s_item e)) = Some e \<and> it_version (s_item e) = v)"
    using live_entries_iff [OF assms, of _ t i] by (auto simp: ownerVersions_map)
  then show ?thesis using assms unfolding store_inv_def by blast
qed

lemma get_item_owner:
  "get_item s t i ref = map_sum (\<lambda>e. e) (\<lambda>v. s_item (the (entry_of s (owner_for s t i) i v)))
     (if live_entries s (owner_for s t i) i = [] then Inl (NotFound ''NOT_FOUND'' (i @ '' not found.''))
      else resolveRef i ref (ownerVersions s (owner_for s t i) i))"
  by (auto simp: get_item_def ownerOf_def owner_for_def split: sum.split)

lemma registered_entry:
  assumes "fst (register t it au orig now s) = Inr ()"
  shows "\<exists>e. entry_of (snd (register t it au orig now s)) t (it_id it) (it_version it) = Some e
    \<and> live e \<and> specsEqual (it_doc (s_item e)) (it_doc it)"
proof (cases "entry_of s t (it_id it) (it_version it)")
  case None
  then show ?thesis using assms
    by (auto simp: register_def entry_of_put live_def specsEqual_def split: if_splits)
next
  case (Some e)
  then show ?thesis using assms
    by (auto simp: register_def entry_of_put live_def split: if_splits)
qed

lemma store_inv_register: "store_inv s \<Longrightarrow> store_inv (snd (register t it au orig now s))"
  using store_inv_exec [of s "Register t it au orig now"] by simp

subsection \<open>Decimal numbers\<close>

lemma is_digit_char: "d < 10 \<Longrightarrow> is_digit (char_of (48 + d :: nat))"
  by (simp add: is_digit_def Let_def)

lemma decimal_rev_digits: "list_all is_digit (decimal_rev n) \<and> decimal_rev n \<noteq> []"
proof (induction n rule: decimal_rev.induct)
  case (1 n)
  then show ?case by (simp add: decimal_rev.simps [of n] is_digit_char)
qed

lemma digits_value_snoc: "digits_value (ds @ [c]) = 10 * digits_value ds + (of_char c - 48)"
  by (simp add: digits_value_def)

lemma digits_value_decimal: "digits_value (decimal n) = n"
proof (induction n rule: decimal_rev.induct)
  case (1 n)
  have c: "of_char (char_of (48 + n mod 10) :: char) - 48 = n mod 10" by simp
  show ?case
  proof (cases "n < 10")
    case True
    then show ?thesis by (simp add: decimal_def decimal_rev.simps [of n] digits_value_def)
  next
    case False
    then have "decimal n = decimal (n div 10) @ [char_of (48 + n mod 10)]"
      by (simp add: decimal_def decimal_rev.simps [of n])
    moreover have "digits_value (decimal (n div 10)) = n div 10" using 1 False by simp
    ultimately have "digits_value (decimal n) = 10 * (n div 10) + n mod 10"
      by (simp only: digits_value_snoc c)
    then show ?thesis by simp
  qed
qed

lemma decimal_digits: "list_all is_digit (decimal n)" "decimal n \<noteq> []"
  using decimal_rev_digits [of n] by (simp_all add: decimal_def list_all_iff)

lemma take_number_decimal:
  assumes "r = [] \<or> \<not> is_digit (hd r)"
  shows "take_number (decimal n @ r) = Some (n, r)"
proof -
  have "takeWhile is_digit r = []" "dropWhile is_digit r = r" using assms by (cases r; simp)+
  then have "takeWhile is_digit (decimal n @ r) = decimal n" "dropWhile is_digit (decimal n @ r) = r"
    using decimal_digits(1) [of n] by (simp_all add: list_all_iff takeWhile_append2 dropWhile_append2)
  then show ?thesis using decimal_digits(2) by (simp add: take_number_def digits_value_decimal)
qed

lemma parse_decimals: "parseSemver (decimal a @ ''.'' @ decimal b @ ''.'' @ decimal c) = Some (a, b, c)"
proof -
  have dot: "\<not> is_digit CHR ''.''" by code_simp
  show ?thesis
    using take_number_decimal [of "''.'' @ decimal b @ ''.'' @ decimal c" a]
      take_number_decimal [of "''.'' @ decimal c" b] take_number_decimal [of "[]" c] dot
    by (simp add: parseSemver_def take_dot_def)
qed

lemma decimal_one [simp]: "decimal 0 = ''0''" "decimal 1 = ''1''" "decimal (Suc 0) = ''1''"
  by (simp_all add: decimal_def decimal_rev.simps) code_simp+

lemma parse_bump:
  "parseSemver (bumpVersion base bump) = Some (case parseSemver base of
     None \<Rightarrow> (1, 0, 0)
   | Some (a, b, c) \<Rightarrow> (case bump of Major \<Rightarrow> (a + 1, 0, 0) | Minor \<Rightarrow> (a, b + 1, 0) | Patch \<Rightarrow> (a, b, c + 1)))"
  using parse_decimals [of 1 0 0] parse_decimals [of _ 0 0] parse_decimals [of _ _ 0] parse_decimals
  by (auto simp: bumpVersion_def split: option.split version_bump.split)

subsection \<open>Cutting a sorted list\<close>

lemma sorted_wrt_cut: "sorted_wrt P xs \<Longrightarrow> x \<in> set (take n xs) \<Longrightarrow> y \<in> set (drop n xs) \<Longrightarrow> P x y"
  using sorted_wrt_append [of P "take n xs" "drop n xs"] by simp

lemma get_exact_version_raw:
  assumes "store_inv s" "ref \<noteq> LATEST"
  shows "get_item s t i ref = Inr it \<longleftrightarrow>
    (\<exists>e. entry_of s (owner_for s t i) i ref = Some e \<and> live e \<and> s_item e = it)"
proof -
  let ?o = "owner_for s t i"
  have "get_item s t i ref = Inr it \<longleftrightarrow>
      ref \<in> set (ownerVersions s ?o i) \<and> s_item (the (entry_of s ?o i ref)) = it"
    using assms(2) by (auto simp: get_item_owner resolveRef_def ownerVersions_map)
  also have "\<dots> \<longleftrightarrow> (\<exists>e. entry_of s ?o i ref = Some e \<and> live e \<and> s_item e = it)"
    using ownerVersions_set [OF assms(1)] by auto
  finally show ?thesis .
qed

subsection \<open>Properties\<close>

text \<open>C25. A registered version is immutable: whatever is registered, tagged, deleted or revived later, it
  keeps its item, its place in the registration order, its author and date, and its origin once it has one.\<close>

theorem versions_immutable:
  assumes "entry_of s t i v = Some e"
  shows "\<exists>e'. entry_of (store_run ops s) t i v = Some e' \<and> s_item e' = s_item e \<and> s_seq e' = s_seq e
    \<and> s_createdAt e' = s_createdAt e \<and> s_createdBy e' = s_createdBy e
    \<and> (s_origin e = None \<or> s_origin e' = s_origin e)"
  using registry_entries.run_grows [of s "(t, i, v)" e ops] assms by (simp add: store_run_def same_birth_def)

text \<open>Resolving an exact version: the tenant's own line answers as soon as it has one live version of the
  id, the shared tenant's line otherwise, and the answer is the item registered there, exactly when it is
  live.\<close>

theorem get_exact_version:
  assumes "store_inv s" "ref \<noteq> LATEST"
  shows "get_item s t i ref = Inr it \<longleftrightarrow>
    (\<exists>e. entry_of s (owner_for s t i) i ref = Some e \<and> live e \<and> s_item e = it)"
  by (rule get_exact_version_raw [OF assms])

text \<open>C36. As long as every live version of the line is a semantic version, \<open>latest\<close> is the greatest of them,
  the one registered last among equals.\<close>

theorem latest_is_greatest:
  assumes "store_inv s" "\<And>e. e \<in> set (live_entries s (owner_for s t i) i) \<Longrightarrow> semver_entry e"
    and "get_item s t i LATEST = Inr it"
  shows "\<exists>e. entry_of s (owner_for s t i) i (it_version it) = Some e \<and> live e \<and> s_item e = it
    \<and> list_all (\<lambda>d. entry_cmp d e \<le> 0) (live_entries s (owner_for s t i) i)"
proof -
  let ?o = "owner_for s t i"
  let ?L = "live_entries s ?o i"
  have ne: "?L \<noteq> []" using assms(3) by (auto simp: get_item_owner split: if_splits)
  let ?e = "last (sort_by entry_cmp ?L)"
  have mem: "?e \<in> set ?L" using ne by (metis last_in_set set_sort_by sort_by_eq_Nil)
  then have e: "live ?e" "entry_of s ?o i (it_version (s_item ?e)) = Some ?e"
    using live_entries_iff [OF assms(1)] by auto
  have "last (ownerVersions s ?o i) = it_version (s_item ?e)" using ne by (simp add: ownerVersions_map last_map)
  then have "it = s_item ?e" using assms(3) ne e(2) by (simp add: get_item_owner resolveRef_def)
  moreover have "list_all (\<lambda>d. entry_cmp d ?e \<le> 0) ?L"
    using entries.last_sort_by_greatest [of ?L] assms(2) by (simp add: list_all_iff)
  ultimately show ?thesis using e by blast
qed

text \<open>What is registered can be read back: after an accepted registration the tenant resolves the exact
  version to a live item with the document it submitted, whether the version is new, was already there or
  had been deleted.\<close>

theorem register_then_get:
  assumes "store_inv s" "it_version it \<noteq> LATEST" "fst (register t it au orig now s) = Inr ()"
  shows "\<exists>got. get_item (snd (register t it au orig now s)) t (it_id it) (it_version it) = Inr got
    \<and> specsEqual (it_doc got) (it_doc it)"
proof -
  let ?s = "snd (register t it au orig now s)"
  have inv: "store_inv ?s" using assms(1) by (rule store_inv_register)
  obtain e where e: "entry_of ?s t (it_id it) (it_version it) = Some e" "live e"
    "specsEqual (it_doc (s_item e)) (it_doc it)" using registered_entry [OF assms(3)] by blast
  have "it_version (s_item e) = it_version it" using inv e(1) unfolding store_inv_def by blast
  then have "e \<in> set (live_entries ?s t (it_id it))" using e live_entries_iff [OF inv] by simp
  then have "owner_for ?s t (it_id it) = t" by (auto simp: owner_for_def)
  then have "get_item ?s t (it_id it) (it_version it) = Inr (s_item e)"
    using e by (auto simp: get_exact_version_raw [OF inv assms(2)])
  with e(3) show ?thesis by blast
qed

text \<open>C35. Versions that are not semantic versions break the order. The comparison relates a version that does
  not parse to every other one, so the registration order decides against it, and here \<open>latest\<close> answers 1.0.0
  although 2.0.0 is registered, and keeping the newest one drops 2.0.0.\<close>

theorem latest_steps_back:
  "(case get_item (store_run
      (map (\<lambda>v. Register ''acme'' \<lparr>it_id = ''h'', it_version = v, it_doc = JNull\<rparr> None None ''t0'')
         [''2.0.0'', ''nightly'', ''1.0.0'']) new_vstore) ''acme'' ''h'' LATEST of
      Inl e \<Rightarrow> False | Inr it \<Rightarrow> it_version it = ''1.0.0'')
   \<and> versionsBeyondKeep [''2.0.0'', ''nightly'', ''1.0.0''] 1 = [''2.0.0'', ''nightly'']
   \<and> compareVersions ''1.0.0'' ''2.0.0'' < 0"
  by code_simp

text \<open>A bump always produces a semantic version, and one strictly above the version it bumps when that is
  a semantic version.\<close>

theorem bump_moves_forward:
  "is_semver (bumpVersion base bump)
   \<and> (if is_semver base then compareVersions base (bumpVersion base bump) < 0
      else bumpVersion base bump = ''1.0.0'')"
proof (cases "parseSemver base")
  case None
  moreover have "is_semver ''1.0.0''" by code_simp
  ultimately show ?thesis by (simp add: is_semver_def bumpVersion_def)
next
  case (Some x)
  obtain a b c where x: "x = (a, b, c)" by (cases x) auto
  let ?y = "case bump of Major \<Rightarrow> (a + 1, 0, 0) | Minor \<Rightarrow> (a, b + 1, 0) | Patch \<Rightarrow> (a, b, c + 1)"
  have y: "parseSemver (bumpVersion base bump) = Some ?y" using Some x by (simp add: parse_bump)
  have "\<not> semver_le ?y (a, b, c)" by (cases bump) (simp_all add: semver_le_def)
  then have "compareVersions base (bumpVersion base bump) < 0"
    using compareVersions_le(2) [OF Some y] x by simp
  then show ?thesis using Some y by (simp add: is_semver_def)
qed

text \<open>C38. Retention: of a line of semantic versions it drops all but the newest \<open>keep\<close>; what it drops and what
  it keeps make up the line, and nothing dropped is above anything kept.\<close>

theorem retention_keeps_newest:
  assumes "list_all is_semver vs" "1 \<le> keep"
  shows "let dropped = versionsBeyondKeep vs keep in
    length dropped = length vs - nat keep
    \<and> (\<exists>kept. mset dropped + mset kept = mset vs
         \<and> list_all (\<lambda>d. list_all (\<lambda>k. compareVersions d k \<le> 0) kept) dropped)"
proof -
  let ?s = "sort_by compareVersions vs" and ?n = "nat (max 0 (int (length vs) - keep))"
  have n: "?n = length vs - nat keep" using assms(2) by linarith
  have d: "versionsBeyondKeep vs keep = take ?n ?s"
    using assms(2) by (simp add: versionsBeyondKeep_def sortVersions_def Let_def)
  have "sorted_wrt (\<lambda>a b. compareVersions a b \<le> 0) ?s"
    using semvers.sorted_sort_by assms(1) by (simp add: list_all_iff)
  then have "list_all (\<lambda>d. list_all (\<lambda>k. compareVersions d k \<le> 0) (drop ?n ?s)) (take ?n ?s)"
    unfolding list_all_iff by (intro ballI) (rule sorted_wrt_cut)
  moreover have "mset (take ?n ?s) + mset (drop ?n ?s) = mset vs"
    by (metis append_take_drop_id mset_append mset_sort_by)
  ultimately show ?thesis unfolding d Let_def n by (auto simp: min_def)
qed



subsection \<open>Witnesses\<close>

definition demo_item :: "string \<Rightarrow> item" where
  "demo_item v = \<lparr>it_id = ''h'', it_version = v, it_doc = JStr v\<rparr>"

definition demo_store :: vstore where
  "demo_store = store_run [Register ''_shared'' (demo_item ''1.2.0'') None None ''t0'',
     Register ''_shared'' (demo_item ''1.10.0'') None None ''t1''] new_vstore"

lemma demo_store_inv: "store_inv demo_store"
  unfolding demo_store_def by (intro invariants store_inv_new)

lemma versions_immutable_witness:
  "\<exists>e'. entry_of (store_run [SoftDelete ''_shared'' ''h'' ''1.2.0'' 5, SetTags ''_shared'' ''h'' ''1.10.0'' [''x'']] demo_store)
     ''_shared'' ''h'' ''1.2.0'' = Some e' \<and> s_item e' = demo_item ''1.2.0'' \<and> s_seq e' = 0"
proof -
  have some: "entry_of demo_store ''_shared'' ''h'' ''1.2.0'' = Some
      \<lparr>s_item = demo_item ''1.2.0'', s_seq = 0, s_createdAt = ''t0'', s_createdBy = None, s_deletedAt = None,
       s_tags = None, s_origin = None\<rparr>" by code_simp
  from versions_immutable [OF this, of "[SoftDelete ''_shared'' ''h'' ''1.2.0'' 5, SetTags ''_shared'' ''h'' ''1.10.0'' [''x'']]"]
  show ?thesis by auto
qed

lemma get_exact_version_witness: "get_item demo_store ''acme'' ''h'' ''1.2.0'' = Inr (demo_item ''1.2.0'')"
proof -
  have ref: "''1.2.0'' \<noteq> LATEST" by code_simp
  have owner: "owner_for demo_store ''acme'' ''h'' = ''_shared''" by code_simp
  have e: "entry_of demo_store ''_shared'' ''h'' ''1.2.0'' = Some
      \<lparr>s_item = demo_item ''1.2.0'', s_seq = 0, s_createdAt = ''t0'', s_createdBy = None, s_deletedAt = None,
       s_tags = None, s_origin = None\<rparr>" by code_simp
  show ?thesis unfolding get_exact_version [OF demo_store_inv ref] owner e by (simp add: live_def)
qed

lemma latest_is_greatest_witness:
  "\<exists>e. entry_of demo_store ''_shared'' ''h'' ''1.10.0'' = Some e
     \<and> list_all (\<lambda>d. entry_cmp d e \<le> 0) (live_entries demo_store ''_shared'' ''h'')"
proof -
  have owner: "owner_for demo_store ''acme'' ''h'' = ''_shared''" by code_simp
  have "list_all semver_entry (live_entries demo_store (owner_for demo_store ''acme'' ''h'') ''h'')" by code_simp
  then have sem: "semver_entry e" if "e \<in> set (live_entries demo_store (owner_for demo_store ''acme'' ''h'') ''h'')" for e
    using that by (simp add: list_all_iff)
  have "get_item demo_store ''acme'' ''h'' LATEST = Inr (demo_item ''1.10.0'')" by code_simp
  from latest_is_greatest [OF demo_store_inv sem this] show ?thesis unfolding owner by (auto simp: demo_item_def)
qed

lemma register_then_get_witness:
  "\<exists>got. get_item (snd (register ''acme'' (demo_item ''0.1.0'') None None ''t2'' demo_store)) ''acme'' ''h'' ''0.1.0'' = Inr got
     \<and> specsEqual (it_doc got) (JStr ''0.1.0'')"
proof -
  have "it_version (demo_item ''0.1.0'') \<noteq> LATEST" by code_simp
  moreover have "fst (register ''acme'' (demo_item ''0.1.0'') None None ''t2'' demo_store) = Inr ()" by code_simp
  ultimately show ?thesis
    using register_then_get [OF demo_store_inv, of "demo_item ''0.1.0''" "''acme''" None None "''t2''"]
    by (simp add: demo_item_def)
qed

lemma retention_keeps_newest_witness: "length (versionsBeyondKeep [''1.10.0'', ''1.2.0'', ''0.9.1''] 2) = 1"
proof -
  have "list_all is_semver [''1.10.0'', ''1.2.0'', ''0.9.1'']" by code_simp
  from retention_keeps_newest [OF this, of 2] show ?thesis by (simp add: Let_def)
qed

end
