(* ===== verification/Metering.thy ===== *)
theory Metering
  imports Ordering "HOL-Library.AList"
begin

text \<open>
  Who pays what: the cost attribution of packages/domain/src/billing/cost.ts, the usage meter of
  usage.ts and the price table of pricing.ts. Dollars are exact rationals, tokens integers. An
  \<open>llm_call\<close> of the trace carries its model and, when metered, its cost; every other event is \<open>Other\<close>.
  Lower-casing a model name maps each Latin-1 capital to its small letter.
\<close>

subsection \<open>Cost attribution\<close>

record cost =
  c_usd :: rat
  c_tokens :: int

record call_cost =
  cc_usd :: rat
  cc_input :: int
  cc_output :: int

datatype trace_event = LlmCall string "call_cost option" | Other nat

definition no_cost :: cost where
  "no_cost = \<lparr>c_usd = 0, c_tokens = 0\<rparr>"

definition plus_call :: "cost \<Rightarrow> call_cost \<Rightarrow> cost" where
  "plus_call c k = \<lparr>c_usd = c_usd c + cc_usd k, c_tokens = c_tokens c + (cc_input k + cc_output k)\<rparr>"

fun sumCost_from :: "cost \<Rightarrow> trace_event list \<Rightarrow> cost" where
  "sumCost_from c [] = c"
| "sumCost_from c (LlmCall m (Some k) # es) = sumCost_from (plus_call c k) es"
| "sumCost_from c (LlmCall m None # es) = sumCost_from c es"
| "sumCost_from c (Other n # es) = sumCost_from c es"

definition sumCost :: "trace_event list \<Rightarrow> cost" where
  "sumCost = sumCost_from no_cost"

text \<open>\<open>costByModel\<close>: a map in the order of each model's first metered call.\<close>

fun costByModel_from :: "(string \<times> cost) list \<Rightarrow> trace_event list \<Rightarrow> (string \<times> cost) list" where
  "costByModel_from m [] = m"
| "costByModel_from m (LlmCall k (Some x) # es) =
     costByModel_from (AList.update k (plus_call (get_or no_cost (map_of m) k) x) m) es"
| "costByModel_from m (LlmCall k None # es) = costByModel_from m es"
| "costByModel_from m (Other n # es) = costByModel_from m es"

definition costByModel :: "trace_event list \<Rightarrow> (string \<times> cost) list" where
  "costByModel = costByModel_from []"

record provenance =
  ranOn :: string
  pv_by :: "string option"
  billedModels :: "string list option"

record billed_result =
  br_trace :: "trace_event list"
  br_provenance :: "provenance option"

definition costOf :: "billed_result \<Rightarrow> cost" where
  "costOf r = sumCost (br_trace r)"

definition billingTenant :: "billed_result \<Rightarrow> string \<Rightarrow> string option" where
  "billingTenant r originalTenant =
     (case br_provenance r of
        None \<Rightarrow> Some originalTenant
      | Some prov \<Rightarrow>
          if ranOn prov \<noteq> ''self-hosted'' then Some originalTenant
          else (case pv_by prov of
                  None \<Rightarrow> None
                | Some who \<Rightarrow> if take 3 who = ''ws:'' then Some (drop 3 who) else None))"

datatype usage_source = Harness | Judge | Agent

record charge =
  ch_tenant :: string
  ch_source :: usage_source
  ch_model :: string
  ch_cost :: cost
  ch_evaluations :: int

definition payer :: "billed_result \<Rightarrow> string \<Rightarrow> string \<Rightarrow> string option" where
  "payer r originalTenant model =
     (case billingTenant r originalTenant of
        Some t \<Rightarrow> Some t
      | None \<Rightarrow>
          if model \<in> set (case br_provenance r of None \<Rightarrow> []
                          | Some p \<Rightarrow> (case billedModels p of None \<Rightarrow> [] | Some ms \<Rightarrow> ms))
          then Some originalTenant else None)"

definition billingCharges :: "billed_result \<Rightarrow> string \<Rightarrow> charge list" where
  "billingCharges r originalTenant =
     (let charges = List.map_filter (\<lambda>(model, c).
            case payer r originalTenant model of
              None \<Rightarrow> None
            | Some t \<Rightarrow> Some \<lparr>ch_tenant = t, ch_source = Harness, ch_model = model, ch_cost = c, ch_evaluations = 0\<rparr>)
            (costByModel (br_trace r))
      in case charges of
           first # rest \<Rightarrow> first\<lparr>ch_evaluations := 1\<rparr> # rest
         | [] \<Rightarrow>
             (case billingTenant r originalTenant of
                None \<Rightarrow> []
              | Some base \<Rightarrow> [\<lparr>ch_tenant = base, ch_source = Harness, ch_model = [], ch_cost = no_cost,
                               ch_evaluations = 1\<rparr>]))"

subsection \<open>The meter\<close>

record usage_totals =
  u_usd :: rat
  u_tokens :: int
  u_evaluations :: int

definition emptyTotals :: usage_totals where
  "emptyTotals = \<lparr>u_usd = 0, u_tokens = 0, u_evaluations = 0\<rparr>"

definition add_usage :: "usage_totals \<Rightarrow> cost \<Rightarrow> int \<Rightarrow> usage_totals" where
  "add_usage t c n = \<lparr>u_usd = u_usd t + c_usd c, u_tokens = u_tokens t + c_tokens c,
                      u_evaluations = u_evaluations t + n\<rparr>"

text \<open>An item is keyed by its source and model, a day item by its day too (the code joins them into one
  string with spaces; no source and no day contains one).\<close>

record tenant_acc =
  a_totals :: usage_totals
  a_bySource :: "usage_source \<Rightarrow> usage_totals"
  a_byItem :: "((usage_source \<times> string) \<times> usage_totals) list"
  a_byDay :: "((string \<times> usage_source \<times> string) \<times> usage_totals) list"

definition new_acc :: tenant_acc where
  "new_acc = \<lparr>a_totals = emptyTotals, a_bySource = (\<lambda>_. emptyTotals), a_byItem = [], a_byDay = []\<rparr>"

type_synonym meter = "string \<rightharpoonup> tenant_acc"

definition acc_of :: "meter \<Rightarrow> string \<Rightarrow> tenant_acc" where
  "acc_of m t = get_or new_acc m t"

definition record_usage ::
  "string \<Rightarrow> usage_source \<Rightarrow> string \<Rightarrow> cost \<Rightarrow> int \<Rightarrow> string \<Rightarrow> meter \<Rightarrow> meter" where
  "record_usage t src model c n day m =
     (let u = acc_of m t in
      m(t \<mapsto> \<lparr>a_totals = add_usage (a_totals u) c n,
              a_bySource = (a_bySource u)(src := add_usage (a_bySource u src) c n),
              a_byItem = AList.update (src, model)
                (add_usage (get_or emptyTotals (map_of (a_byItem u)) (src, model)) c n) (a_byItem u),
              a_byDay = AList.update (day, src, model)
                (add_usage (get_or emptyTotals (map_of (a_byDay u)) (day, src, model)) c n) (a_byDay u)\<rparr>))"

definition USAGE_LEGACY_DAY :: string where
  "USAGE_LEGACY_DAY = ''1970-01-01''"

fun source_name :: "usage_source \<Rightarrow> string" where
  "source_name Harness = ''harness''"
| "source_name Judge = ''judge''"
| "source_name Agent = ''agent''"

definition day_cmp :: "string compare \<Rightarrow> ((string \<times> usage_source \<times> string) \<times> usage_totals) compare" where
  "day_cmp name_cmp a b =
     (case (fst a, fst b) of ((d, s, m), (d', s', m')) \<Rightarrow>
        if name_cmp d d' \<noteq> 0 then name_cmp d d'
        else if name_cmp (source_name s) (source_name s') \<noteq> 0 then name_cmp (source_name s) (source_name s')
        else name_cmp m m')"

record tenant_usage =
  t_totals :: usage_totals
  t_bySource :: "usage_source \<Rightarrow> usage_totals"
  t_items :: "((usage_source \<times> string) \<times> usage_totals) list"
  t_daily :: "((string \<times> usage_source \<times> string) \<times> usage_totals) list"

definition usage_view :: "string compare \<Rightarrow> meter \<Rightarrow> string \<Rightarrow> tenant_usage" where
  "usage_view name_cmp m t =
     (let u = acc_of m t in
      \<lparr>t_totals = a_totals u, t_bySource = a_bySource u, t_items = a_byItem u,
       t_daily = sort_by (day_cmp name_cmp) (filter (\<lambda>((d, _), _). d \<noteq> USAGE_LEGACY_DAY) (a_byDay u))\<rparr>)"

subsection \<open>Prices\<close>

record model_price =
  mp_match :: string
  inputPer1M :: rat
  outputPer1M :: rat
  cacheReadPer1M :: "rat option"
  cacheWritePer1M :: "rat option"

definition MODEL_PRICES :: "model_price list" where
  "MODEL_PRICES =
    [\<lparr>mp_match = ''opus'', inputPer1M = 15, outputPer1M = 75, cacheReadPer1M = Some (3 / 2), cacheWritePer1M = Some (75 / 4)\<rparr>,
     \<lparr>mp_match = ''sonnet'', inputPer1M = 3, outputPer1M = 15, cacheReadPer1M = Some (3 / 10), cacheWritePer1M = Some (15 / 4)\<rparr>,
     \<lparr>mp_match = ''haiku'', inputPer1M = 4 / 5, outputPer1M = 4, cacheReadPer1M = Some (2 / 25), cacheWritePer1M = Some 1\<rparr>,
     \<lparr>mp_match = ''gpt-4o-mini'', inputPer1M = 3 / 20, outputPer1M = 3 / 5, cacheReadPer1M = Some (3 / 40), cacheWritePer1M = None\<rparr>,
     \<lparr>mp_match = ''gpt-4o'', inputPer1M = 5 / 2, outputPer1M = 10, cacheReadPer1M = Some (5 / 4), cacheWritePer1M = None\<rparr>]"

record token_counts =
  inputTokens :: int
  outputTokens :: int
  cacheReadTokens :: "int option"
  cacheWriteTokens :: "int option"

definition priceUsd :: "string \<Rightarrow> token_counts \<Rightarrow> rat" where
  "priceUsd model tk =
     (case find (\<lambda>p. text_includes (map js_lower model) (mp_match p)) MODEL_PRICES of
        None \<Rightarrow> 0
      | Some p \<Rightarrow>
          let cacheRead = (case cacheReadTokens tk of None \<Rightarrow> 0 | Some n \<Rightarrow> n);
              cacheWrite = (case cacheWriteTokens tk of None \<Rightarrow> 0 | Some n \<Rightarrow> n);
              uncached = max (inputTokens tk - cacheRead - cacheWrite) 0
          in (of_int uncached * inputPer1M p
              + of_int cacheRead * (case cacheReadPer1M p of None \<Rightarrow> inputPer1M p | Some r \<Rightarrow> r)
              + of_int cacheWrite * (case cacheWritePer1M p of None \<Rightarrow> inputPer1M p | Some r \<Rightarrow> r)
              + of_int (outputTokens tk) * outputPer1M p) / 1000000)"

subsection \<open>Sums over a map under an update\<close>

text \<open>The total of a field over an insertion-ordered map.\<close>

definition total_of :: "('v \<Rightarrow> 'n::ab_group_add) \<Rightarrow> ('k \<times> 'v) list \<Rightarrow> 'n" where
  "total_of f m = (\<Sum>kv\<leftarrow>m. f (snd kv))"

lemma total_of_update [counters]:
  assumes "distinct (map fst m)"
  shows "total_of f (AList.update k v m) = total_of f m - (case map_of m k of None \<Rightarrow> 0 | Some u \<Rightarrow> f u) + f v"
  using assms by (induction m) (auto simp: total_of_def map_of_eq_None_iff algebra_simps split: option.split)

lemma total_of_bump:
  assumes "distinct (map fst m)" "f z = 0" "f v = f (get_or z (map_of m) k) + d"
  shows "total_of f (AList.update k v m) = total_of f m + d"
  using assms by (simp add: total_of_update get_or_def split: option.split)

subsection \<open>Costs by model\<close>

lemma costByModel_from_total:
  assumes "distinct (map fst m)"
  shows "distinct (map fst (costByModel_from m es))
    \<and> total_of c_usd (costByModel_from m es) + c_usd s = total_of c_usd m + c_usd (sumCost_from s es)
    \<and> total_of c_tokens (costByModel_from m es) + c_tokens s = total_of c_tokens m + c_tokens (sumCost_from s es)"
  using assms
proof (induction m es arbitrary: s rule: costByModel_from.induct)
  case (2 m k x es)
  let ?m = "AList.update k (plus_call (get_or no_cost (map_of m) k) x) m"
  have "distinct (map fst ?m)" using 2(2) by (simp add: distinct_update)
  from 2(1) [OF this, of "plus_call s x"]
  show ?case
    using total_of_bump [OF 2(2), of c_usd no_cost _ k "cc_usd x"]
      total_of_bump [OF 2(2), of c_tokens no_cost _ k "cc_input x + cc_output x"]
    by (simp add: plus_call_def no_cost_def)
qed simp_all

lemma costByModel_total:
  "distinct (map fst (costByModel es))" "total_of c_usd (costByModel es) = c_usd (sumCost es)"
  "total_of c_tokens (costByModel es) = c_tokens (sumCost es)"
  using costByModel_from_total [of "[]" es no_cost] by (simp_all add: costByModel_def sumCost_def total_of_def no_cost_def)

subsection \<open>Charges\<close>

lemma map_filter_Some: "List.map_filter (\<lambda>x. Some (f x)) xs = map f xs"
  by (induction xs) (simp_all add: map_filter_simps)

lemma in_map_filter: "y \<in> set (List.map_filter f xs) \<longleftrightarrow> (\<exists>x \<in> set xs. f x = Some y)"
  by (induction xs) (auto simp: map_filter_simps split: option.split)

lemma payer_own:
  "billingTenant r t = None \<Longrightarrow> payer r t m = Some w \<longleftrightarrow>
     w = t \<and> (\<exists>p ms. br_provenance r = Some p \<and> billedModels p = Some ms \<and> m \<in> set ms)"
  by (cases "br_provenance r"; cases "billedModels (the (br_provenance r))") (auto simp: payer_def)

lemma charges_managed:
  assumes "billingTenant r t = Some b"
  shows "billingCharges r t = (case map (\<lambda>(m, c). \<lparr>ch_tenant = b, ch_source = Harness, ch_model = m, ch_cost = c, ch_evaluations = 0\<rparr>)
      (costByModel (br_trace r)) of
      first # rest \<Rightarrow> first\<lparr>ch_evaluations := 1\<rparr> # rest
    | [] \<Rightarrow> [\<lparr>ch_tenant = b, ch_source = Harness, ch_model = [], ch_cost = no_cost, ch_evaluations = 1\<rparr>])"
proof -
  have "payer r t m = Some b" for m using assms by (simp add: payer_def)
  then show ?thesis by (simp add: billingCharges_def assms case_prod_unfold map_filter_Some split: list.split)
qed

lemma charges_own:
  assumes "billingTenant r t = None" "c \<in> set (billingCharges r t)"
  shows "ch_tenant c = t \<and> payer r t (ch_model c) = Some t \<and> (ch_model c, ch_cost c) \<in> set (costByModel (br_trace r))"
proof -
  let ?f = "\<lambda>(m, k). case payer r t m of None \<Rightarrow> None
      | Some w \<Rightarrow> Some \<lparr>ch_tenant = w, ch_source = Harness, ch_model = m, ch_cost = k, ch_evaluations = 0\<rparr>"
  have ok: "ch_tenant d = t \<and> payer r t (ch_model d) = Some t \<and> (ch_model d, ch_cost d) \<in> set (costByModel (br_trace r))"
    if mem: "d \<in> set (List.map_filter ?f (costByModel (br_trace r)))" for d
  proof -
    obtain x where x: "x \<in> set (costByModel (br_trace r))" "?f x = Some d"
      using mem unfolding in_map_filter by blast
    obtain m k where "x = (m, k)" by (cases x)
    with x have mk: "(m, k) \<in> set (costByModel (br_trace r))" "?f (m, k) = Some d" by simp_all
    then obtain w where "payer r t m = Some w"
      "d = \<lparr>ch_tenant = w, ch_source = Harness, ch_model = m, ch_cost = k, ch_evaluations = 0\<rparr>"
      by (cases "payer r t m") auto
    with mk(1) show ?thesis using payer_own [OF assms(1), of m w] by simp
  qed
  show ?thesis
  proof (cases "List.map_filter ?f (costByModel (br_trace r))")
    case Nil
    then show ?thesis using assms by (simp add: billingCharges_def)
  next
    case (Cons d ds)
    then have "c = d\<lparr>ch_evaluations := 1\<rparr> \<or> c \<in> set ds" using assms(2) by (simp add: billingCharges_def)
    then show ?thesis using ok [of d] ok [of c] Cons by auto
  qed
qed

subsection \<open>The meter's ledgers\<close>

definition sum_sources :: "(usage_totals \<Rightarrow> 'n::ab_group_add) \<Rightarrow> (usage_source \<Rightarrow> usage_totals) \<Rightarrow> 'n" where
  "sum_sources f by_source = f (by_source Harness) + f (by_source Judge) + f (by_source Agent)"

definition acc_balanced :: "(usage_totals \<Rightarrow> 'n::ab_group_add) \<Rightarrow> tenant_acc \<Rightarrow> bool" where
  "acc_balanced f u \<longleftrightarrow> f (a_totals u) = sum_sources f (a_bySource u)
     \<and> f (a_totals u) = total_of f (a_byItem u) \<and> f (a_totals u) = total_of f (a_byDay u)"

definition acc_ok :: "tenant_acc \<Rightarrow> bool" where
  "acc_ok u \<longleftrightarrow> distinct (map fst (a_byItem u)) \<and> distinct (map fst (a_byDay u))
     \<and> acc_balanced u_usd u \<and> acc_balanced u_tokens u \<and> acc_balanced u_evaluations u"

definition meter_ok :: "meter \<Rightarrow> bool" where
  "meter_ok m \<longleftrightarrow> (\<forall>t. acc_ok (acc_of m t))"

lemma acc_ok_new: "acc_ok new_acc"
  by (simp add: acc_ok_def acc_balanced_def new_acc_def sum_sources_def total_of_def emptyTotals_def)

text \<open>A field of the totals that one record raises by the same amount everywhere stays balanced.\<close>

lemma balanced_record:
  assumes "acc_balanced f u" "distinct (map fst (a_byItem u))" "distinct (map fst (a_byDay u))"
    and field: "\<And>x. f (add_usage x c n) = f x + d" and z: "f emptyTotals = 0"
  shows "acc_balanced f
    \<lparr>a_totals = add_usage (a_totals u) c n,
     a_bySource = (a_bySource u)(src := add_usage (a_bySource u src) c n),
     a_byItem = AList.update k (add_usage (get_or emptyTotals (map_of (a_byItem u)) k) c n) (a_byItem u),
     a_byDay = AList.update k' (add_usage (get_or emptyTotals (map_of (a_byDay u)) k') c n) (a_byDay u)\<rparr>"
proof -
  have "sum_sources f ((a_bySource u)(src := add_usage (a_bySource u src) c n)) = sum_sources f (a_bySource u) + d"
    by (cases src) (simp_all add: sum_sources_def field)
  moreover note total_of_bump [OF assms(2) z field, of k] total_of_bump [OF assms(3) z field, of k']
  moreover have "sum_sources f (a_bySource u) = f (a_totals u)" "total_of f (a_byItem u) = f (a_totals u)"
    "total_of f (a_byDay u) = f (a_totals u)"
    using assms(1) by (auto simp: acc_balanced_def)
  ultimately show ?thesis by (simp add: acc_balanced_def field)
qed

lemma meter_ok_record [invariants]:
  assumes "meter_ok m"
  shows "meter_ok (record_usage t src model c n day m)"
proof -
  let ?u = "acc_of m t"
  have ok: "acc_ok ?u" using assms by (simp add: meter_ok_def)
  have "acc_ok (acc_of (record_usage t src model c n day m) t)"
    using ok balanced_record [where f = u_usd and d = "c_usd c" and u = ?u]
      balanced_record [where f = u_tokens and d = "c_tokens c" and u = ?u]
      balanced_record [where f = u_evaluations and d = n and u = ?u]
    by (simp add: acc_ok_def record_usage_def Let_def acc_of_def distinct_update add_usage_def emptyTotals_def)
  then show ?thesis
    using assms by (simp add: meter_ok_def record_usage_def Let_def acc_of_def)
qed

type_synonym usage_record = "string \<times> usage_source \<times> string \<times> cost \<times> int \<times> string"

definition meter_run :: "usage_record list \<Rightarrow> meter \<Rightarrow> meter" where
  "meter_run rs m = fold (\<lambda>(t, src, model, c, n, day). record_usage t src model c n day) rs m"

lemma meter_ok_run [invariants]: "meter_ok m \<Longrightarrow> meter_ok (meter_run rs m)"
  unfolding meter_run_def by (induction rs arbitrary: m) (auto simp: invariants)

lemma meter_ok_empty: "meter_ok Map.empty"
  by (simp add: meter_ok_def acc_of_def acc_ok_new)

lemma record_totals:
  "a_totals (acc_of (record_usage t src model c n day m) t') =
     (if t' = t then add_usage (a_totals (acc_of m t)) c n else a_totals (acc_of m t'))"
  by (simp add: record_usage_def Let_def acc_of_def)

lemma run_total_usd:
  "u_usd (a_totals (acc_of (meter_run rs m) t)) =
     u_usd (a_totals (acc_of m t)) + (\<Sum>(t', _, _, c, _, _)\<leftarrow>filter (\<lambda>r. fst r = t) rs. c_usd c)"
  unfolding meter_run_def
  by (induction rs arbitrary: m) (auto simp: record_totals add_usage_def algebra_simps)

subsection \<open>Prices\<close>

lemma cache_read_cheaper:
  "p \<in> set MODEL_PRICES \<Longrightarrow> 0 \<le> (case cacheReadPer1M p of None \<Rightarrow> inputPer1M p | Some r \<Rightarrow> r)
     \<and> (case cacheReadPer1M p of None \<Rightarrow> inputPer1M p | Some r \<Rightarrow> r) \<le> inputPer1M p \<and> 0 \<le> outputPer1M p"
  unfolding MODEL_PRICES_def by auto

lemma find_mem: "find P xs = Some x \<Longrightarrow> x \<in> set xs"
  by (metis find_Some_iff nth_mem)

subsection \<open>Properties\<close>

text \<open>Nothing is lost or charged twice: when a tenant pays for a case, its charges go to that tenant
  alone, add up to the cost of the whole trace in dollars and in tokens, and count exactly one evaluation.\<close>

theorem charges_cover_cost:
  assumes "billingTenant r t = Some b"
  shows "list_all (\<lambda>c. ch_tenant c = b) (billingCharges r t)
    \<and> (\<Sum>c\<leftarrow>billingCharges r t. c_usd (ch_cost c)) = c_usd (costOf r)
    \<and> (\<Sum>c\<leftarrow>billingCharges r t. c_tokens (ch_cost c)) = c_tokens (costOf r)
    \<and> (\<Sum>c\<leftarrow>billingCharges r t. ch_evaluations c) = 1"
proof (cases "costByModel (br_trace r)")
  case Nil
  then show ?thesis
    using costByModel_total [of "br_trace r"]
    by (simp add: charges_managed [OF assms] costOf_def total_of_def no_cost_def)
next
  case (Cons x xs)
  have zero: "(\<Sum>x\<leftarrow>xs. case x of (m, c) \<Rightarrow> 0) = (0 :: int)" for xs :: "(string \<times> cost) list"
    by (induction xs) auto
  show ?thesis
    using costByModel_total [of "br_trace r"] Cons zero
    by (simp add: charges_managed [OF assms] costOf_def total_of_def list_all_iff case_prod_unfold comp_def)
qed

definition managed_result :: billed_result where
  "managed_result = \<lparr>br_trace = [LlmCall ''m1'' (Some \<lparr>cc_usd = 1 / 2, cc_input = 10, cc_output = 5\<rparr>), Other 0,
     LlmCall ''m2'' (Some \<lparr>cc_usd = 1 / 4, cc_input = 1, cc_output = 1\<rparr>), LlmCall ''m1'' None],
     br_provenance = Some \<lparr>ranOn = ''self-hosted'', pv_by = Some ''ws:team'', billedModels = None\<rparr>\<rparr>"

lemma charges_cover_cost_witness:
  "(\<Sum>c\<leftarrow>billingCharges managed_result ''acme''. c_usd (ch_cost c)) = 3 / 4"
proof -
  have "billingTenant managed_result ''acme'' = Some ''team''" by code_simp
  from charges_cover_cost [OF this] have "(\<Sum>c\<leftarrow>billingCharges managed_result ''acme''. c_usd (ch_cost c)) = c_usd (costOf managed_result)" by simp
  also have "\<dots> = 3 / 4" by code_simp
  finally show ?thesis .
qed

text \<open>On a member's own machine and login the workspace pays only for its own keys: every charge of such a
  case goes to the case's tenant for a model whose key came from the workspace, and is that model's whole
  cost in the trace.\<close>

theorem own_pays_only_workspace_keys:
  assumes "billingTenant r t = None" "c \<in> set (billingCharges r t)"
  shows "ch_tenant c = t \<and> (ch_model c, ch_cost c) \<in> set (costByModel (br_trace r))
    \<and> (\<exists>p ms. br_provenance r = Some p \<and> billedModels p = Some ms \<and> ch_model c \<in> set ms)"
proof -
  have own: "ch_tenant c = t" "payer r t (ch_model c) = Some t" "(ch_model c, ch_cost c) \<in> set (costByModel (br_trace r))"
    using charges_own [OF assms] by blast+
  then show ?thesis using payer_own [OF assms(1)] by blast
qed

lemma own_pays_only_workspace_keys_witness:
  "ch_tenant (hd (billingCharges (managed_result\<lparr>br_provenance := Some \<lparr>ranOn = ''self-hosted'', pv_by = Some ''kim'',
     billedModels = Some [''m2'']\<rparr>\<rparr>) ''acme'')) = ''acme''"
proof -
  let ?r = "managed_result\<lparr>br_provenance := Some \<lparr>ranOn = ''self-hosted'', pv_by = Some ''kim'', billedModels = Some [''m2'']\<rparr>\<rparr>"
  have "billingTenant ?r ''acme'' = None" by code_simp
  moreover have "billingCharges ?r ''acme'' \<noteq> []" by code_simp
  ultimately show ?thesis using own_pays_only_workspace_keys [of ?r "''acme''" "hd (billingCharges ?r ''acme'')"] by simp
qed

text \<open>The meter's views agree: after any sequence of records the totals of every tenant are the sums over
  its sources, over its items and over its days, in dollars, tokens and evaluations, and the dollars are
  those recorded for the tenant.\<close>

theorem meter_views_agree:
  "let u = acc_of (meter_run rs Map.empty) t in
     u_usd (a_totals u) = (\<Sum>(t', _, _, c, _, _)\<leftarrow>filter (\<lambda>r. fst r = t) rs. c_usd c)
     \<and> acc_balanced u_usd u \<and> acc_balanced u_tokens u \<and> acc_balanced u_evaluations u"
proof -
  have "meter_ok (meter_run rs Map.empty)" by (intro invariants meter_ok_empty)
  then have "acc_ok (acc_of (meter_run rs Map.empty) t)" by (simp add: meter_ok_def)
  then show ?thesis
    using run_total_usd [of rs Map.empty t] by (simp add: Let_def acc_ok_def acc_of_def new_acc_def emptyTotals_def)
qed

text \<open>Reading from the prompt cache never costs more than reading anew, and no price is negative.\<close>

theorem cached_reads_save:
  assumes "0 \<le> c" "c \<le> n" "0 \<le> out"
  shows "priceUsd model \<lparr>inputTokens = n, outputTokens = out, cacheReadTokens = Some c, cacheWriteTokens = None\<rparr>
      \<le> priceUsd model \<lparr>inputTokens = n, outputTokens = out, cacheReadTokens = None, cacheWriteTokens = None\<rparr>
    \<and> 0 \<le> priceUsd model \<lparr>inputTokens = n, outputTokens = out, cacheReadTokens = Some c, cacheWriteTokens = None\<rparr>"
proof (cases "find (\<lambda>p. text_includes (map js_lower model) (mp_match p)) MODEL_PRICES")
  case None
  then show ?thesis by (simp add: priceUsd_def)
next
  case (Some p)
  let ?i = "inputPer1M p" and ?r = "case cacheReadPer1M p of None \<Rightarrow> inputPer1M p | Some r \<Rightarrow> r"
  have r: "0 \<le> ?r" "?r \<le> ?i" "0 \<le> outputPer1M p" using cache_read_cheaper [OF find_mem [OF Some]] by blast+
  then have "(of_int c :: rat) * ?r \<le> of_int c * ?i" using assms(1) by (intro mult_left_mono) simp_all
  moreover have "max (n - c) 0 = n - c" "max n 0 = n" using assms by simp_all
  moreover have "0 \<le> (of_int (n - c) :: rat) * ?i" "0 \<le> (of_int c :: rat) * ?r" "0 \<le> (of_int out :: rat) * outputPer1M p"
    using assms r by (intro mult_nonneg_nonneg; simp)+
  ultimately show ?thesis
    using Some by (simp add: priceUsd_def Let_def algebra_simps divide_right_mono split del: if_split)
qed

lemma cached_reads_save_witness:
  "priceUsd ''Claude-OPUS'' \<lparr>inputTokens = 1000, outputTokens = 10, cacheReadTokens = Some 900, cacheWriteTokens = None\<rparr>
     \<le> priceUsd ''Claude-OPUS'' \<lparr>inputTokens = 1000, outputTokens = 10, cacheReadTokens = None, cacheWriteTokens = None\<rparr>"
  using cached_reads_save [of 900 1000 10 "''Claude-OPUS''"] by simp


end
