(* ===== verification/Issue.thy ===== *)
theory Issue
  imports Digest
begin

text \<open>
  The issue aggregate of the tracker: packages/domain/src/tracker/issue.ts and history.ts over the records of
  packages/contracts/src/records/tracker.ts.

  Timestamps are the strings the code stores and compares. \<open>Date.parse\<close>, which the order witness of commit
  links uses, is a parameter from a string to its instant, \<open>None\<close> for NaN. A patch field that the code may set
  to \<open>undefined\<close> is an option of an option: absent, cleared, or set; \<open>null\<close> in an edit is the cleared value.
  The details of history entries and the payloads of facts are JSON objects with the code's own keys.
\<close>

subsection \<open>Vocabulary\<close>

datatype issue_status = Backlog | Todo | InProgress | InReview | IDone | ICancelled | Regressed

datatype status_category = CatBacklog | CatUnstarted | CatStarted | CatCompleted | CatCanceled

fun ISSUE_STATUS_CATEGORY :: "issue_status \<Rightarrow> status_category" where
  "ISSUE_STATUS_CATEGORY Backlog = CatBacklog"
| "ISSUE_STATUS_CATEGORY Todo = CatUnstarted"
| "ISSUE_STATUS_CATEGORY InProgress = CatStarted"
| "ISSUE_STATUS_CATEGORY InReview = CatStarted"
| "ISSUE_STATUS_CATEGORY IDone = CatCompleted"
| "ISSUE_STATUS_CATEGORY ICancelled = CatCanceled"
| "ISSUE_STATUS_CATEGORY Regressed = CatStarted"

fun status_name :: "issue_status \<Rightarrow> string" where
  "status_name Backlog = ''backlog''"
| "status_name Todo = ''todo''"
| "status_name InProgress = ''in_progress''"
| "status_name InReview = ''in_review''"
| "status_name IDone = ''done''"
| "status_name ICancelled = ''cancelled''"
| "status_name Regressed = ''regressed''"

definition isOpenIssueStatus :: "issue_status \<Rightarrow> bool" where
  "isOpenIssueStatus s \<longleftrightarrow>
     ISSUE_STATUS_CATEGORY s \<noteq> CatCompleted \<and> ISSUE_STATUS_CATEGORY s \<noteq> CatCanceled"

definition isTerminal :: "issue_status \<Rightarrow> bool" where
  "isTerminal s \<longleftrightarrow> \<not> isOpenIssueStatus s"

datatype issue_priority = PNone | PUrgent | PHigh | PMedium | PLow

definition ISSUE_PRIORITIES :: "issue_priority list" where
  "ISSUE_PRIORITIES = [PNone, PUrgent, PHigh, PMedium, PLow]"

fun issuePriorityRank :: "issue_priority \<Rightarrow> nat" where
  "issuePriorityRank PUrgent = 0"
| "issuePriorityRank PHigh = 1"
| "issuePriorityRank PMedium = 2"
| "issuePriorityRank PLow = 3"
| "issuePriorityRank PNone = 4"

definition ISSUE_PRIORITIES_BY_RANK :: "issue_priority list" where
  "ISSUE_PRIORITIES_BY_RANK =
     sort_by (\<lambda>a b. int (issuePriorityRank a) - int (issuePriorityRank b)) ISSUE_PRIORITIES"

fun priority_name :: "issue_priority \<Rightarrow> string" where
  "priority_name PNone = ''none''"
| "priority_name PUrgent = ''urgent''"
| "priority_name PHigh = ''high''"
| "priority_name PMedium = ''medium''"
| "priority_name PLow = ''low''"

datatype link_type = LHarness | LDataset | LJudge | LScorecard | LRun | LView | LIssue | LProduct | LRelease
  | LCase | LCommit

fun link_type_name :: "link_type \<Rightarrow> string" where
  "link_type_name LHarness = ''harness''" | "link_type_name LDataset = ''dataset''"
| "link_type_name LJudge = ''judge''" | "link_type_name LScorecard = ''scorecard''"
| "link_type_name LRun = ''run''" | "link_type_name LView = ''view''" | "link_type_name LIssue = ''issue''"
| "link_type_name LProduct = ''product''" | "link_type_name LRelease = ''release''"
| "link_type_name LCase = ''case''" | "link_type_name LCommit = ''commit''"

record issue_link =
  ln_type :: link_type
  ln_id :: string
  ln_version :: "string option"
  ln_dataset :: "string option"
  ln_repository :: "string option"
  ln_host :: "string option"
  ln_committedAt :: "string option"
  ln_note :: "string option"
  ln_addedBy :: string
  ln_addedAt :: string

text \<open>What a caller hands in: the same coordinates, without who linked it and when.\<close>

record link_input =
  li_type :: link_type
  li_id :: string
  li_version :: "string option"
  li_dataset :: "string option"
  li_repository :: "string option"
  li_host :: "string option"
  li_committedAt :: "string option"
  li_note :: "string option"

datatype design = Spec_design string | Declined_design string

datatype chain =
    Draft
  | Accepted string string design
  | Rejected string string string
  | Shipped string string

fun chain_name :: "chain \<Rightarrow> string" where
  "chain_name Draft = ''draft''"
| "chain_name (Accepted t who d) = ''accepted''"
| "chain_name (Rejected t who r) = ''rejected''"
| "chain_name (Shipped t who) = ''shipped''"

record resolution =
  rs_scorecardId :: "string option"
  rs_note :: "string option"
  rs_by :: string
  rs_at :: string

record gh_comment =
  gc_author :: string
  gc_body :: string
  gc_createdAt :: string
  gc_url :: string

record gh_sync =
  gs_pull :: bool
  gs_push :: bool

record gh_error =
  ge_at :: string
  ge_op :: string
  ge_message :: string

record gh_link =
  gh_host :: "string option"
  gh_repository :: string
  gh_number :: nat
  gh_url :: string
  gh_state :: string
  gh_syncedAt :: "string option"
  gh_sync :: gh_sync
  gh_comments :: "gh_comment list"
  gh_lastError :: "gh_error option"

datatype history_event = HCreated | HUpdated | HStatus_changed | HResolved | HReopened | HLinked | HUnlinked
  | HGithub_imported | HGithub_pulled | HGithub_pushed | HGithub_push_failed | HCompleted | HCancelled
  | HReleased | HUpdate_posted

record history_entry =
  he_at :: string
  he_by :: string
  he_event :: history_event
  he_detail :: "json option"

record issue =
  is_id :: string
  is_tenant :: string
  is_number :: nat
  is_identifier :: string
  is_former :: "string list"
  is_title :: string
  is_description :: "string option"
  is_status :: issue_status
  is_chain :: "chain option"
  is_priority :: issue_priority
  is_estimate :: "nat option"
  is_dueDate :: "string option"
  is_parentId :: "string option"
  is_milestoneId :: "string option"
  is_stateId :: "string option"
  is_projectId :: "string option"
  is_assignee :: "string option"
  is_labelIds :: "string list"
  is_links :: "issue_link list"
  is_resolution :: "resolution option"
  is_github :: "gh_link option"
  is_history :: "history_entry list"
  is_createdBy :: string
  is_origin :: "(string option \<times> string option) option"
  is_createdAt :: string
  is_updatedAt :: string

subsection \<open>Links\<close>

definition normaliseIssueLinkId :: "link_type \<Rightarrow> string \<Rightarrow> string" where
  "normaliseIssueLinkId ty i = (if ty = LCommit then map js_lower (js_trim i) else i)"

text \<open>\<open>COMMIT_SHA\<close>: seven to sixty-four lower-case hexadecimal digits.\<close>

definition commit_sha :: "string \<Rightarrow> bool" where
  "commit_sha s \<longleftrightarrow> 7 \<le> length s \<and> length s \<le> 64 \<and> list_all is_hex s"

text \<open>\<open>owner/name\<close>: one slash, nothing blank, something on both sides.\<close>

definition owner_name :: "string \<Rightarrow> bool" where
  "owner_name s \<longleftrightarrow>
     (let a = takeWhile (\<lambda>c. c \<noteq> CHR ''/'') s; r = dropWhile (\<lambda>c. c \<noteq> CHR ''/'') s
      in a \<noteq> [] \<and> list_all (\<lambda>c. \<not> js_space c) a
         \<and> (case r of [] \<Rightarrow> False
             | _ # b \<Rightarrow> b \<noteq> [] \<and> list_all (\<lambda>c. c \<noteq> CHR ''/'' \<and> \<not> js_space c) b))"

datatype link_defect = Case_needs_dataset | Case_needs_version | Dataset_not_case | Commit_needs_repository
  | Repository_form | Sha_form | Commit_has_version | CommittedAt_form | Repository_not_commit
  | Host_not_commit | CommittedAt_not_commit

definition issueLinkDefects :: "(string \<Rightarrow> int option) \<Rightarrow> link_input \<Rightarrow> link_defect list" where
  "issueLinkDefects date_parse l =
     (if li_type l = LCase
      then (if li_dataset l = None then [Case_needs_dataset] else [])
           @ (if li_version l = None then [Case_needs_version] else [])
      else if li_dataset l \<noteq> None then [Dataset_not_case] else [])
     @ (if li_type l = LCommit
        then (case li_repository l of
                None \<Rightarrow> [Commit_needs_repository]
              | Some repo \<Rightarrow> if owner_name repo then [] else [Repository_form])
             @ (if commit_sha (normaliseIssueLinkId LCommit (li_id l)) then [] else [Sha_form])
             @ (if li_version l \<noteq> None then [Commit_has_version] else [])
             @ (case li_committedAt l of
                  None \<Rightarrow> []
                | Some t \<Rightarrow> if date_parse t = None then [CommittedAt_form] else [])
        else (if li_repository l \<noteq> None then [Repository_not_commit] else [])
             @ (if li_host l \<noteq> None then [Host_not_commit] else [])
             @ (if li_committedAt l \<noteq> None then [CommittedAt_not_commit] else []))"

definition sameIssueLink :: "issue_link \<Rightarrow> link_input \<Rightarrow> bool" where
  "sameIssueLink a b \<longleftrightarrow>
     ln_type a = li_type b
     \<and> normaliseIssueLinkId (ln_type a) (ln_id a) = normaliseIssueLinkId (li_type b) (li_id b)
     \<and> ln_dataset a = li_dataset b \<and> ln_repository a = li_repository b"

subsection \<open>History and facts\<close>

definition TRACKER_HISTORY_LIMIT :: nat where
  "TRACKER_HISTORY_LIMIT = 200"

definition appendHistory :: "history_entry list \<Rightarrow> history_entry \<Rightarrow> history_entry list" where
  "appendHistory history e =
     (let nxt = history @ [e]
      in if TRACKER_HISTORY_LIMIT < length nxt then drop (length nxt - TRACKER_HISTORY_LIMIT) nxt else nxt)"

record issue_fact =
  if_kind :: string
  if_subject :: string
  if_actor :: string
  if_payload :: json

text \<open>An object literal with optional members: those that are absent are left out.\<close>

definition opt_member :: "string \<Rightarrow> string option \<Rightarrow> (string \<times> json) list" where
  "opt_member k v = (case v of None \<Rightarrow> [] | Some s \<Rightarrow> [(k, JStr s)])"

definition githubOrigin :: "gh_link \<Rightarrow> (string \<times> json) list" where
  "githubOrigin g =
     [(''repository'', JStr (gh_repository g)), (''number'', JNum (decimal (gh_number g))),
      (''url'', JStr (gh_url g))] @ opt_member ''host'' (gh_host g)"

subsection \<open>Creation\<close>

record new_issue =
  ni_id :: string
  ni_tenant :: string
  ni_number :: nat
  ni_identifier :: string
  ni_title :: string
  ni_description :: "string option"
  ni_status :: "issue_status option"
  ni_priority :: "issue_priority option"
  ni_estimate :: "nat option"
  ni_dueDate :: "string option"
  ni_parentId :: "string option"
  ni_milestoneId :: "string option"
  ni_stateId :: "string option"
  ni_projectId :: "string option"
  ni_assignee :: "string option"
  ni_labelIds :: "string list option"
  ni_links :: "link_input list option"
  ni_resolution :: "resolution option"
  ni_github :: "gh_link option"
  ni_createdBy :: string
  ni_origin :: "(string option \<times> string option) option"
  ni_now :: string

definition or_else :: "'a \<Rightarrow> 'a option \<Rightarrow> 'a" where
  "or_else d v = (case v of None \<Rightarrow> d | Some x \<Rightarrow> x)"

definition first_link :: "string \<Rightarrow> string \<Rightarrow> link_input \<Rightarrow> issue_link" where
  "first_link who now l =
     \<lparr>ln_type = li_type l, ln_id = li_id l, ln_version = li_version l, ln_dataset = None, ln_repository = None,
      ln_host = None, ln_committedAt = None, ln_note = li_note l, ln_addedBy = who, ln_addedAt = now\<rparr>"

definition newIssue :: "new_issue \<Rightarrow> issue" where
  "newIssue n =
     (let status = or_else Backlog (ni_status n) in
      \<lparr>is_id = ni_id n, is_tenant = ni_tenant n, is_number = ni_number n, is_identifier = ni_identifier n,
       is_former = [], is_title = ni_title n, is_description = ni_description n, is_status = status,
       is_chain = None, is_priority = or_else PNone (ni_priority n), is_estimate = ni_estimate n,
       is_dueDate = ni_dueDate n, is_parentId = ni_parentId n, is_milestoneId = ni_milestoneId n,
       is_stateId = ni_stateId n, is_projectId = ni_projectId n, is_assignee = ni_assignee n,
       is_labelIds = or_else [] (ni_labelIds n),
       is_links = map (first_link (ni_createdBy n) (ni_now n)) (or_else [] (ni_links n)),
       is_resolution = ni_resolution n, is_github = ni_github n,
       is_history =
         [\<lparr>he_at = ni_now n, he_by = ni_createdBy n,
           he_event = (if ni_github n \<noteq> None then HGithub_imported else HCreated),
           he_detail = Some (JObj ((''status'', JStr (status_name status))
             # (case ni_github n of None \<Rightarrow> [] | Some g \<Rightarrow> githubOrigin g)))\<rparr>],
       is_createdBy = ni_createdBy n, is_origin = ni_origin n, is_createdAt = ni_now n, is_updatedAt = ni_now n\<rparr>)"

definition creationFacts :: "issue \<Rightarrow> issue_fact list" where
  "creationFacts r =
     [\<lparr>if_kind = ''issue.created'', if_subject = is_id r, if_actor = is_createdBy r,
       if_payload = JObj ([(''status'', JStr (status_name (is_status r))),
         (''source'', JStr (if is_github r \<noteq> None then ''github'' else ''manual'')),
         (''identifier'', JStr (is_identifier r)), (''title'', JStr (is_title r))]
         @ opt_member ''projectId'' (is_projectId r)
         @ (case is_github r of None \<Rightarrow> [] | Some g \<Rightarrow> githubOrigin g))\<rparr>]"

subsection \<open>Patches\<close>

text \<open>\<open>Partial<IssueRecord>\<close>: a field is \<open>None\<close> when the patch does not name it. A field the patch may name with
  the value \<open>undefined\<close> holds an option again.\<close>

record issue_patch =
  ip_title :: "string option"
  ip_description :: "string option option"
  ip_status :: "issue_status option"
  ip_chain :: "chain option"
  ip_priority :: "issue_priority option"
  ip_estimate :: "nat option option"
  ip_dueDate :: "string option option"
  ip_parentId :: "string option option"
  ip_milestoneId :: "string option option"
  ip_stateId :: "string option"
  ip_projectId :: "string option option"
  ip_assignee :: "string option option"
  ip_labelIds :: "string list option"
  ip_links :: "issue_link list option"
  ip_resolution :: "resolution option"
  ip_github :: "gh_link option option"
  ip_history :: "history_entry list option"
  ip_updatedAt :: "string option"

definition no_patch :: issue_patch where
  "no_patch =
     \<lparr>ip_title = None, ip_description = None, ip_status = None, ip_chain = None, ip_priority = None,
      ip_estimate = None, ip_dueDate = None, ip_parentId = None, ip_milestoneId = None, ip_stateId = None,
      ip_projectId = None, ip_assignee = None, ip_labelIds = None, ip_links = None, ip_resolution = None,
      ip_github = None, ip_history = None, ip_updatedAt = None\<rparr>"

definition keep_some :: "'a option \<Rightarrow> 'a option \<Rightarrow> 'a option" where
  "keep_some v old = (case v of None \<Rightarrow> old | Some x \<Rightarrow> Some x)"

text \<open>\<open>{...current, ...patch, id, tenant}\<close>\<close>

definition apply_patch :: "issue_patch \<Rightarrow> issue \<Rightarrow> issue" where
  "apply_patch p r =
     r\<lparr>is_title := or_else (is_title r) (ip_title p),
       is_description := or_else (is_description r) (ip_description p),
       is_status := or_else (is_status r) (ip_status p),
       is_chain := keep_some (ip_chain p) (is_chain r),
       is_priority := or_else (is_priority r) (ip_priority p),
       is_estimate := or_else (is_estimate r) (ip_estimate p),
       is_dueDate := or_else (is_dueDate r) (ip_dueDate p),
       is_parentId := or_else (is_parentId r) (ip_parentId p),
       is_milestoneId := or_else (is_milestoneId r) (ip_milestoneId p),
       is_stateId := keep_some (ip_stateId p) (is_stateId r),
       is_projectId := or_else (is_projectId r) (ip_projectId p),
       is_assignee := or_else (is_assignee r) (ip_assignee p),
       is_labelIds := or_else (is_labelIds r) (ip_labelIds p),
       is_links := or_else (is_links r) (ip_links p),
       is_resolution := keep_some (ip_resolution p) (is_resolution r),
       is_github := or_else (is_github r) (ip_github p),
       is_history := or_else (is_history r) (ip_history p),
       is_updatedAt := or_else (is_updatedAt r) (ip_updatedAt p)\<rparr>"

type_synonym transition = "(issue_patch \<times> issue_fact list) res"

text \<open>Every patch with a history entry: the entry is appended and the record is touched.\<close>

definition logged :: "issue \<Rightarrow> string \<Rightarrow> string \<Rightarrow> history_event \<Rightarrow> json \<Rightarrow> issue_patch \<Rightarrow> issue_patch" where
  "logged r who now ev detail p =
     p\<lparr>ip_history := Some (appendHistory (is_history r)
         \<lparr>he_at = now, he_by = who, he_event = ev, he_detail = Some detail\<rparr>),
       ip_updatedAt := Some now\<rparr>"

subsection \<open>Editing\<close>

record issue_edit =
  ie_title :: "string option"
  ie_description :: "string option option"
  ie_labelIds :: "string list option"
  ie_assignee :: "string option option"
  ie_projectId :: "string option option"
  ie_priority :: "issue_priority option"
  ie_estimate :: "nat option option"
  ie_dueDate :: "string option option"
  ie_parentId :: "string option option"
  ie_milestoneId :: "string option option"

type_synonym edit_state = "issue_patch \<times> string list"

definition edit_field ::
  "'a option \<Rightarrow> 'a \<Rightarrow> string \<Rightarrow> ('a \<Rightarrow> issue_patch \<Rightarrow> issue_patch) \<Rightarrow> edit_state \<Rightarrow> edit_state" where
  "edit_field new old name put st =
     (case new of None \<Rightarrow> st
      | Some x \<Rightarrow> if x \<noteq> old then (put x (fst st), snd st @ [name]) else st)"

definition edit_project :: "issue \<Rightarrow> issue_edit \<Rightarrow> edit_state \<Rightarrow> edit_state" where
  "edit_project r f st =
     (case ie_projectId f of None \<Rightarrow> st
      | Some nxt \<Rightarrow>
          if nxt \<noteq> is_projectId r
          then let st = ((fst st)\<lparr>ip_projectId := Some nxt\<rparr>, snd st @ [''project'']) in
               if ie_milestoneId f = None \<and> is_milestoneId r \<noteq> None
               then ((fst st)\<lparr>ip_milestoneId := Some None\<rparr>, snd st @ [''milestone''])
               else st
          else st)"

definition edit_labels :: "issue_edit \<Rightarrow> edit_state \<Rightarrow> edit_state" where
  "edit_labels f st =
     (case ie_labelIds f of None \<Rightarrow> st
      | Some ls \<Rightarrow> ((fst st)\<lparr>ip_labelIds := Some ls\<rparr>, snd st @ [''labels'']))"

definition edit_all :: "issue \<Rightarrow> issue_edit \<Rightarrow> edit_state" where
  "edit_all r f =
     (let st = (no_patch, []);
          st = edit_field (ie_title f) (is_title r) ''title'' (\<lambda>x p. p\<lparr>ip_title := Some x\<rparr>) st;
          st = edit_field (ie_description f) (is_description r) ''description'' (\<lambda>x p. p\<lparr>ip_description := Some x\<rparr>) st;
          st = edit_labels f st;
          st = edit_field (ie_assignee f) (is_assignee r) ''assignee'' (\<lambda>x p. p\<lparr>ip_assignee := Some x\<rparr>) st;
          st = edit_project r f st;
          st = edit_field (ie_priority f) (is_priority r) ''priority'' (\<lambda>x p. p\<lparr>ip_priority := Some x\<rparr>) st;
          st = edit_field (ie_estimate f) (is_estimate r) ''estimate'' (\<lambda>x p. p\<lparr>ip_estimate := Some x\<rparr>) st;
          st = edit_field (ie_dueDate f) (is_dueDate r) ''dueDate'' (\<lambda>x p. p\<lparr>ip_dueDate := Some x\<rparr>) st;
          st = edit_field (ie_milestoneId f) (is_milestoneId r) ''milestone'' (\<lambda>x p. p\<lparr>ip_milestoneId := Some x\<rparr>) st
      in edit_field (ie_parentId f) (is_parentId r) ''parent'' (\<lambda>x p. p\<lparr>ip_parentId := Some x\<rparr>) st)"

definition update_issue :: "issue \<Rightarrow> issue_edit \<Rightarrow> string \<Rightarrow> string \<Rightarrow> transition" where
  "update_issue r f who now =
     (if ie_parentId f = Some (Some (is_id r))
      then Inl (BadRequest ''BAD_REQUEST'' ''An issue cannot be its own parent.'')
      else let (p, changed) = edit_all r f in
        if changed = [] then Inl (BadRequest ''BAD_REQUEST'' ''Nothing to update.'')
        else Inr (logged r who now HUpdated (JObj [(''changed'', JArr (map JStr changed))]) p, []))"

subsection \<open>The work chain\<close>

definition chain_state :: "issue \<Rightarrow> string" where
  "chain_state r = (case is_chain r of None \<Rightarrow> ''none'' | Some c \<Rightarrow> chain_name c)"

definition chainTransition :: "issue \<Rightarrow> chain \<Rightarrow> string \<Rightarrow> string \<Rightarrow> transition" where
  "chainTransition r c who now =
     Inr (logged r who now HUpdated
            (JObj [(''changed'', JArr [JStr ''chain'']), (''chain'', JStr (chain_name c))])
            (no_patch\<lparr>ip_chain := Some c\<rparr>), [])"

definition accept_issue :: "issue \<Rightarrow> design \<Rightarrow> string \<Rightarrow> string \<Rightarrow> transition" where
  "accept_issue r d who now =
     (case is_chain r of
        Some (Accepted _ _ _) \<Rightarrow> Inl (Conflict ''CONFLICT'' ''This request is already accepted.'')
      | Some (Rejected _ _ _) \<Rightarrow> Inl (Conflict ''CONFLICT'' ''This request is rejected; move it back to draft first.'')
      | Some (Shipped _ _) \<Rightarrow> Inl (Conflict ''CONFLICT'' ''This request is shipped; move it back to draft first.'')
      | _ \<Rightarrow> chainTransition r (Accepted now who d) who now)"

definition reject_issue :: "issue \<Rightarrow> string \<Rightarrow> string \<Rightarrow> string \<Rightarrow> transition" where
  "reject_issue r reason who now =
     (case is_chain r of
        Some (Shipped _ _) \<Rightarrow> Inl (Conflict ''CONFLICT'' ''This request shipped; it cannot be rejected afterwards.'')
      | Some (Rejected _ _ _) \<Rightarrow> Inl (Conflict ''CONFLICT'' ''This request is already rejected.'')
      | _ \<Rightarrow> chainTransition r (Rejected now who reason) who now)"

definition ship_issue :: "issue \<Rightarrow> string \<Rightarrow> string \<Rightarrow> transition" where
  "ship_issue r who now =
     (case is_chain r of
        Some (Accepted _ _ _) \<Rightarrow> chainTransition r (Shipped now who) who now
      | None \<Rightarrow> Inl (Conflict ''CONFLICT'' ''This request predates the work chain and has never been accepted.'')
      | Some c \<Rightarrow> Inl (Conflict ''CONFLICT'' (''This request is '' @ chain_name c @ ''; only an accepted request ships.'')))"

definition redraft_issue :: "issue \<Rightarrow> string \<Rightarrow> string \<Rightarrow> transition" where
  "redraft_issue r who now =
     (case is_chain r of
        None \<Rightarrow> Inl (Conflict ''CONFLICT'' ''This request is not in a chain state that can be redrafted.'')
      | Some Draft \<Rightarrow> Inl (Conflict ''CONFLICT'' ''This request is not in a chain state that can be redrafted.'')
      | Some (Shipped _ _) \<Rightarrow> Inl (Conflict ''CONFLICT'' ''This request shipped; its chain is history, not a draft.'')
      | Some _ \<Rightarrow> chainTransition r Draft who now)"

subsection \<open>Workflow status\<close>

datatype status_cause = Manual | Github_sync | Regression

fun cause_name :: "status_cause \<Rightarrow> string" where
  "cause_name Manual = ''manual''"
| "cause_name Github_sync = ''github_sync''"
| "cause_name Regression = ''regression''"

record status_options =
  so_cause :: "status_cause option"
  so_stateId :: "string option"
  so_scorecardId :: "string option"
  so_note :: "string option"

definition statusTransition ::
  "issue \<Rightarrow> issue_status \<Rightarrow> string \<Rightarrow> string \<Rightarrow> status_options \<Rightarrow> history_event \<Rightarrow> issue_patch \<times> issue_fact list"
  where
  "statusTransition r to who now opts ev =
     (let moved = [(''from'', JStr (status_name (is_status r))), (''to'', JStr (status_name to)),
                   (''cause'', JStr (cause_name (or_else Manual (so_cause opts))))] in
      (logged r who now ev
         (JObj (moved @ opt_member ''scorecardId'' (so_scorecardId opts) @ opt_member ''note'' (so_note opts)))
         (no_patch\<lparr>ip_status := Some to, ip_stateId := so_stateId opts\<rparr>),
       [\<lparr>if_kind = ''issue.status_changed'', if_subject = is_id r, if_actor = who,
         if_payload = JObj (moved
           @ [(''identifier'', JStr (is_identifier r)), (''title'', JStr (is_title r))]
           @ opt_member ''projectId'' (is_projectId r)
           @ opt_member ''scorecardId'' (so_scorecardId opts))\<rparr>]))"

definition setStatus :: "issue \<Rightarrow> issue_status \<Rightarrow> string \<Rightarrow> string \<Rightarrow> status_options \<Rightarrow> transition" where
  "setStatus r to who now opts =
     (if to = IDone
      then Inl (BadRequest ''BAD_REQUEST'' ''Closing an issue records how it was evaluated; resolve it instead.'')
      else if to = Regressed
      then Inl (BadRequest ''BAD_REQUEST'' ''An issue can only regress from a resolution.'')
      else if to = is_status r
      then Inl (Conflict ''CONFLICT'' (''Issue is already '' @ status_name (is_status r) @ ''.''))
      else if isTerminal (is_status r)
      then Inl (Conflict ''CONFLICT'' (''Issue is '' @ status_name (is_status r) @ ''; reopen it before moving it.''))
      else Inr (statusTransition r to who now opts HStatus_changed))"

definition resolve_issue ::
  "issue \<Rightarrow> string option \<Rightarrow> string option \<Rightarrow> string \<Rightarrow> string \<Rightarrow> status_cause option \<Rightarrow> transition" where
  "resolve_issue r scorecard note who now cause =
     (if \<not> isOpenIssueStatus (is_status r)
      then Inl (Conflict ''CONFLICT'' (''Issue is already '' @ status_name (is_status r) @ ''.''))
      else let (p, fs) = statusTransition r IDone who now
             \<lparr>so_cause = Some (or_else Manual cause), so_stateId = None, so_scorecardId = scorecard, so_note = None\<rparr>
             HResolved
           in Inr (p\<lparr>ip_resolution :=
               Some \<lparr>rs_scorecardId = scorecard, rs_note = note, rs_by = who, rs_at = now\<rparr>\<rparr>, fs))"

record reopen_input =
  ro_to :: "issue_status option"
  ro_cause :: status_cause
  ro_scorecardId :: "string option"
  ro_note :: "string option"

definition reopen_issue :: "issue \<Rightarrow> reopen_input \<Rightarrow> string \<Rightarrow> string \<Rightarrow> transition" where
  "reopen_issue r inp who now =
     (if \<not> isTerminal (is_status r)
      then Inl (Conflict ''CONFLICT'' ''only a done or cancelled issue can be reopened.'')
      else let to = or_else Todo (ro_to inp) in
        if \<not> isOpenIssueStatus to then Inl (BadRequest ''BAD_REQUEST'' ''Reopen requires an open status.'')
        else if to = Regressed \<and> is_status r \<noteq> IDone
        then Inl (Conflict ''CONFLICT'' ''Only a resolved issue can regress.'')
        else Inr (statusTransition r to who now
            \<lparr>so_cause = Some (ro_cause inp), so_stateId = None, so_scorecardId = ro_scorecardId inp,
             so_note = ro_note inp\<rparr> HReopened))"

subsection \<open>Linking\<close>

text \<open>\<open>Date.parse(a) < Date.parse(b)\<close>: false when either is NaN.\<close>

definition date_before :: "(string \<Rightarrow> int option) \<Rightarrow> string \<Rightarrow> string \<Rightarrow> bool" where
  "date_before date_parse a b =
     (case (date_parse a, date_parse b) of (Some x, Some y) \<Rightarrow> x < y | _ \<Rightarrow> False)"

text \<open>The order witness: a commit link on a request in the chain.\<close>

definition order_witness :: "(string \<Rightarrow> int option) \<Rightarrow> issue \<Rightarrow> link_input \<Rightarrow> unit res" where
  "order_witness date_parse r l =
     (case is_chain r of
        None \<Rightarrow> Inr ()
      | Some c \<Rightarrow>
          if li_type l \<noteq> LCommit then Inr ()
          else if chain_name c = ''draft'' \<or> chain_name c = ''rejected''
          then Inl (Conflict ''CONFLICT'' ''code cannot claim a request nobody accepted.'')
          else (case li_committedAt l of
              None \<Rightarrow> Inl (BadRequest ''BAD_REQUEST'' ''A commit link on a request in the chain names the author date.'')
            | Some t \<Rightarrow>
                (case (case c of Accepted a _ _ \<Rightarrow> Some a | _ \<Rightarrow> None) of
                   None \<Rightarrow> Inr ()
                 | Some a \<Rightarrow>
                     if date_before date_parse t a
                     then Inl (Conflict ''CONFLICT'' ''This commit was authored before the request was accepted.'')
                     else Inr ())))"

definition link_issue :: "(string \<Rightarrow> int option) \<Rightarrow> issue \<Rightarrow> link_input \<Rightarrow> string \<Rightarrow> string \<Rightarrow> transition" where
  "link_issue date_parse r l who now =
     (if issueLinkDefects date_parse l \<noteq> [] then Inl (BadRequest ''BAD_REQUEST'' ''link coordinates'')
      else bind_res (order_witness date_parse r l) (\<lambda>_.
        let i = normaliseIssueLinkId (li_type l) (li_id l) in
        if list_ex (\<lambda>x. sameIssueLink x (l\<lparr>li_id := i\<rparr>)) (is_links r)
        then Inl (Conflict ''CONFLICT'' (link_type_name (li_type l) @ '' '' @ i @ '' is already linked to this issue.''))
        else Inr (logged r who now HLinked
            (JObj ([(''type'', JStr (link_type_name (li_type l))), (''id'', JStr i)]
              @ opt_member ''version'' (li_version l) @ opt_member ''dataset'' (li_dataset l)
              @ opt_member ''repository'' (li_repository l)))
            (no_patch\<lparr>ip_links := Some (is_links r @
              [\<lparr>ln_type = li_type l, ln_id = i, ln_version = li_version l, ln_dataset = li_dataset l,
                ln_repository = li_repository l, ln_host = li_host l, ln_committedAt = li_committedAt l,
                ln_note = li_note l, ln_addedBy = who, ln_addedAt = now\<rparr>])\<rparr>),
          [\<lparr>if_kind = ''issue.linked'', if_subject = is_id r, if_actor = who,
            if_payload = JObj ([(''linkType'', JStr (link_type_name (li_type l))), (''linkId'', JStr i),
              (''identifier'', JStr (is_identifier r)), (''title'', JStr (is_title r))]
              @ opt_member ''version'' (li_version l))\<rparr>])))"

text \<open>The optional \<open>where\<close> is a pair of optional coordinates; omitting it is the pair of two absent ones.\<close>

definition link_matches :: "link_type \<Rightarrow> string \<Rightarrow> string option \<times> string option \<Rightarrow> issue_link \<Rightarrow> bool" where
  "link_matches ty wanted place x \<longleftrightarrow>
     ln_type x = ty \<and> normaliseIssueLinkId (ln_type x) (ln_id x) = wanted
     \<and> (fst place = None \<or> ln_dataset x = fst place) \<and> (snd place = None \<or> ln_repository x = snd place)"

definition unlink_issue ::
  "issue \<Rightarrow> link_type \<Rightarrow> string \<Rightarrow> string \<Rightarrow> string \<Rightarrow> string option \<times> string option \<Rightarrow> transition" where
  "unlink_issue r ty i who now place =
     (let wanted = normaliseIssueLinkId ty i;
          remaining = filter (\<lambda>x. \<not> link_matches ty wanted place x) (is_links r) in
      if length remaining = length (is_links r)
      then Inl (NotFound ''NOT_FOUND'' (link_type_name ty @ '' '' @ wanted @ '' is not linked to this issue.''))
      else Inr (logged r who now HUnlinked
          (JObj ([(''type'', JStr (link_type_name ty)), (''id'', JStr wanted)] @ opt_member ''repository'' (snd place)))
          (no_patch\<lparr>ip_links := Some remaining\<rparr>), []))"

subsection \<open>The GitHub copy\<close>

definition requireGithub :: "issue \<Rightarrow> gh_link res" where
  "requireGithub r =
     (case is_github r of
        None \<Rightarrow> Inl (BadRequest ''BAD_REQUEST'' ''This issue is not linked to a GitHub issue.'')
      | Some g \<Rightarrow> Inr g)"

definition touch_github :: "string \<Rightarrow> gh_link option \<Rightarrow> issue_patch" where
  "touch_github now g = no_patch\<lparr>ip_github := Some g, ip_updatedAt := Some now\<rparr>"

definition setGithubSync :: "issue \<Rightarrow> gh_sync \<Rightarrow> string \<Rightarrow> transition" where
  "setGithubSync r sync now =
     bind_res (requireGithub r) (\<lambda>g. Inr (touch_github now (Some (g\<lparr>gh_sync := sync\<rparr>)), []))"

definition gh_name :: "gh_link \<Rightarrow> string" where
  "gh_name g = gh_repository g @ ''#'' @ decimal (gh_number g)"

definition attachGithub :: "issue \<Rightarrow> gh_link \<Rightarrow> string \<Rightarrow> string \<Rightarrow> transition" where
  "attachGithub r g who now =
     (if is_github r \<noteq> None
      then Inl (Conflict ''CONFLICT'' ''This issue is already linked to a GitHub issue.'')
      else Inr (logged r who now HUpdated
          (JObj ([(''changed'', JArr [JStr ''github'']), (''attached'', JStr (gh_name g))] @ githubOrigin g))
          (touch_github now (Some g)), []))"

definition detachGithub :: "issue \<Rightarrow> string \<Rightarrow> string \<Rightarrow> transition" where
  "detachGithub r who now =
     bind_res (requireGithub r) (\<lambda>g. Inr (logged r who now HUpdated
       (JObj ([(''changed'', JArr [JStr ''github'']), (''detached'', JStr (gh_name g))] @ githubOrigin g))
       (touch_github now None), []))"

record gh_remote =
  gr_title :: string
  gr_description :: "string option"
  gr_labelIds :: "string list"
  gr_state :: string
  gr_url :: string
  gr_updatedAt :: string
  gr_comments :: "gh_comment list option"

definition ISSUE_GITHUB_COMMENT_LIMIT :: nat where
  "ISSUE_GITHUB_COMMENT_LIMIT = 50"

text \<open>The pull compares two label lists by \<open>labelIds.join(NUL)\<close>.\<close>

definition pull_changes :: "issue \<Rightarrow> gh_link \<Rightarrow> gh_remote \<Rightarrow> string list" where
  "pull_changes r g m =
     (if gr_title m \<noteq> is_title r then [''title''] else [])
     @ (if gr_description m \<noteq> is_description r then [''description''] else [])
     @ (if join_with (CHR 0x00) (gr_labelIds m) \<noteq> join_with (CHR 0x00) (is_labelIds r) then [''labels''] else [])
     @ (if gr_state m \<noteq> gh_state g then [''state''] else [])"

definition applyGithubPull :: "issue \<Rightarrow> gh_remote \<Rightarrow> string \<Rightarrow> string \<Rightarrow> transition" where
  "applyGithubPull r m who now =
     bind_res (requireGithub r) (\<lambda>g.
       Inr (logged r who now HGithub_pulled
         (JObj ([(''changed'', JArr (map JStr (pull_changes r g m))), (''remoteState'', JStr (gr_state m)),
                 (''remoteUpdatedAt'', JStr (gr_updatedAt m))]
                @ (if gr_comments m = None then [(''commentsUnavailable'', JBool True)] else [])))
         (no_patch\<lparr>ip_title := Some (gr_title m), ip_description := Some (gr_description m),
           ip_labelIds := Some (gr_labelIds m),
           ip_github := Some (Some (g\<lparr>gh_lastError := None, gh_url := gr_url m, gh_state := gr_state m,
             gh_syncedAt := Some (gr_updatedAt m),
             gh_comments := (case gr_comments m of
                 None \<Rightarrow> gh_comments g
               | Some cs \<Rightarrow> drop (length cs - ISSUE_GITHUB_COMMENT_LIMIT) cs)\<rparr>))\<rparr>), []))"

datatype push_outcome = Push_ok string | Push_failed string

definition recordGithubPush :: "issue \<Rightarrow> push_outcome \<Rightarrow> string \<Rightarrow> string \<Rightarrow> transition" where
  "recordGithubPush r outcome who now =
     bind_res (requireGithub r) (\<lambda>g.
       case outcome of
         Push_ok st \<Rightarrow>
           Inr (logged r who now HGithub_pushed (JObj [(''state'', JStr st)])
             (touch_github now (Some (g\<lparr>gh_lastError := None, gh_state := st\<rparr>))), [])
       | Push_failed msg \<Rightarrow>
           Inr (logged r who now HGithub_push_failed (JObj [(''message'', JStr msg)])
             (touch_github now (Some (g\<lparr>gh_lastError :=
               Some \<lparr>ge_at = now, ge_op = ''push'', ge_message = msg\<rparr>\<rparr>))), []))"

definition recordGithubPullFailure :: "issue \<Rightarrow> string \<Rightarrow> string \<Rightarrow> transition" where
  "recordGithubPullFailure r msg now =
     bind_res (requireGithub r) (\<lambda>g. Inr (touch_github now (Some (g\<lparr>gh_lastError :=
       Some \<lparr>ge_at = now, ge_op = ''pull'', ge_message = msg\<rparr>\<rparr>)), []))"

end
