(* ===== verification/IssueLaws.thy ===== *)
theory IssueLaws
  imports Issue "HOL-Library.Sublist"
begin

text \<open>
  What the transitions of an issue guarantee along any history of commands. \<open>chain_step\<close> is the automaton of the work
  chain, every command either leaves the chain alone or takes one of its steps; the rest are invariants of the record,
  each kept by every command.
\<close>

subsection \<open>Histories of commands\<close>

datatype issue_cmd =
    Edit issue_edit | Accept design | Reject string | Ship | Redraft
  | Set_status issue_status status_options | Resolve "string option" "string option" "status_cause option"
  | Reopen reopen_input | Link link_input | Unlink link_type string "string option \<times> string option"
  | Set_sync gh_sync | Attach gh_link | Detach | Pull gh_remote | Push push_outcome | Pull_failed string

text \<open>A command with who gave it and when.\<close>

type_synonym dated_cmd = "issue_cmd \<times> string \<times> string"

fun transition_by :: "(string \<Rightarrow> int option) \<Rightarrow> issue \<Rightarrow> dated_cmd \<Rightarrow> transition" where
  "transition_by dp r (Edit f, who, now) = update_issue r f who now"
| "transition_by dp r (Accept d, who, now) = accept_issue r d who now"
| "transition_by dp r (Reject why, who, now) = reject_issue r why who now"
| "transition_by dp r (Ship, who, now) = ship_issue r who now"
| "transition_by dp r (Redraft, who, now) = redraft_issue r who now"
| "transition_by dp r (Set_status to opts, who, now) = setStatus r to who now opts"
| "transition_by dp r (Resolve sc note cause, who, now) = resolve_issue r sc note who now cause"
| "transition_by dp r (Reopen inp, who, now) = reopen_issue r inp who now"
| "transition_by dp r (Link l, who, now) = link_issue dp r l who now"
| "transition_by dp r (Unlink ty i place, who, now) = unlink_issue r ty i who now place"
| "transition_by dp r (Set_sync sy, who, now) = setGithubSync r sy now"
| "transition_by dp r (Attach g, who, now) = attachGithub r g who now"
| "transition_by dp r (Detach, who, now) = detachGithub r who now"
| "transition_by dp r (Pull m, who, now) = applyGithubPull r m who now"
| "transition_by dp r (Push out, who, now) = recordGithubPush r out who now"
| "transition_by dp r (Pull_failed msg, who, now) = recordGithubPullFailure r msg now"

text \<open>A refused command leaves the record and the facts alone, an accepted one applies its patch and publishes its
  facts.\<close>

definition issue_exec ::
  "(string \<Rightarrow> int option) \<Rightarrow> dated_cmd \<Rightarrow> issue \<times> issue_fact list \<Rightarrow> issue \<times> issue_fact list" where
  "issue_exec dp c s =
     (case transition_by dp (fst s) c of
        Inl _ \<Rightarrow> s
      | Inr (p, fs) \<Rightarrow> (apply_patch p (fst s), snd s @ fs))"

definition issue_run ::
  "(string \<Rightarrow> int option) \<Rightarrow> dated_cmd list \<Rightarrow> issue \<times> issue_fact list \<Rightarrow> issue \<times> issue_fact list" where
  "issue_run dp cs = fold (issue_exec dp) cs"

abbreviation issue_after :: "(string \<Rightarrow> int option) \<Rightarrow> dated_cmd list \<Rightarrow> issue \<Rightarrow> issue" where
  "issue_after dp cs r \<equiv> fst (issue_run dp cs (r, []))"

lemma issue_run_append: "issue_run dp (cs @ ds) s = issue_run dp ds (issue_run dp cs s)"
  by (simp add: issue_run_def)

lemma issue_run_facts: "issue_run dp cs (r, fs) = (issue_after dp cs r, fs @ snd (issue_run dp cs (r, [])))"
proof (induction cs rule: rev_induct)
  case Nil
  show ?case by (simp add: issue_run_def)
next
  case (snoc c cs)
  then show ?case
    by (simp add: issue_run_append) (auto simp: issue_run_def issue_exec_def split: sum.splits)
qed

text \<open>An invariant kept by every transition holds after every history.\<close>

lemma issue_invariant:
  assumes step: "\<And>r c p fs. I r \<Longrightarrow> transition_by dp r c = Inr (p, fs) \<Longrightarrow> I (apply_patch p r)"
    and "I r"
  shows "I (issue_after dp cs r)"
proof (induction cs rule: rev_induct)
  case Nil
  show ?case using assms(2) by (simp add: issue_run_def)
next
  case (snoc c cs)
  then show ?case
    using step by (auto simp: issue_run_append issue_run_def issue_exec_def split: sum.splits)
qed

subsection \<open>What each command may change\<close>

lemmas transition_defs = update_issue_def accept_issue_def reject_issue_def ship_issue_def redraft_issue_def
  chainTransition_def setStatus_def resolve_issue_def reopen_issue_def statusTransition_def link_issue_def
  unlink_issue_def setGithubSync_def attachGithub_def detachGithub_def applyGithubPull_def recordGithubPush_def
  recordGithubPullFailure_def requireGithub_def logged_def touch_github_def

lemma no_patch_fields [simp]:
  "ip_title no_patch = None" "ip_description no_patch = None" "ip_status no_patch = None" "ip_chain no_patch = None"
  "ip_priority no_patch = None" "ip_estimate no_patch = None" "ip_dueDate no_patch = None"
  "ip_parentId no_patch = None" "ip_milestoneId no_patch = None" "ip_stateId no_patch = None"
  "ip_projectId no_patch = None" "ip_assignee no_patch = None" "ip_labelIds no_patch = None"
  "ip_links no_patch = None" "ip_resolution no_patch = None" "ip_github no_patch = None"
  "ip_history no_patch = None" "ip_updatedAt no_patch = None"
  by (simp_all add: no_patch_def)

lemma or_else_simps [simp]: "or_else d None = d" "or_else d (Some x) = x"
  "keep_some None v = v" "keep_some (Some x) v = Some x"
  by (simp_all add: or_else_def keep_some_def)

text \<open>Edits touch neither status nor chain nor links nor resolution nor the GitHub copy.\<close>

definition content_only :: "issue_patch \<Rightarrow> bool" where
  "content_only p \<longleftrightarrow> ip_status p = None \<and> ip_chain p = None \<and> ip_links p = None \<and> ip_resolution p = None
     \<and> ip_github p = None \<and> ip_history p = None \<and> ip_updatedAt p = None"

lemma content_only_edit_field:
  "content_only (fst st) \<Longrightarrow> (\<And>x p. content_only p \<Longrightarrow> content_only (put x p)) \<Longrightarrow>
   content_only (fst (edit_field new old name put st))"
  by (simp add: edit_field_def split: option.split)

lemma content_only_edit_labels: "content_only (fst st) \<Longrightarrow> content_only (fst (edit_labels f st))"
  by (simp add: edit_labels_def content_only_def split: option.split)

lemma content_only_edit_project: "content_only (fst st) \<Longrightarrow> content_only (fst (edit_project r f st))"
  by (simp add: edit_project_def content_only_def Let_def split: option.split)

lemma content_only_edit: "content_only (fst (edit_all r f))"
  unfolding edit_all_def Let_def
  by (intro content_only_edit_field content_only_edit_labels content_only_edit_project)
     (simp_all add: content_only_def)

lemma edit_patch:
  assumes "update_issue r f who now = Inr (p, fs)"
  obtains d q where "fs = []" "p = logged r who now HUpdated d q" "content_only q"
  using assms content_only_edit [of r f]
  by (auto simp: update_issue_def Let_def split: if_splits prod.splits)

lemma apply_patch_fields [simp]:
  "is_status (apply_patch p r) = or_else (is_status r) (ip_status p)"
  "is_chain (apply_patch p r) = keep_some (ip_chain p) (is_chain r)"
  "is_links (apply_patch p r) = or_else (is_links r) (ip_links p)"
  "is_resolution (apply_patch p r) = keep_some (ip_resolution p) (is_resolution r)"
  "is_history (apply_patch p r) = or_else (is_history r) (ip_history p)"
  "is_github (apply_patch p r) = or_else (is_github r) (ip_github p)"
  "is_id (apply_patch p r) = is_id r" "is_tenant (apply_patch p r) = is_tenant r"
  "is_title (apply_patch p r) = or_else (is_title r) (ip_title p)"
  "is_description (apply_patch p r) = or_else (is_description r) (ip_description p)"
  "is_labelIds (apply_patch p r) = or_else (is_labelIds r) (ip_labelIds p)"
  "is_updatedAt (apply_patch p r) = or_else (is_updatedAt r) (ip_updatedAt p)"
  "is_createdBy (apply_patch p r) = is_createdBy r" "is_createdAt (apply_patch p r) = is_createdAt r"
  "is_identifier (apply_patch p r) = is_identifier r" "is_number (apply_patch p r) = is_number r"
  "is_former (apply_patch p r) = is_former r" "is_origin (apply_patch p r) = is_origin r"
  by (simp_all add: apply_patch_def)

lemma logged_fields [simp]:
  "ip_status (logged r who now ev d p) = ip_status p" "ip_chain (logged r who now ev d p) = ip_chain p"
  "ip_links (logged r who now ev d p) = ip_links p" "ip_resolution (logged r who now ev d p) = ip_resolution p"
  "ip_github (logged r who now ev d p) = ip_github p"
  "ip_updatedAt (logged r who now ev d p) = Some now"
  "ip_history (logged r who now ev d p) = Some (appendHistory (is_history r)
     \<lparr>he_at = now, he_by = who, he_event = ev, he_detail = Some d\<rparr>)"
  by (simp_all add: logged_def)

subsection \<open>The work chain\<close>

inductive chain_step :: "chain option \<Rightarrow> chain option \<Rightarrow> bool" where
  accepting: "c = None \<or> c = Some Draft \<Longrightarrow> chain_step c (Some (Accepted t who d))"
| rejecting: "c = None \<or> c = Some Draft \<or> c = Some (Accepted t0 who0 d0) \<Longrightarrow> chain_step c (Some (Rejected t who why))"
| shipping: "chain_step (Some (Accepted t0 who0 d0)) (Some (Shipped t who))"
| redrafting: "c = Accepted t0 who0 d0 \<or> c = Rejected t0 who0 why0 \<Longrightarrow> chain_step (Some c) (Some Draft)"

declare chain_step.intros [intro]

inductive_cases shipped_from: "chain_step c (Some (Shipped t who))"
inductive_cases from_shipped: "chain_step (Some (Shipped t who)) c"

lemma chain_moves:
  assumes "transition_by dp r c = Inr (p, fs)"
  shows "ip_chain p = None \<or> chain_step (is_chain r) (ip_chain p)"
proof (cases c)
  case (fields cmd who now)
  show ?thesis
  proof (cases cmd)
    case (Edit f)
    then show ?thesis using assms fields by (auto elim!: edit_patch simp: content_only_def)
  next
    case (Push out)
    then show ?thesis using assms fields
      by (cases out) (auto simp: recordGithubPush_def touch_github_def)
  qed (use assms fields in \<open>auto simp: accept_issue_def reject_issue_def ship_issue_def redraft_issue_def
      chainTransition_def setStatus_def resolve_issue_def reopen_issue_def statusTransition_def link_issue_def
      unlink_issue_def setGithubSync_def attachGithub_def detachGithub_def applyGithubPull_def recordGithubPush_def
      recordGithubPullFailure_def touch_github_def Let_def split: if_splits option.splits chain.splits
      push_outcome.splits\<close>)
qed

text \<open>Where the chain of an issue may be is a question about its record alone, and every history walks the
  automaton.\<close>

lemma chain_walk: "chain_step\<^sup>*\<^sup>* (is_chain r) (is_chain (issue_after dp cs r))"
proof (induction cs rule: rev_induct)
  case Nil
  show ?case by (simp add: issue_run_def)
next
  case (snoc c cs)
  let ?r = "issue_after dp cs r"
  have "is_chain (issue_after dp (cs @ [c]) r) = is_chain ?r
      \<or> chain_step (is_chain ?r) (is_chain (issue_after dp (cs @ [c]) r))"
    using chain_moves [of dp ?r c]
    by (auto simp: issue_run_append issue_run_def issue_exec_def keep_some_def split: sum.splits option.splits)
  with snoc show ?case by (metis rtranclp.rtrancl_into_rtrancl)
qed

lemma chain_walk_from:
  "chain_step\<^sup>*\<^sup>* (is_chain (issue_after dp cs r)) (is_chain (issue_after dp (cs @ ds) r))"
  using chain_walk [of "issue_after dp cs r" dp ds] issue_run_facts [of dp ds]
  by (metis fst_conv issue_run_append surjective_pairing)

lemma shipped_stays: "chain_step\<^sup>*\<^sup>* a b \<Longrightarrow> a = Some (Shipped t who) \<Longrightarrow> b = a"
  by (induction rule: rtranclp_induct) (auto elim: from_shipped)

lemma shipped_through_acceptance:
  assumes "is_chain r \<noteq> Some (Shipped t who)" "is_chain (issue_after dp cs r) = Some (Shipped t who)"
  shows "\<exists>k < length cs. \<exists>a w d. is_chain (issue_after dp (take k cs) r) = Some (Accepted a w d)"
  using assms
proof (induction cs rule: rev_induct)
  case Nil
  then show ?case by (simp add: issue_run_def)
next
  case (snoc c cs)
  let ?r = "issue_after dp cs r"
  show ?case
  proof (cases "is_chain ?r = Some (Shipped t who)")
    case True
    then obtain k where "k < length cs" "\<exists>a w d. is_chain (issue_after dp (take k cs) r) = Some (Accepted a w d)"
      using snoc by blast
    then show ?thesis by (intro exI [of _ k]) simp
  next
    case False
    have "chain_step (is_chain ?r) (Some (Shipped t who))"
      using False snoc.prems(2) chain_moves [of dp ?r c]
      by (auto simp: issue_run_append issue_run_def issue_exec_def keep_some_def split: sum.splits option.splits)
    then show ?thesis by (intro exI [of _ "length cs"]) (auto elim: shipped_from)
  qed
qed

subsection \<open>Resolutions\<close>

definition resolved_ok :: "issue \<Rightarrow> bool" where
  "resolved_ok r \<longleftrightarrow>
     (case is_status r of IDone \<Rightarrow> is_resolution r \<noteq> None | Regressed \<Rightarrow> is_resolution r \<noteq> None | _ \<Rightarrow> True)"

lemma resolution_kept:
  assumes "transition_by dp r c = Inr (p, fs)"
  shows "(ip_status p = None
      \<or> (\<exists>to. ip_status p = Some to \<and> to \<noteq> IDone \<and> (to \<noteq> Regressed \<or> is_status r = IDone))
      \<or> ip_status p = Some IDone \<and> ip_resolution p \<noteq> None)"
proof (cases c)
  case (fields cmd who now)
  show ?thesis
  proof (cases cmd)
    case (Edit f)
    then show ?thesis using assms fields by (auto elim!: edit_patch simp: content_only_def)
  next
    case (Push out)
    then show ?thesis using assms fields
      by (cases out) (auto simp: recordGithubPush_def touch_github_def)
  qed (use assms fields in \<open>auto simp: accept_issue_def reject_issue_def ship_issue_def redraft_issue_def
      chainTransition_def setStatus_def resolve_issue_def reopen_issue_def statusTransition_def link_issue_def
      unlink_issue_def setGithubSync_def attachGithub_def detachGithub_def applyGithubPull_def
      recordGithubPullFailure_def touch_github_def Let_def isOpenIssueStatus_def split: if_splits option.splits
      chain.splits\<close>)
qed

lemma resolved_ok_step:
  assumes "resolved_ok r" "transition_by dp r c = Inr (p, fs)"
  shows "resolved_ok (apply_patch p r)"
  using resolution_kept [OF assms(2)] assms(1)
  by (auto simp: resolved_ok_def or_else_def keep_some_def split: issue_status.splits option.splits)

subsection \<open>Facts\<close>

definition payload_field :: "string \<Rightarrow> json \<Rightarrow> json option" where
  "payload_field k j = (case j of JObj kvs \<Rightarrow> map_of kvs k | _ \<Rightarrow> None)"

definition status_facts :: "issue_fact list \<Rightarrow> issue_fact list" where
  "status_facts = filter (\<lambda>f. if_kind f = ''issue.status_changed'')"

text \<open>The status a reader arrives at who starts from \<open>s\<close> and follows the moves in the facts, \<open>None\<close> when a fact
  does not start where the one before it ended.\<close>

fun told_status :: "json \<Rightarrow> issue_fact list \<Rightarrow> json option" where
  "told_status s [] = Some s"
| "told_status s (f # fs) =
     (if payload_field ''from'' (if_payload f) = Some s
      then (case payload_field ''to'' (if_payload f) of None \<Rightarrow> None | Some x \<Rightarrow> told_status x fs)
      else None)"

lemma told_status_append: "told_status s (fs @ gs) = Option.bind (told_status s fs) (\<lambda>x. told_status x gs)"
  by (induction s fs rule: told_status.induct) (auto split: option.splits)

abbreviation status_json :: "issue \<Rightarrow> json" where
  "status_json r \<equiv> JStr (status_name (is_status r))"

lemma told_transition:
  "told_status (status_json r) (status_facts (snd (statusTransition r to who now opts ev))) = Some (JStr (status_name to))"
  by (simp add: statusTransition_def status_facts_def payload_field_def Let_def)

lemma told_by:
  assumes "transition_by dp r c = Inr (p, fs)"
  shows "told_status (status_json r) (status_facts fs) = Some (status_json (apply_patch p r))"
proof (cases c)
  case (fields cmd who now)
  show ?thesis
  proof (cases cmd)
    case (Edit f)
    then show ?thesis using assms fields by (auto elim!: edit_patch simp: content_only_def status_facts_def)
  next
    case (Push out)
    then show ?thesis using assms fields
      by (cases out) (auto simp: recordGithubPush_def touch_github_def status_facts_def)
  qed (use assms fields in \<open>auto simp: accept_issue_def reject_issue_def ship_issue_def redraft_issue_def
      chainTransition_def setStatus_def resolve_issue_def reopen_issue_def statusTransition_def link_issue_def
      unlink_issue_def setGithubSync_def attachGithub_def detachGithub_def applyGithubPull_def
      recordGithubPullFailure_def touch_github_def Let_def status_facts_def payload_field_def
      split: if_splits option.splits chain.splits\<close>)
qed

lemma told_history:
  "told_status (status_json r) (status_facts (snd (issue_run dp cs (r, [])))) = Some (status_json (issue_after dp cs r))"
proof (induction cs rule: rev_induct)
  case Nil
  show ?case by (simp add: issue_run_def status_facts_def)
next
  case (snoc c cs)
  obtain r' fs where r': "issue_run dp cs (r, []) = (r', fs)" by force
  have sf: "status_facts (fs @ gs) = status_facts fs @ status_facts gs" for gs by (simp add: status_facts_def)
  show ?case
    using snoc told_by [of dp r' c] r'
    by (auto simp: issue_run_append issue_run_def issue_exec_def sf told_status_append split: sum.splits)
qed

subsection \<open>History\<close>

lemma appendHistory_suffix: "\<exists>k. appendHistory h e = drop k (h @ [e])"
  unfolding appendHistory_def Let_def by (metis drop0)

lemma appendHistory_bound: "length h \<le> TRACKER_HISTORY_LIMIT \<Longrightarrow> length (appendHistory h e) \<le> TRACKER_HISTORY_LIMIT"
  by (simp add: appendHistory_def Let_def TRACKER_HISTORY_LIMIT_def)

lemma history_patch:
  assumes "transition_by dp r c = Inr (p, fs)"
  shows "ip_history p = None \<or> (\<exists>e. ip_history p = Some (appendHistory (is_history r) e) \<and> he_at e = snd (snd c))"
proof (cases c)
  case (fields cmd who now)
  show ?thesis
  proof (cases cmd)
    case (Edit f)
    then show ?thesis using assms fields by (auto elim!: edit_patch)
  next
    case (Push out)
    then show ?thesis using assms fields
      by (cases out) (auto simp: recordGithubPush_def)
  qed (use assms fields in \<open>auto simp: accept_issue_def reject_issue_def ship_issue_def redraft_issue_def
      chainTransition_def setStatus_def resolve_issue_def reopen_issue_def statusTransition_def link_issue_def
      unlink_issue_def setGithubSync_def attachGithub_def detachGithub_def applyGithubPull_def
      recordGithubPullFailure_def touch_github_def Let_def
      split: if_splits option.splits chain.splits\<close>)
qed

lemma history_bounded:
  assumes "length (is_history r) \<le> TRACKER_HISTORY_LIMIT"
  shows "length (is_history (issue_after dp cs r)) \<le> TRACKER_HISTORY_LIMIT"
proof (rule issue_invariant [of "\<lambda>r. length (is_history r) \<le> TRACKER_HISTORY_LIMIT"])
  fix r :: issue and c p fs
  assume "length (is_history r) \<le> TRACKER_HISTORY_LIMIT" "transition_by dp r c = Inr (p, fs)"
  then show "length (is_history (apply_patch p r)) \<le> TRACKER_HISTORY_LIMIT"
    using history_patch appendHistory_bound by (fastforce simp: or_else_def split: option.splits)
qed fact

lemma drop_drop_snoc: "drop j (drop k xs @ [e]) = drop (j + min k (length xs)) (xs @ [e])"
  by (cases "k \<le> length xs") (simp_all add: drop_append add.commute min_def)

text \<open>Nothing but the oldest entries is ever lost.\<close>

lemma history_tail: "\<exists>k new. is_history (issue_after dp cs r) = drop k (is_history r @ new)"
proof (induction cs rule: rev_induct)
  case Nil
  show ?case by (auto simp: issue_run_def intro: exI [of _ 0])
next
  case (snoc c cs)
  let ?r = "issue_after dp cs r"
  obtain k new where IH: "is_history ?r = drop k (is_history r @ new)" using snoc by blast
  show ?case
  proof (cases "transition_by dp ?r c")
    case (Inl e)
    then show ?thesis using IH by (auto simp: issue_run_append issue_run_def issue_exec_def)
  next
    case (Inr pf)
    obtain p fs where "pf = (p, fs)" by force
    then have tr: "transition_by dp ?r c = Inr (p, fs)" using Inr by simp
    then have after: "is_history (issue_after dp (cs @ [c]) r) = or_else (is_history ?r) (ip_history p)"
      by (simp add: issue_run_append issue_run_def issue_exec_def)
    consider "ip_history p = None" | e where "ip_history p = Some (appendHistory (is_history ?r) e)"
      using history_patch [OF tr] by auto
    then show ?thesis
    proof cases
      case 1
      then show ?thesis using IH after by auto
    next
      case 2
      obtain j where "appendHistory (is_history ?r) e = drop j (is_history ?r @ [e])"
        using appendHistory_suffix by blast
      then have "is_history (issue_after dp (cs @ [c]) r) = drop j (drop k (is_history r @ new) @ [e])"
        using 2 after IH by simp
      also have "\<dots> = drop (j + min k (length (is_history r @ new))) (is_history r @ new @ [e])"
        using drop_drop_snoc [of j k "is_history r @ new" e] by simp
      finally show ?thesis by blast
    qed
  qed
qed

subsection \<open>Links\<close>

text \<open>The identity of a link, by which duplicates are refused.\<close>

definition link_key :: "issue_link \<Rightarrow> link_type \<times> string \<times> string option \<times> string option" where
  "link_key x = (ln_type x, normaliseIssueLinkId (ln_type x) (ln_id x), ln_dataset x, ln_repository x)"

definition links_ok :: "issue \<Rightarrow> bool" where
  "links_ok r \<longleftrightarrow> distinct (map link_key (is_links r))"

lemma link_patch:
  assumes "link_issue dp r l who now = Inr (p, fs)"
  obtains x where "ip_links p = Some (is_links r @ [x])" "link_key x \<notin> set (map link_key (is_links r))"
    "ln_type x = li_type l" "ln_committedAt x = li_committedAt l" "ip_chain p = None"
    "issueLinkDefects dp l = []" "order_witness dp r l = Inr ()"
  using assms
  by (force simp: link_issue_def Let_def list_ex_iff sameIssueLink_def link_key_def split: if_splits)

lemma unlink_patch:
  assumes "unlink_issue r ty i who now place = Inr (p, fs)"
  shows "ip_links p = Some (filter (\<lambda>x. \<not> link_matches ty (normaliseIssueLinkId ty i) place x) (is_links r))"
  using assms by (auto simp: unlink_issue_def Let_def split: if_splits)

text \<open>Only the two link commands touch the links.\<close>

lemma links_framed:
  assumes "transition_by dp r (cmd, who, now) = Inr (p, fs)"
  shows "ip_links p = None \<or> (\<exists>l. cmd = Link l) \<or> (\<exists>ty i place. cmd = Unlink ty i place)"
proof (cases cmd)
  case (Edit f)
  then show ?thesis using assms by (auto elim!: edit_patch simp: content_only_def)
next
  case (Push out)
  then show ?thesis using assms by (cases out) (auto simp: recordGithubPush_def touch_github_def)
qed (use assms in \<open>auto simp: accept_issue_def reject_issue_def ship_issue_def redraft_issue_def
    chainTransition_def setStatus_def resolve_issue_def reopen_issue_def statusTransition_def
    setGithubSync_def attachGithub_def detachGithub_def applyGithubPull_def recordGithubPullFailure_def
    touch_github_def Let_def split: if_splits option.splits chain.splits\<close>)

lemma new_links:
  assumes "transition_by dp r c = Inr (p, fs)" "x \<in> set (is_links (apply_patch p r))" "x \<notin> set (is_links r)"
  obtains l who now where "c = (Link l, who, now)" "ln_type x = li_type l" "ln_committedAt x = li_committedAt l"
    "issueLinkDefects dp l = []" "order_witness dp r l = Inr ()"
proof (cases c)
  case (fields cmd who now)
  have step: "transition_by dp r (cmd, who, now) = Inr (p, fs)" using assms(1) fields by simp
  consider "ip_links p = None" | l where "cmd = Link l" | ty i place where "cmd = Unlink ty i place"
    using links_framed [OF step] by auto
  then show ?thesis
  proof cases
    case 1
    then show ?thesis using assms(2,3) by simp
  next
    case (2 l)
    then have "link_issue dp r l who now = Inr (p, fs)" using step by simp
    then show ?thesis
      by (rule link_patch) (use assms(2,3) 2 fields that [of l who now] in auto)
  next
    case (3 ty i place)
    then have "unlink_issue r ty i who now place = Inr (p, fs)" using step by simp
    then show ?thesis using unlink_patch assms(2,3) by fastforce
  qed
qed

lemma links_ok_step:
  assumes "links_ok r" "transition_by dp r c = Inr (p, fs)"
  shows "links_ok (apply_patch p r)"
proof (cases c)
  case (fields cmd who now)
  have step: "transition_by dp r (cmd, who, now) = Inr (p, fs)" using assms(2) fields by simp
  consider "ip_links p = None" | l where "cmd = Link l" | ty i place where "cmd = Unlink ty i place"
    using links_framed [OF step] by auto
  then show ?thesis
  proof cases
    case 1
    then show ?thesis using assms(1) by (simp add: links_ok_def)
  next
    case (2 l)
    then have "link_issue dp r l who now = Inr (p, fs)" using step by simp
    then show ?thesis by (rule link_patch) (use assms(1) in \<open>simp add: links_ok_def\<close>)
  next
    case (3 ty i place)
    then have "unlink_issue r ty i who now place = Inr (p, fs)" using step by simp
    then show ?thesis using unlink_patch assms(1) by (fastforce simp: links_ok_def distinct_map_filter)
  qed
qed

subsection \<open>The order witness\<close>

text \<open>What stands behind a commit link: an acceptance it does not predate, or a request that had shipped.\<close>

definition witnessed :: "(string \<Rightarrow> int option) \<Rightarrow> chain option \<Rightarrow> issue_link \<Rightarrow> bool" where
  "witnessed dp c x \<longleftrightarrow>
     (case ln_committedAt x of None \<Rightarrow> False
      | Some t \<Rightarrow>
          (case c of
             Some (Accepted a _ _) \<Rightarrow> \<not> date_before dp t a
           | Some (Shipped _ _) \<Rightarrow> True
           | _ \<Rightarrow> False))"

lemma witnessed_when_linked:
  assumes "order_witness dp r l = Inr ()" "li_type l = LCommit" "is_chain r = Some c"
    "ln_committedAt x = li_committedAt l"
  shows "witnessed dp (is_chain r) x"
  using assms by (auto simp: order_witness_def witnessed_def split: chain.splits option.splits if_splits)

lemma chained_stays: "is_chain r \<noteq> None \<Longrightarrow> is_chain (issue_after dp cs r) \<noteq> None"
proof -
  have "chain_step\<^sup>*\<^sup>* a b \<Longrightarrow> a \<noteq> None \<Longrightarrow> b \<noteq> None" for a b
    by (induction rule: rtranclp_induct) (auto elim: chain_step.cases)
  then show "is_chain r \<noteq> None \<Longrightarrow> is_chain (issue_after dp cs r) \<noteq> None" using chain_walk by blast
qed

lemma commit_links_witnessed_raw:
  assumes "is_chain r \<noteq> None" "x \<in> set (is_links (issue_after dp cs r))" "ln_type x = LCommit"
  shows "x \<in> set (is_links r) \<or> (\<exists>k < length cs. witnessed dp (is_chain (issue_after dp (take k cs) r)) x)"
  using assms(2)
proof (induction cs rule: rev_induct)
  case Nil
  then show ?case by (simp add: issue_run_def)
next
  case (snoc c cs)
  let ?r = "issue_after dp cs r"
  show ?case
  proof (cases "x \<in> set (is_links ?r)")
    case True
    then obtain "x \<in> set (is_links r) \<or> (\<exists>k < length cs. witnessed dp (is_chain (issue_after dp (take k cs) r)) x)"
      using snoc.IH by blast
    then show ?thesis
    proof
      assume "\<exists>k < length cs. witnessed dp (is_chain (issue_after dp (take k cs) r)) x"
      then obtain k where "k < length cs" "witnessed dp (is_chain (issue_after dp (take k cs) r)) x" by blast
      then show ?thesis by (intro disjI2 exI [of _ k]) simp
    qed simp
  next
    case False
    then obtain p fs where step: "transition_by dp ?r c = Inr (p, fs)" "x \<in> set (is_links (apply_patch p ?r))"
      using snoc.prems by (auto simp: issue_run_append issue_run_def issue_exec_def split: sum.splits)
    obtain ch where "is_chain ?r = Some ch" using chained_stays [OF assms(1)] by blast
    moreover obtain l who now where "c = (Link l, who, now)" "ln_type x = li_type l"
      "ln_committedAt x = li_committedAt l" "order_witness dp ?r l = Inr ()"
      using new_links [OF step False] by metis
    ultimately have "witnessed dp (is_chain ?r) x" using witnessed_when_linked assms(3) by metis
    then show ?thesis by (intro disjI2 exI [of _ "length cs"]) simp
  qed
qed

subsection \<open>The guarantees\<close>

text \<open>A new issue of a member, on which the examples below work, and the commands that take it through the chain.\<close>

definition plain_issue :: "link_input list \<Rightarrow> issue" where
  "plain_issue ls =
     newIssue \<lparr>ni_id = ''i1'', ni_tenant = ''acme'', ni_number = 1, ni_identifier = ''EVD-1'', ni_title = ''login fails'',
       ni_description = None, ni_status = None, ni_priority = None, ni_estimate = None, ni_dueDate = None,
       ni_parentId = None, ni_milestoneId = None, ni_stateId = None, ni_projectId = None, ni_assignee = None,
       ni_labelIds = None, ni_links = Some ls, ni_resolution = None, ni_github = None, ni_createdBy = ''ann'',
       ni_origin = None, ni_now = ''d0''\<rparr>"

definition bare_link :: "link_type \<Rightarrow> string \<Rightarrow> link_input" where
  "bare_link ty i =
     \<lparr>li_type = ty, li_id = i, li_version = None, li_dataset = None, li_repository = None, li_host = None,
      li_committedAt = None, li_note = None\<rparr>"

definition commit_at :: "string \<Rightarrow> link_input" where
  "commit_at t = (bare_link LCommit ''0123abc'')\<lparr>li_repository := Some ''acme/app'', li_committedAt := Some t\<rparr>"

text \<open>The second character of a date is its day.\<close>

definition day_number :: "string \<Rightarrow> int option" where
  "day_number s = (case s of [_, c] \<Rightarrow> Some (of_char c) | _ \<Rightarrow> None)"

text \<open>C22. A request ships only through an acceptance, and stays shipped with the date and the member of that moment.\<close>

theorem shipped_is_earned:
  assumes "is_chain r = None" "is_chain (issue_after dp cs r) = Some (Shipped t who)"
  shows "(\<exists>k < length cs. \<exists>a w d. is_chain (issue_after dp (take k cs) r) = Some (Accepted a w d))
    \<and> is_chain (issue_after dp (cs @ later) r) = Some (Shipped t who)"
  using shipped_through_acceptance [of r t who dp cs] shipped_stays [OF chain_walk_from [of dp cs r later] assms(2)]
    assms by simp

lemma shipped_is_earned_witness:
  "is_chain (issue_after day_number ([(Accept (Spec_design ''spec.md''), ''ann'', ''d1''), (Ship, ''bob'', ''d2'')]
     @ [(Reject ''no'', ''eve'', ''d3''), (Redraft, ''eve'', ''d4'')]) (plain_issue []))
   = Some (Shipped ''d2'' ''bob'')"
  by (rule shipped_is_earned [THEN conjunct2]) code_simp+

text \<open>A closed issue says what closed it: an issue that was neither done nor regressed when its history began has
  a resolution whenever it is.\<close>

theorem closed_issue_has_resolution:
  assumes "is_status r \<noteq> IDone" "is_status r \<noteq> Regressed"
    and "is_status (issue_after dp cs r) = IDone \<or> is_status (issue_after dp cs r) = Regressed"
  shows "\<exists>rs. is_resolution (issue_after dp cs r) = Some rs"
proof -
  have "resolved_ok (issue_after dp cs r)"
    using resolved_ok_step assms(1,2)
    by (intro issue_invariant [of resolved_ok]) (auto simp: resolved_ok_def split: issue_status.split)
  then show ?thesis using assms(3) by (auto simp: resolved_ok_def)
qed

definition regression :: "dated_cmd list" where
  "regression =
     [(Resolve (Some ''sc1'') None None, ''ann'', ''d1''),
      (Reopen \<lparr>ro_to = Some Regressed, ro_cause = Regression, ro_scorecardId = Some ''sc2'', ro_note = None\<rparr>,
       ''watch'', ''d2'')]"

lemma closed_issue_has_resolution_witness:
  "\<exists>rs. is_resolution (issue_after day_number regression (plain_issue [])) = Some rs"
  by (rule closed_issue_has_resolution) code_simp+

text \<open>C36. The order witness: on a request in the chain every commit link made from then on carries an author date that
  does not lie before an acceptance the request had at that moment, unless the request had already shipped.\<close>

theorem commit_links_witnessed:
  assumes "is_chain r \<noteq> None" "x \<in> set (is_links (issue_after dp cs r))" "ln_type x = LCommit"
  shows "x \<in> set (is_links r) \<or> (\<exists>k < length cs. witnessed dp (is_chain (issue_after dp (take k cs) r)) x)"
  by (rule commit_links_witnessed_raw [OF assms])

definition accepted_issue :: issue where
  "accepted_issue = issue_after day_number [(Accept (Declined_design ''one line''), ''ann'', ''d5'')] (plain_issue [])"

lemma commit_links_witnessed_witness:
  "let x = last (is_links (issue_after day_number [(Link (commit_at ''d6''), ''bob'', ''d7'')] accepted_issue)) in
     x \<in> set (is_links accepted_issue)
     \<or> (\<exists>k < length [(Link (commit_at ''d6''), ''bob'', ''d7'')].
          witnessed day_number (is_chain (issue_after day_number
            (take k [(Link (commit_at ''d6''), ''bob'', ''d7'')]) accepted_issue)) x)"
  unfolding Let_def by (rule commit_links_witnessed) code_simp+

text \<open>Shipping lifts the order witness. The acceptance that led to a shipped request is not compared with, so a
  commit that the accepted request refuses, because it was authored before the acceptance, is linked once the
  request has shipped.\<close>

theorem shipping_lifts_order_witness:
  "(case transition_by day_number accepted_issue (Link (commit_at ''d3''), ''bob'', ''d7'') of
      Inl (Conflict _ _) \<Rightarrow> True | _ \<Rightarrow> False)
   \<and> (case is_links (issue_after day_number
        [(Ship, ''bob'', ''d6''), (Link (commit_at ''d3''), ''bob'', ''d7'')] accepted_issue) of
      [x] \<Rightarrow> ln_committedAt x = Some ''d3'' | _ \<Rightarrow> False)
   \<and> day_number ''d3'' = Some 51 \<and> day_number ''d5'' = Some 53"
  by code_simp

definition case_link :: link_input where
  "case_link = (bare_link LCase ''c1'')\<lparr>li_dataset := Some ''ds'', li_version := Some ''1.0.0''\<rparr>"

text \<open>Links handed in at creation skip the coordinates rule and lose their second coordinate: a well-formed link to
  a case is stored without the dataset it names, as a link the rule refuses everywhere else.\<close>

theorem filed_case_link_loses_dataset:
  "issueLinkDefects day_number case_link = []
   \<and> map ln_dataset (is_links (plain_issue [case_link])) = [None]
   \<and> map ln_dataset (is_links (issue_after day_number [(Link case_link, ''ann'', ''d1'')] (plain_issue [])))
      = [Some ''ds'']
   \<and> issueLinkDefects day_number (case_link\<lparr>li_dataset := None\<rparr>) = [Case_needs_dataset]"
  by code_simp

text \<open>C37. The status facts tell the whole story: whoever starts from the status an issue had and follows the published
  moves finds each one starting where the last one ended, and arrives at the status the issue has.\<close>

theorem status_facts_replay:
  "told_status (status_json r) (status_facts (snd (issue_run dp cs (r, [])))) = Some (status_json (issue_after dp cs r))"
  by (rule told_history)

text \<open>The history of an issue only grows at its end and only loses its oldest entries, beyond two hundred.\<close>

theorem issue_history_kept:
  assumes "length (is_history r) \<le> TRACKER_HISTORY_LIMIT"
  shows "length (is_history (issue_after dp cs r)) \<le> TRACKER_HISTORY_LIMIT
    \<and> (\<exists>k new. is_history (issue_after dp cs r) = drop k (is_history r @ new))"
  using history_bounded [OF assms] history_tail by blast

lemma issue_history_kept_witness:
  "length (is_history (issue_after day_number regression (plain_issue []))) \<le> TRACKER_HISTORY_LIMIT"
  by (rule issue_history_kept [THEN conjunct1]) code_simp

text \<open>No link is there twice: whatever is linked and unlinked, the links of an issue stay pairwise different in
  type, normalised id, dataset and repository.\<close>

theorem links_pairwise_different:
  assumes "distinct (map link_key (is_links r))"
  shows "distinct (map link_key (is_links (issue_after dp cs r)))"
  using issue_invariant [of links_ok dp r cs] links_ok_step assms by (simp add: links_ok_def)

lemma links_pairwise_different_witness:
  "distinct (map link_key (is_links (issue_after day_number
     [(Link (commit_at ''d3''), ''bob'', ''d7''), (Link (commit_at ''d4''), ''bob'', ''d8'')] (plain_issue []))))"
  by (rule links_pairwise_different) code_simp

text \<open>A pull converges: after one the record says what GitHub said, the failure before it is gone, a thread that
  could not be read is the stored one, and the same reading again finds nothing to change.\<close>

theorem pull_converges:
  assumes "applyGithubPull r m who now = Inr (p, fs)" "is_github r = Some g"
  shows "fs = [] \<and> is_title (apply_patch p r) = gr_title m \<and> is_description (apply_patch p r) = gr_description m
    \<and> is_labelIds (apply_patch p r) = gr_labelIds m
    \<and> (case is_github (apply_patch p r) of None \<Rightarrow> False
       | Some g' \<Rightarrow> pull_changes (apply_patch p r) g' m = [] \<and> gh_lastError g' = None
           \<and> gh_syncedAt g' = Some (gr_updatedAt m) \<and> gh_sync g' = gh_sync g
           \<and> (case gr_comments m of None \<Rightarrow> gh_comments g' = gh_comments g
              | Some cs \<Rightarrow> suffix (gh_comments g') cs \<and> length (gh_comments g') \<le> 50))"
proof -
  let ?g = "g\<lparr>gh_lastError := None, gh_url := gr_url m, gh_state := gr_state m, gh_syncedAt := Some (gr_updatedAt m),
    gh_comments := (case gr_comments m of None \<Rightarrow> gh_comments g
      | Some cs \<Rightarrow> drop (length cs - ISSUE_GITHUB_COMMENT_LIMIT) cs)\<rparr>"
  have "fs = []" "ip_title p = Some (gr_title m)" "ip_description p = Some (gr_description m)"
    "ip_labelIds p = Some (gr_labelIds m)" "ip_github p = Some (Some ?g)"
    using assms by (auto simp: applyGithubPull_def requireGithub_def logged_def)
  then show ?thesis
    by (cases "gr_comments m") (simp_all add: pull_changes_def suffix_drop ISSUE_GITHUB_COMMENT_LIMIT_def)
qed

definition linked_issue :: issue where
  "linked_issue = (plain_issue [])\<lparr>is_github := Some \<lparr>gh_host = None, gh_repository = ''acme/app'', gh_number = 42,
     gh_url = ''u'', gh_state = ''open'', gh_syncedAt = None, gh_sync = \<lparr>gs_pull = True, gs_push = False\<rparr>,
     gh_comments = [], gh_lastError = None\<rparr>\<rparr>"

definition a_reading :: gh_remote where
  "a_reading = \<lparr>gr_title = ''login fails on Safari'', gr_description = None, gr_labelIds = [''bug''],
     gr_state = ''closed'', gr_url = ''u'', gr_updatedAt = ''d8'', gr_comments = None\<rparr>"

lemma pull_converges_witness:
  "is_title (apply_patch (fst (projr (applyGithubPull linked_issue a_reading ''bob'' ''d9''))) linked_issue)
   = ''login fails on Safari''"
proof -
  have "applyGithubPull linked_issue a_reading ''bob'' ''d9'' =
      Inr (fst (projr (applyGithubPull linked_issue a_reading ''bob'' ''d9'')),
           snd (projr (applyGithubPull linked_issue a_reading ''bob'' ''d9'')))"
    by (simp add: applyGithubPull_def requireGithub_def linked_issue_def)
  from pull_converges [OF this, of "the (is_github linked_issue)"] show ?thesis
    by (simp add: a_reading_def linked_issue_def)
qed

end
