(* ===== verification/IssueStore.thy ===== *)
theory IssueStore
  imports Issue "HOL-Library.AList"
begin

text \<open>
  Lists of issues: the projection, grouping and ordering of packages/domain/src/tracker/issue.ts, and the in-memory
  store of packages/db/src/tracker/issue-store.ts with its filters and page cursors.

  The rows are a \<open>Map\<close> from ids in insertion order, an association list. The base64url envelope of a cursor is a
  pair of parameters, from the text of the token to what the client holds and back. \<open>localeCompare\<close> orders group keys
  and is a parameter too. A page limit is a rational number; an infinite one counts as absent.
\<close>

subsection \<open>The list projection\<close>

record summary_github =
  sg_host :: "string option"
  sg_repository :: string
  sg_pull :: bool

record issue_summary =
  sm_id :: string
  sm_tenant :: string
  sm_number :: nat
  sm_identifier :: string
  sm_title :: string
  sm_status :: issue_status
  sm_priority :: issue_priority
  sm_estimate :: "nat option"
  sm_dueDate :: "string option"
  sm_parentId :: "string option"
  sm_milestoneId :: "string option"
  sm_stateId :: "string option"
  sm_projectId :: "string option"
  sm_assignee :: "string option"
  sm_labelIds :: "string list"
  sm_linkCount :: nat
  sm_resolution :: "resolution option"
  sm_github :: "summary_github option"
  sm_createdBy :: string
  sm_createdAt :: string
  sm_updatedAt :: string

definition issueSummaryOf :: "issue \<Rightarrow> issue_summary" where
  "issueSummaryOf r =
     \<lparr>sm_id = is_id r, sm_tenant = is_tenant r, sm_number = is_number r, sm_identifier = is_identifier r,
      sm_title = is_title r, sm_status = is_status r, sm_priority = is_priority r, sm_estimate = is_estimate r,
      sm_dueDate = is_dueDate r, sm_parentId = is_parentId r, sm_milestoneId = is_milestoneId r,
      sm_stateId = is_stateId r, sm_projectId = is_projectId r, sm_assignee = is_assignee r,
      sm_labelIds = is_labelIds r, sm_linkCount = length (is_links r), sm_resolution = is_resolution r,
      sm_github = map_option (\<lambda>g. \<lparr>sg_host = gh_host g, sg_repository = gh_repository g, sg_pull = gs_pull (gh_sync g)\<rparr>)
        (is_github r),
      sm_createdBy = is_createdBy r, sm_createdAt = is_createdAt r, sm_updatedAt = is_updatedAt r\<rparr>"

subsection \<open>Groups\<close>

datatype issue_group_by = By_status | By_priority | By_assignee | By_project | By_chain

fun issueGroupKey :: "issue \<Rightarrow> issue_group_by \<Rightarrow> string option" where
  "issueGroupKey r By_status = Some (status_name (is_status r))"
| "issueGroupKey r By_priority = Some (priority_name (is_priority r))"
| "issueGroupKey r By_assignee = is_assignee r"
| "issueGroupKey r By_project = is_projectId r"
| "issueGroupKey r By_chain = map_option chain_name (is_chain r)"

type_synonym group_count = "string option \<times> nat"

definition group_cmp :: "string compare \<Rightarrow> group_count compare" where
  "group_cmp locale_cmp a b =
     (case (fst a, fst b) of
        (None, None) \<Rightarrow> 0
      | (None, Some _) \<Rightarrow> 1
      | (Some _, None) \<Rightarrow> - 1
      | (Some x, Some y) \<Rightarrow> (if snd b \<noteq> snd a then int (snd b) - int (snd a) else locale_cmp x y))"

definition orderIssueGroupCounts :: "string compare \<Rightarrow> group_count list \<Rightarrow> group_count list" where
  "orderIssueGroupCounts locale_cmp cs = sort_by (group_cmp locale_cmp) cs"

definition bump_group :: "issue_group_by \<Rightarrow> issue \<Rightarrow> group_count list \<Rightarrow> group_count list" where
  "bump_group g r cs =
     (let k = issueGroupKey r g in AList.update k (Suc (or_else 0 (map_of cs k))) cs)"

definition issueCountsByGroup :: "string compare \<Rightarrow> issue list \<Rightarrow> issue_group_by \<Rightarrow> group_count list" where
  "issueCountsByGroup locale_cmp rs g = orderIssueGroupCounts locale_cmp (fold (bump_group g) rs [])"

subsection \<open>Order\<close>

datatype issue_order = Updated | Created | Priority | Due

fun order_name :: "issue_order \<Rightarrow> string" where
  "order_name Updated = ''updated''"
| "order_name Created = ''created''"
| "order_name Priority = ''priority''"
| "order_name Due = ''due''"

definition complement_digit :: "char \<Rightarrow> char" where
  "complement_digit c =
     (let n = of_char c :: nat in if 48 \<le> n \<and> n \<le> 57 then char_of (105 - n) else c)"

definition complementDate :: "string \<Rightarrow> string" where
  "complementDate s = map complement_digit s"

definition pad_start :: "nat \<Rightarrow> string \<Rightarrow> string" where
  "pad_start n s = replicate (n - length s) (CHR ''0'') @ s"

fun issueOrderKey :: "issue \<Rightarrow> issue_order \<Rightarrow> string" where
  "issueOrderKey r Updated = is_updatedAt r"
| "issueOrderKey r Created = is_createdAt r"
| "issueOrderKey r Priority = pad_start 2 (decimal (length ISSUE_PRIORITIES - issuePriorityRank (is_priority r)))"
| "issueOrderKey r Due = (case is_dueDate r of None \<Rightarrow> ''0000-00-00'' | Some d \<Rightarrow> complementDate d)"

text \<open>\<open>compareText\<close> is \<open>code_unit_cmp\<close>.\<close>

definition compareIssuesForList :: "issue_order \<Rightarrow> issue compare" where
  "compareIssuesForList ord a b =
     (let c = code_unit_cmp (issueOrderKey b ord) (issueOrderKey a ord) in
      if c \<noteq> 0 then c
      else let d = code_unit_cmp (is_updatedAt b) (is_updatedAt a) in
        if d \<noteq> 0 then d else code_unit_cmp (is_id b) (is_id a))"

record cursor_position =
  cp_key :: string
  cp_updatedAt :: string
  cp_id :: string

definition isIssueAfterCursor :: "issue \<Rightarrow> cursor_position \<Rightarrow> issue_order \<Rightarrow> bool" where
  "isIssueAfterCursor r after ord \<longleftrightarrow>
     (if issueOrderKey r ord \<noteq> cp_key after then issueOrderKey r ord < cp_key after
      else if is_updatedAt r \<noteq> cp_updatedAt after then is_updatedAt r < cp_updatedAt after
      else is_id r < cp_id after)"

subsection \<open>Cursors\<close>

definition DEFAULT_PAGE_LIMIT :: nat where "DEFAULT_PAGE_LIMIT = 50"

definition MAX_PAGE_LIMIT :: nat where "MAX_PAGE_LIMIT = 200"

definition clampLimit :: "rat option \<Rightarrow> nat" where
  "clampLimit limit =
     (case limit of None \<Rightarrow> DEFAULT_PAGE_LIMIT
      | Some l \<Rightarrow> if l \<le> 0 then DEFAULT_PAGE_LIMIT else min (nat \<lfloor>l\<rfloor>) MAX_PAGE_LIMIT)"

definition encodeCursor :: "(string \<Rightarrow> string) \<Rightarrow> issue \<Rightarrow> issue_order \<Rightarrow> string" where
  "encodeCursor wrap r ord =
     wrap (order_name ord @ CHR ''|'' # issueOrderKey r ord @ CHR ''|'' # is_updatedAt r @ CHR ''|'' # is_id r)"

definition wrong_order :: app_error where
  "wrong_order = BadRequest ''BAD_REQUEST'' ''This page cursor belongs to a different ordering.''"

definition decodeCursor :: "(string \<Rightarrow> string) \<Rightarrow> string \<Rightarrow> issue_order \<Rightarrow> cursor_position res" where
  "decodeCursor unwrap cursor ord =
     (case split_on (CHR ''|'') (unwrap cursor) of
        [updatedAt, i] \<Rightarrow>
          if ord \<noteq> Updated \<or> updatedAt = [] then Inl wrong_order
          else Inr \<lparr>cp_key = updatedAt, cp_updatedAt = updatedAt, cp_id = i\<rparr>
      | o' # key # updatedAt # rest \<Rightarrow>
          if o' \<noteq> order_name ord \<or> join_with (CHR ''|'') rest = [] then Inl wrong_order
          else Inr \<lparr>cp_key = key, cp_updatedAt = updatedAt, cp_id = join_with (CHR ''|'') rest\<rparr>
      | _ \<Rightarrow> Inl wrong_order)"

subsection \<open>Filters\<close>

record issue_filter =
  lf_status :: "issue_status option"
  lf_projectId :: "string option"
  lf_assignee :: "string option"
  lf_priority :: "issue_priority option"
  lf_milestoneId :: "string option"
  lf_parentId :: "string option option"
  lf_link :: "(link_type \<times> string) option"
  lf_scorecards :: "string list option"
  lf_query :: "string option"
  lf_githubRepository :: "string option"
  lf_syncPull :: "bool option"
  lf_limit :: "rat option"
  lf_statuses :: "issue_status list option"
  lf_priorities :: "issue_priority list option"
  lf_assignees :: "string list option"
  lf_projectIds :: "string list option"
  lf_labelIds :: "string list option"
  lf_cursor :: "string option"
  lf_order :: "issue_order option"

definition matchesOptional :: "string option \<Rightarrow> string list \<Rightarrow> bool" where
  "matchesOptional v wanted \<longleftrightarrow> (case v of None \<Rightarrow> [] \<in> set wanted | Some x \<Rightarrow> x \<in> set wanted)"

text \<open>A facet that is absent does not narrow.\<close>

definition facet :: "'a option \<Rightarrow> ('a \<Rightarrow> bool) \<Rightarrow> bool" where
  "facet x p \<longleftrightarrow> (case x of None \<Rightarrow> True | Some v \<Rightarrow> p v)"

definition matchesFilter :: "issue \<Rightarrow> issue_filter option \<Rightarrow> bool" where
  "matchesFilter r flt \<longleftrightarrow>
     (case flt of None \<Rightarrow> True | Some f \<Rightarrow>
        facet (lf_status f) (\<lambda>s. is_status r = s)
      \<and> facet (lf_projectId f) (\<lambda>p. is_projectId r = Some p)
      \<and> facet (lf_assignee f) (\<lambda>a. is_assignee r = Some a)
      \<and> facet (lf_priority f) (\<lambda>p. is_priority r = p)
      \<and> facet (lf_milestoneId f) (\<lambda>m. is_milestoneId r = Some m)
      \<and> facet (lf_parentId f) (\<lambda>p. is_parentId r = p)
      \<and> facet (lf_githubRepository f) (\<lambda>g. map_option gh_repository (is_github r) = Some g)
      \<and> facet (lf_syncPull f) (\<lambda>b. if b then map_option (\<lambda>g. gs_pull (gh_sync g)) (is_github r) = Some True else True)
      \<and> facet (lf_link f) (\<lambda>(ty, i). list_ex (\<lambda>l. ln_type l = ty \<and> ln_id l = i) (is_links r))
      \<and> facet (lf_scorecards f) (\<lambda>wanted.
          list_ex (\<lambda>l. ln_type l = LScorecard \<and> ln_id l \<in> set wanted) (is_links r)
          \<or> (case is_resolution r of None \<Rightarrow> False
             | Some rs \<Rightarrow> (case rs_scorecardId rs of None \<Rightarrow> False | Some i \<Rightarrow> i \<in> set wanted)))
      \<and> facet (lf_query f) (\<lambda>q.
          list_ex (\<lambda>t. text_includes (map js_lower t) (map js_lower q)) (is_identifier r # is_former r @ [is_title r]))
      \<and> facet (lf_statuses f) (\<lambda>ss. is_status r \<in> set ss)
      \<and> facet (lf_priorities f) (\<lambda>ps. is_priority r \<in> set ps)
      \<and> facet (lf_assignees f) (matchesOptional (is_assignee r))
      \<and> facet (lf_projectIds f) (matchesOptional (is_projectId r))
      \<and> facet (lf_labelIds f) (\<lambda>ls. list_ex (\<lambda>i. i \<in> set ls) (is_labelIds r)))"

subsection \<open>The store\<close>

record 'e issue_store =
  st_byId :: "(string \<times> issue) list"
  st_events :: "'e list"

definition new_issue_store :: "'e issue_store" where
  "new_issue_store = \<lparr>st_byId = [], st_events = []\<rparr>"

definition create_row :: "issue \<Rightarrow> 'e list \<Rightarrow> 'e issue_store \<Rightarrow> 'e issue_store" where
  "create_row r evs s = s\<lparr>st_byId := AList.update (is_id r) r (st_byId s), st_events := st_events s @ evs\<rparr>"

definition get_row :: "'e issue_store \<Rightarrow> string \<Rightarrow> string \<Rightarrow> issue option" where
  "get_row s t i =
     (case map_of (st_byId s) i of None \<Rightarrow> None | Some r \<Rightarrow> if is_tenant r = t then Some r else None)"

definition tenant_rows :: "'e issue_store \<Rightarrow> string \<Rightarrow> issue list" where
  "tenant_rows s t = filter (\<lambda>r. is_tenant r = t) (map snd (st_byId s))"

definition getByIdentifier :: "'e issue_store \<Rightarrow> string \<Rightarrow> string \<Rightarrow> issue option" where
  "getByIdentifier s t ident =
     (case find (\<lambda>r. is_identifier r = ident) (tenant_rows s t) of
        Some r \<Rightarrow> Some r
      | None \<Rightarrow> find (\<lambda>r. ident \<in> set (is_former r)) (tenant_rows s t))"

definition getByGithub :: "'e issue_store \<Rightarrow> string \<Rightarrow> string \<Rightarrow> nat \<Rightarrow> string option \<Rightarrow> issue option" where
  "getByGithub s t repo n host =
     find (\<lambda>r. is_tenant r = t
        \<and> (case is_github r of None \<Rightarrow> False
           | Some g \<Rightarrow> gh_repository g = repo \<and> gh_number g = n \<and> gh_host g = host)) (map snd (st_byId s))"

definition matching_rows :: "'e issue_store \<Rightarrow> string \<Rightarrow> issue_filter option \<Rightarrow> issue list" where
  "matching_rows s t flt = filter (\<lambda>r. is_tenant r = t \<and> matchesFilter r flt) (map snd (st_byId s))"

definition ordered_rows :: "'e issue_store \<Rightarrow> string \<Rightarrow> issue_filter option \<Rightarrow> issue_order \<Rightarrow> issue list" where
  "ordered_rows s t flt ord = sort_by (compareIssuesForList ord) (matching_rows s t flt)"

text \<open>\<open>rows.slice(0, limit)\<close>: the limit is truncated, and a negative one counts from the end.\<close>

definition slice_to :: "rat \<Rightarrow> 'a list \<Rightarrow> 'a list" where
  "slice_to l xs = (if 0 \<le> l then take (nat \<lfloor>l\<rfloor>) xs else take (nat (int (length xs) + \<lceil>l\<rceil>)) xs)"

definition list_rows :: "'e issue_store \<Rightarrow> string \<Rightarrow> issue_filter option \<Rightarrow> issue list" where
  "list_rows s t flt =
     (let rows = ordered_rows s t flt Updated in
      case flt of None \<Rightarrow> rows
      | Some f \<Rightarrow> (case lf_limit f of None \<Rightarrow> rows | Some l \<Rightarrow> slice_to l rows))"

definition page_filter :: "(issue_filter \<Rightarrow> 'a option) \<Rightarrow> issue_filter option \<Rightarrow> 'a option" where
  "page_filter sel flt = (case flt of None \<Rightarrow> None | Some f \<Rightarrow> sel f)"

record issue_page =
  pg_items :: "issue_summary list"
  pg_nextCursor :: "string option"

definition listSummaries ::
  "(string \<Rightarrow> string) \<Rightarrow> (string \<Rightarrow> string) \<Rightarrow> 'e issue_store \<Rightarrow> string \<Rightarrow> issue_filter option \<Rightarrow> issue_page res" where
  "listSummaries wrap unwrap s t flt =
     (let limit = clampLimit (page_filter lf_limit flt);
          ord = or_else Updated (page_filter lf_order flt) in
      bind_res
        (case page_filter lf_cursor flt of None \<Rightarrow> Inr None
         | Some c \<Rightarrow> bind_res (decodeCursor unwrap c ord) (\<lambda>p. Inr (Some p)))
        (\<lambda>after.
           let rows = filter (\<lambda>r. case after of None \<Rightarrow> True | Some p \<Rightarrow> isIssueAfterCursor r p ord)
                        (ordered_rows s t flt ord);
               page = take limit rows in
           Inr \<lparr>pg_items = map issueSummaryOf page,
                pg_nextCursor =
                  (if limit < length rows \<and> page \<noteq> [] then Some (encodeCursor wrap (last page) ord) else None)\<rparr>))"

definition countByGroup ::
  "string compare \<Rightarrow> 'e issue_store \<Rightarrow> string \<Rightarrow> issue_group_by \<Rightarrow> issue_filter option \<Rightarrow> group_count list" where
  "countByGroup locale_cmp s t g flt = issueCountsByGroup locale_cmp (matching_rows s t flt) g"

definition update_row ::
  "string \<Rightarrow> string \<Rightarrow> issue_patch \<Rightarrow> 'e list \<Rightarrow> 'e issue_store \<Rightarrow> issue option \<times> 'e issue_store" where
  "update_row t i p evs s =
     (case map_of (st_byId s) i of None \<Rightarrow> (None, s)
      | Some r \<Rightarrow>
          if is_tenant r \<noteq> t then (None, s)
          else let r' = apply_patch p r in
            (Some r', s\<lparr>st_byId := AList.update i r' (st_byId s), st_events := st_events s @ evs\<rparr>))"

definition remove_row :: "string \<Rightarrow> string \<Rightarrow> 'e issue_store \<Rightarrow> 'e issue_store" where
  "remove_row t i s =
     (case map_of (st_byId s) i of None \<Rightarrow> s
      | Some r \<Rightarrow> if is_tenant r = t then s\<lparr>st_byId := AList.delete i (st_byId s)\<rparr> else s)"

end
