(* ===== verification/IssueStoreLaws.thy ===== *)
theory IssueStoreLaws
  imports IssueStore
begin

text \<open>
  What readers of the issue list rely on. \<open>paged\<close> is the contract of a page boundary: rows in a strict order are cut at
  a row, and what lies strictly after that row is the rest of the list. The order of every list of issues is the order
  of the positions key, update time and id; the cursor compares the same positions.
\<close>

subsection \<open>Page boundaries\<close>

locale paged =
  fixes before :: "'a \<Rightarrow> 'a \<Rightarrow> bool"
  assumes before_irrefl: "\<not> before x x"
    and before_trans: "before x y \<Longrightarrow> before y z \<Longrightarrow> before x z"
begin

lemma before_asym: "before x y \<Longrightarrow> \<not> before y x"
  using before_irrefl before_trans by blast

lemma rest_after:
  assumes "sorted_wrt before (ys @ y # zs)"
  shows "filter (before y) (ys @ y # zs) = zs"
proof -
  have "filter (before y) ys = []"
    using assms before_asym by (auto simp: sorted_wrt_append filter_empty_conv)
  moreover have "filter (before y) zs = zs" using assms by (auto simp: sorted_wrt_append intro: filter_True)
  ultimately show ?thesis using before_irrefl by simp
qed

lemma rest_after_page:
  assumes "sorted_wrt before xs" "0 < n" "n \<le> length xs"
  shows "filter (before (last (take n xs))) xs = drop n xs"
proof -
  have "take n xs \<noteq> []" using assms(2,3) by auto
  then have "(butlast (take n xs) @ [last (take n xs)]) @ drop n xs = xs"
    by (metis append_butlast_last_id append_take_drop_id)
  then have "xs = butlast (take n xs) @ last (take n xs) # drop n xs" by (metis append.assoc append_Cons append_Nil)
  then show ?thesis using rest_after assms(1) by metis
qed

end

subsection \<open>Positions\<close>

definition position :: "issue_order \<Rightarrow> issue \<Rightarrow> string list" where
  "position ord r = [issueOrderKey r ord, is_updatedAt r, is_id r]"

definition cursor_of :: "issue_order \<Rightarrow> issue \<Rightarrow> cursor_position" where
  "cursor_of ord r = \<lparr>cp_key = issueOrderKey r ord, cp_updatedAt = is_updatedAt r, cp_id = is_id r\<rparr>"

lemma compare_positions [simp]:
  "compareIssuesForList ord a b \<le> 0 \<longleftrightarrow> position ord b \<le> position ord a"
  "0 \<le> compareIssuesForList ord a b \<longleftrightarrow> position ord a \<le> position ord b"
  "compareIssuesForList ord a b = 0 \<longleftrightarrow> position ord a = position ord b"
  by (auto simp: compareIssuesForList_def position_def code_unit_cmp_def Let_def)

lemma after_cursor_position:
  "isIssueAfterCursor r (cursor_of ord c) ord \<longleftrightarrow> position ord r < position ord c"
  by (auto simp: isIssueAfterCursor_def cursor_of_def position_def)

interpretation issue_list: comparison "compareIssuesForList ord" "\<lambda>_. True" for ord
  by unfold_locales auto

interpretation issue_pages: paged "\<lambda>c r. isIssueAfterCursor r (cursor_of ord c) ord" for ord
  by unfold_locales (auto simp: after_cursor_position)

subsection \<open>Rows\<close>

definition rows_ok :: "'e issue_store \<Rightarrow> bool" where
  "rows_ok s \<longleftrightarrow> distinct (map fst (st_byId s)) \<and> list_all (\<lambda>(i, r). is_id r = i) (st_byId s)"

lemma rows_ok_new: "rows_ok new_issue_store"
  by (simp add: rows_ok_def new_issue_store_def)

lemma list_all_update:
  "list_all (\<lambda>(i, r). is_id r = i) xs \<Longrightarrow> is_id r = k \<Longrightarrow> list_all (\<lambda>(i, r). is_id r = i) (AList.update k r xs)"
  by (induction xs) auto

lemma rows_ok_create [invariants]: "rows_ok s \<Longrightarrow> rows_ok (create_row r evs s)"
  by (simp add: rows_ok_def create_row_def distinct_update list_all_update)

lemma rows_ok_update [invariants]: "rows_ok s \<Longrightarrow> rows_ok (snd (update_row t i p evs s))"
proof -
  assume ok: "rows_ok s"
  show ?thesis
  proof (cases "map_of (st_byId s) i")
    case (Some r)
    then have "is_id r = i" using ok by (auto simp: rows_ok_def list_all_iff dest: map_of_SomeD)
    then have "is_id (apply_patch p r) = i" by (simp add: apply_patch_def)
    then show ?thesis using ok Some by (simp add: rows_ok_def update_row_def Let_def distinct_update list_all_update)
  qed (use ok in \<open>simp add: update_row_def\<close>)
qed

lemma rows_ok_remove [invariants]: "rows_ok s \<Longrightarrow> rows_ok (remove_row t i s)"
  by (auto simp: rows_ok_def remove_row_def list_all_iff delete_conv distinct_map_filter AList.delete_eq
      split: option.splits)

lemma distinct_positions:
  assumes "rows_ok s"
  shows "distinct (map (position ord) (matching_rows s t flt))"
proof -
  have "map is_id (map snd (st_byId s)) = map fst (st_byId s)"
    using assms by (auto simp: rows_ok_def list_all_iff intro!: map_cong)
  then have "distinct (map is_id (map snd (st_byId s)))" using assms by (metis rows_ok_def)
  then have "distinct (map is_id (matching_rows s t flt))" unfolding matching_rows_def by (rule distinct_map_filter)
  then have "distinct (map (last \<circ> position ord) (matching_rows s t flt))" by (simp add: position_def comp_def)
  then show ?thesis by (metis distinct_map map_map)
qed

lemma ordered_rows_strict:
  assumes "rows_ok s"
  shows "sorted_wrt (\<lambda>c r. isIssueAfterCursor r (cursor_of ord c) ord) (ordered_rows s t flt ord)"
proof -
  let ?xs = "ordered_rows s t flt ord"
  have "sorted_wrt (\<lambda>a b. position ord b \<le> position ord a) ?xs"
    using issue_list.sorted_sort_by [of "matching_rows s t flt" ord] by (simp add: ordered_rows_def)
  moreover have "distinct (map (position ord) ?xs)"
    using distinct_positions [OF assms] unfolding ordered_rows_def
    by (metis mset_map mset_sort_by mset_eq_imp_distinct_iff)
  ultimately show ?thesis
    by (auto simp: sorted_wrt_iff_nth_less distinct_conv_nth after_cursor_position le_less)
qed

subsection \<open>Cursors\<close>

lemma order_name_bar: "CHR ''|'' \<notin> set (order_name ord)"
  by (cases ord) simp_all

text \<open>A record whose timestamps and date carry no bar, with an id.\<close>

definition cursor_safe :: "issue \<Rightarrow> bool" where
  "cursor_safe r \<longleftrightarrow> CHR ''|'' \<notin> set (is_updatedAt r) \<and> CHR ''|'' \<notin> set (is_createdAt r)
     \<and> (case is_dueDate r of None \<Rightarrow> True | Some d \<Rightarrow> CHR ''|'' \<notin> set d) \<and> is_id r \<noteq> []"

lemma bar_code: "char_of n = CHR ''|'' \<longleftrightarrow> n mod 256 = (124 :: nat)"
  by (simp add: char_of_eq_iff take_bit_eq_mod)

lemma complement_bar: "complement_digit c = CHR ''|'' \<longleftrightarrow> c = CHR ''|''"
  by (auto simp: complement_digit_def Let_def bar_code)

lemma decimal_small: "n < 10 \<Longrightarrow> decimal n = [char_of (48 + n)]"
  by (simp add: decimal_def decimal_rev.simps [of n])

lemma priority_key_bar: "CHR ''|'' \<notin> set (issueOrderKey r Priority)"
proof -
  have "length ISSUE_PRIORITIES - issuePriorityRank (is_priority r) < 10" by (simp add: ISSUE_PRIORITIES_def)
  then show ?thesis by (auto simp: pad_start_def decimal_small bar_code eq_commute [of "CHR ''|''"])
qed

lemma complement_date_bar: "CHR ''|'' \<in> set (complementDate d) \<longleftrightarrow> CHR ''|'' \<in> set d"
  by (metis (no_types, lifting) complementDate_def complement_bar image_iff list.set_map)

lemma order_key_bar: "cursor_safe r \<Longrightarrow> CHR ''|'' \<notin> set (issueOrderKey r ord)"
  using priority_key_bar [of r]
  by (cases ord) (auto simp: cursor_safe_def complement_date_bar split: option.splits)

lemma decode_encode:
  assumes "unwrap (encodeCursor wrap r ord) =
      order_name ord @ CHR ''|'' # issueOrderKey r ord @ CHR ''|'' # is_updatedAt r @ CHR ''|'' # is_id r"
    and "cursor_safe r"
  shows "decodeCursor unwrap (encodeCursor wrap r ord) ord = Inr (cursor_of ord r)"
proof -
  have "split_on (CHR ''|'') (unwrap (encodeCursor wrap r ord)) =
      order_name ord # issueOrderKey r ord # is_updatedAt r # split_on (CHR ''|'') (is_id r)"
    using assms order_key_bar [OF assms(2)] order_name_bar by (simp add: split_on_first cursor_safe_def)
  moreover obtain p ps where "split_on (CHR ''|'') (is_id r) = p # ps" using split_on_nonempty by (meson list.exhaust)
  moreover have "join_with (CHR ''|'') (p # ps) = is_id r" using join_split_on calculation(2) by metis
  ultimately show ?thesis using assms(2) by (simp add: decodeCursor_def cursor_of_def cursor_safe_def)
qed

subsection \<open>Reading page by page\<close>

text \<open>A client that follows \<open>nextCursor\<close>, at most \<open>fuel\<close> pages far.\<close>

fun page_walk ::
  "(string \<Rightarrow> string) \<Rightarrow> (string \<Rightarrow> string) \<Rightarrow> 'e issue_store \<Rightarrow> string \<Rightarrow> issue_filter \<Rightarrow> nat \<Rightarrow> string option
    \<Rightarrow> issue_summary list" where
  "page_walk wrap unwrap s t f 0 cur = []"
| "page_walk wrap unwrap s t f (Suc fuel) cur =
     (case listSummaries wrap unwrap s t (Some (f\<lparr>lf_cursor := cur\<rparr>)) of
        Inl e \<Rightarrow> []
      | Inr pg \<Rightarrow> pg_items pg @
          (case pg_nextCursor pg of None \<Rightarrow> [] | Some c \<Rightarrow> page_walk wrap unwrap s t f fuel (Some c)))"

text \<open>The cursor that stands behind the first \<open>k\<close> rows.\<close>

definition cursor_behind :: "(string \<Rightarrow> string) \<Rightarrow> issue list \<Rightarrow> issue_order \<Rightarrow> nat \<Rightarrow> string option" where
  "cursor_behind wrap rows ord k = (if k = 0 then None else Some (encodeCursor wrap (last (take k rows)) ord))"

lemma rows_without_cursor: "ordered_rows s t (Some (f\<lparr>lf_cursor := c\<rparr>)) ord = ordered_rows s t (Some f) ord"
  by (simp add: ordered_rows_def matching_rows_def matchesFilter_def)

lemma last_page: "l < length (drop k rows) \<Longrightarrow> 0 < l \<Longrightarrow> last (take l (drop k rows)) = last (take (k + l) rows)"
  by (auto simp: take_add last_append)

lemma page_behind:
  assumes ok: "rows_ok s" and codec: "\<And>x. unwrap (wrap x) = x"
    and rows: "rows = ordered_rows s t (Some f) ord" and ord: "ord = or_else Updated (lf_order f)"
    and safe: "list_all cursor_safe rows" and k: "k \<le> length rows" and pos: "0 < clampLimit (lf_limit f)"
  shows "listSummaries wrap unwrap s t (Some (f\<lparr>lf_cursor := cursor_behind wrap rows ord k\<rparr>)) =
    Inr \<lparr>pg_items = map issueSummaryOf (take (clampLimit (lf_limit f)) (drop k rows)),
         pg_nextCursor = (if clampLimit (lf_limit f) < length (drop k rows)
           then cursor_behind wrap rows ord (k + clampLimit (lf_limit f)) else None)\<rparr>"
proof -
  let ?l = "clampLimit (lf_limit f)"
  show ?thesis
  proof (cases "k = 0")
    case True
    then show ?thesis
      using pos
      by (auto simp: listSummaries_def page_filter_def cursor_behind_def rows_without_cursor Let_def simp flip: ord rows)
  next
    case False
    let ?c = "last (take k rows)"
    have "?c \<in> set rows" using False k by (metis append_take_drop_id last_in_set le_zero_eq length_0_conv
      list.size(3) set_append take_eq_Nil UnI1)
    then have "decodeCursor unwrap (encodeCursor wrap ?c ord) ord = Inr (cursor_of ord ?c)"
      using safe by (intro decode_encode) (simp_all add: encodeCursor_def codec list_all_iff)
    moreover have "filter (\<lambda>r. isIssueAfterCursor r (cursor_of ord ?c) ord) rows = drop k rows"
      using issue_pages.rest_after_page [of ord rows k] ordered_rows_strict [OF ok] rows False k by simp
    ultimately show ?thesis
      using pos False last_page [of ?l k rows]
      by (auto simp: listSummaries_def page_filter_def cursor_behind_def rows_without_cursor Let_def simp flip: ord rows)
  qed
qed

lemma walk_behind:
  assumes ok: "rows_ok s" and codec: "\<And>x. unwrap (wrap x) = x"
    and rows: "rows = ordered_rows s t (Some f) ord" and ord: "ord = or_else Updated (lf_order f)"
    and safe: "list_all cursor_safe rows" and pos: "0 < clampLimit (lf_limit f)"
  shows "k \<le> length rows \<Longrightarrow> length rows - k < fuel \<Longrightarrow>
    page_walk wrap unwrap s t f fuel (cursor_behind wrap rows ord k) = map issueSummaryOf (drop k rows)"
proof (induction fuel arbitrary: k)
  case (Suc fuel)
  let ?l = "clampLimit (lf_limit f)"
  note page = page_behind [where wrap = wrap and unwrap = unwrap, OF ok codec rows ord safe Suc.prems(1) pos]
  show ?case
  proof (cases "?l < length (drop k rows)")
    case True
    then have "page_walk wrap unwrap s t f fuel (cursor_behind wrap rows ord (k + ?l)) = map issueSummaryOf (drop (k + ?l) rows)"
      using Suc.prems pos by (intro Suc.IH) auto
    moreover obtain c where "cursor_behind wrap rows ord (k + ?l) = Some c"
      using pos by (simp add: cursor_behind_def)
    moreover have "drop k rows = take ?l (drop k rows) @ drop (k + ?l) rows"
      by (metis add.commute append_take_drop_id drop_drop)
    then have "map issueSummaryOf (drop k rows)
        = map issueSummaryOf (take ?l (drop k rows)) @ map issueSummaryOf (drop (k + ?l) rows)"
      by (metis map_append)
    ultimately show ?thesis using page True by simp
  next
    case False
    then show ?thesis using page by simp
  qed
qed simp

subsection \<open>Groups\<close>

definition group_size :: "issue_group_by \<Rightarrow> string option \<Rightarrow> issue list \<Rightarrow> nat" where
  "group_size g k rs = length (filter (\<lambda>r. issueGroupKey r g = k) rs)"

definition counts_ok :: "issue_group_by \<Rightarrow> issue list \<Rightarrow> group_count list \<Rightarrow> bool" where
  "counts_ok g rs cs \<longleftrightarrow> distinct (map fst cs)
     \<and> (\<forall>k. map_of cs k = (if group_size g k rs = 0 then None else Some (group_size g k rs)))"

lemma counts_ok_bump: "counts_ok g rs cs \<Longrightarrow> counts_ok g (rs @ [r]) (bump_group g r cs)"
  by (simp add: counts_ok_def bump_group_def Let_def distinct_update update_conv' group_size_def or_else_def)

lemma counts_ok_fold: "counts_ok g rs (fold (bump_group g) rs [])"
proof (induction rs rule: rev_induct)
  case Nil
  show ?case by (simp add: counts_ok_def group_size_def)
next
  case (snoc r rs)
  then show ?case using counts_ok_bump by simp
qed

lemma counts_ok_order: "counts_ok g rs cs \<Longrightarrow> counts_ok g rs (orderIssueGroupCounts lc cs)"
proof -
  assume ok: "counts_ok g rs cs"
  have perm: "mset (map fst (orderIssueGroupCounts lc cs)) = mset (map fst cs)"
    by (simp add: orderIssueGroupCounts_def)
  then have d: "distinct (map fst (orderIssueGroupCounts lc cs))"
    using ok by (metis counts_ok_def mset_eq_imp_distinct_iff)
  have "map_of (orderIssueGroupCounts lc cs) = map_of cs"
    using ok d by (subst map_of_inject_set) (simp_all add: counts_ok_def orderIssueGroupCounts_def)
  then show ?thesis using ok d by (simp add: counts_ok_def)
qed

lemma sum_bump: "distinct (map fst cs) \<Longrightarrow> sum_list (map snd (bump_group g r cs)) = Suc (sum_list (map snd cs))"
proof -
  have "distinct (map fst cs) \<Longrightarrow> sum_list (map snd (AList.update k v cs)) + or_else 0 (map_of cs k)
      = sum_list (map snd cs) + v" for k :: "string option" and v
    by (induction cs) (auto simp: or_else_def map_of_eq_None_iff split: option.split)
  from this [of "issueGroupKey r g" "Suc (or_else 0 (map_of cs (issueGroupKey r g)))"]
  show "distinct (map fst cs) \<Longrightarrow> ?thesis" by (simp add: bump_group_def Let_def)
qed

lemma sum_counts: "sum_list (map snd (orderIssueGroupCounts lc (fold (bump_group g) rs []))) = length rs"
proof -
  have "sum_list (map snd (fold (bump_group g) rs [])) = length rs"
  proof (induction rs rule: rev_induct)
    case (snoc r rs)
    then show ?case using sum_bump [of "fold (bump_group g) rs []" g r] counts_ok_fold [of g rs]
      by (simp add: counts_ok_def)
  qed simp
  moreover have "mset (map snd (orderIssueGroupCounts lc cs)) = mset (map snd cs)" for cs
    by (simp add: orderIssueGroupCounts_def)
  ultimately show ?thesis by (metis sum_mset_sum_list)
qed

subsection \<open>Tenants\<close>

lemma other_tenant_update:
  assumes "t' \<noteq> t" "rows_ok s"
  shows "filter (\<lambda>r. is_tenant r = t' \<and> q r) (map snd (st_byId (snd (update_row t i p evs s))))
    = filter (\<lambda>r. is_tenant r = t' \<and> q r) (map snd (st_byId s))"
proof (cases "map_of (st_byId s) i")
  case (Some r)
  have other: "filter (\<lambda>r. is_tenant r = t' \<and> q r) (map snd (AList.update i r' xs))
      = filter (\<lambda>r. is_tenant r = t' \<and> q r) (map snd xs)"
    if "map_of xs i = Some r" "is_tenant r \<noteq> t'" "is_tenant r' \<noteq> t'" for xs r'
    using that by (induction xs) (auto split: if_splits)
  have "is_tenant (apply_patch p r) = is_tenant r" by (simp add: apply_patch_def)
  then show ?thesis using Some assms(1) other [OF Some] by (auto simp: update_row_def Let_def)
qed (simp add: update_row_def)

lemma other_tenant_remove:
  assumes "t' \<noteq> t" "rows_ok s"
  shows "filter (\<lambda>r. is_tenant r = t' \<and> q r) (map snd (st_byId (remove_row t i s)))
    = filter (\<lambda>r. is_tenant r = t' \<and> q r) (map snd (st_byId s))"
proof (cases "map_of (st_byId s) i")
  case (Some r)
  have other: "filter (\<lambda>r. is_tenant r = t' \<and> q r) (map snd (AList.delete i xs))
      = filter (\<lambda>r. is_tenant r = t' \<and> q r) (map snd xs)"
    if "map_of xs i = Some r" "is_tenant r \<noteq> t'" "distinct (map fst xs)" for xs
    using that by (induction xs) (auto split: if_splits)
  then show ?thesis using Some assms other [OF Some] by (auto simp: remove_row_def rows_ok_def)
qed (simp add: remove_row_def)

lemmas other_tenant = other_tenant_update other_tenant_remove

subsection \<open>The guarantees\<close>

text \<open>The limits a page walk is safe under: none, a whole one, one that is not positive (the default stands in) or any from one on.
  A limit strictly between 0 and 1 is rounded down to a page of no issues, without a cursor: the walk ends at once and reads nothing.\<close>

definition walkable_limit :: "rat option \<Rightarrow> bool" where
  "walkable_limit l \<longleftrightarrow> (case l of None \<Rightarrow> True | Some x \<Rightarrow> x \<le> 0 \<or> 1 \<le> x)"

lemma walkable_limit_iff: "walkable_limit l \<longleftrightarrow> 0 < clampLimit l"
proof (cases l)
  case (Some x)
  have "0 < nat \<lfloor>x\<rfloor> \<longleftrightarrow> 1 \<le> x" if "0 < x" using that by (simp add: zero_less_floor)
  then show ?thesis using Some by (auto simp: walkable_limit_def clampLimit_def DEFAULT_PAGE_LIMIT_def MAX_PAGE_LIMIT_def not_le)
qed (simp add: walkable_limit_def clampLimit_def DEFAULT_PAGE_LIMIT_def)

lemma fractional_limit_loses_all:
  assumes "\<not> walkable_limit (lf_limit f)" "lf_cursor f = None"
  shows "listSummaries wrap unwrap s t (Some f) = Inr \<lparr>pg_items = [], pg_nextCursor = None\<rparr>"
    and "page_walk wrap unwrap s t f fuel None = []"
proof -
  have "clampLimit (lf_limit f) = 0" using assms(1) walkable_limit_iff by blast
  then show "listSummaries wrap unwrap s t (Some f) = Inr \<lparr>pg_items = [], pg_nextCursor = None\<rparr>"
    using assms(2) by (simp add: listSummaries_def page_filter_def Let_def)
  have "f\<lparr>lf_cursor := None\<rparr> = f" using assms(2) by simp
  then show "page_walk wrap unwrap s t f fuel None = []"
    using \<open>clampLimit (lf_limit f) = 0\<close> assms(2) by (cases fuel) (simp_all add: listSummaries_def page_filter_def Let_def)
qed

text \<open>C16. Reading page by page neither repeats nor loses an issue: whoever follows the cursors from the first page reads
  exactly the matching issues in the order of the list, however equal the sort keys and whatever the page limit, except one strictly
  between 0 and 1, as long as no timestamp or due date holds a bar and no id is empty.\<close>

theorem pages_cover_list:
  assumes "rows_ok s" "\<And>x. unwrap (wrap x) = x"
    and "list_all cursor_safe (ordered_rows s t (Some f) (or_else Updated (lf_order f)))"
    and "walkable_limit (lf_limit f)"
    and "length (ordered_rows s t (Some f) (or_else Updated (lf_order f))) < fuel"
  shows "page_walk wrap unwrap s t f fuel None
    = map issueSummaryOf (ordered_rows s t (Some f) (or_else Updated (lf_order f)))"
  using walk_behind [where wrap = wrap and unwrap = unwrap and k = 0, OF assms(1,2) refl refl assms(3)] assms(4,5)
  by (simp add: cursor_behind_def walkable_limit_iff)

definition some_issue :: "string \<Rightarrow> issue_priority \<Rightarrow> string \<Rightarrow> issue" where
  "some_issue i pr now =
     newIssue \<lparr>ni_id = i, ni_tenant = ''acme'', ni_number = 1, ni_identifier = i, ni_title = i,
       ni_description = None, ni_status = None, ni_priority = Some pr, ni_estimate = None, ni_dueDate = None,
       ni_parentId = None, ni_milestoneId = None, ni_stateId = None, ni_projectId = None, ni_assignee = None,
       ni_labelIds = None, ni_links = None, ni_resolution = None, ni_github = None, ni_createdBy = ''ann'',
       ni_origin = None, ni_now = now\<rparr>"

definition some_store :: "unit issue_store" where
  "some_store = create_row (some_issue ''a'' PHigh ''t1'') [] (create_row (some_issue ''b'' PNone ''t2'') []
     (create_row (some_issue ''c'' PHigh ''t1'') [] new_issue_store))"

definition by_priority :: issue_filter where
  "by_priority =
     \<lparr>lf_status = None, lf_projectId = None, lf_assignee = None, lf_priority = None, lf_milestoneId = None,
      lf_parentId = None, lf_link = None, lf_scorecards = None, lf_query = None, lf_githubRepository = None,
      lf_syncPull = None, lf_limit = Some 1, lf_statuses = None, lf_priorities = None, lf_assignees = None,
      lf_projectIds = None, lf_labelIds = None, lf_cursor = None, lf_order = Some Priority\<rparr>"

lemma pages_cover_list_witness:
  "map sm_id (page_walk rev rev some_store ''acme'' by_priority 4 None) = [''c'', ''a'', ''b'']"
proof -
  have rows: "ordered_rows some_store ''acme'' (Some by_priority) (or_else Updated (lf_order by_priority))
      = [some_issue ''c'' PHigh ''t1'', some_issue ''a'' PHigh ''t1'', some_issue ''b'' PNone ''t2'']"
    by code_simp
  have "page_walk rev rev some_store ''acme'' by_priority 4 None
      = map issueSummaryOf (ordered_rows some_store ''acme'' (Some by_priority) (or_else Updated (lf_order by_priority)))"
  proof (rule pages_cover_list)
    show "rows_ok some_store" by (simp add: some_store_def invariants rows_ok_new)
    show "list_all cursor_safe (ordered_rows some_store ''acme'' (Some by_priority)
        (or_else Updated (lf_order by_priority)))"
      unfolding rows by code_simp
    show "walkable_limit (lf_limit by_priority)" by code_simp
  qed (simp_all add: rows)
  then show ?thesis unfolding rows by (simp add: issueSummaryOf_def some_issue_def newIssue_def Let_def)
qed

text \<open>A page token comes back as the position it was minted at, under the ordering it was minted under, and is
  refused under every other one.\<close>

theorem cursor_roundtrip:
  assumes "\<And>x. unwrap (wrap x) = x" "cursor_safe r"
  shows "decodeCursor unwrap (encodeCursor wrap r ord) ord'
    = (if ord' = ord then Inr (cursor_of ord r) else Inl wrong_order)"
proof (cases "ord' = ord")
  case True
  then show ?thesis using decode_encode assms by (simp add: encodeCursor_def)
next
  case False
  have "split_on (CHR ''|'') (unwrap (encodeCursor wrap r ord)) =
      order_name ord # issueOrderKey r ord # is_updatedAt r # split_on (CHR ''|'') (is_id r)"
    using assms order_key_bar [OF assms(2)] order_name_bar by (simp add: encodeCursor_def split_on_first cursor_safe_def)
  moreover obtain p ps where "split_on (CHR ''|'') (is_id r) = p # ps" using split_on_nonempty by (meson list.exhaust)
  moreover have "order_name ord \<noteq> order_name ord'" using False by (cases ord; cases ord') simp_all
  ultimately show ?thesis using False by (simp add: decodeCursor_def)
qed

lemma cursor_roundtrip_witness:
  "decodeCursor rev (encodeCursor rev (some_issue ''a'' PHigh ''t1'') Priority) Due = Inl wrong_order"
proof -
  have "decodeCursor rev (encodeCursor rev (some_issue ''a'' PHigh ''t1'') Priority) Due
      = (if Due = Priority then Inr (cursor_of Priority (some_issue ''a'' PHigh ''t1'')) else Inl wrong_order)"
    by (rule cursor_roundtrip) (simp, code_simp)
  then show ?thesis by simp
qed

text \<open>Group counts are exact: every group that has an issue has one entry with the number of its issues, no other
  group has any, and the counts add up to the matching issues.\<close>

theorem group_counts_exact:
  "let cs = countByGroup lc s t g flt; rows = matching_rows s t flt in
     distinct (map fst cs)
     \<and> (\<forall>k. map_of cs k = (if group_size g k rows = 0 then None else Some (group_size g k rows)))
     \<and> sum_list (map snd cs) = length rows"
  using counts_ok_order [OF counts_ok_fold, of g "matching_rows s t flt" lc]
  by (simp add: countByGroup_def issueCountsByGroup_def counts_ok_def sum_counts)

text \<open>Workspaces stay apart: what one of them updates or removes changes no list, page, count or lookup of
  another.\<close>

theorem workspaces_apart:
  assumes "t' \<noteq> t" "rows_ok s" "s' = snd (update_row t i p evs s) \<or> s' = remove_row t i s"
  shows "list_rows s' t' flt = list_rows s t' flt
    \<and> listSummaries wrap unwrap s' t' flt = listSummaries wrap unwrap s t' flt
    \<and> countByGroup lc s' t' g flt = countByGroup lc s t' g flt
    \<and> getByIdentifier s' t' ident = getByIdentifier s t' ident"
proof -
  have rows: "matching_rows s' t' flt = matching_rows s t' flt" "tenant_rows s' t' = tenant_rows s t'"
    using assms other_tenant [OF assms(1,2), where q = "\<lambda>r. matchesFilter r flt"]
      other_tenant [OF assms(1,2), where q = "\<lambda>_. True"]
    by (auto simp: matching_rows_def tenant_rows_def)
  then show ?thesis
    unfolding list_rows_def listSummaries_def countByGroup_def getByIdentifier_def ordered_rows_def rows by simp
qed

lemma workspaces_apart_witness:
  "list_rows (remove_row ''evil'' ''a'' some_store) ''acme'' None = list_rows some_store ''acme'' None"
  using workspaces_apart [of "''acme''" "''evil''" some_store "remove_row ''evil'' ''a'' some_store" "''a''"]
  by (simp add: some_store_def invariants rows_ok_new)

text \<open>Half an issue a page reads none of the three issues of this workspace.\<close>

lemma half_a_page:
  "page_walk rev rev some_store ''acme'' (by_priority\<lparr>lf_limit := Some (1 / 2)\<rparr>) 4 None = []"
  by (rule fractional_limit_loses_all) (simp_all add: walkable_limit_def by_priority_def)

end
