(* ===== verification/Merge.thy ===== *)
theory Merge
  imports Ordering "HOL-Library.Sublist"
begin

text \<open>
  Comparing and merging the revisions of a workspace file: packages/domain/src/workspace-file/merge.ts and diff.ts.

  Lines are compared as wholes, so the matching and the merge are stated over lists of any type; the entry points work
  on texts. The table of subsequence lengths is a list of rows. An array with a cursor that only moves forward is the
  list of what is left.
\<close>

subsection \<open>Lines\<close>

definition NEWLINE :: char where "NEWLINE = CHR 0x0A"

definition toLines :: "string \<Rightarrow> string list" where
  "toLines text = split_on NEWLINE text"

definition unlines :: "string list \<Rightarrow> string" where
  "unlines ls = join_with NEWLINE ls"

definition slice :: "nat \<Rightarrow> nat \<Rightarrow> 'a list \<Rightarrow> 'a list" where
  "slice i j xs = take (j - i) (drop i xs)"

subsection \<open>Matching lines\<close>

text \<open>One row of the table, for the line \<open>x\<close> of the first text over the suffixes of the second, from the row
  below it.\<close>

fun table_row :: "'a \<Rightarrow> 'a list \<Rightarrow> nat list \<Rightarrow> nat list" where
  "table_row x [] below = [0]"
| "table_row x (y # ys) below =
     (let row = table_row x ys (tl below) in
      (if x = y then (tl below) ! 0 + 1 else max (below ! 0) (row ! 0)) # row)"

fun lcs_table :: "'a list \<Rightarrow> 'a list \<Rightarrow> nat list list" where
  "lcs_table [] b = [replicate (length b + 1) 0]"
| "lcs_table (x # xs) b = (let t = lcs_table xs b in table_row x b (t ! 0) # t)"

function walk_table :: "nat list list \<Rightarrow> 'a list \<Rightarrow> 'a list \<Rightarrow> nat \<Rightarrow> nat \<Rightarrow> (nat \<times> nat) list" where
  "walk_table t a b i j =
     (if i < length a \<and> j < length b
      then (if a ! i = b ! j then (i, j) # walk_table t a b (i + 1) (j + 1)
            else if t ! i ! (j + 1) \<le> t ! (i + 1) ! j then walk_table t a b (i + 1) j
            else walk_table t a b i (j + 1))
      else [])"
  by pat_completeness auto
termination by (relation "measure (\<lambda>(t, a, b, i, j). (length a - i) + (length b - j))") auto

declare walk_table.simps [simp del]

definition lcsPairs :: "'a list \<Rightarrow> 'a list \<Rightarrow> (nat \<times> nat) list" where
  "lcsPairs a b = walk_table (lcs_table a b) a b 0 0"

subsection \<open>Changes\<close>

record hunk =
  bStart :: nat
  bEnd :: nat
  sStart :: nat
  sEnd :: nat

fun hunks_from :: "nat \<Rightarrow> nat \<Rightarrow> nat \<Rightarrow> nat \<Rightarrow> (nat \<times> nat) list \<Rightarrow> hunk list" where
  "hunks_from nb ns b s [] =
     (if b < nb \<or> s < ns then [\<lparr>bStart = b, bEnd = nb, sStart = s, sEnd = ns\<rparr>] else [])"
| "hunks_from nb ns b s ((pb, ps) # rest) =
     (if b < pb \<or> s < ps then [\<lparr>bStart = b, bEnd = pb, sStart = s, sEnd = ps\<rparr>] else [])
     @ hunks_from nb ns (pb + 1) (ps + 1) rest"

definition hunksOf :: "'a list \<Rightarrow> 'a list \<Rightarrow> hunk list" where
  "hunksOf base side = hunks_from (length base) (length side) 0 0 (lcsPairs base side)"

definition clashes :: "hunk \<Rightarrow> hunk \<Rightarrow> bool" where
  "clashes a b \<longleftrightarrow>
     (if bStart a < bEnd b \<and> bStart b < bEnd a then True
      else bStart a = bStart b \<and> (bStart a = bEnd a \<or> bStart b = bEnd b))"

fun side_from :: "'a list \<Rightarrow> 'a list \<Rightarrow> nat \<Rightarrow> nat \<Rightarrow> nat \<Rightarrow> hunk list \<Rightarrow> 'a list" where
  "side_from base side from to b [] = (if b < to then slice b to base else [])"
| "side_from base side from to b (h # hs) =
     (if bEnd h < from \<or> to < bStart h then side_from base side from to b hs
      else (if b < bStart h then slice b (bStart h) base else [])
        @ slice (sStart h) (sEnd h) side @ side_from base side from to (bEnd h) hs)"

definition sideText :: "'a list \<Rightarrow> 'a list \<Rightarrow> hunk list \<Rightarrow> nat \<Rightarrow> nat \<Rightarrow> 'a list" where
  "sideText base side hs from to = side_from base side from to from hs"

subsection \<open>Groups of clashing changes\<close>

record group =
  g_ours :: "hunk list"
  g_theirs :: "hunk list"
  g_start :: nat
  g_end :: nat

definition joins :: "hunk \<Rightarrow> hunk \<Rightarrow> group \<Rightarrow> bool" where
  "joins h window g \<longleftrightarrow>
     (if g_ours g = [] \<and> g_theirs g = [] then bStart h = g_start g else clashes h window)"

definition widen :: "hunk \<Rightarrow> group \<Rightarrow> group" where
  "widen h g = g\<lparr>g_start := min (g_start g) (bStart h), g_end := max (g_end g) (bEnd h)\<rparr>"

fun take_ours :: "hunk \<Rightarrow> hunk list \<Rightarrow> group \<Rightarrow> hunk list \<times> group" where
  "take_ours window [] g = ([], g)"
| "take_ours window (h # hs) g =
     (if joins h window g then take_ours window hs (widen h (g\<lparr>g_ours := g_ours g @ [h]\<rparr>)) else (h # hs, g))"

fun take_theirs :: "hunk \<Rightarrow> hunk list \<Rightarrow> group \<Rightarrow> hunk list \<times> group" where
  "take_theirs window [] g = ([], g)"
| "take_theirs window (h # hs) g =
     (if joins h (window\<lparr>bEnd := g_end g\<rparr>) g
      then take_theirs window hs (widen h (g\<lparr>g_theirs := g_theirs g @ [h]\<rparr>)) else (h # hs, g))"

lemma take_ours_shrinks: "length (fst (take_ours w hs g)) \<le> length hs"
  by (induction w hs g rule: take_ours.induct) auto

lemma take_theirs_shrinks: "length (fst (take_theirs w hs g)) \<le> length hs"
  by (induction w hs g rule: take_theirs.induct) auto

definition grow_once :: "hunk list \<Rightarrow> hunk list \<Rightarrow> group \<Rightarrow> hunk list \<times> hunk list \<times> group" where
  "grow_once ours theirs g =
     (let window = \<lparr>bStart = g_start g, bEnd = g_end g, sStart = 0, sEnd = 0\<rparr>;
          (ours', g1) = take_ours window ours g;
          (theirs', g2) = take_theirs window theirs g1
      in (ours', theirs', g2))"

text \<open>\<open>while (grew)\<close>: a round that took nothing is the last.\<close>

function grow :: "hunk list \<Rightarrow> hunk list \<Rightarrow> group \<Rightarrow> hunk list \<times> hunk list \<times> group" where
  "grow ours theirs g =
     (case grow_once ours theirs g of (ours', theirs', g') \<Rightarrow>
        if length ours' + length theirs' < length ours + length theirs then grow ours' theirs' g'
        else (ours', theirs', g'))"
  by pat_completeness auto
termination
  by (relation "measure (\<lambda>(ours, theirs, g). length ours + length theirs)") (auto split: prod.splits)

declare grow.simps [simp del]

subsection \<open>The merge\<close>

record 'a conflict =
  cf_line :: nat
  cf_base :: "'a list"
  cf_ours :: "'a list"
  cf_theirs :: "'a list"

record 'a markers =
  mk_head :: 'a
  mk_split :: 'a
  mk_tail :: 'a

definition first_start :: "hunk list \<Rightarrow> hunk list \<Rightarrow> nat" where
  "first_start ours theirs =
     (case (ours, theirs) of
        (o1 # _, t1 # _) \<Rightarrow> min (bStart o1) (bStart t1)
      | (o1 # _, []) \<Rightarrow> bStart o1
      | ([], t1 # _) \<Rightarrow> bStart t1
      | ([], []) \<Rightarrow> 0)"

definition next_group :: "hunk list \<Rightarrow> hunk list \<Rightarrow> hunk list \<times> hunk list \<times> group" where
  "next_group ours theirs =
     (let start = first_start ours theirs
      in grow ours theirs \<lparr>g_ours = [], g_theirs = [], g_start = start, g_end = start\<rparr>)"

lemma grow_once_shrinks:
  "grow_once ours theirs g = (ours', theirs', g') \<Longrightarrow> length ours' \<le> length ours \<and> length theirs' \<le> length theirs"
  using take_ours_shrinks take_theirs_shrinks
  by (fastforce simp: grow_once_def Let_def split: prod.splits dest: arg_cong [where f = fst])

lemma grow_shrinks:
  "grow ours theirs g = (ours', theirs', g') \<Longrightarrow> length ours' \<le> length ours \<and> length theirs' \<le> length theirs"
proof (induction ours theirs g rule: grow.induct)
  case (1 ours theirs g)
  obtain os ts g1 where once: "grow_once ours theirs g = (os, ts, g1)" by (metis prod_cases3)
  then have "length os \<le> length ours \<and> length ts \<le> length theirs" by (rule grow_once_shrinks)
  moreover have "length ours' \<le> length os \<and> length theirs' \<le> length ts"
  proof (cases "length os + length ts < length ours + length theirs")
    case True
    then show ?thesis using 1 once by (simp add: grow.simps [of ours])
  next
    case False
    then show ?thesis using 1(2) once by (simp add: grow.simps [of ours])
  qed
  ultimately show ?case by linarith
qed

text \<open>The earliest change is taken, so every group makes progress.\<close>

lemma take_ours_first: "joins h w g \<Longrightarrow> length (fst (take_ours w (h # hs) g)) \<le> length hs"
  by (simp add: take_ours_shrinks)

lemma take_theirs_first: "joins h (w\<lparr>bEnd := g_end g\<rparr>) g \<Longrightarrow> length (fst (take_theirs w (h # hs) g)) \<le> length hs"
  by (simp add: take_theirs_shrinks)

lemma grow_once_progress:
  assumes "ours \<noteq> [] \<or> theirs \<noteq> []" "g = \<lparr>g_ours = [], g_theirs = [], g_start = first_start ours theirs, g_end = e\<rparr>"
    and "grow_once ours theirs g = (ours', theirs', g')"
  shows "length ours' + length theirs' < length ours + length theirs"
proof -
  let ?w = "\<lparr>bStart = g_start g, bEnd = g_end g, sStart = 0, sEnd = 0\<rparr>"
  obtain g1 where o': "take_ours ?w ours g = (ours', g1)" and t': "take_theirs ?w theirs g1 = (theirs', g')"
    using assms(3) by (auto simp: grow_once_def Let_def split: prod.splits)
  have le: "length ours' \<le> length ours" "length theirs' \<le> length theirs"
    using take_ours_shrinks [of ?w ours g] take_theirs_shrinks [of ?w theirs g1] o' t' by simp_all
  show ?thesis
  proof (cases "\<exists>h hs. ours = h # hs \<and> bStart h = g_start g")
    case True
    then obtain h hs where h: "ours = h # hs" "bStart h = g_start g" by blast
    then have "joins h ?w g" using assms(2) by (simp add: joins_def)
    from take_ours_first [OF this, of hs] have "length ours' < length ours" using o' h(1) by simp
    then show ?thesis using le by simp
  next
    case False
    then have "\<not> (case ours of [] \<Rightarrow> False | h # _ \<Rightarrow> joins h ?w g)"
      using assms(2) by (auto simp: joins_def split: list.splits)
    then have g1: "g1 = g" "ours' = ours" using o' by (cases ours; simp)+
    obtain h hs where h: "theirs = h # hs" "bStart h = g_start g"
      using False assms(1,2) by (cases ours; cases theirs) (auto simp: first_start_def min_def split: if_splits)
    then have "joins h (?w\<lparr>bEnd := g_end g1\<rparr>) g1" using assms(2) g1 by (simp add: joins_def)
    from take_theirs_first [OF this, of hs] have "length theirs' < length theirs" using t' h(1) by simp
    then show ?thesis using le by simp
  qed
qed

lemma next_group_progress:
  assumes "ours \<noteq> [] \<or> theirs \<noteq> []" "next_group ours theirs = (ours', theirs', g')"
  shows "length ours' + length theirs' < length ours + length theirs"
proof -
  let ?g = "\<lparr>g_ours = [], g_theirs = [], g_start = first_start ours theirs, g_end = first_start ours theirs\<rparr>"
  obtain os ts g1 where once: "grow_once ours theirs ?g = (os, ts, g1)" by (metis prod_cases3)
  have less: "length os + length ts < length ours + length theirs"
    using grow_once_progress [OF assms(1) refl once] .
  then have "grow os ts g1 = (ours', theirs', g')"
    using assms(2) once by (simp add: next_group_def Let_def grow.simps [of ours])
  then show ?thesis using grow_shrinks less by fastforce
qed

lemma next_group_less:
  "(ours', theirs', g') = next_group ours theirs \<Longrightarrow> ours \<noteq> [] \<or> theirs \<noteq> [] \<Longrightarrow>
   length ours' + length theirs' < length ours + length theirs"
  using next_group_progress by metis

definition decide :: "'a markers \<Rightarrow> group \<Rightarrow> 'a list \<Rightarrow> 'a list \<Rightarrow> 'a list" where
  "decide mk g our_slice their_slice =
     (if g_theirs g = [] then our_slice
      else if g_ours g = [] then their_slice
      else if our_slice = their_slice then our_slice
      else mk_head mk # our_slice @ mk_split mk # their_slice @ [mk_tail mk])"

definition disputed :: "group \<Rightarrow> 'a list \<Rightarrow> 'a list \<Rightarrow> bool" where
  "disputed g our_slice their_slice \<longleftrightarrow> g_theirs g \<noteq> [] \<and> g_ours g \<noteq> [] \<and> our_slice \<noteq> their_slice"

function merge_loop ::
  "'a markers \<Rightarrow> 'a list \<Rightarrow> 'a list \<Rightarrow> 'a list \<Rightarrow> nat \<Rightarrow> hunk list \<Rightarrow> hunk list \<Rightarrow> 'a list \<Rightarrow> 'a conflict list
    \<Rightarrow> 'a list \<times> 'a conflict list" where
  "merge_loop mk base our_lines their_lines b os ts merged conflicts =
     (if os = [] \<and> ts = [] then (merged @ drop b base, conflicts)
      else case next_group os ts of (os', ts', g) \<Rightarrow>
        let merged = merged @ slice b (g_start g) base;
            our_slice = sideText base our_lines (g_ours g) (g_start g) (g_end g);
            their_slice = sideText base their_lines (g_theirs g) (g_start g) (g_end g);
            conflicts = (if disputed g our_slice their_slice
              then conflicts @ [\<lparr>cf_line = length merged, cf_base = slice (g_start g) (g_end g) base,
                                  cf_ours = our_slice, cf_theirs = their_slice\<rparr>]
              else conflicts)
        in merge_loop mk base our_lines their_lines (g_end g) os' ts'
             (merged @ decide mk g our_slice their_slice) conflicts)"
  by pat_completeness auto
termination
  by (relation "measure (\<lambda>(mk, base, o', t', b, os, ts, merged, conflicts). length os + length ts)")
     (auto intro: next_group_less)

declare merge_loop.simps [simp del]

definition MERGE_MARKERS :: "string markers" where
  "MERGE_MARKERS = \<lparr>mk_head = ''<<<<<<< yours'', mk_split = ''======='', mk_tail = ''>>>>>>> published''\<rparr>"

record text_conflict =
  tc_line :: nat
  tc_base :: string
  tc_ours :: string
  tc_theirs :: string

definition conflict_text :: "string conflict \<Rightarrow> text_conflict" where
  "conflict_text c = \<lparr>tc_line = cf_line c, tc_base = unlines (cf_base c), tc_ours = unlines (cf_ours c),
                      tc_theirs = unlines (cf_theirs c)\<rparr>"

definition merge_lines :: "'a markers \<Rightarrow> 'a list \<Rightarrow> 'a list \<Rightarrow> 'a list \<Rightarrow> 'a list \<times> 'a conflict list" where
  "merge_lines mk base ours theirs =
     merge_loop mk base ours theirs 0 (hunksOf base ours) (hunksOf base theirs) [] []"

definition mergeThreeWay :: "string \<Rightarrow> string \<Rightarrow> string \<Rightarrow> string \<times> text_conflict list" where
  "mergeThreeWay base ours theirs =
     (if ours = theirs then (ours, [])
      else if base = ours then (theirs, [])
      else if base = theirs then (ours, [])
      else case merge_lines MERGE_MARKERS (toLines base) (toLines ours) (toLines theirs) of
        (merged, conflicts) \<Rightarrow> (unlines merged, map conflict_text conflicts))"

subsection \<open>The diff\<close>

datatype diff_op = Context | Add | Remove

record 'a diff_line =
  dl_op :: diff_op
  dl_text :: 'a
  dl_before :: "nat option"
  dl_after :: "nat option"

definition removals :: "'a list \<Rightarrow> nat \<Rightarrow> nat \<Rightarrow> 'a diff_line list" where
  "removals a i j = map (\<lambda>k. \<lparr>dl_op = Remove, dl_text = a ! k, dl_before = Some (k + 1), dl_after = None\<rparr>) [i..<j]"

definition additions :: "'a list \<Rightarrow> nat \<Rightarrow> nat \<Rightarrow> 'a diff_line list" where
  "additions b i j = map (\<lambda>k. \<lparr>dl_op = Add, dl_text = b ! k, dl_before = None, dl_after = Some (k + 1)\<rparr>) [i..<j]"

fun diff_from :: "'a list \<Rightarrow> 'a list \<Rightarrow> nat \<Rightarrow> nat \<Rightarrow> (nat \<times> nat) list \<Rightarrow> 'a diff_line list" where
  "diff_from a b ai bi [] = removals a ai (length a) @ additions b bi (length b)"
| "diff_from a b ai bi ((pa, pb) # rest) =
     removals a ai pa @ additions b bi pb
     @ \<lparr>dl_op = Context, dl_text = a ! pa, dl_before = Some (pa + 1), dl_after = Some (pb + 1)\<rparr>
     # diff_from a b (pa + 1) (pb + 1) rest"

definition diff_lines :: "'a list \<Rightarrow> 'a list \<Rightarrow> 'a diff_line list" where
  "diff_lines a b = diff_from a b 0 0 (lcsPairs a b)"

definition CONTEXT_LINES :: nat where "CONTEXT_LINES = 3"

definition MAX_DIFF_LINES :: nat where "MAX_DIFF_LINES = 20000"

definition changed :: "'a diff_line \<Rightarrow> bool" where
  "changed l \<longleftrightarrow> dl_op l \<noteq> Context"

text \<open>The lines around the \<open>i\<close>-th are kept when it is changed.\<close>

definition keep_around :: "'a diff_line list \<Rightarrow> nat \<Rightarrow> bool list \<Rightarrow> bool list" where
  "keep_around ls i keep =
     (if \<not> changed (ls ! i) then keep
      else fold (\<lambda>j k. k[j := True]) [i - CONTEXT_LINES..<Suc (min (length ls - 1) (i + CONTEXT_LINES))] keep)"

definition keep_flags :: "'a diff_line list \<Rightarrow> bool list" where
  "keep_flags ls = fold (keep_around ls) [0..<length ls] (replicate (length ls) False)"

record 'a diff_hunk =
  dh_beforeStart :: nat
  dh_afterStart :: nat
  dh_lines :: "'a diff_line list"

fun firstLineNumber :: "('a diff_line \<Rightarrow> nat option) \<Rightarrow> 'a diff_line list \<Rightarrow> nat option" where
  "firstLineNumber key [] = None"
| "firstLineNumber key (l # ls) = (case key l of None \<Rightarrow> firstLineNumber key ls | Some n \<Rightarrow> Some n)"

definition flush :: "'a diff_hunk list \<Rightarrow> 'a diff_line list \<Rightarrow> 'a diff_hunk list" where
  "flush hunks current =
     (if current = [] then hunks
      else hunks @ [\<lparr>dh_beforeStart = (case firstLineNumber dl_before current of None \<Rightarrow> 0 | Some n \<Rightarrow> n),
                      dh_afterStart = (case firstLineNumber dl_after current of None \<Rightarrow> 0 | Some n \<Rightarrow> n),
                      dh_lines = current\<rparr>])"

fun gather :: "'a diff_hunk list \<Rightarrow> 'a diff_line list \<Rightarrow> ('a diff_line \<times> bool) list \<Rightarrow> 'a diff_hunk list" where
  "gather hunks current [] = flush hunks current"
| "gather hunks current ((l, kept) # rest) =
     (if kept then gather hunks (current @ [l]) rest else gather (flush hunks current) [] rest)"

definition toHunks :: "'a diff_line list \<Rightarrow> 'a diff_hunk list" where
  "toHunks ls = gather [] [] (zip ls (keep_flags ls))"

record text_diff =
  td_hunks :: "string diff_hunk list"
  td_added :: nat
  td_removed :: nat
  td_truncated :: bool

text \<open>The two counters go up with every line pushed, so they count the added and the removed lines.\<close>

definition diffFileText :: "string \<Rightarrow> string \<Rightarrow> text_diff" where
  "diffFileText before after =
     (if before = after then \<lparr>td_hunks = [], td_added = 0, td_removed = 0, td_truncated = False\<rparr>
      else let a = toLines before; b = toLines after in
        if MAX_DIFF_LINES < length a \<or> MAX_DIFF_LINES < length b
        then \<lparr>td_hunks = [], td_added = 0, td_removed = 0, td_truncated = True\<rparr>
        else let ls = diff_lines a b in
          \<lparr>td_hunks = toHunks ls, td_added = length (filter (\<lambda>l. dl_op l = Add) ls),
           td_removed = length (filter (\<lambda>l. dl_op l = Remove) ls), td_truncated = False\<rparr>)"

end
