(* ===== verification/MergeLaws.thy ===== *)
theory MergeLaws
  imports Merge
begin

text \<open>
  The matching is a longest common subsequence, the diff tells both revisions apart without losing a line, and the merge
  takes every change of either side: base, ours, theirs and the result fall into the same sequence of chunks.
\<close>

subsection \<open>The table holds the lengths of longest common subsequences\<close>

fun lcs_len :: "'a list \<Rightarrow> 'a list \<Rightarrow> nat" where
  "lcs_len [] b = 0"
| "lcs_len (x # xs) [] = 0"
| "lcs_len (x # xs) (y # ys) =
     (if x = y then lcs_len xs ys + 1 else max (lcs_len xs (y # ys)) (lcs_len (x # xs) ys))"

lemma lcs_len_Nil [simp]: "lcs_len a [] = 0"
  by (cases a) simp_all

lemma lcs_len_bound: "subseq zs a \<Longrightarrow> subseq zs b \<Longrightarrow> length zs \<le> lcs_len a b"
proof (induction a b arbitrary: zs rule: lcs_len.induct)
  case (3 x xs y ys)
  show ?case
  proof (cases zs)
    case (Cons z zs')
    show ?thesis
    proof (cases "x = y")
      case True
      have "length zs' \<le> lcs_len xs ys" if "z = x" using that True 3 Cons by simp
      moreover have "length zs \<le> lcs_len xs ys" if "z \<noteq> x" using that True 3(1) [of zs] 3(4,5) Cons by simp
      ultimately show ?thesis using True Cons by fastforce
    next
      case False
      have "length zs \<le> lcs_len (x # xs) ys" if "z = x" using that False 3(3) [of zs] 3(4,5) Cons by simp
      moreover have "length zs \<le> lcs_len xs (y # ys)" if "z \<noteq> x" using that False 3(2) [of zs] 3(4,5) Cons by simp
      ultimately show ?thesis using False by fastforce
    qed
  qed simp
qed auto

definition suffix_lengths :: "'a list \<Rightarrow> 'a list \<Rightarrow> nat list" where
  "suffix_lengths xs ys = map (\<lambda>j. lcs_len xs (drop j ys)) [0..<Suc (length ys)]"

lemma suffix_lengths_Cons: "suffix_lengths xs (y # ys) = lcs_len xs (y # ys) # suffix_lengths xs ys"
  unfolding suffix_lengths_def by (simp add: upt_conv_Cons map_Suc_upt [symmetric] comp_def del: upt_Suc)

lemma suffix_lengths_0 [simp]: "suffix_lengths xs ys ! 0 = lcs_len xs ys"
  by (simp add: suffix_lengths_def upt_conv_Cons del: upt_Suc)

lemma table_row_lengths: "table_row x ys (suffix_lengths xs ys) = suffix_lengths (x # xs) ys"
proof (induction ys)
  case Nil
  show ?case by (simp add: suffix_lengths_def)
next
  case (Cons y ys)
  then show ?case by (simp add: suffix_lengths_Cons Let_def)
qed

lemma lcs_table_rows: "lcs_table a b = map (\<lambda>i. suffix_lengths (drop i a) b) [0..<Suc (length a)]"
proof (induction a)
  case Nil
  show ?case by (simp add: suffix_lengths_def map_replicate_const)
next
  case (Cons x xs)
  then have "lcs_table xs b ! 0 = suffix_lengths xs b" by (simp add: upt_conv_Cons del: upt_Suc)
  then show ?case
    using Cons by (simp add: Let_def table_row_lengths upt_conv_Cons map_Suc_upt [symmetric] comp_def del: upt_Suc)
qed

lemma lcs_table_nth:
  "i \<le> length a \<Longrightarrow> j \<le> length b \<Longrightarrow> lcs_table a b ! i ! j = lcs_len (drop i a) (drop j b)"
  by (simp add: lcs_table_rows suffix_lengths_def del: upt_Suc)

subsection \<open>The walk finds one\<close>

fun matched :: "'a list \<Rightarrow> 'a list \<Rightarrow> nat \<Rightarrow> nat \<Rightarrow> (nat \<times> nat) list \<Rightarrow> bool" where
  "matched a b i j [] \<longleftrightarrow> True"
| "matched a b i j ((p, q) # ps) \<longleftrightarrow>
     i \<le> p \<and> p < length a \<and> j \<le> q \<and> q < length b \<and> a ! p = b ! q \<and> matched a b (Suc p) (Suc q) ps"

lemma matched_mono: "matched a b i j ps \<Longrightarrow> i' \<le> i \<Longrightarrow> j' \<le> j \<Longrightarrow> matched a b i' j' ps"
  by (cases ps) auto

lemma matched_walk: "matched a b i j (walk_table t a b i j)"
proof (induction t a b i j rule: walk_table.induct)
  case (1 t a b i j)
  show ?case
    using 1 matched_mono [of a b "i + 1" j _ i j] matched_mono [of a b i "j + 1" _ i j]
    by (subst walk_table.simps) auto
qed

lemma length_walk:
  "t = lcs_table a b \<Longrightarrow> i \<le> length a \<Longrightarrow> j \<le> length b \<Longrightarrow>
   length (walk_table t a b i j) = lcs_len (drop i a) (drop j b)"
proof (induction t a b i j rule: walk_table.induct)
  case (1 t a b i j)
  show ?case
  proof (cases "i < length a \<and> j < length b")
    case True
    then have drops: "drop i a = a ! i # drop (Suc i) a" "drop j b = b ! j # drop (Suc j) b"
      by (simp_all add: Cons_nth_drop_Suc)
    have t: "t ! (i + 1) ! j = lcs_len (drop (Suc i) a) (drop j b)" "t ! i ! (j + 1) = lcs_len (drop i a) (drop (Suc j) b)"
      using True 1(4) by (simp_all add: lcs_table_nth)
    show ?thesis
      using True 1 t drops by (subst walk_table.simps) (auto simp: max_def not_le)
  next
    case False
    then show ?thesis using 1 by (subst walk_table.simps) (auto simp: le_less)
  qed
qed

lemma drop_at: "i \<le> p \<Longrightarrow> p < length xs \<Longrightarrow> drop i xs = take (p - i) (drop i xs) @ xs ! p # drop (Suc p) xs"
proof -
  assume p: "i \<le> p" "p < length xs"
  then have "drop i xs ! (p - i) = xs ! p" "drop (Suc (p - i)) (drop i xs) = drop (Suc p) xs" by simp_all
  then show ?thesis using id_take_nth_drop [of "p - i" "drop i xs"] p by (metis diff_less_mono length_drop)
qed

lemma matched_subseqs:
  "matched a b i j ps \<Longrightarrow> subseq (map (\<lambda>(p, q). a ! p) ps) (drop i a) \<and> subseq (map (\<lambda>(p, q). a ! p) ps) (drop j b)"
proof (induction ps arbitrary: i j)
  case (Cons pq ps)
  obtain p q where pq: "pq = (p, q)" by force
  let ?zs = "map (\<lambda>(p, q). a ! p) ps"
  have "subseq (a ! p # ?zs) (take (p - i) (drop i a) @ a ! p # drop (Suc p) a)"
    "subseq (a ! p # ?zs) (take (q - j) (drop j b) @ a ! p # drop (Suc q) b)"
    using Cons pq by (auto intro!: list_emb_append2)
  moreover have "drop i a = take (p - i) (drop i a) @ a ! p # drop (Suc p) a"
    "drop j b = take (q - j) (drop j b) @ a ! p # drop (Suc q) b"
    using Cons.prems pq drop_at [of i p a] drop_at [of j q b] by auto
  ultimately show ?case using pq by simp
qed simp

text \<open>The matched lines are a common subsequence, and no common subsequence is longer.\<close>

lemma lcsPairs_matched: "matched a b 0 0 (lcsPairs a b)"
  by (simp add: lcsPairs_def matched_walk)

lemma length_lcsPairs: "length (lcsPairs a b) = lcs_len a b"
  by (simp add: lcsPairs_def length_walk)

subsection \<open>Slices\<close>

lemma slice_empty [simp]: "j \<le> i \<Longrightarrow> slice i j xs = []"
  by (simp add: slice_def)

lemma slice_append: "i \<le> j \<Longrightarrow> j \<le> k \<Longrightarrow> slice i j xs @ slice j k xs = slice i k xs"
proof -
  assume "i \<le> j" "j \<le> k"
  then have "k - i = (j - i) + (k - j)" by simp
  then have "slice i k xs = take (j - i) (drop i xs) @ take (k - j) (drop (j - i) (drop i xs))"
    unfolding slice_def by (simp only: take_add)
  then show ?thesis using \<open>i \<le> j\<close> by (simp add: slice_def)
qed

lemma slice_drop: "i \<le> j \<Longrightarrow> slice i j xs @ drop j xs = drop i xs"
proof -
  assume "i \<le> j"
  then have "drop j xs = drop (j - i) (drop i xs)" by simp
  then show ?thesis by (metis append_take_drop_id slice_def)
qed

lemma slice_first: "i < j \<Longrightarrow> i < length xs \<Longrightarrow> slice i j xs = xs ! i # slice (Suc i) j xs"
  by (simp add: slice_def Cons_nth_drop_Suc [symmetric] take_Cons')

lemma length_slice: "j \<le> length xs \<Longrightarrow> length (slice i j xs) = j - i"
  by (simp add: slice_def)

lemma slice_all: "slice i (length xs) xs = drop i xs"
  by (simp add: slice_def)

subsection \<open>The changes of a side\<close>

text \<open>The changes \<open>hs\<close> lead from \<open>base\<close> to \<open>side\<close>, starting at the positions \<open>b\<close> and \<open>s\<close>: outside of them the two agree,
  and between two of them there is a line on which they do.\<close>

fun leads :: "'a list \<Rightarrow> 'a list \<Rightarrow> nat \<Rightarrow> nat \<Rightarrow> hunk list \<Rightarrow> bool" where
  "leads base side b s [] \<longleftrightarrow> b \<le> length base \<and> s \<le> length side \<and> drop b base = drop s side"
| "leads base side b s (h # hs) \<longleftrightarrow>
     b \<le> bStart h \<and> s \<le> sStart h \<and> bStart h \<le> bEnd h \<and> bEnd h \<le> length base
     \<and> sStart h \<le> sEnd h \<and> sEnd h \<le> length side
     \<and> slice b (bStart h) base = slice s (sStart h) side
     \<and> (hs \<noteq> [] \<longrightarrow> bEnd h < bStart (hd hs)) \<and> leads base side (bEnd h) (sEnd h) hs"

lemma leads_back:
  assumes "leads base side (Suc b) (Suc s) hs" "b < length base" "s < length side" "base ! b = side ! s"
  shows "leads base side b s hs \<and> (hs \<noteq> [] \<longrightarrow> b < bStart (hd hs))"
proof (cases hs)
  case Nil
  then show ?thesis using assms by (simp add: Cons_nth_drop_Suc [symmetric])
next
  case (Cons h hs')
  then show ?thesis using assms by (auto simp: slice_first)
qed

lemma hunks_from_leads:
  "matched base side b s ps \<Longrightarrow> b \<le> length base \<Longrightarrow> s \<le> length side \<Longrightarrow>
   leads base side b s (hunks_from (length base) (length side) b s ps)"
proof (induction ps arbitrary: b s)
  case Nil
  then show ?case by auto
next
  case (Cons pq ps)
  obtain p q where pq: "pq = (p, q)" by force
  let ?hs = "hunks_from (length base) (length side) (p + 1) (q + 1) ps"
  have "leads base side (Suc p) (Suc q) ?hs" using Cons pq by simp
  then have "leads base side p q ?hs \<and> (?hs \<noteq> [] \<longrightarrow> p < bStart (hd ?hs))"
    using leads_back [of base side p q ?hs] Cons.prems pq by simp
  then show ?case using Cons.prems pq by (auto simp: le_less)
qed

lemma hunksOf_leads: "leads base side 0 0 (hunksOf base side)"
  unfolding hunksOf_def by (rule hunks_from_leads) (simp_all add: lcsPairs_matched)

lemma leads_bounds:
  "leads base side b s hs \<Longrightarrow> h \<in> set hs \<Longrightarrow> b \<le> bStart h \<and> bStart h \<le> bEnd h \<and> bEnd h \<le> length base"
  by (induction hs arbitrary: b s) fastforce+

lemma leads_apart: "leads base side b s hs \<Longrightarrow> sorted_wrt (\<lambda>h h'. bEnd h < bStart h') hs"
proof (induction hs arbitrary: b s)
  case (Cons h hs)
  then have rest: "leads base side (bEnd h) (sEnd h) hs" "hs \<noteq> [] \<longrightarrow> bEnd h < bStart (hd hs)" by auto
  have "bEnd h < bStart h'" if mem: "h' \<in> set hs" for h'
  proof -
    obtain k ks where "hs = k # ks" using mem by (cases hs) auto
    then have "bStart k \<le> bStart h'" using mem rest(1) leads_bounds [of base side "bEnd k" "sEnd k" ks h'] by auto
    then show ?thesis using rest(2) \<open>hs = k # ks\<close> by simp
  qed
  then show ?case using Cons.IH [OF rest(1)] by simp
qed simp

subsection \<open>What a group is\<close>

definition group_inv :: "hunk list \<Rightarrow> hunk list \<Rightarrow> nat \<Rightarrow> hunk list \<Rightarrow> hunk list \<Rightarrow> group \<Rightarrow> bool" where
  "group_inv O' T' n os ts g \<longleftrightarrow> O' = g_ours g @ os \<and> T' = g_theirs g @ ts \<and> g_start g \<le> g_end g \<and> g_end g \<le> n
     \<and> (\<forall>h \<in> set (g_ours g @ g_theirs g). bEnd h \<le> g_end g)
     \<and> (\<forall>h \<in> set (O' @ T'). g_start g \<le> bStart h \<and> bStart h \<le> bEnd h \<and> bEnd h \<le> n)"

text \<open>A group with changes of one side is a single change; one with changes of both has two that clash.\<close>

definition group_clash :: "group \<Rightarrow> bool" where
  "group_clash g \<longleftrightarrow>
     (if g_theirs g = [] then (g_ours g = [] \<and> g_end g = g_start g)
        \<or> (\<exists>h. g_ours g = [h] \<and> g_start g = bStart h \<and> g_end g = bEnd h)
      else if g_ours g = [] then \<exists>h. g_theirs g = [h] \<and> g_start g = bStart h \<and> g_end g = bEnd h
      else \<exists>h \<in> set (g_ours g). \<exists>h' \<in> set (g_theirs g). clashes h h')"

lemma clashes_sym: "clashes a b \<longleftrightarrow> clashes b a"
  by (auto simp: clashes_def)

lemma widen_start: "g_start g \<le> bStart h \<Longrightarrow> g_start (widen h g) = g_start g"
  by (simp add: widen_def)

lemma inv_our_change:
  "group_inv O' T' n (h # hs) ts g \<Longrightarrow> group_inv O' T' n hs ts (widen h (g\<lparr>g_ours := g_ours g @ [h]\<rparr>))"
  by (auto simp: group_inv_def widen_def le_max_iff_disj min_def)

lemma inv_their_change:
  "group_inv O' T' n os (h # hs) g \<Longrightarrow> group_inv O' T' n os hs (widen h (g\<lparr>g_theirs := g_theirs g @ [h]\<rparr>))"
  by (auto simp: group_inv_def widen_def le_max_iff_disj min_def)

lemma take_ours_inv:
  assumes "take_ours w hs g = (hs', g')" "group_inv O' T' n hs ts g"
  shows "group_inv O' T' n hs' ts g' \<and> g_start g' = g_start g"
  using assms
proof (induction w hs g rule: take_ours.induct)
  case (2 w h hs g)
  show ?case
  proof (cases "joins h w g")
    case True
    have "group_inv O' T' n hs ts (widen h (g\<lparr>g_ours := g_ours g @ [h]\<rparr>))"
      by (rule inv_our_change [OF 2(3)])
    moreover have "g_start (widen h (g\<lparr>g_ours := g_ours g @ [h]\<rparr>)) = g_start g"
      using 2(3) by (simp add: group_inv_def widen_def)
    ultimately show ?thesis using 2 True by simp
  qed (use 2 in auto)
qed auto

lemma take_theirs_inv:
  assumes "take_theirs w hs g = (hs', g')" "group_inv O' T' n os hs g"
  shows "group_inv O' T' n os hs' g' \<and> g_start g' = g_start g"
  using assms
proof (induction w hs g rule: take_theirs.induct)
  case (2 w h hs g)
  show ?case
  proof (cases "joins h (w\<lparr>bEnd := g_end g\<rparr>) g")
    case True
    have "group_inv O' T' n os hs (widen h (g\<lparr>g_theirs := g_theirs g @ [h]\<rparr>))"
      by (rule inv_their_change [OF 2(3)])
    moreover have "g_start (widen h (g\<lparr>g_theirs := g_theirs g @ [h]\<rparr>)) = g_start g"
      using 2(3) by (simp add: group_inv_def widen_def)
    ultimately show ?thesis using 2 True by simp
  qed (use 2 in auto)
qed auto

text \<open>A change of the same side lies behind the group, so it does not join it while the group is that side's alone.\<close>

lemma take_ours_clash:
  assumes "take_ours w hs g = (hs', g')" "group_inv O' T' n hs ts g" "group_clash g"
    and "sorted_wrt (\<lambda>h h'. bEnd h < bStart h') O'"
    and "bStart w = g_start g" "bEnd w \<le> g_end g" "g_ours g = [] \<longrightarrow> bEnd w = g_end g"
  shows "group_clash g'"
  using assms(1,2,3,5,6,7)
proof (induction w hs g rule: take_ours.induct)
  case (2 w h hs g)
  show ?case
  proof (cases "joins h w g")
    case False
    then show ?thesis using 2 by simp
  next
    case True
    let ?g = "widen h (g\<lparr>g_ours := g_ours g @ [h]\<rparr>)"
    have O': "O' = g_ours g @ h # hs" and bounds: "g_start g \<le> bStart h" "bStart h \<le> bEnd h" "g_start g \<le> g_end g"
      using 2(3) by (auto simp: group_inv_def)
    have inv: "group_inv O' T' n hs ts ?g" by (rule inv_our_change [OF 2(3)])
    consider (fresh) "g_ours g = []" "g_theirs g = []"
      | (mine) k where "g_ours g = [k]" "g_theirs g = []" "g_end g = bEnd k"
      | (theirs) k where "g_ours g = []" "g_theirs g = [k]" "g_start g = bStart k" "g_end g = bEnd k"
      | (both) "g_ours g \<noteq> []" "g_theirs g \<noteq> []" "\<exists>h \<in> set (g_ours g). \<exists>h' \<in> set (g_theirs g). clashes h h'"
      using 2(4) by (auto simp: group_clash_def split: if_splits)
    then have "group_clash ?g"
    proof cases
      case fresh
      then show ?thesis using True 2(4) bounds by (simp add: joins_def group_clash_def widen_def)
    next
      case (mine k)
      then have "bEnd k < bStart h" using assms(4) O' by simp
      then have "\<not> joins h w g" using mine 2(5,6) bounds by (auto simp: joins_def clashes_def)
      then show ?thesis using True by simp
    next
      case (theirs k)
      then have "clashes h w" using True by (simp add: joins_def)
      then have "clashes h k" using theirs 2(5,7) by (auto simp: clashes_def split: if_splits)
      then show ?thesis using theirs by (simp add: group_clash_def widen_def)
    next
      case both
      then show ?thesis by (auto simp: group_clash_def widen_def)
    qed
    moreover have "bStart w = g_start ?g" "bEnd w \<le> g_end ?g" using 2(5,6) bounds by (simp_all add: widen_def)
    moreover have "g_ours ?g \<noteq> []" by (simp add: widen_def)
    ultimately show ?thesis using 2(1) [OF True _ inv] 2(2) True by simp
  qed
qed auto

lemma take_theirs_clash:
  assumes "take_theirs w hs g = (hs', g')" "group_inv O' T' n os hs g" "group_clash g"
    and "sorted_wrt (\<lambda>h h'. bEnd h < bStart h') T'" and "bStart w = g_start g"
  shows "group_clash g'"
  using assms(1,2,3,5)
proof (induction w hs g rule: take_theirs.induct)
  case (2 w h hs g)
  show ?case
  proof (cases "joins h (w\<lparr>bEnd := g_end g\<rparr>) g")
    case False
    then show ?thesis using 2 by simp
  next
    case True
    let ?g = "widen h (g\<lparr>g_theirs := g_theirs g @ [h]\<rparr>)"
    have T': "T' = g_theirs g @ h # hs" and bounds: "g_start g \<le> bStart h" "bStart h \<le> bEnd h" "g_start g \<le> g_end g"
      using 2(3) by (auto simp: group_inv_def)
    have inv: "group_inv O' T' n os hs ?g" by (rule inv_their_change [OF 2(3)])
    consider (fresh) "g_ours g = []" "g_theirs g = []"
      | (mine) k where "g_ours g = [k]" "g_theirs g = []" "g_start g = bStart k" "g_end g = bEnd k"
      | (theirs) k where "g_ours g = []" "g_theirs g = [k]" "g_end g = bEnd k"
      | (both) "g_ours g \<noteq> []" "g_theirs g \<noteq> []" "\<exists>h \<in> set (g_ours g). \<exists>h' \<in> set (g_theirs g). clashes h h'"
      using 2(4) by (auto simp: group_clash_def split: if_splits)
    then have "group_clash ?g"
    proof cases
      case fresh
      then show ?thesis using True 2(4) bounds by (simp add: joins_def group_clash_def widen_def)
    next
      case (mine k)
      then have "clashes h (w\<lparr>bEnd := g_end g\<rparr>)" using True by (simp add: joins_def)
      then have "clashes k h" using mine 2(5) by (auto simp: clashes_def)
      then show ?thesis using mine by (simp add: group_clash_def widen_def)
    next
      case (theirs k)
      then have "bEnd k < bStart h" using assms(4) T' by simp
      then have "\<not> joins h (w\<lparr>bEnd := g_end g\<rparr>) g" using theirs 2(5) bounds by (auto simp: joins_def clashes_def)
      then show ?thesis using True by simp
    next
      case both
      then show ?thesis by (auto simp: group_clash_def widen_def)
    qed
    moreover have "bStart w = g_start ?g" using 2(5) bounds by (simp add: widen_def)
    ultimately show ?thesis using 2(1) [OF True _ inv] 2(2) True by simp
  qed
qed auto

lemma take_ours_stop:
  "length (fst (take_ours w hs g)) = length hs \<Longrightarrow> take_ours w hs g = (hs, g) \<and> (hs \<noteq> [] \<longrightarrow> \<not> joins (hd hs) w g)"
  using take_ours_first [of "hd hs" w g "tl hs"] by (cases hs) fastforce+

lemma take_theirs_stop:
  "length (fst (take_theirs w hs g)) = length hs \<Longrightarrow>
   take_theirs w hs g = (hs, g) \<and> (hs \<noteq> [] \<longrightarrow> \<not> joins (hd hs) (w\<lparr>bEnd := g_end g\<rparr>) g)"
  using take_theirs_first [where h = "hd hs" and hs = "tl hs" and w = w and g = g] by (cases hs) fastforce+

text \<open>What does not join a group that has a change lies behind it.\<close>

lemma behind_group:
  assumes "\<not> joins h w g" "bStart w = g_start g" "bEnd w = g_end g" "g_ours g \<noteq> [] \<or> g_theirs g \<noteq> []"
    and "g_start g \<le> bStart h" "bStart h \<le> bEnd h"
  shows "g_end g \<le> bStart h"
  using assms by (auto simp: joins_def clashes_def not_less split: if_splits)

lemma grow_group:
  assumes "grow os ts g = (os', ts', g')" "group_inv O' T' n os ts g" "group_clash g"
    and "sorted_wrt (\<lambda>h h'. bEnd h < bStart h') O'" "sorted_wrt (\<lambda>h h'. bEnd h < bStart h') T'"
  shows "group_inv O' T' n os' ts' g' \<and> group_clash g' \<and> g_start g' = g_start g
    \<and> (g_ours g' \<noteq> [] \<or> g_theirs g' \<noteq> [] \<longrightarrow>
        (os' \<noteq> [] \<longrightarrow> g_end g' \<le> bStart (hd os')) \<and> (ts' \<noteq> [] \<longrightarrow> g_end g' \<le> bStart (hd ts')))"
  using assms(1,2,3)
proof (induction os ts g rule: grow.induct)
  case (1 os ts g)
  let ?w = "\<lparr>bStart = g_start g, bEnd = g_end g, sStart = 0, sEnd = 0\<rparr>"
  obtain os1 g1 where o1: "take_ours ?w os g = (os1, g1)" by force
  obtain ts1 g2 where t1: "take_theirs ?w ts g1 = (ts1, g2)" by force
  have once: "grow_once os ts g = (os1, ts1, g2)" using o1 t1 by (simp add: grow_once_def Let_def)
  have inv1: "group_inv O' T' n os1 ts g1" "g_start g1 = g_start g" using take_ours_inv [OF o1 1(3)] by auto
  have inv2: "group_inv O' T' n os1 ts1 g2" "g_start g2 = g_start g" using take_theirs_inv [OF t1 inv1(1)] inv1(2) by auto
  have "group_clash g1" using take_ours_clash [OF o1 1(3,4) assms(4)] by simp
  then have clash2: "group_clash g2" using take_theirs_clash [OF t1 inv1(1) _ assms(5)] inv1(2) by simp
  have le: "length os1 \<le> length os" "length ts1 \<le> length ts"
    using take_ours_shrinks [of ?w os g] take_theirs_shrinks [of ?w ts g1] o1 t1 by simp_all
  show ?case
  proof (cases "length os1 + length ts1 < length os + length ts")
    case True
    then have "grow os1 ts1 g2 = (os', ts', g')" using 1(2) once by (simp add: grow.simps [of os])
    then show ?thesis using 1(1) [OF once [symmetric] refl True _ inv2(1) clash2] inv2(2) by simp
  next
    case False
    then have len: "length os1 = length os" "length ts1 = length ts" using le by simp_all
    have same: "os' = os1" "ts' = ts1" "g' = g2" using False 1(2) once by (simp_all add: grow.simps [of os])
    have stop1: "os1 = os" "g1 = g" "os \<noteq> [] \<longrightarrow> \<not> joins (hd os) ?w g"
      using take_ours_stop [of ?w os g] o1 len(1) by simp_all
    have stop2: "ts1 = ts" "g2 = g" "ts \<noteq> [] \<longrightarrow> \<not> joins (hd ts) ?w g"
      using take_theirs_stop [of ?w ts g1] t1 len(2) stop1(2) by simp_all
    have "g_end g \<le> bStart h"
      if "\<not> joins h ?w g" "h \<in> set (os @ ts)" "g_ours g \<noteq> [] \<or> g_theirs g \<noteq> []" for h
      using behind_group [OF that(1) _ _ that(3)] that(2) 1(3) by (fastforce simp: group_inv_def)
    then show ?thesis using same stop1 stop2 inv2 clash2 hd_in_set by fastforce
  qed
qed

lemma first_start_least:
  assumes "leads base our_lines b so os" "leads base their_lines b st ts" "h \<in> set (os @ ts)"
  shows "b \<le> first_start os ts \<and> first_start os ts \<le> bStart h"
proof -
  have hd: "bStart (hd hs) \<le> bStart k" if lead: "leads base side b s hs" and mem: "k \<in> set hs"
    for side :: "'a list" and s hs k
  proof (cases hs)
    case (Cons x xs)
    then show ?thesis using lead mem leads_bounds [of base side "bEnd x" "sEnd x" xs k] by auto
  qed (use mem in simp)
  have "b \<le> bStart (hd os)" if "os \<noteq> []" using that assms(1) leads_bounds by fastforce
  moreover have "b \<le> bStart (hd ts)" if "ts \<noteq> []" using that assms(2) leads_bounds by fastforce
  ultimately show ?thesis
    using assms(3) hd [OF assms(1), of h] hd [OF assms(2), of h]
    by (cases os; cases ts) (auto simp: first_start_def min_def)
qed

lemma next_group_ok:
  assumes lead: "leads base our_lines b so os" "leads base their_lines b st ts" and some: "os \<noteq> [] \<or> ts \<noteq> []"
    and "next_group os ts = (os', ts', g)"
  shows "os = g_ours g @ os' \<and> ts = g_theirs g @ ts' \<and> b \<le> g_start g \<and> g_start g \<le> g_end g \<and> g_end g \<le> length base
    \<and> (\<forall>h \<in> set (g_ours g @ g_theirs g). g_start g \<le> bStart h \<and> bEnd h \<le> g_end g)
    \<and> (os' \<noteq> [] \<longrightarrow> g_end g \<le> bStart (hd os')) \<and> (ts' \<noteq> [] \<longrightarrow> g_end g \<le> bStart (hd ts'))
    \<and> (g_ours g \<noteq> [] \<or> g_theirs g \<noteq> []) \<and> group_clash g"
proof -
  let ?s = "first_start os ts"
  let ?g = "\<lparr>g_ours = [], g_theirs = [], g_start = ?s, g_end = ?s\<rparr>"
  obtain h where h: "h \<in> set (os @ ts)" using some by (cases os; cases ts) auto
  have bounds: "\<forall>h \<in> set (os @ ts). ?s \<le> bStart h \<and> bStart h \<le> bEnd h \<and> bEnd h \<le> length base"
    using leads_bounds [OF lead(1)] leads_bounds [OF lead(2)] first_start_least [OF lead] by auto
  then have s: "b \<le> ?s" "?s \<le> length base" using first_start_least [OF lead h] h by fastforce+
  have inv: "group_inv os ts (length base) os ts ?g" using bounds s by (simp add: group_inv_def)
  have "grow os ts ?g = (os', ts', g)" using assms(4) by (simp add: next_group_def Let_def)
  moreover have "group_clash ?g" by (simp add: group_clash_def)
  ultimately have "group_inv os ts (length base) os' ts' g \<and> group_clash g \<and> g_start g = g_start ?g
    \<and> (g_ours g \<noteq> [] \<or> g_theirs g \<noteq> [] \<longrightarrow>
        (os' \<noteq> [] \<longrightarrow> g_end g \<le> bStart (hd os')) \<and> (ts' \<noteq> [] \<longrightarrow> g_end g \<le> bStart (hd ts')))"
    using grow_group inv leads_apart [OF lead(1)] leads_apart [OF lead(2)] by blast
  then
  have out: "group_inv os ts (length base) os' ts' g" "group_clash g" "g_start g = ?s"
    "g_ours g \<noteq> [] \<or> g_theirs g \<noteq> [] \<longrightarrow>
       (os' \<noteq> [] \<longrightarrow> g_end g \<le> bStart (hd os')) \<and> (ts' \<noteq> [] \<longrightarrow> g_end g \<le> bStart (hd ts'))"
    by simp_all
  have "g_ours g \<noteq> [] \<or> g_theirs g \<noteq> []"
    using next_group_progress [OF some assms(4)] out(1) by (auto simp: group_inv_def)
  then show ?thesis using out s unfolding group_inv_def by auto
qed

subsection \<open>The text of a side\<close>

lemma drop_slice: "drop k (slice i j xs) = slice (i + k) j xs"
  by (simp add: slice_def drop_take add.commute)

lemma take_slice: "i + k \<le> j \<Longrightarrow> take k (slice i j xs) = slice i (i + k) xs"
  by (simp add: slice_def min_def)

lemma leads_advance:
  assumes "leads base side b s hs" "b \<le> e" "e \<le> length base" "hs \<noteq> [] \<longrightarrow> e \<le> bStart (hd hs)"
  shows "leads base side e (s + (e - b)) hs \<and> slice s (s + (e - b)) side = slice b e base \<and> s + (e - b) \<le> length side"
proof (cases hs)
  case Nil
  then have eq: "drop b base = drop s side" "b \<le> length base" "s \<le> length side" using assms(1) by simp_all
  then have "length base - b = length side - s" by (metis length_drop)
  then have len: "s + (e - b) \<le> length side" using assms(2,3) eq(3) by arith
  have "drop (e - b) (drop b base) = drop (e - b) (drop s side)" "take (e - b) (drop b base) = take (e - b) (drop s side)"
    using eq(1) by simp_all
  then have "drop e base = drop (s + (e - b)) side" "slice b e base = slice s (s + (e - b)) side"
    using assms(2) by (simp_all add: slice_def add.commute)
  then show ?thesis using Nil assms(3) len by (metis leads.simps(1))
next
  case (Cons h hs')
  then have h: "s \<le> sStart h" "sStart h \<le> length side" "bStart h \<le> length base" "e \<le> bStart h"
    "slice b (bStart h) base = slice s (sStart h) side"
    using assms by auto
  then have "bStart h - b = sStart h - s" using length_slice by metis
  then have len: "s + (e - b) \<le> sStart h" "b + (e - b) = e" using assms(2) h by simp_all
  have "slice e (bStart h) base = slice (s + (e - b)) (sStart h) side"
    using arg_cong [OF h(5), of "drop (e - b)"] len(2) by (simp add: drop_slice)
  moreover have "slice b e base = slice s (s + (e - b)) side"
    using arg_cong [OF h(5), of "take (e - b)"] len h(4) take_slice [of b "e - b" "bStart h" base]
      take_slice [of s "e - b" "sStart h" side] by simp
  ultimately show ?thesis using Cons assms(1) len h by auto
qed

lemma side_from_reads:
  assumes "leads base side b s (gs @ rest)" "b \<le> to" "to \<le> length base"
    and "\<forall>h \<in> set gs. from \<le> bStart h \<and> bEnd h \<le> to" "rest \<noteq> [] \<longrightarrow> to \<le> bStart (hd rest)"
  shows "\<exists>s'. s \<le> s' \<and> s' \<le> length side \<and> leads base side to s' rest
    \<and> slice s s' side = side_from base side from to b gs"
  using assms(1,2,4)
proof (induction gs arbitrary: b s)
  case Nil
  have "side_from base side from to b [] = slice b to base" by simp
  moreover have "leads base side b s rest" "b \<le> to" using Nil by simp_all
  ultimately show ?case using leads_advance [of base side b s rest to] assms(3,5) le_add1 by metis
next
  case (Cons h gs)
  then have h: "s \<le> sStart h" "sStart h \<le> sEnd h" "b \<le> bStart h" "bStart h \<le> bEnd h" "bEnd h \<le> to" "from \<le> bStart h"
    "slice b (bStart h) base = slice s (sStart h) side" "leads base side (bEnd h) (sEnd h) (gs @ rest)"
    by auto
  obtain s' where s': "sEnd h \<le> s'" "s' \<le> length side" "leads base side to s' rest"
    "slice (sEnd h) s' side = side_from base side from to (bEnd h) gs"
    using Cons.IH [OF h(8,5)] Cons.prems(3) by auto
  have "slice s s' side = slice s (sStart h) side @ slice (sStart h) (sEnd h) side @ slice (sEnd h) s' side"
    using slice_append [OF h(2) s'(1), of side] slice_append [OF h(1), of s' side] h(2) s'(1) by simp
  moreover have "(if b < bStart h then slice b (bStart h) base else []) = slice s (sStart h) side"
    using h(3,7) by (cases "b = bStart h") auto
  ultimately have "slice s s' side = side_from base side from to b (h # gs)" using h s'(4) by simp
  then show ?case using s' h by (intro exI [of _ s']) simp
qed

text \<open>Across a group a side reads what \<open>sideText\<close> gives, after the lines of the base before it.\<close>

lemma sideText_reads:
  assumes "leads base side b s (gs @ rest)" "b \<le> from" "from \<le> to" "to \<le> length base"
    and "\<forall>h \<in> set gs. from \<le> bStart h \<and> bEnd h \<le> to" "rest \<noteq> [] \<longrightarrow> to \<le> bStart (hd rest)"
  shows "\<exists>s'. s \<le> s' \<and> s' \<le> length side \<and> leads base side to s' rest
    \<and> slice s s' side = slice b from base @ sideText base side gs from to"
proof -
  have "gs @ rest \<noteq> [] \<longrightarrow> from \<le> bStart (hd (gs @ rest))" using assms(3,5,6) by (cases gs) auto
  then have adv: "leads base side from (s + (from - b)) (gs @ rest)"
    "slice s (s + (from - b)) side = slice b from base"
    using leads_advance [OF assms(1,2)] assms(3,4) by auto
  obtain s' where s': "s + (from - b) \<le> s'" "s' \<le> length side" "leads base side to s' rest"
    "slice (s + (from - b)) s' side = sideText base side gs from to"
    using side_from_reads [OF adv(1) assms(3,4,5,6)] by (auto simp: sideText_def)
  have "slice s s' side = slice s (s + (from - b)) side @ slice (s + (from - b)) s' side"
    using s'(1) by (simp add: slice_append)
  then show ?thesis using adv(2) s' by (intro exI [of _ s']) simp
qed

subsection \<open>The merge in chunks\<close>

text \<open>What a merge consists of: lines nobody changed, lines one side changed, and lines both changed.\<close>

datatype 'a chunk =
    Kept "'a list"
  | Ours "'a list" "'a list"
  | Theirs "'a list" "'a list"
  | Both "'a list" "'a list" "'a list"

fun base_of :: "'a chunk \<Rightarrow> 'a list" where
  "base_of (Kept ls) = ls" | "base_of (Ours b o1) = b" | "base_of (Theirs b t) = b" | "base_of (Both b o1 t) = b"

fun ours_of :: "'a chunk \<Rightarrow> 'a list" where
  "ours_of (Kept ls) = ls" | "ours_of (Ours b o1) = o1" | "ours_of (Theirs b t) = b" | "ours_of (Both b o1 t) = o1"

fun theirs_of :: "'a chunk \<Rightarrow> 'a list" where
  "theirs_of (Kept ls) = ls" | "theirs_of (Ours b o1) = b" | "theirs_of (Theirs b t) = t" | "theirs_of (Both b o1 t) = t"

text \<open>A change of one side is taken, a change both made alike is taken once, any other is marked.\<close>

fun resolved :: "'a markers \<Rightarrow> 'a chunk \<Rightarrow> 'a list" where
  "resolved mk (Kept ls) = ls"
| "resolved mk (Ours b o1) = o1"
| "resolved mk (Theirs b t) = t"
| "resolved mk (Both b o1 t) = (if o1 = t then o1 else mk_head mk # o1 @ mk_split mk # t @ [mk_tail mk])"

fun chunk_conflict :: "nat \<Rightarrow> 'a chunk \<Rightarrow> 'a conflict list" where
  "chunk_conflict n (Both b o1 t) =
     (if o1 = t then [] else [\<lparr>cf_line = n, cf_base = b, cf_ours = o1, cf_theirs = t\<rparr>])"
| "chunk_conflict n _ = []"

fun conflicts_at :: "'a markers \<Rightarrow> nat \<Rightarrow> 'a chunk list \<Rightarrow> 'a conflict list" where
  "conflicts_at mk n [] = []"
| "conflicts_at mk n (c # cs) = chunk_conflict n c @ conflicts_at mk (n + length (resolved mk c)) cs"

fun both_changed :: "'a chunk \<Rightarrow> bool" where
  "both_changed (Both _ _ _) \<longleftrightarrow> True"
| "both_changed _ \<longleftrightarrow> False"

lemma no_conflicts: "\<forall>c \<in> set cs. \<not> both_changed c \<Longrightarrow> conflicts_at mk n cs = []"
proof (induction mk n cs rule: conflicts_at.induct)
  case (2 mk n c cs)
  then show ?case by (cases c) auto
qed simp

definition group_chunk :: "'a list \<Rightarrow> 'a list \<Rightarrow> 'a list \<Rightarrow> group \<Rightarrow> 'a chunk" where
  "group_chunk base our_lines their_lines g =
     (let b = slice (g_start g) (g_end g) base;
          o1 = sideText base our_lines (g_ours g) (g_start g) (g_end g);
          t = sideText base their_lines (g_theirs g) (g_start g) (g_end g)
      in if g_theirs g = [] then Ours b o1 else if g_ours g = [] then Theirs b t else Both b o1 t)"

lemma sideText_unchanged: "sideText base side [] from to = slice from to base"
  by (simp add: sideText_def)

lemma group_chunk_texts:
  "base_of (group_chunk base o1 t g) = slice (g_start g) (g_end g) base"
  "ours_of (group_chunk base o1 t g) = sideText base o1 (g_ours g) (g_start g) (g_end g)"
  "theirs_of (group_chunk base o1 t g) = sideText base t (g_theirs g) (g_start g) (g_end g)"
  "resolved mk (group_chunk base o1 t g) = decide mk g (sideText base o1 (g_ours g) (g_start g) (g_end g))
     (sideText base t (g_theirs g) (g_start g) (g_end g))"
  by (simp_all add: group_chunk_def Let_def sideText_unchanged decide_def)

lemma group_chunk_conflict:
  "chunk_conflict n (group_chunk base o1 t g) =
     (let os = sideText base o1 (g_ours g) (g_start g) (g_end g);
          ts = sideText base t (g_theirs g) (g_start g) (g_end g)
      in if disputed g os ts
         then [\<lparr>cf_line = n, cf_base = slice (g_start g) (g_end g) base, cf_ours = os, cf_theirs = ts\<rparr>] else [])"
  by (simp add: group_chunk_def Let_def disputed_def)

lemma group_chunk_both: "both_changed (group_chunk base o1 t g) \<longleftrightarrow> g_ours g \<noteq> [] \<and> g_theirs g \<noteq> []"
  by (simp add: group_chunk_def Let_def)

text \<open>How far the chunks account for what is left of the three texts.\<close>

definition accounts ::
  "'a markers \<Rightarrow> 'a list \<Rightarrow> 'a list \<Rightarrow> 'a list \<Rightarrow> 'a list \<Rightarrow> 'a conflict list \<Rightarrow> nat \<Rightarrow> 'a chunk list \<Rightarrow> bool" where
  "accounts mk b o1 t out conflicts n chunks \<longleftrightarrow>
     concat (map base_of chunks) = b \<and> concat (map ours_of chunks) = o1 \<and> concat (map theirs_of chunks) = t
     \<and> concat (map (resolved mk) chunks) = out \<and> conflicts_at mk n chunks = conflicts"

lemma merge_loop_accounts:
  assumes "leads base our_lines b so os" "leads base their_lines b st ts"
  shows "\<exists>chunks out cs. merge_loop mk base our_lines their_lines b os ts merged conflicts = (merged @ out, conflicts @ cs)
    \<and> accounts mk (drop b base) (drop so our_lines) (drop st their_lines) out cs (length merged) chunks
    \<and> (\<forall>c \<in> set chunks. both_changed c \<longrightarrow> (\<exists>h \<in> set os. \<exists>h' \<in> set ts. clashes h h'))"
  using assms
proof (induction mk base our_lines their_lines b os ts merged conflicts arbitrary: so st rule: merge_loop.induct)
  case (1 mk base our_lines their_lines b os ts merged conflicts)
  show ?case
  proof (cases "os = [] \<and> ts = []")
    case True
    then have "accounts mk (drop b base) (drop so our_lines) (drop st their_lines) (drop b base) [] (length merged)
        [Kept (drop b base)]"
      using 1(2,3) by (simp add: accounts_def)
    then show ?thesis using True
      by (intro exI [of _ "[Kept (drop b base)]"] exI [of _ "drop b base"] exI [of _ "[]"])
         (simp add: merge_loop.simps [of mk base our_lines their_lines b "[]" "[]"])
  next
    case False
    obtain os' ts' g where group: "next_group os ts = (os', ts', g)" by (metis prod_cases3)
    have some: "os \<noteq> [] \<or> ts \<noteq> []" using False by simp
    note g = next_group_ok [OF 1(2,3) some group]
    let ?o = "sideText base our_lines (g_ours g) (g_start g) (g_end g)"
    let ?t = "sideText base their_lines (g_theirs g) (g_start g) (g_end g)"
    let ?c = "group_chunk base our_lines their_lines g"
    let ?before = "merged @ slice b (g_start g) base"
    let ?merged = "?before @ decide mk g ?o ?t"
    let ?new = "chunk_conflict (length ?before) ?c"
    obtain so' where so': "so \<le> so'" "leads base our_lines (g_end g) so' os'"
      "slice so so' our_lines = slice b (g_start g) base @ ?o"
      using sideText_reads [of base our_lines b so "g_ours g" os' "g_start g" "g_end g"] 1(2) g by auto
    obtain st' where st': "st \<le> st'" "leads base their_lines (g_end g) st' ts'"
      "slice st st' their_lines = slice b (g_start g) base @ ?t"
      using sideText_reads [of base their_lines b st "g_theirs g" ts' "g_start g" "g_end g"] 1(3) g by auto
    have new: "(if disputed g ?o ?t
        then conflicts @ [\<lparr>cf_line = length ?before, cf_base = slice (g_start g) (g_end g) base, cf_ours = ?o, cf_theirs = ?t\<rparr>]
        else conflicts) = conflicts @ ?new"
      by (simp add: group_chunk_conflict Let_def)
    have step: "merge_loop mk base our_lines their_lines b os ts merged conflicts =
        merge_loop mk base our_lines their_lines (g_end g) os' ts' ?merged (conflicts @ ?new)"
      using False group
      by (subst merge_loop.simps) (auto simp: Let_def group_chunk_conflict)
    have IH: "\<exists>chunks out cs. merge_loop mk base our_lines their_lines (g_end g) os' ts' ?merged (conflicts @ ?new)
          = (?merged @ out, (conflicts @ ?new) @ cs)
        \<and> accounts mk (drop (g_end g) base) (drop so' our_lines) (drop st' their_lines) out cs (length ?merged) chunks
        \<and> (\<forall>c \<in> set chunks. both_changed c \<longrightarrow> (\<exists>h \<in> set os'. \<exists>h' \<in> set ts'. clashes h h'))"
      using 1(1) [OF False group [symmetric] refl refl refl refl refl so'(2) st'(2)] unfolding new by simp
    then obtain chunks out cs where rest:
      "merge_loop mk base our_lines their_lines (g_end g) os' ts' ?merged (conflicts @ ?new)
        = (?merged @ out, (conflicts @ ?new) @ cs)"
      "accounts mk (drop (g_end g) base) (drop so' our_lines) (drop st' their_lines) out cs (length ?merged) chunks"
      "\<forall>c \<in> set chunks. both_changed c \<longrightarrow> (\<exists>h \<in> set os'. \<exists>h' \<in> set ts'. clashes h h')"
      by blast
    let ?chunks = "Kept (slice b (g_start g) base) # ?c # chunks"
    have "slice b (g_start g) base @ slice (g_start g) (g_end g) base @ drop (g_end g) base = drop b base"
      using g slice_drop [of "g_start g" "g_end g" base] slice_drop [of b "g_start g" base] by simp
    moreover have "slice b (g_start g) base @ ?o @ drop so' our_lines = drop so our_lines"
      using slice_drop [OF so'(1), of our_lines] so'(3) by simp
    moreover have "slice b (g_start g) base @ ?t @ drop st' their_lines = drop st their_lines"
      using slice_drop [OF st'(1), of their_lines] st'(3) by simp
    ultimately have "accounts mk (drop b base) (drop so our_lines) (drop st their_lines)
        (slice b (g_start g) base @ decide mk g ?o ?t @ out) (?new @ cs) (length merged) ?chunks"
      using rest(2) by (simp add: accounts_def group_chunk_texts add.assoc)
    moreover have "\<exists>h \<in> set os. \<exists>h' \<in> set ts. clashes h h'" if "c \<in> set ?chunks" "both_changed c" for c
      using that rest(3) g by (auto simp: group_chunk_both group_clash_def)
    moreover have "merge_loop mk base our_lines their_lines b os ts merged conflicts =
        (merged @ (slice b (g_start g) base @ decide mk g ?o ?t @ out), conflicts @ (?new @ cs))"
      using step rest(1) by simp
    ultimately show ?thesis by blast
  qed
qed

subsection \<open>The guarantees\<close>

lemma merge_lines_accounts:
  "\<exists>chunks. accounts mk base ours theirs (fst (merge_lines mk base ours theirs)) (snd (merge_lines mk base ours theirs)) 0 chunks
    \<and> (\<forall>c \<in> set chunks. both_changed c \<longrightarrow>
         (\<exists>h \<in> set (hunksOf base ours). \<exists>h' \<in> set (hunksOf base theirs). clashes h h'))"
proof -
  from merge_loop_accounts [OF hunksOf_leads [of base ours] hunksOf_leads [of base theirs], of mk "[]" "[]"]
  obtain chunks out cs where
    "merge_loop mk base ours theirs 0 (hunksOf base ours) (hunksOf base theirs) [] [] = ([] @ out, [] @ cs)
     \<and> accounts mk (drop 0 base) (drop 0 ours) (drop 0 theirs) out cs (length ([] :: 'a list)) chunks
     \<and> (\<forall>c \<in> set chunks. both_changed c \<longrightarrow>
          (\<exists>h \<in> set (hunksOf base ours). \<exists>h' \<in> set (hunksOf base theirs). clashes h h'))"
    by blast
  then show ?thesis by (intro exI [of _ chunks]) (simp add: merge_lines_def)
qed

lemma unlines_toLines [simp]: "unlines (toLines s) = s"
  by (simp add: unlines_def toLines_def join_split_on)

text \<open>C13. The merge of two edits of one file. Base, ours, theirs and the merged document fall into the same sequence of
  chunks: in each of them one of the sides is the base and the merged document reads what the other side reads, or both
  sides changed it; then it reads the common change, or both versions between markers, and exactly those last chunks are
  reported as conflicts, at their line. So no line of either side is lost, whatever the edits.\<close>

theorem merge_takes_every_change:
  "\<exists>chunks. concat (map base_of chunks) = toLines base \<and> concat (map ours_of chunks) = toLines ours
    \<and> concat (map theirs_of chunks) = toLines theirs
    \<and> mergeThreeWay base ours theirs =
        (unlines (concat (map (resolved MERGE_MARKERS) chunks)),
         map conflict_text (conflicts_at MERGE_MARKERS 0 chunks))"
proof -
  let ?b = "toLines base" and ?o = "toLines ours" and ?t = "toLines theirs"
  consider "ours = theirs" | "ours \<noteq> theirs" "base = ours" | "ours \<noteq> theirs" "base \<noteq> ours" "base = theirs"
    | (merge) "ours \<noteq> theirs" "base \<noteq> ours" "base \<noteq> theirs" by blast
  then show ?thesis
  proof cases
    case 1
    then show ?thesis by (intro exI [of _ "[Both ?b ?o ?t]"]) (simp add: mergeThreeWay_def)
  next
    case 2
    then show ?thesis by (intro exI [of _ "[Theirs ?b ?t]"]) (simp add: mergeThreeWay_def)
  next
    case 3
    then show ?thesis by (intro exI [of _ "[Ours ?b ?o]"]) (simp add: mergeThreeWay_def)
  next
    case merge
    obtain chunks where "accounts MERGE_MARKERS ?b ?o ?t (fst (merge_lines MERGE_MARKERS ?b ?o ?t))
        (snd (merge_lines MERGE_MARKERS ?b ?o ?t)) 0 chunks"
      using merge_lines_accounts by blast
    then show ?thesis using merge
      by (cases "merge_lines MERGE_MARKERS ?b ?o ?t", intro exI [of _ chunks]) (simp add: mergeThreeWay_def accounts_def)
  qed
qed

text \<open>Edits that do not clash merge without a conflict, those on neighbouring lines included: a conflict needs a change
  of each side whose ranges of the base overlap, or that start at the same line where one of them only inserts.\<close>

theorem separate_edits_merge:
  assumes "\<forall>h \<in> set (hunksOf (toLines base) (toLines ours)). \<forall>h' \<in> set (hunksOf (toLines base) (toLines theirs)). \<not> clashes h h'"
  shows "snd (mergeThreeWay base ours theirs) = []"
proof -
  let ?b = "toLines base" and ?o = "toLines ours" and ?t = "toLines theirs"
  obtain chunks where "accounts MERGE_MARKERS ?b ?o ?t (fst (merge_lines MERGE_MARKERS ?b ?o ?t))
      (snd (merge_lines MERGE_MARKERS ?b ?o ?t)) 0 chunks"
    "\<forall>c \<in> set chunks. both_changed c \<longrightarrow> (\<exists>h \<in> set (hunksOf ?b ?o). \<exists>h' \<in> set (hunksOf ?b ?t). clashes h h')"
    using merge_lines_accounts by blast
  then have "snd (merge_lines MERGE_MARKERS ?b ?o ?t) = []"
    using assms no_conflicts [of chunks MERGE_MARKERS 0] by (auto simp: accounts_def)
  then show ?thesis by (cases "merge_lines MERGE_MARKERS ?b ?o ?t") (simp add: mergeThreeWay_def)
qed

lemma separate_edits_merge_witness:
  "snd (mergeThreeWay (unlines [''a'', ''b'', ''c'']) (unlines [''A'', ''b'', ''c'']) (unlines [''a'', ''B'', ''c''])) = []"
  by (rule separate_edits_merge) code_simp

end
