(* ===== verification/DiffLaws.thy ===== *)
theory DiffLaws
  imports MergeLaws
begin

text \<open>
  The diff of two revisions: read without the added lines it is the one, without the removed lines the other; it
  removes and adds as few lines as any line diff can; and its hunks leave out no change.
\<close>

subsection \<open>Both revisions are in the diff\<close>

lemma map_nth_slice: "j \<le> length xs \<Longrightarrow> map (\<lambda>k. xs ! k) [i..<j] = slice i j xs"
  by (simp add: slice_def list_eq_iff_nth_eq)

lemma removals_filters:
  "filter (\<lambda>l. dl_op l \<noteq> Add) (removals a i j) = removals a i j" "filter (\<lambda>l. dl_op l \<noteq> Remove) (removals a i j) = []"
  "filter (\<lambda>l. dl_op l = Context) (removals a i j) = []"
  by (auto simp: removals_def filter_empty_conv)

lemma additions_filters:
  "filter (\<lambda>l. dl_op l \<noteq> Remove) (additions b i j) = additions b i j" "filter (\<lambda>l. dl_op l \<noteq> Add) (additions b i j) = []"
  "filter (\<lambda>l. dl_op l = Context) (additions b i j) = []"
  by (auto simp: additions_def filter_empty_conv)

lemma gap_texts:
  "j \<le> length a \<Longrightarrow> map dl_text (removals a i j) = slice i j a"
  "j \<le> length b \<Longrightarrow> map dl_text (additions b i j) = slice i j b"
  by (simp_all add: removals_def additions_def comp_def map_nth_slice)

lemmas gap_facts = removals_filters additions_filters gap_texts

lemma drop_through: "i \<le> p \<Longrightarrow> p < length xs \<Longrightarrow> slice i p xs @ xs ! p # drop (Suc p) xs = drop i xs"
  using slice_drop [of i p xs] by (simp add: Cons_nth_drop_Suc)

lemma diff_from_texts:
  "matched a b ai bi ps \<Longrightarrow> ai \<le> length a \<Longrightarrow> bi \<le> length b \<Longrightarrow>
   map dl_text (filter (\<lambda>l. dl_op l \<noteq> Add) (diff_from a b ai bi ps)) = drop ai a
   \<and> map dl_text (filter (\<lambda>l. dl_op l \<noteq> Remove) (diff_from a b ai bi ps)) = drop bi b
   \<and> length (filter (\<lambda>l. dl_op l = Context) (diff_from a b ai bi ps)) = length ps"
proof (induction ps arbitrary: ai bi)
  case Nil
  then show ?case by (simp add: gap_facts slice_all)
next
  case (Cons pq ps)
  obtain p q where pq: "pq = (p, q)" by force
  then have m: "ai \<le> p" "p < length a" "bi \<le> q" "q < length b" "a ! p = b ! q" "matched a b (Suc p) (Suc q) ps"
    using Cons.prems by auto
  have "slice ai p a @ a ! p # drop (Suc p) a = drop ai a" "slice bi q b @ b ! q # drop (Suc q) b = drop bi b"
    using drop_through m by blast+
  then show ?case using Cons.IH [OF m(6)] m pq by (simp add: gap_facts)
qed

lemma diff_lines_texts:
  "map dl_text (filter (\<lambda>l. dl_op l \<noteq> Add) (diff_lines a b)) = a"
  "map dl_text (filter (\<lambda>l. dl_op l \<noteq> Remove) (diff_lines a b)) = b"
  "length (filter (\<lambda>l. dl_op l = Context) (diff_lines a b)) = lcs_len a b"
  using diff_from_texts [OF lcsPairs_matched [of a b]] by (simp_all add: diff_lines_def length_lcsPairs)

lemma count_split:
  "length (filter (\<lambda>l. dl_op l \<noteq> Add) ls) =
     length (filter (\<lambda>l. dl_op l = Remove) ls) + length (filter (\<lambda>l. dl_op l = Context) ls)"
  "length (filter (\<lambda>l. dl_op l \<noteq> Remove) ls) =
     length (filter (\<lambda>l. dl_op l = Add) ls) + length (filter (\<lambda>l. dl_op l = Context) ls)"
  by (induction ls) (auto, (metis diff_op.exhaust)+)

lemma diff_counts:
  "length (filter (\<lambda>l. dl_op l = Remove) (diff_lines a b)) + lcs_len a b = length a"
  "length (filter (\<lambda>l. dl_op l = Add) (diff_lines a b)) + lcs_len a b = length b"
  using diff_lines_texts [of a b] count_split [of "diff_lines a b"] by (metis length_map)+

subsection \<open>The hunks\<close>

lemma gather_lines:
  "concat (map dh_lines (gather hunks current zs)) = concat (map dh_lines hunks) @ current @ map fst (filter snd zs)"
  by (induction hunks current zs rule: gather.induct) (auto simp: flush_def)

lemma fold_mark: "length (fold (\<lambda>j k. k[j := True]) js keep) = length keep"
  by (induction js arbitrary: keep) simp_all

lemma nth_fold_mark:
  "j < length keep \<Longrightarrow> fold (\<lambda>j k. k[j := True]) js keep ! j \<longleftrightarrow> j \<in> set js \<or> keep ! j"
proof (induction js arbitrary: keep)
  case (Cons a js)
  then show ?case by (cases "a = j") auto
qed simp

lemma length_keep_around: "length (keep_around ls i keep) = length keep"
  by (simp add: keep_around_def fold_mark)

lemma nth_keep_around:
  "j < length ls \<Longrightarrow> length keep = length ls \<Longrightarrow>
   keep_around ls i keep ! j \<longleftrightarrow> changed (ls ! i) \<and> i \<le> j + CONTEXT_LINES \<and> j \<le> i + CONTEXT_LINES \<or> keep ! j"
  by (auto simp: keep_around_def nth_fold_mark)

lemma keep_flags_from:
  "length keep = length ls \<Longrightarrow> j < length ls \<Longrightarrow>
   length (fold (keep_around ls) is keep) = length ls
   \<and> (fold (keep_around ls) is keep ! j \<longleftrightarrow>
        (\<exists>i \<in> set is. changed (ls ! i) \<and> i \<le> j + CONTEXT_LINES \<and> j \<le> i + CONTEXT_LINES) \<or> keep ! j)"
  by (induction "is" arbitrary: keep) (auto simp: length_keep_around nth_keep_around)

text \<open>A line is kept exactly when a change is at most three lines away.\<close>

lemma nth_keep_flags:
  "j < length ls \<Longrightarrow> keep_flags ls ! j \<longleftrightarrow>
     (\<exists>i < length ls. changed (ls ! i) \<and> i \<le> j + CONTEXT_LINES \<and> j \<le> i + CONTEXT_LINES)"
  using keep_flags_from [of "replicate (length ls) False" ls j "[0..<length ls]"] by (auto simp: keep_flags_def)

lemma length_keep_flags: "length (keep_flags ls) = length ls"
proof (cases "ls = []")
  case False
  then show ?thesis using keep_flags_from [of "replicate (length ls) False" ls 0 "[0..<length ls]"]
    by (simp add: keep_flags_def)
qed (simp add: keep_flags_def)

lemma filter_kept:
  "length ls = length ks \<Longrightarrow> (\<And>j. j < length ls \<Longrightarrow> q (ls ! j) \<Longrightarrow> ks ! j) \<Longrightarrow>
   filter q (map fst (filter snd (zip ls ks))) = filter q ls"
proof (induction ls ks rule: list_induct2)
  case (Cons l ls k ks)
  have "\<And>j. j < length ls \<Longrightarrow> q (ls ! j) \<Longrightarrow> ks ! j" using Cons.prems [of "Suc j" for j] by simp
  then show ?case using Cons.IH Cons.prems [of 0] by simp
qed simp

lemma hunks_keep_changes: "filter changed (concat (map dh_lines (toHunks ls))) = filter changed ls"
proof -
  have "concat (map dh_lines (toHunks ls)) = map fst (filter snd (zip ls (keep_flags ls)))"
    by (simp add: toHunks_def gather_lines)
  moreover have "filter changed (map fst (filter snd (zip ls (keep_flags ls)))) = filter changed ls"
    by (rule filter_kept) (auto simp: length_keep_flags nth_keep_flags)
  ultimately show ?thesis by simp
qed

subsection \<open>The guarantees\<close>

text \<open>The diff loses nothing: without its added lines it reads as the revision before, without its removed lines as the
  one after, and the hunks a member is shown hold every added and every removed line, in order.\<close>

theorem diff_holds_both:
  "let ls = diff_lines (toLines before) (toLines after) in
     unlines (map dl_text (filter (\<lambda>l. dl_op l \<noteq> Add) ls)) = before
     \<and> unlines (map dl_text (filter (\<lambda>l. dl_op l \<noteq> Remove) ls)) = after
     \<and> filter changed (concat (map dh_lines (toHunks ls))) = filter changed ls"
  by (simp add: Let_def diff_lines_texts hunks_keep_changes)

text \<open>The diff is as small as a line diff can be: whatever lines two revisions have in common in the same order, it
  does not remove or add more than the others.\<close>

theorem diff_is_smallest:
  assumes "subseq common (toLines before)" "subseq common (toLines after)"
  shows "td_removed (diffFileText before after) \<le> length (toLines before) - length common
    \<and> td_added (diffFileText before after) \<le> length (toLines after) - length common"
proof -
  let ?a = "toLines before" and ?b = "toLines after"
  have "length common \<le> lcs_len ?a ?b" by (rule lcs_len_bound [OF assms])
  then have "length (filter (\<lambda>l. dl_op l = Remove) (diff_lines ?a ?b)) \<le> length ?a - length common"
    "length (filter (\<lambda>l. dl_op l = Add) (diff_lines ?a ?b)) \<le> length ?b - length common"
    using diff_counts [of ?a ?b] by linarith+
  then show ?thesis by (simp add: diffFileText_def Let_def)
qed

lemma diff_is_smallest_witness:
  "td_removed (diffFileText (unlines [''a'', ''b'', ''c'']) (unlines [''b'', ''x'', ''c''])) \<le> 1"
proof -
  have "subseq [''b'', ''c''] (toLines (unlines [''a'', ''b'', ''c'']))"
    "subseq [''b'', ''c''] (toLines (unlines [''b'', ''x'', ''c'']))"
    by code_simp+
  from diff_is_smallest [OF this] show ?thesis by (simp add: toLines_def unlines_def NEWLINE_def)
qed

end
