(* ===== verification/Scorecard.thy ===== *)
theory Scorecard
  imports CaseOutcome Ordering
begin

text \<open>
  A scorecard and the comparison of two: packages/domain/src/scorecard/scorecard.ts.

  A scorecard is its harness and its results. A \<open>Map\<close> that is iterated is an association list in insertion order;
  \<open>set_key\<close> is its \<open>set\<close>. A value that is not finite behaves as NaN in a comparison. The policy digest of a verdict
  summary is the parameter \<open>pdig\<close>.
\<close>

subsection \<open>Numbers\<close>

fun num_plus :: "number \<Rightarrow> number \<Rightarrow> number" where
  "num_plus (Num a) (Num b) = Num (a + b)"
| "num_plus _ _ = NonFinite"

fun num_minus :: "number \<Rightarrow> number \<Rightarrow> number" where
  "num_minus (Num a) (Num b) = Num (a - b)"
| "num_minus _ _ = NonFinite"

fun num_less :: "number \<Rightarrow> number \<Rightarrow> bool" where
  "num_less (Num a) (Num b) \<longleftrightarrow> a < b"
| "num_less _ _ \<longleftrightarrow> False"

fun num_over :: "number \<Rightarrow> nat \<Rightarrow> number" where
  "num_over (Num a) n = Num (a / of_nat n)"
| "num_over NonFinite n = NonFinite"

definition mean_of :: "number list \<Rightarrow> number" where
  "mean_of vs = num_over (fold (\<lambda>v acc. num_plus acc v) vs (Num 0)) (length vs)"

text \<open>\<open>a - b\<close> as a key of a comparator.\<close>

definition num_cmp :: "number compare" where
  "num_cmp a b = (if num_less a b then -1 else if num_less b a then 1 else 0)"

record scorecard =
  sc_harness :: string
  sc_results :: "case_result list"

subsection \<open>Cases that produced an outcome\<close>

definition no_outcome :: "case_result \<Rightarrow> bool" where
  "no_outcome r \<longleftrightarrow>
     (case r_failure r of None \<Rightarrow> False | Some f \<Rightarrow> f_code f = ''CANCELLED'' \<or> f_stage f \<in> set PRE_OUTCOME_STAGES)"

definition outcome_rows :: "scorecard \<Rightarrow> case_result list" where
  "outcome_rows sc = filter (\<lambda>r. \<not> no_outcome r) (sc_results sc)"

subsection \<open>Rates\<close>

record pass_rate =
  pr_pass :: nat
  pr_total :: nat
  pr_rate :: rat

definition count_verdict :: "bool \<Rightarrow> bool option list \<Rightarrow> nat" where
  "count_verdict v vs = length (filter (\<lambda>x. x = Some v) vs)"

definition scorecardPassRate ::
  "(verdict_policy \<Rightarrow> string) \<Rightarrow> (score \<Rightarrow> string) \<Rightarrow> scorecard \<Rightarrow> verdict_policy \<Rightarrow> pass_rate" where
  "scorecardPassRate pdig sdig sc p =
     (let vs = map (caseVerdict pdig sdig p) (sc_results sc);
          total = length (filter (\<lambda>v. v \<noteq> None) vs); passed = count_verdict True vs
      in \<lparr>pr_pass = passed, pr_total = total, pr_rate = (if 0 < total then of_nat passed / of_nat total else 0)\<rparr>)"

record verdict_summary =
  vs_verdicted :: nat
  vs_passed :: nat
  vs_failed :: nat
  vs_passRate :: "rat option"
  vs_policyDigest :: string

definition verdictSummaryOf ::
  "(verdict_policy \<Rightarrow> string) \<Rightarrow> (score \<Rightarrow> string) \<Rightarrow> case_result list \<Rightarrow> verdict_policy option \<Rightarrow> verdict_summary" where
  "verdictSummaryOf pdig sdig results policy =
     (let p = (case policy of None \<Rightarrow> DEFAULT_VERDICT_POLICY | Some p \<Rightarrow> p);
          vs = map (caseVerdict pdig sdig p) results;
          passed = count_verdict True vs; failed = count_verdict False vs; verdicted = passed + failed
      in \<lparr>vs_verdicted = verdicted, vs_passed = passed, vs_failed = failed,
          vs_passRate = (if 0 < verdicted then Some (of_nat passed / of_nat verdicted) else None),
          vs_policyDigest = pdig p\<rparr>)"

subsection \<open>Metric summaries\<close>

record metric_tally =
  mt_values :: "number list"
  mt_passes :: "bool list"
  mt_labeled :: "(string \<times> number) list"
  mt_unmeasured :: nat

definition empty_tally :: metric_tally where
  "empty_tally = \<lparr>mt_values = [], mt_passes = [], mt_labeled = [], mt_unmeasured = 0\<rparr>"

definition tally_score :: "score \<Rightarrow> metric_tally option \<Rightarrow> metric_tally" where
  "tally_score s prev =
     (let m = (case prev of None \<Rightarrow> empty_tally | Some m \<Rightarrow> m) in
      case body s of
        Measured v pass label \<Rightarrow>
          m\<lparr>mt_values := mt_values m @ [v],
            mt_passes := mt_passes m @ (case pass of None \<Rightarrow> [] | Some b \<Rightarrow> [b]),
            mt_labeled := mt_labeled m @ (case label of None \<Rightarrow> [] | Some l \<Rightarrow> [(l, v)])\<rparr>
      | _ \<Rightarrow> m\<lparr>mt_unmeasured := mt_unmeasured m + 1\<rparr>)"

definition tally_metrics :: "scorecard \<Rightarrow> (string \<times> metric_tally) list" where
  "tally_metrics sc =
     fold (\<lambda>s m. set_key (metric s) (tally_score s) m) (concat (map r_scores (outcome_rows sc))) []"

definition label_counts :: "(string \<times> number) list \<Rightarrow> (string \<times> nat) list" where
  "label_counts labeled =
     fold (\<lambda>(l, v) m. set_key l (\<lambda>c. (case c of None \<Rightarrow> 0 | Some n \<Rightarrow> n) + 1) m) labeled []"

text \<open>The first value seen under a label.\<close>

definition label_ord :: "(string \<times> number) list \<Rightarrow> string \<Rightarrow> number" where
  "label_ord labeled l = (case map_of labeled l of None \<Rightarrow> Num 0 | Some v \<Rightarrow> v)"

definition by_count :: "(string \<times> nat) compare" where
  "by_count a b = int (snd b) - int (snd a)"

definition display_order :: "(string \<Rightarrow> number) \<Rightarrow> (string \<times> nat) compare" where
  "display_order ord a b =
     (let o' = num_cmp (ord (fst a)) (ord (fst b)) in
      if o' \<noteq> 0 then o' else if by_count a b \<noteq> 0 then by_count a b else code_unit_cmp (fst a) (fst b))"

definition mode_order :: "(string \<Rightarrow> number) \<Rightarrow> (string \<times> nat) compare" where
  "mode_order ord a b =
     (if by_count a b \<noteq> 0 then by_count a b
      else let o' = num_cmp (ord (fst a)) (ord (fst b)) in
        if o' \<noteq> 0 then o' else code_unit_cmp (fst a) (fst b))"

record metric_summary =
  ms_metric :: string
  ms_count :: nat
  ms_mean :: "number option"
  ms_passRate :: "rat option"
  ms_distribution :: "(string \<times> nat) list option"
  ms_mode :: "string option"
  ms_unmeasured :: "nat option"

definition summary_of :: "string \<Rightarrow> metric_tally \<Rightarrow> metric_summary" where
  "summary_of name m =
     (let counts = label_counts (mt_labeled m); ord = label_ord (mt_labeled m) in
      \<lparr>ms_metric = name, ms_count = length (mt_values m),
       ms_mean = (if mt_values m = [] then None else Some (mean_of (mt_values m))),
       ms_passRate = (if mt_passes m = [] then None
         else Some (of_nat (length (filter (\<lambda>b. b) (mt_passes m))) / of_nat (length (mt_passes m)))),
       ms_distribution = (if mt_labeled m = [] then None else Some (sort_by (display_order ord) counts)),
       ms_mode = (if mt_labeled m = [] then None else Some (fst (hd (sort_by (mode_order ord) counts)))),
       ms_unmeasured = (if 0 < mt_unmeasured m then Some (mt_unmeasured m) else None)\<rparr>)"

definition summarizeScorecard :: "scorecard \<Rightarrow> metric_summary list" where
  "summarizeScorecard sc = map (\<lambda>(name, m). summary_of name m) (tally_metrics sc)"

subsection \<open>Measurement coverage\<close>

record measurement_coverage =
  mc_scores :: nat
  mc_unmeasured :: nat
  mc_fraction :: "rat option"

definition measurementCoverage :: "scorecard \<Rightarrow> measurement_coverage" where
  "measurementCoverage sc =
     (let rows = concat (map r_scores (outcome_rows sc)); scores = length rows;
          unmeasured = length (filter (\<lambda>s. \<not> isMeasured s) rows)
      in \<lparr>mc_scores = scores, mc_unmeasured = unmeasured,
          mc_fraction = (if 0 < scores then Some (of_nat unmeasured / of_nat scores) else None)\<rparr>)"

record metric_coverage =
  co_metric :: string
  co_baselineCases :: nat
  co_baselineMeasured :: nat
  co_candidateCases :: nat
  co_candidateMeasured :: nat

text \<open>One row measures a metric once.\<close>

fun count_metrics :: "score list \<Rightarrow> string list \<Rightarrow> (string \<times> nat) list \<Rightarrow> (string \<times> nat) list" where
  "count_metrics [] seen m = m"
| "count_metrics (s # ss) seen m =
     (if metric s \<in> set seen then count_metrics ss seen m
      else count_metrics ss (metric s # seen)
        (set_key (metric s) (\<lambda>c. (case c of None \<Rightarrow> 0 | Some n \<Rightarrow> n) + 1) m))"

definition measured_by :: "scorecard \<Rightarrow> (string \<times> nat) list" where
  "measured_by sc = fold (\<lambda>r m. count_metrics (measuredScores (r_scores r)) [] m) (outcome_rows sc) []"

definition metricCoverage :: "scorecard \<Rightarrow> scorecard \<Rightarrow> metric_coverage list" where
  "metricCoverage b c =
     (let mb = measured_by b; mc = measured_by c;
          count = (\<lambda>m k. case map_of m k of None \<Rightarrow> 0 | Some n \<Rightarrow> n)
      in map (\<lambda>k. \<lparr>co_metric = k, co_baselineCases = length (outcome_rows b), co_baselineMeasured = count mb k,
                    co_candidateCases = length (outcome_rows c), co_candidateMeasured = count mc k\<rparr>)
           (sort_by code_unit_cmp (firsts (map fst mb @ map fst mc))))"

subsection \<open>The comparison\<close>

definition trial_key :: "case_result \<Rightarrow> string" where
  "trial_key r = r_caseId r @ ''#'' @ decimal (case r_trial r of None \<Rightarrow> 0 | Some n \<Rightarrow> n)"

definition with_pass :: "bool option \<Rightarrow> score \<Rightarrow> score" where
  "with_pass p s = (case (p, body s) of (Some b, Measured v q l) \<Rightarrow> s\<lparr>body := Measured v (Some b) l\<rparr> | _ \<Rightarrow> s)"

definition score_pass :: "score \<Rightarrow> bool option" where
  "score_pass s = body_pass (body s)"

definition combine_rows :: "score \<Rightarrow> score option \<Rightarrow> score" where
  "combine_rows s prev =
     (case prev of
        None \<Rightarrow> s
      | Some q \<Rightarrow>
          let passes = List.map_filter id [score_pass q, score_pass s];
              combined = (if passes \<noteq> [] then Some (list_all id passes) else None);
              decider = (if combined = Some False then (if score_pass q = Some False then q else s) else q)
          in with_pass combined decider)"

definition score_entry :: "case_result \<Rightarrow> (string \<times> (string \<times> score) list) option \<Rightarrow> string \<times> (string \<times> score) list" where
  "score_entry r prev =
     (let (caseId, rows) = (case prev of None \<Rightarrow> (r_caseId r, []) | Some e \<Rightarrow> e)
      in (caseId, fold (\<lambda>s m. set_key (metric s) (combine_rows s) m) (measuredScores (r_scores r)) rows))"

definition scoreMap :: "scorecard \<Rightarrow> (string \<times> (string \<times> (string \<times> score) list)) list" where
  "scoreMap sc = fold (\<lambda>r m. set_key (trial_key r) (score_entry r) m) (sc_results sc) []"

datatype change = Broke | Fixed | Same | Not_measured

record case_delta =
  cd_caseId :: string
  cd_metric :: string
  cd_baseline :: number
  cd_candidate :: number
  cd_delta :: number
  cd_change :: "change option"

definition measured_value :: "score \<Rightarrow> number" where
  "measured_value s = (case body_value (body s) of None \<Rightarrow> NonFinite | Some v \<Rightarrow> v)"

definition metric_delta_of :: "string \<Rightarrow> string \<Rightarrow> score \<Rightarrow> score \<Rightarrow> case_delta" where
  "metric_delta_of caseId name bs cs =
     \<lparr>cd_caseId = caseId, cd_metric = name, cd_baseline = measured_value bs, cd_candidate = measured_value cs,
      cd_delta = num_minus (measured_value cs) (measured_value bs),
      cd_change = (if score_pass bs = Some True \<and> score_pass cs = Some False then Some Broke
        else if score_pass bs = Some False \<and> score_pass cs = Some True then Some Fixed else None)\<rparr>"

definition metric_flips :: "scorecard \<Rightarrow> scorecard \<Rightarrow> case_delta list" where
  "metric_flips b c =
     (let mb = scoreMap b in
      concat (map (\<lambda>(key, caseId, rows).
          case map_of mb key of
            None \<Rightarrow> []
          | Some (bCase, brows) \<Rightarrow>
              List.map_filter (\<lambda>(name, cs).
                case map_of brows name of
                  None \<Rightarrow> None
                | Some bs \<Rightarrow> Some (metric_delta_of caseId name bs cs)) rows)
        (scoreMap c)))"

record case_transition =
  ct_caseId :: string
  ct_trial :: "nat option"
  ct_baseline :: "bool option"
  ct_candidate :: "bool option"
  ct_change :: change

definition change_of :: "bool option \<Rightarrow> bool option \<Rightarrow> change" where
  "change_of bv cv =
     (case (bv, cv) of
        (Some b, Some c) \<Rightarrow> if b \<and> \<not> c then Broke else if \<not> b \<and> c then Fixed else Same
      | _ \<Rightarrow> Not_measured)"

definition by_trial :: "scorecard \<Rightarrow> (string \<times> case_result) list" where
  "by_trial sc = fold (\<lambda>r m. set_key (trial_key r) (\<lambda>_. r) m) (sc_results sc) []"

definition caseTransitions ::
  "(verdict_policy \<Rightarrow> string) \<Rightarrow> (score \<Rightarrow> string) \<Rightarrow> scorecard \<Rightarrow> scorecard \<Rightarrow> verdict_policy \<Rightarrow> verdict_policy
    \<Rightarrow> case_transition list" where
  "caseTransitions pdig sdig b c bp cp =
     (let mb = by_trial b in
      List.map_filter (\<lambda>(key, cr).
          case map_of mb key of
            None \<Rightarrow> None
          | Some br \<Rightarrow>
              let bv = caseVerdict pdig sdig bp br; cv = caseVerdict pdig sdig cp cr
              in Some \<lparr>ct_caseId = r_caseId cr, ct_trial = r_trial cr, ct_baseline = bv, ct_candidate = cv,
                        ct_change = change_of bv cv\<rparr>)
        (by_trial c))"

datatype reading = Improved | Regressed | Unchanged | Unknown_reading

definition metricReading :: "verdict_policy \<Rightarrow> string \<Rightarrow> number \<Rightarrow> direction option \<times> reading" where
  "metricReading p name delta =
     (let dir = (case find (\<lambda>d. metricMatches (d_match d) name) (vp_metrics p) of
                   None \<Rightarrow> None | Some d \<Rightarrow> d_direction d)
      in (dir,
          if delta = Num 0 then Unchanged
          else if dir = Some Higher_is_better then (if num_less (Num 0) delta then Improved else Regressed)
          else if dir = Some Lower_is_better then (if num_less delta (Num 0) then Improved else Regressed)
          else Unknown_reading))"

record metric_delta =
  md_metric :: string
  md_baselineMean :: number
  md_candidateMean :: number
  md_delta :: number
  md_direction :: "direction option"
  md_reading :: reading

record diff_missing =
  casesOnlyInBaseline :: "string list"
  casesOnlyInCandidate :: "string list"
  metricsOnlyInBaseline :: "string list"
  metricsOnlyInCandidate :: "string list"

datatype comparability = Full | Partial | No_comparison

datatype sides = Baseline_side | Candidate_side | Both_sides

datatype side_policy = Known_policy verdict_policy | Unresolvable_policy

record scorecard_diff =
  df_baseline :: string
  df_candidate :: string
  df_metrics :: "metric_delta list"
  df_regressions :: "case_delta list"
  df_improvements :: "case_delta list"
  df_transitions :: "case_transition list"
  df_unavailable :: "sides option"
  df_coverage :: "metric_coverage list"
  df_missing :: diff_missing
  df_incomparable :: "string list"
  df_sharedCases :: nat
  df_baselineCases :: nat
  df_candidateCases :: nat
  df_comparability :: comparability

definition case_ids :: "scorecard \<Rightarrow> string list" where
  "case_ids sc = firsts (map r_caseId (sc_results sc))"

definition metric_names :: "metric_summary list \<Rightarrow> string list" where
  "metric_names ss = firsts (map ms_metric (filter (\<lambda>s. 0 < ms_count s) ss))"

definition only_in :: "string list \<Rightarrow> string list \<Rightarrow> string list" where
  "only_in xs ys = filter (\<lambda>x. x \<notin> set ys) xs"

definition isCategorical :: "metric_summary list \<Rightarrow> string \<Rightarrow> bool" where
  "isCategorical rows name =
     (case find (\<lambda>s. ms_metric s = name) rows of None \<Rightarrow> False | Some s \<Rightarrow> ms_distribution s \<noteq> None)"

definition mean_in :: "metric_summary list \<Rightarrow> string \<Rightarrow> number" where
  "mean_in rows name =
     (case find (\<lambda>s. ms_metric s = name) rows of
        None \<Rightarrow> Num 0 | Some s \<Rightarrow> (case ms_mean s of None \<Rightarrow> Num 0 | Some v \<Rightarrow> v))"

definition fraction_of :: "nat \<Rightarrow> nat \<Rightarrow> rat" where
  "fraction_of measured cases = (if 0 < cases then of_nat measured / of_nat cases else 0)"

definition COVERAGE_EPS :: rat where "COVERAGE_EPS = 1 / 10 ^ 9"

definition coverage_differs :: "metric_coverage \<Rightarrow> bool" where
  "coverage_differs m \<longleftrightarrow> 0 < co_baselineMeasured m \<and> 0 < co_candidateMeasured m
     \<and> COVERAGE_EPS < \<bar>fraction_of (co_baselineMeasured m) (co_baselineCases m)
                       - fraction_of (co_candidateMeasured m) (co_candidateCases m)\<bar>"

definition unavailable_of :: "side_policy \<Rightarrow> side_policy \<Rightarrow> sides option" where
  "unavailable_of bp cp =
     (if bp = Unresolvable_policy then Some (if cp = Unresolvable_policy then Both_sides else Baseline_side)
      else if cp = Unresolvable_policy then Some Candidate_side else None)"

definition diffScorecards ::
  "(verdict_policy \<Rightarrow> string) \<Rightarrow> (score \<Rightarrow> string) \<Rightarrow> scorecard \<Rightarrow> scorecard \<Rightarrow> verdict_policy option
    \<Rightarrow> side_policy option \<Rightarrow> side_policy option \<Rightarrow> scorecard_diff" where
  "diffScorecards pdig sdig b c policy_opt bp_opt cp_opt =
     (let policy = (case policy_opt of None \<Rightarrow> DEFAULT_VERDICT_POLICY | Some p \<Rightarrow> p);
          flips = metric_flips b c;
          bp = (case bp_opt of None \<Rightarrow> Known_policy policy | Some p \<Rightarrow> p);
          cp = (case cp_opt of None \<Rightarrow> Known_policy policy | Some p \<Rightarrow> p);
          transitions = (case (bp, cp) of
             (Known_policy p, Known_policy q) \<Rightarrow> caseTransitions pdig sdig b c p q | _ \<Rightarrow> []);
          bCases = case_ids b; cCases = case_ids c;
          sumB = summarizeScorecard b; sumC = summarizeScorecard c;
          bNames = metric_names sumB; cNames = metric_names sumC;
          sharedNames = filter (\<lambda>m. m \<in> set cNames) bNames;
          incomparable = filter (\<lambda>m. isCategorical sumB m \<noteq> isCategorical sumC m) sharedNames;
          shared = only_in sharedNames incomparable;
          metrics = map (\<lambda>m. let delta = num_minus (mean_in sumC m) (mean_in sumB m) in
             \<lparr>md_metric = m, md_baselineMean = mean_in sumB m, md_candidateMean = mean_in sumC m, md_delta = delta,
              md_direction = fst (metricReading policy m delta),
              md_reading = snd (metricReading policy m delta)\<rparr>) shared;
          missing = \<lparr>casesOnlyInBaseline = only_in bCases cCases, casesOnlyInCandidate = only_in cCases bCases,
             metricsOnlyInBaseline = only_in bNames cNames, metricsOnlyInCandidate = only_in cNames bNames\<rparr>;
          sharedCases = length (filter (\<lambda>i. i \<in> set cCases) bCases);
          coverage = metricCoverage b c;
          anyMissing = (casesOnlyInBaseline missing \<noteq> [] \<or> casesOnlyInCandidate missing \<noteq> []
             \<or> metricsOnlyInBaseline missing \<noteq> [] \<or> metricsOnlyInCandidate missing \<noteq> []
             \<or> incomparable \<noteq> [] \<or> list_ex coverage_differs coverage)
      in \<lparr>df_baseline = sc_harness b, df_candidate = sc_harness c, df_metrics = metrics,
          df_regressions = filter (\<lambda>d. cd_change d = Some Broke) flips,
          df_improvements = filter (\<lambda>d. cd_change d = Some Fixed) flips,
          df_transitions = transitions, df_unavailable = unavailable_of bp cp, df_coverage = coverage,
          df_missing = missing, df_incomparable = incomparable, df_sharedCases = sharedCases,
          df_baselineCases = length bCases, df_candidateCases = length cCases,
          df_comparability = (if sharedCases = 0 \<or> shared = [] then No_comparison
             else if anyMissing then Partial else Full)\<rparr>)"

subsection \<open>The re-score worklist\<close>

record retryable =
  rt_caseId :: string
  rt_trial :: "nat option"
  rt_graderId :: string
  rt_metric :: string

definition retryable_score :: "score \<Rightarrow> bool" where
  "retryable_score s \<longleftrightarrow> (case body s of Unmeasured reason retry code \<Rightarrow> retry | _ \<Rightarrow> False)"

definition retryableUnmeasured :: "scorecard \<Rightarrow> retryable list" where
  "retryableUnmeasured sc =
     concat (map (\<lambda>r. if r_failure r \<noteq> None then []
         else map (\<lambda>s. \<lparr>rt_caseId = r_caseId r, rt_trial = r_trial r, rt_graderId = graderId s, rt_metric = metric s\<rparr>)
           (filter retryable_score (r_scores r)))
       (sc_results sc))"

end
