(* ===== verification/Trials.thy ===== *)
theory Trials
  imports Scorecard
begin

text \<open>
  Repeated trials of a case: packages/domain/src/scorecard/trials.ts. Rates are exact rationals; the test statistics
  are real numbers, with \<open>ln\<close>, \<open>exp\<close> and \<open>sqrt\<close> for the functions of \<open>Math\<close>. The cache of \<open>logFactorial\<close> is the sum
  it holds.
\<close>

subsection \<open>pass@k\<close>

definition passAtK :: "int \<Rightarrow> int \<Rightarrow> int \<Rightarrow> rat res" where
  "passAtK n c k =
     (if n \<le> 0 then Inl (BadRequest ''BAD_REQUEST'' ''passAtK needs at least one trial (n>0).'')
      else if c < 0 \<or> n < c then Inl (BadRequest ''BAD_REQUEST'' ''passAtK needs 0 <= c <= n.'')
      else if k \<le> 0 then Inl (BadRequest ''BAD_REQUEST'' ''passAtK needs k > 0.'')
      else let kk = min k n in
        if n - c < kk then Inr 1
        else Inr (1 - fold (\<lambda>i prod. prod * (1 - of_int kk / of_nat i)) [nat (n - c) + 1..<nat n + 1] 1))"

subsection \<open>Trials of a case\<close>

definition groupTrials :: "case_result list \<Rightarrow> (string \<times> case_result list) list" where
  "groupTrials results =
     fold (\<lambda>r m. set_key (r_caseId r) (\<lambda>rs. (case rs of None \<Rightarrow> [] | Some xs \<Rightarrow> xs) @ [r]) m) results []"

record trial_stats =
  ts_caseId :: string
  ts_trials :: nat
  ts_passes :: nat
  ts_passRate :: rat
  ts_flaky :: bool

definition rate :: "nat \<Rightarrow> nat \<Rightarrow> rat" where
  "rate passes trials = (if 0 < trials then of_nat passes / of_nat trials else 0)"

definition caseTrialStats ::
  "(verdict_policy \<Rightarrow> string) \<Rightarrow> (score \<Rightarrow> string) \<Rightarrow> string \<Rightarrow> case_result list \<Rightarrow> verdict_policy \<Rightarrow> trial_stats" where
  "caseTrialStats pdig sdig caseId results p =
     (let vs = map (caseVerdict pdig sdig p) results;
          trials = length (filter (\<lambda>v. v \<noteq> None) vs); passes = count_verdict True vs
      in \<lparr>ts_caseId = caseId, ts_trials = trials, ts_passes = passes, ts_passRate = rate passes trials,
          ts_flaky = (0 < passes \<and> passes < trials)\<rparr>)"

record trial_summary =
  tm_cases :: nat
  tm_minTrials :: nat
  tm_maxTrials :: nat
  tm_passAt1 :: rat
  tm_k :: int
  tm_passAtK :: rat
  tm_flakyCases :: nat
  tm_flakeRate :: rat

fun sum_res :: "rat res list \<Rightarrow> rat \<Rightarrow> rat res" where
  "sum_res [] acc = Inr acc"
| "sum_res (r # rs) acc = bind_res r (\<lambda>x. sum_res rs (acc + x))"

definition summarizeTrials ::
  "(verdict_policy \<Rightarrow> string) \<Rightarrow> (score \<Rightarrow> string) \<Rightarrow> case_result list \<Rightarrow> int option \<Rightarrow> verdict_policy option
    \<Rightarrow> trial_summary res" where
  "summarizeTrials pdig sdig results k policy =
     (let p = (case policy of None \<Rightarrow> DEFAULT_VERDICT_POLICY | Some p \<Rightarrow> p);
          stats = filter (\<lambda>s. 0 < ts_trials s)
            (map (\<lambda>(caseId, rs). caseTrialStats pdig sdig caseId rs p) (groupTrials results))
      in if stats = [] then
           Inr \<lparr>tm_cases = 0, tm_minTrials = 0, tm_maxTrials = 0, tm_passAt1 = 0,
                tm_k = (case k of None \<Rightarrow> 0 | Some k \<Rightarrow> k), tm_passAtK = 0, tm_flakyCases = 0, tm_flakeRate = 0\<rparr>
         else
           let lo = Min (set (map ts_trials stats)); hi = Max (set (map ts_trials stats));
               kk = (case k of None \<Rightarrow> int lo | Some k \<Rightarrow> k);
               total = of_nat (length stats);
               flaky = length (filter ts_flaky stats)
           in bind_res (sum_res (map (\<lambda>s. passAtK (int (ts_trials s)) (int (ts_passes s)) (min kk (int (ts_trials s))))
                stats) 0) (\<lambda>sum.
              Inr \<lparr>tm_cases = length stats, tm_minTrials = lo, tm_maxTrials = hi,
                   tm_passAt1 = sum_list (map ts_passRate stats) / total, tm_k = kk, tm_passAtK = sum / total,
                   tm_flakyCases = flaky, tm_flakeRate = of_nat flaky / total\<rparr>))"

subsection \<open>The tests\<close>

definition twoProportionZ :: "nat \<Rightarrow> nat \<Rightarrow> nat \<Rightarrow> nat \<Rightarrow> real" where
  "twoProportionZ cb nb cc nc =
     (if nb = 0 \<or> nc = 0 then 0
      else let pb = real cb / real nb; pc = real cc / real nc; pHat = (real cb + real cc) / (real nb + real nc);
               se = sqrt (pHat * (1 - pHat) * (1 / real nb + 1 / real nc))
           in if 0 < se then (pc - pb) / se else 0)"

definition FISHER_MAX_TRIALS :: nat where "FISHER_MAX_TRIALS = 30"

definition logFactorial :: "nat \<Rightarrow> real" where
  "logFactorial n = fold (\<lambda>i acc. acc + ln (real i)) [1..<n + 1] 0"

definition logTable :: "nat \<Rightarrow> nat \<Rightarrow> nat \<Rightarrow> nat \<Rightarrow> real" where
  "logTable row1 row2 col1 a =
     logFactorial row1 + logFactorial row2 + logFactorial col1 + logFactorial (row1 + row2 - col1)
     - (logFactorial (row1 + row2) + logFactorial a + logFactorial (row1 - a) + logFactorial (col1 - a)
        + logFactorial (row2 - (col1 - a)))"

definition fisherExactTwoSided :: "nat \<Rightarrow> nat \<Rightarrow> nat \<Rightarrow> nat \<Rightarrow> real" where
  "fisherExactTwoSided cb nb cc nc =
     (let col1 = cb + cc; lo = col1 - nc; hi = min nb col1; observed = logTable nb nc col1 cb
      in min 1 (fold (\<lambda>a p. if logTable nb nc col1 a \<le> observed + 1 / 10 ^ 9 then p + exp (logTable nb nc col1 a) else p)
           [lo..<hi + 1] 0))"

definition twoSidedPFromZ :: "real \<Rightarrow> real" where
  "twoSidedPFromZ z =
     (let a = \<bar>z\<bar>; t = 1 / (1 + 3275911 / 10 ^ 7 * (a / sqrt 2));
          erf = 1 - (254829592 / 10 ^ 9 * t - 284496736 / 10 ^ 9 * t ^ 2 + 1421413741 / 10 ^ 9 * t ^ 3
                     - 1453152027 / 10 ^ 9 * t ^ 4 + 1061405429 / 10 ^ 9 * t ^ 5) * exp (- ((a / sqrt 2) ^ 2))
      in min 1 (max 0 (2 * (1 - (1 + erf) / 2))))"

text \<open>The step-up procedure: the ranks up to the last one whose value is under its line.\<close>

definition by_p :: "(real \<times> nat) compare" where
  "by_p a b = (if fst a < fst b then -1 else if fst b < fst a then 1 else 0)"

definition last_under :: "real \<Rightarrow> real list \<Rightarrow> nat" where
  "last_under alpha ps =
     fold (\<lambda>(i, p) upto. if p \<le> (real i + 1) / real (length ps) * alpha then i + 1 else upto) (enumerate 0 ps) 0"

definition benjaminiHochberg :: "real list \<Rightarrow> real \<Rightarrow> nat list" where
  "benjaminiHochberg pValues alpha =
     (if pValues = [] then []
      else let ranked = sort_by by_p (zip pValues [0..<length pValues])
           in map snd (take (last_under alpha (map fst ranked)) ranked))"

subsection \<open>The comparison of two batches\<close>

record trial_delta =
  td_caseId :: string
  td_baselineRate :: rat
  td_baselineTrials :: nat
  td_candidateRate :: rat
  td_candidateTrials :: nat
  td_delta :: rat
  td_z :: real
  td_fisher :: bool
  td_p :: real
  td_significant :: bool
  td_fdrSuppressed :: bool

record trial_missing =
  tg_onlyInBaseline :: "string list"
  tg_onlyInCandidate :: "string list"
  tg_unscored :: "string list"

record trial_diff =
  tf_baseline :: string
  tf_candidate :: string
  tf_zThreshold :: real
  tf_minDelta :: rat
  tf_fdrAlpha :: "real option"
  tf_cases :: "trial_delta list"
  tf_regressions :: "trial_delta list"
  tf_improvements :: "trial_delta list"
  tf_missing :: trial_missing

record trial_opts =
  to_zThreshold :: "real option"
  to_minDelta :: "rat option"
  to_fdrAlpha :: "real option"

definition default_or :: "'a \<Rightarrow> 'a option \<Rightarrow> 'a" where
  "default_or d x = (case x of None \<Rightarrow> d | Some v \<Rightarrow> v)"

text \<open>One case under test: its row before the verdict on significance, and whether it clears its own level.\<close>

definition test_case :: "real \<Rightarrow> real \<Rightarrow> trial_stats \<Rightarrow> trial_stats \<Rightarrow> trial_delta \<times> bool" where
  "test_case zThreshold alpha bs cs =
     (let z = twoProportionZ (ts_passes bs) (ts_trials bs) (ts_passes cs) (ts_trials cs);
          useFisher = (ts_trials bs < FISHER_MAX_TRIALS \<or> ts_trials cs < FISHER_MAX_TRIALS);
          p = (if useFisher then fisherExactTwoSided (ts_passes bs) (ts_trials bs) (ts_passes cs) (ts_trials cs)
               else twoSidedPFromZ z)
      in (\<lparr>td_caseId = ts_caseId cs, td_baselineRate = ts_passRate bs, td_baselineTrials = ts_trials bs,
           td_candidateRate = ts_passRate cs, td_candidateTrials = ts_trials cs,
           td_delta = ts_passRate cs - ts_passRate bs, td_z = z, td_fisher = useFisher, td_p = p,
           td_significant = False, td_fdrSuppressed = False\<rparr>,
          if useFisher then p < alpha else zThreshold \<le> \<bar>z\<bar>))"

definition settle_case :: "rat \<Rightarrow> nat list option \<Rightarrow> nat \<Rightarrow> trial_delta \<times> bool \<Rightarrow> trial_delta" where
  "settle_case minDelta rejected i t =
     (let stat = (case rejected of None \<Rightarrow> snd t | Some is \<Rightarrow> i \<in> set is)
      in (fst t)\<lparr>td_significant := stat \<and> minDelta \<le> \<bar>td_delta (fst t)\<bar>,
                 td_fdrSuppressed := rejected \<noteq> None \<and> snd t \<and> \<not> stat\<rparr>)"

definition side_stats ::
  "(verdict_policy \<Rightarrow> string) \<Rightarrow> (score \<Rightarrow> string) \<Rightarrow> verdict_policy \<Rightarrow> (string \<times> case_result list) list \<Rightarrow> string
    \<Rightarrow> trial_stats option" where
  "side_stats pdig sdig p groups caseId =
     map_option (\<lambda>rs. caseTrialStats pdig sdig caseId rs p) (map_of groups caseId)"

text \<open>A case of the candidate with its two sides, when the baseline ran it too.\<close>

definition paired ::
  "(verdict_policy \<Rightarrow> string) \<Rightarrow> (score \<Rightarrow> string) \<Rightarrow> verdict_policy \<Rightarrow> verdict_policy
    \<Rightarrow> (string \<times> case_result list) list \<Rightarrow> (string \<times> case_result list) list \<Rightarrow> (trial_stats \<times> trial_stats) list" where
  "paired pdig sdig bp cp b c =
     List.map_filter (\<lambda>(caseId, rs).
         map_option (\<lambda>bs. (bs, caseTrialStats pdig sdig caseId rs cp)) (side_stats pdig sdig bp b caseId)) c"

definition scored :: "trial_stats \<times> trial_stats \<Rightarrow> bool" where
  "scored t \<longleftrightarrow> ts_trials (fst t) \<noteq> 0 \<and> ts_trials (snd t) \<noteq> 0"

definition diffTrials ::
  "(verdict_policy \<Rightarrow> string) \<Rightarrow> (score \<Rightarrow> string) \<Rightarrow> scorecard \<Rightarrow> scorecard \<Rightarrow> trial_opts
    \<Rightarrow> verdict_policy option \<Rightarrow> verdict_policy option \<Rightarrow> trial_diff" where
  "diffTrials pdig sdig baseline candidate opts bpolicy cpolicy =
     (let zThreshold = default_or (196 / 100) (to_zThreshold opts);
          minDelta = default_or 0 (to_minDelta opts);
          alpha = twoSidedPFromZ zThreshold;
          b = groupTrials (sc_results baseline); c = groupTrials (sc_results candidate);
          pairs = paired pdig sdig (default_or DEFAULT_VERDICT_POLICY bpolicy) (default_or DEFAULT_VERDICT_POLICY cpolicy) b c;
          tested = map (\<lambda>(bs, cs). test_case zThreshold alpha bs cs) (filter scored pairs);
          rejected = map_option (benjaminiHochberg (map (\<lambda>t. td_p (fst t)) tested)) (to_fdrAlpha opts);
          cases = map (\<lambda>(i, t). settle_case minDelta rejected i t) (enumerate 0 tested)
      in \<lparr>tf_baseline = sc_harness baseline, tf_candidate = sc_harness candidate, tf_zThreshold = zThreshold,
          tf_minDelta = minDelta, tf_fdrAlpha = to_fdrAlpha opts, tf_cases = cases,
          tf_regressions = filter (\<lambda>d. td_significant d \<and> td_delta d < 0) cases,
          tf_improvements = filter (\<lambda>d. td_significant d \<and> 0 < td_delta d) cases,
          tf_missing = \<lparr>tg_onlyInBaseline = only_in (map fst b) (map fst c),
            tg_onlyInCandidate = only_in (map fst c) (map fst b),
            tg_unscored = map (\<lambda>t. ts_caseId (snd t)) (filter (\<lambda>t. \<not> scored t) pairs)\<rparr>\<rparr>)"

end
