(* ===== verification/TrialsLaws.thy ===== *)
theory TrialsLaws
  imports Trials
begin

text \<open>
  What the numbers of repeated trials mean: pass@k counts the samples of k trials that hold a pass, the exact test adds
  up hypergeometric weights, the step-up correction rejects below the last line a value clears, and the comparison of
  two batches accounts for every case of both.
\<close>

subsection \<open>pass@k\<close>

lemma ratio_binomial:
  assumes "k \<le> m"
  shows "(of_nat (Suc m choose k) :: rat) * (1 - of_nat k / of_nat (Suc m)) = of_nat (m choose k)"
proof -
  have "(Suc m - k) * (Suc m choose k) = Suc m * (m choose k)"
    by (metis binomial_absorb_comp diff_Suc_1)
  then have "(of_nat (Suc m) - of_nat k) * (of_nat (Suc m choose k) :: rat) = of_nat (Suc m) * of_nat (m choose k)"
    using assms by (metis le_SucI of_nat_diff of_nat_mult)
  then show ?thesis by (simp add: field_simps)
qed

lemma fold_product:
  "fold (\<lambda>i prod. prod * f i) xs (a :: rat) = a * fold (\<lambda>i prod. prod * f i) xs 1"
proof (induction xs arbitrary: a)
  case (Cons x xs)
  have "fold (\<lambda>i prod. prod * f i) (x # xs) a = (a * f x) * fold (\<lambda>i prod. prod * f i) xs 1"
    using Cons [of "a * f x"] by simp
  also have "\<dots> = a * fold (\<lambda>i prod. prod * f i) (x # xs) 1" using Cons [of "f x"] by simp
  finally show ?case .
qed simp

lemma product_telescopes:
  assumes "k \<le> m"
  shows "of_nat ((m + c) choose k) * fold (\<lambda>i prod. prod * (1 - of_nat k / of_nat i)) [m + 1..<m + c + 1] (1 :: rat)
    = of_nat (m choose k)"
proof (induction c)
  case (Suc c)
  let ?f = "\<lambda>i prod. prod * (1 - (of_nat k :: rat) / of_nat i)"
  let ?F = "fold ?f [m + 1..<m + c + 1] 1" and ?y = "1 - (of_nat k :: rat) / of_nat (Suc (m + c))"
  have step: "fold ?f [m + 1..<m + Suc c + 1] 1 = ?F * ?y" by (simp add: upt_Suc)
  have "of_nat (m + Suc c choose k) * (?F * ?y) = ?F * (of_nat (Suc (m + c) choose k) * ?y)"
    by (simp only: add_Suc_right mult.left_commute)
  also have "\<dots> = of_nat (m + c choose k) * ?F"
    by (subst ratio_binomial) (use assms in \<open>simp_all add: mult.commute\<close>)
  finally show ?case unfolding step by (rule trans) (rule Suc)
qed simp

definition subsets_of_size :: "nat set \<Rightarrow> nat \<Rightarrow> nat set set" where
  "subsets_of_size A k = {S. S \<subseteq> A \<and> card S = k}"

lemma card_hitting:
  assumes "finite A" "P \<subseteq> A"
  shows "card {S \<in> subsets_of_size A k. S \<inter> P \<noteq> {}} = (card A choose k) - ((card A - card P) choose k)"
proof -
  have split: "{S \<in> subsets_of_size A k. S \<inter> P \<noteq> {}} = subsets_of_size A k - subsets_of_size (A - P) k"
    by (auto simp: subsets_of_size_def)
  have "subsets_of_size (A - P) k \<subseteq> subsets_of_size A k" by (auto simp: subsets_of_size_def)
  moreover have "finite (subsets_of_size (A - P) k)" using assms by (simp add: subsets_of_size_def)
  ultimately have "card {S \<in> subsets_of_size A k. S \<inter> P \<noteq> {}}
      = card (subsets_of_size A k) - card (subsets_of_size (A - P) k)"
    unfolding split by (rule card_Diff_subset [rotated])
  then show ?thesis using assms
    by (simp add: subsets_of_size_def n_subsets card_Diff_subset finite_subset)
qed

lemma passAtK_product:
  assumes "0 < n" "c \<le> n" "0 < k"
  shows "passAtK (int n) (int c) (int k) =
    Inr (1 - of_nat ((n - c) choose (min k n)) / of_nat (n choose (min k n)))"
proof -
  let ?kk = "min k n"
  have pos: "(0 :: rat) < of_nat (n choose ?kk)" by simp
  show ?thesis
  proof (cases "n - c < ?kk")
    case True
    then have "(n - c) choose ?kk = 0" by (rule binomial_eq_0)
    then show ?thesis using True assms by (auto simp: passAtK_def Let_def)
  next
    case False
    then have "of_nat (n choose ?kk) * fold (\<lambda>i prod. prod * (1 - of_nat ?kk / of_nat i)) [n - c + 1..<n + 1] (1 :: rat)
        = of_nat ((n - c) choose ?kk)"
      using product_telescopes [of ?kk "n - c" c] assms(2) False by (simp del: upt_Suc)
    then have "fold (\<lambda>i prod. prod * (1 - of_nat ?kk / of_nat i)) [n - c + 1..<n + 1] (1 :: rat)
        = of_nat ((n - c) choose ?kk) / of_nat (n choose ?kk)"
      using pos by (metis (no_types, lifting) less_numeral_extra(3) nonzero_mult_div_cancel_left)
    moreover have "(of_int (min (int k) (int n)) :: rat) = of_nat ?kk" by (simp add: min_def)
    moreover have "nat (int n - int c) + 1 = n - c + 1" by simp
    moreover have "\<not> int n - int c < min (int k) (int n)" using False assms(2) by linarith
    ultimately show ?thesis using assms by (auto simp: passAtK_def Let_def)
  qed
qed

text \<open>C26. pass@k is the share of the samples of k of the n trials that hold at least one of the passed ones; k above n
  reads as n.\<close>

theorem passAtK_unbiased:
  assumes "P \<subseteq> {..<n}" "0 < n" "0 < k"
  shows "passAtK (int n) (int (card P)) (int k) =
    Inr (of_nat (card {S \<in> subsets_of_size {..<n} (min k n). S \<inter> P \<noteq> {}})
         / of_nat (card (subsets_of_size {..<n} (min k n))))"
proof -
  let ?kk = "min k n"
  have "card P \<le> n" using card_mono [OF _ assms(1)] by simp
  moreover have "(n - card P) choose ?kk \<le> n choose ?kk" by (rule binomial_right_mono) simp
  ultimately show ?thesis
    using passAtK_product [OF assms(2) _ assms(3), of "card P"] card_hitting [OF _ assms(1), of ?kk]
    by (simp add: subsets_of_size_def n_subsets of_nat_diff diff_divide_distrib)
qed

lemma passAtK_unbiased_witness:
  "passAtK 3 1 2 = Inr (of_nat (card {S \<in> subsets_of_size {..<3} 2. S \<inter> {0} \<noteq> {}}) / of_nat (card (subsets_of_size {..<3} 2)))"
  using passAtK_unbiased [of "{0}" 3 2] by (simp add: min_def)

subsection \<open>The exact test\<close>

lemma logFactorial_simps [simp]:
  "logFactorial 0 = 0" "logFactorial (Suc n) = logFactorial n + ln (real (Suc n))"
  by (simp_all add: logFactorial_def)

lemma exp_logFactorial: "exp (logFactorial n) = fact n"
  by (induction n) (simp_all add: exp_add)

definition table_weight :: "nat \<Rightarrow> nat \<Rightarrow> nat \<Rightarrow> nat \<Rightarrow> real" where
  "table_weight row1 row2 col1 a =
     real (row1 choose a) * real (row2 choose (col1 - a)) / real ((row1 + row2) choose col1)"

lemma exp_logTable:
  assumes "a \<le> row1" "a \<le> col1" "col1 - a \<le> row2"
  shows "exp (logTable row1 row2 col1 a) = table_weight row1 row2 col1 a"
proof -
  have "col1 \<le> row1 + row2" using assms by linarith
  then show ?thesis using assms
    by (simp add: logTable_def table_weight_def binomial_fact exp_add exp_diff exp_logFactorial field_simps)
qed

lemma fold_sum_if:
  "fold (\<lambda>a p. if Q a then p + f a else p) xs z = z + sum_list (map f (filter Q xs))"
  for z :: real
  by (induction xs arbitrary: z) simp_all

definition tables :: "nat \<Rightarrow> nat \<Rightarrow> nat \<Rightarrow> nat set" where
  "tables row1 row2 col1 = {col1 - row2..min row1 col1}"

lemma table_weight_nonneg: "0 \<le> table_weight row1 row2 col1 a"
  by (simp add: table_weight_def)

lemma sum_table_weight_le:
  assumes "A \<subseteq> {..col1}" "col1 \<le> row1 + row2"
  shows "sum (table_weight row1 row2 col1) A \<le> 1"
proof -
  have "sum (table_weight row1 row2 col1) A \<le> sum (table_weight row1 row2 col1) {..col1}"
    using assms(1) by (intro sum_mono2) (auto simp: table_weight_nonneg)
  also have "\<dots> = (\<Sum>a\<le>col1. real ((row1 choose a) * (row2 choose (col1 - a)))) / real ((row1 + row2) choose col1)"
    by (simp add: table_weight_def sum_divide_distrib)
  also have "\<dots> = 1"
    using assms(2) by (simp only: of_nat_sum [symmetric] vandermonde) simp
  finally show ?thesis .
qed

text \<open>The p-value of the exact test is the total weight of the tables with the same margins that are no more likely than
  the observed one, up to the tolerance of the code; it is positive and at most 1.\<close>

theorem fisher_exact:
  assumes "cb \<le> nb" "cc \<le> nc"
  shows "fisherExactTwoSided cb nb cc nc =
      (\<Sum>a \<in> {a \<in> tables nb nc (cb + cc). table_weight nb nc (cb + cc) a \<le> table_weight nb nc (cb + cc) cb * exp (1 / 10 ^ 9)}.
         table_weight nb nc (cb + cc) a)
    \<and> 0 < fisherExactTwoSided cb nb cc nc \<and> fisherExactTwoSided cb nb cc nc \<le> 1"
proof -
  let ?c = "cb + cc"
  let ?w = "table_weight nb nc ?c" and ?l = "logTable nb nc ?c"
  let ?A = "{a \<in> tables nb nc ?c. ?w a \<le> ?w cb * exp (1 / 10 ^ 9)}"
  have expw: "exp (?l a) = ?w a" if mem: "a \<in> tables nb nc ?c" for a
    using mem by (intro exp_logTable) (auto simp: tables_def)
  have cb: "cb \<in> tables nb nc ?c" using assms by (auto simp: tables_def)
  have le: "?l a \<le> ?l cb + 1 / 10 ^ 9 \<longleftrightarrow> ?w a \<le> ?w cb * exp (1 / 10 ^ 9)" if mem: "a \<in> tables nb nc ?c" for a
  proof -
    have "?l a \<le> ?l cb + 1 / 10 ^ 9 \<longleftrightarrow> exp (?l a) \<le> exp (?l cb + 1 / 10 ^ 9)" by (rule exp_le_cancel_iff [symmetric])
    then show ?thesis using expw [OF mem] expw [OF cb] by (simp only: exp_add)
  qed
  have range: "set [?c - nc..<min nb ?c + 1] = tables nb nc ?c" by (auto simp: tables_def)
  have "sum_list (map (\<lambda>a. exp (?l a)) (filter (\<lambda>a. ?l a \<le> ?l cb + 1 / 10 ^ 9) [?c - nc..<min nb ?c + 1]))
      = (\<Sum>a \<in> set (filter (\<lambda>a. ?l a \<le> ?l cb + 1 / 10 ^ 9) [?c - nc..<min nb ?c + 1]). exp (?l a))"
    by (intro sum_list_distinct_conv_sum_set) (simp del: upt_Suc)
  also have "\<dots> = sum ?w ?A"
    unfolding set_filter range using le expw by (intro sum.cong) auto
  finally have fold: "fisherExactTwoSided cb nb cc nc = min 1 (sum ?w ?A)"
    unfolding fisherExactTwoSided_def Let_def fold_sum_if by simp
  have "?A \<subseteq> {..?c}" by (auto simp: tables_def)
  then have le1: "sum ?w ?A \<le> 1" using assms by (intro sum_table_weight_le) auto
  have "0 < ?w cb" using assms by (simp add: table_weight_def)
  moreover have "cb \<in> ?A" using cb calculation by simp
  moreover have "finite ?A" by (simp add: tables_def)
  ultimately have "0 < sum ?w ?A"
    by (intro sum_pos2 [of _ cb]) (auto simp: table_weight_nonneg)
  then show ?thesis using fold le1 by simp
qed

subsection \<open>The step-up procedure\<close>

interpretation p_values: comparison by_p "\<lambda>_. True"
  by unfold_locales (auto simp: by_p_def split: if_splits)

lemma sorted_ranked: "sorted (map fst (sort_by by_p xs))"
proof -
  have "sorted_wrt (\<lambda>a b. by_p a b \<le> 0) (sort_by by_p xs)" by (rule p_values.sorted_sort_by) simp
  then show ?thesis
    by (simp add: sorted_map by_p_def) (erule sorted_wrt_mono_rel [rotated], auto split: if_splits)
qed

lemma sorted_count:
  "sorted xs \<Longrightarrow> k < length xs \<Longrightarrow> xs ! k \<le> v \<longleftrightarrow> k < length (filter (\<lambda>x. x \<le> v) xs)"
  for v :: "'a :: linorder"
proof (induction xs arbitrary: k)
  case (Cons x xs)
  show ?case
  proof (cases "x \<le> v")
    case True
    then show ?thesis using Cons by (cases k) auto
  next
    case False
    then have "filter (\<lambda>x. x \<le> v) xs = []" using Cons.prems(1) by (auto simp: filter_empty_conv)
    moreover have "x \<le> (x # xs) ! k" using Cons.prems by (cases k) auto
    ultimately show ?thesis using False by simp
  qed
qed simp

text \<open>The last rank under its line.\<close>

lemma last_under_from:
  "u \<le> n \<Longrightarrow> k < fold (\<lambda>(i, p) upto. if P i p then i + 1 else upto) (enumerate n ps) u
     \<longleftrightarrow> k < u \<or> (\<exists>r < length ps. k \<le> n + r \<and> P (n + r) (ps ! r))"
proof (induction ps arbitrary: n u)
  case (Cons p ps)
  let ?u = "if P n p then n + 1 else u"
  have "k < fold (\<lambda>(i, p) upto. if P i p then i + 1 else upto) (enumerate n (p # ps)) u
      \<longleftrightarrow> k < ?u \<or> (\<exists>r < length ps. k \<le> Suc n + r \<and> P (Suc n + r) (ps ! r))"
    by (simp only: enumerate_simps fold_simps prod.case, rule Cons.IH) (use Cons.prems in simp)
  moreover have "k < ?u \<longleftrightarrow> k < u \<or> k \<le> n \<and> P n p" using Cons.prems by auto
  ultimately show ?case by (simp add: Ex_less_Suc2 nth_Cons')
qed simp

lemma last_under_iff:
  "k < last_under alpha ps \<longleftrightarrow>
     (\<exists>r < length ps. k \<le> r \<and> ps ! r \<le> (real r + 1) / real (length ps) * alpha)"
  unfolding last_under_def by (subst last_under_from) simp_all

text \<open>Rank by rank: the index at a rank is rejected when a later rank is under its line.\<close>

lemma nth_take_index:
  assumes "distinct (map snd xs)" "k < length xs"
  shows "snd (xs ! k) \<in> snd ` set (take n xs) \<longleftrightarrow> k < n"
proof
  assume "snd (xs ! k) \<in> snd ` set (take n xs)"
  then obtain j where j: "j < length xs" "j < n" "snd (xs ! j) = snd (xs ! k)"
    by (auto simp: in_set_conv_nth)
  then show "k < n" using nth_eq_iff_index_eq [OF assms(1), of j k] assms(2) by simp
next
  assume "k < n"
  then have "take n xs ! k = xs ! k" "k < length (take n xs)" using assms(2) by simp_all
  then show "snd (xs ! k) \<in> snd ` set (take n xs)" by (metis imageI nth_mem)
qed

definition count_up_to :: "real list \<Rightarrow> real \<Rightarrow> nat" where
  "count_up_to ps v = length (filter (\<lambda>p. p \<le> v) ps)"

lemma ranked_values:
  defines "r ps \<equiv> sort_by by_p (zip ps [0..<length ps])"
  shows "mset (map fst (r ps)) = mset ps" "mset (map snd (r ps)) = mset [0..<length ps]" "length (r ps) = length ps"
proof -
  show "mset (map fst (r ps)) = mset ps"
    unfolding r_def by (metis length_upt map_fst_zip minus_nat.diff_0 mset_map mset_sort_by)
  show "mset (map snd (r ps)) = mset [0..<length ps]"
    unfolding r_def by (metis length_upt map_snd_zip minus_nat.diff_0 mset_map mset_sort_by)
qed (simp add: r_def)

text \<open>The values in rank order, and the rank an index got.\<close>

definition ranked_ps :: "real list \<Rightarrow> real list" where
  "ranked_ps ps = map fst (sort_by by_p (zip ps [0..<length ps]))"

lemma ranked_ps_facts [simp]: "mset (ranked_ps ps) = mset ps" "length (ranked_ps ps) = length ps"
  using ranked_values [of ps] by (simp_all add: ranked_ps_def)

lemma ranked_count:
  assumes "k < length ps"
  shows "ranked_ps ps ! k \<le> v \<longleftrightarrow> k < count_up_to ps v"
proof -
  have "count_up_to ps v = length (filter (\<lambda>p. p \<le> v) (ranked_ps ps))"
    unfolding count_up_to_def by (metis ranked_ps_facts(1) mset_filter size_mset)
  then show ?thesis
    using sorted_count [OF sorted_ranked, of k "zip ps [0..<length ps]" v] assms by (simp add: ranked_ps_def)
qed

lemma rank_of_index:
  assumes "i < length ps"
  obtains k where "k < length ps" "ranked_ps ps ! k = ps ! i"
    "i \<in> set (benjaminiHochberg ps alpha) \<longleftrightarrow> k < last_under alpha (ranked_ps ps)"
proof -
  let ?r = "sort_by by_p (zip ps [0..<length ps])"
  note vals = ranked_values [of ps]
  have dist: "distinct (map snd ?r)" using vals(2) by (metis distinct_upt mset_eq_imp_distinct_iff)
  have "i \<in> set (map snd ?r)" using vals(2) assms by (metis atLeastLessThan_iff le0 mset_eq_setD set_upt)
  then obtain k where "k < length (map snd ?r)" "map snd ?r ! k = i" unfolding in_set_conv_nth by blast
  then have k: "k < length ps" "snd (?r ! k) = i" by simp_all
  have "?r ! k \<in> set (zip ps [0..<length ps])" using k(1) vals(3) nth_mem [of k ?r] by simp
  then have "ranked_ps ps ! k = ps ! i" using k by (auto simp: set_zip ranked_ps_def)
  moreover have "i \<in> set (benjaminiHochberg ps alpha) \<longleftrightarrow> k < last_under alpha (ranked_ps ps)"
    using nth_take_index [OF dist, of k "last_under alpha (ranked_ps ps)"] k assms vals(3)
    by (auto simp: benjaminiHochberg_def Let_def ranked_ps_def)
  ultimately show thesis using k(1) that by blast
qed

lemma last_under_count:
  assumes "0 \<le> alpha" "k < length ps"
  shows "k < last_under alpha (ranked_ps ps) \<longleftrightarrow>
    (\<exists>v \<in> set ps. ranked_ps ps ! k \<le> v \<and> v * real (length ps) \<le> real (count_up_to ps v) * alpha)"
    (is "_ \<longleftrightarrow> ?R")
proof -
  let ?m = "length ps" and ?q = "ranked_ps ps"
  have "x \<le> y / real ?m * alpha \<longleftrightarrow> x * real ?m \<le> y * alpha" for x y
  proof -
    have "0 < real ?m" using assms(2) by auto
    then show ?thesis by (simp add: pos_le_divide_eq)
  qed
  then have "k < last_under alpha ?q \<longleftrightarrow> (\<exists>r < ?m. k \<le> r \<and> ?q ! r * real ?m \<le> (real r + 1) * alpha)" (is "_ \<longleftrightarrow> ?L")
    unfolding last_under_iff by simp
  also have "?L \<longleftrightarrow> ?R"
  proof
    assume ?L
    then obtain r where r: "r < ?m" "k \<le> r" "?q ! r * real ?m \<le> (real r + 1) * alpha" by blast
    have "?q ! k \<le> ?q ! r" using sorted_nth_mono [OF sorted_ranked r(2), of "zip ps [0..<?m]"] r(1) by (simp add: ranked_ps_def)
    moreover have "r < count_up_to ps (?q ! r)" using ranked_count [OF r(1)] by blast
    then have "(real r + 1) * alpha \<le> real (count_up_to ps (?q ! r)) * alpha"
      using assms(1) by (intro mult_right_mono) simp_all
    moreover have "?q ! r \<in> set ps" using r(1) by (metis ranked_ps_facts mset_eq_setD nth_mem)
    ultimately show ?R using r(3) by force
  next
    assume ?R
    then obtain v where v: "?q ! k \<le> v" "v * real ?m \<le> real (count_up_to ps v) * alpha" by blast
    then obtain r where r: "count_up_to ps v = Suc r" "k \<le> r"
      using ranked_count [OF assms(2)] by (cases "count_up_to ps v") auto
    have "r < ?m" using r(1) length_filter_le [of "\<lambda>p. p \<le> v" ps] by (simp add: count_up_to_def)
    moreover from this have "?q ! r \<le> v" using ranked_count r(1) by simp
    then have "?q ! r * real ?m \<le> v * real ?m" by (intro mult_right_mono) simp_all
    then have "?q ! r * real ?m \<le> (real r + 1) * alpha" using v(2) r(1) by (simp add: add.commute)
    ultimately show ?L using r(2) by blast
  qed
  finally show ?thesis .
qed

text \<open>An index is rejected exactly when its p-value is at most one that lies under the line alpha times the number of
  values up to it, over their count; how ties were sorted does not matter.\<close>

theorem bh_rejects_iff:
  assumes "0 \<le> alpha" "i < length ps"
  shows "i \<in> set (benjaminiHochberg ps alpha) \<longleftrightarrow>
    (\<exists>v \<in> set ps. ps ! i \<le> v \<and> v * real (length ps) \<le> real (count_up_to ps v) * alpha)"
  using rank_of_index [OF assms(2)] last_under_count [OF assms(1)] by metis

lemma bh_rejects_iff_witness: "0 \<in> set (benjaminiHochberg [1 / 100, 1 / 2] (1 / 20))"
  using bh_rejects_iff [of "1 / 20" 0 "[1 / 100, 1 / 2]"] by (simp add: count_up_to_def)

subsection \<open>What three trials can show\<close>

lemma exp_lower: "0 \<le> x \<Longrightarrow> (1 + x / 4) ^ 4 \<le> exp x" for x :: real
proof -
  assume "0 \<le> x"
  then have "(1 + x / 4) ^ 4 \<le> exp (x / 4) ^ 4" by (intro power_mono exp_ge_add_one_self) auto
  then show ?thesis by (simp flip: exp_of_nat_mult)
qed

definition tail_poly :: "real \<Rightarrow> real" where
  "tail_poly t = 254829592 / 10 ^ 9 * t - 284496736 / 10 ^ 9 * t ^ 2 + 1421413741 / 10 ^ 9 * t ^ 3
     - 1453152027 / 10 ^ 9 * t ^ 4 + 1061405429 / 10 ^ 9 * t ^ 5"

lemma tail_poly_bounds:
  assumes "687 / 1000 \<le> t" "t \<le> 689 / 1000"
  shows "0 \<le> tail_poly t" "tail_poly t \<le> 35 / 100"
proof -
  have lo: "(687 / 1000) ^ k \<le> t ^ k" and hi: "t ^ k \<le> (689 / 1000) ^ k" for k
    using assms by (intro power_mono; simp)+
  show "0 \<le> tail_poly t" "tail_poly t \<le> 35 / 100"
    using assms lo [of 2] lo [of 3] lo [of 4] lo [of 5] hi [of 2] hi [of 3] hi [of 4] hi [of 5]
    by (simp_all add: tail_poly_def power_divide)
qed

lemma tail_p: "2 * (1 - (1 + (1 - x)) / 2) = x" for x :: real
  by (simp add: field_simps)

lemma default_level: "twoSidedPFromZ (196 / 100) < 1 / 10"
proof -
  let ?x = "(196 / 100) / sqrt 2 :: real"
  let ?t = "1 / (1 + 3275911 / 10 ^ 7 * ?x)"
  have "141 / 100 < sqrt 2" by (rule real_less_rsqrt) (simp add: power2_eq_square)
  moreover have "sqrt 2 < 142 / (100 :: real)" by (rule real_less_lsqrt) (simp_all add: power2_eq_square)
  ultimately have x: "138 / 100 \<le> ?x" "?x \<le> 13901 / 10000" by (simp_all add: field_simps)
  have t: "687 / 1000 \<le> ?t" "?t \<le> 689 / 1000" using x by (simp_all add: field_simps)
  note poly = tail_poly_bounds [OF t]
  have sq: "?x ^ 2 = 19208 / 10000" by (simp add: power_divide)
  have "4 \<le> exp (19208 / 10000 :: real)" using exp_lower [of "19208 / 10000"] by (simp add: power_divide)
  then have e: "exp (- (?x ^ 2)) \<le> 1 / 4" unfolding sq by (simp add: exp_minus field_simps)
  have "tail_poly ?t * exp (- (?x ^ 2)) \<le> 35 / 100 * (1 / 4)" using poly e by (intro mult_mono) auto
  moreover have "twoSidedPFromZ (196 / 100) = min 1 (max 0 (tail_poly ?t * exp (- (?x ^ 2))))"
    unfolding twoSidedPFromZ_def tail_poly_def Let_def tail_p by simp
  ultimately show ?thesis by (simp add: min_def max_def)
qed

lemma fisher_ge_own:
  assumes "cb \<le> nb" "cc \<le> nc" "A \<subseteq> tables nb nc (cb + cc)"
    and "\<forall>a \<in> A. table_weight nb nc (cb + cc) a \<le> table_weight nb nc (cb + cc) cb"
  shows "sum (table_weight nb nc (cb + cc)) A \<le> fisherExactTwoSided cb nb cc nc"
proof -
  have "1 \<le> exp (1 / 10 ^ 9 :: real)" by simp
  then have "table_weight nb nc (cb + cc) cb * 1 \<le> table_weight nb nc (cb + cc) cb * exp (1 / 10 ^ 9)"
    by (intro mult_left_mono) (auto simp: table_weight_nonneg)
  then have "A \<subseteq> {a \<in> tables nb nc (cb + cc). table_weight nb nc (cb + cc) a
      \<le> table_weight nb nc (cb + cc) cb * exp (1 / 10 ^ 9)}"
    using assms(3,4) by fastforce
  then show ?thesis using fisher_exact [OF assms(1,2)]
    by (auto intro!: sum_mono2 simp: table_weight_nonneg tables_def)
qed

lemma fisher_three:
  assumes "cb \<le> 3" "cc \<le> 3"
  shows "1 / 10 \<le> fisherExactTwoSided cb 3 cc 3"
proof (cases "cb = 3 \<and> cc = 0 \<or> cb = 0 \<and> cc = 3")
  case True
  then have "sum (table_weight 3 3 (cb + cc)) {0, 3} \<le> fisherExactTwoSided cb 3 cc 3"
    by (intro fisher_ge_own) (auto simp: tables_def table_weight_def)
  moreover have "sum (table_weight 3 3 3) {0, 3} = 1 / 10"
    by (simp add: table_weight_def eval_nat_numeral)
  ultimately show ?thesis using True by auto
next
  case False
  have "sum (table_weight 3 3 (cb + cc)) {cb} \<le> fisherExactTwoSided cb 3 cc 3"
    using assms by (intro fisher_ge_own) (auto simp: tables_def)
  moreover have "cb \<in> {0, 1, 2, 3}" "cc \<in> {0, 1, 2, 3}" using assms by auto
  then have "1 / 10 \<le> table_weight 3 3 (cb + cc) cb"
    using False by (elim insertE) (simp_all add: table_weight_def eval_nat_numeral)
  ultimately show ?thesis by simp
qed

subsection \<open>The comparison of two batches\<close>

lemma trial_groups_keys [simp]: "fst ` set (groupTrials rs) = r_caseId ` set rs"
proof -
  have "fst ` set (fold (\<lambda>r. set_key (r_caseId r) (f r)) rs m) = fst ` set m \<union> r_caseId ` set rs" for f and m :: "(string \<times> case_result list) list"
    by (induction rs arbitrary: m) auto
  then show ?thesis by (simp add: groupTrials_def)
qed

lemma groups_distinct [simp]: "distinct (map fst (groupTrials rs))"
proof -
  have "distinct (map fst (fold (\<lambda>r. set_key (r_caseId r) (f r)) rs m)) = distinct (map fst m)" for f and m :: "(string \<times> case_result list) list"
    by (induction rs arbitrary: m) auto
  then show ?thesis by (simp add: groupTrials_def)
qed

lemma paired_ids:
  "map (\<lambda>t. ts_caseId (snd t)) (paired pdig sdig bp cp b c) = filter (\<lambda>i. i \<in> fst ` set b) (map fst c)"
proof (induction c)
  case (Cons x c)
  obtain i rs where x: "x = (i, rs)" by force
  show ?case
  proof (cases "map_of b i")
    case None
    then have "i \<notin> fst ` set b" by (simp add: map_of_eq_None_iff)
    then show ?thesis using Cons x None by (simp add: paired_def side_stats_def map_filter_simps)
  next
    case (Some v)
    then have "i \<in> fst ` set b" by (metis map_of_eq_None_iff option.distinct(1))
    then show ?thesis using Cons x Some
      by (simp add: paired_def side_stats_def map_filter_simps caseTrialStats_def Let_def)
  qed
qed (simp add: paired_def map_filter_simps)

lemma map_enumerate: "map (\<lambda>(i, t). f t) (enumerate n xs) = map f xs"
  by (induction xs arbitrary: n) auto

lemma settled_ids:
  "map td_caseId (map (\<lambda>(i, t). settle_case d rj i t) (enumerate n (map (\<lambda>(bs, cs). test_case z a bs cs) ps)))
     = map (\<lambda>t. ts_caseId (snd t)) ps"
  by (induction ps arbitrary: n) (auto simp: settle_case_def test_case_def Let_def)

lemma diffTrials_ids:
  fixes pdig sdig b c opts bp cp
  defines "d \<equiv> diffTrials pdig sdig b c opts bp cp"
  shows "mset (map td_caseId (tf_cases d) @ tg_unscored (tf_missing d))
    = mset (filter (\<lambda>i. i \<in> r_caseId ` set (sc_results b)) (map fst (groupTrials (sc_results c))))"
proof -
  define ps where "ps = paired pdig sdig (default_or DEFAULT_VERDICT_POLICY bp) (default_or DEFAULT_VERDICT_POLICY cp)
      (groupTrials (sc_results b)) (groupTrials (sc_results c))"
  have "map td_caseId (tf_cases d) = map (\<lambda>t. ts_caseId (snd t)) (filter scored ps)"
    unfolding d_def diffTrials_def Let_def trial_diff.simps settled_ids ps_def ..
  moreover have "tg_unscored (tf_missing d) = map (\<lambda>t. ts_caseId (snd t)) (filter (\<lambda>t. \<not> scored t) ps)"
    unfolding d_def diffTrials_def Let_def trial_diff.simps trial_missing.simps ps_def ..
  moreover have "mset (filter scored ps) + mset (filter (\<lambda>t. \<not> scored t) ps) = mset ps"
    by (simp flip: multiset_partition)
  ultimately have "mset (map td_caseId (tf_cases d) @ tg_unscored (tf_missing d)) = mset (map (\<lambda>t. ts_caseId (snd t)) ps)"
    by (simp add: mset_append flip: image_mset_union)
  then show ?thesis unfolding ps_def paired_ids by simp
qed

text \<open>No case falls out of the statistical comparison unseen: each case of either side is tested, listed as unscored or
  listed as run by one side only, once.\<close>

theorem trial_cases_accounted:
  fixes pdig sdig b c opts bp cp
  defines "d \<equiv> diffTrials pdig sdig b c opts bp cp"
  shows "distinct (map td_caseId (tf_cases d) @ tg_unscored (tf_missing d) @ tg_onlyInCandidate (tf_missing d)
        @ tg_onlyInBaseline (tf_missing d))
    \<and> r_caseId ` set (sc_results c) = set (map td_caseId (tf_cases d)) \<union> set (tg_unscored (tf_missing d))
        \<union> set (tg_onlyInCandidate (tf_missing d))
    \<and> r_caseId ` set (sc_results b) = set (map td_caseId (tf_cases d)) \<union> set (tg_unscored (tf_missing d))
        \<union> set (tg_onlyInBaseline (tf_missing d))"
proof -
  let ?xs = "map td_caseId (tf_cases d) @ tg_unscored (tf_missing d)"
  let ?B = "r_caseId ` set (sc_results b)" and ?C = "r_caseId ` set (sc_results c)"
  have m: "mset ?xs = mset (filter (\<lambda>i. i \<in> ?B) (map fst (groupTrials (sc_results c))))"
    unfolding d_def by (rule diffTrials_ids)
  then have "set ?xs = set (filter (\<lambda>i. i \<in> ?B) (map fst (groupTrials (sc_results c))))"
    by (rule mset_eq_setD)
  then have shared: "set ?xs = ?B \<inter> ?C" by (simp only: set_filter set_map trial_groups_keys) blast
  have dist: "distinct ?xs"
    using mset_eq_imp_distinct_iff [OF m] by simp
  have only: "tg_onlyInBaseline (tf_missing d) = only_in (map fst (groupTrials (sc_results b))) (map fst (groupTrials (sc_results c)))"
    "tg_onlyInCandidate (tf_missing d) = only_in (map fst (groupTrials (sc_results c))) (map fst (groupTrials (sc_results b)))"
    unfolding d_def diffTrials_def Let_def trial_diff.simps trial_missing.simps by simp_all
  have sets: "set (tg_onlyInBaseline (tf_missing d)) = ?B - ?C" "set (tg_onlyInCandidate (tf_missing d)) = ?C - ?B"
    unfolding only by (auto simp: only_in_def)
  have "distinct (tg_onlyInBaseline (tf_missing d))" "distinct (tg_onlyInCandidate (tf_missing d))"
    unfolding only by (simp_all add: only_in_def)
  then have "distinct (?xs @ tg_onlyInCandidate (tf_missing d) @ tg_onlyInBaseline (tf_missing d))"
    using dist sets shared by (auto simp: distinct_append)
  moreover have union: "set (map td_caseId (tf_cases d)) \<union> set (tg_unscored (tf_missing d)) = ?B \<inter> ?C"
    using shared by simp
  moreover have "?C = ?B \<inter> ?C \<union> (?C - ?B)" "?B = ?B \<inter> ?C \<union> (?B - ?C)" by blast+
  ultimately show ?thesis unfolding sets union by simp
qed

lemma passes_le_trials: "ts_passes (caseTrialStats pdig sdig i rs p) \<le> ts_trials (caseTrialStats pdig sdig i rs p)"
  unfolding caseTrialStats_def Let_def count_verdict_def
  by simp (induction rs, auto)

lemma paired_stats:
  assumes "t \<in> set (paired pdig sdig bp cp b c)"
  shows "ts_passes (fst t) \<le> ts_trials (fst t) \<and> ts_passes (snd t) \<le> ts_trials (snd t)"
  using assms by (auto simp: paired_def side_stats_def map_filter_def passes_le_trials)

text \<open>Three trials a side never show a significant change at the default level, not even a drop from three passes to
  none.\<close>

theorem three_trials_show_nothing:
  assumes "to_zThreshold opts = None" "to_fdrAlpha opts = None"
    and "d \<in> set (tf_cases (diffTrials pdig sdig b c opts bp cp))"
    and "td_baselineTrials d = 3" "td_candidateTrials d = 3"
  shows "\<not> td_significant d"
proof -
  let ?ps = "paired pdig sdig (default_or DEFAULT_VERDICT_POLICY bp) (default_or DEFAULT_VERDICT_POLICY cp)
      (groupTrials (sc_results b)) (groupTrials (sc_results c))"
  let ?t = "\<lambda>t. test_case (196 / 100) (twoSidedPFromZ (196 / 100)) (fst t) (snd t)"
  have "tf_cases (diffTrials pdig sdig b c opts bp cp) =
      map (settle_case (default_or 0 (to_minDelta opts)) None 0) (map ?t (filter scored ?ps))"
    using assms(1,2)
    by (simp add: diffTrials_def Let_def default_or_def settle_case_def map_enumerate case_prod_beta)
  then obtain t where t: "t \<in> set ?ps" "d = settle_case (default_or 0 (to_minDelta opts)) None 0 (?t t)"
    using assms(3) by auto
  have n: "ts_trials (fst t) = 3" "ts_trials (snd t) = 3"
    using assms(4,5) t(2) by (simp_all add: settle_case_def test_case_def Let_def)
  then have "1 / 10 \<le> fisherExactTwoSided (ts_passes (fst t)) 3 (ts_passes (snd t)) 3"
    using paired_stats [OF t(1)] by (intro fisher_three) simp_all
  then have "\<not> snd (?t t)" using default_level n by (simp add: test_case_def Let_def FISHER_MAX_TRIALS_def)
  then show ?thesis using t(2) by (simp add: settle_case_def)
qed

definition demo_side :: "bool \<Rightarrow> scorecard" where
  "demo_side pass = \<lparr>sc_harness = ''h'', sc_results = map (\<lambda>i. demo_result\<lparr>r_trial := Some i,
     r_scores := [(demo_row ''tests-pass'' ''tests_pass'')\<lparr>body := Measured (Num 1) (Some pass) None\<rparr>]\<rparr>) [0, 1, 2]\<rparr>"

definition no_opts :: trial_opts where
  "no_opts = \<lparr>to_zThreshold = None, to_minDelta = None, to_fdrAlpha = None\<rparr>"

lemma demo_pairs:
  "paired (\<lambda>p. ''p'') (\<lambda>s. ''s'') DEFAULT_VERDICT_POLICY DEFAULT_VERDICT_POLICY
     (groupTrials (sc_results (demo_side True))) (groupTrials (sc_results (demo_side False)))
   = [(\<lparr>ts_caseId = ''c'', ts_trials = 3, ts_passes = 3, ts_passRate = 1, ts_flaky = False\<rparr>,
       \<lparr>ts_caseId = ''c'', ts_trials = 3, ts_passes = 0, ts_passRate = 0, ts_flaky = False\<rparr>)]"
  by code_simp

lemma three_trials_show_nothing_witness:
  "\<not> td_significant (hd (tf_cases (diffTrials (\<lambda>p. ''p'') (\<lambda>s. ''s'') (demo_side True) (demo_side False) no_opts None None)))"
proof -
  let ?d = "diffTrials (\<lambda>p. ''p'') (\<lambda>s. ''s'') (demo_side True) (demo_side False) no_opts None None"
  have one: "tf_cases ?d = [settle_case 0 None 0 (test_case (196 / 100) (twoSidedPFromZ (196 / 100))
      \<lparr>ts_caseId = ''c'', ts_trials = 3, ts_passes = 3, ts_passRate = 1, ts_flaky = False\<rparr>
      \<lparr>ts_caseId = ''c'', ts_trials = 3, ts_passes = 0, ts_passRate = 0, ts_flaky = False\<rparr>)]"
    by (simp add: diffTrials_def Let_def default_or_def no_opts_def demo_pairs scored_def)
  have "hd (tf_cases ?d) \<in> set (tf_cases ?d)" unfolding one by simp
  then show ?thesis
  proof (rule three_trials_show_nothing [rotated 2])
    show "td_baselineTrials (hd (tf_cases ?d)) = 3" "td_candidateTrials (hd (tf_cases ?d)) = 3"
      unfolding one by (simp_all add: settle_case_def test_case_def Let_def)
  qed (simp_all add: no_opts_def)
qed

end
