(* ===== verification/Gate.thy ===== *)
theory Gate
  imports Trials
begin

text \<open>
  The release gate: packages/domain/src/scorecard/gate.ts with its records in
  packages/contracts/src/records/gate.ts, and the way a decision is reached in packages/application-control/src/scorecard
  (\<open>diffSnapshot\<close> of scorecard-analytics-service.ts, \<open>gate\<close> of scorecard-service.ts).

  The sentences of a reason are left out; its kind, case, metric, count and fraction are kept. The reading of the two
  manifests against each other is part of the input of the gate, as it is in the code (\<open>GateInput\<close>).
\<close>

subsection \<open>Records\<close>

datatype experiment_axis = Dataset_content | Grading_plan | Judge_set | Harness_model | Execution_world | Environment_axis

datatype comparability_mode = Require_full | Allow_partial

record gate_knobs =
  kn_comparability :: "comparability_mode option"
  kn_maxMissingCases :: "nat option"
  kn_maxMissingFraction :: "rat option"
  kn_maxMetricLossFraction :: "rat option"
  kn_allowMetricKindChange :: "bool option"
  kn_allowConfounds :: "experiment_axis list option"
  kn_allowUnverifiedIdentity :: "bool option"
  kn_allowUnverifiedInput :: "bool option"
  kn_allowUnrecordedJudgments :: "bool option"
  kn_maxUnmeasuredFraction :: "rat option"
  kn_zThreshold :: "real option"
  kn_minDelta :: "rat option"
  kn_fdrAlpha :: "real option"

record gate_policy = gate_knobs +
  gp_maxRegressions :: nat

text \<open>\<open>Partial<GatePolicy>\<close>\<close>

record policy_request = gate_knobs +
  rq_maxRegressions :: "nat option"

datatype reason_kind = Regression | Trial_regression | Policy_mismatch | Policy_unresolvable | No_shared_cases
  | Kind_changed | Confounded | Identity_unverified | Critical_case_failed | Missing_cases | Missing_metrics
  | Unmeasured_evidence | Input_diverged | Input_unverified | Judgment_unrecorded

record gate_reason =
  gr_kind :: reason_kind
  gr_caseId :: "string option"
  gr_metric :: "string option"
  gr_count :: "nat option"
  gr_fraction :: "rat option"

definition reason :: "reason_kind \<Rightarrow> gate_reason" where
  "reason k = \<lparr>gr_kind = k, gr_caseId = None, gr_metric = None, gr_count = None, gr_fraction = None\<rparr>"

record input_observation =
  io_setDigest :: "string option"
  io_completed :: bool
  io_diverged :: "nat option"

datatype judgment_provenance = Recorded string "nat option" "nat option" "bool option" | Unrecorded string

record scoring_pin =
  sp_revision :: nat
  sp_planeDigest :: string
  sp_inputObservation :: "input_observation option"
  sp_receiptSetDigest :: "string option"
  sp_provenance :: "judgment_provenance option"

record pin_pair =
  pp_baseline :: "scoring_pin option"
  pp_candidate :: "scoring_pin option"

datatype gate_verdict = Pass | Block | Blocked_missing | Not_comparable

record gate_evidence =
  ev_comparability :: comparability
  ev_regressions :: "nat option"
  ev_improvements :: "nat option"
  ev_missingCases :: nat
  ev_trialsGated :: bool
  ev_missingFraction :: "rat option"
  ev_unmeasuredFraction :: "rat option"
  ev_criticalFailures :: "nat option"
  ev_suppressedByFdr :: "nat option"

record gate_evaluation =
  ge_decision :: gate_verdict
  ge_reasons :: "gate_reason list"
  ge_evidence :: gate_evidence

record experiment_identity =
  ex_confounds :: "experiment_axis list"
  ex_unverified :: "experiment_axis list"

record gate_input =
  gi_diff :: scorecard_diff
  gi_trials :: "trial_diff option"
  gi_mismatch :: "(policy_ref \<times> policy_ref) option"
  gi_unresolvable :: "(policy_ref option \<times> policy_ref option) option"
  gi_experiment :: "experiment_identity option"
  gi_coverage :: "(measurement_coverage \<times> measurement_coverage) option"
  gi_critical :: "case_matcher list option"

subsection \<open>Trust in the judgments compared\<close>

datatype input_trust = Receipt_vouched | Diverged | Unavailable | Legacy_unverified

definition decisionInputTrustOf :: "scoring_pin option \<Rightarrow> input_trust" where
  "decisionInputTrustOf pin =
     (case (case pin of None \<Rightarrow> None | Some p \<Rightarrow> sp_inputObservation p) of
        None \<Rightarrow> Legacy_unverified
      | Some ob \<Rightarrow>
          if \<not> io_completed ob then Unavailable
          else if 0 < default_or 0 (io_diverged ob) then Diverged else Receipt_vouched)"

definition diverged_count :: "scoring_pin option \<Rightarrow> nat" where
  "diverged_count pin =
     (case pin of None \<Rightarrow> 0
      | Some p \<Rightarrow> (case sp_inputObservation p of None \<Rightarrow> 0 | Some ob \<Rightarrow> default_or 0 (io_diverged ob)))"

definition judgments_vouched :: "scoring_pin \<Rightarrow> bool" where
  "judgments_vouched p \<longleftrightarrow>
     (case sp_provenance p of Some (Recorded d expected recorded whole) \<Rightarrow> whole = Some True | _ \<Rightarrow> False)"

definition side_trust_reasons :: "scoring_pin option \<Rightarrow> gate_policy \<Rightarrow> gate_reason list" where
  "side_trust_reasons pin policy =
     (let trust = decisionInputTrustOf pin in
      (if trust = Diverged then [(reason Input_diverged)\<lparr>gr_count := Some (diverged_count pin)\<rparr>]
       else if trust \<noteq> Receipt_vouched \<and> kn_allowUnverifiedInput policy \<noteq> Some True then [reason Input_unverified]
       else [])
      @ (case pin of
           None \<Rightarrow> []
         | Some p \<Rightarrow>
             if \<not> judgments_vouched p \<and> kn_allowUnrecordedJudgments policy \<noteq> Some True
             then [reason Judgment_unrecorded] else []))"

definition inputTrustReasons :: "pin_pair \<Rightarrow> gate_policy \<Rightarrow> gate_reason list" where
  "inputTrustReasons pins policy =
     side_trust_reasons (pp_baseline pins) policy @ side_trust_reasons (pp_candidate pins) policy"

definition refuseGateForInputTrust :: "pin_pair \<Rightarrow> gate_policy \<Rightarrow> gate_evaluation option" where
  "refuseGateForInputTrust pins policy =
     (let reasons = inputTrustReasons pins policy in
      if reasons = [] then None
      else Some \<lparr>ge_decision = Not_comparable, ge_reasons = reasons,
        ge_evidence = \<lparr>ev_comparability = No_comparison, ev_regressions = None, ev_improvements = None,
          ev_missingCases = 0, ev_trialsGated = False, ev_missingFraction = None, ev_unmeasuredFraction = None,
          ev_criticalFailures = None, ev_suppressedByFdr = None\<rparr>\<rparr>)"

definition applyInputTrust :: "gate_evaluation \<Rightarrow> pin_pair \<Rightarrow> gate_policy \<Rightarrow> gate_evaluation" where
  "applyInputTrust evaluation pins policy =
     (let reasons = inputTrustReasons pins policy in
      if reasons = [] then evaluation
      else \<lparr>ge_decision = Not_comparable, ge_reasons = reasons @ ge_reasons evaluation,
            ge_evidence = (ge_evidence evaluation)\<lparr>ev_regressions := None, ev_improvements := None,
              ev_criticalFailures := None, ev_suppressedByFdr := None\<rparr>\<rparr>)"

subsection \<open>What the comparison may claim\<close>

definition worstUnmeasuredFraction :: "(measurement_coverage \<times> measurement_coverage) option \<Rightarrow> rat option" where
  "worstUnmeasuredFraction coverage =
     (case coverage of
        None \<Rightarrow> None
      | Some (b, c) \<Rightarrow>
          (case List.map_filter mc_fraction [b, c] of [] \<Rightarrow> None | f # fs \<Rightarrow> Some (foldl max f fs)))"

definition coverage_loss :: "metric_coverage \<Rightarrow> rat" where
  "coverage_loss m =
     (let b = fraction_of (co_baselineMeasured m) (co_baselineCases m);
          c = fraction_of (co_candidateMeasured m) (co_candidateCases m)
      in if 0 < b then max 0 (1 - c / b) else 0)"

definition metricCoverageLosses :: "scorecard_diff \<Rightarrow> (string \<times> rat) list" where
  "metricCoverageLosses d =
     filter (\<lambda>(m, loss). COVERAGE_EPS < loss)
       (map (\<lambda>m. (co_metric m, coverage_loss m)) (filter (\<lambda>m. 0 < co_baselineMeasured m) (df_coverage d)))"

definition one_sided_cases :: "scorecard_diff \<Rightarrow> nat" where
  "one_sided_cases d =
     length (casesOnlyInBaseline (df_missing d)) + length (casesOnlyInCandidate (df_missing d))"

definition lost_metrics :: "scorecard_diff \<Rightarrow> nat" where
  "lost_metrics d = length (metricsOnlyInBaseline (df_missing d)) + length (metricsOnlyInCandidate (df_missing d))
     + length (df_incomparable d)"

definition over :: "'a::linorder option \<Rightarrow> 'a option \<Rightarrow> bool" where
  "over limit x = (case (limit, x) of (Some l, Some v) \<Rightarrow> l < v | _ \<Rightarrow> False)"

definition missing_fraction :: "scorecard_diff \<Rightarrow> rat option" where
  "missing_fraction d =
     (if 0 < df_baselineCases d
      then Some (of_nat (length (casesOnlyInBaseline (df_missing d))) / of_nat (df_baselineCases d)) else None)"

definition full_reasons :: "scorecard_diff \<Rightarrow> gate_reason list" where
  "full_reasons d =
     (if 0 < one_sided_cases d
      then [(reason Missing_cases)\<lparr>gr_count := Some (one_sided_cases d), gr_fraction := missing_fraction d\<rparr>] else [])
     @ (if 0 < lost_metrics d then [(reason Missing_metrics)\<lparr>gr_count := Some (lost_metrics d)\<rparr>] else [])
     @ (if metricCoverageLosses d \<noteq> []
        then [(reason Missing_metrics)\<lparr>gr_count := Some (length (metricCoverageLosses d))\<rparr>] else [])"

definition partial_reasons :: "scorecard_diff \<Rightarrow> gate_policy \<Rightarrow> gate_reason list" where
  "partial_reasons d policy =
     (let lossy = filter (\<lambda>(m, loss). over (kn_maxMetricLossFraction policy) (Some loss)) (metricCoverageLosses d) in
      (if over (kn_maxMissingCases policy) (Some (one_sided_cases d))
          \<or> over (kn_maxMissingFraction policy) (missing_fraction d)
       then [(reason Missing_cases)\<lparr>gr_count := Some (one_sided_cases d), gr_fraction := missing_fraction d\<rparr>] else [])
      @ (if lossy \<noteq> [] then [(reason Missing_metrics)\<lparr>gr_count := Some (length lossy)\<rparr>] else [])
      @ (if df_incomparable d \<noteq> [] \<and> kn_allowMetricKindChange policy \<noteq> Some True
         then [(reason Kind_changed)\<lparr>gr_count := Some (length (df_incomparable d))\<rparr>] else []))"

definition missingnessReasons :: "gate_input \<Rightarrow> gate_policy \<Rightarrow> gate_reason list" where
  "missingnessReasons g policy =
     (let d = gi_diff g; mode = default_or Require_full (kn_comparability policy);
          unmeasured = worstUnmeasuredFraction (gi_coverage g) in
      (if df_comparability d = Partial \<and> mode = Require_full then full_reasons d
       else if df_comparability d = Partial \<and> mode = Allow_partial then partial_reasons d policy
       else [])
      @ (if over (kn_maxUnmeasuredFraction policy) unmeasured
         then [(reason Unmeasured_evidence)\<lparr>gr_fraction := unmeasured\<rparr>] else []))"

definition criticalReasons :: "gate_input \<Rightarrow> gate_reason list" where
  "criticalReasons g =
     (case gi_critical g of
        None \<Rightarrow> []
      | Some [] \<Rightarrow> []
      | Some ms \<Rightarrow>
          let critical = (\<lambda>i. list_ex (\<lambda>m. caseMatches m i) ms);
              failed = (\<lambda>i. (reason Critical_case_failed)\<lparr>gr_caseId := Some i\<rparr>)
          in map failed (filter critical (casesOnlyInBaseline (df_missing (gi_diff g))))
             @ (case gi_trials g of
                  Some t \<Rightarrow> map (\<lambda>c. failed (td_caseId c))
                    (filter (\<lambda>c. critical (td_caseId c) \<and> \<not> 0 < td_candidateRate c \<and> \<not> td_baselineRate c \<le> 0)
                      (tf_cases t))
                | None \<Rightarrow> map (\<lambda>t. failed (ct_caseId t))
                    (filter (\<lambda>t. ct_change t = Broke \<and> critical (ct_caseId t)) (df_transitions (gi_diff g)))))"

subsection \<open>The decision\<close>

definition structural_evidence :: "gate_input \<Rightarrow> gate_evidence" where
  "structural_evidence g =
     \<lparr>ev_comparability = df_comparability (gi_diff g), ev_regressions = None, ev_improvements = None,
      ev_missingCases = one_sided_cases (gi_diff g), ev_trialsGated = (gi_trials g \<noteq> None),
      ev_missingFraction = missing_fraction (gi_diff g),
      ev_unmeasuredFraction = worstUnmeasuredFraction (gi_coverage g), ev_criticalFailures = None,
      ev_suppressedByFdr = None\<rparr>"

definition refusal :: "gate_reason list \<Rightarrow> gate_evidence \<Rightarrow> gate_evaluation" where
  "refusal reasons evidence = \<lparr>ge_decision = Not_comparable, ge_reasons = reasons, ge_evidence = evidence\<rparr>"

definition confounds_of :: "gate_input \<Rightarrow> experiment_axis list" where
  "confounds_of g = (case gi_experiment g of None \<Rightarrow> [] | Some e \<Rightarrow> ex_confounds e)"

definition unverified_of :: "gate_input \<Rightarrow> experiment_axis list" where
  "unverified_of g = (case gi_experiment g of None \<Rightarrow> [] | Some e \<Rightarrow> ex_unverified e)"

definition refused_confounds :: "gate_input \<Rightarrow> gate_policy \<Rightarrow> experiment_axis list" where
  "refused_confounds g policy =
     filter (\<lambda>a. a \<notin> set (default_or [] (kn_allowConfounds policy))) (confounds_of g)"

definition changed_cases :: "change \<Rightarrow> gate_input \<Rightarrow> case_transition list" where
  "changed_cases ch g = filter (\<lambda>t. ct_change t = ch) (df_transitions (gi_diff g))"

definition regressions_of :: "gate_input \<Rightarrow> nat" where
  "regressions_of g = (case gi_trials g of Some t \<Rightarrow> length (tf_regressions t) | None \<Rightarrow> length (changed_cases Broke g))"

definition improvements_of :: "gate_input \<Rightarrow> nat" where
  "improvements_of g = (case gi_trials g of Some t \<Rightarrow> length (tf_improvements t) | None \<Rightarrow> length (changed_cases Fixed g))"

definition suppressed_of :: "gate_input \<Rightarrow> nat option" where
  "suppressed_of g =
     (case gi_trials g of
        None \<Rightarrow> None
      | Some t \<Rightarrow> if tf_fdrAlpha t = None then None else Some (length (filter td_fdrSuppressed (tf_cases t))))"

definition regression_reasons :: "gate_input \<Rightarrow> gate_reason list" where
  "regression_reasons g =
     (case gi_trials g of
        Some t \<Rightarrow> map (\<lambda>r. (reason Trial_regression)\<lparr>gr_caseId := Some (td_caseId r)\<rparr>) (tf_regressions t)
      | None \<Rightarrow> map (\<lambda>t. (reason Regression)\<lparr>gr_caseId := Some (ct_caseId t)\<rparr>) (changed_cases Broke g))"

definition blocking_count :: "gate_reason list \<Rightarrow> nat" where
  "blocking_count rs = length (filter (\<lambda>r. gr_kind r = Regression \<or> gr_kind r = Trial_regression) rs)"

definition decide_gate :: "gate_input \<Rightarrow> gate_policy \<Rightarrow> gate_evaluation" where
  "decide_gate g policy =
     (let critical = criticalReasons g;
          evidence = (structural_evidence g)\<lparr>ev_regressions := Some (regressions_of g),
            ev_improvements := Some (improvements_of g),
            ev_criticalFailures := (case gi_critical g of None \<Rightarrow> None | Some _ \<Rightarrow> Some (length critical)),
            ev_suppressedByFdr := suppressed_of g\<rparr>;
          withheld = missingnessReasons g policy;
          reasons = map (\<lambda>a. reason Confounded) (confounds_of g) @ map (\<lambda>a. reason Identity_unverified) (unverified_of g)
            @ regression_reasons g
            @ map (\<lambda>m. (reason Kind_changed)\<lparr>gr_metric := Some m\<rparr>) (df_incomparable (gi_diff g));
          blocking = blocking_count reasons
      in if critical \<noteq> []
         then \<lparr>ge_decision = Block, ge_reasons = critical @ withheld @ reasons, ge_evidence = evidence\<rparr>
         else if withheld \<noteq> []
         then \<lparr>ge_decision = Blocked_missing, ge_reasons = withheld @ reasons, ge_evidence = evidence\<rparr>
         else \<lparr>ge_decision = (if gp_maxRegressions policy < blocking then Block else Pass), ge_reasons = reasons,
               ge_evidence = evidence\<rparr>)"

definition evaluateGate :: "gate_input \<Rightarrow> gate_policy \<Rightarrow> gate_evaluation" where
  "evaluateGate g policy =
     (let structural = structural_evidence g; unread = structural\<lparr>ev_comparability := No_comparison\<rparr> in
      if gi_unresolvable g \<noteq> None then refusal [reason Policy_unresolvable] unread
      else if refused_confounds g policy \<noteq> []
      then refusal (map (\<lambda>a. reason Confounded) (refused_confounds g policy)) unread
      else if unverified_of g \<noteq> [] \<and> kn_allowUnverifiedIdentity policy \<noteq> Some True
      then refusal (map (\<lambda>a. reason Identity_unverified) (unverified_of g)) unread
      else if df_comparability (gi_diff g) = No_comparison
      then refusal [reason (if gi_mismatch g \<noteq> None then Policy_mismatch else No_shared_cases)] structural
      else decide_gate g policy)"

subsection \<open>The comparison a decision reads\<close>

text \<open>\<open>diffSnapshot\<close>: each side under the policy its stamp resolves to, and no verdict where a stamp does not resolve.\<close>

definition unresolvableStamps :: "resolution \<Rightarrow> resolution \<Rightarrow> (policy_ref option \<times> policy_ref option) option" where
  "unresolvableStamps b c =
     (let named = (\<lambda>r. case r of Unresolvable ref \<Rightarrow> (if ref_digest ref = None then None else Some ref) | _ \<Rightarrow> None);
          lost = (\<lambda>r. case r of Unresolvable _ \<Rightarrow> True | _ \<Rightarrow> False)
      in if \<not> lost b \<and> \<not> lost c then None else Some (named b, named c))"

fun resolved_policy :: "resolution \<Rightarrow> verdict_policy option" where
  "resolved_policy (Resolved_policy p) = Some p"
| "resolved_policy (Legacy_default p) = Some p"
| "resolved_policy (Unresolvable _) = None"

definition side_of :: "resolution \<Rightarrow> side_policy" where
  "side_of r = (case resolved_policy r of Some p \<Rightarrow> Known_policy p | None \<Rightarrow> Unresolvable_policy)"

definition verdictPolicyRef :: "(verdict_policy \<Rightarrow> string) \<Rightarrow> verdict_policy \<Rightarrow> policy_ref" where
  "verdictPolicyRef pdig p = \<lparr>ref_id = vp_id p, ref_version = vp_version p, ref_digest = Some (pdig p)\<rparr>"

definition directionPolicy :: "resolution \<Rightarrow> resolution \<Rightarrow> verdict_policy" where
  "directionPolicy b c =
     (case resolved_policy c of Some p \<Rightarrow> p
      | None \<Rightarrow> (case resolved_policy b of Some p \<Rightarrow> p | None \<Rightarrow> DEFAULT_VERDICT_POLICY))"

definition stamp_of :: "(verdict_policy \<Rightarrow> string) \<Rightarrow> policy_ref option \<Rightarrow> resolution \<Rightarrow> policy_ref option" where
  "stamp_of pdig stamp r =
     (case stamp of Some ref \<Rightarrow> Some ref | None \<Rightarrow> map_option (verdictPolicyRef pdig) (resolved_policy r))"

record comparison_side =
  cs_scorecard :: scorecard
  cs_stamp :: "policy_ref option"
  cs_resolution :: resolution

definition policy_mismatch ::
  "(verdict_policy \<Rightarrow> string) \<Rightarrow> comparison_side \<Rightarrow> comparison_side \<Rightarrow> (policy_ref \<times> policy_ref) option" where
  "policy_mismatch pdig b c =
     (case (resolved_policy (cs_resolution b), resolved_policy (cs_resolution c)) of
        (Some p, Some q) \<Rightarrow>
          if pdig p \<noteq> pdig q then
            (case (stamp_of pdig (cs_stamp b) (cs_resolution b), stamp_of pdig (cs_stamp c) (cs_resolution c)) of
               (Some x, Some y) \<Rightarrow> Some (x, y) | _ \<Rightarrow> None)
          else None
      | _ \<Rightarrow> None)"

definition has_trials :: "scorecard \<Rightarrow> scorecard \<Rightarrow> bool" where
  "has_trials b c \<longleftrightarrow> list_ex (\<lambda>r. r_trial r \<noteq> None) (sc_results b @ sc_results c)"

definition critical_of :: "resolution \<Rightarrow> case_matcher list option" where
  "critical_of r =
     (case resolved_policy r of None \<Rightarrow> None | Some p \<Rightarrow> if vp_critical p = [] then None else Some (vp_critical p))"

definition comparison_input ::
  "(verdict_policy \<Rightarrow> string) \<Rightarrow> (score \<Rightarrow> string) \<Rightarrow> comparison_side \<Rightarrow> comparison_side \<Rightarrow> experiment_identity
    \<Rightarrow> trial_opts \<Rightarrow> gate_input" where
  "comparison_input pdig sdig b c experiment opts =
     (let br = cs_resolution b; cr = cs_resolution c; bs = cs_scorecard b; cs = cs_scorecard c;
          unresolvable = unresolvableStamps br cr; mismatch = policy_mismatch pdig b c;
          diff = diffScorecards pdig sdig bs cs (Some (directionPolicy br cr)) (Some (side_of br)) (Some (side_of cr));
          broken = (unresolvable \<noteq> None \<or> mismatch \<noteq> None)
      in \<lparr>gi_diff = (if broken then diff\<lparr>df_comparability := No_comparison\<rparr> else diff),
          gi_trials = (if \<not> has_trials bs cs \<or> unresolvable \<noteq> None then None
            else Some (diffTrials pdig sdig bs cs opts (resolved_policy br) (resolved_policy cr))),
          gi_mismatch = (if unresolvable \<noteq> None then None else mismatch), gi_unresolvable = unresolvable,
          gi_experiment = Some experiment,
          gi_coverage = Some (measurementCoverage bs, measurementCoverage cs), gi_critical = critical_of cr\<rparr>)"

subsection \<open>The service\<close>

text \<open>The policy a request is decided under: the fields the service copies.\<close>

definition effective_policy :: "policy_request option \<Rightarrow> gate_policy" where
  "effective_policy p =
     \<lparr>kn_comparability = (case p of None \<Rightarrow> None | Some r \<Rightarrow> kn_comparability r),
       kn_maxMissingCases = (case p of None \<Rightarrow> None | Some r \<Rightarrow> kn_maxMissingCases r),
       kn_maxMissingFraction = (case p of None \<Rightarrow> None | Some r \<Rightarrow> kn_maxMissingFraction r),
       kn_maxMetricLossFraction = (case p of None \<Rightarrow> None | Some r \<Rightarrow> kn_maxMetricLossFraction r),
       kn_allowMetricKindChange = (case p of None \<Rightarrow> None | Some r \<Rightarrow> kn_allowMetricKindChange r),
       kn_allowConfounds = (case p of None \<Rightarrow> None | Some r \<Rightarrow> kn_allowConfounds r),
       kn_allowUnverifiedIdentity = (case p of None \<Rightarrow> None | Some r \<Rightarrow> kn_allowUnverifiedIdentity r),
       kn_allowUnverifiedInput = (case p of None \<Rightarrow> None | Some r \<Rightarrow> kn_allowUnverifiedInput r),
       kn_allowUnrecordedJudgments = None,
       kn_maxUnmeasuredFraction = (case p of None \<Rightarrow> None | Some r \<Rightarrow> kn_maxUnmeasuredFraction r),
       kn_zThreshold = (case p of None \<Rightarrow> None | Some r \<Rightarrow> kn_zThreshold r),
       kn_minDelta = (case p of None \<Rightarrow> None | Some r \<Rightarrow> kn_minDelta r),
       kn_fdrAlpha = (case p of None \<Rightarrow> None | Some r \<Rightarrow> kn_fdrAlpha r),
       gp_maxRegressions = (case p of None \<Rightarrow> 0 | Some r \<Rightarrow> default_or 0 (rq_maxRegressions r))\<rparr>"

definition trial_opts_of :: "gate_policy \<Rightarrow> trial_opts" where
  "trial_opts_of p = \<lparr>to_zThreshold = kn_zThreshold p, to_minDelta = kn_minDelta p, to_fdrAlpha = kn_fdrAlpha p\<rparr>"

text \<open>A decision: the pins read first may refuse before anything is compared; else the comparison is decided and the
  pins read with it are asked again. \<open>snapshot\<close> is the second read, under the options of the policy. The second
  component holds the pins that go on record.\<close>

definition gate_decide ::
  "pin_pair \<Rightarrow> (trial_opts \<Rightarrow> gate_input \<times> pin_pair) \<Rightarrow> policy_request option \<Rightarrow> gate_evaluation \<times> pin_pair" where
  "gate_decide preRead snapshot request =
     (let policy = effective_policy request in
      case refuseGateForInputTrust preRead policy of
        Some e \<Rightarrow> (e, preRead)
      | None \<Rightarrow>
          let (diff, pins) = snapshot (trial_opts_of policy)
          in (applyInputTrust (evaluateGate diff policy) pins policy, pins))"

end
