(* ===== verification/GateLaws.thy ===== *)
theory GateLaws
  imports Gate TrialsLaws
begin

text \<open>
  What a gate decision stands on: the conditions of a pass, traced back to the two scorecards compared, what a critical
  case may not do, and what a refusal keeps to itself.
\<close>

subsection \<open>Counting measurements\<close>

definition measures :: "string \<Rightarrow> case_result \<Rightarrow> bool" where
  "measures k r \<longleftrightarrow> (\<exists>s \<in> set (r_scores r). isMeasured s \<and> metric s = k)"

definition measured_rows :: "scorecard \<Rightarrow> string \<Rightarrow> nat" where
  "measured_rows sc k = length (filter (measures k) (outcome_rows sc))"

definition measured_share :: "scorecard \<Rightarrow> string \<Rightarrow> rat" where
  "measured_share sc k = fraction_of (measured_rows sc k) (length (outcome_rows sc))"

abbreviation count_in :: "(string \<times> nat) list \<Rightarrow> string \<Rightarrow> nat" where
  "count_in m k \<equiv> default_or 0 (map_of m k)"

lemma default_or_simps [simp]: "default_or d None = d" "default_or d (Some x) = x"
  by (simp_all add: default_or_def)

lemma count_metrics_at:
  "count_in (count_metrics ss seen m) k
     = count_in m k + (if k \<in> metric ` set ss - set seen then 1 else 0)"
proof (induction ss seen m rule: count_metrics.induct)
  case (2 s ss seen m)
  show ?case
  proof (cases "metric s \<in> set seen")
    case True
    then show ?thesis using 2(1) by auto
  next
    case False
    then show ?thesis using 2(2) by (auto simp: default_or_def split: option.splits)
  qed
qed simp

lemma measured_by_from:
  "count_in (fold (\<lambda>r m. count_metrics (measuredScores (r_scores r)) [] m) rs m) k
     = count_in m k + length (filter (measures k) rs)"
proof (induction rs arbitrary: m)
  case (Cons r rs)
  have "k \<in> metric ` set (measuredScores (r_scores r)) \<longleftrightarrow> measures k r"
    by (auto simp: measures_def measuredScores_def)
  then show ?case using Cons by (simp add: count_metrics_at)
qed simp

lemma count_measured_by: "count_in (measured_by sc) k = measured_rows sc k"
  by (simp add: measured_by_def measured_by_from measured_rows_def)

lemma metric_coverage_entry:
  assumes "0 < measured_rows b k \<or> 0 < measured_rows c k"
  shows "\<lparr>co_metric = k, co_baselineCases = length (outcome_rows b), co_baselineMeasured = measured_rows b k,
    co_candidateCases = length (outcome_rows c), co_candidateMeasured = measured_rows c k\<rparr> \<in> set (metricCoverage b c)"
proof -
  have key: "k \<in> fst ` set (measured_by sc)" if pos: "0 < measured_rows sc k" for sc
  proof (rule ccontr)
    assume "k \<notin> fst ` set (measured_by sc)"
    then have "map_of (measured_by sc) k = None" by (simp add: map_of_eq_None_iff)
    then have "count_in (measured_by sc) k = 0" by simp
    then show False using pos by (simp add: count_measured_by)
  qed
  have count: "(case map_of (measured_by sc) x of None \<Rightarrow> 0 | Some n \<Rightarrow> n) = measured_rows sc x" for sc x
    using count_measured_by [of sc x] by (simp add: default_or_def)
  have "k \<in> fst ` set (measured_by b) \<union> fst ` set (measured_by c)" using assms key by blast
  then show ?thesis unfolding metricCoverage_def Let_def count by (auto simp: image_iff)
qed

lemma measured_rows_le: "measured_rows sc k \<le> length (outcome_rows sc)"
  by (simp add: measured_rows_def)

subsection \<open>The metrics of a side\<close>

definition tally_at :: "(string \<times> metric_tally) list \<Rightarrow> string \<Rightarrow> metric_tally" where
  "tally_at m k = default_or empty_tally (map_of m k)"

lemma tally_score_values:
  "mt_values (tally_score s prev) = mt_values (default_or empty_tally prev)
     @ (case body s of Measured v p l \<Rightarrow> [v] | _ \<Rightarrow> [])"
  by (auto simp: tally_score_def Let_def default_or_def split: score_body.splits option.splits)

lemma tally_from:
  "mt_values (tally_at (fold (\<lambda>s. set_key (metric s) (tally_score s)) ss m) k) = [] \<longleftrightarrow>
     mt_values (tally_at m k) = [] \<and> (\<forall>s \<in> set ss. metric s = k \<longrightarrow> \<not> isMeasured s)"
proof (induction ss arbitrary: m)
  case (Cons s ss)
  have "isMeasured s \<longleftrightarrow> (case body s of Measured v p l \<Rightarrow> [v] | _ \<Rightarrow> []) \<noteq> []"
    by (cases "body s") (simp_all add: isMeasured_def)
  then have "mt_values (tally_at (set_key (metric s) (tally_score s) m) k) = [] \<longleftrightarrow>
      mt_values (tally_at m k) = [] \<and> (metric s = k \<longrightarrow> \<not> isMeasured s)"
    by (auto simp: tally_at_def tally_score_values)
  then show ?case using Cons by auto
qed simp

lemma tally_keys:
  "fst ` set (fold (\<lambda>s. set_key (metric s) (tally_score s)) ss m) = fst ` set m \<union> metric ` set ss"
  by (induction ss arbitrary: m) auto

lemma tally_distinct:
  "distinct (map fst m) \<Longrightarrow> distinct (map fst (fold (\<lambda>s. set_key (metric s) (tally_score s)) ss m))"
  by (induction ss arbitrary: m) auto

lemma summary_metric [simp]: "ms_metric (summary_of k m) = k" "ms_count (summary_of k m) = length (mt_values m)"
  by (simp_all add: summary_of_def Let_def)

lemma set_metric_names: "set (metric_names (summarizeScorecard sc)) = {k. 0 < measured_rows sc k}"
proof -
  let ?ss = "concat (map r_scores (outcome_rows sc))" and ?t = "tally_metrics sc"
  have dist: "distinct (map fst ?t)" unfolding tally_metrics_def by (rule tally_distinct) simp
  have "k \<in> set (metric_names (summarizeScorecard sc)) \<longleftrightarrow> (\<exists>m. (k, m) \<in> set ?t \<and> mt_values m \<noteq> [])" for k
    by (force simp: metric_names_def summarizeScorecard_def case_prod_beta)
  also have "\<dots> k \<longleftrightarrow> (\<exists>m. map_of ?t k = Some m \<and> mt_values m \<noteq> [])" for k
    by (simp add: map_of_eq_Some_iff [OF dist])
  also have "\<dots> k \<longleftrightarrow> mt_values (tally_at ?t k) \<noteq> []" for k
    by (cases "map_of ?t k") (simp_all add: tally_at_def empty_tally_def)
  also have "\<dots> k \<longleftrightarrow> (\<exists>s \<in> set ?ss. metric s = k \<and> isMeasured s)" for k
    unfolding tally_metrics_def tally_from by (auto simp: tally_at_def empty_tally_def)
  also have "\<dots> k \<longleftrightarrow> 0 < measured_rows sc k" for k
    by (auto simp: measured_rows_def measures_def filter_empty_conv length_greater_0_conv)
  finally show ?thesis by blast
qed

subsection \<open>Cases that both sides ran\<close>

text \<open>The transitions compare the last row of each key of a side.\<close>

definition last_row :: "case_result list \<Rightarrow> string \<Rightarrow> case_result option" where
  "last_row rs k = List.find (\<lambda>r. r_caseId r = k) (rev rs)"

lemma by_trial_from:
  "map_of (fold (\<lambda>r. set_key (trial_key r) (\<lambda>_. r)) rs m) key
     = (case List.find (\<lambda>r. trial_key r = key) (rev rs) of None \<Rightarrow> map_of m key | Some r \<Rightarrow> Some r)"
  by (induction rs rule: rev_induct) auto

lemma by_trial_last: "map_of (by_trial sc) key = List.find (\<lambda>r. trial_key r = key) (rev (sc_results sc))"
  by (simp add: by_trial_def by_trial_from split: option.split)

definition lone_key :: "string \<Rightarrow> string" where
  "lone_key k = k @ ''#'' @ decimal 0"

lemma by_trial_single:
  assumes "\<forall>r \<in> set (sc_results sc). r_trial r = None"
  shows "map_of (by_trial sc) (lone_key k) = last_row (sc_results sc) k"
  unfolding by_trial_last last_row_def
  by (rule find_cong) (use assms in \<open>auto simp: trial_key_def lone_key_def\<close>)

lemma transition_listed:
  assumes "map_of (by_trial b) key = Some x" "map_of (by_trial c) key = Some y"
  shows "\<lparr>ct_caseId = r_caseId y, ct_trial = r_trial y, ct_baseline = caseVerdict pdig sdig p x,
    ct_candidate = caseVerdict pdig sdig q y, ct_change = change_of (caseVerdict pdig sdig p x) (caseVerdict pdig sdig q y)\<rparr>
    \<in> set (caseTransitions pdig sdig b c p q)"
  using assms map_of_SomeD [OF assms(2)] by (force simp: caseTransitions_def map_filter_def Let_def)

subsection \<open>Cases with repeated trials\<close>

definition stats_at ::
  "(verdict_policy \<Rightarrow> string) \<Rightarrow> (score \<Rightarrow> string) \<Rightarrow> verdict_policy \<Rightarrow> scorecard \<Rightarrow> string \<Rightarrow> trial_stats" where
  "stats_at pdig sdig p sc k = caseTrialStats pdig sdig k (filter (\<lambda>r. r_caseId r = k) (sc_results sc)) p"

text \<open>A fall that clears the level of its own test and the least difference asked for.\<close>

definition fell :: "trial_opts \<Rightarrow> trial_stats \<Rightarrow> trial_stats \<Rightarrow> bool" where
  "fell opts bs cs \<longleftrightarrow>
     (let z = default_or (196 / 100) (to_zThreshold opts) in
      ts_passRate cs < ts_passRate bs \<and> default_or 0 (to_minDelta opts) \<le> ts_passRate bs - ts_passRate cs \<and>
      snd (test_case z (twoSidedPFromZ z) bs cs))"

text \<open>A case was tested on its rates over all trials, and no fall of it counts.\<close>

definition tested_without_fall ::
  "(verdict_policy \<Rightarrow> string) \<Rightarrow> (score \<Rightarrow> string) \<Rightarrow> verdict_policy \<Rightarrow> verdict_policy \<Rightarrow> trial_opts \<Rightarrow> scorecard \<Rightarrow> scorecard
    \<Rightarrow> string \<Rightarrow> bool" where
  "tested_without_fall pdig sdig p q opts b c k \<longleftrightarrow>
     (\<exists>d \<in> set (tf_cases (diffTrials pdig sdig b c opts (Some p) (Some q))).
        td_caseId d = k \<and> td_baselineRate d = ts_passRate (stats_at pdig sdig p b k)
        \<and> td_candidateRate d = ts_passRate (stats_at pdig sdig q c k)
        \<and> (td_significant d \<longrightarrow> td_baselineRate d \<le> td_candidateRate d))
     \<and> (to_fdrAlpha opts = None \<longrightarrow> \<not> fell opts (stats_at pdig sdig p b k) (stats_at pdig sdig q c k))"

lemma groups_from:
  "map_of (fold (\<lambda>r. set_key (r_caseId r) (\<lambda>rs. (case rs of None \<Rightarrow> [] | Some xs \<Rightarrow> xs) @ [r])) rs m) k
     = (if filter (\<lambda>r. r_caseId r = k) rs = [] then map_of m k
        else Some ((case map_of m k of None \<Rightarrow> [] | Some xs \<Rightarrow> xs) @ filter (\<lambda>r. r_caseId r = k) rs))"
  by (induction rs arbitrary: m) (auto split: option.split)

lemma group_of_case:
  "filter (\<lambda>r. r_caseId r = k) rs \<noteq> [] \<Longrightarrow> map_of (groupTrials rs) k = Some (filter (\<lambda>r. r_caseId r = k) rs)"
  by (simp add: groupTrials_def groups_from)

lemma stats_of_nothing: "ts_trials (caseTrialStats pdig sdig k rs p) \<noteq> 0 \<Longrightarrow> rs \<noteq> []"
  by (auto simp: caseTrialStats_def Let_def)

lemma case_paired:
  assumes "ts_trials (stats_at pdig sdig p b k) \<noteq> 0" "ts_trials (stats_at pdig sdig q c k) \<noteq> 0"
  shows "(stats_at pdig sdig p b k, stats_at pdig sdig q c k)
    \<in> set (filter scored (paired pdig sdig p q (groupTrials (sc_results b)) (groupTrials (sc_results c))))"
proof -
  note gb = group_of_case [OF stats_of_nothing [OF assms(1) [unfolded stats_at_def]]]
  note gc = group_of_case [OF stats_of_nothing [OF assms(2) [unfolded stats_at_def]]]
  show ?thesis
    using assms gb map_of_SomeD [OF gc]
    by (force simp: scored_def paired_def side_stats_def map_filter_def stats_at_def)
qed

lemma case_tested:
  fixes opts
  defines "z \<equiv> default_or (196 / 100) (to_zThreshold opts)"
  assumes "ts_trials (stats_at pdig sdig p b k) \<noteq> 0" "ts_trials (stats_at pdig sdig q c k) \<noteq> 0"
  obtains i rejected where
    "settle_case (default_or 0 (to_minDelta opts)) rejected i
        (test_case z (twoSidedPFromZ z) (stats_at pdig sdig p b k) (stats_at pdig sdig q c k))
      \<in> set (tf_cases (diffTrials pdig sdig b c opts (Some p) (Some q)))"
    "rejected = None \<longleftrightarrow> to_fdrAlpha opts = None"
proof -
  let ?f = "\<lambda>(bs, cs). test_case z (twoSidedPFromZ z) bs cs"
  define ts where "ts = map ?f (filter scored (paired pdig sdig p q (groupTrials (sc_results b)) (groupTrials (sc_results c))))"
  let ?t = "?f (stats_at pdig sdig p b k, stats_at pdig sdig q c k)"
  have "?t \<in> set ts" unfolding ts_def set_map by (rule imageI) (rule case_paired [OF assms(2,3)])
  then obtain i where "i < length ts" "ts ! i = ?t" by (auto simp: in_set_conv_nth)
  then have "(i, ?t) \<in> set (enumerate 0 ts)" by (auto simp: in_set_enumerate_eq)
  moreover have "tf_cases (diffTrials pdig sdig b c opts (Some p) (Some q))
      = map (\<lambda>(i, t). settle_case (default_or 0 (to_minDelta opts))
          (map_option (benjaminiHochberg (map (\<lambda>t. td_p (fst t)) ts)) (to_fdrAlpha opts)) i t) (enumerate 0 ts)"
    by (simp add: diffTrials_def Let_def ts_def z_def default_or_def)
  ultimately show ?thesis
    by (intro that [of "map_option (benjaminiHochberg (map (\<lambda>t. td_p (fst t)) ts)) (to_fdrAlpha opts)" i]) force+
qed

subsection \<open>The conditions of a pass\<close>

lemmas gate_simps = evaluateGate_def decide_gate_def refusal_def Let_def

lemma blocking_simps [simp]:
  "blocking_count [] = 0" "blocking_count (r # rs) = (if gr_kind r = Regression \<or> gr_kind r = Trial_regression then 1 else 0) + blocking_count rs"
  "blocking_count (rs @ ss) = blocking_count rs + blocking_count ss"
  by (simp_all add: blocking_count_def)

lemma blocking_none:
  "gr_kind (reason k) = k"
  "blocking_count (map (\<lambda>a. reason Confounded) as) = 0" "blocking_count (map (\<lambda>a. reason Identity_unverified) as) = 0"
  "blocking_count (map (\<lambda>m. (reason Kind_changed)\<lparr>gr_metric := Some m\<rparr>) ms) = 0"
  by (simp_all add: blocking_count_def reason_def)

lemma blocking_regressions: "blocking_count (regression_reasons g) = regressions_of g"
  by (auto simp: blocking_count_def reason_def regression_reasons_def regressions_of_def split: option.splits)

lemma pass_conditions:
  assumes "ge_decision (evaluateGate g policy) = Pass"
  shows "gi_unresolvable g = None" "refused_confounds g policy = []"
    "unverified_of g = [] \<or> kn_allowUnverifiedIdentity policy = Some True"
    "df_comparability (gi_diff g) \<noteq> No_comparison" "criticalReasons g = []" "missingnessReasons g policy = []"
    "regressions_of g \<le> gp_maxRegressions policy"
  using assms
  by (cases "gi_unresolvable g"; auto simp: gate_simps blocking_none blocking_regressions split: if_splits)+

lemma only_in_Nil: "only_in xs ys = [] \<longleftrightarrow> set xs \<subseteq> set ys"
  by (auto simp: only_in_def filter_empty_conv)

text \<open>A comparison over the same policy that keeps its own reading of the two scorecards.\<close>

lemma comparison_kept:
  fixes pdig sdig b c ex opts
  defines "g \<equiv> comparison_input pdig sdig b c ex opts"
  assumes "df_comparability (gi_diff g) \<noteq> No_comparison"
  shows "\<exists>p q. resolved_policy (cs_resolution b) = Some p \<and> resolved_policy (cs_resolution c) = Some q \<and> pdig p = pdig q
    \<and> gi_diff g = diffScorecards pdig sdig (cs_scorecard b) (cs_scorecard c) (Some q) (Some (Known_policy p)) (Some (Known_policy q))"
proof -
  have kept: "unresolvableStamps (cs_resolution b) (cs_resolution c) = None" "policy_mismatch pdig b c = None"
    using assms(2) by (auto simp: g_def comparison_input_def Let_def simp del: not_None_eq split: if_splits)
  from kept(1) obtain p q where p: "resolved_policy (cs_resolution b) = Some p" and q: "resolved_policy (cs_resolution c) = Some q"
    by (cases "cs_resolution b"; cases "cs_resolution c") (simp_all add: unresolvableStamps_def)
  have "pdig p = pdig q"
    using kept(2) p q by (auto simp: policy_mismatch_def stamp_of_def split: option.splits if_splits)
  then show ?thesis using kept p q
    by (simp add: g_def comparison_input_def Let_def directionPolicy_def side_of_def)
qed

lemma diff_fields:
  fixes pdig sdig b c p q
  defines "d \<equiv> diffScorecards pdig sdig b c (Some q) (Some (Known_policy p)) (Some (Known_policy q))"
  shows "df_transitions d = caseTransitions pdig sdig b c p q"
    "casesOnlyInBaseline (df_missing d) = only_in (case_ids b) (case_ids c)"
    "casesOnlyInCandidate (df_missing d) = only_in (case_ids c) (case_ids b)"
    "metricsOnlyInBaseline (df_missing d) = only_in (metric_names (summarizeScorecard b)) (metric_names (summarizeScorecard c))"
    "metricsOnlyInCandidate (df_missing d) = only_in (metric_names (summarizeScorecard c)) (metric_names (summarizeScorecard b))"
    "df_coverage d = metricCoverage b c"
    "df_comparability d = Full \<Longrightarrow> casesOnlyInBaseline (df_missing d) = [] \<and> casesOnlyInCandidate (df_missing d) = []
       \<and> metricsOnlyInBaseline (df_missing d) = [] \<and> metricsOnlyInCandidate (df_missing d) = []
       \<and> \<not> list_ex coverage_differs (df_coverage d)"
  unfolding d_def diffScorecards_def Let_def by (simp_all split: if_splits)

text \<open>With every case and every metric required, nothing of the baseline is left out.\<close>

lemma nothing_missing:
  assumes "missingnessReasons g policy = []" "kn_comparability policy \<noteq> Some Allow_partial"
    and "df_comparability (gi_diff g) = Partial"
  shows "one_sided_cases (gi_diff g) = 0" "lost_metrics (gi_diff g) = 0" "metricCoverageLosses (gi_diff g) = []"
proof -
  have "default_or Require_full (kn_comparability policy) = Require_full"
    using assms(2) by (cases "kn_comparability policy") (use comparability_mode.exhaust in auto)
  then have "full_reasons (gi_diff g) = []" using assms(1,3) by (simp add: missingnessReasons_def Let_def)
  then show "one_sided_cases (gi_diff g) = 0" "lost_metrics (gi_diff g) = 0" "metricCoverageLosses (gi_diff g) = []"
    by (auto simp: full_reasons_def split: if_splits)
qed

lemma share_bounds: "0 \<le> measured_share sc k" "measured_share sc k \<le> 1"
  using measured_rows_le [of sc k] by (auto simp: measured_share_def fraction_of_def divide_le_eq)

lemma share_zero: "measured_rows sc k = 0 \<Longrightarrow> measured_share sc k = 0"
  by (simp add: measured_share_def fraction_of_def)

lemma share_pos: "0 < measured_rows sc k \<Longrightarrow> 0 < measured_share sc k"
  using measured_rows_le [of sc k] by (cases "outcome_rows sc") (auto simp: measured_share_def fraction_of_def)

text \<open>A metric whose rows thinned out shows up as a coverage difference and as a loss.\<close>

lemma thinning_seen:
  assumes "0 < measured_rows b k" "0 < measured_rows c k" "\<not> list_ex coverage_differs (metricCoverage b c)"
  shows "measured_share b k - measured_share c k \<le> COVERAGE_EPS"
proof -
  let ?m = "\<lparr>co_metric = k, co_baselineCases = length (outcome_rows b), co_baselineMeasured = measured_rows b k,
    co_candidateCases = length (outcome_rows c), co_candidateMeasured = measured_rows c k\<rparr>"
  have "\<not> coverage_differs ?m" using metric_coverage_entry [of b k c] assms by (auto simp: list_ex_iff)
  then show ?thesis using assms(1,2) by (simp add: coverage_differs_def measured_share_def)
qed

lemma loss_seen:
  assumes "0 < measured_rows b k" "filter (\<lambda>(m, loss). COVERAGE_EPS < loss)
       (map (\<lambda>m. (co_metric m, coverage_loss m)) (filter (\<lambda>m. 0 < co_baselineMeasured m) (metricCoverage b c))) = []"
  shows "measured_share b k - measured_share c k \<le> COVERAGE_EPS"
proof -
  let ?m = "\<lparr>co_metric = k, co_baselineCases = length (outcome_rows b), co_baselineMeasured = measured_rows b k,
    co_candidateCases = length (outcome_rows c), co_candidateMeasured = measured_rows c k\<rparr>"
  let ?x = "measured_share b k" and ?y = "measured_share c k"
  have "?m \<in> set (metricCoverage b c)" using metric_coverage_entry [of b k c] assms(1) by simp
  then have "coverage_loss ?m \<le> COVERAGE_EPS"
    using assms by (auto simp: filter_empty_conv not_less)
  then have "1 - ?y / ?x \<le> COVERAGE_EPS" using share_pos [OF assms(1)]
    by (simp add: coverage_loss_def Let_def measured_share_def)
  then have "?x * (1 - ?y / ?x) \<le> ?x * COVERAGE_EPS" using share_bounds by (intro mult_left_mono)
  then have "?x - ?y \<le> ?x * COVERAGE_EPS" using share_pos [OF assms(1)] by (simp add: right_diff_distrib)
  also have "\<dots> \<le> 1 * COVERAGE_EPS" using share_bounds by (intro mult_right_mono) (simp_all add: COVERAGE_EPS_def)
  finally show ?thesis by simp
qed

lemma share_kept:
  assumes rows: "0 < measured_rows b k \<longleftrightarrow> 0 < measured_rows c k" and cov: "df_coverage d = metricCoverage b c"
    and lossless: "\<not> list_ex coverage_differs (df_coverage d) \<or> metricCoverageLosses d = []"
  shows "measured_share b k - measured_share c k \<le> COVERAGE_EPS"
proof (cases "0 < measured_rows b k")
  case True
  then show ?thesis
    using rows lossless thinning_seen [of b k c] loss_seen [of b k c] unfolding metricCoverageLosses_def cov by auto
next
  case False
  then show ?thesis using share_zero [of b k] share_bounds [of c k] by (simp add: COVERAGE_EPS_def)
qed

text \<open>Without repeated trials and without a broken transition, no case went from a pass to a failure.\<close>

lemma nothing_broke:
  fixes b c :: scorecard
  assumes "\<not> has_trials b c"
    and calm: "df_transitions (gi_diff g) = caseTransitions pdig sdig b c p q" "changed_cases Broke g = []"
    and at: "last_row (sc_results b) k = Some x" "last_row (sc_results c) k = Some y" "caseVerdict pdig sdig p x = Some True"
  shows "caseVerdict pdig sdig q y \<noteq> Some False"
proof
  assume "caseVerdict pdig sdig q y = Some False"
  moreover have "\<forall>r \<in> set (sc_results b) \<union> set (sc_results c). r_trial r = None"
    using assms(1) by (auto simp: has_trials_def list_ex_iff)
  then have "map_of (by_trial b) (lone_key k) = Some x" "map_of (by_trial c) (lone_key k) = Some y"
    using at(1,2) by_trial_single [of b k] by_trial_single [of c k] by simp_all
  ultimately have "\<exists>t \<in> set (df_transitions (gi_diff g)). ct_change t = Broke"
    using transition_listed [of b "lone_key k" x c y pdig sdig p q] at(3) calm(1) by (force simp: change_of_def)
  then show False using calm(2) by (auto simp: changed_cases_def filter_empty_conv)
qed

text \<open>With repeated trials and no regression on record, every case judged on both sides was tested and none was found lower.\<close>

lemma no_trial_regression:
  assumes "tf_regressions (diffTrials pdig sdig b c opts (Some p) (Some q)) = []"
    and "ts_trials (stats_at pdig sdig p b k) \<noteq> 0" "ts_trials (stats_at pdig sdig q c k) \<noteq> 0"
  shows "tested_without_fall pdig sdig p q opts b c k"
proof -
  let ?D = "diffTrials pdig sdig b c opts (Some p) (Some q)" and ?z = "default_or (196 / 100) (to_zThreshold opts)"
  let ?t = "test_case ?z (twoSidedPFromZ ?z) (stats_at pdig sdig p b k) (stats_at pdig sdig q c k)"
  have "tf_regressions ?D = filter (\<lambda>d. td_significant d \<and> td_delta d < 0) (tf_cases ?D)"
    by (simp add: diffTrials_def Let_def)
  then have calm: "td_significant d \<longrightarrow> 0 \<le> td_delta d" if "d \<in> set (tf_cases ?D)" for d
    using that assms(1) by (metis (no_types, lifting) filter_empty_conv linorder_not_less)
  obtain i rejected where d: "settle_case (default_or 0 (to_minDelta opts)) rejected i ?t \<in> set (tf_cases ?D)"
    "rejected = None \<longleftrightarrow> to_fdrAlpha opts = None" by (rule case_tested [OF assms(2,3)])
  have shown: "td_caseId (settle_case m r i ?t) = k"
      "td_baselineRate (settle_case m r i ?t) = ts_passRate (stats_at pdig sdig p b k)"
      "td_candidateRate (settle_case m r i ?t) = ts_passRate (stats_at pdig sdig q c k)"
      "td_delta (settle_case m r i ?t) = ts_passRate (stats_at pdig sdig q c k) - ts_passRate (stats_at pdig sdig p b k)"
    for m r
    by (simp_all add: settle_case_def test_case_def Let_def stats_at_def caseTrialStats_def)
  have "\<not> fell opts (stats_at pdig sdig p b k) (stats_at pdig sdig q c k)" if own: "to_fdrAlpha opts = None"
  proof
    assume "fell opts (stats_at pdig sdig p b k) (stats_at pdig sdig q c k)"
    then have "td_significant (settle_case (default_or 0 (to_minDelta opts)) None i ?t)"
        "td_delta (settle_case (default_or 0 (to_minDelta opts)) None i ?t) < 0"
      using shown(4) by (auto simp: fell_def Let_def settle_case_def test_case_def)
    moreover have "rejected = None" using d(2) own by blast
    ultimately show False using calm [OF d(1)] by simp
  qed
  then show ?thesis
    unfolding tested_without_fall_def using calm [OF d(1)] shown by (intro conjI impI bexI [OF _ d(1)]) auto
qed


subsection \<open>Critical cases\<close>

definition critical_broke :: "gate_input \<Rightarrow> string \<Rightarrow> bool" where
  "critical_broke g i \<longleftrightarrow>
     i \<in> set (casesOnlyInBaseline (df_missing (gi_diff g)))
     \<or> (case gi_trials g of
          None \<Rightarrow> \<exists>t \<in> set (df_transitions (gi_diff g)). ct_caseId t = i \<and> ct_change t = Broke
        | Some d \<Rightarrow> \<exists>c \<in> set (tf_cases d). td_caseId c = i \<and> td_candidateRate c \<le> 0 \<and> 0 < td_baselineRate c)"

lemma critical_reported:
  assumes "gi_critical g = Some ms" "m \<in> set ms" "caseMatches m i" "critical_broke g i"
  shows "criticalReasons g \<noteq> []"
proof -
  obtain m' ms' where ms: "ms = m' # ms'" using assms(2) by (cases ms) auto
  have "list_ex (\<lambda>m. caseMatches m i) ms" using assms(2,3) by (auto simp: list_ex_iff)
  then show ?thesis using assms(1,4) unfolding ms
    by (auto simp: criticalReasons_def critical_broke_def Let_def filter_empty_conv not_less split: option.splits)
qed

text \<open>C33. A case the policy declared critical never ships broken: a decision over a comparison in which it is absent from the
  candidate, collapsed over its trials or flipped to a failure is a block or a refusal, whatever the policy tolerates.\<close>

theorem critical_never_ships:
  assumes "gi_critical g = Some ms" "m \<in> set ms" "caseMatches m i" "critical_broke g i"
  shows "ge_decision (evaluateGate g policy) \<in> {Block, Not_comparable}"
  using critical_reported [OF assms] by (simp add: gate_simps)

subsection \<open>Refusals\<close>

definition says_nothing :: "gate_evidence \<Rightarrow> bool" where
  "says_nothing e \<longleftrightarrow> ev_regressions e = None \<and> ev_improvements e = None \<and> ev_criticalFailures e = None
     \<and> ev_suppressedByFdr e = None"

lemma evaluate_refusal:
  "ge_decision (evaluateGate g policy) = Not_comparable \<Longrightarrow> says_nothing (ge_evidence (evaluateGate g policy))"
  by (auto simp: gate_simps says_nothing_def structural_evidence_def split: if_splits)

text \<open>A decision that does not compare carries no number derived from verdicts, in whichever of the two readings of the
  pins or of the comparison it was refused.\<close>

theorem refusal_says_nothing:
  assumes "ge_decision (fst (gate_decide preRead snapshot request)) = Not_comparable"
  shows "says_nothing (ge_evidence (fst (gate_decide preRead snapshot request)))"
  using assms evaluate_refusal
  by (auto simp: gate_decide_def Let_def applyInputTrust_def refuseGateForInputTrust_def says_nothing_def
      split: option.splits prod.splits if_splits)

lemma effective_waiver [simp]: "kn_allowUnrecordedJudgments (effective_policy request) = None"
  by (simp add: effective_policy_def)

definition waived :: "gate_policy \<Rightarrow> bool" where
  "waived policy \<longleftrightarrow> kn_allowUnverifiedInput policy = Some True \<and> kn_allowUnrecordedJudgments policy = Some True"

text \<open>The waiver for judgments without a recorded author has no effect: the service does not copy it into the policy it
  decides under, so such a pin is refused whatever the request says, while the gate itself would accept it waived.\<close>

theorem unrecorded_waiver_unreachable:
  assumes "pp_baseline preRead = Some pin \<or> pp_candidate preRead = Some pin" "\<not> judgments_vouched pin"
  shows "ge_decision (fst (gate_decide preRead snapshot request)) = Not_comparable
    \<and> (waived policy \<and> decisionInputTrustOf (pp_baseline preRead) \<noteq> Diverged
         \<and> decisionInputTrustOf (pp_candidate preRead) \<noteq> Diverged \<longrightarrow> refuseGateForInputTrust preRead policy = None)"
proof -
  have "inputTrustReasons preRead (effective_policy request) \<noteq> []"
    using assms by (auto simp: inputTrustReasons_def side_trust_reasons_def Let_def)
  then show ?thesis
    by (auto simp: gate_decide_def refuseGateForInputTrust_def Let_def waived_def inputTrustReasons_def
        side_trust_reasons_def split: option.splits)
qed

subsection \<open>Concrete comparisons\<close>

definition plain_row :: "string \<Rightarrow> string list \<Rightarrow> case_result" where
  "plain_row i ms = demo_result\<lparr>r_caseId := i, r_scores := map (demo_row ''tests-pass'') ms\<rparr>"

definition plain_side :: "case_result list \<Rightarrow> comparison_side" where
  "plain_side rs = \<lparr>cs_scorecard = \<lparr>sc_harness = ''h'', sc_results = rs\<rparr>, cs_stamp = None,
     cs_resolution = Resolved_policy DEFAULT_VERDICT_POLICY\<rparr>"

definition held :: experiment_identity where "held = \<lparr>ex_confounds = [], ex_unverified = []\<rparr>"

abbreviation plain_diff :: "case_result list \<Rightarrow> case_result list \<Rightarrow> scorecard_diff" where
  "plain_diff B C \<equiv> diffScorecards (\<lambda>p. ''p'') (\<lambda>s. ''s'') \<lparr>sc_harness = ''h'', sc_results = B\<rparr>
     \<lparr>sc_harness = ''h'', sc_results = C\<rparr> (Some DEFAULT_VERDICT_POLICY)
     (Some (Known_policy DEFAULT_VERDICT_POLICY)) (Some (Known_policy DEFAULT_VERDICT_POLICY))"

lemma plain_comparison:
  assumes "list_all (\<lambda>r. r_trial r = None) (B @ C)"
  shows "comparison_input (\<lambda>p. ''p'') (\<lambda>s. ''s'') (plain_side B) (plain_side C) held opts =
    \<lparr>gi_diff = plain_diff B C, gi_trials = None, gi_mismatch = None, gi_unresolvable = None, gi_experiment = Some held,
     gi_coverage = Some (measurementCoverage \<lparr>sc_harness = ''h'', sc_results = B\<rparr>,
       measurementCoverage \<lparr>sc_harness = ''h'', sc_results = C\<rparr>), gi_critical = None\<rparr>"
proof -
  have "\<not> has_trials \<lparr>sc_harness = ''h'', sc_results = B\<rparr> \<lparr>sc_harness = ''h'', sc_results = C\<rparr>"
    using assms by (auto simp: has_trials_def list_all_iff list_ex_iff)
  moreover have "vp_critical DEFAULT_VERDICT_POLICY = []" by code_simp
  ultimately show ?thesis
    by (simp add: comparison_input_def Let_def plain_side_def unresolvableStamps_def policy_mismatch_def
        directionPolicy_def side_of_def critical_of_def)
qed

definition one_metric :: "case_result list" where
  "one_metric = [plain_row ''a'' [''tests_pass''], plain_row ''b'' [''tests_pass'']]"

definition thin :: "case_result list" where
  "thin = [plain_row ''a'' [''tests_pass'', ''style''], plain_row ''b'' [''tests_pass'']]"

definition thick :: "case_result list" where
  "thick = [plain_row ''a'' [''tests_pass'', ''style''], plain_row ''b'' [''tests_pass'', ''style'']]"

lemma no_trials: "list_all (\<lambda>r. r_trial r = None) (one_metric @ one_metric)" "list_all (\<lambda>r. r_trial r = None) (thin @ thick)"
  by (simp_all add: one_metric_def thin_def thick_def plain_row_def demo_result_def)

lemma one_metric_passes:
  "ge_decision (evaluateGate (comparison_input (\<lambda>p. ''p'') (\<lambda>s. ''s'') (plain_side one_metric) (plain_side one_metric) held
     no_opts) (effective_policy None)) = Pass"
  unfolding plain_comparison [OF no_trials(1)] by code_simp


text \<open>With every case and metric required, a candidate that measured a metric on more rows than its baseline is recorded
  as a partial comparison, and still passes.\<close>

theorem gained_coverage_passes_partial:
  "let e = evaluateGate (comparison_input (\<lambda>p. ''p'') (\<lambda>s. ''s'') (plain_side thin) (plain_side thick) held no_opts)
             (effective_policy None)
   in kn_comparability (effective_policy None) = None \<and> ev_comparability (ge_evidence e) = Partial \<and> ge_decision e = Pass"
  unfolding plain_comparison [OF no_trials(2)] by code_simp

definition critical_input :: gate_input where
  "critical_input = (comparison_input (\<lambda>p. ''p'') (\<lambda>s. ''s'') (plain_side one_metric) (plain_side [plain_row ''a'' [''tests_pass'']])
     held no_opts)\<lparr>gi_critical := Some [ExactCase ''b'']\<rparr>"

lemma critical_never_ships_witness: "ge_decision (evaluateGate critical_input (effective_policy None)) \<in> {Block, Not_comparable}"
proof (rule critical_never_ships [where ms = "[ExactCase ''b'']" and m = "ExactCase ''b''" and i = "''b''"])
  have "list_all (\<lambda>r. r_trial r = None) (one_metric @ [plain_row ''a'' [''tests_pass'']])"
    by (simp add: one_metric_def plain_row_def demo_result_def)
  then have "casesOnlyInBaseline (df_missing (gi_diff critical_input)) = [''b'']"
    unfolding critical_input_def by (simp add: plain_comparison) code_simp
  then show "critical_broke critical_input ''b''" by (simp add: critical_broke_def)
qed (simp_all add: critical_input_def)

definition bare_pin :: scoring_pin where
  "bare_pin = \<lparr>sp_revision = 1, sp_planeDigest = ''d'', sp_inputObservation = Some \<lparr>io_setDigest = None,
     io_completed = True, io_diverged = Some 0\<rparr>, sp_receiptSetDigest = None, sp_provenance = None\<rparr>"

definition bare_pins :: pin_pair where "bare_pins = \<lparr>pp_baseline = Some bare_pin, pp_candidate = Some bare_pin\<rparr>"

definition waive_all :: policy_request where
  "waive_all = \<lparr>kn_comparability = None, kn_maxMissingCases = None, kn_maxMissingFraction = None,
     kn_maxMetricLossFraction = None, kn_allowMetricKindChange = None, kn_allowConfounds = None,
     kn_allowUnverifiedIdentity = Some True, kn_allowUnverifiedInput = Some True,
     kn_allowUnrecordedJudgments = Some True, kn_maxUnmeasuredFraction = None, kn_zThreshold = None,
     kn_minDelta = None, kn_fdrAlpha = None, rq_maxRegressions = None\<rparr>"

lemma unrecorded_waiver_unreachable_witness:
  "ge_decision (fst (gate_decide bare_pins (\<lambda>_. (critical_input, bare_pins)) (Some waive_all))) = Not_comparable"
  using unrecorded_waiver_unreachable [of bare_pins bare_pin] by (simp add: bare_pins_def bare_pin_def judgments_vouched_def)

lemma refusal_says_nothing_witness:
  "says_nothing (ge_evidence (fst (gate_decide bare_pins (\<lambda>_. (critical_input, bare_pins)) (Some waive_all))))"
  by (rule refusal_says_nothing)
     (simp add: gate_decide_def refuseGateForInputTrust_def inputTrustReasons_def side_trust_reasons_def bare_pins_def
       bare_pin_def judgments_vouched_def decisionInputTrustOf_def effective_policy_def Let_def)

end
