(* ===== verification/GateLedger.thy ===== *)
theory GateLedger
  imports Gate "HOL-Library.Sublist"
begin

text \<open>
  The ledger of gate decisions a scorecard carries: \<open>recordGateDecision\<close>, \<open>appendGate\<close> and \<open>overrideGate\<close> of
  packages/application-control/src/scorecard/scorecard-service.ts over the guarded update of
  packages/db/src/results/scorecard-store.ts, and \<open>gateAudit\<close> of packages/domain/src/scorecard/gate.ts.

  The calls on one scorecard are tasks cut at their awaits: a task reads the ledger in one step and writes over it in a
  later one, and other tasks may run in between. The update is accepted when the ledger has the length the writer read.
  Identifiers and times are arguments. The row exists and keeps its tenant; the check of both is not modelled.
\<close>

subsection \<open>Decisions\<close>

record gate_override =
  go_by :: string
  go_reason :: string
  go_at :: string

record gate_decision =
  gd_id :: string
  gd_baseline :: string
  gd_candidate :: string
  gd_baselineScoring :: "scoring_pin option"
  gd_candidateScoring :: "scoring_pin option"
  gd_evaluation :: gate_evaluation
  gd_policy :: gate_policy
  gd_policyDigest :: string
  gd_decidedBy :: "string option"
  gd_decidedAt :: string
  gd_override :: "gate_override option"

definition new_decision ::
  "(gate_policy \<Rightarrow> string) \<Rightarrow> string \<Rightarrow> string \<Rightarrow> string \<Rightarrow> string \<Rightarrow> string option \<Rightarrow> gate_policy
    \<Rightarrow> gate_evaluation \<times> pin_pair \<Rightarrow> gate_decision" where
  "new_decision gdig newId now baseline candidate decidedBy policy decided =
     \<lparr>gd_id = newId, gd_baseline = baseline, gd_candidate = candidate,
      gd_baselineScoring = pp_baseline (snd decided), gd_candidateScoring = pp_candidate (snd decided),
      gd_evaluation = fst decided, gd_policy = policy, gd_policyDigest = gdig policy, gd_decidedBy = decidedBy,
      gd_decidedAt = now, gd_override = None\<rparr>"

definition verdict_on :: "gate_decision \<Rightarrow> gate_verdict" where
  "verdict_on d = ge_decision (gd_evaluation d)"

subsection \<open>Tasks on the ledger\<close>

datatype gate_task =
    Appending gate_decision "gate_decision list" nat
  | Rereading gate_decision nat
  | Overriding gate_decision "gate_decision list"
  | Settled "gate_decision res"

datatype gate_fact = Decided_fact string | Overridden_fact string

record gate_ledger =
  lg_gates :: "gate_decision list"
  lg_tasks :: "nat \<Rightarrow> gate_task option"
  lg_facts :: "gate_fact list"

definition set_task :: "nat \<Rightarrow> gate_task \<Rightarrow> gate_ledger \<Rightarrow> gate_ledger" where
  "set_task p t s = s\<lparr>lg_tasks := (lg_tasks s)(p \<mapsto> t)\<rparr>"

text \<open>\<open>store.update\<close> with \<open>expectGatesCount\<close>: the new ledger and the facts, or a miss.\<close>

definition guarded_update :: "nat \<Rightarrow> gate_decision list \<Rightarrow> gate_fact list \<Rightarrow> gate_ledger \<Rightarrow> gate_ledger option" where
  "guarded_update expect gates facts s =
     (if length (lg_gates s) \<noteq> expect then None
      else Some (s\<lparr>lg_gates := gates, lg_facts := lg_facts s @ facts\<rparr>))"

definition begin_override :: "gate_decision list \<Rightarrow> string \<Rightarrow> gate_override \<Rightarrow> gate_task" where
  "begin_override gates decisionId ov =
     (case find (\<lambda>g. gd_id g = decisionId) gates of
        None \<Rightarrow> Settled (Inl (NotFound ''NOT_FOUND'' ''gate decision not found on this candidate.''))
      | Some d \<Rightarrow>
          if verdict_on d \<noteq> Block \<and> verdict_on d \<noteq> Blocked_missing
          then Settled (Inl (Conflict ''CONFLICT'' ''only a blocking decision can be overridden''))
          else if gd_override d \<noteq> None
          then Settled (Inl (Conflict ''CONFLICT'' ''this decision was already overridden.''))
          else Overriding (d\<lparr>gd_override := Some ov\<rparr>) gates)"

definition replace_decision :: "gate_decision \<Rightarrow> gate_decision list \<Rightarrow> gate_decision list" where
  "replace_decision d gates = map (\<lambda>g. if gd_id g = gd_id d then d else g) gates"

fun continue_task :: "nat \<Rightarrow> gate_task \<Rightarrow> gate_ledger \<Rightarrow> gate_ledger" where
  "continue_task p (Appending d read attempt) s =
     (case guarded_update (length read) (read @ [d]) [Decided_fact (gd_id d)] s of
        Some s' \<Rightarrow> set_task p (Settled (Inr d)) s'
      | None \<Rightarrow> set_task p (Rereading d (attempt + 1)) s)"
| "continue_task p (Rereading d attempt) s =
     (if attempt < 3 then set_task p (Appending d (lg_gates s) attempt) s
      else set_task p (Settled (Inl (Conflict ''CONFLICT'' ''the gate ledger kept moving under this decision''))) s)"
| "continue_task p (Overriding d read) s =
     (case guarded_update (length read) (replace_decision d read) [Overridden_fact (gd_id d)] s of
        Some s' \<Rightarrow> set_task p (Settled (Inr d)) s'
      | None \<Rightarrow> set_task p (Settled (Inl (Conflict ''CONFLICT'' ''the gate ledger moved while recording this override''))) s)"
| "continue_task p (Settled r) s = s"

datatype gate_event =
    Begin_append nat gate_decision
  | Begin_override nat string gate_override
  | Continue nat

fun gate_step :: "gate_ledger \<Rightarrow> gate_event \<Rightarrow> gate_ledger" where
  "gate_step s (Begin_append p d) =
     (if lg_tasks s p = None then set_task p (Appending d (lg_gates s) 0) s else s)"
| "gate_step s (Begin_override p i ov) =
     (if lg_tasks s p = None then set_task p (begin_override (lg_gates s) i ov) s else s)"
| "gate_step s (Continue p) = (case lg_tasks s p of None \<Rightarrow> s | Some t \<Rightarrow> continue_task p t s)"

definition gate_run :: "gate_ledger \<Rightarrow> gate_event list \<Rightarrow> gate_ledger" where
  "gate_run s es = fold (\<lambda>e s. gate_step s e) es s"

definition ledger_of :: "gate_decision list \<Rightarrow> gate_ledger" where
  "ledger_of gates = \<lparr>lg_gates = gates, lg_tasks = (\<lambda>_. None), lg_facts = []\<rparr>"

subsection \<open>The audit window\<close>

record audit_entry =
  ae_candidate :: string
  ae_gateId :: string
  ae_baseline :: string
  ae_override :: gate_override

record gate_audit =
  ga_total :: nat
  ga_pass :: nat
  ga_block :: nat
  ga_blockedMissing :: nat
  ga_notComparable :: nat
  ga_entries :: "audit_entry list"
  ga_overrideRate :: "rat option"

definition in_window :: "string option \<Rightarrow> string option \<Rightarrow> gate_decision \<Rightarrow> bool" where
  "in_window from to g \<longleftrightarrow>
     \<not> (case from of None \<Rightarrow> False | Some f \<Rightarrow> gd_decidedAt g < f) \<and> \<not> (case to of None \<Rightarrow> False | Some t \<Rightarrow> t < gd_decidedAt g)"

definition audit_entry_of :: "gate_decision \<Rightarrow> audit_entry option" where
  "audit_entry_of g =
     map_option (\<lambda>ov. \<lparr>ae_candidate = gd_candidate g, ae_gateId = gd_id g, ae_baseline = gd_baseline g, ae_override = ov\<rparr>)
       (gd_override g)"

definition count_decisions :: "gate_verdict \<Rightarrow> gate_decision list \<Rightarrow> nat" where
  "count_decisions v gs = length (filter (\<lambda>g. verdict_on g = v) gs)"

definition gateAudit :: "(string \<times> gate_decision list) list \<Rightarrow> string option \<Rightarrow> string option \<Rightarrow> gate_audit" where
  "gateAudit records from to =
     (let gs = filter (in_window from to) (concat (map snd records));
          entries = List.map_filter audit_entry_of gs;
          blocking = count_decisions Block gs + count_decisions Blocked_missing gs
      in \<lparr>ga_total = length gs, ga_pass = count_decisions Pass gs, ga_block = count_decisions Block gs,
          ga_blockedMissing = count_decisions Blocked_missing gs, ga_notComparable = count_decisions Not_comparable gs,
          ga_entries = entries,
          ga_overrideRate = (if 0 < blocking then Some (of_nat (length entries) / of_nat blocking) else None)\<rparr>)"

subsection \<open>What every interleaving keeps\<close>

text \<open>A decision without its override: the part that is written once.\<close>

definition bare :: "gate_decision \<Rightarrow> gate_decision" where
  "bare d = d\<lparr>gd_override := None\<rparr>"

lemma bare_id [simp]: "gd_id (bare d) = gd_id d"
  by (simp add: bare_def)

fun begun :: "gate_event list \<Rightarrow> string list" where
  "begun [] = []"
| "begun (Begin_append p d # es) = gd_id d # begun es"
| "begun (e # es) = begun es"

fun pending :: "gate_task option \<Rightarrow> string option" where
  "pending (Some (Appending d read k)) = Some (gd_id d)"
| "pending (Some (Rereading d k)) = Some (gd_id d)"
| "pending t = None"

fun task_ok :: "gate_decision list \<Rightarrow> gate_task option \<Rightarrow> bool" where
  "task_ok gates (Some (Appending d read k)) \<longleftrightarrow> prefix (map bare read) (map bare gates)"
| "task_ok gates (Some (Overriding d read)) \<longleftrightarrow> prefix (map bare read) (map bare gates) \<and> bare d \<in> bare ` set read"
| "task_ok gates t \<longleftrightarrow> True"

text \<open>The identifiers on the ledger, those of decisions on their way to it and those still to come are all different.\<close>

definition ledger_ok :: "string list \<Rightarrow> gate_ledger \<Rightarrow> bool" where
  "ledger_ok coming s \<longleftrightarrow>
     distinct (map gd_id (lg_gates s)) \<and> distinct coming \<and> set coming \<inter> gd_id ` set (lg_gates s) = {}
     \<and> (\<forall>p. task_ok (lg_gates s) (lg_tasks s p))
     \<and> (\<forall>p i. pending (lg_tasks s p) = Some i \<longrightarrow> i \<notin> set coming \<and> i \<notin> gd_id ` set (lg_gates s))
     \<and> (\<forall>p q i. pending (lg_tasks s p) = Some i \<longrightarrow> pending (lg_tasks s q) = Some i \<longrightarrow> p = q)"

text \<open>A step appends decisions, one for each decided fact it tells.\<close>

fun decided :: "gate_fact list \<Rightarrow> string list" where
  "decided [] = []"
| "decided (Decided_fact i # fs) = i # decided fs"
| "decided (Overridden_fact i # fs) = decided fs"

lemma decided_append [simp]: "decided (fs @ gs) = decided fs @ decided gs"
  by (induction fs rule: decided.induct) auto

definition grows_by :: "gate_decision list \<Rightarrow> gate_fact list \<Rightarrow> gate_ledger \<Rightarrow> gate_ledger \<Rightarrow> bool" where
  "grows_by added fs s s' \<longleftrightarrow> lg_facts s' = lg_facts s @ fs
     \<and> map bare (lg_gates s') = map bare (lg_gates s) @ map bare added \<and> map gd_id added = decided fs"

definition grows :: "gate_ledger \<Rightarrow> gate_ledger \<Rightarrow> bool" where
  "grows s s' \<longleftrightarrow> (\<exists>added fs. grows_by added fs s s')"

lemma growsI: "grows_by added fs s s' \<Longrightarrow> grows s s'"
  by (auto simp: grows_def)

lemma grows_refl [simp]: "grows s s"
  by (rule growsI [of "[]" "[]"]) (simp add: grows_by_def)

lemma grows_trans:
  assumes "grows s s'" "grows s' s''"
  shows "grows s s''"
proof -
  obtain a fs b gs where "grows_by a fs s s'" "grows_by b gs s' s''" using assms by (auto simp: grows_def)
  then show ?thesis by (intro growsI [of "a @ b" "fs @ gs"]) (simp add: grows_by_def)
qed

lemma task_ok_mono: "prefix (map bare gates) (map bare gates') \<Longrightarrow> task_ok gates t \<Longrightarrow> task_ok gates' t"
  by (cases "(gates, t)" rule: task_ok.cases) (auto intro: prefix_order.trans)

lemma same_length_prefix: "prefix xs ys \<Longrightarrow> length xs = length ys \<Longrightarrow> xs = ys"
  by (auto simp: prefix_def)

lemma bare_ids: "map gd_id xs = map gd_id (map bare xs)"
  by simp

lemma bare_replace:
  assumes "distinct (map gd_id gates)" "bare d \<in> bare ` set gates"
  shows "map bare (replace_decision d gates) = map bare gates"
proof -
  obtain g where g: "g \<in> set gates" "bare d = bare g" using assms(2) by blast
  then have same: "gd_id d = gd_id g" by (metis bare_id)
  have "bare (if gd_id h = gd_id d then d else h) = bare h" if mem: "h \<in> set gates" for h
  proof (cases "gd_id h = gd_id d")
    case True
    then have "h = g" using assms(1) g(1) mem same by (simp add: distinct_map inj_on_def)
    then show ?thesis using g(2) by simp
  qed simp
  then show ?thesis by (simp add: replace_decision_def)
qed

lemma begin_override_cases:
  "(\<exists>r. begin_override gates i ov = Settled r) \<or>
   (\<exists>g \<in> set gates. begin_override gates i ov = Overriding (g\<lparr>gd_override := Some ov\<rparr>) gates \<and> gd_id g = i
      \<and> gd_override g = None \<and> verdict_on g \<in> {Block, Blocked_missing})"
  by (auto simp: begin_override_def find_Some_iff split: option.splits)

lemma pending_override [simp]: "pending (Some (begin_override gates i ov)) = None"
  using begin_override_cases [of gates i ov] by auto

lemma task_ok_override: "task_ok gates (Some (begin_override gates i ov))"
  using begin_override_cases [of gates i ov] by (auto simp: bare_def)

lemma ledger_ok_fewer: "ledger_ok (i # coming) s \<Longrightarrow> ledger_ok coming s"
  by (auto simp: ledger_ok_def)

lemma pending_new:
  assumes "ledger_ok coming s" "pending (lg_tasks s p) = Some i"
  shows "i \<notin> set coming" "i \<notin> gd_id ` set (lg_gates s)" "q \<noteq> p \<Longrightarrow> pending (lg_tasks s q) \<noteq> Some i"
  using assms unfolding ledger_ok_def by blast+

lemma set_task_gates [simp]: "lg_gates (set_task p t s) = lg_gates s" "lg_facts (set_task p t s) = lg_facts s"
  by (simp_all add: set_task_def)

lemma grows_task [simp]: "grows s (set_task p t s)"
  by (rule growsI [of "[]" "[]"]) (simp add: grows_by_def)

text \<open>A task moves on without touching the ledger.\<close>

lemma ledger_ok_task:
  assumes "ledger_ok coming s" "task_ok (lg_gates s) (Some t)"
    and "\<And>i. pending (Some t) = Some i \<Longrightarrow> i \<notin> set coming \<and> i \<notin> gd_id ` set (lg_gates s)
       \<and> (\<forall>q. q \<noteq> p \<longrightarrow> pending (lg_tasks s q) \<noteq> Some i)"
  shows "ledger_ok coming (set_task p t s)"
  using assms by (auto simp: ledger_ok_def set_task_def)

text \<open>A task writes over the ledger it read, which is the current one up to overrides.\<close>

lemma ledger_ok_write:
  assumes "ledger_ok coming s" "prefix (map bare (lg_gates s)) (map bare gates)" "distinct (map gd_id gates)"
    and "gd_id ` set gates \<subseteq> insert i (gd_id ` set (lg_gates s))" "pending (lg_tasks s p) = Some i \<or> i \<in> gd_id ` set (lg_gates s)"
  shows "ledger_ok coming (set_task p (Settled r) (s\<lparr>lg_gates := gates, lg_facts := fs\<rparr>))"
proof -
  have "\<forall>q. task_ok gates (lg_tasks s q)"
    using assms(1,2) task_ok_mono by (auto simp: ledger_ok_def)
  moreover have apart: "set coming \<inter> gd_id ` set (lg_gates s) = {}" using assms(1) by (simp add: ledger_ok_def)
  have "i \<notin> set coming" using assms(5) pending_new(1) [OF assms(1)] apart by blast
  then have "set coming \<inter> gd_id ` set gates = {}" using apart assms(4) by blast
  moreover have "j \<notin> gd_id ` set gates" if other: "q \<noteq> p" "pending (lg_tasks s q) = Some j" for q j
  proof -
    have "j \<noteq> i" using assms(5) other pending_new(2) [OF assms(1) other(2)] pending_new(3) [OF assms(1), of p i q] by auto
    then show ?thesis using assms(4) pending_new(2) [OF assms(1) other(2)] by blast
  qed
  ultimately show ?thesis using assms(1,3) by (auto simp: ledger_ok_def set_task_def)
qed

lemma read_is_current:
  assumes "task_ok (lg_gates s) (Some t)" "t = Appending d read k \<or> t = Overriding d read" "length (lg_gates s) = length read"
  shows "map bare read = map bare (lg_gates s)"
  using assms same_length_prefix [of "map bare read" "map bare (lg_gates s)"] by auto

lemma continue_ok:
  assumes ok: "ledger_ok coming s" and task: "lg_tasks s p = Some t"
  shows "ledger_ok coming (continue_task p t s) \<and> grows s (continue_task p t s)"
proof -
  have t: "task_ok (lg_gates s) (Some t)" using ok task by (metis ledger_ok_def)
  show ?thesis
  proof (cases t)
    case (Appending d read k)
    have new: "gd_id d \<notin> set coming" "gd_id d \<notin> gd_id ` set (lg_gates s)"
      and only: "\<forall>q. q \<noteq> p \<longrightarrow> pending (lg_tasks s q) \<noteq> Some (gd_id d)"
      using pending_new [OF ok, of p "gd_id d"] task Appending by auto
    show ?thesis
    proof (cases "length (lg_gates s) = length read")
      case True
      then have same: "map bare read = map bare (lg_gates s)" using read_is_current t Appending by blast
      then have ids: "map gd_id read = map gd_id (lg_gates s)" using bare_ids by metis
      then have "gd_id ` set read = gd_id ` set (lg_gates s)" by (metis list.set_map)
      moreover have "distinct (map gd_id (read @ [d]))" using ok new ids calculation by (simp add: ledger_ok_def)
      ultimately have "ledger_ok coming (set_task p (Settled (Inr d))
          (s\<lparr>lg_gates := read @ [d], lg_facts := lg_facts s @ [Decided_fact (gd_id d)]\<rparr>))"
        using task Appending same by (intro ledger_ok_write [OF ok, where i = "gd_id d"]) auto
      then show ?thesis using True Appending same
        by (auto simp: guarded_update_def grows_by_def intro!: growsI [of "[d]" "[Decided_fact (gd_id d)]"])
    next
      case False
      then show ?thesis using Appending new only
        using ledger_ok_task [OF ok, of "Rereading d (k + 1)" p] by (simp add: guarded_update_def)
    qed
  next
    case (Rereading d k)
    have "gd_id d \<notin> set coming" "gd_id d \<notin> gd_id ` set (lg_gates s)" "\<forall>q. q \<noteq> p \<longrightarrow> pending (lg_tasks s q) \<noteq> Some (gd_id d)"
      using pending_new [OF ok, of p "gd_id d"] task Rereading by auto
    then show ?thesis using Rereading
      using ledger_ok_task [OF ok, of "Appending d (lg_gates s) k" p]
        ledger_ok_task [OF ok, of "Settled (Inl (Conflict ''CONFLICT'' ''the gate ledger kept moving under this decision''))" p]
      by simp
  next
    case (Overriding d read)
    show ?thesis
    proof (cases "length (lg_gates s) = length read")
      case True
      then have same: "map bare read = map bare (lg_gates s)" using read_is_current t Overriding by blast
      then have ids: "map gd_id read = map gd_id (lg_gates s)" using bare_ids by metis
      moreover have "bare d \<in> bare ` set read" using t Overriding by simp
      ultimately have kept: "map bare (replace_decision d read) = map bare (lg_gates s)"
        using ok same bare_replace [of read d] by (simp add: ledger_ok_def)
      then have ids': "map gd_id (replace_decision d read) = map gd_id (lg_gates s)" using bare_ids by metis
      then have "gd_id ` set (replace_decision d read) = gd_id ` set (lg_gates s)" by (metis list.set_map)
      moreover have "gd_id d \<in> gd_id ` set (lg_gates s)"
        using \<open>bare d \<in> bare ` set read\<close> ids by (metis (no_types, lifting) bare_id imageE image_eqI list.set_map)
      ultimately have "ledger_ok coming (set_task p (Settled (Inr d))
          (s\<lparr>lg_gates := replace_decision d read, lg_facts := lg_facts s @ [Overridden_fact (gd_id d)]\<rparr>))"
        using kept ids' ok by (intro ledger_ok_write [OF ok, where i = "gd_id d"]) (auto simp: ledger_ok_def)
      then show ?thesis using True Overriding kept
        by (auto simp: guarded_update_def grows_by_def intro!: growsI [of "[]" "[Overridden_fact (gd_id d)]"])
    next
      case False
      then show ?thesis using Overriding
        ledger_ok_task [OF ok, of "Settled (Inl (Conflict ''CONFLICT'' ''the gate ledger moved while recording this override''))" p]
        by (simp add: guarded_update_def)
    qed
  next
    case (Settled r)
    then show ?thesis using ok by simp
  qed
qed

lemma gate_step_ok:
  assumes "ledger_ok (begun [e] @ coming) s"
  shows "ledger_ok coming (gate_step s e) \<and> grows s (gate_step s e)"
proof (cases e)
  case (Begin_append p d)
  then have ok: "ledger_ok coming s" and new: "gd_id d \<notin> set coming" "gd_id d \<notin> gd_id ` set (lg_gates s)"
    "\<forall>q. pending (lg_tasks s q) \<noteq> Some (gd_id d)"
    using assms ledger_ok_fewer by (auto simp: ledger_ok_def)
  then have "ledger_ok coming (set_task p (Appending d (lg_gates s) 0) s)" by (intro ledger_ok_task) auto
  then show ?thesis using Begin_append ok by simp
next
  case (Begin_override p i ov)
  then have ok: "ledger_ok coming s" using assms by simp
  then have "ledger_ok coming (set_task p (begin_override (lg_gates s) i ov) s)"
    by (intro ledger_ok_task) (simp_all add: task_ok_override)
  then show ?thesis using Begin_override ok by simp
next
  case (Continue p)
  then show ?thesis using assms continue_ok [of coming s p]
    by (cases "lg_tasks s p") simp_all
qed

lemma gate_run_ok: "ledger_ok (begun es @ coming) s \<Longrightarrow> ledger_ok coming (gate_run s es) \<and> grows s (gate_run s es)"
proof (induction es arbitrary: s)
  case (Cons e es)
  have split: "begun (e # es) = begun [e] @ begun es" by (cases e) simp_all
  have "ledger_ok (begun [e] @ begun es @ coming) s" using Cons.prems unfolding split by simp
  from gate_step_ok [OF this] Cons.IH show ?case by (auto simp: gate_run_def intro: grows_trans)
qed (simp add: gate_run_def)

lemma ledger_ok_start:
  assumes "distinct (map gd_id gates @ begun es)"
  shows "ledger_ok (begun es) (ledger_of gates)"
  using assms by (auto simp: ledger_ok_def ledger_of_def)

subsection \<open>The guarantees\<close>

text \<open>C12. However the calls interleave, the ledger is what it was plus one decision for each decided fact that was published,
  in that order: no decision is lost or doubled, and apart from overrides a recorded decision never changes.\<close>

theorem ledger_append_only:
  assumes "distinct (map gd_id gates @ begun es)"
  shows "\<exists>added. map bare (lg_gates (gate_run (ledger_of gates) es)) = map bare gates @ map bare added
    \<and> map gd_id added = decided (lg_facts (gate_run (ledger_of gates) es))"
  using gate_run_ok [of es "[]" "ledger_of gates"] ledger_ok_start [OF assms]
  by (auto simp: grows_def grows_by_def ledger_of_def)

text \<open>Lengths: what a task read is never longer than the ledger.\<close>

fun reads_at_most :: "nat \<Rightarrow> gate_task option \<Rightarrow> bool" where
  "reads_at_most n (Some (Appending d read k)) \<longleftrightarrow> length read \<le> n"
| "reads_at_most n (Some (Overriding d read)) \<longleftrightarrow> length read \<le> n"
| "reads_at_most n t \<longleftrightarrow> True"

lemma reads_mono: "n \<le> m \<Longrightarrow> reads_at_most n t \<Longrightarrow> reads_at_most m t"
  by (cases "(n, t)" rule: reads_at_most.cases) auto

definition reads_ok :: "gate_ledger \<Rightarrow> bool" where
  "reads_ok s \<longleftrightarrow> (\<forall>p. reads_at_most (length (lg_gates s)) (lg_tasks s p))"

lemma length_replace [simp]: "length (replace_decision d gates) = length gates"
  by (simp add: replace_decision_def)

text \<open>How far the ledger moved while a call to record a decision tried: by its attempts so far, and by all three when it
  gave up.\<close>

fun moved_past :: "nat \<Rightarrow> nat \<Rightarrow> gate_task option \<Rightarrow> bool" where
  "moved_past n now (Some (Appending d read k)) \<longleftrightarrow> n + k \<le> length read"
| "moved_past n now (Some (Rereading d k)) \<longleftrightarrow> n + k \<le> now"
| "moved_past n now (Some (Settled (Inl e))) \<longleftrightarrow> n + 3 \<le> now"
| "moved_past n now (Some (Settled (Inr d))) \<longleftrightarrow> True"
| "moved_past n now t \<longleftrightarrow> False"

lemma moved_mono: "now \<le> later \<Longrightarrow> moved_past n now t \<Longrightarrow> moved_past n later t"
  by (cases "(n, now, t)" rule: moved_past.cases) auto

lemma step_lengths:
  assumes "reads_ok s"
  shows "length (lg_gates s) \<le> length (lg_gates (gate_step s e)) \<and> reads_ok (gate_step s e)
    \<and> (moved_past n (length (lg_gates s)) (lg_tasks s p)
        \<longrightarrow> moved_past n (length (lg_gates (gate_step s e))) (lg_tasks (gate_step s e) p))"
proof (cases e)
  case (Begin_append q d)
  then show ?thesis using assms by (auto simp: reads_ok_def set_task_def)
next
  case (Begin_override q i ov)
  then show ?thesis using assms begin_override_cases [of "lg_gates s" i ov]
    by (auto simp: reads_ok_def set_task_def)
next
  case (Continue q)
  show ?thesis
  proof (cases "lg_tasks s q")
    case (Some t)
    have t: "reads_at_most (length (lg_gates s)) (Some t)" using assms Some by (metis reads_ok_def)
    show ?thesis
    proof (cases t)
      case (Appending d read k)
      then show ?thesis using assms Continue Some t
        using reads_mono [of "length read" "Suc (length read)"] moved_mono [of "length read" "Suc (length read)"]
        by (auto simp: reads_ok_def set_task_def guarded_update_def)
    next
      case (Rereading d k)
      then show ?thesis using assms Continue Some t by (auto simp: reads_ok_def set_task_def)
    next
      case (Overriding d read)
      then show ?thesis using assms Continue Some t
        by (auto simp: reads_ok_def set_task_def guarded_update_def)
    next
      case (Settled r)
      then show ?thesis using assms Continue Some by simp
    qed
  qed (use assms Continue in simp)
qed

lemma run_lengths:
  "reads_ok s \<Longrightarrow> length (lg_gates s) \<le> length (lg_gates (gate_run s es)) \<and> reads_ok (gate_run s es)
    \<and> (moved_past n (length (lg_gates s)) (lg_tasks s p)
        \<longrightarrow> moved_past n (length (lg_gates (gate_run s es))) (lg_tasks (gate_run s es) p))"
proof (induction es arbitrary: s)
  case (Cons e es)
  have "gate_run s (e # es) = gate_run (gate_step s e) es" by (simp add: gate_run_def)
  then show ?case using step_lengths [OF Cons.prems, of e n p] Cons.IH [of "gate_step s e"] by auto
qed (simp add: gate_run_def)

text \<open>A call that records a decision gives up only after at least three other decisions landed since it read.\<close>

theorem giving_up_needs_three:
  fixes gates before es
  defines "s \<equiv> gate_run (ledger_of gates) before"
  assumes "lg_tasks s p = None"
    and "lg_tasks (gate_run (gate_step s (Begin_append p d)) es) p = Some (Settled (Inl e))"
  shows "length (lg_gates s) + 3 \<le> length (lg_gates (gate_run (gate_step s (Begin_append p d)) es))"
proof -
  have "reads_ok (ledger_of gates)" by (simp add: reads_ok_def ledger_of_def)
  then have "reads_ok s" unfolding s_def using run_lengths by blast
  then have "reads_ok (gate_step s (Begin_append p d))" using step_lengths by blast
  moreover have "moved_past (length (lg_gates s)) (length (lg_gates (gate_step s (Begin_append p d))))
      (lg_tasks (gate_step s (Begin_append p d)) p)"
    using assms(2) by (simp add: set_task_def)
  ultimately have "moved_past (length (lg_gates s)) (length (lg_gates (gate_run (gate_step s (Begin_append p d)) es)))
      (lg_tasks (gate_run (gate_step s (Begin_append p d)) es) p)"
    using run_lengths by blast
  then show ?thesis using assms(3) by simp
qed

subsection \<open>Overrides\<close>

definition demo_policy :: gate_policy where "demo_policy = effective_policy None"

definition demo_decision :: "string \<Rightarrow> gate_decision" where
  "demo_decision i = \<lparr>gd_id = i, gd_baseline = ''b'', gd_candidate = ''c'', gd_baselineScoring = None,
     gd_candidateScoring = None,
     gd_evaluation = \<lparr>ge_decision = Block, ge_reasons = [reason Regression], ge_evidence =
       \<lparr>ev_comparability = Full, ev_regressions = Some 1, ev_improvements = Some 0, ev_missingCases = 0,
        ev_trialsGated = False, ev_missingFraction = Some 0, ev_unmeasuredFraction = Some 0,
        ev_criticalFailures = None, ev_suppressedByFdr = None\<rparr>\<rparr>,
     gd_policy = demo_policy, gd_policyDigest = ''p'', gd_decidedBy = None, gd_decidedAt = ''t'', gd_override = None\<rparr>"

definition by_alice :: gate_override where "by_alice = \<lparr>go_by = ''alice'', go_reason = ''hotfix'', go_at = ''t1''\<rparr>"
definition by_bob :: gate_override where "by_bob = \<lparr>go_by = ''bob'', go_reason = ''again'', go_at = ''t2''\<rparr>"

definition override_during_append :: "gate_event list" where
  "override_during_append = [Begin_append 0 (demo_decision ''g2''), Begin_override 1 ''g1'' by_alice, Continue 1, Continue 0]"

definition override_twice :: "gate_event list" where
  "override_twice = [Begin_override 0 ''g1'' by_alice, Begin_override 1 ''g1'' by_bob, Continue 0, Continue 1]"

text \<open>The guard counts decisions, and an override does not change the count. A decision recorded over a ledger read before
  an override erases it, although the override was accepted and its fact published; and two overrides of one decision
  are both accepted, the second in place of the first.\<close>

theorem accepted_override_erased:
  "let s = gate_run (ledger_of [demo_decision ''g1'']) override_during_append;
       s' = gate_run (ledger_of [demo_decision ''g1'']) override_twice
   in lg_tasks s 1 = Some (Settled (Inr ((demo_decision ''g1'')\<lparr>gd_override := Some by_alice\<rparr>)))
      \<and> Overridden_fact ''g1'' \<in> set (lg_facts s)
      \<and> map gd_override (lg_gates s) = [None, None]
      \<and> lg_tasks s' 0 = Some (Settled (Inr ((demo_decision ''g1'')\<lparr>gd_override := Some by_alice\<rparr>)))
      \<and> lg_facts s' = [Overridden_fact ''g1'', Overridden_fact ''g1'']
      \<and> map gd_override (lg_gates s') = [Some by_bob]"
  by (simp add: override_during_append_def override_twice_def gate_run_def ledger_of_def set_task_def guarded_update_def
      begin_override_def replace_decision_def demo_decision_def verdict_on_def by_alice_def by_bob_def)

lemma ledger_append_only_witness:
  "\<exists>added. map bare (lg_gates (gate_run (ledger_of [demo_decision ''g1'']) override_during_append))
      = map bare [demo_decision ''g1''] @ map bare added
    \<and> map gd_id added = decided (lg_facts (gate_run (ledger_of [demo_decision ''g1'']) override_during_append))"
  by (rule ledger_append_only) (simp add: override_during_append_def demo_decision_def)

definition crowd :: "gate_event list" where
  "crowd = [Begin_append 1 (demo_decision ''g1''), Continue 1, Continue 0, Continue 0,
     Begin_append 2 (demo_decision ''g2''), Continue 2, Continue 0, Continue 0,
     Begin_append 3 (demo_decision ''g3''), Continue 3, Continue 0, Continue 0]"

lemma giving_up_needs_three_witness:
  "3 \<le> length (lg_gates (gate_run (gate_step (ledger_of []) (Begin_append 0 (demo_decision ''g0''))) crowd))"
proof -
  let ?s = "gate_run (gate_step (gate_run (ledger_of []) []) (Begin_append 0 (demo_decision ''g0''))) crowd"
  have "lg_tasks (gate_run (ledger_of []) []) 0 = None" by (simp add: gate_run_def ledger_of_def)
  moreover have "lg_tasks ?s 0 = Some (Settled (Inl (Conflict ''CONFLICT'' ''the gate ledger kept moving under this decision'')))"
    by (simp add: crowd_def gate_run_def ledger_of_def set_task_def guarded_update_def)
  ultimately show ?thesis using giving_up_needs_three [of "[]" "[]" 0] by (simp add: gate_run_def ledger_of_def)
qed

subsection \<open>The audit\<close>

lemma verdicts_counted:
  "length gs = count_decisions Pass gs + count_decisions Block gs + count_decisions Blocked_missing gs + count_decisions Not_comparable gs"
proof (induction gs)
  case (Cons g gs)
  then show ?case by (cases "verdict_on g") (simp_all add: count_decisions_def)
qed (simp add: count_decisions_def)

lemma overrides_listed: "List.map_filter audit_entry_of gs = map (the o audit_entry_of) (filter (\<lambda>g. gd_override g \<noteq> None) gs)"
  by (induction gs) (auto simp: map_filter_def audit_entry_of_def)

lemma overrides_blocking:
  assumes "\<forall>g \<in> set gs. gd_override g \<noteq> None \<longrightarrow> verdict_on g \<in> {Block, Blocked_missing}"
  shows "length (filter (\<lambda>g. gd_override g \<noteq> None) gs) \<le> count_decisions Block gs + count_decisions Blocked_missing gs"
  using assms by (induction gs) (auto simp: count_decisions_def)

text \<open>The audit of a window counts every decision in it under its outcome and lists every override; as long as only blocking
  decisions carry one, the override rate is at most 1.\<close>

theorem audit_counts:
  assumes "\<forall>g \<in> set (concat (map snd records)). gd_override g \<noteq> None \<longrightarrow> verdict_on g \<in> {Block, Blocked_missing}"
  shows "let a = gateAudit records from to in
    ga_total a = length (filter (in_window from to) (concat (map snd records)))
    \<and> ga_total a = ga_pass a + ga_block a + ga_blockedMissing a + ga_notComparable a
    \<and> map ae_gateId (ga_entries a) = map gd_id (filter (\<lambda>g. in_window from to g \<and> gd_override g \<noteq> None) (concat (map snd records)))
    \<and> (\<forall>r. ga_overrideRate a = Some r \<longrightarrow> 0 \<le> r \<and> r \<le> 1)"
proof -
  let ?gs = "filter (in_window from to) (concat (map snd records))"
  let ?over = "filter (\<lambda>g. gd_override g \<noteq> None) ?gs"
  have le: "length ?over \<le> count_decisions Block ?gs + count_decisions Blocked_missing ?gs"
    by (rule overrides_blocking) (use assms in auto)
  have ids: "map ae_gateId (List.map_filter audit_entry_of ?gs) = map gd_id ?over"
    unfolding overrides_listed by (auto simp: audit_entry_of_def)
  have len: "length (List.map_filter audit_entry_of ?gs) = length ?over" unfolding overrides_listed by simp
  show ?thesis using le verdicts_counted [of ?gs]
    by (simp add: gateAudit_def Let_def ids len divide_le_eq flip: of_nat_add)
qed

lemma audit_counts_witness:
  "ga_overrideRate (gateAudit [(''c'', [(demo_decision ''g1'')\<lparr>gd_override := Some by_alice\<rparr>, demo_decision ''g2''])] None None)
     = Some (1 / 2) \<and> (1 :: rat) / 2 \<le> 1"
proof -
  let ?rs = "[(''c'', [(demo_decision ''g1'')\<lparr>gd_override := Some by_alice\<rparr>, demo_decision ''g2''])]"
  have "\<forall>g \<in> set (concat (map snd ?rs)). gd_override g \<noteq> None \<longrightarrow> verdict_on g \<in> {Block, Blocked_missing}"
    by (simp add: demo_decision_def verdict_on_def)
  from audit_counts [OF this, of None None] have "\<forall>r. ga_overrideRate (gateAudit ?rs None None) = Some r \<longrightarrow> r \<le> 1"
    by (simp add: Let_def)
  moreover have "ga_overrideRate (gateAudit ?rs None None) = Some (1 / 2)"
    by (simp add: gateAudit_def Let_def in_window_def count_decisions_def verdict_on_def demo_decision_def
        audit_entry_of_def by_alice_def map_filter_simps)
  ultimately show ?thesis by blast
qed

end
