(* ===== verification/Campaign.thy ===== *)
theory Campaign
  imports Gate
begin

text \<open>
  Evolution campaigns: the frozen frame and the rounds of packages/contracts/src/records/evolution-campaign.ts, the
  adoption gate of packages/domain/src/evolution/campaign-gate.ts, the spending of campaign-attempts.ts, the simultaneous
  intervals of non-inferiority.ts, and the verdict a round gets in
  packages/application-control/src/evolution/campaign-service.ts.

  Rates and fractions are exact rationals, significance levels and intervals real numbers. Digests are parameters. The
  sentences an answer carries are left out.
\<close>

subsection \<open>The frame\<close>

datatype subject_type = Agent_subject | Harness_subject | Environment_subject

record campaign_subject =
  su_type :: subject_type
  su_id :: string
  su_baselineVersion :: string

record scenario =
  sn_id :: string
  sn_heldOut :: bool

record ni_policy =
  np_margin :: real
  np_alpha :: real
  np_minimumTrials :: nat

record observation_policy =
  op_allowDivergent :: bool
  op_minimumCoverage :: "rat option"
  op_maxUnclear :: "nat option"

record delegation_budget =
  db_ttlSec :: nat
  db_maxUsd :: "rat option"

record campaign_frame =
  cf_subject :: campaign_subject
  cf_continues :: "string option"
  cf_scenarios :: "scenario list"
  cf_targets :: "string list"
  cf_nonInferiority :: "ni_policy option"
  cf_minimumCandidateRate :: "rat option"
  cf_examProvenBy :: "string option"
  cf_judges :: "string list"
  cf_trialsPerCase :: nat
  cf_maxRounds :: nat
  cf_stopAfterRejectedRounds :: nat
  cf_fdrAlpha :: "real option"
  cf_minDelta :: "rat option"
  cf_heldOutFamilySize :: "nat option"
  cf_allowUnverifiedIdentity :: bool
  cf_allowLabelOnlyAdoption :: bool
  cf_oracleScope :: "string list"
  cf_delegation :: "delegation_budget option"
  cf_observationPolicy :: observation_policy

definition held_out_ids :: "campaign_frame \<Rightarrow> string list" where
  "held_out_ids f = map sn_id (filter sn_heldOut (cf_scenarios f))"

subsection \<open>What a frame must satisfy to produce evidence\<close>

datatype frame_defect = Duplicate_scenarios | Duplicate_targets | Foreign_targets "string list" | Held_out_targets "string list"
  | Few_held_out nat | No_level | No_family | Family_below_budget nat nat

text \<open>\<open>new Map(scenarios.map(s => [s.id, s]))\<close>: the last scenario of an id.\<close>

definition scenario_of :: "campaign_frame \<Rightarrow> string \<Rightarrow> scenario option" where
  "scenario_of f i = find (\<lambda>s. sn_id s = i) (rev (cf_scenarios f))"

definition campaignFrameDefects :: "campaign_frame \<Rightarrow> frame_defect list" where
  "campaignFrameDefects f =
     (let ids = map sn_id (cf_scenarios f);
          foreign = filter (\<lambda>t. scenario_of f t = None) (cf_targets f);
          heldTargets = filter (\<lambda>t. case scenario_of f t of None \<Rightarrow> False | Some s \<Rightarrow> sn_heldOut s) (cf_targets f);
          held = length (filter sn_heldOut (cf_scenarios f))
      in (if distinct ids then [] else [Duplicate_scenarios])
       @ (if distinct (cf_targets f) then [] else [Duplicate_targets])
       @ (if foreign = [] then [] else [Foreign_targets foreign])
       @ (if heldTargets = [] then [] else [Held_out_targets heldTargets])
       @ (if held < 2 then [Few_held_out held] else [])
       @ (if cf_fdrAlpha f = None then [No_level] else [])
       @ (case cf_heldOutFamilySize f of
            None \<Rightarrow> [No_family]
          | Some n \<Rightarrow> if n < cf_maxRounds f then [Family_below_budget n (cf_maxRounds f)] else []))"

text \<open>The least p-value two arms of n trials can reach, as the product the code multiplies out.\<close>

definition equalArmFisherFloor :: "nat \<Rightarrow> rat" where
  "equalArmFisherFloor trials =
     (if trials < 1 then 1
      else min 1 (2 / fold (\<lambda>i central. central * ((of_nat trials + of_nat i) / of_nat i)) [1..<trials + 1] 1))"

definition unwinnableFrame :: "campaign_frame \<Rightarrow> bool" where
  "unwinnableFrame f \<longleftrightarrow>
     (case (cf_fdrAlpha f, cf_heldOutFamilySize f) of
        (Some alpha, Some family) \<Rightarrow>
          cf_trialsPerCase f < FISHER_MAX_TRIALS
          \<and> alpha / real family < of_rat (equalArmFisherFloor (cf_trialsPerCase f))
      | _ \<Rightarrow> False)"

subsection \<open>Rounds\<close>

datatype ni_status = Non_inferior | Inferior | Inconclusive

record ni_case =
  nc_caseId :: string
  nc_baselineTrials :: nat
  nc_candidateTrials :: nat
  nc_bounds :: "(real \<times> real) option"
  nc_status :: ni_status

record ni_result =
  nr_policyDigest :: string
  nr_status :: ni_status
  nr_cases :: "ni_case list"

record round_counts =
  ho_improvements :: nat
  ho_regressions :: nat

record exam_response =
  rs_solved :: "string list"
  rs_failed :: "string list"
  rs_scenarios :: nat

record unmeasured_cases =
  um_cases :: nat
  um_of :: nat

record target_answer =
  ta_improved :: "string list"
  ta_satisfied :: "string list option"
  ta_flipped :: "string list"
  ta_unflipped :: "string list"

record observation_counts =
  ob_divergent :: nat
  ob_unclear :: nat
  ob_assessed :: "nat option"
  ob_eligible :: "nat option"

record candidate_source =
  so_source :: string
  so_repo :: "string option"
  so_sha :: "string option"
  so_ref :: "string option"
  so_prNumber :: "int option"

text \<open>An axis the comparison could not verify; a comparison without an identity reading verifies none.\<close>

datatype axis_note = Axis experiment_axis | Identity_unavailable

record round_verdict =
  rv_comparable :: bool
  rv_improvements :: nat
  rv_regressions :: nat
  rv_heldOut :: "round_counts option"
  rv_response :: "exam_response option"
  rv_unmeasured :: "unmeasured_cases option"
  rv_seedLeak :: "string list option"
  rv_evaluationId :: "string option"
  rv_evidence :: "(string \<times> string) option"
  rv_targets :: "target_answer option"
  rv_specDigest :: "string option"
  rv_source :: "candidate_source option"
  rv_nonInferiority :: "ni_result option"
  rv_oracleReceipt :: "string option"
  rv_oracleTouched :: "string list option"
  rv_observations :: "observation_counts option"
  rv_unverifiedAxes :: "axis_note list"
  rv_confoundedAxes :: "experiment_axis list"

record campaign_round =
  rd_seq :: nat
  rd_hypothesis :: string
  rd_learned :: "string option"
  rd_informedBy :: "string list"
  rd_candidateVersion :: string
  rd_baselineScorecardId :: string
  rd_candidateScorecardId :: string
  rd_verdict :: round_verdict
  rd_at :: string
  rd_by :: string

subsection \<open>Non-inferiority\<close>

definition ni_radius :: "real \<Rightarrow> nat \<Rightarrow> nat \<Rightarrow> real" where
  "ni_radius logTail b c = sqrt (logTail / (2 * real b)) + sqrt (logTail / (2 * real c))"

definition ni_case_of :: "ni_policy \<Rightarrow> real \<Rightarrow> trial_delta list \<Rightarrow> string \<Rightarrow> ni_case" where
  "ni_case_of p logTail rows i =
     (let matches = filter (\<lambda>r. td_caseId r = i) rows;
          bt = (case matches of [] \<Rightarrow> 0 | r # _ \<Rightarrow> td_baselineTrials r);
          ct = (case matches of [] \<Rightarrow> 0 | r # _ \<Rightarrow> td_candidateTrials r)
      in (case matches of
            [r] \<Rightarrow>
              if bt < np_minimumTrials p \<or> ct < np_minimumTrials p
                \<or> \<not> (0 \<le> td_baselineRate r \<and> td_baselineRate r \<le> 1 \<and> 0 \<le> td_candidateRate r \<and> td_candidateRate r \<le> 1)
              then \<lparr>nc_caseId = i, nc_baselineTrials = bt, nc_candidateTrials = ct, nc_bounds = None, nc_status = Inconclusive\<rparr>
              else let radius = ni_radius logTail bt ct;
                       delta = of_rat (td_candidateRate r - td_baselineRate r);
                       lower = max (- 1) (delta - radius); upper = min 1 (delta + radius)
                   in \<lparr>nc_caseId = i, nc_baselineTrials = bt, nc_candidateTrials = ct, nc_bounds = Some (lower, upper),
                       nc_status = (if - np_margin p \<le> lower then Non_inferior
                         else if upper < - np_margin p then Inferior else Inconclusive)\<rparr>
          | _ \<Rightarrow> \<lparr>nc_caseId = i, nc_baselineTrials = bt, nc_candidateTrials = ct, nc_bounds = None, nc_status = Inconclusive\<rparr>))"

definition nonInferiorityOf ::
  "(ni_policy \<Rightarrow> string) \<Rightarrow> ni_policy \<Rightarrow> string list \<Rightarrow> nat \<Rightarrow> trial_delta list \<Rightarrow> ni_result" where
  "nonInferiorityOf ndig p heldOutIds familySize rows =
     (let logTail = ln (4 * real (max 1 (length heldOutIds)) * real (max 1 familySize) / np_alpha p);
          cases = map (ni_case_of p logTail rows) heldOutIds
      in \<lparr>nr_policyDigest = ndig p,
          nr_status = (if list_ex (\<lambda>c. nc_status c = Inferior) cases then Inferior
            else if cases \<noteq> [] \<and> list_all (\<lambda>c. nc_status c = Non_inferior) cases then Non_inferior else Inconclusive),
          nr_cases = cases\<rparr>)"

subsection \<open>What a campaign has spent\<close>

record arm =
  ar_scorecardId :: string
  ar_requestDigest :: string

record campaign_evaluation =
  ce_id :: string
  ce_familyId :: string
  ce_campaignId :: string
  ce_requestId :: string
  ce_candidateVersion :: string
  ce_createdAt :: string
  ce_baseline :: "arm option"
  ce_candidate :: "arm option"
  ce_reportedRound :: "nat option"

datatype arm_state = Arm_live | Arm_succeeded | Arm_lost | Arm_unknown

datatype attempt_standing = Reported nat | Outstanding | Lost

definition arm_is_lost :: "(string \<rightharpoonup> arm_state) \<Rightarrow> arm option \<Rightarrow> bool" where
  "arm_is_lost arms a =
     (case a of None \<Rightarrow> False | Some x \<Rightarrow> default_or Arm_unknown (arms (ar_scorecardId x)) = Arm_lost)"

definition attemptStandingOf :: "(string \<rightharpoonup> arm_state) \<Rightarrow> campaign_evaluation \<Rightarrow> attempt_standing" where
  "attemptStandingOf arms a =
     (case ce_reportedRound a of
        Some n \<Rightarrow> Reported n
      | None \<Rightarrow> if arm_is_lost arms (ce_baseline a) \<or> arm_is_lost arms (ce_candidate a) then Lost else Outstanding)"

record campaign_spend =
  cp_consumed :: nat
  cp_outstanding :: nat

definition roundsOnlySpend :: "campaign_round list \<Rightarrow> campaign_spend" where
  "roundsOnlySpend rounds = \<lparr>cp_consumed = length rounds, cp_outstanding = 0\<rparr>"

definition legacy_rounds :: "campaign_round list \<Rightarrow> nat" where
  "legacy_rounds rounds = length (filter (\<lambda>r. rv_evaluationId (rd_verdict r) = None) rounds)"

definition campaignSpendOf ::
  "campaign_round list \<Rightarrow> campaign_evaluation list \<Rightarrow> (string \<rightharpoonup> arm_state) \<Rightarrow> campaign_spend" where
  "campaignSpendOf rounds attempts arms =
     (let standings = map (attemptStandingOf arms) attempts
      in \<lparr>cp_consumed = length standings + legacy_rounds rounds,
          cp_outstanding = length (filter (\<lambda>s. s = Outstanding) standings)\<rparr>)"

subsection \<open>The adoption gate\<close>

definition ni_case_holds :: "ni_policy \<Rightarrow> string \<Rightarrow> ni_case \<Rightarrow> bool" where
  "ni_case_holds p i c \<longleftrightarrow>
     nc_caseId c = i \<and> nc_status c = Non_inferior
     \<and> (case nc_bounds c of None \<Rightarrow> False | Some (lower, upper) \<Rightarrow> - np_margin p \<le> lower \<and> lower \<le> upper)
     \<and> np_minimumTrials p \<le> nc_baselineTrials c \<and> np_minimumTrials p \<le> nc_candidateTrials c"

definition proves_non_inferiority :: "(ni_policy \<Rightarrow> string) \<Rightarrow> campaign_frame \<Rightarrow> ni_policy \<Rightarrow> round_verdict \<Rightarrow> bool" where
  "proves_non_inferiority ndig f p v \<longleftrightarrow>
     (case rv_nonInferiority v of
        None \<Rightarrow> False
      | Some proof_of \<Rightarrow>
          nr_status proof_of = Non_inferior \<and> nr_policyDigest proof_of = ndig p \<and> held_out_ids f \<noteq> []
          \<and> length (nr_cases proof_of) = length (held_out_ids f)
          \<and> list_all (\<lambda>i. list_ex (ni_case_holds p i) (nr_cases proof_of)) (held_out_ids f))"

definition observations_accepted :: "observation_policy \<Rightarrow> observation_counts option \<Rightarrow> bool" where
  "observations_accepted p obs \<longleftrightarrow>
     (case obs of
        None \<Rightarrow> True
      | Some ob \<Rightarrow>
          \<not> (0 < ob_divergent ob \<and> \<not> op_allowDivergent p)
          \<and> (case op_maxUnclear p of None \<Rightarrow> True | Some m \<Rightarrow> ob_unclear ob \<le> m))"

definition coverage_accepted :: "observation_policy \<Rightarrow> observation_counts option \<Rightarrow> bool" where
  "coverage_accepted p obs \<longleftrightarrow>
     (case op_minimumCoverage p of
        None \<Rightarrow> True
      | Some need \<Rightarrow>
          (case obs of
             None \<Rightarrow> False
           | Some ob \<Rightarrow>
               (case (ob_assessed ob, ob_eligible ob) of
                  (Some a, Some e) \<Rightarrow> e \<noteq> 0 \<and> \<not> of_nat a / of_nat e < need
                | _ \<Rightarrow> False)))"

definition targets_met :: "campaign_frame \<Rightarrow> target_answer option \<Rightarrow> bool" where
  "targets_met f t \<longleftrightarrow>
     (case t of
        None \<Rightarrow> False
      | Some a \<Rightarrow>
          (cf_minimumCandidateRate f \<noteq> None \<longrightarrow> set (cf_targets f) \<subseteq> set (default_or [] (ta_satisfied a)))
          \<and> set (cf_targets f) \<subseteq> set (ta_flipped a))"

definition winning :: "(ni_policy \<Rightarrow> string) \<Rightarrow> campaign_frame \<Rightarrow> campaign_round \<Rightarrow> bool" where
  "winning ndig f r \<longleftrightarrow>
     (let v = rd_verdict r in
      rv_comparable v
      \<and> (case cf_nonInferiority f of None \<Rightarrow> True | Some p \<Rightarrow> proves_non_inferiority ndig f p v)
      \<and> (case rv_heldOut v of
           None \<Rightarrow> False
         | Some held \<Rightarrow>
             observations_accepted (cf_observationPolicy f) (rv_observations v)
             \<and> coverage_accepted (cf_observationPolicy f) (rv_observations v)
             \<and> (if cf_targets f \<noteq> [] then targets_met f (rv_targets v) \<and> ho_regressions held = 0
                else 1 \<le> ho_improvements held \<and> ho_regressions held = 0)))"

definition neverSolvedAcross :: "campaign_frame \<Rightarrow> campaign_round list \<Rightarrow> string list option" where
  "neverSolvedAcross f rounds =
     (if rounds = [] \<or> list_ex (\<lambda>r. rv_response (rd_verdict r) = None) rounds then None
      else
        let solved = concat (map rs_solved (List.map_filter (\<lambda>r. rv_response (rd_verdict r)) rounds));
            never = filter (\<lambda>i. i \<notin> set solved) (map sn_id (cf_scenarios f))
        in if never = [] then None else Some never)"

datatype exam_inertness = Never_solved | No_headroom | Never_measured

definition examInertness :: "campaign_round list \<Rightarrow> exam_inertness option" where
  "examInertness rounds =
     (let levels = map (\<lambda>r. rv_response (rd_verdict r)) rounds;
          silent = map (\<lambda>r. rv_unmeasured (rd_verdict r)) rounds;
          said = List.map_filter id levels
      in if rounds = [] then None
         else if list_ex (\<lambda>r. rv_response (rd_verdict r) = None \<and> rv_unmeasured (rd_verdict r) = None) rounds then None
         else if list_all (\<lambda>u. case u of None \<Rightarrow> False | Some x \<Rightarrow> 0 < um_cases x) silent then Some Never_measured
         else if list_ex (\<lambda>l. l = None) levels then None
         else if list_all (\<lambda>l. rs_solved l = []) said then Some Never_solved
         else if list_all (\<lambda>l. rs_failed l = []) said then Some No_headroom
         else None)"

datatype stop_reason = No_improvement | Budget_exhausted

record campaign_stop =
  st_reason :: stop_reason
  st_atRound :: nat

text \<open>The loop over the rounds, at round index i with so many rejections in a row before it.\<close>

fun stop_walk :: "(campaign_round \<Rightarrow> bool) \<Rightarrow> campaign_frame \<Rightarrow> nat \<Rightarrow> nat \<Rightarrow> campaign_round list \<Rightarrow> campaign_stop option" where
  "stop_walk won f i rejected [] = None"
| "stop_walk won f i rejected (r # rs) =
     (let rejected = (if won r then 0 else rejected + 1) in
      if cf_stopAfterRejectedRounds f \<le> rejected then Some \<lparr>st_reason = No_improvement, st_atRound = i + 1\<rparr>
      else if cf_maxRounds f \<le> i + 1 \<and> \<not> won r then Some \<lparr>st_reason = Budget_exhausted, st_atRound = i + 1\<rparr>
      else stop_walk won f (i + 1) rejected rs)"

definition latest_wins :: "(campaign_round \<Rightarrow> bool) \<Rightarrow> campaign_round list \<Rightarrow> bool" where
  "latest_wins won rounds \<longleftrightarrow> rounds \<noteq> [] \<and> won (last rounds)"

definition campaignStoppedAt ::
  "(ni_policy \<Rightarrow> string) \<Rightarrow> campaign_frame \<Rightarrow> campaign_round list \<Rightarrow> campaign_spend \<Rightarrow> campaign_stop option" where
  "campaignStoppedAt ndig f rounds spend =
     (case stop_walk (winning ndig f) f 0 0 rounds of
        Some stop \<Rightarrow> Some stop
      | None \<Rightarrow>
          if cf_maxRounds f \<le> cp_consumed spend \<and> cp_outstanding spend = 0 \<and> \<not> latest_wins (winning ndig f) rounds
          then Some \<lparr>st_reason = Budget_exhausted, st_atRound = length rounds\<rparr> else None)"

definition campaignRoundRefusal ::
  "(ni_policy \<Rightarrow> string) \<Rightarrow> campaign_frame \<Rightarrow> campaign_round list \<Rightarrow> campaign_spend \<Rightarrow> campaign_stop option" where
  "campaignRoundRefusal ndig f rounds spend =
     (case campaignStoppedAt ndig f rounds spend of
        Some stop \<Rightarrow> Some stop
      | None \<Rightarrow>
          if cf_maxRounds f \<le> length rounds then Some \<lparr>st_reason = Budget_exhausted, st_atRound = length rounds\<rparr> else None)"

record adoption =
  ad_version :: string
  ad_provingScorecardId :: string
  ad_waivedAxes :: "axis_note list"
  ad_specDigest :: "string option"
  ad_source :: "candidate_source option"

datatype halt_reason = Halt_no_improvement | Halt_budget_exhausted | Halt_identity_unverified | Halt_exam_inert

datatype campaign_decision = Adopt adoption | Continue_campaign nat nat | Halt halt_reason

record campaign_answer =
  an_decision :: campaign_decision
  an_neverSolved :: "string list option"

definition stop_halt :: "stop_reason \<Rightarrow> halt_reason" where
  "stop_halt s = (case s of No_improvement \<Rightarrow> Halt_no_improvement | Budget_exhausted \<Rightarrow> Halt_budget_exhausted)"

definition adopt_latest :: "campaign_frame \<Rightarrow> campaign_round \<Rightarrow> campaign_decision" where
  "adopt_latest f r =
     (let v = rd_verdict r in
      if rv_unverifiedAxes v \<noteq> [] \<and> \<not> cf_allowUnverifiedIdentity f then Halt Halt_identity_unverified
      else if rv_specDigest v = None \<and> \<not> cf_allowLabelOnlyAdoption f then Halt Halt_identity_unverified
      else Adopt \<lparr>ad_version = rd_candidateVersion r, ad_provingScorecardId = rd_candidateScorecardId r,
             ad_waivedAxes = (if cf_allowUnverifiedIdentity f then rv_unverifiedAxes v else []),
             ad_specDigest = rv_specDigest v, ad_source = rv_source v\<rparr>)"

definition decideAdoption ::
  "(ni_policy \<Rightarrow> string) \<Rightarrow> campaign_frame \<Rightarrow> campaign_round list \<Rightarrow> campaign_spend \<Rightarrow> campaign_decision" where
  "decideAdoption ndig f rounds spend =
     (case campaignStoppedAt ndig f rounds spend of
        Some stop \<Rightarrow> Halt (if examInertness rounds \<noteq> None then Halt_exam_inert else stop_halt (st_reason stop))
      | None \<Rightarrow>
          if cf_maxRounds f < length rounds then Halt Halt_budget_exhausted
          else if latest_wins (winning ndig f) rounds then adopt_latest f (last rounds)
          else Continue_campaign (cf_maxRounds f - max (cp_consumed spend) (length rounds))
                 (length (takeWhile (\<lambda>r. \<not> winning ndig f r) (rev rounds))))"

definition campaignAdoption ::
  "(ni_policy \<Rightarrow> string) \<Rightarrow> campaign_frame \<Rightarrow> campaign_round list \<Rightarrow> campaign_spend \<Rightarrow> campaign_answer" where
  "campaignAdoption ndig f rounds spend =
     \<lparr>an_decision = decideAdoption ndig f rounds spend, an_neverSolved = neverSolvedAcross f rounds\<rparr>"

end
