(* ===== verification/CampaignVerdict.thy ===== *)
theory CampaignVerdict
  imports Campaign
begin

text \<open>
  The verdict of a round: what packages/application-control/src/evolution/campaign-service.ts reads off the comparison of
  its two scorecards (\<open>verdictOf\<close>, \<open>observationsOf\<close>, \<open>evaluatedSubjectOf\<close>) and the level it asks the comparison to use.

  The outcome of the oracle check, of the seed check and the coordinates of a build Everdict made itself are arguments:
  they come from the source host and from other stores.
\<close>

subsection \<open>The compared sides\<close>

datatype observation_status = Consistent | Divergent | Unclear

text \<open>A row of a side: its case and its scores, each with the assessment a judge attached to it.\<close>

record side_row =
  sr_caseId :: string
  sr_scores :: "(score \<times> observation_status option) list"

record campaign_side =
  si_harnessId :: string
  si_harnessVersion :: string
  si_orchestrationJudges :: "string list option"
  si_scoringJudges :: "string list list option"
  si_results :: "side_row list option"
  si_specDigest :: "string option"
  si_environments :: "(string \<times> string option) list"
  si_origin :: "candidate_source option"

record subject_identity =
  ei_version :: string
  ei_digest :: "string option"

definition evaluatedSubjectOf :: "campaign_side \<Rightarrow> campaign_subject \<Rightarrow> subject_identity res" where
  "evaluatedSubjectOf side subject =
     (if su_type subject \<noteq> Environment_subject
      then Inr \<lparr>ei_version = si_harnessVersion side, ei_digest = si_specDigest side\<rparr>
      else
        let entries = filter (\<lambda>e. startsWith (fst e) (su_id subject @ ''@'')) (si_environments side)
        in (case entries of
              [] \<Rightarrow> Inl (Conflict ''CONFLICT'' ''the evaluated environment seal is missing or inconsistent'')
            | e # _ \<Rightarrow>
                if list_all (\<lambda>e'. fst e' = fst e) entries \<and> list_all (\<lambda>e'. snd e' = snd e) entries
                then Inr \<lparr>ei_version = drop (length (su_id subject) + 1) (fst e), ei_digest = snd e\<rparr>
                else Inl (Conflict ''CONFLICT'' ''the evaluated environment seal is missing or inconsistent'')))"

definition judge_rows :: "side_row list \<Rightarrow> observation_status option list" where
  "judge_rows rows =
     map snd (filter (\<lambda>(s, a). isMeasured s \<and> isJudgeFamilyMetric (metric s)) (concat (map sr_scores rows)))"

definition observationsOf :: "campaign_side \<Rightarrow> observation_counts option" where
  "observationsOf side =
     map_option (\<lambda>rows. let seen = judge_rows rows in
       \<lparr>ob_divergent = length (filter (\<lambda>a. a = Some Divergent) seen), ob_unclear = length (filter (\<lambda>a. a = Some Unclear) seen),
        ob_assessed = Some (length (filter (\<lambda>a. a \<noteq> None) seen)), ob_eligible = Some (length seen)\<rparr>)
     (si_results side)"

text \<open>The judges of the last scoring pass, and those of the submission for a record without one.\<close>

definition judges_of :: "campaign_side \<Rightarrow> string list" where
  "judges_of side =
     sort_by code_unit_cmp
       (case si_scoringJudges side of
          Some (p # ps) \<Rightarrow> last (p # ps)
        | _ \<Rightarrow> default_or [] (si_orchestrationJudges side))"

subsection \<open>The checks outside the comparison\<close>

datatype oracle_check = Oracle_clean string | Oracle_touched string "string list" | Oracle_unverifiable

datatype seed_check = Seeds_clean | Seed_leak "string list" | Seeds_unverifiable

definition oracle_receipt :: "oracle_check option \<Rightarrow> string option" where
  "oracle_receipt oracle =
     (case oracle of Some (Oracle_clean r) \<Rightarrow> Some r | Some (Oracle_touched r _) \<Rightarrow> Some r | _ \<Rightarrow> None)"

subsection \<open>The axes of the comparison\<close>

definition unverified_axes :: "gate_input \<Rightarrow> axis_note list" where
  "unverified_axes g = (case gi_experiment g of None \<Rightarrow> [Identity_unavailable] | Some x \<Rightarrow> map Axis (ex_unverified x))"

definition confounded_axes :: "campaign_frame \<Rightarrow> gate_input \<Rightarrow> experiment_axis list" where
  "confounded_axes f g =
     (case gi_experiment g of
        None \<Rightarrow> []
      | Some x \<Rightarrow>
          filter (\<lambda>a. \<not> (su_type (cf_subject f) = Environment_subject \<and> a = Environment_axis)) (ex_confounds x))"

subsection \<open>Conformance to the frame\<close>

definition off_frame :: "campaign_frame \<Rightarrow> trial_delta list \<Rightarrow> bool" where
  "off_frame f cases \<longleftrightarrow> td_caseId ` set cases \<noteq> set (map sn_id (cf_scenarios f))"

definition thin_cases :: "campaign_frame \<Rightarrow> trial_delta list \<Rightarrow> trial_delta list" where
  "thin_cases f cases =
     filter (\<lambda>c. td_baselineTrials c < cf_trialsPerCase f \<or> td_candidateTrials c < cf_trialsPerCase f) cases"

definition rows_of_case :: "side_row list \<Rightarrow> string \<Rightarrow> nat" where
  "rows_of_case rows i = length (filter (\<lambda>r. sr_caseId r = i) rows)"

text \<open>A thin case whose rows ran but were not scored: the graders could not answer.\<close>

definition could_not_answer :: "campaign_frame \<Rightarrow> side_row list \<Rightarrow> side_row list \<Rightarrow> trial_delta \<Rightarrow> bool" where
  "could_not_answer f b c d \<longleftrightarrow>
     cf_trialsPerCase f \<le> rows_of_case b (td_caseId d) \<and> td_baselineTrials d < cf_trialsPerCase f
     \<or> cf_trialsPerCase f \<le> rows_of_case c (td_caseId d) \<and> td_candidateTrials d < cf_trialsPerCase f"

definition unmeasured_of ::
  "campaign_frame \<Rightarrow> campaign_side \<Rightarrow> campaign_side \<Rightarrow> trial_delta list \<Rightarrow> unmeasured_cases option" where
  "unmeasured_of f b c cases =
     (case (si_results b, si_results c) of
        (Some bs, Some cs) \<Rightarrow>
          (let n = length (filter (could_not_answer f bs cs) (thin_cases f cases))
           in if 0 < n then Some \<lparr>um_cases = n, um_of = length cases\<rparr> else None)
      | _ \<Rightarrow> None)"

definition judges_differ :: "campaign_frame \<Rightarrow> campaign_side \<Rightarrow> campaign_side \<Rightarrow> bool" where
  "judges_differ f b c \<longleftrightarrow>
     cf_judges f \<noteq> []
     \<and> (join_with (CHR '','') (judges_of b) \<noteq> join_with (CHR '','') (sort_by code_unit_cmp (cf_judges f))
        \<or> join_with (CHR '','') (judges_of c) \<noteq> join_with (CHR '','') (sort_by code_unit_cmp (cf_judges f)))"

definition same_treatment :: "campaign_frame \<Rightarrow> subject_identity \<Rightarrow> subject_identity \<Rightarrow> bool" where
  "same_treatment f b c \<longleftrightarrow>
     su_type (cf_subject f) = Harness_subject \<and> ei_digest b \<noteq> None \<and> ei_digest b = ei_digest c"

subsection \<open>The verdict\<close>

definition counts_of :: "trial_delta list \<Rightarrow> round_counts" where
  "counts_of cases =
     \<lparr>ho_improvements = length (filter (\<lambda>c. 0 < td_delta c) cases), ho_regressions = length (filter (\<lambda>c. td_delta c < 0) cases)\<rparr>"

definition targets_of :: "campaign_frame \<Rightarrow> trial_delta list \<Rightarrow> target_answer option" where
  "targets_of f cases =
     (if cf_targets f = [] then None
      else
        let improved = map td_caseId (filter (\<lambda>c. td_significant c \<and> 0 < td_delta c) cases);
            satisfied = (case cf_minimumCandidateRate f of None \<Rightarrow> []
              | Some m \<Rightarrow> map td_caseId (filter (\<lambda>c. m \<le> td_candidateRate c) cases));
            accepted = (if cf_minimumCandidateRate f = None then improved else filter (\<lambda>i. i \<in> set satisfied) improved)
        in Some \<lparr>ta_improved = filter (\<lambda>i. i \<in> set improved) (cf_targets f),
             ta_satisfied = (if cf_minimumCandidateRate f = None then None
               else Some (filter (\<lambda>i. i \<in> set satisfied) (cf_targets f))),
             ta_flipped = filter (\<lambda>i. i \<in> set accepted) (cf_targets f),
             ta_unflipped = filter (\<lambda>i. i \<notin> set accepted) (cf_targets f)\<rparr>)"

definition response_of :: "trial_delta list \<Rightarrow> exam_response" where
  "response_of cases =
     \<lparr>rs_solved = map td_caseId (filter (\<lambda>c. 0 < td_baselineRate c \<or> 0 < td_candidateRate c) cases),
      rs_failed = map td_caseId (filter (\<lambda>c. td_baselineRate c < 1 \<or> td_candidateRate c < 1) cases),
      rs_scenarios = length cases\<rparr>"

definition rejected_verdict ::
  "campaign_frame \<Rightarrow> gate_input \<Rightarrow> oracle_check option \<Rightarrow> candidate_source option \<Rightarrow> round_verdict" where
  "rejected_verdict f g oracle source =
     \<lparr>rv_comparable = False, rv_improvements = 0, rv_regressions = 0, rv_heldOut = None, rv_response = None,
      rv_unmeasured = None, rv_seedLeak = None, rv_evaluationId = None, rv_evidence = None, rv_targets = None,
      rv_specDigest = None, rv_source = source, rv_nonInferiority = None, rv_oracleReceipt = oracle_receipt oracle,
      rv_oracleTouched = None, rv_observations = None, rv_unverifiedAxes = unverified_axes g,
      rv_confoundedAxes = confounded_axes f g\<rparr>"

definition comparable_verdict ::
  "(ni_policy \<Rightarrow> string) \<Rightarrow> campaign_frame \<Rightarrow> gate_input \<Rightarrow> oracle_check option \<Rightarrow> candidate_source option \<Rightarrow> nat
    \<Rightarrow> subject_identity \<Rightarrow> campaign_side \<Rightarrow> trial_delta list \<Rightarrow> round_verdict" where
  "comparable_verdict ndig f g oracle source family candidate side cases =
     (let significant = filter td_significant cases; all_counts = counts_of significant in
      (rejected_verdict f g oracle source)
        \<lparr>rv_comparable := True, rv_response := Some (response_of cases),
         rv_nonInferiority := map_option (\<lambda>p. nonInferiorityOf ndig p (firsts (held_out_ids f)) family cases) (cf_nonInferiority f),
         rv_improvements := ho_improvements all_counts, rv_regressions := ho_regressions all_counts,
         rv_heldOut := Some (counts_of (filter (\<lambda>c. td_caseId c \<in> set (held_out_ids f)) significant)),
         rv_targets := targets_of f cases, rv_specDigest := ei_digest candidate, rv_observations := observationsOf side\<rparr>)"

definition verdictOf ::
  "(ni_policy \<Rightarrow> string) \<Rightarrow> gate_input \<Rightarrow> campaign_side \<times> campaign_side \<Rightarrow> campaign_frame
    \<Rightarrow> oracle_check option \<Rightarrow> candidate_source option \<Rightarrow> seed_check \<Rightarrow> subject_identity \<Rightarrow> subject_identity \<Rightarrow> nat
    \<Rightarrow> round_verdict" where
  "verdictOf ndig g sides f oracle built seeds baseline candidate family =
     (let source = (case built of Some s \<Rightarrow> Some s | None \<Rightarrow> si_origin (snd sides));
          rejected = rejected_verdict f g oracle source
      in if df_comparability (gi_diff g) = No_comparison then rejected
         else if confounded_axes f g \<noteq> [] then rejected
         else (case seeds of
             Seed_leak ids \<Rightarrow> rejected\<lparr>rv_seedLeak := Some ids\<rparr>
           | Seeds_unverifiable \<Rightarrow> rejected
           | Seeds_clean \<Rightarrow>
         (case oracle of
             Some (Oracle_touched r paths) \<Rightarrow> rejected\<lparr>rv_oracleTouched := Some paths\<rparr>
           | Some Oracle_unverifiable \<Rightarrow> rejected
           | _ \<Rightarrow>
         (case gi_trials g of
             None \<Rightarrow> rejected
           | Some t \<Rightarrow>
               if off_frame f (tf_cases t) then rejected
               else if thin_cases f (tf_cases t) \<noteq> []
               then rejected\<lparr>rv_unmeasured := unmeasured_of f (fst sides) (snd sides) (tf_cases t)\<rparr>
               else if judges_differ f (fst sides) (snd sides) then rejected
               else if same_treatment f baseline candidate then rejected
               else comparable_verdict ndig f g oracle source family candidate (snd sides) (tf_cases t)))))"

subsection \<open>The comparison a round asks for\<close>

text \<open>The level the frame registered over the number of tests it registered.\<close>

definition round_opts :: "campaign_frame \<Rightarrow> real \<Rightarrow> nat \<Rightarrow> trial_opts" where
  "round_opts f alpha family = \<lparr>to_zThreshold = None, to_minDelta = cf_minDelta f, to_fdrAlpha = Some (alpha / real family)\<rparr>"

text \<open>What the two scorecards evaluated must be what the round declares and what the frame froze.\<close>

abbreviation mislabeled :: "string \<Rightarrow> 'a res" where
  "mislabeled what \<equiv> Inl (BadRequest ''BAD_REQUEST'' what)"

definition checked_subjects ::
  "campaign_frame \<Rightarrow> string \<Rightarrow> campaign_side \<Rightarrow> campaign_side \<Rightarrow> (subject_identity \<times> subject_identity) res" where
  "checked_subjects f version b c =
     (let su = cf_subject f; expected = (if su_type su = Harness_subject then su_id su else ''agent:'' @ su_id su) in
      bind_res (evaluatedSubjectOf b su) (\<lambda>bi. bind_res (evaluatedSubjectOf c su) (\<lambda>ci.
        if su_type su = Environment_subject then
          if ei_version ci \<noteq> version then mislabeled ''the candidate scorecard ran another version''
          else if ei_version bi \<noteq> su_baselineVersion su then mislabeled ''the baseline scorecard ran another version''
          else if si_harnessId b \<noteq> si_harnessId c \<or> si_harnessVersion b \<noteq> si_harnessVersion c
            \<or> si_specDigest b \<noteq> None \<and> si_specDigest c \<noteq> None \<and> si_specDigest b \<noteq> si_specDigest c
          then mislabeled ''an environment campaign holds the harness constant''
          else Inr (bi, ci)
        else if si_harnessId c \<noteq> expected \<or> si_harnessId b \<noteq> expected then mislabeled ''the compared scorecards evaluated another subject''
        else if si_harnessVersion c \<noteq> version then mislabeled ''the candidate scorecard evaluated another version''
        else if si_harnessVersion b \<noteq> su_baselineVersion su then mislabeled ''the baseline scorecard evaluated another version''
        else Inr (bi, ci))))"

end
