(* ===== verification/CampaignStore.thy ===== *)
theory CampaignStore
  imports CampaignVerdict
begin

text \<open>
  Campaigns of one workspace: the records of packages/contracts/src/records/evolution-campaign.ts, the in-memory store of
  packages/db/src/evolution/campaign-store.ts, the experiment families of packages/db/src/evolution/experiment-family.ts
  and the calls of packages/application-control/src/evolution/campaign-service.ts that open, log, settle and pay.

  A call that reads and later writes is a task of two steps, and other calls may run in between. The lookups of a call in
  other stores (the comparison, the batches, the checks of the candidate) are its arguments. A store holds the rows of
  one workspace; to another one they read as missing.
\<close>

subsection \<open>Records\<close>

datatype campaign_state = Open_campaign | Adopted_campaign | No_improvement_campaign | Budget_exhausted_campaign
  | Exam_inert_campaign

datatype close_outcome = Closed_adopted adoption | Closed_halted halt_reason

record campaign_record =
  ca_id :: string
  ca_issueId :: string
  ca_frame :: campaign_frame
  ca_frameDigest :: string
  ca_rounds :: "campaign_round list"
  ca_state :: campaign_state
  ca_close :: "close_outcome option"
  ca_createdBy :: string
  ca_createdAt :: string

record experiment_family =
  fm_id :: string
  fm_limit :: nat
  fm_consumed :: nat

record adoption_proof =
  pf_campaignId :: string
  pf_frameDigest :: string
  pf_roundSeq :: nat
  pf_exact :: bool
  pf_type :: subject_type
  pf_subjectId :: string
  pf_version :: string
  pf_specDigest :: "string option"
  pf_provingScorecardId :: string
  pf_source :: "candidate_source option"
  pf_issueId :: string
  pf_gateDigest :: string

datatype code_state = Code_owed | Code_merged string string

record code_debt =
  cd_repo :: string
  cd_prNumber :: int
  cd_sha :: "string option"
  cd_state :: code_state

datatype operation_state = Op_decided | Op_registered | Op_completed

record adoption_operation =
  op_proof :: adoption_proof
  op_state :: operation_state
  op_code :: "code_debt option"
  op_registeredVersion :: "string option"

record campaign_store =
  wk_campaigns :: "campaign_record list"
  wk_families :: "string \<rightharpoonup> experiment_family"
  wk_evaluations :: "campaign_evaluation list"
  wk_adoptions :: "string \<rightharpoonup> adoption_operation"

definition new_campaign_store :: campaign_store where
  "new_campaign_store = \<lparr>wk_campaigns = [], wk_families = Map.empty, wk_evaluations = [], wk_adoptions = Map.empty\<rparr>"

definition find_campaign :: "string \<Rightarrow> campaign_record list \<Rightarrow> campaign_record option" where
  "find_campaign i rs = find (\<lambda>r. ca_id r = i) rs"

definition put_campaign :: "campaign_record \<Rightarrow> campaign_record list \<Rightarrow> campaign_record list" where
  "put_campaign r rs = map (\<lambda>q. if ca_id q = ca_id r then r else q) rs"

definition attempts_of :: "string \<Rightarrow> campaign_evaluation list \<Rightarrow> campaign_evaluation list" where
  "attempts_of i as = filter (\<lambda>a. ce_campaignId a = i) as"

abbreviation conflicting :: "string \<Rightarrow> 'a res" where
  "conflicting what \<equiv> Inl (Conflict ''CONFLICT'' what)"

subsection \<open>Families\<close>

function walk_to_root :: "campaign_record list \<Rightarrow> string list \<Rightarrow> string \<Rightarrow> campaign_record res" where
  "walk_to_root rs seen i =
     (if i \<in> set seen then conflicting ''cyclic experiment family''
      else (case find_campaign i rs of
              None \<Rightarrow> conflicting ''experiment family predecessor is missing''
            | Some r \<Rightarrow> (case cf_continues (ca_frame r) of None \<Rightarrow> Inr r | Some p \<Rightarrow> walk_to_root rs (i # seen) p)))"
  by pat_completeness auto

termination
proof (relation "measure (\<lambda>(rs, seen, i). card (ca_id ` set rs - set seen))", goal_cases)
  case (2 rs seen i r p)
  then have "i \<in> ca_id ` set rs - set seen" by (auto simp: find_campaign_def find_Some_iff)
  then have "ca_id ` set rs - set (i # seen) \<subset> ca_id ` set rs - set seen" by auto
  then show ?case by (simp add: psubset_card_mono)
qed simp

declare walk_to_root.simps [simp del]

definition continues_one_of :: "string list \<Rightarrow> campaign_record \<Rightarrow> bool" where
  "continues_one_of ids r \<longleftrightarrow> (case cf_continues (ca_frame r) of None \<Rightarrow> False | Some p \<Rightarrow> p \<in> set ids)"

definition grow_pass :: "campaign_record list \<Rightarrow> string list \<Rightarrow> string list" where
  "grow_pass rs ids =
     fold (\<lambda>r ids. if continues_one_of ids r \<and> ca_id r \<notin> set ids then ca_id r # ids else ids) rs ids"

lemma grow_pass_shape:
  "(\<exists>xs. grow_pass rs ids = xs @ ids \<and> set xs \<subseteq> ca_id ` set rs \<and> set xs \<inter> set ids = {} \<and> distinct xs)"
proof (induction rs arbitrary: ids)
  case (Cons r rs)
  let ?ids = "if continues_one_of ids r \<and> ca_id r \<notin> set ids then ca_id r # ids else ids"
  obtain xs where "grow_pass rs ?ids = xs @ ?ids" "set xs \<subseteq> ca_id ` set rs" "set xs \<inter> set ?ids = {}" "distinct xs"
    using Cons by blast
  then show ?case
    by (intro exI [of _ "if continues_one_of ids r \<and> ca_id r \<notin> set ids then xs @ [ca_id r] else xs"])
      (auto simp: grow_pass_def split: if_splits)
qed (simp add: grow_pass_def)

function grow_family :: "campaign_record list \<Rightarrow> string list \<Rightarrow> string list" where
  "grow_family rs ids = (if grow_pass rs ids = ids then ids else grow_family rs (grow_pass rs ids))"
  by pat_completeness auto

termination
proof (relation "measure (\<lambda>(rs, ids). card (ca_id ` set rs - set ids))", goal_cases)
  case (2 rs ids)
  obtain xs where xs: "grow_pass rs ids = xs @ ids" "set xs \<subseteq> ca_id ` set rs" "set xs \<inter> set ids = {}"
    using grow_pass_shape by blast
  then have "xs \<noteq> []" using 2 by auto
  then obtain x where "x \<in> set xs" by (cases xs) auto
  then have "ca_id ` set rs - set (grow_pass rs ids) \<subset> ca_id ` set rs - set ids" using xs by auto
  then show ?case by (simp add: psubset_card_mono)
qed simp

declare grow_family.simps [simp del]

definition in_family :: "campaign_record list \<Rightarrow> string \<Rightarrow> campaign_record list" where
  "in_family rs base = filter (\<lambda>r. ca_id r \<in> set (grow_family rs [base])) rs"

definition familyMembers :: "string \<Rightarrow> campaign_record list \<Rightarrow> (campaign_record \<times> campaign_record list) res" where
  "familyMembers i rs =
     (if find_campaign i rs = None then conflicting ''campaign does not exist''
      else bind_res (walk_to_root rs [] i) (\<lambda>base. Inr (base, in_family rs (ca_id base))))"

text \<open>What a campaign holds of the budget of its family: all of it while it is open, what it spent afterwards.\<close>

definition allocation :: "campaign_evaluation list \<Rightarrow> campaign_record \<Rightarrow> nat" where
  "allocation as r =
     (if ca_state r = Open_campaign then cf_maxRounds (ca_frame r)
      else legacy_rounds (ca_rounds r) + length (attempts_of (ca_id r) as))"

definition assertFamilyCapacity :: "campaign_record \<Rightarrow> campaign_record list \<Rightarrow> campaign_evaluation list \<Rightarrow> unit res" where
  "assertFamilyCapacity r rs as =
     (case cf_continues (ca_frame r) of
        None \<Rightarrow> Inr ()
      | Some p \<Rightarrow> bind_res (walk_to_root rs [] p) (\<lambda>base.
          (case cf_heldOutFamilySize (ca_frame base) of
             None \<Rightarrow> conflicting ''experiment family root declares no held-out family size''
           | Some limit \<Rightarrow>
               let reserved = sum_list (map (allocation as) (in_family rs (ca_id base)))
               in if cf_heldOutFamilySize (ca_frame r) \<noteq> Some limit \<or> limit < reserved + cf_maxRounds (ca_frame r)
                  then conflicting ''experiment family has insufficient unreserved held-out budget''
                  else Inr ())))"

definition create_campaign :: "campaign_record \<Rightarrow> campaign_store \<Rightarrow> campaign_store res" where
  "create_campaign r w =
     (if find_campaign (ca_id r) (wk_campaigns w) \<noteq> None then Inl (Internal ''INTERNAL'' ''campaign already exists'')
      else bind_res (assertFamilyCapacity r (wk_campaigns w) (wk_evaluations w)) (\<lambda>_.
        Inr (w\<lparr>wk_campaigns := wk_campaigns w @ [r]\<rparr>)))"

subsection \<open>Reservations\<close>

datatype campaign_arm = Baseline_arm | Candidate_arm

record evaluation_request =
  ask_campaignId :: string
  ask_requestId :: string
  ask_candidateVersion :: string
  ask_side :: campaign_arm
  ask_scorecardId :: string
  ask_requestDigest :: string
  ask_at :: string
  ask_caseIds :: "string list"
  ask_trials :: nat

definition arm_of :: "campaign_arm \<Rightarrow> campaign_evaluation \<Rightarrow> arm option" where
  "arm_of side a = (case side of Baseline_arm \<Rightarrow> ce_baseline a | Candidate_arm \<Rightarrow> ce_candidate a)"

definition bind_arm :: "campaign_arm \<Rightarrow> arm \<Rightarrow> campaign_evaluation \<Rightarrow> campaign_evaluation" where
  "bind_arm side x a = (case side of Baseline_arm \<Rightarrow> a\<lparr>ce_baseline := Some x\<rparr> | Candidate_arm \<Rightarrow> a\<lparr>ce_candidate := Some x\<rparr>)"

definition binds_scorecard :: "string \<Rightarrow> campaign_evaluation \<Rightarrow> bool" where
  "binds_scorecard i a \<longleftrightarrow>
     map_option ar_scorecardId (ce_baseline a) = Some i \<or> map_option ar_scorecardId (ce_candidate a) = Some i"

definition find_evaluation :: "string \<Rightarrow> campaign_evaluation list \<Rightarrow> campaign_evaluation option" where
  "find_evaluation i as = find (\<lambda>a. ce_id a = i) as"

definition put_evaluation :: "campaign_evaluation \<Rightarrow> campaign_evaluation list \<Rightarrow> campaign_evaluation list" where
  "put_evaluation a as =
     (if find_evaluation (ce_id a) as = None then as @ [a] else map (\<lambda>b. if ce_id b = ce_id a then a else b) as)"

text \<open>\<open>experimentFamilyLimit\<close> at this door: a root that registered no family is its own.\<close>

definition family_limit :: "campaign_frame \<Rightarrow> nat" where
  "family_limit base = default_or (cf_maxRounds base) (cf_heldOutFamilySize base)"

definition current_family ::
  "(string \<rightharpoonup> experiment_family) \<Rightarrow> campaign_record \<Rightarrow> campaign_record list \<Rightarrow> experiment_family" where
  "current_family families base members =
     (case families (ca_id base) of
        Some fam \<Rightarrow> fam
      | None \<Rightarrow> \<lparr>fm_id = ca_id base, fm_limit = family_limit (ca_frame base),
          fm_consumed = sum_list (map (\<lambda>r. legacy_rounds (ca_rounds r)) members)\<rparr>)"

record reservation =
  rn_family :: experiment_family
  rn_evaluation :: campaign_evaluation
  rn_replay :: bool
  rn_scorecardId :: string

definition fresh_evaluation :: "string \<Rightarrow> string \<Rightarrow> evaluation_request \<Rightarrow> campaign_evaluation" where
  "fresh_evaluation i base ask =
     \<lparr>ce_id = i, ce_familyId = base, ce_campaignId = ask_campaignId ask, ce_requestId = ask_requestId ask,
      ce_candidateVersion = ask_candidateVersion ask, ce_createdAt = ask_at ask, ce_baseline = None, ce_candidate = None,
      ce_reportedRound = None\<rparr>"

definition reserveInFamily ::
  "(ni_policy \<Rightarrow> string) \<Rightarrow> (string \<Rightarrow> string \<Rightarrow> string) \<Rightarrow> evaluation_request \<Rightarrow> campaign_record list
    \<Rightarrow> (string \<rightharpoonup> experiment_family) \<Rightarrow> campaign_evaluation list \<Rightarrow> reservation res" where
  "reserveInFamily ndig edig ask rs families as =
     (case find_campaign (ask_campaignId ask) rs of
        None \<Rightarrow> conflicting ''campaign does not exist''
      | Some campaign \<Rightarrow> bind_res (familyMembers (ca_id campaign) rs) (\<lambda>(base, members).
          let i = edig (ca_id campaign) (ask_requestId ask);
              old = find_evaluation i as;
              current = current_family families base members;
              binding = (case old of None \<Rightarrow> None | Some a \<Rightarrow> arm_of (ask_side ask) a);
              own = campaignSpendOf (ca_rounds campaign) (attempts_of (ca_id campaign) as) Map.empty
          in if (case old of None \<Rightarrow> False | Some a \<Rightarrow> ce_candidateVersion a \<noteq> ask_candidateVersion ask)
             then conflicting ''evaluation request id belongs to another candidate''
             else (case (old, binding) of
               (Some a, Some x) \<Rightarrow>
                 if ar_requestDigest x \<noteq> ask_requestDigest ask
                 then conflicting ''evaluation request id was reused with different submission bytes''
                 else Inr \<lparr>rn_family = current, rn_evaluation = a, rn_replay = True, rn_scorecardId = ar_scorecardId x\<rparr>
             | _ \<Rightarrow>
                 if list_ex (binds_scorecard (ask_scorecardId ask)) as
                 then conflicting ''a scorecard is already bound to an evaluation''
                 else if ca_state campaign \<noteq> Open_campaign \<or> (case old of None \<Rightarrow> False | Some a \<Rightarrow> ce_reportedRound a \<noteq> None)
                 then conflicting ''campaign or evaluation is already settled''
                 else if campaignRoundRefusal ndig (ca_frame campaign) (ca_rounds campaign) own \<noteq> None
                 then conflicting ''the campaign ended by its own rule''
                 else if mset (ask_caseIds ask) \<noteq> mset (map sn_id (cf_scenarios (ca_frame campaign)))
                   \<or> ask_trials ask \<noteq> cf_trialsPerCase (ca_frame campaign)
                 then conflicting ''a campaign evaluation must request exactly its frozen scenarios and trials''
                 else if old = None \<and> (fm_limit current \<le> fm_consumed current \<or> cf_maxRounds (ca_frame campaign) \<le> cp_consumed own)
                 then conflicting ''experiment family or campaign evaluation budget is exhausted''
                 else Inr \<lparr>rn_family = current\<lparr>fm_consumed := fm_consumed current + (if old = None then 1 else 0)\<rparr>,
                   rn_evaluation = bind_arm (ask_side ask)
                     \<lparr>ar_scorecardId = ask_scorecardId ask, ar_requestDigest = ask_requestDigest ask\<rparr>
                     (default_or (fresh_evaluation i (ca_id base) ask) old),
                   rn_replay = False, rn_scorecardId = ask_scorecardId ask\<rparr>)))"

definition reserveEvaluation ::
  "(ni_policy \<Rightarrow> string) \<Rightarrow> (string \<Rightarrow> string \<Rightarrow> string) \<Rightarrow> evaluation_request \<Rightarrow> campaign_store
    \<Rightarrow> (reservation \<times> campaign_store) res" where
  "reserveEvaluation ndig edig ask w =
     bind_res (familyMembers (ask_campaignId ask) (wk_campaigns w)) (\<lambda>(base, _).
       bind_res (reserveInFamily ndig edig ask (wk_campaigns w) (wk_families w) (wk_evaluations w)) (\<lambda>res.
         Inr (res, w\<lparr>wk_families := (wk_families w)(ca_id base \<mapsto> rn_family res),
                    wk_evaluations := put_evaluation (rn_evaluation res) (wk_evaluations w)\<rparr>)))"

end
