(* ===== verification/CampaignFlow.thy ===== *)
theory CampaignFlow
  imports CampaignStore
begin

text \<open>
  The writes of a campaign after it is open: a round is appended and a campaign closed on the condition that the trace is
  as long as the one the decision was made over, and a close that adopts leaves an operation that owes a registration.
\<close>

subsection \<open>Rounds\<close>

datatype append_outcome = Appended | Append_absent | Append_terminal campaign_state | Append_conflict

definition owns_evaluation :: "string \<Rightarrow> campaign_round \<Rightarrow> campaign_evaluation \<Rightarrow> bool" where
  "owns_evaluation i r a \<longleftrightarrow>
     ce_campaignId a = i \<and> ce_reportedRound a = None
     \<and> map_option ar_scorecardId (ce_candidate a) = Some (rd_candidateScorecardId r)
     \<and> map_option ar_scorecardId (ce_baseline a) = Some (rd_baselineScorecardId r)"

definition named_evaluation :: "campaign_round \<Rightarrow> campaign_store \<Rightarrow> campaign_evaluation option" where
  "named_evaluation r w =
     (case rv_evaluationId (rd_verdict r) of None \<Rightarrow> None | Some e \<Rightarrow> find_evaluation e (wk_evaluations w))"

definition appendRound :: "string \<Rightarrow> campaign_round \<Rightarrow> nat \<Rightarrow> campaign_store \<Rightarrow> (append_outcome \<times> campaign_store) res" where
  "appendRound i r expected w =
     (case find_campaign i (wk_campaigns w) of
        None \<Rightarrow> Inr (Append_absent, w)
      | Some c \<Rightarrow>
          if ca_state c \<noteq> Open_campaign then Inr (Append_terminal (ca_state c), w)
          else if length (ca_rounds c) \<noteq> expected then Inr (Append_conflict, w)
          else if cf_maxRounds (ca_frame c) \<le> length (ca_rounds c) then Inr (Append_conflict, w)
          else
            let evaluation = named_evaluation r w
            in if rv_evaluationId (rd_verdict r) \<noteq> None
                  \<and> (case evaluation of None \<Rightarrow> True | Some a \<Rightarrow> \<not> owns_evaluation i r a)
               then conflicting ''round does not own an unreported evaluation''
               else Inr (Appended,
                 w\<lparr>wk_campaigns := put_campaign (c\<lparr>ca_rounds := ca_rounds c @ [r]\<rparr>) (wk_campaigns w),
                   wk_evaluations := (case evaluation of
                     None \<Rightarrow> wk_evaluations w
                   | Some a \<Rightarrow> put_evaluation (a\<lparr>ce_reportedRound := Some (rd_seq r)\<rparr>) (wk_evaluations w))\<rparr>))"

subsection \<open>The close and what it owes\<close>

datatype close_result = Closed | Close_absent | Close_already campaign_state | Close_conflict

definition close_campaign ::
  "string \<Rightarrow> campaign_state \<Rightarrow> close_outcome \<Rightarrow> nat \<Rightarrow> adoption_operation option \<Rightarrow> campaign_store \<Rightarrow> close_result \<times> campaign_store" where
  "close_campaign i state outcome expected operation w =
     (case find_campaign i (wk_campaigns w) of
        None \<Rightarrow> (Close_absent, w)
      | Some c \<Rightarrow>
          if ca_state c \<noteq> Open_campaign then (Close_already (ca_state c), w)
          else if length (ca_rounds c) \<noteq> expected then (Close_conflict, w)
          else (Closed,
            w\<lparr>wk_campaigns := put_campaign (c\<lparr>ca_state := state, ca_close := Some outcome\<rparr>) (wk_campaigns w),
              wk_adoptions := (case operation of
                None \<Rightarrow> wk_adoptions w
              | Some p \<Rightarrow>
                  if wk_adoptions w (pf_campaignId (op_proof p)) \<noteq> None then wk_adoptions w
                  else (wk_adoptions w)(pf_campaignId (op_proof p) \<mapsto> p))\<rparr>))"

definition adoptionProofOf :: "(campaign_answer \<Rightarrow> string) \<Rightarrow> campaign_answer \<Rightarrow> campaign_record \<Rightarrow> campaign_round list \<Rightarrow> adoption_proof option" where
  "adoptionProofOf adig answer c rounds =
     (case an_decision answer of
        Adopt a \<Rightarrow>
          if rounds = [] then None
          else Some \<lparr>pf_campaignId = ca_id c, pf_frameDigest = ca_frameDigest c, pf_roundSeq = rd_seq (last rounds),
            pf_exact = (ad_specDigest a \<noteq> None), pf_type = su_type (cf_subject (ca_frame c)),
            pf_subjectId = su_id (cf_subject (ca_frame c)), pf_version = ad_version a, pf_specDigest = ad_specDigest a,
            pf_provingScorecardId = ad_provingScorecardId a, pf_source = ad_source a, pf_issueId = ca_issueId c,
            pf_gateDigest = adig answer\<rparr>
      | _ \<Rightarrow> None)"

definition code_owed :: "adoption_proof \<Rightarrow> code_debt option" where
  "code_owed p =
     (case pf_source p of
        None \<Rightarrow> None
      | Some s \<Rightarrow>
          (case (so_repo s, so_prNumber s) of
             (Some repo, Some n) \<Rightarrow> Some \<lparr>cd_repo = repo, cd_prNumber = n, cd_sha = so_sha s, cd_state = Code_owed\<rparr>
           | _ \<Rightarrow> None))"

definition adoption_of :: "adoption_proof \<Rightarrow> adoption_operation" where
  "adoption_of p = \<lparr>op_proof = p, op_state = Op_decided, op_code = code_owed p, op_registeredVersion = None\<rparr>"

datatype register_result = Registered_now | Already_registered | Register_mismatch | Register_missing

definition markRegistered ::
  "(adoption_proof \<Rightarrow> string) \<Rightarrow> string \<Rightarrow> string \<Rightarrow> string \<Rightarrow> campaign_store \<Rightarrow> register_result \<times> campaign_store" where
  "markRegistered pdig i digest version w =
     (case wk_adoptions w i of
        None \<Rightarrow> (Register_missing, w)
      | Some p \<Rightarrow>
          if pdig (op_proof p) \<noteq> digest then (Register_mismatch, w)
          else if op_state p \<noteq> Op_decided then (Already_registered, w)
          else (Registered_now, w\<lparr>wk_adoptions :=
            (wk_adoptions w)(i \<mapsto> p\<lparr>op_state := Op_registered, op_registeredVersion := Some version\<rparr>)\<rparr>))"

datatype merge_result = Merged_now | Already_merged | No_code_debt | Merge_not_registered | Merge_mismatch | Merge_missing

definition markMerged ::
  "(adoption_proof \<Rightarrow> string) \<Rightarrow> string \<Rightarrow> string \<Rightarrow> string \<Rightarrow> string \<Rightarrow> campaign_store \<Rightarrow> merge_result \<times> campaign_store" where
  "markMerged pdig i digest sha at_time w =
     (case wk_adoptions w i of
        None \<Rightarrow> (Merge_missing, w)
      | Some p \<Rightarrow>
          if pdig (op_proof p) \<noteq> digest then (Merge_mismatch, w)
          else (case op_code p of
             None \<Rightarrow> (No_code_debt, w)
           | Some debt \<Rightarrow>
               if cd_state debt \<noteq> Code_owed then (Already_merged, w)
               else if op_state p = Op_decided then (Merge_not_registered, w)
               else (Merged_now, w\<lparr>wk_adoptions :=
                 (wk_adoptions w)(i \<mapsto> p\<lparr>op_code := Some (debt\<lparr>cd_state := Code_merged sha at_time\<rparr>)\<rparr>)\<rparr>)))"

datatype complete_result = Completed_now | Already_completed | Complete_not_registered | Complete_mismatch | Complete_missing

definition markCompleted ::
  "(adoption_proof \<Rightarrow> string) \<Rightarrow> string \<Rightarrow> string \<Rightarrow> campaign_store \<Rightarrow> complete_result \<times> campaign_store" where
  "markCompleted pdig i digest w =
     (case wk_adoptions w i of
        None \<Rightarrow> (Complete_missing, w)
      | Some p \<Rightarrow>
          if pdig (op_proof p) \<noteq> digest then (Complete_mismatch, w)
          else if op_state p = Op_completed then (Already_completed, w)
          else if op_state p \<noteq> Op_registered then (Complete_not_registered, w)
          else (Completed_now, w\<lparr>wk_adoptions := (wk_adoptions w)(i \<mapsto> p\<lparr>op_state := Op_completed\<rparr>)\<rparr>))"

subsection \<open>Opening\<close>

definition MAX_CHAIN_LINKS :: nat where
  "MAX_CHAIN_LINKS = 64"

text \<open>\<open>heldOutKey\<close> joins the sorted ids with a separator no id holds, so equal keys are equal sets of ids.\<close>

definition heldOutKey :: "campaign_frame \<Rightarrow> string list" where
  "heldOutKey f = sort_by code_unit_cmp (firsts (held_out_ids f))"

text \<open>The walk over the ancestors: how many rounds they spent, and who they are.\<close>

function spent_above :: "campaign_record list \<Rightarrow> string list \<Rightarrow> nat \<Rightarrow> string option \<Rightarrow> (nat \<times> string list) res" where
  "spent_above rs seen spent None = Inr (spent, seen)"
| "spent_above rs seen spent (Some i) =
     (if i \<in> set seen \<or> MAX_CHAIN_LINKS \<le> length seen
      then Inl (BadRequest ''BAD_REQUEST'' ''the chain does not terminate'')
      else (case find_campaign i rs of
              None \<Rightarrow> Inl (NotFound ''NOT_FOUND'' ''campaign not found'')
            | Some c \<Rightarrow> spent_above rs (i # seen) (spent + length (ca_rounds c)) (cf_continues (ca_frame c))))"
  by pat_completeness auto

termination
  by (relation "measure (\<lambda>(rs, seen, spent, i). MAX_CHAIN_LINKS - length seen)") auto

text \<open>What the campaigns that branch off the chain hold.\<close>

definition spent_beside :: "campaign_record list \<Rightarrow> string list \<Rightarrow> nat" where
  "spent_beside rs seen =
     sum_list (map (\<lambda>c. if ca_state c = Open_campaign then cf_maxRounds (ca_frame c) else length (ca_rounds c))
       (filter (\<lambda>c. ca_id c \<in> set (grow_family rs seen) \<and> ca_id c \<notin> set seen) rs))"

definition assertChainIsHonest :: "campaign_frame \<Rightarrow> campaign_store \<Rightarrow> unit res" where
  "assertChainIsHonest f w =
     (case cf_continues f of
        None \<Rightarrow> Inr ()
      | Some p \<Rightarrow>
          (case cf_heldOutFamilySize f of
             None \<Rightarrow> Inl (BadRequest ''BAD_REQUEST'' ''a campaign that continues another must declare its family'')
           | Some family \<Rightarrow>
               (case find_campaign p (wk_campaigns w) of
                  None \<Rightarrow> Inl (NotFound ''NOT_FOUND'' ''campaign not found'')
                | Some parent \<Rightarrow>
                    bind_res (spent_above (wk_campaigns w) [p] (length (ca_rounds parent)) (cf_continues (ca_frame parent)))
                      (\<lambda>(above, seen).
                        let spent = above + spent_beside (wk_campaigns w) seen in
                        (case ca_close parent of
                           Some (Closed_adopted a) \<Rightarrow>
                             if (case wk_adoptions w (ca_id parent) of
                                   None \<Rightarrow> False
                                 | Some op \<Rightarrow> (case op_code op of None \<Rightarrow> False | Some debt \<Rightarrow> cd_state debt = Code_owed))
                             then conflicting ''the predecessor adopted code that is not merged''
                             else if su_type (cf_subject (ca_frame parent)) \<noteq> su_type (cf_subject f)
                               \<or> su_id (cf_subject (ca_frame parent)) \<noteq> su_id (cf_subject f)
                             then Inl (BadRequest ''BAD_REQUEST'' ''a chain follows one subject'')
                             else if su_baselineVersion (cf_subject f) \<noteq> ad_version a
                             then Inl (BadRequest ''BAD_REQUEST'' ''a chain starts from what its predecessor proved'')
                             else if heldOutKey (ca_frame parent) \<noteq> heldOutKey f
                             then Inl (BadRequest ''BAD_REQUEST'' ''the held-out scenarios differ'')
                             else if cf_fdrAlpha (ca_frame parent) \<noteq> cf_fdrAlpha f
                               \<or> cf_heldOutFamilySize (ca_frame parent) \<noteq> Some family
                             then Inl (BadRequest ''BAD_REQUEST'' ''a chain shares one pre-registration'')
                             else if family < spent + cf_maxRounds f
                             then Inl (BadRequest ''BAD_REQUEST'' ''the chain has spent its pre-registered tests'')
                             else Inr ()
                         | _ \<Rightarrow> conflicting ''the predecessor adopted nothing'')))))"

text \<open>\<open>CampaignFrameSchema\<close>: a frame that is created has no defect and can be won.\<close>

definition creatable :: "campaign_frame \<Rightarrow> bool" where
  "creatable f \<longleftrightarrow> campaignFrameDefects f = [] \<and> \<not> unwinnableFrame f"

definition opened ::
  "(campaign_frame \<Rightarrow> string) \<Rightarrow> string \<Rightarrow> string \<Rightarrow> campaign_frame \<Rightarrow> string \<Rightarrow> string \<Rightarrow> campaign_record" where
  "opened fdig newId issueId f by_whom now =
     \<lparr>ca_id = newId, ca_issueId = issueId, ca_frame = f, ca_frameDigest = fdig f, ca_rounds = [], ca_state = Open_campaign,
      ca_close = None, ca_createdBy = by_whom, ca_createdAt = now\<rparr>"

text \<open>\<open>CampaignService.open\<close> from the frame on, in one step: the awaits between the check of the chain and the creation are not cut, and
  the proof of the exam control, a field of the record that nothing here reads, is left out.\<close>

definition open_campaign ::
  "(campaign_frame \<Rightarrow> string) \<Rightarrow> string \<Rightarrow> string \<Rightarrow> campaign_frame \<Rightarrow> string \<Rightarrow> string \<Rightarrow> campaign_store \<Rightarrow> campaign_store res" where
  "open_campaign fdig newId issueId f by_whom now w =
     (if \<not> creatable f then Inl (BadRequest ''BAD_REQUEST'' ''the frame cannot produce adoption evidence'')
      else bind_res (assertChainIsHonest f w) (\<lambda>_. create_campaign (opened fdig newId issueId f by_whom now) w))"

end
