(* ===== verification/CampaignTasks.thy ===== *)
theory CampaignTasks
  imports CampaignFlow
begin

text \<open>
  The calls of \<open>CampaignService\<close> that read a campaign and write it later: \<open>logRound\<close> and \<open>settle\<close>, each cut at the await
  before its write, and the run of a workspace as a sequence of calls and writes in any order.
\<close>

subsection \<open>What is left of the budget\<close>

datatype batch_status = Batch_queued | Batch_running | Batch_succeeded | Batch_failed | Batch_superseded | Batch_cancelled

definition armStateOf :: "batch_status option \<Rightarrow> arm_state" where
  "armStateOf row =
     (case row of
        None \<Rightarrow> Arm_lost
      | Some Batch_succeeded \<Rightarrow> Arm_succeeded
      | Some Batch_failed \<Rightarrow> Arm_lost
      | Some Batch_superseded \<Rightarrow> Arm_lost
      | Some Batch_cancelled \<Rightarrow> Arm_lost
      | Some _ \<Rightarrow> Arm_live)"

text \<open>A lookup of the batch of an arm: unreadable, or what it found.\<close>

type_synonym batch_reading = "string \<Rightarrow> batch_status option option"

definition arms_of :: "campaign_evaluation \<Rightarrow> string list" where
  "arms_of a = map ar_scorecardId (List.map_filter id [ce_baseline a, ce_candidate a])"

definition arms_read :: "batch_reading \<Rightarrow> campaign_evaluation list \<Rightarrow> string option \<Rightarrow> string \<rightharpoonup> arm_state" where
  "arms_read batches attempts claiming =
     (let asked = concat (map arms_of
            (filter (\<lambda>a. ce_reportedRound a = None \<and> Some (ce_id a) \<noteq> claiming) attempts))
      in (\<lambda>i. if i \<in> set asked then map_option armStateOf (batches i) else None))"

definition spendOf :: "batch_reading \<Rightarrow> campaign_record \<Rightarrow> string option \<Rightarrow> campaign_store \<Rightarrow> campaign_spend" where
  "spendOf batches c claiming w =
     (let attempts = attempts_of (ca_id c) (wk_evaluations w)
      in campaignSpendOf (ca_rounds c) attempts (arms_read batches attempts claiming))"

definition requireEligibleFrame :: "campaign_record \<Rightarrow> unit res" where
  "requireEligibleFrame c =
     (if campaignFrameDefects (ca_frame c) = [] then Inr ()
      else conflicting ''the frame predates the current adoption rules'')"

definition get_campaign :: "string \<Rightarrow> campaign_store \<Rightarrow> campaign_record res" where
  "get_campaign i w =
     (case find_campaign i (wk_campaigns w) of None \<Rightarrow> Inl (NotFound ''NOT_FOUND'' ''campaign not found'') | Some c \<Rightarrow> Inr c)"

definition campaign_decision_of ::
  "(ni_policy \<Rightarrow> string) \<Rightarrow> batch_reading \<Rightarrow> string \<Rightarrow> campaign_store \<Rightarrow> campaign_answer res" where
  "campaign_decision_of ndig batches i w =
     bind_res (get_campaign i w) (\<lambda>c. bind_res (requireEligibleFrame c) (\<lambda>_.
       Inr (campaignAdoption ndig (ca_frame c) (ca_rounds c) (spendOf batches c None w))))"

subsection \<open>Logging a round\<close>

record round_input =
  ri_hypothesis :: string
  ri_learned :: "string option"
  ri_informedBy :: "string list"
  ri_candidateVersion :: string
  ri_baselineScorecardId :: string
  ri_candidateScorecardId :: string

definition bounded_text :: "nat \<Rightarrow> string \<Rightarrow> bool" where
  "bounded_text n s \<longleftrightarrow> s \<noteq> [] \<and> length s \<le> n"

definition storable :: "round_input \<Rightarrow> bool" where
  "storable inp \<longleftrightarrow>
     bounded_text 2000 (ri_hypothesis inp)
     \<and> (case ri_learned inp of None \<Rightarrow> True | Some s \<Rightarrow> length s \<le> 4000)
     \<and> length (ri_informedBy inp) \<le> 50 \<and> list_all (bounded_text 200) (ri_informedBy inp)
     \<and> bounded_text 100 (ri_candidateVersion inp)
     \<and> ri_baselineScorecardId inp \<noteq> [] \<and> ri_candidateScorecardId inp \<noteq> []"

text \<open>What the call reads elsewhere: the comparison and its sides, the checks of the candidate, the batches, and where the
  evidence was put.\<close>

record round_reading =
  rr_comparison :: "trial_opts \<Rightarrow> gate_input"
  rr_sides :: "campaign_side \<times> campaign_side"
  rr_oracle :: "oracle_check option"
  rr_built :: "candidate_source option"
  rr_seeds :: seed_check
  rr_batches :: batch_reading
  rr_evidence :: "string \<times> string"
  rr_at :: string
  rr_by :: string

definition reserved_for :: "string \<Rightarrow> round_input \<Rightarrow> campaign_evaluation \<Rightarrow> bool" where
  "reserved_for i inp a \<longleftrightarrow>
     ce_campaignId a = i \<and> ce_reportedRound a = None
     \<and> map_option ar_scorecardId (ce_candidate a) = Some (ri_candidateScorecardId inp)
     \<and> map_option ar_scorecardId (ce_baseline a) = Some (ri_baselineScorecardId inp)
     \<and> ce_candidateVersion a = ri_candidateVersion inp"

definition evaluationForScorecard :: "string \<Rightarrow> campaign_store \<Rightarrow> campaign_evaluation option" where
  "evaluationForScorecard i w = find (binds_scorecard i) (wk_evaluations w)"

definition round_of ::
  "(ni_policy \<Rightarrow> string) \<Rightarrow> campaign_record \<Rightarrow> round_input \<Rightarrow> round_reading \<Rightarrow> string
    \<Rightarrow> gate_input \<Rightarrow> subject_identity \<times> subject_identity \<Rightarrow> nat \<Rightarrow> campaign_round" where
  "round_of ndig c inp rr evaluation g subjects family =
     \<lparr>rd_seq = length (ca_rounds c) + 1, rd_hypothesis = ri_hypothesis inp, rd_learned = ri_learned inp,
      rd_informedBy = ri_informedBy inp, rd_candidateVersion = ri_candidateVersion inp,
      rd_baselineScorecardId = ri_baselineScorecardId inp, rd_candidateScorecardId = ri_candidateScorecardId inp,
      rd_verdict = (verdictOf ndig g (rr_sides rr) (ca_frame c) (rr_oracle rr) (rr_built rr) (rr_seeds rr)
          (fst subjects) (snd subjects) family)
        \<lparr>rv_evaluationId := Some evaluation, rv_evidence := Some (rr_evidence rr)\<rparr>,
      rd_at = rr_at rr, rd_by = rr_by rr\<rparr>"

text \<open>What \<open>logRound\<close> decides before it writes, over one snapshot of what it reads. The delegation a round may name, and the refusal of
  one over its budget, are not modelled: a round here names none.\<close>

definition prepare_round ::
  "(ni_policy \<Rightarrow> string) \<Rightarrow> string \<Rightarrow> round_input \<Rightarrow> round_reading \<Rightarrow> campaign_store \<Rightarrow> (campaign_round \<times> nat) res" where
  "prepare_round ndig i inp rr w =
     bind_res (get_campaign i w) (\<lambda>c.
       if ca_state c \<noteq> Open_campaign then conflicting ''the campaign is closed''
       else bind_res (requireEligibleFrame c) (\<lambda>_.
         if \<not> storable inp then Inl (BadRequest ''BAD_REQUEST'' ''the round cannot be stored as sent'')
         else (case evaluationForScorecard (ri_candidateScorecardId inp) w of
           None \<Rightarrow> conflicting ''round requires an unreported evaluation''
         | Some a \<Rightarrow>
             if \<not> reserved_for i inp a then conflicting ''round requires an unreported evaluation''
             else if campaignRoundRefusal ndig (ca_frame c) (ca_rounds c) (spendOf (rr_batches rr) c (Some (ce_id a)) w) \<noteq> None
             then conflicting ''the campaign ended by its own rule''
             else (case (cf_fdrAlpha (ca_frame c), cf_heldOutFamilySize (ca_frame c)) of
                 (Some alpha, Some family) \<Rightarrow>
                   bind_res (checked_subjects (ca_frame c) (ri_candidateVersion inp) (fst (rr_sides rr)) (snd (rr_sides rr)))
                     (\<lambda>subjects. Inr (round_of ndig c inp rr (ce_id a) (rr_comparison rr (round_opts (ca_frame c) alpha family))
                        subjects family, length (ca_rounds c)))
               | _ \<Rightarrow> conflicting ''the frame declares no significance level or held-out family''))))"

subsection \<open>Settling\<close>

record settlement =
  se_state :: campaign_state
  se_outcome :: close_outcome
  se_expected :: nat
  se_operation :: "adoption_operation option"

definition halted :: "halt_reason \<Rightarrow> campaign_state" where
  "halted h = (case h of
     Halt_no_improvement \<Rightarrow> No_improvement_campaign
   | Halt_budget_exhausted \<Rightarrow> Budget_exhausted_campaign
   | _ \<Rightarrow> Exam_inert_campaign)"

definition prepare_settlement ::
  "(ni_policy \<Rightarrow> string) \<Rightarrow> (campaign_answer \<Rightarrow> string) \<Rightarrow> batch_reading \<Rightarrow> string \<Rightarrow> campaign_store \<Rightarrow> settlement res" where
  "prepare_settlement ndig adig batches i w =
     bind_res (get_campaign i w) (\<lambda>c.
       if ca_state c \<noteq> Open_campaign then conflicting ''the campaign already settled''
       else bind_res (requireEligibleFrame c) (\<lambda>_.
         let answer = campaignAdoption ndig (ca_frame c) (ca_rounds c) (spendOf batches c None w);
             proof_of = adoptionProofOf adig answer c (ca_rounds c)
         in (case an_decision answer of
               Continue_campaign _ _ \<Rightarrow> conflicting ''the gate answers continue''
             | Adopt a \<Rightarrow>
                 (case proof_of of
                    None \<Rightarrow> conflicting ''the gate adopted but authorized nothing''
                  | Some p \<Rightarrow> Inr \<lparr>se_state = Adopted_campaign, se_outcome = Closed_adopted a,
                      se_expected = length (ca_rounds c), se_operation = Some (adoption_of p)\<rparr>)
             | Halt h \<Rightarrow>
                 if h = Halt_identity_unverified then conflicting ''adoption refused''
                 else Inr \<lparr>se_state = halted h, se_outcome = Closed_halted h, se_expected = length (ca_rounds c),
                   se_operation = None\<rparr>)))"

subsection \<open>The workspace at work\<close>

datatype campaign_task =
    Logging string campaign_round nat
  | Settling string settlement
  | Refused app_error
  | Finished

record campaign_world =
  cw_store :: campaign_store
  cw_tasks :: "nat \<rightharpoonup> campaign_task"

datatype campaign_event =
    Open_event string string campaign_frame string string
  | Reserve_event evaluation_request
  | Log_event nat string round_input round_reading
  | Settle_event nat string batch_reading
  | Write_event nat
  | Register_event string string string
  | Merge_event string string string string
  | Complete_event string string

record campaign_digests =
  dg_policy :: "ni_policy \<Rightarrow> string"
  dg_evaluation :: "string \<Rightarrow> string \<Rightarrow> string"
  dg_answer :: "campaign_answer \<Rightarrow> string"
  dg_frame :: "campaign_frame \<Rightarrow> string"
  dg_proof :: "adoption_proof \<Rightarrow> string"

text \<open>A call that throws leaves the store as it was.\<close>

definition kept :: "campaign_store \<Rightarrow> campaign_store res \<Rightarrow> campaign_store" where
  "kept w res = (case res of Inl e \<Rightarrow> w | Inr w' \<Rightarrow> w')"

definition begin_task :: "nat \<Rightarrow> campaign_task \<Rightarrow> campaign_world \<Rightarrow> campaign_world" where
  "begin_task p t cw = (if cw_tasks cw p = None then cw\<lparr>cw_tasks := (cw_tasks cw)(p \<mapsto> t)\<rparr> else cw)"

fun write_task :: "campaign_task \<Rightarrow> campaign_store \<Rightarrow> campaign_task \<times> campaign_store" where
  "write_task (Logging i r n) w =
     (case appendRound i r n w of
        Inl e \<Rightarrow> (Refused e, w)
      | Inr (Appended, w') \<Rightarrow> (Finished, w')
      | Inr (Append_absent, w') \<Rightarrow> (Refused (NotFound ''NOT_FOUND'' ''campaign not found''), w')
      | Inr (_, w') \<Rightarrow> (Refused (Conflict ''CONFLICT'' ''a concurrent write landed first''), w'))"
| "write_task (Settling i s) w =
     (case close_campaign i (se_state s) (se_outcome s) (se_expected s) (se_operation s) w of
        (Closed, w') \<Rightarrow> (Finished, w')
      | (Close_absent, w') \<Rightarrow> (Refused (NotFound ''NOT_FOUND'' ''campaign not found''), w')
      | (_, w') \<Rightarrow> (Refused (Conflict ''CONFLICT'' ''another write landed first''), w'))"
| "write_task t w = (t, w)"

fun campaign_step :: "campaign_digests \<Rightarrow> campaign_world \<Rightarrow> campaign_event \<Rightarrow> campaign_world" where
  "campaign_step dg cw (Open_event newId issueId f who now) =
     cw\<lparr>cw_store := kept (cw_store cw) (open_campaign (dg_frame dg) newId issueId f who now (cw_store cw))\<rparr>"
| "campaign_step dg cw (Reserve_event ask) =
     cw\<lparr>cw_store := kept (cw_store cw)
       (map_sum id snd (reserveEvaluation (dg_policy dg) (dg_evaluation dg) ask (cw_store cw)))\<rparr>"
| "campaign_step dg cw (Log_event p i inp rr) =
     begin_task p (case prepare_round (dg_policy dg) i inp rr (cw_store cw) of
         Inl e \<Rightarrow> Refused e | Inr (r, n) \<Rightarrow> Logging i r n) cw"
| "campaign_step dg cw (Settle_event p i batches) =
     begin_task p (case prepare_settlement (dg_policy dg) (dg_answer dg) batches i (cw_store cw) of
         Inl e \<Rightarrow> Refused e | Inr s \<Rightarrow> Settling i s) cw"
| "campaign_step dg cw (Write_event p) =
     (case cw_tasks cw p of
        None \<Rightarrow> cw
      | Some t \<Rightarrow> (case write_task t (cw_store cw) of (t', w') \<Rightarrow> \<lparr>cw_store = w', cw_tasks = (cw_tasks cw)(p \<mapsto> t')\<rparr>))"
| "campaign_step dg cw (Register_event i digest version) =
     cw\<lparr>cw_store := snd (markRegistered (dg_proof dg) i digest version (cw_store cw))\<rparr>"
| "campaign_step dg cw (Merge_event i digest sha at_time) =
     cw\<lparr>cw_store := snd (markMerged (dg_proof dg) i digest sha at_time (cw_store cw))\<rparr>"
| "campaign_step dg cw (Complete_event i digest) =
     cw\<lparr>cw_store := snd (markCompleted (dg_proof dg) i digest (cw_store cw))\<rparr>"

definition new_world :: campaign_world where
  "new_world = \<lparr>cw_store = new_campaign_store, cw_tasks = Map.empty\<rparr>"

definition campaign_run :: "campaign_digests \<Rightarrow> campaign_event list \<Rightarrow> campaign_world" where
  "campaign_run dg es = foldl (campaign_step dg) new_world es"

end
