(* ===== verification/CampaignFamily.thy ===== *)
theory CampaignFamily
  imports CampaignTasks
begin

text \<open>
  The families of a workspace: a campaign belongs to the root its predecessors lead to, the walks of the code find that
  root and exactly the members of its family, and opening a campaign changes no other family.
\<close>

subsection \<open>Roots\<close>

definition links :: "campaign_record list \<Rightarrow> (string \<times> string option) list" where
  "links rs = map (\<lambda>r. (ca_id r, cf_continues (ca_frame r))) rs"

text \<open>The root an id leads to, and over how many links.\<close>

inductive rooted :: "(string \<times> string option) set \<Rightarrow> string \<Rightarrow> string \<Rightarrow> nat \<Rightarrow> bool" for L where
  root_here: "(i, None) \<in> L \<Longrightarrow> rooted L i i 0"
| root_above: "(i, Some p) \<in> L \<Longrightarrow> rooted L p b n \<Longrightarrow> rooted L i b (Suc n)"

inductive_cases rooted_zeroE: "rooted L i b 0"
inductive_cases rooted_SucE: "rooted L i b (Suc n)"

lemma rooted_mono: "rooted L i b n \<Longrightarrow> L \<subseteq> L' \<Longrightarrow> rooted L' i b n"
  by (induction rule: rooted.induct) (auto intro: rooted.intros)

lemma rooted_root: "rooted L i b n \<Longrightarrow> (b, None) \<in> L"
  by (induction rule: rooted.induct) auto

lemma rooted_id: "rooted L i b n \<Longrightarrow> i \<in> fst ` L"
  by (induction rule: rooted.induct) force+

definition functional :: "(string \<times> string option) set \<Rightarrow> bool" where
  "functional L \<longleftrightarrow> (\<forall>i p q. (i, p) \<in> L \<longrightarrow> (i, q) \<in> L \<longrightarrow> p = q)"

lemma functionalD: "functional L \<Longrightarrow> (i, p) \<in> L \<Longrightarrow> (i, q) \<in> L \<Longrightarrow> p = q"
  by (auto simp: functional_def)

lemma links_functional: "distinct (map ca_id rs) \<Longrightarrow> functional (set (links rs))"
  by (auto simp: functional_def links_def distinct_map dest: inj_onD)

lemma rooted_unique:
  assumes "functional L"
  shows "rooted L i b n \<Longrightarrow> rooted L i b' n' \<Longrightarrow> b = b' \<and> n = n'"
proof (induction arbitrary: b' n' rule: rooted.induct)
  case (root_here i)
  from root_here(2) show ?case by cases (use root_here(1) functionalD [OF assms] in auto)
next
  case (root_above i p b n)
  from root_above(4) show ?case
  proof cases
    case root_here
    then show ?thesis using root_above(1) functionalD [OF assms] by blast
  next
    case (root_above p' m)
    then have "p' = p" using \<open>(i, Some p) \<in> L\<close> functionalD [OF assms] by blast
    then show ?thesis using root_above(3) \<open>\<And>b' n'. rooted L p b' n' \<Longrightarrow> b = b' \<and> n = n'\<close> root_above(1) by blast
  qed
qed

lemma find_campaign_iff:
  assumes "distinct (map ca_id rs)"
  shows "find_campaign i rs = Some r \<longleftrightarrow> r \<in> set rs \<and> ca_id r = i"
proof
  assume "find_campaign i rs = Some r"
  then show "r \<in> set rs \<and> ca_id r = i" by (auto simp: find_campaign_def find_Some_iff)
next
  assume r: "r \<in> set rs \<and> ca_id r = i"
  then obtain q where "find_campaign i rs = Some q"
    by (cases "find_campaign i rs") (auto simp: find_campaign_def find_None_iff)
  moreover from this have "q \<in> set rs" "ca_id q = i" by (auto simp: find_campaign_def find_Some_iff)
  ultimately show "find_campaign i rs = Some r" using r assms by (metis distinct_map inj_on_eq_iff)
qed

lemma find_campaign_None: "find_campaign i rs = None \<longleftrightarrow> i \<notin> ca_id ` set rs"
  by (auto simp: find_campaign_def find_None_iff)

lemma walk_finds_root:
  assumes d: "distinct (map ca_id rs)"
  shows "rooted (set (links rs)) i b n \<Longrightarrow> \<forall>s \<in> set seen. \<forall>b' m. rooted (set (links rs)) s b' m \<longrightarrow> n < m \<Longrightarrow>
    \<exists>c. walk_to_root rs seen i = Inr c \<and> c \<in> set rs \<and> ca_id c = b \<and> cf_continues (ca_frame c) = None"
proof (induction n arbitrary: i seen)
  case 0
  then have i: "i = b" "(i, None) \<in> set (links rs)" by (auto elim: rooted_zeroE)
  then obtain c where c: "c \<in> set rs" "ca_id c = i" "cf_continues (ca_frame c) = None" by (auto simp: links_def)
  moreover have "i \<notin> set seen" using 0 by blast
  ultimately show ?case using find_campaign_iff [OF d, of i c] i
    by (subst walk_to_root.simps) auto
next
  case (Suc n)
  from Suc.prems(1) obtain p where p: "(i, Some p) \<in> set (links rs)" "rooted (set (links rs)) p b n" by (rule rooted_SucE)
  then obtain c where c: "c \<in> set rs" "ca_id c = i" "cf_continues (ca_frame c) = Some p" by (auto simp: links_def)
  have "i \<notin> set seen" using Suc.prems by blast
  then have "walk_to_root rs seen i = walk_to_root rs (i # seen) p"
    using c find_campaign_iff [OF d, of i c] by (subst walk_to_root.simps) auto
  moreover have "\<forall>s \<in> set (i # seen). \<forall>b' m. rooted (set (links rs)) s b' m \<longrightarrow> n < m"
  proof (intro ballI allI impI)
    fix s b' m assume s: "s \<in> set (i # seen)" "rooted (set (links rs)) s b' m"
    show "n < m"
    proof (cases "s = i")
      case True
      then have "m = Suc n" using s(2) Suc.prems(1) rooted_unique [OF links_functional [OF d]] by blast
      then show ?thesis by simp
    next
      case False
      then show ?thesis using s Suc.prems(2) by (meson Suc_lessD set_ConsD)
    qed
  qed
  ultimately show ?case using Suc.IH [OF p(2)] by simp
qed

lemma walk_is_rooted:
  "walk_to_root rs seen i = Inr c \<Longrightarrow>
     \<exists>n. rooted (set (links rs)) i (ca_id c) n \<and> c \<in> set rs \<and> cf_continues (ca_frame c) = None"
proof (induction rs seen i rule: walk_to_root.induct)
  case (1 rs seen i)
  from 1(2) obtain r where r: "i \<notin> set seen" "find_campaign i rs = Some r"
    by (subst (asm) walk_to_root.simps) (auto split: if_splits option.splits)
  then have mem: "r \<in> set rs" "ca_id r = i" by (auto simp: find_campaign_def find_Some_iff)
  show ?case
  proof (cases "cf_continues (ca_frame r)")
    case None
    then have "c = r" using 1(2) r by (subst (asm) walk_to_root.simps) simp
    moreover have "(i, None) \<in> set (links rs)" using mem None by (force simp: links_def)
    ultimately show ?thesis using mem None by (auto intro: root_here)
  next
    case (Some p)
    then have "walk_to_root rs (i # seen) p = Inr c" using 1(2) r by (subst (asm) walk_to_root.simps) simp
    then obtain n where "rooted (set (links rs)) p (ca_id c) n" "c \<in> set rs" "cf_continues (ca_frame c) = None"
      using 1(1) r Some by blast
    moreover have "(i, Some p) \<in> set (links rs)" using mem Some by (force simp: links_def)
    ultimately show ?thesis by (auto intro: root_above)
  qed
qed

subsection \<open>Members\<close>

lemma grow_pass_same:
  "grow_pass rs ids = ids \<Longrightarrow> r \<in> set rs \<Longrightarrow> continues_one_of ids r \<Longrightarrow> ca_id r \<in> set ids"
proof (induction rs)
  case (Cons q rs)
  let ?ids = "if continues_one_of ids q \<and> ca_id q \<notin> set ids then ca_id q # ids else ids"
  have step: "grow_pass (q # rs) ids = grow_pass rs ?ids" by (simp add: grow_pass_def)
  obtain xs where "grow_pass rs ?ids = xs @ ?ids" using grow_pass_shape by blast
  then have "length ?ids \<le> length ids" using Cons.prems(1) step by (metis le_add2 length_append)
  then have "\<not> (continues_one_of ids q \<and> ca_id q \<notin> set ids)" by (auto split: if_splits)
  then show ?case using Cons step by auto
qed simp

lemma grow_pass_sound:
  assumes "\<forall>i \<in> set ids. \<exists>n. rooted (set (links rs)) i b n" "set qs \<subseteq> set rs"
  shows "\<forall>i \<in> set (grow_pass qs ids). \<exists>n. rooted (set (links rs)) i b n"
  using assms
proof (induction qs arbitrary: ids)
  case (Cons q qs)
  let ?ids = "if continues_one_of ids q \<and> ca_id q \<notin> set ids then ca_id q # ids else ids"
  have "\<forall>i \<in> set ?ids. \<exists>n. rooted (set (links rs)) i b n"
  proof
    fix i assume i: "i \<in> set ?ids"
    show "\<exists>n. rooted (set (links rs)) i b n"
    proof (cases "i \<in> set ids")
      case False
      then have q: "i = ca_id q" "continues_one_of ids q" using i by (auto split: if_splits)
      then obtain p where p: "cf_continues (ca_frame q) = Some p" "p \<in> set ids"
        by (auto simp: continues_one_of_def split: option.splits)
      then have "(i, Some p) \<in> set (links rs)" using q Cons.prems(2) by (force simp: links_def)
      then show ?thesis using Cons.prems(1) p(2) root_above by blast
    qed (use Cons.prems in blast)
  qed
  then have "\<forall>i \<in> set (grow_pass qs ?ids). \<exists>n. rooted (set (links rs)) i b n"
    using Cons.prems(2) by (intro Cons.IH) simp_all
  moreover have "grow_pass (q # qs) ids = grow_pass qs ?ids" by (simp add: grow_pass_def)
  ultimately show ?case by (simp only:)
qed (simp add: grow_pass_def)

lemma grow_family_keeps: "set ids \<subseteq> set (grow_family rs ids)"
proof (induction rs ids rule: grow_family.induct)
  case (1 rs ids)
  obtain xs where "grow_pass rs ids = xs @ ids" using grow_pass_shape by blast
  then show ?case using 1 by (subst grow_family.simps) auto
qed

lemma grow_family_closed:
  "r \<in> set rs \<Longrightarrow> continues_one_of (grow_family rs ids) r \<Longrightarrow> ca_id r \<in> set (grow_family rs ids)"
proof (induction rs ids rule: grow_family.induct)
  case (1 rs ids)
  show ?case
  proof (cases "grow_pass rs ids = ids")
    case True
    then show ?thesis using 1(2,3) grow_pass_same [OF True] by (subst (asm) grow_family.simps, subst grow_family.simps) simp
  next
    case False
    then show ?thesis using 1 by (subst (asm) (2) grow_family.simps, subst grow_family.simps) simp
  qed
qed

lemma grow_family_sound:
  "\<forall>i \<in> set ids. \<exists>n. rooted (set (links rs)) i b n \<Longrightarrow> \<forall>i \<in> set (grow_family rs ids). \<exists>n. rooted (set (links rs)) i b n"
proof (induction rs ids rule: grow_family.induct)
  case (1 rs ids)
  show ?case
  proof (cases "grow_pass rs ids = ids")
    case True
    then show ?thesis using 1(2) by (subst grow_family.simps) simp
  next
    case False
    then have "\<forall>i \<in> set (grow_family rs (grow_pass rs ids)). \<exists>n. rooted (set (links rs)) i b n"
      using 1(1) grow_pass_sound [OF 1(2)] by blast
    then show ?thesis using False by (subst grow_family.simps) simp
  qed
qed

text \<open>The family of a root is exactly the ids that lead to it.\<close>

lemma grow_family_iff:
  assumes "(b, None) \<in> set (links rs)"
  shows "i \<in> set (grow_family rs [b]) \<longleftrightarrow> (\<exists>n. rooted (set (links rs)) i b n)"
proof
  assume "i \<in> set (grow_family rs [b])"
  then show "\<exists>n. rooted (set (links rs)) i b n" using grow_family_sound [of "[b]" rs b] root_here [OF assms] by auto
next
  assume "\<exists>n. rooted (set (links rs)) i b n"
  then obtain n where "rooted (set (links rs)) i b n" by blast
  then show "i \<in> set (grow_family rs [b])"
  proof (induction rule: rooted.induct)
    case (root_here i)
    then show ?case using grow_family_keeps [of "[i]" rs] by simp
  next
    case (root_above i p b n)
    then obtain r where "r \<in> set rs" "ca_id r = i" "cf_continues (ca_frame r) = Some p" by (auto simp: links_def)
    then show ?case using grow_family_closed [of r rs "[b]"] root_above(3) by (auto simp: continues_one_of_def)
  qed
qed

text \<open>The root of a campaign, when it has one.\<close>

definition leads_to :: "campaign_record list \<Rightarrow> string \<Rightarrow> string \<Rightarrow> bool" where
  "leads_to rs i b \<longleftrightarrow> (\<exists>n. rooted (set (links rs)) i b n)"

lemma leads_to_unique: "distinct (map ca_id rs) \<Longrightarrow> leads_to rs i b \<Longrightarrow> leads_to rs i b' \<Longrightarrow> b = b'"
  unfolding leads_to_def using rooted_unique links_functional by metis

lemma leads_to_cong: "links rs = links rs' \<Longrightarrow> leads_to rs = leads_to rs'"
  by (simp add: leads_to_def fun_eq_iff)

lemma walk_leads_to:
  assumes "distinct (map ca_id rs)" "leads_to rs i b"
  shows "\<exists>c. walk_to_root rs [] i = Inr c \<and> c \<in> set rs \<and> ca_id c = b \<and> cf_continues (ca_frame c) = None"
  using assms walk_finds_root [OF assms(1), of i b _ "[]"] by (auto simp: leads_to_def)

lemma in_family_iff:
  assumes "c \<in> set rs" "cf_continues (ca_frame c) = None"
  shows "in_family rs (ca_id c) = filter (\<lambda>r. leads_to rs (ca_id r) (ca_id c)) rs"
proof -
  have "(ca_id c, None) \<in> set (links rs)" using assms by (force simp: links_def)
  then show ?thesis using grow_family_iff by (auto simp: in_family_def leads_to_def intro: filter_cong)
qed

lemma familyMembers_iff:
  assumes "distinct (map ca_id rs)" "leads_to rs i b" "i \<in> ca_id ` set rs"
  shows "\<exists>c. familyMembers i rs = Inr (c, filter (\<lambda>r. leads_to rs (ca_id r) b) rs)
    \<and> c \<in> set rs \<and> ca_id c = b \<and> cf_continues (ca_frame c) = None"
proof -
  obtain c where c: "walk_to_root rs [] i = Inr c" "c \<in> set rs" "ca_id c = b" "cf_continues (ca_frame c) = None"
    using walk_leads_to [OF assms(1,2)] by blast
  then show ?thesis using in_family_iff [of c rs] assms(3) by (auto simp: familyMembers_def find_campaign_None)
qed

subsection \<open>A new campaign\<close>

lemma leads_to_old:
  assumes "distinct (map ca_id (rs @ [r]))" "\<forall>q \<in> set rs. \<exists>b. leads_to rs (ca_id q) b" "q \<in> set rs"
  shows "leads_to (rs @ [r]) (ca_id q) b \<longleftrightarrow> leads_to rs (ca_id q) b"
proof -
  obtain b' where b': "leads_to rs (ca_id q) b'" using assms(2,3) by blast
  have "set (links rs) \<subseteq> set (links (rs @ [r]))" by (auto simp: links_def)
  then have "leads_to (rs @ [r]) (ca_id q) b'" using b' unfolding leads_to_def by (blast intro: rooted_mono)
  moreover have "distinct (map ca_id rs)" using assms(1) by simp
  ultimately show ?thesis using b' leads_to_unique [OF assms(1)] leads_to_unique [of rs] by metis
qed

lemma leads_to_new_root:
  assumes "distinct (map ca_id (rs @ [r]))" "cf_continues (ca_frame r) = None"
  shows "leads_to (rs @ [r]) (ca_id r) b \<longleftrightarrow> b = ca_id r"
proof -
  have "rooted (set (links (rs @ [r]))) (ca_id r) (ca_id r) 0" using assms(2) by (intro root_here) (simp add: links_def)
  then show ?thesis using leads_to_unique [OF assms(1)] by (auto simp: leads_to_def)
qed

lemma leads_to_new_successor:
  assumes "distinct (map ca_id (rs @ [r]))" "cf_continues (ca_frame r) = Some p" "leads_to rs p b'"
  shows "leads_to (rs @ [r]) (ca_id r) b \<longleftrightarrow> b = b'"
proof -
  obtain n where "rooted (set (links rs)) p b' n" using assms(3) by (auto simp: leads_to_def)
  then have "rooted (set (links (rs @ [r]))) p b' n" by (rule rooted_mono) (auto simp: links_def)
  then have "rooted (set (links (rs @ [r]))) (ca_id r) b' (Suc n)"
    using assms(2) by (intro root_above [of _ p]) (simp_all add: links_def)
  then show ?thesis using leads_to_unique [OF assms(1)] by (auto simp: leads_to_def)
qed

end
