(* ===== verification/CampaignLaws.thy ===== *)
theory CampaignLaws
  imports CampaignVerdict TrialsLaws
begin

text \<open>
  What the adoption gate guarantees: an adoption rests on a walk no ending of the frame cut short, an ending is final,
  and the gate and the door of the rounds read one budget.
\<close>

subsection \<open>The walk over the rounds\<close>

definition streak :: "('r \<Rightarrow> bool) \<Rightarrow> nat \<Rightarrow> 'r list \<Rightarrow> nat" where
  "streak won k rounds = fold (\<lambda>r k. if won r then 0 else k + 1) rounds k"

lemma streak_simps [simp]:
  "streak won k [] = k"
  "streak won k (r # rs) = streak won (if won r then 0 else k + 1) rs"
  "streak won k (rs @ rs') = streak won (streak won k rs) rs'"
  by (simp_all add: streak_def)

lemma streak_lost: "\<forall>r \<in> set rs. \<not> won r \<Longrightarrow> streak won k rs = k + length rs"
  by (induction rs arbitrary: k) auto

lemma stop_walk_append:
  "stop_walk won f i k (rs @ rs') =
     (case stop_walk won f i k rs of
        Some stop \<Rightarrow> Some stop
      | None \<Rightarrow> stop_walk won f (i + length rs) (streak won k rs) rs')"
  by (induction rs arbitrary: i k) (auto simp: Let_def split: option.split)

lemma stop_walk_prefix:
  assumes "stop_walk won f i k rounds = None"
  shows "stop_walk won f i k (take n rounds) = None"
  using assms stop_walk_append [of won f i k "take n rounds" "drop n rounds"] by (auto split: option.splits)

lemma stop_walk_stays:
  "stop_walk won f i k rounds = Some stop \<Longrightarrow> stop_walk won f i k (rounds @ later) = Some stop"
  by (simp add: stop_walk_append)

lemma stop_walk_streak:
  "stop_walk won f i k rounds = None \<Longrightarrow> rounds \<noteq> [] \<Longrightarrow> streak won k rounds < cf_stopAfterRejectedRounds f"
proof (induction rounds arbitrary: i k)
  case (Cons r rs)
  then show ?case by (cases "rs = []") (auto simp: Let_def split: if_splits)
qed simp

lemma stop_walk_budget:
  assumes "stop_walk won f i k rounds = None" "rounds \<noteq> []" "cf_maxRounds f \<le> i + length rounds"
  shows "won (last rounds)"
  using assms
proof (induction rounds arbitrary: i k)
  case (Cons r rs)
  then show ?case by (cases "rs = []") (auto simp: Let_def split: if_splits)
qed simp

text \<open>As long as no ending fired, every stretch as long as the frame's patience holds a round that won.\<close>

lemma no_dry_stretch:
  assumes "stop_walk won f 0 0 rounds = None" "n + cf_stopAfterRejectedRounds f \<le> length rounds" "rounds \<noteq> []"
  shows "\<exists>r \<in> set (take (cf_stopAfterRejectedRounds f) (drop n rounds)). won r"
proof (rule ccontr)
  let ?m = "cf_stopAfterRejectedRounds f"
  let ?seen = "take n rounds" and ?dry = "take ?m (drop n rounds)"
  assume "\<not> (\<exists>r \<in> set ?dry. won r)"
  then have dry: "streak won k ?dry = k + length ?dry" for k by (intro streak_lost) auto
  have split: "take (n + ?m) rounds = ?seen @ ?dry" by (simp add: take_add)
  have walk: "stop_walk won f 0 0 (?seen @ ?dry) = None" using stop_walk_prefix [OF assms(1), of "n + ?m"] split by simp
  show False
  proof (cases "?m = 0")
    case True
    then show ?thesis using assms(1,3) by (cases rounds) (auto simp: Let_def split: if_splits)
  next
    case False
    then have "?seen @ ?dry \<noteq> []" using assms(2) by auto
    then have "streak won 0 (?seen @ ?dry) < ?m" by (rule stop_walk_streak [OF walk])
    then show ?thesis using assms(2) by (simp add: dry)
  qed
qed

subsection \<open>Adoption\<close>

lemma adopt_latest_cases:
  "adopt_latest f r = Adopt a \<longleftrightarrow>
     a = \<lparr>ad_version = rd_candidateVersion r, ad_provingScorecardId = rd_candidateScorecardId r,
          ad_waivedAxes = rv_unverifiedAxes (rd_verdict r), ad_specDigest = rv_specDigest (rd_verdict r),
          ad_source = rv_source (rd_verdict r)\<rparr>
     \<and> (rv_unverifiedAxes (rd_verdict r) = [] \<or> cf_allowUnverifiedIdentity f)
     \<and> (rv_specDigest (rd_verdict r) \<noteq> None \<or> cf_allowLabelOnlyAdoption f)"
  by (auto simp: adopt_latest_def Let_def split: if_splits)

lemma adopt_decision:
  "decideAdoption ndig f rounds spend = Adopt a \<longleftrightarrow>
     campaignStoppedAt ndig f rounds spend = None \<and> length rounds \<le> cf_maxRounds f
     \<and> latest_wins (winning ndig f) rounds \<and> adopt_latest f (last rounds) = Adopt a"
  by (auto simp: decideAdoption_def split: option.splits if_splits)

text \<open>An adoption names the latest round: it won, its bytes are named or the frame waived that, its axes are verified or
  recorded as waived. The walk is within its budget, and there was no moment at which an ending of the frame had
  fired: every stretch of the length of its patience holds a round that won.\<close>

theorem adoption_is_earned:
  assumes "an_decision (campaignAdoption ndig f rounds spend) = Adopt a"
  shows "rounds \<noteq> [] \<and> winning ndig f (last rounds)
    \<and> ad_version a = rd_candidateVersion (last rounds) \<and> ad_provingScorecardId a = rd_candidateScorecardId (last rounds)
    \<and> (ad_specDigest a \<noteq> None \<or> cf_allowLabelOnlyAdoption f)
    \<and> ad_waivedAxes a = rv_unverifiedAxes (rd_verdict (last rounds))
    \<and> (ad_waivedAxes a = [] \<or> cf_allowUnverifiedIdentity f)
    \<and> length rounds \<le> cf_maxRounds f
    \<and> (\<forall>n. n + cf_stopAfterRejectedRounds f \<le> length rounds \<longrightarrow>
         (\<exists>r \<in> set (take (cf_stopAfterRejectedRounds f) (drop n rounds)). winning ndig f r))"
proof -
  have d: "campaignStoppedAt ndig f rounds spend = None" "length rounds \<le> cf_maxRounds f"
    "latest_wins (winning ndig f) rounds" "adopt_latest f (last rounds) = Adopt a"
    using assms by (simp_all add: campaignAdoption_def adopt_decision)
  have "stop_walk (winning ndig f) f 0 0 rounds = None" using d(1) by (simp add: campaignStoppedAt_def split: option.splits)
  then show ?thesis
    using d(2-) no_dry_stretch [of "winning ndig f" f rounds] by (auto simp: latest_wins_def adopt_latest_cases)
qed

text \<open>Once the rounds of a campaign reached an ending of its frame, no later round changes anything: the gate never
  adopts, whatever is logged after it, and the door refuses every round.\<close>

theorem ending_is_final:
  assumes "stop_walk (winning ndig f) f 0 0 rounds = Some stop"
  shows "campaignRoundRefusal ndig f (rounds @ later) spend = Some stop
    \<and> (\<exists>h. an_decision (campaignAdoption ndig f (rounds @ later) spend) = Halt h \<and> h \<noteq> Halt_identity_unverified)"
proof -
  have "campaignStoppedAt ndig f (rounds @ later) spend = Some stop"
    using stop_walk_stays [OF assms, of later] by (simp add: campaignStoppedAt_def)
  then show ?thesis
    by (simp add: campaignRoundRefusal_def campaignAdoption_def decideAdoption_def stop_halt_def split: stop_reason.split)
qed

subsection \<open>One budget\<close>

lemma streak_recent: "streak won 0 rounds = length (takeWhile (\<lambda>r. \<not> won r) (rev rounds))"
  by (induction rounds rule: rev_induct) auto

lemma continue_decision:
  "decideAdoption ndig f rounds spend = Continue_campaign left rejected \<longleftrightarrow>
     campaignStoppedAt ndig f rounds spend = None \<and> length rounds \<le> cf_maxRounds f
     \<and> \<not> latest_wins (winning ndig f) rounds \<and> left = cf_maxRounds f - max (cp_consumed spend) (length rounds)
     \<and> rejected = streak (winning ndig f) 0 rounds"
  by (auto simp: decideAdoption_def adopt_latest_def Let_def streak_recent split: option.splits if_splits)

lemma not_stopped:
  assumes "campaignStoppedAt ndig f rounds spend = None"
  shows "stop_walk (winning ndig f) f 0 0 rounds = None"
    "cp_outstanding spend = 0 \<Longrightarrow> \<not> latest_wins (winning ndig f) rounds \<Longrightarrow> cp_consumed spend < cf_maxRounds f"
  using assms by (auto simp: campaignStoppedAt_def split: option.splits if_splits)

text \<open>A campaign the gate lets continue while nothing is outstanding has comparisons left, as many as the gate says, and
  the door takes a round.\<close>

theorem continue_has_room:
  assumes "an_decision (campaignAdoption ndig f rounds spend) = Continue_campaign left rejected"
    and "cp_outstanding spend = 0" "length rounds \<le> cp_consumed spend"
  shows "cp_consumed spend + left = cf_maxRounds f \<and> 0 < left \<and> campaignRoundRefusal ndig f rounds spend = None
    \<and> (rounds \<noteq> [] \<longrightarrow> rejected < cf_stopAfterRejectedRounds f)"
proof -
  have go: "campaignStoppedAt ndig f rounds spend = None" "\<not> latest_wins (winning ndig f) rounds"
    "left = cf_maxRounds f - max (cp_consumed spend) (length rounds)" "rejected = streak (winning ndig f) 0 rounds"
    using assms(1) by (simp_all add: campaignAdoption_def continue_decision)
  have "cp_consumed spend < cf_maxRounds f" using not_stopped(2) [OF go(1) assms(2) go(2)] .
  then show ?thesis
    using go assms(3) stop_walk_streak [OF not_stopped(1) [OF go(1)]] by (auto simp: campaignRoundRefusal_def)
qed

text \<open>The one way a campaign can be left without an exit: its last budgeted comparison won, and an axis it could not verify,
  or bytes it could not name, keep the gate from adopting it. The gate asks for another round, the settlement refuses,
  and the door takes no round, now or later.\<close>

theorem unverified_win_is_stuck:
  assumes walk: "stop_walk (winning ndig f) f 0 0 rounds = None" and full: "length rounds = cf_maxRounds f"
    and won: "latest_wins (winning ndig f) rounds"
    and blocked: "rv_unverifiedAxes (rd_verdict (last rounds)) \<noteq> [] \<and> \<not> cf_allowUnverifiedIdentity f
      \<or> rv_specDigest (rd_verdict (last rounds)) = None \<and> \<not> cf_allowLabelOnlyAdoption f"
  shows "an_decision (campaignAdoption ndig f rounds spend) = Halt Halt_identity_unverified
    \<and> campaignRoundRefusal ndig f rounds spend = Some \<lparr>st_reason = Budget_exhausted, st_atRound = length rounds\<rparr>"
proof -
  have "campaignStoppedAt ndig f rounds spend = None" using walk won by (simp add: campaignStoppedAt_def)
  then show ?thesis
    using full won blocked
    by (auto simp: campaignAdoption_def decideAdoption_def campaignRoundRefusal_def adopt_latest_def Let_def)
qed

end
