(* ===== verification/CampaignInv.thy ===== *)
theory CampaignInv
  imports CampaignFamily CampaignLaws
begin

text \<open>
  What holds of the campaigns of a workspace after any sequence of calls and writes: the families are well founded, every
  reserved evaluation is charged to the family of its campaign, no family holds more than its root registered, every
  round spends a reservation of its own, and a closed campaign closed with the answer the gate gave over its rounds.
\<close>

subsection \<open>The invariant\<close>

definition registered :: "campaign_record list \<Rightarrow> bool" where
  "registered rs \<longleftrightarrow> distinct (map ca_id rs) \<and> (\<forall>r \<in> set rs. \<exists>b. leads_to rs (ca_id r) b)
     \<and> (\<forall>r \<in> set rs. campaignFrameDefects (ca_frame r) = [])"

definition filed :: "campaign_record list \<Rightarrow> campaign_evaluation list \<Rightarrow> bool" where
  "filed rs as \<longleftrightarrow>
     distinct (map ce_id as) \<and> distinct (concat (map arms_of as))
     \<and> (\<forall>a \<in> set as. ce_campaignId a \<in> ca_id ` set rs \<and> leads_to rs (ce_campaignId a) (ce_familyId a))"

definition charged_to :: "string \<Rightarrow> campaign_evaluation list \<Rightarrow> nat" where
  "charged_to b as = length (filter (\<lambda>a. ce_familyId a = b) as)"

definition family_holds :: "campaign_record list \<Rightarrow> string \<Rightarrow> experiment_family option \<Rightarrow> nat \<Rightarrow> bool" where
  "family_holds rs b family n \<longleftrightarrow>
     (case family of
        None \<Rightarrow> n = 0
      | Some fam \<Rightarrow> fm_consumed fam = n
          \<and> (\<exists>r \<in> set rs. ca_id r = b \<and> cf_continues (ca_frame r) = None \<and> fm_limit fam = family_limit (ca_frame r)))"

lemma family_holds_simps [simp]:
  "family_holds rs b None n \<longleftrightarrow> n = 0"
  "family_holds rs b (Some fam) n \<longleftrightarrow> fm_consumed fam = n
     \<and> (\<exists>r \<in> set rs. ca_id r = b \<and> cf_continues (ca_frame r) = None \<and> fm_limit fam = family_limit (ca_frame r))"
  by (simp_all add: family_holds_def)

lemma family_holds_mono: "family_holds rs b family n \<Longrightarrow> set rs \<subseteq> set rs' \<Longrightarrow> family_holds rs' b family n"
  by (cases family) auto

definition accounted ::
  "campaign_record list \<Rightarrow> (string \<rightharpoonup> experiment_family) \<Rightarrow> campaign_evaluation list \<Rightarrow> bool" where
  "accounted rs families as \<longleftrightarrow>
     (\<forall>r \<in> set rs. legacy_rounds (ca_rounds r) = 0 \<and> length (attempts_of (ca_id r) as) \<le> cf_maxRounds (ca_frame r))
     \<and> (\<forall>b. family_holds rs b (families b) (charged_to b as))"

definition family_of :: "campaign_record list \<Rightarrow> string \<Rightarrow> campaign_record list" where
  "family_of rs b = filter (\<lambda>q. leads_to rs (ca_id q) b) rs"

definition allotted :: "campaign_record list \<Rightarrow> campaign_evaluation list \<Rightarrow> bool" where
  "allotted rs as \<longleftrightarrow>
     (\<forall>r \<in> set rs. cf_continues (ca_frame r) = None \<longrightarrow>
        sum_list (map (allocation as) (family_of rs (ca_id r))) \<le> family_limit (ca_frame r))"

definition spends :: "campaign_record \<Rightarrow> nat \<Rightarrow> campaign_round \<Rightarrow> campaign_evaluation \<Rightarrow> bool" where
  "spends c k r a \<longleftrightarrow>
     rd_seq r = k + 1 \<and> rv_evaluationId (rd_verdict r) = Some (ce_id a) \<and> ce_campaignId a = ca_id c
     \<and> ce_reportedRound a = Some (k + 1)
     \<and> map_option ar_scorecardId (ce_candidate a) = Some (rd_candidateScorecardId r)
     \<and> map_option ar_scorecardId (ce_baseline a) = Some (rd_baselineScorecardId r)"

definition traced :: "campaign_record list \<Rightarrow> campaign_evaluation list \<Rightarrow> bool" where
  "traced rs as \<longleftrightarrow>
     (\<forall>c \<in> set rs. \<forall>k < length (ca_rounds c). \<exists>a \<in> set as. spends c k (ca_rounds c ! k) a)"

text \<open>The outcome the gate gives over some rounds of a campaign, and the operation the adoption leaves.\<close>

definition answers ::
  "campaign_digests \<Rightarrow> campaign_record \<Rightarrow> campaign_round list \<Rightarrow> campaign_state \<Rightarrow> close_outcome \<Rightarrow> adoption_proof option \<Rightarrow> bool" where
  "answers dg c rounds state outcome proof_of \<longleftrightarrow>
     (\<exists>spend. let answer = campaignAdoption (dg_policy dg) (ca_frame c) rounds spend in
        (case an_decision answer of
           Continue_campaign _ _ \<Rightarrow> False
         | Adopt a \<Rightarrow> state = Adopted_campaign \<and> outcome = Closed_adopted a \<and> proof_of \<noteq> None
             \<and> proof_of = adoptionProofOf (dg_answer dg) answer c rounds
         | Halt h \<Rightarrow> h \<noteq> Halt_identity_unverified \<and> state = halted h \<and> outcome = Closed_halted h \<and> proof_of = None))"

definition closed_by_gate :: "campaign_digests \<Rightarrow> campaign_record \<Rightarrow> adoption_operation option \<Rightarrow> bool" where
  "closed_by_gate dg c operation \<longleftrightarrow>
     (if ca_state c = Open_campaign then ca_close c = None \<and> operation = None
      else \<exists>outcome. ca_close c = Some outcome
        \<and> answers dg c (ca_rounds c) (ca_state c) outcome (map_option op_proof operation))"

definition lawful_operation :: "adoption_operation \<Rightarrow> bool" where
  "lawful_operation p \<longleftrightarrow>
     (op_state p = Op_decided \<longleftrightarrow> op_registeredVersion p = None)
     \<and> map_option (\<lambda>d. d\<lparr>cd_state := Code_owed\<rparr>) (op_code p) = code_owed (op_proof p)
     \<and> (op_state p = Op_decided \<longrightarrow> op_code p = code_owed (op_proof p))"

definition settled :: "campaign_digests \<Rightarrow> campaign_record list \<Rightarrow> (string \<rightharpoonup> adoption_operation) \<Rightarrow> bool" where
  "settled dg rs ops \<longleftrightarrow>
     (\<forall>c \<in> set rs. closed_by_gate dg c (ops (ca_id c))) \<and> dom ops \<subseteq> ca_id ` set rs
     \<and> (\<forall>p \<in> ran ops. lawful_operation p)"

definition sound_campaigns :: "campaign_digests \<Rightarrow> campaign_store \<Rightarrow> bool" where
  "sound_campaigns dg w \<longleftrightarrow>
     registered (wk_campaigns w) \<and> filed (wk_campaigns w) (wk_evaluations w)
     \<and> accounted (wk_campaigns w) (wk_families w) (wk_evaluations w) \<and> allotted (wk_campaigns w) (wk_evaluations w)
     \<and> traced (wk_campaigns w) (wk_evaluations w) \<and> settled dg (wk_campaigns w) (wk_adoptions w)"

fun sound_task :: "campaign_digests \<Rightarrow> campaign_store \<Rightarrow> campaign_task \<Rightarrow> bool" where
  "sound_task dg w (Logging i r n) \<longleftrightarrow> rd_seq r = n + 1 \<and> rv_evaluationId (rd_verdict r) \<noteq> None"
| "sound_task dg w (Settling i s) \<longleftrightarrow>
     (\<exists>c \<in> set (wk_campaigns w). ca_id c = i \<and> se_expected s \<le> length (ca_rounds c)
        \<and> answers dg c (take (se_expected s) (ca_rounds c)) (se_state s) (se_outcome s) (map_option op_proof (se_operation s)))
     \<and> (\<forall>p \<in> set_option (se_operation s). p = adoption_of (op_proof p) \<and> pf_campaignId (op_proof p) = i)"
| "sound_task dg w t \<longleftrightarrow> True"

subsection \<open>Reading the records\<close>

lemma answers_cong:
  assumes "ca_id c = ca_id c'" "ca_frame c = ca_frame c'" "ca_frameDigest c = ca_frameDigest c'" "ca_issueId c = ca_issueId c'"
  shows "answers dg c rounds state outcome p \<longleftrightarrow> answers dg c' rounds state outcome p"
proof -
  have "adoptionProofOf d answer c rounds = adoptionProofOf d answer c' rounds" for d answer
    using assms by (simp add: adoptionProofOf_def split: campaign_decision.split)
  then show ?thesis unfolding answers_def assms(2) by (simp only:)
qed

lemma halted_closed [simp]: "halted h \<noteq> Open_campaign"
  by (cases h) (simp_all add: halted_def)

lemma answers_closed: "answers dg c rounds state outcome p \<Longrightarrow> state \<noteq> Open_campaign"
  unfolding answers_def Let_def
  by (erule exE, rename_tac spend, case_tac "an_decision (campaignAdoption (dg_policy dg) (ca_frame c) rounds spend)") auto

lemma put_campaign_set:
  assumes "distinct (map ca_id rs)" "c \<in> set rs" "ca_id c' = ca_id c"
  shows "set (put_campaign c' rs) = insert c' (set rs - {c})"
proof -
  have "ca_id q = ca_id c \<longleftrightarrow> q = c" if "q \<in> set rs" for q using assms(1,2) that by (auto simp: distinct_map inj_on_def)
  then show ?thesis using assms(2,3) by (auto simp: put_campaign_def image_iff)
qed

lemma put_campaign_ids [simp]: "map ca_id (put_campaign c rs) = map ca_id rs"
  by (simp add: put_campaign_def)

lemma put_campaign_links:
  assumes "distinct (map ca_id rs)" "c \<in> set rs" "ca_id c' = ca_id c" "ca_frame c' = ca_frame c"
  shows "links (put_campaign c' rs) = links rs"
proof -
  have "ca_id q = ca_id c \<longleftrightarrow> q = c" if "q \<in> set rs" for q using assms(1,2) that by (auto simp: distinct_map inj_on_def)
  then show ?thesis using assms(3,4) by (auto simp: links_def put_campaign_def)
qed

text \<open>A change of a campaign that keeps its id and its frame keeps the families.\<close>

lemma put_campaign_leads:
  assumes "distinct (map ca_id rs)" "c \<in> set rs" "ca_id c' = ca_id c" "ca_frame c' = ca_frame c"
  shows "leads_to (put_campaign c' rs) = leads_to rs"
  by (rule leads_to_cong [OF put_campaign_links [OF assms]])

lemma ids_image: "map ca_id rs = map ca_id rs' \<Longrightarrow> ca_id ` set rs = ca_id ` set rs'"
  by (metis list.set_map)

lemma registered_put:
  assumes "registered rs" "c \<in> set rs" "ca_id c' = ca_id c" "ca_frame c' = ca_frame c"
  shows "registered (put_campaign c' rs)"
proof -
  have d: "distinct (map ca_id rs)" using assms(1) by (simp add: registered_def)
  have "leads_to (put_campaign c' rs) = leads_to rs" by (rule put_campaign_leads [OF d assms(2-4)])
  then show ?thesis using assms d by (auto simp: registered_def put_campaign_set [OF d assms(2,3)])
qed

lemma filed_put:
  assumes "distinct (map ca_id rs)" "filed rs as" "c \<in> set rs" "ca_id c' = ca_id c" "ca_frame c' = ca_frame c"
  shows "filed (put_campaign c' rs) as"
proof -
  have "ca_id ` set (put_campaign c' rs) = ca_id ` set rs" by (rule ids_image) simp
  then show ?thesis using assms(2) by (simp add: filed_def put_campaign_leads [OF assms(1,3-5)])
qed

lemma find_evaluation_Some:
  "distinct (map ce_id as) \<Longrightarrow> find_evaluation i as = Some a \<longleftrightarrow> a \<in> set as \<and> ce_id a = i"
  unfolding find_evaluation_def
  by (auto simp: find_Some_iff distinct_conv_nth in_set_conv_nth)

lemma find_evaluation_None: "find_evaluation i as = None \<longleftrightarrow> i \<notin> ce_id ` set as"
  by (auto simp: find_evaluation_def find_None_iff)

lemma put_evaluation_split:
  assumes "distinct (map ce_id (xs @ a # ys))" "ce_id a' = ce_id a"
  shows "put_evaluation a' (xs @ a # ys) = xs @ a' # ys"
proof -
  have "find_evaluation (ce_id a') (xs @ a # ys) \<noteq> None" using assms(2) by (simp add: find_evaluation_None)
  moreover have "map (\<lambda>b. if ce_id b = ce_id a then a' else b) zs = zs" if "ce_id a \<notin> ce_id ` set zs" for zs
    using that by (induction zs) auto
  ultimately show ?thesis using assms by (simp add: put_evaluation_def)
qed

subsection \<open>A campaign is opened\<close>

lemma leads_to_more: "leads_to rs i b \<Longrightarrow> leads_to (rs @ [r]) i b"
  unfolding leads_to_def by (erule exE, rule exI, erule rooted_mono) (auto simp: links_def)

lemma leads_to_ids: "leads_to rs i b \<Longrightarrow> i \<in> ca_id ` set rs \<and> b \<in> ca_id ` set rs"
  unfolding leads_to_def using rooted_id rooted_root by (force simp: links_def)

lemma registered_ids: "registered rs \<Longrightarrow> distinct (map ca_id rs)"
  by (simp add: registered_def)

text \<open>What the capacity check of a new campaign establishes.\<close>

lemma capacity_root:
  assumes "assertFamilyCapacity r rs as = Inr ()" "cf_continues (ca_frame r) = Some p"
  obtains base where "leads_to rs p (ca_id base)" "base \<in> set rs" "cf_continues (ca_frame base) = None"
    "sum_list (map (allocation as) (family_of rs (ca_id base))) + cf_maxRounds (ca_frame r) \<le> family_limit (ca_frame base)"
proof -
  obtain base limit where b: "walk_to_root rs [] p = Inr base" "cf_heldOutFamilySize (ca_frame base) = Some limit"
    "\<not> limit < sum_list (map (allocation as) (in_family rs (ca_id base))) + cf_maxRounds (ca_frame r)"
    using assms unfolding assertFamilyCapacity_def
    by (cases "walk_to_root rs [] p") (auto simp: Let_def split: option.splits if_splits)
  then have root: "leads_to rs p (ca_id base)" "base \<in> set rs" "cf_continues (ca_frame base) = None"
    using walk_is_rooted [of rs "[]" p base] by (auto simp: leads_to_def)
  then show thesis using that b in_family_iff [of base rs] by (simp add: family_of_def family_limit_def default_or_def)
qed

lemma new_campaign_leads:
  assumes "registered rs" "ca_id r \<notin> ca_id ` set rs" "assertFamilyCapacity r rs as = Inr ()"
  obtains b where "leads_to (rs @ [r]) (ca_id r) b"
    "if cf_continues (ca_frame r) = None then b = ca_id r
     else \<exists>q \<in> set rs. ca_id q = b \<and> cf_continues (ca_frame q) = None
       \<and> sum_list (map (allocation as) (family_of rs b)) + cf_maxRounds (ca_frame r) \<le> family_limit (ca_frame q)"
proof -
  have d: "distinct (map ca_id (rs @ [r]))" using assms(1,2) by (simp add: registered_def)
  show thesis
  proof (cases "cf_continues (ca_frame r)")
    case None
    then show ?thesis using that leads_to_new_root [OF d None] by auto
  next
    case (Some p)
    obtain base where b: "leads_to rs p (ca_id base)" "base \<in> set rs" "cf_continues (ca_frame base) = None"
      "sum_list (map (allocation as) (family_of rs (ca_id base))) + cf_maxRounds (ca_frame r) \<le> family_limit (ca_frame base)"
      by (rule capacity_root [OF assms(3) Some])
    have "leads_to (rs @ [r]) (ca_id r) (ca_id base)" using leads_to_new_successor [OF d Some b(1)] by blast
    then show ?thesis using Some b by (intro that [of "ca_id base"]) auto
  qed
qed

lemma family_of_old:
  assumes "registered rs" "ca_id r \<notin> ca_id ` set rs"
  shows "family_of (rs @ [r]) b = family_of rs b @ (if leads_to (rs @ [r]) (ca_id r) b then [r] else [])"
proof -
  have d: "distinct (map ca_id (rs @ [r]))" using assms by (simp add: registered_def)
  have "leads_to (rs @ [r]) (ca_id q) b \<longleftrightarrow> leads_to rs (ca_id q) b" if "q \<in> set rs" for q
    using leads_to_old [OF d _ that] assms(1) by (auto simp: registered_def)
  then show ?thesis by (auto simp: family_of_def intro: filter_cong)
qed

lemma registered_snoc:
  assumes "registered rs" "ca_id r \<notin> ca_id ` set rs" "leads_to (rs @ [r]) (ca_id r) b"
    "campaignFrameDefects (ca_frame r) = []"
  shows "registered (rs @ [r])"
  unfolding registered_def
proof (intro conjI ballI)
  fix q assume "q \<in> set (rs @ [r])"
  then show "\<exists>b. leads_to (rs @ [r]) (ca_id q) b" using assms(1,3) leads_to_more by (auto simp: registered_def) blast
qed (use assms(1,2,4) in \<open>auto simp: registered_def\<close>)

lemma family_budgeted: "campaignFrameDefects f = [] \<Longrightarrow> cf_maxRounds f \<le> family_limit f"
  by (auto simp: campaignFrameDefects_def family_limit_def default_or_def Let_def split: option.splits if_splits)

lemma allotted_snoc:
  assumes "registered rs" "ca_id r \<notin> ca_id ` set rs" "assertFamilyCapacity r rs as = Inr ()" "allotted rs as"
    and "ca_state r = Open_campaign" "campaignFrameDefects (ca_frame r) = []"
  shows "allotted (rs @ [r]) as"
proof -
  obtain b where b: "leads_to (rs @ [r]) (ca_id r) b"
    "if cf_continues (ca_frame r) = None then b = ca_id r
     else \<exists>q \<in> set rs. ca_id q = b \<and> cf_continues (ca_frame q) = None
       \<and> sum_list (map (allocation as) (family_of rs b)) + cf_maxRounds (ca_frame r) \<le> family_limit (ca_frame q)"
    by (rule new_campaign_leads [OF assms(1-3)])
  have d: "distinct (map ca_id (rs @ [r]))" using assms(1,2) by (simp add: registered_def)
  then have inj: "q = q'" if "q \<in> set rs" "q' \<in> set rs" "ca_id q = ca_id q'" for q q'
    using that by (auto simp: distinct_map dest: inj_onD)
  have alloc: "allocation as r = cf_maxRounds (ca_frame r)" using assms(5) by (simp add: allocation_def)
  have leads: "leads_to (rs @ [r]) (ca_id r) b' \<longleftrightarrow> b' = b" for b' using b(1) leads_to_unique [OF d] by blast
  have "sum_list (map (allocation as) (family_of (rs @ [r]) (ca_id q))) \<le> family_limit (ca_frame q)"
    if q: "q \<in> set (rs @ [r])" "cf_continues (ca_frame q) = None" for q
  proof (cases "q = r")
    case True
    then have "b = ca_id r" using b(2) q(2) by simp
    moreover have "family_of rs (ca_id r) = []" using leads_to_ids assms(2) by (auto simp: family_of_def filter_empty_conv)
    ultimately show ?thesis
      using True alloc family_budgeted [OF assms(6)] by (simp add: family_of_old [OF assms(1,2)] leads)
  next
    case False
    then have old: "q \<in> set rs" "sum_list (map (allocation as) (family_of rs (ca_id q))) \<le> family_limit (ca_frame q)"
      using q assms(4) by (auto simp: allotted_def)
    show ?thesis
    proof (cases "ca_id q = b")
      case True
      moreover have "ca_id q \<noteq> ca_id r" using old(1) assms(2) by (metis image_eqI)
      ultimately have "cf_continues (ca_frame r) \<noteq> None" using b(2) by (metis (full_types))
      then obtain q' where "q' \<in> set rs" "ca_id q' = b"
        "sum_list (map (allocation as) (family_of rs b)) + cf_maxRounds (ca_frame r) \<le> family_limit (ca_frame q')"
        using b(2) by auto
      moreover from this have "q' = q" using inj old(1) True by simp
      ultimately have "sum_list (map (allocation as) (family_of rs b)) + cf_maxRounds (ca_frame r) \<le> family_limit (ca_frame q)"
        by simp
      then show ?thesis using True alloc by (simp add: family_of_old [OF assms(1,2)] leads)
    next
      case False
      then show ?thesis using old(2) by (simp add: family_of_old [OF assms(1,2)] leads)
    qed
  qed
  then show ?thesis by (simp add: allotted_def)
qed

lemma accounted_snoc:
  assumes "accounted rs families as" "legacy_rounds (ca_rounds r) = 0" "attempts_of (ca_id r) as = []"
  shows "accounted (rs @ [r]) families as"
  using assms by (auto simp: accounted_def intro: family_holds_mono)

lemma create_sound:
  assumes "sound_campaigns dg w" "create_campaign r w = Inr w'" "ca_rounds r = []" "ca_state r = Open_campaign"
    "ca_close r = None" "campaignFrameDefects (ca_frame r) = []"
  shows "sound_campaigns dg w'"
proof -
  let ?rs = "wk_campaigns w" and ?as = "wk_evaluations w"
  have new: "ca_id r \<notin> ca_id ` set ?rs" "assertFamilyCapacity r ?rs ?as = Inr ()" "w' = w\<lparr>wk_campaigns := ?rs @ [r]\<rparr>"
    using assms(2) find_campaign_None [of "ca_id r" ?rs] unfolding create_campaign_def
    by (cases "assertFamilyCapacity r ?rs ?as"; force split: if_splits)+
  have old: "registered ?rs" "filed ?rs ?as" "accounted ?rs (wk_families w) ?as" "allotted ?rs ?as" "traced ?rs ?as"
    "settled dg ?rs (wk_adoptions w)"
    using assms(1) by (simp_all add: sound_campaigns_def)
  obtain b where "leads_to (?rs @ [r]) (ca_id r) b" by (rule new_campaign_leads [OF old(1) new(1,2)])
  then have "registered (?rs @ [r])" by (rule registered_snoc [OF old(1) new(1) _ assms(6)])
  moreover have "filed (?rs @ [r]) ?as" using old(2) leads_to_more by (auto simp: filed_def)
  moreover have "attempts_of (ca_id r) ?as = []" using old(2) new(1) by (metis (mono_tags, lifting) filed_def attempts_of_def filter_False)
  then have "accounted (?rs @ [r]) (wk_families w) ?as"
    using accounted_snoc [OF old(3)] assms(3) by (simp add: legacy_rounds_def)
  moreover have "traced (?rs @ [r]) ?as" using old(5) assms(3) by (auto simp: traced_def)
  moreover have "wk_adoptions w (ca_id r) = None" using old(6) new(1) by (auto simp: settled_def)
  then have "settled dg (?rs @ [r]) (wk_adoptions w)" using old(6) assms(4,5) by (auto simp: settled_def closed_by_gate_def)
  ultimately show ?thesis
    using allotted_snoc [OF old(1) new(1,2) old(4) assms(4,6)] by (simp add: sound_campaigns_def new(3))
qed

end
