(* ===== verification/CampaignSpend.thy ===== *)
theory CampaignSpend
  imports CampaignInv
begin

text \<open>
  A reservation and a round keep the books of a workspace: the evaluation is charged once, to its campaign and to the
  family of it, no batch is bound twice, and a round takes an evaluation nobody reported.
\<close>

subsection \<open>One evaluation changed or added\<close>

lemma attempts_of_simps [simp]:
  "attempts_of i [] = []"
  "attempts_of i (a # as) = (if ce_campaignId a = i then a # attempts_of i as else attempts_of i as)"
  "attempts_of i (as @ bs) = attempts_of i as @ attempts_of i bs"
  by (simp_all add: attempts_of_def)

lemma charged_to_simps [simp]:
  "charged_to b [] = 0"
  "charged_to b (a # as) = (if ce_familyId a = b then 1 else 0) + charged_to b as"
  "charged_to b (as @ bs) = charged_to b as + charged_to b bs"
  by (simp_all add: charged_to_def)

definition same_filing :: "campaign_evaluation \<Rightarrow> campaign_evaluation \<Rightarrow> bool" where
  "same_filing a b \<longleftrightarrow> ce_id a = ce_id b \<and> ce_campaignId a = ce_campaignId b \<and> ce_familyId a = ce_familyId b"

lemma same_filing_bind [simp]: "same_filing (bind_arm side x a) a"
  by (simp add: same_filing_def bind_arm_def split: campaign_arm.split)

lemma bind_arm_fields [simp]:
  "ce_id (bind_arm side x a) = ce_id a" "ce_campaignId (bind_arm side x a) = ce_campaignId a"
  "ce_familyId (bind_arm side x a) = ce_familyId a" "ce_reportedRound (bind_arm side x a) = ce_reportedRound a"
  by (simp_all add: bind_arm_def split: campaign_arm.split)

lemma arms_of_bound:
  assumes "arm_of side a = None"
  shows "mset (arms_of (bind_arm side x a)) = add_mset (ar_scorecardId x) (mset (arms_of a))"
  using assms
  by (cases side; cases "ce_baseline a"; cases "ce_candidate a")
    (simp_all add: arm_of_def bind_arm_def arms_of_def List.map_filter_simps)

lemma arms_of_fresh [simp]: "arms_of (fresh_evaluation i b ask) = []"
  by (simp add: arms_of_def fresh_evaluation_def List.map_filter_simps)

lemma binds_scorecard_iff: "list_ex (binds_scorecard s) as \<longleftrightarrow> s \<in> set (concat (map arms_of as))"
proof -
  have "binds_scorecard s a \<longleftrightarrow> s \<in> set (arms_of a)" for a
    by (cases "ce_baseline a"; cases "ce_candidate a")
      (auto simp: binds_scorecard_def arms_of_def List.map_filter_simps)
  then show ?thesis by (simp add: list_ex_iff)
qed

lemma distinct_add:
  assumes "mset ys = add_mset s (mset xs)" "distinct xs" "s \<notin> set xs"
  shows "distinct ys"
proof -
  have "mset ys = mset (s # xs)" using assms(1) by simp
  then show ?thesis using assms(2,3) mset_eq_imp_distinct_iff by (metis distinct.simps(2))
qed

text \<open>An evaluation replaced by one filed the same way: nothing but its arms can change in the books.\<close>

lemma refiled:
  assumes "filed rs (xs @ a # ys)" "same_filing a' a" "distinct (concat (map arms_of (xs @ a' # ys)))"
  shows "filed rs (xs @ a' # ys)"
  using assms by (auto simp: filed_def same_filing_def)

lemma refiled_counts:
  assumes "same_filing a' a"
  shows "length (attempts_of i (xs @ a' # ys)) = length (attempts_of i (xs @ a # ys))"
    "charged_to b (xs @ a' # ys) = charged_to b (xs @ a # ys)"
    "allocation (xs @ a' # ys) = allocation (xs @ a # ys)"
  using assms by (auto simp: same_filing_def allocation_def fun_eq_iff)

lemma accounted_counts:
  assumes "accounted rs families as" "\<And>i. length (attempts_of i as') = length (attempts_of i as)" "\<And>b. charged_to b as' = charged_to b as"
  shows "accounted rs families as'"
  using assms by (simp add: accounted_def)

lemma allotted_counts: "allotted rs as \<Longrightarrow> allocation as' = allocation as \<Longrightarrow> allotted rs as'"
  by (simp add: allotted_def)

lemma allotted_cong:
  assumes "allotted rs as" "\<And>r. r \<in> set rs \<Longrightarrow> allocation as' r = allocation as r"
  shows "allotted rs as'"
proof -
  have "sum_list (map (allocation as') (family_of rs b)) = sum_list (map (allocation as) (family_of rs b))" for b
    by (intro arg_cong [where f = sum_list] map_cong) (use assms(2) in \<open>auto simp: family_of_def\<close>)
  then show ?thesis using assms(1) by (simp add: allotted_def)
qed

lemma traced_refiled:
  assumes "traced rs (xs @ a # ys)" "ce_reportedRound a = None"
  shows "traced rs (xs @ a' # ys)"
  unfolding traced_def
proof (intro ballI allI impI)
  fix c k assume c: "c \<in> set rs" "k < length (ca_rounds c)"
  then obtain q where q: "q \<in> set (xs @ a # ys)" "spends c k (ca_rounds c ! k) q" using assms(1) by (auto simp: traced_def)
  then have "q \<noteq> a" using assms(2) by (auto simp: spends_def)
  then show "\<exists>q \<in> set (xs @ a' # ys). spends c k (ca_rounds c ! k) q" using q by auto
qed

lemma traced_more: "traced rs as \<Longrightarrow> set as \<subseteq> set as' \<Longrightarrow> traced rs as'"
  unfolding traced_def by (meson subsetD)

subsection \<open>What a reservation finds\<close>

lemma legacy_none:
  assumes "accounted rs families as" "set members \<subseteq> set rs"
  shows "sum_list (map (\<lambda>r. legacy_rounds (ca_rounds r)) members) = 0"
  using assms by (auto simp: accounted_def sum_list_eq_0_iff)

text \<open>The family a call reads or registers is the one the books have.\<close>

lemma current_family_charged:
  assumes "accounted rs families as" "set members \<subseteq> set rs"
  shows "fm_consumed (current_family families base members) = charged_to (ca_id base) as"
proof -
  have "family_holds rs (ca_id base) (families (ca_id base)) (charged_to (ca_id base) as)"
    using assms(1) by (simp add: accounted_def)
  then show ?thesis
    using legacy_none [OF assms] by (cases "families (ca_id base)") (simp_all add: current_family_def)
qed

lemma current_family_limit:
  assumes "accounted rs families as" "distinct (map ca_id rs)" "base \<in> set rs"
  shows "fm_limit (current_family families base members) = family_limit (ca_frame base)"
proof (cases "families (ca_id base)")
  case (Some fam)
  have "family_holds rs (ca_id base) (families (ca_id base)) (charged_to (ca_id base) as)"
    using assms(1) by (simp add: accounted_def)
  then obtain r where "r \<in> set rs" "ca_id r = ca_id base" "fm_limit fam = family_limit (ca_frame r)" using Some by auto
  moreover from this have "r = base" using assms(2,3) by (metis distinct_map inj_onD)
  ultimately show ?thesis using Some by (simp add: current_family_def)
qed (simp add: current_family_def)

text \<open>A family written with what is charged to it keeps the books right.\<close>

lemma accounted_update:
  assumes "\<forall>r \<in> set rs. legacy_rounds (ca_rounds r) = 0 \<and> length (attempts_of (ca_id r) as') \<le> cf_maxRounds (ca_frame r)"
    and "accounted rs families as" "\<And>b. b \<noteq> ca_id base \<Longrightarrow> charged_to b as' = charged_to b as"
    and "fm_consumed fam = charged_to (ca_id base) as'" "fm_limit fam = family_limit (ca_frame base)"
    and "base \<in> set rs" "cf_continues (ca_frame base) = None"
  shows "accounted rs (families(ca_id base \<mapsto> fam)) as'"
  unfolding accounted_def
proof (intro conjI allI)
  fix b
  have "family_holds rs b (families b) (charged_to b as)" using assms(2) by (simp add: accounted_def)
  then show "family_holds rs b ((families(ca_id base \<mapsto> fam)) b) (charged_to b as')"
    using assms(3) [of b] assms(4-7) by (cases "b = ca_id base") auto
qed (use assms(1) in blast)

definition bound_arm :: "evaluation_request \<Rightarrow> arm" where
  "bound_arm ask = \<lparr>ar_scorecardId = ask_scorecardId ask, ar_requestDigest = ask_requestDigest ask\<rparr>"

text \<open>What a reservation that succeeded did: it answered from an evaluation already bound, bound the missing side of one
  nobody reported, or charged a new one.\<close>

definition replayed :: "campaign_evaluation list \<Rightarrow> experiment_family \<Rightarrow> reservation \<Rightarrow> bool" where
  "replayed as current res \<longleftrightarrow> rn_evaluation res \<in> set as \<and> rn_family res = current \<and> rn_replay res"

definition rebound :: "evaluation_request \<Rightarrow> campaign_evaluation list \<Rightarrow> experiment_family \<Rightarrow> reservation \<Rightarrow> bool" where
  "rebound ask as current res \<longleftrightarrow>
     (\<exists>a \<in> set as. arm_of (ask_side ask) a = None \<and> ce_reportedRound a = None
        \<and> rn_evaluation res = bind_arm (ask_side ask) (bound_arm ask) a)
     \<and> rn_family res = current \<and> \<not> rn_replay res \<and> ask_scorecardId ask \<notin> set (concat (map arms_of as))"

definition charged ::
  "string \<Rightarrow> evaluation_request \<Rightarrow> campaign_record \<Rightarrow> campaign_record \<Rightarrow> campaign_evaluation list \<Rightarrow> experiment_family
    \<Rightarrow> reservation \<Rightarrow> bool" where
  "charged i ask c base as current res \<longleftrightarrow>
     i \<notin> ce_id ` set as \<and> ask_scorecardId ask \<notin> set (concat (map arms_of as))
     \<and> rn_evaluation res = bind_arm (ask_side ask) (bound_arm ask) (fresh_evaluation i (ca_id base) ask)
     \<and> rn_family res = current\<lparr>fm_consumed := fm_consumed current + 1\<rparr> \<and> \<not> rn_replay res
     \<and> ca_state c = Open_campaign \<and> fm_consumed current < fm_limit current
     \<and> length (attempts_of (ca_id c) as) < cf_maxRounds (ca_frame c)"

lemma reserve_outcome:
  assumes "reserveInFamily ndig edig ask rs families as = Inr res" "distinct (map ce_id as)"
    and "find_campaign (ask_campaignId ask) rs = Some c" "familyMembers (ca_id c) rs = Inr (base, members)"
  shows "replayed as (current_family families base members) res \<or> rebound ask as (current_family families base members) res
    \<or> charged (edig (ca_id c) (ask_requestId ask)) ask c base as (current_family families base members) res"
proof -
  let ?i = "edig (ca_id c) (ask_requestId ask)"
  show ?thesis
  proof (cases "find_evaluation ?i as")
    case None
    then have "?i \<notin> ce_id ` set as" by (simp add: find_evaluation_None)
    then have "charged ?i ask c base as (current_family families base members) res"
      using assms(1,3,4) None unfolding reserveInFamily_def charged_def
      by (auto simp: Let_def binds_scorecard_iff campaignSpendOf_def bound_arm_def default_or_def split: if_splits)
    then show ?thesis by simp
  next
    case (Some a)
    then have a: "a \<in> set as" by (simp add: find_evaluation_Some [OF assms(2)])
    show ?thesis
    proof (cases "arm_of (ask_side ask) a")
      case None
      then have "rebound ask as (current_family families base members) res"
        using assms(1,3,4) Some a unfolding reserveInFamily_def rebound_def
        by (auto simp: Let_def binds_scorecard_iff bound_arm_def default_or_def split: if_splits)
      then show ?thesis by simp
    next
      case (Some x)
      then have "replayed as (current_family families base members) res"
        using assms(1,3,4) \<open>find_evaluation ?i as = Some a\<close> a unfolding reserveInFamily_def replayed_def
        by (auto simp: Let_def split: if_splits)
      then show ?thesis by simp
    qed
  qed
qed

lemma reserve_found:
  assumes "reserveEvaluation ndig edig ask w = Inr (res, w')" "registered (wk_campaigns w)"
  obtains c base members where "find_campaign (ask_campaignId ask) (wk_campaigns w) = Some c"
    "c \<in> set (wk_campaigns w)" "ca_id c = ask_campaignId ask"
    "familyMembers (ca_id c) (wk_campaigns w) = Inr (base, members)" "set members \<subseteq> set (wk_campaigns w)"
    "leads_to (wk_campaigns w) (ca_id c) (ca_id base)" "base \<in> set (wk_campaigns w)" "cf_continues (ca_frame base) = None"
    "reserveInFamily ndig edig ask (wk_campaigns w) (wk_families w) (wk_evaluations w) = Inr res"
    "w' = w\<lparr>wk_families := (wk_families w)(ca_id base \<mapsto> rn_family res),
            wk_evaluations := put_evaluation (rn_evaluation res) (wk_evaluations w)\<rparr>"
proof -
  let ?rs = "wk_campaigns w"
  have d: "distinct (map ca_id ?rs)" using assms(2) by (rule registered_ids)
  obtain base members where m: "familyMembers (ask_campaignId ask) ?rs = Inr (base, members)"
    using assms(1) unfolding reserveEvaluation_def by (cases "familyMembers (ask_campaignId ask) ?rs") auto
  then have r: "reserveInFamily ndig edig ask ?rs (wk_families w) (wk_evaluations w) = Inr res"
    "w' = w\<lparr>wk_families := (wk_families w)(ca_id base \<mapsto> rn_family res),
            wk_evaluations := put_evaluation (rn_evaluation res) (wk_evaluations w)\<rparr>"
    using assms(1) unfolding reserveEvaluation_def
    by (cases "reserveInFamily ndig edig ask ?rs (wk_families w) (wk_evaluations w)"; force)+
  obtain c where f: "find_campaign (ask_campaignId ask) ?rs = Some c"
    using m by (auto simp: familyMembers_def split: if_splits)
  then have c: "c \<in> set ?rs" "ca_id c = ask_campaignId ask" by (simp_all add: find_campaign_iff [OF d])
  then obtain b where b: "leads_to ?rs (ca_id c) b" using assms(2) by (auto simp: registered_def)
  have "ca_id c \<in> ca_id ` set ?rs" using c(1) by simp
  then have "set members \<subseteq> set ?rs \<and> leads_to ?rs (ca_id c) (ca_id base) \<and> base \<in> set ?rs \<and> cf_continues (ca_frame base) = None"
    using familyMembers_iff [OF d b] b c m by auto
  then show thesis using that f c m r by simp
qed

lemma rebound_sound:
  assumes "rebound ask as current res" "distinct (map ce_id as)"
  obtains xs a ys a' where "as = xs @ a # ys" "put_evaluation (rn_evaluation res) as = xs @ a' # ys" "same_filing a' a"
    "ce_reportedRound a = None" "mset (arms_of a') = add_mset (ask_scorecardId ask) (mset (arms_of a))"
proof -
  obtain a where a: "a \<in> set as" "arm_of (ask_side ask) a = None" "ce_reportedRound a = None"
    "rn_evaluation res = bind_arm (ask_side ask) (bound_arm ask) a"
    using assms(1) by (auto simp: rebound_def)
  then obtain xs ys where "as = xs @ a # ys" by (meson split_list)
  then show thesis
    using that a put_evaluation_split [of xs a ys "rn_evaluation res"] assms(2) arms_of_bound [OF a(2), of "bound_arm ask"]
    by (auto simp: bound_arm_def)
qed

lemma replayed_put:
  assumes "replayed as current res" "distinct (map ce_id as)"
  shows "put_evaluation (rn_evaluation res) as = as"
proof -
  obtain xs ys where "as = xs @ rn_evaluation res # ys" using assms(1) by (auto simp: replayed_def dest: split_list)
  then show ?thesis using put_evaluation_split [of xs "rn_evaluation res" ys] assms(2) by metis
qed

lemma fresh_fields [simp]:
  "ce_id (fresh_evaluation i b ask) = i" "ce_campaignId (fresh_evaluation i b ask) = ask_campaignId ask"
  "ce_familyId (fresh_evaluation i b ask) = b" "ce_reportedRound (fresh_evaluation i b ask) = None"
  "arm_of side (fresh_evaluation i b ask) = None"
  by (simp_all add: fresh_evaluation_def arm_of_def split: campaign_arm.split)

lemma charged_put:
  assumes "charged i ask c base as current res"
  obtains a where "put_evaluation (rn_evaluation res) as = as @ [a]" "ce_id a = i" "ce_campaignId a = ask_campaignId ask"
    "ce_familyId a = ca_id base" "arms_of a = [ask_scorecardId ask]"
proof -
  let ?a = "bind_arm (ask_side ask) (bound_arm ask) (fresh_evaluation i (ca_id base) ask)"
  have "mset (arms_of ?a) = {#ask_scorecardId ask#}"
    using arms_of_bound [of "ask_side ask" "fresh_evaluation i (ca_id base) ask" "bound_arm ask"] by (simp add: bound_arm_def)
  then have "arms_of ?a = [ask_scorecardId ask]" by simp
  then show thesis using that [of ?a] assms by (auto simp: charged_def put_evaluation_def find_evaluation_None)
qed

lemma arms_bound_once:
  assumes "distinct (concat (map arms_of (xs @ a # ys)))" "s \<notin> set (concat (map arms_of (xs @ a # ys)))"
    and "mset (arms_of a') = add_mset s (mset (arms_of a))"
  shows "distinct (concat (map arms_of (xs @ a' # ys)))"
proof (rule distinct_add [OF _ assms(1,2)])
  show "mset (concat (map arms_of (xs @ a' # ys))) = add_mset s (mset (concat (map arms_of (xs @ a # ys))))"
    using assms(3) by simp
qed

definition books :: "campaign_record list \<Rightarrow> (string \<rightharpoonup> experiment_family) \<Rightarrow> campaign_evaluation list \<Rightarrow> bool" where
  "books rs families as \<longleftrightarrow> filed rs as \<and> accounted rs families as \<and> allotted rs as \<and> traced rs as"

lemma books_held:
  "accounted rs families as \<Longrightarrow>
     \<forall>r \<in> set rs. legacy_rounds (ca_rounds r) = 0 \<and> length (attempts_of (ca_id r) as) \<le> cf_maxRounds (ca_frame r)"
  by (simp add: accounted_def)

lemma books_same:
  assumes "books rs families as" "fm_consumed fam = charged_to (ca_id base) as" "fm_limit fam = family_limit (ca_frame base)"
    "base \<in> set rs" "cf_continues (ca_frame base) = None"
  shows "books rs (families(ca_id base \<mapsto> fam)) as"
  using assms accounted_update [OF books_held _ refl assms(2,3,4,5)] by (auto simp: books_def)

lemma books_rebound:
  assumes "books rs families (xs @ a # ys)" "same_filing a' a" "ce_reportedRound a = None"
    "distinct (concat (map arms_of (xs @ a' # ys)))"
  shows "books rs families (xs @ a' # ys)"
proof -
  have "filed rs (xs @ a' # ys)" using refiled [OF _ assms(2,4)] assms(1) by (simp add: books_def)
  moreover have "accounted rs families (xs @ a' # ys)"
    by (rule accounted_counts [OF _ refiled_counts(1,2) [OF assms(2)]]) (use assms(1) in \<open>simp add: books_def\<close>)
  moreover have "allotted rs (xs @ a' # ys)"
    by (rule allotted_counts [OF _ refiled_counts(3) [OF assms(2)]]) (use assms(1) in \<open>simp add: books_def\<close>)
  moreover have "traced rs (xs @ a' # ys)"
    by (rule traced_refiled [OF _ assms(3)]) (use assms(1) in \<open>simp add: books_def\<close>)
  ultimately show ?thesis by (simp add: books_def)
qed

lemma books_charged:
  assumes "books rs families as" "distinct (map ca_id rs)" "c \<in> set rs" "ca_state c = Open_campaign"
    and "length (attempts_of (ca_id c) as) < cf_maxRounds (ca_frame c)" "ce_campaignId a = ca_id c"
    and "leads_to rs (ca_id c) (ce_familyId a)" "ce_id a \<notin> ce_id ` set as" "arms_of a = [s]" "s \<notin> set (concat (map arms_of as))"
    and "ce_familyId a = ca_id base" "base \<in> set rs" "cf_continues (ca_frame base) = None"
    and "fm_consumed fam = charged_to (ca_id base) as + 1" "fm_limit fam = family_limit (ca_frame base)"
  shows "books rs (families(ca_id base \<mapsto> fam)) (as @ [a])"
proof -
  have old: "filed rs as" "accounted rs families as" "allotted rs as" "traced rs as" using assms(1) by (simp_all add: books_def)
  have same: "r = c" if "r \<in> set rs" "ca_id r = ca_id c" for r using that assms(2,3) by (metis distinct_map inj_onD)
  have "filed rs (as @ [a])" using old(1) assms(3,6-10) by (auto simp: filed_def)
  moreover have "\<forall>r \<in> set rs. legacy_rounds (ca_rounds r) = 0 \<and> length (attempts_of (ca_id r) (as @ [a])) \<le> cf_maxRounds (ca_frame r)"
    using books_held [OF old(2)] same assms(5,6) by fastforce
  then have "accounted rs (families(ca_id base \<mapsto> fam)) (as @ [a])"
    by (rule accounted_update [OF _ old(2) _ _ assms(15,12,13)]) (use assms(11,14) in simp_all)
  moreover have "allocation (as @ [a]) r = allocation as r" if "r \<in> set rs" for r
  proof (cases "r = c")
    case False
    then have "ca_id c \<noteq> ca_id r" using same [OF that] by auto
    then show ?thesis using assms(6) by (simp add: allocation_def)
  qed (use assms(4) in \<open>simp add: allocation_def\<close>)
  then have "allotted rs (as @ [a])" by (rule allotted_cong [OF old(3)])
  moreover have "traced rs (as @ [a])" by (rule traced_more [OF old(4)]) auto
  ultimately show ?thesis by (simp add: books_def)
qed

lemma sound_books:
  "sound_campaigns dg w \<longleftrightarrow> registered (wk_campaigns w) \<and> books (wk_campaigns w) (wk_families w) (wk_evaluations w)
     \<and> settled dg (wk_campaigns w) (wk_adoptions w)"
  by (auto simp: sound_campaigns_def books_def)

lemma reserve_sound:
  assumes "sound_campaigns dg w" "reserveEvaluation ndig edig ask w = Inr (res, w')"
  shows "sound_campaigns dg w'"
proof -
  let ?rs = "wk_campaigns w" and ?as = "wk_evaluations w" and ?fs = "wk_families w"
  have old: "registered ?rs" "books ?rs ?fs ?as" "settled dg ?rs (wk_adoptions w)" using assms(1) by (simp_all add: sound_books)
  have acc: "accounted ?rs ?fs ?as" and ids: "distinct (map ce_id ?as)" "distinct (concat (map arms_of ?as))"
    using old(2) by (simp_all add: books_def filed_def)
  obtain c base members where f: "find_campaign (ask_campaignId ask) ?rs = Some c" "c \<in> set ?rs" "ca_id c = ask_campaignId ask"
    "familyMembers (ca_id c) ?rs = Inr (base, members)" "set members \<subseteq> set ?rs" "leads_to ?rs (ca_id c) (ca_id base)"
    "base \<in> set ?rs" "cf_continues (ca_frame base) = None" "reserveInFamily ndig edig ask ?rs ?fs ?as = Inr res"
    "w' = w\<lparr>wk_families := ?fs(ca_id base \<mapsto> rn_family res), wk_evaluations := put_evaluation (rn_evaluation res) ?as\<rparr>"
    by (rule reserve_found [OF assms(2) old(1)])
  let ?cur = "current_family ?fs base members"
  have cur: "fm_consumed ?cur = charged_to (ca_id base) ?as" "fm_limit ?cur = family_limit (ca_frame base)"
    using current_family_charged [OF acc f(5)] current_family_limit [OF acc registered_ids [OF old(1)] f(7)] by simp_all
  have same: "books ?rs (?fs(ca_id base \<mapsto> ?cur)) ?as" by (rule books_same [OF old(2) cur f(7,8)])
  consider "replayed ?as ?cur res" | "rebound ask ?as ?cur res" | "charged (edig (ca_id c) (ask_requestId ask)) ask c base ?as ?cur res"
    using reserve_outcome [OF f(9) ids(1) f(1,4)] by blast
  then have "books ?rs (?fs(ca_id base \<mapsto> rn_family res)) (put_evaluation (rn_evaluation res) ?as)"
  proof cases
    case 1
    then show ?thesis using same replayed_put [OF 1 ids(1)] by (simp add: replayed_def)
  next
    case 2
    show ?thesis
    proof (rule rebound_sound [OF 2 ids(1)])
      fix xs a ys a'
      assume b: "?as = xs @ a # ys" "put_evaluation (rn_evaluation res) ?as = xs @ a' # ys" "same_filing a' a"
        "ce_reportedRound a = None" "mset (arms_of a') = add_mset (ask_scorecardId ask) (mset (arms_of a))"
      have "ask_scorecardId ask \<notin> set (concat (map arms_of ?as))" "rn_family res = ?cur" using 2 by (simp_all add: rebound_def)
      then show ?thesis using books_rebound [OF _ b(3,4) arms_bound_once [OF _ _ b(5)]] same ids(2) by (metis b(1,2))
    qed
  next
    case 3
    show ?thesis
    proof (rule charged_put [OF 3])
      fix a
      assume a: "put_evaluation (rn_evaluation res) ?as = ?as @ [a]" "ce_id a = edig (ca_id c) (ask_requestId ask)"
        "ce_campaignId a = ask_campaignId ask" "ce_familyId a = ca_id base" "arms_of a = [ask_scorecardId ask]"
      show ?thesis unfolding a(1)
        by (rule books_charged [OF old(2) registered_ids [OF old(1)] f(2), where s = "ask_scorecardId ask"])
          (use 3 a f cur in \<open>simp_all add: charged_def\<close>)
    qed
  qed
  then show ?thesis using old by (simp add: sound_books f(10))
qed

subsection \<open>A campaign changed\<close>

text \<open>A change that keeps the id and the frame of a campaign and does not raise what it holds keeps the books.\<close>

lemma family_of_put:
  assumes "distinct (map ca_id rs)" "c \<in> set rs" "ca_id c' = ca_id c" "ca_frame c' = ca_frame c"
  shows "family_of (put_campaign c' rs) b = put_campaign c' (family_of rs b)"
  unfolding family_of_def put_campaign_leads [OF assms] unfolding put_campaign_def filter_map
  by (intro map_cong filter_cong) (auto simp: assms(3))

lemma allocation_put:
  assumes "distinct (map ca_id rs)" "c \<in> set rs" "ca_id c' = ca_id c" "ca_frame c' = ca_frame c"
    "allocation as c' \<le> allocation as c"
  shows "sum_list (map (allocation as) (family_of (put_campaign c' rs) b)) \<le> sum_list (map (allocation as) (family_of rs b))"
proof -
  have "q = c" if "q \<in> set rs" "ca_id q = ca_id c" for q using that assms(1,2) by (metis distinct_map inj_onD)
  then have "allocation as (if ca_id q = ca_id c' then c' else q) \<le> allocation as q" if "q \<in> set (family_of rs b)" for q
    using that assms(3,5) by (auto simp: family_of_def)
  then have "sum_list (map (allocation as) (put_campaign c' (family_of rs b))) \<le> sum_list (map (allocation as) (family_of rs b))"
    unfolding put_campaign_def map_map comp_def by (intro sum_list_mono)
  then show ?thesis by (simp only: family_of_put [OF assms(1-4)])
qed

lemma allotted_put:
  assumes "distinct (map ca_id rs)" "allotted rs as" "c \<in> set rs" "ca_id c' = ca_id c" "ca_frame c' = ca_frame c"
    "allocation as c' \<le> allocation as c"
  shows "allotted (put_campaign c' rs) as"
  unfolding allotted_def
proof (intro ballI impI)
  fix q assume q: "q \<in> set (put_campaign c' rs)" "cf_continues (ca_frame q) = None"
  then obtain p where p: "p \<in> set rs" "ca_id p = ca_id q" "ca_frame p = ca_frame q"
    using assms(3-5) by (auto simp: put_campaign_set [OF assms(1,3,4)])
  then have "sum_list (map (allocation as) (family_of rs (ca_id q))) \<le> family_limit (ca_frame q)"
    using assms(2) q(2) by (auto simp: allotted_def)
  then show "sum_list (map (allocation as) (family_of (put_campaign c' rs) (ca_id q))) \<le> family_limit (ca_frame q)"
    using allocation_put [OF assms(1,3-6)] le_trans by blast
qed

lemma family_holds_put:
  assumes "distinct (map ca_id rs)" "family_holds rs b family n" "c \<in> set rs" "ca_id c' = ca_id c" "ca_frame c' = ca_frame c"
  shows "family_holds (put_campaign c' rs) b family n"
proof (cases family)
  case (Some fam)
  then obtain r where r: "fm_consumed fam = n" "r \<in> set rs" "ca_id r = b" "cf_continues (ca_frame r) = None"
    "fm_limit fam = family_limit (ca_frame r)" using assms(2) by auto
  then show ?thesis
    using assms(4,5) Some by (cases "r = c") (auto simp: put_campaign_set [OF assms(1,3,4)])
qed (use assms(2) in simp)

lemma accounted_put:
  assumes "distinct (map ca_id rs)" "accounted rs families as" "c \<in> set rs" "ca_id c' = ca_id c" "ca_frame c' = ca_frame c"
    "legacy_rounds (ca_rounds c') = 0"
  shows "accounted (put_campaign c' rs) families as"
  unfolding accounted_def
proof (intro conjI allI)
  show "family_holds (put_campaign c' rs) b (families b) (charged_to b as)" for b
    by (rule family_holds_put [OF assms(1) _ assms(3-5)]) (use assms(2) in \<open>simp add: accounted_def\<close>)
qed (use books_held [OF assms(2)] assms(3-6) in \<open>auto simp: put_campaign_set [OF assms(1,3,4)]\<close>)

lemma traced_put:
  assumes "distinct (map ca_id rs)" "traced rs as" "c \<in> set rs" "ca_id c' = ca_id c"
    "\<And>k. k < length (ca_rounds c') \<Longrightarrow> \<exists>a \<in> set as. spends c' k (ca_rounds c' ! k) a"
  shows "traced (put_campaign c' rs) as"
  using assms(2,5) by (auto simp: traced_def put_campaign_set [OF assms(1,3,4)])

lemma books_put:
  assumes "distinct (map ca_id rs)" "books rs families as" "c \<in> set rs" "ca_id c' = ca_id c" "ca_frame c' = ca_frame c"
    "allocation as c' \<le> allocation as c" "legacy_rounds (ca_rounds c') = 0"
    "\<And>k. k < length (ca_rounds c') \<Longrightarrow> \<exists>a \<in> set as. spends c' k (ca_rounds c' ! k) a"
  shows "books (put_campaign c' rs) families as"
  using assms(2) filed_put [OF assms(1) _ assms(3-5)] accounted_put [OF assms(1) _ assms(3-5,7)]
    allotted_put [OF assms(1) _ assms(3-6)] traced_put [OF assms(1) _ assms(3,4,8)]
  by (simp add: books_def)

subsection \<open>A round is logged\<close>

lemma owned_bound: "owns_evaluation i r a \<Longrightarrow> same_filing (a\<lparr>ce_reportedRound := n\<rparr>) a
    \<and> arms_of (a\<lparr>ce_reportedRound := n\<rparr>) = arms_of a \<and> ce_reportedRound a = None"
  by (simp add: owns_evaluation_def same_filing_def arms_of_def)

lemma appended_parts:
  assumes "appendRound i r n w = Inr (Appended, w')" "rv_evaluationId (rd_verdict r) \<noteq> None" "distinct (map ca_id (wk_campaigns w))"
    "distinct (map ce_id (wk_evaluations w))"
  obtains c xs a ys where "c \<in> set (wk_campaigns w)" "ca_id c = i" "ca_state c = Open_campaign" "length (ca_rounds c) = n"
    "wk_evaluations w = xs @ a # ys" "rv_evaluationId (rd_verdict r) = Some (ce_id a)" "owns_evaluation i r a"
    "w' = w\<lparr>wk_campaigns := put_campaign (c\<lparr>ca_rounds := ca_rounds c @ [r]\<rparr>) (wk_campaigns w),
            wk_evaluations := xs @ a\<lparr>ce_reportedRound := Some (rd_seq r)\<rparr> # ys\<rparr>"
proof -
  obtain e where e: "rv_evaluationId (rd_verdict r) = Some e" using assms(2) by blast
  obtain c where c: "find_campaign i (wk_campaigns w) = Some c"
    using assms(1) by (auto simp: appendRound_def split: option.splits)
  obtain a where a: "find_evaluation e (wk_evaluations w) = Some a" "owns_evaluation i r a"
    and rest: "ca_state c = Open_campaign" "length (ca_rounds c) = n"
      "w' = w\<lparr>wk_campaigns := put_campaign (c\<lparr>ca_rounds := ca_rounds c @ [r]\<rparr>) (wk_campaigns w),
              wk_evaluations := put_evaluation (a\<lparr>ce_reportedRound := Some (rd_seq r)\<rparr>) (wk_evaluations w)\<rparr>"
    using assms(1) c e by (auto simp: appendRound_def named_evaluation_def Let_def split: option.splits if_splits)
  have mem: "a \<in> set (wk_evaluations w)" "ce_id a = e" "c \<in> set (wk_campaigns w)" "ca_id c = i"
    using a(1) c by (simp_all add: find_evaluation_Some [OF assms(4)] find_campaign_iff [OF assms(3)])
  then obtain xs ys where "wk_evaluations w = xs @ a # ys" by (meson split_list)
  then show thesis
    using that mem a(2) rest e put_evaluation_split [of xs a ys "a\<lparr>ce_reportedRound := Some (rd_seq r)\<rparr>"] assms(4) by simp
qed

lemma settled_put_open:
  assumes "distinct (map ca_id rs)" "settled dg rs ops" "c \<in> set rs" "ca_state c = Open_campaign" "ca_id c' = ca_id c"
    "ca_state c' = ca_state c" "ca_close c' = ca_close c"
  shows "settled dg (put_campaign c' rs) ops"
proof -
  have "ca_id ` set (put_campaign c' rs) = ca_id ` set rs" by (rule ids_image) simp
  moreover have "closed_by_gate dg c' (ops (ca_id c'))"
    using assms by (auto simp: settled_def closed_by_gate_def)
  ultimately show ?thesis using assms(2) by (auto simp: settled_def put_campaign_set [OF assms(1,3,5)])
qed

lemma append_sound:
  assumes "sound_campaigns dg w" "appendRound i r n w = Inr (out, w')" "rd_seq r = n + 1" "rv_evaluationId (rd_verdict r) \<noteq> None"
  shows "sound_campaigns dg w'"
proof (cases "out = Appended")
  case False
  then have "w' = w" using assms(2) by (auto simp: appendRound_def Let_def split: option.splits if_splits)
  then show ?thesis using assms(1) by simp
next
  case True
  let ?rs = "wk_campaigns w" and ?as = "wk_evaluations w" and ?fs = "wk_families w"
  have old: "registered ?rs" "books ?rs ?fs ?as" "settled dg ?rs (wk_adoptions w)" using assms(1) by (simp_all add: sound_books)
  have d: "distinct (map ca_id ?rs)" "distinct (map ce_id ?as)" using old by (simp_all add: books_def filed_def registered_def)
  obtain c xs a ys where p: "c \<in> set ?rs" "ca_id c = i" "ca_state c = Open_campaign" "length (ca_rounds c) = n"
    "?as = xs @ a # ys" "rv_evaluationId (rd_verdict r) = Some (ce_id a)" "owns_evaluation i r a"
    "w' = w\<lparr>wk_campaigns := put_campaign (c\<lparr>ca_rounds := ca_rounds c @ [r]\<rparr>) ?rs,
            wk_evaluations := xs @ a\<lparr>ce_reportedRound := Some (rd_seq r)\<rparr> # ys\<rparr>"
    by (rule appended_parts [OF assms(2) [unfolded True] assms(4) d])
  let ?c = "c\<lparr>ca_rounds := ca_rounds c @ [r]\<rparr>" and ?a = "a\<lparr>ce_reportedRound := Some (rd_seq r)\<rparr>"
  have b: "books ?rs ?fs (xs @ ?a # ys)"
    by (rule books_rebound [of _ _ xs a ys])
      (use old(2) p(5) owned_bound [OF p(7)] in \<open>auto simp: books_def filed_def\<close>)
  have "spends ?c n r ?a" using p assms(3) by (simp add: spends_def owns_evaluation_def)
  then have "\<exists>q \<in> set (xs @ ?a # ys). spends ?c k (ca_rounds ?c ! k) q" if "k < length (ca_rounds ?c)" for k
    using that b p(1,4) by (cases "k = n") (auto simp: nth_append books_def traced_def spends_def)
  moreover have "legacy_rounds (ca_rounds ?c) = 0"
    using books_held [of ?rs ?fs ?as] old(2) p(1,6) by (auto simp: books_def legacy_rounds_def)
  ultimately have "books (put_campaign ?c ?rs) ?fs (xs @ ?a # ys)"
    using p(3) by (intro books_put [OF d(1) b p(1)]) (simp_all add: allocation_def)
  moreover have "registered (put_campaign ?c ?rs)" by (rule registered_put [OF old(1) p(1)]) simp_all
  moreover have "settled dg (put_campaign ?c ?rs) (wk_adoptions w)" by (rule settled_put_open [OF d(1) old(3) p(1,3)]) simp_all
  ultimately show ?thesis by (simp add: sound_books p(8))
qed

end
