(* ===== verification/CampaignClose.thy ===== *)
theory CampaignClose
  imports CampaignSpend
begin

text \<open>
  The close of a campaign and the run of a workspace: every sequence of calls and writes, in any order, keeps the books,
  and what follows from the books.
\<close>

subsection \<open>Later stores\<close>

text \<open>No call removes a campaign, changes its frame or drops a round of it.\<close>

definition extends :: "campaign_store \<Rightarrow> campaign_store \<Rightarrow> bool" where
  "extends w w' \<longleftrightarrow>
     (\<forall>c \<in> set (wk_campaigns w). \<exists>c' \<in> set (wk_campaigns w'). ca_id c' = ca_id c \<and> ca_frame c' = ca_frame c
        \<and> ca_frameDigest c' = ca_frameDigest c \<and> ca_issueId c' = ca_issueId c \<and> (\<exists>later. ca_rounds c' = ca_rounds c @ later))"

lemma extends_refl [simp]: "extends w w"
  by (auto simp: extends_def)

lemma extends_subset: "set (wk_campaigns w) \<subseteq> set (wk_campaigns w') \<Longrightarrow> extends w w'"
  by (auto simp: extends_def)

lemma extends_put:
  assumes "distinct (map ca_id (wk_campaigns w))" "c \<in> set (wk_campaigns w)" "ca_id c' = ca_id c" "ca_frame c' = ca_frame c"
    "ca_frameDigest c' = ca_frameDigest c" "ca_issueId c' = ca_issueId c" "ca_rounds c' = ca_rounds c @ later"
    "wk_campaigns w' = put_campaign c' (wk_campaigns w)"
  shows "extends w w'"
  unfolding extends_def
proof
  fix q assume "q \<in> set (wk_campaigns w)"
  then show "\<exists>q' \<in> set (wk_campaigns w'). ca_id q' = ca_id q \<and> ca_frame q' = ca_frame q
      \<and> ca_frameDigest q' = ca_frameDigest q \<and> ca_issueId q' = ca_issueId q \<and> (\<exists>later. ca_rounds q' = ca_rounds q @ later)"
    using assms(3-8) by (cases "q = c") (auto simp: put_campaign_set [OF assms(1-3)])
qed

lemma sound_task_later:
  assumes "sound_task dg w t" "extends w w'"
  shows "sound_task dg w' t"
proof (cases t)
  case (Settling i s)
  then obtain c where c: "c \<in> set (wk_campaigns w)" "ca_id c = i" "se_expected s \<le> length (ca_rounds c)"
    "answers dg c (take (se_expected s) (ca_rounds c)) (se_state s) (se_outcome s) (map_option op_proof (se_operation s))"
    using assms(1) by auto
  then obtain c' later where c': "c' \<in> set (wk_campaigns w')" "ca_id c' = ca_id c" "ca_frame c' = ca_frame c"
    "ca_frameDigest c' = ca_frameDigest c" "ca_issueId c' = ca_issueId c" "ca_rounds c' = ca_rounds c @ later"
    using assms(2) by (auto simp: extends_def)
  have "answers dg c' (take (se_expected s) (ca_rounds c')) (se_state s) (se_outcome s) (map_option op_proof (se_operation s))"
    using c(3,4) answers_cong [OF c'(2-5)] by (simp add: c'(6))
  then show ?thesis using assms(1) c c' Settling by auto
qed (use assms in auto)

subsection \<open>The settlement\<close>

lemma prepare_settles:
  assumes "prepare_settlement (dg_policy dg) (dg_answer dg) batches i w = Inr s" "distinct (map ca_id (wk_campaigns w))"
  shows "sound_task dg w (Settling i s)"
proof -
  obtain c where f: "find_campaign i (wk_campaigns w) = Some c"
    using assms(1) by (auto simp: prepare_settlement_def get_campaign_def split: option.splits)
  then have c: "c \<in> set (wk_campaigns w)" "ca_id c = i" by (simp_all add: find_campaign_iff [OF assms(2)])
  have e: "requireEligibleFrame c = Inr ()"
    using assms(1) f by (cases "requireEligibleFrame c") (auto simp: prepare_settlement_def get_campaign_def split: if_splits)
  let ?answer = "campaignAdoption (dg_policy dg) (ca_frame c) (ca_rounds c) (spendOf batches c None w)"
  have s: "se_expected s = length (ca_rounds c)"
    "(\<exists>a p. an_decision ?answer = Adopt a \<and> adoptionProofOf (dg_answer dg) ?answer c (ca_rounds c) = Some p
        \<and> se_state s = Adopted_campaign \<and> se_outcome s = Closed_adopted a \<and> se_operation s = Some (adoption_of p))
     \<or> (\<exists>h. an_decision ?answer = Halt h \<and> h \<noteq> Halt_identity_unverified \<and> se_state s = halted h
        \<and> se_outcome s = Closed_halted h \<and> se_operation s = None)"
    using assms(1) f e
    by (auto simp: prepare_settlement_def get_campaign_def Let_def split: if_splits campaign_decision.splits option.splits)
  have "answers dg c (ca_rounds c) (se_state s) (se_outcome s) (map_option op_proof (se_operation s))"
    unfolding answers_def Let_def using s(2)
    by (intro exI [of _ "spendOf batches c None w"]) (auto simp: adoption_of_def)
  moreover have "pf_campaignId p = ca_id c" if "adoptionProofOf (dg_answer dg) ?answer c (ca_rounds c) = Some p" for p
    using that by (auto simp: adoptionProofOf_def split: campaign_decision.splits if_splits)
  then have "\<forall>p \<in> set_option (se_operation s). p = adoption_of (op_proof p) \<and> pf_campaignId (op_proof p) = i"
    using s(2) c(2) by (auto simp: adoption_of_def)
  ultimately show ?thesis using c s(1) by auto
qed

lemma prepare_logs:
  assumes "prepare_round ndig i inp rr w = Inr (r, n)"
  shows "rd_seq r = n + 1 \<and> rv_evaluationId (rd_verdict r) \<noteq> None"
proof -
  obtain c a alpha family where f: "get_campaign i w = Inr c" "evaluationForScorecard (ri_candidateScorecardId inp) w = Some a"
    "cf_fdrAlpha (ca_frame c) = Some alpha" "cf_heldOutFamilySize (ca_frame c) = Some family"
    "requireEligibleFrame c = Inr ()"
    using assms
    by (cases "get_campaign i w"; cases "requireEligibleFrame (projr (get_campaign i w))")
      (auto simp: prepare_round_def split: if_splits option.splits)
  obtain subjects where "checked_subjects (ca_frame c) (ri_candidateVersion inp) (fst (rr_sides rr)) (snd (rr_sides rr)) = Inr subjects"
    using assms f
    by (cases "checked_subjects (ca_frame c) (ri_candidateVersion inp) (fst (rr_sides rr)) (snd (rr_sides rr))")
      (auto simp: prepare_round_def split: if_splits)
  then show ?thesis using assms f by (auto simp: prepare_round_def round_of_def split: if_splits)
qed

lemma adoption_of_lawful: "lawful_operation (adoption_of p)"
  by (auto simp: lawful_operation_def adoption_of_def code_owed_def split: option.splits)

lemma settled_put_closed:
  assumes "distinct (map ca_id rs)" "settled dg rs ops" "c \<in> set rs" "ca_id c' = ca_id c" "closed_by_gate dg c' (ops' (ca_id c))"
    "\<And>j. j \<noteq> ca_id c \<Longrightarrow> ops' j = ops j" "\<And>p. ops' (ca_id c) = Some p \<Longrightarrow> lawful_operation p"
  shows "settled dg (put_campaign c' rs) ops'"
  unfolding settled_def
proof (intro conjI ballI)
  fix q assume "q \<in> set (put_campaign c' rs)"
  then consider "q = c'" | "q \<in> set rs" "q \<noteq> c" by (auto simp: put_campaign_set [OF assms(1,3,4)])
  then show "closed_by_gate dg q (ops' (ca_id q))"
  proof cases
    case 2
    then have "ca_id q \<noteq> ca_id c" using assms(1,3) by (metis distinct_map inj_onD)
    then show ?thesis using 2 assms(2,6) by (simp add: settled_def)
  qed (use assms(4,5) in simp)
next
  have ids: "ca_id ` set (put_campaign c' rs) = ca_id ` set rs" by (rule ids_image) simp
  show "dom ops' \<subseteq> ca_id ` set (put_campaign c' rs)"
  proof
    fix j assume j: "j \<in> dom ops'"
    show "j \<in> ca_id ` set (put_campaign c' rs)"
    proof (cases "j = ca_id c")
      case False
      then have "j \<in> dom ops" using j assms(6) by (simp add: dom_def)
      then show ?thesis using assms(2) by (auto simp: ids settled_def)
    qed (use assms(3) in \<open>simp add: ids\<close>)
  qed
next
  fix p assume "p \<in> ran ops'"
  then obtain j where "ops' j = Some p" by (auto simp: ran_def)
  then show "lawful_operation p" using assms(2,6,7) by (cases "j = ca_id c") (auto simp: settled_def ran_def)
qed

lemma close_parts:
  assumes "close_campaign i state outcome n operation w = (out, w')"
  obtains "w' = w" "out \<noteq> Closed"
  | c where "out = Closed" "find_campaign i (wk_campaigns w) = Some c" "ca_state c = Open_campaign" "length (ca_rounds c) = n"
    "w' = w\<lparr>wk_campaigns := put_campaign (c\<lparr>ca_state := state, ca_close := Some outcome\<rparr>) (wk_campaigns w),
            wk_adoptions := (case operation of
              None \<Rightarrow> wk_adoptions w
            | Some p \<Rightarrow>
                if wk_adoptions w (pf_campaignId (op_proof p)) \<noteq> None then wk_adoptions w
                else (wk_adoptions w)(pf_campaignId (op_proof p) \<mapsto> p))\<rparr>"
  using assms unfolding close_campaign_def
  by (cases "find_campaign i (wk_campaigns w)") (auto split: if_split_asm)

lemma close_sound:
  assumes "sound_campaigns dg w" "sound_task dg w (Settling i s)"
    "close_campaign i (se_state s) (se_outcome s) (se_expected s) (se_operation s) w = (out, w')"
  shows "sound_campaigns dg w' \<and> extends w w'"
  using assms(3)
proof (cases rule: close_parts)
  case 1
  then show ?thesis using assms(1) by simp
next
  case (2 c)
  let ?rs = "wk_campaigns w" and ?as = "wk_evaluations w" and ?fs = "wk_families w" and ?ops = "wk_adoptions w"
  have old: "registered ?rs" "books ?rs ?fs ?as" "settled dg ?rs ?ops" using assms(1) by (simp_all add: sound_books)
  have d: "distinct (map ca_id ?rs)" using old by (simp add: registered_def)
  have c: "c \<in> set ?rs" "ca_id c = i" using 2(2) by (simp_all add: find_campaign_iff [OF d])
  let ?c = "c\<lparr>ca_state := se_state s, ca_close := Some (se_outcome s)\<rparr>"
  obtain q where q: "q \<in> set ?rs" "ca_id q = i" "se_expected s \<le> length (ca_rounds q)"
    "answers dg q (take (se_expected s) (ca_rounds q)) (se_state s) (se_outcome s) (map_option op_proof (se_operation s))"
    using assms(2) by auto
  moreover have "q = c" using q(1,2) c d by (metis distinct_map inj_onD)
  ultimately have gate: "answers dg ?c (ca_rounds c) (se_state s) (se_outcome s) (map_option op_proof (se_operation s))"
    using 2(4) by (subst answers_cong [of ?c c]) simp_all
  have none: "?ops i = None" using old(3) c 2(3) by (auto simp: settled_def closed_by_gate_def)
  let ?ops' = "case se_operation s of None \<Rightarrow> ?ops
      | Some p \<Rightarrow> if ?ops (pf_campaignId (op_proof p)) \<noteq> None then ?ops else ?ops(pf_campaignId (op_proof p) \<mapsto> p)"
  have ops: "?ops' i = se_operation s" "\<And>j. j \<noteq> i \<Longrightarrow> ?ops' j = ?ops j" "\<And>p. se_operation s = Some p \<Longrightarrow> lawful_operation p"
    using none assms(2) adoption_of_lawful by (cases "se_operation s"; auto; metis)+
  have "books (put_campaign ?c ?rs) ?fs ?as"
  proof (rule books_put [OF d old(2) c(1)])
    show "allocation ?as ?c \<le> allocation ?as c"
      using books_held [of ?rs ?fs ?as] old(2) c(1) 2(3) answers_closed [OF gate] by (simp add: allocation_def books_def)
  qed (use old(2) books_held [of ?rs ?fs ?as] c(1) in \<open>auto simp: books_def traced_def spends_def\<close>)
  moreover have "registered (put_campaign ?c ?rs)" by (rule registered_put [OF old(1) c(1)]) simp_all
  moreover have "settled dg (put_campaign ?c ?rs) ?ops'"
    using gate answers_closed [OF gate] ops c(2)
    by (intro settled_put_closed [OF d old(3) c(1)]) (simp_all add: closed_by_gate_def)
  moreover have "extends w w'" by (rule extends_put [OF d c(1), of ?c "[]"]) (simp_all add: 2(5))
  ultimately show ?thesis by (simp add: sound_books 2(5))
qed

subsection \<open>What an adoption owes\<close>

text \<open>The later writes of an operation keep its proof, so the campaign stays closed by its gate.\<close>

lemma settled_operation:
  assumes "settled dg rs ops" "ops i = Some p" "op_proof p' = op_proof p" "lawful_operation p'"
  shows "settled dg rs (ops(i \<mapsto> p'))"
proof -
  have "closed_by_gate dg c (Some p) \<longleftrightarrow> closed_by_gate dg c (Some p')" for c
    using assms(3) by (simp add: closed_by_gate_def)
  then show ?thesis using assms by (auto simp: settled_def ran_def dom_def split: if_splits)
qed

lemma operation_sound:
  assumes "sound_campaigns dg w" "wk_adoptions w i = Some p" "op_proof p' = op_proof p" "lawful_operation p \<Longrightarrow> lawful_operation p'"
  shows "sound_campaigns dg (w\<lparr>wk_adoptions := (wk_adoptions w)(i \<mapsto> p')\<rparr>)"
proof -
  have "lawful_operation p" using assms(1,2) by (auto simp: sound_campaigns_def settled_def ran_def)
  then show ?thesis using assms settled_operation [of dg "wk_campaigns w" "wk_adoptions w" i p p'] by (simp add: sound_books)
qed

lemma markRegistered_sound:
  assumes "sound_campaigns dg w"
  shows "sound_campaigns dg (snd (markRegistered pdig i digest version w)) \<and> extends w (snd (markRegistered pdig i digest version w))"
proof (cases "wk_adoptions w i")
  case (Some p)
  then show ?thesis
    using assms operation_sound [OF assms Some, of "p\<lparr>op_state := Op_registered, op_registeredVersion := Some version\<rparr>"]
    by (auto simp: markRegistered_def lawful_operation_def extends_def)
qed (use assms in \<open>simp add: markRegistered_def\<close>)

lemma markMerged_sound:
  assumes "sound_campaigns dg w"
  shows "sound_campaigns dg (snd (markMerged pdig i digest sha at_time w)) \<and> extends w (snd (markMerged pdig i digest sha at_time w))"
proof (cases "wk_adoptions w i")
  case (Some p)
  show ?thesis
  proof (cases "op_code p")
    case (Some debt)
    then show ?thesis
      using assms \<open>wk_adoptions w i = Some p\<close>
        operation_sound [OF assms \<open>wk_adoptions w i = Some p\<close>, of "p\<lparr>op_code := Some (debt\<lparr>cd_state := Code_merged sha at_time\<rparr>)\<rparr>"]
      by (auto simp: markMerged_def lawful_operation_def extends_def)
  qed (use assms Some in \<open>simp add: markMerged_def\<close>)
qed (use assms in \<open>simp add: markMerged_def\<close>)

lemma markCompleted_sound:
  assumes "sound_campaigns dg w"
  shows "sound_campaigns dg (snd (markCompleted pdig i digest w)) \<and> extends w (snd (markCompleted pdig i digest w))"
proof (cases "wk_adoptions w i")
  case (Some p)
  then show ?thesis
    using assms operation_sound [OF assms Some, of "p\<lparr>op_state := Op_completed\<rparr>"]
    by (auto simp: markCompleted_def lawful_operation_def extends_def)
qed (use assms in \<open>simp add: markCompleted_def\<close>)

subsection \<open>The workspace at work\<close>

definition sound_world :: "campaign_digests \<Rightarrow> campaign_world \<Rightarrow> bool" where
  "sound_world dg cw \<longleftrightarrow>
     sound_campaigns dg (cw_store cw) \<and> (\<forall>t \<in> ran (cw_tasks cw). sound_task dg (cw_store cw) t)"

lemma open_sound:
  assumes "sound_campaigns dg w" "open_campaign fdig newId issueId f who now w = Inr w'"
  shows "sound_campaigns dg w' \<and> extends w w'"
proof -
  have c: "creatable f" "create_campaign (opened fdig newId issueId f who now) w = Inr w'"
    using assms(2) by (cases "assertChainIsHonest f w"; auto simp: open_campaign_def split: if_splits)+
  then have "sound_campaigns dg w'" using create_sound [OF assms(1) c(2)] by (simp add: opened_def creatable_def)
  moreover have "set (wk_campaigns w) \<subseteq> set (wk_campaigns w')"
    using c(2) unfolding create_campaign_def
    by (cases "assertFamilyCapacity (opened fdig newId issueId f who now) (wk_campaigns w) (wk_evaluations w)")
      (auto split: if_splits)
  ultimately show ?thesis using extends_subset by blast
qed

lemma reserve_keeps:
  assumes "sound_campaigns dg w" "reserveEvaluation ndig edig ask w = Inr (res, w')"
  shows "sound_campaigns dg w' \<and> extends w w'"
proof -
  have "registered (wk_campaigns w)" using assms(1) by (simp add: sound_campaigns_def)
  then have "wk_campaigns w' = wk_campaigns w" by (rule reserve_found [OF assms(2)]) simp
  then show ?thesis using reserve_sound [OF assms] extends_subset [of w w'] by simp
qed

lemma append_keeps:
  assumes "sound_campaigns dg w" "appendRound i r n w = Inr (out, w')" "rd_seq r = n + 1" "rv_evaluationId (rd_verdict r) \<noteq> None"
  shows "sound_campaigns dg w' \<and> extends w w'"
proof (cases "out = Appended")
  case False
  then have "w' = w" using assms(2) by (auto simp: appendRound_def Let_def split: option.splits if_splits)
  then show ?thesis using assms(1) by simp
next
  case True
  have d: "distinct (map ca_id (wk_campaigns w))" "distinct (map ce_id (wk_evaluations w))"
    using assms(1) by (simp_all add: sound_campaigns_def filed_def registered_def)
  have "extends w w'"
  proof (rule appended_parts [OF assms(2) [unfolded True] assms(4) d])
    fix c xs a ys
    assume c: "c \<in> set (wk_campaigns w)"
      "w' = w\<lparr>wk_campaigns := put_campaign (c\<lparr>ca_rounds := ca_rounds c @ [r]\<rparr>) (wk_campaigns w),
             wk_evaluations := xs @ a\<lparr>ce_reportedRound := Some (rd_seq r)\<rparr> # ys\<rparr>"
    show ?thesis by (rule extends_put [OF d(1) c(1), of "c\<lparr>ca_rounds := ca_rounds c @ [r]\<rparr>" "[r]"]) (simp_all add: c(2))
  qed
  then show ?thesis using append_sound [OF assms] by simp
qed

lemma write_sound:
  assumes "sound_campaigns dg w" "sound_task dg w t" "write_task t w = (t', w')"
  shows "sound_campaigns dg w' \<and> extends w w' \<and> sound_task dg w' t'"
proof (cases t)
  case (Logging i r n)
  show ?thesis
  proof (cases "appendRound i r n w")
    case (Inr x)
    obtain out w'' where x: "appendRound i r n w = Inr (out, w'')" using Inr by (cases x) auto
    have "sound_campaigns dg w'' \<and> extends w w''"
      using append_keeps [OF assms(1) x] assms(2) Logging by simp
    then show ?thesis using assms(3) Logging x by (cases out) auto
  qed (use assms Logging in auto)
next
  case (Settling i s)
  obtain out w'' where x: "close_campaign i (se_state s) (se_outcome s) (se_expected s) (se_operation s) w = (out, w'')"
    by (cases "close_campaign i (se_state s) (se_outcome s) (se_expected s) (se_operation s) w")
  have "sound_campaigns dg w'' \<and> extends w w''" using close_sound [OF assms(1) _ x] assms(2) Settling by simp
  then show ?thesis using assms(3) Settling x by (cases out) auto
qed (use assms in auto)

lemma world_kept:
  assumes "sound_world dg cw" "sound_campaigns dg w'" "extends (cw_store cw) w'"
  shows "sound_world dg (cw\<lparr>cw_store := w'\<rparr>)"
  using assms sound_task_later by (auto simp: sound_world_def)

lemma world_begun:
  assumes "sound_world dg cw" "sound_task dg (cw_store cw) t"
  shows "sound_world dg (begin_task p t cw)"
  using assms by (auto simp: sound_world_def begin_task_def ran_def)

lemma step_sound:
  assumes "sound_world dg cw"
  shows "sound_world dg (campaign_step dg cw e)"
proof -
  have s: "sound_campaigns dg (cw_store cw)" using assms by (simp add: sound_world_def)
  then have d: "distinct (map ca_id (wk_campaigns (cw_store cw)))" by (simp add: sound_campaigns_def registered_def)
  show ?thesis
  proof (cases e)
    case (Open_event newId issueId f who now)
    then show ?thesis
      using assms s open_sound [OF s, of "dg_frame dg" newId issueId f who now]
      by (cases "open_campaign (dg_frame dg) newId issueId f who now (cw_store cw)") (auto simp: kept_def intro: world_kept)
  next
    case (Reserve_event ask)
    then show ?thesis
      using assms s reserve_keeps [OF s, of "dg_policy dg" "dg_evaluation dg" ask]
      by (cases "reserveEvaluation (dg_policy dg) (dg_evaluation dg) ask (cw_store cw)") (auto simp: kept_def intro: world_kept)
  next
    case (Log_event p i inp rr)
    then show ?thesis
      using assms prepare_logs [of "dg_policy dg" i inp rr "cw_store cw"]
      by (cases "prepare_round (dg_policy dg) i inp rr (cw_store cw)") (auto intro: world_begun)
  next
    case (Settle_event p i batches)
    then show ?thesis
      using assms prepare_settles [OF _ d, of dg batches i]
      by (cases "prepare_settlement (dg_policy dg) (dg_answer dg) batches i (cw_store cw)") (auto intro!: world_begun)
  next
    case (Write_event p)
    show ?thesis
    proof (cases "cw_tasks cw p")
      case (Some t)
      obtain t' w' where w: "write_task t (cw_store cw) = (t', w')" by (cases "write_task t (cw_store cw)")
      have "sound_task dg (cw_store cw) t" using assms Some by (auto simp: sound_world_def ran_def)
      then have "sound_campaigns dg w' \<and> extends (cw_store cw) w' \<and> sound_task dg w' t'" by (rule write_sound [OF s _ w])
      then show ?thesis
        using assms Write_event Some w sound_task_later by (auto simp: sound_world_def ran_def split: if_splits)
    qed (use assms Write_event in simp)
  next
    case (Register_event i digest version)
    then show ?thesis using world_kept [OF assms] markRegistered_sound [OF s] by simp
  next
    case (Merge_event i digest sha at_time)
    then show ?thesis using world_kept [OF assms] markMerged_sound [OF s] by simp
  next
    case (Complete_event i digest)
    then show ?thesis using world_kept [OF assms] markCompleted_sound [OF s] by simp
  qed
qed

lemma new_sound: "sound_world dg new_world"
  by (simp add: sound_world_def new_world_def new_campaign_store_def sound_campaigns_def registered_def filed_def
    accounted_def allotted_def traced_def settled_def charged_to_def)

lemma foldl_sound: "sound_world dg cw \<Longrightarrow> sound_world dg (foldl (campaign_step dg) cw es)"
  by (induction es arbitrary: cw) (simp_all add: step_sound)

lemma run_sound: "sound_campaigns dg (cw_store (campaign_run dg es))"
  using foldl_sound [OF new_sound] by (simp add: campaign_run_def sound_world_def)

end
