(* ===== verification/CampaignTheorems.thy ===== *)
theory CampaignTheorems
  imports CampaignClose
begin

text \<open>
  What holds of a workspace after any calls and writes: a family spends no more than its root registered, no batch serves
  two rounds, a campaign closes as its own gate says, and an open campaign has an exit.
\<close>

subsection \<open>The budget of a family\<close>

lemma counted_once:
  assumes "q \<in> set qs" "ce_campaignId a = ca_id q"
  shows "1 + sum_list (map (\<lambda>q. length (attempts_of (ca_id q) as)) qs)
    \<le> sum_list (map (\<lambda>q. length (attempts_of (ca_id q) (a # as))) qs)"
  using assms
proof (induction qs)
  case (Cons p qs)
  have le: "sum_list (map (\<lambda>q. length (attempts_of (ca_id q) as)) qs) \<le> sum_list (map (\<lambda>q. length (attempts_of (ca_id q) (a # as))) qs)"
    by (rule sum_list_mono) simp
  show ?case
  proof (cases "p = q")
    case True
    then show ?thesis using le Cons.prems by simp
  next
    case False
    then show ?thesis using Cons by auto
  qed
qed simp

lemma charged_by_members:
  assumes "\<And>a. a \<in> set as \<Longrightarrow> ce_familyId a = b \<Longrightarrow> \<exists>q \<in> set qs. ca_id q = ce_campaignId a"
  shows "charged_to b as \<le> sum_list (map (\<lambda>q. length (attempts_of (ca_id q) as)) qs)"
  using assms
proof (induction as)
  case (Cons a as)
  have rest: "charged_to b as \<le> sum_list (map (\<lambda>q. length (attempts_of (ca_id q) as)) qs)" using Cons by auto
  have mono: "sum_list (map (\<lambda>q. length (attempts_of (ca_id q) as)) qs)
      \<le> sum_list (map (\<lambda>q. length (attempts_of (ca_id q) (a # as))) qs)" by (rule sum_list_mono) simp
  show ?case
  proof (cases "ce_familyId a = b")
    case True
    then obtain q where "q \<in> set qs" "ce_campaignId a = ca_id q" using Cons.prems [of a] by auto
    then show ?thesis using counted_once [of q qs a as] rest True by simp
  next
    case False
    then have "charged_to b (a # as) = charged_to b as" by simp
    then show ?thesis using rest mono by linarith
  qed
qed simp

lemma family_charged:
  assumes "filed rs as" "registered rs"
  shows "charged_to b as \<le> sum_list (map (\<lambda>q. length (attempts_of (ca_id q) as)) (family_of rs b))"
proof (rule charged_by_members)
  fix a assume "a \<in> set as" "ce_familyId a = b"
  then have "ce_campaignId a \<in> ca_id ` set rs" "leads_to rs (ce_campaignId a) b" using assms(1) by (auto simp: filed_def)
  then show "\<exists>q \<in> set (family_of rs b). ca_id q = ce_campaignId a" by (auto simp: family_of_def)
qed

text \<open>A campaign holds at least what it spent.\<close>

lemma spent_within:
  assumes "accounted rs families as" "q \<in> set rs"
  shows "length (attempts_of (ca_id q) as) \<le> allocation as q"
  using books_held [OF assms(1)] assms(2) by (simp add: allocation_def)

lemma family_within:
  assumes "sound_campaigns dg w" "r \<in> set (wk_campaigns w)" "cf_continues (ca_frame r) = None"
  shows "charged_to (ca_id r) (wk_evaluations w) \<le> family_limit (ca_frame r)"
proof -
  let ?rs = "wk_campaigns w" and ?as = "wk_evaluations w"
  have s: "registered ?rs" "filed ?rs ?as" "accounted ?rs (wk_families w) ?as" "allotted ?rs ?as"
    using assms(1) by (simp_all add: sound_campaigns_def)
  have "charged_to (ca_id r) ?as \<le> sum_list (map (\<lambda>q. length (attempts_of (ca_id q) ?as)) (family_of ?rs (ca_id r)))"
    by (rule family_charged [OF s(2,1)])
  also have "\<dots> \<le> sum_list (map (allocation ?as) (family_of ?rs (ca_id r)))"
    by (rule sum_list_mono) (use spent_within [OF s(3)] in \<open>auto simp: family_of_def\<close>)
  also have "\<dots> \<le> family_limit (ca_frame r)" using s(4) assms(2,3) by (simp add: allotted_def)
  finally show ?thesis .
qed

text \<open>An open campaign with budget of its own left finds budget in its family.\<close>

lemma family_has_room:
  assumes "sound_campaigns dg w" "c \<in> set (wk_campaigns w)" "ca_state c = Open_campaign"
    "length (attempts_of (ca_id c) (wk_evaluations w)) < cf_maxRounds (ca_frame c)"
    "leads_to (wk_campaigns w) (ca_id c) (ca_id base)" "base \<in> set (wk_campaigns w)" "cf_continues (ca_frame base) = None"
  shows "charged_to (ca_id base) (wk_evaluations w) < family_limit (ca_frame base)"
proof -
  let ?rs = "wk_campaigns w" and ?as = "wk_evaluations w"
  let ?fam = "family_of ?rs (ca_id base)" and ?own = "\<lambda>q. length (attempts_of (ca_id q) ?as)"
  have s: "registered ?rs" "filed ?rs ?as" "accounted ?rs (wk_families w) ?as" "allotted ?rs ?as"
    using assms(1) by (simp_all add: sound_campaigns_def)
  have own: "?own q \<le> allocation ?as q" if "q \<in> set ?fam" for q using that spent_within [OF s(3)] by (auto simp: family_of_def)
  have "c \<in> set ?fam" using assms(2,5) by (simp add: family_of_def)
  then obtain xs ys where split: "?fam = xs @ c # ys" by (meson split_list)
  have "sum_list (map ?own xs) \<le> sum_list (map (allocation ?as) xs)" "sum_list (map ?own ys) \<le> sum_list (map (allocation ?as) ys)"
    using own unfolding split by (auto intro!: sum_list_mono)
  moreover have "?own c < allocation ?as c" using assms(3,4) by (simp add: allocation_def)
  ultimately have "sum_list (map ?own ?fam) < sum_list (map (allocation ?as) ?fam)" unfolding split by simp
  also have "\<dots> \<le> family_limit (ca_frame base)" using s(4) assms(6,7) by (simp add: allotted_def)
  finally show ?thesis using family_charged [OF s(2,1), of "ca_id base"] by simp
qed

subsection \<open>Rounds and reservations\<close>

lemma distinct_concat_map:
  assumes "\<And>i. i < length xs \<Longrightarrow> distinct (f (xs ! i))"
    "\<And>i j. i < j \<Longrightarrow> j < length xs \<Longrightarrow> set (f (xs ! i)) \<inter> set (f (xs ! j)) = {}"
  shows "distinct (concat (map f xs))"
  using assms
proof (induction xs)
  case (Cons x xs)
  have "distinct (concat (map f xs))"
    by (rule Cons.IH) (use Cons.prems(1) [of "Suc _"] Cons.prems(2) [of "Suc _" "Suc _"] in auto)
  moreover have "set (f x) \<inter> set (f y) = {}" if y: "y \<in> set xs" for y
  proof -
    obtain j where "j < length xs" "xs ! j = y" using y by (auto simp: in_set_conv_nth)
    then show ?thesis using Cons.prems(2) [of 0 "Suc j"] by simp
  qed
  ultimately show ?case using Cons.prems(1) [of 0] by auto
qed simp

definition batches_of :: "campaign_round \<Rightarrow> string list" where
  "batches_of r = [rd_baselineScorecardId r, rd_candidateScorecardId r]"

lemma spends_arms: "spends c k r a \<Longrightarrow> arms_of a = batches_of r"
  by (auto simp: spends_def arms_of_def batches_of_def List.map_filter_simps)

lemma distinct_arms:
  assumes "distinct (concat (map arms_of as))" "a \<in> set as"
  shows "distinct (arms_of a)" "b \<in> set as \<Longrightarrow> a \<noteq> b \<Longrightarrow> set (arms_of a) \<inter> set (arms_of b) = {}"
proof -
  obtain xs ys where s: "as = xs @ a # ys" using assms(2) by (meson split_list)
  then show "distinct (arms_of a)" using assms(1) by simp
  assume "b \<in> set as" "a \<noteq> b"
  then show "set (arms_of a) \<inter> set (arms_of b) = {}" using assms(1) unfolding s by auto
qed

lemma batches_disjoint:
  assumes "traced rs as" "distinct (concat (map arms_of as))" "c \<in> set rs" "c' \<in> set rs" "k < length (ca_rounds c)"
    "k' < length (ca_rounds c')" "ca_id c \<noteq> ca_id c' \<or> k \<noteq> k'"
  shows "set (batches_of (ca_rounds c ! k)) \<inter> set (batches_of (ca_rounds c' ! k')) = {}"
proof -
  obtain a where a: "a \<in> set as" "spends c k (ca_rounds c ! k) a" using assms(1,3,5) by (auto simp: traced_def)
  obtain b where b: "b \<in> set as" "spends c' k' (ca_rounds c' ! k') b" using assms(1,4,6) by (auto simp: traced_def)
  have "a \<noteq> b" using a(2) b(2) assms(7) by (auto simp: spends_def)
  then show ?thesis using distinct_arms(2) [OF assms(2) a(1) b(1)] spends_arms [OF a(2)] spends_arms [OF b(2)] by simp
qed

text \<open>C14. The batches of all the rounds of all the campaigns of a workspace: no batch is compared twice, in one campaign or in
  two.\<close>

theorem no_batch_serves_two_rounds:
  "distinct (concat (map (\<lambda>c. concat (map batches_of (ca_rounds c))) (wk_campaigns (cw_store (campaign_run dg es)))))"
proof -
  define rs where "rs = wk_campaigns (cw_store (campaign_run dg es))"
  define as where "as = wk_evaluations (cw_store (campaign_run dg es))"
  have s: "traced rs as" "distinct (concat (map arms_of as))" "distinct (map ca_id rs)"
    using run_sound [of dg es] by (simp_all add: sound_campaigns_def filed_def registered_def rs_def as_def)
  have "distinct (concat (map (\<lambda>c. concat (map batches_of (ca_rounds c))) rs))"
  proof (rule distinct_concat_map)
    fix i assume i: "i < length rs"
    have "distinct (batches_of (ca_rounds (rs ! i) ! k))" if k: "k < length (ca_rounds (rs ! i))" for k
    proof -
      obtain a where "a \<in> set as" "spends (rs ! i) k (ca_rounds (rs ! i) ! k) a"
        using s(1) nth_mem [OF i] k unfolding traced_def by blast
      then show ?thesis using distinct_arms(1) [OF s(2)] spends_arms by metis
    qed
    then show "distinct (concat (map batches_of (ca_rounds (rs ! i))))"
      by (rule distinct_concat_map) (use batches_disjoint [OF s(1,2), of "rs ! i" "rs ! i"] i in auto)
  next
    fix i j assume ij: "i < j" "j < length rs"
    then have "ca_id (rs ! i) \<noteq> ca_id (rs ! j)" using s(3) by (auto simp: distinct_conv_nth)
    then have "set (batches_of (ca_rounds (rs ! i) ! k)) \<inter> set (batches_of (ca_rounds (rs ! j) ! l)) = {}"
      if "k < length (ca_rounds (rs ! i))" "l < length (ca_rounds (rs ! j))" for k l
      using that ij by (intro batches_disjoint [OF s(1,2)]) auto
    then show "set (concat (map batches_of (ca_rounds (rs ! i)))) \<inter> set (concat (map batches_of (ca_rounds (rs ! j)))) = {}"
      by (fastforce simp: in_set_conv_nth)
  qed
  then show ?thesis by (simp add: rs_def)
qed

text \<open>C9. A family is charged for every comparison of every campaign that leads to its root, and never more than the root
  registered.\<close>

theorem family_never_overspent:
  fixes dg es
  defines "w \<equiv> cw_store (campaign_run dg es)"
  assumes "r \<in> set (wk_campaigns w)" "cf_continues (ca_frame r) = None"
  shows "length (filter (\<lambda>a. leads_to (wk_campaigns w) (ce_campaignId a) (ca_id r)) (wk_evaluations w)) \<le> family_limit (ca_frame r)"
proof -
  let ?rs = "wk_campaigns w" and ?as = "wk_evaluations w"
  have s: "sound_campaigns dg w" unfolding w_def by (rule run_sound)
  then have "registered ?rs" "filed ?rs ?as" by (simp_all add: sound_campaigns_def)
  then have "leads_to ?rs (ce_campaignId a) (ca_id r) \<longleftrightarrow> ce_familyId a = ca_id r" if "a \<in> set ?as" for a
    using that leads_to_unique [of ?rs] by (auto simp: filed_def registered_def)
  then have "filter (\<lambda>a. leads_to ?rs (ce_campaignId a) (ca_id r)) ?as = filter (\<lambda>a. ce_familyId a = ca_id r) ?as"
    by (rule filter_cong [OF refl])
  then show ?thesis using family_within [OF s assms(2,3)] by (simp add: charged_to_def)
qed

subsection \<open>Adopted campaigns\<close>

lemma answers_adopted:
  assumes "answers dg c rounds state (Closed_adopted a) proof_of"
  shows "\<exists>spend. decideAdoption (dg_policy dg) (ca_frame c) rounds spend = Adopt a \<and> state = Adopted_campaign \<and> proof_of \<noteq> None
    \<and> proof_of = adoptionProofOf (dg_answer dg) (campaignAdoption (dg_policy dg) (ca_frame c) rounds spend) c rounds"
proof -
  obtain spend where d: "case decideAdoption (dg_policy dg) (ca_frame c) rounds spend of
      Continue_campaign _ _ \<Rightarrow> False
    | Adopt x \<Rightarrow> state = Adopted_campaign \<and> Closed_adopted a = Closed_adopted x \<and> proof_of \<noteq> None
        \<and> proof_of = adoptionProofOf (dg_answer dg) (campaignAdoption (dg_policy dg) (ca_frame c) rounds spend) c rounds
    | Halt h \<Rightarrow> h \<noteq> Halt_identity_unverified \<and> state = halted h \<and> Closed_adopted a = Closed_halted h \<and> proof_of = None"
    using assms unfolding answers_def Let_def campaignAdoption_def campaign_answer.simps by blast
  then show ?thesis by (intro exI [of _ spend]) (cases "decideAdoption (dg_policy dg) (ca_frame c) rounds spend"; auto dest: sym)
qed

text \<open>C8. A campaign that closed as adopted has its rounds to show for it, and one operation: the latest round won and no ending
  of its frame came before; the operation names that round, its version and its batch, and nothing was merged before it
  was registered.\<close>

theorem adopted_campaign_earned_it:
  fixes dg es
  defines "w \<equiv> cw_store (campaign_run dg es)"
  assumes c: "c \<in> set (wk_campaigns w)" and adopted: "ca_close c = Some (Closed_adopted a)"
  shows "ca_state c = Adopted_campaign \<and> winning (dg_policy dg) (ca_frame c) (last (ca_rounds c))
    \<and> stop_walk (winning (dg_policy dg) (ca_frame c)) (ca_frame c) 0 0 (ca_rounds c) = None
    \<and> (\<exists>p. wk_adoptions w (ca_id c) = Some p \<and> pf_campaignId (op_proof p) = ca_id c
        \<and> pf_roundSeq (op_proof p) = length (ca_rounds c) \<and> 0 < length (ca_rounds c)
        \<and> pf_version (op_proof p) = rd_candidateVersion (last (ca_rounds c)) \<and> ad_version a = pf_version (op_proof p)
        \<and> pf_provingScorecardId (op_proof p) = rd_candidateScorecardId (last (ca_rounds c))
        \<and> (op_registeredVersion p = None \<longrightarrow> op_state p = Op_decided \<and> op_code p = code_owed (op_proof p)))"
proof -
  have s: "sound_campaigns dg w" unfolding w_def by (rule run_sound)
  then have gate: "closed_by_gate dg c (wk_adoptions w (ca_id c))" and laws: "\<forall>p \<in> ran (wk_adoptions w). lawful_operation p"
    and trace: "traced (wk_campaigns w) (wk_evaluations w)"
    using c by (simp_all add: sound_campaigns_def settled_def)
  have "ca_state c \<noteq> Open_campaign" using gate adopted by (auto simp: closed_by_gate_def)
  then have ans: "answers dg c (ca_rounds c) (ca_state c) (Closed_adopted a) (map_option op_proof (wk_adoptions w (ca_id c)))"
    using gate adopted by (simp add: closed_by_gate_def)
  then obtain spend where d: "decideAdoption (dg_policy dg) (ca_frame c) (ca_rounds c) spend = Adopt a"
    "ca_state c = Adopted_campaign" "map_option op_proof (wk_adoptions w (ca_id c)) \<noteq> None"
    "map_option op_proof (wk_adoptions w (ca_id c))
      = adoptionProofOf (dg_answer dg) (campaignAdoption (dg_policy dg) (ca_frame c) (ca_rounds c) spend) c (ca_rounds c)"
    using answers_adopted by blast
  then obtain p where p: "wk_adoptions w (ca_id c) = Some p"
    "Some (op_proof p) = adoptionProofOf (dg_answer dg) (campaignAdoption (dg_policy dg) (ca_frame c) (ca_rounds c) spend) c (ca_rounds c)"
    by auto
  have win: "campaignStoppedAt (dg_policy dg) (ca_frame c) (ca_rounds c) spend = None"
    "latest_wins (winning (dg_policy dg) (ca_frame c)) (ca_rounds c)" "adopt_latest (ca_frame c) (last (ca_rounds c)) = Adopt a"
    using d(1) by (simp_all add: adopt_decision)
  then have "ca_rounds c \<noteq> []" by (simp add: latest_wins_def)
  then have "length (ca_rounds c) - 1 < length (ca_rounds c)" by simp
  then obtain e where "spends c (length (ca_rounds c) - 1) (ca_rounds c ! (length (ca_rounds c) - 1)) e"
    using trace c unfolding traced_def by blast
  then have "rd_seq (last (ca_rounds c)) = length (ca_rounds c)" using \<open>ca_rounds c \<noteq> []\<close> by (simp add: spends_def last_conv_nth)
  moreover have "lawful_operation p" using laws p(1) by (auto simp: ran_def)
  ultimately show ?thesis
    using p d(1,2) win not_stopped(1) [OF win(1)]
    by (auto simp: adoptionProofOf_def campaignAdoption_def latest_wins_def adopt_latest_cases lawful_operation_def split: if_splits)
qed

subsection \<open>An exit\<close>

text \<open>A campaign has at most as many rounds as reservations.\<close>

lemma rounds_reserved:
  assumes "traced rs as" "c \<in> set rs"
  shows "length (ca_rounds c) \<le> length (attempts_of (ca_id c) as)"
proof -
  let ?n = "length (ca_rounds c)"
  have "\<forall>k < ?n. \<exists>a \<in> set (attempts_of (ca_id c) as). ce_reportedRound a = Some (k + 1)"
    using assms by (auto simp: traced_def spends_def attempts_of_def) 
  then obtain f where f: "\<forall>k < ?n. f k \<in> set (attempts_of (ca_id c) as) \<and> ce_reportedRound (f k) = Some (k + 1)" by metis
  have "inj_on f {..<?n}"
  proof (rule inj_onI)
    fix x y assume "x \<in> {..<?n}" "y \<in> {..<?n}" "f x = f y"
    then have "Some (x + 1) = Some (y + 1)" using f by (metis lessThan_iff)
    then show "x = y" by simp
  qed
  moreover have "f ` {..<?n} \<subseteq> set (attempts_of (ca_id c) as)" using f by auto
  ultimately have "card {..<?n} \<le> card (set (attempts_of (ca_id c) as))" by (intro card_inj_on_le) auto
  then show ?thesis using card_length [of "attempts_of (ca_id c) as"] by simp
qed

lemma reservation_accepted:
  assumes "sound_campaigns dg w" "c \<in> set (wk_campaigns w)" "ca_state c = Open_campaign" "ask_campaignId ask = ca_id c"
    and walk: "stop_walk (winning ndig (ca_frame c)) (ca_frame c) 0 0 (ca_rounds c) = None"
    and room: "length (attempts_of (ca_id c) (wk_evaluations w)) < cf_maxRounds (ca_frame c)"
    and fresh: "edig (ca_id c) (ask_requestId ask) \<notin> ce_id ` set (wk_evaluations w)"
    "ask_scorecardId ask \<notin> set (concat (map arms_of (wk_evaluations w)))"
    and plan: "mset (ask_caseIds ask) = mset (map sn_id (cf_scenarios (ca_frame c)))" "ask_trials ask = cf_trialsPerCase (ca_frame c)"
  shows "\<exists>res w'. reserveEvaluation ndig edig ask w = Inr (res, w')"
proof -
  let ?rs = "wk_campaigns w" and ?as = "wk_evaluations w"
  have s: "registered ?rs" "filed ?rs ?as" "accounted ?rs (wk_families w) ?as" "traced ?rs ?as"
    using assms(1) by (simp_all add: sound_campaigns_def)
  have d: "distinct (map ca_id ?rs)" by (rule registered_ids [OF s(1)])
  obtain b where b: "leads_to ?rs (ca_id c) b" using s(1) assms(2) by (auto simp: registered_def)
  obtain base where base: "familyMembers (ca_id c) ?rs = Inr (base, filter (\<lambda>r. leads_to ?rs (ca_id r) b) ?rs)"
    "base \<in> set ?rs" "ca_id base = b" "cf_continues (ca_frame base) = None"
    using familyMembers_iff [OF d b] assms(2) by auto
  let ?cur = "current_family (wk_families w) base (filter (\<lambda>r. leads_to ?rs (ca_id r) b) ?rs)"
  have "fm_consumed ?cur < fm_limit ?cur"
    using family_has_room [OF assms(1-3) room, of base] b base current_family_charged [OF s(3), of _ base]
      current_family_limit [OF s(3) d base(2)] by simp
  moreover have "find_campaign (ca_id c) ?rs = Some c" using find_campaign_iff [OF d] assms(2) by simp
  moreover have "find_evaluation (edig (ca_id c) (ask_requestId ask)) ?as = None" using fresh(1) by (simp add: find_evaluation_None)
  moreover have "legacy_rounds (ca_rounds c) = 0" using books_held [OF s(3)] assms(2) by simp
  moreover have "length (ca_rounds c) < cf_maxRounds (ca_frame c)" using rounds_reserved [OF s(4) assms(2)] room by simp
  ultimately have "\<exists>res. reserveInFamily ndig edig ask ?rs (wk_families w) ?as = Inr res"
    using assms(3,4) walk room fresh plan base(1)
    by (simp add: reserveInFamily_def Let_def binds_scorecard_iff campaignRoundRefusal_def campaignStoppedAt_def campaignSpendOf_def)
  then show ?thesis using assms(4) base(1) by (auto simp: reserveEvaluation_def)
qed

text \<open>C15. When nothing of an open campaign is outstanding it can be settled, or the next comparison can be reserved, unless its
  latest round won and the identity of what it proved is not verified.\<close>

theorem open_campaign_has_exit:
  fixes dg es
  defines "w \<equiv> cw_store (campaign_run dg es)"
  assumes c: "c \<in> set (wk_campaigns w)" "ca_state c = Open_campaign" and idle: "cp_outstanding (spendOf batches c None w) = 0"
    and ask: "ask_campaignId ask = ca_id c" "dg_evaluation dg (ca_id c) (ask_requestId ask) \<notin> ce_id ` set (wk_evaluations w)"
    "ask_scorecardId ask \<notin> set (concat (map arms_of (wk_evaluations w)))"
    "mset (ask_caseIds ask) = mset (map sn_id (cf_scenarios (ca_frame c)))" "ask_trials ask = cf_trialsPerCase (ca_frame c)"
  shows "(\<exists>s. prepare_settlement (dg_policy dg) (dg_answer dg) batches (ca_id c) w = Inr s)
    \<or> (\<exists>res w'. reserveEvaluation (dg_policy dg) (dg_evaluation dg) ask w = Inr (res, w'))
    \<or> decideAdoption (dg_policy dg) (ca_frame c) (ca_rounds c) (spendOf batches c None w) = Halt Halt_identity_unverified
      \<and> latest_wins (winning (dg_policy dg) (ca_frame c)) (ca_rounds c)"
proof -
  let ?f = "ca_frame c" and ?rounds = "ca_rounds c" and ?spend = "spendOf batches c None w"
  have s: "sound_campaigns dg w" unfolding w_def by (rule run_sound)
  then have reg: "registered (wk_campaigns w)" and acc: "accounted (wk_campaigns w) (wk_families w) (wk_evaluations w)"
    by (simp_all add: sound_campaigns_def)
  have found: "find_campaign (ca_id c) (wk_campaigns w) = Some c" "requireEligibleFrame c = Inr ()"
    using find_campaign_iff [OF registered_ids [OF reg]] c(1) reg by (simp_all add: requireEligibleFrame_def registered_def)
  consider a where "decideAdoption (dg_policy dg) ?f ?rounds ?spend = Adopt a"
    | h where "decideAdoption (dg_policy dg) ?f ?rounds ?spend = Halt h" "h \<noteq> Halt_identity_unverified"
    | "decideAdoption (dg_policy dg) ?f ?rounds ?spend = Halt Halt_identity_unverified"
    | left k where "decideAdoption (dg_policy dg) ?f ?rounds ?spend = Continue_campaign left k"
    by (cases "decideAdoption (dg_policy dg) ?f ?rounds ?spend") auto
  then show ?thesis
  proof cases
    case 1
    then have "?rounds \<noteq> []" by (simp add: adopt_decision latest_wins_def)
    then show ?thesis
      using 1 found c(2) by (simp add: prepare_settlement_def get_campaign_def campaignAdoption_def adoptionProofOf_def Let_def)
  next
    case 2
    then show ?thesis using found c(2) by (simp add: prepare_settlement_def get_campaign_def campaignAdoption_def Let_def)
  next
    case 3
    then have "latest_wins (winning (dg_policy dg) ?f) ?rounds"
      by (auto simp: decideAdoption_def stop_halt_def split: option.splits if_splits stop_reason.splits)
    then show ?thesis using 3 by simp
  next
    case 4
    then have go: "campaignStoppedAt (dg_policy dg) ?f ?rounds ?spend = None" "\<not> latest_wins (winning (dg_policy dg) ?f) ?rounds"
      by (simp_all add: continue_decision)
    have "legacy_rounds ?rounds = 0" using books_held [OF acc] c(1) by simp
    then have "length (attempts_of (ca_id c) (wk_evaluations w)) < cf_maxRounds ?f"
      using not_stopped(2) [OF go(1) idle go(2)] by (simp add: spendOf_def campaignSpendOf_def Let_def)
    then show ?thesis
      using reservation_accepted [where edig = "dg_evaluation dg", OF s c ask(1) not_stopped(1) [OF go(1)] _ ask(2-5)] by blast
  qed
qed

subsection \<open>Records\<close>

text \<open>What the schemas of the records say by their unions and their comments: a campaign is open exactly when it has no close,
  its state is the one of its outcome, it never closes on an unverified identity, its rounds are numbered from one
  without a gap, and its frame has no defect.\<close>

definition close_typed :: "campaign_state \<Rightarrow> close_outcome option \<Rightarrow> bool" where
  "close_typed state outcome \<longleftrightarrow>
     (case outcome of
        None \<Rightarrow> state = Open_campaign
      | Some (Closed_adopted _) \<Rightarrow> state = Adopted_campaign
      | Some (Closed_halted h) \<Rightarrow> h \<noteq> Halt_identity_unverified \<and> state = halted h)"

definition campaign_typed :: "campaign_record \<Rightarrow> bool" where
  "campaign_typed c \<longleftrightarrow>
     close_typed (ca_state c) (ca_close c) \<and> map rd_seq (ca_rounds c) = [1..<length (ca_rounds c) + 1]
     \<and> campaignFrameDefects (ca_frame c) = []"

lemma answers_typed: "answers dg c rounds state outcome p \<Longrightarrow> close_typed state (Some outcome)"
  unfolding answers_def Let_def
  by (erule exE, rename_tac spend, case_tac "an_decision (campaignAdoption (dg_policy dg) (ca_frame c) rounds spend)")
    (auto simp: close_typed_def)

lemma rounds_numbered:
  assumes "traced rs as" "c \<in> set rs"
  shows "map rd_seq (ca_rounds c) = [1..<length (ca_rounds c) + 1]"
proof (rule nth_equalityI)
  fix k assume "k < length (map rd_seq (ca_rounds c))"
  then have k: "k < length (ca_rounds c)" by simp
  then obtain a where "spends c k (ca_rounds c ! k) a" using assms unfolding traced_def by blast
  then have "rd_seq (ca_rounds c ! k) = k + 1" by (simp add: spends_def)
  then show "map rd_seq (ca_rounds c) ! k = [1..<length (ca_rounds c) + 1] ! k" using k by (simp del: upt_Suc)
qed (simp del: upt_Suc)

text \<open>C32. Every record a workspace holds is well typed, and an adoption operation names a registered version exactly when it is
  past its decision and owes the code its proof names until that was registered.\<close>

theorem campaign_records_typed:
  "list_all campaign_typed (wk_campaigns (cw_store (campaign_run dg es)))
   \<and> ran (wk_adoptions (cw_store (campaign_run dg es))) \<subseteq> {p. lawful_operation p}"
proof
  let ?w = "cw_store (campaign_run dg es)"
  have s: "registered (wk_campaigns ?w)" "traced (wk_campaigns ?w) (wk_evaluations ?w)" "settled dg (wk_campaigns ?w) (wk_adoptions ?w)"
    using run_sound [of dg es] by (simp_all add: sound_campaigns_def)
  have "campaign_typed c" if c: "c \<in> set (wk_campaigns ?w)" for c
  proof -
    have "closed_by_gate dg c (wk_adoptions ?w (ca_id c))" using s(3) c by (simp add: settled_def)
    then have "close_typed (ca_state c) (ca_close c)"
      using answers_typed by (auto simp: closed_by_gate_def close_typed_def split: if_splits) 
    then show ?thesis using rounds_numbered [OF s(2) c] s(1) c by (simp add: campaign_typed_def registered_def)
  qed
  then show "list_all campaign_typed (wk_campaigns ?w)" by (simp add: list_all_iff)
  show "ran (wk_adoptions ?w) \<subseteq> {p. lawful_operation p}" using s(3) by (auto simp: settled_def)
qed

end
