(* ===== verification/CampaignEvidence.thy ===== *)
theory CampaignEvidence
  imports CampaignLaws
begin

text \<open>
  From the verdict to the trials it was read off: what a comparable round compared, and what a round that wins showed on
  the held-out cases.
\<close>

definition is_held_out :: "campaign_frame \<Rightarrow> trial_delta \<Rightarrow> bool" where
  "is_held_out f d \<longleftrightarrow> td_caseId d \<in> set (held_out_ids f)"

text \<open>What a pair of scorecards must be to count as a round of the frame.\<close>

definition conforms :: "campaign_frame \<Rightarrow> gate_input \<Rightarrow> campaign_side \<times> campaign_side \<Rightarrow> trial_diff \<Rightarrow> bool" where
  "conforms f g sides t \<longleftrightarrow>
     gi_trials g = Some t \<and> df_comparability (gi_diff g) \<noteq> No_comparison \<and> confounded_axes f g = []
     \<and> td_caseId ` set (tf_cases t) = set (map sn_id (cf_scenarios f))
     \<and> (\<forall>d \<in> set (tf_cases t). cf_trialsPerCase f \<le> td_baselineTrials d \<and> cf_trialsPerCase f \<le> td_candidateTrials d)
     \<and> \<not> judges_differ f (fst sides) (snd sides)"

lemma rejected_not_comparable [simp]: "\<not> rv_comparable (rejected_verdict f g oracle source)"
  by (simp add: rejected_verdict_def)

lemma not_thin: "thin_cases f cases = [] \<longleftrightarrow>
    (\<forall>d \<in> set cases. cf_trialsPerCase f \<le> td_baselineTrials d \<and> cf_trialsPerCase f \<le> td_candidateTrials d)"
  by (auto simp: thin_cases_def filter_empty_conv not_less)

lemma comparable_conforms:
  assumes "rv_comparable (verdictOf ndig g sides f oracle built seeds baseline candidate family)"
  obtains t source where "conforms f g sides t" "seeds = Seeds_clean" "\<nexists>r paths. oracle = Some (Oracle_touched r paths)"
    "oracle \<noteq> Some Oracle_unverifiable" "\<not> same_treatment f baseline candidate"
    "verdictOf ndig g sides f oracle built seeds baseline candidate family =
       comparable_verdict ndig f g oracle source family candidate (snd sides) (tf_cases t)"
proof -
  let ?source = "case built of Some s \<Rightarrow> Some s | None \<Rightarrow> si_origin (snd sides)"
  have clean: "seeds = Seeds_clean" "df_comparability (gi_diff g) \<noteq> No_comparison" "confounded_axes f g = []"
    using assms by (auto simp: verdictOf_def Let_def split: seed_check.splits if_splits)
  have untouched: "\<nexists>r paths. oracle = Some (Oracle_touched r paths)" "oracle \<noteq> Some Oracle_unverifiable"
    using assms clean by (auto simp: verdictOf_def Let_def)
  then have step: "verdictOf ndig g sides f oracle built seeds baseline candidate family =
      (case gi_trials g of
         None \<Rightarrow> rejected_verdict f g oracle ?source
       | Some t \<Rightarrow>
           if off_frame f (tf_cases t) then rejected_verdict f g oracle ?source
           else if thin_cases f (tf_cases t) \<noteq> []
           then (rejected_verdict f g oracle ?source)\<lparr>rv_unmeasured := unmeasured_of f (fst sides) (snd sides) (tf_cases t)\<rparr>
           else if judges_differ f (fst sides) (snd sides) then rejected_verdict f g oracle ?source
           else if same_treatment f baseline candidate then rejected_verdict f g oracle ?source
           else comparable_verdict ndig f g oracle ?source family candidate (snd sides) (tf_cases t))"
    using clean by (simp add: verdictOf_def Let_def split: option.split oracle_check.split)
  then obtain t where t: "gi_trials g = Some t" using assms by (auto split: option.splits)
  have c: "\<not> off_frame f (tf_cases t)" "thin_cases f (tf_cases t) = []" "\<not> judges_differ f (fst sides) (snd sides)"
      "\<not> same_treatment f baseline candidate"
    using assms unfolding step t by (auto split: if_splits)
  then have "conforms f g sides t"
    using clean t by (auto simp: conforms_def off_frame_def not_thin)
  then show thesis using that [of t ?source] clean untouched c step t by simp
qed

lemma counts_none: "length (filter P xs) = 0 \<longleftrightarrow> (\<forall>x \<in> set xs. \<not> P x)"
  by (simp add: filter_empty_conv)

lemma counts_some: "1 \<le> length (filter P xs) \<longleftrightarrow> (\<exists>x \<in> set xs. P x)"
  by (simp add: Suc_le_eq filter_empty_conv)

text \<open>C31. A round that wins under a frame without targets conforms to the frame, and on the held-out cases the candidate
  improved at least one of them significantly and made none significantly worse.\<close>

theorem winning_is_held_out_gain:
  assumes "winning ndig f r" "cf_targets f = []"
    and "rd_verdict r = (verdictOf ndig g sides f oracle built seeds baseline candidate family)
      \<lparr>rv_evaluationId := e, rv_evidence := x\<rparr>"
  shows "\<exists>t. conforms f g sides t
    \<and> (\<exists>d \<in> set (tf_cases t). is_held_out f d \<and> td_significant d \<and> 0 < td_delta d)
    \<and> (\<forall>d \<in> set (tf_cases t). is_held_out f d \<and> td_significant d \<longrightarrow> 0 \<le> td_delta d)"
proof -
  have "rv_comparable (verdictOf ndig g sides f oracle built seeds baseline candidate family)"
    using assms(1,3) by (simp add: winning_def Let_def)
  then obtain t source where t: "conforms f g sides t"
    "verdictOf ndig g sides f oracle built seeds baseline candidate family =
       comparable_verdict ndig f g oracle source family candidate (snd sides) (tf_cases t)"
    by (rule comparable_conforms)
  define held where "held = filter (\<lambda>c. td_caseId c \<in> set (held_out_ids f)) (filter td_significant (tf_cases t))"
  have "rv_heldOut (rd_verdict r) = Some (counts_of held)"
    by (simp add: assms(3) t(2) comparable_verdict_def Let_def held_def)
  then have "1 \<le> ho_improvements (counts_of held)" "ho_regressions (counts_of held) = 0"
    using assms(1,2) by (auto simp: winning_def Let_def)
  then have "\<exists>d \<in> set held. 0 < td_delta d" "\<forall>d \<in> set held. \<not> td_delta d < 0"
    unfolding counts_of_def round_counts.simps counts_none counts_some by auto
  then show ?thesis using t(1) by (auto simp: held_def is_held_out_def not_less)
qed

text \<open>Under a frame with targets, every target improved significantly in place of any other case.\<close>

theorem winning_flips_targets:
  assumes "winning ndig f r" "cf_targets f \<noteq> []"
    and "rd_verdict r = (verdictOf ndig g sides f oracle built seeds baseline candidate family)
      \<lparr>rv_evaluationId := e, rv_evidence := x\<rparr>"
  shows "\<exists>t. conforms f g sides t
    \<and> (\<forall>i \<in> set (cf_targets f). \<exists>d \<in> set (tf_cases t). td_caseId d = i \<and> td_significant d \<and> 0 < td_delta d)
    \<and> (\<forall>m. cf_minimumCandidateRate f = Some m \<longrightarrow>
         (\<forall>i \<in> set (cf_targets f). \<exists>d \<in> set (tf_cases t). td_caseId d = i \<and> m \<le> td_candidateRate d))
    \<and> (\<forall>d \<in> set (tf_cases t). is_held_out f d \<and> td_significant d \<longrightarrow> 0 \<le> td_delta d)"
proof -
  have "rv_comparable (verdictOf ndig g sides f oracle built seeds baseline candidate family)"
    using assms(1,3) by (simp add: winning_def Let_def)
  then obtain t source where t: "conforms f g sides t"
    "verdictOf ndig g sides f oracle built seeds baseline candidate family =
       comparable_verdict ndig f g oracle source family candidate (snd sides) (tf_cases t)"
    by (rule comparable_conforms)
  define held where "held = filter (\<lambda>c. td_caseId c \<in> set (held_out_ids f)) (filter td_significant (tf_cases t))"
  have v: "rv_heldOut (rd_verdict r) = Some (counts_of held)" "rv_targets (rd_verdict r) = targets_of f (tf_cases t)"
    by (simp_all add: assms(3) t(2) comparable_verdict_def Let_def held_def)
  then have w: "ho_regressions (counts_of held) = 0" "targets_met f (targets_of f (tf_cases t))"
    using assms(1,2) by (auto simp: winning_def Let_def)
  have "\<forall>d \<in> set held. \<not> td_delta d < 0"
    using w(1) unfolding counts_of_def round_counts.simps counts_none by simp
  moreover have "\<exists>d \<in> set (tf_cases t). td_caseId d = i \<and> td_significant d \<and> 0 < td_delta d" if "i \<in> set (cf_targets f)" for i
    using w(2) assms(2) that by (auto simp: targets_met_def targets_of_def Let_def split: if_splits)
  moreover have "\<exists>d \<in> set (tf_cases t). td_caseId d = i \<and> m \<le> td_candidateRate d"
    if "cf_minimumCandidateRate f = Some m" "i \<in> set (cf_targets f)" for m i
    using w(2) assms(2) that by (auto simp: targets_met_def targets_of_def Let_def default_or_def)
  ultimately show ?thesis using t(1) by (auto simp: held_def is_held_out_def not_less)
qed

lemma proved_case:
  assumes "proves_non_inferiority ndig f p v" "rv_nonInferiority v = Some res" "i \<in> set (held_out_ids f)"
  shows "\<exists>c \<in> set (nr_cases res). ni_case_holds p i c"
  using assms by (auto simp: proves_non_inferiority_def list_all_iff list_ex_iff)

text \<open>Under a non-inferiority policy, a round that wins compared every held-out case once, with the trials the policy asks
  for, and the interval of its change, at the level shared over all held-out cases and registered tests, stays above
  the margin.\<close>

theorem winning_bounds_every_loss:
  assumes "winning ndig f r" "cf_nonInferiority f = Some p" "i \<in> set (held_out_ids f)"
    and "rd_verdict r = (verdictOf ndig g sides f oracle built seeds baseline candidate family)
      \<lparr>rv_evaluationId := e, rv_evidence := x\<rparr>"
  shows "\<exists>t d. conforms f g sides t \<and> filter (\<lambda>d. td_caseId d = i) (tf_cases t) = [d]
    \<and> np_minimumTrials p \<le> td_baselineTrials d \<and> np_minimumTrials p \<le> td_candidateTrials d
    \<and> - np_margin p \<le> max (- 1) (of_rat (td_candidateRate d - td_baselineRate d)
        - ni_radius (ln (4 * real (max 1 (length (firsts (held_out_ids f)))) * real (max 1 family) / np_alpha p))
            (td_baselineTrials d) (td_candidateTrials d))"
proof -
  let ?tail = "ln (4 * real (max 1 (length (firsts (held_out_ids f)))) * real (max 1 family) / np_alpha p)"
  have "rv_comparable (verdictOf ndig g sides f oracle built seeds baseline candidate family)"
    using assms(1,4) by (simp add: winning_def Let_def)
  then obtain t source where t: "conforms f g sides t"
    "verdictOf ndig g sides f oracle built seeds baseline candidate family =
       comparable_verdict ndig f g oracle source family candidate (snd sides) (tf_cases t)"
    by (rule comparable_conforms)
  have res: "rv_nonInferiority (rd_verdict r) = Some (nonInferiorityOf ndig p (firsts (held_out_ids f)) family (tf_cases t))"
    by (simp add: assms(2,4) t(2) comparable_verdict_def Let_def)
  have "proves_non_inferiority ndig f p (rd_verdict r)" using assms(1,2) by (simp add: winning_def Let_def)
  then obtain c where
    "c \<in> set (nr_cases (nonInferiorityOf ndig p (firsts (held_out_ids f)) family (tf_cases t)))" "ni_case_holds p i c"
    using proved_case [OF _ res assms(3)] by blast
  then have "c \<in> set (map (ni_case_of p ?tail (tf_cases t)) (firsts (held_out_ids f)))" "ni_case_holds p i c"
    unfolding nonInferiorityOf_def Let_def ni_result.simps .
  then obtain j where c: "c = ni_case_of p ?tail (tf_cases t) j" "ni_case_holds p i c" by auto
  have "nc_caseId c = j" by (simp add: c(1) ni_case_of_def Let_def split: list.split)
  then have j: "j = i" using c(2) by (simp add: ni_case_holds_def)
  obtain d where d: "filter (\<lambda>d. td_caseId d = i) (tf_cases t) = [d]"
  proof (cases "filter (\<lambda>d. td_caseId d = i) (tf_cases t)")
    case Nil
    then show thesis using c j by (simp add: ni_case_of_def ni_case_holds_def Let_def)
  next
    case (Cons d ds)
    then show thesis using c j that by (cases ds) (simp_all add: ni_case_of_def ni_case_holds_def Let_def)
  qed
  then have "np_minimumTrials p \<le> td_baselineTrials d \<and> np_minimumTrials p \<le> td_candidateTrials d
      \<and> - np_margin p \<le> max (- 1) (of_rat (td_candidateRate d - td_baselineRate d)
          - ni_radius ?tail (td_baselineTrials d) (td_candidateTrials d))"
    using c j by (auto simp: ni_case_of_def ni_case_holds_def Let_def split: if_splits)
  then show ?thesis using t(1) d by blast
qed

end
