(* ===== verification/ExamPower.thy ===== *)
theory ExamPower
  imports CampaignVerdict TrialsLaws
begin

text \<open>
  What the trials of a frame can show: the bound of packages/contracts/src/records/evolution-campaign.ts on the exact
  test of packages/domain/src/scorecard/trials.ts, and the frames under which no round can win.
\<close>

subsection \<open>The floor of the exact test\<close>

lemma central_product:
  "fold (\<lambda>i central. central * ((of_nat n + of_nat i) / of_nat i)) [1..<k + 1] (1 :: rat) = of_nat ((n + k) choose k)"
proof (induction k)
  case (Suc k)
  let ?f = "\<lambda>i central. central * ((of_nat n + of_nat i :: rat) / of_nat i)"
  have "Suc k * (Suc (n + k) choose Suc k) = Suc (n + k) * ((n + k) choose k)" by (rule Suc_times_binomial)
  then have "of_nat (Suc k) * (of_nat (Suc (n + k) choose Suc k) :: rat) = of_nat (Suc (n + k)) * of_nat ((n + k) choose k)"
    by (metis of_nat_mult)
  then have "(of_nat (Suc (n + k) choose Suc k) :: rat) = of_nat ((n + k) choose k) * ((of_nat n + of_nat (Suc k)) / of_nat (Suc k))"
    by (simp add: field_simps)
  moreover have "fold ?f [1..<Suc k + 1] 1 = fold ?f [1..<k + 1] 1 * ((of_nat n + of_nat (Suc k)) / of_nat (Suc k))"
    by (simp add: upt_Suc)
  ultimately show ?case using Suc by simp
qed simp

lemma floor_binomial:
  assumes "0 < n"
  shows "equalArmFisherFloor n = min 1 (2 / of_nat ((2 * n) choose n))"
  unfolding equalArmFisherFloor_def central_product using assms by (simp add: mult_2)

lemma choose_ge_two: "0 < k \<Longrightarrow> k < n \<Longrightarrow> 2 \<le> n choose k"
proof (induction n arbitrary: k)
  case (Suc n)
  then obtain j where k: "k = Suc j" by (cases k) auto
  have "1 \<le> n choose j" "1 \<le> n choose Suc j" using Suc.prems k by (auto simp: Suc_le_eq)
  moreover have "Suc n choose Suc j = (n choose j) + (n choose Suc j)" by simp
  ultimately show ?case unfolding k by linarith
qed simp

lemma weight_at_least:
  assumes "cb \<le> n" "cc \<le> n" "t \<le> (n choose cb) * (n choose cc)"
  shows "real t / real ((2 * n) choose n) \<le> table_weight n n (cb + cc) cb"
proof -
  have "0 < (2 * n) choose (cb + cc)" using assms(1,2) by simp
  moreover have "(2 * n) choose (cb + cc) \<le> (2 * n) choose n" by (rule binomial_maximum')
  moreover have "real t \<le> real (n choose cb) * real (n choose cc)"
    using assms(3) by (simp only: of_nat_mult [symmetric] of_nat_le_iff)
  ultimately show ?thesis
    unfolding table_weight_def by (intro frac_le) (simp_all add: mult_2)
qed

text \<open>No table of two arms of n trials has a smaller p-value than the floor, and the table with one arm all passed and the
  other all failed has exactly that.\<close>

lemma fisher_at_least_floor:
  assumes "0 < n" "cb \<le> n" "cc \<le> n"
  shows "of_rat (equalArmFisherFloor n) \<le> fisherExactTwoSided cb n cc n"
proof -
  let ?w = "table_weight n n (cb + cc)" and ?top = "(2 * n) choose n"
  have floor: "of_rat (equalArmFisherFloor n) \<le> 2 / real ?top" "of_rat (equalArmFisherFloor n) \<le> (1 :: real)"
    unfolding floor_binomial [OF assms(1)] by (auto simp: min_def of_rat_divide of_rat_less_eq) 
  have own: "?w cb \<le> fisherExactTwoSided cb n cc n"
    using fisher_ge_own [OF assms(2,3), of "{cb}"] assms by (simp add: tables_def)
  consider "cb \<noteq> cc" | "cb = cc" "cb = 0 \<or> cb = n" | "cb = cc" "0 < cb" "cb < n" using assms by linarith
  then show ?thesis
  proof cases
    case 1
    have "?w cc = ?w cb" by (simp add: table_weight_def mult.commute)
    then have "sum ?w {cb, cc} = 2 * ?w cb" "\<forall>a \<in> {cb, cc}. ?w a \<le> ?w cb" using 1 by simp_all
    moreover have "{cb, cc} \<subseteq> tables n n (cb + cc)" using assms by (auto simp: tables_def)
    ultimately have "2 * ?w cb \<le> fisherExactTwoSided cb n cc n"
      using fisher_ge_own [OF assms(2,3), of "{cb, cc}"] by metis
    moreover have "real 1 / real ?top \<le> ?w cb"
      using assms by (intro weight_at_least) (auto simp: Suc_le_eq)
    ultimately show ?thesis using floor(1) by simp
  next
    case 2
    then have "?w cb = 1" by (auto simp: table_weight_def)
    then show ?thesis using own floor(2) by linarith
  next
    case 3
    then have "2 * 2 \<le> (n choose cb) * (n choose cc)" by (intro mult_le_mono choose_ge_two) auto
    then have "real 2 / real ?top \<le> ?w cb" using assms by (intro weight_at_least) auto
    then show ?thesis using own floor(1) by simp
  qed
qed

lemma fisher_separation:
  assumes "0 < n"
  shows "fisherExactTwoSided n n 0 n = of_rat (equalArmFisherFloor n)"
proof -
  let ?w = "table_weight n n n" and ?top = "(2 * n) choose n"
  let ?A = "{a \<in> tables n n (n + 0). table_weight n n (n + 0) a \<le> table_weight n n (n + 0) n * exp (1 / 10 ^ 9)}"
  have top: "0 < ?top" by simp
  have w: "?w a = real ((n choose a) * (n choose (n - a))) / real ?top" for a by (simp add: table_weight_def mult_2)
  have "exp (1 / 10 ^ 9 :: real) \<le> exp 1" by simp
  then have small: "exp (1 / 10 ^ 9 :: real) \<le> 3" using exp_le by linarith
  have big: "\<not> ?w a \<le> ?w n * exp (1 / 10 ^ 9)" if "0 < a" "a < n" for a
  proof -
    have "2 * 2 \<le> (n choose a) * (n choose (n - a))" using that by (intro mult_le_mono choose_ge_two) auto
    then have "4 \<le> real ((n choose a) * (n choose (n - a)))" by (metis mult_2 numeral_Bit0 of_nat_le_iff of_nat_numeral)
    then have "?w n * exp (1 / 10 ^ 9) < ?w a" using small top by (simp add: w divide_strict_right_mono)
    then show ?thesis by simp
  qed
  have "?A = {0, n}"
  proof (intro set_eqI iffI)
    fix a assume "a \<in> ?A"
    then show "a \<in> {0, n}" using big [of a] by (cases "a = 0 \<or> a = n") (auto simp: tables_def)
  next
    fix a assume "a \<in> {0, n}"
    moreover have "1 \<le> exp (1 / 10 ^ 9 :: real)" by simp
    ultimately show "a \<in> ?A" by (auto simp: tables_def w divide_right_mono)
  qed
  moreover have "fisherExactTwoSided n n 0 n = sum ?w ?A" using fisher_exact [of n n 0 n] by simp
  ultimately have "fisherExactTwoSided n n 0 n = 2 / real ?top" using assms by (simp add: w)
  moreover have "fisherExactTwoSided n n 0 n \<le> 1" using fisher_exact [of n n 0 n] by simp
  ultimately show ?thesis
    unfolding floor_binomial [OF assms] by (simp add: min_def of_rat_divide)
qed

text \<open>The bound the frame is checked against is the least p-value of the exact test over two arms of so many trials: no
  outcome goes below it, and complete separation reaches it.\<close>

theorem exact_test_floor:
  assumes "0 < n"
  shows "fisherExactTwoSided n n 0 n = of_rat (equalArmFisherFloor n)
    \<and> (\<forall>cb \<le> n. \<forall>cc \<le> n. of_rat (equalArmFisherFloor n) \<le> fisherExactTwoSided cb n cc n)"
  using fisher_separation [OF assms] fisher_at_least_floor [OF assms] by blast

subsection \<open>Frames no round can win\<close>

text \<open>Whatever is rejected lies under the level.\<close>

lemma rejected_under_level:
  assumes "0 \<le> alpha" "i < length ps" "i \<in> set (benjaminiHochberg ps alpha)"
  shows "ps ! i \<le> alpha"
proof -
  obtain k where k: "k < length ps" "ranked_ps ps ! k = ps ! i"
    "i \<in> set (benjaminiHochberg ps alpha) \<longleftrightarrow> k < last_under alpha (ranked_ps ps)"
    using rank_of_index [OF assms(2)] by blast
  then obtain v where v: "ps ! i \<le> v" "v * real (length ps) \<le> real (count_up_to ps v) * alpha"
    using last_under_count [OF assms(1) k(1)] assms(3) by auto
  have "real (count_up_to ps v) * alpha \<le> real (length ps) * alpha"
    using assms(1) by (intro mult_right_mono) (simp_all add: count_up_to_def)
  then have "v * real (length ps) \<le> alpha * real (length ps)" using v(2) by (simp add: mult.commute)
  moreover have "0 < real (length ps)" using assms(2) by (cases ps) auto
  ultimately have "v \<le> alpha" by (simp add: mult_le_cancel_right)
  then show ?thesis using v(1) by simp
qed

text \<open>A significant case of a comparison at a level has a p-value under it, computed from its trials.\<close>

lemma significant_case:
  fixes pdig sdig b c opts bp cp
  defines "t \<equiv> diffTrials pdig sdig b c opts bp cp"
  assumes "to_fdrAlpha opts = Some alpha" "0 \<le> alpha" "d \<in> set (tf_cases t)" "td_significant d"
  shows "td_p d \<le> alpha"
    and "td_baselineTrials d < FISHER_MAX_TRIALS \<Longrightarrow>
      \<exists>cb \<le> td_baselineTrials d. \<exists>cc \<le> td_candidateTrials d.
        td_p d = fisherExactTwoSided cb (td_baselineTrials d) cc (td_candidateTrials d)"
proof -
  define ps where "ps = filter scored (paired pdig sdig (default_or DEFAULT_VERDICT_POLICY bp)
    (default_or DEFAULT_VERDICT_POLICY cp) (groupTrials (sc_results b)) (groupTrials (sc_results c)))"
  let ?z = "default_or (196 / 100) (to_zThreshold opts)"
  define tested where "tested = map (\<lambda>(x, y). test_case ?z (twoSidedPFromZ ?z) x y) ps"
  let ?rej = "benjaminiHochberg (map (\<lambda>t. td_p (fst t)) tested) alpha"
  have "tf_cases t = map (\<lambda>(i, t). settle_case (default_or 0 (to_minDelta opts)) (Some ?rej) i t) (enumerate 0 tested)"
    using assms(2) by (simp add: t_def diffTrials_def Let_def tested_def ps_def)
  then obtain i where i: "i < length tested"
    "d = settle_case (default_or 0 (to_minDelta opts)) (Some ?rej) i (tested ! i)"
    using assms(4) by (auto simp: in_set_conv_nth nth_enumerate_eq)
  then have p: "td_p d = td_p (fst (tested ! i))" "i \<in> set ?rej"
    using assms(5) by (simp_all add: settle_case_def Let_def)
  then show "td_p d \<le> alpha"
    using rejected_under_level [OF assms(3), of i "map (\<lambda>t. td_p (fst t)) tested"] i(1) by simp
  obtain x y where xy: "(x, y) \<in> set ps" "tested ! i = test_case ?z (twoSidedPFromZ ?z) x y"
    using i(1) nth_mem [of i ps] by (cases "ps ! i") (auto simp: tested_def)
  then have le: "ts_passes x \<le> ts_trials x" "ts_passes y \<le> ts_trials y"
    using paired_stats [of "(x, y)"] by (auto simp: ps_def)
  have fields: "td_baselineTrials d = ts_trials x" "td_candidateTrials d = ts_trials y"
    using i(2) xy(2) by (simp_all add: settle_case_def test_case_def Let_def)
  assume "td_baselineTrials d < FISHER_MAX_TRIALS"
  then have "td_p d = fisherExactTwoSided (ts_passes x) (ts_trials x) (ts_passes y) (ts_trials y)"
    using p(1) xy(2) fields by (simp add: test_case_def Let_def)
  then show "\<exists>cb \<le> td_baselineTrials d. \<exists>cc \<le> td_candidateTrials d.
      td_p d = fisherExactTwoSided cb (td_baselineTrials d) cc (td_candidateTrials d)"
    using le fields by auto
qed

text \<open>A frame refused at creation because its level lies below the floor could not have won: at the level its rounds are
  compared, no case with the declared number of trials on both sides is significant.\<close>

theorem unwinnable_frame_shows_nothing:
  assumes "unwinnableFrame f" "cf_fdrAlpha f = Some alpha" "cf_heldOutFamilySize f = Some family" "0 \<le> alpha"
    and "d \<in> set (tf_cases (diffTrials pdig sdig b c (round_opts f alpha family) bp cp))"
    and trials: "td_baselineTrials d = cf_trialsPerCase f" "td_candidateTrials d = cf_trialsPerCase f" "0 < cf_trialsPerCase f"
  shows "\<not> td_significant d"
proof
  assume sig: "td_significant d"
  let ?n = "cf_trialsPerCase f" and ?level = "alpha / real family"
  have low: "?n < FISHER_MAX_TRIALS" "?level < of_rat (equalArmFisherFloor ?n)"
    using assms(1-3) by (simp_all add: unwinnableFrame_def)
  have opts: "to_fdrAlpha (round_opts f alpha family) = Some ?level" "0 \<le> ?level"
    using assms(4) by (simp_all add: round_opts_def)
  obtain cb cc where "cb \<le> ?n" "cc \<le> ?n" "td_p d = fisherExactTwoSided cb ?n cc ?n"
    using significant_case(2) [OF opts assms(5) sig] low(1) trials by auto
  then have "of_rat (equalArmFisherFloor ?n) \<le> td_p d" using fisher_at_least_floor [OF trials(3)] by simp
  then show False using significant_case(1) [OF opts assms(5) sig] low(2) by simp
qed

end
