(* ===== verification/CampaignDemo.thy ===== *)
theory CampaignDemo
  imports CampaignTheorems CampaignEvidence ExamPower
begin

text \<open>
  A workspace with one campaign of two scenarios, run from its opening to the registration of what it adopted: the
  properties of campaigns applied to it.
\<close>

subsection \<open>A campaign\<close>

definition demo_frame :: campaign_frame where
  "demo_frame =
     \<lparr>cf_subject = \<lparr>su_type = Harness_subject, su_id = ''h'', su_baselineVersion = ''1''\<rparr>, cf_continues = None,
      cf_scenarios = [\<lparr>sn_id = ''a'', sn_heldOut = True\<rparr>, \<lparr>sn_id = ''b'', sn_heldOut = True\<rparr>, \<lparr>sn_id = ''t'', sn_heldOut = False\<rparr>],
      cf_targets = [], cf_nonInferiority = None, cf_minimumCandidateRate = None, cf_examProvenBy = None, cf_judges = [],
      cf_trialsPerCase = 4, cf_maxRounds = 2, cf_stopAfterRejectedRounds = 2, cf_fdrAlpha = Some (1 / 10), cf_minDelta = None,
      cf_heldOutFamilySize = Some 2, cf_allowUnverifiedIdentity = False, cf_allowLabelOnlyAdoption = False, cf_oracleScope = [],
      cf_delegation = None,
      cf_observationPolicy = \<lparr>op_allowDivergent = False, op_minimumCoverage = None, op_maxUnclear = None\<rparr>\<rparr>"

definition demo_delta :: "string \<Rightarrow> rat \<Rightarrow> bool \<Rightarrow> trial_delta" where
  "demo_delta i d sig =
     \<lparr>td_caseId = i, td_baselineRate = 0, td_baselineTrials = 4, td_candidateRate = d, td_candidateTrials = 4, td_delta = d,
      td_z = 0, td_fisher = True, td_p = 1 / 35, td_significant = sig, td_fdrSuppressed = False\<rparr>"

definition demo_trials :: trial_diff where
  "demo_trials =
     \<lparr>tf_baseline = ''h'', tf_candidate = ''h'', tf_zThreshold = 196 / 100, tf_minDelta = 0, tf_fdrAlpha = Some (1 / 20),
      tf_cases = [demo_delta ''a'' 1 True, demo_delta ''b'' 0 False, demo_delta ''t'' 1 True], tf_regressions = [],
      tf_improvements = [demo_delta ''a'' 1 True, demo_delta ''t'' 1 True],
      tf_missing = \<lparr>tg_onlyInBaseline = [], tg_onlyInCandidate = [], tg_unscored = []\<rparr>\<rparr>"

definition demo_comparison :: gate_input where
  "demo_comparison =
     \<lparr>gi_diff = \<lparr>df_baseline = ''h'', df_candidate = ''h'', df_metrics = [], df_regressions = [], df_improvements = [],
        df_transitions = [], df_unavailable = None, df_coverage = [],
        df_missing = \<lparr>casesOnlyInBaseline = [], casesOnlyInCandidate = [], metricsOnlyInBaseline = [], metricsOnlyInCandidate = []\<rparr>,
        df_incomparable = [], df_sharedCases = 3, df_baselineCases = 3, df_candidateCases = 3, df_comparability = Full\<rparr>,
      gi_trials = Some demo_trials, gi_mismatch = None, gi_unresolvable = None,
      gi_experiment = Some \<lparr>ex_confounds = [], ex_unverified = []\<rparr>, gi_coverage = None, gi_critical = None\<rparr>"

definition demo_arm :: "string \<Rightarrow> string \<Rightarrow> campaign_side" where
  "demo_arm version digest =
     \<lparr>si_harnessId = ''h'', si_harnessVersion = version, si_orchestrationJudges = None, si_scoringJudges = None,
      si_results = None, si_specDigest = Some digest, si_environments = [], si_origin = None\<rparr>"

definition demo_reading :: round_reading where
  "demo_reading =
     \<lparr>rr_comparison = (\<lambda>_. demo_comparison), rr_sides = (demo_arm ''1'' ''d1'', demo_arm ''2'' ''d2''), rr_oracle = None,
      rr_built = None, rr_seeds = Seeds_clean, rr_batches = (\<lambda>_. Some (Some Batch_succeeded)), rr_evidence = (''k'', ''e''),
      rr_at = ''t1'', rr_by = ''u''\<rparr>"

definition demo_round :: round_input where
  "demo_round =
     \<lparr>ri_hypothesis = ''shorter prompt'', ri_learned = None, ri_informedBy = [], ri_candidateVersion = ''2'',
      ri_baselineScorecardId = ''sb'', ri_candidateScorecardId = ''sc''\<rparr>"

definition demo_ask :: "string \<Rightarrow> campaign_arm \<Rightarrow> string \<Rightarrow> evaluation_request" where
  "demo_ask request side batch =
     \<lparr>ask_campaignId = ''c1'', ask_requestId = request, ask_candidateVersion = ''2'', ask_side = side, ask_scorecardId = batch,
      ask_requestDigest = batch, ask_at = ''t0'', ask_caseIds = [''a'', ''b'', ''t''], ask_trials = 4\<rparr>"

definition demo_dg :: campaign_digests where
  "demo_dg =
     \<lparr>dg_policy = (\<lambda>_. ''p''), dg_evaluation = (\<lambda>c r. c @ ''/'' @ r), dg_answer = (\<lambda>_. ''g''), dg_frame = (\<lambda>_. ''f''),
      dg_proof = pf_version\<rparr>"

definition demo_start :: "campaign_event list" where
  "demo_start =
     [Open_event ''c1'' ''i1'' demo_frame ''u'' ''t0'', Reserve_event (demo_ask ''r1'' Baseline_arm ''sb''),
      Reserve_event (demo_ask ''r1'' Candidate_arm ''sc''), Log_event 0 ''c1'' demo_round demo_reading, Write_event 0]"

definition demo_events :: "campaign_event list" where
  "demo_events =
     demo_start @ [Settle_event 1 ''c1'' (\<lambda>_. Some (Some Batch_succeeded)), Write_event 1, Register_event ''c1'' ''2'' ''2'']"

definition demo_end :: campaign_store where
  "demo_end = cw_store (campaign_run demo_dg demo_events)"

text \<open>No policy here asks for an interval, so the transcendental functions stay uninterpreted.\<close>

declare raw_ln_real_def [code del] ni_radius_def [code del]

lemma demo_opens: "map ca_id (wk_campaigns (cw_store (campaign_run demo_dg demo_start))) = [''c1'']"
  by code_simp

lemma demo_closes:
  "map (\<lambda>c. (ca_id c, ca_state c, length (ca_rounds c))) (wk_campaigns demo_end) = [(''c1'', Adopted_campaign, 1)]"
  by code_simp

subsection \<open>The properties applied\<close>

abbreviation demo_campaign :: campaign_record where
  "demo_campaign \<equiv> hd (wk_campaigns demo_end)"

lemma demo_campaign_there: "demo_campaign \<in> set (wk_campaigns demo_end)"
  using demo_closes by (cases "wk_campaigns demo_end") simp_all

lemma family_never_overspent_witness:
  "length (filter (\<lambda>a. leads_to (wk_campaigns demo_end) (ce_campaignId a) (ca_id demo_campaign)) (wk_evaluations demo_end))
     \<le> family_limit (ca_frame demo_campaign)
   \<and> length (wk_evaluations demo_end) = 1"
proof
  have "cf_continues (ca_frame demo_campaign) = None" by code_simp
  then show "length (filter (\<lambda>a. leads_to (wk_campaigns demo_end) (ce_campaignId a) (ca_id demo_campaign)) (wk_evaluations demo_end))
     \<le> family_limit (ca_frame demo_campaign)"
    using family_never_overspent [of demo_campaign demo_dg demo_events] demo_campaign_there by (simp only: demo_end_def)
  show "length (wk_evaluations demo_end) = 1" by code_simp
qed

lemma adopted_campaign_earned_it_witness:
  "winning (dg_policy demo_dg) (ca_frame demo_campaign) (last (ca_rounds demo_campaign))
   \<and> map_option op_state (wk_adoptions demo_end (ca_id demo_campaign)) = Some Op_registered"
proof
  have "ca_close demo_campaign = Some (Closed_adopted
      \<lparr>ad_version = ''2'', ad_provingScorecardId = ''sc'', ad_waivedAxes = [], ad_specDigest = Some ''d2'', ad_source = None\<rparr>)"
    by code_simp
  then show "winning (dg_policy demo_dg) (ca_frame demo_campaign) (last (ca_rounds demo_campaign))"
    using adopted_campaign_earned_it [of demo_campaign demo_dg demo_events] demo_campaign_there by (simp only: demo_end_def)
  show "map_option op_state (wk_adoptions demo_end (ca_id demo_campaign)) = Some Op_registered" by code_simp
qed

definition demo_open :: campaign_store where
  "demo_open = cw_store (campaign_run demo_dg [Open_event ''c1'' ''i1'' demo_frame ''u'' ''t0''])"

lemma open_campaign_has_exit_witness:
  "\<exists>res w'. reserveEvaluation (dg_policy demo_dg) (dg_evaluation demo_dg) (demo_ask ''r1'' Baseline_arm ''sb'') demo_open = Inr (res, w')"
proof -
  let ?c = "hd (wk_campaigns demo_open)" and ?ask = "demo_ask ''r1'' Baseline_arm ''sb''" and ?batches = "(\<lambda>_. None)"
  have c: "?c \<in> set (wk_campaigns demo_open)"
    by (subgoal_tac "wk_campaigns demo_open \<noteq> []", simp, code_simp)
  have open_now: "ca_state ?c = Open_campaign" by code_simp
  have idle: "cp_outstanding (spendOf ?batches ?c None demo_open) = 0" by code_simp
  have ask: "ask_campaignId ?ask = ca_id ?c"
    "dg_evaluation demo_dg (ca_id ?c) (ask_requestId ?ask) \<notin> ce_id ` set (wk_evaluations demo_open)"
    "ask_scorecardId ?ask \<notin> set (concat (map arms_of (wk_evaluations demo_open)))"
    "mset (ask_caseIds ?ask) = mset (map sn_id (cf_scenarios (ca_frame ?c)))" "ask_trials ?ask = cf_trialsPerCase (ca_frame ?c)"
    by code_simp+
  have "ca_rounds ?c = []" by code_simp
  then have no_win: "\<not> latest_wins won (ca_rounds ?c)" for won by (simp add: latest_wins_def)
  have "\<not> (\<exists>s. prepare_settlement (dg_policy demo_dg) (dg_answer demo_dg) ?batches (ca_id ?c) demo_open = Inr s)"
    by (subgoal_tac "isl (prepare_settlement (dg_policy demo_dg) (dg_answer demo_dg) ?batches (ca_id ?c) demo_open)", force, code_simp)
  then show ?thesis
    using open_campaign_has_exit [of ?c demo_dg "[Open_event ''c1'' ''i1'' demo_frame ''u'' ''t0'']" ?batches ?ask,
        folded demo_open_def, OF c open_now idle ask] no_win
    by blast
qed

definition stuck_round :: campaign_round where
  "stuck_round =
     (let r = hd (ca_rounds demo_campaign) in r\<lparr>rd_verdict := (rd_verdict r)\<lparr>rv_unverifiedAxes := [Identity_unavailable]\<rparr>\<rparr>)"

definition stuck_frame :: campaign_frame where
  "stuck_frame = demo_frame\<lparr>cf_maxRounds := 1\<rparr>"

lemma unverified_win_is_stuck_witness:
  "creatable stuck_frame
   \<and> an_decision (campaignAdoption (\<lambda>_. ''p'') stuck_frame [stuck_round] \<lparr>cp_consumed = 1, cp_outstanding = 0\<rparr>)
       = Halt Halt_identity_unverified
   \<and> campaignRoundRefusal (\<lambda>_. ''p'') stuck_frame [stuck_round] \<lparr>cp_consumed = 1, cp_outstanding = 0\<rparr>
       = Some \<lparr>st_reason = Budget_exhausted, st_atRound = 1\<rparr>"
proof -
  have "stop_walk (winning (\<lambda>_. ''p'') stuck_frame) stuck_frame 0 0 [stuck_round] = None"
    "latest_wins (winning (\<lambda>_. ''p'') stuck_frame) [stuck_round]" "creatable stuck_frame"
    "rv_unverifiedAxes (rd_verdict (last [stuck_round])) \<noteq> [] \<and> \<not> cf_allowUnverifiedIdentity stuck_frame"
    "length [stuck_round] = cf_maxRounds stuck_frame"
    by code_simp+
  then show ?thesis
    using unverified_win_is_stuck [of "\<lambda>_. ''p''" stuck_frame "[stuck_round]" "\<lparr>cp_consumed = 1, cp_outstanding = 0\<rparr>"] by simp
qed

lemma exact_test_floor_witness:
  "fisherExactTwoSided 4 4 0 4 = of_rat (equalArmFisherFloor 4) \<and> equalArmFisherFloor 4 = 1 / 35"
proof
  show "fisherExactTwoSided 4 4 0 4 = of_rat (equalArmFisherFloor 4)" using exact_test_floor [of 4] by simp
  show "equalArmFisherFloor 4 = 1 / 35" by code_simp
qed

lemma winning_is_held_out_gain_witness:
  "\<exists>d \<in> set (tf_cases demo_trials). is_held_out demo_frame d \<and> td_significant d \<and> 0 < td_delta d"
proof -
  let ?r = "hd (ca_rounds demo_campaign)"
  have "winning (\<lambda>_. ''p'') demo_frame ?r" by code_simp
  moreover have "rd_verdict ?r = (verdictOf (\<lambda>_. ''p'') demo_comparison (demo_arm ''1'' ''d1'', demo_arm ''2'' ''d2'') demo_frame
      None None Seeds_clean \<lparr>ei_version = ''1'', ei_digest = Some ''d1''\<rparr> \<lparr>ei_version = ''2'', ei_digest = Some ''d2''\<rparr> 2)
    \<lparr>rv_evaluationId := Some ''c1/r1'', rv_evidence := Some (''k'', ''e'')\<rparr>"
    by code_simp
  moreover have "cf_targets demo_frame = []" "gi_trials demo_comparison = Some demo_trials" by (simp_all add: demo_frame_def demo_comparison_def)
  ultimately obtain t where "conforms demo_frame demo_comparison (demo_arm ''1'' ''d1'', demo_arm ''2'' ''d2'') t"
    "\<exists>d \<in> set (tf_cases t). is_held_out demo_frame d \<and> td_significant d \<and> 0 < td_delta d"
    using winning_is_held_out_gain by blast
  moreover from this have "t = demo_trials" by (simp add: conforms_def demo_comparison_def)
  ultimately show ?thesis by simp
qed

end
