(* ===== verification/Access.thy ===== *)
theory Access
  imports Scores Trials
begin

text \<open>
  Who may do what: the role and scope matrices of packages/domain/src/auth/authz.ts with \<open>can\<close> and \<open>authorize\<close>, the
  principal of principal.ts, and the trust a workspace puts in the tokens of its linked repositories
  (ci-trust.ts). An action is the string the code names it by; a \<open>Set\<close> of actions is the list it is built from. The
  matrices are read at their own keys (a role or scope called like a property every JavaScript object inherits is not
  considered).
\<close>

subsection \<open>Principals\<close>

datatype principal_via = ViaOidc | ViaApiKey | ViaRunner | ViaGithubActions | ViaAgent

record evidence_grant =
  eg_tokenHash :: string
  eg_campaignId :: string
  eg_expiresAt :: string

record principal =
  evidenceGrant :: "evidence_grant option"
  pr_subject :: string
  pr_workspace :: string
  pr_roles :: "string list"
  pr_via :: principal_via
  pr_email :: "string option"
  pr_name :: "string option"
  pr_scopes :: "string list option"
  pr_runnerId :: "string option"

subsection \<open>The matrices\<close>

definition EVERDICT_ROLES :: "string list" where
  "EVERDICT_ROLES = [''viewer'', ''member'', ''admin'']"

definition viewer_actions :: "string list" where
  "viewer_actions =
     [''runs:read'', ''harnesses:read'', ''harnesses:register'', ''templates:write'', ''datasets:read'',
      ''scorecards:read'', ''schedules:read'', ''judges:read'', ''models:read'', ''agents:read'', ''events:read'',
      ''skills:read'', ''files:read'', ''capabilities:read'', ''runtimes:read'', ''runtimes:write'', ''members:read'',
      ''comments:read'', ''issues:read'']"

definition member_actions :: "string list" where
  "member_actions =
     [''runs:read'', ''runs:submit'', ''harnesses:read'', ''harnesses:register'', ''templates:write'',
      ''datasets:read'', ''datasets:write'', ''scorecards:read'', ''scorecards:run'', ''schedules:read'',
      ''schedules:write'', ''judges:read'', ''judges:write'', ''models:read'', ''models:write'', ''agents:read'',
      ''events:read'', ''agents:write'', ''skills:read'', ''skills:write'', ''files:read'', ''files:write'',
      ''capabilities:read'', ''capabilities:write'', ''runtimes:read'', ''runtimes:write'', ''members:read'',
      ''comments:read'', ''comments:write'', ''issues:read'', ''issues:write'', ''images:push'', ''mattermost:post'',
      ''github:read'', ''github:write'']"

definition ci_actions :: "string list" where
  "ci_actions = [''scorecards:read'', ''scorecards:run'', ''harnesses:read'', ''harnesses:register'']"

definition admin_actions :: "string list" where
  "admin_actions =
     [''runs:read'', ''runs:submit'', ''harnesses:read'', ''harnesses:register'', ''templates:write'',
      ''datasets:read'', ''datasets:write'', ''datasets:delete'', ''harnesses:delete'', ''models:delete'',
      ''agents:delete'', ''judges:delete'', ''scorecards:read'', ''scorecards:run'', ''scorecards:delete'',
      ''schedules:read'', ''schedules:write'', ''judges:read'', ''judges:write'', ''models:read'', ''models:write'',
      ''agents:read'', ''events:read'', ''agents:write'', ''skills:read'', ''skills:write'', ''files:read'',
      ''files:write'', ''capabilities:read'', ''capabilities:write'', ''capabilities:delete'', ''runtimes:read'',
      ''runtimes:write'', ''runtimes:control'', ''secrets:read'', ''secrets:write'', ''keys:read'', ''keys:write'',
      ''members:read'', ''members:write'', ''settings:read'', ''settings:write'', ''comments:read'',
      ''comments:write'', ''issues:read'', ''issues:write'', ''images:push'', ''mattermost:post'', ''github:read'',
      ''github:write'']"

definition ROLE_PERMISSIONS :: "(string \<times> string list) list" where
  "ROLE_PERMISSIONS =
     [(''viewer'', viewer_actions), (''member'', member_actions), (''ci'', ci_actions), (''admin'', admin_actions)]"

definition API_KEY_SCOPES :: "string list" where
  "API_KEY_SCOPES = [''read'', ''write'', ''admin'']"

definition SCOPE_READ_ACTIONS :: "string list" where
  "SCOPE_READ_ACTIONS =
     [''runs:read'', ''harnesses:read'', ''datasets:read'', ''scorecards:read'', ''schedules:read'', ''judges:read'',
      ''models:read'', ''agents:read'', ''events:read'', ''skills:read'', ''files:read'', ''capabilities:read'',
      ''runtimes:read'', ''members:read'', ''comments:read'', ''issues:read'', ''github:read'']"

definition SCOPE_WRITE_ACTIONS :: "string list" where
  "SCOPE_WRITE_ACTIONS =
     SCOPE_READ_ACTIONS @
     [''runs:submit'', ''harnesses:register'', ''templates:write'', ''datasets:write'', ''scorecards:run'',
      ''schedules:write'', ''judges:write'', ''models:write'', ''agents:write'', ''skills:write'', ''files:write'',
      ''capabilities:write'', ''runtimes:write'', ''comments:write'', ''issues:write'', ''images:push'',
      ''mattermost:post'', ''github:write'']"

definition ALL_ACTIONS :: "string list" where
  "ALL_ACTIONS = firsts (concat (map snd ROLE_PERMISSIONS))"

definition SCOPE_PERMISSIONS :: "(string \<times> string list) list" where
  "SCOPE_PERMISSIONS =
     [(''read'', SCOPE_READ_ACTIONS), (''write'', SCOPE_WRITE_ACTIONS), (''admin'', ALL_ACTIONS)]"

subsection \<open>The decision\<close>

text \<open>\<open>MATRIX[key]?.has(action) ?? false\<close>\<close>

definition grants :: "(string \<times> string list) list \<Rightarrow> string \<Rightarrow> string \<Rightarrow> bool" where
  "grants matrix key action \<longleftrightarrow> action \<in> set (default_or [] (map_of matrix key))"

definition can :: "principal \<Rightarrow> string \<Rightarrow> bool" where
  "can p action =
     (if evidenceGrant p \<noteq> None then False
      else if \<not> list_ex (\<lambda>r. grants ROLE_PERMISSIONS r action) (pr_roles p) then False
      else (case pr_scopes p of
              None \<Rightarrow> True
            | Some scopes \<Rightarrow> scopes = [] \<or> list_ex (\<lambda>s. grants SCOPE_PERMISSIONS s action) scopes))"

definition authorize :: "principal \<Rightarrow> string \<Rightarrow> unit res" where
  "authorize p action = (if \<not> can p action then Inl (Forbidden ''FORBIDDEN'' action) else Inr ())"

subsection \<open>Which link trusts a token\<close>

datatype ci_trigger = TriggerAuto | TriggerComment | TriggerBoth

record ci_link =
  cl_repository :: string
  cl_host :: "string option"
  cl_harness :: string
  cl_dataset :: "string option"
  cl_slots :: "(string \<times> string option) list"
  cl_createdBy :: string
  cl_disabled :: bool
  cl_refs :: "string list option"
  cl_runsOn :: "string option"
  cl_runtime :: "string option"
  cl_trigger :: "ci_trigger option"

record ci_claims =
  cc_repository :: string
  cc_host :: "string option"
  cc_ref :: "string option"

text \<open>\<open>s.replace(/\/$/, "")\<close> takes off one slash at the end.\<close>

definition normHost :: "string option \<Rightarrow> string" where
  "normHost host =
     (let h = default_or '''' host in
      map js_lower (if h \<noteq> [] \<and> last h = CHR ''/'' then butlast h else h))"

definition refAllowed :: "string list \<Rightarrow> string option \<Rightarrow> bool" where
  "refAllowed patterns ref =
     (if patterns = [] then True
      else (case ref of
              None \<Rightarrow> False
            | Some r \<Rightarrow>
                list_ex (\<lambda>p. if p \<noteq> [] \<and> last p = CHR ''*'' then startsWith r (butlast p) else p = r) patterns))"

definition ciLinkTrusting :: "ci_link list \<Rightarrow> ci_claims \<Rightarrow> ci_link option" where
  "ciLinkTrusting links claims =
     List.find (\<lambda>link. \<not> cl_disabled link \<and> normHost (cl_host link) = normHost (cc_host claims) \<and>
                       map js_lower (cl_repository link) = map js_lower (cc_repository claims) \<and>
                       refAllowed (default_or [] (cl_refs link)) (cc_ref claims)) links"

subsection \<open>How roles and scopes compare\<close>

lemma roles_are_nested:
  "set viewer_actions \<subseteq> set member_actions" "set member_actions \<subseteq> set admin_actions"
  "set ci_actions \<subseteq> set member_actions" "set SCOPE_WRITE_ACTIONS \<subseteq> set member_actions"
  by (code_simp+)

lemma set_ALL_ACTIONS: "set ALL_ACTIONS = set admin_actions"
  using roles_are_nested by (auto simp: ALL_ACTIONS_def ROLE_PERMISSIONS_def)

lemma grants_role:
  "grants ROLE_PERMISSIONS r a \<longleftrightarrow>
     r = ''viewer'' \<and> a \<in> set viewer_actions \<or> r = ''member'' \<and> a \<in> set member_actions \<or>
     r = ''ci'' \<and> a \<in> set ci_actions \<or> r = ''admin'' \<and> a \<in> set admin_actions"
  by (auto simp: grants_def ROLE_PERMISSIONS_def default_or_def)

lemma grants_scope:
  "grants SCOPE_PERMISSIONS s a \<longleftrightarrow>
     s = ''read'' \<and> a \<in> set SCOPE_READ_ACTIONS \<or> s = ''write'' \<and> a \<in> set SCOPE_WRITE_ACTIONS \<or>
     s = ''admin'' \<and> a \<in> set admin_actions"
  by (auto simp: grants_def SCOPE_PERMISSIONS_def default_or_def set_ALL_ACTIONS)

lemma can_iff:
  "can p a \<longleftrightarrow>
     evidenceGrant p = None \<and> (\<exists>r \<in> set (pr_roles p). grants ROLE_PERMISSIONS r a) \<and>
     (pr_scopes p = None \<or> pr_scopes p = Some [] \<or>
      (\<exists>ss. pr_scopes p = Some ss \<and> (\<exists>s \<in> set ss. grants SCOPE_PERMISSIONS s a)))"
  by (auto simp: can_def list_ex_iff split: option.splits)

text \<open>The actions that only an administrator has.\<close>

definition governance_actions :: "string list" where
  "governance_actions = filter (\<lambda>a. a \<notin> set member_actions) admin_actions"

lemma governance_is_admin_only:
  assumes "can p a" "a \<in> set governance_actions"
  shows "''admin'' \<in> set (pr_roles p)"
    and "pr_scopes p = None \<or> pr_scopes p = Some [] \<or> (\<exists>ss. pr_scopes p = Some ss \<and> ''admin'' \<in> set ss)"
proof -
  have a: "a \<notin> set member_actions" using assms(2) by (simp add: governance_actions_def)
  show "''admin'' \<in> set (pr_roles p)"
    using assms(1) a roles_are_nested(1,3) by (auto simp: can_iff grants_role)
  have "set SCOPE_READ_ACTIONS \<subseteq> set SCOPE_WRITE_ACTIONS" unfolding SCOPE_WRITE_ACTIONS_def set_append by (rule Un_upper1)
  then show "pr_scopes p = None \<or> pr_scopes p = Some [] \<or> (\<exists>ss. pr_scopes p = Some ss \<and> ''admin'' \<in> set ss)"
    using assms(1) a roles_are_nested(4) by (auto simp: can_iff grants_scope)
qed

lemma scopes_only_narrow: "can p a \<Longrightarrow> can (p\<lparr>pr_scopes := None\<rparr>) a"
  by (simp add: can_iff)

lemma trusted_link_facts:
  assumes "ciLinkTrusting links claims = Some l"
  shows "l \<in> set links" "\<not> cl_disabled l" "map js_lower (cl_repository l) = map js_lower (cc_repository claims)"
    "refAllowed (default_or [] (cl_refs l)) (cc_ref claims)"
  using assms by (auto simp: ciLinkTrusting_def find_Some_iff)

lemma ends_in_star: "(p \<noteq> [] \<and> last p = c) \<longleftrightarrow> (\<exists>q. p = q @ [c])"
  by (metis append_butlast_last_id last_snoc append_is_Nil_conv not_Cons_self2)

lemma refAllowed_Some:
  assumes "refAllowed ps (Some r)" "ps \<noteq> []"
  shows "r \<in> set ps \<or> (\<exists>p. p @ ''*'' \<in> set ps \<and> startsWith r p)"
proof -
  obtain p where p: "p \<in> set ps" "if p \<noteq> [] \<and> last p = CHR ''*'' then startsWith r (butlast p) else p = r"
    using assms by (auto simp: refAllowed_def list_ex_iff)
  show ?thesis
  proof (cases "p \<noteq> [] \<and> last p = CHR ''*''")
    case True
    then obtain q where "p = q @ ''*''" using ends_in_star by metis
    then show ?thesis using p True by auto
  next
    case False
    then show ?thesis using p by simp
  qed
qed

text \<open>C34. 
  What a credential can reach. A governance action (the ones the member role lacks: deletions, secrets, keys,
  members:write, settings, cluster control) is authorized only for a subject that has the admin role and, when its key is
  scoped, the admin scope; an evidence grant is authorized for nothing; narrowing a key never adds an action; an action
  that is refused is a Forbidden error.
\<close>

theorem governance_needs_admin:
  "(a \<in> set governance_actions \<and> authorize p a = Inr () \<longrightarrow>
      ''admin'' \<in> set (pr_roles p) \<and> evidenceGrant p = None \<and>
      (\<forall>ss. pr_scopes p = Some ss \<and> ss \<noteq> [] \<longrightarrow> ''admin'' \<in> set ss)) \<and>
   (authorize (p\<lparr>pr_scopes := None\<rparr>) a = Inl e \<longrightarrow> authorize p a = Inl e \<and> e = Forbidden ''FORBIDDEN'' a)"
proof -
  have "authorize p a = Inr () \<longleftrightarrow> can p a" "authorize p a = Inl e \<longleftrightarrow> \<not> can p a \<and> e = Forbidden ''FORBIDDEN'' a" for p
    by (auto simp: authorize_def)
  moreover have "can p a \<Longrightarrow> evidenceGrant p = None" by (simp add: can_iff)
  ultimately show ?thesis
    using governance_is_admin_only [of p a] scopes_only_narrow [of p a] by (metis option.discI option.inject)
qed

definition ada :: principal where
  "ada = \<lparr>evidenceGrant = None, pr_subject = ''ada'', pr_workspace = ''w'', pr_roles = [''admin''], pr_via = ViaApiKey,
          pr_email = None, pr_name = None, pr_scopes = Some [''admin''], pr_runnerId = None\<rparr>"

theorem governance_needs_admin_witness:
  "''admin'' \<in> set (pr_roles ada) \<and> (''secrets:write'' \<in> set governance_actions \<and> authorize ada ''secrets:write'' = Inr ())"
proof -
  have g: "''secrets:write'' \<in> set governance_actions" by code_simp
  then have "''secrets:write'' \<in> set admin_actions" by (simp add: governance_actions_def)
  then have "authorize ada ''secrets:write'' = Inr ()"
    by (simp add: authorize_def can_iff grants_role grants_scope ada_def)
  with g show ?thesis using governance_needs_admin [of "''secrets:write''" ada] by blast
qed

text \<open>
  A token of the linked repository is accepted only from a ref the link names: with a list of refs, a token that carries
  no ref is refused, and one that carries a ref is accepted exactly when it equals an entry or extends the prefix of an
  entry that ends in a star; the link is one of the workspace's own, for the same host and repository, not disabled.
\<close>

theorem pinned_link_trusts_its_refs:
  assumes "ciLinkTrusting links claims = Some l" "cl_refs l = Some ps" "ps \<noteq> []"
  shows "l \<in> set links \<and> \<not> cl_disabled l \<and>
     (\<exists>r. cc_ref claims = Some r \<and>
          (r \<in> set ps \<or> (\<exists>p. p @ ''*'' \<in> set ps \<and> startsWith r p)))"
proof -
  have "refAllowed ps (cc_ref claims)" using trusted_link_facts(4) [OF assms(1)] assms(2) by (simp add: default_or_def)
  then obtain r where "cc_ref claims = Some r" "refAllowed ps (Some r)"
    using assms(3) by (auto simp: refAllowed_def split: option.splits)
  then show ?thesis using trusted_link_facts(1,2) [OF assms(1)] refAllowed_Some [OF _ assms(3)] by blast
qed

definition demo_link :: ci_link where
  "demo_link = \<lparr>cl_repository = ''Acme/Bot'', cl_host = None, cl_harness = ''bot'', cl_dataset = None, cl_slots = [],
     cl_createdBy = ''ada'', cl_disabled = False, cl_refs = Some [''refs/heads/main'', ''refs/pull/*''], cl_runsOn = None,
     cl_runtime = None, cl_trigger = None\<rparr>"

definition demo_claims :: ci_claims where
  "demo_claims = \<lparr>cc_repository = ''acme/bot'', cc_host = None, cc_ref = Some ''refs/pull/7/merge''\<rparr>"

theorem pinned_link_trusts_its_refs_witness:
  "ciLinkTrusting [demo_link] demo_claims = Some demo_link \<and> demo_link \<in> set [demo_link]"
proof -
  have "ciLinkTrusting [demo_link] demo_claims = Some demo_link" by code_simp
  moreover have "cl_refs demo_link = Some [''refs/heads/main'', ''refs/pull/*'']" by (simp add: demo_link_def)
  ultimately show ?thesis
    using pinned_link_trusts_its_refs [of "[demo_link]" demo_claims demo_link "[''refs/heads/main'', ''refs/pull/*'']"]
    by blast
qed

end
