(* ===== verification/Profiles.thy ===== *)
theory Profiles
  imports Access Run
begin

text \<open>
  What people call themselves: the display image rule of packages/domain/src/image/display-image.ts, the profile service
  of packages/application-control/src/profile/profile-service.ts and the in-memory store of
  packages/db/src/workspace/user-profile-store.ts. The URL parser is the parameter \<open>url_protocol\<close>: the protocol of a
  text that parses, \<open>None\<close> for one that \<open>new URL\<close> refuses. In a patch \<open>None\<close> leaves a field alone, \<open>Some None\<close> (null)
  clears it.
\<close>

subsection \<open>Display images\<close>

definition MAX_DATA_URL :: nat where
  "MAX_DATA_URL = 1400000"

definition base64_char :: "char \<Rightarrow> bool" where
  "base64_char c \<longleftrightarrow>
     (let n = of_char c :: nat in
      65 \<le> n \<and> n \<le> 90 \<or> 97 \<le> n \<and> n \<le> 122 \<or> 48 \<le> n \<and> n \<le> 57 \<or> c = CHR ''+'' \<or> c = CHR ''/'')"

text \<open>\<open>[A-Za-z0-9+/]+={0,2}\<close>, to the end of the text.\<close>

definition base64_body :: "string \<Rightarrow> bool" where
  "base64_body s \<longleftrightarrow>
     (let pad = dropWhile base64_char s in s \<noteq> pad \<and> pad \<in> set ['''', ''='', ''==''])"

definition data_url_ok :: "string \<Rightarrow> bool" where
  "data_url_ok v \<longleftrightarrow>
     list_ex (\<lambda>kind. let p = ''data:image/'' @ kind @ '';base64,'' in startsWith v p \<and> base64_body (drop (length p) v))
       [''png'', ''jpeg'', ''jpg'', ''gif'', ''webp'', ''avif'']"

definition validateImageRef :: "(string \<Rightarrow> string option) \<Rightarrow> string option \<Rightarrow> string option res" where
  "validateImageRef url_protocol v =
     (case v of
        None \<Rightarrow> Inr None
      | Some s \<Rightarrow>
          if startsWith s ''data:'' then
            if MAX_DATA_URL < length s then Inl (BadRequest ''BAD_REQUEST'' ''too large'')
            else if \<not> data_url_ok s then Inl (BadRequest ''BAD_REQUEST'' ''format'')
            else Inr (Some s)
          else if 2048 < length s then Inl (BadRequest ''BAD_REQUEST'' ''too long'')
          else (case url_protocol s of
                  None \<Rightarrow> Inl (BadRequest ''BAD_REQUEST'' ''not a URL'')
                | Some p \<Rightarrow>
                    if p \<noteq> ''http:'' \<and> p \<noteq> ''https:'' then Inl (BadRequest ''BAD_REQUEST'' ''protocol'')
                    else Inr (Some s)))"

subsection \<open>The store\<close>

record user_profile =
  up_subject :: string
  up_name :: "string option"
  up_username :: "string option"
  up_avatarUrl :: "string option"
  up_updatedAt :: int

record profile_patch =
  pp_name :: "string option option"
  pp_username :: "string option option"
  pp_avatarUrl :: "string option option"

type_synonym profile_store = "(string \<times> user_profile) list"

definition applyField :: "string option \<Rightarrow> string option option \<Rightarrow> string option" where
  "applyField current incoming = (case incoming of None \<Rightarrow> current | Some v \<Rightarrow> v)"

definition build_profile :: "int \<Rightarrow> string \<Rightarrow> string option \<Rightarrow> string option \<Rightarrow> string option \<Rightarrow> user_profile" where
  "build_profile now subject name username avatarUrl =
     \<lparr>up_subject = subject, up_name = name, up_username = username, up_avatarUrl = avatarUrl, up_updatedAt = now\<rparr>"

definition profile_get :: "profile_store \<Rightarrow> string \<Rightarrow> user_profile option" where
  "profile_get rows subject = map_of rows subject"

definition profile_getMany :: "profile_store \<Rightarrow> string list \<Rightarrow> user_profile list" where
  "profile_getMany rows subjects = List.map_filter (map_of rows) subjects"

definition profile_upsert :: "int \<Rightarrow> string \<Rightarrow> profile_patch \<Rightarrow> profile_store \<Rightarrow> user_profile \<times> profile_store" where
  "profile_upsert now subject patch rows =
     (let cur = map_of rows subject;
          next_row = build_profile now subject
            (applyField (Option.bind cur up_name) (pp_name patch))
            (applyField (Option.bind cur up_username) (pp_username patch))
            (applyField (Option.bind cur up_avatarUrl) (pp_avatarUrl patch))
      in (next_row, set_key subject (\<lambda>_. next_row) rows))"

definition profile_ensureName :: "int \<Rightarrow> string \<Rightarrow> string \<Rightarrow> profile_store \<Rightarrow> profile_store" where
  "profile_ensureName now subject name rows =
     (let cur = map_of rows subject in
      if Option.bind cur up_name \<noteq> None then rows
      else set_key subject
             (\<lambda>_. build_profile now subject (Some name) (Option.bind cur up_username) (Option.bind cur up_avatarUrl)) rows)"

subsection \<open>The service\<close>

text \<open>\<open>clean\<close>: \<open>None\<close> is null.\<close>

definition clean_text :: "string \<Rightarrow> string option" where
  "clean_text v = (let t = js_trim v in if t = [] then None else Some t)"

definition validateName :: "string option \<Rightarrow> string option res" where
  "validateName v =
     (case v of None \<Rightarrow> Inr None
      | Some s \<Rightarrow> if 80 < length s then Inl (BadRequest ''BAD_REQUEST'' ''name'') else Inr (Some s))"

definition ascii_alnum :: "char \<Rightarrow> bool" where
  "ascii_alnum c \<longleftrightarrow> (let n = of_char c :: nat in 97 \<le> n \<and> n \<le> 122 \<or> 48 \<le> n \<and> n \<le> 57)"

text \<open>\<open>/^[a-z0-9][a-z0-9_-]{1,38}$/i\<close>\<close>

definition username_ok :: "string \<Rightarrow> bool" where
  "username_ok s \<longleftrightarrow>
     (case map js_lower s of
        [] \<Rightarrow> False
      | c # cs \<Rightarrow> ascii_alnum c \<and> list_all (\<lambda>d. ascii_alnum d \<or> d = CHR ''_'' \<or> d = CHR ''-'') cs \<and>
                  1 \<le> length cs \<and> length cs \<le> 38)"

definition validateUsername :: "string option \<Rightarrow> string option res" where
  "validateUsername v =
     (case v of None \<Rightarrow> Inr None
      | Some s \<Rightarrow> if \<not> username_ok s then Inl (BadRequest ''BAD_REQUEST'' ''username'') else Inr (Some s))"

definition seedSsoName :: "int \<Rightarrow> string \<Rightarrow> string \<Rightarrow> profile_store \<Rightarrow> profile_store" where
  "seedSsoName now subject claim rows =
     (let name = js_trim claim in
      if length name = 0 \<or> 80 < length name then rows else profile_ensureName now subject name rows)"

text \<open>A field of the input that is given is validated into the patch; the first one refused ends the call.\<close>

definition patch_field :: "(string option \<Rightarrow> string option res) \<Rightarrow> string option \<Rightarrow> string option option res" where
  "patch_field validate input =
     (case input of None \<Rightarrow> Inr None | Some v \<Rightarrow> bind_res (validate (clean_text v)) (\<lambda>w. Inr (Some w)))"

definition profile_update ::
  "(string \<Rightarrow> string option) \<Rightarrow> int \<Rightarrow> string \<Rightarrow> string option \<Rightarrow> string option \<Rightarrow> string option \<Rightarrow> profile_store \<Rightarrow>
   (user_profile \<times> profile_store) res" where
  "profile_update url_protocol now subject name username avatarUrl rows =
     bind_res (patch_field validateName name) (\<lambda>n.
     bind_res (patch_field validateUsername username) (\<lambda>u.
     bind_res (patch_field (validateImageRef url_protocol) avatarUrl) (\<lambda>a.
       Inr (profile_upsert now subject \<lparr>pp_name = n, pp_username = u, pp_avatarUrl = a\<rparr> rows))))"

subsection \<open>What the store promises\<close>

lemma profile_get_upsert:
  "profile_get (snd (profile_upsert now s p rows)) s' =
     (if s' = s then Some (fst (profile_upsert now s p rows)) else profile_get rows s')"
  by (simp add: profile_get_def profile_upsert_def Let_def)

lemma update_keeps_what_is_not_given:
  assumes "profile_update u now s None username avatar rows = Inr (row, rows')" "profile_get rows s = Some cur"
  shows "up_name row = up_name cur"
  using assms
  by (auto simp: profile_update_def patch_field_def profile_upsert_def profile_get_def build_profile_def applyField_def
      Let_def)

lemma claim_never_renames:
  assumes "profile_get rows s = Some cur" "up_name cur = Some n"
  shows "seedSsoName now s claim rows = rows"
  using assms by (simp add: seedSsoName_def profile_ensureName_def profile_get_def Let_def)

lemma seeded_name_is_valid:
  assumes "profile_get rows s = None" "profile_get (seedSsoName now s claim rows) s = Some row"
  shows "up_name row = Some (js_trim claim) \<and> length (js_trim claim) \<in> {1..80} \<and> up_subject row = s"
  using assms
  by (cases "js_trim claim")
     (auto simp: seedSsoName_def profile_ensureName_def profile_get_def Let_def build_profile_def split: if_splits)

end
