(* ===== verification/Members.thy ===== *)
theory Members
  imports Profiles Ordering
begin

text \<open>
  Who belongs to a workspace: the in-memory stores of packages/db/src/workspace/workspace-store.ts and
  workspace-invites.ts, the policy of packages/domain/src/member/membership-policy.ts, the services of
  packages/application-control/src/member/membership-service.ts and workspace/workspace-service.ts, and the step of
  apps/api/src/api/route-context.ts that turns an authenticated subject into a principal of a workspace.

  A \<open>Map\<close> is an association list in insertion order. An instant is its number of milliseconds; the ISO texts the stores
  keep compare as the instants do. \<open>localeCompare\<close> on subjects and ids is the parameter \<open>name_cmp\<close>, SHA-256 the parameter
  \<open>hash\<close>; fresh identifiers and tokens are arguments.
\<close>

subsection \<open>The workspace store\<close>

record ws_rec =
  wk_id :: string
  wk_name :: string
  wk_owner :: string
  wk_logoUrl :: "string option"
  wk_createdAt :: int

record member_cell =
  mc_role :: string
  mc_email :: "string option"
  mc_addedAt :: int

record member_record =
  mb_subject :: string
  mb_role :: string
  mb_email :: "string option"
  mb_name :: "string option"
  mb_avatarUrl :: "string option"
  mb_addedAt :: int

record ws_with_role =
  wr_id :: string
  wr_name :: string
  wr_role :: string
  wr_logoUrl :: "string option"

record ws_store =
  st_workspaces :: "(string \<times> ws_rec) list"
  st_members :: "(string \<times> (string \<times> member_cell) list) list"

text \<open>\<open>m.delete(k)\<close>\<close>

definition del_key :: "'k \<Rightarrow> ('k \<times> 'v) list \<Rightarrow> ('k \<times> 'v) list" where
  "del_key k m = filter (\<lambda>e. fst e \<noteq> k) m"

text \<open>\<open>this.cell(w).set(subject, f)\<close>: the map of a workspace is made when it is missing.\<close>

definition cell_set ::
  "string \<Rightarrow> string \<Rightarrow> (member_cell option \<Rightarrow> member_cell) \<Rightarrow> ws_store \<Rightarrow> ws_store" where
  "cell_set w subject f s =
     s\<lparr>st_members := set_key w (\<lambda>m. set_key subject f (default_or [] m)) (st_members s)\<rparr>"

definition ws_create :: "int \<Rightarrow> string \<Rightarrow> string \<Rightarrow> string \<Rightarrow> ws_store \<Rightarrow> ws_rec option \<times> ws_store" where
  "ws_create now w name owner s =
     (if map_of (st_workspaces s) w \<noteq> None then (None, s)
      else
        let full = \<lparr>wk_id = w, wk_name = name, wk_owner = owner, wk_logoUrl = None, wk_createdAt = now\<rparr>;
            s1 = s\<lparr>st_workspaces := set_key w (\<lambda>_. full) (st_workspaces s)\<rparr>
        in (Some full, cell_set w owner (\<lambda>_. \<lparr>mc_role = ''admin'', mc_email = None, mc_addedAt = now\<rparr>) s1))"

definition ws_get :: "ws_store \<Rightarrow> string \<Rightarrow> ws_rec option" where
  "ws_get s w = map_of (st_workspaces s) w"

definition by_created :: "string compare \<Rightarrow> (int \<times> ws_with_role) compare" where
  "by_created name_cmp a b =
     (let c = fst a - fst b in if c \<noteq> 0 then c else name_cmp (wr_id (snd a)) (wr_id (snd b)))"

definition ws_listForSubject :: "string compare \<Rightarrow> ws_store \<Rightarrow> string \<Rightarrow> ws_with_role list" where
  "ws_listForSubject name_cmp s subject =
     map snd (sort_by (by_created name_cmp)
       (List.map_filter (\<lambda>(w, m).
          case map_of m subject of
            None \<Rightarrow> None
          | Some c \<Rightarrow> map_option (\<lambda>rec. (wk_createdAt rec,
                 \<lparr>wr_id = wk_id rec, wr_name = wk_name rec, wr_role = mc_role c, wr_logoUrl = wk_logoUrl rec\<rparr>))
               (ws_get s w)) (st_members s)))"

text \<open>The patch of the logo: \<open>None\<close> keeps it, \<open>Some None\<close> (null) removes it.\<close>

definition ws_update ::
  "string \<Rightarrow> string option \<Rightarrow> string option option \<Rightarrow> ws_store \<Rightarrow> ws_rec option \<times> ws_store" where
  "ws_update w name logo s =
     (case map_of (st_workspaces s) w of
        None \<Rightarrow> (None, s)
      | Some rec \<Rightarrow>
          let logoUrl = (case logo of Some None \<Rightarrow> None | Some (Some l) \<Rightarrow> Some l | None \<Rightarrow> wk_logoUrl rec);
              next_rec = \<lparr>wk_id = wk_id rec, wk_name = default_or (wk_name rec) name, wk_owner = wk_owner rec,
                          wk_logoUrl = logoUrl, wk_createdAt = wk_createdAt rec\<rparr>
          in (Some next_rec, s\<lparr>st_workspaces := set_key w (\<lambda>_. next_rec) (st_workspaces s)\<rparr>))"

definition ws_delete :: "string \<Rightarrow> ws_store \<Rightarrow> ws_store" where
  "ws_delete w s = s\<lparr>st_workspaces := del_key w (st_workspaces s), st_members := del_key w (st_members s)\<rparr>"

definition members_of :: "ws_store \<Rightarrow> string \<Rightarrow> (string \<times> member_cell) list" where
  "members_of s w = default_or [] (map_of (st_members s) w)"

definition roleFor :: "ws_store \<Rightarrow> string \<Rightarrow> string \<Rightarrow> string option" where
  "roleFor s w subject = map_option mc_role (map_of (members_of s w) subject)"

definition ensureMembership :: "int \<Rightarrow> string \<Rightarrow> string \<Rightarrow> string \<Rightarrow> string option \<Rightarrow> ws_store \<Rightarrow> ws_store" where
  "ensureMembership now w subject role email s =
     (let s1 = (if map_of (st_workspaces s) w \<noteq> None then s
                else s\<lparr>st_workspaces := set_key w (\<lambda>_. \<lparr>wk_id = w, wk_name = w, wk_owner = subject, wk_logoUrl = None,
                                                        wk_createdAt = now\<rparr>) (st_workspaces s)\<rparr>)
      in cell_set w subject
           (\<lambda>existing. case existing of
              Some c \<Rightarrow> (if email \<noteq> None then c\<lparr>mc_email := email\<rparr> else c)
            | None \<Rightarrow> \<lparr>mc_role = role, mc_email = email, mc_addedAt = now\<rparr>) s1)"

definition by_added :: "string compare \<Rightarrow> member_record compare" where
  "by_added name_cmp a b =
     (let c = mb_addedAt a - mb_addedAt b in if c \<noteq> 0 then c else name_cmp (mb_subject a) (mb_subject b))"

definition member_row :: "string \<times> member_cell \<Rightarrow> member_record" where
  "member_row e =
     \<lparr>mb_subject = fst e, mb_role = mc_role (snd e), mb_email = mc_email (snd e), mb_name = None, mb_avatarUrl = None,
      mb_addedAt = mc_addedAt (snd e)\<rparr>"

definition ws_listMembers :: "string compare \<Rightarrow> ws_store \<Rightarrow> string \<Rightarrow> member_record list" where
  "ws_listMembers name_cmp s w = sort_by (by_added name_cmp) (map member_row (members_of s w))"

definition ws_setRole :: "string \<Rightarrow> string \<Rightarrow> string \<Rightarrow> ws_store \<Rightarrow> bool \<times> ws_store" where
  "ws_setRole w subject role s =
     (case map_of (members_of s w) subject of
        None \<Rightarrow> (False, s)
      | Some c \<Rightarrow> (True, cell_set w subject (\<lambda>_. c\<lparr>mc_role := role\<rparr>) s))"

definition ws_removeMember :: "string \<Rightarrow> string \<Rightarrow> ws_store \<Rightarrow> ws_store" where
  "ws_removeMember w subject s =
     (case map_of (st_members s) w of
        None \<Rightarrow> s
      | Some m \<Rightarrow> s\<lparr>st_members := set_key w (\<lambda>_. del_key subject m) (st_members s)\<rparr>)"

subsection \<open>Invites\<close>

record invite_row =
  iv_id :: string
  iv_workspace :: string
  iv_role :: string
  iv_createdBy :: string
  iv_prefix :: string
  iv_createdAt :: int
  iv_expiresAt :: "int option"
  iv_acceptedCount :: int

text \<open>The rows by the hash of their token.\<close>

type_synonym invite_store = "(string \<times> invite_row) list"

datatype consume_outcome = Consumed string string | UnknownInvite | ExpiredInvite

definition invites_create ::
  "int \<Rightarrow> string \<Rightarrow> string \<Rightarrow> string \<Rightarrow> string \<Rightarrow> string \<Rightarrow> string \<Rightarrow> int option \<Rightarrow> invite_store \<Rightarrow> invite_row \<times> invite_store" where
  "invites_create now uuid w role createdBy tokenHash pfx expiresAt byHash =
     (let row = \<lparr>iv_id = uuid, iv_workspace = w, iv_role = role, iv_createdBy = createdBy, iv_prefix = pfx,
                 iv_createdAt = now, iv_expiresAt = expiresAt, iv_acceptedCount = 0\<rparr>
      in (row, set_key tokenHash (\<lambda>_. row) byHash))"

text \<open>
  The comparison never answers 0, so the language leaves the order of two invites of the same instant open; the model
  keeps the older row first.
\<close>

definition newest_first :: "invite_row compare" where
  "newest_first a b = (if iv_createdAt a < iv_createdAt b then 1 else -1)"

definition invites_list :: "invite_store \<Rightarrow> string \<Rightarrow> invite_row list" where
  "invites_list byHash w = sort_by newest_first (filter (\<lambda>r. iv_workspace r = w) (map snd byHash))"

definition invites_revoke :: "string \<Rightarrow> string \<Rightarrow> invite_store \<Rightarrow> invite_store" where
  "invites_revoke w uuid byHash = filter (\<lambda>e. \<not> (iv_workspace (snd e) = w \<and> iv_id (snd e) = uuid)) byHash"

definition invite_expired :: "int \<Rightarrow> invite_row \<Rightarrow> bool" where
  "invite_expired now row = (case iv_expiresAt row of None \<Rightarrow> False | Some t \<Rightarrow> t \<le> now)"

definition invites_consume ::
  "int \<Rightarrow> string \<Rightarrow> string \<Rightarrow> string option \<Rightarrow> invite_store \<Rightarrow> ws_store \<Rightarrow> consume_outcome \<times> invite_store \<times> ws_store" where
  "invites_consume now tokenHash subject email byHash s =
     (case map_of byHash tokenHash of
        None \<Rightarrow> (UnknownInvite, byHash, s)
      | Some row \<Rightarrow>
          if invite_expired now row then (ExpiredInvite, byHash, s)
          else
            let byHash1 = set_key tokenHash (\<lambda>_. row\<lparr>iv_acceptedCount := iv_acceptedCount row + 1\<rparr>) byHash;
                s1 = ensureMembership now (iv_workspace row) subject (iv_role row) email s
            in (Consumed (iv_workspace row) (default_or (iv_role row) (roleFor s1 (iv_workspace row) subject)), byHash1, s1))"

definition invites_preview :: "int \<Rightarrow> string \<Rightarrow> invite_store \<Rightarrow> (string \<times> string) option" where
  "invites_preview now tokenHash byHash =
     (case map_of byHash tokenHash of
        None \<Rightarrow> None
      | Some row \<Rightarrow> if invite_expired now row then None else Some (iv_workspace row, iv_role row))"

subsection \<open>The policy\<close>

definition isLastAdmin :: "member_record list \<Rightarrow> member_record \<Rightarrow> bool" where
  "isLastAdmin members subject \<longleftrightarrow>
     mb_role subject = ''admin'' \<and> length (filter (\<lambda>m. mb_role m = ''admin'') members) = 1"

definition assertNotLastAdminDemotion :: "member_record list \<Rightarrow> member_record \<Rightarrow> string \<Rightarrow> unit res" where
  "assertNotLastAdminDemotion members target newRole =
     (if newRole = ''admin'' then Inr ()
      else if isLastAdmin members target then Inl (Conflict ''CONFLICT'' ''demotion'')
      else Inr ())"

definition assertNotLastAdminRemoval :: "member_record list \<Rightarrow> member_record \<Rightarrow> unit res" where
  "assertNotLastAdminRemoval members target =
     (if isLastAdmin members target then Inl (Conflict ''CONFLICT'' ''removal'') else Inr ())"

definition assertCanLeave :: "member_record list \<Rightarrow> member_record \<Rightarrow> unit res" where
  "assertCanLeave members me = (if isLastAdmin members me then Inl (Conflict ''CONFLICT'' ''leave'') else Inr ())"

subsection \<open>The membership service\<close>

definition with_profile :: "(string \<times> user_profile) list \<Rightarrow> member_record \<Rightarrow> member_record" where
  "with_profile bySubject m =
     (case map_of bySubject (mb_subject m) of
        None \<Rightarrow> m
      | Some p \<Rightarrow>
          let m1 = (if up_name p \<noteq> None then m\<lparr>mb_name := up_name p\<rparr> else m)
          in (if up_avatarUrl p \<noteq> None then m1\<lparr>mb_avatarUrl := up_avatarUrl p\<rparr> else m1))"

text \<open>\<open>new Map(entries)\<close>: a later entry of a key wins.\<close>

definition service_listMembers :: "string compare \<Rightarrow> profile_store \<Rightarrow> ws_store \<Rightarrow> string \<Rightarrow> member_record list" where
  "service_listMembers name_cmp profiles s w =
     (let members = ws_listMembers name_cmp s w in
      if length members = 0 then members
      else
        let bySubject = rev (map (\<lambda>p. (up_subject p, p)) (profile_getMany profiles (map mb_subject members)))
        in map (with_profile bySubject) members)"

text \<open>
  The three calls that can cost a workspace an administrator list the members, decide on that list, and write. They are
  cut at the await of the list: \<open>member_decide\<close> is what follows it, up to the write (\<open>None\<close>: the call ends without one),
  \<open>member_write\<close> the write. The hook that is told of a removal is not part of the state.
\<close>

datatype member_call = SetRole string string string | RemoveMember string string | LeaveWorkspace string string

fun call_workspace :: "member_call \<Rightarrow> string" where
  "call_workspace (SetRole w subject role) = w"
| "call_workspace (RemoveMember w subject) = w"
| "call_workspace (LeaveWorkspace w subject) = w"

fun member_decide :: "member_call \<Rightarrow> member_record list \<Rightarrow> member_call option res" where
  "member_decide (SetRole w subject role) all =
     (case List.find (\<lambda>m. mb_subject m = subject) all of
        None \<Rightarrow> Inl (NotFound ''NOT_FOUND'' subject)
      | Some target \<Rightarrow> bind_res (assertNotLastAdminDemotion all target role) (\<lambda>_. Inr (Some (SetRole w subject role))))"
| "member_decide (RemoveMember w subject) all =
     (case List.find (\<lambda>m. mb_subject m = subject) all of
        None \<Rightarrow> Inr None
      | Some target \<Rightarrow> bind_res (assertNotLastAdminRemoval all target) (\<lambda>_. Inr (Some (RemoveMember w subject))))"
| "member_decide (LeaveWorkspace w subject) all =
     (case List.find (\<lambda>m. mb_subject m = subject) all of
        None \<Rightarrow> Inr None
      | Some me \<Rightarrow> bind_res (assertCanLeave all me) (\<lambda>_. Inr (Some (LeaveWorkspace w subject))))"

fun member_write :: "member_call \<Rightarrow> ws_store \<Rightarrow> ws_store" where
  "member_write (SetRole w subject role) s = snd (ws_setRole w subject role s)"
| "member_write (RemoveMember w subject) s = ws_removeMember w subject s"
| "member_write (LeaveWorkspace w subject) s = ws_removeMember w subject s"

definition member_finish :: "member_call \<Rightarrow> member_record list \<Rightarrow> ws_store \<Rightarrow> unit res \<times> ws_store" where
  "member_finish call all s =
     (case member_decide call all of
        Inl e \<Rightarrow> (Inl e, s)
      | Inr None \<Rightarrow> (Inr (), s)
      | Inr (Some c) \<Rightarrow> (Inr (), member_write c s))"

text \<open>\<open>encodeURIComponent\<close> leaves a token of base64url characters as it is.\<close>

definition createInvite ::
  "(string \<Rightarrow> string) \<Rightarrow> string option \<Rightarrow> int \<Rightarrow> string \<Rightarrow> string \<Rightarrow> string \<Rightarrow> string \<Rightarrow> string \<Rightarrow> int option \<Rightarrow> invite_store \<Rightarrow>
   (string \<times> invite_row \<times> string option) \<times> invite_store" where
  "createInvite hash webBaseUrl now uuid token w role createdBy expiresInHours byHash =
     (let expiresAt = map_option (\<lambda>h. now + h * 3600000) expiresInHours;
          (row, byHash1) = invites_create now uuid w role createdBy (hash token) (take 12 token) expiresAt byHash;
          inviteUrl = map_option (\<lambda>b. (if last b = CHR ''/'' then butlast b else b) @ ''/invite?token='' @ token)
                        (truthy webBaseUrl)
      in ((token, row, inviteUrl), byHash1))"

definition acceptInvite ::
  "(string \<Rightarrow> string) \<Rightarrow> int \<Rightarrow> principal_via \<Rightarrow> string \<Rightarrow> string option \<Rightarrow> string \<Rightarrow> invite_store \<Rightarrow> ws_store \<Rightarrow>
   (string \<times> string) res \<times> invite_store \<times> ws_store" where
  "acceptInvite hash now via subject email token byHash s =
     (if via \<noteq> ViaOidc then (Inl (BadRequest ''BAD_REQUEST'' ''sign in''), byHash, s)
      else
        case invites_consume now (hash token) subject email byHash s of
          (Consumed w role, byHash1, s1) \<Rightarrow> (Inr (w, role), byHash1, s1)
        | (ExpiredInvite, byHash1, s1) \<Rightarrow> (Inl (BadRequest ''BAD_REQUEST'' ''expired''), byHash1, s1)
        | (UnknownInvite, byHash1, s1) \<Rightarrow> (Inl (NotFound ''NOT_FOUND'' ''invite''), byHash1, s1))"

definition previewInvite ::
  "(string \<Rightarrow> string) \<Rightarrow> int \<Rightarrow> string \<Rightarrow> invite_store \<Rightarrow> ws_store \<Rightarrow> ws_with_role res" where
  "previewInvite hash now token byHash s =
     (case invites_preview now (hash token) byHash of
        None \<Rightarrow> Inl (NotFound ''NOT_FOUND'' ''invite'')
      | Some (w, role) \<Rightarrow>
          (case ws_get s w of
             None \<Rightarrow> Inl (NotFound ''NOT_FOUND'' ''invite'')
           | Some rec \<Rightarrow> Inr \<lparr>wr_id = w, wr_name = wk_name rec, wr_role = role, wr_logoUrl = wk_logoUrl rec\<rparr>))"

subsection \<open>The workspace service\<close>

text \<open>\<open>.replace(/[^a-z0-9]+/g, "-")\<close>; the flag tells whether the run before has its hyphen already.\<close>

fun hyphenate :: "bool \<Rightarrow> string \<Rightarrow> string" where
  "hyphenate dashed [] = []"
| "hyphenate dashed (c # s) =
     (if ascii_alnum c then c # hyphenate False s
      else (if dashed then [] else ''-'') @ hyphenate True s)"

definition strip_hyphens :: "string \<Rightarrow> string" where
  "strip_hyphens s = rev (dropWhile (\<lambda>c. c = CHR ''-'') (rev (dropWhile (\<lambda>c. c = CHR ''-'') s)))"

definition slugify :: "string \<Rightarrow> string" where
  "slugify name = take 40 (strip_hyphens (hyphenate False (js_trim (map js_lower name))))"

text \<open>\<open>SLUG.test(id)\<close>\<close>

definition slug_ok :: "string \<Rightarrow> bool" where
  "slug_ok s = (case s of [] \<Rightarrow> False | c # cs \<Rightarrow> ascii_alnum c \<and> list_all (\<lambda>d. ascii_alnum d \<or> d = CHR ''-'') cs)"

definition service_update ::
  "(string \<Rightarrow> string option) \<Rightarrow> string \<Rightarrow> string option \<Rightarrow> string option \<Rightarrow> ws_store \<Rightarrow> ws_rec res \<times> ws_store" where
  "service_update url_protocol w name logoUrl s =
     (let named = (case name of
                     None \<Rightarrow> Inr None
                   | Some v \<Rightarrow>
                       let n = js_trim v in
                       if n = [] then Inl (BadRequest ''BAD_REQUEST'' ''name'')
                       else if 80 < length n then Inl (BadRequest ''BAD_REQUEST'' ''name length'')
                       else Inr (Some n));
          logo = (case logoUrl of
                    None \<Rightarrow> Inr None
                  | Some v \<Rightarrow>
                      let c = js_trim v in
                      if c = '''' then Inr (Some None)
                      else bind_res (validateImageRef url_protocol (Some c)) (\<lambda>l. Inr (Some l)))
      in case named of
           Inl e \<Rightarrow> (Inl e, s)
         | Inr n \<Rightarrow>
             (case logo of
                Inl e \<Rightarrow> (Inl e, s)
              | Inr l \<Rightarrow>
                  (case ws_update w n l s of
                     (None, s1) \<Rightarrow> (Inl (NotFound ''NOT_FOUND'' w), s1)
                   | (Some rec, s1) \<Rightarrow> (Inr rec, s1))))"

definition service_delete :: "string \<Rightarrow> string \<Rightarrow> ws_store \<Rightarrow> unit res \<times> ws_store" where
  "service_delete w subject s =
     (case ws_get s w of
        None \<Rightarrow> (Inl (NotFound ''NOT_FOUND'' w), s)
      | Some rec \<Rightarrow>
          if wk_owner rec \<noteq> subject then (Inl (Forbidden ''FORBIDDEN'' ''workspace:delete''), s)
          else (Inr (), ws_delete w s))"

text \<open>The attempts of \<open>create\<close> under the ids it tries, until one is free.\<close>

fun try_create :: "int \<Rightarrow> string \<Rightarrow> string \<Rightarrow> string list \<Rightarrow> ws_store \<Rightarrow> ws_rec option \<times> ws_store" where
  "try_create now name owner [] s = (None, s)"
| "try_create now name owner (w # ws) s =
     (case ws_create now w name owner s of
        (Some rec, s1) \<Rightarrow> (Some rec, s1)
      | (None, s1) \<Rightarrow> try_create now name owner ws s1)"

text \<open>\<open>draws\<close> are the six random draws the loop would draw.\<close>

definition service_create ::
  "int \<Rightarrow> string list \<Rightarrow> string \<Rightarrow> string \<Rightarrow> string option \<Rightarrow> ws_store \<Rightarrow> ws_with_role res \<times> ws_store" where
  "service_create now draws subject input_name input_id s =
     (let name = js_trim input_name in
      if name = [] then (Inl (BadRequest ''BAD_REQUEST'' ''name''), s)
      else
        let explicit = truthy input_id \<noteq> None;
            w = (case truthy input_id of Some i \<Rightarrow> js_trim i | None \<Rightarrow> slugify name)
        in if w = [] \<or> \<not> slug_ok w then (Inl (BadRequest ''BAD_REQUEST'' ''id''), s)
           else
             (case ws_create now w name subject s of
                (Some rec, s1) \<Rightarrow>
                  (Inr \<lparr>wr_id = wk_id rec, wr_name = wk_name rec, wr_role = ''admin'', wr_logoUrl = None\<rparr>, s1)
              | (None, s1) \<Rightarrow>
                  if explicit then (Inl (Conflict ''CONFLICT'' w), s1)
                  else
                    let stem = (if slugify name = [] then ''ws'' else slugify name) in
                    (case try_create now name subject (map (\<lambda>x. stem @ ''-'' @ x) (take 6 draws)) s1 of
                       (Some rec, s2) \<Rightarrow>
                         (Inr \<lparr>wr_id = wk_id rec, wr_name = wk_name rec, wr_role = ''admin'', wr_logoUrl = None\<rparr>, s2)
                     | (None, s2) \<Rightarrow> (Inl (Conflict ''CONFLICT'' ''unique''), s2))))"

subsection \<open>Which workspace a subject acts in\<close>

text \<open>
  \<open>applyActiveWorkspace\<close>, its first part (the membership of the token's own workspace) apart: \<open>hint\<close> is the workspace the request names. Seeding the profile with the name claim is in
  \<open>seedSsoName\<close>. A workspace store is configured (without one the principal is returned as it came); the steps between the awaits of this function are taken together.
\<close>

definition bootstrapMembership :: "int \<Rightarrow> principal \<Rightarrow> ws_store \<Rightarrow> string option \<times> ws_store" where
  "bootstrapMembership now base s =
     (let subject = pr_subject base; w = pr_workspace base in
      if w = [] then (None, s)
      else (case truthy (roleFor s w subject) of
              None \<Rightarrow>
                let r = (if ws_get s w = None \<or> pr_via base = ViaApiKey
                         then (case pr_roles base of [] \<Rightarrow> ''member'' | r # _ \<Rightarrow> r) else ''member'')
                in (Some r, ensureMembership now w subject r (pr_email base) s)
            | Some r \<Rightarrow>
                (Some r, if pr_email base \<noteq> None then ensureMembership now w subject r (pr_email base) s else s)))"

definition applyActiveWorkspace ::
  "int \<Rightarrow> string option \<Rightarrow> principal \<Rightarrow> ws_store \<Rightarrow> principal \<times> ws_store" where
  "applyActiveWorkspace now hint base s =
     (if evidenceGrant base \<noteq> None \<or> pr_via base = ViaRunner \<or> pr_via base = ViaGithubActions then (base, s)
      else
        let w = pr_workspace base;
            (baseRole, s1) = bootstrapMembership now base s;
            requested = default_or w hint;
            role = (if requested \<noteq> [] \<and> requested \<noteq> w then truthy (roleFor s1 requested (pr_subject base)) else None)
        in (case role of
              Some r \<Rightarrow> base\<lparr>pr_workspace := requested, pr_roles := [r]\<rparr>
            | None \<Rightarrow> if w \<noteq> [] then base\<lparr>pr_roles := [default_or [] baseRole]\<rparr> else base, s1))"

end
