(* ===== verification/MembersLaws.thy ===== *)
theory MembersLaws
  imports Members
begin

text \<open>
  What membership promises. The locale \<open>role_book\<close> has the laws of a store of roles: joining gives a role only to someone
  who has none, setting and removing touch one member. The in-memory store is its instance. A system of calls interleaved
  at their awaits runs over it; its properties are the last administrator, the invites, signing in and the creation of a
  workspace.
\<close>

subsection \<open>The laws of a store of roles\<close>

locale role_book =
  fixes role :: "'s \<Rightarrow> string \<Rightarrow> string \<Rightarrow> string option"
    and joined :: "string \<Rightarrow> string \<Rightarrow> string \<Rightarrow> 's \<Rightarrow> 's \<Rightarrow> bool"
    and put :: "string \<Rightarrow> string \<Rightarrow> string \<Rightarrow> 's \<Rightarrow> 's"
    and remove :: "string \<Rightarrow> string \<Rightarrow> 's \<Rightarrow> 's"
  assumes role_joined: "joined w u r s s' \<Longrightarrow>
      role s' w' u' = (if w' = w \<and> u' = u then Some (default_or r (role s w u)) else role s w' u')"
    and role_put: "role (put w u r s) w' u' = (if w' = w \<and> u' = u \<and> role s w u \<noteq> None then Some r else role s w' u')"
    and role_remove: "role (remove w u s) w' u' = (if w' = w \<and> u' = u then None else role s w' u')"
begin

lemma joined_keeps: "joined w u r s s' \<Longrightarrow> role s w' u' = Some r' \<Longrightarrow> role s' w' u' = Some r'"
  by (cases "w' = w \<and> u' = u") (auto simp: role_joined default_or_def)

lemma put_other: "w' \<noteq> w \<or> u' \<noteq> u \<Longrightarrow> role (put w u r s) w' u' = role s w' u'"
  by (auto simp: role_put)

lemma remove_other: "w' \<noteq> w \<or> u' \<noteq> u \<Longrightarrow> role (remove w u s) w' u' = role s w' u'"
  by (auto simp: role_remove)

text \<open>Someone else's role survives both writes.\<close>

lemmas others_keep = put_other remove_other

end

lemma map_of_del_key [simp]: "map_of (del_key k m) k' = (if k' = k then None else map_of m k')"
  by (induction m) (auto simp: del_key_def)

lemma members_of_workspaces [simp]: "members_of (s\<lparr>st_workspaces := x\<rparr>) w = members_of s w"
  by (simp add: members_of_def)

lemma members_of_cell_set [simp]:
  "members_of (cell_set w u f s) w' = (if w' = w then set_key u f (members_of s w) else members_of s w')"
  by (simp add: members_of_def cell_set_def default_or_def)

lemma cell_set_workspaces [simp]: "st_workspaces (cell_set w u f s) = st_workspaces s"
  by (simp add: cell_set_def)

lemma members_of_delete [simp]: "members_of (ws_delete w s) w' = (if w' = w then [] else members_of s w')"
  by (simp add: members_of_def ws_delete_def default_or_def)

lemma members_of_remove [simp]:
  "members_of (ws_removeMember w u s) w' = (if w' = w then del_key u (members_of s w) else members_of s w')"
  by (simp add: members_of_def ws_removeMember_def default_or_def del_key_def split: option.splits)

lemma roleFor_workspaces [simp]: "roleFor (s\<lparr>st_workspaces := x\<rparr>) w u = roleFor s w u"
  by (simp add: roleFor_def)

lemma roleFor_cell_set [simp]:
  "roleFor (cell_set w u f s) w' u' =
     (if w' = w \<and> u' = u then Some (mc_role (f (map_of (members_of s w) u))) else roleFor s w' u')"
  by (simp add: roleFor_def)

lemma roleFor_ensure:
  "roleFor (ensureMembership now w u r email s) w' u' =
     (if w' = w \<and> u' = u then Some (default_or r (roleFor s w u)) else roleFor s w' u')"
  by (simp add: ensureMembership_def Let_def roleFor_def default_or_def split: option.split)

lemma roleFor_setRole:
  "roleFor (snd (ws_setRole w u r s)) w' u' = (if w' = w \<and> u' = u \<and> roleFor s w u \<noteq> None then Some r else roleFor s w' u')"
  by (auto simp: ws_setRole_def roleFor_def split: option.split)

lemma roleFor_remove: "roleFor (ws_removeMember w u s) w' u' = (if w' = w \<and> u' = u then None else roleFor s w' u')"
  by (simp add: roleFor_def)

interpretation memory: role_book roleFor
  "\<lambda>w u r s s'. \<exists>now email. s' = ensureMembership now w u r email s"
  "\<lambda>w u r s. snd (ws_setRole w u r s)" ws_removeMember
  by unfold_locales (auto simp: roleFor_ensure roleFor_setRole roleFor_remove)

subsection \<open>One row for each subject\<close>

definition subjects_distinct :: "ws_store \<Rightarrow> bool" where
  "subjects_distinct s \<longleftrightarrow> (\<forall>w. distinct (map fst (members_of s w)))"

lemma distinct_del_key: "distinct (map fst m) \<Longrightarrow> distinct (map fst (del_key k m))"
  by (simp add: del_key_def distinct_map_filter)

lemma subjects_distinct_workspaces [simp]: "subjects_distinct (s\<lparr>st_workspaces := x\<rparr>) = subjects_distinct s"
  by (simp add: subjects_distinct_def)

lemma subjects_distinct_cell_set [simp]: "subjects_distinct s \<Longrightarrow> subjects_distinct (cell_set w u f s)"
  by (simp add: subjects_distinct_def)

lemma subjects_distinct_delete: "subjects_distinct s \<Longrightarrow> subjects_distinct (ws_delete w s)"
  by (simp add: subjects_distinct_def)

lemma subjects_distinct_remove: "subjects_distinct s \<Longrightarrow> subjects_distinct (ws_removeMember w u s)"
  by (simp add: subjects_distinct_def distinct_del_key)

lemma subjects_distinct_setRole: "subjects_distinct s \<Longrightarrow> subjects_distinct (snd (ws_setRole w u r s))"
  by (simp add: ws_setRole_def split: option.split)

lemma subjects_distinct_ensure: "subjects_distinct s \<Longrightarrow> subjects_distinct (ensureMembership now w u r email s)"
  by (simp add: ensureMembership_def Let_def)

lemma subjects_distinct_create: "subjects_distinct s \<Longrightarrow> subjects_distinct (snd (ws_create now w n u s))"
  by (simp add: ws_create_def Let_def)

lemma subjects_distinct_try: "subjects_distinct s \<Longrightarrow> subjects_distinct (snd (try_create now n u ws s))"
proof (induction now n u ws s rule: try_create.induct)
  case (2 now n u w ws s)
  then show ?case using subjects_distinct_create [of s now w n u] by (auto split: prod.split option.split)
qed simp

lemma subjects_distinct_update: "subjects_distinct s \<Longrightarrow> subjects_distinct (snd (ws_update w n l s))"
  by (simp add: ws_update_def Let_def split: option.split)

lemmas keeps_subjects = subjects_distinct_delete subjects_distinct_remove subjects_distinct_setRole
  subjects_distinct_ensure subjects_distinct_create subjects_distinct_try subjects_distinct_update

subsection \<open>What the services do to roles\<close>

definition is_admin :: "ws_store \<Rightarrow> string \<Rightarrow> string \<Rightarrow> bool" where
  "is_admin s w u \<longleftrightarrow> roleFor s w u = Some ''admin''"

definition has_admin :: "ws_store \<Rightarrow> string \<Rightarrow> bool" where
  "has_admin s w \<longleftrightarrow> list_ex (\<lambda>e. mc_role (snd e) = ''admin'') (members_of s w)"

lemma has_admin_iff:
  assumes "subjects_distinct s"
  shows "has_admin s w \<longleftrightarrow> (\<exists>u. is_admin s w u)"
proof
  assume "has_admin s w"
  then obtain u c where "(u, c) \<in> set (members_of s w)" "mc_role c = ''admin''" by (auto simp: has_admin_def list_ex_iff)
  moreover have "distinct (map fst (members_of s w))" using assms by (simp add: subjects_distinct_def)
  ultimately show "\<exists>u. is_admin s w u" by (metis is_admin_def map_of_is_SomeI option.map(2) roleFor_def)
next
  assume "\<exists>u. is_admin s w u"
  then show "has_admin s w"
    by (force simp: has_admin_def list_ex_iff is_admin_def roleFor_def dest!: map_of_SomeD)
qed

lemma create_keeps_admin: "is_admin s w u \<Longrightarrow> is_admin (snd (ws_create now w' n v s)) w u"
  by (simp add: is_admin_def ws_create_def Let_def)

lemma try_keeps_admin: "is_admin s w u \<Longrightarrow> is_admin (snd (try_create now n v ws s)) w u"
proof (induction now n v ws s rule: try_create.induct)
  case (2 now n v w' ws s)
  then show ?case using create_keeps_admin [of s w u now w' n v] by (auto split: prod.split option.split)
qed simp

lemma snd_case_result:
  "snd (case x of (None, s2) \<Rightarrow> (a, s2) | (Some r, s2) \<Rightarrow> (f r, s2)) = snd x"
  by (simp split: prod.split option.split)

lemma service_create_induct:
  assumes "P s" "\<And>w' n' s'. P s' \<Longrightarrow> P (snd (ws_create now w' n' v s'))"
    and "\<And>ws n' s'. P s' \<Longrightarrow> P (snd (try_create now n' v ws s'))"
  shows "P (snd (service_create now d v n i s))"
proof -
  define nm w where "nm = js_trim n" and "w = (case truthy i of Some x \<Rightarrow> js_trim x | None \<Rightarrow> slugify nm)"
  obtain c s1 where c: "ws_create now w nm v s = (c, s1)" by (cases "ws_create now w nm v s")
  then have "P s1" using assms(1,2) by (metis snd_conv)
  then show ?thesis
    using assms(1,3) c
    by (simp add: service_create_def Let_def nm_def [symmetric] w_def [symmetric] snd_case_result split: option.split)
qed

lemma service_create_keeps_admin:
  "is_admin s w u \<Longrightarrow> is_admin (snd (service_create now d v n i s)) w u"
  by (rule service_create_induct) (simp_all add: create_keeps_admin try_keeps_admin)

lemma service_create_subjects:
  "subjects_distinct s \<Longrightarrow> subjects_distinct (snd (service_create now d v n i s))"
  by (rule service_create_induct) (simp_all add: keeps_subjects)

lemma roleFor_update [simp]: "roleFor (snd (ws_update w n l s)) = roleFor s"
  by (intro ext) (simp add: ws_update_def Let_def split: option.split)

lemma service_update_store: "snd (service_update url w n l s) = s \<or> (\<exists>a b. snd (service_update url w n l s) = snd (ws_update w a b s))"
  by (auto simp: service_update_def Let_def split: sum.split prod.split option.split) (metis snd_conv)+

lemma service_update_keeps:
  "roleFor (snd (service_update url w n l s)) = roleFor s"
  "subjects_distinct s \<Longrightarrow> subjects_distinct (snd (service_update url w n l s))"
  using service_update_store [of url w n l s] subjects_distinct_update by (metis roleFor_update)+

lemma service_delete_store: "snd (service_delete w u s) = s \<or> snd (service_delete w u s) = ws_delete w s"
  by (simp add: service_delete_def split: option.split)

lemma sign_in_store:
  "snd (applyActiveWorkspace now hint p s) = s \<or>
   (\<exists>r. snd (applyActiveWorkspace now hint p s) = ensureMembership now (pr_workspace p) (pr_subject p) r (pr_email p) s)"
  by (auto simp: applyActiveWorkspace_def bootstrapMembership_def Let_def split: prod.split option.split)

lemma accept_store:
  "snd (snd (acceptInvite hash now via u email token b s)) = s \<or>
   (\<exists>w r. snd (snd (acceptInvite hash now via u email token b s)) = ensureMembership now w u r email s)"
  by (auto simp: acceptInvite_def invites_consume_def Let_def split: option.split)

subsection \<open>The decision on the last administrator\<close>

lemma set_listMembers: "set (ws_listMembers cmp s w) = member_row ` set (members_of s w)"
  by (simp add: ws_listMembers_def)

lemma listed_subjects:
  assumes "subjects_distinct s"
  shows "distinct (map mb_subject (ws_listMembers cmp s w))"
proof -
  have "mset (map mb_subject (ws_listMembers cmp s w)) = mset (map fst (members_of s w))"
    by (simp add: ws_listMembers_def image_mset.compositionality comp_def member_row_def)
  then show ?thesis using assms by (metis mset_eq_imp_distinct_iff subjects_distinct_def)
qed

lemma listed_role:
  assumes "subjects_distinct s" "m \<in> set (ws_listMembers cmp s w)"
  shows "roleFor s w (mb_subject m) = Some (mb_role m)"
  using assms by (auto simp: set_listMembers member_row_def roleFor_def subjects_distinct_def)

lemma listed_admin:
  assumes "is_admin s w u"
  shows "\<exists>m \<in> set (ws_listMembers cmp s w). mb_role m = ''admin''"
  using assms by (force simp: set_listMembers member_row_def is_admin_def roleFor_def dest!: map_of_SomeD)

lemma find_subject:
  "List.find (\<lambda>m. mb_subject m = u) all = Some t \<Longrightarrow> t \<in> set all \<and> mb_subject t = u"
  by (auto simp: find_Some_iff)

lemma another_admin:
  assumes "\<not> isLastAdmin all t" "t \<in> set all" "distinct (map mb_subject all)"
    and "a \<in> set all" "mb_role a = ''admin''"
  shows "\<exists>b \<in> set all. mb_role b = ''admin'' \<and> mb_subject b \<noteq> mb_subject t"
proof (cases "mb_role t = ''admin''")
  case False
  then show ?thesis using assms by (metis (no_types, lifting) distinct_map inj_onD)
next
  case True
  let ?A = "filter (\<lambda>m. mb_role m = ''admin'') all"
  have "length ?A \<noteq> 1" using assms(1) True by (simp add: isLastAdmin_def)
  moreover have t: "t \<in> set ?A" using assms(2) True by simp
  moreover have "distinct ?A" using assms(3) by (simp add: distinct_map)
  ultimately obtain b where "b \<in> set ?A" "b \<noteq> t"
    by (metis distinct_card card_1_singleton_iff is_singletonI is_singletonI' is_singleton_altdef empty_iff)
  then show ?thesis using assms(2,3) by (simp add: distinct_map) (metis (no_types, lifting) inj_onD)
qed

lemma decided_call: "member_decide call all = Inr (Some c) \<Longrightarrow> c = call"
  by (cases call) (auto split: option.splits)

text \<open>A write decided on a list whose administrators are all in office leaves one of them in office.\<close>

lemma write_leaves_admin:
  assumes "member_decide call all = Inr (Some call)" "distinct (map mb_subject all)"
    and "a \<in> set all" "mb_role a = ''admin''"
    and office: "\<And>m. m \<in> set all \<Longrightarrow> mb_role m = ''admin'' \<Longrightarrow> is_admin s (call_workspace call) (mb_subject m)"
  shows "\<exists>u. is_admin (member_write call s) (call_workspace call) u"
proof -
  have step: "\<exists>u. is_admin (member_write call s) (call_workspace call) u"
    if other: "\<not> isLastAdmin all t" "t \<in> set all"
      and keeps: "\<And>u. u \<noteq> mb_subject t \<Longrightarrow> is_admin s (call_workspace call) u \<Longrightarrow>
                    is_admin (member_write call s) (call_workspace call) u" for t
    using another_admin [OF other assms(2-4)] office keeps by blast
  show ?thesis
  proof (cases call)
    case (SetRole w u r)
    then obtain t where t: "t \<in> set all" "mb_subject t = u" "assertNotLastAdminDemotion all t r = Inr ()"
      using assms(1) find_subject by (fastforce split: option.splits)
    show ?thesis
    proof (cases "r = ''admin''")
      case True
      then have "is_admin (member_write call s) w (mb_subject a)"
        using office [OF assms(3,4)] SetRole by (auto simp: is_admin_def roleFor_setRole)
      then show ?thesis using SetRole by auto
    next
      case False
      then have "\<not> isLastAdmin all t" using t(3) by (auto simp: assertNotLastAdminDemotion_def split: if_splits)
      moreover have "is_admin (member_write call s) (call_workspace call) v"
        if "v \<noteq> mb_subject t" "is_admin s (call_workspace call) v" for v
        using that t(2) SetRole by (simp add: is_admin_def roleFor_setRole)
      ultimately show ?thesis using step t(1) by blast
    qed
  next
    case (RemoveMember w u)
    then obtain t where t: "t \<in> set all" "mb_subject t = u" "assertNotLastAdminRemoval all t = Inr ()"
      using assms(1) find_subject by (fastforce split: option.splits)
    then have "\<not> isLastAdmin all t" by (auto simp: assertNotLastAdminRemoval_def split: if_splits)
    moreover have "is_admin (member_write call s) (call_workspace call) v"
      if "v \<noteq> mb_subject t" "is_admin s (call_workspace call) v" for v
      using that t(2) RemoveMember by (simp add: is_admin_def roleFor_remove)
    ultimately show ?thesis using step t(1) by blast
  next
    case (LeaveWorkspace w u)
    then obtain t where t: "t \<in> set all" "mb_subject t = u" "assertCanLeave all t = Inr ()"
      using assms(1) find_subject by (fastforce split: option.splits)
    then have "\<not> isLastAdmin all t" by (auto simp: assertCanLeave_def split: if_splits)
    moreover have "is_admin (member_write call s) (call_workspace call) v"
      if "v \<noteq> mb_subject t" "is_admin s (call_workspace call) v" for v
      using that t(2) LeaveWorkspace by (simp add: is_admin_def roleFor_remove)
    ultimately show ?thesis using step t(1) by blast
  qed
qed

subsection \<open>Calls interleaved\<close>

text \<open>The stores, and the calls that have listed the members and not written yet.\<close>

record member_sys =
  my_store :: ws_store
  my_invites :: invite_store
  my_pending :: "(member_call \<times> member_record list) list"

datatype member_event =
    BeginCall member_call
  | FinishCall nat
  | CreateWs int "string list" string string "string option"
  | UpdateWs string "string option" "string option"
  | DeleteWs string string
  | SignIn int "string option" principal
  | NewInvite int string string string string string "int option"
  | RevokeInvite string string
  | AcceptInvite int principal_via string "string option" string

fun member_event_step ::
  "string compare \<Rightarrow> (string \<Rightarrow> string) \<Rightarrow> (string \<Rightarrow> string option) \<Rightarrow> member_event \<Rightarrow> member_sys \<Rightarrow> member_sys" where
  "member_event_step name_cmp hash url (BeginCall call) y =
     y\<lparr>my_pending := my_pending y @ [(call, ws_listMembers name_cmp (my_store y) (call_workspace call))]\<rparr>"
| "member_event_step name_cmp hash url (FinishCall i) y =
     (if i < length (my_pending y) then
        let (call, all) = my_pending y ! i
        in y\<lparr>my_store := snd (member_finish call all (my_store y)), my_pending := drop_nth i (my_pending y)\<rparr>
      else y)"
| "member_event_step name_cmp hash url (CreateWs now draws subject name i) y =
     y\<lparr>my_store := snd (service_create now draws subject name i (my_store y))\<rparr>"
| "member_event_step name_cmp hash url (UpdateWs w name logo) y =
     y\<lparr>my_store := snd (service_update url w name logo (my_store y))\<rparr>"
| "member_event_step name_cmp hash url (DeleteWs w subject) y =
     y\<lparr>my_store := snd (service_delete w subject (my_store y))\<rparr>"
| "member_event_step name_cmp hash url (SignIn now hint p) y =
     y\<lparr>my_store := snd (applyActiveWorkspace now hint p (my_store y))\<rparr>"
| "member_event_step name_cmp hash url (NewInvite now uuid token w role createdBy hours) y =
     y\<lparr>my_invites := snd (createInvite hash None now uuid token w role createdBy hours (my_invites y))\<rparr>"
| "member_event_step name_cmp hash url (RevokeInvite w uuid) y =
     y\<lparr>my_invites := invites_revoke w uuid (my_invites y)\<rparr>"
| "member_event_step name_cmp hash url (AcceptInvite now via subject email token) y =
     (let (r, invites1, s1) = acceptInvite hash now via subject email token (my_invites y) (my_store y)
      in y\<lparr>my_store := s1, my_invites := invites1\<rparr>)"

fun member_run ::
  "string compare \<Rightarrow> (string \<Rightarrow> string) \<Rightarrow> (string \<Rightarrow> string option) \<Rightarrow> member_event list \<Rightarrow> member_sys \<Rightarrow> member_sys" where
  "member_run name_cmp hash url [] y = y"
| "member_run name_cmp hash url (e # es) y = member_run name_cmp hash url es (member_event_step name_cmp hash url e y)"

definition no_members :: member_sys where
  "no_members = \<lparr>my_store = \<lparr>st_workspaces = [], st_members = []\<rparr>, my_invites = [], my_pending = []\<rparr>"

definition pending_on :: "string \<Rightarrow> member_sys \<Rightarrow> (member_call \<times> member_record list) list" where
  "pending_on w y = filter (\<lambda>(call, all). call_workspace call = w) (my_pending y)"

text \<open>The calls on \<open>w\<close> one after the other, and \<open>w\<close> not deleted.\<close>

fun one_at_a_time :: "string \<Rightarrow> member_sys \<Rightarrow> member_event \<Rightarrow> bool" where
  "one_at_a_time w y (BeginCall call) \<longleftrightarrow> call_workspace call \<noteq> w \<or> pending_on w y = []"
| "one_at_a_time w y (DeleteWs w' subject) \<longleftrightarrow> w' \<noteq> w"
| "one_at_a_time w y e \<longleftrightarrow> True"

fun serial_on ::
  "string compare \<Rightarrow> (string \<Rightarrow> string) \<Rightarrow> (string \<Rightarrow> string option) \<Rightarrow> string \<Rightarrow> member_event list \<Rightarrow> member_sys \<Rightarrow> bool" where
  "serial_on name_cmp hash url w [] y \<longleftrightarrow> True"
| "serial_on name_cmp hash url w (e # es) y \<longleftrightarrow>
     one_at_a_time w y e \<and> serial_on name_cmp hash url w es (member_event_step name_cmp hash url e y)"

subsection \<open>What every event keeps\<close>

lemma finish_store: "snd (member_finish call all s) = s \<or> snd (member_finish call all s) = member_write call s"
  by (auto simp: member_finish_def dest: decided_call split: sum.split option.split)

lemma write_subjects: "subjects_distinct s \<Longrightarrow> subjects_distinct (member_write call s)"
  by (cases call) (simp_all add: keeps_subjects)

lemma event_subjects:
  assumes "subjects_distinct (my_store y)"
  shows "subjects_distinct (my_store (member_event_step cmp hash url e y))"
proof (cases e)
  case (FinishCall i)
  then show ?thesis
    using assms write_subjects finish_store by (auto simp: Let_def split: prod.split) (metis write_subjects finish_store)
next
  case (CreateWs now d v n i)
  then show ?thesis using assms service_create_subjects by simp
next
  case (UpdateWs w n l)
  then show ?thesis using assms service_update_keeps(2) by simp
next
  case (DeleteWs w u)
  then show ?thesis using assms service_delete_store [of w u "my_store y"] subjects_distinct_delete by auto
next
  case (SignIn now hint p)
  then show ?thesis using assms sign_in_store [of now hint p "my_store y"] subjects_distinct_ensure by auto
next
  case (AcceptInvite now via u email token)
  then show ?thesis
    using assms accept_store [of hash now via u email token "my_invites y" "my_store y"] subjects_distinct_ensure
    by (auto simp: Let_def split: prod.split)
qed (use assms in auto)

lemma run_subjects: "subjects_distinct (my_store y) \<Longrightarrow> subjects_distinct (my_store (member_run cmp hash url es y))"
  by (induction es arbitrary: y) (simp_all add: event_subjects)

text \<open>The invariant: an administrator, and at most one call under way on \<open>w\<close>, decided on administrators in office.\<close>

definition good_snapshot :: "ws_store \<Rightarrow> string \<Rightarrow> member_record list \<Rightarrow> bool" where
  "good_snapshot s w all \<longleftrightarrow>
     distinct (map mb_subject all) \<and> (\<exists>a \<in> set all. mb_role a = ''admin'') \<and>
     (\<forall>m \<in> set all. mb_role m = ''admin'' \<longrightarrow> is_admin s w (mb_subject m))"

definition admin_inv :: "string \<Rightarrow> member_sys \<Rightarrow> bool" where
  "admin_inv w y \<longleftrightarrow>
     (\<exists>u. is_admin (my_store y) w u) \<and> length (pending_on w y) \<le> 1 \<and>
     (\<forall>e \<in> set (pending_on w y). good_snapshot (my_store y) w (snd e))"

text \<open>An event that takes no administrator out of office and begins no call keeps it.\<close>

lemma admin_inv_grow:
  assumes "admin_inv w y" "my_pending y' = my_pending y"
    and "\<And>u. is_admin (my_store y) w u \<Longrightarrow> is_admin (my_store y') w u"
  shows "admin_inv w y'"
  using assms unfolding admin_inv_def good_snapshot_def pending_on_def by (metis (no_types, lifting))

lemma admin_inv_begin:
  assumes "admin_inv w y" "subjects_distinct (my_store y)" "one_at_a_time w y (BeginCall call)"
  shows "admin_inv w (member_event_step cmp hash url (BeginCall call) y)"
proof (cases "call_workspace call = w")
  case True
  let ?all = "ws_listMembers cmp (my_store y) w"
  have "good_snapshot (my_store y) w ?all"
    using assms(1,2) listed_subjects listed_role listed_admin
    unfolding good_snapshot_def admin_inv_def is_admin_def by metis
  then show ?thesis using assms(1,3) True by (simp add: admin_inv_def pending_on_def)
next
  case False
  then show ?thesis using assms(1) by (simp add: admin_inv_def pending_on_def)
qed

lemma filter_drop_nth:
  "i < length xs \<Longrightarrow> P (xs ! i) \<Longrightarrow> length (filter P xs) \<le> 1 \<Longrightarrow> filter P (drop_nth i xs) = []"
  "i < length xs \<Longrightarrow> \<not> P (xs ! i) \<Longrightarrow> filter P (drop_nth i xs) = filter P xs"
proof -
  assume i: "i < length xs"
  have xs: "filter P xs = filter P (take i xs) @ filter P [xs ! i] @ filter P (drop (Suc i) xs)"
    using id_take_nth_drop [OF i] by (metis append_Cons append_Nil filter_append)
  show "filter P (drop_nth i xs) = []" if "P (xs ! i)" "length (filter P xs) \<le> 1"
    using xs that by (simp add: drop_nth_def)
  show "filter P (drop_nth i xs) = filter P xs" if "\<not> P (xs ! i)"
    using xs that by (simp add: drop_nth_def)
qed

lemma write_elsewhere: "call_workspace call \<noteq> w \<Longrightarrow> roleFor (member_write call s) w u = roleFor s w u"
  by (cases call) (auto simp: memory.others_keep)

lemma admin_inv_finish:
  assumes "admin_inv w y"
  shows "admin_inv w (member_event_step cmp hash url (FinishCall i) y)"
proof (cases "i < length (my_pending y)")
  case True
  obtain call all where c: "my_pending y ! i = (call, all)" by fastforce
  let ?s = "my_store y" and ?s' = "snd (member_finish call all (my_store y))"
  have step: "member_event_step cmp hash url (FinishCall i) y = y\<lparr>my_store := ?s', my_pending := drop_nth i (my_pending y)\<rparr>"
    using True c by simp
  show ?thesis
  proof (cases "call_workspace call = w")
    case here: True
    then have "pending_on w (member_event_step cmp hash url (FinishCall i) y) = []"
      using assms True c unfolding step by (simp add: pending_on_def admin_inv_def filter_drop_nth(1))
    moreover have "(call, all) \<in> set (my_pending y)" using True c by (metis nth_mem)
    then have "(call, all) \<in> set (pending_on w y)" using here by (simp add: pending_on_def)
    then have g: "good_snapshot ?s w all" using assms by (auto simp: admin_inv_def)
    have "\<exists>u. is_admin ?s' w u"
    proof (cases "member_decide call all = Inr (Some call)")
      case True
      then show ?thesis using write_leaves_admin [OF True] g here
        by (auto simp: good_snapshot_def member_finish_def)
    next
      case False
      then have "?s' = ?s"
        using decided_call [of call all] by (auto simp: member_finish_def split: sum.split option.split)
      then show ?thesis using assms by (auto simp: admin_inv_def)
    qed
    ultimately show ?thesis unfolding step by (simp add: admin_inv_def)
  next
    case False
    then have "pending_on w (member_event_step cmp hash url (FinishCall i) y) = pending_on w y"
      using True c unfolding step by (simp add: pending_on_def filter_drop_nth(2))
    moreover have "is_admin ?s' w = is_admin ?s w"
      using finish_store [of call all ?s] write_elsewhere [OF False] by (auto simp: is_admin_def fun_eq_iff)
    ultimately show ?thesis using assms unfolding step admin_inv_def good_snapshot_def by simp
  qed
qed (use assms in simp)

lemma admin_inv_event:
  assumes "admin_inv w y" "subjects_distinct (my_store y)" "one_at_a_time w y e"
  shows "admin_inv w (member_event_step cmp hash url e y)"
proof (cases e)
  case (BeginCall call)
  then show ?thesis using admin_inv_begin assms by simp
next
  case (FinishCall i)
  then show ?thesis using admin_inv_finish [OF assms(1)] by simp
next
  case (CreateWs now d v n i)
  then show ?thesis using admin_inv_grow [OF assms(1)] service_create_keeps_admin by simp
next
  case (UpdateWs w' n l)
  then show ?thesis using admin_inv_grow [OF assms(1)] by (simp add: is_admin_def service_update_keeps(1))
next
  case (DeleteWs w' u)
  then have "is_admin (snd (service_delete w' u (my_store y))) w v" if "is_admin (my_store y) w v" for v
    using that assms(3) service_delete_store [of w' u "my_store y"] by (auto simp: is_admin_def roleFor_def)
  then show ?thesis using DeleteWs admin_inv_grow [OF assms(1)] by simp
next
  case (SignIn now hint p)
  have "is_admin (snd (applyActiveWorkspace now hint p (my_store y))) w v" if "is_admin (my_store y) w v" for v
    using that sign_in_store [of now hint p "my_store y"] memory.joined_keeps unfolding is_admin_def by metis
  then show ?thesis using SignIn admin_inv_grow [OF assms(1)] by simp
next
  case (AcceptInvite now via u email token)
  obtain r b s1 where r: "acceptInvite hash now via u email token (my_invites y) (my_store y) = (r, b, s1)"
    by (rule prod_cases3)
  have "is_admin s1 w v" if "is_admin (my_store y) w v" for v
    using that accept_store [of hash now via u email token "my_invites y" "my_store y"] r memory.joined_keeps
    unfolding is_admin_def by (metis snd_conv)
  then show ?thesis using AcceptInvite admin_inv_grow [OF assms(1)] r by simp
next
  case (NewInvite now uuid token w' r by_whom h)
  then show ?thesis using admin_inv_grow [OF assms(1)] by simp
next
  case (RevokeInvite w' uuid)
  then show ?thesis using admin_inv_grow [OF assms(1)] by simp
qed

lemma admin_inv_run:
  "admin_inv w y \<Longrightarrow> subjects_distinct (my_store y) \<Longrightarrow> serial_on cmp hash url w es y \<Longrightarrow>
   admin_inv w (member_run cmp hash url es y)"
  by (induction es arbitrary: y) (simp_all add: admin_inv_event event_subjects)

lemma reachable_subjects: "subjects_distinct (my_store (member_run cmp hash url es no_members))"
  by (rule run_subjects) (simp add: no_members_def subjects_distinct_def members_of_def default_or_def)

end
