(* ===== verification/MembersTheorems.thy ===== *)
theory MembersTheorems
  imports MembersLaws
begin

text \<open>
  The properties of membership, over the invariant of MembersLaws, and a small workspace they are applied to.
\<close>

subsection \<open>The last administrator\<close>

text \<open>C17. 
  A workspace keeps an administrator. Take any history from the empty store, and any continuation in which the calls that
  change roles, remove members or leave are made on the workspace one at a time (calls on other workspaces, sign-ins,
  invites, creations and renames may come in between, also between the list and the write) and the workspace is not
  deleted: if it had an administrator it still has one.
\<close>

theorem last_admin_kept:
  assumes "y = member_run name_cmp hash url before no_members"
    and "has_admin (my_store y) w" "pending_on w y = []" "serial_on name_cmp hash url w events y"
  shows "has_admin (my_store (member_run name_cmp hash url events y)) w"
proof -
  have d: "subjects_distinct (my_store y)" using assms(1) reachable_subjects by simp
  then have "admin_inv w y" using assms(2,3) by (simp add: admin_inv_def has_admin_iff)
  then have "admin_inv w (member_run name_cmp hash url events y)" using admin_inv_run d assms(4) by blast
  then show ?thesis using run_subjects [OF d] by (simp add: has_admin_iff admin_inv_def)
qed

definition text_cmp :: "string compare" where
  "text_cmp a b = (if a = b then 0 else if ord_class.lexordp (map (of_char :: char \<Rightarrow> nat) a) (map of_char b) then -1 else 1)"

abbreviation run0 :: "member_event list \<Rightarrow> member_sys \<Rightarrow> member_sys" where
  "run0 \<equiv> member_run text_cmp (\<lambda>t. t) (\<lambda>_. None)"

definition human :: "string \<Rightarrow> string \<Rightarrow> string list \<Rightarrow> principal" where
  "human u w roles =
     \<lparr>evidenceGrant = None, pr_subject = u, pr_workspace = w, pr_roles = roles, pr_via = ViaOidc, pr_email = None,
      pr_name = None, pr_scopes = None, pr_runnerId = None\<rparr>"

text \<open>Ada founds a workspace and invites Bob as a second administrator.\<close>

definition founding :: "member_event list" where
  "founding =
     [CreateWs 1 [] ''ada'' '' Acme Lab '' None,
      NewInvite 2 ''i1'' ''inv_abc'' ''acme-lab'' ''admin'' ''ada'' (Some 1),
      AcceptInvite 3 ViaOidc ''bob'' None ''inv_abc'']"

theorem last_admin_kept_witness:
  "has_admin (my_store (run0 [BeginCall (LeaveWorkspace ''acme-lab'' ''ada''), SignIn 4 None (human ''cy'' ''acme-lab'' [''admin'']),
     FinishCall 0, BeginCall (RemoveMember ''acme-lab'' ''bob''), FinishCall 0] (run0 founding no_members))) ''acme-lab''"
proof -
  have "has_admin (my_store (run0 founding no_members)) ''acme-lab''" by code_simp
  moreover have "pending_on ''acme-lab'' (run0 founding no_members) = []" by code_simp
  moreover have "serial_on text_cmp (\<lambda>t. t) (\<lambda>_. None) ''acme-lab''
     [BeginCall (LeaveWorkspace ''acme-lab'' ''ada''), SignIn 4 None (human ''cy'' ''acme-lab'' [''admin'']),
      FinishCall 0, BeginCall (RemoveMember ''acme-lab'' ''bob''), FinishCall 0] (run0 founding no_members)" by code_simp
  ultimately show ?thesis by (rule last_admin_kept [OF refl])
qed

text \<open>
  The calls have to be made one at a time: two administrators who leave at the same moment both see the other one in the
  list, and the workspace has none (the race the service's comment accepts).
\<close>

lemma racing_leaves_no_admin:
  "\<not> has_admin (my_store (run0 [BeginCall (LeaveWorkspace ''acme-lab'' ''ada''), BeginCall (LeaveWorkspace ''acme-lab'' ''bob''),
     FinishCall 0, FinishCall 0] (run0 founding no_members))) ''acme-lab''"
  by code_simp

subsection \<open>Invites\<close>

text \<open>C39. 
  An invite gives one role to one person. A call that is refused (not a human sign-in, no such invite, an expired one)
  changes nothing. A call that is accepted answers the workspace of the invite and the role the caller now has there: the
  role of the invite for someone who was no member, the old role for a member; every other role in every workspace is what
  it was, and the invite counts one acceptance more.
\<close>

theorem invite_admits_once:
  "case acceptInvite hash now via u email token invites s of
     (Inl e, invites', s') \<Rightarrow>
        invites' = invites \<and> s' = s \<and>
        (case map_of invites (hash token) of
           None \<Rightarrow> e = (if via = ViaOidc then NotFound ''NOT_FOUND'' ''invite'' else BadRequest ''BAD_REQUEST'' ''sign in'')
         | Some row \<Rightarrow>
             if via = ViaOidc then invite_expired now row \<and> e = BadRequest ''BAD_REQUEST'' ''expired''
             else e = BadRequest ''BAD_REQUEST'' ''sign in'')
   | (Inr (w, role), invites', s') \<Rightarrow>
        via = ViaOidc \<and>
        (\<exists>row. map_of invites (hash token) = Some row \<and> \<not> invite_expired now row \<and> w = iv_workspace row \<and>
           role = default_or (iv_role row) (roleFor s w u) \<and>
           roleFor s' = (\<lambda>w' u'. if w' = w \<and> u' = u then Some role else roleFor s w' u') \<and>
           map_of invites' = (map_of invites)(hash token \<mapsto> row\<lparr>iv_acceptedCount := iv_acceptedCount row + 1\<rparr>))"
proof (cases "via = ViaOidc")
  case True
  show ?thesis
  proof (cases "map_of invites (hash token)")
    case None
    then show ?thesis using True by (simp add: acceptInvite_def invites_consume_def)
  next
    case (Some row)
    then show ?thesis
      using True by (auto simp: acceptInvite_def invites_consume_def Let_def roleFor_ensure default_or_def fun_eq_iff)
  qed
qed (simp add: acceptInvite_def split: option.split)

text \<open>
  An invite works until it ends. The token of a new invite, presented before the end of its time, is previewed as its
  workspace and role and admits someone who is no member with that role; once revoked it is unknown.
\<close>

lemma map_of_filter_distinct:
  "distinct (map fst m) \<Longrightarrow>
   map_of (filter P m) k = (case map_of m k of None \<Rightarrow> None | Some v \<Rightarrow> if P (k, v) then Some v else None)"
proof (induction m)
  case (Cons e m)
  obtain a b where "e = (a, b)" by fastforce
  moreover have "a \<notin> fst ` set m \<Longrightarrow> map_of m a = None" by (simp add: map_of_eq_None_iff)
  ultimately show ?case using Cons by auto
qed simp

theorem invite_roundtrip:
  assumes "createInvite hash base now uuid token w role by_whom hours invites = ((token', row, link), invites')"
    and "case hours of None \<Rightarrow> True | Some h \<Rightarrow> later < now + h * 3600000"
    and "ws_get s w = Some rec" "roleFor s w u = None" "distinct (map fst invites)"
  shows "token' = token \<and>
     previewInvite hash later token invites' s =
       Inr \<lparr>wr_id = w, wr_name = wk_name rec, wr_role = role, wr_logoUrl = wk_logoUrl rec\<rparr> \<and>
     fst (acceptInvite hash later ViaOidc u email token invites' s) = Inr (w, role) \<and>
     fst (acceptInvite hash later ViaOidc u email token (invites_revoke w uuid invites') s) = Inl (NotFound ''NOT_FOUND'' ''invite'')"
proof -
  define made where "made = \<lparr>iv_id = uuid, iv_workspace = w, iv_role = role, iv_createdBy = by_whom, iv_prefix = take 12 token,
      iv_createdAt = now, iv_expiresAt = map_option (\<lambda>h. now + h * 3600000) hours, iv_acceptedCount = 0\<rparr>"
  have t: "token' = token" and i: "invites' = set_key (hash token) (\<lambda>_. made) invites"
    using assms(1) by (auto simp: createInvite_def invites_create_def Let_def made_def)
  have fresh: "\<not> invite_expired later made" using assms(2) by (auto simp: invite_expired_def made_def split: option.splits)
  have "map_of invites' (hash token) = Some made" by (simp add: i)
  moreover have "map_of (invites_revoke w uuid invites') (hash token) = None"
    using assms(5) by (simp add: i invites_revoke_def map_of_filter_distinct made_def)
  ultimately show ?thesis
    using t fresh assms(3,4)
    by (simp add: previewInvite_def invites_preview_def acceptInvite_def invites_consume_def Let_def roleFor_ensure
        default_or_def) (simp add: made_def)
qed

definition lab :: ws_store where
  "lab = \<lparr>st_workspaces = [(''lab'', \<lparr>wk_id = ''lab'', wk_name = ''Lab'', wk_owner = ''ada'', wk_logoUrl = None, wk_createdAt = 1\<rparr>)],
          st_members = [(''lab'', [(''ada'', \<lparr>mc_role = ''admin'', mc_email = None, mc_addedAt = 1\<rparr>)])]\<rparr>"

theorem invite_roundtrip_witness:
  "fst (acceptInvite (\<lambda>t. t) 9 ViaOidc ''bob'' None ''inv_x''
          (snd (createInvite (\<lambda>t. t) None 2 ''i1'' ''inv_x'' ''lab'' ''member'' ''ada'' (Some 1) [])) lab) = Inr (''lab'', ''member'')"
proof -
  obtain t row link i where c: "createInvite (\<lambda>t. t) None 2 ''i1'' ''inv_x'' ''lab'' ''member'' ''ada'' (Some 1) [] = ((t, row, link), i)"
    by (metis prod.exhaust)
  have "ws_get lab ''lab'' = Some (snd (hd (st_workspaces lab)))" "roleFor lab ''lab'' ''bob'' = None"
    by (simp_all add: lab_def ws_get_def roleFor_def members_of_def default_or_def)
  then show ?thesis using invite_roundtrip [OF c, of 9 lab _ "''bob''" None] c by simp
qed

subsection \<open>Signing in\<close>

text \<open>C18. 
  A person acts with the role the workspace gave them, not with the one their token claims. For a subject that is no
  runner, no CI token and no evidence grant, the principal that leaves \<open>applyActiveWorkspace\<close> carries exactly the role its
  subject has in the workspace it acts in; signing in changes no role that exists; and who joins a workspace that exists by
  signing in, other than with a key, becomes a member, whatever roles the token names.
\<close>

theorem membership_role_speaks:
  assumes "evidenceGrant p = None" "pr_via p \<noteq> ViaRunner" "pr_via p \<noteq> ViaGithubActions"
    and "\<forall>w. roleFor s w (pr_subject p) \<noteq> Some ''''"
    and "applyActiveWorkspace now hint p s = (p', s')"
  shows "(pr_workspace p' = [] \<or> (\<exists>r. roleFor s' (pr_workspace p') (pr_subject p) = Some r \<and> pr_roles p' = [r])) \<and>
     (\<forall>w u r. roleFor s w u = Some r \<longrightarrow> roleFor s' w u = Some r) \<and>
     (pr_via p \<noteq> ViaApiKey \<and> pr_workspace p \<noteq> [] \<and> ws_get s (pr_workspace p) \<noteq> None \<and>
        roleFor s (pr_workspace p) (pr_subject p) = None \<longrightarrow> roleFor s' (pr_workspace p) (pr_subject p) = Some ''member'')"
proof -
  let ?w = "pr_workspace p" and ?u = "pr_subject p"
  have t: "truthy (roleFor s w ?u) = roleFor s w ?u" for w
    using assms(4) by (cases "roleFor s w ?u") (auto simp: truthy_def)
  define b where "b = (case roleFor s ?w ?u of Some r \<Rightarrow> r
     | None \<Rightarrow> if ws_get s ?w = None \<or> pr_via p = ViaApiKey then (case pr_roles p of [] \<Rightarrow> ''member'' | r # _ \<Rightarrow> r) else ''member'')"
  obtain br s1 where boot: "bootstrapMembership now p s = (br, s1)" by fastforce
  have br: "?w \<noteq> [] \<Longrightarrow> br = Some b"
    and s1: "roleFor s1 w u = (if ?w \<noteq> [] \<and> w = ?w \<and> u = ?u then Some b else roleFor s w u)" for w u
    using boot by (auto simp: bootstrapMembership_def Let_def t b_def roleFor_ensure default_or_def split: option.splits if_splits)
  have "pr_workspace p' = [] \<or> (\<exists>r. roleFor s1 (pr_workspace p') ?u = Some r \<and> pr_roles p' = [r])" and s': "s' = s1"
    using assms(1-3,5) boot br s1 t
    by (auto simp: applyActiveWorkspace_def Let_def default_or_def split: option.splits if_splits)
  moreover have "roleFor s w u = Some r \<longrightarrow> roleFor s1 w u = Some r" for w u r by (simp add: s1 b_def)
  ultimately show ?thesis by (auto simp: s1 b_def)
qed

theorem membership_role_speaks_witness:
  "roleFor (snd (applyActiveWorkspace 5 None (human ''cy'' ''lab'' [''admin'']) lab)) ''lab'' ''cy'' = Some ''member''"
proof -
  have r: "roleFor lab w ''cy'' = None" for w by (simp add: lab_def roleFor_def members_of_def default_or_def)
  have g: "ws_get lab ''lab'' \<noteq> None" by (simp add: lab_def ws_get_def)
  show ?thesis
    using membership_role_speaks [of "human ''cy'' ''lab'' [''admin'']" lab 5 None
        "fst (applyActiveWorkspace 5 None (human ''cy'' ''lab'' [''admin'']) lab)"
        "snd (applyActiveWorkspace 5 None (human ''cy'' ''lab'' [''admin'']) lab)"] r g
    by (simp add: human_def)
qed

subsection \<open>Creating a workspace\<close>

lemma created_facts:
  assumes "ws_create now w name owner s = (Some rec, s')"
  shows "ws_get s w = None" "ws_get s' w = Some rec" "wk_id rec = w" "wk_name rec = name" "wk_owner rec = owner"
    "is_admin s' w owner" "\<And>w' u. w' \<noteq> w \<Longrightarrow> roleFor s' w' u = roleFor s w' u \<and> ws_get s' w' = ws_get s w'"
  using assms by (auto simp: ws_create_def ws_get_def Let_def is_admin_def cell_set_workspaces split: if_splits)

lemma failed_create: "ws_create now w name owner s = (None, s') \<Longrightarrow> s' = s"
  by (auto simp: ws_create_def Let_def split: if_splits)

lemma tried_create:
  "try_create now name owner ws s = (None, s') \<Longrightarrow> s' = s"
  "try_create now name owner ws s = (Some rec, s') \<Longrightarrow> \<exists>w. ws_create now w name owner s = (Some rec, s')"
  by (induction now name owner ws s rule: try_create.induct) (auto split: prod.splits option.splits dest!: failed_create)

text \<open>
  A creation that succeeds takes an id nobody had, records the trimmed name and the owner, makes the owner its
  administrator and touches no other workspace; one that fails changes nothing.
\<close>

theorem creation_is_fresh:
  "case service_create now draws subject name i s of
     (Inl e, s') \<Rightarrow> s' = s
   | (Inr r, s') \<Rightarrow>
       ws_get s (wr_id r) = None \<and> is_admin s' (wr_id r) subject \<and> wr_name r = js_trim name \<and> wr_role r = ''admin'' \<and>
       map_option wk_owner (ws_get s' (wr_id r)) = Some subject \<and>
       roleFor s' = (\<lambda>w u. if w = wr_id r then roleFor s' w u else roleFor s w u) \<and>
       ws_get s' = (ws_get s)(wr_id r := ws_get s' (wr_id r))"
proof -
  have ok: "ws_get s (wk_id rec) = None \<and> is_admin s' (wk_id rec) subject \<and> wk_name rec = js_trim name \<and>
       map_option wk_owner (ws_get s' (wk_id rec)) = Some subject \<and>
       roleFor s' = (\<lambda>w u. if w = wk_id rec then roleFor s' w u else roleFor s w u) \<and>
       ws_get s' = (ws_get s)(wk_id rec := ws_get s' (wk_id rec))"
    if "ws_create now w (js_trim name) subject s = (Some rec, s')" for w rec s'
    using created_facts [OF that] by (auto simp: fun_eq_iff)
  define nm w where "nm = js_trim name" and "w = (case truthy i of Some x \<Rightarrow> js_trim x | None \<Rightarrow> slugify nm)"
  define stem where "stem = (if slugify nm = [] then ''ws'' else slugify nm)"
  define ws where "ws = map (\<lambda>x. stem @ CHR ''-'' # x) (take 6 draws)"
  obtain c s1 where c: "ws_create now w nm subject s = (c, s1)" by (cases "ws_create now w nm subject s")
  obtain e s2 where e: "try_create now nm subject ws s = (e, s2)" by (cases "try_create now nm subject ws s")
  note defs = service_create_def Let_def nm_def [symmetric] w_def [symmetric] stem_def [symmetric] ws_def [symmetric]
  show ?thesis
  proof (cases c)
    case (Some rec)
    then show ?thesis using ok [of w rec s1] c by (simp add: defs)
  next
    case None
    then have s1: "s1 = s" using c failed_create by simp
    show ?thesis
    proof (cases e)
      case (Some rec)
      then obtain w' where "ws_create now w' nm subject s = (Some rec, s2)" using e tried_create(2) by blast
      then show ?thesis using ok [of w' rec s2] c None s1 e Some by (simp add: defs)
    next
      case None
      then show ?thesis using c \<open>c = None\<close> s1 e tried_create(1) [of now nm subject ws s s2] by (simp add: defs)
    qed
  qed
qed

text \<open>
  The stem \<open>ws\<close> for a name that has no letter or digit is never used: such a name without an id is refused before.
\<close>

lemma stem_is_unreachable:
  "slugify (js_trim name) = [] \<Longrightarrow> fst (service_create now draws subject name None s) \<in> range Inl"
  by (simp add: service_create_def Let_def truthy_def)

text \<open>
  An invite survives the deletion of its workspace in this store, and accepting it brings the workspace back, owned by
  the guest and without an administrator.
\<close>

lemma deleted_workspace_returns:
  "let y = run0 [CreateWs 1 [] ''ada'' ''Lab'' None, NewInvite 2 ''i1'' ''inv_abc'' ''lab'' ''member'' ''ada'' None,
                 DeleteWs ''lab'' ''ada'', AcceptInvite 3 ViaOidc ''bob'' None ''inv_abc''] no_members
   in map_option wk_owner (ws_get (my_store y) ''lab'') = Some ''bob'' \<and> \<not> has_admin (my_store y) ''lab''"
  by code_simp

end
