(* ===== verification/Images.thy ===== *)
theory Images
  imports Ordering Trials Scores
begin

text \<open>
  Image references and the bytes behind them: packages/domain/src/image/image-ref.ts (how a reference is taken apart,
  classified, pinned, and which credential pulls it), image-provenance.ts (what a manifest says about the image a case
  ran from) and packages/contracts/src/execution/provisioned-world.ts (the box around it). SHA-256 is the parameter
  \<open>sha_hex\<close>; the base64 of a docker configuration is left out, its entries are kept.
\<close>

subsection \<open>References\<close>

record image_ref =
  ir_host :: "string option"
  ir_path :: string
  ir_tag :: "string option"
  ir_digest :: "string option"

definition up_to :: "char \<Rightarrow> string \<Rightarrow> string" where
  "up_to c s = takeWhile (\<lambda>x. x \<noteq> c) s"

text \<open>What follows the first \<open>c\<close>: absent without one, and absent when empty (a spread under a truthiness test).\<close>

definition after_first :: "char \<Rightarrow> string \<Rightarrow> string option" where
  "after_first c s = (case dropWhile (\<lambda>x. x \<noteq> c) s of [] \<Rightarrow> None | _ # t \<Rightarrow> if t = [] then None else Some t)"

text \<open>The part after the last slash, and what stands before it, slash included.\<close>

definition last_segment :: "string \<Rightarrow> string" where
  "last_segment s = rev (up_to CHR ''/'' (rev s))"

definition before_last :: "string \<Rightarrow> string" where
  "before_last s = take (length s - length (last_segment s)) s"

definition host_like :: "string \<Rightarrow> bool" where
  "host_like c \<longleftrightarrow> CHR ''.'' \<in> set c \<or> CHR '':'' \<in> set c \<or> c = ''localhost''"

definition parse_name :: "string \<Rightarrow> string option \<times> string" where
  "parse_name rest =
     (let first = up_to CHR ''/'' rest in
      if CHR ''/'' \<in> set rest \<and> host_like first then (Some first, drop (length first + 1) rest) else (None, rest))"

definition parse_trimmed :: "string \<Rightarrow> image_ref" where
  "parse_trimmed trimmed =
     (let digest = after_first CHR ''@'' trimmed;
          rest = up_to CHR ''@'' trimmed;
          tag = after_first CHR '':'' (last_segment rest);
          name = before_last rest @ up_to CHR '':'' (last_segment rest);
          (host, path) = parse_name name
      in \<lparr>ir_host = host, ir_path = path, ir_tag = tag, ir_digest = digest\<rparr>)"

definition parseImageRef :: "string \<Rightarrow> image_ref res" where
  "parseImageRef ref =
     (let trimmed = js_trim ref in
      if trimmed = [] then Inl (BadRequest ''BAD_REQUEST'' ''empty image reference'') else Inr (parse_trimmed trimmed))"

subsection \<open>Classification\<close>

record registry_coords =
  rg_host :: string
  rg_namespace :: "string option"

datatype image_class = Managed_image | Workspace_image | External_image | Local_image | Unqualified_image

definition isLoopbackHost :: "string \<Rightarrow> bool" where
  "isLoopbackHost host \<longleftrightarrow>
     (let name = (if startsWith host ''['' then
                    (if CHR '']'' \<in> set host then up_to CHR '']'' host @ '']'' else [])
                  else up_to CHR '':'' host)
      in name = ''localhost'' \<or> name = ''127.0.0.1'' \<or> name = ''[::1]'')"

definition refIsUnder :: "image_ref \<Rightarrow> registry_coords \<Rightarrow> bool" where
  "refIsUnder parsed coords \<longleftrightarrow>
     ir_host parsed = Some (rg_host coords) \<and>
     (case rg_namespace coords of
        None \<Rightarrow> True
      | Some n \<Rightarrow> n = [] \<or> ir_path parsed = n \<or> startsWith (ir_path parsed) (n @ ''/''))"

definition class_of :: "image_ref \<Rightarrow> registry_coords list \<Rightarrow> registry_coords option \<Rightarrow> image_class" where
  "class_of parsed registries managed =
     (case ir_host parsed of
        Some h \<Rightarrow>
          if h \<noteq> [] then
            if (case managed of None \<Rightarrow> False | Some m \<Rightarrow> refIsUnder parsed m) then Managed_image
            else if isLoopbackHost h then Local_image
            else if list_ex (refIsUnder parsed) registries then Workspace_image
            else External_image
          else if CHR ''/'' \<in> set (ir_path parsed) then External_image else Unqualified_image
      | None \<Rightarrow> if CHR ''/'' \<in> set (ir_path parsed) then External_image else Unqualified_image)"

definition classifyImageRef :: "string \<Rightarrow> registry_coords list \<Rightarrow> registry_coords option \<Rightarrow> image_class res" where
  "classifyImageRef ref registries managed =
     bind_res (parseImageRef ref) (\<lambda>parsed. Inr (class_of parsed registries managed))"

definition repository_of :: "image_ref \<Rightarrow> string" where
  "repository_of parsed =
     (case ir_host parsed of Some h \<Rightarrow> (if h \<noteq> [] then h @ ''/'' @ ir_path parsed else ir_path parsed)
      | None \<Rightarrow> ir_path parsed)"

definition imageRepositoryOf :: "string \<Rightarrow> string res" where
  "imageRepositoryOf ref = bind_res (parseImageRef ref) (\<lambda>parsed. Inr (repository_of parsed))"

definition pinDigest :: "string \<Rightarrow> string \<Rightarrow> string res" where
  "pinDigest ref digest =
     bind_res (parseImageRef ref) (\<lambda>parsed.
       Inr (repository_of parsed @ (case ir_tag parsed of None \<Rightarrow> [] | Some t \<Rightarrow> CHR '':'' # t) @ CHR ''@'' # js_trim digest))"

definition imageRegistryPrefix :: "registry_coords \<Rightarrow> string" where
  "imageRegistryPrefix r =
     (case rg_namespace r of
        Some n \<Rightarrow> if n \<noteq> [] then rg_host r @ ''/'' @ n @ ''/'' else rg_host r @ ''/''
      | None \<Rightarrow> rg_host r @ ''/'')"

datatype warning_class = Warn_class image_class | Mutable_tag

definition warning_of :: "image_ref \<Rightarrow> registry_coords list \<Rightarrow> registry_coords option \<Rightarrow> warning_class option" where
  "warning_of parsed registries managed =
     (let cls = class_of parsed registries managed in
      if cls = Local_image \<or> cls = Unqualified_image then Some (Warn_class cls)
      else if ir_digest parsed = None \<and> (ir_tag parsed = None \<or> ir_tag parsed = Some ''latest'') then Some Mutable_tag
      else None)"

fun imageWarnings ::
  "string list \<Rightarrow> registry_coords list \<Rightarrow> registry_coords option \<Rightarrow> (string \<times> warning_class) list res" where
  "imageWarnings [] registries managed = Inr []"
| "imageWarnings (img # images) registries managed =
     bind_res (parseImageRef img) (\<lambda>parsed.
     bind_res (imageWarnings images registries managed) (\<lambda>ws.
       Inr (case warning_of parsed registries managed of None \<Rightarrow> ws | Some w \<Rightarrow> (img, w) # ws)))"

subsection \<open>Credentials\<close>

record registry_auth =
  ra_host :: string
  ra_username :: "string option"
  ra_password :: string

definition imageUsesRegistryHost :: "string \<Rightarrow> string \<Rightarrow> bool res" where
  "imageUsesRegistryHost img host = bind_res (parseImageRef img) (\<lambda>parsed. Inr (ir_host parsed = Some host))"

definition registryAuthsOf :: "registry_auth list option \<Rightarrow> registry_auth option \<Rightarrow> registry_auth list" where
  "registryAuthsOf plural singular =
     (case plural of
        Some (a # as) \<Rightarrow> a # as
      | _ \<Rightarrow> (case singular of Some a \<Rightarrow> [a] | None \<Rightarrow> []))"

text \<open>\<open>auths.find(...)\<close>; without a credential the image is not looked at.\<close>

fun pickRegistryAuth :: "registry_auth list \<Rightarrow> string \<Rightarrow> registry_auth option res" where
  "pickRegistryAuth [] img = Inr None"
| "pickRegistryAuth (a # as) img =
     bind_res (imageUsesRegistryHost img (ra_host a)) (\<lambda>b. if b then Inr (Some a) else pickRegistryAuth as img)"

fun some_image_uses :: "string list \<Rightarrow> string \<Rightarrow> bool res" where
  "some_image_uses [] host = Inr False"
| "some_image_uses (i # imgs) host =
     bind_res (imageUsesRegistryHost i host) (\<lambda>b. if b then Inr True else some_image_uses imgs host)"

fun covering_auths :: "registry_auth list \<Rightarrow> string list \<Rightarrow> registry_auth list res" where
  "covering_auths [] images = Inr []"
| "covering_auths (a # as) images =
     bind_res (some_image_uses images (ra_host a)) (\<lambda>b.
     bind_res (covering_auths as images) (\<lambda>rest. Inr (if b then a # rest else rest)))"

text \<open>The first credential of each host.\<close>

fun first_per_host :: "string list \<Rightarrow> registry_auth list \<Rightarrow> registry_auth list" where
  "first_per_host seen [] = []"
| "first_per_host seen (a # as) =
     (if ra_host a \<in> set seen then first_per_host seen as else a # first_per_host (ra_host a # seen) as)"

definition registryAuthsForImages :: "registry_auth list \<Rightarrow> string list \<Rightarrow> registry_auth list res" where
  "registryAuthsForImages auths images = bind_res (covering_auths auths images) (\<lambda>covering. Inr (first_per_host [] covering))"

text \<open>\<open>dockerAuthConfigJson\<close>: the entries of \<open>auths\<close>, before they are encoded.\<close>

fun docker_auths :: "(string \<times> string) list \<Rightarrow> registry_auth list \<Rightarrow> (string \<times> string) list" where
  "docker_auths done_so_far [] = done_so_far"
| "docker_auths done_so_far (a # as) =
     (if map_of done_so_far (ra_host a) \<noteq> None then docker_auths done_so_far as
      else docker_auths (done_so_far @ [(ra_host a, default_or ''everdict'' (ra_username a) @ '':'' @ ra_password a)]) as)"

definition dockerAuthConfig :: "registry_auth list \<Rightarrow> (string \<times> string) list" where
  "dockerAuthConfig auths = docker_auths [] auths"

subsection \<open>Names in the managed store\<close>

definition PLATFORM_IMAGE_NAMESPACE :: string where
  "PLATFORM_IMAGE_NAMESPACE = ''everdict-platform''"

definition isPlatformImagePath :: "string \<Rightarrow> bool" where
  "isPlatformImagePath path \<longleftrightarrow>
     path = PLATFORM_IMAGE_NAMESPACE \<or> startsWith path (PLATFORM_IMAGE_NAMESPACE @ ''/'')"

definition lower_alnum :: "char \<Rightarrow> bool" where
  "lower_alnum c \<longleftrightarrow> (let n = of_char c :: nat in 97 \<le> n \<and> n \<le> 122 \<or> 48 \<le> n \<and> n \<le> 57)"

text \<open>\<open>.replace(/-+/g, "-")\<close>\<close>

fun squeeze_hyphens :: "string \<Rightarrow> string" where
  "squeeze_hyphens (a # b # s) =
     (if a = CHR ''-'' \<and> b = CHR ''-'' then squeeze_hyphens (b # s) else a # squeeze_hyphens (b # s))"
| "squeeze_hyphens s = s"

definition strip_end_hyphens :: "string \<Rightarrow> string" where
  "strip_end_hyphens s = rev (dropWhile (\<lambda>c. c = CHR ''-'') (rev s))"

definition imageRepoFor :: "(string \<Rightarrow> string) \<Rightarrow> string \<Rightarrow> string res" where
  "imageRepoFor sha_hex tenant =
     (let slug = js_trim tenant in
      if slug = [] then Inl (BadRequest ''BAD_REQUEST'' ''empty tenant'')
      else
        let hash = take 8 (sha_hex slug);
            plain = map (\<lambda>c. if lower_alnum c \<or> c = CHR ''-'' then c else CHR ''-'') (map js_lower slug);
            bare = strip_end_hyphens (dropWhile (\<lambda>c. c = CHR ''-'') (squeeze_hyphens plain));
            sanitized = strip_end_hyphens (take 48 bare)
        in Inr ((if sanitized = [] then ''ws'' else sanitized) @ ''-'' @ hash))"

subsection \<open>What a case ran from\<close>

record provisioned_image =
  pi_ref :: string
  pi_digest :: string
  pi_unit :: "string option"

datatype unresolved_reason = Inspect_failed | No_registry_digest | Lane_cannot_report | Partial_images | Legacy_era

datatype image_observer = By_ref | By_driver | By_orchestrator | By_runtime

datatype image_provenance =
    No_image
  | Resolved_images "provisioned_image list" image_observer
  | Unresolved_images "(string \<times> string option) list" unresolved_reason

record resource_request =
  rq_cpu :: "nat option"
  rq_memoryMb :: "nat option"
  rq_gpu :: "nat option"

datatype network_mode = Net_public | Net_none | Net_allowlist

record network_policy =
  np_mode :: network_mode
  np_allowedHosts :: "string list"

record world_proof =
  wp_os :: string
  wp_enforcedBy :: string
  wp_resources :: "resource_request option"
  wp_network :: "network_policy option"
  wp_isolation :: "string option"

record execution_manifest =
  xm_os :: string
  xm_osDeclared :: bool
  xm_driver :: "string option"
  xm_image :: "string option"
  xm_runtime :: "string option"
  xm_manifestVersion :: "nat option"
  xm_imageProvenance :: "image_provenance option"
  xm_world :: "world_proof option"

definition CURRENT_EXECUTION_MANIFEST_ERA :: nat where
  "CURRENT_EXECUTION_MANIFEST_ERA = 2"

definition imageProvenanceOf :: "execution_manifest \<Rightarrow> image_provenance" where
  "imageProvenanceOf m =
     (if default_or 1 (xm_manifestVersion m) < CURRENT_EXECUTION_MANIFEST_ERA
      then Unresolved_images [(default_or [] (xm_image m), None)] Legacy_era
      else default_or (Unresolved_images [(default_or [] (xm_image m), None)] Lane_cannot_report) (xm_imageProvenance m))"

definition withPlacementImage :: "execution_manifest \<Rightarrow> image_provenance \<Rightarrow> execution_manifest" where
  "withPlacementImage m placed =
     (if xm_imageProvenance m \<noteq> None \<and> xm_imageProvenance m \<noteq> Some No_image then m
      else m\<lparr>xm_manifestVersion := Some CURRENT_EXECUTION_MANIFEST_ERA, xm_imageProvenance := Some placed\<rparr>)"

definition laneImageProvenance :: "string \<Rightarrow> image_provenance res" where
  "laneImageProvenance ref =
     bind_res (parseImageRef ref) (\<lambda>parsed.
       Inr (case ir_digest parsed of
              Some d \<Rightarrow> Resolved_images [\<lparr>pi_ref = ref, pi_digest = d, pi_unit = None\<rparr>] By_ref
            | None \<Rightarrow> Unresolved_images [(ref, None)] Lane_cannot_report))"

definition hex_char :: "char \<Rightarrow> bool" where
  "hex_char c \<longleftrightarrow> (let n = of_char c :: nat in 97 \<le> n \<and> n \<le> 102 \<or> 48 \<le> n \<and> n \<le> 57)"

text \<open>\<open>/sha256:[0-9a-f]{64}/.exec(s)?.[0]\<close>\<close>

fun find_sha :: "string \<Rightarrow> string option" where
  "find_sha [] = None"
| "find_sha (c # s) =
     (let t = c # s; hex = take 64 (drop 7 t) in
      if startsWith t ''sha256:'' \<and> length hex = 64 \<and> list_all hex_char hex then Some (take 71 t) else find_sha s)"

record container_status =
  cs_image :: string
  cs_imageID :: string

definition observedPlacementImage :: "string \<Rightarrow> container_status list \<Rightarrow> image_provenance option" where
  "observedPlacementImage ref statuses =
     (let found = (case List.find (\<lambda>s. cs_image s = ref) statuses of
                     Some s \<Rightarrow> Some s
                   | None \<Rightarrow> (case statuses of [s] \<Rightarrow> Some s | _ \<Rightarrow> None))
      in case Option.bind found (\<lambda>s. find_sha (cs_imageID s)) of
           None \<Rightarrow> None
         | Some d \<Rightarrow> Some (Resolved_images [\<lparr>pi_ref = ref, pi_digest = d, pi_unit = None\<rparr>] By_orchestrator))"

text \<open>The order of \<open>sort\<close> on texts.\<close>

fun text_less :: "string \<Rightarrow> string \<Rightarrow> bool" where
  "text_less a [] \<longleftrightarrow> False"
| "text_less [] (d # b) \<longleftrightarrow> True"
| "text_less (c # a) (d # b) \<longleftrightarrow> (of_char c :: nat) < of_char d \<or> c = d \<and> text_less a b"

definition text_order :: "string compare" where
  "text_order a b = (if text_less a b then -1 else if text_less b a then 1 else 0)"

definition image_keys :: "provisioned_image list \<Rightarrow> string" where
  "image_keys images =
     join_with (char_of (1 :: nat))
       (sort_by text_order (map (\<lambda>i. default_or [] (pi_unit i) @ char_of (0 :: nat) # pi_digest i) images))"

fun sameResolvedImages :: "image_provenance \<Rightarrow> image_provenance \<Rightarrow> bool" where
  "sameResolvedImages (Resolved_images a x) (Resolved_images b y) \<longleftrightarrow> image_keys a = image_keys b"
| "sameResolvedImages a b \<longleftrightarrow> False"

definition sameResources :: "resource_request option \<Rightarrow> resource_request option \<Rightarrow> bool" where
  "sameResources a b \<longleftrightarrow>
     Option.bind a rq_cpu = Option.bind b rq_cpu \<and> Option.bind a rq_memoryMb = Option.bind b rq_memoryMb \<and>
     Option.bind a rq_gpu = Option.bind b rq_gpu"

definition sameHosts :: "string list option \<Rightarrow> string list option \<Rightarrow> bool" where
  "sameHosts a b \<longleftrightarrow> sort_by text_order (default_or [] a) = sort_by text_order (default_or [] b)"

definition sameNetwork :: "network_policy option \<Rightarrow> network_policy option \<Rightarrow> bool" where
  "sameNetwork a b =
     (case (a, b) of
        (Some x, Some y) \<Rightarrow> np_mode x = np_mode y \<and> sameHosts (Some (np_allowedHosts x)) (Some (np_allowedHosts y))
      | _ \<Rightarrow> a = None \<and> b = None)"

definition worldProofCovers :: "world_proof option \<Rightarrow> resource_request option \<Rightarrow> network_policy option \<Rightarrow> bool" where
  "worldProofCovers proof resources network =
     (if resources = None \<and> network = None then True
      else (case proof of
              None \<Rightarrow> False
            | Some p \<Rightarrow>
                if resources \<noteq> None \<and> \<not> sameResources (wp_resources p) resources then False
                else if network \<noteq> None \<and> \<not> sameNetwork (wp_network p) network then False
                else True))"

text \<open>Two attested boxes, in the comparison of two runs.\<close>

definition sameEnforcedWorld :: "world_proof \<Rightarrow> world_proof \<Rightarrow> bool" where
  "sameEnforcedWorld a b \<longleftrightarrow>
     wp_os a = wp_os b \<and> wp_enforcedBy a = wp_enforcedBy b \<and> wp_isolation a = wp_isolation b \<and>
     Option.bind (wp_resources a) rq_cpu = Option.bind (wp_resources b) rq_cpu \<and>
     Option.bind (wp_resources a) rq_memoryMb = Option.bind (wp_resources b) rq_memoryMb \<and>
     Option.bind (wp_resources a) rq_gpu = Option.bind (wp_resources b) rq_gpu \<and>
     map_option np_mode (wp_network a) = map_option np_mode (wp_network b) \<and>
     sameHosts (map_option np_allowedHosts (wp_network a)) (map_option np_allowedHosts (wp_network b))"

end
