(* ===== verification/ImagesLaws.thy ===== *)
theory ImagesLaws
  imports Images "HOL-Library.Sublist"
begin

text \<open>
  What image references promise: pinning changes the digest and nothing else, a tenant's repository is never the
  platform's, the first credential of a host is the one every consumer uses, and two runs used the same bytes exactly
  when they used the same digests for the same units.
\<close>

subsection \<open>Taking a reference apart and putting it together\<close>

lemma up_to_split: "s = up_to c s @ dropWhile (\<lambda>x. x \<noteq> c) s"
  by (simp add: up_to_def)

lemma up_to_free [simp]: "c \<notin> set (up_to c s)"
  by (auto simp: up_to_def dest: set_takeWhileD)

lemma set_up_to: "set (up_to c s) \<subseteq> set s"
  by (auto simp: up_to_def dest: set_takeWhileD)

lemma up_to_append: "c \<notin> set a \<Longrightarrow> up_to c (a @ s) = a @ up_to c s"
  by (induction a) (auto simp: up_to_def)

lemma up_to_Cons [simp]: "up_to c (c # s) = []"
  by (simp add: up_to_def)

lemma up_to_none [simp]: "c \<notin> set a \<Longrightarrow> up_to c a = a"
  using up_to_append [of c a "[]"] by (simp add: up_to_def)

lemma after_first_free [simp]: "c \<notin> set a \<Longrightarrow> after_first c a = None"
  by (induction a) (auto simp: after_first_def)

lemma after_first_append: "c \<notin> set a \<Longrightarrow> after_first c (a @ c # s) = (if s = [] then None else Some s)"
  by (induction a) (auto simp: after_first_def)

lemma last_segment_free [simp]: "CHR ''/'' \<notin> set (last_segment s)"
  by (simp add: last_segment_def)

lemma before_last_append: "before_last s @ last_segment s = s"
proof -
  have "rev s = up_to CHR ''/'' (rev s) @ dropWhile (\<lambda>x. x \<noteq> CHR ''/'') (rev s)" by (rule up_to_split)
  then have "s = rev (dropWhile (\<lambda>x. x \<noteq> CHR ''/'') (rev s)) @ last_segment s"
    by (metis last_segment_def rev_append rev_rev_ident)
  then show ?thesis by (metis append_eq_conv_conj append_take_drop_id before_last_def diff_add_inverse2 length_append)
qed

lemma last_segment_append: "CHR ''/'' \<notin> set t \<Longrightarrow> last_segment (s @ t) = last_segment s @ t"
  by (simp add: last_segment_def up_to_append)

lemma before_last_segment [simp]: "last_segment (before_last s) = []"
proof -
  have "last_segment (before_last s @ last_segment s) = last_segment (before_last s) @ last_segment s"
    by (rule last_segment_append) simp
  then show ?thesis by (simp add: before_last_append)
qed

lemma split_at_first: "c \<in> set s \<Longrightarrow> \<exists>r. s = up_to c s @ c # r"
  by (induction s) (auto simp: up_to_def)

lemma repository_of_name:
  "parse_name name = (h, p) \<Longrightarrow> repository_of \<lparr>ir_host = h, ir_path = p, ir_tag = t, ir_digest = d\<rparr> = name"
proof (cases "CHR ''/'' \<in> set name \<and> host_like (up_to CHR ''/'' name)")
  case True
  assume "parse_name name = (h, p)"
  then have h: "h = Some (up_to CHR ''/'' name)" and p: "p = drop (length (up_to CHR ''/'' name) + 1) name"
    using True by (simp_all add: parse_name_def Let_def)
  define u where "u = up_to CHR ''/'' name"
  obtain r where n: "name = u @ CHR ''/'' # r" using split_at_first True unfolding u_def by blast
  have "p = drop (length u + 1) (u @ CHR ''/'' # r)" unfolding n [symmetric] using p by (simp add: u_def)
  then have "p = r" by simp
  moreover have "up_to CHR ''/'' name \<noteq> []" using True by (auto simp: host_like_def)
  moreover have "CHR ''/'' \<notin> set u" by (simp add: u_def)
  ultimately show ?thesis using h n by (simp add: repository_of_def up_to_append)
next
  case False
  assume "parse_name name = (h, p)"
  then show ?thesis using False by (auto simp: parse_name_def Let_def repository_of_def split: if_splits)
qed

lemma js_trim_ends: "js_trim s \<noteq> [] \<Longrightarrow> \<not> js_space (hd (js_trim s)) \<and> \<not> js_space (last (js_trim s))"
proof -
  assume ne: "js_trim s \<noteq> []"
  let ?d = "dropWhile js_space s"
  have "\<not> js_space (last (js_trim s))"
    using ne hd_dropWhile [of js_space "rev ?d"] by (simp add: js_trim_def last_rev)
  moreover have "?d = js_trim s @ rev (takeWhile js_space (rev ?d))"
    unfolding js_trim_def by (metis rev_append rev_rev_ident takeWhile_dropWhile_id)
  then have "hd ?d = hd (js_trim s)" "?d \<noteq> []" using ne by (metis hd_append2, metis append_is_Nil_conv)
  then have "\<not> js_space (hd (js_trim s))" using hd_dropWhile [of js_space s] by metis
  ultimately show ?thesis by simp
qed

lemma js_trim_same: "s \<noteq> [] \<Longrightarrow> \<not> js_space (hd s) \<Longrightarrow> \<not> js_space (last s) \<Longrightarrow> js_trim s = s"
proof -
  assume a: "s \<noteq> []" "\<not> js_space (hd s)" "\<not> js_space (last s)"
  then have "dropWhile js_space s = s" by (cases s) auto
  moreover have "dropWhile js_space (rev s) = rev s" using a by (cases "rev s") (auto simp: hd_rev [symmetric])
  ultimately show ?thesis by (simp add: js_trim_def)
qed

text \<open>The reference that \<open>pinDigest\<close> writes, from the parts of the one it read.\<close>

lemma parse_rebuilt:
  fixes trimmed d :: string
  defines "p \<equiv> parse_trimmed trimmed"
  assumes "d \<noteq> []"
  shows "parse_trimmed (repository_of p @ (case ir_tag p of None \<Rightarrow> [] | Some t \<Rightarrow> CHR '':'' # t) @ CHR ''@'' # d)
    = p\<lparr>ir_digest := Some d\<rparr>"
proof -
  define rest where "rest = up_to CHR ''@'' trimmed"
  define seg where "seg = last_segment rest"
  define name where "name = before_last rest @ up_to CHR '':'' seg"
  obtain h path where hp: "parse_name name = (h, path)" by fastforce
  have p: "p = \<lparr>ir_host = h, ir_path = path, ir_tag = after_first CHR '':'' seg, ir_digest = after_first CHR ''@'' trimmed\<rparr>"
    using hp by (simp add: p_def parse_trimmed_def Let_def rest_def seg_def name_def)
  define tail where "tail = (case after_first CHR '':'' seg of None \<Rightarrow> [] | Some t \<Rightarrow> CHR '':'' # t)"
  have seg: "seg = up_to CHR '':'' seg @ dropWhile (\<lambda>x. x \<noteq> CHR '':'') seg" by (rule up_to_split)
  have tail: "tail = [] \<or> tail = dropWhile (\<lambda>x. x \<noteq> CHR '':'') seg"
  proof (cases "dropWhile (\<lambda>x. x \<noteq> CHR '':'') seg")
    case (Cons x t)
    then have "x = CHR '':''" using hd_dropWhile [of "\<lambda>x. x \<noteq> CHR '':''" seg] by simp
    then show ?thesis using Cons by (simp add: tail_def after_first_def)
  next
    case Nil
    show ?thesis unfolding tail_def after_first_def Nil by simp
  qed
  have "set tail \<subseteq> set seg" using tail by (auto dest: set_dropWhileD)
  then have free: "CHR ''/'' \<notin> set tail" unfolding seg_def using last_segment_free by blast
  have free': "CHR ''/'' \<notin> set (up_to CHR '':'' seg)" using set_up_to [of "CHR '':''" seg] by (auto simp: seg_def)
  have sub: "set (name @ tail) \<subseteq> set rest"
  proof -
    have "set rest = set (before_last rest) \<union> set seg" unfolding seg_def by (metis before_last_append set_append)
    then show ?thesis using \<open>set tail \<subseteq> set seg\<close> set_up_to [of "CHR '':''" seg] by (auto simp: name_def)
  qed
  then have at: "CHR ''@'' \<notin> set (name @ tail)" using up_to_free [of "CHR ''@''" trimmed] unfolding rest_def by blast
  let ?s = "(name @ tail) @ CHR ''@'' # d"
  have u: "up_to CHR ''@'' ?s = name @ tail" using up_to_append [OF at, of "CHR ''@'' # d"] by simp
  have ls: "last_segment (name @ tail) = up_to CHR '':'' seg @ tail"
    using free free' by (simp add: last_segment_append name_def)
  have bl: "before_last (name @ tail) = before_last rest"
    using before_last_append [of "name @ tail"] ls by (simp add: name_def)
  have up: "up_to CHR '':'' (up_to CHR '':'' seg @ tail) = up_to CHR '':'' seg"
    by (simp add: up_to_append tail_def split: option.split)
  have tg: "after_first CHR '':'' (up_to CHR '':'' seg @ tail) = after_first CHR '':'' seg"
  proof (cases "CHR '':'' \<in> set seg")
    case True
    then obtain r where r: "seg = up_to CHR '':'' seg @ CHR '':'' # r" using split_at_first by blast
    then have "after_first CHR '':'' seg = (if r = [] then None else Some r)"
      using after_first_append [OF up_to_free, of "CHR '':''" seg r] by simp
    then show ?thesis using after_first_append [OF up_to_free, of "CHR '':''" seg r] by (simp add: tail_def)
  qed (simp add: tail_def)
  have "after_first CHR ''@'' ?s = Some d" using at assms(2) after_first_append [of "CHR ''@''" "name @ tail" d] by simp
  then have "parse_trimmed ?s = p\<lparr>ir_digest := Some d\<rparr>"
    unfolding parse_trimmed_def Let_def u ls bl up tg using hp by (simp add: p name_def [symmetric])
  moreover have "repository_of p = name" unfolding p by (rule repository_of_name [OF hp])
  ultimately show ?thesis by (simp add: p tail_def)
qed

lemma repository_prefix: "prefix (repository_of (parse_trimmed t)) t"
proof -
  define rest seg where "rest = up_to CHR ''@'' t" and "seg = last_segment rest"
  define name where "name = before_last rest @ up_to CHR '':'' seg"
  obtain h path where hp: "parse_name name = (h, path)" by fastforce
  have "repository_of (parse_trimmed t) = name"
    using repository_of_name [OF hp] hp by (simp add: parse_trimmed_def Let_def rest_def seg_def name_def)
  moreover have "prefix name rest"
    using before_last_append [of rest] up_to_split [of seg "CHR '':''"]
    unfolding name_def seg_def by (metis append.assoc prefix_def)
  moreover have "prefix rest t" unfolding rest_def using up_to_split [of t "CHR ''@''"] by (metis prefix_def)
  ultimately show ?thesis by (metis prefix_order.trans)
qed

text \<open>C40. 
  Pinning identifies the bytes and keeps the name. A reference that can be read at all is pinned to a reference with the
  same host, path and tag and the new digest, whatever digest it carried before.
\<close>

theorem pin_keeps_the_name:
  assumes "parseImageRef ref = Inr p" "js_trim digest \<noteq> []"
  shows "\<exists>pinned. pinDigest ref digest = Inr pinned \<and> parseImageRef pinned = Inr (p\<lparr>ir_digest := Some (js_trim digest)\<rparr>)"
proof -
  let ?t = "js_trim ref" and ?d = "js_trim digest"
  have t: "?t \<noteq> []" and p: "p = parse_trimmed ?t"
    using assms(1) by (auto simp: parseImageRef_def Let_def split: if_splits)
  define tag where "tag = (case ir_tag p of None \<Rightarrow> [] | Some t \<Rightarrow> CHR '':'' # t)"
  define pinned where "pinned = repository_of p @ tag @ CHR ''@'' # ?d"
  have parsed: "parse_trimmed pinned = p\<lparr>ir_digest := Some ?d\<rparr>"
    using parse_rebuilt [OF assms(2), of ?t] by (simp add: pinned_def tag_def p)
  have "\<not> js_space (hd pinned)"
  proof (cases "repository_of p")
    case Nil
    then show ?thesis by (simp add: pinned_def tag_def js_space_def split: option.split)
  next
    case (Cons c s)
    have "prefix (repository_of p) ?t" unfolding p by (rule repository_prefix)
    then have "hd ?t = c" using Cons by (auto simp: prefix_def)
    then show ?thesis using js_trim_ends [OF t] Cons by (simp add: pinned_def)
  qed
  moreover have "\<not> js_space (last pinned)" using js_trim_ends [OF assms(2)] assms(2) by (simp add: pinned_def)
  ultimately have "js_trim pinned = pinned" by (intro js_trim_same) (simp_all add: pinned_def)
  then have "parseImageRef pinned = Inr (p\<lparr>ir_digest := Some ?d\<rparr>)" using parsed by (simp add: parseImageRef_def pinned_def)
  moreover have "pinDigest ref digest = Inr pinned" using assms(1) by (simp add: pinDigest_def pinned_def tag_def)
  ultimately show ?thesis by blast
qed

theorem pin_keeps_the_name_witness:
  "pinDigest '' ghcr.io/acme/bot:1.2@sha256:old '' ''sha256:new'' = Inr ''ghcr.io/acme/bot:1.2@sha256:new'' \<and>
   (\<exists>q. parseImageRef ''ghcr.io/acme/bot:1.2@sha256:new'' = Inr q \<and> ir_tag q = Some ''1.2'')"
proof -
  have p: "parseImageRef '' ghcr.io/acme/bot:1.2@sha256:old '' =
      Inr \<lparr>ir_host = Some ''ghcr.io'', ir_path = ''acme/bot'', ir_tag = Some ''1.2'', ir_digest = Some ''sha256:old''\<rparr>"
    by code_simp
  have d: "js_trim ''sha256:new'' \<noteq> []" by code_simp
  have n: "pinDigest '' ghcr.io/acme/bot:1.2@sha256:old '' ''sha256:new'' = Inr ''ghcr.io/acme/bot:1.2@sha256:new''" by code_simp
  show ?thesis using pin_keeps_the_name [OF p d] unfolding n by auto
qed

subsection \<open>Names of tenants\<close>

lemma hex_p: "\<not> hex_char CHR ''p''"
  by (simp add: hex_char_def)

lemma no_slash_platform: "CHR ''/'' \<notin> set PLATFORM_IMAGE_NAMESPACE"
  by (simp add: PLATFORM_IMAGE_NAMESPACE_def)

lemma slash_plain [simp]: "\<not> lower_alnum CHR ''/''" "\<not> hex_char CHR ''/''"
  by (simp_all add: lower_alnum_def hex_char_def)

lemma squeeze_sub: "set (squeeze_hyphens s) \<subseteq> set s"
  by (induction s rule: squeeze_hyphens.induct) (auto split: if_splits)

lemma strip_sub: "set (strip_end_hyphens s) \<subseteq> set s"
  by (auto simp: strip_end_hyphens_def dest: set_dropWhileD)

lemma repo_shape:
  assumes "imageRepoFor sha tenant = Inr r"
  shows "\<exists>s. r = s @ ''-'' @ take 8 (sha (js_trim tenant)) \<and> CHR ''/'' \<notin> set s"
proof -
  define plain where "plain = map (\<lambda>c. if lower_alnum c \<or> c = CHR ''-'' then c else CHR ''-'') (map js_lower (js_trim tenant))"
  define bare where "bare = strip_end_hyphens (dropWhile (\<lambda>c. c = CHR ''-'') (squeeze_hyphens plain))"
  define sanitized where "sanitized = strip_end_hyphens (take 48 bare)"
  have "\<forall>c \<in> set plain. lower_alnum c \<or> c = CHR ''-''" unfolding plain_def by auto
  then have "CHR ''/'' \<notin> set plain" by fastforce
  moreover have "set sanitized \<subseteq> set plain"
    using strip_sub [of "take 48 bare"] strip_sub [of "dropWhile (\<lambda>c. c = CHR ''-'') (squeeze_hyphens plain)"]
      squeeze_sub [of plain] set_take_subset [of 48 bare]
    unfolding sanitized_def bare_def by (auto dest!: set_dropWhileD subsetD)
  ultimately have "CHR ''/'' \<notin> set (if sanitized = [] then ''ws'' else sanitized)" by auto
  moreover have "r = (if sanitized = [] then ''ws'' else sanitized) @ ''-'' @ take 8 (sha (js_trim tenant))"
    using assms by (auto simp: imageRepoFor_def Let_def sanitized_def bare_def plain_def split: if_splits)
  ultimately show ?thesis by blast
qed

text \<open>
  A tenant's namespace is never the platform's: it ends in a hyphen and eight hexadecimal digits, and no path under it is
  one of the platform. Two tenants with the same namespace have digests that start alike.
\<close>

theorem tenant_repo_never_platform:
  assumes "imageRepoFor sha tenant = Inr r"
    and "length (take 8 (sha (js_trim tenant))) = 8" "list_all hex_char (take 8 (sha (js_trim tenant)))"
  shows "\<not> isPlatformImagePath r \<and> \<not> isPlatformImagePath (r @ CHR ''/'' # path) \<and>
     (imageRepoFor sha other = Inr r \<and> length (take 8 (sha (js_trim other))) = 8 \<longrightarrow>
      take 8 (sha (js_trim other)) = take 8 (sha (js_trim tenant)))"
proof -
  let ?h = "take 8 (sha (js_trim tenant))"
  obtain s where s: "r = s @ ''-'' @ ?h" "CHR ''/'' \<notin> set s" using repo_shape [OF assms(1)] by blast
  have hex: "CHR ''/'' \<notin> set ?h" "CHR ''p'' \<notin> set ?h"
    using assms(3) hex_p slash_plain(2) unfolding list_all_iff by blast+
  then have free: "CHR ''/'' \<notin> set r" unfolding s(1) using s(2) by auto
  have r: "r \<noteq> PLATFORM_IMAGE_NAMESPACE"
  proof
    assume "r = PLATFORM_IMAGE_NAMESPACE"
    then have "(s @ ''-'') @ ?h = ''everdict-'' @ ''platform''" using s(1) by (simp add: PLATFORM_IMAGE_NAMESPACE_def)
    then have "?h = ''platform''" using assms(2) by (subst (asm) append_eq_append_conv) auto
    then show False using hex(2) by simp
  qed
  have under: "\<not> startsWith (r @ t) (PLATFORM_IMAGE_NAMESPACE @ ''/'')" if "t = [] \<or> (\<exists>q. t = CHR ''/'' # q)" for t
  proof
    assume "startsWith (r @ t) (PLATFORM_IMAGE_NAMESPACE @ ''/'')"
    then have "take (length (PLATFORM_IMAGE_NAMESPACE @ ''/'')) (r @ t) = PLATFORM_IMAGE_NAMESPACE @ ''/''"
      unfolding startsWith_def .
    then obtain q where e: "r @ t = (PLATFORM_IMAGE_NAMESPACE @ ''/'') @ q" by (metis append_take_drop_id)
    have "up_to CHR ''/'' (r @ t) = PLATFORM_IMAGE_NAMESPACE"
      using up_to_append [OF no_slash_platform, of "CHR ''/'' # q"] unfolding e by simp
    moreover have "up_to CHR ''/'' (r @ t) = r" using that free by (auto simp: up_to_append)
    ultimately show False using r by simp
  qed
  have "take 8 (sha (js_trim other)) = ?h" if other: "imageRepoFor sha other = Inr r" "length (take 8 (sha (js_trim other))) = 8"
  proof -
    obtain s' where "r = s' @ ''-'' @ take 8 (sha (js_trim other))" using repo_shape [OF other(1)] by blast
    then have "(s' @ ''-'') @ take 8 (sha (js_trim other)) = (s @ ''-'') @ ?h" using s(1) by simp
    then show ?thesis using other(2) assms(2) by (subst (asm) append_eq_append_conv) auto
  qed
  moreover have "r @ CHR ''/'' # path \<noteq> PLATFORM_IMAGE_NAMESPACE"
    using no_slash_platform by (metis in_set_conv_decomp)
  ultimately show ?thesis using r under [of "[]"] under [of "CHR ''/'' # path"] by (simp add: isPlatformImagePath_def)
qed

theorem tenant_repo_never_platform_witness:
  "\<not> isPlatformImagePath ''everdict-platform-deadbeef''"
proof -
  have "imageRepoFor (\<lambda>_. ''deadbeef00'') ''everdict-platform'' = Inr ''everdict-platform-deadbeef''" by code_simp
  moreover have "length (take 8 ''deadbeef00'') = 8" "list_all hex_char (take 8 ''deadbeef00'')" by code_simp+
  ultimately show ?thesis using tenant_repo_never_platform [of "\<lambda>_. ''deadbeef00''" "''everdict-platform''"] by blast
qed

subsection \<open>One credential for a host\<close>

lemma uses_readable: "js_trim img \<noteq> [] \<Longrightarrow> imageUsesRegistryHost img h = Inr (ir_host (parse_trimmed (js_trim img)) = Some h)"
  by (simp add: imageUsesRegistryHost_def parseImageRef_def Let_def)

lemma pick_is_find:
  "js_trim img \<noteq> [] \<Longrightarrow>
   pickRegistryAuth auths img = Inr (List.find (\<lambda>a. ir_host (parse_trimmed (js_trim img)) = Some (ra_host a)) auths)"
  by (induction auths) (simp_all add: uses_readable)

lemma some_image_uses_True:
  "some_image_uses imgs h = Inr b \<Longrightarrow> img \<in> set imgs \<Longrightarrow> imageUsesRegistryHost img h = Inr True \<Longrightarrow> b"
  by (induction imgs) (auto split: if_splits)

lemma covering_find:
  assumes "covering_auths auths imgs = Inr covers" "img \<in> set imgs" "js_trim img \<noteq> []"
  shows "List.find (\<lambda>a. ir_host (parse_trimmed (js_trim img)) = Some (ra_host a)) covers =
     List.find (\<lambda>a. ir_host (parse_trimmed (js_trim img)) = Some (ra_host a)) auths"
  using assms(1)
proof (induction auths arbitrary: covers)
  case (Cons a as)
  obtain b rest where b: "some_image_uses imgs (ra_host a) = Inr b" "covering_auths as imgs = Inr rest"
      "covers = (if b then a # rest else rest)"
    using Cons.prems by auto
  have "b" if "ir_host (parse_trimmed (js_trim img)) = Some (ra_host a)"
    using some_image_uses_True [OF b(1) assms(2)] uses_readable [OF assms(3)] that by simp
  then show ?case using Cons.IH [OF b(2)] b(3) by auto
qed simp

lemma first_per_host_find:
  "h \<notin> set seen \<Longrightarrow> List.find (\<lambda>a. h = ra_host a) (first_per_host seen auths) = List.find (\<lambda>a. h = ra_host a) auths"
  by (induction seen auths rule: first_per_host.induct) auto

lemma docker_auths_lookup:
  "map_of (docker_auths d auths) h =
     (case map_of d h of Some v \<Rightarrow> Some v
      | None \<Rightarrow> map_option (\<lambda>a. default_or ''everdict'' (ra_username a) @ '':'' @ ra_password a)
          (List.find (\<lambda>a. h = ra_host a) auths))"
  by (induction d auths rule: docker_auths.induct) (auto simp: map_add_def split: option.splits)

text \<open>
  Two consumers of one list of credentials use the same one. The credential an image is pulled with is the same whether it
  is picked from all credentials or from those that cover the images of a job, and the entry of its host in the docker
  configuration written from either list is that credential.
\<close>

theorem one_credential_per_host:
  assumes "registryAuthsForImages auths imgs = Inr covers" "img \<in> set imgs" "js_trim img \<noteq> []"
  shows "pickRegistryAuth covers img = pickRegistryAuth auths img \<and>
     (\<forall>a. pickRegistryAuth auths img = Inr (Some a) \<longrightarrow>
        map_of (dockerAuthConfig covers) (ra_host a) = Some (default_or ''everdict'' (ra_username a) @ '':'' @ ra_password a) \<and>
        map_of (dockerAuthConfig auths) (ra_host a) = map_of (dockerAuthConfig covers) (ra_host a))"
proof -
  let ?h = "ir_host (parse_trimmed (js_trim img))"
  obtain cov where cov: "covering_auths auths imgs = Inr cov" "covers = first_per_host [] cov"
    using assms(1) by (auto simp: registryAuthsForImages_def)
  have find: "List.find (\<lambda>a. ?h = Some (ra_host a)) covers = List.find (\<lambda>a. ?h = Some (ra_host a)) auths"
  proof (cases ?h)
    case None
    moreover have "List.find (\<lambda>_. False) xs = None" for xs :: "registry_auth list" by (induction xs) simp_all
    ultimately show ?thesis by simp
  next
    case (Some h)
    then show ?thesis using covering_find [OF cov(1) assms(2,3)] first_per_host_find [of h "[]" cov] cov(2) by simp
  qed
  then have pick: "pickRegistryAuth covers img = pickRegistryAuth auths img" by (simp add: pick_is_find [OF assms(3)])
  have "map_of (dockerAuthConfig covers) (ra_host a) = Some (default_or ''everdict'' (ra_username a) @ '':'' @ ra_password a) \<and>
      map_of (dockerAuthConfig auths) (ra_host a) = map_of (dockerAuthConfig covers) (ra_host a)"
    if "pickRegistryAuth auths img = Inr (Some a)" for a
  proof -
    have f: "List.find (\<lambda>a. ?h = Some (ra_host a)) auths = Some a" using that by (simp add: pick_is_find [OF assms(3)])
    then have "?h = Some (ra_host a)" by (auto simp: find_Some_iff)
    then have "List.find (\<lambda>b. ra_host a = ra_host b) auths = Some a" "List.find (\<lambda>b. ra_host a = ra_host b) covers = Some a"
      using f find by simp_all
    then show ?thesis by (simp add: dockerAuthConfig_def docker_auths_lookup)
  qed
  with pick show ?thesis by blast
qed

definition two_tokens :: "registry_auth list" where
  "two_tokens =
     [\<lparr>ra_host = ''ghcr.io'', ra_username = None, ra_password = ''t1''\<rparr>,
      \<lparr>ra_host = ''ghcr.io'', ra_username = None, ra_password = ''t2''\<rparr>]"

theorem one_credential_per_host_witness:
  "registryAuthsForImages two_tokens [''ghcr.io/a/b''] = Inr [hd two_tokens] \<and>
   map_of (dockerAuthConfig two_tokens) ''ghcr.io'' = Some ''everdict:t1''"
proof -
  have c: "registryAuthsForImages two_tokens [''ghcr.io/a/b''] = Inr [hd two_tokens]" by code_simp
  have t: "js_trim ''ghcr.io/a/b'' \<noteq> []" by code_simp
  have p: "pickRegistryAuth two_tokens ''ghcr.io/a/b'' = Inr (Some (hd two_tokens))" by code_simp
  have m: "map_of (dockerAuthConfig two_tokens) (ra_host (hd two_tokens)) =
      Some (default_or ''everdict'' (ra_username (hd two_tokens)) @ '':'' @ ra_password (hd two_tokens))"
    using one_credential_per_host [OF c _ t] p by (metis list.set_intros(1))
  have "ra_host (hd two_tokens) = ''ghcr.io''"
      "default_or ''everdict'' (ra_username (hd two_tokens)) @ '':'' @ ra_password (hd two_tokens) = ''everdict:t1''"
    by (simp_all add: two_tokens_def default_or_def)
  then show ?thesis using c m by metis
qed

end
