(* ===== verification/Identity.thy ===== *)
theory Identity
  imports Gate Images
begin

text \<open>
  Whether two batches are the same experiment: packages/domain/src/scorecard/experiment-identity.ts over the manifest of
  packages/contracts/src/records/scorecard.ts. An axis is held, a confound, or unverified for a reason; an axis the records
  say nothing about is left out. The sentences are left out, and so are the fields of a manifest that no axis reads. A
  \<open>Record\<close> is an association list in the order of its keys (names that read as array indices are not considered).
\<close>

subsection \<open>Manifests\<close>

record sealed_dataset =
  sd_id :: string
  sd_version :: string
  sd_digest :: string

record sealed_harness =
  sh_id :: string
  sh_version :: string
  sh_specDigest :: "string option"
  sh_model :: "string option"
  sh_serviceModels :: "(string \<times> string) list option"

record sealed_judge =
  sj_id :: string
  sj_version :: string
  sj_specDigest :: "string option"
  sj_model :: "string option"
  sj_rubric :: "string option"
  sj_harness :: "string option"

record judge_run =
  jr_provider :: "string option"
  jr_model :: string

record sealed_environment =
  se_ref :: string
  se_digest :: "string option"

record scorecard_manifest =
  mf_identityVersion :: "nat option"
  mf_dataset :: sealed_dataset
  mf_cases :: "(string \<times> string) list option"
  mf_grading :: "string option"
  mf_gradingCases :: "(string \<times> string) list option"
  mf_harness :: sealed_harness
  mf_graders :: "string option"
  mf_judges :: "sealed_judge list option"
  mf_judgeRun :: "judge_run option"
  mf_environments :: "(string \<times> sealed_environment) list option"

text \<open>What a result says about where it ran: the execution manifest and, of a verifier's receipt, whether it is complete.\<close>

record ran_case =
  rc_caseId :: string
  rc_execution :: "execution_manifest option"
  rc_verifierComplete :: "bool option"

subsection \<open>Readings\<close>

datatype unverified_reason = Unsealed | Digest_era | Composite | Unresolved

datatype axis_reading = Held | Confound | Unverified unverified_reason

datatype digest_era = Sha256_era | Fnv_era

definition era :: "string \<Rightarrow> digest_era" where
  "era digest = (if startsWith digest ''sha256:'' then Sha256_era else Fnv_era)"

definition eraDeclared :: "scorecard_manifest \<Rightarrow> bool" where
  "eraDeclared m \<longleftrightarrow> mf_identityVersion m \<noteq> None"

definition compareStamps :: "string \<Rightarrow> string \<Rightarrow> axis_reading" where
  "compareStamps b c =
     (if era b \<noteq> era c then Unverified Digest_era else if b = c then Held else Confound)"

text \<open>The digests of the cases both sides sealed: one pair under two algorithms settles it, else any difference.\<close>

definition shared_keys :: "(string \<times> 'a) list \<Rightarrow> (string \<times> 'b) list \<Rightarrow> string list" where
  "shared_keys b c = filter (\<lambda>k. map_of c k \<noteq> None) (map fst b)"

definition sealed_cases :: "(string \<times> string) list \<Rightarrow> (string \<times> string) list \<Rightarrow> axis_reading" where
  "sealed_cases b c =
     (let pairs = map (\<lambda>k. (the (map_of b k), the (map_of c k))) (shared_keys b c) in
      if list_ex (\<lambda>(x, y). era x \<noteq> era y) pairs then Unverified Digest_era
      else if list_all (\<lambda>(x, y). x = y) pairs then Held else Confound)"

definition datasetAxis :: "scorecard_manifest \<Rightarrow> scorecard_manifest \<Rightarrow> axis_reading" where
  "datasetAxis b c =
     (case (mf_cases b, mf_cases c) of
        (Some bc, Some cc) \<Rightarrow> sealed_cases bc cc
      | _ \<Rightarrow>
          if era (sd_digest (mf_dataset b)) \<noteq> era (sd_digest (mf_dataset c)) then Unverified Digest_era
          else if sd_digest (mf_dataset b) = sd_digest (mf_dataset c) then Held
          else Unverified Composite)"

definition sameSelection :: "scorecard_manifest \<Rightarrow> scorecard_manifest \<Rightarrow> bool" where
  "sameSelection b c =
     (case (mf_cases b, mf_cases c) of
        (Some bc, Some cc) \<Rightarrow> length bc = length cc \<and> list_all (\<lambda>k. map_of cc k \<noteq> None) (map fst bc)
      | _ \<Rightarrow> False)"

definition gradingPlanAxis :: "scorecard_manifest \<Rightarrow> scorecard_manifest \<Rightarrow> axis_reading" where
  "gradingPlanAxis b c =
     (case (mf_grading b, mf_grading c) of
        (Some bg, Some cg) \<Rightarrow>
          let bPlan = (mf_graders b \<noteq> None); cPlan = (mf_graders c \<noteq> None) in
          if bPlan \<noteq> cPlan then Confound
          else if bPlan then compareStamps bg cg
          else (case (mf_gradingCases b, mf_gradingCases c) of
                  (Some bc, Some cc) \<Rightarrow> sealed_cases bc cc
                | _ \<Rightarrow>
                    if era bg \<noteq> era cg then Unverified Digest_era
                    else if bg = cg then Held
                    else if sameSelection b c then Confound
                    else Unverified Composite)
      | (None, None) \<Rightarrow>
          (case (mf_graders b, mf_graders c) of
             (None, None) \<Rightarrow>
               if era (sd_digest (mf_dataset b)) \<noteq> era (sd_digest (mf_dataset c)) then Unverified Digest_era
               else if sd_digest (mf_dataset b) = sd_digest (mf_dataset c) then Held
               else Unverified Composite
           | (Some x, Some y) \<Rightarrow> compareStamps x y
           | _ \<Rightarrow> Confound)
      | _ \<Rightarrow> Unverified Unsealed)"

subsection \<open>The judges\<close>

text \<open>\<open>sort\<close> by id; engines keep the order of equal ids.\<close>

definition by_judge_id :: "sealed_judge compare" where
  "by_judge_id x y = text_order (sj_id x) (sj_id y)"

definition judge_name :: "sealed_judge \<Rightarrow> string" where
  "judge_name j = sj_id j @ ''@'' @ sj_version j"

fun joined_names :: "string list \<Rightarrow> string" where
  "joined_names [] = []"
| "joined_names [x] = x"
| "joined_names (x # y # ys) = x @ '', '' @ joined_names (y # ys)"

definition runKey :: "judge_run option \<Rightarrow> string" where
  "runKey r =
     (case r of None \<Rightarrow> ''none'' | Some j \<Rightarrow> default_or ''default'' (jr_provider j) @ ''/'' @ jr_model j)"

text \<open>The configuration the judges ran under: \<open>None\<close> when the axis goes on to the judges themselves.\<close>

definition judge_run_reading :: "scorecard_manifest \<Rightarrow> scorecard_manifest \<Rightarrow> axis_reading option" where
  "judge_run_reading b c =
     (let bSplit = (eraDeclared b \<or> mf_cases b \<noteq> None); cSplit = (eraDeclared c \<or> mf_cases c \<noteq> None);
          lost = (\<lambda>r. map_option jr_model r = Some ''unresolved'')
      in if bSplit \<and> cSplit then
           if lost (mf_judgeRun b) \<or> lost (mf_judgeRun c) then Some (Unverified Unsealed)
           else if runKey (mf_judgeRun b) \<noteq> runKey (mf_judgeRun c) then Some Confound
           else None
         else if mf_judgeRun b \<noteq> None \<or> mf_judgeRun c \<noteq> None then Some (Unverified Unsealed)
         else None)"

text \<open>One closure of a judge (its model, its rubric, the harness it delegates to), on both sides.\<close>

definition model_reading :: "bool \<Rightarrow> string option \<Rightarrow> string option \<Rightarrow> axis_reading" where
  "model_reading declared bv cv =
     (if bv = Some ''unresolved'' \<or> cv = Some ''unresolved'' then Unverified Unsealed
      else if bv \<noteq> cv then (if bv \<noteq> None \<and> cv \<noteq> None then Confound else Unverified Unsealed)
      else if bv = None \<and> \<not> declared then Unverified Unsealed
      else Held)"

definition closure_reading :: "bool \<Rightarrow> string option \<Rightarrow> string option \<Rightarrow> axis_reading" where
  "closure_reading declared bv cv =
     (if bv = Some ''unresolved'' \<or> cv = Some ''unresolved'' then Unverified Unsealed
      else if bv = None \<and> cv = None \<and> \<not> declared then Unverified Unsealed
      else if bv \<noteq> cv then (if bv \<noteq> None \<and> cv \<noteq> None then Confound else Unverified Unsealed)
      else Held)"

text \<open>A sequence of readings: the first that is not held ends it.\<close>

definition and_then :: "axis_reading \<Rightarrow> axis_reading \<Rightarrow> axis_reading" where
  "and_then r s = (if r = Held then s else r)"

definition judge_reading :: "bool \<Rightarrow> sealed_judge \<Rightarrow> sealed_judge \<Rightarrow> axis_reading" where
  "judge_reading declared bj cj =
     (case (sj_specDigest bj, sj_specDigest cj) of
        (Some x, Some y) \<Rightarrow>
          and_then (compareStamps x y)
            (and_then (model_reading declared (sj_model bj) (sj_model cj))
               (and_then (closure_reading declared (sj_rubric bj) (sj_rubric cj))
                  (closure_reading declared (sj_harness bj) (sj_harness cj))))
      | _ \<Rightarrow> Unverified Unsealed)"

fun judges_reading :: "bool \<Rightarrow> sealed_judge list \<Rightarrow> sealed_judge list \<Rightarrow> axis_reading" where
  "judges_reading declared [] cs = Held"
| "judges_reading declared (bj # bs) [] = Unverified Unsealed"
| "judges_reading declared (bj # bs) (cj # cs) = and_then (judge_reading declared bj cj) (judges_reading declared bs cs)"

definition judgeSetAxis :: "scorecard_manifest \<Rightarrow> scorecard_manifest \<Rightarrow> axis_reading" where
  "judgeSetAxis b c =
     (case judge_run_reading b c of
        Some r \<Rightarrow> r
      | None \<Rightarrow>
          let bs = sort_by by_judge_id (default_or [] (mf_judges b));
              cs = sort_by by_judge_id (default_or [] (mf_judges c))
          in if bs = [] \<and> cs = [] then Held
             else if joined_names (map judge_name bs) \<noteq> joined_names (map judge_name cs) then Confound
             else judges_reading (eraDeclared b \<and> eraDeclared c) bs cs)"

subsection \<open>The model of the harness\<close>

text \<open>\<open>{"": model, ...serviceModels}\<close>: a service named like the empty key overwrites it.\<close>

definition sealed_models :: "sealed_harness \<Rightarrow> (string \<times> string) list" where
  "sealed_models h =
     fold (\<lambda>(k, v). set_key k (\<lambda>_. v)) (default_or [] (sh_serviceModels h))
       (case sh_model h of None \<Rightarrow> [] | Some m \<Rightarrow> [([], m)])"

definition model_key_reading :: "string option \<Rightarrow> string option \<Rightarrow> axis_reading" where
  "model_key_reading bv cv =
     (if bv = Some ''unresolved'' \<or> cv = Some ''unresolved'' then Unverified Unsealed
      else if bv = None \<or> cv = None then Unverified Unsealed
      else if bv \<noteq> cv then Confound else Held)"

definition harnessModelAxis :: "scorecard_manifest \<Rightarrow> scorecard_manifest \<Rightarrow> axis_reading" where
  "harnessModelAxis b c =
     (let bh = mf_harness b; ch = mf_harness c in
      if \<not> (sh_id bh = sh_id ch \<and> sh_version bh = sh_version ch \<and> sh_specDigest bh = sh_specDigest ch) then Held
      else
        let bs = sealed_models bh; cs = sealed_models ch in
        if bs = [] \<and> cs = [] then (if eraDeclared b \<and> eraDeclared c then Held else Unverified Unsealed)
        else if bs = [] \<or> cs = [] then Unverified Unsealed
        else fold (\<lambda>k r. and_then r (model_key_reading (map_of bs k) (map_of cs k))) (firsts (map fst bs @ map fst cs)) Held)"

subsection \<open>The world a case ran in\<close>

text \<open>
  One shared pair: \<open>Inl\<close> an answer that ends the axis, \<open>Inr\<close> whether the two worlds differ. \<open>new Map(...)\<close> keeps the last
  result of a case.
\<close>

definition incomplete_verifier :: "ran_case \<Rightarrow> bool" where
  "incomplete_verifier r \<longleftrightarrow> rc_verifierComplete r = Some False"

definition pair_reading :: "ran_case \<Rightarrow> ran_case \<Rightarrow> axis_reading + bool" where
  "pair_reading b c =
     (if incomplete_verifier b \<or> incomplete_verifier c then Inl (Unverified Unresolved)
      else
        case (rc_execution b, rc_execution c) of
          (Some be, Some ce) \<Rightarrow>
            (case (imageProvenanceOf be, imageProvenanceOf ce) of
               (Resolved_images bi x, Resolved_images ci y) \<Rightarrow>
                 let imagesDiffer = \<not> sameResolvedImages (Resolved_images bi x) (Resolved_images ci y) in
                 (case (xm_world be, xm_world ce) of
                    (None, None) \<Rightarrow> Inr imagesDiffer
                  | (Some bw, Some cw) \<Rightarrow> Inr (imagesDiffer \<or> \<not> sameEnforcedWorld bw cw)
                  | _ \<Rightarrow> Inl (Unverified Unsealed))
             | _ \<Rightarrow> Inl (Unverified Unresolved))
        | _ \<Rightarrow> Inl (Unverified Unsealed))"

fun world_reading :: "bool \<Rightarrow> (ran_case \<times> ran_case) list \<Rightarrow> axis_reading" where
  "world_reading differs [] = (if differs then Confound else Held)"
| "world_reading differs ((b, c) # ps) =
     (case pair_reading b c of Inl r \<Rightarrow> r | Inr d \<Rightarrow> world_reading (differs \<or> d) ps)"

definition last_of_case :: "ran_case list \<Rightarrow> string \<Rightarrow> ran_case option" where
  "last_of_case rs k = List.find (\<lambda>r. rc_caseId r = k) (rev rs)"

definition shared_pairs :: "ran_case list \<Rightarrow> ran_case list \<Rightarrow> (ran_case \<times> ran_case) list" where
  "shared_pairs baseline candidate =
     List.map_filter (\<lambda>b. map_option (\<lambda>c. (b, c)) (last_of_case candidate (rc_caseId b))) baseline"

definition silent :: "ran_case \<Rightarrow> bool" where
  "silent r \<longleftrightarrow> rc_execution r = None \<and> rc_verifierComplete r = None"

definition worldAxis :: "ran_case list \<Rightarrow> ran_case list \<Rightarrow> axis_reading option" where
  "worldAxis baseline candidate =
     (let shared = shared_pairs baseline candidate in
      if shared = [] then None
      else if list_all (\<lambda>(b, c). silent b \<and> silent c) shared then None
      else Some (world_reading False shared))"

subsection \<open>The environment a case acted on\<close>

text \<open>One shared case: \<open>Inl\<close> the reason that ends the axis, \<open>Inr\<close> whether the documents differ.\<close>

definition environment_reading :: "sealed_environment \<Rightarrow> sealed_environment \<Rightarrow> unverified_reason + bool" where
  "environment_reading b c =
     (case (se_digest b, se_digest c) of
        (Some bd, Some cd) \<Rightarrow>
          if era bd \<noteq> era cd then Inl Digest_era else Inr (se_ref b \<noteq> se_ref c \<or> bd \<noteq> cd)
      | _ \<Rightarrow> Inl Unresolved)"

fun environments_reading :: "bool \<Rightarrow> (sealed_environment \<times> sealed_environment) list \<Rightarrow> axis_reading" where
  "environments_reading differs [] = (if differs then Confound else Held)"
| "environments_reading differs ((b, c) # ps) =
     (case environment_reading b c of Inl r \<Rightarrow> Unverified r | Inr d \<Rightarrow> environments_reading (differs \<or> d) ps)"

definition environmentAxis :: "scorecard_manifest \<Rightarrow> scorecard_manifest \<Rightarrow> axis_reading option" where
  "environmentAxis b c =
     (let be = default_or [] (mf_environments b); ce = default_or [] (mf_environments c) in
      if be = [] \<and> ce = [] then None
      else if be = [] \<or> ce = [] then Some (Unverified Unsealed)
      else
        let shared = shared_keys be ce in
        if shared = [] then Some (Unverified Unresolved)
        else Some (environments_reading False (map (\<lambda>k. (the (map_of be k), the (map_of ce k))) shared)))"

subsection \<open>The identity of the pair\<close>

record identity_reading =
  id_held :: "experiment_axis list"
  id_confounds :: "experiment_axis list"
  id_unverified :: "(experiment_axis \<times> unverified_reason) list"

definition EXPERIMENT_AXES :: "experiment_axis list" where
  "EXPERIMENT_AXES = [Dataset_content, Grading_plan, Judge_set, Harness_model, Execution_world, Environment_axis]"

definition readings ::
  "scorecard_manifest \<Rightarrow> scorecard_manifest \<Rightarrow> ran_case list \<Rightarrow> ran_case list \<Rightarrow> (experiment_axis \<times> axis_reading) list" where
  "readings b c bres cres =
     [(Dataset_content, datasetAxis b c), (Grading_plan, gradingPlanAxis b c), (Judge_set, judgeSetAxis b c),
      (Harness_model, harnessModelAxis b c)]
     @ (case worldAxis bres cres of None \<Rightarrow> [] | Some r \<Rightarrow> [(Execution_world, r)])
     @ (case environmentAxis b c of None \<Rightarrow> [] | Some r \<Rightarrow> [(Environment_axis, r)])"

definition experimentIdentity ::
  "scorecard_manifest option \<Rightarrow> scorecard_manifest option \<Rightarrow> ran_case list \<Rightarrow> ran_case list \<Rightarrow> identity_reading" where
  "experimentIdentity baseline candidate bres cres =
     (case (baseline, candidate) of
        (Some b, Some c) \<Rightarrow>
          let rs = readings b c bres cres in
          \<lparr>id_held = map fst (filter (\<lambda>(a, r). r = Held) rs),
           id_confounds = map fst (filter (\<lambda>(a, r). r = Confound) rs),
           id_unverified = List.map_filter (\<lambda>(a, r). case r of Unverified u \<Rightarrow> Some (a, u) | _ \<Rightarrow> None) rs\<rparr>
      | _ \<Rightarrow> \<lparr>id_held = [], id_confounds = [], id_unverified = map (\<lambda>a. (a, Unsealed)) EXPERIMENT_AXES\<rparr>)"

text \<open>What the gate reads of it.\<close>

definition gate_identity :: "identity_reading \<Rightarrow> experiment_identity" where
  "gate_identity i = \<lparr>ex_confounds = id_confounds i, ex_unverified = map fst (id_unverified i)\<rparr>"

end
