(* ===== verification/IdentityLaws.thy ===== *)
theory IdentityLaws
  imports Identity GateLaws
begin

text \<open>
  What the identity of an experiment promises: what a held axis verifies, that the axes are sorted into exactly one
  answer, that a batch is never a confound of itself, and what the records agree on when a gate passes.
\<close>

subsection \<open>What a held axis verifies\<close>

lemma compareStamps_Held [simp]: "compareStamps b c = Held \<longleftrightarrow> b = c"
  by (auto simp: compareStamps_def)

lemma and_then_Held [simp]: "and_then r s = Held \<longleftrightarrow> r = Held \<and> s = Held"
  by (auto simp: and_then_def)

lemma set_shared_keys: "set (shared_keys b c) = {k. map_of b k \<noteq> None \<and> map_of c k \<noteq> None}"
  by (auto simp: shared_keys_def map_of_eq_None_iff)

lemma sealed_cases_Held:
  "sealed_cases b c = Held \<longleftrightarrow> (\<forall>k x y. map_of b k = Some x \<and> map_of c k = Some y \<longrightarrow> x = y)"
proof -
  have "sealed_cases b c = Held \<longleftrightarrow> (\<forall>k \<in> set (shared_keys b c). the (map_of b k) = the (map_of c k))"
    by (auto simp: sealed_cases_def Let_def list_ex_iff list_all_iff)
  then show ?thesis unfolding set_shared_keys by force
qed

lemma sealed_cases_same [simp]: "sealed_cases b b = Held"
  by (auto simp: sealed_cases_Held)

lemma model_reading_Held [simp]:
  "model_reading d x y = Held \<longleftrightarrow> x = y \<and> x \<noteq> Some ''unresolved'' \<and> (x \<noteq> None \<or> d)"
  by (auto simp: model_reading_def)

lemma closure_reading_Held [simp]:
  "closure_reading d x y = Held \<longleftrightarrow> x = y \<and> x \<noteq> Some ''unresolved'' \<and> (x \<noteq> None \<or> d)"
  by (auto simp: closure_reading_def)

definition same_judge :: "sealed_judge \<Rightarrow> sealed_judge \<Rightarrow> bool" where
  "same_judge x y \<longleftrightarrow>
     sj_specDigest x \<noteq> None \<and> sj_specDigest x = sj_specDigest y \<and>
     sj_model x = sj_model y \<and> sj_rubric x = sj_rubric y \<and> sj_harness x = sj_harness y \<and>
     Some ''unresolved'' \<notin> {sj_model x, sj_rubric x, sj_harness x}"

lemma judge_reading_same: "judge_reading d x y = Held \<Longrightarrow> same_judge x y"
  by (auto simp: judge_reading_def same_judge_def split: option.splits)

lemma judges_reading_same:
  "judges_reading d bs cs = Held \<Longrightarrow> length bs \<le> length cs \<and> list_all (\<lambda>(x, y). same_judge x y) (zip bs cs)"
  by (induction d bs cs rule: judges_reading.induct) (auto dest: judge_reading_same)

lemma model_key_Held [simp]:
  "model_key_reading x y = Held \<longleftrightarrow> x = y \<and> x \<noteq> None \<and> x \<noteq> Some ''unresolved''"
  by (auto simp: model_key_reading_def)

lemma fold_and_then:
  "fold (\<lambda>k r. and_then r (f k)) ks r = Held \<longleftrightarrow> r = Held \<and> (\<forall>k \<in> set ks. f k = Held)"
  by (induction ks arbitrary: r) auto

text \<open>The models of two manifests of one harness document.\<close>

definition same_harness_document :: "sealed_harness \<Rightarrow> sealed_harness \<Rightarrow> bool" where
  "same_harness_document x y \<longleftrightarrow> sh_id x = sh_id y \<and> sh_version x = sh_version y \<and> sh_specDigest x = sh_specDigest y"

lemma harnessModelAxis_Held:
  assumes "harnessModelAxis b c = Held" "same_harness_document (mf_harness b) (mf_harness c)"
  shows "map_of (sealed_models (mf_harness b)) = map_of (sealed_models (mf_harness c))"
proof -
  let ?b = "sealed_models (mf_harness b)" and ?c = "sealed_models (mf_harness c)"
  consider "?b = [] \<and> ?c = []" | "?b \<noteq> []" "?c \<noteq> []"
    using assms by (fastforce simp: harnessModelAxis_def Let_def same_harness_document_def split: if_splits)
  then show ?thesis
  proof cases
    case 2
    then have "\<forall>k \<in> set (map fst ?b @ map fst ?c). map_of ?b k = map_of ?c k"
      using assms by (auto simp: harnessModelAxis_def Let_def same_harness_document_def fold_and_then split: if_splits)
    then show ?thesis by (intro ext) (metis (no_types, opaque_lifting) UnCI map_of_eq_None_iff set_append set_map)
  qed simp
qed

definition same_world :: "ran_case \<Rightarrow> ran_case \<Rightarrow> bool" where
  "same_world b c \<longleftrightarrow>
     \<not> incomplete_verifier b \<and> \<not> incomplete_verifier c \<and>
     (case (rc_execution b, rc_execution c) of
        (Some x, Some y) \<Rightarrow>
          sameResolvedImages (imageProvenanceOf x) (imageProvenanceOf y) \<and>
          (case (xm_world x, xm_world y) of
             (None, None) \<Rightarrow> True | (Some v, Some w) \<Rightarrow> sameEnforcedWorld v w | _ \<Rightarrow> False)
      | _ \<Rightarrow> False)"

lemma pair_reading_same: "pair_reading b c = Inr False \<longleftrightarrow> same_world b c"
  by (auto simp: pair_reading_def same_world_def Let_def split: option.split image_provenance.split)

lemma world_reading_Held:
  "world_reading d ps = Held \<longleftrightarrow> \<not> d \<and> (\<forall>(b, c) \<in> set ps. same_world b c)"
proof (induction d ps rule: world_reading.induct)
  case (2 d b c ps)
  have "pair_reading b c \<noteq> Inl Held"
    by (auto simp: pair_reading_def Let_def split: option.split image_provenance.split)
  then show ?case using 2 pair_reading_same [of b c] by (cases "pair_reading b c") auto
qed simp

lemma environment_reading_same:
  "environment_reading b c = Inr False \<longleftrightarrow> se_digest b \<noteq> None \<and> b = c"
  by (cases b; cases c) (auto simp: environment_reading_def split: option.splits)

lemma environments_reading_Held:
  "environments_reading d ps = Held \<longleftrightarrow> \<not> d \<and> (\<forall>(b, c) \<in> set ps. se_digest b \<noteq> None \<and> b = c)"
proof (induction d ps rule: environments_reading.induct)
  case (2 d b c ps)
  then show ?case using environment_reading_same [of b c] by (cases "environment_reading b c") auto
qed simp

subsection \<open>What held axes say together\<close>

text \<open>The seals of the dataset of two manifests agree: case by case where both sealed their cases, else as a whole.\<close>

definition same_dataset :: "scorecard_manifest \<Rightarrow> scorecard_manifest \<Rightarrow> bool" where
  "same_dataset b c \<longleftrightarrow>
     (case (mf_cases b, mf_cases c) of
        (Some bc, Some cc) \<Rightarrow> \<forall>k x y. map_of bc k = Some x \<and> map_of cc k = Some y \<longrightarrow> x = y
      | _ \<Rightarrow> sd_digest (mf_dataset b) = sd_digest (mf_dataset c))"

text \<open>The grading plans agree: one plan for the whole batch on both sides, or on neither, and the same plan then; else the
  same plan for every case both sealed, or the same digest of all of them.\<close>

definition same_grading :: "scorecard_manifest \<Rightarrow> scorecard_manifest \<Rightarrow> bool" where
  "same_grading b c \<longleftrightarrow>
     (mf_graders b = None \<longleftrightarrow> mf_graders c = None) \<and>
     (case (mf_grading b, mf_grading c) of
        (Some x, Some y) \<Rightarrow>
          x = y \<or> mf_graders b = None \<and>
            (\<exists>bc cc. mf_gradingCases b = Some bc \<and> mf_gradingCases c = Some cc
               \<and> (\<forall>k v w. map_of bc k = Some v \<and> map_of cc k = Some w \<longrightarrow> v = w))
      | (None, None) \<Rightarrow>
          mf_graders b = mf_graders c \<and>
            (mf_graders b = None \<longrightarrow> sd_digest (mf_dataset b) = sd_digest (mf_dataset c))
      | _ \<Rightarrow> False)"

text \<open>The judges agree: in the order of their ids each judge of the baseline meets one with the same document, model, rubric
  and delegate, and the two lists of names read the same. Unless a name holds a comma, the judges are then paired off one to
  one under their own ids and versions.\<close>

definition judges_in_order :: "scorecard_manifest \<Rightarrow> sealed_judge list" where
  "judges_in_order m = sort_by by_judge_id (default_or [] (mf_judges m))"

definition plain_names :: "sealed_judge list \<Rightarrow> bool" where
  "plain_names js \<longleftrightarrow> list_all (\<lambda>j. CHR '','' \<notin> set (judge_name j)) js"

definition same_judges :: "scorecard_manifest \<Rightarrow> scorecard_manifest \<Rightarrow> bool" where
  "same_judges b c \<longleftrightarrow>
     runKey (mf_judgeRun b) = runKey (mf_judgeRun c) \<and>
     joined_names (map judge_name (judges_in_order b)) = joined_names (map judge_name (judges_in_order c)) \<and>
     length (judges_in_order b) \<le> length (judges_in_order c) \<and>
     list_all (\<lambda>(x, y). same_judge x y) (zip (judges_in_order b) (judges_in_order c)) \<and>
     (plain_names (judges_in_order b) \<and> plain_names (judges_in_order c) \<longrightarrow>
        list_all2 (\<lambda>x y. judge_name x = judge_name y \<and> same_judge x y) (judges_in_order b) (judges_in_order c))"

text \<open>
  What the records of two sealed batches agree on, axis by axis: the dataset, the grading plan, the judges, the models of the
  harness where both name one harness document, the bytes and the box of every result of the baseline against the last result
  of the candidate for its case, unless nothing is recorded about any of them, and the documents of the environments both pin.
\<close>

definition records_agree ::
  "scorecard_manifest \<Rightarrow> scorecard_manifest \<Rightarrow> ran_case list \<Rightarrow> ran_case list \<Rightarrow> bool" where
  "records_agree b c bres cres \<longleftrightarrow>
     same_dataset b c \<and> same_grading b c \<and> same_judges b c \<and>
     (same_harness_document (mf_harness b) (mf_harness c) \<longrightarrow>
        map_of (sealed_models (mf_harness b)) = map_of (sealed_models (mf_harness c))) \<and>
     (list_all (\<lambda>(x, y). silent x \<and> silent y) (shared_pairs bres cres) \<or>
        list_all (\<lambda>(x, y). same_world x y) (shared_pairs bres cres)) \<and>
     (default_or [] (mf_environments b) = [] \<longleftrightarrow> default_or [] (mf_environments c) = []) \<and>
     (default_or [] (mf_environments b) \<noteq> [] \<longrightarrow>
        shared_keys (default_or [] (mf_environments b)) (default_or [] (mf_environments c)) \<noteq> []) \<and>
     (\<forall>k x y. map_of (default_or [] (mf_environments b)) k = Some x \<and>
        map_of (default_or [] (mf_environments c)) k = Some y \<longrightarrow> x = y)"

lemma datasetAxis_Held: "datasetAxis b c = Held \<Longrightarrow> same_dataset b c"
  by (auto simp: datasetAxis_def same_dataset_def sealed_cases_Held split: option.splits if_splits)

lemma gradingPlanAxis_Held: "gradingPlanAxis b c = Held \<Longrightarrow> same_grading b c"
  by (auto simp: gradingPlanAxis_def same_grading_def Let_def sealed_cases_Held split: option.splits if_splits)

lemma judge_run_held: "judge_run_reading b c = None \<Longrightarrow> runKey (mf_judgeRun b) = runKey (mf_judgeRun c)"
  by (auto simp: judge_run_reading_def Let_def split: if_splits)

lemma judge_run_not_held: "judge_run_reading b c \<noteq> Some Held"
  by (simp add: judge_run_reading_def Let_def)

lemma comma_splits:
  "CHR '','' \<notin> set x \<Longrightarrow> CHR '','' \<notin> set z \<Longrightarrow> x @ CHR '','' # r = z @ CHR '','' # s \<longleftrightarrow> x = z \<and> r = s"
proof (induction x arbitrary: z)
  case Nil
  then show ?case by (cases z) auto
next
  case (Cons a x)
  then show ?case by (cases z) auto
qed

lemma joined_names_inj:
  assumes "\<forall>x \<in> set xs \<union> set ys. x \<noteq> [] \<and> CHR '','' \<notin> set x" "joined_names xs = joined_names ys"
  shows "xs = ys"
  using assms
proof (induction xs arbitrary: ys rule: joined_names.induct)
  case 1
  then show ?case by (cases ys rule: joined_names.cases) auto
next
  case (2 x)
  then show ?case by (cases ys rule: joined_names.cases) auto
next
  case (3 x y xs)
  note ih = 3(1) and names = 3(2) and eq = 3(3)
  show ?case
  proof (cases ys rule: joined_names.cases)
    case (3 z w zs)
    then have "x = z" "joined_names (y # xs) = joined_names (w # zs)"
      using eq names comma_splits [of x z] by auto
    then show ?thesis using ih [of "w # zs"] names 3 by simp
  qed (use eq names in auto)
qed

lemma judge_name_not_Nil [simp]: "judge_name j \<noteq> []"
  by (simp add: judge_name_def)

lemma judges_paired:
  assumes "joined_names (map judge_name bs) = joined_names (map judge_name cs)" "plain_names bs" "plain_names cs"
    and "list_all (\<lambda>(x, y). same_judge x y) (zip bs cs)"
  shows "list_all2 (\<lambda>x y. judge_name x = judge_name y \<and> same_judge x y) bs cs"
proof -
  have names: "map judge_name bs = map judge_name cs"
    by (rule joined_names_inj) (use assms(1-3) in \<open>auto simp: plain_names_def list_all_iff\<close>)
  then have "list_all2 (\<lambda>x y. judge_name x = judge_name y) bs cs"
    unfolding list.rel_eq [symmetric] list_all2_map1 list_all2_map2 .
  then show ?thesis using assms(4) by (auto simp: list_all2_iff list_all_iff)
qed

lemma judgeSetAxis_Held:
  assumes "judgeSetAxis b c = Held"
  shows "same_judges b c"
proof -
  let ?bs = "judges_in_order b" and ?cs = "judges_in_order c"
  have r: "judge_run_reading b c = None"
    using assms judge_run_not_held [of b c] by (auto simp: judgeSetAxis_def split: option.splits)
  then have "?bs = [] \<and> ?cs = [] \<or>
      joined_names (map judge_name ?bs) = joined_names (map judge_name ?cs) \<and>
      judges_reading (eraDeclared b \<and> eraDeclared c) ?bs ?cs = Held"
    using assms by (auto simp: judgeSetAxis_def judges_in_order_def Let_def split: if_splits)
  then have names: "joined_names (map judge_name ?bs) = joined_names (map judge_name ?cs)"
    and pairs: "length ?bs \<le> length ?cs" "list_all (\<lambda>(x, y). same_judge x y) (zip ?bs ?cs)"
    using judges_reading_same by force+
  show ?thesis
    unfolding same_judges_def
    using judge_run_held [OF r] names pairs judges_paired [OF names _ _ pairs(2)] by blast
qed

lemma worldAxis_Held:
  "worldAxis x y = None \<or> worldAxis x y = Some Held \<Longrightarrow>
   list_all (\<lambda>(b, c). silent b \<and> silent c) (shared_pairs x y) \<or> list_all (\<lambda>(b, c). same_world b c) (shared_pairs x y)"
  by (auto simp: worldAxis_def Let_def world_reading_Held list_all_iff split: if_splits)

lemma environmentAxis_Held:
  assumes "environmentAxis b c = None \<or> environmentAxis b c = Some Held"
    and "map_of (default_or [] (mf_environments b)) k = Some x" "map_of (default_or [] (mf_environments c)) k = Some y"
  shows "x = y"
proof -
  let ?b = "default_or [] (mf_environments b)" and ?c = "default_or [] (mf_environments c)"
  have k: "k \<in> set (shared_keys ?b ?c)" using assms(2,3) by (simp add: set_shared_keys)
  have "?b \<noteq> []" "?c \<noteq> []" using assms(2,3) by auto
  then have "environments_reading False (map (\<lambda>k. (the (map_of ?b k), the (map_of ?c k))) (shared_keys ?b ?c)) = Held"
    using assms(1) k by (auto simp: environmentAxis_def Let_def split: if_splits)
  then show ?thesis using k assms(2,3) by (force simp: environments_reading_Held)
qed

lemma environmentAxis_sides:
  assumes "environmentAxis b c = None \<or> environmentAxis b c = Some Held"
  shows "default_or [] (mf_environments b) = [] \<longleftrightarrow> default_or [] (mf_environments c) = []"
    and "default_or [] (mf_environments b) \<noteq> [] \<longrightarrow>
      shared_keys (default_or [] (mf_environments b)) (default_or [] (mf_environments c)) \<noteq> []"
  using assms by (auto simp: environmentAxis_def Let_def split: if_splits)

text \<open>No confound and nothing unverified: every reading is held.\<close>

lemma clean_identity:
  assumes "id_confounds (experimentIdentity bo co bres cres) = []" "id_unverified (experimentIdentity bo co bres cres) = []"
  shows "\<exists>b c. bo = Some b \<and> co = Some c \<and> (\<forall>(a, r) \<in> set (readings b c bres cres). r = Held)"
proof -
  obtain b c where bc: "bo = Some b" "co = Some c"
    using assms(2) by (cases bo; cases co) (auto simp: experimentIdentity_def EXPERIMENT_AXES_def)
  have "r = Held" if "(a, r) \<in> set (readings b c bres cres)" for a r
  proof (cases r)
    case Confound
    then show ?thesis using assms(1) that bc by (auto simp: experimentIdentity_def Let_def filter_empty_conv)
  next
    case (Unverified u)
    have "List.map_filter (\<lambda>(a, r). case r of Unverified u \<Rightarrow> Some (a, u) | _ \<Rightarrow> None) (readings b c bres cres) = []"
      using assms(2) bc by (simp add: experimentIdentity_def Let_def)
    then show ?thesis using that Unverified by (force simp: map_filter_def filter_empty_conv)
  qed
  then show ?thesis using bc by blast
qed

lemma clean_records_agree:
  assumes "\<forall>(a, r) \<in> set (readings b c bres cres). r = Held"
  shows "records_agree b c bres cres"
proof -
  have h: "datasetAxis b c = Held" "gradingPlanAxis b c = Held" "judgeSetAxis b c = Held" "harnessModelAxis b c = Held"
    using assms by (simp_all add: readings_def)
  have w: "worldAxis bres cres = None \<or> worldAxis bres cres = Some Held"
    using assms by (cases "worldAxis bres cres") (auto simp: readings_def)
  have e: "environmentAxis b c = None \<or> environmentAxis b c = Some Held"
    using assms by (cases "environmentAxis b c") (auto simp: readings_def)
  show ?thesis
    unfolding records_agree_def
    using datasetAxis_Held [OF h(1)] gradingPlanAxis_Held [OF h(2)] judgeSetAxis_Held [OF h(3)] harnessModelAxis_Held [OF h(4)]
      worldAxis_Held [OF w] environmentAxis_Held [OF e] environmentAxis_sides [OF e]
    by blast
qed

subsection \<open>Every axis has one answer\<close>

lemma sorted_readings:
  "mset (map fst (filter (\<lambda>(a, r). r = Held) rs) @ map fst (filter (\<lambda>(a, r). r = Confound) rs)
     @ map fst (List.map_filter (\<lambda>(a, r). case r of Unverified u \<Rightarrow> Some (a, u) | _ \<Rightarrow> None) rs)) = mset (map fst rs)"
proof (induction rs)
  case (Cons x rs)
  obtain a r where "x = (a, r)" by fastforce
  then show ?case using Cons by (cases r) (simp_all add: map_filter_simps)
qed (simp add: map_filter_simps)

lemma distinct_axes: "distinct (map fst (readings b c bres cres))"
  by (auto simp: readings_def split: option.split)

text \<open>
  The identity sorts the axes. No axis has two answers, dataset, grading, judges and harness model always have one, and
  when a side recorded no manifest every axis is unverified and none is held or a confound.
\<close>

theorem axes_have_one_answer:
  fixes bo co bres cres
  defines "i \<equiv> experimentIdentity bo co bres cres"
  shows "distinct (id_held i @ id_confounds i @ map fst (id_unverified i)) \<and>
     {Dataset_content, Grading_plan, Judge_set, Harness_model} \<subseteq> set (id_held i @ id_confounds i @ map fst (id_unverified i)) \<and>
     (bo = None \<or> co = None \<longrightarrow> id_held i = [] \<and> id_confounds i = [] \<and> map fst (id_unverified i) = EXPERIMENT_AXES)"
proof (cases "bo = None \<or> co = None")
  case True
  then have "i = \<lparr>id_held = [], id_confounds = [], id_unverified = map (\<lambda>a. (a, Unsealed)) EXPERIMENT_AXES\<rparr>"
    by (cases bo; cases co) (auto simp: i_def experimentIdentity_def)
  then show ?thesis by (simp add: EXPERIMENT_AXES_def)
next
  case False
  then obtain b c where "bo = Some b" "co = Some c" by auto
  then have m: "mset (id_held i @ id_confounds i @ map fst (id_unverified i)) = mset (map fst (readings b c bres cres))"
    using sorted_readings [of "readings b c bres cres"] by (simp add: i_def experimentIdentity_def Let_def)
  then have "distinct (id_held i @ id_confounds i @ map fst (id_unverified i))"
    using distinct_axes by (metis mset_eq_imp_distinct_iff)
  moreover have "set (id_held i @ id_confounds i @ map fst (id_unverified i)) = fst ` set (readings b c bres cres)"
    using m by (metis set_map set_mset_mset)
  ultimately show ?thesis using False by (auto simp: readings_def)
qed

theorem axes_have_one_answer_witness:
  "map fst (id_unverified (experimentIdentity None None [] [])) = EXPERIMENT_AXES"
  using axes_have_one_answer [of None None "[]" "[]"] by blast

subsection \<open>A batch against itself\<close>

lemma and_then_Confound: "and_then r s = Confound \<Longrightarrow> r = Confound \<or> s = Confound"
  by (auto simp: and_then_def split: if_splits)

lemma compareStamps_self [simp]: "compareStamps x x = Held"
  by simp

lemma judge_reading_self: "judge_reading d j j \<noteq> Confound"
  by (auto simp: judge_reading_def model_reading_def closure_reading_def split: option.split dest!: and_then_Confound)

lemma judges_reading_self: "judges_reading d js js \<noteq> Confound"
  by (induction js) (auto simp: judge_reading_self dest!: and_then_Confound)

lemma fold_no_confound: "r \<noteq> Confound \<Longrightarrow> \<forall>k \<in> set ks. f k \<noteq> Confound \<Longrightarrow> fold (\<lambda>k r. and_then r (f k)) ks r \<noteq> Confound"
  by (induction ks arbitrary: r) (auto dest: and_then_Confound)

lemma model_key_self: "model_key_reading x x \<noteq> Confound"
  by (simp add: model_key_reading_def)

lemma harnessModelAxis_self: "harnessModelAxis m m \<noteq> Confound"
  by (simp add: harnessModelAxis_def Let_def fold_no_confound model_key_self)

lemma judgeSetAxis_self: "judgeSetAxis m m \<noteq> Confound"
  by (auto simp: judgeSetAxis_def judge_run_reading_def Let_def judges_reading_self split: option.split)

lemma sameEnforcedWorld_refl [simp]: "sameEnforcedWorld w w"
  by (simp add: sameEnforcedWorld_def sameHosts_def)

lemma pair_reading_self: "pair_reading r r \<in> {Inr False, Inl (Unverified Unresolved), Inl (Unverified Unsealed)}"
  by (auto simp: pair_reading_def Let_def split: option.split image_provenance.split)

lemma world_reading_self: "\<forall>(b, c) \<in> set ps. b = c \<Longrightarrow> world_reading False ps \<noteq> Confound"
proof (induction ps)
  case (Cons p ps)
  obtain b c where "p = (b, c)" by fastforce
  then show ?case using Cons pair_reading_self [of b] by auto
qed simp

lemma last_of_case_unique: "distinct (map rc_caseId rs) \<Longrightarrow> r \<in> set rs \<Longrightarrow> last_of_case rs (rc_caseId r) = Some r'  \<Longrightarrow> r' = r"
  by (metis (mono_tags, lifting) distinct_map find_Some_iff inj_onD last_of_case_def nth_mem set_rev)

lemma environments_reading_self: "\<forall>(b, c) \<in> set ps. b = c \<Longrightarrow> environments_reading False ps \<noteq> Confound"
proof (induction ps)
  case (Cons p ps)
  obtain b c where "p = (b, c)" by fastforce
  then show ?case using Cons by (auto simp: environment_reading_def split: option.split)
qed simp

text \<open>
  A batch is no confound of itself. Compared with its own manifest and results (one result for a case), no axis claims a
  difference, whatever era its seals are from and whatever could not be resolved.
\<close>

theorem self_comparison_has_no_confound:
  assumes "distinct (map rc_caseId rs)"
  shows "id_confounds (experimentIdentity (Some m) (Some m) rs rs) = []"
proof -
  have d: "datasetAxis m m \<noteq> Confound" by (auto simp: datasetAxis_def split: option.split)
  have g: "gradingPlanAxis m m \<noteq> Confound" by (auto simp: gradingPlanAxis_def Let_def split: option.split)
  have "b = c" if "(b, c) \<in> set (shared_pairs rs rs)" for b c
    using that last_of_case_unique [OF assms, of b c] by (auto simp: shared_pairs_def map_filter_def)
  then have "\<forall>(b, c) \<in> set (shared_pairs rs rs). b = c" by blast
  then have w: "worldAxis rs rs \<noteq> Some Confound" using world_reading_self by (simp add: worldAxis_def Let_def)
  have e: "environmentAxis m m \<noteq> Some Confound"
    by (auto simp: environmentAxis_def Let_def intro!: environments_reading_self)
  show ?thesis
    using d g w e judgeSetAxis_self [of m] harnessModelAxis_self [of m]
    by (auto simp: experimentIdentity_def Let_def readings_def filter_empty_conv split: option.split)
qed

definition plain_manifest :: scorecard_manifest where
  "plain_manifest =
     \<lparr>mf_identityVersion = Some 1, mf_dataset = \<lparr>sd_id = ''d'', sd_version = ''1'', sd_digest = ''sha256:d''\<rparr>,
      mf_cases = Some [(''c1'', ''sha256:c1'')], mf_grading = Some ''sha256:g'', mf_gradingCases = Some [(''c1'', ''sha256:g1'')],
      mf_harness = \<lparr>sh_id = ''bot'', sh_version = ''1'', sh_specDigest = Some ''sha256:h'', sh_model = Some ''m@1'', sh_serviceModels = None\<rparr>,
      mf_graders = None, mf_judges = None, mf_judgeRun = None, mf_environments = None\<rparr>"

definition ran_on :: "string \<Rightarrow> string \<Rightarrow> ran_case" where
  "ran_on k digest =
     \<lparr>rc_caseId = k,
      rc_execution = Some \<lparr>xm_os = ''linux'', xm_osDeclared = False, xm_driver = Some ''docker'', xm_image = None, xm_runtime = None,
        xm_manifestVersion = Some 2,
        xm_imageProvenance = Some (Resolved_images [\<lparr>pi_ref = ''bot'', pi_digest = digest, pi_unit = None\<rparr>] By_driver),
        xm_world = None\<rparr>,
      rc_verifierComplete = None\<rparr>"

theorem self_comparison_has_no_confound_witness:
  "id_confounds (experimentIdentity (Some plain_manifest) (Some plain_manifest)
     [ran_on ''c1'' ''sha256:a'', ran_on ''c2'' ''sha256:b''] [ran_on ''c1'' ''sha256:a'', ran_on ''c2'' ''sha256:b'']) = []"
  by (rule self_comparison_has_no_confound) (simp add: ran_on_def)

subsection \<open>What a gate that passes compared\<close>

text \<open>C5. A passing gate found no difference in what was recorded of the two experiments. When a decision passes over the
  comparison of two scorecards, under a policy that waives neither confounds nor unverified identity, both sides have a
  manifest, and the two manifests agree on the content of the cases both sealed, on the grading plan, on the configuration of
  the judges and, judge by judge, on document, model, rubric and delegate, on the models run under one harness document and
  on the environments both pin; and either no shared case records anything about its world, or every result of the baseline
  ran on the same bytes in the same box as the last result of the candidate for its case.\<close>

theorem passing_gate_saw_agreement:
  assumes "ge_decision (evaluateGate (comparison_input pdig sdig bs cs (gate_identity (experimentIdentity bo co bres cres)) opts) policy) = Pass"
    and "default_or [] (kn_allowConfounds policy) = []" "kn_allowUnverifiedIdentity policy \<noteq> Some True"
  shows "\<exists>b c. bo = Some b \<and> co = Some c \<and> records_agree b c bres cres"
proof -
  let ?i = "experimentIdentity bo co bres cres"
  have "confounds_of (comparison_input pdig sdig bs cs (gate_identity ?i) opts) = id_confounds ?i"
      "unverified_of (comparison_input pdig sdig bs cs (gate_identity ?i) opts) = map fst (id_unverified ?i)"
    by (simp_all add: confounds_of_def unverified_of_def comparison_input_def Let_def gate_identity_def)
  then have "id_confounds ?i = []" "id_unverified ?i = []"
    using pass_conditions(2,3) [OF assms(1)] assms(2,3) by (auto simp: refused_confounds_def)
  then show ?thesis using clean_identity clean_records_agree by blast
qed

definition judged_manifest :: scorecard_manifest where
  "judged_manifest = plain_manifest\<lparr>mf_judges := Some [\<lparr>sj_id = ''tone'', sj_version = ''1'', sj_specDigest = Some ''sha256:j'',
     sj_model = Some ''m@1'', sj_rubric = None, sj_harness = None\<rparr>]\<rparr>"

theorem passing_gate_saw_agreement_witness:
  "records_agree judged_manifest judged_manifest [ran_on ''c1'' ''sha256:a''] [ran_on ''c1'' ''sha256:b'', ran_on ''c1'' ''sha256:a'']"
proof -
  let ?i = "experimentIdentity (Some judged_manifest) (Some judged_manifest) [ran_on ''c1'' ''sha256:a'']
    [ran_on ''c1'' ''sha256:b'', ran_on ''c1'' ''sha256:a'']"
  have "gate_identity ?i = held" by code_simp
  then have "ge_decision (evaluateGate (comparison_input (\<lambda>p. ''p'') (\<lambda>s. ''s'') (plain_side one_metric) (plain_side one_metric)
       (gate_identity ?i) no_opts) (effective_policy None)) = Pass"
    using one_metric_passes by simp
  moreover have "default_or [] (kn_allowConfounds (effective_policy None)) = []"
      "kn_allowUnverifiedIdentity (effective_policy None) \<noteq> Some True"
    by (simp_all add: effective_policy_def default_or_def)
  ultimately show ?thesis using passing_gate_saw_agreement by blast
qed

subsection \<open>Where the reading falls short\<close>

text \<open>Two runs that provisioned no image read as unverified, although the record calls them the same world.\<close>

lemma image_free_worlds_unverified:
  assumes "rc_caseId b = rc_caseId c" "\<not> incomplete_verifier b" "\<not> incomplete_verifier c"
    and "rc_execution b = Some x" "imageProvenanceOf x = No_image" "rc_execution c = Some y" "imageProvenanceOf y = No_image"
  shows "worldAxis [b] [c] = Some (Unverified Unresolved)"
  using assms by (simp add: worldAxis_def shared_pairs_def last_of_case_def map_filter_simps silent_def pair_reading_def)

text \<open>
  Of repeated trials of a case only the last one of the candidate is compared: a first trial on other bytes is not seen,
  and the same two batches the other way round are a confound.
\<close>

lemma only_the_last_trial_is_compared:
  "worldAxis [ran_on ''c'' ''sha256:a'', ran_on ''c'' ''sha256:a''] [ran_on ''c'' ''sha256:b'', ran_on ''c'' ''sha256:a''] = Some Held"
  "worldAxis [ran_on ''c'' ''sha256:b'', ran_on ''c'' ''sha256:a''] [ran_on ''c'' ''sha256:a'', ran_on ''c'' ''sha256:a''] = Some Confound"
  by code_simp+

text \<open>
  The first facet of the harness model that is not held decides: one service without a resolved model hides that another
  service ran a different one, or not, by the order of the names.
\<close>

definition with_models :: "(string \<times> string) list \<Rightarrow> scorecard_manifest" where
  "with_models ms = plain_manifest\<lparr>mf_harness := (mf_harness plain_manifest)\<lparr>sh_model := None, sh_serviceModels := Some ms\<rparr>\<rparr>"

lemma first_facet_decides:
  "harnessModelAxis (with_models [(''a'', ''unresolved''), (''b'', ''m@1'')]) (with_models [(''a'', ''m@1''), (''b'', ''m@2'')])
     = Unverified Unsealed"
  "harnessModelAxis (with_models [(''b'', ''m@1''), (''a'', ''unresolved'')]) (with_models [(''a'', ''m@1''), (''b'', ''m@2'')])
     = Confound"
  by code_simp+

end
