(* ===== verification/SeriesContract.thy ===== *)
theory SeriesContract
  imports Digest Identity
begin

text \<open>
  What a product's series asks and where an evaluation of it ran: the evaluation contract, its identity and stamp
  (packages/domain/src/product/readiness.ts, first half) and the world cohort of a batch
  (packages/domain/src/scorecard/world-cohort.ts). \<open>localeCompare\<close> is the parameter \<open>name_cmp\<close>, SHA-256 the
  parameter \<open>sha256\<close>. A record keyed by strings is its entries in insertion order.
\<close>

subsection \<open>The evaluation contract\<close>

text \<open>A document an id and a version name, with the digest of its bytes where one was sealed.\<close>

record sealed_ref =
  sl_id :: string
  sl_version :: string
  sl_digest :: "string option"

record closure_judge =
  cj_id :: string
  cj_version :: string
  cj_specDigest :: "string option"
  cj_model :: "string option"
  cj_rubric :: "string option"
  cj_harness :: "string option"
  cj_modelDigest :: "string option"
  cj_rubricDigest :: "string option"
  cj_harnessDigest :: "string option"
  cj_harnessModelDigest :: "string option"
  cj_harnessServiceModelDigests :: "(string \<times> string) list option"

record series_contract =
  ec_dataset :: sealed_ref
  ec_harness :: sealed_ref
  ec_judges :: "(string \<times> string) list"
  ec_harnessModel :: "string option"
  ec_serviceModels :: "(string \<times> string) list option"
  ec_harnessModelDigest :: "string option"
  ec_serviceModelDigests :: "(string \<times> string) list option"
  ec_judgeClosure :: "closure_judge list option"
  ec_judgeRun :: "judge_run option"
  ec_judgeRunModelDigest :: "string option"

datatype document_kind = DModel | DRubric | DHarness

datatype contract_resolution =
    Contract_resolved string series_contract "(document_kind \<times> string) list"
  | Contract_unresolvable string
  | Contract_unknown

subsection \<open>The contract a batch answered\<close>

record batch_manifest =
  bm_dataset :: sealed_ref
  bm_harness :: sealed_ref
  bm_harnessModel :: "string option"
  bm_serviceModels :: "(string \<times> string) list option"
  bm_modelDigest :: "string option"
  bm_serviceModelDigests :: "(string \<times> string) list option"
  bm_judges :: "closure_judge list option"
  bm_judgeRun :: "judge_run option"
  bm_judgeRunModelDigest :: "string option"

definition seriesContractFromManifest :: "batch_manifest \<Rightarrow> series_contract" where
  "seriesContractFromManifest m =
     (let judges = (case bm_judges m of None \<Rightarrow> [] | Some js \<Rightarrow> js) in
      \<lparr>ec_dataset = bm_dataset m, ec_harness = bm_harness m,
       ec_judges = map (\<lambda>j. (cj_id j, cj_version j)) judges,
       ec_harnessModel = bm_harnessModel m, ec_serviceModels = bm_serviceModels m,
       ec_harnessModelDigest = bm_modelDigest m, ec_serviceModelDigests = bm_serviceModelDigests m,
       ec_judgeClosure = Some judges, ec_judgeRun = bm_judgeRun m,
       ec_judgeRunModelDigest = bm_judgeRunModelDigest m\<rparr>)"

subsection \<open>Its identity\<close>

definition ref_cmp :: "string compare \<Rightarrow> (string \<times> string) compare" where
  "ref_cmp name_cmp a b =
     (let c = name_cmp (fst a) (fst b) in if c \<noteq> 0 then c else name_cmp (snd a) (snd b))"

definition by_id :: "string compare \<Rightarrow> ('a \<Rightarrow> string \<times> string) \<Rightarrow> 'a list \<Rightarrow> 'a list" where
  "by_id name_cmp ref rows = sort_by (\<lambda>a b. ref_cmp name_cmp (ref a) (ref b)) rows"

definition opt_text :: "string \<Rightarrow> string option \<Rightarrow> (string \<times> json) list" where
  "opt_text k v = (case v of None \<Rightarrow> [] | Some s \<Rightarrow> [(k, JStr s)])"

definition text_map :: "(string \<times> string) list \<Rightarrow> json" where
  "text_map kvs = JObj (map (\<lambda>kv. (fst kv, JStr (snd kv))) kvs)"

definition opt_map :: "string \<Rightarrow> (string \<times> string) list option \<Rightarrow> (string \<times> json) list" where
  "opt_map k v = (case v of None \<Rightarrow> [] | Some kvs \<Rightarrow> [(k, text_map kvs)])"

definition sealed_json :: "string \<Rightarrow> sealed_ref \<Rightarrow> json" where
  "sealed_json digest_key d =
     JObj ([(''id'', JStr (sl_id d)), (''version'', JStr (sl_version d))] @ opt_text digest_key (sl_digest d))"

definition ref_json :: "string \<times> string \<Rightarrow> json" where
  "ref_json r = JObj [(''id'', JStr (fst r)), (''version'', JStr (snd r))]"

definition closure_json :: "closure_judge \<Rightarrow> json" where
  "closure_json j =
     JObj ([(''id'', JStr (cj_id j)), (''version'', JStr (cj_version j))]
       @ opt_text ''specDigest'' (cj_specDigest j) @ opt_text ''model'' (cj_model j)
       @ opt_text ''rubric'' (cj_rubric j) @ opt_text ''harness'' (cj_harness j)
       @ opt_text ''modelDigest'' (cj_modelDigest j) @ opt_text ''rubricDigest'' (cj_rubricDigest j)
       @ opt_text ''harnessDigest'' (cj_harnessDigest j)
       @ opt_text ''harnessModelDigest'' (cj_harnessModelDigest j)
       @ opt_map ''harnessServiceModelDigests'' (cj_harnessServiceModelDigests j))"

definition judge_run_json :: "judge_run \<Rightarrow> json" where
  "judge_run_json r = JObj (opt_text ''provider'' (jr_provider r) @ [(''model'', JStr (jr_model r))])"

text \<open>\<open>Object.fromEntries(Object.entries(m).sort(...))\<close>\<close>

definition sorted_entries :: "string compare \<Rightarrow> (string \<times> string) list \<Rightarrow> (string \<times> string) list" where
  "sorted_entries name_cmp kvs = sort_by (\<lambda>a b. name_cmp (fst a) (fst b)) kvs"

definition contract_members :: "string compare \<Rightarrow> series_contract \<Rightarrow> (string \<times> json) list" where
  "contract_members name_cmp c =
     [(''dataset'', sealed_json ''digest'' (ec_dataset c)),
      (''harness'', sealed_json ''specDigest'' (ec_harness c)),
      (''judges'', JArr (map ref_json (by_id name_cmp (\<lambda>r. r) (ec_judges c))))]
     @ opt_text ''harnessModel'' (ec_harnessModel c)
     @ opt_map ''serviceModels'' (map_option (sorted_entries name_cmp) (ec_serviceModels c))
     @ opt_text ''harnessModelDigest'' (ec_harnessModelDigest c)
     @ opt_map ''serviceModelDigests'' (map_option (sorted_entries name_cmp) (ec_serviceModelDigests c))
     @ (case ec_judgeClosure c of None \<Rightarrow> []
        | Some js \<Rightarrow>
            [(''judgeClosure'', JArr (map closure_json (by_id name_cmp (\<lambda>j. (cj_id j, cj_version j)) js)))])
     @ (case ec_judgeRun c of None \<Rightarrow> [] | Some r \<Rightarrow> [(''judgeRun'', judge_run_json r)])
     @ opt_text ''judgeRunModelDigest'' (ec_judgeRunModelDigest c)"

definition seriesContractIdentity :: "string compare \<Rightarrow> series_contract \<Rightarrow> json" where
  "seriesContractIdentity name_cmp c = JObj (contract_members name_cmp c)"

definition seriesContractDigest :: "(string \<Rightarrow> string) \<Rightarrow> string compare \<Rightarrow> series_contract \<Rightarrow> string res" where
  "seriesContractDigest sha256 name_cmp c = contentDigest sha256 (seriesContractIdentity name_cmp c)"

definition seriesContractStampHolds ::
    "(string \<Rightarrow> string) \<Rightarrow> string compare \<Rightarrow> string \<Rightarrow> series_contract \<Rightarrow> bool res" where
  "seriesContractStampHolds sha256 name_cmp stamped c =
     digestsMatch sha256 stamped (seriesContractIdentity name_cmp c)"

subsection \<open>The world a batch ran in\<close>

record world_cohort =
  wc_os :: "string option"
  wc_drivers :: "string list option"
  wc_runtimes :: "string list option"
  wc_images :: "string list option"
  wc_mixed :: bool
  wc_observed :: nat
  wc_total :: "nat option"

text \<open>\<open>[...new Set(xs)]\<close>: the first occurrence of each.\<close>

fun distinct_values :: "'a list \<Rightarrow> 'a list" where
  "distinct_values [] = []"
| "distinct_values (x # xs) = x # filter (\<lambda>y. y \<noteq> x) (distinct_values xs)"

definition uniqueSorted :: "string option list \<Rightarrow> string list" where
  "uniqueSorted vs = sort_by code_unit_cmp
     (distinct_values (filter (\<lambda>v. v \<noteq> []) (List.map_filter (\<lambda>v. v) vs)))"

definition some_unless_empty :: "'a list \<Rightarrow> 'a list option" where
  "some_unless_empty xs = (if xs = [] then None else Some xs)"

definition worldCohortOf :: "ran_case list \<Rightarrow> world_cohort option" where
  "worldCohortOf results =
     (let manifests = List.map_filter rc_execution results in
      if manifests = [] then None
      else
        (let oses = distinct_values (map xm_os manifests) in
         Some \<lparr>wc_os = (if length oses = 1 then Some (hd oses) else None),
               wc_drivers = some_unless_empty (uniqueSorted (map xm_driver manifests)),
               wc_runtimes = some_unless_empty (uniqueSorted (map xm_runtime manifests)),
               wc_images = some_unless_empty (uniqueSorted (map xm_image manifests)),
               wc_mixed = (1 < length oses), wc_observed = length manifests,
               wc_total = Some (length results)\<rparr>))"

definition opt_texts :: "string \<Rightarrow> string list option \<Rightarrow> (string \<times> json) list" where
  "opt_texts k v = (case v of None \<Rightarrow> [] | Some xs \<Rightarrow> [(k, JArr (map JStr xs))])"

definition cohort_json :: "world_cohort \<Rightarrow> json" where
  "cohort_json c =
     JObj (opt_text ''os'' (wc_os c) @ opt_texts ''drivers'' (wc_drivers c) @ opt_texts ''runtimes'' (wc_runtimes c)
       @ opt_texts ''images'' (wc_images c) @ [(''mixed'', JBool (wc_mixed c))])"

definition worldCohortDigest :: "(string \<Rightarrow> string) \<Rightarrow> world_cohort option \<Rightarrow> string option" where
  "worldCohortDigest sha256 cohort =
     (case cohort of None \<Rightarrow> None
      | Some c \<Rightarrow> (case contentDigest sha256 (cohort_json c) of Inl e \<Rightarrow> None | Inr d \<Rightarrow> Some d))"

definition describe_world :: "world_cohort \<Rightarrow> string" where
  "describe_world c =
     (if wc_mixed c then ''several worlds''
      else
        (let parts = filter (\<lambda>p. p \<noteq> [])
               ((case wc_os c of None \<Rightarrow> [] | Some os \<Rightarrow> [os])
                @ (case wc_drivers c of None \<Rightarrow> [] | Some ds \<Rightarrow> ds)
                @ (case wc_runtimes c of None \<Rightarrow> [] | Some rs \<Rightarrow> rs));
             name = join_with (CHR ''/'') parts
         in if name = [] then ''an unnamed world'' else name))"

text \<open>The two descriptions the reason puts into its sentence.\<close>

definition crossWorldReason ::
    "(string \<Rightarrow> string) \<Rightarrow> world_cohort option \<Rightarrow> world_cohort option \<Rightarrow> (string \<times> string) option" where
  "crossWorldReason sha256 baseline candidate =
     (case (baseline, candidate) of
        (Some b, Some c) \<Rightarrow>
          (if worldCohortDigest sha256 baseline = worldCohortDigest sha256 candidate then None
           else Some (describe_world b, describe_world c))
      | _ \<Rightarrow> None)"

lemma distinct_values_set [simp]: "set (distinct_values xs) = set xs"
  by (induction xs) auto

lemma distinct_values_distinct [simp]: "distinct (distinct_values xs)"
  by (induction xs) auto

end
