(* ===== verification/Product.thy ===== *)
theory Product
  imports Issue
begin

text \<open>
  The product aggregate: packages/domain/src/product/product.ts over the records of
  packages/contracts/src/records/product.ts, and what the product stores do with its rows
  (packages/db/src/product/product-store.ts, the in-memory store). A comparison of \<open>JSON.stringify\<close> texts of values of one
  schema is a comparison of the values. \<open>productSlugStem\<close> (Unicode classes) is left out: a slug is what the caller hands in.
\<close>

subsection \<open>Records\<close>

datatype service_source = Src_releases | Src_tags

fun source_name :: "service_source \<Rightarrow> string" where
  "source_name Src_releases = ''releases''"
| "source_name Src_tags = ''tags''"

datatype sync_completeness = Sync_complete | Sync_partial

record service_sync =
  sy_syncedAt :: "string option"
  sy_lastError :: "(string \<times> string) option"
  sy_completeness :: "sync_completeness option"
  sy_partialAt :: "string option"
  sy_observedHead :: "string option"

definition no_sync :: service_sync where
  "no_sync = \<lparr>sy_syncedAt = None, sy_lastError = None, sy_completeness = None, sy_partialAt = None,
     sy_observedHead = None\<rparr>"

record product_service =
  sv_name :: string
  sv_host :: "string option"
  sv_repository :: string
  sv_source :: service_source
  sv_tagPrefix :: "string option"
  sv_path :: "string option"
  sv_sync :: "service_sync option"

type_synonym capability_ref = "string \<times> string option"

record product_series =
  ps_key :: string
  ps_label :: string
  ps_dataset :: capability_ref
  ps_harness :: capability_ref
  ps_judges :: "capability_ref list"
  ps_required :: "bool option"
  ps_allowNoBaseline :: "bool option"

definition PRODUCT_SERIES_LIMIT :: nat where
  "PRODUCT_SERIES_LIMIT = 20"

record product =
  pd_version :: "nat option"
  pd_policyDigest :: "string option"
  pd_definitionDigest :: "string option"
  pd_id :: string
  pd_tenant :: string
  pd_slug :: "string option"
  pd_name :: string
  pd_description :: "string option"
  pd_icon :: "string option"
  pd_services :: "product_service list"
  pd_series :: "product_series list"
  pd_autoEval :: "bool \<times> string option"
  pd_history :: "history_entry list"
  pd_createdBy :: string
  pd_createdAt :: string
  pd_updatedAt :: string

subsection \<open>What a list of services or series must satisfy\<close>

text \<open>The first value that appears a second time: the walk with a set of the values seen.\<close>

fun first_repeat :: "string set \<Rightarrow> string list \<Rightarrow> string option" where
  "first_repeat seen [] = None"
| "first_repeat seen (x # xs) = (if x \<in> seen then Some x else first_repeat (insert x seen) xs)"

definition assertUniqueServiceNames :: "product_service list \<Rightarrow> unit res" where
  "assertUniqueServiceNames services =
     (case first_repeat {} (map sv_name services) of
        Some n \<Rightarrow> Inl (BadRequest ''BAD_REQUEST'' (''Two services are both named '' @ n))
      | None \<Rightarrow> Inr ())"

definition assertSeries :: "product_series list \<Rightarrow> unit res" where
  "assertSeries series =
     (if PRODUCT_SERIES_LIMIT < length series
      then Inl (BadRequest ''BAD_REQUEST'' ''A product watches at most 20 series'')
      else (case first_repeat {} (map ps_key series) of
              Some k \<Rightarrow> Inl (BadRequest ''BAD_REQUEST'' (''Two series share the key '' @ k))
            | None \<Rightarrow> Inr ()))"

subsection \<open>Streams and questions\<close>

definition serviceStreamKey :: "product_service \<Rightarrow> string" where
  "serviceStreamKey s =
     canonicalize (JArr [JStr (case sv_host s of None \<Rightarrow> [] | Some h \<Rightarrow> h), JStr (sv_repository s),
       JStr (source_name (sv_source s)), JStr (case sv_tagPrefix s of None \<Rightarrow> [] | Some p \<Rightarrow> p)])"

definition sameSourceCoordinates :: "product_service \<Rightarrow> product_service \<Rightarrow> bool" where
  "sameSourceCoordinates a b \<longleftrightarrow> serviceStreamKey a = serviceStreamKey b"

definition capability_json :: "capability_ref \<Rightarrow> json" where
  "capability_json r = JArr [JStr (fst r), JStr (case snd r of None \<Rightarrow> [] | Some v \<Rightarrow> v)]"

definition judges_by_id :: "string compare \<Rightarrow> capability_ref list \<Rightarrow> capability_ref list" where
  "judges_by_id name_cmp js = sort_by (\<lambda>a b. name_cmp (fst a) (fst b)) js"

definition question_json :: "string compare \<Rightarrow> product_series \<Rightarrow> json" where
  "question_json name_cmp s =
     JArr [capability_json (ps_dataset s), capability_json (ps_harness s),
       JArr (map capability_json (judges_by_id name_cmp (ps_judges s)))]"

definition seriesQuestion :: "string compare \<Rightarrow> product_series \<Rightarrow> string" where
  "seriesQuestion name_cmp s = canonicalize (question_json name_cmp s)"

text \<open>\<open>new Map(pairs)\<close> keeps the last value of a key.\<close>

definition last_by_key :: "('a \<Rightarrow> string) \<Rightarrow> 'a list \<Rightarrow> string \<rightharpoonup> 'a" where
  "last_by_key key xs = map_of (rev (map (\<lambda>x. (key x, x)) xs))"

definition seriesNeedingEvidence :: "string compare \<Rightarrow> product_series list \<Rightarrow> product_series list \<Rightarrow> string list" where
  "seriesNeedingEvidence name_cmp prior nxt =
     map ps_key (filter (\<lambda>s. map_option (seriesQuestion name_cmp) (last_by_key ps_key prior (ps_key s))
                              \<noteq> Some (seriesQuestion name_cmp s)) nxt)"

subsection \<open>The aggregate\<close>

record new_product =
  np_id :: string
  np_tenant :: string
  np_slug :: "string option"
  np_name :: string
  np_description :: "string option"
  np_icon :: "string option"
  np_services :: "product_service list option"
  np_series :: "product_series list option"
  np_autoEval :: "(bool \<times> string option) option"
  np_createdBy :: string
  np_now :: string

definition newProduct :: "new_product \<Rightarrow> product res" where
  "newProduct i =
     (let services = (case np_services i of None \<Rightarrow> [] | Some xs \<Rightarrow> xs);
          series = (case np_series i of None \<Rightarrow> [] | Some xs \<Rightarrow> xs)
      in bind_res (assertUniqueServiceNames services) (\<lambda>_. bind_res (assertSeries series) (\<lambda>_.
           Inr \<lparr>pd_version = None, pd_policyDigest = None, pd_definitionDigest = None,
             pd_id = np_id i, pd_tenant = np_tenant i, pd_slug = np_slug i, pd_name = np_name i,
             pd_description = np_description i, pd_icon = np_icon i, pd_services = services, pd_series = series,
             pd_autoEval = (case np_autoEval i of None \<Rightarrow> (True, None) | Some a \<Rightarrow> a),
             pd_history = [\<lparr>he_at = np_now i, he_by = np_createdBy i, he_event = HCreated,
               he_detail = Some (JObj [(''services'', JNum (decimal (length services))),
                                       (''series'', JNum (decimal (length series)))])\<rparr>],
             pd_createdBy = np_createdBy i, pd_createdAt = np_now i, pd_updatedAt = np_now i\<rparr>)))"

text \<open>An edit: an absent field is \<open>None\<close>; of a field that may be cleared, \<open>Some None\<close> is the \<open>null\<close> that clears it.\<close>

record product_edit =
  pe_name :: "string option"
  pe_description :: "string option option"
  pe_icon :: "string option option"
  pe_services :: "product_service list option"
  pe_series :: "product_series list option"
  pe_autoEval :: "(bool \<times> string option) option"

text \<open>A patch: the fields it sets.\<close>

record product_patch =
  pw_name :: "string option"
  pw_description :: "string option option"
  pw_icon :: "string option option"
  pw_services :: "product_service list option"
  pw_series :: "product_series list option"
  pw_autoEval :: "(bool \<times> string option) option"
  pw_history :: "history_entry list option"
  pw_updatedAt :: "string option"

text \<open>A field is part of the patch when it was given and differs from what stands.\<close>

definition if_moved :: "'a \<Rightarrow> 'a option \<Rightarrow> 'a option" where
  "if_moved standing given = (case given of None \<Rightarrow> None | Some x \<Rightarrow> if x = standing then None else Some x)"

definition moved :: "string \<Rightarrow> 'a option \<Rightarrow> string list" where
  "moved name p = (case p of None \<Rightarrow> [] | Some x \<Rightarrow> [name])"

text \<open>A service that keeps its source coordinates keeps its sync state.\<close>

definition carry_sync :: "product_service list \<Rightarrow> product_service \<Rightarrow> product_service" where
  "carry_sync standing s =
     (case find (\<lambda>e. sv_name e = sv_name s) standing of
        None \<Rightarrow> s
      | Some prior \<Rightarrow>
          if sameSourceCoordinates prior s \<and> sv_sync prior \<noteq> None then s\<lparr>sv_sync := sv_sync prior\<rparr> else s)"

definition product_update :: "product \<Rightarrow> product_edit \<Rightarrow> string \<Rightarrow> string \<Rightarrow> product_patch res" where
  "product_update r f who now =
     bind_res (case pe_services f of None \<Rightarrow> Inr () | Some xs \<Rightarrow> assertUniqueServiceNames xs) (\<lambda>_.
     bind_res (case pe_series f of None \<Rightarrow> Inr () | Some xs \<Rightarrow> assertSeries xs) (\<lambda>_.
       let name = if_moved (pd_name r) (pe_name f);
           description = if_moved (pd_description r) (pe_description f);
           icon = if_moved (pd_icon r) (pe_icon f);
           services = if_moved (pd_services r) (map_option (map (carry_sync (pd_services r))) (pe_services f));
           series = if_moved (pd_series r) (pe_series f);
           autoEval = if_moved (pd_autoEval r) (pe_autoEval f);
           changed = moved ''name'' name @ moved ''description'' description @ moved ''icon'' icon
             @ moved ''services'' services @ moved ''series'' series @ moved ''autoEval'' autoEval
       in if changed = [] then Inl (BadRequest ''BAD_REQUEST'' ''Nothing to update.'')
          else Inr \<lparr>pw_name = name, pw_description = description, pw_icon = icon, pw_services = services,
                 pw_series = series, pw_autoEval = autoEval,
                 pw_history = Some (appendHistory (pd_history r) \<lparr>he_at = now, he_by = who, he_event = HUpdated,
                    he_detail = Some (JObj [(''changed'', JArr (map JStr changed))])\<rparr>),
                 pw_updatedAt = Some now\<rparr>))"

definition no_product_patch :: product_patch where
  "no_product_patch = \<lparr>pw_name = None, pw_description = None, pw_icon = None, pw_services = None, pw_series = None,
     pw_autoEval = None, pw_history = None, pw_updatedAt = None\<rparr>"

definition synced_service :: "string \<Rightarrow> bool \<Rightarrow> string option \<Rightarrow> product_service \<Rightarrow> product_service" where
  "synced_service syncedAt whole remoteHead s =
     (let previous = (case sv_sync s of None \<Rightarrow> None | Some y \<Rightarrow> sy_observedHead y);
          head = (case remoteHead of
                    Some h \<Rightarrow> (case previous of None \<Rightarrow> Some h | Some p \<Rightarrow> if p < h then Some h else previous)
                  | None \<Rightarrow> previous)
      in s\<lparr>sv_sync := Some \<lparr>sy_syncedAt = Some syncedAt, sy_lastError = None,
             sy_completeness = Some (if whole then Sync_complete else Sync_partial),
             sy_partialAt = (if whole then None else Some syncedAt), sy_observedHead = head\<rparr>\<rparr>)"

definition markServiceSynced :: "product \<Rightarrow> string \<Rightarrow> string \<Rightarrow> bool \<Rightarrow> string option \<Rightarrow> product_patch" where
  "markServiceSynced r name syncedAt whole remoteHead =
     no_product_patch\<lparr>pw_services :=
       Some (map (\<lambda>s. if sv_name s = name then synced_service syncedAt whole remoteHead s else s) (pd_services r))\<rparr>"

definition markServiceSyncError :: "product \<Rightarrow> string \<Rightarrow> string \<Rightarrow> string \<Rightarrow> product_patch" where
  "markServiceSyncError r name stamp message =
     no_product_patch\<lparr>pw_services :=
       Some (map (\<lambda>s. if sv_name s = name
                       then s\<lparr>sv_sync := Some ((case sv_sync s of None \<Rightarrow> no_sync | Some y \<Rightarrow> y)
                                                 \<lparr>sy_lastError := Some (stamp, message)\<rparr>)\<rparr>
                       else s) (pd_services r))\<rparr>"

subsection \<open>The digests a decision commits against\<close>

definition gates :: "product_series \<Rightarrow> bool" where
  "gates s \<longleftrightarrow> ps_required s \<noteq> Some False"

definition preapproved :: "product_series \<Rightarrow> bool" where
  "preapproved s \<longleftrightarrow> ps_allowNoBaseline s = Some True"

definition policy_json :: "product_series \<Rightarrow> json" where
  "policy_json s = JObj [(''key'', JStr (ps_key s)), (''required'', JBool (gates s)),
     (''allowNoBaseline'', JBool (preapproved s))]"

definition by_key :: "string compare \<Rightarrow> product_series list \<Rightarrow> product_series list" where
  "by_key name_cmp xs = sort_by (\<lambda>a b. name_cmp (ps_key a) (ps_key b)) xs"

definition policy_document :: "string compare \<Rightarrow> product_series list \<Rightarrow> json" where
  "policy_document name_cmp series = JArr (map policy_json (by_key name_cmp series))"

definition pinned_json :: "capability_ref \<Rightarrow> json" where
  "pinned_json r = JObj [(''id'', JStr (fst r)), (''version'', (case snd r of None \<Rightarrow> JNull | Some v \<Rightarrow> JStr v))]"

definition definition_json :: "string compare \<Rightarrow> product_series \<Rightarrow> json" where
  "definition_json name_cmp s =
     JObj [(''key'', JStr (ps_key s)), (''dataset'', pinned_json (ps_dataset s)),
       (''harness'', pinned_json (ps_harness s)),
       (''judges'', JArr (map pinned_json (judges_by_id name_cmp (ps_judges s))))]"

definition definition_document :: "string compare \<Rightarrow> product_series list \<Rightarrow> json" where
  "definition_document name_cmp series = JArr (map (definition_json name_cmp) (by_key name_cmp series))"

text \<open>A digest of a document that is not undefined: \<open>contentDigest\<close> does not throw on it.\<close>

definition digest_of :: "(string \<Rightarrow> string) \<Rightarrow> json \<Rightarrow> string" where
  "digest_of sha256 v = (case contentDigest sha256 v of Inl e \<Rightarrow> [] | Inr d \<Rightarrow> d)"

definition productReleasePolicyDigest :: "(string \<Rightarrow> string) \<Rightarrow> string compare \<Rightarrow> product \<Rightarrow> string" where
  "productReleasePolicyDigest sha256 name_cmp p = digest_of sha256 (policy_document name_cmp (pd_series p))"

definition productEvaluationDefinitionDigest :: "(string \<Rightarrow> string) \<Rightarrow> string compare \<Rightarrow> product \<Rightarrow> string" where
  "productEvaluationDefinitionDigest sha256 name_cmp p = digest_of sha256 (definition_document name_cmp (pd_series p))"

subsection \<open>Rows of products\<close>

type_synonym product_rows = "product list"

definition with_digests :: "(string \<Rightarrow> string) \<Rightarrow> string compare \<Rightarrow> product \<Rightarrow> product" where
  "with_digests sha256 name_cmp p =
     p\<lparr>pd_policyDigest := Some (productReleasePolicyDigest sha256 name_cmp p),
       pd_definitionDigest := Some (productEvaluationDefinitionDigest sha256 name_cmp p)\<rparr>"

definition apply_product_patch :: "product \<Rightarrow> product_patch \<Rightarrow> product" where
  "apply_product_patch r p =
     r\<lparr>pd_name := or_else (pd_name r) (pw_name p), pd_description := or_else (pd_description r) (pw_description p),
       pd_icon := or_else (pd_icon r) (pw_icon p), pd_services := or_else (pd_services r) (pw_services p),
       pd_series := or_else (pd_series r) (pw_series p), pd_autoEval := or_else (pd_autoEval r) (pw_autoEval p),
       pd_history := or_else (pd_history r) (pw_history p), pd_updatedAt := or_else (pd_updatedAt r) (pw_updatedAt p)\<rparr>"

definition product_peek :: "product_rows \<Rightarrow> string \<Rightarrow> product option" where
  "product_peek rows i = find (\<lambda>p. pd_id p = i) rows"

definition product_get :: "product_rows \<Rightarrow> string \<Rightarrow> string \<Rightarrow> product option" where
  "product_get rows tenant i =
     (case product_peek rows i of None \<Rightarrow> None | Some p \<Rightarrow> if pd_tenant p = tenant then Some p else None)"

text \<open>\<open>Map.set\<close>: a row that is there keeps its place.\<close>

definition product_put :: "product \<Rightarrow> product_rows \<Rightarrow> product_rows" where
  "product_put p rows =
     (if pd_id p \<in> set (map pd_id rows) then map (\<lambda>q. if pd_id q = pd_id p then p else q) rows else rows @ [p])"

definition product_create :: "(string \<Rightarrow> string) \<Rightarrow> string compare \<Rightarrow> product \<Rightarrow> product_rows \<Rightarrow> product_rows" where
  "product_create sha256 name_cmp p rows = product_put (with_digests sha256 name_cmp p) rows"

definition version_of :: "nat option \<Rightarrow> nat" where
  "version_of v = (case v of None \<Rightarrow> 0 | Some n \<Rightarrow> n)"

definition product_write ::
    "(string \<Rightarrow> string) \<Rightarrow> string compare \<Rightarrow> product_rows \<Rightarrow> string \<Rightarrow> string \<Rightarrow> product_patch \<Rightarrow> nat option
       \<Rightarrow> (product \<times> product_rows) option" where
  "product_write sha256 name_cmp rows tenant i patch expectVersion =
     (case product_get rows tenant i of
        None \<Rightarrow> None
      | Some current \<Rightarrow>
          if expectVersion \<noteq> None \<and> Some (version_of (pd_version current)) \<noteq> expectVersion then None
          else (let nxt = with_digests sha256 name_cmp ((apply_product_patch current patch)
                            \<lparr>pd_version := Some (version_of (pd_version current) + 1)\<rparr>)
                in Some (nxt, product_put nxt rows)))"

definition product_remove :: "product_rows \<Rightarrow> string \<Rightarrow> string \<Rightarrow> product_rows" where
  "product_remove rows tenant i =
     (case product_get rows tenant i of None \<Rightarrow> rows | Some p \<Rightarrow> filter (\<lambda>q. pd_id q \<noteq> i) rows)"

text \<open>The service's write: the guard is the version the transition was computed from.\<close>

definition applyTransition ::
    "(string \<Rightarrow> string) \<Rightarrow> string compare \<Rightarrow> product_rows \<Rightarrow> product \<Rightarrow> product_patch
       \<Rightarrow> (product \<times> product_rows) res" where
  "applyTransition sha256 name_cmp rows current patch =
     (case product_write sha256 name_cmp rows (pd_tenant current) (pd_id current) patch
             (Some (version_of (pd_version current))) of
        Some r \<Rightarrow> Inr r
      | None \<Rightarrow>
          (case product_get rows (pd_tenant current) (pd_id current) of
             Some live \<Rightarrow> Inl (Conflict ''CONFLICT'' ''this product was edited while your change was being prepared'')
           | None \<Rightarrow> Inl (NotFound ''NOT_FOUND'' (''product '' @ pd_id current))))"

end
