(* ===== verification/Readiness.thy ===== *)
theory Readiness
  imports SeriesContract Product
begin

text \<open>
  Whether a release may ship: packages/domain/src/product/readiness.ts, second half. The caller hands in what it read (the
  newest and the baseline evaluation of each series, the gate's reading of the pair, the contract each series resolves to);
  a map keyed by series is a partial map. A reason is what its sentence says, not its wording.
\<close>

subsection \<open>What a release watches\<close>

datatype series_selection = Select_all | Select_explicit

record release_scope =
  rs_seriesKeys :: "string list option"
  rs_plannedKeys :: "string list option"
  rs_selection :: "series_selection option"

definition declared_keys :: "product \<Rightarrow> string list" where
  "declared_keys p = map ps_key (pd_series p)"

definition declared_series :: "product \<Rightarrow> string \<Rightarrow> product_series option" where
  "declared_series p = last_by_key ps_key (pd_series p)"

definition missing_keys :: "product \<Rightarrow> string list \<Rightarrow> string list" where
  "missing_keys p keys = filter (\<lambda>k. declared_series p k = None) keys"

definition resolveWatchedSeries :: "product \<Rightarrow> release_scope \<Rightarrow> product_series list \<times> string list" where
  "resolveWatchedSeries p scope =
     (case rs_plannedKeys scope of
        Some promised \<Rightarrow>
          (let keys = (if rs_selection scope = Some Select_explicit then promised
                       else distinct_values (promised @ declared_keys p))
           in (List.map_filter (declared_series p) keys, missing_keys p promised))
      | None \<Rightarrow>
          (case rs_seriesKeys scope of
             None \<Rightarrow> (pd_series p, [])
           | Some keys \<Rightarrow> (filter (\<lambda>s. ps_key s \<in> set keys) (pd_series p), missing_keys p keys)))"

definition watchedSeries :: "product \<Rightarrow> release_scope \<Rightarrow> product_series list" where
  "watchedSeries p scope = fst (resolveWatchedSeries p scope)"

subsection \<open>The evidence handed in\<close>

record series_point =
  po_scorecardId :: string
  po_passRate :: "rat option"
  po_createdAt :: string
  po_serviceVersion :: "string option"
  po_contractDigest :: "string option"
  po_world :: "world_cohort option"
  po_scoring :: "scoring_pin option"

datatype baseline_resolution =
    None_first_ship
  | Baseline_resolved series_point
  | Missing_historical_evidence "scoring_pin option" string
  | Revision_unavailable scoring_pin scoring_pin string

record gate_reading =
  gg_verdict :: gate_verdict
  gg_reasons :: "string list option"
  gg_baselineScoring :: "scoring_pin option"
  gg_candidateScoring :: "scoring_pin option"

datatype series_verdict = Ship_pass | Ship_no_baseline | Ship_bootstrap_required | Ship_block | Ship_blocked_missing
  | Ship_not_comparable | Ship_not_evaluated | Ship_scope_invalid | Ship_contract_stale | Ship_contract_unverifiable

fun of_gate :: "gate_verdict \<Rightarrow> series_verdict" where
  "of_gate Pass = Ship_pass"
| "of_gate Block = Ship_block"
| "of_gate Blocked_missing = Ship_blocked_missing"
| "of_gate Not_comparable = Ship_not_comparable"

datatype compared_side = Newest_side | Baseline_side

datatype series_reason =
    Definition_unresolved string
  | No_succeeded_evaluation
  | Question_unrecorded
  | Question_changed
  | History_lost string
  | Baseline_rescored nat nat
  | First_ship_unapproved
  | Nothing_to_ship_on
  | Gate_not_configured
  | Gate_said string
  | Gate_removed string
  | Side_diverged compared_side nat
  | Side_unvouched compared_side
  | Side_unobserved compared_side
  | Worlds_differ string string

definition inputDivergenceReason :: "compared_side \<Rightarrow> scoring_pin option \<Rightarrow> series_reason list" where
  "inputDivergenceReason side pin =
     (case decisionInputTrustOf pin of
        Diverged \<Rightarrow> [Side_diverged side (diverged_count pin)]
      | Unavailable \<Rightarrow> [Side_unvouched side]
      | Legacy_unverified \<Rightarrow> [Side_unobserved side]
      | Receipt_vouched \<Rightarrow> [])"

subsection \<open>The verdict of a series\<close>

text \<open>Whether the stamp of an evaluation describes the contract the series resolves to today.\<close>

definition stamp_holds ::
    "(string \<Rightarrow> string) \<Rightarrow> string compare \<Rightarrow> series_point \<Rightarrow> string \<Rightarrow> series_contract \<Rightarrow> bool" where
  "stamp_holds sha256 name_cmp latest digest contract =
     (case po_contractDigest latest of
        None \<Rightarrow> False
      | Some stamped \<Rightarrow> stamped = digest
          \<or> seriesContractStampHolds sha256 name_cmp stamped contract = Inr True)"

definition gate_reasons_of :: "gate_reading \<Rightarrow> series_reason list" where
  "gate_reasons_of g = (case gg_reasons g of None \<Rightarrow> [] | Some rs \<Rightarrow> map Gate_said rs)"

definition seriesVerdict ::
    "(string \<Rightarrow> string) \<Rightarrow> string compare \<Rightarrow> series_point option \<Rightarrow> baseline_resolution \<Rightarrow> gate_reading option
       \<Rightarrow> bool \<Rightarrow> contract_resolution \<Rightarrow> series_verdict \<times> series_reason list" where
  "seriesVerdict sha256 name_cmp latest baseline gate allowNoBaseline contract =
     (case contract of
        Contract_unresolvable why \<Rightarrow> (Ship_contract_unverifiable, [Definition_unresolved why])
      | _ \<Rightarrow>
          (case latest of
             None \<Rightarrow> (Ship_not_evaluated, [No_succeeded_evaluation])
           | Some l \<Rightarrow>
               if (case contract of Contract_resolved d c docs \<Rightarrow> \<not> stamp_holds sha256 name_cmp l d c | _ \<Rightarrow> False)
               then (Ship_contract_stale,
                     [if po_contractDigest l = None then Question_unrecorded else Question_changed])
               else
                 (case baseline of
                    Missing_historical_evidence pin i \<Rightarrow> (Ship_not_comparable, [History_lost i])
                  | Revision_unavailable pin cur i \<Rightarrow>
                      (Ship_not_comparable, [Baseline_rescored (sp_revision pin) (sp_revision cur)])
                  | None_first_ship \<Rightarrow>
                      if \<not> allowNoBaseline then (Ship_bootstrap_required, [First_ship_unapproved])
                      else if po_passRate l = None then (Ship_bootstrap_required, [Nothing_to_ship_on])
                      else (Ship_no_baseline, [])
                  | Baseline_resolved b \<Rightarrow>
                      (case gate of
                         None \<Rightarrow> (Ship_not_comparable, [Gate_not_configured])
                       | Some g \<Rightarrow> (of_gate (gg_verdict g), gate_reasons_of g)))))"

subsection \<open>Readiness\<close>

record point_evidence =
  qe_scorecardId :: string
  qe_passRate :: "rat option"
  qe_createdAt :: string
  qe_serviceVersion :: "string option"
  qe_scoring :: "scoring_pin option"

record series_state =
  ss_key :: string
  ss_label :: string
  ss_latest :: "point_evidence option"
  ss_baseline :: "point_evidence option"
  ss_verdict :: series_verdict
  ss_required :: bool
  ss_reasons :: "series_reason list"
  ss_crossWorld :: "(string \<times> string) option"
  ss_regressed :: bool

record readiness =
  rd_openIssues :: nat
  rd_series :: "series_state list"
  rd_regressed :: "string list"
  rd_ready :: bool

text \<open>Everything the caller read for one decision.\<close>

record ship_evidence =
  sx_latest :: "string \<Rightarrow> series_point option"
  sx_baseline :: "string \<Rightarrow> baseline_resolution option"
  sx_gate :: "string \<Rightarrow> gate_reading option"
  sx_contract :: "string \<Rightarrow> contract_resolution option"

definition missing_state :: "string \<Rightarrow> series_state" where
  "missing_state key = \<lparr>ss_key = key, ss_label = key, ss_latest = None, ss_baseline = None,
     ss_verdict = Ship_scope_invalid, ss_required = True, ss_reasons = [Gate_removed key], ss_crossWorld = None,
     ss_regressed = True\<rparr>"

definition baseline_of :: "ship_evidence \<Rightarrow> string \<Rightarrow> baseline_resolution" where
  "baseline_of ev k = (case sx_baseline ev k of None \<Rightarrow> None_first_ship | Some b \<Rightarrow> b)"

definition baseline_point :: "baseline_resolution \<Rightarrow> series_point option" where
  "baseline_point b = (case b of Baseline_resolved p \<Rightarrow> Some p | _ \<Rightarrow> None)"

definition contract_of :: "ship_evidence \<Rightarrow> string \<Rightarrow> contract_resolution" where
  "contract_of ev k = (case sx_contract ev k of None \<Rightarrow> Contract_unknown | Some c \<Rightarrow> c)"

definition coalesce :: "'a option \<Rightarrow> 'a option \<Rightarrow> 'a option" where
  "coalesce a b = (case a of None \<Rightarrow> b | Some x \<Rightarrow> Some x)"

text \<open>The pins the decision stands on: the gate's own where it read them, the evaluation's otherwise.\<close>

definition candidate_scoring :: "ship_evidence \<Rightarrow> string \<Rightarrow> scoring_pin option" where
  "candidate_scoring ev k =
     coalesce (case sx_gate ev k of None \<Rightarrow> None | Some g \<Rightarrow> gg_candidateScoring g)
             (case sx_latest ev k of None \<Rightarrow> None | Some l \<Rightarrow> po_scoring l)"

definition baseline_scoring :: "ship_evidence \<Rightarrow> string \<Rightarrow> scoring_pin option" where
  "baseline_scoring ev k =
     coalesce (case sx_gate ev k of None \<Rightarrow> None | Some g \<Rightarrow> gg_baselineScoring g)
             (case baseline_point (baseline_of ev k) of None \<Rightarrow> None | Some b \<Rightarrow> po_scoring b)"

definition divergence_of :: "ship_evidence \<Rightarrow> string \<Rightarrow> series_reason list" where
  "divergence_of ev k =
     (if sx_latest ev k \<noteq> None then inputDivergenceReason Newest_side (candidate_scoring ev k) else [])
     @ (if baseline_point (baseline_of ev k) \<noteq> None
        then inputDivergenceReason Baseline_side (baseline_scoring ev k) else [])"

definition vouches :: "series_verdict \<Rightarrow> bool" where
  "vouches v \<longleftrightarrow> v = Ship_pass \<or> v = Ship_no_baseline"

definition base_verdict ::
    "(string \<Rightarrow> string) \<Rightarrow> string compare \<Rightarrow> ship_evidence \<Rightarrow> product_series \<Rightarrow> series_verdict \<times> series_reason list" where
  "base_verdict sha256 name_cmp ev s =
     seriesVerdict sha256 name_cmp (sx_latest ev (ps_key s)) (baseline_of ev (ps_key s)) (sx_gate ev (ps_key s))
       (preapproved s) (contract_of ev (ps_key s))"

definition final_verdict ::
    "(string \<Rightarrow> string) \<Rightarrow> string compare \<Rightarrow> ship_evidence \<Rightarrow> product_series \<Rightarrow> series_verdict" where
  "final_verdict sha256 name_cmp ev s =
     (let v = fst (base_verdict sha256 name_cmp ev s)
      in if divergence_of ev (ps_key s) \<noteq> [] \<and> vouches v then Ship_not_comparable else v)"

definition series_state_of ::
    "(string \<Rightarrow> string) \<Rightarrow> string compare \<Rightarrow> ship_evidence \<Rightarrow> product_series \<Rightarrow> series_state" where
  "series_state_of sha256 name_cmp ev s =
     (let k = ps_key s; latest = sx_latest ev k; baseline = baseline_point (baseline_of ev k);
          why = snd (base_verdict sha256 name_cmp ev s); divergence = divergence_of ev k;
          verdict = final_verdict sha256 name_cmp ev s;
          crossWorld = crossWorldReason sha256 (case baseline of None \<Rightarrow> None | Some b \<Rightarrow> po_world b)
                         (case latest of None \<Rightarrow> None | Some l \<Rightarrow> po_world l);
          world = (case crossWorld of None \<Rightarrow> [] | Some (b, c) \<Rightarrow> [Worlds_differ b c])
      in \<lparr>ss_key = k, ss_label = ps_label s,
          ss_latest = map_option (\<lambda>l. \<lparr>qe_scorecardId = po_scorecardId l, qe_passRate = po_passRate l,
            qe_createdAt = po_createdAt l, qe_serviceVersion = po_serviceVersion l,
            qe_scoring = candidate_scoring ev k\<rparr>) latest,
          ss_baseline = map_option (\<lambda>b. \<lparr>qe_scorecardId = po_scorecardId b, qe_passRate = po_passRate b,
            qe_createdAt = po_createdAt b, qe_serviceVersion = None, qe_scoring = baseline_scoring ev k\<rparr>) baseline,
          ss_verdict = verdict, ss_required = gates s,
          ss_reasons = (if verdict = Ship_not_comparable \<and> divergence \<noteq> [] then divergence @ why @ world
                        else why @ divergence @ world),
          ss_crossWorld = crossWorld, ss_regressed = (gates s \<and> \<not> vouches verdict)\<rparr>)"

definition releaseReadiness ::
    "(string \<Rightarrow> string) \<Rightarrow> string compare \<Rightarrow> release_scope \<Rightarrow> product \<Rightarrow> ship_evidence \<Rightarrow> nat \<Rightarrow> readiness" where
  "releaseReadiness sha256 name_cmp scope p ev openIssues =
     (let series = map missing_state (snd (resolveWatchedSeries p scope))
            @ map (series_state_of sha256 name_cmp ev) (fst (resolveWatchedSeries p scope));
          regressed = map ss_key (filter ss_regressed series)
      in \<lparr>rd_openIssues = openIssues, rd_series = series, rd_regressed = regressed,
          rd_ready = (openIssues = 0 \<and> regressed = [])\<rparr>)"

subsection \<open>The policy a decision stands on\<close>

record policy_series =
  py_key :: string
  py_required :: bool
  py_allowNoBaseline :: bool

definition releasePolicyDocument :: "string compare \<Rightarrow> product \<Rightarrow> release_scope \<Rightarrow> policy_series list" where
  "releasePolicyDocument name_cmp p scope =
     sort_by (\<lambda>a b. name_cmp (py_key a) (py_key b))
       (map (\<lambda>s. \<lparr>py_key = ps_key s, py_required = gates s, py_allowNoBaseline = preapproved s\<rparr>)
          (watchedSeries p scope))"

definition policy_series_json :: "policy_series \<Rightarrow> json" where
  "policy_series_json s = JObj [(''key'', JStr (py_key s)), (''required'', JBool (py_required s)),
     (''allowNoBaseline'', JBool (py_allowNoBaseline s))]"

definition productPolicyDigest :: "(string \<Rightarrow> string) \<Rightarrow> string compare \<Rightarrow> product \<Rightarrow> release_scope \<Rightarrow> string" where
  "productPolicyDigest sha256 name_cmp p scope =
     digest_of sha256 (JArr (map policy_series_json (releasePolicyDocument name_cmp p scope)))"

end
