(* ===== verification/Release.thy ===== *)
theory Release
  imports Readiness
begin

text \<open>
  The release aggregate: packages/domain/src/product/release.ts. A transition is a patch and the facts that announce it.
  The detail of a history entry is typed: what an edit changed, or the decision a status change recorded.
\<close>

subsection \<open>Records\<close>

datatype release_status = Rel_planned | Rel_released | Rel_cancelled

record release_component =
  co_service :: string
  co_version :: "string option"
  co_recordId :: "string option"

datatype component_resolution = Res_ledger | Res_inferred | Res_unresolved | Res_unplanned | Res_ambiguous
  | Res_conflicting | Res_unavailable

text \<open>A component as the ship froze it; without a reader of the ledger it has no resolution.\<close>

record shipped_component =
  sk_service :: string
  sk_version :: "string option"
  sk_recordId :: "string option"
  sk_streamKey :: "string option"
  sk_resolution :: "component_resolution option"

type_synonym evidence_ref = "string \<times> scoring_pin option"

record series_decision =
  dn_key :: string
  dn_verdict :: series_verdict
  dn_required :: bool
  dn_reasons :: "series_reason list"
  dn_baseline :: "evidence_ref option"
  dn_candidate :: "evidence_ref option"
  dn_contract :: "(string \<times> series_contract) option"

record status_detail =
  st_from :: release_status
  st_to :: release_status
  st_openIssues :: nat
  st_regressed :: "string list"
  st_decisions :: "series_decision list"
  st_policy :: "policy_series list"
  st_policyDigest :: "string option"
  st_components :: "shipped_component list option"
  st_onTime :: "bool option"
  st_forced :: bool
  st_contextDigest :: "string option"

datatype release_detail = Created_with "string option" | Changed_fields "string list" | Status_decided status_detail

datatype release_event = Rel_created | Rel_updated | Rel_shipped | Rel_called_off | Rel_status_changed

record release_entry =
  rh_at :: string
  rh_by :: string
  rh_event :: release_event
  rh_detail :: release_detail

record release =
  rl_version :: "nat option"
  rl_id :: string
  rl_tenant :: string
  rl_productId :: string
  rl_name :: string
  rl_description :: "string option"
  rl_status :: release_status
  rl_targetDate :: "string option"
  rl_releasedAt :: "string option"
  rl_seriesKeys :: "string list option"
  rl_plannedKeys :: "string list option"
  rl_selection :: "series_selection option"
  rl_components :: "release_component list option"
  rl_history :: "release_entry list"
  rl_createdBy :: string
  rl_createdAt :: string
  rl_updatedAt :: string

definition scope_of :: "release \<Rightarrow> release_scope" where
  "scope_of r = \<lparr>rs_seriesKeys = rl_seriesKeys r, rs_plannedKeys = rl_plannedKeys r, rs_selection = rl_selection r\<rparr>"

text \<open>\<open>appendHistory\<close> on these entries.\<close>

definition append_entry :: "release_entry list \<Rightarrow> release_entry \<Rightarrow> release_entry list" where
  "append_entry history e =
     (let nxt = history @ [e]
      in if TRACKER_HISTORY_LIMIT < length nxt then drop (length nxt - TRACKER_HISTORY_LIMIT) nxt else nxt)"

record release_patch =
  rw_name :: "string option"
  rw_description :: "string option option"
  rw_targetDate :: "string option option"
  rw_status :: "release_status option"
  rw_releasedAt :: "string option option"
  rw_seriesKeys :: "string list option option"
  rw_selection :: "series_selection option"
  rw_plannedKeys :: "string list option"
  rw_components :: "release_component list option option"
  rw_history :: "release_entry list option"
  rw_updatedAt :: "string option"

record status_fact =
  sf_release :: string
  sf_actor :: string
  sf_from :: release_status
  sf_to :: release_status
  sf_openIssues :: nat
  sf_regressed :: "string list"
  sf_onTime :: "bool option"
  sf_forced :: bool

subsection \<open>What a release may name\<close>

definition assertSeriesSelection :: "string list \<Rightarrow> string list \<Rightarrow> unit res" where
  "assertSeriesSelection keys productSeriesKeys =
     (case find (\<lambda>k. k \<notin> set productSeriesKeys) keys of
        Some k \<Rightarrow> Inl (BadRequest ''BAD_REQUEST'' (''The product declares no series '' @ k))
      | None \<Rightarrow> Inr ())"

fun component_walk :: "string set \<Rightarrow> string list option \<Rightarrow> release_component list \<Rightarrow> unit res" where
  "component_walk seen names [] = Inr ()"
| "component_walk seen names (c # cs) =
     (if co_service c \<in> seen
      then Inl (BadRequest ''BAD_REQUEST'' (''This release names twice '' @ co_service c))
      else if (case names of None \<Rightarrow> False | Some ns \<Rightarrow> co_service c \<notin> set ns)
      then Inl (BadRequest ''BAD_REQUEST'' (''The product tracks no service '' @ co_service c))
      else component_walk (insert (co_service c) seen) names cs)"

definition assertComponents :: "release_component list \<Rightarrow> string list option \<Rightarrow> unit res" where
  "assertComponents components productServiceNames = component_walk {} productServiceNames components"

definition checked :: "('a \<Rightarrow> unit res) \<Rightarrow> 'a option \<Rightarrow> unit res" where
  "checked f v = (case v of None \<Rightarrow> Inr () | Some x \<Rightarrow> f x)"

definition releasedOnTime :: "string option \<Rightarrow> string \<Rightarrow> bool option" where
  "releasedOnTime targetDate now = map_option (\<lambda>d. take 10 now \<le> d) targetDate"

subsection \<open>Creation\<close>

record new_release =
  nr_id :: string
  nr_tenant :: string
  nr_productId :: string
  nr_name :: string
  nr_description :: "string option"
  nr_targetDate :: "string option"
  nr_seriesKeys :: "string list option"
  nr_components :: "release_component list option"
  nr_productSeriesKeys :: "string list"
  nr_productServiceNames :: "string list option"
  nr_createdBy :: string
  nr_now :: string

definition newRelease :: "new_release \<Rightarrow> release res" where
  "newRelease i =
     bind_res (checked (\<lambda>ks. assertSeriesSelection ks (nr_productSeriesKeys i)) (nr_seriesKeys i)) (\<lambda>_.
     bind_res (checked (\<lambda>cs. assertComponents cs (nr_productServiceNames i)) (nr_components i)) (\<lambda>_.
       Inr \<lparr>rl_version = None, rl_id = nr_id i, rl_tenant = nr_tenant i, rl_productId = nr_productId i,
         rl_name = nr_name i, rl_description = nr_description i, rl_status = Rel_planned,
         rl_targetDate = nr_targetDate i, rl_releasedAt = None, rl_seriesKeys = nr_seriesKeys i,
         rl_plannedKeys = Some (or_else (nr_productSeriesKeys i) (nr_seriesKeys i)),
         rl_selection = Some (if nr_seriesKeys i \<noteq> None then Select_explicit else Select_all),
         rl_components = nr_components i,
         rl_history = [\<lparr>rh_at = nr_now i, rh_by = nr_createdBy i, rh_event = Rel_created,
                        rh_detail = Created_with (nr_targetDate i)\<rparr>],
         rl_createdBy = nr_createdBy i, rl_createdAt = nr_now i, rl_updatedAt = nr_now i\<rparr>))"

subsection \<open>Edits\<close>

definition isHistory :: "release \<Rightarrow> bool" where
  "isHistory r \<longleftrightarrow> rl_status r = Rel_released"

definition assertMutable :: "release \<Rightarrow> string \<Rightarrow> unit res" where
  "assertMutable r action =
     (if isHistory r then Inl (Conflict ''CONFLICT'' (''A released release is history, it can neither be '' @ action))
      else Inr ())"

definition assertRemovable :: "release \<Rightarrow> unit res" where
  "assertRemovable r = assertMutable r ''deleted''"

record release_edit =
  re_name :: "string option"
  re_description :: "string option option"
  re_targetDate :: "string option option"
  re_seriesKeys :: "string list option option"
  re_components :: "release_component list option option"

text \<open>The comparison of two selections the code makes: the joined texts, an absent one read as empty.\<close>

definition selection_text :: "string list option \<Rightarrow> string" where
  "selection_text ks = join_with (CHR 0x00) (or_else [] ks)"

definition release_update ::
    "release \<Rightarrow> release_edit \<Rightarrow> string \<Rightarrow> string \<Rightarrow> string list \<Rightarrow> string list option \<Rightarrow> release_patch res" where
  "release_update r f who now productSeriesKeys productServiceNames =
     bind_res (assertMutable r ''edited'') (\<lambda>_.
     bind_res (checked (checked (\<lambda>ks. assertSeriesSelection ks productSeriesKeys)) (re_seriesKeys f)) (\<lambda>_.
     bind_res (checked (checked (\<lambda>cs. assertComponents cs productServiceNames)) (re_components f)) (\<lambda>_.
       let name = if_moved (rl_name r) (re_name f);
           description = if_moved (rl_description r) (re_description f);
           targetDate = if_moved (rl_targetDate r) (re_targetDate f);
           seriesKeys = (case re_seriesKeys f of
                           Some nxt \<Rightarrow> if selection_text nxt \<noteq> selection_text (rl_seriesKeys r) then Some nxt else None
                         | None \<Rightarrow> None);
           components = if_moved (rl_components r) (re_components f);
           changed = moved ''name'' name @ moved ''description'' description @ moved ''targetDate'' targetDate
             @ moved ''seriesKeys'' seriesKeys @ moved ''components'' components
       in if changed = [] then Inl (BadRequest ''BAD_REQUEST'' ''Nothing to update.'')
          else Inr \<lparr>rw_name = name, rw_description = description, rw_targetDate = targetDate, rw_status = None,
                 rw_releasedAt = None, rw_seriesKeys = seriesKeys,
                 rw_selection = map_option (\<lambda>nxt. if nxt \<noteq> None then Select_explicit else Select_all) seriesKeys,
                 rw_plannedKeys = map_option (or_else productSeriesKeys) seriesKeys,
                 rw_components = components,
                 rw_history = Some (append_entry (rl_history r) \<lparr>rh_at = now, rh_by = who, rh_event = Rel_updated,
                    rh_detail = Changed_fields changed\<rparr>),
                 rw_updatedAt = Some now\<rparr>)))"

subsection \<open>The release gate\<close>

record status_change =
  sg_to :: release_status
  sg_openIssues :: nat
  sg_regressed :: "string list"
  sg_shipped :: "shipped_component list option"
  sg_decisions :: "series_decision list"
  sg_policy :: "policy_series list"
  sg_policyDigest :: "string option"
  sg_force :: "bool option"

definition blocked_change :: "status_change \<Rightarrow> bool" where
  "blocked_change i \<longleftrightarrow> 0 < sg_openIssues i \<or> sg_regressed i \<noteq> []"

definition planned_as_shipped :: "release_component \<Rightarrow> shipped_component" where
  "planned_as_shipped c = \<lparr>sk_service = co_service c, sk_version = co_version c, sk_recordId = co_recordId c,
     sk_streamKey = None, sk_resolution = None\<rparr>"

definition frozen_components :: "release \<Rightarrow> status_change \<Rightarrow> shipped_component list option" where
  "frozen_components r i =
     (if sg_to i = Rel_released \<and> (or_else [] (sg_shipped i) \<noteq> [] \<or> or_else [] (rl_components r) \<noteq> [])
      then Some (case sg_shipped i of Some cs \<Rightarrow> cs | None \<Rightarrow> map planned_as_shipped (or_else [] (rl_components r)))
      else None)"

definition change_detail :: "release \<Rightarrow> status_change \<Rightarrow> string \<Rightarrow> status_detail" where
  "change_detail r i now =
     (let ships = (sg_to i = Rel_released) in
      \<lparr>st_from = rl_status r, st_to = sg_to i, st_openIssues = sg_openIssues i, st_regressed = sg_regressed i,
       st_decisions = (if ships then sg_decisions i else []), st_policy = (if ships then sg_policy i else []),
       st_policyDigest = (if ships then sg_policyDigest i else None), st_components = frozen_components r i,
       st_onTime = (if ships then releasedOnTime (rl_targetDate r) now else None),
       st_forced = (ships \<and> blocked_change i), st_contextDigest = None\<rparr>)"

definition change_event :: "release_status \<Rightarrow> release_event" where
  "change_event s =
     (case s of Rel_released \<Rightarrow> Rel_shipped | Rel_cancelled \<Rightarrow> Rel_called_off | Rel_planned \<Rightarrow> Rel_status_changed)"

definition change_fact :: "release \<Rightarrow> status_detail \<Rightarrow> string \<Rightarrow> status_fact" where
  "change_fact r d who = \<lparr>sf_release = rl_id r, sf_actor = who, sf_from = st_from d, sf_to = st_to d,
     sf_openIssues = st_openIssues d, sf_regressed = st_regressed d, sf_onTime = st_onTime d, sf_forced = st_forced d\<rparr>"

definition status_patch :: "release \<Rightarrow> status_detail \<Rightarrow> string \<Rightarrow> string \<Rightarrow> release_patch" where
  "status_patch r d who now =
     \<lparr>rw_name = None, rw_description = None, rw_targetDate = None, rw_status = Some (st_to d),
      rw_releasedAt = Some (if st_to d = Rel_released then Some now else None), rw_seriesKeys = None,
      rw_selection = None, rw_plannedKeys = None, rw_components = None,
      rw_history = Some (append_entry (rl_history r) \<lparr>rh_at = now, rh_by = who, rh_event = change_event (st_to d),
         rh_detail = Status_decided d\<rparr>),
      rw_updatedAt = Some now\<rparr>"

definition release_setStatus ::
    "release \<Rightarrow> status_change \<Rightarrow> string \<Rightarrow> string \<Rightarrow> (release_patch \<times> status_fact list) res" where
  "release_setStatus r i who now =
     (if sg_to i = rl_status r then Inl (Conflict ''CONFLICT'' ''Release is already there.'')
      else if rl_status r = Rel_released
      then Inl (Conflict ''CONFLICT'' ''A released release is history, plan a new one instead of reopening it.'')
      else if sg_to i = Rel_released \<and> blocked_change i \<and> sg_force i \<noteq> Some True
      then Inl (Conflict ''CONFLICT'' ''Not ready to release'')
      else (let d = change_detail r i now in Inr (status_patch r d who now, [change_fact r d who])))"

subsection \<open>A patch applied\<close>

definition apply_release_patch :: "release \<Rightarrow> release_patch \<Rightarrow> release" where
  "apply_release_patch r p =
     r\<lparr>rl_name := or_else (rl_name r) (rw_name p), rl_description := or_else (rl_description r) (rw_description p),
       rl_targetDate := or_else (rl_targetDate r) (rw_targetDate p), rl_status := or_else (rl_status r) (rw_status p),
       rl_releasedAt := or_else (rl_releasedAt r) (rw_releasedAt p),
       rl_seriesKeys := or_else (rl_seriesKeys r) (rw_seriesKeys p),
       rl_selection := (case rw_selection p of None \<Rightarrow> rl_selection r | Some s \<Rightarrow> Some s),
       rl_plannedKeys := (case rw_plannedKeys p of None \<Rightarrow> rl_plannedKeys r | Some ks \<Rightarrow> Some ks),
       rl_components := or_else (rl_components r) (rw_components p),
       rl_history := or_else (rl_history r) (rw_history p), rl_updatedAt := or_else (rl_updatedAt r) (rw_updatedAt p)\<rparr>"

end
