(* ===== verification/Shipping.thy ===== *)
theory Shipping
  imports Release
begin

text \<open>
  How a release is shipped: the release operations of packages/application-control/src/product/product-service.ts over the
  in-memory release store (packages/db/src/product/release-store.ts) and the gate composed in apps/api/src/main.ts.

  A service call awaits between its reads and its write, so each is modelled as the phases it really has: a decision over
  the world it read, a second reading of the contracts, and a guarded write over the rows as they are by then. The world is
  what the calls read: rows, the issue counts, the succeeded evaluations of each series, the gate, the resolver of contracts
  and the version ledger (\<open>None\<close>: not wired, or could not be read). The capability generations and the settings revision are an
  optional dependency that is not wired in this composition; ReleasePg has them.
\<close>

subsection \<open>The world a call reads\<close>

record ledger_row =
  lr_id :: string
  lr_version :: string
  lr_streamKey :: "string option"

record ship_world =
  sw_releases :: "release list"
  sw_products :: "product list"
  sw_openIssues :: "string \<Rightarrow> nat"
  sw_scorecards :: "(string \<Rightarrow> string \<Rightarrow> series_point list) option"
  sw_gate :: "(string \<Rightarrow> string \<Rightarrow> gate_reading res) option"
  sw_resolver :: "(product_series \<Rightarrow> contract_resolution res) option"
  sw_ledger :: "string \<Rightarrow> string \<Rightarrow> ledger_row list option"

fun error_text :: "app_error \<Rightarrow> string" where
  "error_text (PaymentRequired c m) = m"
| "error_text (NotFound c m) = m"
| "error_text (Conflict c m) = m"
| "error_text (BadRequest c m) = m"
| "error_text (RateLimit c m) = m"
| "error_text (Forbidden c m) = m"
| "error_text (Internal c m) = m"

subsection \<open>The gate of a series\<close>

text \<open>The policy of the release lane: no regression, and no waiver.\<close>

definition SHIP_POLICY :: gate_policy where
  "SHIP_POLICY = \<lparr>kn_comparability = None, kn_maxMissingCases = None, kn_maxMissingFraction = None,
     kn_maxMetricLossFraction = None, kn_allowMetricKindChange = None, kn_allowConfounds = None,
     kn_allowUnverifiedIdentity = None, kn_allowUnverifiedInput = None, kn_allowUnrecordedJudgments = None,
     kn_maxUnmeasuredFraction = None, kn_zThreshold = None, kn_minDelta = None, kn_fdrAlpha = None,
     gp_maxRegressions = 0\<rparr>"

definition gate_reading_of :: "(gate_reason \<Rightarrow> string) \<Rightarrow> gate_evaluation \<Rightarrow> pin_pair \<Rightarrow> gate_reading" where
  "gate_reading_of say e pins =
     \<lparr>gg_verdict = ge_decision e,
      gg_reasons = (if ge_reasons e = [] then None else Some (map say (ge_reasons e))),
      gg_baselineScoring = pp_baseline pins, gg_candidateScoring = pp_candidate pins\<rparr>"

definition release_series_gate ::
    "(gate_reason \<Rightarrow> string) \<Rightarrow> (string \<Rightarrow> string \<Rightarrow> pin_pair res) \<Rightarrow> (string \<Rightarrow> string \<Rightarrow> (gate_input \<times> pin_pair) res)
       \<Rightarrow> string \<Rightarrow> string \<Rightarrow> gate_reading res" where
  "release_series_gate say comparisonPins diffSnapshot b c =
     bind_res (comparisonPins b c) (\<lambda>pins.
       (case refuseGateForInputTrust pins SHIP_POLICY of
          Some refused \<Rightarrow> Inr (gate_reading_of say refused pins)
        | None \<Rightarrow> bind_res (diffSnapshot b c) (\<lambda>(input, read).
            Inr (gate_reading_of say (evaluateGate input SHIP_POLICY) read))))"

subsection \<open>The anchor of a comparison\<close>

definition released_of :: "release list \<Rightarrow> string \<Rightarrow> string \<Rightarrow> release list" where
  "released_of rows tenant productId =
     filter (\<lambda>r. rl_tenant r = tenant \<and> rl_productId r = productId \<and> rl_status r = Rel_released) rows"

definition earlier_ships :: "release list \<Rightarrow> release \<Rightarrow> string \<Rightarrow> release list" where
  "earlier_ships rows r now =
     filter (\<lambda>q. rl_id q \<noteq> rl_id r
               \<and> (case rl_releasedAt q of None \<Rightarrow> False | Some t \<Rightarrow> t \<le> or_else now (rl_releasedAt r)))
       (released_of rows (rl_tenant r) (rl_productId r))"

definition previousShip :: "string compare \<Rightarrow> release list \<Rightarrow> release \<Rightarrow> string \<Rightarrow> release option" where
  "previousShip name_cmp rows r now =
     (let newest_first = sort_by (\<lambda>a b. name_cmp (rl_createdAt b) (rl_createdAt a)) (earlier_ships rows r now);
          ships = sort_by (\<lambda>a b. name_cmp (or_else [] (rl_releasedAt a)) (or_else [] (rl_releasedAt b))) newest_first
      in if ships = [] then None else Some (last ships))"

fun decisions_in :: "release_detail \<Rightarrow> series_decision list" where
  "decisions_in (Status_decided d) = st_decisions d"
| "decisions_in (Created_with t) = []"
| "decisions_in (Changed_fields fs) = []"

definition shipped_entry :: "release \<Rightarrow> release_entry option" where
  "shipped_entry r =
     (let es = filter (\<lambda>e. rh_event e = Rel_shipped) (rl_history r) in if es = [] then None else Some (last es))"

definition baselineFromDecision :: "release option \<Rightarrow> string \<Rightarrow> evidence_ref option" where
  "baselineFromDecision previous key =
     (case previous of None \<Rightarrow> None
      | Some r \<Rightarrow>
          (case shipped_entry r of None \<Rightarrow> None
           | Some e \<Rightarrow>
               (case find (\<lambda>d. dn_key d = key) (decisions_in (rh_detail e)) of
                  None \<Rightarrow> None | Some d \<Rightarrow> dn_candidate d)))"

subsection \<open>The evidence of a series\<close>

definition newest_first :: "string compare \<Rightarrow> series_point list \<Rightarrow> series_point list" where
  "newest_first name_cmp rows =
     sort_by (\<lambda>a b. let c = name_cmp (po_createdAt b) (po_createdAt a)
                     in if c \<noteq> 0 then c else name_cmp (po_scorecardId b) (po_scorecardId a)) rows"

definition head_of :: "'a list \<Rightarrow> 'a option" where
  "head_of xs = (case xs of [] \<Rightarrow> None | x # _ \<Rightarrow> Some x)"

text \<open>Whether the scorecard the last ship pinned was scored anew since.\<close>

definition rescored_since :: "scoring_pin option \<Rightarrow> series_point \<Rightarrow> bool" where
  "rescored_since pin row =
     (case (pin, po_scoring row) of
        (Some p, Some live) \<Rightarrow> sp_planeDigest live \<noteq> sp_planeDigest p
      | _ \<Rightarrow> False)"

definition resolve_row :: "scoring_pin option \<Rightarrow> series_point \<Rightarrow> baseline_resolution" where
  "resolve_row pin row =
     (case (pin, po_scoring row) of
        (Some p, Some live) \<Rightarrow>
          (if rescored_since pin row then Revision_unavailable p live (po_scorecardId row)
           else Baseline_resolved (row\<lparr>po_scoring := Some p\<rparr>))
      | (Some p, None) \<Rightarrow> Baseline_resolved (row\<lparr>po_scoring := Some p\<rparr>)
      | (None, _) \<Rightarrow> Baseline_resolved row)"

definition baseline_for ::
    "series_point list \<Rightarrow> evidence_ref option \<Rightarrow> string option \<Rightarrow> baseline_resolution option" where
  "baseline_for rows pinned anchor =
     (case pinned of
        Some (i, pin) \<Rightarrow>
          (case find (\<lambda>r. po_scorecardId r = i) rows of
             None \<Rightarrow> Some (Missing_historical_evidence pin i)
           | Some row \<Rightarrow> Some (resolve_row pin row))
      | None \<Rightarrow>
          (case anchor of None \<Rightarrow> None
           | Some t \<Rightarrow> map_option (resolve_row None) (find (\<lambda>r. po_createdAt r \<le> t) rows)))"

definition gate_for ::
    "(string \<Rightarrow> string \<Rightarrow> gate_reading res) option \<Rightarrow> baseline_resolution option \<Rightarrow> series_point option
       \<Rightarrow> gate_reading option" where
  "gate_for gate baseline latest =
     (case (gate, baseline, latest) of
        (Some g, Some (Baseline_resolved b), Some l) \<Rightarrow>
          (case g (po_scorecardId b) (po_scorecardId l) of
             Inr reading \<Rightarrow> Some reading
           | Inl e \<Rightarrow> Some \<lparr>gg_verdict = Not_comparable, gg_reasons = Some [error_text e],
                            gg_baselineScoring = None, gg_candidateScoring = None\<rparr>)
      | _ \<Rightarrow> None)"

definition resolveContracts ::
    "(product_series \<Rightarrow> contract_resolution res) option \<Rightarrow> product_series list \<Rightarrow> string \<Rightarrow> contract_resolution option" where
  "resolveContracts resolver watched key =
     (case resolver of None \<Rightarrow> None
      | Some resolve \<Rightarrow>
          (case last_by_key ps_key watched key of None \<Rightarrow> None
           | Some s \<Rightarrow>
               Some (case resolve s of Inr c \<Rightarrow> c | Inl e \<Rightarrow> Contract_unresolvable (error_text e))))"

definition ship_evidence_of ::
    "string compare \<Rightarrow> ship_world \<Rightarrow> product \<Rightarrow> product_series list \<Rightarrow> release option
       \<Rightarrow> (string \<Rightarrow> contract_resolution option) \<Rightarrow> ship_evidence" where
  "ship_evidence_of name_cmp w p watched previous contracts =
     (let anchor = (case previous of None \<Rightarrow> None | Some q \<Rightarrow> rl_releasedAt q);
          rows = (\<lambda>k. case sw_scorecards w of
                    None \<Rightarrow> []
                  | Some rows_of \<Rightarrow> if k \<in> set (map ps_key watched) then newest_first name_cmp (rows_of (pd_id p) k) else []);
          latest = (\<lambda>k. head_of (rows k));
          baseline = (\<lambda>k. if sw_scorecards w = None \<or> k \<notin> set (map ps_key watched) then None
                           else baseline_for (rows k) (baselineFromDecision previous k) anchor)
      in \<lparr>sx_latest = latest, sx_baseline = baseline,
          sx_gate = (\<lambda>k. gate_for (sw_gate w) (baseline k) (latest k)), sx_contract = contracts\<rparr>)"

definition readinessUnder ::
    "(string \<Rightarrow> string) \<Rightarrow> string compare \<Rightarrow> ship_world \<Rightarrow> release \<Rightarrow> product \<Rightarrow> string
       \<Rightarrow> (string \<Rightarrow> contract_resolution option) \<Rightarrow> readiness" where
  "readinessUnder sha256 name_cmp w r p now contracts =
     releaseReadiness sha256 name_cmp (scope_of r) p
       (ship_evidence_of name_cmp w p (watchedSeries p (scope_of r)) (previousShip name_cmp (sw_releases w) r now)
          contracts)
       (sw_openIssues w (rl_id r))"

subsection \<open>What went out\<close>

definition shipped_as :: "release_component \<Rightarrow> ledger_row option \<Rightarrow> component_resolution \<Rightarrow> shipped_component" where
  "shipped_as c row how = \<lparr>sk_service = co_service c, sk_version = co_version c, sk_recordId = map_option lr_id row,
     sk_streamKey = (case row of None \<Rightarrow> None | Some x \<Rightarrow> lr_streamKey x), sk_resolution = Some how\<rparr>"

definition resolve_component :: "ledger_row list option \<Rightarrow> release_component \<Rightarrow> shipped_component" where
  "resolve_component ledger c =
     (case co_version c of
        None \<Rightarrow> shipped_as c None Res_unplanned
      | Some v \<Rightarrow>
          (case ledger of
             None \<Rightarrow> shipped_as c None Res_unavailable
           | Some rows \<Rightarrow>
               (case co_recordId c of
                  Some pinned \<Rightarrow>
                    (case find (\<lambda>x. lr_id x = pinned) rows of
                       None \<Rightarrow> shipped_as c None Res_unresolved
                     | Some row \<Rightarrow> if lr_version row \<noteq> v then shipped_as c None Res_conflicting
                                    else shipped_as c (Some row) Res_ledger)
                | None \<Rightarrow>
                    (case filter (\<lambda>x. lr_version x = v) rows of
                       [] \<Rightarrow> shipped_as c None Res_unresolved
                     | [row] \<Rightarrow> shipped_as c (Some row) Res_inferred
                     | _ \<Rightarrow> shipped_as c None Res_ambiguous))))"

definition resolveShippedComponents :: "ship_world \<Rightarrow> release \<Rightarrow> shipped_component list" where
  "resolveShippedComponents w r =
     map (\<lambda>c. resolve_component (sw_ledger w (rl_productId r) (co_service c)) c) (or_else [] (rl_components r))"

subsection \<open>The decision\<close>

definition decision_of :: "(string \<Rightarrow> contract_resolution option) \<Rightarrow> series_state \<Rightarrow> series_decision" where
  "decision_of contracts s =
     \<lparr>dn_key = ss_key s, dn_verdict = ss_verdict s, dn_required = ss_required s, dn_reasons = ss_reasons s,
      dn_baseline = map_option (\<lambda>b. (qe_scorecardId b, qe_scoring b)) (ss_baseline s),
      dn_candidate = map_option (\<lambda>l. (qe_scorecardId l, qe_scoring l)) (ss_latest s),
      dn_contract = (case contracts (ss_key s) of
                       Some (Contract_resolved d c docs) \<Rightarrow> Some (d, c) | _ \<Rightarrow> None)\<rparr>"

record candidate_pin =
  cp_seriesKey :: string
  cp_pin :: "(string \<times> string \<times> (nat \<times> string) option) option"

definition candidate_pin_of :: "series_state \<Rightarrow> candidate_pin" where
  "candidate_pin_of s =
     \<lparr>cp_seriesKey = ss_key s,
      cp_pin = map_option (\<lambda>l. (qe_scorecardId l, qe_createdAt l,
        map_option (\<lambda>p. (sp_revision p, sp_planeDigest p)) (qe_scoring l))) (ss_latest s)\<rparr>"

record ship_context =
  cx_openIssues :: nat
  cx_candidates :: "candidate_pin list"

definition context_of :: "readiness \<Rightarrow> ship_context" where
  "context_of rd = \<lparr>cx_openIssues = rd_openIssues rd,
     cx_candidates = map candidate_pin_of (filter (\<lambda>s. ss_verdict s \<noteq> Ship_scope_invalid) (rd_series rd))\<rparr>"

definition pin_json :: "string \<Rightarrow> candidate_pin \<Rightarrow> json" where
  "pin_json productId c =
     JObj [(''productId'', JStr productId), (''seriesKey'', JStr (cp_seriesKey c)),
       (''pin'', (case cp_pin c of
          None \<Rightarrow> JNull
        | Some (i, t, s) \<Rightarrow> JObj ([(''scorecardId'', JStr i), (''createdAt'', JStr t)]
            @ (case s of None \<Rightarrow> []
               | Some (n, d) \<Rightarrow> [(''scoringRevision'', JNum (decimal n)), (''scorePlaneDigest'', JStr d)]))))]"

definition context_json :: "string \<Rightarrow> ship_context \<Rightarrow> json" where
  "context_json productId cx =
     JObj [(''openIssues'', JNum (decimal (cx_openIssues cx))),
       (''candidates'', JArr (map (pin_json productId) (cx_candidates cx)))]"

text \<open>The digest of what the decision read, stamped onto the last history entry of the patch.\<close>

fun stamp_detail :: "string \<Rightarrow> release_detail \<Rightarrow> release_detail" where
  "stamp_detail digest (Status_decided d) = Status_decided (d\<lparr>st_contextDigest := Some digest\<rparr>)"
| "stamp_detail digest other = other"

definition stamp_last :: "string \<Rightarrow> release_entry list \<Rightarrow> release_entry list" where
  "stamp_last digest es =
     (if es = [] then []
      else butlast es @ [(last es)\<lparr>rh_detail := stamp_detail digest (rh_detail (last es))\<rparr>])"

definition context_for :: "release_status \<Rightarrow> readiness \<Rightarrow> ship_context option" where
  "context_for to rd = (if to = Rel_released then Some (context_of rd) else None)"

definition stamped_patch :: "(string \<Rightarrow> string) \<Rightarrow> string \<Rightarrow> ship_context option \<Rightarrow> release_patch \<Rightarrow> release_patch" where
  "stamped_patch sha256 productId cx patch =
     (case cx of None \<Rightarrow> patch
      | Some c \<Rightarrow>
          patch\<lparr>rw_history := map_option (stamp_last (digest_of sha256 (context_json productId c))) (rw_history patch)\<rparr>)"

record ship_plan =
  sn_release :: release
  sn_product :: product
  sn_contracts :: "string \<Rightarrow> contract_resolution option"
  sn_readiness :: readiness
  sn_patch :: release_patch
  sn_facts :: "status_fact list"
  sn_context :: "ship_context option"

definition release_get :: "release list \<Rightarrow> string \<Rightarrow> string \<Rightarrow> release option" where
  "release_get rows tenant i =
     (case find (\<lambda>r. rl_id r = i) rows of None \<Rightarrow> None | Some r \<Rightarrow> if rl_tenant r = tenant then Some r else None)"

definition found_release :: "release list \<Rightarrow> string \<Rightarrow> string \<Rightarrow> release res" where
  "found_release rows tenant i =
     (case release_get rows tenant i of
        None \<Rightarrow> Inl (NotFound ''NOT_FOUND'' (''release '' @ i)) | Some r \<Rightarrow> Inr r)"

definition found_product :: "product list \<Rightarrow> string \<Rightarrow> string \<Rightarrow> product res" where
  "found_product rows tenant i =
     (case product_get rows tenant i of
        None \<Rightarrow> Inl (NotFound ''NOT_FOUND'' (''product '' @ i)) | Some p \<Rightarrow> Inr p)"

definition status_change_of ::
    "(string \<Rightarrow> string) \<Rightarrow> string compare \<Rightarrow> ship_world \<Rightarrow> release \<Rightarrow> product \<Rightarrow> readiness
       \<Rightarrow> (string \<Rightarrow> contract_resolution option) \<Rightarrow> release_status \<Rightarrow> bool option \<Rightarrow> status_change" where
  "status_change_of sha256 name_cmp w r p rd contracts to force =
     \<lparr>sg_to = to, sg_openIssues = rd_openIssues rd, sg_regressed = rd_regressed rd,
      sg_shipped = (if to = Rel_released then Some (resolveShippedComponents w r) else None),
      sg_decisions = map (decision_of contracts) (rd_series rd),
      sg_policy = releasePolicyDocument name_cmp p (scope_of r),
      sg_policyDigest = Some (productPolicyDigest sha256 name_cmp p (scope_of r)), sg_force = force\<rparr>"

definition decide_status ::
    "(string \<Rightarrow> string) \<Rightarrow> string compare \<Rightarrow> ship_world \<Rightarrow> string \<Rightarrow> string \<Rightarrow> release_status \<Rightarrow> bool option \<Rightarrow> string
       \<Rightarrow> string \<Rightarrow> ship_plan res" where
  "decide_status sha256 name_cmp w tenant i to force who now =
     bind_res (found_release (sw_releases w) tenant i) (\<lambda>r.
     bind_res (found_product (sw_products w) tenant (rl_productId r)) (\<lambda>p.
       let contracts = resolveContracts (sw_resolver w) (watchedSeries p (scope_of r));
           rd = readinessUnder sha256 name_cmp w r p now contracts;
           change = status_change_of sha256 name_cmp w r p rd contracts to force
       in bind_res (release_setStatus r change who now) (\<lambda>(patch, facts).
            let cx = context_for to rd
            in Inr \<lparr>sn_release = r, sn_product = p, sn_contracts = contracts, sn_readiness = rd,
                   sn_patch = stamped_patch sha256 (pd_id p) cx patch, sn_facts = facts, sn_context = cx\<rparr>)))"

subsection \<open>The second reading of the contracts\<close>

fun resolution_digest :: "contract_resolution option \<Rightarrow> string" where
  "resolution_digest None = ''absent''"
| "resolution_digest (Some (Contract_resolved d c docs)) = d"
| "resolution_digest (Some (Contract_unresolvable why)) = ''unresolvable''"
| "resolution_digest (Some Contract_unknown) = ''unknown''"

definition reverify ::
    "(product_series \<Rightarrow> contract_resolution res) option \<Rightarrow> release_status \<Rightarrow> ship_plan \<Rightarrow> unit res" where
  "reverify resolver to plan =
     (let watched = watchedSeries (sn_product plan) (scope_of (sn_release plan)); after = resolveContracts resolver watched
      in if to = Rel_released
         then (case find (\<lambda>k. sn_contracts plan k \<noteq> None
                            \<and> resolution_digest (sn_contracts plan k) \<noteq> resolution_digest (after k)) (map ps_key watched) of
                 Some k \<Rightarrow> Inl (Conflict ''CONFLICT'' (''the evaluation contract changed for series '' @ k))
               | None \<Rightarrow> Inr ())
         else Inr ())"

subsection \<open>The guarded write\<close>

record decision_sources =
  ds_openIssues :: "string \<Rightarrow> nat"
  ds_newestCandidateAt :: "string \<Rightarrow> string \<Rightarrow> string option"

record release_guard =
  gu_status :: release_status
  gu_version :: nat
  gu_product :: "(string \<times> string \<times> string) option"
  gu_decision :: "(string \<times> ship_context) option"

text \<open>What the rows and their siblings hold at the moment of the write.\<close>

record release_store =
  rt_releases :: "release list"
  rt_products :: "product list"
  rt_sources :: "decision_sources option"

definition product_guard_ok :: "release_store \<Rightarrow> string \<times> string \<times> string \<Rightarrow> bool" where
  "product_guard_ok s g =
     (case g of (i, policy, asks) \<Rightarrow>
        (case product_peek (rt_products s) i of
           None \<Rightarrow> False
         | Some p \<Rightarrow> pd_policyDigest p = Some policy \<and> pd_definitionDigest p = Some asks))"

definition decision_guard_ok :: "release_store \<Rightarrow> string \<Rightarrow> string \<times> ship_context \<Rightarrow> bool" where
  "decision_guard_ok s i g =
     (case rt_sources s of None \<Rightarrow> True
      | Some src \<Rightarrow>
          ds_openIssues src i = cx_openIssues (snd g)
          \<and> list_all (\<lambda>c. ds_newestCandidateAt src (fst g) (cp_seriesKey c) = map_option (\<lambda>(_, t, _). t) (cp_pin c))
              (cx_candidates (snd g)))"

definition release_put :: "release \<Rightarrow> release list \<Rightarrow> release list" where
  "release_put r rows = map (\<lambda>q. if rl_id q = rl_id r then r else q) rows"

definition release_write ::
    "release_store \<Rightarrow> string \<Rightarrow> string \<Rightarrow> release_patch \<Rightarrow> release_guard \<Rightarrow> (release \<times> release_store) option" where
  "release_write s tenant i patch g =
     (case release_get (rt_releases s) tenant i of
        None \<Rightarrow> None
      | Some current \<Rightarrow>
          if rl_status current \<noteq> gu_status g \<or> version_of (rl_version current) \<noteq> gu_version g
             \<or> (case gu_product g of None \<Rightarrow> False | Some x \<Rightarrow> \<not> product_guard_ok s x)
             \<or> (case gu_decision g of None \<Rightarrow> False | Some x \<Rightarrow> \<not> decision_guard_ok s i x)
          then None
          else (let nxt = (apply_release_patch current patch)\<lparr>rl_version := Some (version_of (rl_version current) + 1)\<rparr>
                in Some (nxt, s\<lparr>rt_releases := release_put nxt (rt_releases s)\<rparr>)))"

definition applyReleaseTransition ::
    "(string \<Rightarrow> string) \<Rightarrow> string compare \<Rightarrow> release_store \<Rightarrow> release \<Rightarrow> release_patch \<Rightarrow> product option
       \<Rightarrow> ship_context option \<Rightarrow> (release \<times> release_store) res" where
  "applyReleaseTransition sha256 name_cmp s current patch p cx =
     (let guard = \<lparr>gu_status = rl_status current, gu_version = version_of (rl_version current),
            gu_product = map_option (\<lambda>x. (pd_id x, productReleasePolicyDigest sha256 name_cmp x,
              productEvaluationDefinitionDigest sha256 name_cmp x)) p,
            gu_decision = (case (p, cx) of (Some x, Some c) \<Rightarrow> Some (pd_id x, c) | _ \<Rightarrow> None)\<rparr>
      in (case release_write s (rl_tenant current) (rl_id current) patch guard of
            Some done_ \<Rightarrow> Inr done_
          | None \<Rightarrow>
              (case release_get (rt_releases s) (rl_tenant current) (rl_id current) of
                 Some live \<Rightarrow> Inl (Conflict ''CONFLICT'' ''this release was decided against something that moved'')
               | None \<Rightarrow> Inl (NotFound ''NOT_FOUND'' (''release '' @ rl_id current)))))"

text \<open>The whole call: decided over \<open>w\<close>, read again with \<open>resolver\<close>, written into \<open>s\<close>.\<close>

definition setReleaseStatus ::
    "(string \<Rightarrow> string) \<Rightarrow> string compare \<Rightarrow> ship_world \<Rightarrow> (product_series \<Rightarrow> contract_resolution res) option
       \<Rightarrow> release_store \<Rightarrow> string \<Rightarrow> string \<Rightarrow> release_status \<Rightarrow> bool option \<Rightarrow> string \<Rightarrow> string
       \<Rightarrow> (release \<times> release_store) res" where
  "setReleaseStatus sha256 name_cmp w resolver s tenant i to force who now =
     bind_res (decide_status sha256 name_cmp w tenant i to force who now) (\<lambda>plan.
     bind_res (reverify resolver to plan) (\<lambda>_.
       applyReleaseTransition sha256 name_cmp s (sn_release plan) (sn_patch plan) (Some (sn_product plan))
         (sn_context plan)))"

subsection \<open>The other calls on releases\<close>

text \<open>An edit: computed from the release and the product as read, written into the rows as they are.\<close>

definition updateRelease ::
    "(string \<Rightarrow> string) \<Rightarrow> string compare \<Rightarrow> ship_world \<Rightarrow> release_store \<Rightarrow> string \<Rightarrow> string \<Rightarrow> release_edit \<Rightarrow> string
       \<Rightarrow> string \<Rightarrow> (release \<times> release_store) res" where
  "updateRelease sha256 name_cmp w s tenant i f who now =
     bind_res (found_release (sw_releases w) tenant i) (\<lambda>r.
     bind_res (found_product (sw_products w) tenant (rl_productId r)) (\<lambda>p.
     bind_res (release_update r f who now (declared_keys p) (Some (map sv_name (pd_services p)))) (\<lambda>patch.
       applyReleaseTransition sha256 name_cmp s r patch None None)))"

text \<open>A removal checks the release it read; the store removes whatever stands under the id by then.\<close>

definition removal_allowed :: "ship_world \<Rightarrow> string \<Rightarrow> string \<Rightarrow> string \<Rightarrow> bool \<Rightarrow> unit res" where
  "removal_allowed w tenant i who isAdmin =
     bind_res (found_release (sw_releases w) tenant i) (\<lambda>r.
       if rl_createdBy r \<noteq> who \<and> \<not> isAdmin
       then Inl (Forbidden ''FORBIDDEN'' ''You are not allowed to delete this release'')
       else assertRemovable r)"

definition release_remove :: "release_store \<Rightarrow> string \<Rightarrow> string \<Rightarrow> release_store" where
  "release_remove s tenant i =
     (case release_get (rt_releases s) tenant i of
        None \<Rightarrow> s | Some r \<Rightarrow> s\<lparr>rt_releases := filter (\<lambda>q. rl_id q \<noteq> i) (rt_releases s)\<rparr>)"

definition removeRelease ::
    "ship_world \<Rightarrow> release_store \<Rightarrow> string \<Rightarrow> string \<Rightarrow> string \<Rightarrow> bool \<Rightarrow> release_store res" where
  "removeRelease w s tenant i who isAdmin =
     bind_res (removal_allowed w tenant i who isAdmin) (\<lambda>_. Inr (release_remove s tenant i))"

text \<open>A product edit is refused while it would take a series from a planned release.\<close>

definition promised_keys :: "release \<Rightarrow> string list" where
  "promised_keys r = or_else (or_else [] (rl_seriesKeys r)) (rl_plannedKeys r)"

definition assertNoPlannedReleaseLosesItsGate ::
    "release list \<Rightarrow> string \<Rightarrow> string \<Rightarrow> product_series list \<Rightarrow> unit res" where
  "assertNoPlannedReleaseLosesItsGate rows tenant productId nxt =
     (case find (\<lambda>r. \<exists>k \<in> set (promised_keys r). k \<notin> set (map ps_key nxt))
             (filter (\<lambda>r. rl_tenant r = tenant \<and> rl_productId r = productId \<and> rl_status r = Rel_planned) rows) of
        Some r \<Rightarrow> Inl (Conflict ''CONFLICT'' (''a planned release is judged on a removed series: '' @ rl_name r))
      | None \<Rightarrow> Inr ())"

text \<open>Creation: the product is read first, and the release freezes the series it declares.\<close>

definition createRelease :: "product list \<Rightarrow> release_store \<Rightarrow> new_release \<Rightarrow> (release \<times> release_store) res" where
  "createRelease products s i =
     bind_res (found_product products (nr_tenant i) (nr_productId i)) (\<lambda>p.
     bind_res (newRelease (i\<lparr>nr_productId := pd_id p, nr_productSeriesKeys := declared_keys p,
                             nr_productServiceNames := Some (map sv_name (pd_services p))\<rparr>)) (\<lambda>r.
       Inr (r, s\<lparr>rt_releases := (if find (\<lambda>q. rl_id q = rl_id r) (rt_releases s) = None then rt_releases s @ [r]
                                 else release_put r (rt_releases s))\<rparr>)))"

text \<open>An edit of the product, with the keys of the series that owe an evaluation (the references to capabilities are an optional check,
  left unwired), and its removal with everything that exists only under it.\<close>

definition updateProduct ::
    "(string \<Rightarrow> string) \<Rightarrow> string compare \<Rightarrow> ship_world \<Rightarrow> release_store \<Rightarrow> string \<Rightarrow> string \<Rightarrow> product_edit \<Rightarrow> string
       \<Rightarrow> string \<Rightarrow> (product \<times> string list \<times> release_store) res" where
  "updateProduct sha256 name_cmp w s tenant i f who now =
     bind_res (found_product (sw_products w) tenant i) (\<lambda>p.
     bind_res (checked (assertNoPlannedReleaseLosesItsGate (sw_releases w) tenant (pd_id p)) (pe_series f)) (\<lambda>_.
     bind_res (product_update p f who now) (\<lambda>patch.
     bind_res (applyTransition sha256 name_cmp (rt_products s) p patch) (\<lambda>(q, rows).
       let owed = (case pe_series f of None \<Rightarrow> [] | Some xs \<Rightarrow> seriesNeedingEvidence name_cmp (pd_series p) xs)
       in Inr (q, if fst (pd_autoEval q) then owed else [], s\<lparr>rt_products := rows\<rparr>)))))"

definition removeProduct ::
    "ship_world \<Rightarrow> release_store \<Rightarrow> string \<Rightarrow> string \<Rightarrow> string \<Rightarrow> bool \<Rightarrow> release_store res" where
  "removeProduct w s tenant i who isAdmin =
     bind_res (found_product (sw_products w) tenant i) (\<lambda>p.
       if pd_createdBy p \<noteq> who \<and> \<not> isAdmin
       then Inl (Forbidden ''FORBIDDEN'' ''You are not allowed to delete this product'')
       else Inr (s\<lparr>rt_releases := filter (\<lambda>r. \<not> (rl_tenant r = tenant \<and> rl_productId r = i)) (rt_releases s),
                   rt_products := product_remove (rt_products s) tenant i\<rparr>))"

end
