(* ===== verification/ReleasePg.thy ===== *)
theory ReleasePg
  imports Shipping
begin

text \<open>
  A release shipped in the database: the fence on capabilities and settings that packages/application-control/src/product/product-service.ts
  reads for a ship, and the one statement with which packages/db/src/product/release-store.ts (PgReleaseStore) writes the release under
  everything the decision read. The database is the rows of the tables that statement names. The order of two scorecards,
  by (created_at, id) as PostgreSQL compares them, is the parameter \<open>later\<close>; an instant is the text it is written as.
\<close>

subsection \<open>The rows\<close>

record generation_row =
  gn_tenant :: string
  gn_kind :: string
  gn_id :: string
  gn_generation :: nat

text \<open>A scorecard as the statement reads it: its origin, its scoring ledger and whether a scoring pass is claimed on it.\<close>

record card_row =
  cd_id :: string
  cd_tenant :: string
  cd_productId :: "string option"
  cd_seriesKey :: "string option"
  cd_succeeded :: bool
  cd_createdAt :: string
  cd_scoringPass :: "string option"
  cd_scoring :: "scoring_pin list"

record settings_row =
  wr_workspace :: string
  wr_revision :: nat

record ship_db =
  db_releases :: "release list"
  db_products :: "product list"
  db_issues :: "issue list"
  db_cards :: "card_row list"
  db_generations :: "generation_row list"
  db_settings :: "settings_row list"

subsection \<open>The fence\<close>

text \<open>What the fence reads of one name: its generation in the workspace and in the shared namespace.\<close>

record name_generation =
  ng_kind :: string
  ng_id :: string
  ng_tenant :: "nat option"
  ng_shared :: "nat option"

record capability_fence =
  cf_settingsRevision :: "string \<Rightarrow> nat option res"
  cf_read :: "string \<Rightarrow> (string \<times> string) list \<Rightarrow> name_generation list res"

definition generation_key :: "string \<Rightarrow> string \<Rightarrow> string \<Rightarrow> string" where
  "generation_key tenant k i = tenant @ '':'' @ k @ '':'' @ i"

definition pg_read :: "ship_db \<Rightarrow> string \<Rightarrow> (string \<times> string) list \<Rightarrow> name_generation list" where
  "pg_read db tenant refs =
     (let rows = filter (\<lambda>g. (gn_tenant g = tenant \<or> gn_tenant g = ''_shared'') \<and> (gn_kind g, gn_id g) \<in> set refs)
                   (db_generations db);
          found = (\<lambda>owner k i. map_option gn_generation
                     (last_by_key (\<lambda>g. generation_key (gn_tenant g) (gn_kind g) (gn_id g)) rows (generation_key owner k i)))
      in map (\<lambda>(k, i). \<lparr>ng_kind = k, ng_id = i, ng_tenant = found tenant k i, ng_shared = found ''_shared'' k i\<rparr>) refs)"

definition pg_settingsRevision :: "ship_db \<Rightarrow> string \<Rightarrow> nat option" where
  "pg_settingsRevision db workspace =
     (case find (\<lambda>s. wr_workspace s = workspace) (db_settings db) of None \<Rightarrow> Some 0 | Some s \<Rightarrow> Some (wr_revision s))"

definition pg_fence :: "ship_db \<Rightarrow> capability_fence" where
  "pg_fence db = \<lparr>cf_settingsRevision = (\<lambda>t. Inr (pg_settingsRevision db t)), cf_read = (\<lambda>t refs. Inr (pg_read db t refs))\<rparr>"

definition fenceRead :: "string \<Rightarrow> 'a res \<Rightarrow> 'a res" where
  "fenceRead what outcome =
     (case outcome of
        Inr x \<Rightarrow> Inr x
      | Inl e \<Rightarrow> Inl (Internal ''UPSTREAM_ERROR'' (''Refusing to ship: '' @ what @ '' could not be read ('' @ error_text e @ '')'')))"

fun document_name :: "document_kind \<Rightarrow> string" where
  "document_name DModel = ''model''"
| "document_name DRubric = ''rubric''"
| "document_name DHarness = ''harness''"

definition capabilityRefsFor :: "product \<Rightarrow> release \<Rightarrow> (string \<times> string) list" where
  "capabilityRefsFor p r =
     distinct_values (concat (map (\<lambda>s. (''dataset'', fst (ps_dataset s)) # (''harness'', fst (ps_harness s))
         # map (\<lambda>j. (''judge'', fst j)) (ps_judges s)) (watchedSeries p (scope_of r))))"

definition nestedCapabilityRefs :: "product \<Rightarrow> release \<Rightarrow> (string \<Rightarrow> contract_resolution option) \<Rightarrow> (string \<times> string) list" where
  "nestedCapabilityRefs p r contracts =
     distinct_values (concat (map (\<lambda>key. case contracts key of
           Some (Contract_resolved d c docs) \<Rightarrow> map (\<lambda>(k, i). (document_name k, i)) docs
         | _ \<Rightarrow> []) (distinct_values (map ps_key (watchedSeries p (scope_of r))))))"

text \<open>What the fence established; \<open>None\<close> in both where no fence is wired.\<close>

record fence_reading =
  fd_settings :: "nat option option"
  fd_generations :: "name_generation list option"

definition read_fence ::
    "capability_fence option \<Rightarrow> release_status \<Rightarrow> product \<Rightarrow> release \<Rightarrow> (string \<Rightarrow> contract_resolution option) \<Rightarrow> fence_reading res" where
  "read_fence fence to p r contracts =
     (case (if to = Rel_released then fence else None) of
        None \<Rightarrow> Inr \<lparr>fd_settings = None, fd_generations = None\<rparr>
      | Some f \<Rightarrow>
          bind_res (fenceRead ''the workspace settings revision'' (cf_settingsRevision f (rl_tenant r))) (\<lambda>revision.
          bind_res (fenceRead ''the capability generations''
              (cf_read f (rl_tenant r) (capabilityRefsFor p r @ nestedCapabilityRefs p r contracts))) (\<lambda>generations.
            Inr \<lparr>fd_settings = Some revision, fd_generations = Some generations\<rparr>)))"

subsection \<open>The statement\<close>

definition product_clause :: "ship_db \<Rightarrow> release \<Rightarrow> string \<times> string \<Rightarrow> bool" where
  "product_clause db row digests =
     list_ex (\<lambda>p. pd_tenant p = rl_tenant row \<and> pd_id p = rl_productId row
        \<and> pd_policyDigest p = Some (fst digests) \<and> pd_definitionDigest p = Some (snd digests)) (db_products db)"

definition linked_open :: "ship_db \<Rightarrow> string \<Rightarrow> string \<Rightarrow> issue list" where
  "linked_open db tenant i =
     filter (\<lambda>x. is_tenant x = tenant \<and> list_ex (\<lambda>l. ln_type l = LRelease \<and> ln_id l = i) (is_links x)
        \<and> isOpenIssueStatus (is_status x)) (db_issues db)"

definition series_cards :: "ship_db \<Rightarrow> string \<Rightarrow> string \<Rightarrow> string \<Rightarrow> card_row list" where
  "series_cards db tenant productId key =
     filter (\<lambda>c. cd_tenant c = tenant \<and> cd_productId c = Some productId \<and> cd_seriesKey c = Some key \<and> cd_succeeded c) (db_cards db)"

text \<open>The last entry of the scoring ledger, as the pin names it.\<close>

definition last_scoring :: "card_row \<Rightarrow> (nat \<times> string) option" where
  "last_scoring c = (if cd_scoring c = [] then None
     else Some (sp_revision (last (cd_scoring c)), sp_planeDigest (last (cd_scoring c))))"

definition candidate_clause :: "(string \<times> string \<Rightarrow> string \<times> string \<Rightarrow> bool) \<Rightarrow> card_row list \<Rightarrow> candidate_pin \<Rightarrow> bool" where
  "candidate_clause later rows c =
     (case cp_pin c of
        None \<Rightarrow> rows = []
      | Some (i, at_, judged) \<Rightarrow>
          list_ex (\<lambda>x. cd_id x = i \<and> cd_scoringPass x = None) rows
          \<and> list_ex (\<lambda>x. cd_id x = i \<and> last_scoring x = judged) rows
          \<and> \<not> list_ex (\<lambda>x. later (cd_createdAt x, cd_id x) (at_, i)) rows)"

definition namespace_clause :: "ship_db \<Rightarrow> string \<Rightarrow> string \<Rightarrow> string \<Rightarrow> nat option \<Rightarrow> bool" where
  "namespace_clause db owner k i expected =
     (let rows = filter (\<lambda>g. gn_tenant g = owner \<and> gn_kind g = k \<and> gn_id g = i) (db_generations db)
      in case expected of None \<Rightarrow> rows = [] | Some n \<Rightarrow> list_ex (\<lambda>g. gn_generation g = n) rows)"

definition capabilities_clause :: "ship_db \<Rightarrow> string \<Rightarrow> name_generation list option \<Rightarrow> bool" where
  "capabilities_clause db tenant refs =
     list_all (\<lambda>g. namespace_clause db tenant (ng_kind g) (ng_id g) (ng_tenant g)
        \<and> namespace_clause db ''_shared'' (ng_kind g) (ng_id g) (ng_shared g)) (or_else [] refs)"

definition settings_clause :: "ship_db \<Rightarrow> string \<Rightarrow> nat option option \<Rightarrow> bool" where
  "settings_clause db tenant expected =
     (let rows = filter (\<lambda>s. wr_workspace s = tenant) (db_settings db)
      in case expected of
           None \<Rightarrow> True
         | Some None \<Rightarrow> rows = []
         | Some (Some 0) \<Rightarrow> rows = [] \<or> list_ex (\<lambda>s. wr_revision s = 0) rows
         | Some (Some n) \<Rightarrow> list_ex (\<lambda>s. wr_revision s = n) rows)"

definition decision_clauses ::
    "(string \<times> string \<Rightarrow> string \<times> string \<Rightarrow> bool) \<Rightarrow> ship_db \<Rightarrow> release \<Rightarrow> string \<Rightarrow> ship_context \<Rightarrow> fence_reading \<Rightarrow> bool" where
  "decision_clauses later db row productId cx fd \<longleftrightarrow>
     length (linked_open db (rl_tenant row) (rl_id row)) = cx_openIssues cx
     \<and> list_all (\<lambda>c. candidate_clause later (series_cards db (rl_tenant row) productId (cp_seriesKey c)) c) (cx_candidates cx)
     \<and> capabilities_clause db (rl_tenant row) (fd_generations fd)
     \<and> settings_clause db (rl_tenant row) (fd_settings fd)"

record db_guard =
  dg_status :: release_status
  dg_version :: nat
  dg_product :: "(string \<times> string) option"
  dg_decision :: "(string \<times> ship_context \<times> fence_reading) option"

text \<open>The columns the statement does not set stay the row's.\<close>

definition set_columns :: "release \<Rightarrow> release \<Rightarrow> release" where
  "set_columns row nxt = nxt\<lparr>rl_id := rl_id row, rl_tenant := rl_tenant row, rl_productId := rl_productId row,
     rl_createdBy := rl_createdBy row, rl_createdAt := rl_createdAt row\<rparr>"

text \<open>The values are computed from the release as it was read first, in \<open>before\<close>; the conditions hold of the rows the statement meets.\<close>

definition pg_update ::
    "(string \<times> string \<Rightarrow> string \<times> string \<Rightarrow> bool) \<Rightarrow> release list \<Rightarrow> ship_db \<Rightarrow> string \<Rightarrow> string \<Rightarrow> release_patch \<Rightarrow> db_guard
       \<Rightarrow> (release \<times> ship_db) option" where
  "pg_update later before db tenant i patch g =
     (case (release_get before tenant i, release_get (db_releases db) tenant i) of
        (Some current, Some row) \<Rightarrow>
          if rl_status row = dg_status g \<and> version_of (rl_version row) = dg_version g
             \<and> (case dg_product g of None \<Rightarrow> True | Some ds \<Rightarrow> product_clause db row ds)
             \<and> (case dg_decision g of None \<Rightarrow> True | Some (pid, cx, fd) \<Rightarrow> decision_clauses later db row pid cx fd)
          then (let nxt = set_columns row
                      ((apply_release_patch current patch)\<lparr>rl_version := Some (version_of (rl_version current) + 1)\<rparr>)
                in Some (nxt, db\<lparr>db_releases := release_put nxt (db_releases db)\<rparr>))
          else None
      | _ \<Rightarrow> None)"

subsection \<open>The call\<close>

definition generation_json :: "name_generation \<Rightarrow> json" where
  "generation_json g =
     (let number = (\<lambda>n. case n of None \<Rightarrow> JNull | Some n \<Rightarrow> JNum (decimal n))
      in JObj [(''kind'', JStr (ng_kind g)), (''id'', JStr (ng_id g)), (''tenantGeneration'', number (ng_tenant g)),
           (''sharedGeneration'', number (ng_shared g))])"

definition fence_members :: "fence_reading \<Rightarrow> (string \<times> json) list" where
  "fence_members fd =
     (case fd_generations fd of None \<Rightarrow> [] | Some gs \<Rightarrow> [(''capabilities'', JArr (map generation_json gs))])
     @ (case fd_settings fd of None \<Rightarrow> []
        | Some n \<Rightarrow> [(''settingsRevision'', (case n of None \<Rightarrow> JNull | Some n \<Rightarrow> JNum (decimal n)))])"

definition fenced_json :: "string \<Rightarrow> ship_context \<Rightarrow> fence_reading \<Rightarrow> json" where
  "fenced_json productId cx fd =
     (case context_json productId cx of JObj members \<Rightarrow> JObj (members @ fence_members fd) | other \<Rightarrow> other)"

text \<open>The digest stamped on the entry covers the fence too; it replaces the digest of the context alone.\<close>

definition fenced_patch :: "(string \<Rightarrow> string) \<Rightarrow> fence_reading \<Rightarrow> ship_plan \<Rightarrow> release_patch" where
  "fenced_patch sha256 fd plan =
     (case sn_context plan of None \<Rightarrow> sn_patch plan
      | Some cx \<Rightarrow> (sn_patch plan)\<lparr>rw_history := map_option
          (stamp_last (digest_of sha256 (fenced_json (pd_id (sn_product plan)) cx fd))) (rw_history (sn_patch plan))\<rparr>)"

definition pg_transition ::
    "(string \<times> string \<Rightarrow> string \<times> string \<Rightarrow> bool) \<Rightarrow> (string \<Rightarrow> string) \<Rightarrow> string compare \<Rightarrow> release list \<Rightarrow> ship_db
       \<Rightarrow> release \<Rightarrow> release_patch \<Rightarrow> product \<Rightarrow> (ship_context \<times> fence_reading) option \<Rightarrow> (release \<times> ship_db) res" where
  "pg_transition later sha256 name_cmp before db current patch p decision =
     (let guard = \<lparr>dg_status = rl_status current, dg_version = version_of (rl_version current),
            dg_product = Some (productReleasePolicyDigest sha256 name_cmp p, productEvaluationDefinitionDigest sha256 name_cmp p),
            dg_decision = map_option (\<lambda>(cx, fd). (pd_id p, cx, fd)) decision\<rparr>
      in (case pg_update later before db (rl_tenant current) (rl_id current) patch guard of
            Some done_ \<Rightarrow> Inr done_
          | None \<Rightarrow>
              (case release_get (db_releases db) (rl_tenant current) (rl_id current) of
                 Some row \<Rightarrow> Inl (Conflict ''CONFLICT'' ''this release was decided against something that moved'')
               | None \<Rightarrow> Inl (NotFound ''NOT_FOUND'' (''release '' @ rl_id current)))))"

text \<open>A status change over PostgreSQL: the fence and the decision over what was read, the contracts read again, then the statement.\<close>

definition setReleaseStatus_pg ::
    "(string \<times> string \<Rightarrow> string \<times> string \<Rightarrow> bool) \<Rightarrow> (string \<Rightarrow> string) \<Rightarrow> string compare \<Rightarrow> ship_world \<Rightarrow> capability_fence option
       \<Rightarrow> (product_series \<Rightarrow> contract_resolution res) option \<Rightarrow> release list \<Rightarrow> ship_db \<Rightarrow> string \<Rightarrow> string \<Rightarrow> release_status
       \<Rightarrow> bool option \<Rightarrow> string \<Rightarrow> string \<Rightarrow> (release \<times> ship_db) res" where
  "setReleaseStatus_pg later sha256 name_cmp w fence resolver before db tenant i to force who now =
     bind_res (found_release (sw_releases w) tenant i) (\<lambda>r.
     bind_res (found_product (sw_products w) tenant (rl_productId r)) (\<lambda>p.
     bind_res (read_fence fence to p r (resolveContracts (sw_resolver w) (watchedSeries p (scope_of r)))) (\<lambda>fd.
     bind_res (decide_status sha256 name_cmp w tenant i to force who now) (\<lambda>plan.
     bind_res (reverify resolver to plan) (\<lambda>_.
       pg_transition later sha256 name_cmp before db (sn_release plan) (fenced_patch sha256 fd plan) (sn_product plan)
         (map_option (\<lambda>cx. (cx, fd)) (sn_context plan)))))))"

end
