(* ===== verification/ReadinessLaws.thy ===== *)
theory ReadinessLaws
  imports Readiness
begin

text \<open>
  What a ready release has behind it, and what becomes of a series a release promised.
\<close>

subsection \<open>The verdict of a series\<close>

lemma reason_Nil [simp]: "inputDivergenceReason side pin = [] \<longleftrightarrow> decisionInputTrustOf pin = Receipt_vouched"
  by (simp add: inputDivergenceReason_def split: input_trust.split)

lemma of_gate_pass [simp]: "vouches (of_gate g) \<longleftrightarrow> g = Pass"
  by (cases g) (simp_all add: vouches_def)

text \<open>What stands behind a series that does not block: fresh evidence that receipts vouch for, and either a passing gate against
  a vouched baseline or an approved first ship with a pass rate.\<close>

definition contract_holds :: "(string \<Rightarrow> string) \<Rightarrow> string compare \<Rightarrow> series_point \<Rightarrow> contract_resolution \<Rightarrow> bool" where
  "contract_holds sha256 name_cmp l c =
     (case c of
        Contract_unresolvable why \<Rightarrow> False
      | Contract_resolved d k docs \<Rightarrow> stamp_holds sha256 name_cmp l d k
      | Contract_unknown \<Rightarrow> True)"

definition compares_well :: "ship_evidence \<Rightarrow> product_series \<Rightarrow> series_point \<Rightarrow> bool" where
  "compares_well ev s l =
     (case baseline_of ev (ps_key s) of
        None_first_ship \<Rightarrow> preapproved s \<and> po_passRate l \<noteq> None
      | Baseline_resolved b \<Rightarrow>
          (case sx_gate ev (ps_key s) of None \<Rightarrow> False | Some g \<Rightarrow> gg_verdict g = Pass)
          \<and> decisionInputTrustOf (baseline_scoring ev (ps_key s)) = Receipt_vouched
      | _ \<Rightarrow> False)"

definition shippable :: "(string \<Rightarrow> string) \<Rightarrow> string compare \<Rightarrow> ship_evidence \<Rightarrow> product_series \<Rightarrow> bool" where
  "shippable sha256 name_cmp ev s =
     (case sx_latest ev (ps_key s) of
        None \<Rightarrow> False
      | Some l \<Rightarrow> contract_holds sha256 name_cmp l (contract_of ev (ps_key s))
          \<and> decisionInputTrustOf (candidate_scoring ev (ps_key s)) = Receipt_vouched \<and> compares_well ev s l)"

lemma base_vouches:
  "vouches (fst (seriesVerdict sha256 name_cmp latest baseline gate ok contract)) \<longleftrightarrow>
     (case latest of None \<Rightarrow> False
      | Some l \<Rightarrow> contract_holds sha256 name_cmp l contract
          \<and> (case baseline of
               None_first_ship \<Rightarrow> ok \<and> po_passRate l \<noteq> None
             | Baseline_resolved b \<Rightarrow> (case gate of None \<Rightarrow> False | Some g \<Rightarrow> gg_verdict g = Pass)
             | _ \<Rightarrow> False))"
proof (cases latest)
  case None
  then show ?thesis by (cases contract) (simp_all add: seriesVerdict_def vouches_def)
next
  case (Some l)
  have "vouches (fst (seriesVerdict sha256 name_cmp (Some l) baseline gate ok Contract_unknown)) \<longleftrightarrow>
      (case baseline of
         None_first_ship \<Rightarrow> ok \<and> po_passRate l \<noteq> None
       | Baseline_resolved b \<Rightarrow> (case gate of None \<Rightarrow> False | Some g \<Rightarrow> gg_verdict g = Pass)
       | _ \<Rightarrow> False)"
    by (cases baseline; cases gate) (simp_all add: seriesVerdict_def, simp_all add: vouches_def)
  moreover have "seriesVerdict sha256 name_cmp (Some l) baseline gate ok (Contract_resolved d c docs)
      = (if stamp_holds sha256 name_cmp l d c then seriesVerdict sha256 name_cmp (Some l) baseline gate ok Contract_unknown
         else (Ship_contract_stale, [if po_contractDigest l = None then Question_unrecorded else Question_changed]))" for d c docs
    by (simp add: seriesVerdict_def)
  ultimately show ?thesis
    unfolding Some by (cases contract) (simp_all add: contract_holds_def, simp_all add: seriesVerdict_def vouches_def)
qed

lemma series_regressed: "ss_regressed (series_state_of sha256 name_cmp ev s) \<longleftrightarrow> gates s \<and> \<not> shippable sha256 name_cmp ev s"
proof -
  have r: "ss_regressed (series_state_of sha256 name_cmp ev s) \<longleftrightarrow> gates s \<and> \<not> vouches (final_verdict sha256 name_cmp ev s)"
    by (simp add: series_state_of_def Let_def)
  have f: "vouches (final_verdict sha256 name_cmp ev s)
      \<longleftrightarrow> vouches (fst (base_verdict sha256 name_cmp ev s)) \<and> divergence_of ev (ps_key s) = []"
    by (auto simp: final_verdict_def Let_def vouches_def)
  have "vouches (fst (base_verdict sha256 name_cmp ev s)) \<and> divergence_of ev (ps_key s) = [] \<longleftrightarrow> shippable sha256 name_cmp ev s"
    unfolding base_verdict_def base_vouches
    by (cases "sx_latest ev (ps_key s)"; cases "baseline_of ev (ps_key s)")
      (auto simp: shippable_def compares_well_def divergence_of_def baseline_point_def)
  with r f show ?thesis by blast
qed

lemma ready_no_regression:
  "rd_regressed (releaseReadiness sha256 name_cmp scope p ev n) =
     snd (resolveWatchedSeries p scope)
     @ map ps_key (filter (\<lambda>s. gates s \<and> \<not> shippable sha256 name_cmp ev s) (watchedSeries p scope))"
proof -
  have k: "ss_key (series_state_of sha256 name_cmp ev s) = ps_key s" for s by (simp add: series_state_of_def Let_def)
  show ?thesis
    by (simp add: releaseReadiness_def Let_def filter_map comp_def series_regressed k watchedSeries_def)
      (simp add: missing_state_def)
qed

subsection \<open>What a release promised\<close>

lemma last_by_key_key: "last_by_key key xs k = Some x \<Longrightarrow> x \<in> set xs \<and> key x = k"
proof -
  assume "last_by_key key xs k = Some x"
  then have "(k, x) \<in> set (rev (map (\<lambda>x. (key x, x)) xs))" unfolding last_by_key_def by (rule map_of_SomeD)
  then show ?thesis by auto
qed

lemma last_by_key_None: "last_by_key key xs k = None \<longleftrightarrow> k \<notin> key ` set xs"
  unfolding last_by_key_def map_of_eq_None_iff by force

lemma watched_declared: "set (watchedSeries p scope) \<subseteq> set (pd_series p)"
proof (cases "rs_plannedKeys scope")
  case None
  then show ?thesis by (cases "rs_seriesKeys scope") (auto simp: watchedSeries_def resolveWatchedSeries_def)
next
  case (Some ks)
  then show ?thesis
    using last_by_key_key
    by (fastforce simp: watchedSeries_def resolveWatchedSeries_def declared_series_def Let_def List.map_filter_def)
qed

text \<open>A promised key is watched as long as the product declares it.\<close>

lemma promise_watched:
  assumes "rs_plannedKeys scope = Some ks" "k \<in> set ks"
  shows "(case declared_series p k of
            None \<Rightarrow> k \<in> set (snd (resolveWatchedSeries p scope))
          | Some s \<Rightarrow> s \<in> set (watchedSeries p scope) \<and> ps_key s = k)"
proof (cases "declared_series p k")
  case None
  then show ?thesis using assms by (simp add: resolveWatchedSeries_def Let_def missing_keys_def)
next
  case (Some s)
  have "s \<in> set (List.map_filter (declared_series p) keys)" if "k \<in> set keys" for keys
    using that Some by (force simp: List.map_filter_def)
  then have "s \<in> set (watchedSeries p scope)"
    using assms by (simp add: watchedSeries_def resolveWatchedSeries_def Let_def)
  then show ?thesis using Some last_by_key_key unfolding declared_series_def by fastforce
qed

subsection \<open>Properties\<close>

text \<open>C20. A release is ready exactly when nothing is open, nothing it promised has vanished from the product, and every series it
  watches that gates has fresh, vouched evidence that compares well: a vouched newest evaluation under the contract the series
  has now, and a passing gate against a vouched baseline or an approved first ship with a pass rate.\<close>

theorem ready_iff_vouched:
  "rd_ready (releaseReadiness sha256 name_cmp scope p ev n) \<longleftrightarrow>
     n = 0 \<and> snd (resolveWatchedSeries p scope) = []
     \<and> list_all (shippable sha256 name_cmp ev) (filter gates (watchedSeries p scope))"
proof -
  have "rd_ready (releaseReadiness sha256 name_cmp scope p ev n)
      \<longleftrightarrow> n = 0 \<and> rd_regressed (releaseReadiness sha256 name_cmp scope p ev n) = []"
    by (simp add: releaseReadiness_def Let_def)
  then show ?thesis unfolding ready_no_regression by (auto simp: filter_empty_conv list_all_iff)
qed

end
