(* ===== verification/ShippingLaws.thy ===== *)
theory ShippingLaws
  imports Shipping ReadinessLaws
begin

text \<open>
  Shipping under interleaving: what a ship commits to, that a released release is history, and that the next release is compared
  with what the last one shipped on.
\<close>

subsection \<open>Rows\<close>

lemma release_get_iff:
  "release_get rows tenant i = Some r \<longleftrightarrow> find (\<lambda>r. rl_id r = i) rows = Some r \<and> rl_tenant r = tenant"
  by (auto simp: release_get_def split: option.splits)

lemma find_id: "find (\<lambda>r. rl_id r = i) rows = Some r \<Longrightarrow> r \<in> set rows \<and> rl_id r = i"
  by (auto simp: find_Some_iff)

lemma release_get_id: "release_get rows tenant i = Some r \<Longrightarrow> rl_id r = i \<and> rl_tenant r = tenant"
  using find_id by (auto simp: release_get_iff)

lemma find_put_other: "rl_id n \<noteq> i \<Longrightarrow> find (\<lambda>r. rl_id r = i) (release_put n rows) = find (\<lambda>r. rl_id r = i) rows"
  by (induction rows) (auto simp: release_put_def)

lemma patched_id [simp]:
  "rl_id (apply_release_patch r p) = rl_id r" "rl_tenant (apply_release_patch r p) = rl_tenant r"
  "rl_productId (apply_release_patch r p) = rl_productId r"
  by (simp_all add: apply_release_patch_def)

text \<open>A write that lands found the row in the status and version the transition was computed from.\<close>

lemma write_lands:
  assumes "release_write s tenant i patch g = Some (r', s')"
  obtains live where "release_get (rt_releases s) tenant i = Some live" "rl_status live = gu_status g"
    "version_of (rl_version live) = gu_version g"
    "r' = (apply_release_patch live patch)\<lparr>rl_version := Some (version_of (rl_version live) + 1)\<rparr>"
    "s' = s\<lparr>rt_releases := release_put r' (rt_releases s)\<rparr>"
    "\<forall>x. gu_product g = Some x \<longrightarrow> product_guard_ok s x"
    "\<forall>x. gu_decision g = Some x \<longrightarrow> decision_guard_ok s i x"
  using assms that by (auto simp: release_write_def Let_def split: option.splits if_splits)

lemma write_keeps_other_status:
  assumes "release_write s tenant i patch g = Some (r', s')"
    and "release_get (rt_releases s) t j = Some r" "rl_status r \<noteq> gu_status g"
  shows "release_get (rt_releases s') t j = Some r"
  using assms(1)
proof (rule write_lands)
  fix live
  assume live: "release_get (rt_releases s) tenant i = Some live" "rl_status live = gu_status g"
    and r': "r' = (apply_release_patch live patch)\<lparr>rl_version := Some (version_of (rl_version live) + 1)\<rparr>"
    and s': "s' = s\<lparr>rt_releases := release_put r' (rt_releases s)\<rparr>"
  have "rl_id r' = i" using release_get_id [OF live(1)] by (simp add: r')
  moreover have "i \<noteq> j" using live assms(2,3) by (auto simp: release_get_iff)
  ultimately show ?thesis using assms(2) by (simp add: s' release_get_iff find_put_other)
qed

lemma transition_lands:
  assumes "applyReleaseTransition sha256 name_cmp s current patch p cx = Inr (r', s')"
  obtains g where "release_write s (rl_tenant current) (rl_id current) patch g = Some (r', s')"
    "gu_status g = rl_status current" "gu_version g = version_of (rl_version current)"
    "gu_product g = map_option (\<lambda>x. (pd_id x, productReleasePolicyDigest sha256 name_cmp x,
       productEvaluationDefinitionDigest sha256 name_cmp x)) p"
    "gu_decision g = (case (p, cx) of (Some x, Some c) \<Rightarrow> Some (pd_id x, c) | _ \<Rightarrow> None)"
  using assms that unfolding applyReleaseTransition_def Let_def
  by (auto split: option.splits)

subsection \<open>Decisions\<close>

lemma set_status_Inr:
  assumes "release_setStatus r i who now = Inr (patch, facts)"
  shows "rl_status r \<noteq> Rel_released"
    and "patch = status_patch r (change_detail r i now) who now"
    and "sg_to i = Rel_released \<Longrightarrow> sg_force i \<noteq> Some True \<Longrightarrow> \<not> blocked_change i"
  using assms by (auto simp: release_setStatus_def Let_def split: if_splits)

lemma decide_Inr:
  assumes "decide_status sha256 name_cmp w tenant i to force who now = Inr plan"
  obtains r p where "release_get (sw_releases w) tenant i = Some r"
    "product_get (sw_products w) tenant (rl_productId r) = Some p"
    "sn_release plan = r" "sn_product plan = p"
    "sn_contracts plan = resolveContracts (sw_resolver w) (watchedSeries p (scope_of r))"
    "sn_readiness plan = readinessUnder sha256 name_cmp w r p now (sn_contracts plan)"
    "\<exists>patch. release_setStatus r (status_change_of sha256 name_cmp w r p (sn_readiness plan) (sn_contracts plan) to force) who now
        = Inr (patch, sn_facts plan) \<and> sn_patch plan = stamped_patch sha256 (pd_id p) (sn_context plan) patch"
    "sn_context plan = context_for to (sn_readiness plan)"
  using assms that unfolding decide_status_def Let_def found_release_def found_product_def
  by (auto split: option.splits)

lemma decided_from_unreleased:
  "decide_status sha256 name_cmp w tenant i to force who now = Inr plan \<Longrightarrow> rl_status (sn_release plan) \<noteq> Rel_released"
  by (elim decide_Inr) (use set_status_Inr(1) in blast)

lemma edited_from_unreleased: "release_update r f who now ks ns = Inr patch \<Longrightarrow> rl_status r \<noteq> Rel_released"
  by (auto simp: release_update_def assertMutable_def isHistory_def)

subsection \<open>Calls over time\<close>

text \<open>A call carries the world it read, which may be older than the rows it is written into; between calls the sibling rows and the
  counts move.\<close>

datatype release_call =
    Change_status ship_world "(product_series \<Rightarrow> contract_resolution res) option" string string release_status
      "bool option" string string
  | Edit_release ship_world string string release_edit string string
  | Siblings_move "product list" "decision_sources option"

definition written :: "release_store \<Rightarrow> (release \<times> release_store) res \<Rightarrow> release_store" where
  "written s outcome = (case outcome of Inl e \<Rightarrow> s | Inr (r, s') \<Rightarrow> s')"

definition after_call :: "(string \<Rightarrow> string) \<Rightarrow> string compare \<Rightarrow> release_call \<Rightarrow> release_store \<Rightarrow> release_store" where
  "after_call sha256 name_cmp c s =
     (case c of
        Change_status w resolver tenant i to force who now \<Rightarrow>
          written s (setReleaseStatus sha256 name_cmp w resolver s tenant i to force who now)
      | Edit_release w tenant i f who now \<Rightarrow> written s (updateRelease sha256 name_cmp w s tenant i f who now)
      | Siblings_move ps src \<Rightarrow> s\<lparr>rt_products := ps, rt_sources := src\<rparr>)"

lemma transition_keeps_released:
  assumes "applyReleaseTransition sha256 name_cmp s current patch p cx = Inr (r', s')" "rl_status current \<noteq> Rel_released"
    and "release_get (rt_releases s) t j = Some r" "rl_status r = Rel_released"
  shows "release_get (rt_releases s') t j = Some r"
  using assms(1) by (rule transition_lands) (use assms(2-4) write_keeps_other_status in fastforce)

lemma call_keeps_released:
  assumes "release_get (rt_releases s) t j = Some r" "rl_status r = Rel_released"
  shows "release_get (rt_releases (after_call sha256 name_cmp c s)) t j = Some r"
proof (cases c)
  case (Change_status w resolver tenant i to force who now)
  show ?thesis
  proof (cases "setReleaseStatus sha256 name_cmp w resolver s tenant i to force who now")
    case (Inr out)
    then obtain plan where "decide_status sha256 name_cmp w tenant i to force who now = Inr plan"
      "applyReleaseTransition sha256 name_cmp s (sn_release plan) (sn_patch plan) (Some (sn_product plan)) (sn_context plan) = Inr out"
      by (auto simp: setReleaseStatus_def)
    moreover obtain q s' where out: "out = (q, s')" by (cases out)
    ultimately have "release_get (rt_releases s') t j = Some r"
      using transition_keeps_released [OF _ decided_from_unreleased assms] by blast
    then show ?thesis by (simp add: after_call_def Change_status written_def Inr out)
  qed (simp add: after_call_def Change_status written_def assms)
next
  case (Edit_release w tenant i f who now)
  show ?thesis
  proof (cases "updateRelease sha256 name_cmp w s tenant i f who now")
    case (Inr out)
    then obtain q patch p where "release_update q f who now (declared_keys p) (Some (map sv_name (pd_services p))) = Inr patch"
      "applyReleaseTransition sha256 name_cmp s q patch None None = Inr out"
      by (auto simp: updateRelease_def)
    moreover obtain q' s' where out: "out = (q', s')" by (cases out)
    ultimately have "release_get (rt_releases s') t j = Some r"
      using transition_keeps_released [OF _ edited_from_unreleased assms] by blast
    then show ?thesis by (simp add: after_call_def Edit_release written_def Inr out)
  qed (simp add: after_call_def Edit_release written_def assms)
qed (simp add: after_call_def assms)

subsection \<open>What a ship stands on\<close>

definition evidence_read :: "string compare \<Rightarrow> ship_world \<Rightarrow> release \<Rightarrow> product \<Rightarrow> string \<Rightarrow> ship_evidence" where
  "evidence_read name_cmp w r p now =
     ship_evidence_of name_cmp w p (watchedSeries p (scope_of r)) (previousShip name_cmp (sw_releases w) r now)
       (resolveContracts (sw_resolver w) (watchedSeries p (scope_of r)))"

text \<open>The decision was due: nothing open, no promised series gone, every gating series shippable on what was read.\<close>

definition due :: "(string \<Rightarrow> string) \<Rightarrow> string compare \<Rightarrow> ship_world \<Rightarrow> release \<Rightarrow> product \<Rightarrow> string \<Rightarrow> bool" where
  "due sha256 name_cmp w r p now \<longleftrightarrow>
     sw_openIssues w (rl_id r) = 0 \<and> snd (resolveWatchedSeries p (scope_of r)) = []
     \<and> list_all (shippable sha256 name_cmp (evidence_read name_cmp w r p now)) (filter gates (watchedSeries p (scope_of r)))"

text \<open>And it still stands in the rows it is written into: the release as read, the product with the policy and the questions read,
  the same issues open, the same evaluations newest.\<close>

definition still_stands ::
    "(string \<Rightarrow> string) \<Rightarrow> string compare \<Rightarrow> release_store \<Rightarrow> ship_world \<Rightarrow> release \<Rightarrow> product \<Rightarrow> string \<Rightarrow> bool" where
  "still_stands sha256 name_cmp s w r p now \<longleftrightarrow>
     (case release_get (rt_releases s) (rl_tenant r) (rl_id r) of None \<Rightarrow> False
      | Some live \<Rightarrow> rl_status live = rl_status r \<and> version_of (rl_version live) = version_of (rl_version r))
     \<and> (case product_peek (rt_products s) (pd_id p) of None \<Rightarrow> False
        | Some q \<Rightarrow> pd_policyDigest q = Some (productReleasePolicyDigest sha256 name_cmp p)
            \<and> pd_definitionDigest q = Some (productEvaluationDefinitionDigest sha256 name_cmp p))
     \<and> (case rt_sources s of None \<Rightarrow> True
        | Some src \<Rightarrow> ds_openIssues src (rl_id r) = sw_openIssues w (rl_id r)
            \<and> list_all (\<lambda>x. ds_newestCandidateAt src (pd_id p) (ps_key x)
                = map_option po_createdAt (sx_latest (evidence_read name_cmp w r p now) (ps_key x)))
                (watchedSeries p (scope_of r)))"

lemma series_verdict_scope: "fst (seriesVerdict sha256 name_cmp latest baseline gate ok contract) \<noteq> Ship_scope_invalid"
proof -
  have "of_gate g \<noteq> Ship_scope_invalid" for g by (cases g) simp_all
  then show ?thesis
    by (cases contract; cases latest; cases baseline; cases gate) (simp_all add: seriesVerdict_def)
qed

lemma state_fields:
  "ss_key (series_state_of sha256 name_cmp ev x) = ps_key x"
  "ss_verdict (series_state_of sha256 name_cmp ev x) \<noteq> Ship_scope_invalid"
  "map_option qe_createdAt (ss_latest (series_state_of sha256 name_cmp ev x)) = map_option po_createdAt (sx_latest ev (ps_key x))"
proof -
  show "ss_verdict (series_state_of sha256 name_cmp ev x) \<noteq> Ship_scope_invalid"
    by (simp add: series_state_of_def Let_def final_verdict_def base_verdict_def series_verdict_scope)
qed (simp_all add: series_state_of_def Let_def option.map_comp comp_def)

text \<open>Every watched series is a candidate of the context.\<close>

lemma watched_pinned:
  assumes "x \<in> set (watchedSeries p scope)"
  shows "candidate_pin_of (series_state_of sha256 name_cmp ev x)
    \<in> set (cx_candidates (context_of (releaseReadiness sha256 name_cmp scope p ev n)))"
proof -
  have "series_state_of sha256 name_cmp ev x
      \<in> set (filter (\<lambda>s. ss_verdict s \<noteq> Ship_scope_invalid) (rd_series (releaseReadiness sha256 name_cmp scope p ev n)))"
    using assms state_fields(2) by (auto simp: releaseReadiness_def Let_def watchedSeries_def)
  then show ?thesis by (auto simp: context_of_def)
qed

lemma context_covers:
  assumes "x \<in> set (watchedSeries p scope)"
  shows "\<exists>c \<in> set (cx_candidates (context_of (releaseReadiness sha256 name_cmp scope p ev n))).
     cp_seriesKey c = ps_key x \<and> map_option (\<lambda>(_, t, _). t) (cp_pin c) = map_option po_createdAt (sx_latest ev (ps_key x))"
proof -
  let ?st = "series_state_of sha256 name_cmp ev x"
  have "map_option (\<lambda>(_, t, _). t) (cp_pin (candidate_pin_of ?st)) = map_option qe_createdAt (ss_latest ?st)"
    "cp_seriesKey (candidate_pin_of ?st) = ss_key ?st"
    by (simp_all add: candidate_pin_of_def option.map_comp comp_def)
  then show ?thesis unfolding state_fields(1,3) using watched_pinned [OF assms] by blast
qed

lemma readiness_read:
  "readinessUnder sha256 name_cmp w r p now (resolveContracts (sw_resolver w) (watchedSeries p (scope_of r)))
     = releaseReadiness sha256 name_cmp (scope_of r) p (evidence_read name_cmp w r p now) (sw_openIssues w (rl_id r))"
  by (simp add: readinessUnder_def evidence_read_def)

lemma unblocked_is_ready:
  "\<not> blocked_change (status_change_of sha256 name_cmp w r p (releaseReadiness sha256 name_cmp scope q ev n) cs to force)
    \<longleftrightarrow> rd_ready (releaseReadiness sha256 name_cmp scope q ev n)"
  by (auto simp: blocked_change_def status_change_of_def releaseReadiness_def Let_def)

lemma find_put_same:
  "find (\<lambda>r. rl_id r = i) rows = Some live \<Longrightarrow> rl_id n = i \<Longrightarrow> find (\<lambda>r. rl_id r = i) (release_put n rows) = Some n"
  by (induction rows) (auto simp: release_put_def)

subsection \<open>The anchor a ship leaves\<close>

lemma append_entry_last: "append_entry h e \<noteq> [] \<and> last (append_entry h e) = e"
  by (simp add: append_entry_def Let_def TRACKER_HISTORY_LIMIT_def)

lemma stamp_last_last: "es \<noteq> [] \<Longrightarrow> stamp_last d es \<noteq> [] \<and> last (stamp_last d es) = (last es)\<lparr>rh_detail := stamp_detail d (rh_detail (last es))\<rparr>"
  by (simp add: stamp_last_def)

lemma stamp_keeps_decisions [simp]: "decisions_in (stamp_detail d x) = decisions_in x"
  by (cases x) simp_all

lemma last_filter: "es \<noteq> [] \<Longrightarrow> P (last es) \<Longrightarrow> filter P es \<noteq> [] \<and> last (filter P es) = last es"
  by (induction es rule: rev_induct) auto

text \<open>The entry a ship leaves at the end of the history: its decisions are those of the readiness it read.\<close>

lemma shipped_history:
  assumes "decide_status sha256 name_cmp w tenant i Rel_released force who now = Inr plan"
  shows "\<exists>es. rw_history (sn_patch plan) = Some es \<and> es \<noteq> [] \<and> rh_event (last es) = Rel_shipped
    \<and> decisions_in (rh_detail (last es)) = map (decision_of (sn_contracts plan)) (rd_series (sn_readiness plan))"
    "rw_status (sn_patch plan) = Some Rel_released" "rw_releasedAt (sn_patch plan) = Some (Some now)"
  using assms
proof (atomize(full), elim decide_Inr, goal_cases)
  case (1 r p)
  let ?i = "status_change_of sha256 name_cmp w r p (sn_readiness plan) (sn_contracts plan) Rel_released force"
  let ?e = "\<lparr>rh_at = now, rh_by = who, rh_event = Rel_shipped, rh_detail = Status_decided (change_detail r ?i now)\<rparr>"
  obtain patch where "release_setStatus r ?i who now = Inr (patch, sn_facts plan)"
    and sp: "sn_patch plan = stamped_patch sha256 (pd_id p) (sn_context plan) patch" using 1(7) by blast
  then have patch: "patch = status_patch r (change_detail r ?i now) who now" using set_status_Inr(2) by blast
  have to: "st_to (change_detail r ?i now) = Rel_released" by (simp add: change_detail_def Let_def status_change_of_def)
  obtain cx where cx: "sn_context plan = Some cx" using 1(8) by (simp add: context_for_def)
  let ?d = "digest_of sha256 (context_json (pd_id p) cx)"
  have "rw_history (sn_patch plan) = Some (stamp_last ?d (append_entry (rl_history r) ?e))"
    by (simp add: sp cx stamped_patch_def patch status_patch_def to change_event_def)
  moreover have "decisions_in (rh_detail ?e) = map (decision_of (sn_contracts plan)) (rd_series (sn_readiness plan))"
    by (simp add: change_detail_def Let_def status_change_of_def)
  ultimately show ?case
    using append_entry_last [of "rl_history r" ?e] stamp_last_last [of "append_entry (rl_history r) ?e" ?d]
    by (simp add: sp cx stamped_patch_def patch status_patch_def to)
qed

lemma decision_found:
  "find (\<lambda>d. dn_key d = k) (map (decision_of cs) states) = map_option (decision_of cs) (find (\<lambda>s. ss_key s = k) states)"
  by (induction states) (auto simp: decision_of_def)

end
