(* ===== verification/SeriesContractLaws.thy ===== *)
theory SeriesContractLaws
  imports SeriesContract
begin

text \<open>
  What the digest of an evaluation contract identifies, and how a comparison across worlds is labelled.
\<close>

subsection \<open>Members of documents in normal form\<close>

text \<open>The member of an object: the first defined entry under the key.\<close>

definition member_of :: "string \<Rightarrow> (string \<times> json) list \<Rightarrow> json option" where
  "member_of k kvs = map_of (filter defined_entry kvs) k"

named_theorems members \<open>members of the documents built here\<close>

lemma member_Nil [members]: "member_of k [] = None"
  by (simp add: member_of_def)

lemma member_Cons [members]:
  "v \<noteq> JUndefined \<Longrightarrow> member_of k ((k', v) # kvs) = (if k = k' then Some v else member_of k kvs)"
  by (simp add: member_of_def defined_entry_def)

lemma member_absent: "k \<notin> set (map fst b) \<Longrightarrow> member_of k b = None"
  by (auto simp: member_of_def map_of_eq_None_iff)

lemma member_skip [members]: "k \<noteq> k' \<Longrightarrow> member_of k (opt_text k' v @ b) = member_of k b"
  "k \<noteq> k' \<Longrightarrow> member_of k (opt_map k' m @ b) = member_of k b"
  "k \<noteq> k' \<Longrightarrow> member_of k (opt_texts k' vs @ b) = member_of k b"
  by (auto simp: member_of_def opt_text_def opt_map_def opt_texts_def split: option.split)

lemma member_here [members]:
  "k \<notin> set (map fst b) \<Longrightarrow> member_of k (opt_text k v @ b) = map_option JStr v"
  "k \<notin> set (map fst b) \<Longrightarrow> member_of k (opt_map k m @ b) = map_option text_map m"
  by (auto simp: opt_text_def opt_map_def text_map_def member_absent member_of_def defined_entry_def map_of_eq_None_iff
      split: option.split)

lemma member_opt_text [members]: "member_of k (opt_text k' v) = (if k = k' then map_option JStr v else None)"
  by (simp add: opt_text_def member_of_def defined_entry_def split: option.split)

lemma member_opt_map [members]: "member_of k (opt_map k' v) = (if k = k' then map_option text_map v else None)"
  by (simp add: opt_map_def member_of_def defined_entry_def text_map_def split: option.split)

lemma member_opt_texts [members]:
  "member_of k (opt_texts k' v) = (if k = k' then map_option (\<lambda>xs. JArr (map JStr xs)) v else None)"
  by (simp add: opt_texts_def member_of_def defined_entry_def split: option.split)

text \<open>Objects with the same normal form have the same members, up to normal form.\<close>

lemma same_members:
  assumes "normal_form (JObj a) = normal_form (JObj b)" "distinct (map fst a)" "distinct (map fst b)"
  shows "map_option normal_form (member_of k a) = map_option normal_form (member_of k b)"
proof -
  let ?n = "\<lambda>kvs. map (\<lambda>kv. (fst kv, normal_form (snd kv))) (sort_by key_cmp (filter defined_entry kvs))"
  have n: "map_of (?n kvs) k = map_option normal_form (member_of k kvs)" if "distinct (map fst kvs)" for kvs
  proof -
    let ?s = "sort_by key_cmp (filter defined_entry kvs)"
    have "mset (map fst ?s) = mset (map fst (filter defined_entry kvs))" by simp
    moreover have "distinct (map fst (filter defined_entry kvs))" using that by (simp add: distinct_map_filter)
    ultimately have "distinct (map fst ?s)" by (metis distinct_count_atmost_1 set_mset_mset)
    then have "map_of ?s = map_of (filter defined_entry kvs)"
      using \<open>distinct (map fst (filter defined_entry kvs))\<close> by (intro map_of_inject_set [THEN iffD2]) auto
    moreover have "map_of (?n kvs) k = map_option normal_form (map_of ?s k)"
      using map_of_map [of normal_form ?s] by (simp add: split_def comp_def)
    ultimately show ?thesis by (simp add: member_of_def)
  qed
  have "?n a = ?n b" using assms(1) by simp
  then show ?thesis using n [OF assms(2)] n [OF assms(3)] by metis
qed

lemma norm_text [simp]: "map_option normal_form (map_option JStr v) = map_option normal_form (map_option JStr w) \<longleftrightarrow> v = w"
  by (cases v; cases w) auto

lemma norm_text_map:
  assumes "normal_form (text_map a) = normal_form (text_map b)" "distinct (map fst a)" "distinct (map fst b)"
  shows "map_of a = map_of b"
proof
  fix k
  have m: "member_of k (map (\<lambda>kv. (fst kv, JStr (snd kv))) kvs) = map_option JStr (map_of kvs k)" for kvs
    by (induction kvs) (auto simp: members)
  show "map_of a k = map_of b k"
    using same_members [OF assms(1) [unfolded text_map_def], of k] assms(2,3) by (simp add: m comp_def)
qed

subsection \<open>The parts of a contract\<close>

text \<open>The keys of an object are distinct.\<close>

definition keyed_once :: "(string \<times> string) list option \<Rightarrow> bool" where
  "keyed_once m = (case m of None \<Rightarrow> True | Some kvs \<Rightarrow> distinct (map fst kvs))"

definition contract_ok :: "series_contract \<Rightarrow> bool" where
  "contract_ok c \<longleftrightarrow> keyed_once (ec_serviceModels c) \<and> keyed_once (ec_serviceModelDigests c)
     \<and> list_all (\<lambda>j. keyed_once (cj_harnessServiceModelDigests j))
         (case ec_judgeClosure c of None \<Rightarrow> [] | Some js \<Rightarrow> js)"

text \<open>A judge of the closure, its service models read as a map.\<close>

definition judge_facts :: "closure_judge \<Rightarrow> (string option list \<times> (string \<rightharpoonup> string) option)" where
  "judge_facts j =
     ([Some (cj_id j), Some (cj_version j), cj_specDigest j, cj_model j, cj_rubric j, cj_harness j, cj_modelDigest j,
       cj_rubricDigest j, cj_harnessDigest j, cj_harnessModelDigest j],
      map_option map_of (cj_harnessServiceModelDigests j))"

text \<open>Two contracts ask the same question: the same documents, the same judges in any order, the same closure beneath.\<close>

definition same_question :: "series_contract \<Rightarrow> series_contract \<Rightarrow> bool" where
  "same_question c d \<longleftrightarrow>
     ec_dataset c = ec_dataset d \<and> ec_harness c = ec_harness d \<and> mset (ec_judges c) = mset (ec_judges d)
     \<and> ec_harnessModel c = ec_harnessModel d
     \<and> map_option map_of (ec_serviceModels c) = map_option map_of (ec_serviceModels d)
     \<and> ec_harnessModelDigest c = ec_harnessModelDigest d
     \<and> map_option map_of (ec_serviceModelDigests c) = map_option map_of (ec_serviceModelDigests d)
     \<and> map_option (\<lambda>js. image_mset judge_facts (mset js)) (ec_judgeClosure c)
         = map_option (\<lambda>js. image_mset judge_facts (mset js)) (ec_judgeClosure d)
     \<and> ec_judgeRun c = ec_judgeRun d \<and> ec_judgeRunModelDigest c = ec_judgeRunModelDigest d"

lemma norm_opt_map:
  assumes "map_option normal_form (map_option text_map x) = map_option normal_form (map_option text_map y)"
    and "keyed_once x" "keyed_once y"
  shows "map_option map_of x = map_option map_of y"
proof (cases x)
  case (Some a)
  then obtain b where b: "y = Some b" using assms(1) by (cases y) auto
  then have "normal_form (text_map a) = normal_form (text_map b)" using assms(1) Some by (simp del: normal_form.simps)
  then show ?thesis using norm_text_map [of a b] assms(2,3) Some b by (simp add: keyed_once_def)
qed (use assms(1) in \<open>cases y; simp\<close>)

lemma keys_opt_text [simp]: "set (map fst (opt_text k v)) \<subseteq> {k}" "distinct (map fst (opt_text k v))"
  by (auto simp: opt_text_def split: option.split)

lemma fst_opt_text [simp]: "fst ` set (opt_text k v) = {x. x = k \<and> v \<noteq> None}"
  by (auto simp: opt_text_def split: option.split)

lemma fst_opt_map [simp]: "fst ` set (opt_map k v) = {x. x = k \<and> v \<noteq> None}" "distinct (map fst (opt_map k v))"
  by (auto simp: opt_map_def split: option.split)

lemma sealed_determined:
  assumes "normal_form (sealed_json k a) = normal_form (sealed_json k b)" "k = ''digest'' \<or> k = ''specDigest''"
  shows "a = b"
proof -
  have m: "map_option normal_form (member_of x ([(''id'', JStr (sl_id a)), (''version'', JStr (sl_version a))] @ opt_text k (sl_digest a)))
      = map_option normal_form (member_of x ([(''id'', JStr (sl_id b)), (''version'', JStr (sl_version b))] @ opt_text k (sl_digest b)))" for x
    using assms(2) by (intro same_members assms(1) [unfolded sealed_json_def]) auto
  show ?thesis
    using m [of "''id''"] m [of "''version''"] m [of k] assms(2) by (auto simp: members intro!: sealed_ref.equality)
qed

lemma ref_determined: "normal_form (ref_json r) = normal_form (ref_json s) \<Longrightarrow> r = s"
  using same_members [of "[(''id'', JStr (fst r)), (''version'', JStr (snd r))]" "[(''id'', JStr (fst s)), (''version'', JStr (snd s))]" "''id''"]
    same_members [of "[(''id'', JStr (fst r)), (''version'', JStr (snd r))]" "[(''id'', JStr (fst s)), (''version'', JStr (snd s))]" "''version''"]
  unfolding ref_json_def by (simp add: members prod_eq_iff del: normal_form.simps(7))

lemma judge_run_determined:
  assumes "normal_form (judge_run_json r) = normal_form (judge_run_json s)"
  shows "r = s"
proof -
  have m: "map_option normal_form (member_of x (opt_text ''provider'' (jr_provider r) @ [(''model'', JStr (jr_model r))]))
      = map_option normal_form (member_of x (opt_text ''provider'' (jr_provider s) @ [(''model'', JStr (jr_model s))]))" for x
    by (intro same_members assms [unfolded judge_run_json_def]) auto
  show ?thesis
    using m [of "''provider''"] m [of "''model''"] by (auto simp: members intro!: judge_run.equality)
qed

lemma closure_determined:
  assumes "normal_form (closure_json i) = normal_form (closure_json j)"
    and "keyed_once (cj_harnessServiceModelDigests i)" "keyed_once (cj_harnessServiceModelDigests j)"
  shows "judge_facts i = judge_facts j"
proof -
  define ms where "ms k = [(''id'', JStr (cj_id k)), (''version'', JStr (cj_version k))]
       @ opt_text ''specDigest'' (cj_specDigest k) @ opt_text ''model'' (cj_model k)
       @ opt_text ''rubric'' (cj_rubric k) @ opt_text ''harness'' (cj_harness k)
       @ opt_text ''modelDigest'' (cj_modelDigest k) @ opt_text ''rubricDigest'' (cj_rubricDigest k)
       @ opt_text ''harnessDigest'' (cj_harnessDigest k)
       @ opt_text ''harnessModelDigest'' (cj_harnessModelDigest k)
       @ opt_map ''harnessServiceModelDigests'' (cj_harnessServiceModelDigests k)" for k :: closure_judge
  have d: "distinct (map fst (ms k))" for k by (auto simp: ms_def)
  have m: "map_option normal_form (member_of x (ms i)) = map_option normal_form (member_of x (ms j))" for x
    using assms(1) unfolding closure_json_def by (intro same_members d) (simp only: ms_def)
  have texts: "cj_id i = cj_id j" "cj_version i = cj_version j" "cj_specDigest i = cj_specDigest j"
    "cj_model i = cj_model j" "cj_rubric i = cj_rubric j" "cj_harness i = cj_harness j"
    "cj_modelDigest i = cj_modelDigest j" "cj_rubricDigest i = cj_rubricDigest j"
    "cj_harnessDigest i = cj_harnessDigest j" "cj_harnessModelDigest i = cj_harnessModelDigest j"
    using m [of "''id''"] m [of "''version''"] m [of "''specDigest''"] m [of "''model''"] m [of "''rubric''"]
      m [of "''harness''"] m [of "''modelDigest''"] m [of "''rubricDigest''"] m [of "''harnessDigest''"]
      m [of "''harnessModelDigest''"]
    by (simp_all add: ms_def members)
  have "map_option normal_form (map_option text_map (cj_harnessServiceModelDigests i))
      = map_option normal_form (map_option text_map (cj_harnessServiceModelDigests j))"
    using m [of "''harnessServiceModelDigests''"] by (simp add: ms_def members)
  from norm_opt_map [OF this assms(2,3)] show ?thesis by (simp add: judge_facts_def texts)
qed

lemma map_determined:
  assumes "map f xs = map f ys" "\<And>x y. x \<in> set xs \<Longrightarrow> y \<in> set ys \<Longrightarrow> f x = f y \<Longrightarrow> h x = h y"
  shows "map h xs = map h ys"
  using assms
proof (induction xs arbitrary: ys)
  case (Cons x xs)
  then obtain y zs where ys: "ys = y # zs" by (cases ys) auto
  have "map f xs = map f zs" using Cons.prems(1) ys by simp
  moreover have "h u = h v" if "u \<in> set xs" "v \<in> set zs" "f u = f v" for u v
    using Cons.prems(2) [of u v] that ys by simp
  ultimately have "map h xs = map h zs" using Cons.IH [of zs] by blast
  moreover have "h x = h y" using Cons.prems(1) Cons.prems(2) [of x y] ys by simp
  ultimately show ?case by (simp add: ys)
qed simp

subsection \<open>The identity is a document\<close>

lemma json_ok_opt_text [simp]: "list_all (\<lambda>kv. json_ok (snd kv)) (opt_text k v)"
  by (simp add: opt_text_def split: option.split)

lemma json_ok_opt_map: "keyed_once m \<Longrightarrow> list_all (\<lambda>kv. json_ok (snd kv)) (opt_map k m)"
  by (auto simp: opt_map_def text_map_def keyed_once_def comp_def list_all_iff split: option.split)

lemma keyed_sorted [simp]: "keyed_once (map_option (sorted_entries name_cmp) m) = keyed_once m"
proof (cases m)
  case (Some kvs)
  have "mset (map fst (sorted_entries name_cmp kvs)) = mset (map fst kvs)" by (simp add: sorted_entries_def)
  then have "distinct (map fst (sorted_entries name_cmp kvs)) = distinct (map fst kvs)" by (metis mset_eq_imp_distinct_iff)
  then show ?thesis by (simp add: keyed_once_def Some)
qed simp

lemma map_of_sorted: "keyed_once m \<Longrightarrow> map_option map_of (map_option (sorted_entries name_cmp) m) = map_option map_of m"
proof (cases m)
  case (Some kvs)
  assume k: "keyed_once m"
  then have d: "distinct (map fst kvs)" by (simp add: keyed_once_def Some)
  moreover have "distinct (map fst (sorted_entries name_cmp kvs))"
    using keyed_sorted [of name_cmp m] k by (simp add: keyed_once_def Some)
  ultimately have "map_of (sorted_entries name_cmp kvs) = map_of kvs"
    by (intro map_of_inject_set [THEN iffD2]) (auto simp: sorted_entries_def)
  then show ?thesis by (simp add: Some)
qed simp

lemma sealed_ok [simp]: "k = ''digest'' \<or> k = ''specDigest'' \<Longrightarrow> json_ok (sealed_json k d)"
  by (auto simp: sealed_json_def)

lemma closure_ok: "keyed_once (cj_harnessServiceModelDigests j) \<Longrightarrow> json_ok (closure_json j)"
  using json_ok_opt_map by (auto simp: closure_json_def)

lemma judge_run_ok [simp]: "json_ok (judge_run_json r)"
  by (auto simp: judge_run_json_def)

lemma documents_defined [simp]: "sealed_json k d \<noteq> JUndefined" "ref_json r \<noteq> JUndefined" "closure_json j \<noteq> JUndefined"
  "judge_run_json x \<noteq> JUndefined" "json_ok (ref_json r)"
  by (simp_all add: sealed_json_def ref_json_def closure_json_def judge_run_json_def)

lemma by_id_set [simp]: "set (by_id name_cmp f xs) = set xs" "mset (by_id name_cmp f xs) = mset xs"
  by (simp_all add: by_id_def)

definition closure_member :: "string compare \<Rightarrow> closure_judge list option \<Rightarrow> (string \<times> json) list" where
  "closure_member name_cmp m =
     (case m of None \<Rightarrow> []
      | Some js \<Rightarrow> [(''judgeClosure'', JArr (map closure_json (by_id name_cmp (\<lambda>j. (cj_id j, cj_version j)) js)))])"

definition run_member :: "judge_run option \<Rightarrow> (string \<times> json) list" where
  "run_member m = (case m of None \<Rightarrow> [] | Some r \<Rightarrow> [(''judgeRun'', judge_run_json r)])"

lemma contract_members_alt:
  "contract_members name_cmp c =
     [(''dataset'', sealed_json ''digest'' (ec_dataset c)),
      (''harness'', sealed_json ''specDigest'' (ec_harness c)),
      (''judges'', JArr (map ref_json (by_id name_cmp (\<lambda>r. r) (ec_judges c))))]
     @ opt_text ''harnessModel'' (ec_harnessModel c)
     @ opt_map ''serviceModels'' (map_option (sorted_entries name_cmp) (ec_serviceModels c))
     @ opt_text ''harnessModelDigest'' (ec_harnessModelDigest c)
     @ opt_map ''serviceModelDigests'' (map_option (sorted_entries name_cmp) (ec_serviceModelDigests c))
     @ closure_member name_cmp (ec_judgeClosure c) @ run_member (ec_judgeRun c)
     @ opt_text ''judgeRunModelDigest'' (ec_judgeRunModelDigest c)"
  by (simp add: contract_members_def closure_member_def run_member_def)

lemma fst_member [simp]:
  "fst ` set (closure_member name_cmp m) = {x. x = ''judgeClosure'' \<and> m \<noteq> None}"
  "fst ` set (run_member r) = {x. x = ''judgeRun'' \<and> r \<noteq> None}"
  "distinct (map fst (closure_member name_cmp m))" "distinct (map fst (run_member r))"
  by (auto simp: closure_member_def run_member_def split: option.split)

lemma member_rest [members]:
  "k \<noteq> ''judgeClosure'' \<Longrightarrow> member_of k (closure_member name_cmp m @ b) = member_of k b"
  "k \<noteq> ''judgeRun'' \<Longrightarrow> member_of k (run_member r @ b) = member_of k b"
  "''judgeClosure'' \<notin> set (map fst b) \<Longrightarrow> member_of ''judgeClosure'' (closure_member name_cmp m @ b)
     = map_option (\<lambda>js. JArr (map closure_json (by_id name_cmp (\<lambda>j. (cj_id j, cj_version j)) js))) m"
  "''judgeRun'' \<notin> set (map fst b) \<Longrightarrow> member_of ''judgeRun'' (run_member r @ b) = map_option judge_run_json r"
  by (auto simp: closure_member_def run_member_def member_of_def defined_entry_def map_of_eq_None_iff split: option.split)

lemma contract_keys [simp]: "distinct (map fst (contract_members name_cmp c))"
  by (auto simp: contract_members_alt)

lemma identity_ok: "contract_ok c \<Longrightarrow> json_ok (seriesContractIdentity name_cmp c)"
proof -
  assume ok: "contract_ok c"
  have "list_all (\<lambda>kv. json_ok (snd kv)) (closure_member name_cmp (ec_judgeClosure c))"
    using ok by (cases "ec_judgeClosure c") (simp_all add: contract_ok_def closure_member_def list_all_iff closure_ok)
  moreover have "list_all (\<lambda>kv. json_ok (snd kv)) (run_member (ec_judgeRun c))"
    by (simp add: run_member_def split: option.split)
  ultimately have "list_all (\<lambda>kv. json_ok (snd kv)) (contract_members name_cmp c)"
    using ok by (simp add: contract_members_alt contract_ok_def json_ok_opt_map) (simp add: list_all_iff)
  then show ?thesis by (simp add: seriesContractIdentity_def)
qed

subsection \<open>Lists of documents\<close>

lemma same_refs:
  assumes "map (\<lambda>r. normal_form (ref_json r)) (by_id name_cmp f xs) = map (\<lambda>r. normal_form (ref_json r)) (by_id name_cmp f ys)"
  shows "mset xs = mset ys"
proof -
  have "map (\<lambda>r. r) (by_id name_cmp f xs) = map (\<lambda>r. r) (by_id name_cmp f ys)"
    using assms by (rule map_determined) (rule ref_determined)
  then show ?thesis by (metis by_id_set(2) list.map_ident)
qed

lemma same_map:
  assumes "map_option normal_form (map_option text_map (map_option (sorted_entries name_cmp) x))
      = map_option normal_form (map_option text_map (map_option (sorted_entries name_cmp) y))"
    and "keyed_once x" "keyed_once y"
  shows "map_option map_of x = map_option map_of y"
  using norm_opt_map [OF assms(1)] assms(2,3) map_of_sorted by (metis keyed_sorted)

lemma same_closure:
  assumes "map_option normal_form (map_option (\<lambda>js. JArr (map closure_json (by_id name_cmp f js))) x)
      = map_option normal_form (map_option (\<lambda>js. JArr (map closure_json (by_id name_cmp f js))) y)"
    and "list_all (\<lambda>j. keyed_once (cj_harnessServiceModelDigests j)) (case x of None \<Rightarrow> [] | Some js \<Rightarrow> js)"
    and "list_all (\<lambda>j. keyed_once (cj_harnessServiceModelDigests j)) (case y of None \<Rightarrow> [] | Some js \<Rightarrow> js)"
  shows "map_option (\<lambda>js. image_mset judge_facts (mset js)) x = map_option (\<lambda>js. image_mset judge_facts (mset js)) y"
proof (cases x)
  case (Some a)
  then obtain b where b: "y = Some b" using assms(1) by (cases y) auto
  have "map (\<lambda>j. normal_form (closure_json j)) (by_id name_cmp f a) = map (\<lambda>j. normal_form (closure_json j)) (by_id name_cmp f b)"
    using assms(1) Some b by (simp add: comp_def)
  then have "map judge_facts (by_id name_cmp f a) = map judge_facts (by_id name_cmp f b)"
    by (rule map_determined) (use assms(2,3) Some b in \<open>auto intro: closure_determined simp: list_all_iff\<close>)
  then have "mset (map judge_facts (by_id name_cmp f a)) = mset (map judge_facts (by_id name_cmp f b))" by simp
  then show ?thesis by (simp add: Some b)
qed (use assms(1) in \<open>cases y; simp\<close>)

lemma same_run:
  "map_option normal_form (map_option judge_run_json x) = map_option normal_form (map_option judge_run_json y) \<Longrightarrow> x = y"
  using judge_run_determined by (cases x; cases y) auto

subsection \<open>Properties\<close>

text \<open>C27. A digest of an evaluation contract names its question: as far as SHA-256 has no collision between the two texts, two
  contracts with the same digest ask for the same documents under the same bytes, the same judges whatever their order, and
  the same models and documents beneath them.\<close>

theorem contract_digest_names_question:
  assumes "contract_ok c" "contract_ok d"
    and "sha256 (canonicalize (seriesContractIdentity name_cmp c)) = sha256 (canonicalize (seriesContractIdentity name_cmp d))
         \<Longrightarrow> canonicalize (seriesContractIdentity name_cmp c) = canonicalize (seriesContractIdentity name_cmp d)"
    and "seriesContractDigest sha256 name_cmp c = seriesContractDigest sha256 name_cmp d"
  shows "same_question c d"
proof -
  have defined: "seriesContractIdentity name_cmp x \<noteq> JUndefined" for x by (simp add: seriesContractIdentity_def)
  have "canonicalize (seriesContractIdentity name_cmp c) = canonicalize (seriesContractIdentity name_cmp d)"
    using assms(3,4) defined by (simp add: seriesContractDigest_def contentDigest_def canonicalText_def)
  then have "normal_form (JObj (contract_members name_cmp c)) = normal_form (JObj (contract_members name_cmp d))"
    using canonicalize_eq_iff identity_ok assms(1,2) defined unfolding seriesContractIdentity_def by blast
  then have m: "map_option normal_form (member_of k (contract_members name_cmp c))
      = map_option normal_form (member_of k (contract_members name_cmp d))" for k
    by (intro same_members) simp_all
  note n = m [unfolded contract_members_alt]
  have "ec_dataset c = ec_dataset d"
    using n [of "''dataset''"] by (intro sealed_determined [of "''digest''"]) (simp_all add: members)
  moreover have "ec_harness c = ec_harness d"
    using n [of "''harness''"] by (intro sealed_determined [of "''specDigest''"]) (simp_all add: members)
  moreover have "map (\<lambda>r. normal_form (ref_json r)) (by_id name_cmp (\<lambda>r. r) (ec_judges c))
      = map (\<lambda>r. normal_form (ref_json r)) (by_id name_cmp (\<lambda>r. r) (ec_judges d))"
    using n [of "''judges''"] by (simp add: members comp_def)
  then have "mset (ec_judges c) = mset (ec_judges d)" by (rule same_refs)
  moreover have "ec_harnessModel c = ec_harnessModel d" "ec_harnessModelDigest c = ec_harnessModelDigest d"
    "ec_judgeRunModelDigest c = ec_judgeRunModelDigest d"
    using n [of "''harnessModel''"] n [of "''harnessModelDigest''"] n [of "''judgeRunModelDigest''"]
    by (simp_all add: members)
  moreover have "map_option map_of (ec_serviceModels c) = map_option map_of (ec_serviceModels d)"
    using n [of "''serviceModels''"] assms(1,2) by (intro same_map) (simp_all add: members contract_ok_def)
  moreover have "map_option map_of (ec_serviceModelDigests c) = map_option map_of (ec_serviceModelDigests d)"
    using n [of "''serviceModelDigests''"] assms(1,2) by (intro same_map) (simp_all add: members contract_ok_def)
  moreover have "map_option (\<lambda>js. image_mset judge_facts (mset js)) (ec_judgeClosure c)
      = map_option (\<lambda>js. image_mset judge_facts (mset js)) (ec_judgeClosure d)"
    using n [of "''judgeClosure''"] assms(1,2) by (intro same_closure) (simp_all add: members contract_ok_def)
  moreover have "ec_judgeRun c = ec_judgeRun d"
    using n [of "''judgeRun''"] by (intro same_run) (simp add: members)
  ultimately show ?thesis by (simp add: same_question_def)
qed

definition sample_contract :: "(string \<times> string) list \<Rightarrow> series_contract" where
  "sample_contract js =
     \<lparr>ec_dataset = \<lparr>sl_id = ''support'', sl_version = ''1'', sl_digest = Some ''sha256:d''\<rparr>,
      ec_harness = \<lparr>sl_id = ''agent'', sl_version = ''2'', sl_digest = Some ''sha256:h''\<rparr>,
      ec_judges = js, ec_harnessModel = Some ''main@1'', ec_serviceModels = None, ec_harnessModelDigest = None,
      ec_serviceModelDigests = None, ec_judgeClosure = None,
      ec_judgeRun = Some \<lparr>jr_provider = None, jr_model = ''m''\<rparr>, ec_judgeRunModelDigest = None\<rparr>"

lemma contract_digest_names_question_witness:
  "same_question (sample_contract [(''tone'', ''1''), (''facts'', ''3'')]) (sample_contract [(''facts'', ''3''), (''tone'', ''1'')])"
proof -
  let ?c = "sample_contract [(''tone'', ''1''), (''facts'', ''3'')]" and ?d = "sample_contract [(''facts'', ''3''), (''tone'', ''1'')]"
  have ok: "contract_ok ?c" "contract_ok ?d" by (simp_all add: contract_ok_def sample_contract_def keyed_once_def)
  have "seriesContractDigest (\<lambda>t. t) code_unit_cmp ?c = seriesContractDigest (\<lambda>t. t) code_unit_cmp ?d" by code_simp
  from contract_digest_names_question [OF ok _ this] show ?thesis by blast
qed

end
