(* ===== verification/ProductLaws.thy ===== *)
theory ProductLaws
  imports Product SeriesContractLaws
begin

text \<open>
  The product aggregate: its lists stay well formed under every transition, a sync keeps to its stream, and the two digests a
  ship commits against name the policy and the questions of the series.
\<close>

subsection \<open>Lists without a repeat\<close>

lemma first_repeat_None [simp]: "first_repeat seen xs = None \<longleftrightarrow> distinct xs \<and> set xs \<inter> seen = {}"
  by (induction xs arbitrary: seen) auto

lemma first_repeat_Some: "first_repeat seen xs = Some x \<Longrightarrow> set xs \<inter> seen = {} \<Longrightarrow> \<not> distinct xs"
  by (metis first_repeat_None option.distinct(1))

lemma names_ok [simp]: "assertUniqueServiceNames xs = Inr () \<longleftrightarrow> distinct (map sv_name xs)"
  by (auto simp: assertUniqueServiceNames_def dest: first_repeat_Some split: option.split)

lemma series_ok [simp]:
  "assertSeries xs = Inr () \<longleftrightarrow> length xs \<le> PRODUCT_SERIES_LIMIT \<and> distinct (map ps_key xs)"
  by (auto simp: assertSeries_def dest: first_repeat_Some split: option.split)

definition product_ok :: "product \<Rightarrow> bool" where
  "product_ok p \<longleftrightarrow> distinct (map sv_name (pd_services p)) \<and> distinct (map ps_key (pd_series p))
     \<and> length (pd_series p) \<le> PRODUCT_SERIES_LIMIT \<and> length (pd_history p) \<le> TRACKER_HISTORY_LIMIT"

text \<open>The transitions of a product.\<close>

datatype product_call =
    Edit_product product_edit string string
  | Service_synced string string bool "string option"
  | Service_failed string string string

definition product_patch_of :: "product \<Rightarrow> product_call \<Rightarrow> product_patch res" where
  "product_patch_of p c =
     (case c of
        Edit_product f who now \<Rightarrow> product_update p f who now
      | Service_synced name t whole h \<Rightarrow> Inr (markServiceSynced p name t whole h)
      | Service_failed name t msg \<Rightarrow> Inr (markServiceSyncError p name t msg))"

text \<open>One call written: a refused one leaves the product.\<close>

definition product_after :: "product_call \<Rightarrow> product \<Rightarrow> product" where
  "product_after c p = (case product_patch_of p c of Inl e \<Rightarrow> p | Inr patch \<Rightarrow> apply_product_patch p patch)"

lemma if_moved_or_else [simp]: "or_else x (if_moved x y) = or_else x y"
  by (auto simp: if_moved_def or_else_def split: option.splits)

lemma carry_name [simp]: "sv_name (carry_sync old s) = sv_name s"
  by (simp add: carry_sync_def split: option.split)

lemma update_ok:
  assumes "product_update p f who now = Inr patch" "product_ok p"
  shows "product_ok (apply_product_patch p patch)"
proof -
  have s: "(case pe_services f of None \<Rightarrow> Inr () | Some xs \<Rightarrow> assertUniqueServiceNames xs) = Inr ()"
    and t: "(case pe_series f of None \<Rightarrow> Inr () | Some xs \<Rightarrow> assertSeries xs) = Inr ()"
    using assms(1) by (auto simp: product_update_def)
  have "pd_services (apply_product_patch p patch) = or_else (pd_services p) (map_option (map (carry_sync (pd_services p))) (pe_services f))"
    and "pd_series (apply_product_patch p patch) = or_else (pd_series p) (pe_series f)"
    and "\<exists>e. pd_history (apply_product_patch p patch) = appendHistory (pd_history p) e"
    using assms(1) by (auto simp: product_update_def Let_def apply_product_patch_def or_else_def [of _ "Some x" for x]
        split: if_splits)
  moreover have "length (appendHistory h e) \<le> TRACKER_HISTORY_LIMIT" for h e
    by (simp add: appendHistory_def Let_def TRACKER_HISTORY_LIMIT_def)
  ultimately show ?thesis
    using s t assms(2) by (auto simp: product_ok_def or_else_def comp_def split: option.splits)
qed

lemma synced_name [simp]: "sv_name (synced_service t whole h s) = sv_name s"
  by (simp add: synced_service_def Let_def)

lemma services_only:
  "map sv_name xs = map sv_name (pd_services p) \<Longrightarrow> product_ok p
    \<Longrightarrow> product_ok (apply_product_patch p (no_product_patch\<lparr>pw_services := Some xs\<rparr>))"
  by (simp add: product_ok_def apply_product_patch_def no_product_patch_def or_else_def)

lemma product_after_ok: "product_ok p \<Longrightarrow> product_ok (product_after c p)"
proof (cases c)
  case (Edit_product f who now)
  assume "product_ok p"
  then show ?thesis
    using update_ok by (auto simp: product_after_def product_patch_of_def Edit_product split: sum.split)
next
  case (Service_synced name t whole h)
  assume "product_ok p"
  then show ?thesis
    by (auto simp: product_after_def product_patch_of_def Service_synced markServiceSynced_def intro!: services_only)
next
  case (Service_failed name t msg)
  assume "product_ok p"
  then show ?thesis
    by (auto simp: product_after_def product_patch_of_def Service_failed markServiceSyncError_def intro!: services_only)
qed

subsection \<open>Streams\<close>

lemma source_name_inj [simp]: "source_name a = source_name b \<longleftrightarrow> a = b"
  by (cases a; cases b) simp_all

text \<open>The key of a stream determines its coordinates, an absent host or prefix read as the empty one.\<close>

lemma stream_key_determines:
  "serviceStreamKey a = serviceStreamKey b \<longleftrightarrow>
     or_else [] (sv_host a) = or_else [] (sv_host b) \<and> sv_repository a = sv_repository b
     \<and> sv_source a = sv_source b \<and> or_else [] (sv_tagPrefix a) = or_else [] (sv_tagPrefix b)"
  unfolding serviceStreamKey_def or_else_def
  by (subst canonicalize_eq_iff) auto

subsection \<open>The digests name the policy and the questions\<close>

lemma policy_determined:
  assumes "normal_form (policy_json s) = normal_form (policy_json t)"
  shows "(ps_key s, gates s, preapproved s) = (ps_key t, gates t, preapproved t)"
proof -
  have m: "map_option normal_form (member_of k [(''key'', JStr (ps_key s)), (''required'', JBool (gates s)), (''allowNoBaseline'', JBool (preapproved s))])
      = map_option normal_form (member_of k [(''key'', JStr (ps_key t)), (''required'', JBool (gates t)), (''allowNoBaseline'', JBool (preapproved t))])" for k
    by (intro same_members assms [unfolded policy_json_def]) simp_all
  show ?thesis using m [of "''key''"] m [of "''required''"] m [of "''allowNoBaseline''"] by (simp add: members)
qed

lemma pinned_determined:
  assumes "normal_form (pinned_json r) = normal_form (pinned_json s)"
  shows "r = s"
proof -
  have d: "(case snd x of None \<Rightarrow> JNull | Some v \<Rightarrow> JStr v) \<noteq> JUndefined" for x :: capability_ref
    by (simp split: option.split)
  have m: "map_option normal_form (member_of k [(''id'', JStr (fst r)), (''version'', (case snd r of None \<Rightarrow> JNull | Some v \<Rightarrow> JStr v))])
      = map_option normal_form (member_of k [(''id'', JStr (fst s)), (''version'', (case snd s of None \<Rightarrow> JNull | Some v \<Rightarrow> JStr v))])" for k
    by (intro same_members assms [unfolded pinned_json_def]) simp_all
  show ?thesis
    using m [of "''id''"] m [of "''version''"] d [of r] d [of s]
    by (cases "snd r"; cases "snd s") (simp_all add: members prod_eq_iff)
qed

definition asks :: "product_series \<Rightarrow> string \<times> capability_ref \<times> capability_ref \<times> capability_ref multiset" where
  "asks s = (ps_key s, ps_dataset s, ps_harness s, mset (ps_judges s))"

lemma definition_determined:
  assumes "normal_form (definition_json name_cmp s) = normal_form (definition_json name_cmp t)"
  shows "asks s = asks t"
proof -
  define ms where "ms x = [(''key'', JStr (ps_key x)), (''dataset'', pinned_json (ps_dataset x)),
     (''harness'', pinned_json (ps_harness x)),
     (''judges'', JArr (map pinned_json (judges_by_id name_cmp (ps_judges x))))]" for x :: product_series
  have p: "pinned_json r \<noteq> JUndefined" for r by (simp add: pinned_json_def)
  have m: "map_option normal_form (member_of k (ms s)) = map_option normal_form (member_of k (ms t))" for k
    using assms unfolding definition_json_def by (intro same_members) (simp_all add: ms_def)
  have "map (\<lambda>r. normal_form (pinned_json r)) (judges_by_id name_cmp (ps_judges s))
      = map (\<lambda>r. normal_form (pinned_json r)) (judges_by_id name_cmp (ps_judges t))"
    using m [of "''judges''"] by (simp add: ms_def members p comp_def)
  then have "map (\<lambda>r. r) (judges_by_id name_cmp (ps_judges s)) = map (\<lambda>r. r) (judges_by_id name_cmp (ps_judges t))"
    by (rule map_determined) (rule pinned_determined)
  then have "mset (judges_by_id name_cmp (ps_judges s)) = mset (judges_by_id name_cmp (ps_judges t))" by simp
  then have "mset (ps_judges s) = mset (ps_judges t)" by (simp add: judges_by_id_def)
  moreover have "ps_key s = ps_key t" using m [of "''key''"] by (simp add: ms_def members p)
  moreover have "normal_form (pinned_json (ps_dataset s)) = normal_form (pinned_json (ps_dataset t))"
    "normal_form (pinned_json (ps_harness s)) = normal_form (pinned_json (ps_harness t))"
    using m [of "''dataset''"] m [of "''harness''"] by (simp_all add: ms_def members p)
  ultimately show ?thesis using pinned_determined by (simp add: asks_def)
qed

lemma documents_ok [simp]: "json_ok (policy_document name_cmp xs)" "json_ok (definition_document name_cmp xs)"
  by (auto simp: policy_document_def definition_document_def policy_json_def definition_json_def pinned_json_def
      list_all_iff split: option.split)

lemma documents_not_undefined [simp]:
  "policy_document name_cmp xs \<noteq> JUndefined" "definition_document name_cmp xs \<noteq> JUndefined"
  by (simp_all add: policy_document_def definition_document_def)

text \<open>Equal digests of two documents are equal normal forms, as far as SHA-256 has no collision between the two texts.\<close>

lemma digest_of_binds:
  assumes "digest_of sha256 v = digest_of sha256 w" "json_ok v" "json_ok w" "v \<noteq> JUndefined" "w \<noteq> JUndefined"
    and "sha256 (canonicalize v) = sha256 (canonicalize w) \<Longrightarrow> canonicalize v = canonicalize w"
  shows "normal_form v = normal_form w"
  using assms canonicalize_eq_iff by (simp add: digest_of_def contentDigest_def canonicalText_def)

text \<open>A row of the store carries the digests of its own series.\<close>

definition row_stamped :: "(string \<Rightarrow> string) \<Rightarrow> string compare \<Rightarrow> product \<Rightarrow> bool" where
  "row_stamped sha256 name_cmp p \<longleftrightarrow>
     pd_policyDigest p = Some (productReleasePolicyDigest sha256 name_cmp p)
     \<and> pd_definitionDigest p = Some (productEvaluationDefinitionDigest sha256 name_cmp p)"

lemma with_digests_stamped [simp]: "row_stamped sha256 name_cmp (with_digests sha256 name_cmp p)"
  by (simp add: row_stamped_def with_digests_def productReleasePolicyDigest_def productEvaluationDefinitionDigest_def)

lemma put_stamped:
  "row_stamped sha256 name_cmp p \<Longrightarrow> list_all (row_stamped sha256 name_cmp) rows
    \<Longrightarrow> list_all (row_stamped sha256 name_cmp) (product_put p rows)"
  by (auto simp: product_put_def list_all_iff)

lemma rows_stay_stamped:
  assumes "list_all (row_stamped sha256 name_cmp) rows"
  shows "list_all (row_stamped sha256 name_cmp) (product_create sha256 name_cmp p rows)"
    and "product_write sha256 name_cmp rows tenant i patch v = Some (q, rows') \<Longrightarrow> list_all (row_stamped sha256 name_cmp) rows'"
    and "list_all (row_stamped sha256 name_cmp) (product_remove rows tenant i)"
  using assms
  by (auto simp: product_create_def product_write_def product_remove_def Let_def put_stamped list_all_iff
      split: option.splits if_splits) (meson put_stamped list_all_iff with_digests_stamped)+

subsection \<open>Properties\<close>

text \<open>C30. A product is well formed for as long as it lives: created with services and series named once each, it keeps at most twenty
  series under distinct keys, distinct service names and a bounded history under any sequence of edits and sync marks.\<close>

theorem product_stays_well_formed:
  "(case newProduct i of Inl e \<Rightarrow> True | Inr p \<Rightarrow> product_ok (fold product_after calls p))"
proof (cases "newProduct i")
  case (Inr p)
  then have "product_ok p"
    by (auto simp: newProduct_def Let_def product_ok_def TRACKER_HISTORY_LIMIT_def)
  then have "product_ok (fold product_after calls p)" by (induction calls arbitrary: p) (simp_all add: product_after_ok)
  with Inr show ?thesis by simp
qed simp

text \<open>C28. The two digests a ship commits against mean what they say: while the stored row is stamped and SHA-256 has no collision between the
  texts, a row whose digests are those of the product the decision read gates the same series under the same pre-approvals and
  asks the same questions.\<close>

theorem guard_names_policy_and_questions:
  assumes "row_stamped sha256 name_cmp q"
    and "pd_policyDigest q = Some (productReleasePolicyDigest sha256 name_cmp p)"
    and "pd_definitionDigest q = Some (productEvaluationDefinitionDigest sha256 name_cmp p)"
    and "\<And>v w. v \<in> {policy_document name_cmp (pd_series q), definition_document name_cmp (pd_series q)}
           \<Longrightarrow> w \<in> {policy_document name_cmp (pd_series p), definition_document name_cmp (pd_series p)}
           \<Longrightarrow> sha256 (canonicalize v) = sha256 (canonicalize w) \<Longrightarrow> canonicalize v = canonicalize w"
  shows "image_mset (\<lambda>s. (ps_key s, gates s, preapproved s)) (mset (pd_series q))
       = image_mset (\<lambda>s. (ps_key s, gates s, preapproved s)) (mset (pd_series p))
    \<and> image_mset asks (mset (pd_series q)) = image_mset asks (mset (pd_series p))"
proof -
  have b: "mset (by_key name_cmp xs) = mset xs" for xs by (simp add: by_key_def)
  have "normal_form (policy_document name_cmp (pd_series q)) = normal_form (policy_document name_cmp (pd_series p))"
  proof (rule digest_of_binds [of sha256])
    show "digest_of sha256 (policy_document name_cmp (pd_series q)) = digest_of sha256 (policy_document name_cmp (pd_series p))"
      using assms(1,2) by (simp add: row_stamped_def productReleasePolicyDigest_def)
  next
    assume "sha256 (canonicalize (policy_document name_cmp (pd_series q))) = sha256 (canonicalize (policy_document name_cmp (pd_series p)))"
    then show "canonicalize (policy_document name_cmp (pd_series q)) = canonicalize (policy_document name_cmp (pd_series p))" by (intro assms(4)) auto
  qed simp_all
  then have "map (\<lambda>s. normal_form (policy_json s)) (by_key name_cmp (pd_series q))
      = map (\<lambda>s. normal_form (policy_json s)) (by_key name_cmp (pd_series p))"
    by (simp add: policy_document_def comp_def)
  then have "map (\<lambda>s. (ps_key s, gates s, preapproved s)) (by_key name_cmp (pd_series q))
      = map (\<lambda>s. (ps_key s, gates s, preapproved s)) (by_key name_cmp (pd_series p))"
    by (rule map_determined) (rule policy_determined)
  from arg_cong [OF this, of mset] have one: "image_mset (\<lambda>s. (ps_key s, gates s, preapproved s)) (mset (pd_series q))
       = image_mset (\<lambda>s. (ps_key s, gates s, preapproved s)) (mset (pd_series p))" by (simp add: b)
  have "normal_form (definition_document name_cmp (pd_series q)) = normal_form (definition_document name_cmp (pd_series p))"
  proof (rule digest_of_binds [of sha256])
    show "digest_of sha256 (definition_document name_cmp (pd_series q)) = digest_of sha256 (definition_document name_cmp (pd_series p))"
      using assms(1,3) by (simp add: row_stamped_def productEvaluationDefinitionDigest_def)
  next
    assume "sha256 (canonicalize (definition_document name_cmp (pd_series q))) = sha256 (canonicalize (definition_document name_cmp (pd_series p)))"
    then show "canonicalize (definition_document name_cmp (pd_series q)) = canonicalize (definition_document name_cmp (pd_series p))" by (intro assms(4)) auto
  qed simp_all
  then have "map (\<lambda>s. normal_form (definition_json name_cmp s)) (by_key name_cmp (pd_series q))
      = map (\<lambda>s. normal_form (definition_json name_cmp s)) (by_key name_cmp (pd_series p))"
    by (simp add: definition_document_def comp_def)
  then have "map asks (by_key name_cmp (pd_series q)) = map asks (by_key name_cmp (pd_series p))"
    by (rule map_determined) (rule definition_determined)
  from arg_cong [OF this, of mset] have "image_mset asks (mset (pd_series q)) = image_mset asks (mset (pd_series p))"
    by (simp add: b)
  with one show ?thesis by blast
qed

definition sample_series :: "string \<Rightarrow> product_series" where
  "sample_series label = \<lparr>ps_key = ''quality'', ps_label = label, ps_dataset = (''support'', None),
     ps_harness = (''agent'', Some ''2''), ps_judges = [(''tone'', None)], ps_required = None, ps_allowNoBaseline = None\<rparr>"

definition sample_product :: "string \<Rightarrow> product" where
  "sample_product label = \<lparr>pd_version = None, pd_policyDigest = None, pd_definitionDigest = None, pd_id = ''p'',
     pd_tenant = ''acme'', pd_slug = None, pd_name = ''Desk'', pd_description = None, pd_icon = None, pd_services = [],
     pd_series = [sample_series label], pd_autoEval = (True, None), pd_history = [], pd_createdBy = ''kim'',
     pd_createdAt = ''t0'', pd_updatedAt = ''t0''\<rparr>"

lemma guard_names_policy_and_questions_witness:
  "image_mset asks (mset (pd_series (with_digests (\<lambda>t. t) code_unit_cmp (sample_product ''Quality''))))
     = image_mset asks (mset (pd_series (sample_product ''Answer quality'')))"
proof -
  let ?q = "with_digests (\<lambda>t. t) code_unit_cmp (sample_product ''Quality'')" and ?p = "sample_product ''Answer quality''"
  have "policy_document code_unit_cmp (pd_series ?q) = policy_document code_unit_cmp (pd_series ?p)"
    "definition_document code_unit_cmp (pd_series ?q) = definition_document code_unit_cmp (pd_series ?p)"
    by (simp_all add: policy_document_def definition_document_def by_key_def with_digests_def sample_product_def
        sample_series_def policy_json_def definition_json_def gates_def preapproved_def)
  then have "pd_policyDigest ?q = Some (productReleasePolicyDigest (\<lambda>t. t) code_unit_cmp ?p)"
    "pd_definitionDigest ?q = Some (productEvaluationDefinitionDigest (\<lambda>t. t) code_unit_cmp ?p)"
    by (simp_all add: with_digests_def productReleasePolicyDigest_def productEvaluationDefinitionDigest_def)
  from guard_names_policy_and_questions [OF with_digests_stamped this] show ?thesis by blast
qed

end
