(* ===== verification/ShippingTheorems.thy ===== *)
theory ShippingTheorems
  imports ShippingLaws ProductLaws
begin

text \<open>
  The properties of shipping, and a release that ships: a product with one series, its first ship approved.
\<close>

lemma ship_parts:
  assumes "setReleaseStatus sha256 name_cmp w resolver s tenant i to force who now = Inr (r', s')"
  obtains plan where "decide_status sha256 name_cmp w tenant i to force who now = Inr plan"
    "reverify resolver to plan = Inr ()"
    "applyReleaseTransition sha256 name_cmp s (sn_release plan) (sn_patch plan) (Some (sn_product plan)) (sn_context plan)
       = Inr (r', s')"
  using assms that by (auto simp: setReleaseStatus_def)

lemma plan_due:
  assumes "decide_status sha256 name_cmp w tenant i Rel_released force who now = Inr plan" "force \<noteq> Some True"
  shows "due sha256 name_cmp w (sn_release plan) (sn_product plan) now"
  using assms(1)
proof (rule decide_Inr)
  fix r p
  let ?i = "status_change_of sha256 name_cmp w r p (sn_readiness plan) (sn_contracts plan) Rel_released force"
  assume e: "sn_release plan = r" "sn_product plan = p"
    and cs: "sn_contracts plan = resolveContracts (sw_resolver w) (watchedSeries p (scope_of r))"
    and rd: "sn_readiness plan = readinessUnder sha256 name_cmp w r p now (sn_contracts plan)"
    and set: "\<exists>patch. release_setStatus r ?i who now = Inr (patch, sn_facts plan)
        \<and> sn_patch plan = stamped_patch sha256 (pd_id p) (sn_context plan) patch"
  have "\<not> blocked_change ?i"
    using set set_status_Inr(3) [of r ?i who now] assms(2) by (auto simp: status_change_of_def)
  then have "rd_ready (sn_readiness plan)" unfolding rd cs readiness_read unblocked_is_ready .
  then show ?thesis unfolding rd cs readiness_read ready_iff_vouched due_def e by simp
qed

lemma guard_stands:
  assumes "decide_status sha256 name_cmp w tenant i Rel_released force who now = Inr plan"
    and "applyReleaseTransition sha256 name_cmp s (sn_release plan) patch (Some (sn_product plan)) (sn_context plan) = Inr (r', s')"
  shows "still_stands sha256 name_cmp s w (sn_release plan) (sn_product plan) now"
  using assms(1)
proof (rule decide_Inr)
  fix r p
  assume e: "sn_release plan = r" "sn_product plan = p"
    and cs: "sn_contracts plan = resolveContracts (sw_resolver w) (watchedSeries p (scope_of r))"
    and rd: "sn_readiness plan = readinessUnder sha256 name_cmp w r p now (sn_contracts plan)"
    and cx: "sn_context plan = context_for Rel_released (sn_readiness plan)"
  note rd' = rd [unfolded cs readiness_read]
  obtain g where g: "release_write s (rl_tenant r) (rl_id r) patch g = Some (r', s')" "gu_status g = rl_status r"
    "gu_version g = version_of (rl_version r)"
    "gu_product g = Some (pd_id p, productReleasePolicyDigest sha256 name_cmp p, productEvaluationDefinitionDigest sha256 name_cmp p)"
    "gu_decision g = Some (pd_id p, context_of (sn_readiness plan))"
    using transition_lands [OF assms(2)] by (auto simp: e cx context_for_def)
  from g(1) show ?thesis
  proof (rule write_lands)
    fix live
    assume "release_get (rt_releases s) (rl_tenant r) (rl_id r) = Some live" "rl_status live = gu_status g"
      "version_of (rl_version live) = gu_version g"
      and "\<forall>x. gu_product g = Some x \<longrightarrow> product_guard_ok s x"
      and d: "\<forall>x. gu_decision g = Some x \<longrightarrow> decision_guard_ok s (rl_id r) x"
    moreover have "ds_openIssues src (rl_id r) = sw_openIssues w (rl_id r)
        \<and> list_all (\<lambda>x. ds_newestCandidateAt src (pd_id p) (ps_key x)
            = map_option po_createdAt (sx_latest (evidence_read name_cmp w r p now) (ps_key x))) (watchedSeries p (scope_of r))"
      if "rt_sources s = Some src" for src
    proof -
      have ok: "ds_openIssues src (rl_id r) = rd_openIssues (sn_readiness plan)"
        "\<forall>c \<in> set (cx_candidates (context_of (sn_readiness plan))).
           ds_newestCandidateAt src (pd_id p) (cp_seriesKey c) = map_option (\<lambda>(_, t, _). t) (cp_pin c)"
        using d g(5) that by (auto simp: decision_guard_ok_def context_of_def list_all_iff)
      have "rd_openIssues (sn_readiness plan) = sw_openIssues w (rl_id r)" by (simp add: rd' releaseReadiness_def Let_def)
      with ok show ?thesis unfolding rd' list_all_iff using context_covers by metis
    qed
    ultimately show ?thesis
      unfolding still_stands_def e using g(2-4)
      by (auto simp: product_guard_ok_def split: option.splits)
  qed
qed

text \<open>Where the shipped release stands after the write.\<close>

lemma ship_lands:
  assumes "setReleaseStatus sha256 name_cmp w resolver s tenant i Rel_released force who now = Inr (r', s')"
  shows "release_get (rt_releases s') tenant i = Some r' \<and> rl_status r' = Rel_released \<and> rl_releasedAt r' = Some now"
  using assms
proof (rule ship_parts)
  fix plan
  assume d: "decide_status sha256 name_cmp w tenant i Rel_released force who now = Inr plan"
    and a: "applyReleaseTransition sha256 name_cmp s (sn_release plan) (sn_patch plan) (Some (sn_product plan)) (sn_context plan)
       = Inr (r', s')"
  obtain r where r: "release_get (sw_releases w) tenant i = Some r" "sn_release plan = r" using decide_Inr [OF d] by blast
  have ids: "rl_id r = i" "rl_tenant r = tenant" using release_get_id [OF r(1)] by auto
  obtain g where "release_write s (rl_tenant r) (rl_id r) (sn_patch plan) g = Some (r', s')"
    using transition_lands [OF a] r(2) by metis
  then obtain live where live: "release_get (rt_releases s) tenant i = Some live"
    "r' = (apply_release_patch live (sn_patch plan))\<lparr>rl_version := Some (version_of (rl_version live) + 1)\<rparr>"
    "s' = s\<lparr>rt_releases := release_put r' (rt_releases s)\<rparr>"
    unfolding ids by (rule write_lands)
  have "rl_status r' = Rel_released" "rl_releasedAt r' = Some now"
    using shipped_history(2,3) [OF d] by (simp_all add: live(2) apply_release_patch_def or_else_def)
  moreover have "release_get (rt_releases s') tenant i = Some r'"
    using find_put_same [of i "rt_releases s" live r'] live(1) release_get_id [OF live(1)]
    by (simp add: live(3) release_get_iff) (simp add: live(2))
  ultimately show ?thesis by blast
qed

subsection \<open>The anchor read back\<close>

lemma anchor_recorded:
  assumes "setReleaseStatus sha256 name_cmp w resolver s tenant i Rel_released force who now = Inr (r', s')"
    and "decide_status sha256 name_cmp w tenant i Rel_released force who now = Inr plan"
  shows "baselineFromDecision (Some r') k =
     (case find (\<lambda>st. ss_key st = k) (rd_series (sn_readiness plan)) of
        None \<Rightarrow> None | Some st \<Rightarrow> map_option (\<lambda>l. (qe_scorecardId l, qe_scoring l)) (ss_latest st))"
proof -
  obtain es where es: "rw_history (sn_patch plan) = Some es" "es \<noteq> []" "rh_event (last es) = Rel_shipped"
    "decisions_in (rh_detail (last es)) = map (decision_of (sn_contracts plan)) (rd_series (sn_readiness plan))"
    using shipped_history(1) [OF assms(2)] by blast
  obtain g where "release_write s (rl_tenant (sn_release plan)) (rl_id (sn_release plan)) (sn_patch plan) g = Some (r', s')"
    using assms(1)
  proof (rule ship_parts)
    fix plan'
    assume "decide_status sha256 name_cmp w tenant i Rel_released force who now = Inr plan'"
      and a: "applyReleaseTransition sha256 name_cmp s (sn_release plan') (sn_patch plan') (Some (sn_product plan')) (sn_context plan')
         = Inr (r', s')"
    with assms(2) have "plan' = plan" by simp
    with transition_lands [OF a] that show ?thesis by metis
  qed
  then have "rl_history r' = es" by (rule write_lands) (simp add: apply_release_patch_def or_else_def es(1))
  then have "shipped_entry r' = Some (last es)"
    using last_filter [OF es(2), of "\<lambda>e. rh_event e = Rel_shipped"] es(3) by (simp add: shipped_entry_def Let_def)
  then show ?thesis
    by (simp add: baselineFromDecision_def es(4) decision_found decision_of_def split: option.split)
qed

lemma newest_first_set [simp]: "set (newest_first name_cmp rows) = set rows"
  by (simp add: newest_first_def)

lemma resolved_row:
  "resolve_row pin row = Baseline_resolved b \<Longrightarrow> po_scorecardId b = po_scorecardId row \<and> \<not> rescored_since pin row"
  by (auto simp: resolve_row_def rescored_since_def split: option.splits if_splits)

lemma gate_passed:
  assumes "gate_for gate (Some (Baseline_resolved b)) latest = Some g" "gg_verdict g = Pass"
  obtains f l where "gate = Some f" "latest = Some l" "f (po_scorecardId b) (po_scorecardId l) = Inr g"
  using assms that by (auto simp: gate_for_def split: option.splits sum.splits)

lemma pinned_passes:
  assumes "shippable sha256 name_cmp ev x" "sx_baseline ev (ps_key x) = baseline_for rows (Some (j, pin)) anchor"
    and "sx_gate ev (ps_key x) = gate_for gate (sx_baseline ev (ps_key x)) latest"
  shows "\<exists>row f l g. row \<in> set rows \<and> po_scorecardId row = j \<and> \<not> rescored_since pin row \<and> gate = Some f \<and> latest = Some l
    \<and> f (po_scorecardId row) (po_scorecardId l) = Inr g \<and> gg_verdict g = Pass"
proof -
  obtain l where "compares_well ev x l" using assms(1) by (auto simp: shippable_def split: option.splits)
  moreover have "baseline_of ev (ps_key x) = None_first_ship \<Longrightarrow> False"
    using assms(2) by (auto simp: baseline_of_def baseline_for_def resolve_row_def split: option.splits if_splits)
  ultimately obtain b g where bg: "sx_baseline ev (ps_key x) = Some (Baseline_resolved b)"
    "sx_gate ev (ps_key x) = Some g" "gg_verdict g = Pass"
    by (auto simp: compares_well_def baseline_of_def split: option.splits baseline_resolution.splits)
  then obtain row where row: "find (\<lambda>r. po_scorecardId r = j) rows = Some row" "resolve_row pin row = Baseline_resolved b"
    using assms(2) by (auto simp: baseline_for_def split: option.splits)
  then have "row \<in> set rows" "po_scorecardId row = j" by (auto simp: find_Some_iff)
  moreover obtain f l' where "gate = Some f" "latest = Some l'" "f (po_scorecardId b) (po_scorecardId l') = Inr g"
    using assms(3) bg gate_passed by metis
  ultimately show ?thesis using resolved_row [OF row(2)] bg(3) by auto
qed

subsection \<open>Properties\<close>

text \<open>A ship over the in-memory store that is not forced was due on what it read, and is written onto the release and the product as
  read. Only where the store is bound to the decision's sources does it hold more: as many issues open as were counted, and in
  every watched series the newest evaluation of the same instant. What the database holds is \<open>ReleasePgLaws\<close>.\<close>

lemma memory_ship_commits:
  assumes "setReleaseStatus sha256 name_cmp w resolver s tenant i Rel_released force who now = Inr (r', s')"
    and "force \<noteq> Some True"
  shows "\<exists>r p. release_get (sw_releases w) tenant i = Some r
    \<and> product_get (sw_products w) tenant (rl_productId r) = Some p
    \<and> due sha256 name_cmp w r p now \<and> still_stands sha256 name_cmp s w r p now
    \<and> release_get (rt_releases s') tenant i = Some r' \<and> rl_status r' = Rel_released \<and> rl_releasedAt r' = Some now"
proof -
  obtain plan where d: "decide_status sha256 name_cmp w tenant i Rel_released force who now = Inr plan"
    and a: "applyReleaseTransition sha256 name_cmp s (sn_release plan) (sn_patch plan) (Some (sn_product plan)) (sn_context plan)
       = Inr (r', s')" using assms(1) by (rule ship_parts)
  obtain r p where "release_get (sw_releases w) tenant i = Some r" "product_get (sw_products w) tenant (rl_productId r) = Some p"
    "sn_release plan = r" "sn_product plan = p" using decide_Inr [OF d] by blast
  then show ?thesis using plan_due [OF d assms(2)] guard_stands [OF d a] ship_lands [OF assms(1)] by auto
qed

text \<open>C21. A released release is history: whatever calls come after, each computed from a world as old as it likes, with products and counts
  moving in between, the row stays exactly as it is.\<close>

theorem released_is_history:
  assumes "release_get (rt_releases s) tenant i = Some r" "rl_status r = Rel_released"
  shows "release_get (rt_releases (fold (after_call sha256 name_cmp) calls s)) tenant i = Some r"
  using assms(1)
proof (induction calls arbitrary: s)
  case (Cons c calls)
  then show ?case using call_keeps_released [OF _ assms(2)] by simp
qed simp

text \<open>C7. The next release is compared with what the last one shipped on. A series that was a candidate of the last ship passes its gate
  later only against that very scorecard, still judged as the ship read it: losing the scorecard or judging it anew blocks,
  and no approval of a first ship applies.\<close>

theorem last_ship_anchors_next:
  assumes "setReleaseStatus sha256 name_cmp w resolver s tenant i Rel_released force who now = Inr (r', s')"
    and "decide_status sha256 name_cmp w tenant i Rel_released force who now = Inr plan"
    and "find (\<lambda>st. ss_key st = ps_key x) (rd_series (sn_readiness plan)) = Some st" "ss_latest st = Some l"
    and "sw_scorecards w2 = Some rows_of" "x \<in> set watched"
    and "shippable sha256 name_cmp (ship_evidence_of name_cmp w2 p2 watched (Some r') contracts) x"
  shows "\<exists>row gate latest g. row \<in> set (rows_of (pd_id p2) (ps_key x)) \<and> po_scorecardId row = qe_scorecardId l
    \<and> \<not> rescored_since (qe_scoring l) row \<and> sw_gate w2 = Some gate
    \<and> head_of (newest_first name_cmp (rows_of (pd_id p2) (ps_key x))) = Some latest
    \<and> gate (po_scorecardId row) (po_scorecardId latest) = Inr g \<and> gg_verdict g = Pass"
proof -
  let ?ev = "ship_evidence_of name_cmp w2 p2 watched (Some r') contracts"
  let ?rows = "newest_first name_cmp (rows_of (pd_id p2) (ps_key x))"
  have "baselineFromDecision (Some r') (ps_key x) = Some (qe_scorecardId l, qe_scoring l)"
    using anchor_recorded [OF assms(1,2)] assms(3,4) by simp
  then have "sx_baseline ?ev (ps_key x) = baseline_for ?rows (Some (qe_scorecardId l, qe_scoring l)) (rl_releasedAt r')"
    "sx_gate ?ev (ps_key x) = gate_for (sw_gate w2) (sx_baseline ?ev (ps_key x)) (head_of ?rows)"
    using assms(5,6) by (simp_all add: ship_evidence_of_def Let_def)
  from pinned_passes [OF assms(7) this] show ?thesis by auto
qed

lemma context_only_watched:
  assumes "c \<in> set (cx_candidates (context_of (releaseReadiness sha256 name_cmp scope p ev n)))"
  shows "\<exists>x \<in> set (watchedSeries p scope). cp_seriesKey c = ps_key x
    \<and> map_option (\<lambda>(_, t, _). t) (cp_pin c) = map_option po_createdAt (sx_latest ev (ps_key x))"
proof -
  obtain st where st: "st \<in> set (rd_series (releaseReadiness sha256 name_cmp scope p ev n))" "ss_verdict st \<noteq> Ship_scope_invalid"
    "c = candidate_pin_of st" using assms by (auto simp: context_of_def)
  then obtain x where x: "x \<in> set (watchedSeries p scope)" "st = series_state_of sha256 name_cmp ev x"
    by (auto simp: releaseReadiness_def Let_def watchedSeries_def missing_state_def)
  have "cp_seriesKey c = ss_key st" "map_option (\<lambda>(_, t, _). t) (cp_pin c) = map_option qe_createdAt (ss_latest st)"
    by (simp_all add: st(3) candidate_pin_of_def option.map_comp comp_def)
  then show ?thesis using x(1) unfolding x(2) state_fields(1,3) by blast
qed

lemma due_plan:
  assumes "release_get (sw_releases w) tenant i = Some r" "product_get (sw_products w) tenant (rl_productId r) = Some p"
    and "rl_status r \<noteq> Rel_released" "due sha256 name_cmp w r p now"
  obtains plan where "decide_status sha256 name_cmp w tenant i Rel_released force who now = Inr plan"
    "sn_release plan = r" "sn_product plan = p"
    "sn_contracts plan = resolveContracts (sw_resolver w) (watchedSeries p (scope_of r))"
    "sn_readiness plan = releaseReadiness sha256 name_cmp (scope_of r) p (evidence_read name_cmp w r p now) (sw_openIssues w (rl_id r))"
    "sn_context plan = Some (context_of (sn_readiness plan))"
proof -
  let ?cs = "resolveContracts (sw_resolver w) (watchedSeries p (scope_of r))"
  let ?rd = "releaseReadiness sha256 name_cmp (scope_of r) p (evidence_read name_cmp w r p now) (sw_openIssues w (rl_id r))"
  have "rd_ready ?rd" using assms(4) unfolding ready_iff_vouched due_def by simp
  then have "\<not> blocked_change (status_change_of sha256 name_cmp w r p ?rd ?cs Rel_released force)"
    unfolding unblocked_is_ready .
  then show ?thesis
    using that assms(1-3)
    by (auto simp: decide_status_def Let_def found_release_def found_product_def readiness_read release_setStatus_def
        context_for_def status_change_of_def)
qed

lemma standing_decision:
  assumes "still_stands sha256 name_cmp s w r p now"
  shows "decision_guard_ok s (rl_id r) (pd_id p, context_of (releaseReadiness sha256 name_cmp (scope_of r) p
      (evidence_read name_cmp w r p now) (sw_openIssues w (rl_id r))))"
proof (cases "rt_sources s")
  case (Some src)
  let ?rd = "releaseReadiness sha256 name_cmp (scope_of r) p (evidence_read name_cmp w r p now) (sw_openIssues w (rl_id r))"
  have o: "ds_openIssues src (rl_id r) = sw_openIssues w (rl_id r)"
    and x: "\<forall>x \<in> set (watchedSeries p (scope_of r)). ds_newestCandidateAt src (pd_id p) (ps_key x)
        = map_option po_createdAt (sx_latest (evidence_read name_cmp w r p now) (ps_key x))"
    using assms by (simp_all add: still_stands_def Some list_all_iff)
  have "ds_newestCandidateAt src (pd_id p) (cp_seriesKey c) = map_option (\<lambda>(_, t, _). t) (cp_pin c)"
    if "c \<in> set (cx_candidates (context_of ?rd))" for c
    using context_only_watched [OF that] x by metis
  moreover have "cx_openIssues (context_of ?rd) = sw_openIssues w (rl_id r)"
    by (simp add: context_of_def releaseReadiness_def Let_def)
  ultimately show ?thesis by (simp add: decision_guard_ok_def Some o list_all_iff)
qed (simp add: decision_guard_ok_def)

lemma due_ships:
  assumes "release_get (sw_releases w) tenant i = Some r" "product_get (sw_products w) tenant (rl_productId r) = Some p"
    and "rl_status r \<noteq> Rel_released" "due sha256 name_cmp w r p now" "still_stands sha256 name_cmp s w r p now"
  shows "\<not> isl (setReleaseStatus sha256 name_cmp w (sw_resolver w) s tenant i Rel_released force who now)"
proof -
  have ids: "rl_id r = i" "rl_tenant r = tenant" using release_get_id [OF assms(1)] by auto
  obtain plan where plan: "decide_status sha256 name_cmp w tenant i Rel_released force who now = Inr plan"
    "sn_release plan = r" "sn_product plan = p" "sn_contracts plan = resolveContracts (sw_resolver w) (watchedSeries p (scope_of r))"
    "sn_readiness plan = releaseReadiness sha256 name_cmp (scope_of r) p (evidence_read name_cmp w r p now) (sw_openIssues w (rl_id r))"
    "sn_context plan = Some (context_of (sn_readiness plan))"
    using due_plan [OF assms(1-4)] by metis
  have again: "reverify (sw_resolver w) Rel_released plan = Inr ()"
    by (simp add: reverify_def Let_def plan(2-4) find_None_iff [THEN iffD2])
  obtain live q where live: "release_get (rt_releases s) tenant i = Some live" "rl_status live = rl_status r"
    "version_of (rl_version live) = version_of (rl_version r)"
    and q: "product_peek (rt_products s) (pd_id p) = Some q" "pd_policyDigest q = Some (productReleasePolicyDigest sha256 name_cmp p)"
    "pd_definitionDigest q = Some (productEvaluationDefinitionDigest sha256 name_cmp p)"
    using assms(5) by (auto simp: still_stands_def ids split: option.splits)
  have "decision_guard_ok s i (pd_id p, context_of (sn_readiness plan))"
    using standing_decision [OF assms(5)] by (simp add: plan(5) ids)
  then show ?thesis
    by (simp add: setReleaseStatus_def plan(1) again plan(2,3,6) applyReleaseTransition_def Let_def release_write_def ids live
        product_guard_ok_def q)
qed

text \<open>C29. A release that is due ships: planned or called off, with the decision due on what was read and nothing of it moved until the
  write, the call succeeds and the release stands released from that moment.\<close>

theorem due_release_ships:
  assumes "release_get (sw_releases w) tenant i = Some r" "product_get (sw_products w) tenant (rl_productId r) = Some p"
    and "rl_status r \<noteq> Rel_released" "due sha256 name_cmp w r p now" "still_stands sha256 name_cmp s w r p now"
  shows "\<exists>r' s'. setReleaseStatus sha256 name_cmp w (sw_resolver w) s tenant i Rel_released force who now = Inr (r', s')
    \<and> release_get (rt_releases s') tenant i = Some r' \<and> rl_status r' = Rel_released \<and> rl_releasedAt r' = Some now"
proof -
  from due_ships [OF assms, of force who] obtain r' s' where
    "setReleaseStatus sha256 name_cmp w (sw_resolver w) s tenant i Rel_released force who now = Inr (r', s')"
    by (cases "setReleaseStatus sha256 name_cmp w (sw_resolver w) s tenant i Rel_released force who now") auto
  with ship_lands [OF this] show ?thesis by blast
qed

text \<open>A later ship reads of the last one only its anchor and its time.\<close>

lemma shippable_cong:
  assumes "sx_latest e (ps_key x) = sx_latest f (ps_key x)" "sx_baseline e (ps_key x) = sx_baseline f (ps_key x)"
    and "sx_gate e (ps_key x) = sx_gate f (ps_key x)" "sx_contract e (ps_key x) = sx_contract f (ps_key x)"
  shows "shippable sha256 name_cmp e x = shippable sha256 name_cmp f x"
  unfolding shippable_def compares_well_def baseline_of_def contract_of_def candidate_scoring_def baseline_scoring_def assms
  by (rule refl)

lemma shippable_anchor:
  assumes "baselineFromDecision (Some a) (ps_key x) = baselineFromDecision (Some b) (ps_key x)" "rl_releasedAt a = rl_releasedAt b"
  shows "shippable sha256 name_cmp (ship_evidence_of name_cmp w p watched (Some a) cs) x
    = shippable sha256 name_cmp (ship_evidence_of name_cmp w p watched (Some b) cs) x"
  by (rule shippable_cong) (simp_all add: ship_evidence_of_def Let_def assms)

subsection \<open>Two ways around the gate\<close>

text \<open>A removal checks the release it read and the store removes what stands by then: one that read the planned release erases the
  ship that landed in between, and with it the anchor of the next comparison.\<close>

lemma racing_removal_erases_ship:
  assumes "setReleaseStatus sha256 name_cmp w resolver s tenant i Rel_released force who now = Inr (r', s')"
    and "removal_allowed w tenant i other isAdmin = Inr ()"
  shows "\<exists>s''. removeRelease w s' tenant i other isAdmin = Inr s'' \<and> release_get (rt_releases s'') tenant i = None"
proof -
  have "release_get (filter (\<lambda>q. rl_id q \<noteq> i) rows) tenant i = None" for rows
    by (auto simp: release_get_def dest: find_id split: option.split)
  then have "release_get (rt_releases (release_remove s' tenant i)) tenant i = None"
    by (cases "release_get (rt_releases s') tenant i") (simp_all add: release_remove_def)
  then show ?thesis using assms(2) by (simp add: removeRelease_def)
qed

text \<open>A release created with an empty selection watches nothing and is ready with no issue open, whatever the product declares; and
  clearing that selection back to every series is refused as no change.\<close>

definition clear_selection :: release_edit where
  "clear_selection = \<lparr>re_name = None, re_description = None, re_targetDate = None, re_seriesKeys = Some None,
     re_components = None\<rparr>"

lemma empty_selection_is_stuck:
  assumes "newRelease i = Inr r" "nr_seriesKeys i = Some []"
  shows "rd_ready (releaseReadiness sha256 name_cmp (scope_of r) p ev 0)
    \<and> release_update r clear_selection who now ks ns = Inl (BadRequest ''BAD_REQUEST'' ''Nothing to update.'')"
proof -
  have r: "rl_plannedKeys r = Some []" "rl_selection r = Some Select_explicit" "rl_seriesKeys r = Some []" "rl_status r = Rel_planned"
    using assms by (auto simp: newRelease_def or_else_def)
  have "resolveWatchedSeries p (scope_of r) = ([], [])"
    by (simp add: resolveWatchedSeries_def scope_of_def r missing_keys_def List.map_filter_def)
  then have "rd_ready (releaseReadiness sha256 name_cmp (scope_of r) p ev 0)"
    unfolding ready_iff_vouched watchedSeries_def by simp
  moreover have "release_update r clear_selection who now ks ns = Inl (BadRequest ''BAD_REQUEST'' ''Nothing to update.'')"
    by (simp add: release_update_def clear_selection_def assertMutable_def isHistory_def r checked_def if_moved_def moved_def
        selection_text_def or_else_def)
  ultimately show ?thesis by blast
qed

subsection \<open>A release that ships\<close>

definition demo_pin :: scoring_pin where
  "demo_pin = \<lparr>sp_revision = 1, sp_planeDigest = ''plane-1'',
     sp_inputObservation = Some \<lparr>io_setDigest = None, io_completed = True, io_diverged = Some 0\<rparr>,
     sp_receiptSetDigest = None, sp_provenance = None\<rparr>"

definition demo_point :: "string \<Rightarrow> string \<Rightarrow> series_point" where
  "demo_point i t = \<lparr>po_scorecardId = i, po_passRate = Some 1, po_createdAt = t, po_serviceVersion = None,
     po_contractDigest = None, po_world = None, po_scoring = Some demo_pin\<rparr>"

definition demo_product :: product where
  "demo_product = (sample_product ''Quality'')\<lparr>pd_series := [(sample_series ''Quality'')\<lparr>ps_allowNoBaseline := Some True\<rparr>]\<rparr>"

definition demo_release :: release where
  "demo_release = \<lparr>rl_version = None, rl_id = ''r1'', rl_tenant = ''acme'', rl_productId = ''p'', rl_name = ''2026.3'',
     rl_description = None, rl_status = Rel_planned, rl_targetDate = None, rl_releasedAt = None, rl_seriesKeys = None,
     rl_plannedKeys = Some [''quality''], rl_selection = Some Select_all, rl_components = None,
     rl_history = [\<lparr>rh_at = ''t0'', rh_by = ''kim'', rh_event = Rel_created, rh_detail = Created_with None\<rparr>],
     rl_createdBy = ''kim'', rl_createdAt = ''t0'', rl_updatedAt = ''t0''\<rparr>"

definition demo_world :: ship_world where
  "demo_world = \<lparr>sw_releases = [demo_release], sw_products = [demo_product], sw_openIssues = (\<lambda>_. 0),
     sw_scorecards = Some (\<lambda>_ _. [demo_point ''s1'' ''t1'']),
     sw_gate = Some (\<lambda>_ _. Inr \<lparr>gg_verdict = Pass, gg_reasons = None, gg_baselineScoring = Some demo_pin,
                                 gg_candidateScoring = Some demo_pin\<rparr>),
     sw_resolver = None, sw_ledger = (\<lambda>_ _. None)\<rparr>"

definition demo_store :: release_store where
  "demo_store = \<lparr>rt_releases = [demo_release], rt_products = [with_digests (\<lambda>t. t) code_unit_cmp demo_product],
     rt_sources = Some \<lparr>ds_openIssues = (\<lambda>_. 0), ds_newestCandidateAt = (\<lambda>_ _. Some ''t1'')\<rparr>\<rparr>"

abbreviation demo_ship :: "(release \<times> release_store) res" where
  "demo_ship \<equiv> setReleaseStatus (\<lambda>t. t) code_unit_cmp demo_world None demo_store ''acme'' ''r1'' Rel_released None ''kim'' ''t2''"

lemma demo_due: "due (\<lambda>t. t) code_unit_cmp demo_world demo_release demo_product ''t2''"
  by code_simp

lemma demo_stands: "still_stands (\<lambda>t. t) code_unit_cmp demo_store demo_world demo_release demo_product ''t2''"
proof -
  have "pd_id (with_digests f c q) = pd_id q"
    "pd_policyDigest (with_digests f c q) = Some (productReleasePolicyDigest f c q)"
    "pd_definitionDigest (with_digests f c q) = Some (productEvaluationDefinitionDigest f c q)" for f c q
    by (simp_all add: with_digests_def)
  moreover have "list_all (\<lambda>x. Some ''t1'' = map_option po_createdAt
      (sx_latest (evidence_read code_unit_cmp demo_world demo_release demo_product ''t2'') (ps_key x)))
      (watchedSeries demo_product (scope_of demo_release))" by code_simp
  ultimately show ?thesis
    by (simp add: still_stands_def release_get_def product_peek_def demo_store_def demo_release_def)
      (simp add: demo_world_def)
qed

lemma demo_rows:
  "release_get (sw_releases demo_world) ''acme'' ''r1'' = Some demo_release"
  "product_get (sw_products demo_world) ''acme'' (rl_productId demo_release) = Some demo_product"
  "rl_status demo_release \<noteq> Rel_released" "sw_resolver demo_world = None"
  by (simp_all add: demo_world_def demo_release_def release_get_def product_get_def product_peek_def demo_product_def
      sample_product_def)

lemma demo_ships: "\<not> isl demo_ship"
  using due_ships [OF demo_rows(1-3) demo_due demo_stands, of None "''kim''"] unfolding demo_rows(4) .

lemma due_release_ships_witness:
  "\<exists>r' s'. demo_ship = Inr (r', s') \<and> release_get (rt_releases s') ''acme'' ''r1'' = Some r'"
  using due_release_ships [OF demo_rows(1-3) demo_due demo_stands, of None "''kim''"] unfolding demo_rows(4) by (elim exE conjE) (intro exI conjI)

lemma returned_pair: "\<not> isl x \<Longrightarrow> x = Inr (fst (projr x), snd (projr x))"
  by (cases x) simp_all

lemma demo_ship_eq: "demo_ship = Inr (fst (projr demo_ship), snd (projr demo_ship))"
  by (rule returned_pair [OF demo_ships])

lemma memory_ship_commits_demo:
  "\<exists>r p. release_get (sw_releases demo_world) ''acme'' ''r1'' = Some r \<and> due (\<lambda>t. t) code_unit_cmp demo_world r p ''t2''
     \<and> still_stands (\<lambda>t. t) code_unit_cmp demo_store demo_world r p ''t2''"
proof -
  obtain r p where "release_get (sw_releases demo_world) ''acme'' ''r1'' = Some r"
    "due (\<lambda>t. t) code_unit_cmp demo_world r p ''t2''" "still_stands (\<lambda>t. t) code_unit_cmp demo_store demo_world r p ''t2''"
    using memory_ship_commits [OF demo_ship_eq option.distinct(1)] by (elim exE conjE)
  then show ?thesis by (intro exI [of _ r] exI [of _ p] conjI)
qed

lemma released_is_history_witness:
  "release_get (rt_releases (fold (after_call (\<lambda>t. t) code_unit_cmp)
      [Change_status demo_world None ''acme'' ''r1'' Rel_cancelled None ''lee'' ''t3'',
       Edit_release demo_world ''acme'' ''r1'' clear_selection ''lee'' ''t4'']
      (demo_store\<lparr>rt_releases := [demo_release\<lparr>rl_status := Rel_released\<rparr>]\<rparr>))) ''acme'' ''r1''
     = Some (demo_release\<lparr>rl_status := Rel_released\<rparr>)"
  by (rule released_is_history) (simp_all add: demo_store_def demo_release_def release_get_def)

definition demo_series :: product_series where
  "demo_series = hd (pd_series demo_product)"

text \<open>A release shipped on \<open>s1\<close>, as the next ship reads it.\<close>

definition demo_anchor :: release where
  "demo_anchor = demo_release\<lparr>rl_releasedAt := Some ''t2'', rl_history :=
     [\<lparr>rh_at = ''t2'', rh_by = ''kim'', rh_event = Rel_shipped, rh_detail = Status_decided
        \<lparr>st_from = Rel_planned, st_to = Rel_released, st_openIssues = 0, st_regressed = [], st_decisions =
           [\<lparr>dn_key = ''quality'', dn_verdict = Ship_no_baseline, dn_required = True, dn_reasons = [], dn_baseline = None,
             dn_candidate = Some (''s1'', Some demo_pin), dn_contract = None\<rparr>],
         st_policy = [], st_policyDigest = None, st_components = None, st_onTime = None, st_forced = False,
         st_contextDigest = None\<rparr>\<rparr>]\<rparr>"

abbreviation demo_read :: readiness where
  "demo_read \<equiv> releaseReadiness (\<lambda>t. t) code_unit_cmp (scope_of demo_release) demo_product
     (evidence_read code_unit_cmp demo_world demo_release demo_product ''t2'') (sw_openIssues demo_world (rl_id demo_release))"

lemma last_ship_anchors_next_witness:
  "\<exists>(l :: point_evidence) row gate latest g. row \<in> set [demo_point ''s1'' ''t1''] \<and> po_scorecardId row = qe_scorecardId l
    \<and> \<not> rescored_since (qe_scoring l) row \<and> sw_gate demo_world = Some gate
    \<and> head_of (newest_first code_unit_cmp [demo_point ''s1'' ''t1'']) = Some latest
    \<and> gate (po_scorecardId row) (po_scorecardId latest) = Inr g \<and> gg_verdict g = Pass"
proof -
  let ?r = "fst (projr demo_ship)"
  have "(case find (\<lambda>st. ss_key st = ps_key demo_series) (rd_series demo_read) of None \<Rightarrow> False
      | Some st \<Rightarrow> map_option (\<lambda>l. (qe_scorecardId l, qe_scoring l)) (ss_latest st) = Some (''s1'', Some demo_pin))" by code_simp
  then obtain st l where f: "find (\<lambda>st. ss_key st = ps_key demo_series) (rd_series demo_read) = Some st" "ss_latest st = Some l"
    "(qe_scorecardId l, qe_scoring l) = (''s1'', Some demo_pin)" by (auto split: option.splits)
  obtain plan where plan: "decide_status (\<lambda>t. t) code_unit_cmp demo_world ''acme'' ''r1'' Rel_released None ''kim'' ''t2'' = Inr plan"
    "sn_readiness plan = demo_read" using due_plan [OF demo_rows(1-3) demo_due] by metis
  have "baselineFromDecision (Some ?r) (ps_key demo_series) = Some (''s1'', Some demo_pin)"
    unfolding anchor_recorded [OF demo_ship_eq plan(1)] plan(2) f(1) using f(2,3) by simp
  moreover have "baselineFromDecision (Some demo_anchor) (ps_key demo_series) = Some (''s1'', Some demo_pin)" by code_simp
  ultimately have "baselineFromDecision (Some ?r) (ps_key demo_series) = baselineFromDecision (Some demo_anchor) (ps_key demo_series)"
    by simp
  moreover have "rl_releasedAt ?r = rl_releasedAt demo_anchor"
    using ship_lands [OF demo_ship_eq] by (simp add: demo_anchor_def)
  moreover have "shippable (\<lambda>t. t) code_unit_cmp
      (ship_evidence_of code_unit_cmp demo_world demo_product [demo_series] (Some demo_anchor) (\<lambda>_. None)) demo_series" by code_simp
  ultimately have s: "shippable (\<lambda>t. t) code_unit_cmp
      (ship_evidence_of code_unit_cmp demo_world demo_product [demo_series] (Some ?r) (\<lambda>_. None)) demo_series"
    using shippable_anchor by blast
  have rows: "sw_scorecards demo_world = Some (\<lambda>_ _. [demo_point ''s1'' ''t1''])" by (simp add: demo_world_def)
  have "demo_series \<in> set [demo_series]" by simp
  from last_ship_anchors_next [OF demo_ship_eq plan(1) f(1,2) [folded plan(2)] rows this s] show ?thesis by (rule exI [of _ l])
qed

end
