(* ===== verification/ReleasePgLaws.thy ===== *)
theory ReleasePgLaws
  imports ReleasePg ShippingTheorems
begin

text \<open>
  What a ship written to the database stands on: the decision that was due, and a statement that met everything it read unmoved.
\<close>

subsection \<open>A decision that still stands in the rows\<close>

text \<open>The evaluation a series was decided on, as the rows hold it: there, succeeded, under no scoring pass, judged as it was read and
  the newest; and where none was read, none is there.\<close>

definition newest_as_read ::
    "(string \<times> string \<Rightarrow> string \<times> string \<Rightarrow> bool) \<Rightarrow> card_row list \<Rightarrow> series_point option \<Rightarrow> scoring_pin option \<Rightarrow> bool" where
  "newest_as_read later rows latest judged \<longleftrightarrow>
     (case latest of
        None \<Rightarrow> rows = []
      | Some l \<Rightarrow>
          (\<exists>c \<in> set rows. cd_id c = po_scorecardId l \<and> cd_scoringPass c = None
             \<and> last_scoring c = map_option (\<lambda>p. (sp_revision p, sp_planeDigest p)) judged)
          \<and> (\<forall>c \<in> set rows. \<not> later (cd_createdAt c, cd_id c) (po_createdAt l, po_scorecardId l)))"

definition stands_in_db ::
    "(string \<times> string \<Rightarrow> string \<times> string \<Rightarrow> bool) \<Rightarrow> (string \<Rightarrow> string) \<Rightarrow> string compare \<Rightarrow> ship_db \<Rightarrow> ship_world \<Rightarrow> release
       \<Rightarrow> product \<Rightarrow> string \<Rightarrow> bool" where
  "stands_in_db later sha256 name_cmp db w r p now \<longleftrightarrow>
     (\<exists>row. release_get (db_releases db) (rl_tenant r) (rl_id r) = Some row
        \<and> rl_status row = rl_status r \<and> version_of (rl_version row) = version_of (rl_version r)
        \<and> (\<exists>q \<in> set (db_products db). pd_tenant q = rl_tenant r \<and> pd_id q = rl_productId row
             \<and> pd_policyDigest q = Some (productReleasePolicyDigest sha256 name_cmp p)
             \<and> pd_definitionDigest q = Some (productEvaluationDefinitionDigest sha256 name_cmp p)))
     \<and> length (linked_open db (rl_tenant r) (rl_id r)) = sw_openIssues w (rl_id r)
     \<and> (\<forall>x \<in> set (watchedSeries p (scope_of r)).
          newest_as_read later (series_cards db (rl_tenant r) (pd_id p) (ps_key x))
            (sx_latest (evidence_read name_cmp w r p now) (ps_key x))
            (candidate_scoring (evidence_read name_cmp w r p now) (ps_key x)))"

text \<open>Where a fence is wired it could be read, and the counters it read are those of the rows.\<close>

definition fence_held :: "ship_db \<Rightarrow> capability_fence option \<Rightarrow> string \<Rightarrow> (string \<times> string) list \<Rightarrow> bool" where
  "fence_held db fence tenant refs \<longleftrightarrow>
     (case fence of None \<Rightarrow> True
      | Some f \<Rightarrow> (\<exists>revision generations. cf_settingsRevision f tenant = Inr revision \<and> cf_read f tenant refs = Inr generations
          \<and> settings_clause db tenant (Some revision) \<and> capabilities_clause db tenant (Some generations)))"

subsection \<open>The clauses\<close>

lemma one_row_per_id:
  "distinct (map cd_id rows) \<Longrightarrow> x \<in> set rows \<Longrightarrow> y \<in> set rows \<Longrightarrow> cd_id x = cd_id y \<Longrightarrow> x = y"
  by (simp add: distinct_map inj_on_def)

lemma clause_newest:
  assumes "candidate_clause later rows (candidate_pin_of (series_state_of sha256 name_cmp ev x))" "distinct (map cd_id rows)"
  shows "newest_as_read later rows (sx_latest ev (ps_key x)) (candidate_scoring ev (ps_key x))"
proof (cases "sx_latest ev (ps_key x)")
  case None
  then show ?thesis
    using assms(1) by (simp add: candidate_clause_def candidate_pin_of_def series_state_of_def Let_def newest_as_read_def)
next
  case (Some l)
  let ?j = "map_option (\<lambda>p. (sp_revision p, sp_planeDigest p)) (candidate_scoring ev (ps_key x))"
  have "\<exists>c \<in> set rows. cd_id c = po_scorecardId l \<and> cd_scoringPass c = None"
    "\<exists>c \<in> set rows. cd_id c = po_scorecardId l \<and> last_scoring c = ?j"
    and new: "\<forall>c \<in> set rows. \<not> later (cd_createdAt c, cd_id c) (po_createdAt l, po_scorecardId l)"
    using assms(1) by (auto simp: candidate_clause_def candidate_pin_of_def series_state_of_def Let_def Some list_ex_iff)
  then obtain c d where c: "c \<in> set rows" "cd_id c = po_scorecardId l" "cd_scoringPass c = None"
    and d: "d \<in> set rows" "cd_id d = po_scorecardId l" "last_scoring d = ?j" by auto
  have "c = d" using one_row_per_id [OF assms(2) c(1) d(1)] c(2) d(2) by simp
  then show ?thesis using c d new by (auto simp: newest_as_read_def Some)
qed

lemma update_lands:
  assumes "pg_update later before db tenant i patch g = Some (r', db')"
  obtains current row where "release_get before tenant i = Some current" "release_get (db_releases db) tenant i = Some row"
    "rl_status row = dg_status g" "version_of (rl_version row) = dg_version g"
    "\<forall>ds. dg_product g = Some ds \<longrightarrow> product_clause db row ds"
    "\<forall>pid cx fd. dg_decision g = Some (pid, cx, fd) \<longrightarrow> decision_clauses later db row pid cx fd"
    "r' = set_columns row ((apply_release_patch current patch)\<lparr>rl_version := Some (version_of (rl_version current) + 1)\<rparr>)"
    "db' = db\<lparr>db_releases := release_put r' (db_releases db)\<rparr>"
  using assms that by (auto simp: pg_update_def Let_def split: option.splits if_splits prod.splits)

lemma pg_lands:
  assumes "pg_transition later sha256 name_cmp before db current patch p decision = Inr (r', db')"
  obtains g where "pg_update later before db (rl_tenant current) (rl_id current) patch g = Some (r', db')"
    "dg_status g = rl_status current" "dg_version g = version_of (rl_version current)"
    "dg_product g = Some (productReleasePolicyDigest sha256 name_cmp p, productEvaluationDefinitionDigest sha256 name_cmp p)"
    "dg_decision g = map_option (\<lambda>(cx, fd). (pd_id p, cx, fd)) decision"
  using assms that unfolding pg_transition_def Let_def by (auto split: option.splits)

lemma fence_was_read:
  assumes "read_fence fence Rel_released p r contracts = Inr fd"
    and "capabilities_clause db (rl_tenant r) (fd_generations fd)" "settings_clause db (rl_tenant r) (fd_settings fd)"
  shows "fence_held db fence (rl_tenant r) (capabilityRefsFor p r @ nestedCapabilityRefs p r contracts)"
  using assms by (auto simp: read_fence_def fence_held_def fenceRead_def split: option.splits sum.splits)

lemma pg_ship_parts:
  assumes "setReleaseStatus_pg later sha256 name_cmp w fence resolver before db tenant i to force who now = Inr (r', db')"
  obtains plan fd where "decide_status sha256 name_cmp w tenant i to force who now = Inr plan" "reverify resolver to plan = Inr ()"
    "read_fence fence to (sn_product plan) (sn_release plan) (sn_contracts plan) = Inr fd"
    "pg_transition later sha256 name_cmp before db (sn_release plan) (fenced_patch sha256 fd plan) (sn_product plan)
       (map_option (\<lambda>cx. (cx, fd)) (sn_context plan)) = Inr (r', db')"
proof -
  obtain r p fd plan where parts: "found_release (sw_releases w) tenant i = Inr r"
    "found_product (sw_products w) tenant (rl_productId r) = Inr p"
    "read_fence fence to p r (resolveContracts (sw_resolver w) (watchedSeries p (scope_of r))) = Inr fd"
    "decide_status sha256 name_cmp w tenant i to force who now = Inr plan" "reverify resolver to plan = Inr ()"
    "pg_transition later sha256 name_cmp before db (sn_release plan) (fenced_patch sha256 fd plan) (sn_product plan)
       (map_option (\<lambda>cx. (cx, fd)) (sn_context plan)) = Inr (r', db')"
    using assms by (auto simp: setReleaseStatus_pg_def)
  have "sn_release plan = r" "sn_product plan = p"
    "sn_contracts plan = resolveContracts (sw_resolver w) (watchedSeries p (scope_of r))"
    using parts(1,2) by (rule_tac decide_Inr [OF parts(4)], simp_all add: found_release_def found_product_def)+
  then show ?thesis using that parts(3-6) by metis
qed

subsection \<open>What the statement met\<close>

lemma clauses_stand:
  assumes "decide_status sha256 name_cmp w tenant i Rel_released force who now = Inr plan"
    and "read_fence fence Rel_released (sn_product plan) (sn_release plan) (sn_contracts plan) = Inr fd"
    and "pg_transition later sha256 name_cmp before db (sn_release plan) patch (sn_product plan)
       (map_option (\<lambda>cx. (cx, fd)) (sn_context plan)) = Inr (r', db')"
    and "distinct (map cd_id (db_cards db))"
  shows "stands_in_db later sha256 name_cmp db w (sn_release plan) (sn_product plan) now
    \<and> fence_held db fence tenant (capabilityRefsFor (sn_product plan) (sn_release plan)
        @ nestedCapabilityRefs (sn_product plan) (sn_release plan) (sn_contracts plan))"
  using assms(1)
proof (rule decide_Inr)
  fix r p
  assume got: "release_get (sw_releases w) tenant i = Some r" and e: "sn_release plan = r" "sn_product plan = p"
    and cs: "sn_contracts plan = resolveContracts (sw_resolver w) (watchedSeries p (scope_of r))"
    and rd: "sn_readiness plan = readinessUnder sha256 name_cmp w r p now (sn_contracts plan)"
    and cx: "sn_context plan = context_for Rel_released (sn_readiness plan)"
  let ?ev = "evidence_read name_cmp w r p now"
  note rd' = rd [unfolded cs readiness_read]
  have tenant: "rl_tenant r = tenant" using release_get_id [OF got] by simp
  obtain g where g: "pg_update later before db (rl_tenant r) (rl_id r) patch g = Some (r', db')" "dg_status g = rl_status r"
    "dg_version g = version_of (rl_version r)"
    "dg_product g = Some (productReleasePolicyDigest sha256 name_cmp p, productEvaluationDefinitionDigest sha256 name_cmp p)"
    "dg_decision g = Some (pd_id p, context_of (sn_readiness plan), fd)"
    using pg_lands [OF assms(3)] by (auto simp: e cx context_for_def)
  from g(1) obtain row where row: "release_get (db_releases db) (rl_tenant r) (rl_id r) = Some row" "rl_status row = dg_status g"
    "version_of (rl_version row) = dg_version g" "\<forall>ds. dg_product g = Some ds \<longrightarrow> product_clause db row ds"
    "\<forall>pid cx fd. dg_decision g = Some (pid, cx, fd) \<longrightarrow> decision_clauses later db row pid cx fd"
    by (rule update_lands)
  have ids: "rl_tenant row = rl_tenant r" "rl_id row = rl_id r" using release_get_id [OF row(1)] by auto
  have prod: "product_clause db row (productReleasePolicyDigest sha256 name_cmp p, productEvaluationDefinitionDigest sha256 name_cmp p)"
    and dec: "decision_clauses later db row (pd_id p) (context_of (sn_readiness plan)) fd" using row(4,5) g(4,5) by auto
  have none_new: "length (linked_open db (rl_tenant r) (rl_id r)) = sw_openIssues w (rl_id r)"
    using dec by (simp add: decision_clauses_def ids context_of_def rd' releaseReadiness_def Let_def)
  have "newest_as_read later (series_cards db (rl_tenant r) (pd_id p) (ps_key x)) (sx_latest ?ev (ps_key x))
      (candidate_scoring ?ev (ps_key x))" if "x \<in> set (watchedSeries p (scope_of r))" for x
  proof (rule clause_newest)
    have "list_all (\<lambda>c. candidate_clause later (series_cards db (rl_tenant r) (pd_id p) (cp_seriesKey c)) c)
        (cx_candidates (context_of (sn_readiness plan)))" using dec by (simp add: decision_clauses_def ids)
    moreover have "cp_seriesKey (candidate_pin_of (series_state_of sha256 name_cmp ?ev x)) = ps_key x"
      by (simp add: candidate_pin_of_def state_fields(1))
    ultimately show "candidate_clause later (series_cards db (rl_tenant r) (pd_id p) (ps_key x))
        (candidate_pin_of (series_state_of sha256 name_cmp ?ev x))"
      unfolding rd' list_all_iff by (metis watched_pinned [OF that])
    show "distinct (map cd_id (series_cards db (rl_tenant r) (pd_id p) (ps_key x)))"
      using assms(4) by (simp add: series_cards_def distinct_map_filter)
  qed
  moreover have "\<exists>q \<in> set (db_products db). pd_tenant q = rl_tenant r \<and> pd_id q = rl_productId row
      \<and> pd_policyDigest q = Some (productReleasePolicyDigest sha256 name_cmp p)
      \<and> pd_definitionDigest q = Some (productEvaluationDefinitionDigest sha256 name_cmp p)"
    using prod by (auto simp: product_clause_def list_ex_iff ids)
  moreover have "fence_held db fence (rl_tenant r) (capabilityRefsFor p r @ nestedCapabilityRefs p r (sn_contracts plan))"
  proof (rule fence_was_read)
    show "read_fence fence Rel_released p r (sn_contracts plan) = Inr fd" using assms(2) by (simp add: e)
    show "capabilities_clause db (rl_tenant r) (fd_generations fd)" "settings_clause db (rl_tenant r) (fd_settings fd)"
      using dec unfolding decision_clauses_def ids by blast+
  qed
  ultimately show ?thesis
    unfolding stands_in_db_def e tenant [symmetric] using row(1-3) g(2,3) none_new by auto
qed

lemma pg_ship_lands:
  assumes "decide_status sha256 name_cmp w tenant i Rel_released force who now = Inr plan"
    and "pg_transition later sha256 name_cmp before db (sn_release plan) (fenced_patch sha256 fd plan) (sn_product plan) decision
       = Inr (r', db')"
  shows "release_get (db_releases db') tenant i = Some r' \<and> rl_status r' = Rel_released \<and> rl_releasedAt r' = Some now"
proof -
  obtain r where r: "release_get (sw_releases w) tenant i = Some r" "sn_release plan = r" using decide_Inr [OF assms(1)] by blast
  have ids: "rl_id r = i" "rl_tenant r = tenant" using release_get_id [OF r(1)] by auto
  obtain g where "pg_update later before db (rl_tenant r) (rl_id r) (fenced_patch sha256 fd plan) g = Some (r', db')"
    using pg_lands [OF assms(2)] r(2) by metis
  then obtain current row where row: "release_get (db_releases db) tenant i = Some row"
    "r' = set_columns row ((apply_release_patch current (fenced_patch sha256 fd plan))
       \<lparr>rl_version := Some (version_of (rl_version current) + 1)\<rparr>)"
    "db' = db\<lparr>db_releases := release_put r' (db_releases db)\<rparr>"
    unfolding ids by (rule update_lands)
  have "rw_status (fenced_patch sha256 fd plan) = Some Rel_released" "rw_releasedAt (fenced_patch sha256 fd plan) = Some (Some now)"
    using shipped_history(2,3) [OF assms(1)] by (simp_all add: fenced_patch_def split: option.split)
  then have "rl_status r' = Rel_released" "rl_releasedAt r' = Some now"
    by (simp_all add: row(2) set_columns_def apply_release_patch_def or_else_def)
  moreover have "release_get (db_releases db') tenant i = Some r'"
    using find_put_same [of i "db_releases db" row r'] row(1) release_get_id [OF row(1)]
    by (simp add: row(3) release_get_iff) (simp add: row(2) set_columns_def)
  ultimately show ?thesis by blast
qed

text \<open>C6. A ship into the database that is not forced commits what it read. The decision was due on the evidence read: no issue open, no
  promised series gone, every gating series shippable. And the rows its one statement met are still those it read: the release in
  the status and version read; its product with the policy and the questions read; no open issue linked to the release; for every
  watched series the evaluation decided on still there, under no scoring pass, judged as read, with nothing newer, or still none;
  and, where the capability fence is wired, the settings revision and every generation it read. Scorecard ids are a primary key.\<close>

theorem ship_commits_what_it_read:
  assumes "setReleaseStatus_pg later sha256 name_cmp w fence resolver before db tenant i Rel_released force who now = Inr (r', db')"
    and "force \<noteq> Some True" "distinct (map cd_id (db_cards db))"
  shows "\<exists>r p. release_get (sw_releases w) tenant i = Some r
    \<and> product_get (sw_products w) tenant (rl_productId r) = Some p
    \<and> due sha256 name_cmp w r p now \<and> stands_in_db later sha256 name_cmp db w r p now \<and> linked_open db tenant i = []
    \<and> fence_held db fence tenant (capabilityRefsFor p r
        @ nestedCapabilityRefs p r (resolveContracts (sw_resolver w) (watchedSeries p (scope_of r))))
    \<and> release_get (db_releases db') tenant i = Some r' \<and> rl_status r' = Rel_released \<and> rl_releasedAt r' = Some now"
proof -
  obtain plan fd where d: "decide_status sha256 name_cmp w tenant i Rel_released force who now = Inr plan"
    and f: "read_fence fence Rel_released (sn_product plan) (sn_release plan) (sn_contracts plan) = Inr fd"
    and a: "pg_transition later sha256 name_cmp before db (sn_release plan) (fenced_patch sha256 fd plan) (sn_product plan)
       (map_option (\<lambda>cx. (cx, fd)) (sn_context plan)) = Inr (r', db')" using assms(1) by (rule pg_ship_parts)
  obtain r p where rp: "release_get (sw_releases w) tenant i = Some r" "product_get (sw_products w) tenant (rl_productId r) = Some p"
    "sn_release plan = r" "sn_product plan = p" "sn_contracts plan = resolveContracts (sw_resolver w) (watchedSeries p (scope_of r))"
    using decide_Inr [OF d] by blast
  have "rl_tenant r = tenant" "rl_id r = i" using release_get_id [OF rp(1)] by auto
  with plan_due [OF d assms(2)] clauses_stand [OF d f a assms(3)] have "linked_open db tenant i = []"
    by (simp add: rp(3,4) stands_in_db_def due_def)
  then show ?thesis
    using rp plan_due [OF d assms(2)] clauses_stand [OF d f a assms(3)] pg_ship_lands [OF d a] by auto
qed

subsection \<open>The names a fence covers\<close>

lemma fence_covers:
  assumes "x \<in> set (watchedSeries p (scope_of r))"
  shows "(''dataset'', fst (ps_dataset x)) \<in> set (capabilityRefsFor p r)" "(''harness'', fst (ps_harness x)) \<in> set (capabilityRefsFor p r)"
    "j \<in> set (ps_judges x) \<Longrightarrow> (''judge'', fst j) \<in> set (capabilityRefsFor p r)"
  using assms by (auto simp: capabilityRefsFor_def)

lemma pg_read_names: "map (\<lambda>g. (ng_kind g, ng_id g)) (pg_read db tenant refs) = refs"
  by (simp add: pg_read_def Let_def comp_def case_prod_beta)

text \<open>A judge of a resolved contract brings in the documents its own closure named.\<close>

lemma fence_covers_nested:
  assumes "x \<in> set (watchedSeries p (scope_of r))" "contracts (ps_key x) = Some (Contract_resolved d c docs)" "(k, i) \<in> set docs"
  shows "(document_name k, i) \<in> set (nestedCapabilityRefs p r contracts)"
  using assms by (force simp: nestedCapabilityRefs_def)

subsection \<open>A ship that lands\<close>

lemma due_written:
  assumes "release_get (sw_releases w) tenant i = Some r" "product_get (sw_products w) tenant (rl_productId r) = Some p"
    and "rl_status r \<noteq> Rel_released" "due sha256 name_cmp w r p now"
    and "read_fence fence Rel_released p r (resolveContracts (sw_resolver w) (watchedSeries p (scope_of r))) = Inr fd"
    and "release_get before tenant i = Some current" "release_get (db_releases db) tenant i = Some row"
    and "rl_status row = rl_status r" "version_of (rl_version row) = version_of (rl_version r)"
    and "product_clause db row (productReleasePolicyDigest sha256 name_cmp p, productEvaluationDefinitionDigest sha256 name_cmp p)"
    and "decision_clauses later db row (pd_id p) (context_of (releaseReadiness sha256 name_cmp (scope_of r) p
      (evidence_read name_cmp w r p now) (sw_openIssues w (rl_id r)))) fd"
  shows "\<not> isl (setReleaseStatus_pg later sha256 name_cmp w fence (sw_resolver w) before db tenant i Rel_released force who now)"
proof -
  have ids: "rl_id r = i" "rl_tenant r = tenant" using release_get_id [OF assms(1)] by auto
  obtain plan where plan: "decide_status sha256 name_cmp w tenant i Rel_released force who now = Inr plan"
    "sn_release plan = r" "sn_product plan = p" "sn_contracts plan = resolveContracts (sw_resolver w) (watchedSeries p (scope_of r))"
    "sn_readiness plan = releaseReadiness sha256 name_cmp (scope_of r) p (evidence_read name_cmp w r p now) (sw_openIssues w (rl_id r))"
    "sn_context plan = Some (context_of (sn_readiness plan))"
    using due_plan [OF assms(1-4)] by metis
  have again: "reverify (sw_resolver w) Rel_released plan = Inr ()"
    by (simp add: reverify_def Let_def plan(2-4) find_None_iff [THEN iffD2])
  have dec: "decision_clauses later db row (pd_id p) (context_of (sn_readiness plan)) fd" unfolding plan(5) by (rule assms(11))
  have found: "found_release (sw_releases w) tenant i = Inr r" "found_product (sw_products w) tenant (rl_productId r) = Inr p"
    using assms(1,2) by (simp_all add: found_release_def found_product_def)
  show ?thesis
    by (simp add: setReleaseStatus_pg_def found assms(5) plan(1) again plan(2,3,6) pg_transition_def Let_def pg_update_def ids
        assms(6-10) dec)
qed

text \<open>An issue linked since the decision was made refuses the ship, forced or not.\<close>

lemma new_issue_refuses:
  assumes "length (linked_open db tenant i) \<noteq> sw_openIssues w i" "distinct (map cd_id (db_cards db))"
  shows "isl (setReleaseStatus_pg later sha256 name_cmp w fence resolver before db tenant i Rel_released force who now)"
proof (cases "setReleaseStatus_pg later sha256 name_cmp w fence resolver before db tenant i Rel_released force who now")
  case (Inr out)
  obtain r' db' where out: "out = (r', db')" by (cases out)
  obtain plan fd where d: "decide_status sha256 name_cmp w tenant i Rel_released force who now = Inr plan"
    and f: "read_fence fence Rel_released (sn_product plan) (sn_release plan) (sn_contracts plan) = Inr fd"
    and a: "pg_transition later sha256 name_cmp before db (sn_release plan) (fenced_patch sha256 fd plan) (sn_product plan)
       (map_option (\<lambda>cx. (cx, fd)) (sn_context plan)) = Inr (r', db')" using Inr [unfolded out] by (rule pg_ship_parts)
  have "rl_tenant (sn_release plan) = tenant" "rl_id (sn_release plan) = i"
    using decide_Inr [OF d] release_get_id by metis+
  then show ?thesis using clauses_stand [OF d f a assms(2)] assms(1) by (simp add: stands_in_db_def)
qed simp

definition demo_later :: "string \<times> string \<Rightarrow> string \<times> string \<Rightarrow> bool" where
  "demo_later a b \<longleftrightarrow> 0 < code_unit_cmp (fst a) (fst b) \<or> (fst a = fst b \<and> 0 < code_unit_cmp (snd a) (snd b))"

definition demo_db :: ship_db where
  "demo_db = \<lparr>db_releases = [demo_release], db_products = [with_digests (\<lambda>t. t) code_unit_cmp demo_product], db_issues = [],
     db_cards = [\<lparr>cd_id = ''s1'', cd_tenant = ''acme'', cd_productId = Some (pd_id demo_product), cd_seriesKey = Some ''quality'',
       cd_succeeded = True, cd_createdAt = ''t1'', cd_scoringPass = None, cd_scoring = [demo_pin]\<rparr>],
     db_generations = [\<lparr>gn_tenant = ''_shared'', gn_kind = ''dataset'', gn_id = fst (ps_dataset (hd (pd_series demo_product))),
       gn_generation = 4\<rparr>],
     db_settings = [\<lparr>wr_workspace = ''acme'', wr_revision = 2\<rparr>]\<rparr>"

abbreviation demo_pg_ship :: "(release \<times> ship_db) res" where
  "demo_pg_ship \<equiv> setReleaseStatus_pg demo_later (\<lambda>t. t) code_unit_cmp demo_world (Some (pg_fence demo_db)) None [demo_release]
     demo_db ''acme'' ''r1'' Rel_released None ''kim'' ''t2''"

definition demo_reading :: fence_reading where
  "demo_reading = projr (read_fence (Some (pg_fence demo_db)) Rel_released demo_product demo_release (\<lambda>_. None))"

lemma demo_fence:
  "read_fence (Some (pg_fence demo_db)) Rel_released demo_product demo_release
     (resolveContracts (sw_resolver demo_world) (watchedSeries demo_product (scope_of demo_release))) = Inr demo_reading"
proof -
  have "resolveContracts None watched = (\<lambda>_. None)" for watched by (simp add: resolveContracts_def fun_eq_iff)
  then show ?thesis unfolding demo_rows(4)
    by (simp add: demo_reading_def read_fence_def fenceRead_def pg_fence_def)
qed

lemma demo_clauses:
  "decision_clauses demo_later demo_db demo_release (pd_id demo_product) (context_of demo_read) demo_reading"
  by code_simp

lemma demo_pg_ships: "\<not> isl demo_pg_ship"
proof -
  have "product_clause demo_db demo_release (productReleasePolicyDigest (\<lambda>t. t) code_unit_cmp demo_product,
      productEvaluationDefinitionDigest (\<lambda>t. t) code_unit_cmp demo_product)"
    using demo_rows(2) by (simp add: product_clause_def demo_db_def with_digests_def demo_release_def)
      (simp add: demo_product_def sample_product_def)
  moreover have "release_get (db_releases demo_db) ''acme'' ''r1'' = Some demo_release"
    "release_get [demo_release] ''acme'' ''r1'' = Some demo_release"
    by (simp_all add: demo_db_def demo_release_def release_get_def)
  ultimately show ?thesis
    using due_written [OF demo_rows(1-3) demo_due demo_fence, where later = demo_later and db = demo_db
        and row = demo_release and before = "[demo_release]" and current = demo_release and force = None and who = "''kim''"]
      demo_clauses unfolding demo_rows(4) by simp
qed

lemma ship_commits_what_it_read_witness:
  "\<exists>r p. release_get (sw_releases demo_world) ''acme'' ''r1'' = Some r \<and> due (\<lambda>t. t) code_unit_cmp demo_world r p ''t2''
     \<and> stands_in_db demo_later (\<lambda>t. t) code_unit_cmp demo_db demo_world r p ''t2''"
proof -
  have "distinct (map cd_id (db_cards demo_db))" by (simp add: demo_db_def)
  from ship_commits_what_it_read [OF returned_pair [OF demo_pg_ships] option.distinct(1) this] show ?thesis by blast
qed

text \<open>The in-memory store as the API composes it is bound to no decision sources: it commits the ship that the database refuses once an
  issue was linked after the decision.\<close>

lemma unbound_store_misses_new_issue:
  assumes "linked_open db ''acme'' ''r1'' \<noteq> []" "distinct (map cd_id (db_cards db))"
  shows "\<not> isl (setReleaseStatus (\<lambda>t. t) code_unit_cmp demo_world None (demo_store\<lparr>rt_sources := None\<rparr>) ''acme'' ''r1''
      Rel_released None ''kim'' ''t2'')"
    "isl (setReleaseStatus_pg demo_later (\<lambda>t. t) code_unit_cmp demo_world fence None [demo_release] db ''acme'' ''r1''
      Rel_released None ''kim'' ''t2'')"
proof -
  have "still_stands (\<lambda>t. t) code_unit_cmp (demo_store\<lparr>rt_sources := None\<rparr>) demo_world demo_release demo_product ''t2''"
    using demo_stands by (simp add: still_stands_def)
  from due_ships [OF demo_rows(1-3) demo_due this] show "\<not> isl (setReleaseStatus (\<lambda>t. t) code_unit_cmp demo_world None
      (demo_store\<lparr>rt_sources := None\<rparr>) ''acme'' ''r1'' Rel_released None ''kim'' ''t2'')" unfolding demo_rows(4) .
  have "length (linked_open db ''acme'' ''r1'') \<noteq> sw_openIssues demo_world ''r1''" using assms(1) by (simp add: demo_world_def)
  then show "isl (setReleaseStatus_pg demo_later (\<lambda>t. t) code_unit_cmp demo_world fence None [demo_release] db ''acme'' ''r1''
      Rel_released None ''kim'' ''t2'')" by (rule new_issue_refuses) (rule assms(2))
qed

end
