(* ===== verification/Spec2Isabelle.thy ===== *)
theory Spec2Isabelle
  imports FairQueue Ordering Breaker Autoscaler Budget Admission SchedulerRoom SchedulerLedger SchedulerTheorems
    Scores VerdictLaws CaseOutcome RunLaws RegistryLaws Metering IssueLaws IssueStoreLaws DiffLaws TrialsLaws GateLaws GateLedger
    CampaignDemo MembersTheorems ImagesLaws IdentityLaws ReleasePgLaws
begin

text \<open>
  Everdict evaluates agents: a control plane places evaluation jobs on backends, grades the results, turns scores into
  verdicts, compares batches of verdicts, and decides on that comparison whether a change ships. This development models
  the packages that carry those decisions (packages/domain, packages/contracts and the parts of packages/backends,
  packages/registry, packages/db and packages/application-control that hold state) and proves what they promise.

  \<^bold>\<open>How the parts interact.\<close> A job passes the budget and enters the fair queue of the scheduler, which asks the placement
  policy and the admission counters where it may run. The result crosses the settle boundary, where forged authority is
  taken out of its scores, and is stored on a run or in a scorecard. The verdict policy turns scores into a verdict per
  case; a scorecard aggregates them; two scorecards are compared case by case and, for repeated trials, by an exact
  test. The gate decides on the comparison and its decision is appended to a ledger. A campaign asks the same comparison
  again and again for candidate after candidate, under a frame that fixes beforehand what counts. Issues, registries,
  digests, metering and workspace files are what the rest of the system keeps its intent, versions, identities, bills
  and documents in.

  \<^bold>\<open>Theories.\<close> A component has one theory with its state and operations in the order of the code and, where the proofs are
  long, others with its laws.

  \<^item> Prelude, Ordering: results as sums, maps as association lists in insertion order, \<open>Array.prototype.sort\<close> and the
    locale \<open>comparison\<close> of a consistent comparison function, interpreted wherever the code sorts.
  \<^item> FairQueue (fair-queue.ts, locale \<open>wait_queue\<close>), Breaker (circuit-breaker.ts), Autoscaler (autoscaler.ts), Budget
    (budget.ts, locale \<open>budget_tracker\<close>), Admission (the admission part of scheduler.ts, locales \<open>tally_map\<close> and
    \<open>name_order\<close>).
  \<^item> Scheduler (scheduler.ts): the whole class as a state machine. \<open>sched_step\<close> is one event: a call from outside, one stretch
    of the pump between two awaits, an answer of a backend or of a permit store, an abort. SchedulerInv has the
    invariant of the life of a job, SchedulerRoom the counters and placements, SchedulerLedger the permits and the
    budget, SchedulerProbe what the placements of a round owe the probe, SchedulerTheorems the properties. The scheduler
    places alone: admission counters shared with another lane are not an option here.
  \<^item> Scores (grader.ts, eval-case.ts and the authority half of verdict-policy.ts), Verdict and VerdictLaws
    (verdict-policy.ts: the ladder, its composition, its evaluation), CaseOutcome (case-outcome.ts).
  \<^item> Run, RunLife, RunLaws (run.ts, agent-run.ts, command-run.ts, session-run.ts, scorecard-child.ts): the aggregate, its
    histories (locale \<open>settling_ledger\<close>) and what its readers rely on.
  \<^item> Digest (content-digest.ts, version-algebra.ts), Registry and RegistryLaws (version-algebra.ts, versioned-store.ts,
    locale \<open>growing_store\<close>), Metering (cost.ts, usage.ts, pricing.ts).
  \<^item> Issue and IssueLaws (tracker/issue.ts, history.ts), IssueStore and IssueStoreLaws (issue-store.ts, locale \<open>paged\<close>).
  \<^item> Merge, MergeLaws, DiffLaws (workspace-file/merge.ts, diff.ts).
  \<^item> Scorecard (scorecard.ts), Trials and TrialsLaws (trials.ts), Gate and GateLaws (gate.ts and how scorecard-service.ts and
    scorecard-analytics-service.ts reach a decision), GateLedger (the recording and overriding of decisions).
  \<^item> Campaign (campaign-gate.ts, campaign-attempts.ts, non-inferiority.ts), CampaignVerdict (the verdict of a round),
    CampaignStore and CampaignFlow (campaign-store.ts, experiment-family.ts, the chain check), CampaignTasks (logRound and
    settle cut at the await before their write, and the run of a workspace). CampaignLaws, CampaignEvidence and ExamPower
    state what the gate, a winning round and the exact test guarantee; CampaignFamily, CampaignInv, CampaignSpend and
    CampaignClose carry the invariant of a workspace through every call and write; CampaignTheorems has the properties,
    CampaignDemo a workspace they are applied to.
  \<^item> Images and ImagesLaws (image-ref.ts, image-provenance.ts, provisioned-world.ts), Identity and IdentityLaws
    (experiment-identity.ts): the reading of two manifests and their results against each other that the gate takes as
    its input.
  \<^item> SeriesContract and its laws (the question a series asks, readiness.ts, and world-cohort.ts), Product and its laws
    (product.ts, the rows of product-store.ts), Readiness and its laws (readiness.ts), Release (release.ts), Shipping (the
    release calls of product-service.ts over release-store.ts, cut into the reads of a decision, the second reading of the
    contracts and the guarded write), ShippingLaws and ShippingTheorems (what a ship stands on over the in-memory store, that
    a released release is history, and the anchor it leaves for the next one, with a release that ships). ReleasePg is the same
    call over PostgreSQL: the capability and settings fence and the one statement of release-store.ts whose conditions
    are the rows the decision read; ReleasePgLaws shows that a ship commits what it read.
  \<^item> Access (authz.ts, ci-trust.ts, principal.ts), Profiles (display-image.ts, profile-service.ts, user-profile-store.ts),
    Members, MembersLaws, MembersTheorems (workspace-store.ts, workspace-invites.ts, membership-policy.ts,
    membership-service.ts, workspace-service.ts and the active workspace of route-context.ts): who may do what, and the
    workspaces, members and invites as stores under interleaved calls (locale \<open>role_book\<close>).
  \<^bold>\<open>What the lemmas show.\<close> For each stateful component there is an invariant, a lemma per operation that it is kept, and the
  properties read off it for every reachable state: jobs are never lost, counters and permits are exact, runs settle
  once, versions are immutable, decisions are only appended, families are never overspent, a workspace keeps an
  administrator. For the pure components the
  properties say what the result means: the verdict does not depend on the order of the scores under a policy in which none
  wins by standing first (\<open>order_free\<close>), pages cover the list for every page limit that leaves a row (\<open>walkable_limit\<close>),
  the merge takes every change, pass@k is the unbiased estimate, the exact test and its floor agree, a passing gate
  covers its baseline and compared two records that agree (\<open>records_agree\<close>), an adoption is earned on the held-out cases, a release is ready on
  vouched evidence only. Concurrency is interleaving: a call that awaits is cut there, other calls may run in between, and
  the properties quantify over all sequences of events.

  \<^bold>\<open>Numbers, time and text.\<close> A number that only counts is an integer, a price, weight, rate or virtual time an exact
  rational: the rounding of binary floating point is not modelled. Test statistics, p-values and intervals are reals with
  \<open>ln\<close>, \<open>exp\<close> and \<open>sqrt\<close>. Values that are not finite behave as NaN. The FNV digest is computed on 64-bit words. Clocks, new
  identifiers, SHA-256, content digests, \<open>Date.parse\<close>, \<open>localeCompare\<close> and the base64 envelope of a page token are parameters;
  where a property needs one of them to be consistent or injective it says so, and its witness gives an instance. Error
  messages and reason sentences are left out: an error is its class, its code and a short name of the branch.

  \<^bold>\<open>Termination and fuel.\<close> Every function is total. Loops are structural or have a measure: what is left of a list, of a group of
  hunks, of the campaigns not visited yet. Only \<open>page_walk\<close>, the client that follows page tokens until there is none, takes
  fuel, and \<open>pages_cover_list\<close> gives the number of pages that is enough.

  \<^bold>\<open>Findings.\<close> Modelling showed places where the code does not do what it means to, each with a theorem that exhibits it. The
  unregistered-pin branch of the pump can refund a run twice, and the rounds of one drain together can place more on a backend
  than its probe left (SchedulerTheorems). A page limit below one loses every issue (IssueStoreLaws). A version that is not a semantic version
  makes \<open>latest\<close> step back (RegistryLaws). Shipping lifts the order witness of commit links, and a case link handed in at
  creation loses its dataset (IssueLaws). The waiver for unrecorded judgments can never take effect, a partial
  comparison passes \<open>require_full\<close> when only the candidate measured more (GateLaws), and an accepted override can be erased
  by a concurrent one (GateLedger). A campaign whose last budgeted comparison wins without a verified identity can neither
  settle nor go on (CampaignLaws). Two runs without an image read as unverified worlds, only the last trial of a candidate
  is compared, and the first facet of a harness model that is not held hides the others (IdentityLaws). A workspace named
  in letters a slug has none of cannot be created from its name, and an invite outlives its workspace in the in-memory
  store (MembersTheorems). A removal that read a planned release erases the ship that landed in between, and a release
  created with an empty selection watches nothing and cannot be widened again (ShippingTheorems). The in-memory release store,
  bound to no decision sources where the API composes it, commits a ship that PostgreSQL refuses (ReleasePgLaws).

  \<^bold>\<open>Not modelled.\<close> Code whose work is input and output: the HTTP API, the CLI, the desktop and web applications, the clients of
  Kubernetes, Nomad and the source hosts, the SQL stores and their migrations (the in-memory stores of the same
  interfaces are modelled, and of the SQL the statement that changes the status of a release), the agents and the trace sinks. Of the application services only the operations named above
  are modelled; the others orchestrate the domain rules over stores and queues. Of the campaign service the evidence
  documents and grants, the briefs, the build ledger, and the oracle, seed, exam-control and delegation checks are inputs
  or left out. The check of a chain and the creation of the campaign are taken as one step. Of the product service the
  minting of a slug, the timeline, the version ledger and its sync and the starting of evaluations are left out.
\<close>

end
